(* ===== verification/Prelude.thy ===== *)
theory Prelude
  imports Complex_Main "HOL-Library.List_Lexorder" "HOL-Library.Char_ord"
begin

text \<open>
  Shared material: the exceptions the modelled Python code raises, the result type that makes
  every raise a value, sequencing of fallible steps, runs of state machines, and the generic
  lemmas on lists that several components use.
\<close>

section \<open>Exceptions and results\<close>

datatype py_exn =
    TypeError
  | ValueError
  | OverflowError
  | ZeroDivisionError
  | AttributeError
  | KeyError
  | IndexError
  | RuntimeError
  | OtherExn string

type_synonym 'a res = "py_exn + 'a"

text \<open>The named collections the component theories feed.\<close>

named_theorems res_simps \<open>unfolding of fallible steps\<close>
named_theorems step_defs \<open>definitions of state-machine operations\<close>
named_theorems inv_defs \<open>definitions of component invariants\<close>

definition bindE :: "'e + 'a \<Rightarrow> ('a \<Rightarrow> 'e + 'b) \<Rightarrow> 'e + 'b" where
  "bindE m f = (case m of Inl e \<Rightarrow> Inl e | Inr x \<Rightarrow> f x)"

lemma bindE_Inl [simp, res_simps]: "bindE (Inl e) f = Inl e"
  by (simp add: bindE_def)

lemma bindE_Inr [simp, res_simps]: "bindE (Inr x) f = f x"
  by (simp add: bindE_def)

lemma bindE_eq_Inr: "bindE m f = Inr y \<longleftrightarrow> (\<exists>x. m = Inr x \<and> f x = Inr y)"
  by (cases m) simp_all

lemma bindE_eq_Inl: "bindE m f = Inl e \<longleftrightarrow> m = Inl e \<or> (\<exists>x. m = Inr x \<and> f x = Inl e)"
  by (cases m) simp_all

lemma bindE_assoc: "bindE (bindE m f) g = bindE m (\<lambda>x. bindE (f x) g)"
  by (cases m) simp_all

text \<open>Apply a fallible function to every element, stopping at the first exception.\<close>

primrec mapE :: "('a \<Rightarrow> 'e + 'b) \<Rightarrow> 'a list \<Rightarrow> 'e + 'b list" where
  "mapE f [] = Inr []"
| "mapE f (x # xs) = bindE (f x) (\<lambda>y. bindE (mapE f xs) (\<lambda>ys. Inr (y # ys)))"

lemma mapE_Inr_iff:
  "mapE f xs = Inr ys \<longleftrightarrow> list_all2 (\<lambda>x y. f x = Inr y) xs ys"
  by (induction xs arbitrary: ys) (auto simp: bindE_eq_Inr list_all2_Cons1)

lemma mapE_pure: "(\<And>x. x \<in> set xs \<Longrightarrow> f x = Inr (g x)) \<Longrightarrow> mapE f xs = Inr (map g xs)"
  by (induction xs) auto

lemma mapE_Inl: "mapE f xs = Inl e \<Longrightarrow> \<exists>x \<in> set xs. f x = Inl e"
  by (induction xs) (auto simp: bindE_eq_Inl)

section \<open>Runs of fallible and of total machines\<close>

text \<open>
  \<open>runE\<close> performs the operations in order and stops at the first exception; \<open>run\<close> is for
  operations that always succeed.
\<close>

primrec runE :: "('s \<Rightarrow> 'o \<Rightarrow> 'e + 's) \<Rightarrow> 's \<Rightarrow> 'o list \<Rightarrow> 'e + 's" where
  "runE step s [] = Inr s"
| "runE step s (x # xs) = bindE (step s x) (\<lambda>s'. runE step s' xs)"

primrec run :: "('s \<Rightarrow> 'o \<Rightarrow> 's) \<Rightarrow> 's \<Rightarrow> 'o list \<Rightarrow> 's" where
  "run step s [] = s"
| "run step s (x # xs) = run step (step s x) xs"

lemma run_append: "run step s (xs @ ys) = run step (run step s xs) ys"
  by (induction xs arbitrary: s) simp_all

lemma runE_append: "runE step s (xs @ ys) = bindE (runE step s xs) (\<lambda>s'. runE step s' ys)"
  by (induction xs arbitrary: s) (simp_all add: bindE_assoc)

text \<open>
  The contract of a machine whose operations may refuse: an operation that succeeds keeps the
  invariant. Every run that succeeds then keeps it too.
\<close>

locale guarded_machine =
  fixes step :: "'s \<Rightarrow> 'o \<Rightarrow> 'e + 's"
    and inv :: "'s \<Rightarrow> bool"
  assumes step_keeps: "inv s \<Longrightarrow> step s x = Inr s' \<Longrightarrow> inv s'"
begin

lemma run_keeps: "inv s \<Longrightarrow> runE step s xs = Inr s' \<Longrightarrow> inv s'"
  by (induction xs arbitrary: s) (auto simp: bindE_eq_Inr intro: step_keeps)

end

text \<open>The contract of a machine whose operations always succeed.\<close>

locale total_machine =
  fixes step :: "'s \<Rightarrow> 'o \<Rightarrow> 's"
    and inv :: "'s \<Rightarrow> bool"
  assumes step_keeps: "inv s \<Longrightarrow> inv (step s x)"
begin

lemma run_keeps: "inv s \<Longrightarrow> inv (run step s xs)"
  by (induction xs arbitrary: s) (auto intro: step_keeps)

text \<open>A total machine is a guarded one that never refuses.\<close>

lemma run_eq_runE: "runE (\<lambda>s x. Inr (step s x)) s xs = Inr (run step s xs)"
  by (induction xs arbitrary: s) simp_all

end

sublocale total_machine \<subseteq> guarded: guarded_machine "\<lambda>s x. Inr (step s x)" inv
  by unfold_locales (auto intro: step_keeps)

section \<open>Lists\<close>

lemma list_all2_imp_nth:
  "list_all2 P xs ys \<Longrightarrow> i < length xs \<Longrightarrow> P (xs ! i) (ys ! i)"
  by (simp add: list_all2_conv_all_nth)

lemma filter_empty_iff: "filter P xs = [] \<longleftrightarrow> (\<forall>x \<in> set xs. \<not> P x)"
  by (induction xs) auto

text \<open>A string starts with a prefix (Python's \<open>str.startswith\<close>).\<close>

fun starts_with :: "string \<Rightarrow> string \<Rightarrow> bool" where
  "starts_with [] s = True"
| "starts_with (c # cs) [] = False"
| "starts_with (c # cs) (d # ds) = (c = d \<and> starts_with cs ds)"

lemma starts_with_iff: "starts_with p s \<longleftrightarrow> (\<exists>t. s = p @ t)"
  by (induction p s rule: starts_with.induct) auto

text \<open>Python's \<open>needle in haystack\<close> on strings.\<close>

fun str_contains :: "string \<Rightarrow> string \<Rightarrow> bool" where
  "str_contains p [] = (p = [])"
| "str_contains p (c # cs) = (starts_with p (c # cs) \<or> str_contains p cs)"

lemma str_contains_iff: "str_contains p s \<longleftrightarrow> (\<exists>a b. s = a @ p @ b)"
proof (induction s)
  case Nil
  then show ?case by auto
next
  case (Cons c cs)
  have "(\<exists>a b. c # cs = a @ p @ b) \<longleftrightarrow> (\<exists>b. c # cs = p @ b) \<or> (\<exists>a b. cs = a @ p @ b)"
    by (metis append_Cons append_Nil list.exhaust list.inject)
  then show ?case using Cons.IH by (simp add: starts_with_iff)
qed

section \<open>Dictionaries\<close>

text \<open>
  Python's dictionaries, in insertion order. An assignment keeps the position of a key that is
  already there; \<open>dict_pop\<close> is \<open>d.pop(k, None)\<close>.
\<close>

fun dict_set :: "'k \<Rightarrow> 'v \<Rightarrow> ('k \<times> 'v) list \<Rightarrow> ('k \<times> 'v) list" where
  "dict_set k v [] = [(k, v)]"
| "dict_set k v ((k', v') # d) = (if k' = k then (k, v) # d else (k', v') # dict_set k v d)"

definition dict_pop :: "'k \<Rightarrow> ('k \<times> 'v) list \<Rightarrow> ('k \<times> 'v) list" where
  "dict_pop k d = filter (\<lambda>(k', v). k' \<noteq> k) d"

lemma map_of_dict_set [simp]: "map_of (dict_set k v d) = (map_of d)(k \<mapsto> v)"
  by (induction d) auto

lemma map_of_dict_pop [simp]: "map_of (dict_pop k d) = (map_of d)(k := None)"
  by (induction d) (auto simp: dict_pop_def)

lemma dict_set_fresh: "k \<notin> fst ` set d \<Longrightarrow> dict_set k v d = d @ [(k, v)]"
  by (induction d) auto

lemma keys_dict_set: "fst ` set (dict_set k v d) = insert k (fst ` set d)"
proof (induction d)
  case (Cons kv d)
  then show ?case by (cases kv) (simp, blast)
qed simp

lemma distinct_dict_set: "distinct (map fst d) \<Longrightarrow> distinct (map fst (dict_set k v d))"
proof (induction d)
  case (Cons kv d)
  then show ?case using keys_dict_set [of k v d] by (cases kv) auto
qed simp

lemma distinct_dict_pop: "distinct (map fst d) \<Longrightarrow> distinct (map fst (dict_pop k d))"
  by (induction d) (auto simp: dict_pop_def)

section \<open>Slices\<close>

text \<open>Python's \<open>xs[lo:hi]\<close>: negative bounds count from the end, and both are clamped.\<close>

definition slice_bound :: "int \<Rightarrow> int \<Rightarrow> int" where
  "slice_bound n i = (if i < 0 then max 0 (i + n) else min i n)"

definition py_slice :: "int \<Rightarrow> int \<Rightarrow> 'a list \<Rightarrow> 'a list" where
  "py_slice lo hi xs =
     (let n = int (length xs); a = slice_bound n lo; b = slice_bound n hi
      in take (nat (b - a)) (drop (nat a) xs))"

lemma py_slice_nonneg: "0 \<le> lo \<Longrightarrow> 0 \<le> hi \<Longrightarrow> py_slice lo hi xs = take (nat hi - nat lo) (drop (nat lo) xs)"
proof -
  assume a: "0 \<le> lo" "0 \<le> hi"
  let ?n = "length xs"
  have "py_slice lo hi xs = take (nat (min hi (int ?n) - min lo (int ?n))) (drop (nat (min lo (int ?n))) xs)"
    using a by (simp add: py_slice_def slice_bound_def Let_def)
  also have "\<dots> = take (nat hi - nat lo) (drop (nat lo) xs)"
  proof (cases "lo \<le> int ?n")
    case True
    then show ?thesis using a by (cases "hi \<le> int ?n") (auto simp: min_def nat_diff_distrib' intro!: take_all)
  next
    case False
    then show ?thesis using a by (simp add: min_def)
  qed
  finally show ?thesis .
qed

end
