(* ===== verification/PyValue.thy ===== *)
theory PyValue
  imports Prelude
begin

text \<open>
  Python's dynamic values, as far as the modelled code inspects them: floats with NaN and the
  infinities, the JSON-like values an action or a context carries, and the coercions
  \<open>float()\<close>, \<open>int()\<close>, \<open>bool()\<close> and \<open>str()\<close>.

  IEEE-754 rounding is the platform's, not the program's: it is the field \<open>rnd\<close> of the record
  \<open>platform\<close>, applied to the exact real result of every finite operation (it may also overflow to
  an infinity); \<open>sum_floats\<close> is the builtin \<open>sum\<close> of floats, whose rounding differs between
  Python versions. Definitions take the platform as an argument, so safety theorems hold for every
  rounding; a theorem that needs exact arithmetic says so with \<open>exact pl\<close>. Signed zeros are not
  distinguished. The lexical grammars of \<open>float(str)\<close> and \<open>int(str)\<close> and the \<open>repr\<close> of a
  container are platform fields as well, and every theorem holds for every choice of them.
\<close>

section \<open>Floats\<close>

datatype pyfloat = Fin real | PInf | NInf | NaN

fun isfinite :: "pyfloat \<Rightarrow> bool" where
  "isfinite (Fin _) = True"
| "isfinite _ = False"

fun flt :: "pyfloat \<Rightarrow> pyfloat \<Rightarrow> bool" where
  "flt (Fin a) (Fin b) = (a < b)"
| "flt (Fin a) PInf = True"
| "flt NInf (Fin b) = True"
| "flt NInf PInf = True"
| "flt _ _ = False"

fun feq :: "pyfloat \<Rightarrow> pyfloat \<Rightarrow> bool" where
  "feq (Fin a) (Fin b) = (a = b)"
| "feq PInf PInf = True"
| "feq NInf NInf = True"
| "feq _ _ = False"

text \<open>Comparison operators are Python's: every comparison with NaN is false.\<close>

instantiation pyfloat :: ord
begin

definition less_pyfloat :: "pyfloat \<Rightarrow> pyfloat \<Rightarrow> bool" where
  "less_pyfloat x y = flt x y"

definition less_eq_pyfloat :: "pyfloat \<Rightarrow> pyfloat \<Rightarrow> bool" where
  "less_eq_pyfloat x y = (flt x y \<or> feq x y)"

instance ..

end

lemma pyfloat_cmp [simp]:
  "(Fin a < Fin b) = (a < b)" "(Fin a \<le> Fin b) = (a \<le> b)"
  "\<not> (NaN < y)" "\<not> (NaN \<le> y)" "\<not> (x < NaN)" "\<not> (x \<le> NaN)"
  "Fin a < PInf" "Fin a \<le> PInf" "\<not> (PInf < y)" "\<not> (PInf \<le> Fin a)" "PInf \<le> PInf"
  "NInf < Fin a" "NInf \<le> Fin a" "\<not> (x < NInf)" "\<not> (Fin a \<le> NInf)" "NInf < PInf" "NInf \<le> PInf"
  "NInf \<le> NInf" "\<not> (PInf \<le> NInf)"
  by (cases x; cases y; auto simp: less_pyfloat_def less_eq_pyfloat_def)+

lemma pyfloat_le_Fin_D: "x \<le> Fin b \<Longrightarrow> (\<exists>a. x = Fin a \<and> a \<le> b) \<or> x = NInf"
  by (cases x) auto

lemma pyfloat_Fin_le_D: "Fin a \<le> x \<Longrightarrow> (\<exists>b. x = Fin b \<and> a \<le> b) \<or> x = PInf"
  by (cases x) auto

text \<open>Python's \<open>max\<close> and \<open>min\<close> of two arguments keep the first unless the second beats it.\<close>

definition fmax :: "pyfloat \<Rightarrow> pyfloat \<Rightarrow> pyfloat" where
  "fmax x y = (if x < y then y else x)"

definition fmin :: "pyfloat \<Rightarrow> pyfloat \<Rightarrow> pyfloat" where
  "fmin x y = (if y < x then y else x)"

lemma fmax_Fin [simp]: "fmax (Fin a) (Fin b) = Fin (max a b)"
  by (simp add: fmax_def)

lemma fmin_Fin [simp]: "fmin (Fin a) (Fin b) = Fin (min a b)"
  by (auto simp: fmin_def min_def)

section \<open>Values\<close>

datatype pyval =
    VNone
  | VBool bool
  | VInt int
  | VFloat pyfloat
  | VStr string
  | VList "pyval list"
  | VSet "pyval list"
  | VDict "(string \<times> pyval) list"

record platform =
  rnd :: "real \<Rightarrow> pyfloat"
  sum_floats :: "pyfloat list \<Rightarrow> pyfloat"
  str_float :: "string \<Rightarrow> pyfloat option"
  str_int :: "string \<Rightarrow> int option"
  val_repr :: "pyval \<Rightarrow> string"

definition exact :: "platform \<Rightarrow> bool" where
  "exact pl \<longleftrightarrow>
     (\<forall>r. rnd pl r = Fin r) \<and> (\<forall>rs. sum_floats pl (map Fin rs) = Fin (sum_list rs))"

lemma exactD [simp]:
  "exact pl \<Longrightarrow> rnd pl r = Fin r"
  "exact pl \<Longrightarrow> sum_floats pl (map Fin rs) = Fin (sum_list rs)"
  by (simp_all add: exact_def)

text \<open>A concrete platform with exact arithmetic, for evaluation.\<close>

fun fin_val :: "pyfloat \<Rightarrow> real" where
  "fin_val (Fin r) = r"
| "fin_val _ = 0"

definition exact_platform :: platform where
  "exact_platform = \<lparr>rnd = Fin, sum_floats = (\<lambda>xs. Fin (sum_list (map fin_val xs))), str_float = (\<lambda>_. None), str_int = (\<lambda>_. None), val_repr = (\<lambda>_. [])\<rparr>"

lemma exact_exact_platform [simp]: "exact exact_platform"
  by (simp add: exact_def exact_platform_def comp_def)

lemma rnd_exact_platform [simp]: "rnd exact_platform r = Fin r"
  by (simp add: exact_platform_def)

section \<open>Float arithmetic\<close>

fun fneg :: "pyfloat \<Rightarrow> pyfloat" where
  "fneg (Fin a) = Fin (- a)"
| "fneg PInf = NInf"
| "fneg NInf = PInf"
| "fneg NaN = NaN"

fun fadd :: "platform \<Rightarrow> pyfloat \<Rightarrow> pyfloat \<Rightarrow> pyfloat" where
  "fadd pl (Fin a) (Fin b) = rnd pl (a + b)"
| "fadd pl NaN y = NaN"
| "fadd pl x NaN = NaN"
| "fadd pl PInf NInf = NaN"
| "fadd pl NInf PInf = NaN"
| "fadd pl PInf y = PInf"
| "fadd pl NInf y = NInf"
| "fadd pl x PInf = PInf"
| "fadd pl x NInf = NInf"

definition fsub :: "platform \<Rightarrow> pyfloat \<Rightarrow> pyfloat \<Rightarrow> pyfloat" where
  "fsub pl x y = fadd pl x (fneg y)"

fun fsign :: "pyfloat \<Rightarrow> real" where
  "fsign (Fin a) = sgn a"
| "fsign PInf = 1"
| "fsign NInf = - 1"
| "fsign NaN = 0"

definition inf_of_sign :: "real \<Rightarrow> pyfloat" where
  "inf_of_sign s = (if s > 0 then PInf else if s < 0 then NInf else NaN)"

fun fmul :: "platform \<Rightarrow> pyfloat \<Rightarrow> pyfloat \<Rightarrow> pyfloat" where
  "fmul pl (Fin a) (Fin b) = rnd pl (a * b)"
| "fmul pl NaN y = NaN"
| "fmul pl x NaN = NaN"
| "fmul pl x y = inf_of_sign (fsign x * fsign y)"

text \<open>Python's float division raises on a zero divisor, whatever the numerator.\<close>

fun fdiv :: "platform \<Rightarrow> pyfloat \<Rightarrow> pyfloat \<Rightarrow> pyfloat res" where
  "fdiv pl (Fin a) (Fin b) = (if b = 0 then Inl ZeroDivisionError else Inr (rnd pl (a / b)))"
| "fdiv pl x (Fin b) =
     (if b = 0 then Inl ZeroDivisionError else Inr (inf_of_sign (fsign x * sgn b)))"
| "fdiv pl (Fin a) PInf = Inr (Fin 0)"
| "fdiv pl (Fin a) NInf = Inr (Fin 0)"
| "fdiv pl x y = Inr NaN"

text \<open>\<open>math.log10\<close> raises \<open>ValueError\<close> outside its domain.\<close>

fun flog10 :: "platform \<Rightarrow> pyfloat \<Rightarrow> pyfloat res" where
  "flog10 pl (Fin a) = (if a > 0 then Inr (rnd pl (log 10 a)) else Inl ValueError)"
| "flog10 pl PInf = Inr PInf"
| "flog10 pl NInf = Inl ValueError"
| "flog10 pl NaN = Inr NaN"

lemma fsub_Fin [simp]: "fsub pl (Fin a) (Fin b) = rnd pl (a - b)"
  by (simp add: fsub_def)

lemma fdiv_no_zero: "y = Fin b \<Longrightarrow> b \<noteq> 0 \<Longrightarrow> \<exists>z. fdiv pl x y = Inr z"
  by (cases x) auto

text \<open>Halving never raises: the code's \<open>x / 2.0\<close>.\<close>

fun fhalf :: "platform \<Rightarrow> pyfloat \<Rightarrow> pyfloat" where
  "fhalf pl (Fin a) = rnd pl (a / 2)"
| "fhalf pl x = x"

lemma fdiv_two: "fdiv pl x (Fin 2) = Inr (fhalf pl x)"
  by (cases x) (simp_all add: inf_of_sign_def)

fun fabs :: "pyfloat \<Rightarrow> pyfloat" where
  "fabs (Fin a) = Fin \<bar>a\<bar>"
| "fabs PInf = PInf"
| "fabs NInf = PInf"
| "fabs NaN = NaN"

section \<open>Coercions\<close>

definition trunc :: "real \<Rightarrow> int" where
  "trunc r = (if r \<ge> 0 then \<lfloor>r\<rfloor> else \<lceil>r\<rceil>)"

lemma trunc_of_int [simp]: "trunc (of_int n) = n"
  by (simp add: trunc_def)

text \<open>\<open>float(n)\<close> of an int raises \<open>OverflowError\<close> when it rounds to no finite float.\<close>

definition int_to_float :: "platform \<Rightarrow> int \<Rightarrow> pyfloat res" where
  "int_to_float pl n =
     (if isfinite (rnd pl (of_int n)) then Inr (rnd pl (of_int n)) else Inl OverflowError)"

fun py_float :: "platform \<Rightarrow> pyval \<Rightarrow> pyfloat res" where
  "py_float pl (VFloat x) = Inr x"
| "py_float pl (VInt n) = int_to_float pl n"
| "py_float pl (VBool b) = int_to_float pl (if b then 1 else 0)"
| "py_float pl (VStr s) = (case str_float pl s of None \<Rightarrow> Inl ValueError | Some x \<Rightarrow> Inr x)"
| "py_float pl _ = Inl TypeError"

fun py_int :: "platform \<Rightarrow> pyval \<Rightarrow> int res" where
  "py_int pl (VInt n) = Inr n"
| "py_int pl (VBool b) = Inr (if b then 1 else 0)"
| "py_int pl (VFloat (Fin r)) = Inr (trunc r)"
| "py_int pl (VFloat NaN) = Inl ValueError"
| "py_int pl (VFloat _) = Inl OverflowError"
| "py_int pl (VStr s) = (case str_int pl s of None \<Rightarrow> Inl ValueError | Some n \<Rightarrow> Inr n)"
| "py_int pl _ = Inl TypeError"

fun truthy :: "pyval \<Rightarrow> bool" where
  "truthy VNone = False"
| "truthy (VBool b) = b"
| "truthy (VInt n) = (n \<noteq> 0)"
| "truthy (VFloat x) = (x \<noteq> Fin 0)"
| "truthy (VStr s) = (s \<noteq> [])"
| "truthy (VList xs) = (xs \<noteq> [])"
| "truthy (VSet xs) = (xs \<noteq> [])"
| "truthy (VDict d) = (d \<noteq> [])"

fun py_str :: "platform \<Rightarrow> pyval \<Rightarrow> string" where
  "py_str pl (VStr s) = s"
| "py_str pl VNone = ''None''"
| "py_str pl (VBool b) = (if b then ''True'' else ''False'')"
| "py_str pl v = val_repr pl v"

text \<open>\<open>list(x)\<close> of a value; a dictionary gives its keys.\<close>

fun py_list :: "pyval \<Rightarrow> pyval list res" where
  "py_list (VList xs) = Inr xs"
| "py_list (VSet xs) = Inr xs"
| "py_list (VStr s) = Inr (map (\<lambda>c. VStr [c]) s)"
| "py_list (VDict d) = Inr (map (\<lambda>(k, _). VStr k) d)"
| "py_list _ = Inl TypeError"

section \<open>Dictionaries with string keys\<close>

type_synonym action = "string \<rightharpoonup> pyval"

text \<open>\<open>d.get(k, default)\<close> and \<open>d.get(k)\<close>.\<close>

definition dget :: "action \<Rightarrow> string \<Rightarrow> pyval \<Rightarrow> pyval" where
  "dget d k dflt = (case d k of None \<Rightarrow> dflt | Some v \<Rightarrow> v)"

lemma dget_simps [simp]:
  "d k = None \<Longrightarrow> dget d k dflt = dflt" "d k = Some v \<Longrightarrow> dget d k dflt = v"
  "dget (d(k \<mapsto> v)) k dflt = v" "k \<noteq> k' \<Longrightarrow> dget (d(k' \<mapsto> v)) k dflt = dget d k dflt"
  by (simp_all add: dget_def)

text \<open>The float in a dictionary field, with the default the code gives.\<close>

definition fget :: "platform \<Rightarrow> action \<Rightarrow> string \<Rightarrow> pyfloat \<Rightarrow> pyfloat res" where
  "fget pl d k dflt = py_float pl (dget d k (VFloat dflt))"

lemma fget_upd_same [simp]: "fget pl (d(k \<mapsto> VFloat x)) k dflt = Inr x"
  by (simp add: fget_def)

lemma fget_upd_other [simp]: "k \<noteq> k' \<Longrightarrow> fget pl (d(k' \<mapsto> v)) k dflt = fget pl d k dflt"
  by (simp add: fget_def)

text \<open>The exceptions a float coercion can raise.\<close>

lemma py_float_exn: "py_float pl v = Inl e \<Longrightarrow> e \<in> {TypeError, ValueError, OverflowError}"
  by (cases v) (auto simp: int_to_float_def split: if_splits option.splits)

lemma py_int_exn: "py_int pl v = Inl e \<Longrightarrow> e \<in> {TypeError, ValueError, OverflowError}"
proof (cases v)
  case (VFloat x)
  then show "py_int pl v = Inl e \<Longrightarrow> ?thesis" by (cases x) auto
qed (auto split: if_splits option.splits)

lemma fget_exn: "fget pl d k dflt = Inl e \<Longrightarrow> e \<in> {TypeError, ValueError, OverflowError}"
  by (auto simp: fget_def dest: py_float_exn)

lemma fdiv_exn: "fdiv pl x y = Inl e \<Longrightarrow> e = ZeroDivisionError"
  by (cases x; cases y) (auto split: if_splits)

lemma flog10_exn: "flog10 pl x = Inl e \<Longrightarrow> e = ValueError"
  by (cases x) (auto split: if_splits)

section \<open>Rounding to integers\<close>

text \<open>\<open>round(x)\<close> rounds halves to even and raises on NaN and the infinities.\<close>

definition round_half_even :: "real \<Rightarrow> int" where
  "round_half_even r =
     (let f = \<lfloor>r\<rfloor>; d = r - of_int f
      in if d < 1 / 2 then f else if d > 1 / 2 then f + 1 else if even f then f else f + 1)"

lemma round_half_even_close: "\<bar>of_int (round_half_even r) - r\<bar> \<le> 1 / 2"
  unfolding round_half_even_def Let_def by (simp split: if_splits)

fun py_round :: "pyfloat \<Rightarrow> int res" where
  "py_round (Fin r) = Inr (round_half_even r)"
| "py_round NaN = Inl ValueError"
| "py_round _ = Inl OverflowError"

text \<open>\<open>round(x, 1)\<close> rounds the exact decimal expansion, halves to even; non-finite floats are returned.\<close>

fun py_round1 :: "platform \<Rightarrow> pyfloat \<Rightarrow> pyfloat" where
  "py_round1 pl (Fin r) = rnd pl (of_int (round_half_even (r * 10)) / 10)"
| "py_round1 pl x = x"

end
