(* ===== verification/A1Schema.thy ===== *)
theory A1Schema
  imports PyValue
begin

text \<open>
  The JSON Schemas of the A1 policy types (\<open>A1Adapter._policy_create_schema\<close> in
  \<open>rapp/a1_adapter.py\<close>) and what it means for a payload to conform to one. A schema is a datatype
  with the keywords the code uses; \<open>render\<close> gives the dictionary the code builds. \<open>conforms\<close> is the
  Draft-07 meaning of these keywords, the specification the Near-RT RIC checks payloads against.
\<close>

section \<open>Schemas\<close>

datatype jschema =
    JObject "(string \<times> jschema) list" "string list"
  | JAnyObject
  | JString "string list option"
  | JInteger "int option" "int option"
  | JNumber "int option" "int option"

definition bounds :: "int option \<Rightarrow> int option \<Rightarrow> (string \<times> pyval) list" where
  "bounds lo hi =
     (case lo of None \<Rightarrow> [] | Some n \<Rightarrow> [(''minimum'', VInt n)]) @
     (case hi of None \<Rightarrow> [] | Some n \<Rightarrow> [(''maximum'', VInt n)])"

fun render_fields :: "jschema \<Rightarrow> (string \<times> pyval) list" where
  "render_fields (JObject props req) =
     [(''type'', VStr ''object''),
      (''properties'', VDict (map (\<lambda>(k, s). (k, VDict (render_fields s))) props)),
      (''required'', VList (map VStr req)),
      (''additionalProperties'', VBool False)]"
| "render_fields JAnyObject = [(''type'', VStr ''object'')]"
| "render_fields (JString enum) =
     (''type'', VStr ''string'') # (case enum of None \<Rightarrow> [] | Some vs \<Rightarrow> [(''enum'', VList (map VStr vs))])"
| "render_fields (JInteger lo hi) = (''type'', VStr ''integer'') # bounds lo hi"
| "render_fields (JNumber lo hi) = (''type'', VStr ''number'') # bounds lo hi"

definition common_meta :: "(string \<times> jschema) list" where
  "common_meta =
     [(''rapp_metadata'',
       JObject [(''decision_id'', JString None), (''rapp_version'', JString None), (''model_versions'', JAnyObject)]
         [''decision_id''])]"

definition qos_schema :: jschema where
  "qos_schema =
     JObject
       ([(''scope'', JObject [(''slice_id'', JString None), (''ue_id'', JString None)] [''slice_id'']),
         (''qos_objectives'',
          JObject [(''priority'', JInteger (Some 1) (Some 15)),
                   (''guaranteed_bit_rate_kbps'', JNumber (Some 0) None),
                   (''max_bit_rate_kbps'', JNumber (Some 0) None)] [''priority''])] @ common_meta)
       [''scope'', ''qos_objectives'']"

definition steering_schema :: jschema where
  "steering_schema =
     JObject
       ([(''scope'', JObject [(''ue_group'', JString None), (''cell_id'', JString None)] [''ue_group'']),
         (''steering_objectives'',
          JObject [(''preferred_path'', JString (Some [''terrestrial'', ''ntn'', ''hybrid''])),
                   (''ntn_share_pct'', JNumber (Some 0) (Some 100))] [''preferred_path''])] @ common_meta)
       [''scope'', ''steering_objectives'']"

definition admission_schema :: jschema where
  "admission_schema =
     JObject
       ([(''scope'', JObject [(''workload_class'', JString None), (''edge_node_id'', JString None)] [''workload_class'']),
         (''admission'',
          JObject [(''decision'', JString (Some [''accept'', ''defer'', ''reject''])),
                   (''defer_until_seconds'', JNumber (Some 0) None)] [''decision''])] @ common_meta)
       [''scope'', ''admission'']"

definition reservation_schema :: jschema where
  "reservation_schema =
     JObject
       ([(''scope'', JObject [(''band_id'', JString None), (''cell_id'', JString None)] [''band_id'']),
         (''reservation'',
          JObject [(''freq_low_hz'', JNumber (Some 0) None), (''freq_high_hz'', JNumber (Some 0) None),
                   (''traffic_class'', JString None)]
            [''freq_low_hz'', ''freq_high_hz'', ''traffic_class''])] @ common_meta)
       [''scope'', ''reservation'']"

definition policy_schema :: "string \<Rightarrow> jschema res" where
  "policy_schema policy_type =
     (if policy_type = ''horizon.qos.priority'' then Inr qos_schema
      else if policy_type = ''horizon.traffic.steering'' then Inr steering_schema
      else if policy_type = ''horizon.admission.control'' then Inr admission_schema
      else if policy_type = ''horizon.spectrum.reservation'' then Inr reservation_schema
      else Inl ValueError)"

definition policy_create_schema :: "string \<Rightarrow> pyval res" where
  "policy_create_schema policy_type =
     bindE (policy_schema policy_type) (\<lambda>s.
       Inr (VDict ((''$schema'', VStr ''http://json-schema.org/draft-07/schema#'') # render_fields s)))"

section \<open>Conformance\<close>

definition in_bounds :: "int option \<Rightarrow> int option \<Rightarrow> real \<Rightarrow> bool" where
  "in_bounds lo hi x \<longleftrightarrow>
     (case lo of None \<Rightarrow> True | Some n \<Rightarrow> of_int n \<le> x) \<and> (case hi of None \<Rightarrow> True | Some n \<Rightarrow> x \<le> of_int n)"

fun is_number :: "int option \<Rightarrow> int option \<Rightarrow> pyval \<Rightarrow> bool" where
  "is_number lo hi (VInt n) = in_bounds lo hi (of_int n)"
| "is_number lo hi (VFloat (Fin r)) = in_bounds lo hi r"
| "is_number lo hi _ = False"

fun is_integer :: "int option \<Rightarrow> int option \<Rightarrow> pyval \<Rightarrow> bool" where
  "is_integer lo hi (VInt n) = in_bounds lo hi (of_int n)"
| "is_integer lo hi _ = False"

fun is_string :: "string list option \<Rightarrow> pyval \<Rightarrow> bool" where
  "is_string enum (VStr s) = (case enum of None \<Rightarrow> True | Some vs \<Rightarrow> s \<in> set vs)"
| "is_string enum _ = False"

primrec conforms :: "jschema \<Rightarrow> pyval \<Rightarrow> bool" where
  "conforms (JObject props req) v =
     (case v of
        VDict kvs \<Rightarrow>
          (\<forall>k \<in> set req. k \<in> set (map fst kvs)) \<and>
          list_all (\<lambda>(k, w). list_ex (\<lambda>(k', c). k' = k \<and> c w) (map (map_prod id conforms) props)) kvs
      | _ \<Rightarrow> False)"
| "conforms JAnyObject v = (case v of VDict _ \<Rightarrow> True | _ \<Rightarrow> False)"
| "conforms (JString enum) v = is_string enum v"
| "conforms (JInteger lo hi) v = is_integer lo hi v"
| "conforms (JNumber lo hi) v = is_number lo hi v"

end
