(* ===== verification/Alarms.thy ===== *)
theory Alarms
  imports PyValue
begin

text \<open>
  The X.733 alarm records and the process-wide alarm bus (\<open>observability/x733_alarms.py\<close>): the table
  of internal events, the mapping of an event to an alarm, the registry of active alarms, the history
  and the delivery to subscribers. Alarm ids and event times, which the code draws from \<open>uuid4\<close> and
  the clock, are arguments. A subscriber is a name; what it does is not modelled, only that it is
  called, and that the exception it may raise is swallowed.
\<close>

section \<open>Records\<close>

datatype alarm_type = COMMUNICATIONS | QOS | PROCESSING_ERROR | EQUIPMENT | ENVIRONMENTAL

fun alarm_type_value :: "alarm_type \<Rightarrow> string" where
  "alarm_type_value COMMUNICATIONS = ''communicationsAlarm''"
| "alarm_type_value QOS = ''qualityOfServiceAlarm''"
| "alarm_type_value PROCESSING_ERROR = ''processingErrorAlarm''"
| "alarm_type_value EQUIPMENT = ''equipmentAlarm''"
| "alarm_type_value ENVIRONMENTAL = ''environmentalAlarm''"

datatype severity = CLEARED | INDETERMINATE | CRITICAL | MAJOR | MINOR | WARNING

fun severity_value :: "severity \<Rightarrow> string" where
  "severity_value CLEARED = ''cleared''"
| "severity_value INDETERMINATE = ''indeterminate''"
| "severity_value CRITICAL = ''critical''"
| "severity_value MAJOR = ''major''"
| "severity_value MINOR = ''minor''"
| "severity_value WARNING = ''warning''"

type_synonym info = "(string \<times> pyval) list"

record alarm =
  alarm_id :: string
  managed_object_class :: string
  managed_object_instance :: string
  alarm_type :: alarm_type
  probable_cause :: string
  perceived_severity :: severity
  specific_problem :: string
  event_time :: real
  additional_text :: string
  additional_information :: info

definition is_clearing :: "alarm \<Rightarrow> bool" where
  "is_clearing a \<longleftrightarrow> perceived_severity a = CLEARED"

definition to_yang_notification :: "(real \<Rightarrow> string) \<Rightarrow> alarm \<Rightarrow> info" where
  "to_yang_notification isoformat a =
     [(''alarm-id'', VStr (alarm_id a)),
      (''managed-object-class'', VStr (managed_object_class a)),
      (''managed-object-instance'', VStr (managed_object_instance a)),
      (''alarm-type'', VStr (alarm_type_value (alarm_type a))),
      (''probable-cause'', VStr (probable_cause a)),
      (''perceived-severity'', VStr (severity_value (perceived_severity a))),
      (''specific-problem'', VStr (specific_problem a)),
      (''event-time'', VStr (isoformat (event_time a))),
      (''additional-text'', VStr (additional_text a)),
      (''additional-information'', VDict (additional_information a))]"

section \<open>The table of events\<close>

record alarm_spec =
  spec_type :: alarm_type
  spec_cause :: string
  spec_severity :: severity
  spec_problem :: string

definition spec_of :: "alarm_type \<Rightarrow> string \<Rightarrow> severity \<Rightarrow> string \<Rightarrow> alarm_spec" where
  "spec_of t c s p = \<lparr>spec_type = t, spec_cause = c, spec_severity = s, spec_problem = p\<rparr>"

definition FAILURE_MAP :: "(string \<times> alarm_spec) list" where
  "FAILURE_MAP =
     [(''horizon.cb.opened'',
       spec_of PROCESSING_ERROR ''internalServiceFailure'' MAJOR ''Circuit breaker opened on dependency call''),
      (''horizon.cb.half_open'',
       spec_of PROCESSING_ERROR ''internalServiceFailure'' WARNING ''Circuit breaker entered HALF_OPEN probe state''),
      (''horizon.cb.closed'',
       spec_of PROCESSING_ERROR ''internalServiceFailure'' CLEARED ''Circuit breaker recovered to CLOSED''),
      (''horizon.degraded.entered'', spec_of QOS ''qosAlarm'' MAJOR ''rApp entered graceful-degradation mode''),
      (''horizon.degraded.recovered'',
       spec_of QOS ''qosAlarm'' CLEARED ''rApp recovered from graceful-degradation mode''),
      (''horizon.evidence.tamper_detected'',
       spec_of PROCESSING_ERROR ''softwareError'' CRITICAL ''Audit chain SHA-256 verification failed''),
      (''horizon.evidence.append_failed'',
       spec_of PROCESSING_ERROR ''storageError'' MAJOR ''Append to evidence store failed''),
      (''horizon.watchdog.failed'', spec_of EQUIPMENT ''equipmentFailure'' CRITICAL ''Liveness watchdog timeout''),
      (''horizon.sla.breach'', spec_of QOS ''thresholdCrossed'' MAJOR ''SLA breach predicted''),
      (''horizon.auth.denied'',
       spec_of PROCESSING_ERROR ''authenticationFailure'' MINOR ''Authentication denied at security middleware''),
      (''horizon.a1.emit_refused'',
       spec_of COMMUNICATIONS ''callEstablishmentError'' MAJOR ''A1 policy emit refused by guard chain'')]"

text \<open>An event that is not in the table raises \<open>KeyError\<close>. The arguments \<open>ident\<close> and \<open>now\<close> are the alarm's id and time.\<close>

definition map_event_to_alarm ::
  "string \<Rightarrow> info option \<Rightarrow> severity option \<Rightarrow> string \<Rightarrow> real \<Rightarrow> alarm res" where
  "map_event_to_alarm event_name info sev_override ident now =
     (case map_of FAILURE_MAP event_name of
        None \<Rightarrow> Inl KeyError
      | Some spec \<Rightarrow>
          Inr \<lparr>alarm_id = ident, managed_object_class = ''Horizon-RIC.rApp'',
               managed_object_instance = ''rApp/horizon_ric'', alarm_type = spec_type spec,
               probable_cause = spec_cause spec,
               perceived_severity = (case sev_override of Some s \<Rightarrow> s | None \<Rightarrow> spec_severity spec),
               specific_problem = spec_problem spec, event_time = now, additional_text = event_name,
               additional_information = (case info of Some i \<Rightarrow> i | None \<Rightarrow> [])\<rparr>)"

section \<open>The bus\<close>

type_synonym active_key = "string \<times> string \<times> string"

record alarm_bus =
  subscribers :: "string list"
  active :: "(active_key \<times> alarm) list"
  alarm_history :: "alarm list"

definition bus_new :: alarm_bus where
  "bus_new = \<lparr>subscribers = [], active = [], alarm_history = []\<rparr>"

definition alarm_key :: "alarm \<Rightarrow> active_key" where
  "alarm_key a = (managed_object_instance a, alarm_type_value (alarm_type a), probable_cause a)"

definition subscribe :: "string \<Rightarrow> alarm_bus \<Rightarrow> alarm_bus" where
  "subscribe fn b = b\<lparr>subscribers := subscribers b @ [fn]\<rparr>"

text \<open>\<open>emit\<close> also tells which subscriber was called with what.\<close>

definition emit :: "alarm \<Rightarrow> alarm_bus \<Rightarrow> alarm_bus \<times> (string \<times> alarm) list" where
  "emit a b =
     (b\<lparr>active := (if is_clearing a then dict_pop (alarm_key a) (active b)
                   else dict_set (alarm_key a) a (active b)),
        alarm_history := alarm_history b @ [a]\<rparr>,
      map (\<lambda>fn. (fn, a)) (subscribers b))"

definition emit_event ::
  "string \<Rightarrow> info option \<Rightarrow> severity option \<Rightarrow> string \<Rightarrow> real \<Rightarrow> alarm_bus \<Rightarrow> alarm_bus \<times> alarm res" where
  "emit_event event_name info sev_override ident now b =
     (case map_event_to_alarm event_name info sev_override ident now of
        Inl e \<Rightarrow> (b, Inl e)
      | Inr a \<Rightarrow> (fst (emit a b), Inr a))"

definition active_alarms :: "alarm_bus \<Rightarrow> alarm list" where
  "active_alarms b = map snd (active b)"

section \<open>The registry is a function of the history\<close>

text \<open>The alarm a history leaves active under a key: the latest one there, unless it clears.\<close>

fun outstanding :: "active_key \<Rightarrow> alarm list \<Rightarrow> alarm option" where
  "outstanding k [] = None"
| "outstanding k (a # newest_first) =
     (if alarm_key a = k then (if is_clearing a then None else Some a) else outstanding k newest_first)"

datatype bus_op =
    Subscribe string
  | Emit alarm
  | EmitEvent string "info option" "severity option" string real

fun bus_step :: "alarm_bus \<Rightarrow> bus_op \<Rightarrow> alarm_bus" where
  "bus_step b (Subscribe fn) = subscribe fn b"
| "bus_step b (Emit a) = fst (emit a b)"
| "bus_step b (EmitEvent e i s ident now) = fst (emit_event e i s ident now b)"

definition bus_inv :: "alarm_bus \<Rightarrow> bool" where
  "bus_inv b \<longleftrightarrow>
     distinct (map fst (active b)) \<and> (\<forall>k. map_of (active b) k = outstanding k (rev (alarm_history b)))"

lemma subscribe_inv: "bus_inv b \<Longrightarrow> bus_inv (subscribe fn b)"
  by (simp add: bus_inv_def subscribe_def)

lemma emit_inv: "bus_inv b \<Longrightarrow> bus_inv (fst (emit a b))"
  by (auto simp: bus_inv_def emit_def distinct_dict_set distinct_dict_pop)

lemma emit_event_inv: "bus_inv b \<Longrightarrow> bus_inv (fst (emit_event e i s ident now b))"
  by (simp add: emit_event_def emit_inv split: sum.split)

interpretation bus: total_machine bus_step bus_inv
proof
  fix b op assume "bus_inv b"
  then show "bus_inv (bus_step b op)"
    by (cases op) (simp_all add: subscribe_inv emit_inv emit_event_inv)
qed

lemma bus_new_inv: "bus_inv bus_new"
  by (simp add: bus_inv_def bus_new_def)

text \<open>
  C25. The active-alarm registry says exactly what the history implies: after any sequence of
  subscriptions and emissions there is at most one active alarm per key, and under each key it is the
  latest alarm emitted with that key, or none when that one was a clearing.
\<close>

theorem active_is_outstanding:
  "distinct (map fst (active (run bus_step bus_new ops))) \<and>
   map_of (active (run bus_step bus_new ops)) k =
     outstanding k (rev (alarm_history (run bus_step bus_new ops)))"
  using bus.run_keeps [OF bus_new_inv, of ops] unfolding bus_inv_def by blast

text \<open>The key of the alarms an event raises.\<close>

definition event_key :: "string \<Rightarrow> active_key option" where
  "event_key e = map_option (\<lambda>s. (''rApp/horizon_ric'', alarm_type_value (spec_type s), spec_cause s)) (map_of FAILURE_MAP e)"

definition clears :: "string \<Rightarrow> bool" where
  "clears e \<longleftrightarrow> (case map_of FAILURE_MAP e of None \<Rightarrow> False | Some s \<Rightarrow> spec_severity s = CLEARED)"

lemma emit_event_known:
  assumes "event_key e = Some k"
  shows "\<exists>a. map_event_to_alarm e i s ident now = Inr a \<and> alarm_key a = k \<and>
           (s = None \<longrightarrow> (is_clearing a \<longleftrightarrow> clears e)) \<and> additional_text a = e"
  using assms
  by (auto simp: event_key_def map_event_to_alarm_def alarm_key_def is_clearing_def clears_def split: option.splits)

lemma emit_event_active:
  assumes "event_key e = Some k"
  shows "map_of (active (fst (emit_event e i None ident now b))) k' =
           (if k' = k then
              (if clears e then None
               else (case map_event_to_alarm e i None ident now of Inr a \<Rightarrow> Some a | Inl _ \<Rightarrow> None))
            else map_of (active b) k')"
  using emit_event_known [OF assms, of i None ident now]
  by (auto simp: emit_event_def emit_def)

definition breaker_info :: "string \<Rightarrow> info" where
  "breaker_info name = [(''breaker'', VStr name)]"

text \<open>
  Two circuit breakers share one alarm: the bus keys alarms by object, type and cause, and the
  breaker's name is in none of them. When breaker \<open>x\<close> opens, breaker \<open>y\<close> opens and \<open>y\<close> closes again,
  no breaker alarm is active any more although \<open>x\<close> is still open.
\<close>

theorem breaker_alarm_shared:
  "map_of (active (run bus_step b
      [EmitEvent ''horizon.cb.opened'' (Some (breaker_info x)) None i1 t1,
       EmitEvent ''horizon.cb.opened'' (Some (breaker_info y)) None i2 t2,
       EmitEvent ''horizon.cb.closed'' (Some (breaker_info y)) None i3 t3]))
     (''rApp/horizon_ric'', ''processingErrorAlarm'', ''internalServiceFailure'') = None"
proof -
  have "event_key ''horizon.cb.closed'' = Some (''rApp/horizon_ric'', ''processingErrorAlarm'', ''internalServiceFailure'')"
    "clears ''horizon.cb.closed''"
    by (simp_all add: event_key_def clears_def FAILURE_MAP_def spec_of_def)
  from emit_event_active [OF this(1)] this(2) show ?thesis by simp
qed

text \<open>Apart from the breaker and the degradation families no two events share a key.\<close>

lemma table_keys:
  "\<forall>e \<in> set (map fst FAILURE_MAP). \<forall>e' \<in> set (map fst FAILURE_MAP).
     event_key e = event_key e' \<longrightarrow>
       e = e' \<or> starts_with ''horizon.cb.'' e \<and> starts_with ''horizon.cb.'' e' \<or>
       starts_with ''horizon.degraded.'' e \<and> starts_with ''horizon.degraded.'' e'"
  by code_simp

end
