(* ===== verification/Breaker.thy ===== *)
theory Breaker
  imports Alarms
begin

text \<open>
  The asynchronous circuit breaker (\<open>runtime/circuit_breaker.py\<close>): the gate before a call, the report
  after it, and the listener that turns state changes into alarms. The breaker object itself is
  pybreaker's, a third-party package: it is the parameter \<open>pb\<close>, a record of the operations the code
  calls, and \<open>pybreaker_ok\<close> states what its documentation promises of them. While a call is awaited
  other calls run, so a call is two atomic sections, \<open>call_begin\<close> and \<open>call_end\<close>. Times are real
  seconds.
\<close>

section \<open>The parameter\<close>

text \<open>A notification of a state change: the old state's name (if any), the new one's, the counter.\<close>

type_synonym state_note = "string option \<times> string \<times> int"

record 'b pybreaker =
  pb_state :: "'b \<Rightarrow> string"
  pb_opened_at :: "'b \<Rightarrow> real option"
  pb_fail_counter :: "'b \<Rightarrow> int"
  pb_half_open :: "'b \<Rightarrow> 'b \<times> state_note list"
  pb_handle_error :: "real \<Rightarrow> 'b \<Rightarrow> 'b \<times> state_note list"
  pb_handle_success :: "'b \<Rightarrow> 'b \<times> state_note list"
  pb_close :: "'b \<Rightarrow> 'b \<times> state_note list"

text \<open>
  The documented behaviour: \<open>fail_max\<close> consecutive failures open a closed breaker; a success resets
  the counter; in the half-open state a success closes and a failure opens; an open breaker is not
  changed by reports of calls that were already under way.
\<close>

definition closed_ok :: "'b pybreaker \<Rightarrow> int \<Rightarrow> 'b \<Rightarrow> bool" where
  "closed_ok pb fail_max s \<longleftrightarrow>
     (pb_state pb s = ''closed'' \<longrightarrow>
        pb_state pb (fst (pb_handle_success pb s)) = ''closed'' \<and> pb_fail_counter pb (fst (pb_handle_success pb s)) = 0 \<and>
        (\<forall>now. let s' = fst (pb_handle_error pb now s)
               in pb_fail_counter pb s' = pb_fail_counter pb s + 1 \<and>
                  (if pb_fail_counter pb s + 1 < fail_max then pb_state pb s' = ''closed''
                   else pb_state pb s' = ''open'' \<and> pb_opened_at pb s' = Some now)))"

definition half_open_ok :: "'b pybreaker \<Rightarrow> 'b \<Rightarrow> bool" where
  "half_open_ok pb s \<longleftrightarrow>
     (pb_state pb s = ''half-open'' \<longrightarrow>
        pb_state pb (fst (pb_handle_success pb s)) = ''closed'' \<and> pb_fail_counter pb (fst (pb_handle_success pb s)) = 0 \<and>
        (\<forall>now. pb_state pb (fst (pb_handle_error pb now s)) = ''open'' \<and>
               pb_opened_at pb (fst (pb_handle_error pb now s)) = Some now))"

definition pybreaker_ok :: "'b pybreaker \<Rightarrow> int \<Rightarrow> bool" where
  "pybreaker_ok pb fail_max \<longleftrightarrow>
     (\<forall>s. closed_ok pb fail_max s \<and> half_open_ok pb s \<and>
          pb_state pb (fst (pb_half_open pb s)) = ''half-open'' \<and>
          pb_state pb (fst (pb_close pb s)) = ''closed'' \<and> pb_fail_counter pb (fst (pb_close pb s)) = 0)"

section \<open>The wrapper\<close>

record breaker_config =
  cb_name :: string
  cb_fail_max :: int
  cb_reset_timeout :: real

definition default_config :: breaker_config where
  "default_config = \<lparr>cb_name = ''horizon.cb'', cb_fail_max = 5, cb_reset_timeout = 30\<rparr>"

text \<open>The exceptions a wrapped call can raise, as far as \<open>_is_failure\<close> tells them apart.\<close>

datatype call_exn =
    HTTPStatusError int
  | TimeoutException
  | ConnectError
  | NetworkError
  | RemoteProtocolError
  | OtherHTTPError string
  | NonHTTP string

fun is_failure :: "call_exn \<Rightarrow> bool" where
  "is_failure (HTTPStatusError code) = (500 \<le> code \<and> code < 600)"
| "is_failure TimeoutException = True"
| "is_failure ConnectError = True"
| "is_failure NetworkError = True"
| "is_failure RemoteProtocolError = True"
| "is_failure (OtherHTTPError _) = True"
| "is_failure (NonHTTP _) = False"

text \<open>The alarm event of a state change.\<close>

definition state_change :: "string \<Rightarrow> state_note \<Rightarrow> (string \<times> info) option" where
  "state_change name note =
     (case note of (old, new, counter) \<Rightarrow>
        let from_state = VStr (case old of Some st \<Rightarrow> st | None \<Rightarrow> ''init'')
        in if new = ''open'' then
             Some (''horizon.cb.opened'',
               [(''breaker'', VStr name), (''from_state'', from_state), (''fail_counter'', VInt counter)])
           else if new = ''half-open'' then
             Some (''horizon.cb.half_open'', [(''breaker'', VStr name), (''from_state'', from_state)])
           else if new = ''closed'' then
             Some (''horizon.cb.closed'', [(''breaker'', VStr name), (''from_state'', from_state)])
           else None)"

definition notify :: "string \<Rightarrow> state_note list \<Rightarrow> (string \<times> info) list" where
  "notify name notes = List.map_filter (state_change name) notes"

text \<open>\<open>reset_timeout\<close> elapses at \<open>opened_at + reset_timeout\<close>; before that the call is rejected.\<close>

definition call_begin ::
  "'b pybreaker \<Rightarrow> breaker_config \<Rightarrow> real \<Rightarrow> 'b \<Rightarrow> ('b \<times> (string \<times> info) list) \<times> bool res" where
  "call_begin pb cfg now s =
     (if pb_state pb s = ''open'' then
        if (case pb_opened_at pb s of None \<Rightarrow> False | Some t \<Rightarrow> now < t + cb_reset_timeout cfg)
        then ((s, []), Inl (OtherExn ''CircuitBreakerError''))
        else (case pb_half_open pb s of (s', notes) \<Rightarrow> ((s', notify (cb_name cfg) notes), Inr True))
      else ((s, []), Inr True))"

datatype 'v outcome = Returned 'v | Raised call_exn

definition call_end ::
  "'b pybreaker \<Rightarrow> breaker_config \<Rightarrow> real \<Rightarrow> 'v outcome \<Rightarrow> 'b \<Rightarrow> 'b \<times> (string \<times> info) list" where
  "call_end pb cfg now out s =
     (case (case out of Returned _ \<Rightarrow> pb_handle_success pb s
            | Raised e \<Rightarrow> if is_failure e then pb_handle_error pb now s else pb_handle_success pb s)
      of (s', notes) \<Rightarrow> (s', notify (cb_name cfg) notes))"

text \<open>A call that no other call interleaves with: what the caller gets, and whether \<open>fn\<close> ran.\<close>

datatype 'v call_result = Rejected | Gives 'v | Raises call_exn

definition breaker_call ::
  "'b pybreaker \<Rightarrow> breaker_config \<Rightarrow> real \<Rightarrow> real \<Rightarrow> 'v outcome \<Rightarrow> 'b \<Rightarrow> ('b \<times> (string \<times> info) list) \<times> 'v call_result" where
  "breaker_call pb cfg t_begin t_end out s =
     (case call_begin pb cfg t_begin s of
        ((s1, ev1), Inl _) \<Rightarrow> ((s1, ev1), Rejected)
      | ((s1, ev1), Inr _) \<Rightarrow>
          (case call_end pb cfg t_end out s1 of (s2, ev2) \<Rightarrow>
             ((s2, ev1 @ ev2), (case out of Returned v \<Rightarrow> Gives v | Raised e \<Rightarrow> Raises e))))"

definition breaker_reset :: "'b pybreaker \<Rightarrow> breaker_config \<Rightarrow> 'b \<Rightarrow> 'b \<times> (string \<times> info) list" where
  "breaker_reset pb cfg s = (case pb_close pb s of (s', notes) \<Rightarrow> (s', notify (cb_name cfg) notes))"

text \<open>Calls one after the other.\<close>

primrec breaker_calls ::
  "'b pybreaker \<Rightarrow> breaker_config \<Rightarrow> 'b \<Rightarrow> (real \<times> real \<times> 'v outcome) list \<Rightarrow> 'b" where
  "breaker_calls pb cfg s [] = s"
| "breaker_calls pb cfg s (c # cs) =
     breaker_calls pb cfg (fst (fst (breaker_call pb cfg (fst c) (fst (snd c)) (snd (snd c)) s))) cs"

section \<open>Behaviour\<close>

lemma closed_call:
  assumes "pb_state pb s = ''closed''"
  shows "fst (fst (breaker_call pb cfg t t' (Raised e) s)) =
           fst (if is_failure e then pb_handle_error pb t' s else pb_handle_success pb s)"
  using assms by (simp add: breaker_call_def call_begin_def call_end_def split: prod.split)

lemma failures_open:
  assumes ok: "pybreaker_ok pb (cb_fail_max cfg)"
  shows "pb_state pb s = ''closed'' \<Longrightarrow> cs \<noteq> [] \<Longrightarrow>
    \<forall>(t, t', out) \<in> set cs. \<exists>e. out = Raised e \<and> is_failure e \<Longrightarrow>
    pb_fail_counter pb s + int (length cs) = cb_fail_max cfg \<Longrightarrow>
    pb_state pb (breaker_calls pb cfg s cs) = ''open'' \<and>
    pb_opened_at pb (breaker_calls pb cfg s cs) = Some (fst (snd (last cs)))"
proof (induction cs arbitrary: s)
  case (Cons c cs)
  obtain t t' e where c: "c = (t, t', Raised e)" "is_failure e" using Cons.prems(3) by (cases c) auto
  define s1 where "s1 = fst (pb_handle_error pb t' s)"
  have call: "fst (fst (breaker_call pb cfg (fst c) (fst (snd c)) (snd (snd c)) s)) = s1"
    using c(2) by (simp add: c(1) s1_def closed_call [OF Cons.prems(1)])
  have step: "pb_fail_counter pb s1 = pb_fail_counter pb s + 1"
    "if pb_fail_counter pb s + 1 < cb_fail_max cfg then pb_state pb s1 = ''closed''
     else pb_state pb s1 = ''open'' \<and> pb_opened_at pb s1 = Some t'"
    using ok Cons.prems(1) by (simp_all add: pybreaker_ok_def closed_ok_def s1_def Let_def)
  show ?case
  proof (cases "cs = []")
    case True
    then show ?thesis using step(2) Cons.prems(4) call by (simp add: c(1))
  next
    case False
    then have "pb_fail_counter pb s + 1 < cb_fail_max cfg" using Cons.prems(4) by (cases cs) auto
    then have "pb_state pb s1 = ''closed''" using step(2) by simp
    from Cons.IH [OF this False] show ?thesis
      using Cons.prems(3,4) step(1) call False by (simp add: c(1))
  qed
qed simp

text \<open>
  C27. The breaker trips and stays shut: \<open>fail_max\<close> failing calls in a row open a freshly closed
  breaker, and then every call before the reset timeout is rejected without running and without
  changing the breaker.
\<close>

theorem breaker_trips:
  assumes "pybreaker_ok pb (cb_fail_max cfg)" and "pb_state pb s = ''closed''" and "pb_fail_counter pb s = 0"
    and "\<forall>(t, t', out) \<in> set cs. \<exists>e. out = Raised e \<and> is_failure e"
    and "cs \<noteq> []" and "int (length cs) = cb_fail_max cfg"
    and "now < fst (snd (last cs)) + cb_reset_timeout cfg"
  shows "breaker_call pb cfg now t' out (breaker_calls pb cfg s cs) = ((breaker_calls pb cfg s cs, []), Rejected)"
  using failures_open [OF assms(1,2,5,4)] assms(3,6,7) by (simp add: breaker_call_def call_begin_def)

text \<open>
  The breaker recovers: once the timeout has elapsed a call is let through as the trial; its
  success closes the breaker with a zero counter, its failure opens it again from that moment.
\<close>

theorem breaker_recovers:
  assumes "pybreaker_ok pb (cb_fail_max cfg)" and "pb_state pb s = ''open''"
    and "pb_opened_at pb s = Some t0" and "t0 + cb_reset_timeout cfg \<le> now" and "is_failure e"
  shows "pb_state pb (fst (fst (breaker_call pb cfg now t' (Returned v) s))) = ''closed'' \<and>
         pb_fail_counter pb (fst (fst (breaker_call pb cfg now t' (Returned v) s))) = 0 \<and>
         pb_state pb (fst (fst (breaker_call pb cfg now t' (Raised e) s))) = ''open'' \<and>
         pb_opened_at pb (fst (fst (breaker_call pb cfg now t' (Raised e) s))) = Some t'"
proof -
  obtain s1 ns where half: "pb_half_open pb s = (s1, ns)" by (cases "pb_half_open pb s")
  then have s1: "pb_state pb s1 = ''half-open''" using assms(1) unfolding pybreaker_ok_def by (metis fst_conv)
  have call: "fst (fst (breaker_call pb cfg now t' out s)) = fst (call_end pb cfg t' out s1)" for out
    using assms(2-4) half by (simp add: breaker_call_def call_begin_def split: prod.split)
  have "half_open_ok pb s1" using assms(1) by (simp add: pybreaker_ok_def)
  with s1 assms(5) show ?thesis
    unfolding call by (simp add: half_open_ok_def call_end_def case_prod_beta)
qed

text \<open>The calls that begin while the trial is under way.\<close>

primrec begins :: "'b pybreaker \<Rightarrow> breaker_config \<Rightarrow> 'b \<Rightarrow> real list \<Rightarrow> 'b \<times> bool res list" where
  "begins pb cfg s [] = (s, [])"
| "begins pb cfg s (t # ts) =
     (case call_begin pb cfg t s of ((s1, _), r) \<Rightarrow> case begins pb cfg s1 ts of (s2, rs) \<Rightarrow> (s2, r # rs))"

lemma half_open_begins:
  "pb_state pb s = ''half-open'' \<Longrightarrow> begins pb cfg s ts = (s, replicate (length ts) (Inr True))"
  by (induction ts) (simp_all add: call_begin_def)

text \<open>
  The half-open state is not limited to one trial: the gate rejects in the open state only, so
  after the timeout every call that begins before the trial has ended is let through, however many.
\<close>

theorem half_open_admits_all:
  assumes "pybreaker_ok pb (cb_fail_max cfg)" and "pb_state pb s = ''open''"
    and "pb_opened_at pb s = Some t0" and "t0 + cb_reset_timeout cfg \<le> now"
  shows "snd (begins pb cfg s (now # ts)) = replicate (Suc (length ts)) (Inr True)"
proof -
  obtain s1 ns where half: "pb_half_open pb s = (s1, ns)" by (cases "pb_half_open pb s")
  then have "pb_state pb s1 = ''half-open''" using assms(1) unfolding pybreaker_ok_def by (metis fst_conv)
  then show ?thesis using assms(2-4) half by (simp add: call_begin_def half_open_begins)
qed

text \<open>
  An exception that says nothing of the dependency counts as a success: a cancelled trial call, or
  one that fails for a local reason, closes the breaker and resets its counter.
\<close>

theorem cancelled_trial_closes:
  assumes "pybreaker_ok pb (cb_fail_max cfg)" and "pb_state pb s = ''half-open''"
  shows "pb_state pb (fst (call_end pb cfg now (Raised (NonHTTP ''CancelledError'')) s)) = ''closed'' \<and>
         pb_fail_counter pb (fst (call_end pb cfg now (Raised (NonHTTP ''CancelledError'')) s)) = 0"
  using assms unfolding pybreaker_ok_def half_open_ok_def
  by (simp add: call_end_def case_prod_beta)

section \<open>Witnesses\<close>

text \<open>A breaker that behaves as documented: its state's name, opening time and counter.\<close>

definition demo_pb :: "int \<Rightarrow> (string \<times> real option \<times> int) pybreaker" where
  "demo_pb fail_max =
     \<lparr>pb_state = fst, pb_opened_at = (\<lambda>s. fst (snd s)), pb_fail_counter = (\<lambda>s. snd (snd s)),
      pb_half_open = (\<lambda>(st, op_at, n). ((''half-open'', op_at, n), [(Some st, ''half-open'', n)])),
      pb_handle_error = (\<lambda>now (st, op_at, n).
        if st = ''closed'' \<and> n + 1 < fail_max then ((st, op_at, n + 1), [])
        else if st = ''open'' then ((st, op_at, n + 1), [])
        else ((''open'', Some now, n + 1), [(Some st, ''open'', n + 1)])),
      pb_handle_success = (\<lambda>(st, op_at, n).
        if st = ''half-open'' then ((''closed'', op_at, 0), [(Some st, ''closed'', 0)]) else ((st, op_at, 0), [])),
      pb_close = (\<lambda>(st, op_at, n). ((''closed'', op_at, 0), [(Some st, ''closed'', 0)]))\<rparr>"

lemma demo_pb_ok: "pybreaker_ok (demo_pb n) n"
  by (auto simp: pybreaker_ok_def closed_ok_def half_open_ok_def demo_pb_def Let_def)

definition demo_cfg :: breaker_config where
  "demo_cfg = \<lparr>cb_name = ''smo'', cb_fail_max = 2, cb_reset_timeout = 30\<rparr>"

lemma demo_views:
  "pb_state (demo_pb n) s = fst s" "pb_opened_at (demo_pb n) s = fst (snd s)"
  "pb_fail_counter (demo_pb n) s = snd (snd s)"
  by (simp_all add: demo_pb_def)

lemma demo_cfg_ok: "pybreaker_ok (demo_pb 2) (cb_fail_max demo_cfg)"
  by (simp add: demo_cfg_def demo_pb_ok)

theorem breaker_trips_witness:
  "snd (breaker_call (demo_pb 2) demo_cfg 12 13 (Returned True)
     (breaker_calls (demo_pb 2) demo_cfg (''closed'', None, 0)
       [(1, 2, Raised TimeoutException), (3, 4, Raised (HTTPStatusError 503))])) = Rejected"
  by (subst breaker_trips [OF demo_cfg_ok]) (simp_all add: demo_views demo_cfg_def)

theorem breaker_recovers_witness:
  "pb_state (demo_pb 2) (fst (fst (breaker_call (demo_pb 2) demo_cfg 40 41 (Returned True) (''open'', Some 4, 2)))) =
     ''closed''"
  by (rule breaker_recovers [THEN conjunct1, OF demo_cfg_ok, of _ 4 40 TimeoutException])
    (simp_all add: demo_views demo_cfg_def)

theorem half_open_admits_all_witness:
  "snd (begins (demo_pb 2) demo_cfg (''open'', Some 4, 2) [40, 40, 40]) = [Inr True, Inr True, Inr True]"
  using half_open_admits_all [OF demo_cfg_ok, of "(''open'', Some 4, 2)" 4 40 "[40, 40]"]
  by (simp add: demo_views demo_cfg_def)

theorem cancelled_trial_closes_witness:
  "pb_state (demo_pb 2) (fst (call_end (demo_pb 2) demo_cfg 41 (Raised (NonHTTP ''CancelledError'') :: bool outcome)
     (''half-open'', Some 4, 2))) = ''closed''"
  by (rule cancelled_trial_closes [THEN conjunct1, OF demo_cfg_ok]) (simp add: demo_views)

end
