(* ===== verification/EvidenceSchema.thy ===== *)
theory EvidenceSchema
  imports PyValue
begin

text \<open>
  The decision record of \<open>evidence/schema.py\<close> and the tenant scope of \<open>security/tenant.py\<close>.
  A \<open>dict[str, Any]\<close> is a \<open>pyval\<close>; the \<open>Field\<close> constraints pydantic enforces are the \<open>valid\<close>
  predicates.
\<close>

section \<open>The record\<close>

record model_versions =
  mv_encoder :: string
  mv_risk_heads :: string
  mv_dyna :: string
  mv_policy :: string
  mv_constraint_layer :: string
  mv_rapp :: string

record predicted_outcome =
  sla_risk_30s :: pyfloat
  sla_risk_1min :: pyfloat
  sla_risk_5min :: pyfloat
  gateway_loads :: "(string \<times> pyfloat) list"
  ntn_capacity_used :: pyfloat
  energy_kwh :: pyfloat
  po_constraint_violations :: "string list"

definition fraction :: "pyfloat \<Rightarrow> bool" where
  "fraction x \<longleftrightarrow> Fin 0 \<le> x \<and> x \<le> Fin 1"

definition valid_outcome :: "predicted_outcome \<Rightarrow> bool" where
  "valid_outcome o1 \<longleftrightarrow>
     fraction (sla_risk_30s o1) \<and> fraction (sla_risk_1min o1) \<and> fraction (sla_risk_5min o1) \<and>
     fraction (ntn_capacity_used o1) \<and> Fin 0 \<le> energy_kwh o1"

datatype rejection_cause =
    Gateway_overload | Sla_breach_predicted | Compute_overload | Energy_cost
  | Ntn_capacity_exhausted | Spectrum_unavailable | Constraint_violation_hard
  | Constraint_violation_soft | Policy_oscillation

datatype rejection_horizon = H30s | H60s | H300s

record rejection_reason =
  primary_cause :: rejection_cause
  primary_metric :: string
  predicted_value :: pyfloat
  threshold :: pyfloat
  rr_horizon :: rejection_horizon

record rejected_alternative =
  ra_rank :: int
  ra_action :: pyval
  ra_predicted :: predicted_outcome
  ra_reason_machine :: rejection_reason
  ra_reason_human :: string
  ra_random_seed :: int

definition valid_alternative :: "rejected_alternative \<Rightarrow> bool" where
  "valid_alternative ra \<longleftrightarrow> 1 \<le> ra_rank ra \<and> valid_outcome (ra_predicted ra)"

datatype cc_severity = Hard | Soft

record constraint_correction =
  cc_constraint_id :: string
  cc_severity :: cc_severity
  cc_margin_dB :: "pyfloat option"
  cc_message :: string

record decision_record =
  dr_decision_id :: string
  dr_timestamp :: string
  dr_rapp_instance_id :: string
  dr_tenant_id :: "string option"
  dr_state_hash :: string
  dr_state_blob_uri :: "string option"
  dr_chosen_action :: pyval
  dr_predicted :: predicted_outcome
  dr_rejected :: "rejected_alternative list"
  dr_corrections :: "constraint_correction list"
  dr_model_versions :: model_versions
  dr_random_seed :: "int option"
  dr_actual_30s :: "predicted_outcome option"
  dr_actual_1min :: "predicted_outcome option"
  dr_actual_5min :: "predicted_outcome option"
  dr_operator_override :: bool
  dr_override_reason :: "string option"
  dr_sla_breach_context :: "pyval list option"

section \<open>Tenant scopes\<close>

text \<open>
  The context variable is the state \<open>string option\<close>; \<open>set\<close> returns a token, the value before.
\<close>

record tenant_scope =
  ts_tenant_id :: string
  ts_token :: "string option option"

definition tenant_scope_new :: "string \<Rightarrow> tenant_scope res" where
  "tenant_scope_new t = (if t = [] then Inl ValueError else Inr \<lparr>ts_tenant_id = t, ts_token = None\<rparr>)"

definition scope_enter :: "tenant_scope \<Rightarrow> string option \<Rightarrow> tenant_scope \<times> string option" where
  "scope_enter ts ctx = (ts\<lparr>ts_token := Some ctx\<rparr>, Some (ts_tenant_id ts))"

definition scope_exit :: "tenant_scope \<Rightarrow> string option \<Rightarrow> tenant_scope \<times> string option" where
  "scope_exit ts ctx =
     (case ts_token ts of None \<Rightarrow> (ts, ctx) | Some old \<Rightarrow> (ts\<lparr>ts_token := None\<rparr>, old))"

definition require_current_tenant :: "string option \<Rightarrow> string res" where
  "require_current_tenant ctx = (case ctx of None \<Rightarrow> Inl RuntimeError | Some t \<Rightarrow> Inr t)"

text \<open>A \<open>with TenantScope(t): body\<close> block, exit included when the body raises.\<close>

definition with_tenant :: "string \<Rightarrow> (string option \<Rightarrow> string option \<times> 'a res) \<Rightarrow> string option \<Rightarrow> string option \<times> 'a res" where
  "with_tenant t body ctx =
     (case tenant_scope_new t of
        Inl e \<Rightarrow> (ctx, Inl e)
      | Inr ts \<Rightarrow>
          (let (ts1, ctx1) = scope_enter ts ctx;
               (ctx2, r) = body ctx1
           in (snd (scope_exit ts1 ctx2), r)))"

lemma with_tenant_restores: "fst (with_tenant t body ctx) = ctx"
  by (auto simp: with_tenant_def tenant_scope_new_def scope_enter_def scope_exit_def
      split: prod.splits)

lemma with_tenant_inside: "t \<noteq> [] \<Longrightarrow> snd (with_tenant t body ctx) = snd (body (Some t))"
  by (auto simp: with_tenant_def tenant_scope_new_def scope_enter_def scope_exit_def
      split: prod.splits)

end
