(* ===== verification/Certificate.thy ===== *)
theory Certificate
  imports PyValue
begin

text \<open>
  The data model of \<open>shield/certificate.py\<close>: violations and corrections, the result of evaluating
  one invariant, the certificate of one disposition. Human-readable texts (\<open>detail\<close>, \<open>message\<close>)
  are not modelled: no decision of the program depends on them.
\<close>

record violation =
  constraint_id :: string
  severity :: string
  margin_dB :: "pyfloat option"

record invariant_check =
  invariant_id :: string
  satisfied :: bool
  margin :: "pyfloat option"
  margin_unit :: string

record certificate =
  cert_decision_id :: string
  cert_issued_at :: string
  cert_loop_tier :: string
  cert_block :: string
  cert_action_proposed :: action
  cert_action_safe :: action
  cert_invariants :: "invariant_check list"
  cert_corrections :: "violation list"
  cert_violated_ids :: "string list"
  cert_projected :: bool
  cert_fallback_used :: bool
  cert_fallback_to :: pyval
  cert_safe :: bool
  cert_emit_blocked :: bool
  cert_rng_seed :: "int option"
  cert_model_provenance :: "action option"
  cert_signature :: "string option"
  cert_signing_key_fingerprint :: "string option"

record disposition =
  safe_action :: action
  disp_certificate :: certificate

text \<open>\<open>hard\<close> violation without a dB margin, the shape most projections record.\<close>

definition hard_violation :: "string \<Rightarrow> pyfloat option \<Rightarrow> violation" where
  "hard_violation cid m = \<lparr>constraint_id = cid, severity = ''hard'', margin_dB = m\<rparr>"

definition mk_check :: "string \<Rightarrow> bool \<Rightarrow> pyfloat option \<Rightarrow> string \<Rightarrow> invariant_check" where
  "mk_check i ok m u = \<lparr>invariant_id = i, satisfied = ok, margin = m, margin_unit = u\<rparr>"

lemma mk_check_sel [simp]:
  "invariant_id (mk_check i ok m u) = i" "satisfied (mk_check i ok m u) = ok"
  "margin (mk_check i ok m u) = m" "margin_unit (mk_check i ok m u) = u"
  by (simp_all add: mk_check_def)

section \<open>The tightest dB margin\<close>

text \<open>\<open>min(dbs)\<close> over a non-empty list, with Python's comparison (the first of equals wins).\<close>

fun py_min_list :: "pyfloat list \<Rightarrow> pyfloat option" where
  "py_min_list [] = None"
| "py_min_list (x # xs) = Some (foldl fmin x xs)"

definition min_margin_dB :: "certificate \<Rightarrow> pyfloat option" where
  "min_margin_dB c =
     py_min_list (List.map_filter
       (\<lambda>k. if margin_unit k = ''dB'' then margin k else None) (cert_invariants c))"

lemma foldl_fmin_Fin: "foldl fmin (Fin a) (map Fin xs) = Fin (foldl min a xs)"
  by (induction xs arbitrary: a) simp_all

lemma foldl_min_le: "foldl min a xs \<le> (a::real) \<and> (\<forall>x \<in> set xs. foldl min a xs \<le> x)"
proof (induction xs arbitrary: a)
  case Nil
  then show ?case by simp
next
  case (Cons y ys)
  from Cons.IH [of "min a y"] show ?case by auto
qed

text \<open>
  The reported margin is a lower bound of every finite dB margin of the certificate.
\<close>

lemma min_margin_dB_lower:
  assumes "List.map_filter (\<lambda>k. if margin_unit k = ''dB'' then margin k else None)
             (cert_invariants c) = map Fin ms"
    and "m \<in> set ms"
  shows "\<exists>r. min_margin_dB c = Some (Fin r) \<and> r \<le> m"
proof -
  from assms(2) obtain x xs where ms: "ms = x # xs" by (cases ms) auto
  have "min_margin_dB c = Some (Fin (foldl min x xs))"
    using assms(1) by (simp add: min_margin_dB_def ms foldl_fmin_Fin)
  moreover have "foldl min x xs \<le> m"
    using foldl_min_le [of x xs] assms(2) ms by auto
  ultimately show ?thesis by blast
qed

end
