(* ===== verification/Json.thy ===== *)
theory Json
  imports PyValue
begin

text \<open>
  What the program uses of the standard library's \<open>json.dumps\<close> with \<open>sort_keys=True\<close> and the compact
  separators: the text of a value, and that it determines the value up to the order of the entries of
  its dictionaries. The text of a float is the parameter \<open>ff\<close> (\<open>float.__repr__\<close>, or \<open>NaN\<close> and
  \<open>Infinity\<close>).
\<close>

section \<open>Decimal numerals\<close>

fun nat_str :: "nat \<Rightarrow> string" where
  "nat_str n = (if n < 10 then [char_of (48 + n)] else nat_str (n div 10) @ [char_of (48 + n mod 10)])"

definition int_str :: "int \<Rightarrow> string" where
  "int_str i = (if i < 0 then CHR ''-'' # nat_str (nat (- i)) else nat_str (nat i))"

declare nat_str.simps [simp del]

definition digit_char :: "char \<Rightarrow> bool" where
  "digit_char c \<longleftrightarrow> (let n = of_char c :: nat in 48 \<le> n \<and> n \<le> 57)"

lemma digit_char_of: "n < 10 \<Longrightarrow> digit_char (char_of (48 + n :: nat))"
  by (simp add: digit_char_def Let_def)

lemma nat_str_digits: "list_all digit_char (nat_str n)"
proof (induction n rule: nat_str.induct)
  case (1 n)
  then show ?case using digit_char_of [of n] digit_char_of [of "n mod 10"] by (subst nat_str.simps) auto
qed

lemma nat_str_nonempty [simp]: "nat_str n \<noteq> []"
  by (subst nat_str.simps) simp

fun nat_of_str :: "string \<Rightarrow> nat \<Rightarrow> nat" where
  "nat_of_str [] acc = acc"
| "nat_of_str (c # cs) acc = nat_of_str cs (10 * acc + (of_char c - 48))"

lemma nat_of_str_append: "nat_of_str (s @ t) acc = nat_of_str t (nat_of_str s acc)"
  by (induction s arbitrary: acc) auto

lemma nat_of_nat_str: "nat_of_str (nat_str n) 0 = n"
proof (induction n rule: nat_str.induct)
  case (1 n)
  show ?case
  proof (cases "n < 10")
    case True
    then show ?thesis by (subst nat_str.simps) simp
  next
    case False
    then have "nat_of_str (nat_str n) 0 = 10 * (n div 10) + n mod 10"
      using 1 by (subst nat_str.simps) (simp add: nat_of_str_append)
    then show ?thesis by simp
  qed
qed

lemma nat_str_inj: "nat_str m = nat_str n \<longleftrightarrow> m = n"
  using nat_of_nat_str by metis

lemma nat_str_hd: "digit_char (hd (nat_str n))"
  using nat_str_digits [of n] by (cases "nat_str n") auto

lemma minus_not_digit: "\<not> digit_char (CHR ''-'')"
  by (simp add: digit_char_def)

lemma int_str_inj: "int_str i = int_str j \<longleftrightarrow> i = j"
proof -
  have "CHR ''-'' # s \<noteq> nat_str n" for s n
    using nat_str_hd [of n] minus_not_digit by (metis list.sel(1))
  then show ?thesis
    by (auto simp: int_str_def nat_str_inj dest: sym)
qed

section \<open>The text of a value\<close>

definition hex_char :: "nat \<Rightarrow> char" where
  "hex_char n = (if n < 10 then char_of (48 + n) else char_of (87 + n))"

definition json_escape :: "char \<Rightarrow> string" where
  "json_escape c =
     (let n = of_char c :: nat
      in if n = 34 then [CHR 0x5C, CHR 0x22] else if n = 92 then [CHR 0x5C, CHR 0x5C]
         else if n = 10 then [CHR 0x5C, CHR ''n''] else if n = 13 then [CHR 0x5C, CHR ''r'']
         else if n = 9 then [CHR 0x5C, CHR ''t''] else if n = 12 then [CHR 0x5C, CHR ''f'']
         else if n = 8 then [CHR 0x5C, CHR ''b'']
         else if 32 \<le> n \<and> n \<le> 126 then [c]
         else [CHR 0x5C, CHR ''u'', CHR ''0'', CHR ''0'', hex_char (n div 16), hex_char (n mod 16)])"

definition hex_value :: "char \<Rightarrow> nat" where
  "hex_value c = (let n = of_char c in if n < 58 then n - 48 else n - 87)"

definition json_str :: "string \<Rightarrow> string" where
  "json_str s = CHR 0x22 # concat (map json_escape s) @ [CHR 0x22]"

fun render :: "(pyfloat \<Rightarrow> string) \<Rightarrow> pyval \<Rightarrow> string"
  and render_items :: "(pyfloat \<Rightarrow> string) \<Rightarrow> pyval list \<Rightarrow> string"
  and render_entries :: "(pyfloat \<Rightarrow> string) \<Rightarrow> (string \<times> pyval) list \<Rightarrow> string" where
  "render ff VNone = ''null''"
| "render ff (VBool b) = (if b then ''true'' else ''false'')"
| "render ff (VInt i) = int_str i"
| "render ff (VFloat x) = ff x"
| "render ff (VStr s) = json_str s"
| "render ff (VList xs) = CHR ''['' # render_items ff xs @ '']''"
| "render ff (VSet xs) = []"
| "render ff (VDict es) = CHR ''{'' # render_entries ff es @ ''}''"
| "render_items ff [] = []"
| "render_items ff [x] = render ff x"
| "render_items ff (x # y # xs) = render ff x @ CHR '','' # render_items ff (y # xs)"
| "render_entries ff [] = []"
| "render_entries ff [(k, v)] = json_str k @ CHR '':'' # render ff v"
| "render_entries ff ((k, v) # e # es) = json_str k @ CHR '':'' # render ff v @ CHR '','' # render_entries ff (e # es)"

text \<open>\<open>sort_keys\<close>, at every level; a set is not serialisable.\<close>

fun json_norm :: "pyval \<Rightarrow> pyval"
  and json_norm_items :: "pyval list \<Rightarrow> pyval list"
  and json_norm_entries :: "(string \<times> pyval) list \<Rightarrow> (string \<times> pyval) list" where
  "json_norm (VList xs) = VList (json_norm_items xs)"
| "json_norm (VDict es) = VDict (sort_key fst (json_norm_entries es))"
| "json_norm v = v"
| "json_norm_items [] = []"
| "json_norm_items (x # xs) = json_norm x # json_norm_items xs"
| "json_norm_entries [] = []"
| "json_norm_entries ((k, v) # es) = (k, json_norm v) # json_norm_entries es"

fun jsonable :: "(pyfloat \<Rightarrow> bool) \<Rightarrow> pyval \<Rightarrow> bool"
  and jsonable_items :: "(pyfloat \<Rightarrow> bool) \<Rightarrow> pyval list \<Rightarrow> bool"
  and jsonable_entries :: "(pyfloat \<Rightarrow> bool) \<Rightarrow> (string \<times> pyval) list \<Rightarrow> bool" where
  "jsonable D (VFloat x) = D x"
| "jsonable D (VSet xs) = False"
| "jsonable D (VList xs) = jsonable_items D xs"
| "jsonable D (VDict es) = jsonable_entries D es"
| "jsonable D v = True"
| "jsonable_items D [] = True"
| "jsonable_items D (x # xs) = (jsonable D x \<and> jsonable_items D xs)"
| "jsonable_entries D [] = True"
| "jsonable_entries D ((k, v) # es) = (jsonable D v \<and> jsonable_entries D es)"

definition json_dumps :: "(pyfloat \<Rightarrow> string) \<Rightarrow> pyval \<Rightarrow> string res" where
  "json_dumps ff v = (if jsonable (\<lambda>_. True) v then Inr (render ff (json_norm v)) else Inl TypeError)"

section \<open>A text determines its value\<close>

fun unescape :: "string \<Rightarrow> char \<times> string" where
  "unescape (c # r) =
     (if c \<noteq> CHR 0x5C then (c, r)
      else case r of
             d # r' \<Rightarrow>
               if d = CHR 0x22 \<or> d = CHR 0x5C then (d, r') else if d = CHR ''n'' then (char_of (10 :: nat), r')
               else if d = CHR ''r'' then (char_of (13 :: nat), r') else if d = CHR ''t'' then (char_of (9 :: nat), r')
               else if d = CHR ''f'' then (char_of (12 :: nat), r') else if d = CHR ''b'' then (char_of (8 :: nat), r')
               else (char_of (16 * hex_value (r' ! 2) + hex_value (r' ! 3)), drop 4 r')
           | [] \<Rightarrow> (c, r))"
| "unescape [] = (CHR 0x00, [])"

lemma hex_value_char: "n < 16 \<Longrightarrow> hex_value (hex_char n) = n"
  by (simp add: hex_value_def hex_char_def Let_def)

lemma char_eq_of_char: "of_char c = (n :: nat) \<Longrightarrow> c = char_of n"
  by auto

lemma unescape_escape: "unescape (json_escape c @ r) = (c, r)"
proof -
  have h: "hex_value (hex_char (of_char c div 16)) = of_char c div 16" "hex_value (hex_char (of_char c mod 16)) = of_char c mod 16"
    using nat_of_char_less_256 [of c] by (simp_all add: hex_value_char less_mult_imp_div_less)
  have e: "of_char c = (92 :: nat) \<longleftrightarrow> c = CHR 0x5C" "of_char c = (34 :: nat) \<longleftrightarrow> c = CHR 0x22"
    using of_char_eq_iff [where ?'a = nat, of c "CHR 0x5C"] of_char_eq_iff [where ?'a = nat, of c "CHR 0x22"] by simp_all
  then show ?thesis
    by (auto simp: json_escape_def Let_def h e dest: char_eq_of_char)
qed

lemma escape_not_quote: "hd (json_escape c @ r) \<noteq> CHR 0x22" "json_escape c \<noteq> []"
  by (auto simp: json_escape_def Let_def)

lemma json_str_prefix: "json_str s @ r = json_str t @ q \<Longrightarrow> s = t \<and> r = q"
proof -
  have "concat (map json_escape s) @ CHR 0x22 # r = concat (map json_escape t) @ CHR 0x22 # q \<Longrightarrow> s = t \<and> r = q" for t
  proof (induction s arbitrary: t)
    case Nil
    show ?case
    proof (cases t)
      case (Cons c t')
      then show ?thesis using Nil escape_not_quote(1) [of c] by simp (metis list.sel(1))
    qed (use Nil in simp)
  next
    case (Cons c s)
    show ?case
    proof (cases t)
      case Nil
      then show ?thesis using Cons.prems escape_not_quote(1) [of c] by simp (metis list.sel(1))
    next
      case t: (Cons d t')
      have "unescape (json_escape c @ concat (map json_escape s) @ CHR 0x22 # r) =
          unescape (json_escape d @ concat (map json_escape t') @ CHR 0x22 # q)"
        using Cons.prems t by simp
      then have "c = d" "concat (map json_escape s) @ CHR 0x22 # r = concat (map json_escape t') @ CHR 0x22 # q"
        by (simp_all add: unescape_escape)
      then show ?thesis using Cons.IH t by blast
    qed
  qed
  then show "json_str s @ r = json_str t @ q \<Longrightarrow> s = t \<and> r = q" by (simp add: json_str_def)
qed

definition delim :: "char \<Rightarrow> bool" where
  "delim c \<longleftrightarrow> c \<in> {CHR '','', CHR '']'', CHR ''}''}"

definition stop :: "string \<Rightarrow> bool" where
  "stop r \<longleftrightarrow> r = [] \<or> delim (hd r)"

lemma token_prefix:
  "list_all (\<lambda>c. \<not> delim c) a \<Longrightarrow> list_all (\<lambda>c. \<not> delim c) b \<Longrightarrow> stop r \<Longrightarrow> stop q \<Longrightarrow> a @ r = b @ q \<Longrightarrow>
   a = b \<and> r = q"
proof (induction a arbitrary: b)
  case Nil
  then show ?case by (cases b) (auto simp: stop_def)
next
  case (Cons c a)
  then show ?case by (cases b) (auto simp: stop_def)
qed

definition special :: "char \<Rightarrow> bool" where
  "special c \<longleftrightarrow> c \<in> {CHR ''n'', CHR ''t'', CHR ''f'', CHR 0x22, CHR ''['', CHR ''{''} \<or> delim c"

definition float_text_ok :: "(pyfloat \<Rightarrow> string) \<Rightarrow> (pyfloat \<Rightarrow> bool) \<Rightarrow> bool" where
  "float_text_ok ff D \<longleftrightarrow>
     (\<forall>x y. D x \<longrightarrow> D y \<longrightarrow> ff x = ff y \<longrightarrow> x = y) \<and>
     (\<forall>x. D x \<longrightarrow> ff x \<noteq> [] \<and> list_all (\<lambda>c. \<not> delim c) (ff x) \<and> \<not> special (hd (ff x)) \<and> (\<forall>i. ff x \<noteq> int_str i))"

fun opener :: "pyval \<Rightarrow> char option" where
  "opener (VStr s) = Some (CHR 0x22)"
| "opener (VList xs) = Some (CHR ''['')"
| "opener (VDict es) = Some (CHR ''{'')"
| "opener v = None"


lemma digit_plain: "digit_char c \<Longrightarrow> \<not> delim c \<and> \<not> special c"
  by (auto simp: digit_char_def delim_def special_def)

lemma int_str_token: "list_all (\<lambda>c. \<not> delim c) (int_str i)" "int_str i \<noteq> []" "\<not> special (hd (int_str i))"
proof -
  have "list_all (\<lambda>c. \<not> delim c) (nat_str n)" for n
    using nat_str_digits [of n] digit_plain by (auto simp: list_all_iff)
  then show "list_all (\<lambda>c. \<not> delim c) (int_str i)" by (simp add: int_str_def delim_def)
  show "int_str i \<noteq> []" by (simp add: int_str_def)
  show "\<not> special (hd (int_str i))"
    using nat_str_hd digit_plain by (auto simp: int_str_def special_def delim_def)
qed

lemma atom_text:
  assumes "float_text_ok ff D" and "jsonable D v" and "opener v = None"
  shows "list_all (\<lambda>c. \<not> delim c) (render ff v)" "render ff v \<noteq> []"
    "hd (render ff v) \<notin> {CHR 0x22, CHR ''['', CHR ''{''} \<and> \<not> delim (hd (render ff v))"
  using assms int_str_token by (cases v; auto simp: float_text_ok_def special_def delim_def)+

lemma atom_inj:
  assumes "float_text_ok ff D" and "jsonable D v" "jsonable D w" and "opener v = None" "opener w = None"
    and "render ff v = render ff w"
  shows "v = w"
proof -
  have i: "int_str i \<noteq> ''null''" "int_str i \<noteq> ''true''" "int_str i \<noteq> ''false''" for i
    using int_str_token(3) [of i] by (auto simp: special_def)
  have f: "ff x = ''null'' \<Longrightarrow> False" "ff x = ''true'' \<Longrightarrow> False" "ff x = ''false'' \<Longrightarrow> False"
    "ff x = int_str j \<Longrightarrow> False" if "D x" for x j
    using assms(1) that by (auto simp: float_text_ok_def special_def)
  have inj: "D x \<Longrightarrow> D y \<Longrightarrow> ff x = ff y \<Longrightarrow> x = y" for x y
    using assms(1) by (auto simp: float_text_ok_def)
  show ?thesis
    using assms(2-6) i i [symmetric]
    by (cases v; cases w) (auto simp: int_str_inj inj split: if_splits dest: f f [OF _ sym] inj)
qed

lemma render_hd:
  assumes "float_text_ok ff D" and "jsonable D v"
  shows "render ff v \<noteq> []" and "\<not> delim (hd (render ff v))"
    and "opener v = (if hd (render ff v) \<in> {CHR 0x22, CHR ''['', CHR ''{''} then Some (hd (render ff v)) else None)"
  using assms atom_text [OF assms] by (cases v; auto simp: json_str_def delim_def)+

lemma same_opener:
  assumes "float_text_ok ff D" and "jsonable D v" "jsonable D w" and "render ff v @ r = render ff w @ q"
  shows "opener v = opener w"
  using render_hd [OF assms(1,2)] render_hd [OF assms(1,3)] assms(4) by (metis hd_append2)


lemma render_not_delim:
  assumes "float_text_ok ff D" and "jsonable D v" and "render ff v @ r = c # q"
  shows "\<not> delim c"
  using render_hd(1,2) [OF assms(1,2)] assms(3) by (metis hd_append2 list.sel(1))

lemma stop_simps [simp]: "stop (CHR '','' # r)" "stop (CHR '']'' # r)" "stop (CHR ''}'' # r)" "stop []"
  by (simp_all add: stop_def delim_def)

lemma json_str_hd: "json_str s @ r \<noteq> CHR ''}'' # q"
  by (simp add: json_str_def)

lemma atom_prefix:
  assumes "float_text_ok ff D" and "jsonable D v" "jsonable D w" and "opener v = None"
    and "stop r" "stop q" and "render ff v @ r = render ff w @ q"
  shows "v = w \<and> r = q"
proof -
  have w: "opener w = None" using same_opener [OF assms(1,2,3,7)] assms(4) by simp
  have "render ff v = render ff w \<and> r = q"
    using token_prefix [OF atom_text(1) [OF assms(1,2,4)] atom_text(1) [OF assms(1,3) w] assms(5,6,7)] .
  with atom_inj [OF assms(1-4) w] show ?thesis by blast
qed

lemma opener_cases:
  "opener w = Some (CHR 0x22) \<Longrightarrow> \<exists>s. w = VStr s" "opener w = Some (CHR ''['') \<Longrightarrow> \<exists>ys. w = VList ys"
  "opener w = Some (CHR ''{'') \<Longrightarrow> \<exists>fs. w = VDict fs"
  by (cases w; simp)+

lemma render_items_not_close:
  assumes "float_text_ok ff D" and "jsonable_items D ys" and "render_items ff ys @ r = CHR '']'' # q"
  shows "ys = []"
proof (cases ys)
  case (Cons y zs)
  then show ?thesis using assms render_not_delim [OF assms(1), of y _ "CHR '']''"]
    by (cases zs) (auto simp: delim_def)
qed

lemma entries_cases:
  obtains "fs = []" | k v where "fs = [(k, v)]" | k v e es where "fs = (k, v) # e # es"
  by (metis list.exhaust surj_pair)

lemma render_prefix:
  shows "float_text_ok ff D \<Longrightarrow> jsonable D v \<Longrightarrow> jsonable D w \<Longrightarrow> stop r \<Longrightarrow> stop q \<Longrightarrow>
         render ff v @ r = render ff w @ q \<Longrightarrow> v = w \<and> r = q"
    and "float_text_ok ff D \<Longrightarrow> jsonable_items D xs \<Longrightarrow> jsonable_items D ys \<Longrightarrow>
         render_items ff xs @ CHR '']'' # r = render_items ff ys @ CHR '']'' # q \<Longrightarrow> xs = ys \<and> r = q"
    and "float_text_ok ff D \<Longrightarrow> jsonable_entries D es \<Longrightarrow> jsonable_entries D fs \<Longrightarrow>
         render_entries ff es @ CHR ''}'' # r = render_entries ff fs @ CHR ''}'' # q \<Longrightarrow> es = fs \<and> r = q"
proof (induction ff v and ff xs and ff es arbitrary: w r q and ys r q and fs r q
    rule: render_render_items_render_entries.induct)
  case (5 ff s)
  then have "opener w = Some (CHR 0x22)" using same_opener [OF 5(1-3,6)] by simp
  then obtain t where t: "w = VStr t" using opener_cases(1) by blast
  show ?case using 5(6) unfolding t render.simps by (blast dest: json_str_prefix)
next
  case (6 ff xs)
  then have "opener w = Some (CHR ''['')" using same_opener [OF 6(2-4,7)] by simp
  then obtain ys where ys: "w = VList ys" using opener_cases(2) by blast
  have "xs = ys \<and> r = q" by (rule 6(1)) (use 6(2-4,7) ys in simp_all)
  then show ?case by (simp add: ys)
next
  case (8 ff es)
  then have "opener w = Some (CHR ''{'')" using same_opener [OF 8(2-4,7)] by simp
  then obtain fs where fs: "w = VDict fs" using opener_cases(3) by blast
  have "es = fs \<and> r = q" by (rule 8(1)) (use 8(2-4,7) fs in simp_all)
  then show ?case by (simp add: fs)
next
  case (9 ff)
  have "ys = []" by (rule render_items_not_close [OF 9(1,3), of _ r]) (use 9(4) in simp)
  with 9(4) show ?case by simp
next
  case (10 ff x)
  have "ys \<noteq> []" using 10(5) render_items_not_close [OF 10(2,3), of "CHR '']'' # r" q] by auto
  then obtain z zs where ys: "ys = z # zs" by (cases ys) auto
  show ?case
  proof (cases zs)
    case Nil
    have "x = z \<and> CHR '']'' # r = CHR '']'' # q" by (rule 10(1)) (use 10(2-) ys Nil in simp_all)
    then show ?thesis by (simp add: ys Nil)
  next
    case (Cons z2 zs')
    have "x = z \<and> CHR '']'' # r = CHR '','' # render_items ff zs @ CHR '']'' # q"
      by (rule 10(1)) (use 10(2-) ys Cons in simp_all)
    then show ?thesis by simp
  qed
next
  case (11 ff x y xs)
  have "ys \<noteq> []" using 11(6) render_items_not_close [OF 11(3,4), of "CHR '']'' # r" q] by auto
  then obtain z zs where ys: "ys = z # zs" by (cases ys) auto
  show ?case
  proof (cases zs)
    case Nil
    have "x = z \<and> CHR '','' # render_items ff (y # xs) @ CHR '']'' # r = CHR '']'' # q"
      by (rule 11(1)) (use 11(3-) ys Nil in simp_all)
    then show ?thesis by simp
  next
    case (Cons z2 zs')
    have x: "x = z \<and> CHR '','' # render_items ff (y # xs) @ CHR '']'' # r = CHR '','' # render_items ff zs @ CHR '']'' # q"
      by (rule 11(1)) (use 11(3-) ys Cons in simp_all)
    have "y # xs = zs \<and> r = q" by (rule 11(2)) (use 11(3-5) x ys in simp_all)
    with x show ?thesis by (simp add: ys)
  qed
next
  case (12 ff)
  show ?case
  proof (cases fs rule: entries_cases)
    case 1
    with 12(4) show ?thesis by simp
  qed (use 12(4) json_str_hd in \<open>force simp: json_str_def\<close>)+
next
  case (13 ff k v)
  show ?case
  proof (cases fs rule: entries_cases)
    case 1
    with 13(5) show ?thesis by (simp add: json_str_def)
  next
    case (2 k' v')
    have k: "k = k' \<and> CHR '':'' # render ff v @ CHR ''}'' # r = CHR '':'' # render ff v' @ CHR ''}'' # q"
      by (rule json_str_prefix) (use 13(5) 2 in simp)
    have "v = v' \<and> CHR ''}'' # r = CHR ''}'' # q" by (rule 13(1)) (use 13(2-4) k 2 in simp_all)
    with k show ?thesis by (simp add: 2)
  next
    case (3 k' v' e es)
    have k: "k = k' \<and> CHR '':'' # render ff v @ CHR ''}'' # r =
        CHR '':'' # render ff v' @ CHR '','' # render_entries ff (e # es) @ CHR ''}'' # q"
      by (rule json_str_prefix) (use 13(5) 3 in simp)
    have "v = v' \<and> CHR ''}'' # r = CHR '','' # render_entries ff (e # es) @ CHR ''}'' # q"
      by (rule 13(1)) (use 13(2-4) k 3 in simp_all)
    then show ?thesis by simp
  qed
next
  case (14 ff k v e es)
  show ?case
  proof (cases fs rule: entries_cases)
    case 1
    with 14(6) show ?thesis by (simp add: json_str_def)
  next
    case (2 k' v')
    have k: "k = k' \<and> CHR '':'' # render ff v @ CHR '','' # render_entries ff (e # es) @ CHR ''}'' # r =
        CHR '':'' # render ff v' @ CHR ''}'' # q"
      by (rule json_str_prefix) (use 14(6) 2 in simp)
    have "v = v' \<and> CHR '','' # render_entries ff (e # es) @ CHR ''}'' # r = CHR ''}'' # q"
      by (rule 14(1)) (use 14(3-5) k 2 in simp_all)
    then show ?thesis by simp
  next
    case (3 k' v' e' es')
    have k: "k = k' \<and> CHR '':'' # render ff v @ CHR '','' # render_entries ff (e # es) @ CHR ''}'' # r =
        CHR '':'' # render ff v' @ CHR '','' # render_entries ff (e' # es') @ CHR ''}'' # q"
      by (rule json_str_prefix) (use 14(6) 3 in simp)
    have v: "v = v' \<and> CHR '','' # render_entries ff (e # es) @ CHR ''}'' # r =
        CHR '','' # render_entries ff (e' # es') @ CHR ''}'' # q"
      by (rule 14(1)) (use 14(3-5) k 3 in simp_all)
    have "e # es = e' # es' \<and> r = q" by (rule 14(2)) (use 14(3-5) v 3 in simp_all)
    with k v show ?thesis by (simp add: 3)
  qed
next
  case (1 ff)
  then show ?case by (intro atom_prefix) auto
next
  case (2 ff b)
  then show ?case by (intro atom_prefix) auto
next
  case (3 ff i)
  then show ?case by (intro atom_prefix) auto
next
  case (4 ff x)
  then show ?case by (intro atom_prefix) auto
qed simp

lemma jsonable_entries_iff: "jsonable_entries D es \<longleftrightarrow> (\<forall>kv \<in> set es. jsonable D (snd kv))"
  by (induction es) auto

lemma jsonable_norm:
  "jsonable D v \<Longrightarrow> jsonable D (json_norm v)"
  "jsonable_items D xs \<Longrightarrow> jsonable_items D (json_norm_items xs)"
  "jsonable_entries D es \<Longrightarrow> jsonable_entries D (json_norm_entries es)"
  by (induction v and xs and es rule: json_norm_json_norm_items_json_norm_entries.induct)
    (auto simp: jsonable_entries_iff)

text \<open>The text of a value determines the value, its dictionaries sorted by key.\<close>

lemma json_dumps_inj:
  assumes "float_text_ok ff D" and "jsonable D v" "jsonable D w"
    and "json_dumps ff v = Inr s" "json_dumps ff w = Inr s"
  shows "json_norm v = json_norm w"
proof -
  have "render ff (json_norm v) @ [] = render ff (json_norm w) @ []"
    using assms(4,5) by (simp add: json_dumps_def split: if_splits)
  then show ?thesis
    using render_prefix(1) [OF assms(1) jsonable_norm(1) [OF assms(2)] jsonable_norm(1) [OF assms(3)],
        where r = "[]" and q = "[]"] by simp
qed

lemma float_text_none: "float_text_ok ff (\<lambda>_. False)"
  by (simp add: float_text_ok_def)

lemma jsonable_all: "jsonable D v \<Longrightarrow> jsonable (\<lambda>_. True) v"
  "jsonable_items D xs \<Longrightarrow> jsonable_items (\<lambda>_. True) xs"
  "jsonable_entries D es \<Longrightarrow> jsonable_entries (\<lambda>_. True) es"
  by (induction v and xs and es rule: json_norm_json_norm_items_json_norm_entries.induct) auto

lemma jsonable_items_iff: "jsonable_items D xs \<longleftrightarrow> list_all (jsonable D) xs"
  by (induction xs) auto

lemma json_norm_items_map: "json_norm_items xs = map json_norm xs"
  by (induction xs) auto

end
