(* ===== verification/A1Adapter.thy ===== *)
theory A1Adapter
  imports A1Schema Breaker EvidenceSchema Certificate Json
begin

text \<open>
  The A1 adapter (\<open>rapp/a1_adapter.py\<close>): policy types, the URLs of the five dialects, the emission of
  a policy through the circuit breaker with its audit record, status, listing, rollback and
  enrichment jobs. The HTTP client is a third-party package: \<open>http\<close> gives the outcome of a request
  followed by \<open>raise_for_status\<close>, and changes the world \<open>'w\<close>. The evidence store is reached through
  \<open>persist\<close>. The adapter's metrics and logs are left out.
\<close>

section \<open>Configuration\<close>

record policy_type_spec =
  policy_type_id :: int
  pt_name :: string
  pt_description :: string
  pt_schema_v :: string

definition DEFAULT_POLICY_TYPES :: "(string \<times> policy_type_spec) list" where
  "DEFAULT_POLICY_TYPES =
     [(''horizon.qos.priority'',
       \<lparr>policy_type_id = 20001, pt_name = ''QoS priority weights per slice'',
        pt_description = ''Adjust per-slice QoS priority based on Horizon-RIC SLA risk'', pt_schema_v = ''1.0.0''\<rparr>),
      (''horizon.traffic.steering'',
       \<lparr>policy_type_id = 20002, pt_name = ''Traffic steering across TN/NTN'',
        pt_description = ''Direct traffic between terrestrial cell and NTN beam'', pt_schema_v = ''1.0.0''\<rparr>),
      (''horizon.admission.control'',
       \<lparr>policy_type_id = 20003, pt_name = ''Slice/UE admission control'',
        pt_description = ''Accept, defer, or reject AI workload based on edge load'', pt_schema_v = ''1.0.0''\<rparr>),
      (''horizon.spectrum.reservation'',
       \<lparr>policy_type_id = 20004, pt_name = ''Spectrum bin reservation'',
        pt_description = ''Reserve spectrum sub-bands for critical traffic classes'', pt_schema_v = ''1.0.0''\<rparr>)]"

record a1_config =
  a1_dialect :: string
  a1_rapp_id :: string
  policy_types :: "(string \<times> policy_type_spec) list"
  osc_ric_id :: string
  osc_service_id :: string
  eiap_ric_id :: string
  mantaray_ric_id :: string

definition a1_config_default :: a1_config where
  "a1_config_default =
     \<lparr>a1_dialect = ''legacy'', a1_rapp_id = ''horizon-ric-rapp'', policy_types = DEFAULT_POLICY_TYPES,
      osc_ric_id = ''ric_emulated_horizon'', osc_service_id = ''horizon-ric-rapp'',
      eiap_ric_id = ''ric_emulated_horizon'', mantaray_ric_id = ''ric_emulated_horizon''\<rparr>"

definition a1_breaker_config :: breaker_config where
  "a1_breaker_config = \<lparr>cb_name = ''horizon.a1'', cb_fail_max = 5, cb_reset_timeout = 30\<rparr>"

section \<open>URLs\<close>

definition policy_type_url :: "a1_config \<Rightarrow> int \<Rightarrow> string" where
  "policy_type_url cfg tid =
     (if a1_dialect cfg = ''osc_a1'' then ''/a1-p/policytypes/'' @ int_str tid
      else if a1_dialect cfg = ''osc'' then ''/a1-policy/v2/policy-types/'' @ int_str tid
      else if a1_dialect cfg = ''eiap'' then ''/A1-PolicyManagement/v2/policy-types/'' @ int_str tid
      else if a1_dialect cfg = ''mantaray'' then ''/sdn-r/api/v1/policy-types/'' @ int_str tid
      else ''/A1-P/v2/policytypes/'' @ int_str tid)"

definition policy_instance_url :: "a1_config \<Rightarrow> int \<Rightarrow> string \<Rightarrow> string" where
  "policy_instance_url cfg tid pid =
     (if a1_dialect cfg = ''osc_a1'' then ''/a1-p/policytypes/'' @ int_str tid @ ''/policies/'' @ pid
      else if a1_dialect cfg = ''osc'' then ''/a1-policy/v2/policies/'' @ pid
      else if a1_dialect cfg = ''eiap'' then ''/A1-PolicyManagement/v2/policies/'' @ pid
      else if a1_dialect cfg = ''mantaray'' then ''/sdn-r/api/v1/policies/'' @ pid
      else ''/A1-P/v2/policytypes/'' @ int_str tid @ ''/policies/'' @ pid)"

definition policy_create_url :: "a1_config \<Rightarrow> int \<Rightarrow> string" where
  "policy_create_url cfg tid =
     (if a1_dialect cfg = ''osc_a1'' then ''/a1-p/policytypes/'' @ int_str tid @ ''/policies''
      else if a1_dialect cfg = ''osc'' then ''/a1-policy/v2/policies''
      else if a1_dialect cfg = ''eiap'' then ''/A1-PolicyManagement/v2/policies''
      else if a1_dialect cfg = ''mantaray'' then ''/sdn-r/api/v1/policies''
      else ''/A1-P/v2/policytypes/'' @ int_str tid @ ''/policies'')"

definition policy_status_url :: "a1_config \<Rightarrow> int \<Rightarrow> string \<Rightarrow> string" where
  "policy_status_url cfg tid pid =
     (if a1_dialect cfg = ''osc_a1'' then ''/a1-p/policytypes/'' @ int_str tid @ ''/policies/'' @ pid @ ''/status''
      else if a1_dialect cfg = ''osc'' then ''/a1-policy/v2/policies/'' @ pid @ ''/status''
      else if a1_dialect cfg = ''eiap'' then ''/A1-PolicyManagement/v2/policies/'' @ pid @ ''/status''
      else if a1_dialect cfg = ''mantaray'' then ''/sdn-r/api/v1/policies/'' @ pid @ ''/status''
      else ''/A1-P/v2/policytypes/'' @ int_str tid @ ''/policies/'' @ pid @ ''/status'')"

definition policy_list_url :: "a1_config \<Rightarrow> int \<Rightarrow> string" where
  "policy_list_url cfg tid =
     (if a1_dialect cfg = ''osc_a1'' then ''/a1-p/policytypes/'' @ int_str tid @ ''/policies''
      else if a1_dialect cfg = ''osc'' then ''/a1-policy/v2/policies?policytype_id='' @ int_str tid
      else if a1_dialect cfg = ''eiap'' then ''/A1-PolicyManagement/v2/policies?policyTypeId='' @ int_str tid
      else if a1_dialect cfg = ''mantaray'' then ''/sdn-r/api/v1/policies?policyTypeId='' @ int_str tid
      else ''/A1-P/v2/policytypes/'' @ int_str tid @ ''/policies'')"

section \<open>The adapter's state\<close>

datatype http_method = GET | PUT | DELETE

record http_request =
  req_method :: http_method
  req_url :: string
  req_json :: "pyval option"

text \<open>A successful response: its status code, and its body as JSON or the exception decoding it raises.\<close>

record http_response =
  resp_status :: int
  resp_json :: "pyval res"

type_synonym 'w http = "http_request \<Rightarrow> 'w \<Rightarrow> 'w \<times> http_response outcome"

record ('b, 'w, 's) a1 =
  a1_breaker :: 'b
  a1_world :: 'w
  a1_emitted :: nat
  a1_attached :: bool
  a1_store :: 's
  a1_events :: "(string \<times> info) list"

definition a1_supported :: "string list" where
  "a1_supported = [''legacy'', ''osc'', ''osc_a1'', ''eiap'', ''mantaray'']"

text \<open>\<open>A1Adapter.__init__\<close>, with the state of a fresh breaker.\<close>

definition a1_new :: "a1_config \<Rightarrow> 'b \<Rightarrow> 'w \<Rightarrow> 's \<Rightarrow> ('b, 'w, 's) a1 res" where
  "a1_new cfg b0 w s =
     (if a1_dialect cfg \<notin> set a1_supported then Inl ValueError
      else Inr \<lparr>a1_breaker = b0, a1_world = w, a1_emitted = 0, a1_attached = False, a1_store = s, a1_events = []\<rparr>)"

definition attach_evidence_store :: "'s \<Rightarrow> ('b, 'w, 's) a1 \<Rightarrow> ('b, 'w, 's) a1" where
  "attach_evidence_store s a = a\<lparr>a1_attached := True, a1_store := s\<rparr>"

definition request :: "'w http \<Rightarrow> http_request \<Rightarrow> ('b, 'w, 's) a1 \<Rightarrow> ('b, 'w, 's) a1 \<times> http_response outcome" where
  "request http r a = (case http r (a1_world a) of (w, out) \<Rightarrow> (a\<lparr>a1_world := w\<rparr>, out))"

section \<open>Registering policy types\<close>

definition register_body :: "policy_type_spec \<Rightarrow> pyval \<Rightarrow> pyval" where
  "register_body spec schema =
     VDict [(''policy_type_id'', VInt (policy_type_id spec)), (''name'', VStr (pt_name spec)),
            (''description'', VStr (pt_description spec)), (''schema_version'', VStr (pt_schema_v spec)),
            (''create_schema'', schema)]"

text \<open>
  A request that fails with an HTTP error is logged and skipped; any other exception leaves the loop,
  among them the \<open>ValueError\<close> for a type without a schema.
\<close>

datatype a1_exn = PyExn py_exn | CallExn call_exn | CircuitOpen

fun http_error :: "call_exn \<Rightarrow> bool" where
  "http_error (NonHTTP _) = False"
| "http_error _ = True"

fun register_loop ::
  "'w http \<Rightarrow> a1_config \<Rightarrow> (string \<times> policy_type_spec) list \<Rightarrow> int list \<Rightarrow> ('b, 'w, 's) a1 \<Rightarrow>
   ('b, 'w, 's) a1 \<times> (a1_exn + int list)" where
  "register_loop http cfg [] accepted a = (a, Inr accepted)"
| "register_loop http cfg ((name, spec) # rest) accepted a =
     (case policy_create_schema name of
        Inl e \<Rightarrow> (a, Inl (PyExn e))
      | Inr schema \<Rightarrow>
          (case request http \<lparr>req_method = PUT, req_url = policy_type_url cfg (policy_type_id spec),
                              req_json = Some (register_body spec schema)\<rparr> a of
             (a', Returned _) \<Rightarrow> register_loop http cfg rest (accepted @ [policy_type_id spec]) a'
           | (a', Raised e) \<Rightarrow>
               (if http_error e then register_loop http cfg rest accepted a' else (a', Inl (CallExn e)))))"

definition register_policy_types ::
  "'w http \<Rightarrow> a1_config \<Rightarrow> ('b, 'w, 's) a1 \<Rightarrow> ('b, 'w, 's) a1 \<times> (a1_exn + int list)" where
  "register_policy_types http cfg a = register_loop http cfg (policy_types cfg) [] a"

section \<open>Emitting a policy\<close>

text \<open>The request of an emission in the adapter's dialect.\<close>

definition put_request :: "a1_config \<Rightarrow> policy_type_spec \<Rightarrow> string \<Rightarrow> pyval \<Rightarrow> http_request" where
  "put_request cfg spec pid payload =
     (let tid = policy_type_id spec; sid = VStr (int_str (policy_type_id spec))
      in if a1_dialect cfg = ''osc'' then
           \<lparr>req_method = PUT, req_url = policy_create_url cfg tid,
            req_json = Some (VDict [(''policy_id'', VStr pid), (''policytype_id'', sid), (''ric_id'', VStr (osc_ric_id cfg)),
              (''service_id'', VStr (osc_service_id cfg)), (''transient'', VBool False), (''policy_data'', payload)])\<rparr>
         else if a1_dialect cfg = ''eiap'' then
           \<lparr>req_method = PUT, req_url = policy_create_url cfg tid,
            req_json = Some (VDict [(''policyId'', VStr pid), (''policyTypeId'', sid), (''ricId'', VStr (eiap_ric_id cfg)),
              (''policyData'', payload)])\<rparr>
         else if a1_dialect cfg = ''mantaray'' then
           \<lparr>req_method = PUT, req_url = policy_create_url cfg tid,
            req_json = Some (VDict [(''policyId'', VStr pid), (''policyTypeId'', sid), (''ricId'', VStr (mantaray_ric_id cfg)),
              (''rappId'', VStr (a1_rapp_id cfg)), (''policyData'', payload)])\<rparr>
         else
           \<lparr>req_method = PUT, req_url = policy_instance_url cfg tid pid, req_json = Some payload\<rparr>)"

text \<open>
  What an emission gives: the id and status, the same with the audit write failed (the policy is live),
  or an exception. \<open>ValueError\<close> is raised before anything is sent.
\<close>

datatype emit_result = Emitted string int | PersistFailed string int py_exn | EmitRaised a1_exn

definition cert_required_ok :: "certificate option \<Rightarrow> bool" where
  "cert_required_ok cert = (case cert of None \<Rightarrow> False | Some c \<Rightarrow> cert_safe c \<and> \<not> cert_emit_blocked c)"

text \<open>The environment of one emission: the flag \<open>HORIZON_A1_REQUIRE_CERT\<close>, a fresh id, the clock.\<close>

record emit_env =
  require_cert :: bool
  fresh_id :: string
  call_time :: real
  end_time :: real

definition emit_policy ::
  "'b pybreaker \<Rightarrow> 'w http \<Rightarrow> (decision_record \<Rightarrow> 's \<Rightarrow> 's \<times> py_exn option) \<Rightarrow> a1_config \<Rightarrow> emit_env \<Rightarrow>
   string \<Rightarrow> pyval \<Rightarrow> string option \<Rightarrow> decision_record option \<Rightarrow> certificate option \<Rightarrow>
   ('b, 'w, 's) a1 \<Rightarrow> ('b, 'w, 's) a1 \<times> emit_result" where
  "emit_policy pb http persist cfg env ptype payload policy_id record cert a =
     (case map_of (policy_types cfg) ptype of
        None \<Rightarrow> (a, EmitRaised (PyExn ValueError))
      | Some spec \<Rightarrow>
        if require_cert env \<and> \<not> cert_required_ok cert then (a, EmitRaised (PyExn ValueError))
        else
          let pid = (case policy_id of None \<Rightarrow> fresh_id env | Some p \<Rightarrow> if p = [] then fresh_id env else p)
          in case call_begin pb a1_breaker_config (call_time env) (a1_breaker a) of
               ((b1, ev1), Inl _) \<Rightarrow>
                 (a\<lparr>a1_breaker := b1, a1_events := a1_events a @ ev1\<rparr>, EmitRaised CircuitOpen)
             | ((b1, ev1), Inr _) \<Rightarrow>
                 (case request http (put_request cfg spec pid payload) (a\<lparr>a1_breaker := b1\<rparr>) of (a1, out) \<Rightarrow>
                    (case call_end pb a1_breaker_config (end_time env) out (a1_breaker a1) of (b2, ev2) \<Rightarrow>
                       let a2 = a1\<lparr>a1_breaker := b2, a1_events := a1_events a1 @ ev1 @ ev2\<rparr>
                       in case out of
                            Raised e \<Rightarrow> (a2, EmitRaised (CallExn e))
                          | Returned resp \<Rightarrow>
                              (let a3 = a2\<lparr>a1_emitted := a1_emitted a2 + 1\<rparr>
                               in case record of
                                    None \<Rightarrow> (a3, Emitted pid (resp_status resp))
                                  | Some r \<Rightarrow>
                                      if a1_attached a3 then
                                        (case persist r (a1_store a3) of
                                           (s', None) \<Rightarrow> (a3\<lparr>a1_store := s'\<rparr>, Emitted pid (resp_status resp))
                                         | (s', Some e) \<Rightarrow> (a3\<lparr>a1_store := s'\<rparr>, PersistFailed pid (resp_status resp) e))
                                      else (a3, Emitted pid (resp_status resp))))))"

section \<open>The other calls\<close>

text \<open>A request whose response is used by \<open>k\<close>; an exception is passed on.\<close>

definition fetch ::
  "'w http \<Rightarrow> http_request \<Rightarrow> (http_response \<Rightarrow> 'v res) \<Rightarrow> ('b, 'w, 's) a1 \<Rightarrow> ('b, 'w, 's) a1 \<times> (a1_exn + 'v)" where
  "fetch http r k a =
     (case request http r a of
        (a', Raised e) \<Rightarrow> (a', Inl (CallExn e))
      | (a', Returned resp) \<Rightarrow> (a', (case k resp of Inl e \<Rightarrow> Inl (PyExn e) | Inr v \<Rightarrow> Inr v)))"

definition get_policy_status ::
  "'w http \<Rightarrow> a1_config \<Rightarrow> string \<Rightarrow> string \<Rightarrow> ('b, 'w, 's) a1 \<Rightarrow> ('b, 'w, 's) a1 \<times> (a1_exn + pyval)" where
  "get_policy_status http cfg ptype pid a =
     (case map_of (policy_types cfg) ptype of
        None \<Rightarrow> (a, Inl (PyExn ValueError))
      | Some spec \<Rightarrow>
          fetch http \<lparr>req_method = GET, req_url = policy_status_url cfg (policy_type_id spec) pid, req_json = None\<rparr>
            resp_json a)"

fun listed_ids :: "platform \<Rightarrow> pyval \<Rightarrow> pyval list res" where
  "listed_ids pl (VList xs) = Inr (map (\<lambda>x. VStr (py_str pl x)) xs)"
| "listed_ids pl (VDict d) = py_list (case map_of d ''policy_ids'' of None \<Rightarrow> VList [] | Some v \<Rightarrow> v)"
| "listed_ids pl _ = Inl AttributeError"

definition list_policies ::
  "platform \<Rightarrow> 'w http \<Rightarrow> a1_config \<Rightarrow> string \<Rightarrow> ('b, 'w, 's) a1 \<Rightarrow> ('b, 'w, 's) a1 \<times> (a1_exn + pyval list)" where
  "list_policies pl http cfg ptype a =
     (case map_of (policy_types cfg) ptype of
        None \<Rightarrow> (a, Inl (PyExn ValueError))
      | Some spec \<Rightarrow>
          fetch http \<lparr>req_method = GET, req_url = policy_list_url cfg (policy_type_id spec), req_json = None\<rparr>
            (\<lambda>resp. bindE (resp_json resp) (listed_ids pl)) a)"

definition create_ei_job ::
  "'w http \<Rightarrow> a1_config \<Rightarrow> string \<Rightarrow> string \<Rightarrow> pyval \<Rightarrow> string \<Rightarrow> ('b, 'w, 's) a1 \<Rightarrow> ('b, 'w, 's) a1 \<times> (a1_exn + int)" where
  "create_ei_job http cfg ei_type job job_data target a =
     fetch http
       \<lparr>req_method = PUT, req_url = ''/A1-EI/v1/eijobs/'' @ job,
        req_json = Some (VDict [(''ei_type_id'', VStr ei_type), (''ei_job_data'', job_data),
          (''target_uri'', VStr target), (''rapp_id'', VStr (a1_rapp_id cfg))])\<rparr>
       (\<lambda>resp. Inr (resp_status resp)) a"

definition delete_ei_job :: "'w http \<Rightarrow> string \<Rightarrow> ('b, 'w, 's) a1 \<Rightarrow> ('b, 'w, 's) a1 \<times> (a1_exn + int)" where
  "delete_ei_job http job a =
     fetch http \<lparr>req_method = DELETE, req_url = ''/A1-EI/v1/eijobs/'' @ job, req_json = None\<rparr>
       (\<lambda>resp. Inr (resp_status resp)) a"

text \<open>Unlike the other methods, a rollback of an unregistered type raises \<open>KeyError\<close>.\<close>

definition rollback_policy ::
  "'w http \<Rightarrow> a1_config \<Rightarrow> string \<Rightarrow> string \<Rightarrow> ('b, 'w, 's) a1 \<Rightarrow> ('b, 'w, 's) a1 \<times> (a1_exn + int)" where
  "rollback_policy http cfg ptype pid a =
     (case map_of (policy_types cfg) ptype of
        None \<Rightarrow> (a, Inl (PyExn KeyError))
      | Some spec \<Rightarrow>
          fetch http \<lparr>req_method = DELETE, req_url = policy_instance_url cfg (policy_type_id spec) pid, req_json = None\<rparr>
            (\<lambda>resp. Inr (resp_status resp)) a)"

section \<open>Properties\<close>

text \<open>The status of a policy is asked for below the URL of its instance, in every dialect.\<close>

lemma status_below_instance: "policy_status_url cfg tid pid = policy_instance_url cfg tid pid @ ''/status''"
  by (simp add: policy_status_url_def policy_instance_url_def)

definition emit_allowed :: "a1_config \<Rightarrow> emit_env \<Rightarrow> string \<Rightarrow> certificate option \<Rightarrow> bool" where
  "emit_allowed cfg env ptype cert \<longleftrightarrow>
     map_of (policy_types cfg) ptype \<noteq> None \<and> (require_cert env \<longrightarrow> cert_required_ok cert)"

lemma emit_refused:
  "\<not> emit_allowed cfg env ptype cert \<Longrightarrow>
   emit_policy pb http persist cfg env ptype payload pid record cert a = (a, EmitRaised (PyExn ValueError))"
  by (auto simp: emit_policy_def emit_allowed_def split: option.split)

text \<open>An emission that raises leaves the evidence store and the counter as they were.\<close>

lemma emit_raised:
  assumes "emit_policy pb http persist cfg env ptype payload pid record cert a = (a', EmitRaised e)"
  shows "a1_store a' = a1_store a \<and> a1_emitted a' = a1_emitted a \<and> a1_attached a' = a1_attached a"
  using assms
  by (auto simp: emit_policy_def request_def Let_def split: option.splits if_splits prod.splits sum.splits outcome.splits)

text \<open>The persist of an emission that the network function accepted.\<close>

definition audited ::
  "(decision_record \<Rightarrow> 's \<Rightarrow> 's \<times> py_exn option) \<Rightarrow> decision_record option \<Rightarrow> bool \<Rightarrow> 's \<Rightarrow> 's \<times> py_exn option" where
  "audited persist record attached s =
     (case record of Some r \<Rightarrow> (if attached then persist r s else (s, None)) | None \<Rightarrow> (s, None))"

lemma emit_accepted:
  assumes "emit_policy pb http persist cfg env ptype payload policy_id record cert a = (a', res)"
    and "res = Emitted pid st \<or> res = PersistFailed pid st e"
  shows "emit_allowed cfg env ptype cert \<and> a1_emitted a' = a1_emitted a + 1 \<and>
         a1_store a' = fst (audited persist record (a1_attached a) (a1_store a)) \<and>
         (res = Emitted pid st \<longleftrightarrow> snd (audited persist record (a1_attached a) (a1_store a)) = None) \<and>
         (\<exists>spec resp. map_of (policy_types cfg) ptype = Some spec \<and>
            http (put_request cfg spec pid payload) (a1_world a) = (a1_world a', Returned resp) \<and>
            st = resp_status resp)"
  using assms
  by (auto simp: emit_policy_def emit_allowed_def request_def audited_def Let_def
      split: option.splits if_splits prod.splits sum.splits outcome.splits)

text \<open>What a registration pass accepts: a subsequence of the ids, all of types that have a schema.\<close>

lemma register_loop_accepts:
  "register_loop http cfg types acc a = (a', Inr ids) \<Longrightarrow>
   (\<forall>(n, _) \<in> set types. \<exists>s. policy_create_schema n = Inr s) \<and>
   (\<exists>more. ids = acc @ more \<and> set more \<subseteq> policy_type_id ` snd ` set types)"
proof (induction types arbitrary: acc a)
  case (Cons t types)
  obtain name spec where t: "t = (name, spec)" by force
  from Cons.prems obtain s where s: "policy_create_schema name = Inr s"
    by (cases "policy_create_schema name") (auto simp: t)
  obtain a1 out where rq: "request http \<lparr>req_method = PUT, req_url = policy_type_url cfg (policy_type_id spec),
      req_json = Some (register_body spec s)\<rparr> a = (a1, out)" by (metis prod.exhaust)
  from Cons.prems obtain acc' where "register_loop http cfg types acc' a1 = (a', Inr ids)"
    "acc' = acc \<or> acc' = acc @ [policy_type_id spec]"
    by (auto simp: t s rq split: outcome.splits if_splits)
  with Cons.IH [OF this(1)] s show ?case by (auto simp: t)
qed simp

text \<open>
  The policy-type table cannot be extended: with a type of the operator's own in the table,
  registration raises \<open>ValueError\<close> when it reaches it, after the types before it were registered and
  before any after it is tried, as long as the transport fails only with HTTP errors.
\<close>

theorem vendor_type_aborts_registration:
  assumes "policy_types cfg = known @ (name, spec) # rest"
    and "\<forall>(n, _) \<in> set known. \<exists>s. policy_create_schema n = Inr s"
    and "name \<notin> fst ` set DEFAULT_POLICY_TYPES"
    and "\<And>r w w' e. http r w = (w', Raised e) \<Longrightarrow> http_error e"
  shows "register_policy_types http cfg a =
           (fst (register_loop http cfg known [] a), Inl (PyExn ValueError))"
proof -
  have bad: "policy_create_schema name = Inl ValueError"
    using assms(3) by (simp add: policy_create_schema_def policy_schema_def DEFAULT_POLICY_TYPES_def)
  have "register_loop http cfg (known @ (name, spec) # rest) acc b =
      (fst (register_loop http cfg known acc b), Inl (PyExn ValueError))" for acc b
    using assms(2)
  proof (induction known arbitrary: acc b)
    case (Cons t known)
    obtain n sp where t: "t = (n, sp)" by force
    from Cons.prems obtain s where s: "policy_create_schema n = Inr s" by (auto simp: t)
    obtain b1 out where rq: "request http \<lparr>req_method = PUT, req_url = policy_type_url cfg (policy_type_id sp),
        req_json = Some (register_body sp s)\<rparr> b = (b1, out)" by (metis prod.exhaust)
    have "http_error e" if "out = Raised e" for e
      using rq that assms(4) by (auto simp: request_def split: prod.splits)
    then show ?case using Cons by (cases out) (auto simp: t s rq)
  qed (simp add: bad)
  then show ?thesis by (simp add: register_policy_types_def assms(1))
qed

theorem vendor_type_aborts_registration_witness:
  "snd (register_policy_types (\<lambda>r w. (w, Returned \<lparr>resp_status = 201, resp_json = Inr VNone\<rparr>))
     (a1_config_default\<lparr>policy_types := DEFAULT_POLICY_TYPES @
        [(''vendor.energy'', \<lparr>policy_type_id = 30001, pt_name = [], pt_description = [], pt_schema_v = []\<rparr>)]\<rparr>)
     \<lparr>a1_breaker = (), a1_world = (), a1_emitted = 0, a1_attached = False, a1_store = (), a1_events = []\<rparr>) =
   Inl (PyExn ValueError)"
  by (subst vendor_type_aborts_registration [where known = DEFAULT_POLICY_TYPES and rest = "[]" and name = "''vendor.energy''"
        and spec = "\<lparr>policy_type_id = 30001, pt_name = [], pt_description = [], pt_schema_v = []\<rparr>"])
    (auto simp: DEFAULT_POLICY_TYPES_def policy_create_schema_def policy_schema_def a1_config_default_def)

end
