(* ===== verification/Counterfactual.thy ===== *)
theory Counterfactual
  imports EvidenceSchema "HOL-Library.Multiset"
begin

text \<open>
  The audited counterfactual: \<open>policy/counterfactual.py\<close> turns the candidates a decision did not choose
  into ranked, classified rejected alternatives, and \<open>evidence/explanation.py\<close> gives each reason its
  sentence from a fixed template. The formatting of a float by a format specification is the parameter
  \<open>fmt\<close>.
\<close>

section \<open>Explanations\<close>

datatype float_format = Percent0 | Fixed2 | Fixed4

datatype template_piece = Lit string | Metric | Predicted float_format | Threshold float_format | Horizon

fun cause_name :: "rejection_cause \<Rightarrow> string" where
  "cause_name Gateway_overload = ''gateway_overload''"
| "cause_name Sla_breach_predicted = ''sla_breach_predicted''"
| "cause_name Compute_overload = ''compute_overload''"
| "cause_name Energy_cost = ''energy_cost''"
| "cause_name Ntn_capacity_exhausted = ''ntn_capacity_exhausted''"
| "cause_name Spectrum_unavailable = ''spectrum_unavailable''"
| "cause_name Constraint_violation_hard = ''constraint_violation_hard''"
| "cause_name Constraint_violation_soft = ''constraint_violation_soft''"
| "cause_name Policy_oscillation = ''policy_oscillation''"

fun horizon_name :: "rejection_horizon \<Rightarrow> string" where
  "horizon_name H30s = ''30s''"
| "horizon_name H60s = ''60s''"
| "horizon_name H300s = ''300s''"

definition TEMPLATES :: "(string \<times> template_piece list) list" where
  "TEMPLATES =
     [(''gateway_overload'',
       [Lit ''Predicted to push '', Metric, Lit '' to '', Predicted Percent0, Lit '' load at +'', Horizon,
        Lit '', exceeding the '', Threshold Percent0,
        Lit '' safety threshold and risking SLA breach for downstream slices.'']),
      (''sla_breach_predicted'',
       [Lit ''Predicted SLA breach probability '', Predicted Percent0, Lit '' on '', Metric, Lit '' at +'', Horizon,
        Lit '', above the '', Threshold Percent0, Lit '' threshold.'']),
      (''compute_overload'',
       [Lit ''Edge compute '', Metric, Lit '' predicted at '', Predicted Percent0, Lit '' utilization at +'', Horizon,
        Lit '', exceeding the '', Threshold Percent0, Lit '' ceiling and risking AI workload queueing delays.'']),
      (''energy_cost'',
       [Lit ''Energy cost on '', Metric, Lit '' predicted at '', Predicted Fixed2, Lit '' kWh at +'', Horizon,
        Lit '', exceeding the '', Threshold Fixed2, Lit '' kWh budget without compensating SLA gain.'']),
      (''ntn_capacity_exhausted'',
       [Lit ''NTN capacity on '', Metric, Lit '' predicted at '', Predicted Percent0, Lit '' at +'', Horizon,
        Lit '', exceeding the '', Threshold Percent0, Lit '' reserve target.'']),
      (''spectrum_unavailable'',
       [Lit ''Spectrum allocation conflict on '', Metric, Lit '' at +'', Horizon, Lit '': predicted utilization '',
        Predicted Percent0, Lit '' vs allowed '', Threshold Percent0, Lit ''.'']),
      (''constraint_violation_hard'',
       [Lit ''Action would violate hard regulatory constraint on '', Metric, Lit '': predicted '', Predicted Fixed2,
        Lit '', limit '', Threshold Fixed2, Lit ''. Hard rejection.'']),
      (''constraint_violation_soft'',
       [Lit ''Action would violate soft operator-policy constraint on '', Metric, Lit '': predicted '', Predicted Fixed2,
        Lit '', threshold '', Threshold Fixed2, Lit ''. Soft preference.'']),
      (''policy_oscillation'',
       [Lit ''Predicted policy oscillation on '', Metric, Lit '': change rate '', Predicted Fixed2,
        Lit '' above threshold '', Threshold Fixed2, Lit '' within '', Horizon, Lit ''.''])]"

fun fill :: "(float_format \<Rightarrow> pyfloat \<Rightarrow> string) \<Rightarrow> rejection_reason \<Rightarrow> template_piece \<Rightarrow> string" where
  "fill fmt r (Lit s) = s"
| "fill fmt r Metric = primary_metric r"
| "fill fmt r (Predicted f) = fmt f (predicted_value r)"
| "fill fmt r (Threshold f) = fmt f (threshold r)"
| "fill fmt r Horizon = horizon_name (rr_horizon r)"

definition fill_all :: "(float_format \<Rightarrow> pyfloat \<Rightarrow> string) \<Rightarrow> rejection_reason \<Rightarrow> template_piece list \<Rightarrow> string" where
  "fill_all fmt r ps = concat (map (fill fmt r) ps)"

definition fallback_template :: "string \<Rightarrow> template_piece list" where
  "fallback_template cause =
     [Lit ''Rejected due to '', Lit cause, Lit '' on '', Metric, Lit '': predicted '', Predicted Fixed4,
      Lit '' vs threshold '', Threshold Fixed4, Lit '' at +'', Horizon, Lit ''.'']"

definition generate_human_explanation :: "(float_format \<Rightarrow> pyfloat \<Rightarrow> string) \<Rightarrow> rejection_reason \<Rightarrow> string" where
  "generate_human_explanation fmt r =
     (case map_of TEMPLATES (cause_name (primary_cause r)) of
        None \<Rightarrow> fill_all fmt r (fallback_template (cause_name (primary_cause r)))
      | Some t \<Rightarrow> fill_all fmt r t)"

section \<open>Rejected alternatives\<close>

record alternative_candidate =
  ac_action :: pyval
  ac_reward_sum :: pyfloat
  ac_violation_sum :: pyfloat
  ac_risk_30s :: pyfloat
  ac_risk_1min :: pyfloat
  ac_risk_5min :: pyfloat
  ac_primary_metric :: string
  ac_primary_value :: "pyfloat option"
  ac_threshold :: pyfloat
  ac_horizon :: rejection_horizon

text \<open>
  \<open>sorted(candidates, key=reward_sum, reverse=True)\<close>: descending, equal rewards in their given order.
  (With NaN among the rewards Python's order depends on its algorithm; the rewards here are finite.)
\<close>

fun insert_desc :: "alternative_candidate \<Rightarrow> alternative_candidate list \<Rightarrow> alternative_candidate list" where
  "insert_desc x [] = [x]"
| "insert_desc x (y # ys) =
     (if ac_reward_sum x < ac_reward_sum y then y # insert_desc x ys else x # y # ys)"

definition sort_desc :: "alternative_candidate list \<Rightarrow> alternative_candidate list" where
  "sort_desc xs = foldr insert_desc xs []"

definition classify :: "platform \<Rightarrow> pyfloat \<Rightarrow> pyfloat \<Rightarrow> alternative_candidate \<Rightarrow> rejection_cause" where
  "classify pl chosen_score soft_threshold c =
     (if ac_violation_sum c > soft_threshold then Constraint_violation_hard
      else if ac_risk_30s c > rnd pl (20 / 100) then Sla_breach_predicted
      else if ac_reward_sum c < chosen_score then Energy_cost
      else Policy_oscillation)"

text \<open>The model's constructor raises a \<open>ValidationError\<close>, a \<open>ValueError\<close>, outside the field bounds.\<close>

definition predicted_outcome_new :: "pyfloat \<Rightarrow> pyfloat \<Rightarrow> pyfloat \<Rightarrow> predicted_outcome res" where
  "predicted_outcome_new r30 r60 r300 =
     (let o1 = \<lparr>sla_risk_30s = r30, sla_risk_1min = r60, sla_risk_5min = r300, gateway_loads = [],
               ntn_capacity_used = Fin 0, energy_kwh = Fin 0, po_constraint_violations = []\<rparr>
      in if valid_outcome o1 then Inr o1 else Inl ValueError)"

definition reject_one ::
  "platform \<Rightarrow> (float_format \<Rightarrow> pyfloat \<Rightarrow> string) \<Rightarrow> pyfloat \<Rightarrow> pyfloat \<Rightarrow> int \<Rightarrow> nat \<Rightarrow>
   alternative_candidate \<Rightarrow> rejected_alternative res" where
  "reject_one pl fmt chosen_score soft_threshold seed rank c =
     (let cause = classify pl chosen_score soft_threshold c;
          value = (case ac_primary_value c of Some v \<Rightarrow> v
                   | None \<Rightarrow> if cause = Constraint_violation_hard then ac_violation_sum c else ac_risk_30s c);
          reason = \<lparr>primary_cause = cause, primary_metric = ac_primary_metric c, predicted_value = value,
                    threshold = ac_threshold c, rr_horizon = ac_horizon c\<rparr>
      in bindE (predicted_outcome_new (ac_risk_30s c) (ac_risk_1min c) (ac_risk_5min c)) (\<lambda>o1.
           Inr \<lparr>ra_rank = int rank, ra_action = ac_action c, ra_predicted = o1, ra_reason_machine = reason,
                ra_reason_human = generate_human_explanation fmt reason, ra_random_seed = seed\<rparr>))"

definition build_rejected_alternatives ::
  "platform \<Rightarrow> (float_format \<Rightarrow> pyfloat \<Rightarrow> string) \<Rightarrow> alternative_candidate list \<Rightarrow> pyfloat \<Rightarrow> pyfloat \<Rightarrow> int \<Rightarrow>
   rejected_alternative list res" where
  "build_rejected_alternatives pl fmt candidates chosen_score soft_threshold seed =
     mapE (\<lambda>(rank, c). reject_one pl fmt chosen_score soft_threshold seed rank c)
       (enumerate 1 (sort_desc candidates))"

section \<open>Properties\<close>

text \<open>Every cause has its own sentence: the fallback is never reached.\<close>

lemma template_exists: "\<exists>t. map_of TEMPLATES (cause_name c) = Some t"
  by (cases c) (simp_all add: TEMPLATES_def)

lemma mset_insert_desc: "mset (insert_desc x xs) = add_mset x (mset xs)"
  by (induction xs) auto

lemma set_insert_desc: "set (insert_desc x xs) = insert x (set xs)"
  by (metis mset_insert_desc set_mset_add_mset_insert set_mset_mset)

lemma mset_sort_desc: "mset (sort_desc xs) = mset xs"
  by (induction xs) (simp_all add: sort_desc_def mset_insert_desc)

lemma set_sort_desc: "set (sort_desc xs) = set xs"
  by (metis mset_sort_desc set_mset_mset)

text \<open>Descending, for rewards that compare totally.\<close>

definition descending :: "alternative_candidate list \<Rightarrow> bool" where
  "descending xs \<longleftrightarrow> sorted_wrt (\<lambda>x y. \<not> ac_reward_sum x < ac_reward_sum y) xs"

lemma insert_descending:
  assumes "descending xs" "\<forall>y \<in> set (x # xs). isfinite (ac_reward_sum y)"
  shows "descending (insert_desc x xs)"
  using assms
proof (induction xs)
  case Nil
  then show ?case by (simp add: descending_def)
next
  case (Cons y ys)
  have fin: "\<exists>r. ac_reward_sum z = Fin r" if "z \<in> set (x # y # ys)" for z
    using Cons.prems(2) that by (cases "ac_reward_sum z") force+
  show ?case
  proof (cases "ac_reward_sum x < ac_reward_sum y")
    case True
    then have "descending (insert_desc x ys)" using Cons by (simp add: descending_def)
    moreover have "\<not> ac_reward_sum y < ac_reward_sum x"
      using True fin [of x] fin [of y] by auto
    ultimately show ?thesis
      using True Cons.prems(1) set_insert_desc [of x ys] by (simp add: descending_def)
  next
    case False
    have "\<not> ac_reward_sum x < ac_reward_sum z" if "z \<in> set ys" for z
      using False Cons.prems(1) that fin [of x] fin [of y] fin [of z] by (auto simp: descending_def)
    then show ?thesis using False Cons.prems(1) by (simp add: descending_def)
  qed
qed

lemma sort_descending: "\<forall>y \<in> set xs. isfinite (ac_reward_sum y) \<Longrightarrow> descending (sort_desc xs)"
proof (induction xs)
  case Nil
  then show ?case by (simp add: sort_desc_def descending_def)
next
  case (Cons x xs)
  then have "descending (sort_desc xs)" by simp
  then show ?case using insert_descending [of "sort_desc xs" x] Cons.prems set_sort_desc [of xs]
    by (simp add: sort_desc_def)
qed

definition risks_ok :: "alternative_candidate \<Rightarrow> bool" where
  "risks_ok c \<longleftrightarrow> fraction (ac_risk_30s c) \<and> fraction (ac_risk_1min c) \<and> fraction (ac_risk_5min c)"

lemma fraction_0: "fraction (Fin 0)"
  by (simp add: fraction_def)

lemma predicted_outcome_new_ok:
  "fraction r30 \<Longrightarrow> fraction r60 \<Longrightarrow> fraction r300 \<Longrightarrow>
   \<exists>o1. predicted_outcome_new r30 r60 r300 = Inr o1 \<and> valid_outcome o1 \<and> sla_risk_30s o1 = r30"
  by (simp add: predicted_outcome_new_def valid_outcome_def fraction_0 Let_def)

text \<open>The record \<open>ra\<close> documents the candidate \<open>c\<close> at the rank \<open>n\<close>.\<close>

definition documents ::
  "platform \<Rightarrow> (float_format \<Rightarrow> pyfloat \<Rightarrow> string) \<Rightarrow> pyfloat \<Rightarrow> pyfloat \<Rightarrow> int \<Rightarrow> nat \<Rightarrow>
   alternative_candidate \<Rightarrow> rejected_alternative \<Rightarrow> bool" where
  "documents pl fmt s soft seed n c ra \<longleftrightarrow>
     valid_alternative ra \<and> ra_rank ra = int n \<and> ra_action ra = ac_action c \<and> ra_random_seed ra = seed \<and>
     primary_cause (ra_reason_machine ra) = classify pl s soft c \<and>
     ra_reason_human ra = generate_human_explanation fmt (ra_reason_machine ra)"

lemma reject_one_ok:
  assumes "risks_ok c" "1 \<le> rank"
  shows "\<exists>ra. reject_one pl fmt s soft seed rank c = Inr ra \<and> documents pl fmt s soft seed rank c ra"
proof -
  obtain o1 where "predicted_outcome_new (ac_risk_30s c) (ac_risk_1min c) (ac_risk_5min c) = Inr o1" "valid_outcome o1"
    using predicted_outcome_new_ok assms(1) unfolding risks_ok_def by blast
  then show ?thesis using assms(2)
    by (simp add: reject_one_def documents_def valid_alternative_def Let_def)
qed

lemma reject_all:
  "\<forall>c \<in> set xs. risks_ok c \<Longrightarrow> 1 \<le> n \<Longrightarrow>
   \<exists>ras. mapE (\<lambda>(rank, c). reject_one pl fmt s soft seed rank c) (enumerate n xs) = Inr ras \<and>
     length ras = length xs \<and> (\<forall>i < length xs. documents pl fmt s soft seed (n + i) (xs ! i) (ras ! i))"
proof (induction xs arbitrary: n)
  case (Cons c xs)
  obtain ra where ra: "reject_one pl fmt s soft seed n c = Inr ra" "documents pl fmt s soft seed n c ra"
    using reject_one_ok Cons.prems by (metis list.set_intros(1))
  obtain ras where ras: "mapE (\<lambda>(rank, c). reject_one pl fmt s soft seed rank c) (enumerate (Suc n) xs) = Inr ras"
    "length ras = length xs" "\<forall>i < length xs. documents pl fmt s soft seed (Suc n + i) (xs ! i) (ras ! i)"
    using Cons.IH [of "Suc n"] Cons.prems by auto
  have "\<forall>i < length (c # xs). documents pl fmt s soft seed (n + i) ((c # xs) ! i) ((ra # ras) ! i)"
    using ra(2) ras(3) by (auto simp: less_Suc_eq_0_disj)
  then show ?case using ra(1) ras(1,2) by (intro exI [of _ "ra # ras"]) simp
qed simp

text \<open>
  The counterfactual is complete and well formed: for candidates with risks in the unit interval
  and finite rewards, every candidate gives exactly one record that validates, ranked from 1 in
  descending order of reward, with its action, the decision's seed, the cause its numbers call for
  and the explanation of that very reason.
\<close>

theorem alternatives_complete:
  assumes "\<forall>c \<in> set cs. risks_ok c \<and> isfinite (ac_reward_sum c)"
  shows "\<exists>ras ranked. build_rejected_alternatives pl fmt cs s soft seed = Inr ras \<and>
           mset ranked = mset cs \<and> descending ranked \<and> length ras = length cs \<and>
           (\<forall>i < length cs. documents pl fmt s soft seed (i + 1) (ranked ! i) (ras ! i))"
proof -
  have set: "set (sort_desc cs) = set cs" "length (sort_desc cs) = length cs"
    by (simp_all add: set_sort_desc) (metis mset_sort_desc size_mset)
  have "descending (sort_desc cs)" using sort_descending assms by blast
  moreover have "\<forall>c \<in> set (sort_desc cs). risks_ok c" using assms set(1) by simp
  from reject_all [OF this order_refl, of pl fmt s soft seed] obtain ras where
    "build_rejected_alternatives pl fmt cs s soft seed = Inr ras" "length ras = length cs"
    "\<forall>i < length cs. documents pl fmt s soft seed (1 + i) (sort_desc cs ! i) (ras ! i)"
    unfolding build_rejected_alternatives_def set by blast
  ultimately show ?thesis using mset_sort_desc by (metis add.commute)
qed

section \<open>Witness\<close>

definition demo_candidate :: alternative_candidate where
  "demo_candidate =
     \<lparr>ac_action = VDict [], ac_reward_sum = Fin (1 / 2), ac_violation_sum = Fin 0, ac_risk_30s = Fin (1 / 2),
      ac_risk_1min = Fin (1 / 2), ac_risk_5min = Fin 1, ac_primary_metric = ''sla_risk_30s'',
      ac_primary_value = None, ac_threshold = Fin (1 / 5), ac_horizon = H30s\<rparr>"

theorem alternatives_complete_witness:
  "\<exists>ra. build_rejected_alternatives exact_platform (\<lambda>_ _. []) [demo_candidate] (Fin 1) (Fin 0) 7 = Inr [ra] \<and>
        ra_rank ra = 1 \<and> primary_cause (ra_reason_machine ra) = Sla_breach_predicted"
proof -
  have "\<forall>c \<in> set [demo_candidate]. risks_ok c \<and> isfinite (ac_reward_sum c)"
    by (simp add: demo_candidate_def risks_ok_def fraction_def)
  from alternatives_complete [OF this, of exact_platform "\<lambda>_ _. []" "Fin 1" "Fin 0" 7] obtain ras ranked where
    r: "build_rejected_alternatives exact_platform (\<lambda>_ _. []) [demo_candidate] (Fin 1) (Fin 0) 7 = Inr ras"
    "mset ranked = {#demo_candidate#}" "length ras = 1"
    "documents exact_platform (\<lambda>_ _. []) (Fin 1) (Fin 0) 7 1 (ranked ! 0) (ras ! 0)" by auto
  have "ranked = [demo_candidate]" using r(2) by (metis mset_single_iff)
  with r show ?thesis
    by (intro exI [of _ "ras ! 0"]) (cases ras; simp add: documents_def classify_def demo_candidate_def)
qed

end
