(* ===== verification/EmitGuards.thy ===== *)
theory EmitGuards
  imports Certificate
begin

text \<open>
  The pre-emit guards of \<open>policy/emit_guards.py\<close> and the pluggable registry of
  \<open>policy/guard_registry.py\<close>. A guard is a function value with an identity (Python's \<open>is\<close>) and a
  call that may return a failure or raise. The registry's dictionary is an association list in
  insertion order; a call that raises still leaves the state it has reached, so the stateful
  operations return the new state beside a result. The installed entry points are a parameter.
\<close>

section \<open>The guards\<close>

datatype guard_detail =
    ViolatedIds "string list"
  | OverBudget pyfloat pyfloat
  | HiddenCorrections nat "string list"
  | TxBelowFloor "pyfloat option" pyfloat pyfloat

record guard_failure =
  guard_id :: string
  guard_detail :: "guard_detail option"

definition guard_shield_certificate_safe :: "certificate option \<Rightarrow> guard_failure option" where
  "guard_shield_certificate_safe cert =
     (case cert of
        None \<Rightarrow> Some \<lparr>guard_id = ''missing_safety_certificate'', guard_detail = None\<rparr>
      | Some c \<Rightarrow>
          (if cert_emit_blocked c \<or> \<not> cert_safe c
           then Some \<lparr>guard_id = ''shield_blocked'', guard_detail = Some (ViolatedIds (cert_violated_ids c))\<rparr>
           else None))"

definition guard_predicted_outcome_pretrained :: "bool \<Rightarrow> guard_failure option" where
  "guard_predicted_outcome_pretrained head_is_pretrained =
     (if head_is_pretrained then None
      else Some \<lparr>guard_id = ''head_not_pretrained'', guard_detail = None\<rparr>)"

definition guard_decision_within_a1_budget :: "pyfloat \<Rightarrow> pyfloat \<Rightarrow> guard_failure option" where
  "guard_decision_within_a1_budget elapsed_ms policy_period_ms =
     (if elapsed_ms \<le> policy_period_ms then None
      else Some \<lparr>guard_id = ''decision_over_budget'',
                 guard_detail = Some (OverBudget elapsed_ms policy_period_ms)\<rparr>)"

text \<open>\<open>None\<close> and the empty list are both falsy.\<close>

definition guard_corrections_recorded ::
  "violation list option \<Rightarrow> action list option \<Rightarrow> guard_failure option" where
  "guard_corrections_recorded corrections audit_field =
     (case corrections of
        None \<Rightarrow> None
      | Some cs \<Rightarrow>
          (if cs = [] then None
           else if audit_field = None \<or> audit_field = Some []
           then Some \<lparr>guard_id = ''corrections_not_audited'',
                      guard_detail = Some (HiddenCorrections (length cs)
                        (sorted_list_of_set (constraint_id ` set cs)))\<rparr>
           else None))"

definition run_guard_chain ::
  "certificate option \<Rightarrow> bool \<Rightarrow> pyfloat \<Rightarrow> action list option \<Rightarrow> pyfloat \<Rightarrow> guard_failure list" where
  "run_guard_chain cert head elapsed audit_field period =
     List.map_filter (\<lambda>x. x)
       [guard_shield_certificate_safe cert,
        guard_predicted_outcome_pretrained head,
        guard_decision_within_a1_budget elapsed period,
        guard_corrections_recorded (map_option cert_corrections cert) audit_field]"

text \<open>
  \<open>EmitTrace.elapsed_ms\<close>: a completion time of \<open>None\<close> or 0 reads the clock. The quotient of an int
  by a float converts the int first.
\<close>

record emit_trace =
  decision_started_ns :: int
  decision_completed_ns :: "int option"
  trace_corrections :: "violation list"

definition elapsed_ms :: "platform \<Rightarrow> int \<Rightarrow> emit_trace \<Rightarrow> pyfloat res" where
  "elapsed_ms pl now tr =
     (let end = (case decision_completed_ns tr of None \<Rightarrow> now | Some t \<Rightarrow> if t = 0 then now else t)
      in bindE (int_to_float pl (end - decision_started_ns tr)) (\<lambda>d. fdiv pl d (Fin 1000000)))"

text \<open>The conditions under which nothing is refused.\<close>

definition emit_conditions ::
  "certificate option \<Rightarrow> bool \<Rightarrow> pyfloat \<Rightarrow> action list option \<Rightarrow> pyfloat \<Rightarrow> bool" where
  "emit_conditions cert head elapsed audit_field period \<longleftrightarrow>
     (\<exists>c. cert = Some c \<and> \<not> cert_emit_blocked c \<and> cert_safe c \<and>
          (cert_corrections c = [] \<or> (\<exists>x xs. audit_field = Some (x # xs)))) \<and>
     head \<and> elapsed \<le> period"

lemma audit_field_cases: "(f = None \<or> f = Some []) \<longleftrightarrow> \<not> (\<exists>x xs. f = Some (x # xs))"
  by (cases f; cases "the f") auto

lemma chain_empty_iff:
  "run_guard_chain cert head elapsed audit_field period = [] \<longleftrightarrow>
   emit_conditions cert head elapsed audit_field period"
  unfolding run_guard_chain_def emit_conditions_def guard_shield_certificate_safe_def
    guard_predicted_outcome_pretrained_def guard_decision_within_a1_budget_def
    guard_corrections_recorded_def audit_field_cases
  by (cases cert) auto

section \<open>The registry\<close>

record guard_context =
  ctx_certificate :: "certificate option"
  ctx_head_is_pretrained :: bool
  ctx_elapsed_ms :: pyfloat
  ctx_policy_period_ms :: pyfloat
  ctx_audit_corrections :: "action list option"
  ctx_extras :: action

text \<open>
  The callables that can be registered: the four built-in adapters and operator plug-ins, told apart
  by identity. What a plug-in answers is code outside the repository, the parameter \<open>plug\<close>.
\<close>

datatype guard_fn =
    G_shield_certificate_safe
  | G_head_pretrained
  | G_decision_within_a1_budget
  | G_corrections_recorded
  | Plugin nat

type_synonym plugins = "nat \<Rightarrow> guard_context \<Rightarrow> guard_failure option res"

fun guard_call :: "plugins \<Rightarrow> guard_fn \<Rightarrow> guard_context \<Rightarrow> guard_failure option res" where
  "guard_call plug G_shield_certificate_safe ctx =
     Inr (guard_shield_certificate_safe (ctx_certificate ctx))"
| "guard_call plug G_head_pretrained ctx =
     Inr (guard_predicted_outcome_pretrained (ctx_head_is_pretrained ctx))"
| "guard_call plug G_decision_within_a1_budget ctx =
     Inr (guard_decision_within_a1_budget (ctx_elapsed_ms ctx) (ctx_policy_period_ms ctx))"
| "guard_call plug G_corrections_recorded ctx =
     Inr (guard_corrections_recorded (map_option cert_corrections (ctx_certificate ctx))
       (ctx_audit_corrections ctx))"
| "guard_call plug (Plugin n) ctx = plug n ctx"

record guard_registry =
  entries :: "(string \<times> guard_fn) list"
  loaded_entry_points :: bool

text \<open>\<open>register\<close>; a value that is not callable is \<open>None\<close>.\<close>

definition register :: "string \<Rightarrow> guard_fn option \<Rightarrow> guard_registry \<Rightarrow> guard_registry \<times> bool res" where
  "register name fn r =
     (case fn of
        None \<Rightarrow> (r, Inl TypeError)
      | Some f \<Rightarrow>
          (case map_of (entries r) name of
             Some g \<Rightarrow>
               (if g \<noteq> f then (r, Inl ValueError)
                else (r\<lparr>entries := dict_set name f (entries r)\<rparr>, Inr True))
           | None \<Rightarrow> (r\<lparr>entries := dict_set name f (entries r)\<rparr>, Inr True)))"

text \<open>An installed entry point: its load may fail, or give something that is not callable.\<close>

datatype loaded = LoadFails | NotCallable | Loaded guard_fn

primrec load_entry_points ::
  "(string \<times> loaded) list \<Rightarrow> guard_registry \<Rightarrow> guard_registry \<times> bool res" where
  "load_entry_points [] r = (r, Inr True)"
| "load_entry_points (ep # eps) r =
     (case snd ep of
        Loaded f \<Rightarrow>
          (case register (fst ep) (Some f) r of
             (r', Inl e) \<Rightarrow> (r', Inl e)
           | (r', Inr _) \<Rightarrow> load_entry_points eps r')
      | _ \<Rightarrow> load_entry_points eps r)"

text \<open>The whole discovery; \<open>None\<close> is a failing \<open>metadata.entry_points\<close>.\<close>

definition maybe_load_entry_points ::
  "(string \<times> loaded) list option \<Rightarrow> guard_registry \<Rightarrow> guard_registry \<times> bool res" where
  "maybe_load_entry_points eps r =
     (if loaded_entry_points r then (r, Inr True)
      else (case eps of
              None \<Rightarrow> (r\<lparr>loaded_entry_points := True\<rparr>, Inr True)
            | Some es \<Rightarrow> load_entry_points es (r\<lparr>loaded_entry_points := True\<rparr>)))"

definition get_guards ::
  "(string \<times> loaded) list option \<Rightarrow> guard_registry \<Rightarrow>
   guard_registry \<times> (string \<times> guard_fn) list res" where
  "get_guards eps r =
     (case maybe_load_entry_points eps r of
        (r', Inl e) \<Rightarrow> (r', Inl e)
      | (r', Inr _) \<Rightarrow> (r', Inr (entries r')))"

definition get_guard ::
  "(string \<times> loaded) list option \<Rightarrow> string \<Rightarrow> guard_registry \<Rightarrow> guard_registry \<times> guard_fn res" where
  "get_guard eps name r =
     (case maybe_load_entry_points eps r of
        (r', Inl e) \<Rightarrow> (r', Inl e)
      | (r', Inr _) \<Rightarrow>
          (r', case map_of (entries r') name of None \<Rightarrow> Inl KeyError | Some f \<Rightarrow> Inr f))"

text \<open>A guard that raises is itself a failure.\<close>

definition run_one :: "plugins \<Rightarrow> guard_context \<Rightarrow> string \<times> guard_fn \<Rightarrow> guard_failure option" where
  "run_one plug ctx nf =
     (case guard_call plug (snd nf) ctx of
        Inl e \<Rightarrow> Some \<lparr>guard_id = ''_guard_internal_error::'' @ fst nf, guard_detail = None\<rparr>
      | Inr f \<Rightarrow> f)"

definition run_registry_chain ::
  "plugins \<Rightarrow> (string \<times> loaded) list option \<Rightarrow> guard_context \<Rightarrow> string list option \<Rightarrow> guard_registry \<Rightarrow>
   guard_registry \<times> guard_failure list res" where
  "run_registry_chain plug eps ctx only r =
     (case get_guards eps r of
        (r', Inl e) \<Rightarrow> (r', Inl e)
      | (r', Inr gs) \<Rightarrow>
          (r', Inr (List.map_filter (run_one plug ctx)
             (filter (\<lambda>(n, f). case only of None \<Rightarrow> True | Some ns \<Rightarrow> n \<in> set ns) gs))))"

section \<open>The built-in guards\<close>

definition builtins :: "(string \<times> guard_fn) list" where
  "builtins =
     [(''shield_certificate_safe'', G_shield_certificate_safe),
      (''head_pretrained'', G_head_pretrained),
      (''decision_within_a1_budget'', G_decision_within_a1_budget),
      (''corrections_recorded'', G_corrections_recorded)]"

definition module_registry :: guard_registry where
  "module_registry =
     fst (foldl (\<lambda>(r, _) (n, f). register n (Some f) r)
       (\<lparr>entries = [], loaded_entry_points = False\<rparr>, Inr True) builtins)"

lemma module_registry_eq: "module_registry = \<lparr>entries = builtins, loaded_entry_points = False\<rparr>"
  by (simp add: module_registry_def builtins_def register_def)

section \<open>Properties\<close>

text \<open>
  The go/no-go decision: the guard chain refuses nothing exactly when there is a certificate
  that is safe and not blocked, the predictive head is trained, the decision met its budget (a NaN
  duration never does), and the Shield's corrections, if any, reached the audit record.
\<close>

theorem emit_authorised_iff:
  "run_guard_chain cert head elapsed audit_field period = [] \<longleftrightarrow>
   (\<exists>c. cert = Some c \<and> \<not> cert_emit_blocked c \<and> cert_safe c \<and>
        (cert_corrections c = [] \<or> (\<exists>x xs. audit_field = Some (x # xs)))) \<and>
   head \<and> elapsed \<le> period"
  by (simp only: chain_empty_iff emit_conditions_def)

text \<open>
  The pluggable chain agrees with the hard-coded one: with no plug-in installed, the module's
  registry returns the same failures in the same order, for every context.
\<close>

theorem registry_equals_chain:
  "run_registry_chain plug (Some []) ctx None module_registry =
   (module_registry\<lparr>loaded_entry_points := True\<rparr>,
    Inr (run_guard_chain (ctx_certificate ctx) (ctx_head_is_pretrained ctx) (ctx_elapsed_ms ctx)
           (ctx_audit_corrections ctx) (ctx_policy_period_ms ctx)))"
  by (simp add: module_registry_eq run_registry_chain_def get_guards_def maybe_load_entry_points_def
      builtins_def run_one_def run_guard_chain_def split: option.split)

text \<open>What operator code can do to the registry.\<close>

datatype registry_op =
    Register string "guard_fn option"
  | Discover "(string \<times> loaded) list option"

fun registry_step :: "guard_registry \<Rightarrow> registry_op \<Rightarrow> guard_registry" where
  "registry_step r (Register n f) = fst (register n f r)"
| "registry_step r (Discover eps) = fst (get_guards eps r)"

definition keeps_builtins :: "guard_registry \<Rightarrow> bool" where
  "keeps_builtins r \<longleftrightarrow> list_all (\<lambda>(n, f). map_of (entries r) n = Some f) builtins"

lemma keeps_builtins_iff:
  "keeps_builtins r \<longleftrightarrow> (\<forall>n f. (n, f) \<in> set builtins \<longrightarrow> map_of (entries r) n = Some f)"
  by (auto simp: keeps_builtins_def list_all_iff)

lemma register_keeps: "keeps_builtins r \<Longrightarrow> keeps_builtins (fst (register n f r))"
  unfolding keeps_builtins_iff
  by (fastforce simp: register_def split: option.splits)

lemma load_keeps: "keeps_builtins r \<Longrightarrow> keeps_builtins (fst (load_entry_points eps r))"
proof (induction eps arbitrary: r)
  case Nil
  then show ?case by simp
next
  case (Cons ep eps)
  obtain n l where ep: "ep = (n, l)" by force
  show ?case
  proof (cases l)
    case (Loaded f)
    obtain r' x where reg: "register n (Some f) r = (r', x)" by force
    with register_keeps [OF Cons.prems, of n "Some f"] have "keeps_builtins r'" by simp
    with Cons.IH Loaded reg ep show ?thesis by (cases x) auto
  qed (use Cons ep in auto)
qed

lemma set_loaded_keeps: "keeps_builtins (r\<lparr>loaded_entry_points := b\<rparr>) = keeps_builtins r"
  by (simp add: keeps_builtins_def)

lemma maybe_load_keeps: "keeps_builtins r \<Longrightarrow> keeps_builtins (fst (maybe_load_entry_points eps r))"
  by (auto simp: maybe_load_entry_points_def set_loaded_keeps load_keeps split: option.splits)

lemma get_guards_fst: "fst (get_guards eps r) = fst (maybe_load_entry_points eps r)"
  by (auto simp: get_guards_def split: prod.splits sum.splits)

interpretation registry: total_machine registry_step keeps_builtins
proof
  fix r op
  assume "keeps_builtins r"
  then show "keeps_builtins (registry_step r op)"
    by (cases op) (simp_all add: register_keeps get_guards_fst maybe_load_keeps)
qed

lemma map_filter_Nil_iff: "List.map_filter f xs = [] \<longleftrightarrow> (\<forall>x \<in> set xs. f x = None)"
  by (induction xs) (auto split: option.splits)

lemma unrestricted_pass:
  assumes "keeps_builtins r" and "run_registry_chain plug eps ctx None r = (r', Inr [])"
  shows "list_all (\<lambda>nf. run_one plug ctx nf = None) builtins"
proof -
  from assms(2) have r': "r' = fst (maybe_load_entry_points eps r)"
    and none: "\<forall>nf \<in> set (entries r'). run_one plug ctx nf = None"
    by (auto simp: run_registry_chain_def get_guards_def map_filter_Nil_iff split: prod.splits sum.splits)
  have "keeps_builtins r'" using maybe_load_keeps [OF assms(1)] r' by simp
  then show ?thesis using none map_of_SomeD
    unfolding keeps_builtins_def list_all_iff by fastforce
qed

text \<open>
  C12. Plug-ins cannot weaken the gate: after any sequence of registrations and discoveries, by any
  operator code and with any outcome, an unrestricted chain that reports no failure still means that
  every built-in condition holds.
\<close>

theorem plugins_cannot_weaken:
  assumes "run_registry_chain plug eps ctx None (run registry_step module_registry ops) = (r', Inr [])"
  shows "run_guard_chain (ctx_certificate ctx) (ctx_head_is_pretrained ctx) (ctx_elapsed_ms ctx)
           (ctx_audit_corrections ctx) (ctx_policy_period_ms ctx) = []"
proof -
  have "keeps_builtins module_registry"
    by (simp add: keeps_builtins_def module_registry_eq builtins_def)
  from unrestricted_pass [OF registry.run_keeps [OF this] assms] show ?thesis
    by (simp add: builtins_def run_one_def run_guard_chain_def)
qed

text \<open>
  Discovery fails open: when an installed plug-in's name is already taken by another guard, the
  first use of the chain raises \<open>ValueError\<close>, and every later use runs without the plug-ins that
  were still to be loaded and without any error, because the registry already counts as loaded.
\<close>

theorem discovery_conflict_drops_plugins:
  assumes "\<not> loaded_entry_points r" and "map_of (entries r) n = Some g" and "g \<noteq> f"
  shows "get_guards (Some ((n, Loaded f) # rest)) r =
           (r\<lparr>loaded_entry_points := True\<rparr>, Inl ValueError) \<and>
         get_guards (Some ((n, Loaded f) # rest)) (r\<lparr>loaded_entry_points := True\<rparr>) =
           (r\<lparr>loaded_entry_points := True\<rparr>, Inr (entries r))"
  using assms by (simp add: get_guards_def maybe_load_entry_points_def register_def)

section \<open>Witnesses\<close>

definition demo_certificate :: certificate where
  "demo_certificate = \<lparr>
     cert_decision_id = ''d1'', cert_issued_at = ''t0'', cert_loop_tier = ''near_rt'',
     cert_block = ''b'', cert_action_proposed = Map.empty, cert_action_safe = Map.empty,
     cert_invariants = [], cert_corrections = [], cert_violated_ids = [], cert_projected = False,
     cert_fallback_used = False, cert_fallback_to = VNone, cert_safe = True,
     cert_emit_blocked = False, cert_rng_seed = None, cert_model_provenance = None,
     cert_signature = None, cert_signing_key_fingerprint = None\<rparr>"

definition demo_context :: guard_context where
  "demo_context = \<lparr>ctx_certificate = Some demo_certificate, ctx_head_is_pretrained = True,
     ctx_elapsed_ms = Fin 5, ctx_policy_period_ms = Fin 100, ctx_audit_corrections = None,
     ctx_extras = Map.empty\<rparr>"

theorem plugins_cannot_weaken_witness:
  "run_guard_chain (Some demo_certificate) True (Fin 5) None (Fin 100) = []"
proof -
  let ?r = "run registry_step module_registry
      [Register ''head_pretrained'' (Some (Plugin 7)), Register ''extra'' (Some (Plugin 7))]"
  have "run_registry_chain (\<lambda>_ _. Inr None) (Some []) demo_context None ?r =
      (?r\<lparr>loaded_entry_points := True\<rparr>, Inr [])"
    by (simp add: module_registry_eq builtins_def register_def run_registry_chain_def get_guards_def
        maybe_load_entry_points_def run_one_def demo_context_def demo_certificate_def
        guard_shield_certificate_safe_def guard_predicted_outcome_pretrained_def
        guard_decision_within_a1_budget_def guard_corrections_recorded_def)
  from plugins_cannot_weaken [OF this] show ?thesis by (simp add: demo_context_def)
qed

theorem discovery_conflict_drops_plugins_witness:
  "get_guards (Some [(''head_pretrained'', Loaded (Plugin 1)), (''extra'', Loaded (Plugin 2))])
     module_registry = (module_registry\<lparr>loaded_entry_points := True\<rparr>, Inl ValueError)"
  by (rule discovery_conflict_drops_plugins [THEN conjunct1, of _ _ G_head_pretrained])
    (simp_all add: module_registry_eq builtins_def)

end
