(* ===== verification/LIConstraint.thy ===== *)
theory LIConstraint
  imports Certificate
begin

text \<open>
  The lawful-intercept constraint of \<open>policy/li_constraint.py\<close>: rules naming protected UEs and
  slices, the fail-closed feasibility check and the conservative projection that strips protected
  UEs but never rewrites a jurisdiction. Python sets of strings are \<open>string set\<close>s; the sorted list
  the projection writes back is \<open>sorted_list_of_set\<close> under Python's code-point order.
\<close>

record li_rule =
  rule_id :: string
  protected_ue_ids :: "string set"
  protected_slice_ids :: "string set"
  allowed_jurisdictions :: "string set"
  description :: string

record li_constraint =
  li_rules :: "li_rule list"
  fail_closed :: bool
  deployment_audit_record :: "string option"

definition CID_UE :: string where "CID_UE = ''li_protected_ue''"
definition CID_JX :: string where "CID_JX = ''li_jurisdiction''"
definition CID_FAIL_CLOSED :: string where "CID_FAIL_CLOSED = ''li_fail_closed''"

lemma CID_distinct [simp]:
  "CID_UE \<noteq> CID_JX" "CID_JX \<noteq> CID_UE" "CID_FAIL_CLOSED \<noteq> CID_JX" "CID_JX \<noteq> CID_FAIL_CLOSED"
  by (simp_all add: CID_UE_def CID_JX_def CID_FAIL_CLOSED_def)

text \<open>
  The constructor refuses an empty rule catalogue without fail-closed mode unless the operator's
  election is recorded.
\<close>

definition li_new :: "li_rule list \<Rightarrow> bool \<Rightarrow> string option \<Rightarrow> li_constraint res" where
  "li_new rules fc record =
     (if \<not> fc \<and> rules = [] \<and> (record = None \<or> record = Some [])
      then Inl ValueError
      else Inr \<lparr>li_rules = rules, fail_closed = fc, deployment_audit_record = record\<rparr>)"

definition hard_constraint_ids :: "string list" where
  "hard_constraint_ids = [CID_UE, CID_JX, CID_FAIL_CLOSED]"

text \<open>
  Coercion of an action field to a set of strings. A single string is one element; an int, a
  float or a bool is not iterable and gives the empty set; a dict iterates over its keys.
\<close>

fun as_str_set :: "platform \<Rightarrow> pyval \<Rightarrow> string set" where
  "as_str_set pl VNone = {}"
| "as_str_set pl (VSet xs) = py_str pl ` set xs"
| "as_str_set pl (VList xs) = py_str pl ` set xs"
| "as_str_set pl (VStr s) = {s}"
| "as_str_set pl (VDict d) = fst ` set d"
| "as_str_set pl _ = {}"

text \<open>
  \<open>target_jx not in allowed\<close> hashes the target: an unhashable value (list, set, dict) raises
  \<open>TypeError\<close>. Only a string can be a member.
\<close>

fun hashable :: "pyval \<Rightarrow> bool" where
  "hashable (VList _) = False"
| "hashable (VSet _) = False"
| "hashable (VDict _) = False"
| "hashable _ = True"

definition jx_allowed :: "pyval \<Rightarrow> string set \<Rightarrow> bool res" where
  "jx_allowed v allowed =
     (if \<not> hashable v then Inl TypeError
      else Inr (case v of VStr s \<Rightarrow> s \<in> allowed | _ \<Rightarrow> False))"

definition ue_violations :: "string set \<Rightarrow> li_rule \<Rightarrow> violation list" where
  "ue_violations ues r =
     (if ues \<inter> protected_ue_ids r \<noteq> {} then [hard_violation CID_UE None] else [])"

definition jx_violations :: "string set \<Rightarrow> pyval \<Rightarrow> li_rule \<Rightarrow> violation list res" where
  "jx_violations slices jx r =
     (if slices \<inter> protected_slice_ids r \<noteq> {}
      then bindE (jx_allowed jx (allowed_jurisdictions r))
             (\<lambda>ok. Inr (if ok then [] else [hard_violation CID_JX None]))
      else Inr [])"

primrec rule_violations ::
  "string set \<Rightarrow> string set \<Rightarrow> pyval \<Rightarrow> li_rule list \<Rightarrow> violation list res" where
  "rule_violations ues slices jx [] = Inr []"
| "rule_violations ues slices jx (r # rs) =
     bindE (jx_violations slices jx r)
       (\<lambda>js. bindE (rule_violations ues slices jx rs)
          (\<lambda>vs. Inr (ue_violations ues r @ js @ vs)))"

definition check_feasibility :: "platform \<Rightarrow> li_constraint \<Rightarrow> action \<Rightarrow> violation list res" where
  "check_feasibility pl li a =
     (if fail_closed li \<and> li_rules li = [] then Inr [hard_violation CID_FAIL_CLOSED None]
      else rule_violations (as_str_set pl (dget a ''affected_ue_ids'' VNone))
             (as_str_set pl (dget a ''affected_slice_ids'' VNone))
             (dget a ''target_jurisdiction'' VNone) (li_rules li))"

definition protected_union :: "li_rule list \<Rightarrow> string set" where
  "protected_union rs = (\<Union>r \<in> set rs. protected_ue_ids r)"

text \<open>Strip the protected UEs: the feasible action and the correction, if anything was removed.\<close>

definition strip_ues :: "platform \<Rightarrow> li_constraint \<Rightarrow> action \<Rightarrow> action \<times> violation list" where
  "strip_ues pl li a =
     (let ues = as_str_set pl (dget a ''affected_ue_ids'' VNone);
          removed = ues \<inter> protected_union (li_rules li)
      in if removed \<noteq> {}
         then (a(''affected_ue_ids'' \<mapsto> VList (map VStr (sorted_list_of_set (ues - removed)))),
               [hard_violation CID_UE None])
         else (a, []))"

definition li_project ::
  "platform \<Rightarrow> li_constraint \<Rightarrow> action \<Rightarrow> (action \<times> violation list) res" where
  "li_project pl li a =
     (if fail_closed li \<and> li_rules li = [] then Inr (a, [hard_violation CID_FAIL_CLOSED None])
      else (let (a', cs) = strip_ues pl li a
            in bindE (check_feasibility pl li a')
                 (\<lambda>vs. Inr (a', cs @ filter (\<lambda>v. constraint_id v = CID_JX) vs))))"

section \<open>Fail-closed default\<close>

lemma li_fail_closed_rejects:
  "fail_closed li \<Longrightarrow> li_rules li = [] \<Longrightarrow>
   check_feasibility pl li a = Inr [hard_violation CID_FAIL_CLOSED None]"
  by (simp add: check_feasibility_def)

lemma li_new_ungated_needs_record:
  "li_new [] False record = Inr li \<Longrightarrow> \<exists>s. deployment_audit_record li = Some s \<and> s \<noteq> []"
  by (auto simp: li_new_def split: if_splits)

section \<open>What a clean check guarantees\<close>

lemma rule_violations_Nil:
  "rule_violations ues slices jx rs = Inr [] \<longleftrightarrow>
   (\<forall>r \<in> set rs. ues \<inter> protected_ue_ids r = {} \<and>
      (slices \<inter> protected_slice_ids r \<noteq> {} \<longrightarrow>
         (\<exists>s. jx = VStr s \<and> s \<in> allowed_jurisdictions r)))"
proof (induction rs)
  case Nil
  then show ?case by simp
next
  case (Cons r rs)
  have "jx_violations slices jx r = Inr [] \<longleftrightarrow>
      (slices \<inter> protected_slice_ids r \<noteq> {} \<longrightarrow>
         (\<exists>s. jx = VStr s \<and> s \<in> allowed_jurisdictions r))"
    by (cases jx) (auto simp: jx_violations_def jx_allowed_def)
  then show ?case
    using Cons.IH by (auto simp: bindE_eq_Inr ue_violations_def split: if_splits)
qed

lemma as_str_set_sorted [simp]:
  "finite S \<Longrightarrow> as_str_set pl (VList (map VStr (sorted_list_of_set S))) = S"
  by (auto simp: image_iff)

lemma finite_as_str_set [simp]: "finite (as_str_set pl v)"
  by (cases v) auto

lemma strip_ues_clean:
  "strip_ues pl li a = (a', cs) \<Longrightarrow>
   as_str_set pl (dget a' ''affected_ue_ids'' VNone) =
   as_str_set pl (dget a ''affected_ue_ids'' VNone) - protected_union (li_rules li)"
  by (auto simp: strip_ues_def Let_def Diff_Int_distrib simp del: as_str_set.simps
      split: if_splits)

lemma strip_ues_frame:
  "strip_ues pl li a = (a', cs) \<Longrightarrow> k \<noteq> ''affected_ue_ids'' \<Longrightarrow> a' k = a k"
  by (auto simp: strip_ues_def Let_def split: if_splits)

lemma rule_violations_only_jx:
  assumes "rule_violations ues slices jx rs = Inr vs"
    and "\<forall>r \<in> set rs. ues \<inter> protected_ue_ids r = {}" and "v \<in> set vs"
  shows "constraint_id v = CID_JX"
  using assms
proof (induction rs arbitrary: vs)
  case Nil
  then show ?case by simp
next
  case (Cons r rs)
  then show ?case
    by (auto simp: bindE_eq_Inr ue_violations_def jx_violations_def hard_violation_def
        split: if_splits)
qed

text \<open>
  After the projection no protected UE is affected, and the projection reports every remaining
  violation: the action is feasible exactly when the projection surfaced no jurisdiction
  violation.
\<close>

lemma li_project_strips:
  assumes "li_rules li \<noteq> []" and "li_project pl li a = Inr (a', cs)"
  shows "as_str_set pl (dget a' ''affected_ue_ids'' VNone) =
         as_str_set pl (dget a ''affected_ue_ids'' VNone) - protected_union (li_rules li)"
proof -
  obtain b ds where s: "strip_ues pl li a = (b, ds)" by (cases "strip_ues pl li a")
  with assms have "a' = b"
    by (auto simp: li_project_def bindE_eq_Inr)
  with strip_ues_clean [OF s] show ?thesis by simp
qed

lemma li_project_frame:
  assumes "li_project pl li a = Inr (a', cs)" and "k \<noteq> ''affected_ue_ids''"
  shows "a' k = a k"
  using assms strip_ues_frame
  by (auto simp: li_project_def bindE_eq_Inr split: if_splits prod.splits)

lemma li_project_feasible_iff:
  assumes rules: "li_rules li \<noteq> []" and pr: "li_project pl li a = Inr (a', cs)"
  shows "check_feasibility pl li a' = Inr [] \<longleftrightarrow> (\<forall>v \<in> set cs. constraint_id v \<noteq> CID_JX)"
proof -
  obtain b ds where s: "strip_ues pl li a = (b, ds)" by (cases "strip_ues pl li a")
  with rules pr obtain vs where vs: "check_feasibility pl li b = Inr vs"
    and ab: "a' = b" and cs: "cs = ds @ filter (\<lambda>v. constraint_id v = CID_JX) vs"
    by (auto simp: li_project_def bindE_eq_Inr)
  have ds: "\<forall>v \<in> set ds. constraint_id v \<noteq> CID_JX"
    using s by (auto simp: strip_ues_def Let_def hard_violation_def split: if_splits)
  have clean: "\<forall>r \<in> set (li_rules li).
      as_str_set pl (dget b ''affected_ue_ids'' VNone) \<inter> protected_ue_ids r = {}"
    using strip_ues_clean [OF s] by (auto simp: protected_union_def)
  have "\<forall>v \<in> set vs. constraint_id v = CID_JX"
    using rule_violations_only_jx [OF _ clean] vs rules by (auto simp: check_feasibility_def)
  with vs ab cs ds show ?thesis by (cases vs) auto
qed

lemma rule_violations_exn:
  "rule_violations ues slices jx rs = Inl e \<Longrightarrow> e = TypeError"
  by (induction rs)
    (auto simp: bindE_eq_Inl jx_violations_def jx_allowed_def split: if_splits)

lemma check_feasibility_exn: "check_feasibility pl li a = Inl e \<Longrightarrow> e = TypeError"
  by (auto simp: check_feasibility_def split: if_splits dest: rule_violations_exn)

lemma li_project_exn: "li_project pl li a = Inl e \<Longrightarrow> e = TypeError"
  by (auto simp: li_project_def bindE_eq_Inl split: if_splits prod.splits
      dest: check_feasibility_exn)

end
