(* ===== verification/Invariants.thy ===== *)
theory Invariants
  imports LIConstraint
begin

text \<open>
  The invariants of \<open>shield/invariants.py\<close>. Each class is a record of its fields with an
  \<open>evaluate\<close> and a \<open>project\<close> function; \<open>shield_invariant\<close> is the Python protocol
  \<open>Invariant\<close>, the pair of functions the Shield calls. An action and a context are dictionaries
  with string keys.
\<close>

section \<open>The protocol\<close>

record shield_invariant =
  inv_id :: string
  evaluate :: "action \<Rightarrow> action \<Rightarrow> invariant_check res"
  project :: "action \<Rightarrow> action \<Rightarrow> (action \<times> violation list) res"

definition FALLBACK_KEY :: string where "FALLBACK_KEY = ''shield_fallback_to''"

text \<open>The exceptions the Shield turns into a refusal; any other propagates.\<close>

fun caught :: "py_exn \<Rightarrow> bool" where
  "caught TypeError = True"
| "caught ValueError = True"
| "caught OverflowError = True"
| "caught ZeroDivisionError = True"
| "caught _ = False"

definition contained :: "shield_invariant \<Rightarrow> bool" where
  "contained i \<longleftrightarrow>
     (\<forall>a ctx e. evaluate i a ctx = Inl e \<longrightarrow> caught e) \<and>
     (\<forall>a ctx e. project i a ctx = Inl e \<longrightarrow> caught e)"

section \<open>NumericSanityInvariant\<close>

definition number :: "platform \<Rightarrow> pyval \<Rightarrow> real option" where
  "number pl v = (case py_float pl v of Inr (Fin r) \<Rightarrow> Some r | _ \<Rightarrow> None)"

definition is_integer :: "real \<Rightarrow> bool" where
  "is_integer r \<longleftrightarrow> r = of_int \<lfloor>r\<rfloor>"

definition problem :: "bool \<Rightarrow> string \<Rightarrow> string list" where
  "problem bad msg = (if bad then [msg] else [])"

text \<open>A field that is present must satisfy the test; an absent optional field is fine.\<close>

definition opt_field_bad :: "platform \<Rightarrow> action \<Rightarrow> string \<Rightarrow> (real \<Rightarrow> bool) \<Rightarrow> bool" where
  "opt_field_bad pl a k ok =
     (case a k of None \<Rightarrow> False
      | Some v \<Rightarrow> (case number pl v of None \<Rightarrow> True | Some r \<Rightarrow> \<not> ok r))"

definition req_field_bad :: "platform \<Rightarrow> action \<Rightarrow> string \<Rightarrow> (real \<Rightarrow> bool) \<Rightarrow> bool" where
  "req_field_bad pl a k ok =
     (case number pl (dget a k VNone) of None \<Rightarrow> True | Some r \<Rightarrow> \<not> ok r)"

definition sanity_problems :: "platform \<Rightarrow> action \<Rightarrow> string list" where
  "sanity_problems pl a =
     problem (req_field_bad pl a ''frequency_hz'' (\<lambda>r. r > 0)) ''frequency_hz must be finite and > 0''
     @ problem (req_field_bad pl a ''bandwidth_hz'' (\<lambda>r. r > 0)) ''bandwidth_hz must be finite and > 0''
     @ problem (req_field_bad pl a ''tx_power_dBm'' (\<lambda>r. True)) ''tx_power_dBm must be finite''
     @ concat (map (\<lambda>f. problem (opt_field_bad pl a f (\<lambda>r. True)) (f @ '' must be finite''))
         [''antenna_gain_dBi'', ''sat_antenna_gain_dBi''])
     @ concat (map (\<lambda>f. problem (opt_field_bad pl a f (\<lambda>r. 0 \<le> r \<and> r \<le> 1))
           (f @ '' must be finite and in [0, 1]''))
         [''predicted_tbler'', ''baseline_tbler'', ''demap_confidence''])
     @ problem (opt_field_bad pl a ''papr_dB'' (\<lambda>r. r \<ge> 0)) ''papr_dB must be finite and >= 0''
     @ problem (opt_field_bad pl a ''constellation_order'' (\<lambda>r. r > 0 \<and> is_integer r))
         ''constellation_order must be a positive integer''
     @ problem (truthy (dget a ''ntn'' (VBool False)) \<and>
                req_field_bad pl a ''slant_range_m'' (\<lambda>r. r > 0))
         ''slant_range_m must be finite and > 0 for NTN''"

definition SANITY_ID :: string where "SANITY_ID = ''numeric_domain_sanity''"

definition sanity_evaluate :: "platform \<Rightarrow> action \<Rightarrow> action \<Rightarrow> invariant_check res" where
  "sanity_evaluate pl a ctx =
     Inr (mk_check SANITY_ID (sanity_problems pl a = []) None ''domain'')"

definition sanity_project ::
  "platform \<Rightarrow> action \<Rightarrow> action \<Rightarrow> (action \<times> violation list) res" where
  "sanity_project pl a ctx =
     (if sanity_problems pl a = [] then Inr (a, [])
      else Inr (a(''emit_blocked'' \<mapsto> VBool True), [hard_violation SANITY_ID None]))"

definition numeric_sanity :: "platform \<Rightarrow> shield_invariant" where
  "numeric_sanity pl =
     \<lparr>inv_id = SANITY_ID, evaluate = sanity_evaluate pl, project = sanity_project pl\<rparr>"

section \<open>SpectralMaskInvariant\<close>

record spectral_mask =
  band_lo_hz :: pyfloat
  band_hi_hz :: pyfloat
  guard_band_hz :: pyfloat

definition MASK_ID :: string where "MASK_ID = ''spectral_mask_ts38104''"

definition mask_edges :: "platform \<Rightarrow> action \<Rightarrow> (pyfloat \<times> pyfloat) res" where
  "mask_edges pl a =
     bindE (fget pl a ''frequency_hz'' (Fin 0)) (\<lambda>f.
     bindE (fget pl a ''bandwidth_hz'' (Fin 0)) (\<lambda>bw.
     Inr (fsub pl f (fhalf pl bw), fadd pl f (fhalf pl bw))))"

definition usable_lo :: "platform \<Rightarrow> spectral_mask \<Rightarrow> pyfloat" where
  "usable_lo pl m = fadd pl (band_lo_hz m) (guard_band_hz m)"

definition usable_hi :: "platform \<Rightarrow> spectral_mask \<Rightarrow> pyfloat" where
  "usable_hi pl m = fsub pl (band_hi_hz m) (guard_band_hz m)"

definition mask_evaluate ::
  "platform \<Rightarrow> spectral_mask \<Rightarrow> action \<Rightarrow> action \<Rightarrow> invariant_check res" where
  "mask_evaluate pl m a ctx =
     bindE (mask_edges pl a) (\<lambda>(lo, hi).
       let mg = fmin (fsub pl lo (usable_lo pl m)) (fsub pl (usable_hi pl m) hi)
       in Inr (mk_check MASK_ID (Fin 0 \<le> mg) (Some mg) ''Hz''))"

definition mask_project ::
  "platform \<Rightarrow> spectral_mask \<Rightarrow> action \<Rightarrow> action \<Rightarrow> (action \<times> violation list) res" where
  "mask_project pl m a ctx =
     bindE (fget pl a ''bandwidth_hz'' (Fin 0)) (\<lambda>bw.
       let lo = usable_lo pl m; hi = usable_hi pl m; w = fsub pl hi lo
       in if w < bw
          then Inr (a(''emit_blocked'' \<mapsto> VBool True), [hard_violation MASK_ID None])
          else (let lo_allowed = fadd pl lo (fhalf pl bw); hi_allowed = fsub pl hi (fhalf pl bw)
                in bindE (fget pl a ''frequency_hz'' (Fin 0)) (\<lambda>f.
                   let clipped = fmin (fmax f lo_allowed) hi_allowed
                   in if \<not> feq clipped f
                      then Inr (a(''frequency_hz'' \<mapsto> VFloat clipped), [hard_violation MASK_ID None])
                      else Inr (a, []))))"

definition spectral_mask_invariant :: "platform \<Rightarrow> spectral_mask \<Rightarrow> shield_invariant" where
  "spectral_mask_invariant pl m =
     \<lparr>inv_id = MASK_ID, evaluate = mask_evaluate pl m, project = mask_project pl m\<rparr>"

section \<open>MaxEirpInvariant\<close>

definition EIRP_ID :: string where "EIRP_ID = ''max_eirp''"

definition eirp :: "platform \<Rightarrow> action \<Rightarrow> pyfloat res" where
  "eirp pl a =
     bindE (fget pl a ''tx_power_dBm'' (Fin 0)) (\<lambda>p.
     bindE (fget pl a ''antenna_gain_dBi'' (Fin 0)) (\<lambda>g. Inr (fadd pl p g)))"

definition eirp_evaluate ::
  "platform \<Rightarrow> pyfloat \<Rightarrow> action \<Rightarrow> action \<Rightarrow> invariant_check res" where
  "eirp_evaluate pl max_eirp_dBm a ctx =
     bindE (eirp pl a) (\<lambda>e.
       let mg = fsub pl max_eirp_dBm e
       in Inr (mk_check EIRP_ID (Fin 0 \<le> mg) (Some mg) ''dB''))"

text \<open>Cut the transmit power by the overage (shared shape of the EIRP and PFD projections).\<close>

definition cut_power ::
  "platform \<Rightarrow> string \<Rightarrow> pyfloat \<Rightarrow> action \<Rightarrow> (action \<times> violation list) res" where
  "cut_power pl cid overage a =
     (if Fin 0 < overage
      then bindE (fget pl a ''tx_power_dBm'' (Fin 0)) (\<lambda>p.
             Inr (a(''tx_power_dBm'' \<mapsto> VFloat (fsub pl p overage)),
                  [hard_violation cid (Some (fneg overage))]))
      else Inr (a, []))"

definition eirp_project ::
  "platform \<Rightarrow> pyfloat \<Rightarrow> action \<Rightarrow> action \<Rightarrow> (action \<times> violation list) res" where
  "eirp_project pl max_eirp_dBm a ctx =
     bindE (eirp pl a) (\<lambda>e. cut_power pl EIRP_ID (fsub pl e max_eirp_dBm) a)"

definition max_eirp_invariant :: "platform \<Rightarrow> pyfloat \<Rightarrow> shield_invariant" where
  "max_eirp_invariant pl mx =
     \<lparr>inv_id = EIRP_ID, evaluate = eirp_evaluate pl mx, project = eirp_project pl mx\<rparr>"

section \<open>ProtectedSliceFloorInvariant\<close>

record slice_floor =
  slice_id :: string
  floor_frac :: pyfloat

definition SLICE_ID :: string where "SLICE_ID = ''protected_slice_floor''"

text \<open>
  \<open>_share\<close>: a payload that is not a dictionary, or a share that is not a number, counts as 0.
\<close>

definition slice_share :: "platform \<Rightarrow> slice_floor \<Rightarrow> action \<Rightarrow> pyfloat res" where
  "slice_share pl sf a =
     (let alloc = dget a ''prb_allocation'' VNone
      in if \<not> truthy alloc then Inr (Fin 0)
         else (case alloc of
            VDict d \<Rightarrow>
              (case py_float pl (case map_of d (slice_id sf) of None \<Rightarrow> VFloat (Fin 0) | Some v \<Rightarrow> v) of
                 Inr x \<Rightarrow> Inr x
               | Inl TypeError \<Rightarrow> Inr (Fin 0)
               | Inl e \<Rightarrow> Inl e)
          | _ \<Rightarrow> Inr (Fin 0)))"

definition slice_evaluate ::
  "platform \<Rightarrow> slice_floor \<Rightarrow> action \<Rightarrow> action \<Rightarrow> invariant_check res" where
  "slice_evaluate pl sf a ctx =
     (if \<not> truthy (dget a ''prb_allocation'' VNone)
      then Inr (mk_check SLICE_ID True (Some PInf) ''fraction'')
      else bindE (slice_share pl sf a) (\<lambda>s.
        let mg = fsub pl s (floor_frac sf)
        in Inr (mk_check SLICE_ID (Fin 0 \<le> mg) (Some mg) ''fraction'')))"

text \<open>\<open>{str(k): float(v) for k, v in alloc.items()}\<close>; a non-dictionary has no \<open>items\<close>.\<close>

definition alloc_floats :: "platform \<Rightarrow> pyval \<Rightarrow> (string \<times> pyfloat) list res" where
  "alloc_floats pl v =
     (case v of
        VDict d \<Rightarrow> mapE (\<lambda>(k, x). bindE (py_float pl x) (\<lambda>f. Inr (k, f))) d
      | _ \<Rightarrow> Inl AttributeError)"

definition float_dict :: "(string \<times> pyfloat) list \<Rightarrow> pyval" where
  "float_dict d = VDict (map (\<lambda>(k, x). (k, VFloat x)) d)"

definition slice_project ::
  "platform \<Rightarrow> slice_floor \<Rightarrow> action \<Rightarrow> action \<Rightarrow> (action \<times> violation list) res" where
  "slice_project pl sf a ctx =
     (if \<not> truthy (dget a ''prb_allocation'' VNone) then Inr (a, [])
      else bindE (alloc_floats pl (dget a ''prb_allocation'' VNone)) (\<lambda>alloc.
        let share = (case map_of alloc (slice_id sf) of None \<Rightarrow> Fin 0 | Some x \<Rightarrow> x);
            deficit = fsub pl (floor_frac sf) share
        in if deficit \<le> Fin 0 then Inr (a, [])
           else (let others = filter (\<lambda>(k, x). k \<noteq> slice_id sf) alloc;
                     pool = sum_floats pl (map snd others)
                 in if pool < deficit
                    then Inr (a(''prb_allocation'' \<mapsto>
                               float_dict (map (\<lambda>(k, x). (k, Fin 0)) others @
                                           [(slice_id sf, fadd pl share pool)])),
                              [hard_violation SLICE_ID (Some (fneg (fsub pl deficit pool)))])
                    else bindE (if Fin 0 < pool then fdiv pl (fsub pl pool deficit) pool
                                else Inr (Fin 0)) (\<lambda>scale.
                         Inr (a(''prb_allocation'' \<mapsto>
                                float_dict (map (\<lambda>(k, x). (k, fmul pl x scale)) others @
                                            [(slice_id sf, floor_frac sf)])),
                              [hard_violation SLICE_ID (Some (fneg deficit))])))))"

definition slice_floor_invariant :: "platform \<Rightarrow> slice_floor \<Rightarrow> shield_invariant" where
  "slice_floor_invariant pl sf =
     \<lparr>inv_id = SLICE_ID, evaluate = slice_evaluate pl sf, project = slice_project pl sf\<rparr>"

section \<open>PfdCeilingInvariant\<close>

definition PFD_ID :: string where "PFD_ID = ''pfd_ceiling_ntn''"

definition pfd_applies :: "action \<Rightarrow> bool" where
  "pfd_applies a = truthy (dget a ''ntn'' (VBool False))"

definition compute_pfd :: "platform \<Rightarrow> action \<Rightarrow> pyfloat res" where
  "compute_pfd pl a =
     bindE (fget pl a ''tx_power_dBm'' (Fin 0)) (\<lambda>p.
     bindE (fget pl a ''sat_antenna_gain_dBi'' (Fin 0)) (\<lambda>g.
     let eirp_dBW = fsub pl (fadd pl p g) (Fin 30) in
     bindE (fget pl a ''slant_range_m'' (Fin 550000)) (\<lambda>s.
     let d = fmax s (Fin 1) in
     bindE (flog10 pl (fmul pl (fmul pl (fmul pl (Fin 4) (rnd pl pi)) d) d)) (\<lambda>l1.
     let spread_dB = fmul pl (Fin 10) l1 in
     bindE (fget pl a ''bandwidth_hz'' (Fin 1000000)) (\<lambda>b.
     bindE (fdiv pl b (Fin 1000000)) (\<lambda>q.
     let bw_mhz = fmax q (rnd pl (1 / 1000000)) in
     bindE (flog10 pl bw_mhz) (\<lambda>l2.
     let bw_dB = fmul pl (Fin 10) l2 in
     Inr (fsub pl (fsub pl eirp_dBW spread_dB) bw_dB))))))))"

definition pfd_evaluate ::
  "platform \<Rightarrow> pyfloat \<Rightarrow> action \<Rightarrow> action \<Rightarrow> invariant_check res" where
  "pfd_evaluate pl max_pfd a ctx =
     (if \<not> pfd_applies a then Inr (mk_check PFD_ID True None ''n/a'')
      else bindE (compute_pfd pl a) (\<lambda>p.
        let mg = fsub pl max_pfd p
        in Inr (mk_check PFD_ID (Fin 0 \<le> mg) (Some mg) ''dB'')))"

definition pfd_project ::
  "platform \<Rightarrow> pyfloat \<Rightarrow> action \<Rightarrow> action \<Rightarrow> (action \<times> violation list) res" where
  "pfd_project pl max_pfd a ctx =
     (if \<not> pfd_applies a then Inr (a, [])
      else bindE (compute_pfd pl a) (\<lambda>p. cut_power pl PFD_ID (fsub pl p max_pfd) a))"

definition pfd_ceiling_invariant :: "platform \<Rightarrow> pyfloat \<Rightarrow> shield_invariant" where
  "pfd_ceiling_invariant pl mx =
     \<lparr>inv_id = PFD_ID, evaluate = pfd_evaluate pl mx, project = pfd_project pl mx\<rparr>"

section \<open>NeuralRxEnvelopeInvariant\<close>

record neural_rx =
  tolerance_dB :: pyfloat
  min_confidence :: pyfloat
  require_measurement :: bool
  nrx_fallback_block :: string

definition NRX_ID :: string where "NRX_ID = ''neural_rx_envelope''"

definition is_neural_rx :: "platform \<Rightarrow> action \<Rightarrow> bool" where
  "is_neural_rx pl a = starts_with ''neural_rx'' (py_str pl (dget a ''block'' (VStr [])))"

definition nrx_graded ::
  "platform \<Rightarrow> neural_rx \<Rightarrow> action \<Rightarrow> pyfloat \<Rightarrow> pyfloat \<Rightarrow> invariant_check res" where
  "nrx_graded pl nr a base measured_val =
     (let eps = rnd pl (1 / 1000000000) in
      bindE (fdiv pl (fadd pl base eps) (fadd pl measured_val eps)) (\<lambda>q.
      bindE (flog10 pl q) (\<lambda>l.
      let margin_dB = fadd pl (fmul pl (Fin 10) l) (tolerance_dB nr) in
      bindE (fget pl a ''demap_confidence'' (Fin 1)) (\<lambda>conf.
      Inr (mk_check NRX_ID (Fin 0 \<le> margin_dB \<and> min_confidence nr \<le> conf)
             (Some margin_dB) ''dB'')))))"

definition nrx_evaluate ::
  "platform \<Rightarrow> neural_rx \<Rightarrow> action \<Rightarrow> action \<Rightarrow> invariant_check res" where
  "nrx_evaluate pl nr a ctx =
     (if \<not> is_neural_rx pl a then Inr (mk_check NRX_ID True None ''n/a'')
      else bindE (fget pl a ''baseline_tbler'' (Fin 0)) (\<lambda>base.
           bindE (fget pl a ''predicted_tbler'' (Fin 0)) (\<lambda>self_reported.
           let measured = dget ctx ''measured_tbler'' VNone
           in if measured = VNone
              then (if require_measurement nr
                    then Inr (mk_check NRX_ID False None ''dB'')
                    else nrx_graded pl nr a base self_reported)
              else bindE (py_float pl measured) (nrx_graded pl nr a base))))"

definition nrx_project ::
  "platform \<Rightarrow> neural_rx \<Rightarrow> action \<Rightarrow> action \<Rightarrow> (action \<times> violation list) res" where
  "nrx_project pl nr a ctx =
     bindE (nrx_evaluate pl nr a ctx) (\<lambda>chk.
       if satisfied chk then Inr (a, [])
       else bindE (py_float pl (dget a ''baseline_tbler'' (dget a ''predicted_tbler'' (VFloat (Fin 0)))))
              (\<lambda>t. Inr (a(''block'' \<mapsto> VStr (nrx_fallback_block nr),
                        FALLBACK_KEY \<mapsto> VStr (nrx_fallback_block nr),
                        ''predicted_tbler'' \<mapsto> VFloat t),
                      [hard_violation NRX_ID (margin chk)])))"

definition neural_rx_invariant :: "platform \<Rightarrow> neural_rx \<Rightarrow> shield_invariant" where
  "neural_rx_invariant pl nr =
     \<lparr>inv_id = NRX_ID, evaluate = nrx_evaluate pl nr, project = nrx_project pl nr\<rparr>"

section \<open>ConstellationLegalityInvariant\<close>

record constellation =
  max_papr_dB :: pyfloat
  allowed_orders :: "int list"
  con_fallback_block :: string

definition LEGAL_QAM_ORDERS :: "int list" where "LEGAL_QAM_ORDERS = [4, 16, 64, 256]"

definition CON_ID :: string where "CON_ID = ''constellation_legality''"

definition con_applies :: "platform \<Rightarrow> action \<Rightarrow> bool" where
  "con_applies pl a \<longleftrightarrow>
     a ''constellation_order'' \<noteq> None \<or>
     str_contains ''learned_constellation'' (py_str pl (dget a ''block'' (VStr [])))"

definition con_evaluate ::
  "platform \<Rightarrow> constellation \<Rightarrow> action \<Rightarrow> action \<Rightarrow> invariant_check res" where
  "con_evaluate pl c a ctx =
     (if \<not> con_applies pl a then Inr (mk_check CON_ID True None ''n/a'')
      else bindE (py_int pl (dget a ''constellation_order'' (VInt 0))) (\<lambda>ord.
           bindE (fget pl a ''papr_dB'' (Fin 0)) (\<lambda>papr.
           let mg = fsub pl (max_papr_dB c) papr
           in Inr (mk_check CON_ID (ord \<in> set (allowed_orders c) \<and> Fin 0 \<le> mg) (Some mg) ''dB''))))"

text \<open>
  \<open>[o for o in allowed if o <= order] or [allowed[0]]\<close>, then its maximum; an empty tuple of
  allowed orders raises.
\<close>

definition snap_order :: "int list \<Rightarrow> int \<Rightarrow> int res" where
  "snap_order orders ord =
     (case filter (\<lambda>x. x \<le> ord) orders of
        [] \<Rightarrow> (case orders of [] \<Rightarrow> Inl IndexError | x # _ \<Rightarrow> Inr x)
      | x # xs \<Rightarrow> Inr (foldl max x xs))"

definition con_fallback :: "constellation \<Rightarrow> action \<Rightarrow> action" where
  "con_fallback c a = a(''block'' \<mapsto> VStr (con_fallback_block c),
                        FALLBACK_KEY \<mapsto> VStr (con_fallback_block c))"

definition con_fix_order ::
  "platform \<Rightarrow> constellation \<Rightarrow> action \<Rightarrow> (action \<times> violation list) res" where
  "con_fix_order pl c a =
     bindE (py_int pl (dget a ''constellation_order'' (VInt 0))) (\<lambda>ord.
       if ord \<in> set (allowed_orders c) then Inr (a, [])
       else bindE (snap_order (allowed_orders c) ord) (\<lambda>s.
            Inr (con_fallback c (a(''constellation_order'' \<mapsto> VInt s)),
                 [hard_violation CON_ID None])))"

definition con_fix_papr ::
  "platform \<Rightarrow> constellation \<Rightarrow> action \<Rightarrow> (action \<times> violation list) res" where
  "con_fix_papr pl c a =
     bindE (fget pl a ''papr_dB'' (Fin 0)) (\<lambda>papr.
       if max_papr_dB c < papr
       then Inr (con_fallback c (a(''papr_dB'' \<mapsto> VFloat (max_papr_dB c))),
                 [hard_violation CON_ID (Some (fsub pl (max_papr_dB c) papr))])
       else Inr (a, []))"

definition con_project ::
  "platform \<Rightarrow> constellation \<Rightarrow> action \<Rightarrow> action \<Rightarrow> (action \<times> violation list) res" where
  "con_project pl c a ctx =
     (if \<not> con_applies pl a then Inr (a, [])
      else bindE (con_fix_order pl c a) (\<lambda>(a1, c1).
           bindE (con_fix_papr pl c a1) (\<lambda>(a2, c2). Inr (a2, c1 @ c2))))"

definition constellation_invariant :: "platform \<Rightarrow> constellation \<Rightarrow> shield_invariant" where
  "constellation_invariant pl c =
     \<lparr>inv_id = CON_ID, evaluate = con_evaluate pl c, project = con_project pl c\<rparr>"

section \<open>LawfulInterceptInvariant\<close>

definition LI_ID :: string where "LI_ID = ''lawful_intercept''"

definition li_evaluate ::
  "platform \<Rightarrow> li_constraint \<Rightarrow> action \<Rightarrow> action \<Rightarrow> invariant_check res" where
  "li_evaluate pl li a ctx =
     bindE (check_feasibility pl li a) (\<lambda>vs. Inr (mk_check LI_ID (vs = []) None ''bool''))"

definition lawful_intercept_invariant :: "platform \<Rightarrow> li_constraint \<Rightarrow> shield_invariant" where
  "lawful_intercept_invariant pl li =
     \<lparr>inv_id = LI_ID, evaluate = li_evaluate pl li, project = (\<lambda>a ctx. li_project pl li a)\<rparr>"

end
