(* ===== verification/Shield.thy ===== *)
theory Shield
  imports Invariants
begin

text \<open>
  The Decision Safety Shield of \<open>shield/shield.py\<close>: the feasibility check over an ordered chain of
  invariants, the short-circuiting \<open>is_feasible\<close>, and \<open>dispose\<close>, which checks, projects in at most
  \<open>max_passes\<close> passes, re-checks and certifies. The clock is the argument \<open>now\<close>. The chain is any
  list of invariants; exceptions the code does not catch propagate as \<open>Inl\<close>.
\<close>

record shield =
  invariants :: "shield_invariant list"
  max_passes :: int

definition mk_shield :: "shield_invariant list \<Rightarrow> shield" where
  "mk_shield is = \<lparr>invariants = is, max_passes = 8\<rparr>"

section \<open>Feasibility\<close>

definition check_one :: "action \<Rightarrow> action \<Rightarrow> shield_invariant \<Rightarrow> invariant_check res" where
  "check_one a ctx i =
     (case evaluate i a ctx of
        Inr c \<Rightarrow> Inr c
      | Inl e \<Rightarrow> (if caught e then Inr (mk_check (inv_id i) False None ''error'') else Inl e))"

definition shield_check :: "shield \<Rightarrow> action \<Rightarrow> action \<Rightarrow> invariant_check list res" where
  "shield_check sh a ctx = mapE (check_one a ctx) (invariants sh)"

definition shield_violations :: "shield \<Rightarrow> action \<Rightarrow> action \<Rightarrow> invariant_check list res" where
  "shield_violations sh a ctx =
     bindE (shield_check sh a ctx) (\<lambda>cs. Inr (filter (\<lambda>c. \<not> satisfied c) cs))"

primrec feasible_chain :: "action \<Rightarrow> action \<Rightarrow> shield_invariant list \<Rightarrow> bool res" where
  "feasible_chain a ctx [] = Inr True"
| "feasible_chain a ctx (i # is) =
     (case evaluate i a ctx of
        Inr c \<Rightarrow> (if satisfied c then feasible_chain a ctx is else Inr False)
      | Inl e \<Rightarrow> (if caught e then Inr False else Inl e))"

definition is_feasible :: "shield \<Rightarrow> action \<Rightarrow> action \<Rightarrow> bool res" where
  "is_feasible sh a ctx = feasible_chain a ctx (invariants sh)"

section \<open>Disposition\<close>

definition blocked :: "action \<Rightarrow> bool" where
  "blocked a = truthy (dget a ''emit_blocked'' VNone)"

text \<open>One pass over the chain: project in order, stop at the first block.\<close>

primrec project_pass ::
  "shield_invariant list \<Rightarrow> action \<Rightarrow> action \<Rightarrow> violation list \<Rightarrow> (action \<times> violation list) res" where
  "project_pass [] ctx a cs = Inr (a, cs)"
| "project_pass (i # is) ctx a cs =
     (case project i a ctx of
        Inr (a', corr) \<Rightarrow>
          (if blocked a' then Inr (a', cs @ corr) else project_pass is ctx a' (cs @ corr))
      | Inl e \<Rightarrow>
          (if caught e
           then Inr (a(''emit_blocked'' \<mapsto> VBool True), cs @ [hard_violation (inv_id i) None])
           else Inl e))"

text \<open>The projection loop; the fuel is \<open>max_passes\<close>, the bound the code itself gives.\<close>

primrec dispose_loop ::
  "shield \<Rightarrow> action \<Rightarrow> nat \<Rightarrow> action \<Rightarrow> violation list \<Rightarrow> bool \<Rightarrow>
   (action \<times> violation list \<times> bool) res" where
  "dispose_loop sh ctx 0 a cs pr = Inr (a, cs, pr)"
| "dispose_loop sh ctx (Suc n) a cs pr =
     bindE (shield_check sh a ctx) (\<lambda>checks.
       if list_all satisfied checks then Inr (a, cs, pr)
       else bindE (project_pass (invariants sh) ctx a cs) (\<lambda>(a', cs').
              if blocked a' then Inr (a', cs', True)
              else dispose_loop sh ctx n a' cs' True))"

definition certify ::
  "string \<Rightarrow> string \<Rightarrow> string \<Rightarrow> int option \<Rightarrow> action option \<Rightarrow> string \<Rightarrow> action \<Rightarrow> action \<Rightarrow>
   invariant_check list \<Rightarrow> violation list \<Rightarrow> bool \<Rightarrow> platform \<Rightarrow> disposition" where
  "certify decision_id now loop_tier seed prov block proposed a checks corrections projected pl =
     (let violated = map invariant_id (filter (\<lambda>c. \<not> satisfied c) checks);
          emit_blocked = (blocked a \<or> violated \<noteq> []);
          safe = (if emit_blocked \<and> \<not> blocked a then a(''emit_blocked'' \<mapsto> VBool True) else a);
          fallback_to = dget safe FALLBACK_KEY VNone;
          to_classical = (dget safe ''block'' VNone \<noteq> VStr block \<and>
                          starts_with ''classical'' (py_str pl (dget safe ''block'' (VStr []))))
      in \<lparr>safe_action = safe,
          disp_certificate = \<lparr>
            cert_decision_id = decision_id, cert_issued_at = now, cert_loop_tier = loop_tier,
            cert_block = block, cert_action_proposed = proposed, cert_action_safe = safe,
            cert_invariants = checks, cert_corrections = corrections,
            cert_violated_ids = violated, cert_projected = projected,
            cert_fallback_used = (fallback_to \<noteq> VNone \<or> to_classical),
            cert_fallback_to = fallback_to, cert_safe = (\<not> emit_blocked),
            cert_emit_blocked = emit_blocked, cert_rng_seed = seed,
            cert_model_provenance = prov, cert_signature = None,
            cert_signing_key_fingerprint = None\<rparr>\<rparr>)"

definition dispose ::
  "platform \<Rightarrow> shield \<Rightarrow> string \<Rightarrow> string \<Rightarrow> string \<Rightarrow> int option \<Rightarrow> action option \<Rightarrow>
   action \<Rightarrow> action \<Rightarrow> disposition res" where
  "dispose pl sh decision_id now loop_tier seed prov a ctx =
     bindE (dispose_loop sh ctx (nat (max_passes sh)) a [] False) (\<lambda>(safe, corrections, projected).
     bindE (shield_check sh safe ctx) (\<lambda>final_checks.
       Inr (certify decision_id now loop_tier seed prov
              (py_str pl (dget a ''block'' (VStr ''unknown''))) a safe final_checks corrections
              projected pl)))"

section \<open>The standard chains\<close>

definition default_neural_rx :: "pyfloat \<Rightarrow> neural_rx" where
  "default_neural_rx tol =
     \<lparr>tolerance_dB = tol, min_confidence = Fin (1 / 5), require_measurement = True,
      nrx_fallback_block = ''classical_lmmse''\<rparr>"

definition default_constellation :: "pyfloat \<Rightarrow> constellation" where
  "default_constellation papr =
     \<lparr>max_papr_dB = papr, allowed_orders = LEGAL_QAM_ORDERS, con_fallback_block = ''classical_qam''\<rparr>"

definition li_prefix :: "platform \<Rightarrow> li_constraint option \<Rightarrow> shield_invariant list" where
  "li_prefix pl li = (case li of None \<Rightarrow> [] | Some c \<Rightarrow> [lawful_intercept_invariant pl c])"

definition terrestrial_chain ::
  "platform \<Rightarrow> spectral_mask \<Rightarrow> pyfloat \<Rightarrow> li_constraint option \<Rightarrow> pyfloat \<Rightarrow> pyfloat \<Rightarrow>
   shield_invariant list" where
  "terrestrial_chain pl msk max_eirp li papr tol =
     [numeric_sanity pl] @ li_prefix pl li @
     [spectral_mask_invariant pl msk, max_eirp_invariant pl max_eirp,
      neural_rx_invariant pl (default_neural_rx tol),
      constellation_invariant pl (default_constellation papr)]"

definition default_terrestrial_shield ::
  "platform \<Rightarrow> pyfloat \<Rightarrow> pyfloat \<Rightarrow> pyfloat \<Rightarrow> li_constraint option \<Rightarrow> pyfloat \<Rightarrow> pyfloat \<Rightarrow>
   pyfloat \<Rightarrow> shield" where
  "default_terrestrial_shield pl lo hi max_eirp li papr tol guard =
     mk_shield (terrestrial_chain pl
       \<lparr>band_lo_hz = lo, band_hi_hz = hi, guard_band_hz = guard\<rparr> max_eirp li papr tol)"

definition ntn_chain ::
  "platform \<Rightarrow> spectral_mask \<Rightarrow> pyfloat \<Rightarrow> pyfloat \<Rightarrow> li_constraint option \<Rightarrow> pyfloat \<Rightarrow>
   shield_invariant list" where
  "ntn_chain pl msk max_eirp max_pfd li tol =
     [numeric_sanity pl] @ li_prefix pl li @
     [spectral_mask_invariant pl msk, max_eirp_invariant pl max_eirp,
      pfd_ceiling_invariant pl max_pfd, neural_rx_invariant pl (default_neural_rx tol)]"

definition default_ntn_shield ::
  "platform \<Rightarrow> pyfloat \<Rightarrow> pyfloat \<Rightarrow> pyfloat \<Rightarrow> pyfloat \<Rightarrow> li_constraint option \<Rightarrow> pyfloat \<Rightarrow> shield" where
  "default_ntn_shield pl lo hi max_eirp max_pfd li tol =
     mk_shield (ntn_chain pl
       \<lparr>band_lo_hz = lo, band_hi_hz = hi, guard_band_hz = Fin 0\<rparr> max_eirp max_pfd li tol)"

lemma mk_shield_sel [simp]: "invariants (mk_shield is) = is" "max_passes (mk_shield is) = 8"
  by (simp_all add: mk_shield_def)

section \<open>Checks\<close>

lemma check_one_satisfied:
  "check_one a ctx i = Inr c \<Longrightarrow> satisfied c \<Longrightarrow> evaluate i a ctx = Inr c"
  by (auto simp: check_one_def split: sum.splits if_splits)

text \<open>A clean check means every invariant really evaluated, and evaluated to satisfied.\<close>

lemma clean_check_iff:
  "(\<exists>cs. mapE (check_one a ctx) is = Inr cs \<and> list_all satisfied cs) \<longleftrightarrow>
   (\<forall>i \<in> set is. \<exists>c. evaluate i a ctx = Inr c \<and> satisfied c)"
proof (induction "is")
  case Nil
  then show ?case by simp
next
  case (Cons i "is")
  have "(\<exists>c. check_one a ctx i = Inr c \<and> satisfied c) \<longleftrightarrow>
        (\<exists>c. evaluate i a ctx = Inr c \<and> satisfied c)"
    by (auto simp: check_one_def split: sum.splits if_splits)
  with Cons.IH show ?case by (fastforce simp: bindE_eq_Inr)
qed

lemma feasible_chain_True:
  "feasible_chain a ctx is = Inr True \<longleftrightarrow>
   (\<forall>i \<in> set is. \<exists>c. evaluate i a ctx = Inr c \<and> satisfied c)"
  by (induction "is") (auto split: sum.splits if_splits)

lemma is_feasible_iff_clean:
  "is_feasible sh a ctx = Inr True \<longleftrightarrow>
   (\<exists>cs. shield_check sh a ctx = Inr cs \<and> list_all satisfied cs)"
  by (simp add: is_feasible_def feasible_chain_True shield_check_def clean_check_iff)

section \<open>Chains whose exceptions the Shield contains\<close>

text \<open>
  The interface the Shield relies on: every invariant of the chain raises only exceptions the
  Shield turns into a refusal. Under it the Shield is total.
\<close>

locale contained_chain =
  fixes chain :: "shield_invariant list"
  assumes contained_all: "i \<in> set chain \<Longrightarrow> contained i"
begin

lemma check_one_total: "i \<in> set chain \<Longrightarrow> \<exists>c. check_one a ctx i = Inr c"
  using contained_all by (auto simp: check_one_def contained_def split: sum.splits)

lemma check_total: "\<exists>cs. mapE (check_one a ctx) chain = Inr cs"
  by (metis check_one_total mapE_Inl Inl_Inr_False old.sum.exhaust)

lemma feasible_total: "\<exists>b. feasible_chain a ctx chain = Inr b"
proof -
  have "\<exists>b. feasible_chain a ctx is = Inr b" if "set is \<subseteq> set chain" for "is"
    using that contained_all
    by (induction "is") (auto simp: contained_def split: sum.splits)
  then show ?thesis by blast
qed

lemma pass_total: "set is \<subseteq> set chain \<Longrightarrow> \<exists>r. project_pass is ctx a cs = Inr r"
  using contained_all
  by (induction "is" arbitrary: a cs) (auto simp: contained_def split: sum.splits prod.splits)

lemma loop_total:
  assumes "invariants sh = chain"
  shows "\<exists>r. dispose_loop sh ctx n a cs pr = Inr r"
proof (induction n arbitrary: a cs pr)
  case 0
  then show ?case by simp
next
  case (Suc n)
  obtain checks where ch: "shield_check sh a ctx = Inr checks"
    using check_total assms by (auto simp: shield_check_def)
  obtain a' cs' where pass: "project_pass (invariants sh) ctx a cs = Inr (a', cs')"
    using pass_total [of chain] assms by fastforce
  show ?case
    using Suc.IH by (cases "list_all satisfied checks"; cases "blocked a'") (auto simp: ch pass)
qed

lemma dispose_total:
  assumes "invariants sh = chain"
  shows "\<exists>d. dispose pl sh did now tier seed prov a ctx = Inr d"
proof -
  obtain safe cs pr where "dispose_loop sh ctx (nat (max_passes sh)) a [] False = Inr (safe, cs, pr)"
    using loop_total [OF assms] by (metis prod_cases3)
  moreover obtain ch where "shield_check sh safe ctx = Inr ch"
    using check_total assms by (auto simp: shield_check_def)
  ultimately show ?thesis by (simp add: dispose_def)
qed

end

section \<open>The standard invariants are contained\<close>

lemmas exn_dests = fget_exn py_float_exn py_int_exn fdiv_exn flog10_exn

lemma caught_intros:
  "e \<in> {TypeError, ValueError, OverflowError} \<Longrightarrow> caught e"
  "e = ZeroDivisionError \<Longrightarrow> caught e" "e = ValueError \<Longrightarrow> caught e" "e = TypeError \<Longrightarrow> caught e"
  by auto

lemma contained_sanity: "contained (numeric_sanity pl)"
  by (auto simp: contained_def numeric_sanity_def sanity_evaluate_def sanity_project_def
      split: if_splits)

lemma contained_mask: "contained (spectral_mask_invariant pl m)"
  by (auto simp: contained_def spectral_mask_invariant_def mask_evaluate_def mask_project_def
      mask_edges_def bindE_eq_Inl Let_def split: if_splits dest!: fget_exn)

lemma eirp_exn: "eirp pl a = Inl e \<Longrightarrow> caught e"
  by (auto simp: eirp_def bindE_eq_Inl dest!: fget_exn)

lemma cut_power_exn: "cut_power pl cid ov a = Inl e \<Longrightarrow> caught e"
  by (auto simp: cut_power_def bindE_eq_Inl split: if_splits dest!: fget_exn)

lemma contained_eirp: "contained (max_eirp_invariant pl mx)"
  by (auto simp: contained_def max_eirp_invariant_def eirp_evaluate_def eirp_project_def
      bindE_eq_Inl Let_def intro: eirp_exn cut_power_exn)

lemma compute_pfd_exn: "compute_pfd pl a = Inl e \<Longrightarrow> caught e"
  by (auto simp: compute_pfd_def bindE_eq_Inl Let_def dest!: exn_dests)

lemma contained_pfd: "contained (pfd_ceiling_invariant pl mx)"
  by (auto simp: contained_def pfd_ceiling_invariant_def pfd_evaluate_def pfd_project_def
      bindE_eq_Inl Let_def split: if_splits intro: compute_pfd_exn cut_power_exn)

lemma nrx_graded_exn: "nrx_graded pl nr a b mv = Inl e \<Longrightarrow> caught e"
  by (auto simp: nrx_graded_def bindE_eq_Inl Let_def dest!: exn_dests)

lemma nrx_evaluate_exn: "nrx_evaluate pl nr a ctx = Inl e \<Longrightarrow> caught e"
  by (auto simp: nrx_evaluate_def bindE_eq_Inl Let_def split: if_splits dest!: exn_dests
      intro: nrx_graded_exn)

lemma contained_nrx: "contained (neural_rx_invariant pl nr)"
  by (auto simp: contained_def neural_rx_invariant_def nrx_project_def bindE_eq_Inl
      split: if_splits dest!: py_float_exn intro: nrx_evaluate_exn)

lemma snap_order_exn: "snap_order orders ord = Inl e \<Longrightarrow> orders = []"
  by (auto simp: snap_order_def split: list.splits)

lemma con_fix_order_exn:
  "con_fix_order pl c a = Inl e \<Longrightarrow> allowed_orders c \<noteq> [] \<Longrightarrow> caught e"
  by (auto simp: con_fix_order_def bindE_eq_Inl split: if_splits dest!: py_int_exn snap_order_exn)

lemma con_fix_papr_exn: "con_fix_papr pl c a = Inl e \<Longrightarrow> caught e"
  by (auto simp: con_fix_papr_def bindE_eq_Inl split: if_splits dest!: fget_exn)

lemma contained_con:
  "allowed_orders c \<noteq> [] \<Longrightarrow> contained (constellation_invariant pl c)"
  by (auto simp: contained_def constellation_invariant_def con_evaluate_def con_project_def
      bindE_eq_Inl Let_def split: if_splits dest!: py_int_exn fget_exn
      intro: con_fix_order_exn con_fix_papr_exn)

lemma contained_li: "contained (lawful_intercept_invariant pl li)"
  by (auto simp: contained_def lawful_intercept_invariant_def li_evaluate_def bindE_eq_Inl
      dest!: check_feasibility_exn li_project_exn)

lemmas contained_standard = contained_sanity contained_mask contained_eirp contained_pfd
  contained_nrx contained_li

interpretation terrestrial: contained_chain "terrestrial_chain pl msk max_eirp li papr tol"
  for pl msk max_eirp li papr tol
  by unfold_locales
    (auto simp: terrestrial_chain_def li_prefix_def default_constellation_def
      LEGAL_QAM_ORDERS_def contained_standard contained_con split: option.splits)

interpretation ntn: contained_chain "ntn_chain pl msk max_eirp max_pfd li tol"
  for pl msk max_eirp max_pfd li tol
  by unfold_locales
    (auto simp: ntn_chain_def li_prefix_def contained_standard split: option.splits)

end
