(* ===== verification/EvidenceChain.thy ===== *)
theory EvidenceChain
  imports EvidenceSchema
begin

text \<open>
  The per-tenant hash chain of \<open>evidence/store.py\<close>, over the rows an iteration yields. SHA-256 is
  the parameter \<open>sha\<close>, from bytes to a hex digest; the pydantic/JSON codec is the record \<open>codec\<close>
  (\<open>canonical_json\<close>, the validated parse, and the raw read of the \<open>tenant_id\<close> key). Canonical JSON is
  ASCII, so its UTF-8 bytes are its character codes.
\<close>

section \<open>Bytes and hex\<close>

type_synonym sha = "nat list \<Rightarrow> string"

definition hex_digit :: "char \<Rightarrow> nat res" where
  "hex_digit c =
     (let n = of_char c :: nat in
      if 48 \<le> n \<and> n \<le> 57 then Inr (n - 48)
      else if 97 \<le> n \<and> n \<le> 102 then Inr (n - 87)
      else if 65 \<le> n \<and> n \<le> 70 then Inr (n - 55) else Inl ValueError)"

text \<open>\<open>bytes.fromhex\<close> on a string without white space.\<close>

fun from_hex :: "string \<Rightarrow> nat list res" where
  "from_hex [] = Inr []"
| "from_hex [c] = Inl ValueError"
| "from_hex (a # b # cs) =
     bindE (hex_digit a) (\<lambda>x. bindE (hex_digit b) (\<lambda>y.
     bindE (from_hex cs) (\<lambda>bs. Inr ((16 * x + y) # bs))))"

definition lower_hex :: "char \<Rightarrow> bool" where
  "lower_hex c \<longleftrightarrow> (let n = of_char c :: nat in 48 \<le> n \<and> n \<le> 57 \<or> 97 \<le> n \<and> n \<le> 102)"

definition digest_ok :: "string \<Rightarrow> bool" where
  "digest_ok h \<longleftrightarrow> length h = 64 \<and> list_all lower_hex h"

text \<open>What is documented of \<open>hashlib.sha256().hexdigest()\<close>: 64 lower-case hex digits.\<close>

definition sha_ok :: "sha \<Rightarrow> bool" where
  "sha_ok sha \<longleftrightarrow> (\<forall>bs. digest_ok (sha bs))"

definition utf8 :: "string \<Rightarrow> nat list" where
  "utf8 s = map of_char s"

lemma utf8_inj: "utf8 s = utf8 t \<longleftrightarrow> s = t"
  by (simp add: utf8_def inj_map_eq_map inj_of_char)

definition ZERO_HASH_HEX :: string where
  "ZERO_HASH_HEX = replicate 64 (CHR ''0'')"

text \<open>The bytes that are hashed for one link, and \<open>_chain\<close>.\<close>

definition link_bytes :: "string \<Rightarrow> string \<Rightarrow> nat list res" where
  "link_bytes prev payload = bindE (from_hex prev) (\<lambda>bs. Inr (bs @ utf8 payload))"

definition chain :: "sha \<Rightarrow> string \<Rightarrow> string \<Rightarrow> string res" where
  "chain sha prev payload = bindE (link_bytes prev payload) (\<lambda>bs. Inr (sha bs))"

lemma hex_digit_lower: "lower_hex c \<Longrightarrow> \<exists>x. hex_digit c = Inr x \<and> x < 16"
  by (auto simp: lower_hex_def hex_digit_def Let_def)

lemma hex_digit_inj: "lower_hex a \<Longrightarrow> lower_hex b \<Longrightarrow> hex_digit a = hex_digit b \<Longrightarrow> a = b"
proof -
  assume l: "lower_hex a" "lower_hex b" and e: "hex_digit a = hex_digit b"
  define m n where "m = (of_char a :: nat)" and "n = (of_char b :: nat)"
  from l e have "m = n"
    unfolding lower_hex_def hex_digit_def Let_def m_def [symmetric] n_def [symmetric]
    by (auto split: if_splits)
  then show "a = b" by (simp add: m_def n_def)
qed

lemma from_hex_total:
  "even (length h) \<Longrightarrow> list_all lower_hex h \<Longrightarrow> \<exists>bs. from_hex h = Inr bs \<and> length bs = length h div 2"
proof (induction h rule: induct_list012)
  case (3 a b cs)
  then obtain bs where bs: "from_hex cs = Inr bs" "length bs = length cs div 2" by auto
  obtain x where x: "hex_digit a = Inr x" using 3 hex_digit_lower [of a] by auto
  obtain y where y: "hex_digit b = Inr y" using 3 hex_digit_lower [of b] by auto
  from bs x y show ?case by simp
qed simp_all

lemma from_hex_Cons2:
  "from_hex (a # b # cs) = Inr bs \<longleftrightarrow>
   (\<exists>x y bs'. hex_digit a = Inr x \<and> hex_digit b = Inr y \<and> from_hex cs = Inr bs' \<and>
      bs = (16 * x + y) # bs')"
  by (auto simp: bindE_eq_Inr)

lemma from_hex_Nil_iff: "from_hex k = Inr [] \<longleftrightarrow> k = []"
proof (induction k rule: induct_list012)
  case (3 a b cs)
  show ?case unfolding from_hex_Cons2 by simp
qed simp_all

lemma from_hex_Cons_D: "from_hex k = Inr (z # bs) \<Longrightarrow> \<exists>a b cs. k = a # b # cs"
proof (induction k rule: induct_list012)
  case (3 a b cs)
  show ?case by blast
qed simp_all

lemma byte_digits: "x < 16 \<Longrightarrow> y < 16 \<Longrightarrow> u < 16 \<Longrightarrow> v < 16 \<Longrightarrow> 16 * u + v = 16 * x + y \<Longrightarrow> u = x \<and> v = y"
  for x y u v :: nat
proof -
  assume b: "y < 16" "v < 16" and e: "16 * u + v = 16 * x + y"
  have "u = (16 * u + v) div 16" "v = (16 * u + v) mod 16" using b(2) by simp_all
  moreover have "x = (16 * x + y) div 16" "y = (16 * x + y) mod 16" using b(1) by simp_all
  ultimately show "u = x \<and> v = y" unfolding e by simp
qed

lemma from_hex_inj:
  "list_all lower_hex h \<Longrightarrow> list_all lower_hex k \<Longrightarrow> from_hex h = Inr bs \<Longrightarrow> from_hex k = Inr bs \<Longrightarrow> h = k"
proof (induction h arbitrary: k bs rule: induct_list012)
  case 1
  then show ?case by (simp add: from_hex_Nil_iff)
next
  case (2 c)
  then show ?case by simp
next
  case (3 a b cs)
  from 3(5) obtain x y bs1 where x: "hex_digit a = Inr x" "hex_digit b = Inr y"
    "from_hex cs = Inr bs1" and bs: "bs = (16 * x + y) # bs1"
    unfolding from_hex_Cons2 by blast
  from 3(6) bs obtain c d ds where k: "k = c # d # ds" using from_hex_Cons_D by blast
  from 3(6) [unfolded k from_hex_Cons2] obtain u v bs2 where u: "hex_digit c = Inr u"
    "hex_digit d = Inr v" "from_hex ds = Inr bs2" and bs2: "bs = (16 * u + v) # bs2" by blast
  have l: "lower_hex a" "lower_hex b" "lower_hex c" "lower_hex d" "list_all lower_hex cs"
    "list_all lower_hex ds" using 3(3,4) by (simp_all add: k)
  have lt: "x < 16" "y < 16" "u < 16" "v < 16"
    using hex_digit_lower [OF l(1)] hex_digit_lower [OF l(2)] hex_digit_lower [OF l(3)]
      hex_digit_lower [OF l(4)] x(1,2) u(1,2) by simp_all
  from bs bs2 have e: "16 * u + v = 16 * x + y" "bs2 = bs1" by simp_all
  from byte_digits [OF lt e(1)] have "a = c" "b = d"
    using hex_digit_inj [OF l(1,3)] hex_digit_inj [OF l(2,4)] x(1,2) u(1,2) by simp_all
  moreover have "cs = ds" by (rule 3(1) [OF l(5,6) x(3)]) (simp add: u(3) e(2))
  ultimately show ?case by (simp add: k)
qed

lemma of_char_inj: "map of_char xs = (map of_char ys :: nat list) \<Longrightarrow> xs = ys"
  by (metis inj_map_eq_map inj_def of_char_eq_iff)

lemma digest_link:
  "digest_ok prev \<Longrightarrow> \<exists>bs. from_hex prev = Inr bs \<and> length bs = 32"
  using from_hex_total [of prev] by (auto simp: digest_ok_def)

lemma ZERO_digest [simp]: "digest_ok ZERO_HASH_HEX"
  by (simp add: digest_ok_def ZERO_HASH_HEX_def lower_hex_def list_all_iff)

text \<open>A link determines the previous hash and the payload.\<close>

lemma link_bytes_inj:
  assumes "digest_ok p" "digest_ok q" "link_bytes p x = Inr bs" "link_bytes q y = Inr bs"
  shows "p = q \<and> x = y"
proof -
  obtain a b where a: "from_hex p = Inr a" "length a = 32" and b: "from_hex q = Inr b" "length b = 32"
    using assms(1,2) digest_link by blast
  with assms(3,4) have "a @ utf8 x = b @ utf8 y" by (simp add: link_bytes_def)
  with a b have "a = b" "utf8 x = utf8 y" by simp_all
  then show ?thesis
    using assms(1,2) a b from_hex_inj [of p q a] of_char_inj by (auto simp: digest_ok_def utf8_def)
qed

lemma chain_total:
  assumes "digest_ok prev"
  shows "\<exists>bs. link_bytes prev x = Inr bs \<and> chain sha prev x = Inr (sha bs)"
  using digest_link [OF assms] by (auto simp: chain_def link_bytes_def)

section \<open>Records, tenants and the walk\<close>

record codec =
  canonical_json :: "decision_record \<Rightarrow> string"
  parse_record :: "string \<Rightarrow> decision_record res"
  json_tenant :: "string \<Rightarrow> string option"

definition UNSCOPED_TENANT :: string where "UNSCOPED_TENANT = ''_unscoped_''"

text \<open>\<open>a or b\<close> on optional strings: \<open>None\<close> and the empty string are falsy.\<close>

definition or_tenant :: "string option \<Rightarrow> string \<Rightarrow> string" where
  "or_tenant t d = (case t of None \<Rightarrow> d | Some s \<Rightarrow> if s = [] then d else s)"

definition resolve_tenant :: "string option \<Rightarrow> string" where
  "resolve_tenant ctx = or_tenant ctx UNSCOPED_TENANT"

definition tenant_of :: "decision_record \<Rightarrow> string" where
  "tenant_of r = or_tenant (dr_tenant_id r) UNSCOPED_TENANT"

definition stamp :: "string option \<Rightarrow> decision_record \<Rightarrow> decision_record" where
  "stamp ctx r = (if dr_tenant_id r = None then r\<lparr>dr_tenant_id := Some (resolve_tenant ctx)\<rparr> else r)"

type_synonym row = "decision_record \<times> string"

fun verify_from ::
  "sha \<Rightarrow> codec \<Rightarrow> int \<Rightarrow> (string \<rightharpoonup> string) \<Rightarrow> row list \<Rightarrow> int res" where
  "verify_from sha c i prevs [] = Inr (- 1)"
| "verify_from sha c i prevs ((r, h) # rows) =
     bindE (chain sha (case prevs (tenant_of r) of None \<Rightarrow> ZERO_HASH_HEX | Some p \<Rightarrow> p) (canonical_json c r))
       (\<lambda>expected. if expected \<noteq> h then Inr i
                    else verify_from sha c (i + 1) (prevs(tenant_of r \<mapsto> h)) rows)"

definition verify :: "sha \<Rightarrow> codec \<Rightarrow> row list \<Rightarrow> int res" where
  "verify sha c rows = verify_from sha c 0 Map.empty rows"

fun verify_tenant_from :: "sha \<Rightarrow> codec \<Rightarrow> string \<Rightarrow> string \<Rightarrow> int \<Rightarrow> row list \<Rightarrow> int res" where
  "verify_tenant_from sha c t prev idx [] = Inr (- 1)"
| "verify_tenant_from sha c t prev idx ((r, h) # rows) =
     (if tenant_of r \<noteq> t then verify_tenant_from sha c t prev idx rows
      else bindE (chain sha prev (canonical_json c r))
             (\<lambda>expected. if expected \<noteq> h then Inr idx
                          else verify_tenant_from sha c t h (idx + 1) rows))"

definition verify_tenant :: "sha \<Rightarrow> codec \<Rightarrow> string \<Rightarrow> row list \<Rightarrow> int res" where
  "verify_tenant sha c t rows = verify_tenant_from sha c t ZERO_HASH_HEX 0 rows"

section \<open>The specification: an intact chain\<close>

definition last_hash :: "string \<Rightarrow> row list \<Rightarrow> string" where
  "last_hash t rows = foldl (\<lambda>acc (r, h). if tenant_of r = t then h else acc) ZERO_HASH_HEX rows"

text \<open>Row \<open>i\<close> carries the hash of its payload over the previous row of the same tenant.\<close>

definition link_ok :: "sha \<Rightarrow> codec \<Rightarrow> row list \<Rightarrow> nat \<Rightarrow> bool" where
  "link_ok sha c rows i \<longleftrightarrow>
     (case rows ! i of (r, h) \<Rightarrow>
        chain sha (last_hash (tenant_of r) (take i rows)) (canonical_json c r) = Inr h)"

definition intact :: "sha \<Rightarrow> codec \<Rightarrow> row list \<Rightarrow> bool" where
  "intact sha c rows \<longleftrightarrow> (\<forall>i < length rows. link_ok sha c rows i)"

definition of_tenant :: "string \<Rightarrow> row list \<Rightarrow> row list" where
  "of_tenant t rows = filter (\<lambda>(r, h). tenant_of r = t) rows"

lemma last_hash_Nil [simp]: "last_hash t [] = ZERO_HASH_HEX"
  by (simp add: last_hash_def)

lemma last_hash_snoc [simp]:
  "last_hash t (rows @ [(r, h)]) = (if tenant_of r = t then h else last_hash t rows)"
  by (simp add: last_hash_def)

lemma link_ok_append: "i < length pre \<Longrightarrow> link_ok sha c (pre @ rows) i = link_ok sha c pre i"
  by (simp add: link_ok_def nth_append)

lemma link_ok_last:
  "link_ok sha c (pre @ (r, h) # rows) (length pre) \<longleftrightarrow>
   chain sha (last_hash (tenant_of r) pre) (canonical_json c r) = Inr h"
  by (simp add: link_ok_def)

lemma intact_Nil [simp]: "intact sha c []"
  by (simp add: intact_def)

lemma intact_snoc:
  "intact sha c (rows @ [(r, h)]) \<longleftrightarrow>
   intact sha c rows \<and> chain sha (last_hash (tenant_of r) rows) (canonical_json c r) = Inr h"
  using link_ok_last [of sha c rows r h "[]"]
  by (auto simp: intact_def less_Suc_eq link_ok_append)

lemma intact_take: "intact sha c rows \<Longrightarrow> intact sha c (take n rows)"
  by (simp add: intact_def link_ok_def min_absorb1 less_imp_le)

lemma intact_digest: "sha_ok sha \<Longrightarrow> intact sha c rows \<Longrightarrow> digest_ok (last_hash t rows)"
proof (induction rows rule: rev_induct)
  case Nil
  then show ?case by simp
next
  case (snoc x rows)
  obtain r h where x: "x = (r, h)" by force
  with snoc.prems have "\<exists>bs. h = sha bs" by (auto simp: intact_snoc chain_def bindE_eq_Inr)
  with snoc x show ?case by (auto simp: intact_snoc sha_ok_def)
qed

definition prev_of :: "(string \<rightharpoonup> string) \<Rightarrow> string \<Rightarrow> string" where
  "prev_of prevs t = (case prevs t of None \<Rightarrow> ZERO_HASH_HEX | Some p \<Rightarrow> p)"

lemma verify_from_Cons:
  "verify_from sha c i prevs ((r, h) # rows) =
     bindE (chain sha (prev_of prevs (tenant_of r)) (canonical_json c r))
       (\<lambda>expected. if expected \<noteq> h then Inr i
                    else verify_from sha c (i + 1) (prevs(tenant_of r \<mapsto> h)) rows)"
  by (simp add: prev_of_def)

text \<open>The index of the first broken row, or -1.\<close>

definition first_broken :: "sha \<Rightarrow> codec \<Rightarrow> row list \<Rightarrow> int" where
  "first_broken sha c rows =
     (case find (\<lambda>i. \<not> link_ok sha c rows i) [0..<length rows] of None \<Rightarrow> - 1 | Some i \<Rightarrow> int i)"

lemma first_broken_intact: "first_broken sha c rows = - 1 \<longleftrightarrow> intact sha c rows"
proof (cases "find (\<lambda>i. \<not> link_ok sha c rows i) [0..<length rows]")
  case None
  then have "intact sha c rows" by (auto simp: find_None_iff intact_def)
  with None show ?thesis by (simp add: first_broken_def)
next
  case (Some i)
  then have "\<exists>i < length rows. \<not> link_ok sha c rows i" by (auto simp: find_Some_iff)
  then show ?thesis by (auto simp: first_broken_def Some intact_def)
qed

lemma first_broken_at:
  assumes "intact sha c pre" "\<not> link_ok sha c (pre @ x # rows) (length pre)"
  shows "first_broken sha c (pre @ x # rows) = int (length pre)"
proof -
  have "find (\<lambda>i. \<not> link_ok sha c (pre @ x # rows) i) [0..<length (pre @ x # rows)] = Some (length pre)"
    using assms by (auto simp: find_Some_iff intact_def link_ok_append simp del: upt_Suc
        intro!: exI [of _ "length pre"])
  then show ?thesis by (simp only: first_broken_def option.case)
qed

lemma verify_from_spec:
  assumes "sha_ok sha" "intact sha c pre" "\<And>t. prev_of prevs t = last_hash t pre"
  shows "verify_from sha c (int (length pre)) prevs rows = Inr (first_broken sha c (pre @ rows))"
  using assms(2,3)
proof (induction rows arbitrary: pre prevs)
  case Nil
  then show ?case using first_broken_intact [of sha c pre] by simp
next
  case (Cons x rows)
  obtain r h where x: "x = (r, h)" by force
  let ?prev = "last_hash (tenant_of r) pre"
  obtain e where e: "chain sha ?prev (canonical_json c r) = Inr e"
    using chain_total intact_digest [OF assms(1) Cons.prems(1)] by blast
  show ?case
  proof (cases "e = h")
    case True
    have "intact sha c (pre @ [x])" using Cons.prems(1) e True by (simp add: x intact_snoc)
    moreover have "prev_of (prevs(tenant_of r \<mapsto> h)) t = last_hash t (pre @ [x])" for t
      using Cons.prems(2) by (auto simp: x prev_of_def)
    ultimately have "verify_from sha c (int (length (pre @ [x]))) (prevs(tenant_of r \<mapsto> h)) rows =
        Inr (first_broken sha c ((pre @ [x]) @ rows))" by (rule Cons.IH)
    then show ?thesis using e True Cons.prems(2)
      by (simp add: x verify_from_Cons add.commute del: verify_from.simps)
  next
    case False
    have "\<not> link_ok sha c (pre @ x # rows) (length pre)"
      using e False by (simp add: x link_ok_last)
    then show ?thesis using e False Cons.prems first_broken_at
      by (simp add: x verify_from_Cons del: verify_from.simps)
  qed
qed

lemma verify_spec: "sha_ok sha \<Longrightarrow> verify sha c rows = Inr (first_broken sha c rows)"
  using verify_from_spec [of sha c "[]" Map.empty rows] by (simp add: verify_def prev_of_def)

lemma verify_intact: "sha_ok sha \<Longrightarrow> verify sha c rows = Inr (- 1) \<longleftrightarrow> intact sha c rows"
  by (simp add: verify_spec first_broken_intact)

section \<open>One tenant\<close>

lemma of_tenant_snoc [simp]:
  "of_tenant t (rows @ [(r, h)]) = of_tenant t rows @ (if tenant_of r = t then [(r, h)] else [])"
  by (simp add: of_tenant_def)

lemma last_hash_of_tenant [simp]: "last_hash t (of_tenant t rows) = last_hash t rows"
proof (induction rows rule: rev_induct)
  case (snoc x rows)
  then show ?case by (cases x) simp
qed (simp add: of_tenant_def)

lemma intact_of_tenant: "intact sha c rows \<Longrightarrow> intact sha c (of_tenant t rows)"
proof (induction rows rule: rev_induct)
  case (snoc x rows)
  then show ?case by (cases x) (auto simp: intact_snoc)
qed (simp add: of_tenant_def)

lemma verify_tenant_from_filter:
  "verify_tenant_from sha c t prev i (of_tenant t rows) = verify_tenant_from sha c t prev i rows"
  by (induction rows arbitrary: prev i) (auto simp: of_tenant_def bindE_def split: sum.split)

lemma verify_tenant_from_verify:
  "(\<And>x. x \<in> set rows \<Longrightarrow> tenant_of (fst x) = t) \<Longrightarrow> prev_of prevs t = prev \<Longrightarrow>
   verify_tenant_from sha c t prev i rows = verify_from sha c i prevs rows"
proof (induction rows arbitrary: prev prevs i)
  case Nil
  then show ?case by simp
next
  case (Cons x rows)
  obtain r h where x: "x = (r, h)" by force
  have t: "tenant_of r = t" using Cons.prems(1) [of x] x by simp
  have "verify_tenant_from sha c t h (i + 1) rows = verify_from sha c (i + 1) (prevs(t \<mapsto> h)) rows"
    using Cons.prems by (intro Cons.IH) (auto simp: prev_of_def)
  then show ?case using t Cons.prems(2)
    by (simp add: x verify_from_Cons bindE_def del: verify_from.simps split: sum.split)
qed

text \<open>Walking one tenant's chain is walking the chain of its rows alone.\<close>

lemma verify_tenant_eq: "verify_tenant sha c t rows = verify sha c (of_tenant t rows)"
proof -
  have "verify_tenant sha c t rows = verify_tenant sha c t (of_tenant t rows)"
    by (simp add: verify_tenant_def verify_tenant_from_filter)
  also have "\<dots> = verify sha c (of_tenant t rows)"
    unfolding verify_tenant_def verify_def
    by (rule verify_tenant_from_verify) (auto simp: of_tenant_def prev_of_def)
  finally show ?thesis .
qed

section \<open>Tampering\<close>

text \<open>The byte strings hashed along one tenant's chain.\<close>

fun link_inputs :: "codec \<Rightarrow> string \<Rightarrow> row list \<Rightarrow> nat list list" where
  "link_inputs c prev [] = []"
| "link_inputs c prev ((r, h) # rows) =
     (case link_bytes prev (canonical_json c r) of Inl _ \<Rightarrow> [] | Inr bs \<Rightarrow> [bs]) @ link_inputs c h rows"

lemma link_inputs_snoc:
  "link_inputs c prev (rows @ [(r, h)]) =
   link_inputs c prev rows @
     (case link_bytes (if rows = [] then prev else snd (last rows)) (canonical_json c r) of
        Inl _ \<Rightarrow> [] | Inr bs \<Rightarrow> [bs])"
  by (induction rows arbitrary: prev) auto

definition collision :: "sha \<Rightarrow> nat list list \<Rightarrow> nat list list \<Rightarrow> bool" where
  "collision sha xs ys \<longleftrightarrow> list_ex (\<lambda>x. list_ex (\<lambda>y. x \<noteq> y \<and> sha x = sha y) ys) xs"

lemma last_hash_single:
  "(\<And>x. x \<in> set rows \<Longrightarrow> tenant_of (fst x) = t) \<Longrightarrow>
   last_hash t rows = (if rows = [] then ZERO_HASH_HEX else snd (last rows))"
  by (cases rows rule: rev_cases) force+

lemma chains_agree:
  assumes sha: "sha_ok sha"
    and "length xs = length ys" "intact sha c xs" "intact sha c ys"
    and "\<And>x. x \<in> set xs \<Longrightarrow> tenant_of (fst x) = t" "\<And>y. y \<in> set ys \<Longrightarrow> tenant_of (fst y) = t"
    and "last_hash t xs = last_hash t ys"
    and "\<not> collision sha (link_inputs c ZERO_HASH_HEX xs) (link_inputs c ZERO_HASH_HEX ys)"
  shows "map (\<lambda>(r, h). (canonical_json c r, h)) xs = map (\<lambda>(r, h). (canonical_json c r, h)) ys"
  using assms(2-8)
proof (induction xs arbitrary: ys rule: rev_induct)
  case Nil
  then show ?case by simp
next
  case (snoc x xs)
  obtain y ys' where ys: "ys = ys' @ [y]"
    using snoc.prems(1) by (cases ys rule: rev_cases) auto
  obtain r h where x: "x = (r, h)" by force
  obtain s k where y: "y = (s, k)" by force
  have tr: "tenant_of r = t" "tenant_of s = t"
    using snoc.prems(4) [of x] snoc.prems(5) [of y] by (simp_all add: x y ys)
  let ?p = "last_hash t xs" and ?q = "last_hash t ys'"
  have ix: "intact sha c xs" "chain sha ?p (canonical_json c r) = Inr h"
    and iy: "intact sha c ys'" "chain sha ?q (canonical_json c s) = Inr k"
    using snoc.prems(2,3) tr by (simp_all add: x y ys intact_snoc)
  have hk: "h = k" using snoc.prems(6) tr by (simp add: x y ys)
  obtain a where a: "link_bytes ?p (canonical_json c r) = Inr a" "h = sha a"
    using ix(2) by (auto simp: chain_def bindE_eq_Inr)
  obtain b where b: "link_bytes ?q (canonical_json c s) = Inr b" "k = sha b"
    using iy(2) by (auto simp: chain_def bindE_eq_Inr)
  have px: "?p = (if xs = [] then ZERO_HASH_HEX else snd (last xs))"
    using snoc.prems(4) by (intro last_hash_single) simp
  have py: "?q = (if ys' = [] then ZERO_HASH_HEX else snd (last ys'))"
    using snoc.prems(5) ys by (intro last_hash_single) simp
  have inp: "link_inputs c ZERO_HASH_HEX (xs @ [x]) = link_inputs c ZERO_HASH_HEX xs @ [a]"
    "link_inputs c ZERO_HASH_HEX ys = link_inputs c ZERO_HASH_HEX ys' @ [b]"
    using a(1) b(1) by (simp_all add: x y ys link_inputs_snoc px [symmetric] py [symmetric])
  with snoc.prems(7) have ab: "a = b"
    and nc: "\<not> collision sha (link_inputs c ZERO_HASH_HEX xs) (link_inputs c ZERO_HASH_HEX ys')"
    using a(2) b(2) hk by (auto simp: collision_def list_ex_iff)
  have eq: "?p = ?q \<and> canonical_json c r = canonical_json c s"
    by (rule link_bytes_inj [OF intact_digest [OF sha ix(1)] intact_digest [OF sha iy(1)] a(1)])
      (simp add: ab b(1))
  have "map (\<lambda>(r, h). (canonical_json c r, h)) xs = map (\<lambda>(r, h). (canonical_json c r, h)) ys'"
    by (rule snoc.IH) (use snoc.prems ix iy nc eq ys in auto)
  then show ?case using eq hk by (simp add: x y ys)
qed

end
