(* ===== verification/EvidenceBackends.thy ===== *)
theory EvidenceBackends
  imports EvidenceChain
begin

text \<open>
  The stores of \<open>evidence/store.py\<close>: the JSONL file, the SQLite table and the PostgreSQL table, each
  as its rows in append order, and the interface they share. An iteration is the list of what the
  generator yields, ending with the exception a parse raises, so a walk that stops earlier never
  sees it. A table's codec (JSONB's text in PostgreSQL) and SHA-256 are parameters.
\<close>

section \<open>Walking an iteration\<close>

fun verify_stream :: "sha \<Rightarrow> codec \<Rightarrow> int \<Rightarrow> (string \<rightharpoonup> string) \<Rightarrow> row res list \<Rightarrow> int res" where
  "verify_stream sha c i prevs [] = Inr (- 1)"
| "verify_stream sha c i prevs (Inl e # items) = Inl e"
| "verify_stream sha c i prevs (Inr (r, h) # items) =
     bindE (chain sha (prev_of prevs (tenant_of r)) (canonical_json c r))
       (\<lambda>expected. if expected \<noteq> h then Inr i
                    else verify_stream sha c (i + 1) (prevs(tenant_of r \<mapsto> h)) items)"

definition store_verify :: "sha \<Rightarrow> codec \<Rightarrow> row res list \<Rightarrow> int res" where
  "store_verify sha c items = verify_stream sha c 0 Map.empty items"

lemma verify_stream_map: "verify_stream sha c i prevs (map Inr rows) = verify_from sha c i prevs rows"
proof (induction rows arbitrary: i prevs)
  case (Cons x rows)
  then show ?case
    by (cases x) (simp add: verify_from_Cons bindE_def del: verify_from.simps(2) fun_upd_apply split: sum.split)
qed simp

lemma store_verify_map: "store_verify sha c (map Inr rows) = verify sha c rows"
  by (simp add: store_verify_def verify_def verify_stream_map)

section \<open>The interface\<close>

text \<open>
  What the chain relies on: an iteration without a scope yields every row, one inside a scope the
  rows of its tenant, and an append that succeeds adds one row, linked to the tenant's last.
  \<open>st\<close> says which records the store reads back as it wrote them.
\<close>

locale evidence_backend =
  fixes sha :: sha and c :: codec
    and append :: "string option \<Rightarrow> decision_record \<Rightarrow> 's \<Rightarrow> ('s \<times> string) res"
    and items :: "string option \<Rightarrow> 's \<Rightarrow> row res list"
    and ok :: "'s \<Rightarrow> bool" and st :: "decision_record \<Rightarrow> bool"
  assumes items_ok: "ok s \<Longrightarrow> \<exists>rows. items None s = map Inr rows"
    and items_scoped: "ok s \<Longrightarrow> items None s = map Inr rows \<Longrightarrow>
          items (Some t) s = map Inr (of_tenant t rows)"
    and append_ok: "ok s \<Longrightarrow> st (stamp ctx r) \<Longrightarrow> items None s = map Inr rows \<Longrightarrow> sha_ok sha \<Longrightarrow>
          append ctx r s = Inr (s', h) \<Longrightarrow>
          ok s' \<and> (\<exists>r'. items None s' = map Inr (rows @ [(r', h)]) \<and>
            tenant_of r' = tenant_of (stamp ctx r) \<and>
            canonical_json c r' = canonical_json c (stamp ctx r) \<and>
            chain sha (last_hash (tenant_of r') rows) (canonical_json c r') = Inr h)"
begin

definition good :: "'s \<Rightarrow> bool" where
  "good s \<longleftrightarrow> ok s \<and> (\<exists>rows. items None s = map Inr rows \<and> intact sha c rows)"

lemma good_append:
  assumes "sha_ok sha" "good s" "st (stamp ctx r)" "append ctx r s = Inr (s', h)"
  shows "good s'"
proof -
  obtain rows where rows: "items None s = map Inr rows" "intact sha c rows" "ok s"
    using assms(2) by (auto simp: good_def)
  from append_ok [OF rows(3) assms(3) rows(1) assms(1,4)] obtain r' where
    "ok s'" "items None s' = map Inr (rows @ [(r', h)])"
    "chain sha (last_hash (tenant_of r') rows) (canonical_json c r') = Inr h" by blast
  with rows(2) have "intact sha c (rows @ [(r', h)])" by (simp add: intact_snoc)
  with \<open>ok s'\<close> \<open>items None s' = map Inr (rows @ [(r', h)])\<close> show ?thesis
    unfolding good_def by blast
qed

lemma good_appends:
  "sha_ok sha \<Longrightarrow> good s \<Longrightarrow> \<forall>(ctx, r) \<in> set ops. st (stamp ctx r) \<Longrightarrow>
   runE (\<lambda>s (ctx, r). bindE (append ctx r s) (\<lambda>(s', h). Inr s')) s ops = Inr s' \<Longrightarrow> good s'"
proof (induction ops arbitrary: s)
  case Nil
  then show ?case by simp
next
  case (Cons x ops)
  obtain ctx r where x: "x = (ctx, r)" by force
  from Cons.prems(4) obtain s1 h where s1: "append ctx r s = Inr (s1, h)"
    "runE (\<lambda>s (ctx, r). bindE (append ctx r s) (\<lambda>(s', h). Inr s')) s1 ops = Inr s'"
    by (auto simp: x bindE_eq_Inr)
  have "good s1" using good_append [OF Cons.prems(1,2) _ s1(1)] Cons.prems(3) x by simp
  with Cons s1(2) show ?case by simp
qed

lemma good_verifies:
  assumes "sha_ok sha" "good s"
  shows "store_verify sha c (items active s) = Inr (- 1)"
proof -
  obtain rows where rows: "items None s = map Inr rows" "intact sha c rows" "ok s"
    using assms(2) by (auto simp: good_def)
  show ?thesis
  proof (cases active)
    case None
    then show ?thesis using rows verify_intact [OF assms(1)] by (simp add: store_verify_map)
  next
    case (Some t)
    then show ?thesis
      using items_scoped [OF rows(3,1)] intact_of_tenant [OF rows(2)] verify_intact [OF assms(1)]
      by (simp add: store_verify_map)
  qed
qed

lemma good_empty: "ok s \<Longrightarrow> items None s = [] \<Longrightarrow> good s"
  by (auto simp: good_def intro: exI [of _ "[]"])

end

section \<open>JSONL\<close>

text \<open>A line: blank, or the hash, the label outside the record and the record's JSON.\<close>

datatype jline = JBlank | JRow string "string option" string

type_synonym jfile = "jline list"

definition jsonl_label :: "codec \<Rightarrow> string option \<Rightarrow> string \<Rightarrow> string" where
  "jsonl_label c t p = or_tenant t (or_tenant (json_tenant c p) UNSCOPED_TENANT)"

fun jsonl_last_from :: "codec \<Rightarrow> string \<Rightarrow> string \<Rightarrow> jfile \<Rightarrow> string" where
  "jsonl_last_from c t acc [] = acc"
| "jsonl_last_from c t acc (JBlank # ls) = jsonl_last_from c t acc ls"
| "jsonl_last_from c t acc (JRow h lbl p # ls) =
     jsonl_last_from c t (if jsonl_label c lbl p = t then h else acc) ls"

definition jsonl_last_hash :: "codec \<Rightarrow> string \<Rightarrow> jfile \<Rightarrow> string" where
  "jsonl_last_hash c t f = jsonl_last_from c t ZERO_HASH_HEX f"

definition jsonl_append :: "sha \<Rightarrow> codec \<Rightarrow> string option \<Rightarrow> decision_record \<Rightarrow> jfile \<Rightarrow> (jfile \<times> string) res" where
  "jsonl_append sha c ctx r f =
     (let r1 = stamp ctx r; t = tenant_of r1; payload = canonical_json c r1
      in bindE (chain sha (jsonl_last_hash c t f) payload)
           (\<lambda>h. Inr (f @ [JRow h (Some t) payload], h)))"

fun jsonl_iter :: "codec \<Rightarrow> string option \<Rightarrow> jfile \<Rightarrow> row res list" where
  "jsonl_iter c active [] = []"
| "jsonl_iter c active (JBlank # ls) = jsonl_iter c active ls"
| "jsonl_iter c active (JRow h lbl p # ls) =
     (case parse_record c p of
        Inl e \<Rightarrow> [Inl e]
      | Inr r \<Rightarrow>
          (if active \<noteq> None \<and> active \<noteq> Some (or_tenant lbl (tenant_of r)) then jsonl_iter c active ls
           else Inr (r, h) # jsonl_iter c active ls))"

section \<open>SQLite\<close>

record sq_row =
  sq_decision_id :: string
  sq_tenant :: string
  sq_payload :: string
  sq_hash :: "nat list"

definition hex_char :: "nat \<Rightarrow> char" where
  "hex_char n = char_of (if n < 10 then 48 + n else 87 + n)"

definition to_hex :: "nat list \<Rightarrow> string" where
  "to_hex bs = concat (map (\<lambda>b. [hex_char (b div 16), hex_char (b mod 16)]) bs)"

definition sqlite_last_hash :: "string \<Rightarrow> sq_row list \<Rightarrow> string" where
  "sqlite_last_hash t rows =
     (case rev (filter (\<lambda>q. sq_tenant q = t) rows) of
        [] \<Rightarrow> ZERO_HASH_HEX | q # _ \<Rightarrow> to_hex (sq_hash q))"

definition IntegrityError :: py_exn where "IntegrityError = OtherExn ''IntegrityError''"

definition sqlite_append ::
  "sha \<Rightarrow> codec \<Rightarrow> string option \<Rightarrow> decision_record \<Rightarrow> sq_row list \<Rightarrow> (sq_row list \<times> string) res" where
  "sqlite_append sha c ctx r rows =
     (let r1 = stamp ctx r; t = tenant_of r1; payload = canonical_json c r1
      in bindE (chain sha (sqlite_last_hash t rows) payload) (\<lambda>h.
         bindE (from_hex h) (\<lambda>bytes.
         if dr_decision_id r1 \<in> sq_decision_id ` set rows then Inl IntegrityError
         else Inr (rows @ [\<lparr>sq_decision_id = dr_decision_id r1, sq_tenant = t, sq_payload = payload,
                             sq_hash = bytes\<rparr>], h))))"

fun parse_rows :: "codec \<Rightarrow> (string \<times> string) list \<Rightarrow> row res list" where
  "parse_rows c [] = []"
| "parse_rows c ((p, h) # rows) =
     (case parse_record c p of Inl e \<Rightarrow> [Inl e] | Inr r \<Rightarrow> Inr (r, h) # parse_rows c rows)"

definition sqlite_iter :: "codec \<Rightarrow> string option \<Rightarrow> sq_row list \<Rightarrow> row res list" where
  "sqlite_iter c active rows =
     parse_rows c (map (\<lambda>q. (sq_payload q, to_hex (sq_hash q)))
       (filter (\<lambda>q. active = None \<or> active = Some (sq_tenant q)) rows))"

section \<open>PostgreSQL\<close>

record pg_row =
  pg_tenant :: string
  pg_ts :: string
  pg_decision_id :: string
  pg_record :: string
  pg_hash :: string

definition pg_last_hash :: "string \<Rightarrow> pg_row list \<Rightarrow> string" where
  "pg_last_hash t rows =
     (case rev (filter (\<lambda>q. pg_tenant q = t) rows) of [] \<Rightarrow> ZERO_HASH_HEX | q # _ \<Rightarrow> pg_hash q)"

text \<open>\<open>jsonb\<close> is what the column stores of the JSON text it is given.\<close>

definition pg_append ::
  "(string \<Rightarrow> string) \<Rightarrow> sha \<Rightarrow> codec \<Rightarrow> string option \<Rightarrow> decision_record \<Rightarrow> pg_row list \<Rightarrow>
   (pg_row list \<times> string) res" where
  "pg_append jsonb sha c ctx r rows =
     (let r1 = stamp ctx r; t = tenant_of r1; payload = canonical_json c r1
      in bindE (chain sha (pg_last_hash t rows) payload) (\<lambda>h.
         Inr (rows @ [\<lparr>pg_tenant = t, pg_ts = dr_timestamp r1, pg_decision_id = dr_decision_id r1,
                       pg_record = jsonb payload, pg_hash = h\<rparr>], h)))"

definition pg_iter :: "codec \<Rightarrow> string option \<Rightarrow> pg_row list \<Rightarrow> row res list" where
  "pg_iter c active rows =
     parse_rows c (map (\<lambda>q. (pg_record q, pg_hash q))
       (filter (\<lambda>q. active = None \<or> active = Some (pg_tenant q)) rows))"

section \<open>The backends meet the interface\<close>

text \<open>A record that is read back with the same canonical JSON and the same tenant.\<close>

definition storable :: "(string \<Rightarrow> string) \<Rightarrow> codec \<Rightarrow> decision_record \<Rightarrow> bool" where
  "storable enc c r \<longleftrightarrow>
     (case parse_record c (enc (canonical_json c r)) of
        Inl e \<Rightarrow> False
      | Inr r' \<Rightarrow> canonical_json c r' = canonical_json c r \<and> tenant_of r' = tenant_of r)"

definition reads_back :: "codec \<Rightarrow> string \<Rightarrow> string \<Rightarrow> bool" where
  "reads_back c t p \<longleftrightarrow> (case parse_record c p of Inl e \<Rightarrow> False | Inr r \<Rightarrow> tenant_of r = t)"

lemma storableE:
  assumes "storable enc c r"
  obtains r' where "parse_record c (enc (canonical_json c r)) = Inr r'"
    "canonical_json c r' = canonical_json c r" "tenant_of r' = tenant_of r"
  using assms by (auto simp: storable_def split: sum.splits)

lemma or_tenant_nonempty [simp]: "d \<noteq> [] \<Longrightarrow> or_tenant t d \<noteq> []"
  by (auto simp: or_tenant_def split: option.split)

lemma or_tenant_Some [simp]: "s \<noteq> [] \<Longrightarrow> or_tenant (Some s) d = s"
  by (simp add: or_tenant_def)

lemma tenant_of_nonempty [simp]: "tenant_of r \<noteq> []"
  by (simp add: tenant_of_def UNSCOPED_TENANT_def)

subsection \<open>JSONL\<close>

fun jline_ok :: "codec \<Rightarrow> jline \<Rightarrow> bool" where
  "jline_ok c JBlank = True"
| "jline_ok c (JRow h lbl p) =
     (case parse_record c p of Inl e \<Rightarrow> False | Inr r \<Rightarrow> lbl = Some (tenant_of r))"

definition jfile_ok :: "codec \<Rightarrow> jfile \<Rightarrow> bool" where
  "jfile_ok c f \<longleftrightarrow> list_all (jline_ok c) f"

fun jrow :: "codec \<Rightarrow> jline \<Rightarrow> row list" where
  "jrow c JBlank = []"
| "jrow c (JRow h lbl p) = (case parse_record c p of Inl e \<Rightarrow> [] | Inr r \<Rightarrow> [(r, h)])"

definition jrows :: "codec \<Rightarrow> jfile \<Rightarrow> row list" where
  "jrows c f = concat (map (jrow c) f)"

lemma jline_ok_JRow:
  "jline_ok c (JRow h lbl p) \<Longrightarrow> \<exists>r. parse_record c p = Inr r \<and> lbl = Some (tenant_of r)"
  by (cases "parse_record c p") simp_all

lemma jsonl_iter_rows:
  "jfile_ok c f \<Longrightarrow> jsonl_iter c active f =
     map Inr (case active of None \<Rightarrow> jrows c f | Some t \<Rightarrow> of_tenant t (jrows c f))"
proof (induction f)
  case Nil
  then show ?case by (cases active) (simp_all add: jrows_def of_tenant_def)
next
  case (Cons l f)
  have IH: "jsonl_iter c active f =
      map Inr (case active of None \<Rightarrow> jrows c f | Some t \<Rightarrow> of_tenant t (jrows c f))"
    using Cons by (simp add: jfile_ok_def)
  show ?case
  proof (cases l)
    case JBlank
    then show ?thesis using IH by (cases active) (simp_all add: jrows_def)
  next
    case (JRow h lbl p)
    with Cons.prems obtain r where "parse_record c p = Inr r" "lbl = Some (tenant_of r)"
      using jline_ok_JRow by (fastforce simp: jfile_ok_def)
    then show ?thesis using IH JRow
      by (cases active) (auto simp: jrows_def of_tenant_def)
  qed
qed

lemma jsonl_last_rows:
  "jfile_ok c f \<Longrightarrow> jsonl_last_from c t acc f =
     foldl (\<lambda>acc (r, h). if tenant_of r = t then h else acc) acc (jrows c f)"
proof (induction f arbitrary: acc)
  case Nil
  then show ?case by (simp add: jrows_def)
next
  case (Cons l f)
  then show ?case
    by (cases l) (auto simp: jfile_ok_def jrows_def jsonl_label_def split: sum.splits)
qed

lemma jsonl_last: "jfile_ok c f \<Longrightarrow> jsonl_last_hash c t f = last_hash t (jrows c f)"
  by (simp add: jsonl_last_hash_def last_hash_def jsonl_last_rows)

lemma jfile_ok_snoc:
  "storable id c r \<Longrightarrow> jfile_ok c f \<Longrightarrow>
   jfile_ok c (f @ [JRow h (Some (tenant_of r)) (canonical_json c r)])"
  by (auto simp: jfile_ok_def storable_def split: sum.splits)

lemma map_Inr_eq [simp]: "map Inr xs = map Inr ys \<longleftrightarrow> xs = ys"
  by (simp add: inj_map_eq_map)

lemma storable_id:
  "storable id c r \<Longrightarrow> \<exists>r'. parse_record c (canonical_json c r) = Inr r' \<and>
     canonical_json c r' = canonical_json c r \<and> tenant_of r' = tenant_of r"
  by (auto simp: storable_def split: sum.splits)

lemma jsonl_append_row:
  assumes ok: "jfile_ok c f" and st: "storable id c (stamp ctx r)" and rows: "jsonl_iter c None f = map Inr rows"
    and app: "jsonl_append sha c ctx r f = Inr (f', h)"
  shows "jfile_ok c f' \<and> (\<exists>r'. jsonl_iter c None f' = map Inr (rows @ [(r', h)]) \<and>
      tenant_of r' = tenant_of (stamp ctx r) \<and> canonical_json c r' = canonical_json c (stamp ctx r) \<and>
      chain sha (last_hash (tenant_of r') rows) (canonical_json c r') = Inr h)"
proof -
  define r1 where "r1 = stamp ctx r"
  have rows': "jrows c f = rows" using rows ok by (simp add: jsonl_iter_rows)
  from app have ch: "chain sha (last_hash (tenant_of r1) rows) (canonical_json c r1) = Inr h"
    and f': "f' = f @ [JRow h (Some (tenant_of r1)) (canonical_json c r1)]"
    unfolding jsonl_append_def Let_def bindE_eq_Inr jsonl_last [OF ok] rows' r1_def [symmetric] by auto
  from storable_id [OF st] obtain r' where r': "parse_record c (canonical_json c r1) = Inr r'"
    "canonical_json c r' = canonical_json c r1" "tenant_of r' = tenant_of r1"
    unfolding r1_def by blast
  have ok': "jfile_ok c f'"
    unfolding f' by (rule jfile_ok_snoc [OF st [folded r1_def] ok])
  have "jrows c f' = rows @ [(r', h)]" using rows' r'(1) by (simp add: f' jrows_def)
  then have "jsonl_iter c None f' = map Inr (rows @ [(r', h)])" using ok' by (simp add: jsonl_iter_rows)
  with ok' r'(2,3) ch show ?thesis unfolding r1_def [symmetric] by auto
qed

interpretation jsonl: evidence_backend sha c "jsonl_append sha c" "jsonl_iter c" "jfile_ok c" "storable id c"
  for sha c
proof
  fix f :: jfile
  assume "jfile_ok c f"
  then show "\<exists>rows. jsonl_iter c None f = map Inr rows" by (auto simp: jsonl_iter_rows)
next
  fix f rows t
  assume "jfile_ok c f" "jsonl_iter c None f = map Inr rows"
  then show "jsonl_iter c (Some t) f = map Inr (of_tenant t rows)" by (simp add: jsonl_iter_rows)
next
  fix f ctx r rows f' h
  assume "jfile_ok c f" "storable id c (stamp ctx r)" "jsonl_iter c None f = map Inr rows"
    "jsonl_append sha c ctx r f = Inr (f', h)"
  from jsonl_append_row [OF this]
  show "jfile_ok c f' \<and> (\<exists>r'. jsonl_iter c None f' = map Inr (rows @ [(r', h)]) \<and>
      tenant_of r' = tenant_of (stamp ctx r) \<and> canonical_json c r' = canonical_json c (stamp ctx r) \<and>
      chain sha (last_hash (tenant_of r') rows) (canonical_json c r') = Inr h)" .
qed

subsection \<open>Tables\<close>

definition table_ok :: "codec \<Rightarrow> ('q \<Rightarrow> string) \<Rightarrow> ('q \<Rightarrow> string) \<Rightarrow> 'q list \<Rightarrow> bool" where
  "table_ok c ten pay qs \<longleftrightarrow> list_all (\<lambda>q. reads_back c (ten q) (pay q)) qs"

definition table_row :: "codec \<Rightarrow> ('q \<Rightarrow> string) \<Rightarrow> ('q \<Rightarrow> string) \<Rightarrow> 'q \<Rightarrow> row list" where
  "table_row c pay hsh q = (case parse_record c (pay q) of Inl e \<Rightarrow> [] | Inr r \<Rightarrow> [(r, hsh q)])"

definition table_rows :: "codec \<Rightarrow> ('q \<Rightarrow> string) \<Rightarrow> ('q \<Rightarrow> string) \<Rightarrow> 'q list \<Rightarrow> row list" where
  "table_rows c pay hsh qs = concat (map (table_row c pay hsh) qs)"

lemma reads_backD: "reads_back c t p \<Longrightarrow> \<exists>r. parse_record c p = Inr r \<and> tenant_of r = t"
  by (cases "parse_record c p") (simp_all add: reads_back_def)

lemma table_iter:
  "table_ok c ten pay qs \<Longrightarrow>
   parse_rows c (map (\<lambda>q. (pay q, hsh q)) (filter (\<lambda>q. active = None \<or> active = Some (ten q)) qs)) =
     map Inr (case active of None \<Rightarrow> table_rows c pay hsh qs | Some t \<Rightarrow> of_tenant t (table_rows c pay hsh qs))"
proof (induction qs)
  case Nil
  then show ?case by (cases active) (simp_all add: table_rows_def of_tenant_def)
next
  case (Cons q qs)
  from Cons.prems obtain r where "parse_record c (pay q) = Inr r" "tenant_of r = ten q"
    using reads_backD by (fastforce simp: table_ok_def)
  with Cons show ?case
    by (cases active) (auto simp: table_ok_def table_rows_def table_row_def of_tenant_def)
qed

lemma table_snoc:
  "parse_record c (pay q) = Inr r \<Longrightarrow> table_rows c pay hsh (qs @ [q]) = table_rows c pay hsh qs @ [(r, hsh q)]"
  by (simp add: table_rows_def table_row_def)

lemma table_last:
  "table_ok c ten pay qs \<Longrightarrow>
   (case rev (filter (\<lambda>q. ten q = t) qs) of [] \<Rightarrow> ZERO_HASH_HEX | q # _ \<Rightarrow> hsh q) =
     last_hash t (table_rows c pay hsh qs)"
proof (induction qs rule: rev_induct)
  case Nil
  then show ?case by (simp add: table_rows_def)
next
  case (snoc q qs)
  from snoc.prems have ok: "table_ok c ten pay qs" and "reads_back c (ten q) (pay q)"
    by (simp_all add: table_ok_def)
  then obtain r where r: "parse_record c (pay q) = Inr r" "tenant_of r = ten q"
    using reads_backD by blast
  show ?case using snoc.IH [OF ok] r by (simp add: table_snoc)
qed

lemma sqlite_last:
  "table_ok c sq_tenant sq_payload qs \<Longrightarrow>
   sqlite_last_hash t qs = last_hash t (table_rows c sq_payload (\<lambda>q. to_hex (sq_hash q)) qs)"
  using table_last [of c sq_tenant sq_payload qs, where t = t and hsh = "\<lambda>q. to_hex (sq_hash q)"]
  by (simp add: sqlite_last_hash_def)

lemma pg_last:
  "table_ok c pg_tenant pg_record qs \<Longrightarrow> pg_last_hash t qs = last_hash t (table_rows c pg_record pg_hash qs)"
  using table_last [of c pg_tenant pg_record qs, where t = t and hsh = pg_hash] by (simp add: pg_last_hash_def)

lemma sqlite_iter_rows:
  "table_ok c sq_tenant sq_payload qs \<Longrightarrow> sqlite_iter c active qs =
     map Inr (case active of None \<Rightarrow> table_rows c sq_payload (\<lambda>q. to_hex (sq_hash q)) qs
              | Some t \<Rightarrow> of_tenant t (table_rows c sq_payload (\<lambda>q. to_hex (sq_hash q)) qs))"
  unfolding sqlite_iter_def by (rule table_iter)

lemma pg_iter_rows:
  "table_ok c pg_tenant pg_record qs \<Longrightarrow> pg_iter c active qs =
     map Inr (case active of None \<Rightarrow> table_rows c pg_record pg_hash qs
              | Some t \<Rightarrow> of_tenant t (table_rows c pg_record pg_hash qs))"
  unfolding pg_iter_def by (rule table_iter)

text \<open>What a column stores as bytes comes back as the same lower-case hex.\<close>

lemma hex_char_digit: "lower_hex c \<Longrightarrow> hex_digit c = Inr x \<Longrightarrow> hex_char x = c"
proof -
  assume l: "lower_hex c" and d: "hex_digit c = Inr x"
  define n where "n = (of_char c :: nat)"
  have "(if x < 10 then 48 + x else 87 + x) = n"
    using l d unfolding lower_hex_def hex_digit_def Let_def n_def [symmetric]
    by (auto split: if_splits)
  then show ?thesis by (simp add: hex_char_def n_def)
qed

lemma to_hex_Cons: "to_hex (b # bs) = hex_char (b div 16) # hex_char (b mod 16) # to_hex bs"
  by (simp add: to_hex_def)

lemma to_hex_from_hex: "list_all lower_hex h \<Longrightarrow> from_hex h = Inr bs \<Longrightarrow> to_hex bs = h"
proof (induction h arbitrary: bs rule: induct_list012)
  case 1
  then show ?case by (simp add: to_hex_def)
next
  case (2 x)
  then show ?case by simp
next
  case (3 a b cs)
  from 3(4) obtain x y bs' where x: "hex_digit a = Inr x" "hex_digit b = Inr y"
    "from_hex cs = Inr bs'" "bs = (16 * x + y) # bs'" unfolding from_hex_Cons2 by blast
  have l: "lower_hex a" "lower_hex b" "list_all lower_hex cs" using 3(3) by simp_all
  have "y < 16" using hex_digit_lower [OF l(2)] x(2) by simp
  then have "(16 * x + y) div 16 = x" "(16 * x + y) mod 16 = y" by simp_all
  then show ?case
    using x(4) hex_char_digit [OF l(1) x(1)] hex_char_digit [OF l(2) x(2)] 3(1) [OF l(3) x(3)]
    by (simp add: to_hex_Cons)
qed

lemma chain_digest: "sha_ok sha \<Longrightarrow> chain sha p x = Inr h \<Longrightarrow> digest_ok h"
  by (auto simp: chain_def bindE_eq_Inr sha_ok_def)

lemma digest_roundtrip:
  "digest_ok h \<Longrightarrow> \<exists>bs. from_hex h = Inr bs \<and> to_hex bs = h"
  using from_hex_total [of h] to_hex_from_hex [of h] by (auto simp: digest_ok_def)

lemma sqlite_append_row:
  assumes ok: "table_ok c sq_tenant sq_payload qs" and st: "storable id c (stamp ctx r)"
    and rows: "sqlite_iter c None qs = map Inr rows" and sha: "sha_ok sha"
    and app: "sqlite_append sha c ctx r qs = Inr (qs', h)"
  shows "table_ok c sq_tenant sq_payload qs' \<and> (\<exists>r'. sqlite_iter c None qs' = map Inr (rows @ [(r', h)]) \<and>
      tenant_of r' = tenant_of (stamp ctx r) \<and> canonical_json c r' = canonical_json c (stamp ctx r) \<and>
      chain sha (last_hash (tenant_of r') rows) (canonical_json c r') = Inr h)"
proof -
  define r1 where "r1 = stamp ctx r"
  let ?hsh = "\<lambda>q. to_hex (sq_hash q)"
  have it: "table_ok c sq_tenant sq_payload q \<Longrightarrow>
      sqlite_iter c None q = map Inr (table_rows c sq_payload ?hsh q)" for q
    by (simp add: sqlite_iter_rows)
  have rows': "table_rows c sq_payload ?hsh qs = rows" using rows it [OF ok] by simp
  from app obtain bs where ch: "chain sha (last_hash (tenant_of r1) rows) (canonical_json c r1) = Inr h"
    and bs: "from_hex h = Inr bs"
    and qs': "qs' = qs @ [\<lparr>sq_decision_id = dr_decision_id r1, sq_tenant = tenant_of r1,
        sq_payload = canonical_json c r1, sq_hash = bs\<rparr>]"
    unfolding sqlite_append_def Let_def bindE_eq_Inr sqlite_last [OF ok] rows' r1_def [symmetric]
    by (auto split: if_splits)
  have hx: "to_hex bs = h"
    using digest_roundtrip [OF chain_digest [OF sha ch]] bs by auto
  from storable_id [OF st] obtain r' where r': "parse_record c (canonical_json c r1) = Inr r'"
    "canonical_json c r' = canonical_json c r1" "tenant_of r' = tenant_of r1"
    unfolding r1_def by blast
  have ok': "table_ok c sq_tenant sq_payload qs'"
    using ok r' by (simp add: table_ok_def qs' reads_back_def)
  have "table_rows c sq_payload ?hsh qs' = rows @ [(r', h)]"
    using rows' r'(1) hx by (simp add: qs' table_snoc)
  then have "sqlite_iter c None qs' = map Inr (rows @ [(r', h)])" using it [OF ok'] by simp
  with ok' r'(2,3) ch show ?thesis unfolding r1_def [symmetric] by auto
qed

interpretation sqlite: evidence_backend sha c "sqlite_append sha c" "sqlite_iter c"
  "table_ok c sq_tenant sq_payload" "storable id c" for sha c
proof
  fix s :: "sq_row list"
  assume "table_ok c sq_tenant sq_payload s"
  then show "\<exists>rows. sqlite_iter c None s = map Inr rows"
    by (auto simp: sqlite_iter_rows)
next
  fix s rows t
  assume "table_ok c sq_tenant sq_payload s" "sqlite_iter c None s = map Inr rows"
  then show "sqlite_iter c (Some t) s = map Inr (of_tenant t rows)"
    by (simp add: sqlite_iter_rows)
qed (rule sqlite_append_row)

lemma storable_jsonb:
  "storable enc c r \<Longrightarrow> \<exists>r'. parse_record c (enc (canonical_json c r)) = Inr r' \<and>
     canonical_json c r' = canonical_json c r \<and> tenant_of r' = tenant_of r"
  by (auto simp: storable_def split: sum.splits)

lemma pg_append_row:
  assumes ok: "table_ok c pg_tenant pg_record qs" and st: "storable jsonb c (stamp ctx r)"
    and rows: "pg_iter c None qs = map Inr rows"
    and app: "pg_append jsonb sha c ctx r qs = Inr (qs', h)"
  shows "table_ok c pg_tenant pg_record qs' \<and> (\<exists>r'. pg_iter c None qs' = map Inr (rows @ [(r', h)]) \<and>
      tenant_of r' = tenant_of (stamp ctx r) \<and> canonical_json c r' = canonical_json c (stamp ctx r) \<and>
      chain sha (last_hash (tenant_of r') rows) (canonical_json c r') = Inr h)"
proof -
  define r1 where "r1 = stamp ctx r"
  have it: "table_ok c pg_tenant pg_record q \<Longrightarrow> pg_iter c None q = map Inr (table_rows c pg_record pg_hash q)" for q
    by (simp add: pg_iter_rows)
  have rows': "table_rows c pg_record pg_hash qs = rows" using rows it [OF ok] by simp
  from app have ch: "chain sha (last_hash (tenant_of r1) rows) (canonical_json c r1) = Inr h"
    and qs': "qs' = qs @ [\<lparr>pg_tenant = tenant_of r1, pg_ts = dr_timestamp r1,
        pg_decision_id = dr_decision_id r1, pg_record = jsonb (canonical_json c r1), pg_hash = h\<rparr>]"
    unfolding pg_append_def Let_def bindE_eq_Inr pg_last [OF ok] rows' r1_def [symmetric] by auto
  from storable_jsonb [OF st] obtain r' where r': "parse_record c (jsonb (canonical_json c r1)) = Inr r'"
    "canonical_json c r' = canonical_json c r1" "tenant_of r' = tenant_of r1"
    unfolding r1_def by blast
  have ok': "table_ok c pg_tenant pg_record qs'"
    using ok r' by (simp add: table_ok_def qs' reads_back_def)
  have "table_rows c pg_record pg_hash qs' = rows @ [(r', h)]"
    using rows' r'(1) by (simp add: qs' table_snoc)
  then have "pg_iter c None qs' = map Inr (rows @ [(r', h)])" using it [OF ok'] by simp
  with ok' r'(2,3) ch show ?thesis unfolding r1_def [symmetric] by auto
qed

interpretation postgres: evidence_backend sha c "pg_append jsonb sha c" "pg_iter c"
  "table_ok c pg_tenant pg_record" "storable jsonb c" for sha c jsonb
proof
  fix s :: "pg_row list"
  assume "table_ok c pg_tenant pg_record s"
  then show "\<exists>rows. pg_iter c None s = map Inr rows"
    by (auto simp: pg_iter_rows)
next
  fix s rows t
  assume "table_ok c pg_tenant pg_record s" "pg_iter c None s = map Inr rows"
  then show "pg_iter c (Some t) s = map Inr (of_tenant t rows)"
    by (simp add: pg_iter_rows)
qed (rule pg_append_row)

end
