(* ===== verification/Signing.thy ===== *)
theory Signing
  imports Certificate EvidenceBackends
begin

text \<open>
  Signatures: the Ed25519 signing of certificates (\<open>shield/signing.py\<close>), the provenance of model
  artefacts (\<open>provenance/signing.py\<close>) and the in-memory key store that signs them
  (\<open>security/hsm.py\<close>). The signature schemes come from the \<open>cryptography\<close> package and are parameters, as are
  SHA-256 and JSON serialisation; byte strings are lists of numbers.
\<close>

section \<open>\<open>bytes.fromhex\<close>\<close>

text \<open>White space between two bytes is skipped.\<close>

definition hex_space :: "char \<Rightarrow> bool" where
  "hex_space c \<longleftrightarrow> (of_char c :: nat) \<in> {9, 10, 11, 12, 13, 32}"

fun bytes_fromhex :: "string \<Rightarrow> nat list res" where
  "bytes_fromhex [] = Inr []"
| "bytes_fromhex [c] = (if hex_space c then Inr [] else Inl ValueError)"
| "bytes_fromhex (a # b # cs) =
     (if hex_space a then bytes_fromhex (b # cs)
      else bindE (hex_digit a) (\<lambda>x. bindE (hex_digit b) (\<lambda>y.
           bindE (bytes_fromhex cs) (\<lambda>bs. Inr ((16 * x + y) # bs)))))"

section \<open>Certificate signatures\<close>

record ('k, 'p) ed25519 =
  ed_public :: "'k \<Rightarrow> 'p"
  ed_sign :: "'k \<Rightarrow> nat list \<Rightarrow> nat list"
  ed_verify :: "'p \<Rightarrow> nat list \<Rightarrow> nat list \<Rightarrow> bool"
  ed_raw :: "'p \<Rightarrow> nat list"

text \<open>
  The dictionary of a certificate without the two signature fields depends on everything else; its
  sorted compact JSON is the parameter \<open>ser\<close>, which may raise on a value JSON has no form for.
\<close>

type_synonym cert_serialiser = "certificate \<Rightarrow> string res"

definition unsigned_part :: "certificate \<Rightarrow> certificate" where
  "unsigned_part c = c\<lparr>cert_signature := None, cert_signing_key_fingerprint := None\<rparr>"

definition canonical_certificate_bytes :: "cert_serialiser \<Rightarrow> certificate \<Rightarrow> nat list res" where
  "canonical_certificate_bytes ser c = bindE (ser (unsigned_part c)) (\<lambda>s. Inr (utf8 s))"

definition key_fingerprint :: "sha \<Rightarrow> ('k, 'p) ed25519 \<Rightarrow> 'p \<Rightarrow> string" where
  "key_fingerprint sha ed pub = sha (ed_raw ed pub)"

definition sign_certificate :: "('k, 'p) ed25519 \<Rightarrow> cert_serialiser \<Rightarrow> certificate \<Rightarrow> 'k \<Rightarrow> string res" where
  "sign_certificate ed ser c key =
     bindE (canonical_certificate_bytes ser c) (\<lambda>bs. Inr (to_hex (ed_sign ed key bs)))"

definition signed_certificate ::
  "sha \<Rightarrow> ('k, 'p) ed25519 \<Rightarrow> cert_serialiser \<Rightarrow> certificate \<Rightarrow> 'k \<Rightarrow> certificate res" where
  "signed_certificate sha ed ser c key =
     bindE (sign_certificate ed ser c key) (\<lambda>s.
       Inr (c\<lparr>cert_signature := Some s,
              cert_signing_key_fingerprint := Some (key_fingerprint sha ed (ed_public ed key))\<rparr>))"

definition verify_certificate :: "('k, 'p) ed25519 \<Rightarrow> cert_serialiser \<Rightarrow> certificate \<Rightarrow> 'p \<Rightarrow> bool res" where
  "verify_certificate ed ser c pub =
     (case cert_signature c of
        None \<Rightarrow> Inr False
      | Some s \<Rightarrow>
          if s = [] then Inr False
          else (case bytes_fromhex s of
                  Inl _ \<Rightarrow> Inr False
                | Inr sig \<Rightarrow> bindE (canonical_certificate_bytes ser c) (\<lambda>bs. Inr (ed_verify ed pub sig bs))))"

text \<open>The key file: generated once, never overwritten; loading refuses anything but an Ed25519 key.\<close>

type_synonym key_files = "string \<rightharpoonup> nat list"

definition generate_signing_key :: "nat list \<Rightarrow> string \<Rightarrow> key_files \<Rightarrow> key_files res" where
  "generate_signing_key pem path fs =
     (if fs path \<noteq> None then Inl (OtherExn ''FileExistsError'') else Inr (fs(path \<mapsto> pem)))"

datatype 'k pem_key = Ed25519Key 'k | OtherKey

definition load_signing_key :: "(nat list \<Rightarrow> 'k pem_key res) \<Rightarrow> string \<Rightarrow> key_files \<Rightarrow> 'k res" where
  "load_signing_key parse path fs =
     (case fs path of
        None \<Rightarrow> Inl RuntimeError
      | Some raw \<Rightarrow> bindE (parse raw) (\<lambda>k. case k of Ed25519Key key \<Rightarrow> Inr key | OtherKey \<Rightarrow> Inl ValueError))"

section \<open>The in-memory key store\<close>

text \<open>
  RSA of the \<open>cryptography\<close> package. A handle is the text \<open>pub:<label>\<close> or \<open>priv:<label>\<close>. Padding
  is randomised: the nonce is an argument. \<open>rsa_decrypt\<close> may raise.
\<close>

record ('k, 'p) rsa =
  rsa_public :: "'k \<Rightarrow> 'p"
  rsa_sign :: "nat \<Rightarrow> 'k \<Rightarrow> nat list \<Rightarrow> nat list"
  rsa_verify :: "'p \<Rightarrow> nat list \<Rightarrow> nat list \<Rightarrow> bool"
  rsa_encrypt :: "nat \<Rightarrow> 'p \<Rightarrow> nat list \<Rightarrow> nat list res"
  rsa_decrypt :: "'k \<Rightarrow> nat list \<Rightarrow> nat list res"
  rsa_der :: "'p \<Rightarrow> nat list"
  rsa_load_der :: "nat list \<Rightarrow> 'p res"

type_synonym 'k hsm = "(string \<times> 'k) list"

definition pub_handle :: "string \<Rightarrow> string" where
  "pub_handle label = ''pub:'' @ label"

definition priv_handle :: "string \<Rightarrow> string" where
  "priv_handle label = ''priv:'' @ label"

definition generate_keypair :: "'k \<Rightarrow> string \<Rightarrow> 'k hsm \<Rightarrow> ('k hsm \<times> string \<times> string) res" where
  "generate_keypair fresh label keys =
     (if map_of keys label \<noteq> None then Inl ValueError
      else Inr (dict_set label fresh keys, pub_handle label, priv_handle label))"

text \<open>\<open>split(":", 1)\<close> into the side and the label; without a colon the unpacking raises.\<close>

definition hsm_resolve :: "string \<Rightarrow> string \<Rightarrow> 'k hsm \<Rightarrow> 'k res" where
  "hsm_resolve handle want keys =
     (let side = takeWhile (\<lambda>c. c \<noteq> CHR '':'') handle; rest = dropWhile (\<lambda>c. c \<noteq> CHR '':'') handle
      in case rest of
           [] \<Rightarrow> Inl ValueError
         | _ # label \<Rightarrow>
             if side \<noteq> want then Inl ValueError
             else case map_of keys label of None \<Rightarrow> Inl KeyError | Some k \<Rightarrow> Inr k)"

definition hsm_sign :: "('k, 'p) rsa \<Rightarrow> nat \<Rightarrow> string \<Rightarrow> nat list \<Rightarrow> 'k hsm \<Rightarrow> nat list res" where
  "hsm_sign rsa nonce handle msg keys =
     bindE (hsm_resolve handle ''priv'' keys) (\<lambda>k. Inr (rsa_sign rsa nonce k msg))"

definition hsm_verify :: "('k, 'p) rsa \<Rightarrow> string \<Rightarrow> nat list \<Rightarrow> nat list \<Rightarrow> 'k hsm \<Rightarrow> bool res" where
  "hsm_verify rsa handle msg sig keys =
     bindE (hsm_resolve handle ''pub'' keys) (\<lambda>k. Inr (rsa_verify rsa (rsa_public rsa k) sig msg))"

definition hsm_encrypt :: "('k, 'p) rsa \<Rightarrow> nat \<Rightarrow> string \<Rightarrow> nat list \<Rightarrow> 'k hsm \<Rightarrow> nat list res" where
  "hsm_encrypt rsa nonce handle msg keys =
     bindE (hsm_resolve handle ''pub'' keys) (\<lambda>k. rsa_encrypt rsa nonce (rsa_public rsa k) msg)"

definition hsm_decrypt :: "('k, 'p) rsa \<Rightarrow> string \<Rightarrow> nat list \<Rightarrow> 'k hsm \<Rightarrow> nat list res" where
  "hsm_decrypt rsa handle ct keys = bindE (hsm_resolve handle ''priv'' keys) (\<lambda>k. rsa_decrypt rsa k ct)"

definition export_public :: "('k, 'p) rsa \<Rightarrow> string \<Rightarrow> 'k hsm \<Rightarrow> nat list res" where
  "export_public rsa handle keys =
     bindE (hsm_resolve handle ''pub'' keys) (\<lambda>k. Inr (rsa_der rsa (rsa_public rsa k)))"

definition list_keys :: "'k hsm \<Rightarrow> string list" where
  "list_keys keys = sorted_list_of_set (set (map fst keys))"

section \<open>Model provenance\<close>

record model_provenance =
  weights_sha256 :: string
  manifest_sha256 :: string
  trainer_id :: string
  sig_alg :: string
  signature_hex :: string
  public_key_der_hex :: string
  prov_created_at :: string

definition manifest_digest :: "sha \<Rightarrow> (pyval \<Rightarrow> string res) \<Rightarrow> pyval \<Rightarrow> string res" where
  "manifest_digest sha dumps manifest = bindE (dumps manifest) (\<lambda>s. Inr (sha (utf8 s)))"

definition signing_payload :: "string \<Rightarrow> string \<Rightarrow> string \<Rightarrow> nat list" where
  "signing_payload wsha msha trainer = utf8 (''horizon-prov-v1|'' @ wsha @ ''|'' @ msha @ ''|'' @ trainer)"

definition sign_model ::
  "sha \<Rightarrow> (pyval \<Rightarrow> string res) \<Rightarrow> ('k, 'p) rsa \<Rightarrow> nat \<Rightarrow> 'k \<Rightarrow> string \<Rightarrow>
   nat list \<Rightarrow> string \<Rightarrow> pyval \<Rightarrow> string \<Rightarrow> 'k hsm \<Rightarrow> ('k hsm \<times> model_provenance) res" where
  "sign_model sha dumps rsa nonce fresh now weights trainer manifest label keys =
     bindE (manifest_digest sha dumps manifest) (\<lambda>msha.
     bindE (if label \<notin> set (list_keys keys) then generate_keypair fresh label keys
            else Inr (keys, pub_handle label, priv_handle label)) (\<lambda>(keys', pub, priv).
     bindE (hsm_sign rsa nonce priv (signing_payload (sha weights) msha trainer) keys') (\<lambda>sig.
     bindE (export_public rsa pub keys') (\<lambda>der.
       Inr (keys', \<lparr>weights_sha256 = sha weights, manifest_sha256 = msha, trainer_id = trainer,
                    sig_alg = ''RSA-PSS-SHA256'', signature_hex = to_hex sig,
                    public_key_der_hex = to_hex der, prov_created_at = now\<rparr>)))))"

text \<open>The signature's own hex is decoded inside the \<open>try\<close>, the key's outside it.\<close>

definition verify_model ::
  "sha \<Rightarrow> ('k, 'p) rsa \<Rightarrow> nat list \<Rightarrow> model_provenance \<Rightarrow> nat list option \<Rightarrow> bool res" where
  "verify_model sha rsa weights prov trusted =
     (if sha weights \<noteq> weights_sha256 prov then Inr False
      else bindE (bytes_fromhex (public_key_der_hex prov)) (\<lambda>der.
             if trusted \<noteq> None \<and> trusted \<noteq> Some der then Inr False
             else bindE (rsa_load_der rsa der) (\<lambda>pub.
                    Inr (case bytes_fromhex (signature_hex prov) of
                           Inl _ \<Rightarrow> False
                         | Inr sig \<Rightarrow> rsa_verify rsa pub sig
                             (signing_payload (weights_sha256 prov) (manifest_sha256 prov) (trainer_id prov))))))"

definition verify_or_raise ::
  "sha \<Rightarrow> ('k, 'p) rsa \<Rightarrow> nat list \<Rightarrow> model_provenance \<Rightarrow> nat list option \<Rightarrow> bool res" where
  "verify_or_raise sha rsa weights prov trusted =
     bindE (verify_model sha rsa weights prov trusted) (\<lambda>ok.
       if ok then Inr True else Inl (OtherExn ''ProvenanceError''))"

section \<open>Hex round trips\<close>

definition octets :: "nat list \<Rightarrow> bool" where
  "octets bs \<longleftrightarrow> list_all (\<lambda>b. b < 256) bs"

lemma hex_char_code: "n < 16 \<Longrightarrow> (of_char (hex_char n) :: nat) = (if n < 10 then 48 + n else 87 + n)"
  by (simp add: hex_char_def of_char_of)

lemma hex_digit_char: "n < 16 \<Longrightarrow> hex_digit (hex_char n) = Inr n"
  by (simp add: hex_digit_def hex_char_code Let_def)

lemma hex_space_char: "n < 16 \<Longrightarrow> \<not> hex_space (hex_char n)"
  by (simp add: hex_space_def hex_char_code)

lemma fromhex_to_hex: "octets bs \<Longrightarrow> bytes_fromhex (to_hex bs) = Inr bs"
proof (induction bs)
  case Nil
  then show ?case by (simp add: to_hex_def)
next
  case (Cons b bs)
  then have "b div 16 < 16" "b mod 16 < 16" "octets bs" by (auto simp: octets_def)
  then show ?case using Cons.IH by (simp add: to_hex_Cons hex_digit_char hex_space_char)
qed

lemma to_hex_Nil: "to_hex bs = [] \<longleftrightarrow> bs = []"
  by (cases bs) (simp_all add: to_hex_def)

section \<open>Certificates\<close>

text \<open>What the scheme promises: a signature is a non-empty byte string, and verifies.\<close>

definition ed25519_ok :: "('k, 'p) ed25519 \<Rightarrow> bool" where
  "ed25519_ok ed \<longleftrightarrow>
     (\<forall>k m. octets (ed_sign ed k m) \<and> ed_sign ed k m \<noteq> [] \<and>
            ed_verify ed (ed_public ed k) (ed_sign ed k m) m)"

lemma unsigned_signed:
  "signed_certificate sha ed ser c key = Inr c' \<Longrightarrow> unsigned_part c' = unsigned_part c"
  by (auto simp: signed_certificate_def unsigned_part_def bindE_eq_Inr)

lemma signed_certificate_verifies:
  assumes "ed25519_ok ed" "signed_certificate sha ed ser c key = Inr c'"
  shows "verify_certificate ed ser c' (ed_public ed key) = Inr True"
proof -
  obtain bs where bs: "canonical_certificate_bytes ser c = Inr bs"
    "cert_signature c' = Some (to_hex (ed_sign ed key bs))"
    using assms(2) by (auto simp: signed_certificate_def sign_certificate_def bindE_eq_Inr)
  have canon: "canonical_certificate_bytes ser c' = Inr bs"
    using bs(1) unsigned_signed [OF assms(2)] by (simp add: canonical_certificate_bytes_def)
  have sig: "octets (ed_sign ed key bs)" "ed_sign ed key bs \<noteq> []"
    "ed_verify ed (ed_public ed key) (ed_sign ed key bs) bs"
    using assms(1) unfolding ed25519_ok_def by simp_all
  then show ?thesis
    by (simp add: verify_certificate_def bs(2) canon fromhex_to_hex to_hex_Nil)
qed

text \<open>Signing keeps everything the guards and the audit read of a certificate.\<close>

lemma signed_certificate_sel:
  assumes "signed_certificate sha ed ser c key = Inr c'"
  shows "cert_safe c' = cert_safe c" "cert_emit_blocked c' = cert_emit_blocked c"
    "cert_corrections c' = cert_corrections c" "cert_violated_ids c' = cert_violated_ids c"
    "cert_projected c' = cert_projected c" "cert_action_safe c' = cert_action_safe c"
  using assms by (auto simp: signed_certificate_def bindE_eq_Inr)

text \<open>What a verified certificate commits to, with a serialisation that loses nothing.\<close>

definition lossless :: "('a \<Rightarrow> string res) \<Rightarrow> bool" where
  "lossless ser \<longleftrightarrow> (\<forall>x y s. ser x = Inr s \<longrightarrow> ser y = Inr s \<longrightarrow> x = y)"


section \<open>Provenance\<close>

lemma bar_split:
  assumes "CHR ''|'' \<notin> set m" "CHR ''|'' \<notin> set t" "m @ ''|'' @ t = m' @ ''|'' @ t'"
  shows "m = m' \<and> t = t'"
proof -
  have "count_list (m @ ''|'' @ t) (CHR ''|'') = 1"
    using assms(1,2) by (simp add: count_list_0_iff)
  then have "count_list (m' @ ''|'' @ t') (CHR ''|'') = 1" by (simp only: assms(3))
  then have "count_list m' (CHR ''|'') = 0" by simp
  then have "CHR ''|'' \<notin> set m'" by (simp add: count_list_0_iff)
  then have "\<forall>x \<in> set m'. x \<noteq> CHR ''|''" by blast
  then have "takeWhile (\<lambda>c. c \<noteq> CHR ''|'') (m' @ ''|'' @ t') = m'"
    by (simp add: takeWhile_append2)
  moreover have "\<forall>x \<in> set m. x \<noteq> CHR ''|''" using assms(1) by blast
  then have "takeWhile (\<lambda>c. c \<noteq> CHR ''|'') (m @ ''|'' @ t) = m"
    by (simp add: takeWhile_append2)
  ultimately have "m = m'" using assms(3) by simp
  then show ?thesis using assms(3) by simp
qed

lemma digest_no_bar: "digest_ok h \<Longrightarrow> CHR ''|'' \<notin> set h"
  by (auto simp: digest_ok_def list_all_iff lower_hex_def Let_def)

lemma payload_binds:
  assumes "signing_payload w m t = signing_payload w' m' t'"
    and "digest_ok w" "digest_ok w'" "digest_ok m" "CHR ''|'' \<notin> set t"
  shows "w = w' \<and> m = m' \<and> t = t'"
proof -
  have "w @ ''|'' @ m @ ''|'' @ t = w' @ ''|'' @ m' @ ''|'' @ t'"
    using assms(1) by (simp add: signing_payload_def utf8_inj)
  moreover have "length w = length w'" using assms(2,3) by (simp add: digest_ok_def)
  ultimately have "w = w'" "m @ ''|'' @ t = m' @ ''|'' @ t'" by simp_all
  with bar_split digest_no_bar assms(4,5) show ?thesis by blast
qed

text \<open>What RSA-PSS and the DER codec promise.\<close>

definition rsa_ok :: "('k, 'p) rsa \<Rightarrow> bool" where
  "rsa_ok rsa \<longleftrightarrow>
     (\<forall>n k m. octets (rsa_sign rsa n k m) \<and> rsa_verify rsa (rsa_public rsa k) (rsa_sign rsa n k m) m) \<and>
     (\<forall>p. octets (rsa_der rsa p) \<and> rsa_load_der rsa (rsa_der rsa p) = Inr p)"

lemma resolve_handles:
  "hsm_resolve (priv_handle l) ''priv'' keys = (case map_of keys l of None \<Rightarrow> Inl KeyError | Some k \<Rightarrow> Inr k)"
  "hsm_resolve (pub_handle l) ''pub'' keys = (case map_of keys l of None \<Rightarrow> Inl KeyError | Some k \<Rightarrow> Inr k)"
  "hsm_resolve (pub_handle l) ''priv'' keys = Inl ValueError"
  "hsm_resolve (priv_handle l) ''pub'' keys = Inl ValueError"
  by (simp_all add: hsm_resolve_def pub_handle_def priv_handle_def Let_def)

lemma hsm_sign_verify:
  "rsa_ok rsa \<Longrightarrow> hsm_sign rsa n (priv_handle l) m keys = Inr sig \<Longrightarrow>
   hsm_verify rsa (pub_handle l) m sig keys = Inr True"
  by (auto simp: hsm_sign_def hsm_verify_def resolve_handles rsa_ok_def split: option.splits)

text \<open>The private key never leaves through its public handle, and a taken label is never overwritten.\<close>

lemma keypair_once: "map_of keys l \<noteq> None \<Longrightarrow> generate_keypair fresh l keys = Inl ValueError"
  by (simp add: generate_keypair_def)

lemma keys_kept:
  "generate_keypair fresh l keys = Inr (keys', h) \<Longrightarrow>
   map_of keys' l = Some fresh \<and> (\<forall>l'. l' \<noteq> l \<longrightarrow> map_of keys' l' = map_of keys l')"
  by (cases h) (auto simp: generate_keypair_def map_of_dict_set split: if_splits)

lemma list_keys_iff: "l \<in> set (list_keys keys) \<longleftrightarrow> map_of keys l \<noteq> None"
  by (simp add: list_keys_def map_of_eq_None_iff)

text \<open>The record a signing produces, and the key it stands under.\<close>

lemma sign_model_result:
  assumes "sign_model sha dumps rsa nonce fresh now weights trainer manifest label keys = Inr (keys', p)"
  shows "\<exists>k msha. map_of keys' label = Some k \<and> manifest_digest sha dumps manifest = Inr msha \<and>
    weights_sha256 p = sha weights \<and> manifest_sha256 p = msha \<and> trainer_id p = trainer \<and>
    signature_hex p = to_hex (rsa_sign rsa nonce k (signing_payload (sha weights) msha trainer)) \<and>
    public_key_der_hex p = to_hex (rsa_der rsa (rsa_public rsa k))"
  using assms
  by (fastforce simp: sign_model_def bindE_eq_Inr list_keys_iff generate_keypair_def hsm_sign_def
      export_public_def resolve_handles split: if_splits option.splits)

text \<open>Verification looks at the payload only: another split of the same payload verifies as well.\<close>

lemma verify_resplit:
  assumes "rsa_ok rsa"
    and "sign_model sha dumps rsa nonce fresh now weights trainer manifest label keys = Inr (keys', p)"
    and "export_public rsa (pub_handle label) keys' = Inr der"
    and "signing_payload (sha weights) m t = signing_payload (sha weights) (manifest_sha256 p) trainer"
  shows "verify_model sha rsa weights (p\<lparr>manifest_sha256 := m, trainer_id := t\<rparr>) (Some der) = Inr True"
proof -
  from sign_model_result [OF assms(2)] obtain k where k: "map_of keys' label = Some k"
    "weights_sha256 p = sha weights" "trainer_id p = trainer"
    "signature_hex p = to_hex (rsa_sign rsa nonce k (signing_payload (sha weights) (manifest_sha256 p) trainer))"
    "public_key_der_hex p = to_hex (rsa_der rsa (rsa_public rsa k))" by blast
  have "der = rsa_der rsa (rsa_public rsa k)"
    using assms(3) k(1) by (simp add: export_public_def resolve_handles)
  then show ?thesis
    using assms(1,4) k(2-5) by (simp add: verify_model_def rsa_ok_def fromhex_to_hex)
qed

text \<open>
  A verified model is a released model: pinned to a trusted key, with a signature that key never
  gave to anything but the payload of a release, and trainer names free of the separator, a provenance
  record that verifies names the manifest and the trainer of a release with the very same weights digest.
\<close>

theorem provenance_binds:
  assumes "sha_ok sha"
    and "\<And>pub sig m. rsa_load_der rsa der = Inr pub \<Longrightarrow> bytes_fromhex (signature_hex p) = Inr sig \<Longrightarrow>
           rsa_verify rsa pub sig m \<Longrightarrow> \<exists>(w, ms, t) \<in> set released. m = signing_payload (sha w) ms t"
    and "\<forall>(w, ms, t) \<in> set released. digest_ok ms \<and> CHR ''|'' \<notin> set t"
    and "verify_model sha rsa weights p (Some der) = Inr True"
  shows "\<exists>(w, ms, t) \<in> set released. sha w = sha weights \<and> ms = manifest_sha256 p \<and> t = trainer_id p"
proof -
  obtain pub sig where "rsa_load_der rsa der = Inr pub" and w: "weights_sha256 p = sha weights"
    and v: "rsa_verify rsa pub sig (signing_payload (weights_sha256 p) (manifest_sha256 p) (trainer_id p))"
    and sig: "bytes_fromhex (signature_hex p) = Inr sig"
    using assms(4)
    by (cases "bytes_fromhex (signature_hex p)") (auto simp: verify_model_def bindE_eq_Inr split: if_splits)
  from assms(2) [OF this(1) sig v] obtain w' ms t where r: "(w', ms, t) \<in> set released"
    "signing_payload (sha w') ms t = signing_payload (sha weights) (manifest_sha256 p) (trainer_id p)"
    by (auto simp: w)
  have "digest_ok (sha w')" "digest_ok (sha weights)" using assms(1) by (simp_all add: sha_ok_def)
  with payload_binds [OF r(2)] r(1) assms(3) show ?thesis by force
qed

text \<open>
  The separator is not escaped: a record signed for the trainer \<open>a|b\<close> also verifies, under the
  same pinned key, as a record of the trainer \<open>b\<close>.
\<close>

theorem trainer_confusable:
  assumes "rsa_ok rsa"
    and "sign_model sha dumps rsa nonce fresh now weights (a @ ''|'' @ b) manifest label keys = Inr (keys', p)"
    and "export_public rsa (pub_handle label) keys' = Inr der"
  shows "verify_model sha rsa weights p (Some der) = Inr True \<and>
         verify_model sha rsa weights
           (p\<lparr>manifest_sha256 := manifest_sha256 p @ ''|'' @ a, trainer_id := b\<rparr>) (Some der) = Inr True"
proof -
  have "trainer_id p = a @ ''|'' @ b" using sign_model_result [OF assms(2)] by blast
  then have "p = p\<lparr>manifest_sha256 := manifest_sha256 p, trainer_id := a @ ''|'' @ b\<rparr>" by simp
  then have "verify_model sha rsa weights p (Some der) = Inr True"
    using verify_resplit [OF assms, of "manifest_sha256 p" "a @ ''|'' @ b"] by simp
  moreover have "signing_payload (sha weights) (manifest_sha256 p @ ''|'' @ a) b =
      signing_payload (sha weights) (manifest_sha256 p) (a @ ''|'' @ b)"
    by (simp add: signing_payload_def)
  ultimately show ?thesis using verify_resplit [OF assms] by simp
qed

section \<open>Witnesses\<close>

text \<open>Toy instances: one certificate that serialises, one payload that was signed.\<close>

definition toy_cert :: certificate where
  "toy_cert = \<lparr>cert_decision_id = ''d'', cert_issued_at = [], cert_loop_tier = [], cert_block = [],
     cert_action_proposed = Map.empty, cert_action_safe = Map.empty, cert_invariants = [],
     cert_corrections = [], cert_violated_ids = [], cert_projected = False, cert_fallback_used = False,
     cert_fallback_to = VNone, cert_safe = True, cert_emit_blocked = False, cert_rng_seed = None,
     cert_model_provenance = None, cert_signature = None, cert_signing_key_fingerprint = None\<rparr>"

definition toy_ser :: cert_serialiser where
  "toy_ser c = (if c = toy_cert then Inr ''c'' else Inl TypeError)"

definition toy_ed :: "(nat, nat) ed25519" where
  "toy_ed = \<lparr>ed_public = id, ed_sign = (\<lambda>k m. [if m = utf8 ''c'' then 1 else 0]),
     ed_verify = (\<lambda>p s m. s = [if m = utf8 ''c'' then 1 else 0]), ed_raw = (\<lambda>_. [])\<rparr>"

definition toy_rsa :: "nat list \<Rightarrow> (nat, nat) rsa" where
  "toy_rsa m0 = \<lparr>rsa_public = id, rsa_sign = (\<lambda>n k m. if m = m0 then [1] else [0]),
     rsa_verify = (\<lambda>p s m. s = (if m = m0 then [1] else [0])),
     rsa_encrypt = (\<lambda>n p m. Inr m), rsa_decrypt = (\<lambda>k c. Inr c), rsa_der = (\<lambda>p. replicate p 0),
     rsa_load_der = (\<lambda>bs. Inr (length bs))\<rparr>"

definition toy_sha :: sha where
  "toy_sha bs = replicate 64 (CHR ''0'')"

lemma toy_ed_ok: "ed25519_ok toy_ed"
  by (simp add: ed25519_ok_def toy_ed_def octets_def list_all_iff)

lemma toy_ser_lossless: "lossless toy_ser"
  by (auto simp: lossless_def toy_ser_def split: if_splits)

lemma toy_rsa_ok: "rsa_ok (toy_rsa m0)"
  by (simp add: rsa_ok_def toy_rsa_def octets_def list_all_iff)

lemma toy_sha_ok: "sha_ok toy_sha"
  by (simp add: sha_ok_def digest_ok_def toy_sha_def list_all_iff lower_hex_def Let_def)

definition toy_signed :: certificate where
  "toy_signed = toy_cert\<lparr>cert_signature := Some (''01'')\<rparr>"

lemma toy_hex: "bytes_fromhex ''01'' = Inr [1]" "bytes_fromhex ''00'' = Inr [0]"
  by (simp_all add: hex_space_def hex_digit_def Let_def)

declare bytes_fromhex.simps [simp del]

lemma toy_canon: "canonical_certificate_bytes toy_ser toy_cert = Inr (utf8 ''c'')"
  by (simp add: canonical_certificate_bytes_def unsigned_part_def toy_cert_def toy_ser_def)

lemma toy_issued:
  assumes "cert_signature toy_signed = Some s" "bytes_fromhex s = Inr sig" "ed_verify toy_ed (ed_public toy_ed 7) sig m"
  shows "\<exists>c \<in> set [toy_cert]. canonical_certificate_bytes toy_ser c = Inr m"
proof -
  have "s = ''01''" using assms(1) by (simp add: toy_signed_def)
  then have "sig = [1]" using assms(2) toy_hex(1) by simp
  then have "[1] = [if m = utf8 ''c'' then 1 else 0 :: nat]" using assms(3) unfolding toy_ed_def by simp
  then have "m = utf8 ''c''" by (cases "m = utf8 ''c''") auto
  then show ?thesis using toy_canon by simp
qed

lemma toy_signs: "\<exists>d. signed_certificate toy_sha toy_ed toy_ser toy_cert 7 = Inr d"
  using toy_canon by (simp add: signed_certificate_def sign_certificate_def)


definition toy_prov :: model_provenance where
  "toy_prov = \<lparr>weights_sha256 = toy_sha [], manifest_sha256 = toy_sha [], trainer_id = ''t'',
     sig_alg = ''RSA-PSS-SHA256'', signature_hex = ''01'', public_key_der_hex = ''00'', prov_created_at = []\<rparr>"

abbreviation toy_payload :: "nat list" where
  "toy_payload \<equiv> signing_payload (toy_sha []) (toy_sha []) ''t''"

lemma toy_rsa_verify: "rsa_verify (toy_rsa m0) p s m = (s = (if m = m0 then [1] else [0]))"
  by (simp add: toy_rsa_def)

lemma toy_released:
  assumes "rsa_load_der (toy_rsa toy_payload) [0] = Inr pub" "bytes_fromhex (signature_hex toy_prov) = Inr sig"
    "rsa_verify (toy_rsa toy_payload) pub sig m"
  shows "\<exists>(w, ms, t) \<in> set [([], toy_sha [], ''t'')]. m = signing_payload (toy_sha w) ms t"
proof -
  have "sig = [1]" using assms(2) toy_hex(1) by (simp add: toy_prov_def)
  then have "[1] = (if m = toy_payload then [1] else [0 :: nat])" using assms(3) by (simp only: toy_rsa_verify)
  then have "m = toy_payload" by (cases "m = toy_payload") auto
  then show ?thesis by simp
qed

lemma toy_verifies: "verify_model toy_sha (toy_rsa toy_payload) [] toy_prov (Some [0]) = Inr True"
  by (simp add: verify_model_def toy_prov_def toy_hex toy_rsa_def)

theorem provenance_binds_witness:
  "\<exists>(w, ms, t) \<in> set [([], toy_sha [], ''t'')]. toy_sha w = toy_sha [] \<and>
     ms = manifest_sha256 toy_prov \<and> t = trainer_id toy_prov"
proof (rule provenance_binds [OF toy_sha_ok toy_released _ toy_verifies])
  show "\<forall>(w, ms, t) \<in> set [([], toy_sha [], ''t'')]. digest_ok ms \<and> CHR ''|'' \<notin> set t"
    using toy_sha_ok by (simp add: sha_ok_def)
qed

theorem trainer_confusable_witness:
  "\<exists>p. verify_model toy_sha (toy_rsa []) [] p (Some [0]) = Inr True \<and> trainer_id p = ''b''"
proof -
  have sgn: "sign_model toy_sha (\<lambda>_. Inr []) (toy_rsa []) 0 1 [] [] (''a'' @ ''|'' @ ''b'') VNone ''k'' [] =
      Inr ([(''k'', 1)], \<lparr>weights_sha256 = toy_sha [], manifest_sha256 = toy_sha [], trainer_id = ''a|b'',
        sig_alg = ''RSA-PSS-SHA256'', signature_hex = to_hex [0], public_key_der_hex = to_hex [0], prov_created_at = []\<rparr>)"
    by (simp add: sign_model_def manifest_digest_def list_keys_def generate_keypair_def hsm_sign_def
        export_public_def resolve_handles toy_rsa_def signing_payload_def utf8_def)
  have der: "export_public (toy_rsa []) (pub_handle ''k'') [(''k'', 1)] = Inr [0]"
    by (simp add: export_public_def resolve_handles toy_rsa_def)
  show ?thesis
    by (rule exI, rule conjI, rule conjunct2 [OF trainer_confusable [OF toy_rsa_ok sgn der]], simp)
qed

end
