(* ===== verification/Pipeline.thy ===== *)
theory Pipeline
  imports A1Adapter Counterfactual EmitGuards Shield Signing
begin

text \<open>
  The decision pipeline (\<open>rapp/pipeline.py\<close>): the risk-band planner, the Shield, the guards, the emission
  over A1 and the audit record of every outcome. \<open>decide\<close> is everything before the first effect;
  \<open>process_event\<close> acts on it. The pipeline and the adapter share one evidence store, as the daemon wires
  them. A fresh id, the clock readings, the event's hash and the environment's flags are the record
  \<open>pipe_env\<close>; the texts of violations are the parameter \<open>msg\<close>. Metrics, logs, latencies and the
  waiting between two polls are left out.
\<close>

section \<open>Configuration\<close>

record pipeline_config =
  pc_band_lo_hz :: pyfloat
  pc_band_hi_hz :: pyfloat
  pc_max_eirp_dbm :: pyfloat
  pc_decision_budget_ms :: pyfloat
  pc_status_poll_attempts :: int
  pc_status_poll_interval_s :: pyfloat
  pc_rapp_id :: string
  pc_rapp_version :: string

definition pipeline_config_default :: pipeline_config where
  "pipeline_config_default =
     \<lparr>pc_band_lo_hz = Fin 3400000000, pc_band_hi_hz = Fin 3500000000, pc_max_eirp_dbm = Fin 33,
      pc_decision_budget_ms = Fin 1000, pc_status_poll_attempts = 3, pc_status_poll_interval_s = Fin 1,
      pc_rapp_id = ''horizon-ric-rapp'', pc_rapp_version = ''0.2.0''\<rparr>"

text \<open>An environment variable that is set to a non-empty text, or the default.\<close>

definition env_or :: "(string \<rightharpoonup> string) \<Rightarrow> (string \<Rightarrow> 'a res) \<Rightarrow> string \<Rightarrow> 'a \<Rightarrow> 'a res" where
  "env_or environ conv name dflt =
     (case environ name of None \<Rightarrow> Inr dflt | Some raw \<Rightarrow> if raw = [] then Inr dflt else conv raw)"

definition config_from_env :: "platform \<Rightarrow> (string \<rightharpoonup> string) \<Rightarrow> pipeline_config res" where
  "config_from_env pl environ =
     (let d = pipeline_config_default;
          f = (\<lambda>name dflt. env_or environ (\<lambda>raw. py_float pl (VStr raw)) name dflt);
          i = (\<lambda>name dflt. env_or environ (\<lambda>raw. py_int pl (VStr raw)) name dflt);
          s = (\<lambda>name dflt. env_or environ Inr name dflt)
      in bindE (f ''HORIZON_SHIELD_BAND_LO_HZ'' (pc_band_lo_hz d)) (\<lambda>lo.
         bindE (f ''HORIZON_SHIELD_BAND_HI_HZ'' (pc_band_hi_hz d)) (\<lambda>hi.
         bindE (f ''HORIZON_SHIELD_MAX_EIRP_DBM'' (pc_max_eirp_dbm d)) (\<lambda>eirp.
         bindE (f ''HORIZON_DECISION_BUDGET_MS'' (pc_decision_budget_ms d)) (\<lambda>budget.
         bindE (i ''HORIZON_A1_STATUS_POLL_ATTEMPTS'' (pc_status_poll_attempts d)) (\<lambda>attempts.
         bindE (f ''HORIZON_A1_STATUS_POLL_INTERVAL_S'' (pc_status_poll_interval_s d)) (\<lambda>interval.
         bindE (s ''HORIZON_RAPP_ID'' (pc_rapp_id d)) (\<lambda>rid.
         bindE (s ''HORIZON_VERSION'' (pc_rapp_version d)) (\<lambda>ver.
           Inr \<lparr>pc_band_lo_hz = lo, pc_band_hi_hz = hi, pc_max_eirp_dbm = eirp,
                pc_decision_budget_ms = budget, pc_status_poll_attempts = attempts,
                pc_status_poll_interval_s = interval, pc_rapp_id = rid, pc_rapp_version = ver\<rparr>)))))))))"

record pipeline =
  pp_cfg :: pipeline_config
  pp_shield :: shield
  pp_sign :: "(certificate \<Rightarrow> certificate res) option"

text \<open>
  \<open>DecisionPipeline.__init__\<close>: the terrestrial Shield with its default limits and no lawful-intercept
  constraint; a signing key only when a path is configured, and then the key has to load.
\<close>

definition pipeline_new ::
  "platform \<Rightarrow> sha \<Rightarrow> ('k, 'p) ed25519 \<Rightarrow> cert_serialiser \<Rightarrow> (nat list \<Rightarrow> 'k pem_key res) \<Rightarrow> key_files \<Rightarrow>
   string option \<Rightarrow> pipeline_config \<Rightarrow> pipeline res" where
  "pipeline_new pl sha ed ser parse fs key_path cfg =
     (let sh = default_terrestrial_shield pl (pc_band_lo_hz cfg) (pc_band_hi_hz cfg) (pc_max_eirp_dbm cfg)
                 None (Fin (17 / 2)) (Fin 1) (Fin 0);
          signer = (\<lambda>k c. signed_certificate sha ed ser c k)
      in if key_path = None \<or> key_path = Some [] then Inr \<lparr>pp_cfg = cfg, pp_shield = sh, pp_sign = None\<rparr>
         else bindE (load_signing_key parse (the key_path) fs) (\<lambda>k.
                Inr \<lparr>pp_cfg = cfg, pp_shield = sh, pp_sign = Some (signer k)\<rparr>))"

section \<open>Planner\<close>

record telemetry_event =
  te_event_id :: string
  te_source_id :: string
  te_payload :: action

text \<open>\<open>_risk\<close>: only \<open>TypeError\<close> and \<open>ValueError\<close> of the conversion fall back to the default.\<close>

definition risk_of :: "platform \<Rightarrow> telemetry_event \<Rightarrow> pyfloat res" where
  "risk_of pl ev =
     (let dflt = rnd pl (5 / 100)
      in case py_float pl (dget (te_payload ev) ''sla_risk_30s'' (VFloat dflt)) of
           Inl e \<Rightarrow> (if e = TypeError \<or> e = ValueError then Inr dflt else Inl e)
         | Inr x \<Rightarrow> Inr (if isfinite x then fmin (fmax x (Fin 0)) (Fin 1) else dflt))"

definition band_mid :: "platform \<Rightarrow> pyfloat" where
  "band_mid pl = rnd pl (3 / 10)"

definition band_high :: "platform \<Rightarrow> pyfloat" where
  "band_high pl = rnd pl (6 / 10)"

definition qos_payload :: "int \<Rightarrow> string \<Rightarrow> string \<Rightarrow> pyval" where
  "qos_payload priority source did =
     VDict [(''scope'', VDict [(''slice_id'', VStr (''slice-'' @ source))]),
            (''qos_objectives'', VDict [(''priority'', VInt priority)]),
            (''rapp_metadata'', VDict [(''decision_id'', VStr did)])]"

definition steering_payload :: "string \<Rightarrow> pyfloat \<Rightarrow> string \<Rightarrow> pyval" where
  "steering_payload path share did =
     VDict [(''scope'', VDict [(''ue_group'', VStr ''default'')]),
            (''steering_objectives'', VDict [(''preferred_path'', VStr path), (''ntn_share_pct'', VFloat share)]),
            (''rapp_metadata'', VDict [(''decision_id'', VStr did)])]"

definition admission_payload :: "(string \<times> pyval) list \<Rightarrow> string \<Rightarrow> pyval" where
  "admission_payload admission did =
     VDict [(''scope'', VDict [(''workload_class'', VStr ''ai_inference'')]),
            (''admission'', VDict admission),
            (''rapp_metadata'', VDict [(''decision_id'', VStr did)])]"

definition candidates :: "platform \<Rightarrow> telemetry_event \<Rightarrow> pyfloat \<Rightarrow> string \<Rightarrow> (string \<times> pyval) list res" where
  "candidates pl ev risk did =
     bindE (py_round (fmul pl risk (Fin 14))) (\<lambda>k.
       let priority = max 1 (min 15 (1 + k));
           path = (if risk < band_mid pl then ''terrestrial'' else if risk < band_high pl then ''hybrid'' else ''ntn'');
           admission =
             (if risk < band_mid pl then [(''decision'', VStr ''accept'')]
              else if risk < band_high pl then
                [(''decision'', VStr ''defer''),
                 (''defer_until_seconds'', VFloat (py_round1 pl (fadd pl (Fin 30) (fmul pl (Fin 270) risk))))]
              else [(''decision'', VStr ''reject'')])
       in Inr [(''horizon.qos.priority'', qos_payload priority (te_source_id ev) did),
               (''horizon.traffic.steering'',
                steering_payload path (py_round1 pl (fmin (fmul pl risk (Fin 100)) (Fin 100))) did),
               (''horizon.admission.control'', admission_payload admission did)])"

definition choose_policy :: "platform \<Rightarrow> pyfloat \<Rightarrow> string" where
  "choose_policy pl risk =
     (if risk < band_mid pl then ''horizon.qos.priority''
      else if risk < band_high pl then ''horizon.traffic.steering''
      else ''horizon.admission.control'')"

text \<open>The three risks of an outcome: at 30 s, 1 min and 5 min.\<close>

definition outcome_risks :: "platform \<Rightarrow> pyfloat \<Rightarrow> pyfloat \<times> pyfloat \<times> pyfloat" where
  "outcome_risks pl risk =
     (fmin risk (Fin 1), fmin (fmul pl risk (rnd pl (11 / 10))) (Fin 1), fmin (fmul pl risk (Fin (3 / 2))) (Fin 1))"

definition predicted_outcome_of :: "platform \<Rightarrow> pyfloat \<Rightarrow> predicted_outcome res" where
  "predicted_outcome_of pl risk =
     (case outcome_risks pl risk of (a, b, c) \<Rightarrow> predicted_outcome_new a b c)"

definition BAND_CENTRES :: "platform \<Rightarrow> (string \<times> pyfloat) list" where
  "BAND_CENTRES pl =
     [(''horizon.qos.priority'', rnd pl (15 / 100)), (''horizon.traffic.steering'', rnd pl (45 / 100)),
      (''horizon.admission.control'', rnd pl (80 / 100))]"

definition score :: "platform \<Rightarrow> pyfloat \<Rightarrow> string \<Rightarrow> pyfloat" where
  "score pl risk name =
     (case map_of (BAND_CENTRES pl) name of
        None \<Rightarrow> NaN
      | Some centre \<Rightarrow> fsub pl (Fin 1) (fabs (fsub pl risk centre)))"

definition alternatives :: "platform \<Rightarrow> pyfloat \<Rightarrow> string \<Rightarrow> (string \<times> pyval) list \<Rightarrow> alternative_candidate list" where
  "alternatives pl risk chosen cands =
     (let high = (rnd pl (20 / 100) < risk); risks = outcome_risks pl risk
      in map (\<lambda>(name, body).
           \<lparr>ac_action = VDict [(''policy_type'', VStr name), (''policy_payload'', body)],
            ac_reward_sum = score pl risk name, ac_violation_sum = Fin 0, ac_risk_30s = risk,
            ac_risk_1min = fst (snd risks), ac_risk_5min = snd (snd risks),
            ac_primary_metric = (if high then ''sla_risk_30s'' else ''planner_score''),
            ac_primary_value = Some (if high then risk else score pl risk name),
            ac_threshold = (if high then rnd pl (20 / 100) else score pl risk chosen), ac_horizon = H30s\<rparr>)
         (filter (\<lambda>(name, _). name \<noteq> chosen) cands))"

text \<open>The RF action the Shield validates: its physics come from the configuration alone.\<close>

definition shield_action :: "platform \<Rightarrow> pipeline_config \<Rightarrow> string \<Rightarrow> pyval \<Rightarrow> action" where
  "shield_action pl cfg ptype payload =
     [''block'' \<mapsto> VStr ''policy_emit'',
      ''policy_type'' \<mapsto> VStr ptype,
      ''policy_payload'' \<mapsto> payload,
      ''frequency_hz'' \<mapsto> VFloat (fhalf pl (fadd pl (pc_band_lo_hz cfg) (pc_band_hi_hz cfg))),
      ''bandwidth_hz'' \<mapsto> VFloat (fmin (Fin 20000000) (fsub pl (pc_band_hi_hz cfg) (pc_band_lo_hz cfg))),
      ''tx_power_dBm'' \<mapsto> VFloat (fmin (Fin 24) (fsub pl (pc_max_eirp_dbm cfg) (Fin 9))),
      ''antenna_gain_dBi'' \<mapsto> VFloat (Fin 5)]"

section \<open>Deciding\<close>

text \<open>The environment of one run of the pipeline.\<close>

record pipe_env =
  pe_decision_id :: string
  pe_seed :: int
  pe_state_hash :: string
  pe_issued_at :: string
  pe_timestamp :: string
  pe_elapsed_ms :: pyfloat
  pe_dry_run :: "string option"
  pe_emit :: emit_env

text \<open>\<open>_env_truthy\<close>, on ASCII text.\<close>

definition ascii_space :: "char \<Rightarrow> bool" where
  "ascii_space c \<longleftrightarrow> (of_char c :: nat) \<in> {9, 10, 11, 12, 13, 28, 29, 30, 31, 32}"

definition py_strip :: "string \<Rightarrow> string" where
  "py_strip s = rev (dropWhile ascii_space (rev (dropWhile ascii_space s)))"

definition py_lower :: "string \<Rightarrow> string" where
  "py_lower s = map (\<lambda>c. let n = of_char c :: nat in if 65 \<le> n \<and> n \<le> 90 then char_of (n + 32) else c) s"

definition env_truthy :: "string option \<Rightarrow> bool" where
  "env_truthy raw =
     (case raw of None \<Rightarrow> False
      | Some s \<Rightarrow> py_lower (py_strip s) \<notin> {'''', ''0'', ''false'', ''no''})"

text \<open>A correction of the certificate as an audit row; another severity fails its validation.\<close>

definition correction_of :: "(violation \<Rightarrow> string) \<Rightarrow> violation \<Rightarrow> constraint_correction res" where
  "correction_of msg v =
     (if severity v = ''hard'' then
        Inr \<lparr>cc_constraint_id = constraint_id v, cc_severity = Hard, cc_margin_dB = margin_dB v, cc_message = msg v\<rparr>
      else if severity v = ''soft'' then
        Inr \<lparr>cc_constraint_id = constraint_id v, cc_severity = Soft, cc_margin_dB = margin_dB v, cc_message = msg v\<rparr>
      else Inl ValueError)"

definition correction_dump :: "constraint_correction \<Rightarrow> action" where
  "correction_dump cc =
     [''constraint_id'' \<mapsto> VStr (cc_constraint_id cc),
      ''severity'' \<mapsto> VStr (case cc_severity cc of Hard \<Rightarrow> ''hard'' | Soft \<Rightarrow> ''soft''),
      ''margin_dB'' \<mapsto> (case cc_margin_dB cc of None \<Rightarrow> VNone | Some x \<Rightarrow> VFloat x),
      ''message'' \<mapsto> VStr (cc_message cc)]"

definition MIN_VIABLE_TX_POWER_DBM :: pyfloat where
  "MIN_VIABLE_TX_POWER_DBM = Fin (- 10)"

text \<open>The hardware floor, on the power of the action the Shield returns.\<close>

definition tx_floor_guard :: "platform \<Rightarrow> pyfloat \<Rightarrow> action \<Rightarrow> guard_failure list res" where
  "tx_floor_guard pl max_eirp safe =
     (let raw = dget safe ''tx_power_dBm'' VNone
      in bindE (if raw = VNone then Inr None
                else case py_float pl raw of
                       Inr x \<Rightarrow> Inr (Some x)
                     | Inl e \<Rightarrow> if e = TypeError \<or> e = ValueError then Inr None else Inl e) (\<lambda>tx.
           Inr (if (case tx of None \<Rightarrow> True | Some x \<Rightarrow> x < MIN_VIABLE_TX_POWER_DBM)
                then [\<lparr>guard_id = ''tx_power_below_hw_floor'',
                       guard_detail = Some (TxBelowFloor tx MIN_VIABLE_TX_POWER_DBM max_eirp)\<rparr>]
                else [])))"

definition physics_keys :: "string list" where
  "physics_keys = [''frequency_hz'', ''bandwidth_hz'', ''tx_power_dBm'', ''antenna_gain_dBi'']"

definition opt_str :: "string option \<Rightarrow> pyval" where
  "opt_str x = (case x of None \<Rightarrow> VNone | Some s \<Rightarrow> VStr s)"

definition chosen_action_of :: "telemetry_event \<Rightarrow> string \<Rightarrow> pyval \<Rightarrow> action \<Rightarrow> certificate \<Rightarrow> (string \<times> pyval) list" where
  "chosen_action_of ev ptype payload safe cert =
     [(''policy_type'', VStr ptype), (''policy_payload'', payload),
      (''safe_action'', VDict (List.map_filter (\<lambda>k. map_option (Pair k) (safe k)) physics_keys)),
      (''source_event'', VStr (te_event_id ev)),
      (''certificate'',
       VDict ([(''safe'', VBool (cert_safe cert)), (''projected'', VBool (cert_projected cert)),
               (''violated_ids'', VList (map VStr (cert_violated_ids cert)))] @
              (if cert_signature cert = None then []
               else [(''signature'', opt_str (cert_signature cert)),
                     (''signing_key_fingerprint'', opt_str (cert_signing_key_fingerprint cert))])))]"

definition record_of ::
  "pipeline_config \<Rightarrow> pipe_env \<Rightarrow> (string \<times> pyval) list \<Rightarrow> predicted_outcome \<Rightarrow> rejected_alternative list \<Rightarrow>
   constraint_correction list \<Rightarrow> decision_record" where
  "record_of cfg env chosen outcome rejected corrections =
     \<lparr>dr_decision_id = pe_decision_id env, dr_timestamp = pe_timestamp env, dr_rapp_instance_id = pc_rapp_id cfg,
      dr_tenant_id = None, dr_state_hash = pe_state_hash env, dr_state_blob_uri = None,
      dr_chosen_action = VDict chosen, dr_predicted = outcome, dr_rejected = rejected,
      dr_corrections = corrections,
      dr_model_versions = \<lparr>mv_encoder = ''none'', mv_risk_heads = ''risk_rules_v1'', mv_dyna = ''none'',
        mv_policy = ''risk_band_rules_v1'', mv_constraint_layer = ''shield_terrestrial_v1'',
        mv_rapp = pc_rapp_version cfg\<rparr>,
      dr_random_seed = Some (pe_seed env), dr_actual_30s = None, dr_actual_1min = None, dr_actual_5min = None,
      dr_operator_override = False, dr_override_reason = None, dr_sla_breach_context = None\<rparr>"

record decision =
  dc_policy_type :: string
  dc_payload :: pyval
  dc_record :: decision_record
  dc_failures :: "guard_failure list"
  dc_certificate :: certificate

text \<open>What the guards and the hardware floor say of a disposition.\<close>

definition guard_decision ::
  "platform \<Rightarrow> pipeline_config \<Rightarrow> pyfloat \<Rightarrow> certificate \<Rightarrow> constraint_correction list \<Rightarrow> action \<Rightarrow>
   guard_failure list res" where
  "guard_decision pl cfg elapsed cert corrections safe =
     bindE (tx_floor_guard pl (pc_max_eirp_dbm cfg) safe) (\<lambda>floor.
       Inr (run_guard_chain (Some cert) True elapsed
              (if corrections = [] then None else Some (map correction_dump corrections))
              (pc_decision_budget_ms cfg) @ floor))"

definition sign_with :: "(certificate \<Rightarrow> certificate res) option \<Rightarrow> certificate \<Rightarrow> certificate res" where
  "sign_with signer cert = (case signer of None \<Rightarrow> Inr cert | Some f \<Rightarrow> f cert)"

definition decide ::
  "platform \<Rightarrow> (float_format \<Rightarrow> pyfloat \<Rightarrow> string) \<Rightarrow> (violation \<Rightarrow> string) \<Rightarrow> pipeline \<Rightarrow> pipe_env \<Rightarrow>
   telemetry_event \<Rightarrow> decision res" where
  "decide pl fmt msg p env ev =
     (let cfg = pp_cfg p; did = pe_decision_id env
      in bindE (risk_of pl ev) (\<lambda>risk.
         bindE (candidates pl ev risk did) (\<lambda>cands.
         let ptype = choose_policy pl risk; payload = the (map_of cands ptype)
         in bindE (build_rejected_alternatives pl fmt (alternatives pl risk ptype cands) (score pl risk ptype)
                     (rnd pl (1 / 1000000)) (pe_seed env)) (\<lambda>rejected.
            bindE (dispose pl (pp_shield p) did (pe_issued_at env) ''non_rt'' None None
                     (shield_action pl cfg ptype payload) Map.empty) (\<lambda>disp.
            bindE (sign_with (pp_sign p) (disp_certificate disp)) (\<lambda>cert.
            bindE (mapE (correction_of msg) (cert_corrections cert)) (\<lambda>corrections.
            bindE (guard_decision pl cfg (pe_elapsed_ms env) cert corrections (safe_action disp)) (\<lambda>failures.
            bindE (predicted_outcome_of pl risk) (\<lambda>outcome.
              Inr \<lparr>dc_policy_type = ptype, dc_payload = payload,
                   dc_record = record_of cfg env (chosen_action_of ev ptype payload (safe_action disp) cert)
                     outcome rejected corrections,
                   dc_failures = failures, dc_certificate = cert\<rparr>)))))))))"

section \<open>Acting on a decision\<close>

text \<open>Setting a key of the record's \<open>chosen_action\<close>.\<close>

fun put_key :: "string \<Rightarrow> pyval \<Rightarrow> pyval \<Rightarrow> pyval" where
  "put_key k v (VDict d) = VDict (dict_set k v d)"
| "put_key k v x = x"

definition annotate :: "string \<Rightarrow> pyval \<Rightarrow> decision_record \<Rightarrow> decision_record" where
  "annotate k v r = r\<lparr>dr_chosen_action := put_key k v (dr_chosen_action r)\<rparr>"

type_synonym 's persist = "decision_record \<Rightarrow> 's \<Rightarrow> 's \<times> py_exn option"

definition store_append :: "'s persist \<Rightarrow> decision_record \<Rightarrow> ('b, 'w, 's) a1 \<Rightarrow> ('b, 'w, 's) a1 \<times> py_exn option" where
  "store_append persist r a = (case persist r (a1_store a) of (s, e) \<Rightarrow> (a\<lparr>a1_store := s\<rparr>, e))"

record pipeline_result =
  pr_decision_id :: string
  pr_event_id :: string
  pr_policy_type :: string
  pr_policy_id :: "string option"
  pr_accepted :: bool
  pr_http_status :: "int option"
  pr_enforcement_status :: "string option"
  pr_enforced :: "bool option"
  pr_blocked :: bool
  pr_block_reasons :: "string list"
  pr_emit_failed :: bool
  pr_evidence_persist_failed :: bool
  pr_dry_run :: bool

text \<open>The result of a run that did not end in an accepted policy.\<close>

definition no_policy :: "pipe_env \<Rightarrow> telemetry_event \<Rightarrow> string \<Rightarrow> pipeline_result" where
  "no_policy env ev ptype =
     \<lparr>pr_decision_id = pe_decision_id env, pr_event_id = te_event_id ev, pr_policy_type = ptype,
      pr_policy_id = None, pr_accepted = False, pr_http_status = None, pr_enforcement_status = None,
      pr_enforced = None, pr_blocked = False, pr_block_reasons = [], pr_emit_failed = False,
      pr_evidence_persist_failed = False, pr_dry_run = False\<rparr>"

definition ENFORCED_STATES :: "string list" where
  "ENFORCED_STATES = [''ENFORCED'', ''IN EFFECT'', ''OK'']"

text \<open>A poll tolerates HTTP errors and \<open>ValueError\<close>, JSON decoding errors among them.\<close>

fun tolerated :: "a1_exn \<Rightarrow> bool" where
  "tolerated (PyExn e) = (e = ValueError)"
| "tolerated (CallExn e) = (http_error e \<or> e = NonHTTP ''ValueError'')"
| "tolerated CircuitOpen = False"

text \<open>\<open>body.get(a) or body.get(b) or body.get(c)\<close>.\<close>

definition status_field :: "(string \<times> pyval) list \<Rightarrow> pyval" where
  "status_field body =
     (let g = (\<lambda>k. case map_of body k of None \<Rightarrow> VNone | Some v \<Rightarrow> v)
      in if truthy (g ''enforceStatus'') then g ''enforceStatus''
         else if truthy (g ''instance_status'') then g ''instance_status'' else g ''status'')"

fun poll_loop ::
  "platform \<Rightarrow> 'w http \<Rightarrow> a1_config \<Rightarrow> string \<Rightarrow> string \<Rightarrow> nat \<Rightarrow> string option \<times> bool option \<Rightarrow>
   ('b, 'w, 's) a1 \<Rightarrow> ('b, 'w, 's) a1 \<times> (a1_exn + string option \<times> bool option)" where
  "poll_loop pl http acfg ptype pid 0 st a = (a, Inr st)"
| "poll_loop pl http acfg ptype pid (Suc n) st a =
     (case get_policy_status http acfg ptype pid a of
        (a', Inl e) \<Rightarrow> (if tolerated e then poll_loop pl http acfg ptype pid n st a' else (a', Inl e))
      | (a', Inr body) \<Rightarrow>
          (case body of
             VDict kvs \<Rightarrow>
               (let raw = status_field kvs
                in if raw = VNone then poll_loop pl http acfg ptype pid n st a'
                   else let s = py_str pl raw
                        in if s \<in> set ENFORCED_STATES then (a', Inr (Some s, Some True))
                           else poll_loop pl http acfg ptype pid n (Some s, Some False) a')
           | _ \<Rightarrow> poll_loop pl http acfg ptype pid n st a'))"

definition poll_attempts :: "pipeline_config \<Rightarrow> nat" where
  "poll_attempts cfg = nat (max 1 (pc_status_poll_attempts cfg))"

definition poll_enforcement ::
  "platform \<Rightarrow> 'w http \<Rightarrow> a1_config \<Rightarrow> pipeline_config \<Rightarrow> string \<Rightarrow> string \<Rightarrow> ('b, 'w, 's) a1 \<Rightarrow>
   ('b, 'w, 's) a1 \<times> (a1_exn + string option \<times> bool option)" where
  "poll_enforcement pl http acfg cfg ptype pid a =
     poll_loop pl http acfg ptype pid (poll_attempts cfg) (None, None) a"

text \<open>An accepted policy: poll its enforcement and report.\<close>

definition finish_accepted ::
  "platform \<Rightarrow> 'w http \<Rightarrow> a1_config \<Rightarrow> pipeline_config \<Rightarrow> pipeline_result \<Rightarrow> string \<Rightarrow> int \<Rightarrow> bool \<Rightarrow>
   ('b, 'w, 's) a1 \<Rightarrow> ('b, 'w, 's) a1 \<times> (a1_exn + pipeline_result)" where
  "finish_accepted pl http acfg cfg res0 pid status unaudited a =
     (case poll_enforcement pl http acfg cfg (pr_policy_type res0) pid a of
        (a', Inl e) \<Rightarrow> (a', Inl e)
      | (a', Inr (st, enf)) \<Rightarrow>
          (a', Inr (res0\<lparr>pr_policy_id := Some pid, pr_accepted := True, pr_http_status := Some status,
                        pr_enforcement_status := st, pr_enforced := enf,
                        pr_evidence_persist_failed := unaudited\<rparr>)))"

fun error_status :: "a1_exn \<Rightarrow> int option" where
  "error_status (CallExn (HTTPStatusError code)) = Some code"
| "error_status _ = None"

fun not_shipped :: "a1_exn \<Rightarrow> bool" where
  "not_shipped (CallExn e) = http_error e"
| "not_shipped CircuitOpen = True"
| "not_shipped (PyExn _) = False"

text \<open>
  The rest of \<open>process_event\<close>: refused, suppressed, or emitted; an append that raises ends the run
  with its exception, except for the two best-effort appends.
\<close>

definition act ::
  "platform \<Rightarrow> 'b pybreaker \<Rightarrow> 'w http \<Rightarrow> 's persist \<Rightarrow> a1_config \<Rightarrow> pipeline_config \<Rightarrow> pipe_env \<Rightarrow>
   telemetry_event \<Rightarrow> decision \<Rightarrow> ('b, 'w, 's) a1 \<Rightarrow> ('b, 'w, 's) a1 \<times> (a1_exn + pipeline_result)" where
  "act pl pb http persist acfg cfg env ev dc a =
     (let rec = dc_record dc; res0 = no_policy env ev (dc_policy_type dc);
          audit = (\<lambda>r res a. case store_append persist r a of
                     (a', Some e) \<Rightarrow> (a', Inl (PyExn e))
                   | (a', None) \<Rightarrow> (a', Inr res))
      in if dc_failures dc \<noteq> [] \<or> cert_emit_blocked (dc_certificate dc) then
           (let reasons = (if dc_failures dc = [] then [''shield_blocked''] else map guard_id (dc_failures dc))
            in audit (annotate ''block_reasons'' (VList (map VStr reasons)) (annotate ''emit_blocked'' (VBool True) rec))
                 (res0\<lparr>pr_blocked := True, pr_block_reasons := reasons\<rparr>) a)
         else if env_truthy (pe_dry_run env) then
           audit (annotate ''dry_run'' (VBool True) rec) (res0\<lparr>pr_dry_run := True\<rparr>) a
         else
           (case emit_policy pb http persist acfg (pe_emit env) (dc_policy_type dc) (dc_payload dc) None
                   (Some rec) (Some (dc_certificate dc)) a of
              (a', Emitted pid status) \<Rightarrow> finish_accepted pl http acfg cfg res0 pid status False a'
            | (a', PersistFailed pid status _) \<Rightarrow>
                finish_accepted pl http acfg cfg res0 pid status True
                  (fst (store_append persist (annotate ''evidence_persist_failed'' (VBool True) rec) a'))
            | (a', EmitRaised e) \<Rightarrow>
                (let failed = annotate ''emit_failed'' (VBool True) rec
                 in if not_shipped e then
                      audit failed (res0\<lparr>pr_emit_failed := True, pr_http_status := error_status e\<rparr>) a'
                    else (fst (store_append persist failed a'), Inl e))))"

definition process_event ::
  "platform \<Rightarrow> (float_format \<Rightarrow> pyfloat \<Rightarrow> string) \<Rightarrow> (violation \<Rightarrow> string) \<Rightarrow> 'b pybreaker \<Rightarrow> 'w http \<Rightarrow>
   's persist \<Rightarrow> a1_config \<Rightarrow> pipeline \<Rightarrow> pipe_env \<Rightarrow> telemetry_event \<Rightarrow> ('b, 'w, 's) a1 \<Rightarrow>
   ('b, 'w, 's) a1 \<times> (a1_exn + pipeline_result)" where
  "process_event pl fmt msg pb http persist acfg p env ev a =
     (case decide pl fmt msg p env ev of
        Inl e \<Rightarrow> (a, Inl (PyExn e))
      | Inr dc \<Rightarrow> act pl pb http persist acfg (pp_cfg p) env ev dc a)"

end
