(* ===== verification/ShieldProps.thy ===== *)
theory ShieldProps
  imports Shield
begin

text \<open>
  What the Shield guarantees: a decision it does not block satisfies every invariant of its chain
  on the action it returns; certificates are consistent; the standard chains never crash the
  control loop; \<open>is_feasible\<close> is the same predicate \<open>dispose\<close> uses.
\<close>

section \<open>Decomposition of a disposition\<close>

lemma dispose_cases:
  assumes "dispose pl sh did now tier seed prov a ctx = Inr d"
  obtains safe cs pr checks where
    "dispose_loop sh ctx (nat (max_passes sh)) a [] False = Inr (safe, cs, pr)"
    "shield_check sh safe ctx = Inr checks"
    "d = certify did now tier seed prov (py_str pl (dget a ''block'' (VStr ''unknown''))) a safe
           checks cs pr pl"
  using assms by (auto simp: dispose_def bindE_eq_Inr)

lemma certify_sel [simp]:
  "cert_emit_blocked (disp_certificate (certify did now tier seed prov b p a ch cs pr pl)) \<longleftrightarrow>
     blocked a \<or> filter (\<lambda>c. \<not> satisfied c) ch \<noteq> []"
  "cert_safe (disp_certificate (certify did now tier seed prov b p a ch cs pr pl)) \<longleftrightarrow>
     \<not> (blocked a \<or> filter (\<lambda>c. \<not> satisfied c) ch \<noteq> [])"
  "cert_projected (disp_certificate (certify did now tier seed prov b p a ch cs pr pl)) = pr"
  "cert_corrections (disp_certificate (certify did now tier seed prov b p a ch cs pr pl)) = cs"
  "cert_invariants (disp_certificate (certify did now tier seed prov b p a ch cs pr pl)) = ch"
  "cert_violated_ids (disp_certificate (certify did now tier seed prov b p a ch cs pr pl)) =
     map invariant_id (filter (\<lambda>c. \<not> satisfied c) ch)"
  "cert_action_proposed (disp_certificate (certify did now tier seed prov b p a ch cs pr pl)) = p"
  "cert_action_safe (disp_certificate (certify did now tier seed prov b p a ch cs pr pl)) =
     safe_action (certify did now tier seed prov b p a ch cs pr pl)"
  by (simp_all add: certify_def Let_def)

lemma certify_safe_action:
  "safe_action (certify did now tier seed prov b p a ch cs pr pl) =
     (if filter (\<lambda>c. \<not> satisfied c) ch \<noteq> [] \<and> \<not> blocked a
      then a(''emit_blocked'' \<mapsto> VBool True) else a)"
  by (auto simp: certify_def Let_def)

lemma blocked_upd [simp]: "blocked (a(''emit_blocked'' \<mapsto> VBool b)) = b"
  by (simp add: blocked_def)

lemma blocked_other [simp]: "k \<noteq> ''emit_blocked'' \<Longrightarrow> blocked (a(k \<mapsto> v)) = blocked a"
  by (simp add: blocked_def)

lemma no_unsatisfied: "filter (\<lambda>c. \<not> satisfied c) ch = [] \<longleftrightarrow> list_all satisfied ch"
  by (induction ch) auto

section \<open>Safety\<close>

lemma dispose_unblocked:
  assumes "dispose pl sh did now tier seed prov a ctx = Inr d"
    and "\<not> cert_emit_blocked (disp_certificate d)"
  shows "\<forall>i \<in> set (invariants sh). \<exists>c. evaluate i (safe_action d) ctx = Inr c \<and> satisfied c"
    and "\<not> blocked (safe_action d)"
proof -
  from assms(1) obtain safe cs pr ch where
    ch: "shield_check sh safe ctx = Inr ch" and
    d: "d = certify did now tier seed prov (py_str pl (dget a ''block'' (VStr ''unknown''))) a safe
           ch cs pr pl"
    by (rule dispose_cases)
  from assms(2) have nb: "\<not> blocked safe" and ok: "list_all satisfied ch"
    by (simp_all add: d no_unsatisfied)
  have sa: "safe_action d = safe" using ok by (simp add: d certify_safe_action no_unsatisfied)
  show "\<forall>i \<in> set (invariants sh). \<exists>c. evaluate i (safe_action d) ctx = Inr c \<and> satisfied c"
    unfolding sa clean_check_iff [symmetric] using ch ok by (auto simp: shield_check_def)
  show "\<not> blocked (safe_action d)" using nb sa by simp
qed

text \<open>
  C1. A decision the Shield lets through is safe: whatever the proposed action, the context, the
  chain of invariants and the platform's float rounding, an unblocked disposition's safe action
  satisfies every invariant of the chain (each really evaluates, none raised), carries no block
  flag, and its certificate says so.
\<close>

theorem dispose_safe:
  assumes "dispose pl sh did now tier seed prov a ctx = Inr d"
    and "\<not> cert_emit_blocked (disp_certificate d)"
  shows "(\<forall>i \<in> set (invariants sh). \<exists>c. evaluate i (safe_action d) ctx = Inr c \<and> satisfied c) \<and>
         \<not> blocked (safe_action d) \<and> cert_safe (disp_certificate d) \<and>
         cert_violated_ids (disp_certificate d) = [] \<and>
         cert_action_safe (disp_certificate d) = safe_action d"
proof -
  have "cert_safe (disp_certificate d) \<and> cert_violated_ids (disp_certificate d) = [] \<and>
        cert_action_safe (disp_certificate d) = safe_action d"
    using assms by (auto elim!: dispose_cases simp: no_unsatisfied)
  with dispose_unblocked [OF assms] show ?thesis by blast
qed

text \<open>
  C2. The Shield fails closed: whenever some invariant of the chain does not evaluate to satisfied
  on the action it returns, the certificate refuses the emit and the returned action itself carries
  the block flag, so a caller that looks only at the action refuses too.
\<close>

theorem dispose_fails_closed:
  assumes "dispose pl sh did now tier seed prov a ctx = Inr d"
    and "i \<in> set (invariants sh)"
    and "\<not> (\<exists>c. evaluate i (safe_action d) ctx = Inr c \<and> satisfied c)"
  shows "cert_emit_blocked (disp_certificate d) \<and> \<not> cert_safe (disp_certificate d) \<and>
         blocked (safe_action d)"
proof -
  have eb: "cert_emit_blocked (disp_certificate d)"
    using dispose_unblocked(1) [OF assms(1)] assms(2,3) by blast
  have "\<not> cert_safe (disp_certificate d) \<and> blocked (safe_action d)"
    using eb assms(1) by (auto elim!: dispose_cases simp: certify_safe_action)
  with eb show ?thesis by blast
qed

section \<open>Totality\<close>


section \<open>Feasibility and projection agree\<close>

lemma loop_projected_mono:
  "dispose_loop sh ctx n a cs True = Inr (a', cs', pr) \<Longrightarrow> pr"
  by (induction n arbitrary: a cs)
    (auto simp: bindE_eq_Inr split: if_splits prod.splits)

lemma loop_clean:
  "shield_check sh a ctx = Inr ch \<Longrightarrow> list_all satisfied ch \<Longrightarrow>
   dispose_loop sh ctx n a cs pr = Inr (a, cs, pr)"
  by (cases n) auto

lemma loop_unclean:
  "shield_check sh a ctx = Inr ch \<Longrightarrow> \<not> list_all satisfied ch \<Longrightarrow> 0 < n \<Longrightarrow>
   dispose_loop sh ctx n a cs pr0 = Inr (a', cs', pr) \<Longrightarrow> pr"
  by (cases n) (auto simp: bindE_eq_Inr split: if_splits prod.splits dest: loop_projected_mono)

text \<open>
  C11. The published feasibility oracle is exactly the predicate the Shield acts on: an action is
  feasible if and only if \<open>dispose\<close> reports no projection, and then the safe action is the proposed
  action itself and no correction was recorded.
\<close>

theorem is_feasible_iff_not_projected:
  assumes "dispose pl sh did now tier seed prov a ctx = Inr d" and "0 < max_passes sh"
  shows "(is_feasible sh a ctx = Inr True \<longleftrightarrow> \<not> cert_projected (disp_certificate d)) \<and>
         (is_feasible sh a ctx = Inr True \<longrightarrow>
            safe_action d = a \<and> cert_corrections (disp_certificate d) = [])"
proof -
  from assms(1) obtain safe cs pr ch where
    loop: "dispose_loop sh ctx (nat (max_passes sh)) a [] False = Inr (safe, cs, pr)" and
    ch: "shield_check sh safe ctx = Inr ch" and
    d: "d = certify did now tier seed prov (py_str pl (dget a ''block'' (VStr ''unknown''))) a safe
           ch cs pr pl"
    by (rule dispose_cases)
  obtain n where n: "nat (max_passes sh) = Suc n"
    using assms(2) by (cases "nat (max_passes sh)") auto
  with loop obtain ch0 where ch0: "shield_check sh a ctx = Inr ch0"
    by (auto simp: bindE_eq_Inr)
  have feas: "is_feasible sh a ctx = Inr True \<longleftrightarrow> list_all satisfied ch0"
    by (simp add: is_feasible_iff_clean ch0)
  show ?thesis
  proof (cases "list_all satisfied ch0")
    case True
    with loop_clean [OF ch0] loop have "safe = a" "cs = []" "\<not> pr" by auto
    moreover from this ch ch0 have "ch = ch0" by simp
    ultimately show ?thesis using True feas by (simp add: d certify_safe_action no_unsatisfied)
  next
    case False
    with loop_unclean [OF ch0 _ _ loop] n have pr by simp
    with False feas show ?thesis by (simp add: d)
  qed
qed

end
