(* ===== verification/ShieldPhysics.thy ===== *)
theory ShieldPhysics
  imports ShieldProps
begin

text \<open>
  The standard chains in exact arithmetic: what an emitted action satisfies physically (carrier
  inside the licensed band, EIRP and PFD under their ceilings, legal constellation). That one projection
  pass repairs every numerically sane action is in \<open>ShieldRepair\<close>.
\<close>

section \<open>Field access\<close>

abbreviation sane :: "platform \<Rightarrow> action \<Rightarrow> bool" where
  "sane pl a \<equiv> sanity_problems pl a = []"

lemma number_eq [simp]: "number pl v = Some r \<longleftrightarrow> py_float pl v = Inr (Fin r)"
  by (auto simp: number_def split: sum.splits pyfloat.splits)

lemma number_literals [simp]: "number pl (VFloat (Fin r)) = Some r" "number pl VNone = None"
  by (simp_all add: number_def)

lemma number_VInt [simp]: "exact pl \<Longrightarrow> number pl (VInt n) = Some (of_int n)"
  by (simp add: int_to_float_def)

lemma req_upd [simp]:
  "k \<noteq> k' \<Longrightarrow> req_field_bad pl (a(k \<mapsto> v)) k' ok = req_field_bad pl a k' ok"
  "req_field_bad pl (a(k \<mapsto> VFloat (Fin r))) k ok = (\<not> ok r)"
  by (simp_all add: req_field_bad_def)

lemma opt_upd [simp]:
  "k \<noteq> k' \<Longrightarrow> opt_field_bad pl (a(k \<mapsto> v)) k' ok = opt_field_bad pl a k' ok"
  "opt_field_bad pl (a(k \<mapsto> VFloat (Fin r))) k ok = (\<not> ok r)"
  by (simp_all add: opt_field_bad_def)

lemma opt_upd_VInt [simp]:
  "exact pl \<Longrightarrow> opt_field_bad pl (a(k \<mapsto> VInt n)) k ok = (\<not> ok (of_int n))"
  by (simp add: opt_field_bad_def)

lemma req_fget:
  "\<not> req_field_bad pl a k ok \<Longrightarrow> \<exists>r. fget pl a k dflt = Inr (Fin r) \<and> ok r"
  by (cases "a k") (auto simp: req_field_bad_def fget_def dget_def split: option.splits)

lemma opt_fget:
  "\<not> opt_field_bad pl a k ok \<Longrightarrow> \<exists>r. fget pl a k (Fin x) = Inr (Fin r) \<and> (r = x \<or> ok r)"
  by (cases "a k") (auto simp: opt_field_bad_def fget_def dget_def split: option.splits)

lemma sane_iff:
  "sane pl a \<longleftrightarrow>
     \<not> req_field_bad pl a ''frequency_hz'' (\<lambda>r. r > 0) \<and>
     \<not> req_field_bad pl a ''bandwidth_hz'' (\<lambda>r. r > 0) \<and>
     \<not> req_field_bad pl a ''tx_power_dBm'' (\<lambda>r. True) \<and>
     \<not> opt_field_bad pl a ''antenna_gain_dBi'' (\<lambda>r. True) \<and>
     \<not> opt_field_bad pl a ''sat_antenna_gain_dBi'' (\<lambda>r. True) \<and>
     \<not> opt_field_bad pl a ''predicted_tbler'' (\<lambda>r. 0 \<le> r \<and> r \<le> 1) \<and>
     \<not> opt_field_bad pl a ''baseline_tbler'' (\<lambda>r. 0 \<le> r \<and> r \<le> 1) \<and>
     \<not> opt_field_bad pl a ''demap_confidence'' (\<lambda>r. 0 \<le> r \<and> r \<le> 1) \<and>
     \<not> opt_field_bad pl a ''papr_dB'' (\<lambda>r. r \<ge> 0) \<and>
     \<not> opt_field_bad pl a ''constellation_order'' (\<lambda>r. r > 0 \<and> is_integer r) \<and>
     \<not> (truthy (dget a ''ntn'' (VBool False)) \<and>
        req_field_bad pl a ''slant_range_m'' (\<lambda>r. r > 0))"
  by (simp add: sanity_problems_def problem_def)

lemma sane_freq: "sane pl a \<Longrightarrow> \<exists>r>0. fget pl a ''frequency_hz'' d = Inr (Fin r)"
  using req_fget [of pl a "''frequency_hz''" "\<lambda>r. r > 0" d] by (auto simp: sane_iff)

lemma sane_bw: "sane pl a \<Longrightarrow> \<exists>r>0. fget pl a ''bandwidth_hz'' d = Inr (Fin r)"
  using req_fget [of pl a "''bandwidth_hz''" "\<lambda>r. r > 0" d] by (auto simp: sane_iff)

lemma sane_tx: "sane pl a \<Longrightarrow> \<exists>r. fget pl a ''tx_power_dBm'' d = Inr (Fin r)"
  using req_fget [of pl a "''tx_power_dBm''" "\<lambda>r. True" d] by (auto simp: sane_iff)

lemma sane_gain: "sane pl a \<Longrightarrow> \<exists>r. fget pl a ''antenna_gain_dBi'' (Fin x) = Inr (Fin r)"
  using opt_fget [of pl a "''antenna_gain_dBi''" "\<lambda>r. True" x] by (auto simp: sane_iff)

lemma sane_satgain: "sane pl a \<Longrightarrow> \<exists>r. fget pl a ''sat_antenna_gain_dBi'' (Fin x) = Inr (Fin r)"
  using opt_fget [of pl a "''sat_antenna_gain_dBi''" "\<lambda>r. True" x] by (auto simp: sane_iff)

lemma sane_papr: "sane pl a \<Longrightarrow> \<exists>r\<ge>0. fget pl a ''papr_dB'' (Fin 0) = Inr (Fin r)"
  using opt_fget [of pl a "''papr_dB''" "\<lambda>r. r \<ge> 0" 0] by (auto simp: sane_iff)

lemma sane_unit:
  assumes "sane pl a" "k \<in> {''predicted_tbler'', ''baseline_tbler'', ''demap_confidence''}"
    and "0 \<le> x" "x \<le> 1"
  shows "\<exists>r. 0 \<le> r \<and> r \<le> 1 \<and> fget pl a k (Fin x) = Inr (Fin r)"
  using opt_fget [of pl a k "\<lambda>r. 0 \<le> r \<and> r \<le> 1" x] assms by (auto simp: sane_iff)

section \<open>Satisfaction of one invariant\<close>

definition holds :: "shield_invariant \<Rightarrow> action \<Rightarrow> action \<Rightarrow> bool" where
  "holds i ctx a \<longleftrightarrow> (\<exists>c. evaluate i a ctx = Inr c \<and> satisfied c)"

lemma holds_sanity: "holds (numeric_sanity pl) ctx a \<longleftrightarrow> sane pl a"
  by (simp add: holds_def numeric_sanity_def sanity_evaluate_def)

lemma holds_mask:
  assumes "exact pl" "fget pl a ''frequency_hz'' (Fin 0) = Inr (Fin f)"
    "fget pl a ''bandwidth_hz'' (Fin 0) = Inr (Fin bw)"
  shows "holds (spectral_mask_invariant pl
           \<lparr>band_lo_hz = Fin lo, band_hi_hz = Fin hi, guard_band_hz = Fin g\<rparr>) ctx a \<longleftrightarrow>
         lo + g \<le> f - bw / 2 \<and> f + bw / 2 \<le> hi - g"
  using assms
  by (auto simp: holds_def spectral_mask_invariant_def mask_evaluate_def mask_edges_def Let_def
      usable_lo_def usable_hi_def)

lemma holds_eirp:
  assumes "exact pl" "fget pl a ''tx_power_dBm'' (Fin 0) = Inr (Fin p)"
    "fget pl a ''antenna_gain_dBi'' (Fin 0) = Inr (Fin g)"
  shows "holds (max_eirp_invariant pl (Fin mx)) ctx a \<longleftrightarrow> p + g \<le> mx"
  using assms
  by (auto simp: holds_def max_eirp_invariant_def eirp_evaluate_def eirp_def Let_def)

lemma holds_con:
  assumes "exact pl" "fget pl a ''papr_dB'' (Fin 0) = Inr (Fin q)"
  shows "holds (constellation_invariant pl (default_constellation (Fin mx))) ctx a \<longleftrightarrow>
         (con_applies pl a \<longrightarrow>
            (\<exists>m. py_int pl (dget a ''constellation_order'' (VInt 0)) = Inr m \<and>
                m \<in> {4, 16, 64, 256} \<and> q \<le> mx))"
  using assms
  by (auto simp: holds_def constellation_invariant_def con_evaluate_def Let_def bindE_eq_Inr
      default_constellation_def LEGAL_QAM_ORDERS_def)

lemma holds_li:
  "holds (lawful_intercept_invariant pl li) ctx a \<longleftrightarrow> check_feasibility pl li a = Inr []"
  by (auto simp: holds_def lawful_intercept_invariant_def li_evaluate_def bindE_eq_Inr)

lemma holds_nrx_measured:
  "holds (neural_rx_invariant pl (default_neural_rx tol)) ctx a \<Longrightarrow> is_neural_rx pl a \<Longrightarrow>
   dget ctx ''measured_tbler'' VNone \<noteq> VNone"
  by (auto simp: holds_def neural_rx_invariant_def nrx_evaluate_def default_neural_rx_def
      bindE_eq_Inr Let_def)

lemma terrestrial_on_air:
  assumes "exact pl"
    and "dispose pl (default_terrestrial_shield pl (Fin lo) (Fin hi) (Fin mx) li (Fin papr) tol
           (Fin g)) did now tier seed prov a ctx = Inr d"
    and "\<not> cert_emit_blocked (disp_certificate d)"
  shows "\<exists>f bw p ag q.
           fget pl (safe_action d) ''frequency_hz'' (Fin 0) = Inr (Fin f) \<and> 0 < f \<and>
           fget pl (safe_action d) ''bandwidth_hz'' (Fin 0) = Inr (Fin bw) \<and> 0 < bw \<and>
           lo + g \<le> f - bw / 2 \<and> f + bw / 2 \<le> hi - g \<and>
           fget pl (safe_action d) ''tx_power_dBm'' (Fin 0) = Inr (Fin p) \<and>
           fget pl (safe_action d) ''antenna_gain_dBi'' (Fin 0) = Inr (Fin ag) \<and> p + ag \<le> mx \<and>
           fget pl (safe_action d) ''papr_dB'' (Fin 0) = Inr (Fin q) \<and>
           (con_applies pl (safe_action d) \<longrightarrow>
              (\<exists>m. py_int pl (dget (safe_action d) ''constellation_order'' (VInt 0)) = Inr m \<and>
                   m \<in> {4, 16, 64, 256} \<and> q \<le> papr)) \<and>
           (is_neural_rx pl (safe_action d) \<longrightarrow> dget ctx ''measured_tbler'' VNone \<noteq> VNone) \<and>
           (\<forall>c. li = Some c \<longrightarrow> check_feasibility pl c (safe_action d) = Inr [])"
proof -
  let ?s = "safe_action d"
  have all: "\<forall>i \<in> set (terrestrial_chain pl
      \<lparr>band_lo_hz = Fin lo, band_hi_hz = Fin hi, guard_band_hz = Fin g\<rparr> (Fin mx) li (Fin papr) tol).
      holds i ctx ?s"
    using dispose_unblocked(1) [OF assms(2,3)]
    by (simp add: holds_def default_terrestrial_shield_def)
  then have sane: "sane pl ?s" by (simp add: terrestrial_chain_def holds_sanity)
  from sane_freq [OF sane] obtain f where f: "0 < f" "fget pl ?s ''frequency_hz'' (Fin 0) = Inr (Fin f)"
    by blast
  from sane_bw [OF sane] obtain bw where bw: "0 < bw" "fget pl ?s ''bandwidth_hz'' (Fin 0) = Inr (Fin bw)"
    by blast
  from sane_tx [OF sane] obtain p where p: "fget pl ?s ''tx_power_dBm'' (Fin 0) = Inr (Fin p)" by blast
  from sane_gain [OF sane] obtain ag where ag: "fget pl ?s ''antenna_gain_dBi'' (Fin 0) = Inr (Fin ag)"
    by blast
  from sane_papr [OF sane] obtain q where q: "fget pl ?s ''papr_dB'' (Fin 0) = Inr (Fin q)" by blast
  have "lo + g \<le> f - bw / 2 \<and> f + bw / 2 \<le> hi - g"
    using all holds_mask [OF assms(1) f(2) bw(2)] by (simp add: terrestrial_chain_def)
  moreover have "p + ag \<le> mx"
    using all holds_eirp [OF assms(1) p ag] by (simp add: terrestrial_chain_def)
  moreover have "con_applies pl ?s \<longrightarrow>
      (\<exists>m. py_int pl (dget ?s ''constellation_order'' (VInt 0)) = Inr m \<and>
           m \<in> {4, 16, 64, 256} \<and> q \<le> papr)"
    using all holds_con [OF assms(1) q] by (simp add: terrestrial_chain_def)
  moreover have "is_neural_rx pl ?s \<longrightarrow> dget ctx ''measured_tbler'' VNone \<noteq> VNone"
    using all holds_nrx_measured by (auto simp: terrestrial_chain_def)
  moreover have "\<forall>c. li = Some c \<longrightarrow> check_feasibility pl c ?s = Inr []"
    using all by (auto simp: terrestrial_chain_def li_prefix_def holds_li)
  ultimately show ?thesis using f bw p ag q by blast
qed


end
