(* ===== verification/ShieldRepair.thy ===== *)
theory ShieldRepair
  imports ShieldPhysics
begin

text \<open>
  The projections do their work: in exact arithmetic each one establishes its invariant and keeps
  the others', so one pass repairs every numerically sane terrestrial action.
\<close>

section \<open>One projection at a time\<close>

lemma mask_keys:
  "a ''frequency_hz'' = b ''frequency_hz'' \<Longrightarrow> a ''bandwidth_hz'' = b ''bandwidth_hz'' \<Longrightarrow>
   holds (spectral_mask_invariant pl m) ctx a = holds (spectral_mask_invariant pl m) ctx b"
  by (simp add: holds_def spectral_mask_invariant_def mask_evaluate_def mask_edges_def fget_def
      dget_def)

lemma eirp_keys:
  "a ''tx_power_dBm'' = b ''tx_power_dBm'' \<Longrightarrow> a ''antenna_gain_dBi'' = b ''antenna_gain_dBi'' \<Longrightarrow>
   holds (max_eirp_invariant pl m) ctx a = holds (max_eirp_invariant pl m) ctx b"
  by (simp add: holds_def max_eirp_invariant_def eirp_evaluate_def eirp_def fget_def dget_def)

lemma mask_project_works:
  assumes ex: "exact pl" and sane: "sane pl a" and lo: "0 \<le> lo + g"
    and bw: "fget pl a ''bandwidth_hz'' (Fin 0) = Inr (Fin bw)" and fits: "bw \<le> hi - lo - 2 * g"
  shows "\<exists>a1 cs. project (spectral_mask_invariant pl
             \<lparr>band_lo_hz = Fin lo, band_hi_hz = Fin hi, guard_band_hz = Fin g\<rparr>) a ctx = Inr (a1, cs) \<and>
           sane pl a1 \<and>
           holds (spectral_mask_invariant pl
             \<lparr>band_lo_hz = Fin lo, band_hi_hz = Fin hi, guard_band_hz = Fin g\<rparr>) ctx a1 \<and>
           (\<forall>k. k \<noteq> ''frequency_hz'' \<longrightarrow> a1 k = a k)"
proof -
  from sane_freq [OF sane] obtain f where f: "fget pl a ''frequency_hz'' (Fin 0) = Inr (Fin f)"
    by blast
  from sane_bw [OF sane, of "Fin 0"] bw have bw0: "0 < bw" by auto
  let ?c = "min (max f (lo + g + bw / 2)) (hi - g - bw / 2)"
  have c: "lo + g + bw / 2 \<le> ?c" "?c \<le> hi - g - bw / 2" using fits by auto
  have pos: "0 < ?c" using c(1) lo bw0 by linarith
  have pr: "project (spectral_mask_invariant pl
      \<lparr>band_lo_hz = Fin lo, band_hi_hz = Fin hi, guard_band_hz = Fin g\<rparr>) a ctx =
      Inr (if ?c \<noteq> f then (a(''frequency_hz'' \<mapsto> VFloat (Fin ?c)), [hard_violation MASK_ID None])
           else (a, []))"
    using ex f bw fits
    by (simp add: spectral_mask_invariant_def mask_project_def usable_lo_def usable_hi_def Let_def)
  show ?thesis
  proof (cases "?c = f")
    case True
    with c have "holds (spectral_mask_invariant pl
        \<lparr>band_lo_hz = Fin lo, band_hi_hz = Fin hi, guard_band_hz = Fin g\<rparr>) ctx a"
      using holds_mask [OF ex f bw] by simp
    with True pr sane show ?thesis by auto
  next
    case False
    let ?a = "a(''frequency_hz'' \<mapsto> VFloat (Fin ?c))"
    have "sane pl ?a" using sane pos by (simp add: sane_iff)
    moreover have "holds (spectral_mask_invariant pl
        \<lparr>band_lo_hz = Fin lo, band_hi_hz = Fin hi, guard_band_hz = Fin g\<rparr>) ctx ?a"
      by (subst holds_mask [OF ex, where f = ?c and bw = bw]) (use bw c in \<open>simp; linarith\<close>)+
    ultimately show ?thesis using False pr by auto
  qed
qed

lemma eirp_project_works:
  assumes ex: "exact pl" and sane: "sane pl a"
  shows "\<exists>a1 cs. project (max_eirp_invariant pl (Fin mx)) a ctx = Inr (a1, cs) \<and> sane pl a1 \<and>
           holds (max_eirp_invariant pl (Fin mx)) ctx a1 \<and>
           (\<forall>k. k \<noteq> ''tx_power_dBm'' \<longrightarrow> a1 k = a k)"
proof -
  from sane_tx [OF sane] obtain p where p: "fget pl a ''tx_power_dBm'' (Fin 0) = Inr (Fin p)" by blast
  from sane_gain [OF sane] obtain g where g: "fget pl a ''antenna_gain_dBi'' (Fin 0) = Inr (Fin g)"
    by blast
  show ?thesis
  proof (cases "p + g \<le> mx")
    case True
    then show ?thesis using ex p g sane holds_eirp [OF ex p g]
      by (auto simp: max_eirp_invariant_def eirp_project_def eirp_def cut_power_def)
  next
    case False
    let ?q = "p - (p + g - mx)"
    let ?a = "a(''tx_power_dBm'' \<mapsto> VFloat (Fin ?q))"
    have "project (max_eirp_invariant pl (Fin mx)) a ctx =
        Inr (?a, [hard_violation EIRP_ID (Some (Fin (- (p + g - mx))))])"
      using False ex p g
      by (simp add: max_eirp_invariant_def eirp_project_def eirp_def cut_power_def)
    moreover have "sane pl ?a" using sane by (simp add: sane_iff)
    moreover have "holds (max_eirp_invariant pl (Fin mx)) ctx ?a"
      using holds_eirp [OF ex, of ?a ?q g] g by simp
    ultimately show ?thesis by auto
  qed
qed

text \<open>A context without a measurement, or with a finite non-negative one.\<close>

definition measurement_ok :: "platform \<Rightarrow> action \<Rightarrow> bool" where
  "measurement_ok pl ctx \<longleftrightarrow>
     (let m = dget ctx ''measured_tbler'' VNone
      in m = VNone \<or> (\<exists>r\<ge>0. py_float pl m = Inr (Fin r)))"

lemma nrx_evaluate_returns:
  assumes "exact pl" "sane pl a" "measurement_ok pl ctx"
  shows "\<exists>c. nrx_evaluate pl (default_neural_rx (Fin tol)) a ctx = Inr c"
proof -
  from sane_unit [OF assms(2), of "''baseline_tbler''" 0] obtain b
    where b: "0 \<le> b" "fget pl a ''baseline_tbler'' (Fin 0) = Inr (Fin b)" by auto
  from sane_unit [OF assms(2), of "''predicted_tbler''" 0] obtain s
    where s: "fget pl a ''predicted_tbler'' (Fin 0) = Inr (Fin s)" by auto
  from sane_unit [OF assms(2), of "''demap_confidence''" 1] obtain c
    where c: "fget pl a ''demap_confidence'' (Fin 1) = Inr (Fin c)" by auto
  have graded: "\<exists>c. nrx_graded pl (default_neural_rx (Fin tol)) a (Fin b) (Fin m) = Inr c"
    if "0 \<le> m" for m
  proof -
    have "0 < (b + 1 / 1000000000) / (m + 1 / 1000000000)" and "m + 1 / 1000000000 \<noteq> 0"
      using that b(1) by (auto intro!: divide_pos_pos add_nonneg_pos)
    then show ?thesis using assms(1) c
      by (simp add: nrx_graded_def default_neural_rx_def Let_def)
  qed
  show ?thesis
  proof (cases "dget ctx ''measured_tbler'' VNone = VNone")
    case True
    then show ?thesis using b s
      by (simp add: nrx_evaluate_def default_neural_rx_def Let_def)
  next
    case False
    with assms(3) obtain m where "0 \<le> m" "py_float pl (dget ctx ''measured_tbler'' VNone) = Inr (Fin m)"
      by (auto simp: measurement_ok_def Let_def)
    with graded False show ?thesis using b s by (simp add: nrx_evaluate_def Let_def)
  qed
qed

lemma not_neural_holds:
  "\<not> is_neural_rx pl a \<Longrightarrow> holds (neural_rx_invariant pl nr) ctx a"
  by (simp add: holds_def neural_rx_invariant_def nrx_evaluate_def)

lemma nrx_graded_keys:
  "a ''demap_confidence'' = b ''demap_confidence'' \<Longrightarrow>
   nrx_graded pl nr a x y = nrx_graded pl nr b x y"
  by (simp add: nrx_graded_def fget_def dget_def)

lemma nrx_keys:
  assumes "a ''block'' = b ''block''" "a ''baseline_tbler'' = b ''baseline_tbler''"
    "a ''predicted_tbler'' = b ''predicted_tbler''" "a ''demap_confidence'' = b ''demap_confidence''"
  shows "holds (neural_rx_invariant pl nr) ctx a = holds (neural_rx_invariant pl nr) ctx b"
proof -
  have "nrx_graded pl nr a = nrx_graded pl nr b"
    using nrx_graded_keys [of a b, OF assms(4)] by (intro ext)
  then show ?thesis
    using assms(1-3)
    by (simp add: holds_def neural_rx_invariant_def nrx_evaluate_def is_neural_rx_def fget_def dget_def
        cong: if_cong)
qed

lemma FALLBACK_KEY_neq [simp]:
  "FALLBACK_KEY \<noteq> ''block''" "''block'' \<noteq> FALLBACK_KEY"
  "FALLBACK_KEY \<noteq> ''predicted_tbler''" "''predicted_tbler'' \<noteq> FALLBACK_KEY"
  "FALLBACK_KEY \<noteq> ''emit_blocked''" "''emit_blocked'' \<noteq> FALLBACK_KEY"
  "FALLBACK_KEY \<noteq> ''frequency_hz''" "''frequency_hz'' \<noteq> FALLBACK_KEY"
  "FALLBACK_KEY \<noteq> ''bandwidth_hz''" "''bandwidth_hz'' \<noteq> FALLBACK_KEY"
  "FALLBACK_KEY \<noteq> ''tx_power_dBm''" "''tx_power_dBm'' \<noteq> FALLBACK_KEY"
  "FALLBACK_KEY \<noteq> ''antenna_gain_dBi''" "''antenna_gain_dBi'' \<noteq> FALLBACK_KEY"
  "FALLBACK_KEY \<noteq> ''sat_antenna_gain_dBi''" "''sat_antenna_gain_dBi'' \<noteq> FALLBACK_KEY"
  "FALLBACK_KEY \<noteq> ''baseline_tbler''" "''baseline_tbler'' \<noteq> FALLBACK_KEY"
  "FALLBACK_KEY \<noteq> ''demap_confidence''" "''demap_confidence'' \<noteq> FALLBACK_KEY"
  "FALLBACK_KEY \<noteq> ''papr_dB''" "''papr_dB'' \<noteq> FALLBACK_KEY"
  "FALLBACK_KEY \<noteq> ''constellation_order''" "''constellation_order'' \<noteq> FALLBACK_KEY"
  "FALLBACK_KEY \<noteq> ''ntn''" "''ntn'' \<noteq> FALLBACK_KEY"
  "FALLBACK_KEY \<noteq> ''slant_range_m''" "''slant_range_m'' \<noteq> FALLBACK_KEY"
  by (simp_all add: FALLBACK_KEY_def)

lemma nrx_project_works:
  assumes ex: "exact pl" and sane: "sane pl a" and meas: "measurement_ok pl ctx"
  shows "\<exists>a1 cs. project (neural_rx_invariant pl (default_neural_rx (Fin tol))) a ctx = Inr (a1, cs) \<and>
           sane pl a1 \<and> holds (neural_rx_invariant pl (default_neural_rx (Fin tol))) ctx a1 \<and>
           (\<forall>k. k \<notin> {''block'', FALLBACK_KEY, ''predicted_tbler''} \<longrightarrow> a1 k = a k)"
proof -
  from nrx_evaluate_returns [OF assms] obtain c
    where c: "nrx_evaluate pl (default_neural_rx (Fin tol)) a ctx = Inr c" by blast
  show ?thesis
  proof (cases "satisfied c")
    case True
    then show ?thesis using c sane
      by (auto simp: holds_def neural_rx_invariant_def nrx_project_def)
  next
    case False
    have "\<exists>t. 0 \<le> t \<and> t \<le> 1 \<and>
        py_float pl (dget a ''baseline_tbler'' (dget a ''predicted_tbler'' (VFloat (Fin 0)))) = Inr (Fin t)"
    proof (cases "a ''baseline_tbler''")
      case None
      then show ?thesis using sane_unit [OF sane, of "''predicted_tbler''" 0] by (simp add: fget_def)
    next
      case (Some v)
      then show ?thesis using sane_unit [OF sane, of "''baseline_tbler''" 0] by (simp add: fget_def)
    qed
    then obtain t where t: "0 \<le> t" "t \<le> 1"
      "py_float pl (dget a ''baseline_tbler'' (dget a ''predicted_tbler'' (VFloat (Fin 0)))) = Inr (Fin t)"
      by blast
    let ?a = "a(''block'' \<mapsto> VStr ''classical_lmmse'', FALLBACK_KEY \<mapsto> VStr ''classical_lmmse'',
                 ''predicted_tbler'' \<mapsto> VFloat (Fin t))"
    have "project (neural_rx_invariant pl (default_neural_rx (Fin tol))) a ctx =
        Inr (?a, [hard_violation NRX_ID (margin c)])"
      using False c t by (simp add: neural_rx_invariant_def nrx_project_def default_neural_rx_def)
    moreover have "sane pl ?a" using sane t by (simp add: sane_iff)
    moreover have "holds (neural_rx_invariant pl (default_neural_rx (Fin tol))) ctx ?a"
      by (rule not_neural_holds) (simp add: is_neural_rx_def)
    ultimately show ?thesis by auto
  qed
qed

lemma foldl_max_mem: "foldl max x xs \<in> set (x # xs)" for x :: int
proof (induction xs arbitrary: x)
  case Nil
  then show ?case by simp
next
  case (Cons y ys)
  show ?case using Cons.IH [of "max x y"] by (auto simp: max_def split: if_splits)
qed

lemma snap_order_mem: "orders \<noteq> [] \<Longrightarrow> \<exists>s. snap_order orders n = Inr s \<and> s \<in> set orders"
proof (cases "filter (\<lambda>x. x \<le> n) orders")
  case Nil
  then show "orders \<noteq> [] \<Longrightarrow> ?thesis" by (cases orders) (auto simp: snap_order_def)
next
  case (Cons x xs)
  then have "set (x # xs) \<subseteq> set orders" by (metis filter_is_subset)
  then show ?thesis using Cons foldl_max_mem [of x xs] by (auto simp: snap_order_def)
qed

text \<open>An order that passes the sanity check and is not a string is read by \<open>int()\<close>.\<close>

definition order_numeric :: "action \<Rightarrow> bool" where
  "order_numeric a = (case a ''constellation_order'' of Some (VStr s) \<Rightarrow> False | _ \<Rightarrow> True)"

lemma order_readable:
  assumes "sane pl a" "order_numeric a"
  shows "\<exists>n. py_int pl (dget a ''constellation_order'' (VInt 0)) = Inr n"
proof (cases "a ''constellation_order''")
  case None
  then show ?thesis by simp
next
  case (Some v)
  have "\<not> opt_field_bad pl a ''constellation_order'' (\<lambda>r. r > 0 \<and> is_integer r)"
    using assms(1) unfolding sane_iff by blast
  then have "\<exists>r. py_float pl v = Inr (Fin r)"
    using Some by (auto simp: opt_field_bad_def split: option.splits)
  moreover have "v \<noteq> VStr s" for s using assms(2) Some by (auto simp: order_numeric_def)
  ultimately have "\<exists>n. py_int pl v = Inr n" by (cases v) auto
  with Some show ?thesis by simp
qed

lemma con_fix_order_works:
  assumes ex: "exact pl" and sane: "sane pl a" and ord: "order_numeric a"
  shows "\<exists>a1 cs m. con_fix_order pl (default_constellation (Fin mx)) a = Inr (a1, cs) \<and> sane pl a1 \<and>
           py_int pl (dget a1 ''constellation_order'' (VInt 0)) = Inr m \<and> m \<in> set LEGAL_QAM_ORDERS \<and>
           (\<forall>k. k \<notin> {''block'', FALLBACK_KEY, ''constellation_order''} \<longrightarrow> a1 k = a k) \<and>
           (a1 ''block'' = a ''block'' \<or> \<not> is_neural_rx pl a1)"
proof -
  from order_readable [OF sane ord] obtain n
    where n: "py_int pl (dget a ''constellation_order'' (VInt 0)) = Inr n" by blast
  show ?thesis
  proof (cases "n \<in> set LEGAL_QAM_ORDERS")
    case True
    then show ?thesis using n sane by (simp add: con_fix_order_def default_constellation_def)
  next
    case False
    obtain s where s: "snap_order LEGAL_QAM_ORDERS n = Inr s" "s \<in> set LEGAL_QAM_ORDERS"
      using snap_order_mem [of LEGAL_QAM_ORDERS n] by (auto simp: LEGAL_QAM_ORDERS_def)
    let ?a = "con_fallback (default_constellation (Fin mx)) (a(''constellation_order'' \<mapsto> VInt s))"
    have "con_fix_order pl (default_constellation (Fin mx)) a = Inr (?a, [hard_violation CON_ID None])"
      using False n s by (simp add: con_fix_order_def default_constellation_def)
    moreover have "sane pl ?a"
      using sane s(2) ex
      by (auto simp: sane_iff con_fallback_def is_integer_def LEGAL_QAM_ORDERS_def)
    moreover have "\<not> is_neural_rx pl ?a"
      by (simp add: is_neural_rx_def con_fallback_def default_constellation_def)
    ultimately show ?thesis using s(2) by (auto simp: con_fallback_def)
  qed
qed

lemma con_project_works:
  assumes ex: "exact pl" and sane: "sane pl a" and ord: "order_numeric a" and mx: "0 \<le> mx"
  shows "\<exists>a2 cs. project (constellation_invariant pl (default_constellation (Fin mx))) a ctx = Inr (a2, cs) \<and>
           sane pl a2 \<and> holds (constellation_invariant pl (default_constellation (Fin mx))) ctx a2 \<and>
           (\<forall>k. k \<notin> {''block'', FALLBACK_KEY, ''constellation_order'', ''papr_dB''} \<longrightarrow> a2 k = a k) \<and>
           (a2 ''block'' = a ''block'' \<or> \<not> is_neural_rx pl a2)"
proof (cases "con_applies pl a")
  case False
  then show ?thesis using sane
    by (auto simp: constellation_invariant_def con_project_def con_evaluate_def holds_def)
next
  case True
  from con_fix_order_works [OF ex sane ord] obtain a1 c1 m where
    a1: "con_fix_order pl (default_constellation (Fin mx)) a = Inr (a1, c1)" "sane pl a1"
      "py_int pl (dget a1 ''constellation_order'' (VInt 0)) = Inr m" "m \<in> set LEGAL_QAM_ORDERS"
      "\<And>k. k \<notin> {''block'', FALLBACK_KEY, ''constellation_order''} \<Longrightarrow> a1 k = a k"
      "a1 ''block'' = a ''block'' \<or> \<not> is_neural_rx pl a1" by metis
  from sane_papr [OF a1(2)] obtain q where q: "0 \<le> q" "fget pl a1 ''papr_dB'' (Fin 0) = Inr (Fin q)"
    by blast
  show ?thesis
  proof (cases "mx < q")
    case False
    then have "con_fix_papr pl (default_constellation (Fin mx)) a1 = Inr (a1, [])"
      using q by (simp add: con_fix_papr_def default_constellation_def)
    moreover have "holds (constellation_invariant pl (default_constellation (Fin mx))) ctx a1"
      using False a1(3,4) by (simp add: holds_con [OF ex q(2)] LEGAL_QAM_ORDERS_def)
    ultimately show ?thesis using True a1
      by (simp add: constellation_invariant_def con_project_def)
  next
    case False2: True
    let ?a = "con_fallback (default_constellation (Fin mx)) (a1(''papr_dB'' \<mapsto> VFloat (Fin mx)))"
    have "\<exists>v. con_fix_papr pl (default_constellation (Fin mx)) a1 = Inr (?a, [v])"
      using False2 q by (simp add: con_fix_papr_def default_constellation_def)
    moreover have "sane pl ?a" using a1(2) mx by (simp add: sane_iff con_fallback_def)
    moreover have "holds (constellation_invariant pl (default_constellation (Fin mx))) ctx ?a"
      by (subst holds_con [OF ex, where q = mx])
        (use a1(3,4) in \<open>simp_all add: con_fallback_def LEGAL_QAM_ORDERS_def\<close>)
    moreover have "\<not> is_neural_rx pl ?a"
      by (simp add: is_neural_rx_def con_fallback_def default_constellation_def)
    ultimately show ?thesis using True a1(1,5)
      by (auto simp: constellation_invariant_def con_project_def con_fallback_def)
  qed
qed

section \<open>One pass repairs a sane action\<close>

definition exact_chain :: "platform \<Rightarrow> real \<Rightarrow> real \<Rightarrow> real \<Rightarrow> real \<Rightarrow> real \<Rightarrow> real \<Rightarrow> shield_invariant list" where
  "exact_chain pl lo hi g mx papr tol = terrestrial_chain pl
     \<lparr>band_lo_hz = Fin lo, band_hi_hz = Fin hi, guard_band_hz = Fin g\<rparr> (Fin mx) None (Fin papr) (Fin tol)"

lemma blocked_cong: "a ''emit_blocked'' = b ''emit_blocked'' \<Longrightarrow> blocked a = blocked b"
  by (simp add: blocked_def dget_def)

lemma sanity_project_id: "sane pl a \<Longrightarrow> project (numeric_sanity pl) a ctx = Inr (a, [])"
  by (simp add: numeric_sanity_def sanity_project_def)

lemma pass_repairs:
  assumes ex: "exact pl" and sane: "sane pl a" and nb: "\<not> blocked a" and ord: "order_numeric a"
    and meas: "measurement_ok pl ctx" and lo: "0 \<le> lo + g" and papr: "0 \<le> papr"
    and bw: "fget pl a ''bandwidth_hz'' (Fin 0) = Inr (Fin bw)" and fits: "bw \<le> hi - lo - 2 * g"
  shows "\<exists>a' cs'. project_pass (exact_chain pl lo hi g mx papr tol) ctx a cs = Inr (a', cs') \<and>
           \<not> blocked a' \<and> (\<forall>i \<in> set (exact_chain pl lo hi g mx papr tol). holds i ctx a')"
proof -
  let ?M = "spectral_mask_invariant pl
             \<lparr>band_lo_hz = Fin lo, band_hi_hz = Fin hi, guard_band_hz = Fin g\<rparr>"
  let ?E = "max_eirp_invariant pl (Fin mx)"
  let ?N = "neural_rx_invariant pl (default_neural_rx (Fin tol))"
  let ?C = "constellation_invariant pl (default_constellation (Fin papr))"
  from mask_project_works [OF ex sane lo bw fits] obtain a1 c1 where
    a1: "project ?M a ctx = Inr (a1, c1)" "sane pl a1" "holds ?M ctx a1"
      "\<And>k. k \<noteq> ''frequency_hz'' \<Longrightarrow> a1 k = a k" by metis
  from eirp_project_works [OF ex a1(2)] obtain a2 c2 where
    a2: "project ?E a1 ctx = Inr (a2, c2)" "sane pl a2" "holds ?E ctx a2"
      "\<And>k. k \<noteq> ''tx_power_dBm'' \<Longrightarrow> a2 k = a1 k" by metis
  from nrx_project_works [OF ex a2(2) meas] obtain a3 c3 where
    a3: "project ?N a2 ctx = Inr (a3, c3)" "sane pl a3" "holds ?N ctx a3"
      "\<And>k. k \<notin> {''block'', FALLBACK_KEY, ''predicted_tbler''} \<Longrightarrow> a3 k = a2 k" by metis
  have ord3: "order_numeric a3" using ord a1(4) a2(4) a3(4) by (simp add: order_numeric_def)
  from con_project_works [OF ex a3(2) ord3 papr] obtain a4 c4 where
    a4: "project ?C a3 ctx = Inr (a4, c4)" "sane pl a4" "holds ?C ctx a4"
      "\<And>k. k \<notin> {''block'', FALLBACK_KEY, ''constellation_order'', ''papr_dB''} \<Longrightarrow> a4 k = a3 k"
      "a4 ''block'' = a3 ''block'' \<or> \<not> is_neural_rx pl a4" by metis
  have nbs: "\<not> blocked a1" "\<not> blocked a2" "\<not> blocked a3" "\<not> blocked a4"
    using nb blocked_cong [of a1 a] blocked_cong [of a2 a1] blocked_cong [of a3 a2]
      blocked_cong [of a4 a3] a1(4) a2(4) a3(4) a4(4) by simp_all
  have M: "holds ?M ctx a4"
    using a1(3) a2(4) a3(4) a4(4) mask_keys [of a4 a1] by simp
  have E: "holds ?E ctx a4"
    using a2(3) a3(4) a4(4) eirp_keys [of a4 a2] by simp
  have N: "holds ?N ctx a4"
    using a3(3) a4(4,5) nrx_keys [of a4 a3] not_neural_holds by fastforce
  have "project_pass (exact_chain pl lo hi g mx papr tol) ctx a cs = Inr (a4, cs @ c1 @ c2 @ c3 @ c4)"
    using nb nbs by (simp add: exact_chain_def terrestrial_chain_def li_prefix_def
        sanity_project_id sane a1(1) a2(1) a3(1) a4(1))
  then show ?thesis
    using nbs(4) M E N a4(2,3)
    by (simp add: exact_chain_def terrestrial_chain_def li_prefix_def holds_sanity)
qed

lemma exact_chain_shield:
  "default_terrestrial_shield pl (Fin lo) (Fin hi) (Fin mx) None (Fin papr) (Fin tol) (Fin g) =
     mk_shield (exact_chain pl lo hi g mx papr tol)"
  by (simp add: default_terrestrial_shield_def exact_chain_def)

lemma holds_all_clean:
  "\<forall>i \<in> set (invariants sh). holds i ctx a \<Longrightarrow>
   \<exists>ch. shield_check sh a ctx = Inr ch \<and> list_all satisfied ch"
  using clean_check_iff [of a ctx "invariants sh"] by (auto simp: holds_def shield_check_def)

text \<open>A pass that leaves every invariant satisfied ends the loop with a clean action.\<close>

lemma loop_repaired:
  assumes n: "1 < n" and ch: "shield_check sh a ctx = Inr ch0" and nb: "\<not> blocked a"
    and pass: "project_pass (invariants sh) ctx a cs = Inr (a', cs')" "\<not> blocked a'"
    and clean: "shield_check sh a' ctx = Inr ch" "list_all satisfied ch"
  shows "\<exists>a'' cs'' pr. dispose_loop sh ctx n a cs pr0 = Inr (a'', cs'', pr) \<and> \<not> blocked a'' \<and>
           (\<exists>ch. shield_check sh a'' ctx = Inr ch \<and> list_all satisfied ch)"
proof (cases "list_all satisfied ch0")
  case True
  with loop_clean [OF ch] ch nb show ?thesis by auto
next
  case False
  from n obtain k where "n = Suc k" by (cases n) auto
  with False ch pass clean loop_clean [OF clean] show ?thesis by auto
qed

lemma terrestrial_repaired:
  assumes "exact pl" and "sanity_problems pl a = []" and "\<not> blocked a" and "order_numeric a"
    and "measurement_ok pl ctx" and "0 \<le> lo + g" and "0 \<le> papr"
    and "fget pl a ''bandwidth_hz'' (Fin 0) = Inr (Fin bw)" and "bw \<le> hi - lo - 2 * g"
  shows "\<exists>d. dispose pl (default_terrestrial_shield pl (Fin lo) (Fin hi) (Fin mx) None (Fin papr)
               (Fin tol) (Fin g)) did now tier seed prov a ctx = Inr d \<and>
             \<not> cert_emit_blocked (disp_certificate d) \<and> cert_violated_ids (disp_certificate d) = []"
proof -
  let ?sh = "mk_shield (exact_chain pl lo hi g mx papr tol)"
  obtain a' cs' where pass: "project_pass (invariants ?sh) ctx a [] = Inr (a', cs')" "\<not> blocked a'"
    and all: "\<forall>i \<in> set (invariants ?sh). holds i ctx a'"
    using pass_repairs [OF assms(1-8) assms(9), of mx tol "[]"] by auto
  from holds_all_clean [OF all] obtain ch where ch: "shield_check ?sh a' ctx = Inr ch" "list_all satisfied ch"
    by blast
  have "\<exists>ch0. shield_check ?sh a ctx = Inr ch0"
    by (simp add: shield_check_def exact_chain_def terrestrial.check_total)
  then obtain ch0 where ch0: "shield_check ?sh a ctx = Inr ch0" by blast
  have "1 < (8 :: nat)" by simp
  from loop_repaired [OF this ch0 assms(3) pass ch] obtain a'' cs'' pr ch'' where
    "dispose_loop ?sh ctx 8 a [] False = Inr (a'', cs'', pr)" "\<not> blocked a''"
    "shield_check ?sh a'' ctx = Inr ch''" "list_all satisfied ch''" by metis
  then show ?thesis by (simp add: exact_chain_shield dispose_def no_unsatisfied [symmetric])
qed


end
