(* ===== verification/PlannerProps.thy ===== *)
theory PlannerProps
  imports Pipeline ShieldRepair
begin

text \<open>
  The planner and the Shield in the pipeline: payloads conform to the registered A1 schemas, a
  decision is always reached, and what the Shield and the guards refuse is a matter of configuration
  and time.
\<close>

section \<open>Rounding\<close>

text \<open>What IEEE-754 double arithmetic documents: rounding is monotone and keeps small integers.\<close>

definition ieee :: "platform \<Rightarrow> bool" where
  "ieee pl \<longleftrightarrow> (\<forall>x y. x \<le> y \<longrightarrow> rnd pl x \<le> rnd pl y) \<and>
              (\<forall>n. \<bar>n\<bar> \<le> 2 ^ 53 \<longrightarrow> rnd pl (of_int n) = Fin (of_int n))"

lemma exact_ieee: "exact pl \<Longrightarrow> ieee pl"
  by (simp add: ieee_def)

lemma ieee_int:
  assumes "ieee pl" "\<bar>n\<bar> \<le> 2 ^ 53"
  shows "rnd pl (of_int n) = Fin (of_int n)"
  using assms by (simp add: ieee_def)

lemma ieee_between:
  assumes "ieee pl" "of_int a \<le> x" "x \<le> of_int b" "\<bar>a\<bar> \<le> 2 ^ 53" "\<bar>b\<bar> \<le> 2 ^ 53"
  shows "\<exists>r. rnd pl x = Fin r \<and> of_int a \<le> r \<and> r \<le> of_int b"
proof -
  have "Fin (of_int a) \<le> rnd pl x" "rnd pl x \<le> Fin (of_int b)"
    using assms ieee_int [OF assms(1)] unfolding ieee_def by metis+
  then show ?thesis by (cases "rnd pl x") auto
qed

lemmas ieee_unit = ieee_between [where a = 0 and b = 1, simplified]
lemmas ieee_hundred = ieee_between [where a = 0 and b = 100, simplified]

lemma ieee_upto:
  fixes n :: int
  assumes "ieee pl" "0 \<le> x" "x \<le> of_int n" "0 \<le> n" "n \<le> 1000"
  obtains r where "rnd pl x = Fin r" "0 \<le> r" "r \<le> of_int n"
  using ieee_between [of pl 0 x n] assms by auto

lemma round_half_even_mono_bounds:
  fixes a b :: int
  assumes "of_int a \<le> r" "r \<le> of_int b"
  shows "a \<le> round_half_even r \<and> round_half_even r \<le> b"
proof -
  have f: "a \<le> \<lfloor>r\<rfloor>" "\<lfloor>r\<rfloor> \<le> b" using assms by (simp_all add: le_floor_iff floor_le_iff)
  moreover have "\<lfloor>r\<rfloor> + 1 \<le> b" if "r - of_int \<lfloor>r\<rfloor> > 0"
  proof -
    have "of_int \<lfloor>r\<rfloor> < (of_int b :: real)" using that assms(2) by linarith
    then show ?thesis by simp
  qed
  ultimately show ?thesis unfolding round_half_even_def Let_def
    by (smt (verit) field_sum_of_halves)
qed

lemma py_round1_bounds:
  fixes a b :: int
  assumes "ieee pl" "of_int a \<le> r" "r \<le> of_int b" "\<bar>a\<bar> \<le> 1000" "\<bar>b\<bar> \<le> 1000"
  shows "\<exists>s. py_round1 pl (Fin r) = Fin s \<and> of_int a \<le> s \<and> s \<le> of_int b"
proof -
  have "of_int (10 * a) \<le> r * 10" "r * 10 \<le> of_int (10 * b)" using assms(2,3) by simp_all
  from round_half_even_mono_bounds [OF this]
  have "real_of_int (10 * a) \<le> real_of_int (round_half_even (r * 10))"
    "real_of_int (round_half_even (r * 10)) \<le> real_of_int (10 * b)" by linarith+
  then have "of_int a \<le> real_of_int (round_half_even (r * 10)) / 10"
    "real_of_int (round_half_even (r * 10)) / 10 \<le> of_int b" by simp_all
  from ieee_between [OF assms(1) this] assms(4,5) show ?thesis by simp
qed

section \<open>The risk\<close>

lemma risk_range:
  assumes "ieee pl" "risk_of pl ev = Inr x"
  shows "\<exists>r. x = Fin r \<and> 0 \<le> r \<and> r \<le> 1"
proof -
  have d: "\<exists>r. rnd pl (1 / 20) = Fin r \<and> 0 \<le> r \<and> r \<le> 1"
    using ieee_unit [OF assms(1), of "1 / 20"] by auto
  have clamp: "\<exists>r. fmin (fmax (Fin y) (Fin 0)) (Fin 1) = Fin r \<and> 0 \<le> r \<and> r \<le> 1" for y by simp
  show ?thesis
  proof (cases "py_float pl (dget (te_payload ev) ''sla_risk_30s'' (VFloat (rnd pl (5 / 100))))")
    case (Inl e)
    then have "x = rnd pl (1 / 20)" using assms(2) by (auto simp: risk_of_def Let_def split: if_splits)
    then show ?thesis using d by simp
  next
    case (Inr y)
    then show ?thesis using assms(2) d clamp by (cases y) (auto simp: risk_of_def Let_def)
  qed
qed

text \<open>The only failure: an integer too large for a float.\<close>

lemma risk_fails_iff:
  "risk_of pl ev = Inl e \<longleftrightarrow>
   e = OverflowError \<and> py_float pl (dget (te_payload ev) ''sla_risk_30s'' (VFloat (rnd pl (5 / 100)))) = Inl OverflowError"
proof -
  let ?c = "py_float pl (dget (te_payload ev) ''sla_risk_30s'' (VFloat (rnd pl (5 / 100))))"
  show ?thesis
  proof (cases ?c)
    case (Inl e')
    then have "e' \<in> {TypeError, ValueError, OverflowError}" by (rule py_float_exn)
    with Inl show ?thesis by (auto simp: risk_of_def Let_def)
  next
    case (Inr y)
    then show ?thesis by (simp add: risk_of_def Let_def)
  qed
qed

section \<open>The payloads\<close>

lemma qos_conforms:
  "1 \<le> n \<Longrightarrow> n \<le> 15 \<Longrightarrow> conforms qos_schema (qos_payload n source did)"
  by (simp add: qos_schema_def qos_payload_def common_meta_def in_bounds_def)

lemma steering_conforms:
  "path \<in> {''terrestrial'', ''ntn'', ''hybrid''} \<Longrightarrow> 0 \<le> s \<Longrightarrow> s \<le> 100 \<Longrightarrow>
   conforms steering_schema (steering_payload path (Fin s) did)"
  by (auto simp: steering_schema_def steering_payload_def common_meta_def in_bounds_def)

lemma admission_conforms:
  "d \<in> {''accept'', ''reject''} \<Longrightarrow> conforms admission_schema (admission_payload [(''decision'', VStr d)] did)"
  "0 \<le> s \<Longrightarrow>
   conforms admission_schema
     (admission_payload [(''decision'', VStr ''defer''), (''defer_until_seconds'', VFloat (Fin s))] did)"
  by (auto simp: admission_schema_def admission_payload_def common_meta_def in_bounds_def)

text \<open>The schema a payload has to meet, and that it does.\<close>

definition valid_policy :: "string \<Rightarrow> pyval \<Rightarrow> bool" where
  "valid_policy name body = (case policy_schema name of Inl _ \<Rightarrow> False | Inr s \<Rightarrow> conforms s body)"

lemma candidates_valid:
  assumes "ieee pl" "0 \<le> r" "r \<le> 1"
  shows "\<exists>qos st ad. candidates pl ev (Fin r) did =
           Inr [(''horizon.qos.priority'', qos), (''horizon.traffic.steering'', st), (''horizon.admission.control'', ad)] \<and>
         valid_policy ''horizon.qos.priority'' qos \<and> valid_policy ''horizon.traffic.steering'' st \<and>
         valid_policy ''horizon.admission.control'' ad"
proof -
  obtain p where p: "rnd pl (r * 14) = Fin p" "0 \<le> p" "p \<le> 14"
    by (rule ieee_upto [OF assms(1), of "r * 14" 14]) (use assms in auto)
  obtain q where q: "rnd pl (r * 100) = Fin q" "0 \<le> q" "q \<le> 100"
    by (rule ieee_upto [OF assms(1), of "r * 100" 100]) (use assms in auto)
  obtain s where s: "py_round1 pl (Fin q) = Fin s" "0 \<le> s" "s \<le> 100"
    using py_round1_bounds [OF assms(1), of 0 q 100] q by auto
  obtain u where u: "rnd pl (270 * r) = Fin u" "0 \<le> u" "u \<le> 270"
    by (rule ieee_upto [OF assms(1), of "270 * r" 270]) (use assms in auto)
  obtain v where v: "rnd pl (30 + u) = Fin v" "0 \<le> v" "v \<le> 300"
    by (rule ieee_upto [OF assms(1), of "30 + u" 300]) (use u in auto)
  obtain w where w: "py_round1 pl (Fin v) = Fin w" "0 \<le> w"
    using py_round1_bounds [OF assms(1), of 0 v 300] v by auto
  show ?thesis
    using p q s u v w
    by (auto simp: candidates_def Let_def valid_policy_def policy_schema_def
        intro!: qos_conforms steering_conforms admission_conforms)
qed

text \<open>
  C7. The planner is well typed: on every IEEE platform, whatever the event's payload, if its risk can be
  read at all the planner proposes one policy of each band, each conforms to the JSON Schema under
  which its type is registered with the Near-RT RIC, and the band it chooses is one of them and a
  registered policy type.
\<close>

theorem planner_conforms:
  assumes "ieee pl" and "risk_of pl ev = Inr risk"
  shows "\<exists>cands. candidates pl ev risk did = Inr cands \<and>
           map fst cands = map fst (BAND_CENTRES pl) \<and> choose_policy pl risk \<in> set (map fst cands) \<and>
           (\<forall>(name, body) \<in> set cands. map_of DEFAULT_POLICY_TYPES name \<noteq> None \<and>
              (\<exists>s. policy_schema name = Inr s \<and> conforms s body))"
proof -
  obtain r where r: "risk = Fin r" "0 \<le> r" "r \<le> 1" using risk_range [OF assms] by blast
  from candidates_valid [OF assms(1) r(2,3)] obtain qos st ad where c: "candidates pl ev (Fin r) did =
      Inr [(''horizon.qos.priority'', qos), (''horizon.traffic.steering'', st), (''horizon.admission.control'', ad)]"
    "valid_policy ''horizon.qos.priority'' qos" "valid_policy ''horizon.traffic.steering'' st"
    "valid_policy ''horizon.admission.control'' ad" by blast
  then show ?thesis
    by (auto simp: r(1) BAND_CENTRES_def choose_policy_def DEFAULT_POLICY_TYPES_def valid_policy_def
        split: sum.splits)
qed

theorem planner_conforms_witness:
  "\<exists>cands. candidates exact_platform
       \<lparr>te_event_id = ''e'', te_source_id = ''s'', te_payload = [''sla_risk_30s'' \<mapsto> VInt 7]\<rparr> (Fin 1) ''d'' = Inr cands \<and>
     length cands = 3"
proof -
  have "risk_of exact_platform \<lparr>te_event_id = ''e'', te_source_id = ''s'', te_payload = [''sla_risk_30s'' \<mapsto> VInt 7]\<rparr> = Inr (Fin 1)"
    by (simp add: risk_of_def int_to_float_def Let_def)
  from planner_conforms [OF exact_ieee [OF exact_exact_platform] this, of "''d''"] show ?thesis
    by (metis (no_types, lifting) BAND_CENTRES_def length_map list.size(3) list.size(4) numeral_3_eq_3 One_nat_def add.right_neutral add_Suc_right)
qed

section \<open>The Shield on the planner's action\<close>

text \<open>The RF action in exact arithmetic, for a channel \<open>lo < hi\<close> with a positive centre.\<close>

definition rf_bw :: "real \<Rightarrow> real \<Rightarrow> real" where
  "rf_bw lo hi = min 20000000 (hi - lo)"

definition rf_tx :: "real \<Rightarrow> real" where
  "rf_tx mx = min 24 (mx - 9)"

definition rf_config :: "pipeline_config \<Rightarrow> real \<Rightarrow> real \<Rightarrow> real \<Rightarrow> bool" where
  "rf_config cfg lo hi mx \<longleftrightarrow>
     pc_band_lo_hz cfg = Fin lo \<and> pc_band_hi_hz cfg = Fin hi \<and> pc_max_eirp_dbm cfg = Fin mx \<and>
     lo < hi \<and> 0 < lo + hi"

definition standard_shield :: "platform \<Rightarrow> pipeline_config \<Rightarrow> shield" where
  "standard_shield pl cfg =
     default_terrestrial_shield pl (pc_band_lo_hz cfg) (pc_band_hi_hz cfg) (pc_max_eirp_dbm cfg)
       None (Fin (17 / 2)) (Fin 1) (Fin 0)"

lemma pipeline_new_shield:
  "pipeline_new pl sha ed ser parse fs path cfg = Inr p \<Longrightarrow> pp_shield p = standard_shield pl cfg \<and> pp_cfg p = cfg"
  by (auto simp: pipeline_new_def standard_shield_def bindE_eq_Inr Let_def split: if_splits)

lemma shield_action_fields:
  assumes "exact pl" "rf_config cfg lo hi mx" "a = shield_action pl cfg ptype payload"
  shows "fget pl a ''frequency_hz'' d = Inr (Fin ((lo + hi) / 2))"
    "fget pl a ''bandwidth_hz'' d = Inr (Fin (rf_bw lo hi))"
    "fget pl a ''tx_power_dBm'' d = Inr (Fin (rf_tx mx))"
    "fget pl a ''antenna_gain_dBi'' d = Inr (Fin 5)"
    "a ''tx_power_dBm'' = Some (VFloat (Fin (rf_tx mx)))"
  using assms(1,2)
  by (simp_all add: assms(3) shield_action_def rf_config_def fget_def rf_bw_def rf_tx_def)

lemma shield_action_sane:
  assumes "exact pl" "rf_config cfg lo hi mx"
  shows "sane pl (shield_action pl cfg ptype payload)"
  using assms
  by (simp add: sane_iff shield_action_def rf_config_def req_field_bad_def opt_field_bad_def dget_def)

lemma shield_action_plain:
  "\<not> is_neural_rx pl (shield_action pl cfg ptype payload)" "\<not> con_applies pl (shield_action pl cfg ptype payload)"
  "\<not> blocked (shield_action pl cfg ptype payload)"
  by (simp_all add: is_neural_rx_def con_applies_def blocked_def shield_action_def dget_def)

section \<open>Reaching a decision\<close>

lemma rejected_ok:
  assumes "\<forall>c \<in> set cs. risks_ok c"
  shows "\<exists>ras. build_rejected_alternatives pl fmt cs s soft seed = Inr ras"
proof -
  have "\<forall>c \<in> set (sort_desc cs). risks_ok c" using assms by (simp add: set_sort_desc)
  from reject_all [OF this, of 1 pl fmt s soft seed] show ?thesis
    unfolding build_rejected_alternatives_def by auto
qed

lemma clipped_fraction:
  assumes "ieee pl" "0 \<le> r" "r \<le> 1" "0 \<le> q" "q \<le> 2"
  shows "fraction (fmin (fmul pl (Fin r) (Fin q)) (Fin 1))"
proof -
  have "r * q \<le> 1 * 2" by (rule mult_mono) (use assms in auto)
  then obtain t where "rnd pl (r * q) = Fin t" "0 \<le> t"
    using ieee_upto [OF assms(1), of "r * q" 2] assms by auto
  then show ?thesis by (simp add: fraction_def)
qed

lemma outcome_fractions:
  assumes "ieee pl" "0 \<le> r" "r \<le> 1" "outcome_risks pl (Fin r) = (x, y, z)"
  shows "fraction x \<and> fraction y \<and> fraction z"
proof -
  obtain q where q: "rnd pl (11 / 10) = Fin q" "0 \<le> q" "q \<le> 2"
    using ieee_upto [OF assms(1), of "11 / 10" 2] by auto
  have "fraction (fmin (Fin r) (Fin 1))" using assms(2,3) by (simp add: fraction_def)
  then show ?thesis
    using clipped_fraction [OF assms(1-3) q(2,3)] clipped_fraction [OF assms(1-3), of "3 / 2"] assms(4) q(1)
    by (auto simp: outcome_risks_def)
qed

lemma outcome_total:
  assumes "ieee pl" "0 \<le> r" "r \<le> 1"
  shows "\<exists>o1. predicted_outcome_of pl (Fin r) = Inr o1 \<and> valid_outcome o1"
proof -
  obtain x y z where xyz: "outcome_risks pl (Fin r) = (x, y, z)" by (metis prod_cases3)
  from outcome_fractions [OF assms xyz] predicted_outcome_new_ok [of x y z] show ?thesis
    by (auto simp: predicted_outcome_of_def xyz)
qed

lemma alternatives_total:
  assumes "ieee pl" "0 \<le> r" "r \<le> 1"
  shows "\<exists>ras. build_rejected_alternatives pl fmt (alternatives pl (Fin r) chosen cands) s soft seed = Inr ras"
proof (rule rejected_ok, rule ballI)
  fix c assume c: "c \<in> set (alternatives pl (Fin r) chosen cands)"
  obtain x y z where xyz: "outcome_risks pl (Fin r) = (x, y, z)" by (metis prod_cases3)
  have "fraction (Fin r)" using assms(2,3) by (simp add: fraction_def)
  then show "risks_ok c" using c outcome_fractions [OF assms xyz]
    by (auto simp: alternatives_def risks_ok_def xyz Let_def)
qed

text \<open>The Shield accepts the planner's action as it is.\<close>

lemma shield_passes:
  assumes "exact pl" "rf_config cfg lo hi mx" "a = shield_action pl cfg ptype payload"
  shows "\<exists>d. dispose pl (standard_shield pl cfg) did now tier seed prov a ctx = Inr d \<and> safe_action d = a \<and>
           cert_action_safe (disp_certificate d) = a \<and>
           cert_corrections (disp_certificate d) = [] \<and> cert_safe (disp_certificate d) \<and>
           \<not> cert_emit_blocked (disp_certificate d) \<and> \<not> cert_projected (disp_certificate d)"
proof -
  let ?sh = "standard_shield pl cfg"
  note f = shield_action_fields [OF assms]
  have cfg: "pc_band_lo_hz cfg = Fin lo" "pc_band_hi_hz cfg = Fin hi" "pc_max_eirp_dbm cfg = Fin mx" "lo < hi"
    using assms(2) by (simp_all add: rf_config_def)
  have sane: "sane pl a" using shield_action_sane [OF assms(1,2)] by (simp add: assms(3))
  obtain q where q: "fget pl a ''papr_dB'' (Fin 0) = Inr (Fin q)" using sane_papr [OF sane] by blast
  have "rf_bw lo hi \<le> hi - lo" "rf_tx mx \<le> mx - 9" by (simp_all add: rf_bw_def rf_tx_def)
  then have "lo \<le> (lo + hi) / 2 - rf_bw lo hi / 2 \<and> (lo + hi) / 2 + rf_bw lo hi / 2 \<le> hi" "rf_tx mx + 5 \<le> mx"
    by (simp_all add: field_simps)
  then have "\<forall>i \<in> set (invariants ?sh). holds i ctx a"
    using holds_mask [OF assms(1) f(1,2), of lo hi 0 ctx] holds_eirp [OF assms(1) f(3,4), of mx ctx]
      holds_con [OF assms(1) q, of "17 / 2" ctx] not_neural_holds [of pl a] shield_action_plain [of pl cfg ptype payload]
      sane
    by (simp add: standard_shield_def default_terrestrial_shield_def terrestrial_chain_def li_prefix_def
        cfg(1-3) holds_sanity assms(3))
  then obtain ch where ch: "shield_check ?sh a ctx = Inr ch" "list_all satisfied ch"
    using holds_all_clean by blast
  have nb: "\<not> blocked a" using shield_action_plain by (simp add: assms(3))
  have "dispose pl ?sh did now tier seed prov a ctx =
      Inr (certify did now tier seed prov (py_str pl (dget a ''block'' (VStr ''unknown''))) a a ch [] False pl)"
    using loop_clean [OF ch] ch(1) by (simp add: dispose_def)
  then show ?thesis using ch(2) nb by (simp add: certify_safe_action no_unsatisfied)
qed

lemma tx_floor:
  assumes "exact pl" "rf_config cfg lo hi mx"
  shows "tx_floor_guard pl e (shield_action pl cfg ptype payload) =
    Inr (if - 1 \<le> mx then [] else
      [\<lparr>guard_id = ''tx_power_below_hw_floor'',
        guard_detail = Some (TxBelowFloor (Some (Fin (rf_tx mx))) MIN_VIABLE_TX_POWER_DBM e)\<rparr>])"
proof -
  have "shield_action pl cfg ptype payload ''tx_power_dBm'' = Some (VFloat (Fin (rf_tx mx)))"
    by (rule shield_action_fields(5) [OF assms refl])
  moreover have "rf_tx mx < - 10 \<longleftrightarrow> \<not> - 1 \<le> mx" by (auto simp: rf_tx_def min_def)
  ultimately show ?thesis
    by (simp add: tx_floor_guard_def Let_def MIN_VIABLE_TX_POWER_DBM_def)
qed

lemma decision_reached:
  assumes "exact pl" and "rf_config cfg lo hi mx" and "risk_of pl ev = Inr risk"
    and "p = \<lparr>pp_cfg = cfg, pp_shield = standard_shield pl cfg, pp_sign = None\<rparr>"
  shows "\<exists>dc. decide pl fmt msg p env ev = Inr dc \<and> dc_policy_type dc = choose_policy pl risk \<and>
           cert_safe (dc_certificate dc) \<and> \<not> cert_projected (dc_certificate dc) \<and>
           dr_corrections (dc_record dc) = [] \<and> dr_decision_id (dc_record dc) = pe_decision_id env \<and>
           (dc_failures dc = [] \<and> \<not> cert_emit_blocked (dc_certificate dc) \<longleftrightarrow>
              pe_elapsed_ms env \<le> pc_decision_budget_ms cfg \<and> - 1 \<le> mx)"
proof -
  have ie: "ieee pl" by (rule exact_ieee [OF assms(1)])
  obtain r where r: "risk = Fin r" "0 \<le> r" "r \<le> 1" using risk_range [OF ie assms(3)] by blast
  let ?pt = "choose_policy pl risk"
  obtain cands where c: "candidates pl ev risk (pe_decision_id env) = Inr cands"
    using candidates_valid [OF ie r(2,3)] r(1) by blast
  obtain ras where ras: "build_rejected_alternatives pl fmt (alternatives pl risk ?pt cands) (score pl risk ?pt)
      (rnd pl (1 / 1000000)) (pe_seed env) = Inr ras"
    using alternatives_total [OF ie r(2,3)] r(1) by blast
  obtain d where d: "dispose pl (standard_shield pl cfg) (pe_decision_id env) (pe_issued_at env) ''non_rt'' None None
      (shield_action pl cfg ?pt (the (map_of cands ?pt))) Map.empty = Inr d"
    "safe_action d = shield_action pl cfg ?pt (the (map_of cands ?pt))"
    "cert_corrections (disp_certificate d) = []" "cert_safe (disp_certificate d)"
    "\<not> cert_emit_blocked (disp_certificate d)" "\<not> cert_projected (disp_certificate d)"
    using shield_passes [OF assms(1,2) refl] by blast
  obtain o1 where o1: "predicted_outcome_of pl risk = Inr o1" using outcome_total [OF ie r(2,3)] r(1) by blast
  have chain: "run_guard_chain (Some (disp_certificate d)) True (pe_elapsed_ms env) None (pc_decision_budget_ms cfg) = [] \<longleftrightarrow>
      pe_elapsed_ms env \<le> pc_decision_budget_ms cfg"
    using d(3-5) by (simp add: chain_empty_iff emit_conditions_def)
  show ?thesis
    using c ras d o1 chain
    by (simp add: decide_def assms(3,4) Let_def sign_with_def guard_decision_def tx_floor [OF assms(1,2)]
        record_of_def del: exactD)
qed


definition plain_event :: telemetry_event where
  "plain_event = \<lparr>te_event_id = ''e'', te_source_id = ''s'', te_payload = Map.empty\<rparr>"

definition demo_env :: pipe_env where
  "demo_env = \<lparr>pe_decision_id = ''d'', pe_seed = 7, pe_state_hash = [], pe_issued_at = [], pe_timestamp = [],
     pe_elapsed_ms = Fin 3, pe_dry_run = None,
     pe_emit = \<lparr>require_cert = True, fresh_id = ''p'', call_time = 0, end_time = 1\<rparr>\<rparr>"

lemma default_rf_config: "rf_config pipeline_config_default 3400000000 3500000000 33"
  by (simp add: rf_config_def pipeline_config_default_def)

lemma plain_risk: "risk_of exact_platform plain_event = Inr (Fin (1 / 20))"
  by (simp add: risk_of_def plain_event_def dget_def Let_def)

text \<open>Format specifications and messages that show nothing.\<close>

definition no_fmt :: "float_format \<Rightarrow> pyfloat \<Rightarrow> string" where
  "no_fmt _ _ = []"

definition no_msg :: "violation \<Rightarrow> string" where
  "no_msg _ = []"


end
