(* ===== verification/EvidenceProps.thy ===== *)
theory EvidenceProps
  imports EvidenceBackends
begin

text \<open>
  The stores against one abstract specification (a list of linked rows), and what follows: appends
  always verify, the backends agree, a tenant's chain is independent of the others', the walk
  reports the first broken row, and two verified chains with the same head are the same unless the
  hashed bytes collide. The last property says what the walk does not protect.
\<close>

section \<open>The specification of an append\<close>

definition read_back :: "codec \<Rightarrow> decision_record \<Rightarrow> decision_record" where
  "read_back c r = (case parse_record c (canonical_json c r) of Inl e \<Rightarrow> r | Inr r' \<Rightarrow> r')"

definition link_hash :: "sha \<Rightarrow> codec \<Rightarrow> row list \<Rightarrow> decision_record \<Rightarrow> string" where
  "link_hash sha c rows r =
     (case chain sha (last_hash (tenant_of r) rows) (canonical_json c r) of Inl e \<Rightarrow> [] | Inr h \<Rightarrow> h)"

type_synonym append_op = "string option \<times> decision_record"

definition spec_append :: "sha \<Rightarrow> codec \<Rightarrow> row list \<Rightarrow> append_op \<Rightarrow> row list" where
  "spec_append sha c rows op =
     (let r = stamp (fst op) (snd op) in rows @ [(read_back c r, link_hash sha c rows r)])"

definition spec_rows :: "sha \<Rightarrow> codec \<Rightarrow> append_op list \<Rightarrow> row list" where
  "spec_rows sha c ops = foldl (spec_append sha c) [] ops"

definition storable_ops :: "codec \<Rightarrow> append_op list \<Rightarrow> bool" where
  "storable_ops c ops \<longleftrightarrow> list_all (\<lambda>(ctx, r). storable id c (stamp ctx r)) ops"

definition jsonl_appends :: "sha \<Rightarrow> codec \<Rightarrow> append_op list \<Rightarrow> jfile res" where
  "jsonl_appends sha c ops =
     runE (\<lambda>s (ctx, r). bindE (jsonl_append sha c ctx r s) (\<lambda>(s', h). Inr s')) [] ops"

definition sqlite_appends :: "sha \<Rightarrow> codec \<Rightarrow> append_op list \<Rightarrow> sq_row list res" where
  "sqlite_appends sha c ops =
     runE (\<lambda>s (ctx, r). bindE (sqlite_append sha c ctx r s) (\<lambda>(s', h). Inr s')) [] ops"

lemma spec_rows_Nil [simp]: "spec_rows sha c [] = []"
  by (simp add: spec_rows_def)

lemma spec_rows_snoc: "spec_rows sha c (ops @ [op]) = spec_append sha c (spec_rows sha c ops) op"
  by (simp add: spec_rows_def)

lemma read_back_props:
  assumes "storable id c r"
  shows "parse_record c (canonical_json c r) = Inr (read_back c r)"
    "canonical_json c (read_back c r) = canonical_json c r" "tenant_of (read_back c r) = tenant_of r"
  using storable_id [OF assms] by (auto simp: read_back_def)

lemma link_hash_eq:
  assumes "sha_ok sha" "intact sha c rows"
  shows "chain sha (last_hash (tenant_of r) rows) (canonical_json c r) = Inr (link_hash sha c rows r)"
proof -
  have "digest_ok (last_hash (tenant_of r) rows)" by (rule intact_digest [OF assms])
  from chain_total [OF this, where x = "canonical_json c r" and sha = sha] show ?thesis
    by (auto simp: link_hash_def)
qed

lemma spec_intact:
  "sha_ok sha \<Longrightarrow> storable_ops c ops \<Longrightarrow> intact sha c (spec_rows sha c ops)"
proof (induction ops rule: rev_induct)
  case Nil
  then show ?case by simp
next
  case (snoc op ops)
  obtain ctx r where op: "op = (ctx, r)" by force
  have st: "storable id c (stamp ctx r)" and ops: "storable_ops c ops"
    using snoc.prems(2) by (simp_all add: storable_ops_def op)
  have "intact sha c (spec_rows sha c ops)" using snoc.IH [OF snoc.prems(1) ops] .
  then show ?case
    using link_hash_eq [OF snoc.prems(1)] read_back_props [OF st]
    by (simp add: spec_rows_snoc spec_append_def Let_def op intact_snoc)
qed

section \<open>Both stores implement it\<close>

lemma jsonl_refines:
  "sha_ok sha \<Longrightarrow> storable_ops c ops \<Longrightarrow>
   \<exists>f. jsonl_appends sha c ops = Inr f \<and> jfile_ok c f \<and> jrows c f = spec_rows sha c ops"
proof (induction ops rule: rev_induct)
  case Nil
  then show ?case by (simp add: jsonl_appends_def jfile_ok_def jrows_def)
next
  case (snoc op ops)
  obtain ctx r where op: "op = (ctx, r)" by force
  define r1 where "r1 = stamp ctx r"
  have st: "storable id c r1" and ops: "storable_ops c ops"
    using snoc.prems(2) by (simp_all add: storable_ops_def op r1_def)
  from snoc.IH [OF snoc.prems(1) ops] obtain f where
    f: "jsonl_appends sha c ops = Inr f" "jfile_ok c f" "jrows c f = spec_rows sha c ops" by blast
  let ?h = "link_hash sha c (spec_rows sha c ops) r1"
  let ?f = "f @ [JRow ?h (Some (tenant_of r1)) (canonical_json c r1)]"
  have "jsonl_append sha c ctx r f = Inr (?f, ?h)"
    using link_hash_eq [OF snoc.prems(1) spec_intact [OF snoc.prems(1) ops], of r1]
    by (simp add: jsonl_append_def Let_def jsonl_last [OF f(2)] f(3) r1_def [symmetric])
  then have "jsonl_appends sha c (ops @ [op]) = Inr ?f"
    using f(1) by (simp add: jsonl_appends_def runE_append op)
  moreover have "jfile_ok c ?f" by (rule jfile_ok_snoc [OF st f(2)])
  moreover have "jrows c ?f = spec_rows sha c (ops @ [op])"
    using f(3) read_back_props(1) [OF st]
    by (simp add: jrows_def spec_rows_snoc spec_append_def op r1_def [symmetric])
  ultimately show ?case by blast
qed

lemma sqlite_refines:
  "sha_ok sha \<Longrightarrow> storable_ops c ops \<Longrightarrow> distinct (map (\<lambda>(ctx, r). dr_decision_id r) ops) \<Longrightarrow>
   \<exists>q. sqlite_appends sha c ops = Inr q \<and> table_ok c sq_tenant sq_payload q \<and>
       table_rows c sq_payload (\<lambda>q. to_hex (sq_hash q)) q = spec_rows sha c ops \<and>
       sq_decision_id ` set q = (\<lambda>(ctx, r). dr_decision_id r) ` set ops"
proof (induction ops rule: rev_induct)
  case Nil
  then show ?case by (simp add: sqlite_appends_def table_ok_def table_rows_def)
next
  case (snoc op ops)
  obtain ctx r where op: "op = (ctx, r)" by force
  define r1 where "r1 = stamp ctx r"
  have rid: "dr_decision_id r1 = dr_decision_id r" by (simp add: r1_def stamp_def)
  have st: "storable id c r1" and ops: "storable_ops c ops"
    using snoc.prems(2) by (simp_all add: storable_ops_def op r1_def)
  from snoc obtain q where
    q: "sqlite_appends sha c ops = Inr q" "table_ok c sq_tenant sq_payload q"
      "table_rows c sq_payload (\<lambda>q. to_hex (sq_hash q)) q = spec_rows sha c ops"
      "sq_decision_id ` set q = (\<lambda>(ctx, r). dr_decision_id r) ` set ops"
    using ops by auto
  have new: "dr_decision_id r1 \<notin> sq_decision_id ` set q"
    unfolding q(4) rid using snoc.prems(3) by (auto simp: op)
  let ?h = "link_hash sha c (spec_rows sha c ops) r1"
  have ch: "chain sha (last_hash (tenant_of r1) (spec_rows sha c ops)) (canonical_json c r1) = Inr ?h"
    by (rule link_hash_eq [OF snoc.prems(1) spec_intact [OF snoc.prems(1) ops]])
  obtain bs where bs: "from_hex ?h = Inr bs" "to_hex bs = ?h"
    using digest_roundtrip [OF chain_digest [OF snoc.prems(1) ch]] by blast
  let ?q = "q @ [\<lparr>sq_decision_id = dr_decision_id r1, sq_tenant = tenant_of r1,
                  sq_payload = canonical_json c r1, sq_hash = bs\<rparr>]"
  have "sqlite_append sha c ctx r q = Inr (?q, ?h)"
    using ch bs(1) new by (simp add: sqlite_append_def Let_def sqlite_last [OF q(2)] q(3) r1_def [symmetric])
  then have "sqlite_appends sha c (ops @ [op]) = Inr ?q"
    using q(1) by (simp add: sqlite_appends_def runE_append op)
  moreover have "table_ok c sq_tenant sq_payload ?q"
    using q(2) read_back_props [OF st] by (simp add: table_ok_def reads_back_def)
  moreover have "table_rows c sq_payload (\<lambda>q. to_hex (sq_hash q)) ?q = spec_rows sha c (ops @ [op])"
    using q(3) read_back_props(1) [OF st] bs(2)
    by (simp add: table_snoc spec_rows_snoc spec_append_def op r1_def [symmetric])
  moreover have "sq_decision_id ` set ?q = (\<lambda>(ctx, r). dr_decision_id r) ` set (ops @ [op])"
    using q(4) rid by (simp add: op)
  ultimately show ?case by blast
qed

text \<open>
  An honest log always verifies: any sequence of appends to a new JSONL store, under any
  tenants, succeeds, and the walk over what any auditor sees (all rows, or one tenant's) reports no
  broken record.
\<close>

theorem appends_verify:
  assumes "sha_ok sha" and "storable_ops c ops"
  shows "\<exists>f. jsonl_appends sha c ops = Inr f \<and>
             store_verify sha c (jsonl_iter c active f) = Inr (- 1) \<and>
             (\<exists>rows. jsonl_iter c None f = map Inr rows \<and> length rows = length ops \<and>
                     verify_tenant sha c t rows = Inr (- 1))"
proof -
  from jsonl_refines [OF assms] obtain f where
    f: "jsonl_appends sha c ops = Inr f" "jfile_ok c f" "jrows c f = spec_rows sha c ops" by blast
  have it: "jsonl_iter c None f = map Inr (spec_rows sha c ops)"
    using f by (simp add: jsonl_iter_rows)
  have int: "intact sha c (spec_rows sha c ops)" by (rule spec_intact [OF assms])
  have "jsonl.good sha c f" using f(2) it int by (auto simp: jsonl.good_def)
  then have "store_verify sha c (jsonl_iter c active f) = Inr (- 1)"
    by (rule jsonl.good_verifies [OF assms(1)])
  moreover have "length (spec_rows sha c ops) = length ops"
    by (induction ops rule: rev_induct) (simp_all add: spec_rows_snoc spec_append_def Let_def)
  moreover have "verify_tenant sha c t (spec_rows sha c ops) = Inr (- 1)"
    using intact_of_tenant [OF int] by (simp add: verify_tenant_eq verify_intact [OF assms(1)])
  ultimately show ?thesis using f(1) it by blast
qed

text \<open>
  C17. The backends are interchangeable: for decisions with distinct ids, appending the same records
  under the same scopes to a new JSONL file and to a new SQLite table succeeds in both, and every
  auditor reads the same records with the same hashes from either.
\<close>

theorem backends_agree:
  assumes "sha_ok sha" and "storable_ops c ops" and "distinct (map (\<lambda>(ctx, r). dr_decision_id r) ops)"
  shows "\<exists>f q. jsonl_appends sha c ops = Inr f \<and> sqlite_appends sha c ops = Inr q \<and>
               jsonl_iter c active f = sqlite_iter c active q"
proof -
  from jsonl_refines [OF assms(1,2)] obtain f where
    f: "jsonl_appends sha c ops = Inr f" "jfile_ok c f" "jrows c f = spec_rows sha c ops" by blast
  from sqlite_refines [OF assms] obtain q where
    q: "sqlite_appends sha c ops = Inr q" "table_ok c sq_tenant sq_payload q"
      "table_rows c sq_payload (\<lambda>q. to_hex (sq_hash q)) q = spec_rows sha c ops" by blast
  have "jsonl_iter c active f = sqlite_iter c active q"
    using f q by (cases active) (simp_all add: jsonl_iter_rows sqlite_iter_rows)
  with f(1) q(1) show ?thesis by blast
qed

section \<open>Tenants do not interfere\<close>

definition op_tenant :: "append_op \<Rightarrow> string" where
  "op_tenant op = tenant_of (stamp (fst op) (snd op))"

lemma of_tenant_spec:
  "storable_ops c ops \<Longrightarrow>
   of_tenant t (spec_rows sha c ops) = spec_rows sha c (filter (\<lambda>op. op_tenant op = t) ops)"
proof (induction ops rule: rev_induct)
  case Nil
  then show ?case by (simp add: of_tenant_def)
next
  case (snoc op ops)
  obtain ctx r where op: "op = (ctx, r)" by force
  define r1 where "r1 = stamp ctx r"
  have st: "storable id c r1" and ops: "storable_ops c ops"
    using snoc.prems by (simp_all add: storable_ops_def op r1_def)
  have t: "op_tenant op = tenant_of r1" by (simp add: op_tenant_def op r1_def)
  have IH: "of_tenant t (spec_rows sha c ops) = spec_rows sha c (filter (\<lambda>op. op_tenant op = t) ops)"
    by (rule snoc.IH [OF ops])
  have "link_hash sha c (spec_rows sha c ops) r1 = link_hash sha c (of_tenant t (spec_rows sha c ops)) r1"
    if "tenant_of r1 = t" using that by (simp add: link_hash_def)
  then show ?case
    using IH read_back_props(3) [OF st] t
    by (auto simp: spec_rows_snoc spec_append_def Let_def op r1_def [symmetric])
qed

text \<open>
  C16. Tenants do not interfere: what an auditor scoped to one tenant reads is exactly what the store
  would hold had the other tenants never written: the same records, hashes and order, however the
  appends interleave.
\<close>

theorem tenant_noninterference:
  assumes "sha_ok sha" and "storable_ops c ops"
  shows "\<exists>f g. jsonl_appends sha c ops = Inr f \<and>
               jsonl_appends sha c (filter (\<lambda>op. op_tenant op = t) ops) = Inr g \<and>
               jsonl_iter c (Some t) f = jsonl_iter c None g"
proof -
  have sub: "storable_ops c (filter (\<lambda>op. op_tenant op = t) ops)"
    using assms(2) by (auto simp: storable_ops_def list_all_iff)
  from jsonl_refines [OF assms] obtain f where
    f: "jsonl_appends sha c ops = Inr f" "jfile_ok c f" "jrows c f = spec_rows sha c ops" by blast
  from jsonl_refines [OF assms(1) sub] obtain g where
    g: "jsonl_appends sha c (filter (\<lambda>op. op_tenant op = t) ops) = Inr g" "jfile_ok c g"
      "jrows c g = spec_rows sha c (filter (\<lambda>op. op_tenant op = t) ops)" by blast
  have "jsonl_iter c (Some t) f = jsonl_iter c None g"
    using f g of_tenant_spec [OF assms(2), of t sha] by (simp add: jsonl_iter_rows)
  with f(1) g(1) show ?thesis by blast
qed

section \<open>What verification detects\<close>

text \<open>
  The walk is total and exact: on any rows, tampered or not, it returns -1 precisely when every
  row carries the hash of its payload over its tenant's previous row, and otherwise the index of the
  first row that does not.
\<close>

theorem verify_reports_first_broken:
  assumes "sha_ok sha"
  shows "(intact sha c rows \<and> verify sha c rows = Inr (- 1)) \<or>
         (\<exists>k < length rows. verify sha c rows = Inr (int k) \<and> intact sha c (take k rows) \<and>
            (\<exists>r h. rows ! k = (r, h) \<and>
               chain sha (last_hash (tenant_of r) (take k rows)) (canonical_json c r) \<noteq> Inr h))"
proof (cases "find (\<lambda>i. \<not> link_ok sha c rows i) [0..<length rows]")
  case None
  then have "intact sha c rows" by (auto simp: find_None_iff intact_def)
  then show ?thesis using verify_intact [OF assms] by blast
next
  case (Some k)
  then have k: "k < length rows" "\<not> link_ok sha c rows k" "\<forall>j < k. link_ok sha c rows j"
    by (auto simp: find_Some_iff)
  obtain r h where row: "rows ! k = (r, h)" by force
  have "verify sha c rows = Inr (int k)"
    using verify_spec [OF assms, of c rows] Some by (simp add: first_broken_def)
  moreover have "intact sha c (take k rows)"
    using k(1,3) by (auto simp: intact_def link_ok_def min_absorb1)
  moreover have "chain sha (last_hash (tenant_of r) (take k rows)) (canonical_json c r) \<noteq> Inr h"
    using k(2) row by (simp add: link_ok_def)
  ultimately show ?thesis using k(1) row by blast
qed

text \<open>
  C15. Tamper evidence: if two stores both verify for a tenant, hold as many of its records and end
  with the same hash, then they hold the same payloads and hashes in the same order, unless two of
  the byte strings actually hashed along the two chains collide.
\<close>

theorem tamper_evidence:
  assumes "sha_ok sha"
    and "verify_tenant sha c t xs = Inr (- 1)" and "verify_tenant sha c t ys = Inr (- 1)"
    and "length (of_tenant t xs) = length (of_tenant t ys)"
    and "last_hash t xs = last_hash t ys"
    and "\<not> collision sha (link_inputs c ZERO_HASH_HEX (of_tenant t xs))
                         (link_inputs c ZERO_HASH_HEX (of_tenant t ys))"
  shows "map (\<lambda>(r, h). (canonical_json c r, h)) (of_tenant t xs) =
         map (\<lambda>(r, h). (canonical_json c r, h)) (of_tenant t ys)"
proof (rule chains_agree [OF assms(1,4) _ _ _ _ _ assms(6)])
  show "intact sha c (of_tenant t xs)" "intact sha c (of_tenant t ys)"
    using assms(2,3) by (simp_all add: verify_tenant_eq verify_intact [OF assms(1)])
  show "last_hash t (of_tenant t xs) = last_hash t (of_tenant t ys)" using assms(5) by simp
qed (auto simp: of_tenant_def)

section \<open>What it does not detect\<close>

fun relabel :: "string \<Rightarrow> jline \<Rightarrow> jline" where
  "relabel t JBlank = JBlank"
| "relabel t (JRow h lbl p) = JRow h (Some t) p"

lemma relabel_iter: "jsonl_iter c None (xs @ map (relabel t) ys) = jsonl_iter c None (xs @ ys)"
proof -
  have "jsonl_iter c None (map (relabel t) ys) = jsonl_iter c None ys"
  proof (induction ys)
    case (Cons l ys)
    then show ?case by (cases l) (simp_all split: sum.split)
  qed simp
  then show ?thesis
  proof (induction xs)
    case (Cons l xs)
    then show ?case by (cases l) (simp_all split: sum.split)
  qed simp
qed

lemma relabel_hides:
  "t' \<noteq> [] \<Longrightarrow> t' \<noteq> t \<Longrightarrow> jfile_ok c ys \<Longrightarrow> jsonl_iter c (Some t) (map (relabel t') ys) = []"
proof (induction ys)
  case (Cons l ys)
  show ?case
  proof (cases l)
    case JBlank
    then show ?thesis using Cons by (simp add: jfile_ok_def)
  next
    case (JRow h lbl p)
    with Cons.prems(3) obtain r where "parse_record c p = Inr r"
      using jline_ok_JRow by (fastforce simp: jfile_ok_def)
    then show ?thesis using Cons JRow by (simp add: jfile_ok_def)
  qed
qed simp

lemma iter_append:
  "jfile_ok c xs \<Longrightarrow> jsonl_iter c active (xs @ ys) = jsonl_iter c active xs @ jsonl_iter c active ys"
proof (induction xs)
  case (Cons l xs)
  show ?case
  proof (cases l)
    case JBlank
    then show ?thesis using Cons by (simp add: jfile_ok_def)
  next
    case (JRow h lbl p)
    with Cons.prems obtain r where "parse_record c p = Inr r"
      using jline_ok_JRow by (fastforce simp: jfile_ok_def)
    then show ?thesis using Cons JRow by (simp add: jfile_ok_def)
  qed
qed simp

text \<open>
  The tenant label of a JSONL line is outside the hash. Rewriting it on the last lines of a
  store that verifies hides those records from their own tenant, and no walk notices: the walk over
  the whole file reads the same records with the same hashes, and the tenant's scoped walk sees an
  intact chain that ends earlier.
\<close>

theorem label_not_protected:
  assumes "sha_ok sha" and "jfile_ok c (xs @ ys)" and "t' \<noteq> []" and "t' \<noteq> t"
    and "store_verify sha c (jsonl_iter c None (xs @ ys)) = Inr (- 1)"
  shows "store_verify sha c (jsonl_iter c None (xs @ map (relabel t') ys)) = Inr (- 1) \<and>
         store_verify sha c (jsonl_iter c (Some t) (xs @ map (relabel t') ys)) = Inr (- 1) \<and>
         jsonl_iter c (Some t) (xs @ map (relabel t') ys) = jsonl_iter c (Some t) xs"
proof -
  have ok: "jfile_ok c xs" "jfile_ok c ys" using assms(2) by (simp_all add: jfile_ok_def)
  have hid: "jsonl_iter c (Some t) (xs @ map (relabel t') ys) = jsonl_iter c (Some t) xs"
    using iter_append [OF ok(1)] relabel_hides [OF assms(3,4) ok(2)] by simp
  have "intact sha c (jrows c (xs @ ys))"
    using assms(5) jsonl_iter_rows [OF assms(2), of None]
    by (simp add: store_verify_map verify_intact [OF assms(1)])
  then have "intact sha c (take (length (jrows c xs)) (jrows c (xs @ ys)))" by (rule intact_take)
  then have "intact sha c (jrows c xs)" by (simp add: jrows_def)
  then have "jsonl.good sha c xs" using ok(1) by (auto simp: jsonl.good_def jsonl_iter_rows)
  then have "store_verify sha c (jsonl_iter c (Some t) xs) = Inr (- 1)"
    by (rule jsonl.good_verifies [OF assms(1)])
  with hid relabel_iter assms(5) show ?thesis by simp
qed

section \<open>Witnesses\<close>

definition demo_sha :: sha where
  "demo_sha bs = replicate 62 (CHR ''0'') @ to_hex [sum_list bs mod 256]"

definition demo_versions :: model_versions where
  "demo_versions = \<lparr>mv_encoder = ''e1'', mv_risk_heads = ''r1'', mv_dyna = ''d1'', mv_policy = ''p1'',
     mv_constraint_layer = ''c1'', mv_rapp = ''a1''\<rparr>"

definition demo_outcome :: predicted_outcome where
  "demo_outcome = \<lparr>sla_risk_30s = Fin 0, sla_risk_1min = Fin 0, sla_risk_5min = Fin 0, gateway_loads = [],
     ntn_capacity_used = Fin 0, energy_kwh = Fin 0, po_constraint_violations = []\<rparr>"

definition demo_record :: "string \<Rightarrow> string option \<Rightarrow> decision_record" where
  "demo_record i t = \<lparr>dr_decision_id = i, dr_timestamp = ''t0'', dr_rapp_instance_id = ''rapp'',
     dr_tenant_id = t, dr_state_hash = ''s'', dr_state_blob_uri = None, dr_chosen_action = VDict [],
     dr_predicted = demo_outcome, dr_rejected = [], dr_corrections = [],
     dr_model_versions = demo_versions, dr_random_seed = None, dr_actual_30s = None,
     dr_actual_1min = None, dr_actual_5min = None, dr_operator_override = False,
     dr_override_reason = None, dr_sla_breach_context = None\<rparr>"

definition demo_codec :: codec where
  "demo_codec = \<lparr>canonical_json = (\<lambda>r. tenant_of r @ [CHR 0x1F] @ dr_decision_id r),
     parse_record = (\<lambda>p. Inr (demo_record (tl (dropWhile (\<lambda>ch. ch \<noteq> CHR 0x1F) p))
                                 (Some (takeWhile (\<lambda>ch. ch \<noteq> CHR 0x1F) p)))),
     json_tenant = (\<lambda>p. None)\<rparr>"

definition demo_ops :: "append_op list" where
  "demo_ops = [(Some ''a'', demo_record ''1'' None), (Some ''b'', demo_record ''2'' None),
               (Some ''a'', demo_record ''3'' None)]"

lemma hex_char_lower: "n < 16 \<Longrightarrow> lower_hex (hex_char n)"
  by (auto simp: lower_hex_def hex_char_def Let_def)

lemma demo_sha_ok: "sha_ok demo_sha"
proof -
  have "digest_ok (demo_sha bs)" for bs
  proof -
    have "sum_list bs mod 256 div 16 < 16" by (rule less_mult_imp_div_less) simp
    then have "lower_hex (hex_char (sum_list bs mod 256 div 16))" "lower_hex (hex_char (sum_list bs mod 256 mod 16))"
      by (intro hex_char_lower; simp)+
    then show ?thesis
      by (simp add: digest_ok_def demo_sha_def to_hex_def list_all_iff) (simp add: lower_hex_def)
  qed
  then show ?thesis by (simp add: sha_ok_def)
qed

lemma demo_storable: "storable_ops demo_codec demo_ops"
  by (simp add: storable_ops_def demo_ops_def storable_def demo_codec_def stamp_def demo_record_def
      resolve_tenant_def or_tenant_def tenant_of_def)

theorem appends_verify_witness:
  "\<exists>f. jsonl_appends demo_sha demo_codec demo_ops = Inr f \<and>
       store_verify demo_sha demo_codec (jsonl_iter demo_codec (Some ''a'') f) = Inr (- 1)"
  using appends_verify [OF demo_sha_ok demo_storable, of "Some ''a''" "''a''"] by blast

theorem backends_agree_witness:
  "\<exists>f q. jsonl_appends demo_sha demo_codec demo_ops = Inr f \<and>
         sqlite_appends demo_sha demo_codec demo_ops = Inr q \<and>
         jsonl_iter demo_codec None f = sqlite_iter demo_codec None q"
  by (rule backends_agree [OF demo_sha_ok demo_storable]) (simp add: demo_ops_def demo_record_def)

theorem tenant_noninterference_witness:
  "\<exists>f g. jsonl_appends demo_sha demo_codec demo_ops = Inr f \<and>
         jsonl_appends demo_sha demo_codec [demo_ops ! 1] = Inr g \<and>
         jsonl_iter demo_codec (Some ''b'') f = jsonl_iter demo_codec None g"
proof -
  have "filter (\<lambda>op. op_tenant op = ''b'') demo_ops = [demo_ops ! 1]"
    by (simp add: demo_ops_def op_tenant_def stamp_def demo_record_def tenant_of_def resolve_tenant_def or_tenant_def)
  then show ?thesis
    using tenant_noninterference [OF demo_sha_ok demo_storable, of "''b''"] by simp
qed

theorem verify_reports_first_broken_witness:
  "\<exists>k. verify demo_sha demo_codec [(demo_record ''1'' None, ''forged'')] = Inr (int k)"
proof -
  have "\<not> intact demo_sha demo_codec [(demo_record ''1'' None, ''forged'')]"
  proof
    assume i: "intact demo_sha demo_codec [(demo_record ''1'' None, ''forged'')]"
    have "digest_ok (last_hash UNSCOPED_TENANT [(demo_record ''1'' None, ''forged'')])"
      by (rule intact_digest [OF demo_sha_ok i])
    then show False
      by (simp add: last_hash_def tenant_of_def demo_record_def or_tenant_def digest_ok_def)
  qed
  then show ?thesis using verify_reports_first_broken [OF demo_sha_ok] by metis
qed

theorem tamper_evidence_witness:
  "\<exists>rows. rows \<noteq> [] \<and> map (\<lambda>(r, h). (canonical_json demo_codec r, h)) (of_tenant ''a'' rows) =
          map (\<lambda>(r, h). (canonical_json demo_codec r, h)) (of_tenant ''a'' (rows @ [(demo_record ''9'' (Some ''b''), [])]))"
proof -
  let ?rows = "spec_rows demo_sha demo_codec [hd demo_ops]"
  let ?more = "?rows @ [(demo_record ''9'' (Some ''b''), [])]"
  have st: "storable_ops demo_codec [hd demo_ops]"
    using demo_storable by (simp add: storable_ops_def demo_ops_def)
  have eq: "of_tenant ''a'' ?more = of_tenant ''a'' ?rows"
    by (simp add: of_tenant_def demo_record_def tenant_of_def or_tenant_def)
  have v: "verify_tenant demo_sha demo_codec ''a'' ?rows = Inr (- 1)"
    using intact_of_tenant [OF spec_intact [OF demo_sha_ok st]]
    by (simp add: verify_tenant_eq verify_intact [OF demo_sha_ok])
  have w: "verify_tenant demo_sha demo_codec ''a'' ?more = Inr (- 1)"
    using v eq by (simp add: verify_tenant_eq)
  have one: "length (link_inputs demo_codec ZERO_HASH_HEX (of_tenant ''a'' ?rows)) \<le> 1"
    by (simp add: spec_rows_def spec_append_def of_tenant_def Let_def split: sum.split)
  have self: "\<not> collision demo_sha xs xs" if "length xs \<le> 1" for xs
    using that by (cases xs) (simp_all add: collision_def)
  have nc: "\<not> collision demo_sha (link_inputs demo_codec ZERO_HASH_HEX (of_tenant ''a'' ?rows))
      (link_inputs demo_codec ZERO_HASH_HEX (of_tenant ''a'' ?more))"
    unfolding eq by (rule self [OF one])
  have lh: "last_hash ''a'' ?rows = last_hash ''a'' ?more"
    by (metis eq last_hash_of_tenant)
  have "?rows \<noteq> []" by (simp add: spec_rows_def spec_append_def Let_def)
  with tamper_evidence [OF demo_sha_ok v w _ lh nc] eq show ?thesis by auto
qed

theorem label_not_protected_witness:
  "\<exists>f. f \<noteq> [] \<and> store_verify demo_sha demo_codec (jsonl_iter demo_codec None (map (relabel ''b'') f)) = Inr (- 1) \<and>
       jsonl_iter demo_codec (Some ''a'') (map (relabel ''b'') f) = []"
proof -
  have st: "storable_ops demo_codec [hd demo_ops]"
    using demo_storable by (simp add: storable_ops_def demo_ops_def)
  from jsonl_refines [OF demo_sha_ok st] obtain f where
    f: "jfile_ok demo_codec f" "jrows demo_codec f = spec_rows demo_sha demo_codec [hd demo_ops]" by blast
  have "f \<noteq> []" using f(2) by (auto simp: jrows_def spec_rows_def spec_append_def Let_def)
  moreover have "store_verify demo_sha demo_codec (jsonl_iter demo_codec None ([] @ f)) = Inr (- 1)"
    using f spec_intact [OF demo_sha_ok st]
    by (simp add: jsonl_iter_rows store_verify_map verify_intact [OF demo_sha_ok])
  moreover have "jfile_ok demo_codec ([] @ f)" using f(1) by simp
  ultimately show ?thesis
    using label_not_protected [OF demo_sha_ok, of demo_codec "[]" f "''b''" "''a''"] by auto
qed

end
