(* ===== verification/PipelineProps.thy ===== *)
theory PipelineProps
  imports PlannerProps EvidenceProps
begin

text \<open>
  Properties of whole runs of the pipeline: what may leave, what is recorded, how many requests a
  decision costs, and that the evidence chain stays intact over any sequence of events.
\<close>

section \<open>What a decision contains\<close>

text \<open>The condition under which \<open>act\<close> goes on to the adapter.\<close>

definition cleared :: "pipe_env \<Rightarrow> decision \<Rightarrow> bool" where
  "cleared env dc \<longleftrightarrow> dc_failures dc = [] \<and> \<not> cert_emit_blocked (dc_certificate dc) \<and> \<not> env_truthy (pe_dry_run env)"

lemma sign_with_sel:
  assumes "pipeline_new pl sha ed ser parse fs path cfg = Inr p" "sign_with (pp_sign p) c = Inr c'"
  shows "cert_safe c' = cert_safe c \<and> cert_emit_blocked c' = cert_emit_blocked c \<and>
         cert_corrections c' = cert_corrections c \<and> cert_action_safe c' = cert_action_safe c"
proof (cases "pp_sign p")
  case None
  then show ?thesis using assms(2) by (simp add: sign_with_def)
next
  case (Some f)
  have "\<exists>k. \<forall>c. f c = signed_certificate sha ed ser c k"
    using assms(1) Some by (auto simp: pipeline_new_def Let_def bindE_eq_Inr split: if_splits)
  then obtain k where "f c = signed_certificate sha ed ser c k" by blast
  then show ?thesis using assms(2) Some signed_certificate_sel [of sha ed ser c k c'] by (simp add: sign_with_def)
qed

lemma mapE_Nil_iff: "mapE f xs = Inr ys \<Longrightarrow> ys = [] \<longleftrightarrow> xs = []"
  by (cases xs) (auto simp: bindE_eq_Inr)

text \<open>What the pipeline knows of a decision no guard objects to.\<close>

definition sound_decision :: "platform \<Rightarrow> pipeline \<Rightarrow> pipe_env \<Rightarrow> decision \<Rightarrow> bool" where
  "sound_decision pl p env dc \<longleftrightarrow>
     (let c = dc_certificate dc; s = cert_action_safe c
      in cert_safe c \<and> (\<forall>i \<in> set (invariants (pp_shield p)). \<exists>k. evaluate i s Map.empty = Inr k \<and> satisfied k) \<and>
         pe_elapsed_ms env \<le> pc_decision_budget_ms (pp_cfg p) \<and>
         (cert_corrections c \<noteq> [] \<longrightarrow> dr_corrections (dc_record dc) \<noteq> []) \<and>
         (\<exists>x. py_float pl (dget s ''tx_power_dBm'' VNone) = Inr x \<and> \<not> x < MIN_VIABLE_TX_POWER_DBM))"

lemma tx_floor_passed:
  "tx_floor_guard pl e s = Inr [] \<Longrightarrow>
   \<exists>x. py_float pl (dget s ''tx_power_dBm'' VNone) = Inr x \<and> \<not> x < MIN_VIABLE_TX_POWER_DBM"
  by (auto simp: tx_floor_guard_def Let_def bindE_eq_Inr split: if_splits sum.splits option.splits)

lemma decide_cases:
  assumes "decide pl fmt msg p env ev = Inr dc"
  obtains risk cands ras d cert corr fails o1 where
    "risk_of pl ev = Inr risk" "candidates pl ev risk (pe_decision_id env) = Inr cands"
    "dispose pl (pp_shield p) (pe_decision_id env) (pe_issued_at env) ''non_rt'' None None
       (shield_action pl (pp_cfg p) (choose_policy pl risk) (the (map_of cands (choose_policy pl risk)))) Map.empty = Inr d"
    "sign_with (pp_sign p) (disp_certificate d) = Inr cert"
    "mapE (correction_of msg) (cert_corrections cert) = Inr corr"
    "guard_decision pl (pp_cfg p) (pe_elapsed_ms env) cert corr (safe_action d) = Inr fails"
    "dc = \<lparr>dc_policy_type = choose_policy pl risk, dc_payload = the (map_of cands (choose_policy pl risk)),
       dc_record = record_of (pp_cfg p) env (chosen_action_of ev (choose_policy pl risk)
         (the (map_of cands (choose_policy pl risk))) (safe_action d) cert) o1 ras corr,
       dc_failures = fails, dc_certificate = cert\<rparr>"
  using assms by (auto simp: decide_def bindE_eq_Inr Let_def)

lemma cleared_sound:
  assumes "pipeline_new pl sha ed ser parse fs path cfg = Inr p"
    and "decide pl fmt msg p env ev = Inr dc" and "dc_failures dc = []" "\<not> cert_emit_blocked (dc_certificate dc)"
  shows "sound_decision pl p env dc"
proof -
  from assms(2) obtain risk cands ras d cert corr fails o1 where
    disp: "dispose pl (pp_shield p) (pe_decision_id env) (pe_issued_at env) ''non_rt'' None None
       (shield_action pl (pp_cfg p) (choose_policy pl risk) (the (map_of cands (choose_policy pl risk)))) Map.empty = Inr d"
    and sgn: "sign_with (pp_sign p) (disp_certificate d) = Inr cert"
    and corr: "mapE (correction_of msg) (cert_corrections cert) = Inr corr"
    and grd: "guard_decision pl (pp_cfg p) (pe_elapsed_ms env) cert corr (safe_action d) = Inr fails"
    and dc: "dc = \<lparr>dc_policy_type = choose_policy pl risk, dc_payload = the (map_of cands (choose_policy pl risk)),
       dc_record = record_of (pp_cfg p) env (chosen_action_of ev (choose_policy pl risk)
         (the (map_of cands (choose_policy pl risk))) (safe_action d) cert) o1 ras corr,
       dc_failures = fails, dc_certificate = cert\<rparr>"
    by (rule decide_cases)
  note sel = sign_with_sel [OF assms(1) sgn]
  have blk: "\<not> cert_emit_blocked (disp_certificate d)" using assms(4) sel dc by simp
  have fl: "fails = []" using assms(3) dc by simp
  have cs: "cert_action_safe cert = safe_action d" "cert_safe cert"
    using sel disp blk by (auto elim!: dispose_cases)
  have "run_guard_chain (Some cert) True (pe_elapsed_ms env)
      (if corr = [] then None else Some (map correction_dump corr)) (pc_decision_budget_ms (pp_cfg p)) = []"
    "tx_floor_guard pl (pc_max_eirp_dbm (pp_cfg p)) (safe_action d) = Inr []"
    using grd fl by (auto simp: guard_decision_def bindE_eq_Inr)
  then have "pe_elapsed_ms env \<le> pc_decision_budget_ms (pp_cfg p)" and
    "\<exists>x. py_float pl (dget (safe_action d) ''tx_power_dBm'' VNone) = Inr x \<and> \<not> x < MIN_VIABLE_TX_POWER_DBM"
    by (auto simp: chain_empty_iff emit_conditions_def dest: tx_floor_passed)
  moreover have "cert_corrections cert \<noteq> [] \<longrightarrow> corr \<noteq> []" using mapE_Nil_iff [OF corr] by simp
  ultimately show ?thesis
    using dispose_unblocked(1) [OF disp blk] cs by (simp add: sound_decision_def dc record_of_def Let_def)
qed

section \<open>Effects of an emission\<close>

lemma act_not_cleared:
  assumes "\<not> cleared env dc" "act pl pb http persist acfg cfg env ev dc a = (a', out)"
  shows "a1_world a' = a1_world a \<and> a1_emitted a' = a1_emitted a \<and> a1_breaker a' = a1_breaker a"
  using assms
  by (auto simp: act_def cleared_def store_append_def Let_def split: if_splits prod.splits option.splits)

text \<open>The four ways \<open>act\<close> can go.\<close>

lemma annotate_sel [simp]:
  "dr_tenant_id (annotate k v r) = dr_tenant_id r" "dr_decision_id (annotate k v r) = dr_decision_id r"
  by (simp_all add: annotate_def)

lemma act_refused:
  assumes "\<not> cleared env dc"
  shows "\<exists>r. fst (act pl pb http persist acfg cfg env ev dc a) = fst (store_append persist r a) \<and>
           dr_tenant_id r = dr_tenant_id (dc_record dc)"
proof (cases "dc_failures dc \<noteq> [] \<or> cert_emit_blocked (dc_certificate dc)")
  case True
  let ?r = "annotate ''block_reasons'' (VList (map VStr (if dc_failures dc = [] then [''shield_blocked'']
      else map guard_id (dc_failures dc)))) (annotate ''emit_blocked'' (VBool True) (dc_record dc))"
  show ?thesis
    by (rule exI [of _ ?r]) (use True in \<open>simp add: act_def Let_def split: prod.split option.split\<close>)
next
  case False
  then have dry: "env_truthy (pe_dry_run env)" using assms by (simp add: cleared_def)
  show ?thesis
    by (rule exI [of _ "annotate ''dry_run'' (VBool True) (dc_record dc)"])
      (use False dry in \<open>simp add: act_def Let_def split: prod.split option.split\<close>)
qed

lemma act_emitted:
  assumes clr: "cleared env dc"
    and em: "emit_policy pb http persist acfg (pe_emit env) (dc_policy_type dc) (dc_payload dc) None
               (Some (dc_record dc)) (Some (dc_certificate dc)) a = (a1, res)"
  shows "res = Emitted pid st \<Longrightarrow> act pl pb http persist acfg cfg env ev dc a =
     finish_accepted pl http acfg cfg (no_policy env ev (dc_policy_type dc)) pid st False a1"
  using clr em by (simp add: act_def cleared_def Let_def)

lemma act_unaudited:
  assumes clr: "cleared env dc"
    and em: "emit_policy pb http persist acfg (pe_emit env) (dc_policy_type dc) (dc_payload dc) None
               (Some (dc_record dc)) (Some (dc_certificate dc)) a = (a1, res)"
  shows "res = PersistFailed pid st e \<Longrightarrow> act pl pb http persist acfg cfg env ev dc a =
     finish_accepted pl http acfg cfg (no_policy env ev (dc_policy_type dc)) pid st True
       (fst (store_append persist (annotate ''evidence_persist_failed'' (VBool True) (dc_record dc)) a1))"
  using clr em by (simp add: act_def cleared_def Let_def)

lemma act_failed:
  assumes clr: "cleared env dc"
    and em: "emit_policy pb http persist acfg (pe_emit env) (dc_policy_type dc) (dc_payload dc) None
               (Some (dc_record dc)) (Some (dc_certificate dc)) a = (a1, res)"
  shows "res = EmitRaised e \<Longrightarrow> fst (act pl pb http persist acfg cfg env ev dc a) =
     fst (store_append persist (annotate ''emit_failed'' (VBool True) (dc_record dc)) a1)"
  using clr em by (simp add: act_def cleared_def Let_def split: prod.split option.split)

lemma finish_world:
  assumes "finish_accepted pl http acfg cfg res0 pid st f b = (b', out)"
  shows "\<exists>o3. poll_loop pl http acfg (pr_policy_type res0) pid (poll_attempts cfg) (None, None) b = (b', o3)"
  using assms by (auto simp: finish_accepted_def poll_enforcement_def split: sum.splits prod.splits)

lemma request_sel [simp]:
  "request http r a = (a', out) \<Longrightarrow> a1_store a' = a1_store a"
  "request http r a = (a', out) \<Longrightarrow> a1_attached a' = a1_attached a"
  "request http r a = (a', out) \<Longrightarrow> a1_emitted a' = a1_emitted a"
  by (auto simp: request_def split: prod.splits)

lemma status_sel:
  "get_policy_status http acfg ptype pid a = (a', out) \<Longrightarrow>
   a1_store a' = a1_store a \<and> a1_attached a' = a1_attached a \<and> a1_emitted a' = a1_emitted a"
  by (auto simp: get_policy_status_def fetch_def split: option.splits prod.splits outcome.splits dest: request_sel)

lemma poll_sel:
  "poll_loop pl http acfg ptype pid n st a = (a', out) \<Longrightarrow>
   a1_store a' = a1_store a \<and> a1_attached a' = a1_attached a \<and> a1_emitted a' = a1_emitted a"
proof (induction n arbitrary: st a)
  case (Suc n)
  obtain a1 r where g: "get_policy_status http acfg ptype pid a = (a1, r)" by (metis prod.exhaust)
  from Suc.prems Suc.IH [of _ a1] status_sel [OF g] show ?case
    by (auto simp: g Let_def split: sum.splits if_splits pyval.splits)
qed simp

section \<open>Authorisation\<close>

lemma run_authorised:
  assumes "pipeline_new pl sha ed ser parse fs path cfg = Inr p"
    and "process_event pl fmt msg pb http persist acfg p env ev a = (a', out)"
    and "a1_world a' \<noteq> a1_world a \<or> a1_emitted a' \<noteq> a1_emitted a"
  shows "\<exists>dc. decide pl fmt msg p env ev = Inr dc \<and> sound_decision pl p env dc \<and>
           dc_failures dc = [] \<and> \<not> env_truthy (pe_dry_run env) \<and>
           map_of (policy_types acfg) (dc_policy_type dc) \<noteq> None"
proof -
  obtain dc where dc: "decide pl fmt msg p env ev = Inr dc"
    using assms(2,3) by (cases "decide pl fmt msg p env ev") (auto simp: process_event_def)
  then have act: "act pl pb http persist acfg (pp_cfg p) env ev dc a = (a', out)"
    using assms(2) by (simp add: process_event_def)
  have clr: "cleared env dc" using act_not_cleared [OF _ act] assms(3) by blast
  obtain a1 res where em: "emit_policy pb http persist acfg (pe_emit env) (dc_policy_type dc) (dc_payload dc) None
      (Some (dc_record dc)) (Some (dc_certificate dc)) a = (a1, res)" by (metis prod.exhaust)
  have "emit_allowed acfg (pe_emit env) (dc_policy_type dc) (Some (dc_certificate dc))"
  proof (rule ccontr)
    assume "\<not> ?thesis"
    note ref = emit_refused [OF this]
    have "(a, EmitRaised (PyExn ValueError)) = (a1, res)"
      unfolding em [symmetric] by (rule ref [symmetric])
    then have "a1 = a" "res = EmitRaised (PyExn ValueError)" by simp_all
    then show False using act clr assms(3)
      by (auto simp: act_def em cleared_def store_append_def Let_def split: prod.splits)
  qed
  then have "map_of (policy_types acfg) (dc_policy_type dc) \<noteq> None" by (simp add: emit_allowed_def)
  moreover have "sound_decision pl p env dc"
    using cleared_sound [OF assms(1) dc] clr by (simp add: cleared_def)
  ultimately show ?thesis using dc clr by (auto simp: cleared_def)
qed


section \<open>The audit trail\<close>

lemma store_append_ok:
  assumes "\<forall>r s. snd (persist r s) = None"
  shows "store_append persist r a = (a\<lparr>a1_store := fst (persist r (a1_store a))\<rparr>, None)"
  using assms [rule_format, of r "a1_store a"]
  by (cases "persist r (a1_store a)") (simp add: store_append_def)

text \<open>The one record a run leaves, by its outcome.\<close>

definition audit_record :: "decision_record \<Rightarrow> a1_exn + pipeline_result \<Rightarrow> decision_record \<Rightarrow> bool" where
  "audit_record rec out r \<longleftrightarrow>
     (case out of
        Inl e \<Rightarrow> r = rec \<or> r = annotate ''emit_failed'' (VBool True) rec
      | Inr res \<Rightarrow>
          if pr_accepted res then r = rec
          else if pr_blocked res then
            r = annotate ''block_reasons'' (VList (map VStr (pr_block_reasons res))) (annotate ''emit_blocked'' (VBool True) rec)
          else if pr_dry_run res then r = annotate ''dry_run'' (VBool True) rec
          else pr_emit_failed res \<and> r = annotate ''emit_failed'' (VBool True) rec)"

lemma emit_store:
  assumes "\<forall>r s. snd (persist r s) = None" "a1_attached a"
    and "emit_policy pb http persist acfg env ptype payload pid (Some rec) cert a = (a', res)"
  shows "(\<exists>p st. res = Emitted p st \<and> a1_store a' = fst (persist rec (a1_store a))) \<or>
         (\<exists>e. res = EmitRaised e \<and> a1_store a' = a1_store a)"
proof (cases res)
  case (Emitted p st)
  then show ?thesis using emit_accepted [OF assms(3), of p st] assms(2) by (simp add: audited_def)
next
  case (PersistFailed p st e)
  then show ?thesis using emit_accepted [OF assms(3), of p st e] assms(1,2) by (simp add: audited_def)
next
  case (EmitRaised e)
  then show ?thesis using emit_raised assms(3) by blast
qed


section \<open>The pipeline over a hash-chained store\<close>

text \<open>Whatever a run does, it touches the store only by appending records without a tenant of their own.\<close>

lemma emit_store_inv:
  assumes "P (a1_store a)" and "\<And>s. P s \<Longrightarrow> P (fst (persist rec s))"
    and "emit_policy pb http persist acfg env ptype payload pid (Some rec) cert a = (a', res)"
  shows "P (a1_store a')"
proof -
  have "P (fst (audited persist (Some rec) (a1_attached a) (a1_store a)))" using assms(1,2) by (simp add: audited_def)
  moreover have "P (a1_store a')" if "res = EmitRaised e" for e
    using emit_raised [of pb http persist acfg env ptype payload pid "Some rec" cert a a' e] assms(1,3) that by simp
  ultimately show ?thesis using emit_accepted [OF assms(3)] by (cases res) auto
qed

lemma act_store_inv:
  assumes "P (a1_store a)" and step: "\<And>r s. P s \<Longrightarrow> dr_tenant_id r = None \<Longrightarrow> P (fst (persist r s))"
    and ten: "dr_tenant_id (dc_record dc) = None"
  shows "P (a1_store (fst (act pl pb http persist acfg cfg env ev dc a)))"
proof -
  have app: "P (a1_store (fst (store_append persist r b)))" if "P (a1_store b)" "dr_tenant_id r = None" for r b
    using step [OF that] by (cases "persist r (a1_store b)") (simp add: store_append_def)
  have fin: "P (a1_store (fst (finish_accepted pl http acfg cfg res0 pid st f b)))" if "P (a1_store b)"
    for b res0 pid st f
  proof -
    obtain b' out where f: "finish_accepted pl http acfg cfg res0 pid st f b = (b', out)" by (metis prod.exhaust)
    from finish_world [OF f] poll_sel have "a1_store b' = a1_store b" by blast
    then show ?thesis using that f by simp
  qed
  obtain a1 res where em: "emit_policy pb http persist acfg (pe_emit env) (dc_policy_type dc) (dc_payload dc) None
      (Some (dc_record dc)) (Some (dc_certificate dc)) a = (a1, res)" by (metis prod.exhaust)
  have a1: "P (a1_store a1)" by (rule emit_store_inv [where P = P, OF assms(1) _ em]) (rule step [OF _ ten])
  show ?thesis
  proof (cases "cleared env dc")
    case False
    from act_refused [OF False] app [OF assms(1)] ten show ?thesis by metis
  next
    case True
    have u: "P (a1_store (fst (store_append persist (annotate k v (dc_record dc)) a1)))" for k v
      by (rule app [OF a1]) (simp add: ten)
    show ?thesis
      using fin [OF a1] fin [OF u] u act_emitted [OF True em] act_unaudited [OF True em] act_failed [OF True em]
      by (cases res) simp_all
  qed
qed

text \<open>The JSONL store as the pipeline sees it, in the tenant scope \<open>ctx\<close>.\<close>

definition jsonl_persist :: "sha \<Rightarrow> codec \<Rightarrow> string option \<Rightarrow> jfile persist" where
  "jsonl_persist sha c ctx r f =
     (case jsonl_append sha c ctx r f of Inl e \<Rightarrow> (f, Some e) | Inr (f', _) \<Rightarrow> (f', None))"

definition scope_storable :: "codec \<Rightarrow> string option \<Rightarrow> bool" where
  "scope_storable c ctx \<longleftrightarrow> (\<forall>r. dr_tenant_id r = None \<longrightarrow> storable id c (stamp ctx r))"

definition chained :: "sha \<Rightarrow> codec \<Rightarrow> string option \<Rightarrow> ('b, 'w, jfile) a1 \<Rightarrow> bool" where
  "chained sha c ctx a \<longleftrightarrow> sha_ok sha \<and> scope_storable c ctx \<and> jsonl.good sha c (a1_store a)"

definition pipeline_step ::
  "platform \<Rightarrow> (float_format \<Rightarrow> pyfloat \<Rightarrow> string) \<Rightarrow> (violation \<Rightarrow> string) \<Rightarrow> 'b pybreaker \<Rightarrow> 'w http \<Rightarrow>
   sha \<Rightarrow> codec \<Rightarrow> string option \<Rightarrow> a1_config \<Rightarrow> pipeline \<Rightarrow> ('b, 'w, jfile) a1 \<Rightarrow> pipe_env \<times> telemetry_event \<Rightarrow>
   ('b, 'w, jfile) a1" where
  "pipeline_step pl fmt msg pb http sha c ctx acfg p a x =
     fst (process_event pl fmt msg pb http (jsonl_persist sha c ctx) acfg p (fst x) (snd x) a)"

lemma persist_good:
  assumes "sha_ok sha" "scope_storable c ctx" "jsonl.good sha c f" "dr_tenant_id r = None"
  shows "jsonl.good sha c (fst (jsonl_persist sha c ctx r f))"
proof (cases "jsonl_append sha c ctx r f")
  case (Inl e)
  then show ?thesis using assms(3) by (simp add: jsonl_persist_def)
next
  case (Inr x)
  obtain f' h where x: "x = (f', h)" by force
  have "storable id c (stamp ctx r)" using assms(2,4) by (simp add: scope_storable_def)
  from jsonl.good_append [OF assms(1,3) this Inr [unfolded x]] show ?thesis
    by (simp add: jsonl_persist_def Inr x)
qed

lemma decide_tenant: "decide pl fmt msg p env ev = Inr dc \<Longrightarrow> dr_tenant_id (dc_record dc) = None"
  by (auto elim!: decide_cases simp: record_of_def)

lemma process_chained:
  assumes "chained sha c ctx a"
  shows "chained sha c ctx (pipeline_step pl fmt msg pb http sha c ctx acfg p a x)"
proof (cases "decide pl fmt msg p (fst x) (snd x)")
  case (Inl e)
  then show ?thesis using assms by (simp add: pipeline_step_def process_event_def)
next
  case (Inr dc)
  have ok: "sha_ok sha" "scope_storable c ctx" "jsonl.good sha c (a1_store a)" using assms by (simp_all add: chained_def)
  have "jsonl.good sha c (a1_store (fst (act pl pb http (jsonl_persist sha c ctx) acfg (pp_cfg p) (fst x) (snd x) dc a)))"
    by (rule act_store_inv [where P = "jsonl.good sha c", OF ok(3) _ decide_tenant [OF Inr]])
      (rule persist_good [OF ok(1,2)])
  then show ?thesis using ok by (simp add: chained_def pipeline_step_def process_event_def Inr)
qed

interpretation pipeline_run: total_machine "pipeline_step pl fmt msg pb http sha c ctx acfg p" "chained sha c ctx"
  for pl fmt msg pb http sha c ctx acfg p
  by unfold_locales (rule process_chained)

text \<open>
  The pipeline keeps the evidence verifiable: over an intact JSONL store, after any sequence of
  events and whatever the planner, the Shield, the breaker and the network function do meanwhile,
  the walk over the hash chain reports no broken record to any auditor.
\<close>

theorem pipeline_keeps_chain:
  assumes "sha_ok sha" and "scope_storable c ctx" and "jsonl.good sha c (a1_store a)"
  shows "store_verify sha c (jsonl_iter c auditor
           (a1_store (run (pipeline_step pl fmt msg pb http sha c ctx acfg p) a events))) = Inr (- 1)"
proof -
  have "chained sha c ctx a" using assms by (simp add: chained_def)
  from pipeline_run.run_keeps [OF this] show ?thesis
    using jsonl.good_verifies [OF assms(1)] by (simp add: chained_def)
qed

section \<open>Requests\<close>

text \<open>An HTTP client that keeps a log of its requests.\<close>

definition logged :: "'w http \<Rightarrow> (http_request list \<times> 'w) http" where
  "logged http r lw = (case http r (snd lw) of (w, out) \<Rightarrow> ((fst lw @ [r], w), out))"

abbreviation requests :: "('b, http_request list \<times> 'w, 's) a1 \<Rightarrow> http_request list" where
  "requests a \<equiv> fst (a1_world a)"

lemma logged_fst: "fst (logged http r lw) = (fst lw @ [r], fst (http r (snd lw)))"
  by (simp add: logged_def split: prod.split)

lemma request_logs: "request (logged http) r a = (a', out) \<Longrightarrow> requests a' = requests a @ [r]"
  by (auto simp: request_def logged_def split: prod.splits)

lemma status_logs:
  "get_policy_status (logged http) acfg ptype pid a = (a', out) \<Longrightarrow>
   \<exists>gets. requests a' = requests a @ gets \<and> length gets \<le> 1 \<and> (\<forall>r \<in> set gets. req_method r = GET)"
  by (fastforce simp: get_policy_status_def fetch_def split: option.splits prod.splits outcome.splits
      dest: request_logs)

lemma poll_logs:
  "poll_loop pl (logged http) acfg ptype pid n st a = (a', out) \<Longrightarrow>
   \<exists>gets. requests a' = requests a @ gets \<and> length gets \<le> n \<and> (\<forall>r \<in> set gets. req_method r = GET)"
proof (induction n arbitrary: st a)
  case (Suc n)
  obtain a1 r where g: "get_policy_status (logged http) acfg ptype pid a = (a1, r)" by (metis prod.exhaust)
  from status_logs [OF g] obtain gs where gs: "requests a1 = requests a @ gs" "length gs \<le> 1"
    "\<forall>r \<in> set gs. req_method r = GET" by blast
  have "a' = a1 \<or> (\<exists>st'. poll_loop pl (logged http) acfg ptype pid n st' a1 = (a', out))"
    using Suc.prems by (cases st) (auto simp: g Let_def split: sum.splits if_splits pyval.splits)
  then show ?case
  proof
    assume "a' = a1"
    then show ?thesis using gs by (intro exI [of _ gs]) simp
  next
    assume "\<exists>st'. poll_loop pl (logged http) acfg ptype pid n st' a1 = (a', out)"
    then obtain more where "requests a' = requests a1 @ more" "length more \<le> n" "\<forall>r \<in> set more. req_method r = GET"
      using Suc.IH by blast
    then show ?thesis using gs by (intro exI [of _ "gs @ more"]) auto
  qed
qed simp

lemma emit_world:
  assumes "P (a1_world a)" "\<And>spec q. P (fst (http (put_request acfg spec q payload) (a1_world a)))"
  shows "P (a1_world (fst (emit_policy pb http persist acfg env ptype payload pid rec cert a)))"
  using assms
  by (simp add: emit_policy_def request_def Let_def case_prod_unfold split: option.split sum.split outcome.split)

lemma put_request_method [simp]: "req_method (put_request acfg spec q payload) = PUT"
  by (simp add: put_request_def Let_def)

lemma emit_logs:
  assumes "emit_policy pb (logged http) persist acfg env ptype payload pid rec cert a = (a', res)"
  shows "\<exists>puts. requests a' = requests a @ puts \<and> length puts \<le> 1 \<and> (\<forall>r \<in> set puts. req_method r = PUT)"
proof -
  let ?P = "\<lambda>w. \<exists>puts. fst w = requests a @ puts \<and> length puts \<le> 1 \<and> (\<forall>r \<in> set puts. req_method r = PUT)"
  have "?P (a1_world (fst (emit_policy pb (logged http) persist acfg env ptype payload pid rec cert a)))"
    by (rule emit_world [where P = ?P]) (simp, simp add: logged_fst)
  then show ?thesis using assms by simp
qed

lemma finish_logs:
  assumes "finish_accepted pl (logged http) acfg cfg res0 pid st f b = (b', out)"
  shows "\<exists>gets. requests b' = requests b @ gets \<and> int (length gets) \<le> max 1 (pc_status_poll_attempts cfg) \<and>
           (\<forall>r \<in> set gets. req_method r = GET)"
  using finish_world [OF assms] poll_logs [of pl http acfg _ pid "poll_attempts cfg"] by (fastforce simp: poll_attempts_def)

lemma append_world: "a1_world (fst (store_append persist r a)) = a1_world a"
  by (simp add: store_append_def split: prod.split)

text \<open>
  A decision costs a bounded number of requests: one event sends at most one PUT, and after it
  at most as many status queries as configured (one when the configuration says fewer).
\<close>

theorem requests_bounded:
  assumes "process_event pl fmt msg pb (logged http) persist acfg p env ev a = (a', out)"
  shows "\<exists>puts gets. requests a' = requests a @ puts @ gets \<and>
           length puts \<le> 1 \<and> (\<forall>r \<in> set puts. req_method r = PUT) \<and>
           int (length gets) \<le> max 1 (pc_status_poll_attempts (pp_cfg p)) \<and> (\<forall>r \<in> set gets. req_method r = GET)"
proof (cases "decide pl fmt msg p env ev")
  case (Inl e)
  then show ?thesis using assms by (intro exI [of _ "[]"]) (simp add: process_event_def)
next
  case (Inr dc)
  then have act: "act pl pb (logged http) persist acfg (pp_cfg p) env ev dc a = (a', out)"
    using assms by (simp add: process_event_def)
  show ?thesis
  proof (cases "cleared env dc")
    case False
    from act_not_cleared [OF this act] show ?thesis by (intro exI [of _ "[]"]) simp
  next
    case True
    obtain a1 res where em: "emit_policy pb (logged http) persist acfg (pe_emit env) (dc_policy_type dc) (dc_payload dc) None
        (Some (dc_record dc)) (Some (dc_certificate dc)) a = (a1, res)" by (metis prod.exhaust)
    from emit_logs [OF em] obtain puts where puts: "requests a1 = requests a @ puts" "length puts \<le> 1"
      "\<forall>r \<in> set puts. req_method r = PUT" by blast
    let ?b = "fst (store_append persist (annotate ''evidence_persist_failed'' (VBool True) (dc_record dc)) a1)"
    note fin = finish_logs [of pl http acfg "pp_cfg p" "no_policy env ev (dc_policy_type dc)"]
    have "\<exists>gets. requests a' = requests a1 @ gets \<and> int (length gets) \<le> max 1 (pc_status_poll_attempts (pp_cfg p)) \<and>
        (\<forall>r \<in> set gets. req_method r = GET)"
    proof (cases res)
      case (Emitted pid st)
      then show ?thesis using fin [of pid st False a1 a' out] act_emitted [OF True em, where pl = pl and cfg = "pp_cfg p"] act by simp
    next
      case (PersistFailed pid st e)
      then show ?thesis
        using fin [of pid st True ?b a' out] act_unaudited [OF True em, where pl = pl and cfg = "pp_cfg p"] act
        by (simp add: append_world)
    next
      case (EmitRaised e)
      then have "a1_world a' = a1_world a1"
        using act_failed [OF True em EmitRaised, where pl = pl and cfg = "pp_cfg p" and ev = ev] act append_world
        by (metis fst_conv)
      then show ?thesis by (intro exI [of _ "[]"]) simp
    qed
    then show ?thesis using puts by (metis append.assoc)
  qed
qed

section \<open>A malformed risk\<close>

text \<open>
  One telemetry field stops the loop: an integer risk too large for a float raises out of
  \<open>process_event\<close> before anything is recorded, although every other malformed risk is replaced by
  the default.
\<close>

theorem huge_risk_escapes:
  assumes "te_payload ev ''sla_risk_30s'' = Some (VInt n)" and "\<not> isfinite (rnd pl (of_int n))"
  shows "process_event pl fmt msg pb http persist acfg p env ev a = (a, Inl (PyExn OverflowError))"
  using assms by (simp add: process_event_def decide_def risk_of_def int_to_float_def Let_def)

section \<open>Witnesses\<close>

definition demo_breaker :: "bool pybreaker" where
  "demo_breaker = \<lparr>pb_state = (\<lambda>_. ''closed''), pb_opened_at = (\<lambda>_. None), pb_fail_counter = (\<lambda>_. 0),
     pb_half_open = (\<lambda>s. (s, [])), pb_handle_error = (\<lambda>_ s. (s, [])), pb_handle_success = (\<lambda>s. (s, [])),
     pb_close = (\<lambda>s. (s, []))\<rparr>"

definition demo_http :: "nat http" where
  "demo_http r w = (Suc w, Returned \<lparr>resp_status = 200, resp_json = Inr (VDict [(''status'', VStr ''OK'')])\<rparr>)"

definition list_persist :: "decision_record list persist" where
  "list_persist r s = (s @ [r], None)"

definition start_a1 :: "'w \<Rightarrow> 's \<Rightarrow> (bool, 'w, 's) a1" where
  "start_a1 w s = \<lparr>a1_breaker = True, a1_world = w, a1_emitted = 0, a1_attached = True, a1_store = s, a1_events = []\<rparr>"

definition demo_pipeline :: pipeline where
  "demo_pipeline = \<lparr>pp_cfg = pipeline_config_default,
     pp_shield = standard_shield exact_platform pipeline_config_default, pp_sign = None\<rparr>"

lemma demo_pipeline_new:
  "pipeline_new exact_platform sha ed ser parse fs None pipeline_config_default = Inr demo_pipeline"
  by (simp add: pipeline_new_def demo_pipeline_def standard_shield_def Let_def)

lemma demo_decision:
  obtains dc where "decide exact_platform fmt msg demo_pipeline demo_env plain_event = Inr dc" "cleared demo_env dc"
    "emit_allowed a1_config_default (pe_emit demo_env) (dc_policy_type dc) (Some (dc_certificate dc))"
proof -
  from decision_reached [OF exact_exact_platform default_rf_config plain_risk demo_pipeline_def, of fmt msg demo_env]
  obtain dc where dc: "decide exact_platform fmt msg demo_pipeline demo_env plain_event = Inr dc"
    "dc_policy_type dc = ''horizon.qos.priority''" "cert_safe (dc_certificate dc)" "dc_failures dc = []"
    "\<not> cert_emit_blocked (dc_certificate dc)"
    by (auto simp: demo_env_def pipeline_config_default_def choose_policy_def band_mid_def)
  show ?thesis
    by (rule that [OF dc(1)])
      (use dc in \<open>simp_all add: cleared_def demo_env_def env_truthy_def emit_allowed_def a1_config_default_def
        DEFAULT_POLICY_TYPES_def cert_required_ok_def\<close>)
qed

lemma demo_emits:
  assumes "emit_allowed acfg env ptype (Some c)"
  shows "\<exists>a' pid. emit_policy demo_breaker demo_http list_persist acfg env ptype payload None (Some r) (Some c)
           (start_a1 0 []) = (a', Emitted pid 200)"
  using assms
  by (auto simp: emit_allowed_def emit_policy_def demo_breaker_def call_begin_def call_end_def request_def
      demo_http_def list_persist_def start_a1_def Let_def)

lemma demo_run:
  "\<exists>a' out. process_event exact_platform fmt msg demo_breaker demo_http list_persist a1_config_default demo_pipeline
     demo_env plain_event (start_a1 0 []) = (a', out) \<and> a1_emitted a' = 1"
proof -
  obtain dc where dc: "decide exact_platform fmt msg demo_pipeline demo_env plain_event = Inr dc" "cleared demo_env dc"
    "emit_allowed a1_config_default (pe_emit demo_env) (dc_policy_type dc) (Some (dc_certificate dc))"
    by (rule demo_decision)
  obtain a1 pid where em: "emit_policy demo_breaker demo_http list_persist a1_config_default (pe_emit demo_env)
      (dc_policy_type dc) (dc_payload dc) None (Some (dc_record dc)) (Some (dc_certificate dc)) (start_a1 0 []) = (a1, Emitted pid 200)"
    using demo_emits [OF dc(3)] by blast
  have "a1_emitted a1 = 1" using emit_accepted [OF em, of pid 200] by (simp add: start_a1_def)
  moreover obtain b out where f: "finish_accepted exact_platform demo_http a1_config_default (pp_cfg demo_pipeline)
      (no_policy demo_env plain_event (dc_policy_type dc)) pid 200 False a1 = (b, out)" by (metis prod.exhaust)
  moreover from finish_world [OF f] poll_sel have "a1_emitted b = a1_emitted a1" by blast
  ultimately show ?thesis
    using act_emitted [OF dc(2) em refl, of exact_platform "pp_cfg demo_pipeline" plain_event]
    by (simp add: process_event_def dc(1))
qed



lemma demo_scope: "scope_storable demo_codec (Some ''a'')"
  by (simp add: scope_storable_def storable_def demo_codec_def stamp_def demo_record_def
      resolve_tenant_def or_tenant_def tenant_of_def)

theorem pipeline_keeps_chain_witness:
  "store_verify demo_sha demo_codec (jsonl_iter demo_codec None
     (a1_store (run (pipeline_step exact_platform no_fmt no_msg demo_breaker demo_http demo_sha demo_codec (Some ''a'')
        a1_config_default demo_pipeline) (start_a1 0 []) [(demo_env, plain_event), (demo_env, plain_event)]))) = Inr (- 1)"
proof (rule pipeline_keeps_chain [OF demo_sha_ok demo_scope])
  show "jsonl.good demo_sha demo_codec (a1_store (start_a1 0 []))"
    by (rule jsonl.good_empty) (simp_all add: start_a1_def jfile_ok_def)
qed

theorem requests_bounded_witness:
  "\<exists>a' puts gets. requests a' = puts @ gets \<and> length puts \<le> 1 \<and> int (length gets) \<le> 3 \<and>
     (\<exists>out. process_event exact_platform no_fmt no_msg demo_breaker (logged demo_http) list_persist a1_config_default
        demo_pipeline demo_env plain_event (start_a1 ([], 0) []) = (a', out))"
proof -
  obtain a' out where run: "process_event exact_platform no_fmt no_msg demo_breaker (logged demo_http) list_persist
      a1_config_default demo_pipeline demo_env plain_event (start_a1 ([], 0) []) = (a', out)" by (metis prod.exhaust)
  from requests_bounded [OF run] run show ?thesis
    by (auto simp: start_a1_def demo_pipeline_def pipeline_config_default_def)
qed

definition bounded_platform :: platform where
  "bounded_platform = exact_platform\<lparr>rnd := (\<lambda>r. if r < 10 ^ 308 then Fin r else PInf)\<rparr>"

theorem huge_risk_escapes_witness:
  "process_event bounded_platform no_fmt no_msg demo_breaker demo_http list_persist a1_config_default demo_pipeline demo_env
     (plain_event\<lparr>te_payload := [''sla_risk_30s'' \<mapsto> VInt (10 ^ 400)]\<rparr>) (start_a1 0 []) =
   (start_a1 0 [], Inl (PyExn OverflowError))"
  by (rule huge_risk_escapes [where n = "10 ^ 400"]) (simp_all add: bounded_platform_def)

end
