(* ===== verification/Jwt.thy ===== *)
theory Jwt
  imports PyValue
begin

text \<open>
  JWT issuance and key rotation (\<open>security/jwt.py\<close>). The encoder and decoder of python-jose and the PEM
  library are the parameter \<open>jose\<close>; \<open>jose_ok\<close> states what its documentation promises; tokens are opaque. Times are real
  seconds; the two clock readings of a verification are two arguments.
\<close>

section \<open>The parameter\<close>

type_synonym claims = "(string \<times> pyval) list"

record ('k, 'p, 't) jose =
  load_rsa :: "string \<Rightarrow> 'k res"
  public_of :: "'k \<Rightarrow> 'p"
  jwt_encode :: "claims \<Rightarrow> 'k \<Rightarrow> 't"
  jwt_decode :: "'t \<Rightarrow> 'p \<Rightarrow> string \<Rightarrow> string \<Rightarrow> real \<Rightarrow> claims res"

abbreviation JWTError :: py_exn where
  "JWTError \<equiv> OtherExn ''JWTError''"

section \<open>The manager\<close>

record ('k, 'p) jwt_key =
  private_key :: 'k
  public_key :: 'p
  retire_at :: "real option"

record ('k, 'p) jwt_manager =
  jm_issuer :: string
  jm_audience :: string
  jm_overlap :: int
  jm_active :: "('k, 'p) jwt_key"
  jm_retired :: "('k, 'p) jwt_key list"

definition OVERLAP_WINDOW_DEFAULT_SEC :: int where
  "OVERLAP_WINDOW_DEFAULT_SEC = 24 * 3600"

definition MAX_CLOCK_SKEW_SECONDS :: real where
  "MAX_CLOCK_SKEW_SECONDS = 60"

definition load_active_key :: "('k, 'p, 't) jose \<Rightarrow> string \<Rightarrow> ('k, 'p) jwt_key res" where
  "load_active_key jose path =
     bindE (load_rsa jose path) (\<lambda>k. Inr \<lparr>private_key = k, public_key = public_of jose k, retire_at = None\<rparr>)"

definition jwt_new :: "('k, 'p, 't) jose \<Rightarrow> string \<Rightarrow> string \<Rightarrow> string \<Rightarrow> int \<Rightarrow> ('k, 'p) jwt_manager res" where
  "jwt_new jose path issuer audience overlap =
     bindE (load_active_key jose path) (\<lambda>k.
       Inr \<lparr>jm_issuer = issuer, jm_audience = audience, jm_overlap = overlap, jm_active = k, jm_retired = []\<rparr>)"

text \<open>\<open>mint_token\<close>; \<open>roles\<close> of \<open>None\<close> is refused, and the clock is truncated to an int.\<close>

definition mint_token ::
  "('k, 'p, 't) jose \<Rightarrow> real \<Rightarrow> string \<Rightarrow> string \<Rightarrow> string \<Rightarrow> string list option \<Rightarrow> int \<Rightarrow> ('k, 'p) jwt_manager \<Rightarrow> 't res" where
  "mint_token jose now jti subject tenant roles ttl m =
     (if subject = [] \<or> tenant = [] then Inl ValueError
      else case roles of
             None \<Rightarrow> Inl ValueError
           | Some rs \<Rightarrow>
               Inr (jwt_encode jose
                 [(''sub'', VStr subject), (''tenant'', VStr tenant), (''roles'', VList (map VStr rs)),
                  (''iss'', VStr (jm_issuer m)), (''aud'', VStr (jm_audience m)), (''iat'', VInt (trunc now)),
                  (''exp'', VInt (trunc now + ttl)), (''jti'', VStr jti)]
                 (private_key (jm_active m))))"

definition prune_retired_keys :: "real \<Rightarrow> ('k, 'p) jwt_manager \<Rightarrow> ('k, 'p) jwt_manager" where
  "prune_retired_keys now m =
     m\<lparr>jm_retired := filter (\<lambda>k. case retire_at k of None \<Rightarrow> True | Some t \<Rightarrow> t > now - MAX_CLOCK_SKEW_SECONDS)
                      (jm_retired m)\<rparr>"

definition keys_to_try :: "real \<Rightarrow> ('k, 'p) jwt_manager \<Rightarrow> ('k, 'p) jwt_key list" where
  "keys_to_try now m =
     jm_active m # filter (\<lambda>k. case retire_at k of None \<Rightarrow> True | Some t \<Rightarrow> t > now) (jm_retired m)"

text \<open>
  The loop over the keys: a decoder error moves on to the next key and is raised at the end; any
  other exception and a missing claim are raised at once.
\<close>

definition has_required :: "claims \<Rightarrow> bool" where
  "has_required claims \<longleftrightarrow> list_all (\<lambda>c. c \<in> fst ` set claims) [''sub'', ''tenant'', ''roles'']"

fun try_keys ::
  "('k, 'p, 't) jose \<Rightarrow> 't \<Rightarrow> string \<Rightarrow> string \<Rightarrow> real \<Rightarrow> ('k, 'p) jwt_key list \<Rightarrow> py_exn \<Rightarrow> claims res" where
  "try_keys jose token aud iss now [] last_err = Inl last_err"
| "try_keys jose token aud iss now (k # ks) last_err =
     (case jwt_decode jose token (public_key k) aud iss now of
        Inl e \<Rightarrow> (if e = JWTError then try_keys jose token aud iss now ks e else Inl e)
      | Inr claims \<Rightarrow>
          (if has_required claims then Inr claims else Inl JWTError))"

definition verify_token ::
  "('k, 'p, 't) jose \<Rightarrow> real \<Rightarrow> real \<Rightarrow> 't \<Rightarrow> ('k, 'p) jwt_manager \<Rightarrow> ('k, 'p) jwt_manager \<times> claims res" where
  "verify_token jose now1 now2 token m =
     (let m' = prune_retired_keys now1 m
      in (m', try_keys jose token (jm_audience m') (jm_issuer m') now2 (keys_to_try now2 m') JWTError))"

definition rotate_signing_key ::
  "('k, 'p, 't) jose \<Rightarrow> real \<Rightarrow> real \<Rightarrow> string \<Rightarrow> ('k, 'p) jwt_manager \<Rightarrow> ('k, 'p) jwt_manager \<times> bool res" where
  "rotate_signing_key jose now1 now2 path m =
     (case load_active_key jose path of
        Inl e \<Rightarrow> (m, Inl e)
      | Inr k \<Rightarrow>
          (let old = (jm_active m)\<lparr>retire_at := Some (now1 + of_int (jm_overlap m))\<rparr>
           in (prune_retired_keys now2 (m\<lparr>jm_retired := jm_retired m @ [old], jm_active := k\<rparr>), Inr True)))"

definition retired_key_count :: "('k, 'p) jwt_manager \<Rightarrow> nat" where
  "retired_key_count m = length (jm_retired m)"

section \<open>Histories\<close>

text \<open>
  What happens to a manager: verifications and rotations, at times. The ghost history holds for every
  key the time its rotation began (none yet for the active one).
\<close>

datatype 't jwt_op = Verify real real 't | Rotate real real string

primrec jwt_step :: "('k, 'p, 't) jose \<Rightarrow> ('k, 'p) jwt_manager \<Rightarrow> 't jwt_op \<Rightarrow> ('k, 'p) jwt_manager" where
  "jwt_step jose m (Verify t1 t2 token) = fst (verify_token jose t1 t2 token m)"
| "jwt_step jose m (Rotate t1 t2 path) = fst (rotate_signing_key jose t1 t2 path m)"

text \<open>The keys taken out of service by the operations so far, each with its rotation time.\<close>

fun rotations :: "('k, 'p, 't) jose \<Rightarrow> ('k, 'p) jwt_manager \<Rightarrow> 't jwt_op list \<Rightarrow> ('p \<times> real) list" where
  "rotations jose m [] = []"
| "rotations jose m (x # xs) =
     (case x of
        Rotate t1 t2 path \<Rightarrow>
          (case load_active_key jose path of Inr _ \<Rightarrow> [(public_key (jm_active m), t1)] | Inl _ \<Rightarrow> [])
      | Verify _ _ _ \<Rightarrow> []) @ rotations jose (jwt_step jose m x) xs"

text \<open>The invariant: every retired key is in the history, with the deadline its rotation gave it.\<close>

definition deadlines_ok :: "('p \<times> real) list \<Rightarrow> int \<Rightarrow> ('k, 'p) jwt_manager \<Rightarrow> bool" where
  "deadlines_ok hist w m \<longleftrightarrow>
     jm_overlap m = w \<and> retire_at (jm_active m) = None \<and>
     (\<forall>k \<in> set (jm_retired m). \<exists>t. retire_at k = Some (t + of_int w) \<and> (public_key k, t) \<in> set hist)"

lemma prune_sel [simp]:
  "jm_active (prune_retired_keys now m) = jm_active m" "jm_overlap (prune_retired_keys now m) = jm_overlap m"
  "jm_issuer (prune_retired_keys now m) = jm_issuer m" "jm_audience (prune_retired_keys now m) = jm_audience m"
  by (simp_all add: prune_retired_keys_def)

lemma prune_subset: "k \<in> set (jm_retired (prune_retired_keys now m)) \<Longrightarrow> k \<in> set (jm_retired m)"
  by (simp add: prune_retired_keys_def)

lemma prune_deadlines: "deadlines_ok hist w m \<Longrightarrow> deadlines_ok hist w (prune_retired_keys now m)"
  unfolding deadlines_ok_def using prune_subset by fastforce

lemma load_fresh: "load_active_key jose path = Inr k \<Longrightarrow> retire_at k = None"
  by (auto simp: load_active_key_def bindE_eq_Inr)

lemma step_deadlines:
  assumes "deadlines_ok hist w m"
  shows "deadlines_ok (hist @ rotations jose m [x]) w (jwt_step jose m x)"
proof (cases x)
  case (Verify t1 t2 token)
  then show ?thesis using prune_deadlines [OF assms] by (simp add: verify_token_def Let_def)
next
  case (Rotate t1 t2 path)
  show ?thesis
  proof (cases "load_active_key jose path")
    case (Inl e)
    then show ?thesis using assms by (simp add: Rotate rotate_signing_key_def)
  next
    case (Inr k)
    let ?m = "m\<lparr>jm_retired := jm_retired m @ [(jm_active m)\<lparr>retire_at := Some (t1 + of_int (jm_overlap m))\<rparr>],
        jm_active := k\<rparr>"
    have "deadlines_ok (hist @ [(public_key (jm_active m), t1)]) w ?m"
      using assms load_fresh [OF Inr] by (auto simp: deadlines_ok_def)
    then show ?thesis by (simp add: Rotate Inr rotate_signing_key_def Let_def prune_deadlines)
  qed
qed

lemma run_deadlines:
  "deadlines_ok hist w m \<Longrightarrow> deadlines_ok (hist @ rotations jose m xs) w (run (jwt_step jose) m xs)"
proof (induction xs arbitrary: hist m)
  case (Cons x xs)
  from Cons.IH [OF step_deadlines [OF Cons.prems, of jose x]] show ?case by simp
qed simp

lemma try_keys_sound:
  "try_keys jose token aud iss now ks e = Inr claims \<Longrightarrow>
   \<exists>k \<in> set ks. jwt_decode jose token (public_key k) aud iss now = Inr claims \<and>
      has_required claims"
  by (induction ks arbitrary: e) (auto split: sum.splits if_splits)

text \<open>
  A token is accepted only under a key that is still in force: after any verifications and
  rotations of a manager, a token that verifies decodes, with all mandatory claims, under the active
  key or under a key whose rotation began less than the overlap window ago.
\<close>

theorem accepted_under_live_key:
  assumes "jwt_new jose path issuer audience w = Inr m0"
    and "m = run (jwt_step jose) m0 ops"
    and "verify_token jose t1 t2 token m = (m', Inr claims)"
  shows "\<exists>pub. jwt_decode jose token pub audience issuer t2 = Inr claims \<and>
           has_required claims \<and>
           (pub = public_key (jm_active m) \<or>
            (\<exists>t. (pub, t) \<in> set (rotations jose m0 ops) \<and> t2 < t + of_int w))"
proof -
  have "deadlines_ok [] w m0" using assms(1) load_fresh by (fastforce simp: jwt_new_def deadlines_ok_def bindE_eq_Inr)
  from run_deadlines [OF this, of jose ops] have dl: "deadlines_ok (rotations jose m0 ops) w m" by (simp add: assms(2))
  have sel: "jm_audience m = audience \<and> jm_issuer m = issuer"
  proof -
    have "jm_audience (run (jwt_step jose) n xs) = jm_audience n \<and> jm_issuer (run (jwt_step jose) n xs) = jm_issuer n" for n xs
    proof (induction xs arbitrary: n)
      case (Cons x xs)
      then show ?case
        by (cases x) (simp_all add: verify_token_def rotate_signing_key_def Let_def split: sum.split)
    qed simp
    then show ?thesis using assms(1,2) by (auto simp: jwt_new_def bindE_eq_Inr)
  qed
  let ?p = "prune_retired_keys t1 m"
  have "try_keys jose token audience issuer t2 (keys_to_try t2 ?p) JWTError = Inr claims"
    using assms(3) sel by (auto simp: verify_token_def Let_def)
  from try_keys_sound [OF this] obtain k where k: "k \<in> set (keys_to_try t2 ?p)"
    "jwt_decode jose token (public_key k) audience issuer t2 = Inr claims"
    "has_required claims" by blast
  have "public_key k = public_key (jm_active m) \<or>
      (\<exists>t. (public_key k, t) \<in> set (rotations jose m0 ops) \<and> t2 < t + of_int w)"
  proof (cases "k = jm_active m")
    case False
    then have "k \<in> set (jm_retired m)" "case retire_at k of None \<Rightarrow> True | Some t \<Rightarrow> t > t2"
      using k(1) by (auto simp: keys_to_try_def dest: prune_subset)
    with dl show ?thesis by (fastforce simp: deadlines_ok_def)
  qed simp
  with k(2,3) show ?thesis by auto
qed

section \<open>Rotation without downtime\<close>

text \<open>
  What the packages promise: a token decodes under its own key while it has not expired and names the
  expected audience and issuer, and every other key rejects it with a decoder error.
\<close>

definition jose_ok :: "('k, 'p, 't) jose \<Rightarrow> bool" where
  "jose_ok jose \<longleftrightarrow>
     (\<forall>cs k aud iss now e.
        map_of cs ''aud'' = Some (VStr aud) \<longrightarrow> map_of cs ''iss'' = Some (VStr iss) \<longrightarrow>
        map_of cs ''exp'' = Some (VInt e) \<longrightarrow> now < of_int e \<longrightarrow>
        jwt_decode jose (jwt_encode jose cs k) (public_of jose k) aud iss now = Inr cs) \<and>
     (\<forall>cs k p aud iss now. p \<noteq> public_of jose k \<longrightarrow> jwt_decode jose (jwt_encode jose cs k) p aud iss now = Inl JWTError)"

lemma try_keys_complete:
  assumes "\<forall>k \<in> set ks. jwt_decode jose token (public_key k) aud iss now \<in> {Inl JWTError, Inr claims}"
    and "\<exists>k \<in> set ks. jwt_decode jose token (public_key k) aud iss now = Inr claims"
    and "has_required claims"
  shows "try_keys jose token aud iss now ks e = Inr claims"
  using assms
proof (induction ks arbitrary: e)
  case (Cons k ks)
  then show ?case by (cases "jwt_decode jose token (public_key k) aud iss now = Inr claims") auto
qed simp

text \<open>
  Rotation has no downtime: a token minted before a rotation still verifies after it, while it has
  not expired and the overlap window has not passed.
\<close>

theorem rotation_keeps_tokens:
  assumes "jose_ok jose" and "private_key (jm_active m) = k" and "public_key (jm_active m) = public_of jose k"
    and "mint_token jose t0 jti subject tenant roles ttl m = Inr token"
    and "rotate_signing_key jose r1 r2 path m = (m', Inr True)"
    and "t2 < of_int (trunc t0 + ttl)" and "t2 < r1 + of_int (jm_overlap m)"
    and "r2 - MAX_CLOCK_SKEW_SECONDS < r1 + of_int (jm_overlap m)" and "t1 \<le> t2"
  shows "\<exists>claims. snd (verify_token jose t1 t2 token m') = Inr claims \<and>
           map_of claims ''sub'' = Some (VStr subject) \<and> map_of claims ''tenant'' = Some (VStr tenant)"
proof -
  obtain rs where rs: "roles = Some rs" using assms(4) by (auto simp: mint_token_def split: if_splits option.splits)
  define cs where "cs = [(''sub'', VStr subject), (''tenant'', VStr tenant), (''roles'', VList (map VStr rs)),
      (''iss'', VStr (jm_issuer m)), (''aud'', VStr (jm_audience m)), (''iat'', VInt (trunc t0)),
      (''exp'', VInt (trunc t0 + ttl)), (''jti'', VStr jti)]"
  have tok: "token = jwt_encode jose cs k"
    using assms(2,4) by (auto simp: mint_token_def rs cs_def split: if_splits)
  have dec: "jwt_decode jose token (public_of jose k) (jm_audience m) (jm_issuer m) t2 = Inr cs"
    using assms(1,6) unfolding jose_ok_def tok by (auto simp: cs_def)
  have other: "jwt_decode jose token p (jm_audience m) (jm_issuer m) t2 \<in> {Inl JWTError, Inr cs}" for p
    using assms(1) dec unfolding jose_ok_def tok by (cases "p = public_of jose k") auto
  define old where "old = (jm_active m)\<lparr>retire_at := Some (r1 + of_int (jm_overlap m))\<rparr>"
  obtain k' where m': "m' = prune_retired_keys r2 (m\<lparr>jm_retired := jm_retired m @ [old], jm_active := k'\<rparr>)"
    using assms(5) by (auto simp: rotate_signing_key_def Let_def old_def split: sum.splits)
  let ?p = "prune_retired_keys t1 m'"
  have sel: "jm_audience m' = jm_audience m" "jm_issuer m' = jm_issuer m" by (simp_all add: m')
  have "old \<in> set (keys_to_try t2 ?p)"
    using assms(7-9) by (simp add: keys_to_try_def m' prune_retired_keys_def old_def MAX_CLOCK_SKEW_SECONDS_def)
  moreover have "public_key old = public_of jose k" by (simp add: old_def assms(3))
  ultimately have "\<exists>k \<in> set (keys_to_try t2 ?p). jwt_decode jose token (public_key k) (jm_audience m) (jm_issuer m) t2 = Inr cs"
    using dec by metis
  then have "try_keys jose token (jm_audience m) (jm_issuer m) t2 (keys_to_try t2 ?p) JWTError = Inr cs"
    using other by (intro try_keys_complete) (auto simp: cs_def has_required_def)
  then have "snd (verify_token jose t1 t2 token m') = Inr cs"
    by (simp add: verify_token_def Let_def sel)
  then show ?thesis by (auto simp: cs_def)
qed

section \<open>Witnesses\<close>

definition demo_jose :: "(string, string, claims \<times> string) jose" where
  "demo_jose = \<lparr>load_rsa = Inr, public_of = id, jwt_encode = Pair,
     jwt_decode = (\<lambda>t p aud iss now.
       if p = snd t \<and> map_of (fst t) ''aud'' = Some (VStr aud) \<and> map_of (fst t) ''iss'' = Some (VStr iss) \<and>
          (\<exists>e. map_of (fst t) ''exp'' = Some (VInt e) \<and> now < of_int e)
       then Inr (fst t) else Inl JWTError)\<rparr>"

lemma demo_jose_ok: "jose_ok demo_jose"
  by (auto simp: jose_ok_def demo_jose_def)

definition demo_manager :: "(string, string) jwt_manager" where
  "demo_manager = \<lparr>jm_issuer = ''i'', jm_audience = ''a'', jm_overlap = 3600,
     jm_active = \<lparr>private_key = ''k1'', public_key = ''k1'', retire_at = None\<rparr>, jm_retired = []\<rparr>"

definition demo_claims :: claims where
  "demo_claims = [(''sub'', VStr ''s''), (''tenant'', VStr ''t''), (''roles'', VList []), (''iss'', VStr ''i''),
     (''aud'', VStr ''a''), (''iat'', VInt 0), (''exp'', VInt 600), (''jti'', VStr ''j'')]"

theorem rotation_keeps_tokens_witness:
  "\<exists>m' claims. rotate_signing_key demo_jose 100 101 ''k2'' demo_manager = (m', Inr True) \<and>
     snd (verify_token demo_jose 200 200 (demo_claims, ''k1'') m') = Inr claims"
proof -
  have mint: "mint_token demo_jose 0 ''j'' ''s'' ''t'' (Some []) 600 demo_manager = Inr (demo_claims, ''k1'')"
    by (simp add: mint_token_def demo_manager_def demo_jose_def demo_claims_def trunc_def)
  obtain m' where rot: "rotate_signing_key demo_jose 100 101 ''k2'' demo_manager = (m', Inr True)"
    by (simp add: rotate_signing_key_def load_active_key_def demo_jose_def Let_def)
  have "\<exists>claims. snd (verify_token demo_jose 200 200 (demo_claims, ''k1'') m') = Inr claims \<and>
      map_of claims ''sub'' = Some (VStr ''s'') \<and> map_of claims ''tenant'' = Some (VStr ''t'')"
    by (rule rotation_keeps_tokens [OF demo_jose_ok refl _ mint rot])
      (simp_all add: demo_manager_def demo_jose_def trunc_def MAX_CLOCK_SKEW_SECONDS_def)
  with rot show ?thesis by blast
qed

theorem accepted_under_live_key_witness:
  "\<exists>pub. jwt_decode demo_jose (demo_claims, ''k1'') pub ''a'' ''i'' 5 = Inr demo_claims \<and> pub = ''k1''"
proof -
  have new: "jwt_new demo_jose ''k1'' ''i'' ''a'' 3600 = Inr demo_manager"
    by (simp add: jwt_new_def load_active_key_def demo_jose_def demo_manager_def)
  have ver: "verify_token demo_jose 5 5 (demo_claims, ''k1'') demo_manager = (demo_manager, Inr demo_claims)"
    by (simp add: verify_token_def keys_to_try_def prune_retired_keys_def demo_manager_def demo_jose_def
        demo_claims_def has_required_def Let_def)
  from accepted_under_live_key [OF new _ ver, of "[]"] show ?thesis by (auto simp: demo_manager_def)
qed

end
