(* ===== verification/Access.thy ===== *)
theory Access
  imports Jwt
begin

text \<open>
  Who may call and how the rApp authenticates itself: the request middleware and the per-route checks
  (\<open>security/middleware.py\<close>), and the TLS and OAuth2 configuration of outgoing clients
  (\<open>rapp/auth.py\<close>). Casbin's enforcer is the parameter \<open>enforce\<close>, OpenSSL and the token endpoint are
  arguments; logging is left out.
\<close>

section \<open>The request\<close>

record http_req =
  rq_path :: string
  rq_method :: string
  rq_authorization :: "string option"
  rq_x_tenant :: "string option"

definition PUBLIC_PATHS :: "string list" where
  "PUBLIC_PATHS = [''/healthz'', ''/livez'', ''/readyz'', ''/openapi.json'', ''/docs'', ''/redoc'']"

definition is_public :: "string list \<Rightarrow> string \<Rightarrow> bool" where
  "is_public public path \<longleftrightarrow> list_ex (\<lambda>p. path = p \<or> starts_with (p @ ''/'') path) public"

text \<open>\<open>_BEARER_RE\<close>: optional space, \<open>Bearer\<close>, space, token characters, optional space.\<close>

definition re_space :: "char \<Rightarrow> bool" where
  "re_space c \<longleftrightarrow> (let n = of_char c :: nat in 9 \<le> n \<and> n \<le> 13 \<or> 28 \<le> n \<and> n \<le> 32 \<or> n = 133 \<or> n = 160)"

definition token_char :: "char \<Rightarrow> bool" where
  "token_char c \<longleftrightarrow>
     (let n = of_char c :: nat
      in 65 \<le> n \<and> n \<le> 90 \<or> 97 \<le> n \<and> n \<le> 122 \<or> 48 \<le> n \<and> n \<le> 57 \<or> n = 46 \<or> n = 95 \<or> n = 45)"

definition bearer_token :: "string \<Rightarrow> string option" where
  "bearer_token header =
     (let s = dropWhile re_space header
      in if \<not> starts_with ''Bearer'' s then None
         else let r = drop 6 s; t = dropWhile re_space r; tok = takeWhile token_char t
              in if t = r \<or> tok = [] \<or> list_ex (\<lambda>c. \<not> re_space c) (dropWhile token_char t) then None
                 else Some tok)"

definition ascii_upper :: "string \<Rightarrow> string" where
  "ascii_upper s = map (\<lambda>c. let n = of_char c :: nat in if 97 \<le> n \<and> n \<le> 122 then char_of (n - 32) else c) s"

definition ascii_lower :: "string \<Rightarrow> string" where
  "ascii_lower s = map (\<lambda>c. let n = of_char c :: nat in if 65 \<le> n \<and> n \<le> 90 then char_of (n + 32) else c) s"

definition http_method_to_action :: "string \<Rightarrow> string" where
  "http_method_to_action meth =
     (let m = ascii_upper meth
      in if m \<in> {''GET'', ''HEAD'', ''OPTIONS''} then ''read''
         else if m = ''POST'' then ''emit''
         else if m \<in> {''PUT'', ''PATCH''} then ''emit''
         else if m = ''DELETE'' then ''rollback''
         else ascii_lower m)"

section \<open>The middleware\<close>

record principal =
  pr_subject :: pyval
  pr_tenant :: pyval
  pr_roles :: "pyval list"
  pr_jti :: "pyval option"

datatype auth_outcome = Reject int string | Forward "principal option" | AuthRaised py_exn

definition claim_or :: "claims \<Rightarrow> string \<Rightarrow> pyval \<Rightarrow> pyval" where
  "claim_or cs k dflt = (case map_of cs k of None \<Rightarrow> dflt | Some v \<Rightarrow> v)"

definition roles_of :: "claims \<Rightarrow> pyval list res" where
  "roles_of cs = (let v = claim_or cs ''roles'' (VList []) in py_list (if truthy v then v else VList []))"

text \<open>The checks after the token: the tenant header, then the enforcer.\<close>

definition authorise ::
  "(pyval \<Rightarrow> pyval \<Rightarrow> string \<Rightarrow> string \<Rightarrow> bool) \<Rightarrow> http_req \<Rightarrow> claims \<Rightarrow> auth_outcome" where
  "authorise enforce rq cs =
     (let sub = claim_or cs ''sub'' (VStr []); ten = claim_or cs ''tenant'' (VStr [])
      in case roles_of cs of
           Inl e \<Rightarrow> AuthRaised e
         | Inr roles \<Rightarrow>
             if (case rq_x_tenant rq of None \<Rightarrow> False | Some t \<Rightarrow> t \<noteq> [] \<and> ten \<noteq> VStr t)
             then Reject 403 ''tenant mismatch''
             else if \<not> enforce sub ten (dropWhile (\<lambda>c. c = CHR ''/'') (rq_path rq)) (http_method_to_action (rq_method rq))
             then Reject 403 ''forbidden''
             else Forward (Some \<lparr>pr_subject = sub, pr_tenant = ten, pr_roles = roles, pr_jti = map_of cs ''jti''\<rparr>))"

definition dispatch_request ::
  "('k, 'p, string) jose \<Rightarrow> (pyval \<Rightarrow> pyval \<Rightarrow> string \<Rightarrow> string \<Rightarrow> bool) \<Rightarrow> string list \<Rightarrow> real \<Rightarrow> real \<Rightarrow>
   http_req \<Rightarrow> ('k, 'p) jwt_manager \<Rightarrow> ('k, 'p) jwt_manager \<times> auth_outcome" where
  "dispatch_request jose enforce public t1 t2 rq m =
     (if is_public public (rq_path rq) then (m, Forward None)
      else case rq_authorization rq of
             None \<Rightarrow> (m, Reject 401 ''missing Authorization header'')
           | Some h \<Rightarrow>
               if h = [] then (m, Reject 401 ''missing Authorization header'')
               else (case bearer_token h of
                       None \<Rightarrow> (m, Reject 401 ''malformed Authorization header'')
                     | Some tok \<Rightarrow>
                         (case verify_token jose t1 t2 tok m of
                            (m', Inl e) \<Rightarrow> (m', if e = JWTError then Reject 401 ''invalid token'' else AuthRaised e)
                          | (m', Inr cs) \<Rightarrow> (m', authorise enforce rq cs))))"

text \<open>The per-route dependencies.\<close>

definition require_role :: "string list \<Rightarrow> principal option \<Rightarrow> auth_outcome" where
  "require_role allowed pr =
     (case pr of
        None \<Rightarrow> Reject 401 ''not authenticated''
      | Some p \<Rightarrow> if list_ex (\<lambda>r. VStr r \<in> set (pr_roles p)) allowed then Forward (Some p) else Reject 403 ''role required'')"

definition require_tenant :: "string \<Rightarrow> principal option \<Rightarrow> auth_outcome" where
  "require_tenant tenant pr =
     (case pr of
        None \<Rightarrow> Reject 401 ''not authenticated''
      | Some p \<Rightarrow> if pr_tenant p = VStr tenant then Forward (Some p) else Reject 403 ''tenant mismatch'')"

section \<open>Outgoing clients\<close>

record auth_config =
  client_cert_path :: "string option"
  client_key_path :: "string option"
  ca_bundle_path :: "string option"
  verify_tls :: bool
  token_url :: "string option"
  client_id :: "string option"
  client_secret :: "string option"
  static_bearer_token :: "string option"
  cipher_allowlist :: "string list"
  production_mode :: bool

definition nonempty :: "string option \<Rightarrow> bool" where
  "nonempty x \<longleftrightarrow> x \<noteq> None \<and> x \<noteq> Some []"

text \<open>Paths are \<open>Path\<close> objects, always truthy.\<close>

definition has_mtls :: "auth_config \<Rightarrow> bool" where
  "has_mtls cfg \<longleftrightarrow> client_cert_path cfg \<noteq> None \<and> client_key_path cfg \<noteq> None"

definition has_oauth :: "auth_config \<Rightarrow> bool" where
  "has_oauth cfg \<longleftrightarrow> nonempty (token_url cfg) \<and> nonempty (client_id cfg) \<and> nonempty (client_secret cfg)"

definition has_static_token :: "auth_config \<Rightarrow> bool" where
  "has_static_token cfg \<longleftrightarrow> nonempty (static_bearer_token cfg)"

text \<open>What a client verifies with: httpx's flag, or a context (verifying?, client certificate?, ciphers).\<close>

datatype tls_setup = VerifyFlag bool | Context bool "(string \<times> string) option" "string list"

definition build_ssl_context :: "auth_config \<Rightarrow> tls_setup res" where
  "build_ssl_context cfg =
     (if production_mode cfg \<and> \<not> verify_tls cfg then Inl ValueError
      else if \<not> has_mtls cfg \<and> ca_bundle_path cfg = None then
        Inr (if cipher_allowlist cfg \<noteq> [] \<and> verify_tls cfg then Context True None (cipher_allowlist cfg)
             else VerifyFlag (verify_tls cfg))
      else Inr (Context (verify_tls cfg)
             (if has_mtls cfg then Some (the (client_cert_path cfg), the (client_key_path cfg)) else None)
             (cipher_allowlist cfg)))"

datatype client_auth = NoAuth | StaticBearer string | OAuth2Bearer

definition build_secure_async_client :: "auth_config \<Rightarrow> (tls_setup \<times> client_auth) res" where
  "build_secure_async_client cfg =
     bindE (build_ssl_context cfg) (\<lambda>ctx.
       Inr (ctx, if has_static_token cfg then StaticBearer (the (static_bearer_token cfg))
                 else if has_oauth cfg then OAuth2Bearer else NoAuth))"

fun verifies_peer :: "tls_setup \<Rightarrow> bool" where
  "verifies_peer (VerifyFlag b) = b"
| "verifies_peer (Context b _ _) = b"

text \<open>
  The token cache. A caller that finds no fresh token waits for the lock and then looks again, with
  the clock it read before: the state between its two looks is an argument.
\<close>

record oauth_cache =
  oc_token :: "string option"
  oc_expiry :: real

definition oauth_new :: oauth_cache where
  "oauth_new = \<lparr>oc_token = None, oc_expiry = 0\<rparr>"

definition oauth_fresh :: "real \<Rightarrow> oauth_cache \<Rightarrow> bool" where
  "oauth_fresh now oc \<longleftrightarrow> nonempty (oc_token oc) \<and> now < oc_expiry oc - 30"

text \<open>The token endpoint's answer: an exception, or the access token and its lifetime.\<close>

definition get_token_locked :: "real \<Rightarrow> (string \<times> real) res \<Rightarrow> oauth_cache \<Rightarrow> oauth_cache \<times> string res" where
  "get_token_locked now fetched oc =
     (if oauth_fresh now oc then (oc, Inr (the (oc_token oc)))
      else case fetched of
             Inl e \<Rightarrow> (oc, Inl e)
           | Inr (tok, life) \<Rightarrow> (\<lparr>oc_token = Some tok, oc_expiry = now + life\<rparr>, Inr tok))"

definition get_token ::
  "real \<Rightarrow> oauth_cache \<Rightarrow> (oauth_cache \<Rightarrow> oauth_cache) \<Rightarrow> (string \<times> real) res \<Rightarrow> oauth_cache \<times> string res" where
  "get_token now oc others fetched =
     (if oauth_fresh now oc then (oc, Inr (the (oc_token oc)))
      else get_token_locked now fetched (others oc))"

section \<open>Properties\<close>

lemma bearer_token_chars: "bearer_token h = Some t \<Longrightarrow> t \<noteq> [] \<and> list_all token_char t"
  by (auto simp: bearer_token_def Let_def list_all_iff split: if_splits dest: set_takeWhileD)

lemma authorise_forward:
  "authorise enforce rq cs = Forward pr \<Longrightarrow>
   \<exists>p. pr = Some p \<and> pr_subject p = claim_or cs ''sub'' (VStr []) \<and> pr_tenant p = claim_or cs ''tenant'' (VStr []) \<and>
     enforce (pr_subject p) (pr_tenant p) (dropWhile (\<lambda>c. c = CHR ''/'') (rq_path rq)) (http_method_to_action (rq_method rq)) \<and>
     (\<forall>t. rq_x_tenant rq = Some t \<and> t \<noteq> [] \<longrightarrow> pr_tenant p = VStr t)"
  by (auto simp: authorise_def Let_def split: sum.splits if_splits option.splits)

text \<open>
  Nothing protected is served without a right to it: the middleware lets a request for a path
  outside the public ones through only with a principal, taken from a bearer token that verifies
  under a live key; the policy engine has allowed that very subject, in its own tenant, the action
  of the method on the path; and a tenant header, if any, names the token's tenant.
\<close>

theorem served_only_if_entitled:
  assumes "dispatch_request jose enforce public t1 t2 rq m = (m', Forward pr)"
    and "\<not> is_public public (rq_path rq)"
  shows "\<exists>p cs k h tok. pr = Some p \<and> rq_authorization rq = Some h \<and> bearer_token h = Some tok \<and>
           k \<in> set (keys_to_try t2 m) \<and>
           jwt_decode jose tok (public_key k) (jm_audience m) (jm_issuer m) t2 = Inr cs \<and> has_required cs \<and>
           Some (pr_subject p) = map_of cs ''sub'' \<and> Some (pr_tenant p) = map_of cs ''tenant'' \<and>
           enforce (pr_subject p) (pr_tenant p) (dropWhile (\<lambda>c. c = CHR ''/'') (rq_path rq))
             (http_method_to_action (rq_method rq)) \<and>
           (\<forall>t. rq_x_tenant rq = Some t \<and> t \<noteq> [] \<longrightarrow> pr_tenant p = VStr t)"
proof -
  obtain h tok cs where h: "rq_authorization rq = Some h" "bearer_token h = Some tok"
    and ver: "verify_token jose t1 t2 tok m = (m', Inr cs)" and au: "authorise enforce rq cs = Forward pr"
    using assms by (auto simp: dispatch_request_def split: option.splits if_splits prod.splits sum.splits)
  from ver have "try_keys jose tok (jm_audience m) (jm_issuer m) t2 (keys_to_try t2 (prune_retired_keys t1 m)) JWTError = Inr cs"
    by (auto simp: verify_token_def Let_def)
  from try_keys_sound [OF this] obtain k where k: "k \<in> set (keys_to_try t2 (prune_retired_keys t1 m))"
    "jwt_decode jose tok (public_key k) (jm_audience m) (jm_issuer m) t2 = Inr cs" "has_required cs" by blast
  have "k \<in> set (keys_to_try t2 m)" using k(1) by (auto simp: keys_to_try_def dest: prune_subset)
  moreover have claim: "Some (claim_or cs c d) = map_of cs c" if "c \<in> {''sub'', ''tenant''}" for c d
  proof -
    have "c \<in> fst ` set cs" using k(3) that by (auto simp: has_required_def)
    then show ?thesis by (auto simp: claim_or_def map_of_eq_None_iff split: option.split)
  qed
  moreover from authorise_forward [OF au] obtain p where p: "pr = Some p"
    "pr_subject p = claim_or cs ''sub'' (VStr [])" "pr_tenant p = claim_or cs ''tenant'' (VStr [])"
    "enforce (pr_subject p) (pr_tenant p) (dropWhile (\<lambda>c. c = CHR ''/'') (rq_path rq)) (http_method_to_action (rq_method rq))"
    "\<forall>t. rq_x_tenant rq = Some t \<and> t \<noteq> [] \<longrightarrow> pr_tenant p = VStr t" by blast
  moreover have "Some (pr_subject p) = map_of cs ''sub''" "Some (pr_tenant p) = map_of cs ''tenant''"
    using claim p(2,3) by simp_all
  ultimately show ?thesis using h k(2,3) by blast
qed

lemma client_verifies:
  "production_mode cfg \<Longrightarrow> build_secure_async_client cfg = Inr (ctx, au) \<Longrightarrow> verifies_peer ctx"
  by (simp add: build_secure_async_client_def build_ssl_context_def bindE_def split: if_splits sum.splits)
    (auto split: if_splits)

lemma locked_token:
  assumes "get_token_locked now fetched oc = (oc', Inr tok)"
  shows "(\<exists>life. fetched = Inr (tok, life) \<and> oc_expiry oc' = now + life) \<or>
         now < oc_expiry oc' - 30 \<and> oc_token oc' = Some tok"
proof (cases "oauth_fresh now oc")
  case True
  then show ?thesis using assms by (auto simp: get_token_locked_def oauth_fresh_def nonempty_def)
next
  case False
  then show ?thesis using assms by (cases fetched) (auto simp: get_token_locked_def)
qed

text \<open>
  In production a client always verifies its peer, and an OAuth2 token that a caller gets was
  either just fetched or has more than 30 seconds left on the clock the caller read.
\<close>

theorem outgoing_auth_safe:
  "(production_mode cfg \<longrightarrow> build_secure_async_client cfg = Inr (ctx, au) \<longrightarrow> verifies_peer ctx) \<and>
   (get_token now oc others fetched = (oc', Inr tok) \<longrightarrow>
      (\<exists>life. fetched = Inr (tok, life) \<and> oc_expiry oc' = now + life) \<or>
      now < oc_expiry oc' - 30 \<and> oc_token oc' = Some tok)"
proof (intro conjI impI)
  show "verifies_peer ctx" if "production_mode cfg" "build_secure_async_client cfg = Inr (ctx, au)"
    using client_verifies that by blast
  assume g: "get_token now oc others fetched = (oc', Inr tok)"
  show "(\<exists>life. fetched = Inr (tok, life) \<and> oc_expiry oc' = now + life) \<or>
      now < oc_expiry oc' - 30 \<and> oc_token oc' = Some tok"
  proof (cases "oauth_fresh now oc")
    case True
    then show ?thesis using g by (auto simp: get_token_def oauth_fresh_def nonempty_def)
  next
    case False
    then show ?thesis using g locked_token by (simp add: get_token_def)
  qed
qed

section \<open>Witness\<close>

definition string_jose :: "(string, string, string) jose" where
  "string_jose = \<lparr>load_rsa = Inr, public_of = id, jwt_encode = (\<lambda>cs k. k),
     jwt_decode = (\<lambda>t p aud iss now. if t = p then Inr demo_claims else Inl JWTError)\<rparr>"

definition demo_request :: http_req where
  "demo_request = \<lparr>rq_path = ''/policies'', rq_method = ''POST'', rq_authorization = Some ''Bearer k1'',
     rq_x_tenant = Some ''t''\<rparr>"

lemma demo_bearer: "bearer_token ''Bearer k1'' = Some ''k1''"
  by (simp add: bearer_token_def re_space_def token_char_def Let_def)

lemma demo_verified: "verify_token string_jose 5 5 ''k1'' demo_manager = (demo_manager, Inr demo_claims)"
  by (simp add: verify_token_def keys_to_try_def prune_retired_keys_def demo_manager_def string_jose_def
      demo_claims_def has_required_def Let_def)

lemma demo_served:
  "dispatch_request string_jose (\<lambda>s t obj act. act = ''emit'') PUBLIC_PATHS 5 5 demo_request demo_manager =
   (demo_manager, Forward (Some \<lparr>pr_subject = VStr ''s'', pr_tenant = VStr ''t'', pr_roles = [], pr_jti = Some (VStr ''j'')\<rparr>))"
  by (simp add: dispatch_request_def is_public_def PUBLIC_PATHS_def demo_request_def demo_bearer demo_verified
      authorise_def roles_of_def claim_or_def demo_claims_def http_method_to_action_def ascii_upper_def Let_def)

theorem served_only_if_entitled_witness:
  "\<exists>k. k \<in> set (keys_to_try 5 demo_manager) \<and> (\<exists>cs. jwt_decode string_jose ''k1'' (public_key k) ''a'' ''i'' 5 = Inr cs)"
proof -
  have "\<not> is_public PUBLIC_PATHS (rq_path demo_request)"
    by (simp add: is_public_def PUBLIC_PATHS_def demo_request_def)
  from served_only_if_entitled [OF demo_served this] show ?thesis
    by (auto simp: demo_request_def demo_bearer demo_manager_def)
qed

end
