(* ===== verification/Nis2.thy ===== *)
theory Nis2
  imports A1Adapter
begin

text \<open>
  The NIS2 incident clock (\<open>security/nis2_reporter.py\<close>): milestones, the automatic triggers, delivery to
  the operator and the CSIRT, and what is recorded of it. The HTTP client is the parameter \<open>post\<close>, the
  evidence sink an optional function that may raise; time stamps are real seconds, their texts the
  parameters \<open>isot\<close> and \<open>stamp_text\<close>, the text of an exception \<open>err_text\<close>.
\<close>

section \<open>Incidents\<close>

record nis2_milestones =
  triggered_at :: real
  early_warning_due :: real
  incident_notification_due :: real
  final_report_due :: real

definition hours :: "real \<Rightarrow> real" where
  "hours h = 3600 * h"

definition from_trigger :: "real \<Rightarrow> nis2_milestones" where
  "from_trigger t =
     \<lparr>triggered_at = t, early_warning_due = t + hours 24, incident_notification_due = t + hours 72,
      final_report_due = t + hours (30 * 24)\<rparr>"

definition milestones_dict :: "(real \<Rightarrow> string) \<Rightarrow> nis2_milestones \<Rightarrow> pyval" where
  "milestones_dict isot ms =
     VDict [(''triggered_at'', VStr (isot (triggered_at ms))),
            (''early_warning_due'', VStr (isot (early_warning_due ms))),
            (''incident_notification_due'', VStr (isot (incident_notification_due ms))),
            (''final_report_due'', VStr (isot (final_report_due ms)))]"

record nis2_incident =
  incident_id :: string
  inc_severity :: string
  inc_scope :: string
  inc_evidence :: pyval
  inc_milestones :: nis2_milestones
  trigger_kind :: string

definition as_payload :: "(real \<Rightarrow> string) \<Rightarrow> nis2_incident \<Rightarrow> pyval" where
  "as_payload isot i =
     VDict [(''incident_id'', VStr (incident_id i)), (''severity'', VStr (inc_severity i)),
            (''scope'', VStr (inc_scope i)), (''evidence'', inc_evidence i),
            (''trigger_kind'', VStr (trigger_kind i)), (''milestones'', milestones_dict isot (inc_milestones i)),
            (''directive'', VStr ''EU 2022/2555 NIS2 Art. 23(4)'')]"

text \<open>\<open>_derive_incident_id\<close>, on ASCII scopes.\<close>

definition ascii_alnum :: "char \<Rightarrow> bool" where
  "ascii_alnum c \<longleftrightarrow>
     (let n = of_char c :: nat in 48 \<le> n \<and> n \<le> 57 \<or> 65 \<le> n \<and> n \<le> 90 \<or> 97 \<le> n \<and> n \<le> 122)"

definition scope_slug :: "string \<Rightarrow> string" where
  "scope_slug scope =
     (let s = map (\<lambda>c. if ascii_alnum c then c else CHR ''-'') scope; dash = (\<lambda>c. c = CHR ''-'')
      in rev (dropWhile dash (rev (dropWhile dash s))))"

definition derive_incident_id :: "(real \<Rightarrow> string) \<Rightarrow> real \<Rightarrow> string \<Rightarrow> string" where
  "derive_incident_id stamp_text t scope = ''nis2-'' @ stamp_text t @ ''-'' @ take 40 (scope_slug scope)"

section \<open>The reporter\<close>

record nis2_config =
  operator_endpoint :: string
  csirt_endpoint :: string
  auth_failure_window_seconds :: int
  auth_failure_threshold_pct :: pyfloat

text \<open>The outside: the network, the sink, the recorded authentication attempts (a deque of 10000).\<close>

record ('w, 's) nis2 =
  n2_world :: 'w
  n2_sink :: 's
  n2_auth_events :: "(real \<times> bool) list"

type_synonym 'w post = "string \<Rightarrow> pyval \<Rightarrow> 'w \<Rightarrow> 'w \<times> call_exn option"
type_synonym 's sink = "(pyval \<Rightarrow> 's \<Rightarrow> 's \<times> py_exn option) option"

record ('w, 's) nis2_env =
  ne_post :: "'w post"
  ne_sink :: "'s sink"
  ne_iso :: "real \<Rightarrow> string"
  ne_stamp_text :: "real \<Rightarrow> string"
  ne_err_text :: "call_exn \<Rightarrow> string"

text \<open>A sink that raises is ignored.\<close>

definition nis2_persist :: "('w, 's) nis2_env \<Rightarrow> pyval \<Rightarrow> ('w, 's) nis2 \<Rightarrow> ('w, 's) nis2" where
  "nis2_persist env payload r =
     (case ne_sink env of None \<Rightarrow> r | Some f \<Rightarrow> r\<lparr>n2_sink := fst (f payload (n2_sink r))\<rparr>)"

definition delivery_failure :: "string \<Rightarrow> pyval \<Rightarrow> string \<Rightarrow> pyval" where
  "delivery_failure url iid err =
     VDict [(''kind'', VStr ''nis2.delivery_failure''), (''url'', VStr url), (''incident_id'', iid), (''error'', VStr err)]"

definition nis2_post ::
  "('w, 's) nis2_env \<Rightarrow> string \<Rightarrow> nis2_incident \<Rightarrow> ('w, 's) nis2 \<Rightarrow> ('w, 's) nis2 \<times> a1_exn option" where
  "nis2_post env url inc r =
     (case ne_post env url (as_payload (ne_iso env) inc) (n2_world r) of
        (w, None) \<Rightarrow> (r\<lparr>n2_world := w\<rparr>, None)
      | (w, Some e) \<Rightarrow>
          if http_error e then
            (nis2_persist env (delivery_failure url (VStr (incident_id inc)) (ne_err_text env e)) (r\<lparr>n2_world := w\<rparr>), None)
          else (r\<lparr>n2_world := w\<rparr>, Some (CallExn e)))"

definition trigger_incident ::
  "('w, 's) nis2_env \<Rightarrow> nis2_config \<Rightarrow> real \<Rightarrow> string \<Rightarrow> string \<Rightarrow> pyval \<Rightarrow> string \<Rightarrow> string option \<Rightarrow>
   ('w, 's) nis2 \<Rightarrow> ('w, 's) nis2 \<times> (a1_exn + nis2_incident)" where
  "trigger_incident env cfg now sev scope evidence kind iid r =
     (let inc = \<lparr>incident_id = (case iid of None \<Rightarrow> derive_incident_id (ne_stamp_text env) now scope | Some i \<Rightarrow> i),
                 inc_severity = sev, inc_scope = scope, inc_evidence = evidence,
                 inc_milestones = from_trigger now, trigger_kind = kind\<rparr>
      in case nis2_post env (operator_endpoint cfg) inc r of
           (r1, Some e) \<Rightarrow> (r1, Inl e)
         | (r1, None) \<Rightarrow>
             (case nis2_post env (csirt_endpoint cfg) inc r1 of
                (r2, Some e) \<Rightarrow> (r2, Inl e)
              | (r2, None) \<Rightarrow> (nis2_persist env (as_payload (ne_iso env) inc) r2, Inr inc)))"

text \<open>A check gives no incident, or the one it triggered.\<close>

definition fired :: "('w, 's) nis2 \<times> (a1_exn + nis2_incident) \<Rightarrow> ('w, 's) nis2 \<times> (a1_exn + nis2_incident option)" where
  "fired x = (case x of (r, Inl e) \<Rightarrow> (r, Inl e) | (r, Inr i) \<Rightarrow> (r, Inr (Some i)))"

definition auto_check_audit_chain ::
  "('w, 's) nis2_env \<Rightarrow> nis2_config \<Rightarrow> real \<Rightarrow> int res \<Rightarrow> string \<Rightarrow> ('w, 's) nis2 \<Rightarrow>
   ('w, 's) nis2 \<times> (a1_exn + nis2_incident option)" where
  "auto_check_audit_chain env cfg now verify_result scope r =
     (case verify_result of
        Inl e \<Rightarrow> (r, Inl (PyExn e))
      | Inr k \<Rightarrow>
          if k = - 1 then (r, Inr None)
          else fired (trigger_incident env cfg now ''critical'' scope (VDict [(''first_invalid_index'', VInt k)])
                 ''audit_chain_integrity'' None r))"

definition auto_check_sla_breach ::
  "('w, 's) nis2_env \<Rightarrow> nis2_config \<Rightarrow> real \<Rightarrow> pyfloat \<Rightarrow> string \<Rightarrow> pyfloat \<Rightarrow> ('w, 's) nis2 \<Rightarrow>
   ('w, 's) nis2 \<times> (a1_exn + nis2_incident option)" where
  "auto_check_sla_breach env cfg now prob slice bound r =
     (if prob < bound then (r, Inr None)
      else fired (trigger_incident env cfg now ''critical'' (''SLA breach on slice '' @ slice)
             (VDict [(''breach_probability'', VFloat prob), (''threshold'', VFloat bound), (''slice_id'', VStr slice)])
             ''sla_breach'' None r))"

definition AUTH_EVENTS_MAXLEN :: nat where
  "AUTH_EVENTS_MAXLEN = 10000"

definition record_auth_event :: "bool \<Rightarrow> real \<Rightarrow> ('w, 's) nis2 \<Rightarrow> ('w, 's) nis2" where
  "record_auth_event success t r =
     (let es = n2_auth_events r @ [(t, success)]
      in r\<lparr>n2_auth_events := drop (length es - AUTH_EVENTS_MAXLEN) es\<rparr>)"

definition recent_events :: "nis2_config \<Rightarrow> real \<Rightarrow> ('w, 's) nis2 \<Rightarrow> (real \<times> bool) list" where
  "recent_events cfg now r =
     filter (\<lambda>e. fst e \<ge> now - of_int (auth_failure_window_seconds cfg)) (n2_auth_events r)"

definition failure_count :: "(real \<times> bool) list \<Rightarrow> nat" where
  "failure_count es = length (filter (\<lambda>e. \<not> snd e) es)"

text \<open>\<open>(failures / len(recent)) * 100.0\<close>; the scope's text shows it with the format \<open>fmt\<close>.\<close>

definition failure_rate_pct :: "platform \<Rightarrow> (real \<times> bool) list \<Rightarrow> pyfloat" where
  "failure_rate_pct pl es = fmul pl (rnd pl (of_nat (failure_count es) / of_nat (length es))) (Fin 100)"

definition auto_check_auth_failure_rate ::
  "platform \<Rightarrow> (pyfloat \<Rightarrow> string) \<Rightarrow> ('w, 's) nis2_env \<Rightarrow> nis2_config \<Rightarrow> real \<Rightarrow> ('w, 's) nis2 \<Rightarrow>
   ('w, 's) nis2 \<times> (a1_exn + nis2_incident option)" where
  "auto_check_auth_failure_rate pl fmt env cfg now r =
     (let recent = recent_events cfg now r; rate = failure_rate_pct pl recent
      in if length recent < 10 then (r, Inr None)
         else if rate \<le> auth_failure_threshold_pct cfg then (r, Inr None)
         else fired (trigger_incident env cfg now ''high''
                (''auth-failure rate '' @ fmt rate @ ''% over '' @ int_str (auth_failure_window_seconds cfg) @ ''s'')
                (VDict [(''failure_rate_pct'', VFloat rate), (''threshold_pct'', VFloat (auth_failure_threshold_pct cfg)),
                        (''window_seconds'', VInt (auth_failure_window_seconds cfg)),
                        (''samples'', VInt (int (length recent))), (''failures'', VInt (int (failure_count recent)))])
                ''auth_failure_rate'' None r))"

section \<open>Properties\<close>

text \<open>A sink that keeps what it is given.\<close>

definition log_sink :: "pyval list sink" where
  "log_sink = Some (\<lambda>p s. (s @ [p], None))"

lemma persist_log: "ne_sink env = log_sink \<Longrightarrow> nis2_persist env p r = r\<lparr>n2_sink := n2_sink r @ [p]\<rparr>"
  by (simp add: nis2_persist_def log_sink_def)

definition reachable_only_http :: "'w post \<Rightarrow> bool" where
  "reachable_only_http post \<longleftrightarrow> (\<forall>url p w w' e. post url p w = (w', Some e) \<longrightarrow> http_error e)"

text \<open>What one delivery adds to the log: nothing, or the record of its failure.\<close>

definition attempt_log :: "('w, 's) nis2_env \<Rightarrow> string \<Rightarrow> nis2_incident \<Rightarrow> 'w \<Rightarrow> pyval list" where
  "attempt_log env url inc w =
     (case snd (ne_post env url (as_payload (ne_iso env) inc) w) of
        None \<Rightarrow> []
      | Some e \<Rightarrow> [delivery_failure url (VStr (incident_id inc)) (ne_err_text env e)])"

lemma post_logs:
  assumes "ne_sink env = log_sink" "reachable_only_http (ne_post env)"
  shows "nis2_post env url inc r =
    (r\<lparr>n2_world := fst (ne_post env url (as_payload (ne_iso env) inc) (n2_world r)),
       n2_sink := n2_sink r @ attempt_log env url inc (n2_world r)\<rparr>, None)"
  using assms(2)
  by (cases "ne_post env url (as_payload (ne_iso env) inc) (n2_world r)")
    (auto simp: nis2_post_def attempt_log_def persist_log [OF assms(1)] reachable_only_http_def split: option.split)

text \<open>
  No incident is lost: a trigger posts the incident to the operator and then to the CSIRT, and the
  sink receives, in this order, one delivery failure for each endpoint that could not be reached and
  the incident itself, with its deadlines 24 hours, 72 hours and 30 days after the trigger.
\<close>

theorem incident_is_reported:
  assumes "ne_sink env = log_sink" and "reachable_only_http (ne_post env)"
  shows "\<exists>r' inc. trigger_incident env cfg now sev scope evidence kind iid r = (r', Inr inc) \<and>
           (let w1 = fst (ne_post env (operator_endpoint cfg) (as_payload (ne_iso env) inc) (n2_world r))
            in n2_world r' = fst (ne_post env (csirt_endpoint cfg) (as_payload (ne_iso env) inc) w1) \<and>
               n2_sink r' = n2_sink r @ attempt_log env (operator_endpoint cfg) inc (n2_world r) @
                 attempt_log env (csirt_endpoint cfg) inc w1 @ [as_payload (ne_iso env) inc]) \<and>
           early_warning_due (inc_milestones inc) = now + 24 * 3600 \<and>
           incident_notification_due (inc_milestones inc) = now + 72 * 3600 \<and>
           final_report_due (inc_milestones inc) = now + 30 * 24 * 3600"
  by (simp add: trigger_incident_def post_logs [OF assms] persist_log [OF assms(1)] from_trigger_def hours_def Let_def)

text \<open>The deque holds the newest events.\<close>

lemma maxlen_pos: "Suc n - AUTH_EVENTS_MAXLEN \<le> n"
  by (simp add: AUTH_EVENTS_MAXLEN_def)

lemma record_auth_run:
  "n2_auth_events (foldl (\<lambda>r (t, ok). record_auth_event ok t r) r es) =
     (let xs = n2_auth_events r @ es in drop (length xs - AUTH_EVENTS_MAXLEN) xs)"
  if "length (n2_auth_events r) \<le> AUTH_EVENTS_MAXLEN"
  using that
proof (induction es arbitrary: r)
  case (Cons e es)
  obtain t ok where e: "e = (t, ok)" by force
  let ?r = "record_auth_event ok t r"
  have len: "length (n2_auth_events ?r) \<le> AUTH_EVENTS_MAXLEN" by (simp add: record_auth_event_def Let_def)
  have ev: "n2_auth_events ?r = drop (length (n2_auth_events r) + 1 - AUTH_EVENTS_MAXLEN) (n2_auth_events r @ [(t, ok)])"
    by (simp add: record_auth_event_def Let_def)
  let ?k = "Suc (length (n2_auth_events r)) - AUTH_EVENTS_MAXLEN" and ?xs = "n2_auth_events r @ e # es"
  have "n2_auth_events ?r @ es = drop ?k ?xs"
    using maxlen_pos [of 0] by (simp add: ev e)
  moreover have "length ?xs - ?k - AUTH_EVENTS_MAXLEN + ?k = length ?xs - AUTH_EVENTS_MAXLEN" by simp
  ultimately show ?case using Cons.IH [OF len] by (simp add: e Let_def del: drop_append)
qed (simp add: Let_def)

text \<open>
  The authentication alarm, in exact arithmetic: after any recorded attempts, an incident is
  triggered exactly when at least ten of the newest 10000 attempts fall into the window and more than
  the threshold's percentage of those failed.
\<close>

theorem auth_alarm_iff:
  assumes "exact pl" and "auth_failure_threshold_pct cfg = Fin bound"
    and "ne_sink env = log_sink" and "reachable_only_http (ne_post env)"
    and "n2_auth_events r0 = []" and "r = foldl (\<lambda>r (t, ok). record_auth_event ok t r) r0 es"
    and "recent = filter (\<lambda>e. fst e \<ge> now - of_int (auth_failure_window_seconds cfg))
                    (drop (length es - AUTH_EVENTS_MAXLEN) es)"
  shows "(\<exists>r' inc. auto_check_auth_failure_rate pl fmt env cfg now r = (r', Inr (Some inc))) \<longleftrightarrow>
         10 \<le> length recent \<and> of_nat (failure_count recent) * 100 > bound * of_nat (length recent)"
proof -
  have "n2_auth_events r = drop (length es - AUTH_EVENTS_MAXLEN) es"
    using record_auth_run [of r0 es] assms(5) by (simp add: assms(6) Let_def)
  then have rec: "recent_events cfg now r = recent" by (simp add: recent_events_def assms(7))
  have fire: "\<exists>r' inc. fired (trigger_incident env cfg now sev scope evidence kind iid r) = (r', Inr (Some inc))"
    for sev scope evidence kind iid
    by (simp add: fired_def trigger_incident_def post_logs [OF assms(3,4)] persist_log [OF assms(3)] Let_def)
  have rate: "failure_rate_pct pl recent = Fin (of_nat (failure_count recent) / of_nat (length recent) * 100)"
    using assms(1) by (simp add: failure_rate_pct_def)
  have cmp: "of_nat (failure_count recent) / of_nat (length recent) * 100 \<le> bound \<longleftrightarrow>
      \<not> of_nat (failure_count recent) * 100 > bound * of_nat (length recent)" if "10 \<le> length recent"
  proof -
    have "0 < real (length recent)" using that by linarith
    then show ?thesis by (auto simp add: pos_divide_le_eq)
  qed
  show ?thesis
    using fire cmp
    by (auto simp: auto_check_auth_failure_rate_def rec rate assms(2) Let_def not_less)
qed

section \<open>Witnesses\<close>

definition demo_post :: "unit post" where
  "demo_post url p w = (w, if url = ''op'' then Some ConnectError else None)"

definition demo_nis2_env :: "(unit, pyval list) nis2_env" where
  "demo_nis2_env = \<lparr>ne_post = demo_post, ne_sink = log_sink, ne_iso = (\<lambda>_. ''t''), ne_stamp_text = (\<lambda>_. ''s''),
     ne_err_text = (\<lambda>_. ''down'')\<rparr>"

definition demo_nis2_config :: nis2_config where
  "demo_nis2_config = \<lparr>operator_endpoint = ''op'', csirt_endpoint = ''csirt'', auth_failure_window_seconds = 300,
     auth_failure_threshold_pct = Fin 1\<rparr>"

definition demo_reporter :: "(unit, pyval list) nis2" where
  "demo_reporter = \<lparr>n2_world = (), n2_sink = [], n2_auth_events = []\<rparr>"

lemma demo_env_ok: "ne_sink demo_nis2_env = log_sink" "reachable_only_http (ne_post demo_nis2_env)"
  by (auto simp: demo_nis2_env_def reachable_only_http_def demo_post_def split: if_splits)

theorem incident_is_reported_witness:
  "\<exists>r' inc. trigger_incident demo_nis2_env demo_nis2_config 7 ''high'' ''x'' VNone ''manual'' (Some ''i'') demo_reporter =
       (r', Inr inc) \<and>
     n2_sink r' = [delivery_failure ''op'' (VStr (incident_id inc)) ''down'', as_payload (\<lambda>_. ''t'') inc]"
  using incident_is_reported [OF demo_env_ok, of demo_nis2_config 7 "''high''" "''x''" VNone "''manual''" "Some ''i''"
      demo_reporter]
  by (auto simp: Let_def attempt_log_def demo_nis2_env_def demo_nis2_config_def demo_reporter_def demo_post_def)

theorem auth_alarm_iff_witness:
  "\<exists>r' inc. auto_check_auth_failure_rate exact_platform (\<lambda>_. ''r'') demo_nis2_env demo_nis2_config 100
     (foldl (\<lambda>r (t, ok). record_auth_event ok t r) demo_reporter (replicate 10 (50, False))) = (r', Inr (Some inc))"
proof -
  let ?es = "replicate 10 (50 :: real, False)"
  have "n2_auth_events demo_reporter = []" by (simp add: demo_reporter_def)
  moreover have "auth_failure_threshold_pct demo_nis2_config = Fin 1" by (simp add: demo_nis2_config_def)
  moreover have "filter (\<lambda>e. fst e \<ge> 100 - of_int (auth_failure_window_seconds demo_nis2_config))
      (drop (length ?es - AUTH_EVENTS_MAXLEN) ?es) = ?es"
    by (simp add: demo_nis2_config_def AUTH_EVENTS_MAXLEN_def)
  moreover have "failure_count ?es = 10" by (simp add: failure_count_def)
  ultimately show ?thesis
    using auth_alarm_iff [OF exact_exact_platform _ demo_env_ok, of demo_nis2_config 1 demo_reporter _ ?es ?es 100
        "\<lambda>_. ''r''"] by simp
qed

end
