(* ===== verification/Lineage.thy ===== *)
theory Lineage
  imports Json EvidenceChain
begin

text \<open>
  The lineage of AI-PHY model cards (\<open>evidence/ai_phy_lineage.py\<close>): the cards and their content
  address, applicability, the registry, and the walk back through the predecessors. The digest
  \<open>sha\<close> and the text of a float \<open>ff\<close> are parameters; \<open>isot\<close> is \<open>datetime.isoformat\<close>.
\<close>

section \<open>Cards\<close>

record pa_range =
  pr_min_db :: pyfloat
  pr_max_db :: pyfloat

definition pa_range_new :: "pyfloat \<Rightarrow> pyfloat \<Rightarrow> pa_range res" where
  "pa_range_new lo hi = (if hi < lo then Inl ValueError else Inr \<lparr>pr_min_db = lo, pr_max_db = hi\<rparr>)"

definition pr_contains :: "pa_range \<Rightarrow> pyfloat \<Rightarrow> bool" where
  "pr_contains p x \<longleftrightarrow> pr_min_db p \<le> x \<and> x \<le> pr_max_db p"

record ai_card =
  ac_name :: string
  ac_version :: string
  ac_sha256 :: string
  inference_type :: string
  expected_run_time_context :: string
  last_training_dataset_uri :: string
  last_training_dataset_sha256 :: string
  evaluation_report_uri :: string
  evaluation_report_sha256 :: string
  block_replaced :: string
  applicable_pa_regimes :: "pa_range list"
  applicable_mobility_classes :: "string list"
  cell_config_tags :: "string list"
  previous_version_sha :: "string option"
  training_data_lineage_ref :: "string option"
  ac_issued_at :: real

definition opt_str :: "string option \<Rightarrow> pyval" where
  "opt_str x = (case x of None \<Rightarrow> VNone | Some s \<Rightarrow> VStr s)"

definition pa_dict :: "pa_range \<Rightarrow> pyval" where
  "pa_dict p = VDict [(''min_db'', VFloat (pr_min_db p)), (''max_db'', VFloat (pr_max_db p))]"

definition card_dict :: "(real \<Rightarrow> string) \<Rightarrow> ai_card \<Rightarrow> (string \<times> pyval) list" where
  "card_dict isot c =
     [(''name'', VStr (ac_name c)), (''version'', VStr (ac_version c)), (''sha256'', VStr (ac_sha256 c)),
      (''inference_type'', VStr (inference_type c)),
      (''expected_run_time_context'', VStr (expected_run_time_context c)),
      (''last_training_dataset_uri'', VStr (last_training_dataset_uri c)),
      (''last_training_dataset_sha256'', VStr (last_training_dataset_sha256 c)),
      (''evaluation_report_uri'', VStr (evaluation_report_uri c)),
      (''evaluation_report_sha256'', VStr (evaluation_report_sha256 c)),
      (''block_replaced'', VStr (block_replaced c)),
      (''applicable_pa_regimes'', VList (map pa_dict (applicable_pa_regimes c))),
      (''applicable_mobility_classes'', VList (map VStr (applicable_mobility_classes c))),
      (''cell_config_tags'', VList (map VStr (cell_config_tags c))),
      (''previous_version_sha'', opt_str (previous_version_sha c)),
      (''training_data_lineage_ref'', opt_str (training_data_lineage_ref c)),
      (''issued_at'', VStr (isot (ac_issued_at c)))]"

text \<open>The address leaves the time of issue out.\<close>

definition card_sha256 :: "(pyfloat \<Rightarrow> string) \<Rightarrow> sha \<Rightarrow> (real \<Rightarrow> string) \<Rightarrow> ai_card \<Rightarrow> string res" where
  "card_sha256 ff sha isot c =
     bindE (json_dumps ff (VDict (dict_pop ''issued_at'' (card_dict isot c)))) (\<lambda>s. Inr (sha (utf8 s)))"

definition applies_to :: "ai_card \<Rightarrow> pyfloat option \<Rightarrow> string option \<Rightarrow> string option \<Rightarrow> bool" where
  "applies_to c backoff mobility tag =
     (if (case backoff of None \<Rightarrow> False | Some x \<Rightarrow> \<not> list_ex (\<lambda>p. pr_contains p x) (applicable_pa_regimes c)) then False
      else if (case mobility of None \<Rightarrow> False | Some m \<Rightarrow> m \<notin> set (applicable_mobility_classes c)) then False
      else if (case tag of None \<Rightarrow> False | Some t \<Rightarrow> t \<notin> set (cell_config_tags c)) then False
      else True)"

section \<open>The registry\<close>

type_synonym registry = "(string \<times> ai_card) list"

definition emit_ai_phy_card ::
  "(pyfloat \<Rightarrow> string) \<Rightarrow> sha \<Rightarrow> (real \<Rightarrow> string) \<Rightarrow> ai_card \<Rightarrow> registry \<Rightarrow> registry res" where
  "emit_ai_phy_card ff sha isot c reg = bindE (card_sha256 ff sha isot c) (\<lambda>h. Inr (dict_set h c reg))"

text \<open>The walk back has no bound in the code: on a cycle it does not return.\<close>

partial_function (option) replay_walk :: "registry \<Rightarrow> ai_card \<Rightarrow> ai_card list \<Rightarrow> ai_card list option" where
  "replay_walk reg cur walked =
     (let walked' = walked @ [cur]
      in case previous_version_sha cur of
           None \<Rightarrow> Some walked'
         | Some p \<Rightarrow> (case map_of reg p of None \<Rightarrow> Some walked' | Some nxt \<Rightarrow> replay_walk reg nxt walked'))"

definition replay_lineage_chain :: "registry \<Rightarrow> string \<Rightarrow> ai_card list res option" where
  "replay_lineage_chain reg h =
     (case map_of reg h of
        None \<Rightarrow> Some (Inl KeyError)
      | Some c \<Rightarrow> map_option (\<lambda>cs. Inr (rev cs)) (replay_walk reg c []))"

definition clear_registry :: "registry \<Rightarrow> registry" where
  "clear_registry reg = []"

section \<open>The content address\<close>

lemma map_of_sort_key: "distinct (map fst es) \<Longrightarrow> map_of (sort_key fst es) = map_of es"
  for es :: "(string \<times> 'a) list"
proof -
  assume d: "distinct (map fst es)"
  then have "distinct (map fst (sort_key fst es))" by (simp add: distinct_map)
  with d show ?thesis by (simp add: map_of_inject_set)
qed

lemma map_of_norm_entries: "map_of (json_norm_entries es) k = map_option json_norm (map_of es k)"
  by (induction es) auto

lemma keys_norm_entries: "map fst (json_norm_entries es) = map fst es"
  by (induction es) auto

lemma json_norm_dict:
  assumes "json_norm (VDict es) = json_norm (VDict fs)" and "distinct (map fst es)" "distinct (map fst fs)"
  shows "map_option json_norm (map_of es k) = map_option json_norm (map_of fs k)"
proof -
  have "map_of (sort_key fst (json_norm_entries es)) k = map_of (sort_key fst (json_norm_entries fs)) k"
    using assms(1) by simp
  then show ?thesis using assms(2,3) by (simp add: map_of_sort_key keys_norm_entries map_of_norm_entries)
qed


lemma jsonable_card:
  assumes "\<And>p. p \<in> set (applicable_pa_regimes c) \<Longrightarrow> D (pr_min_db p) \<and> D (pr_max_db p)"
  shows "jsonable D (VDict (dict_pop ''issued_at'' (card_dict isot c)))"
  using assms
  by (auto simp: dict_pop_def card_dict_def jsonable_items_iff list_all_iff pa_dict_def opt_str_def split: option.split)

lemma card_sha256_total:
  "card_sha256 ff sha isot c =
     Inr (sha (utf8 (render ff (json_norm (VDict (dict_pop ''issued_at'' (card_dict isot c)))))))"
  using jsonable_card [of c "\<lambda>_. True" isot] by (simp add: card_sha256_def json_dumps_def del: json_norm.simps)

definition unissued :: "ai_card \<Rightarrow> ai_card" where
  "unissued c = c\<lparr>ac_issued_at := 0\<rparr>"

definition collides :: "sha \<Rightarrow> bool" where
  "collides sha \<longleftrightarrow> (\<exists>x y. x \<noteq> y \<and> sha x = sha y)"

lemma pa_dict_inj:
  assumes "json_norm (pa_dict p) = json_norm (pa_dict q)"
  shows "p = q"
proof -
  have "map_option json_norm (map_of [(''min_db'', VFloat (pr_min_db p)), (''max_db'', VFloat (pr_max_db p))] k) =
      map_option json_norm (map_of [(''min_db'', VFloat (pr_min_db q)), (''max_db'', VFloat (pr_max_db q))] k)" for k
    by (rule json_norm_dict [OF assms [unfolded pa_dict_def]]) simp_all
  from this [of "''min_db''"] this [of "''max_db''"] show ?thesis by simp
qed

lemma norm_strings: "json_norm (VList (map VStr xs)) = VList (map VStr xs)"
  by (simp add: json_norm_items_map)

lemma norm_regimes_inj:
  "json_norm (VList (map pa_dict ps)) = json_norm (VList (map pa_dict qs)) \<Longrightarrow> ps = qs"
proof (induction ps arbitrary: qs)
  case (Cons p ps)
  then show ?case by (cases qs) (auto simp: json_norm_items_map pa_dict_inj simp del: json_norm.simps(2))
qed (simp add: json_norm_items_map)

lemma opt_str_inj [simp]: "opt_str x = opt_str y \<longleftrightarrow> x = y" "json_norm (opt_str x) = opt_str x"
  by (auto simp: opt_str_def split: option.splits)

lemma card_keys: "distinct (map fst (dict_pop ''issued_at'' (card_dict isot c)))"
  by (simp add: dict_pop_def card_dict_def)

lemma card_dict_inj:
  assumes "json_norm (VDict (dict_pop ''issued_at'' (card_dict isot c))) =
           json_norm (VDict (dict_pop ''issued_at'' (card_dict isot c')))"
  shows "unissued c = unissued c'"
proof -
  have eq: "map_option json_norm (map_of (dict_pop ''issued_at'' (card_dict isot c)) k) =
      map_option json_norm (map_of (dict_pop ''issued_at'' (card_dict isot c')) k)" for k
    by (rule json_norm_dict [OF assms card_keys card_keys])
  have "dict_pop ''issued_at'' (card_dict isot c) = butlast (card_dict isot c)" for c
    by (simp add: dict_pop_def card_dict_def)
  note eq = eq [unfolded this]
  note card_dict_def [simp] norm_strings [simp] json_norm.simps(1) [simp del]
  show ?thesis
    using eq [of "''name''"] eq [of "''version''"] eq [of "''sha256''"] eq [of "''inference_type''"]
      eq [of "''expected_run_time_context''"] eq [of "''last_training_dataset_uri''"]
      eq [of "''last_training_dataset_sha256''"] eq [of "''evaluation_report_uri''"]
      eq [of "''evaluation_report_sha256''"] eq [of "''block_replaced''"]
      norm_regimes_inj [OF eq [of "''applicable_pa_regimes''", simplified]]
      eq [of "''applicable_mobility_classes''"] eq [of "''cell_config_tags''"]
      eq [of "''previous_version_sha''"] eq [of "''training_data_lineage_ref''"]
    by (simp add: unissued_def inj_map_eq_map inj_def)
qed

text \<open>
  A card's address is an address of its content: two cards at one address agree in every field but
  the time of issue, or SHA-256 has a collision.
\<close>

theorem card_address_binds:
  assumes "float_text_ok ff D"
    and "\<And>p. p \<in> set (applicable_pa_regimes c) \<union> set (applicable_pa_regimes c') \<Longrightarrow> D (pr_min_db p) \<and> D (pr_max_db p)"
    and "card_sha256 ff sha isot c = Inr h" "card_sha256 ff sha isot c' = Inr h"
  shows "unissued c = unissued c' \<or> collides sha"
proof (cases "collides sha")
  case False
  let ?d = "\<lambda>c. VDict (dict_pop ''issued_at'' (card_dict isot c))"
  have "render ff (json_norm (?d c)) = render ff (json_norm (?d c'))"
    using assms(3,4) False utf8_inj unfolding card_sha256_total collides_def by (metis sum.inject(2))
  moreover have "jsonable D (?d c)" "jsonable D (?d c')" by (rule jsonable_card, use assms(2) in blast)+
  ultimately have "json_norm (?d c) = json_norm (?d c')"
    using json_dumps_inj [OF assms(1)] jsonable_all(1) by (metis json_dumps_def)
  then show ?thesis using card_dict_inj by blast
qed simp

section \<open>The walk back\<close>

fun emit_all ::
  "(pyfloat \<Rightarrow> string) \<Rightarrow> sha \<Rightarrow> (real \<Rightarrow> string) \<Rightarrow> ai_card list \<Rightarrow> registry \<Rightarrow> registry res" where
  "emit_all ff sha isot [] reg = Inr reg"
| "emit_all ff sha isot (c # cs) reg = bindE (emit_ai_phy_card ff sha isot c reg) (emit_all ff sha isot cs)"

text \<open>Each card of a path names the address of the next as its predecessor.\<close>

fun linked :: "(ai_card \<Rightarrow> string res) \<Rightarrow> ai_card list \<Rightarrow> bool" where
  "linked addr (a # b # cs) = ((\<exists>p. previous_version_sha a = Some p \<and> addr b = Inr p) \<and> linked addr (b # cs))"
| "linked addr _ = True"

lemma linked_suffix: "linked addr (us @ vs) \<Longrightarrow> linked addr vs"
proof (induction us)
  case (Cons u us)
  then show ?case by (cases "us @ vs") auto
qed simp

lemma linked_snoc:
  "linked addr (cs @ [a]) \<Longrightarrow> previous_version_sha a = Some p \<Longrightarrow> addr b = Inr p \<Longrightarrow> linked addr (cs @ [a, b])"
proof (induction cs)
  case (Cons c cs)
  then show ?case by (cases cs) auto
qed simp

definition keyed :: "(ai_card \<Rightarrow> string res) \<Rightarrow> registry \<Rightarrow> bool" where
  "keyed addr reg \<longleftrightarrow> (\<forall>h c. map_of reg h = Some c \<longrightarrow> addr c = Inr h)"

lemma emit_all_keyed:
  "emit_all ff sha isot cs reg = Inr reg' \<Longrightarrow> keyed (card_sha256 ff sha isot) reg \<Longrightarrow>
   keyed (card_sha256 ff sha isot) reg' \<and> ran (map_of reg') \<subseteq> ran (map_of reg) \<union> set cs"
proof (induction cs arbitrary: reg)
  case (Cons c cs)
  obtain h where h: "card_sha256 ff sha isot c = Inr h" using card_sha256_total by blast
  let ?reg = "dict_set h c reg"
  have "keyed (card_sha256 ff sha isot) ?reg" using Cons.prems(2) h by (auto simp: keyed_def)
  moreover have "emit_all ff sha isot cs ?reg = Inr reg'"
    using Cons.prems(1) h by (simp add: emit_ai_phy_card_def bindE_def)
  ultimately have "keyed (card_sha256 ff sha isot) reg' \<and> ran (map_of reg') \<subseteq> ran (map_of ?reg) \<union> set cs"
    using Cons.IH by blast
  moreover have "ran (map_of ?reg) \<subseteq> ran (map_of reg) \<union> {c}" by (auto simp: ran_def)
  ultimately show ?case by auto
qed simp

definition hash_cycle :: "(ai_card \<Rightarrow> string res) \<Rightarrow> ai_card set \<Rightarrow> bool" where
  "hash_cycle addr S \<longleftrightarrow> (\<exists>cs. cs \<noteq> [] \<and> set cs \<subseteq> S \<and> linked addr (cs @ [hd cs]))"

definition walk_result :: "(ai_card \<Rightarrow> string res) \<Rightarrow> registry \<Rightarrow> ai_card \<Rightarrow> ai_card list \<Rightarrow> bool" where
  "walk_result addr reg start cs \<longleftrightarrow>
     cs \<noteq> [] \<and> hd cs = start \<and> distinct cs \<and> set cs \<subseteq> ran (map_of reg) \<and> linked addr cs \<and>
     (case previous_version_sha (last cs) of None \<Rightarrow> True | Some p \<Rightarrow> map_of reg p = None)"

lemma replay_walk_ends:
  assumes keyed: "keyed addr reg"
  shows "distinct (walked @ [cur]) \<Longrightarrow> set (walked @ [cur]) \<subseteq> ran (map_of reg) \<Longrightarrow> linked addr (walked @ [cur]) \<Longrightarrow>
    \<not> hash_cycle addr (ran (map_of reg)) \<Longrightarrow>
    \<exists>cs. replay_walk reg cur walked = Some cs \<and> walk_result addr reg (hd (walked @ [cur])) cs"
proof (induction "card (ran (map_of reg)) - length walked" arbitrary: walked cur rule: less_induct)
  case less
  let ?w = "walked @ [cur]"
  show ?case
  proof (cases "case previous_version_sha cur of None \<Rightarrow> None | Some p \<Rightarrow> map_of reg p")
    case None
    then have "replay_walk reg cur walked = Some ?w" "walk_result addr reg (hd ?w) ?w"
      using less.prems by (subst replay_walk.simps, auto simp: walk_result_def Let_def split: option.splits)+
    then show ?thesis by blast
  next
    case (Some nxt)
    then obtain p where p: "previous_version_sha cur = Some p" "map_of reg p = Some nxt"
      by (auto split: option.splits)
    then have addr: "addr nxt = Inr p" using keyed by (simp add: keyed_def)
    have ran: "nxt \<in> ran (map_of reg)" using p(2) by (rule ranI)
    have link: "linked addr (?w @ [nxt])" using linked_snoc [OF less.prems(3) p(1) addr] by simp
    have new: "nxt \<notin> set ?w"
    proof
      assume "nxt \<in> set ?w"
      then obtain us vs where w: "?w = us @ nxt # vs" by (meson split_list)
      then have "linked addr ((nxt # vs) @ [hd (nxt # vs)])" using link linked_suffix [of addr us "nxt # vs @ [nxt]"] by simp
      moreover have "set (nxt # vs) \<subseteq> ran (map_of reg)" using less.prems(2) w by auto
      ultimately show False using less.prems(4) unfolding hash_cycle_def by blast
    qed
    have "card (insert nxt (set ?w)) \<le> card (ran (map_of reg))"
      using less.prems(2) ran finite_ran [OF finite_dom_map_of] by (intro card_mono) auto
    then have "card (ran (map_of reg)) - length ?w < card (ran (map_of reg)) - length walked"
      using new distinct_card [OF less.prems(1)] by auto
    then have "\<exists>cs. replay_walk reg nxt ?w = Some cs \<and> walk_result addr reg (hd (?w @ [nxt])) cs"
      using less.prems new ran link by (intro less.hyps) auto
    moreover have "hd (?w @ [nxt]) = hd ?w" by (cases walked) auto
    moreover have "replay_walk reg cur walked = replay_walk reg nxt ?w"
      using p by (subst replay_walk.simps) (simp add: Let_def)
    ultimately show ?thesis by simp
  qed
qed

text \<open>
  C31. Replaying a lineage ends: for whatever cards were registered, the replay of a registered address
  returns the card's history, oldest first and without repetition, each card the predecessor that the
  next one names, and goes back until a card names no predecessor or one that is not registered;
  otherwise some cards' digests form a cycle.
\<close>

theorem lineage_replay_ends:
  assumes "emit_all ff sha isot cards [] = Inr reg" and "map_of reg h = Some c"
  shows "(\<exists>cs. replay_lineage_chain reg h = Some (Inr cs) \<and> walk_result (card_sha256 ff sha isot) reg c (rev cs)) \<or>
         hash_cycle (card_sha256 ff sha isot) (set cards)"
proof (cases "hash_cycle (card_sha256 ff sha isot) (set cards)")
  case False
  have k: "keyed (card_sha256 ff sha isot) reg" "ran (map_of reg) \<subseteq> set cards"
    using emit_all_keyed [OF assms(1)] by (auto simp: keyed_def)
  then have "\<not> hash_cycle (card_sha256 ff sha isot) (ran (map_of reg))"
    using False by (auto simp: hash_cycle_def)
  then obtain cs where "replay_walk reg c [] = Some cs" "walk_result (card_sha256 ff sha isot) reg c cs"
    using replay_walk_ends [OF k(1), of "[]" c] assms(2) by (auto simp: ranI)
  then show ?thesis using assms(2) by (auto simp: replay_lineage_chain_def intro!: exI [of _ "rev cs"])
qed simp

text \<open>A card that names its own address is such a cycle, and its replay does not return.\<close>

lemma self_loop_diverges:
  assumes "map_of reg p = Some c" and "previous_version_sha c = Some p"
  shows "replay_walk reg c walked = None"
proof -
  have "reg = reg \<longrightarrow> c = c \<longrightarrow> False" if "replay_walk reg c walked = Some y" for y
    by (rule replay_walk.raw_induct [where P = "\<lambda>r c' w y. r = reg \<longrightarrow> c' = c \<longrightarrow> False", OF _ that])
      (use assms in \<open>clarsimp simp: Let_def, blast\<close>)
  then show ?thesis by fastforce
qed

section \<open>Witnesses\<close>

definition demo_card :: "string option \<Rightarrow> real \<Rightarrow> ai_card" where
  "demo_card p t = \<lparr>ac_name = ''deeprx'', ac_version = ''1'', ac_sha256 = ''s'', inference_type = ''batch'',
     expected_run_time_context = ''gpu'', last_training_dataset_uri = ''u'', last_training_dataset_sha256 = ''d'',
     evaluation_report_uri = ''e'', evaluation_report_sha256 = ''f'', block_replaced = ''equalization'',
     applicable_pa_regimes = [], applicable_mobility_classes = [''low''], cell_config_tags = [],
     previous_version_sha = p, training_data_lineage_ref = None, ac_issued_at = t\<rparr>"

definition demo_text :: "string option \<Rightarrow> real \<Rightarrow> string" where
  "demo_text p t = render (\<lambda>_. ''0'') (json_norm (VDict (dict_pop ''issued_at'' (card_dict (\<lambda>_. []) (demo_card p t)))))"

definition demo_sha :: sha where
  "demo_sha bs = (if bs = utf8 (demo_text None 0) then ''a'' else ''b'')"

abbreviation demo_addr :: "ai_card \<Rightarrow> string res" where
  "demo_addr \<equiv> card_sha256 (\<lambda>_. ''0'') demo_sha (\<lambda>_. [])"

lemma demo_text_inj: "demo_text p t = demo_text q u \<Longrightarrow> p = q"
proof -
  let ?d = "\<lambda>p t. VDict (dict_pop ''issued_at'' (card_dict (\<lambda>_. []) (demo_card p t)))"
  have j: "jsonable (\<lambda>_. False) (?d p t)" for p t
    by (rule jsonable_card) (simp add: demo_card_def)
  assume "demo_text p t = demo_text q u"
  then have "json_norm (?d p t) = json_norm (?d q u)"
    using json_dumps_inj [OF float_text_none j j] jsonable_all(1) [OF j] unfolding demo_text_def json_dumps_def by metis
  from card_dict_inj [OF this] show "p = q" by (simp add: unissued_def demo_card_def)
qed

lemma demo_addr_eq: "demo_addr (demo_card p t) = Inr (demo_sha (utf8 (demo_text p t)))"
  by (simp add: card_sha256_total demo_text_def del: json_norm.simps)

lemma demo_addrs: "demo_addr (demo_card None 0) = Inr ''a''" "demo_addr (demo_card (Some ''a'') 1) = Inr ''b''"
  using demo_text_inj [of "Some ''a''" 1 None 0] by (auto simp: demo_addr_eq demo_sha_def utf8_inj)

lemma demo_emitted:
  "emit_all (\<lambda>_. ''0'') demo_sha (\<lambda>_. []) [demo_card None 0, demo_card (Some ''a'') 1] [] =
     Inr [(''a'', demo_card None 0), (''b'', demo_card (Some ''a'') 1)]"
  by (simp add: emit_ai_phy_card_def bindE_def demo_addrs)

theorem lineage_replay_ends_witness:
  "\<exists>cs. replay_lineage_chain [(''a'', demo_card None 0), (''b'', demo_card (Some ''a'') 1)] ''b'' = Some (Inr cs) \<and>
     last cs = demo_card (Some ''a'') 1"
proof -
  have no: "\<not> hash_cycle demo_addr (set [demo_card None 0, demo_card (Some ''a'') 1])"
  proof
    assume "hash_cycle demo_addr (set [demo_card None 0, demo_card (Some ''a'') 1])"
    then obtain cs where cs: "cs \<noteq> []" "set cs \<subseteq> {demo_card None 0, demo_card (Some ''a'') 1}"
      "linked demo_addr (cs @ [hd cs])" by (auto simp: hash_cycle_def)
    have prev: "previous_version_sha (demo_card p t) = p" for p t by (simp add: demo_card_def)
    have "cs @ [hd cs] = butlast cs @ [last cs, hd cs]" using cs(1) by simp
    then have "linked demo_addr [last cs, hd cs]" using cs(3) linked_suffix by metis
    then obtain p where p: "previous_version_sha (last cs) = Some p" "demo_addr (hd cs) = Inr p" by auto
    have "last cs = demo_card (Some ''a'') 1" using p(1) cs(2) last_in_set [OF cs(1)] prev [of None] by auto
    then have "demo_addr (hd cs) = Inr ''a''" using p prev by simp
    then have hd: "hd cs = demo_card None 0" using cs(2) hd_in_set [OF cs(1)] demo_addrs by auto
    with \<open>last cs = demo_card (Some ''a'') 1\<close> prev cs(1) obtain d ds where "cs = demo_card None 0 # d # ds"
      by (cases cs; cases "tl cs") (auto dest: arg_cong [where f = previous_version_sha])
    with cs(3) prev show False by simp
  qed
  show ?thesis
    using lineage_replay_ends [OF demo_emitted, of "''b''"] no
    by (auto simp: walk_result_def hd_rev)
qed

theorem card_address_binds_witness:
  "unissued (demo_card None 0) = unissued (demo_card None 7) \<or> collides demo_sha"
proof (rule card_address_binds [OF float_text_none])
  have "demo_text None 7 = demo_text None 0" by (simp add: demo_text_def demo_card_def dict_pop_def card_dict_def)
  then show "demo_addr (demo_card None 7) = Inr ''a''" by (simp add: demo_addr_eq demo_sha_def)
qed (simp_all add: demo_addrs, simp add: demo_card_def)

end
