(* ===== verification/DataManifest.thy ===== *)
theory DataManifest
  imports Json EvidenceChain
begin

text \<open>
  The training-data manifest (\<open>data/lineage.py\<close>): its validation, the walk over a dataset, the digest
  of the dataset and \<open>build_manifest\<close>. The file system is a tree of regular files and directories
  (no symbolic links); texts are ASCII, and a value has the type its field declares. Pydantic
  collects the errors of all fields, but lets a \<open>TypeError\<close> of a validator through.
\<close>

section \<open>Validation\<close>

datatype py_datetime = Naive real | Aware real

fun dt_less :: "py_datetime \<Rightarrow> py_datetime \<Rightarrow> bool res" where
  "dt_less (Naive a) (Naive b) = Inr (a < b)"
| "dt_less (Aware a) (Aware b) = Inr (a < b)"
| "dt_less _ _ = Inl TypeError"

definition GDPR_LAWFUL_GROUNDS :: "string list" where
  "GDPR_LAWFUL_GROUNDS =
     [''consent'', ''contract'', ''legal_obligation'', ''vital_interests'', ''public_task'',
      ''legitimate_interests'', ''n/a'']"

record data_manifest =
  dataset_sha256 :: string
  sample_count :: int
  time_range_start :: py_datetime
  time_range_end :: py_datetime
  geography_filter :: "string list"
  provider_breakdown :: "(string \<times> int) list"
  dm_license :: string
  consent_basis :: string

definition validate_iso3166 :: "string list \<Rightarrow> bool" where
  "validate_iso3166 v \<longleftrightarrow>
     list_all (\<lambda>code. length code = 2 \<and> list_all (\<lambda>c. let n = of_char c :: nat in 65 \<le> n \<and> n \<le> 90) code) v"

definition end_after_start :: "py_datetime \<Rightarrow> py_datetime \<Rightarrow> bool res" where
  "end_after_start start v = bindE (dt_less v start) (\<lambda>b. Inr (\<not> b))"

text \<open>\<open>sample_count\<close> is known to the validator only if it is valid itself.\<close>

definition breakdown_sums_to_count :: "int option \<Rightarrow> (string \<times> int) list \<Rightarrow> bool" where
  "breakdown_sums_to_count n v =
     (case n of None \<Rightarrow> True | Some n \<Rightarrow> \<not> (v \<noteq> [] \<and> sum_list (map snd v) \<noteq> n))"

datatype manifest_exn = ValidationError "string list" | ManifestExn py_exn

definition data_manifest_new :: "data_manifest \<Rightarrow> manifest_exn + data_manifest" where
  "data_manifest_new m =
     (case end_after_start (time_range_start m) (time_range_end m) of
        Inl e \<Rightarrow> Inl (ManifestExn e)
      | Inr ordered \<Rightarrow>
          let errors =
            (if digest_ok (dataset_sha256 m) then [] else [''dataset_sha256'']) @
            (if 0 \<le> sample_count m then [] else [''sample_count'']) @
            (if ordered then [] else [''time_range_end'']) @
            (if validate_iso3166 (geography_filter m) then [] else [''geography_filter'']) @
            (if breakdown_sums_to_count (if 0 \<le> sample_count m then Some (sample_count m) else None) (provider_breakdown m)
             then [] else [''provider_breakdown'']) @
            (if 1 \<le> length (dm_license m) then [] else [''license'']) @
            (if consent_basis m \<in> set GDPR_LAWFUL_GROUNDS then [] else [''consent_basis''])
          in if errors = [] then Inr m else Inl (ValidationError errors))"

section \<open>The dataset\<close>

datatype fs_node = FFile "nat list" | FDir "(string \<times> fs_node) list"

fun walk_files :: "fs_node \<Rightarrow> (string list \<times> nat list) list"
  and walk_entries :: "(string \<times> fs_node) list \<Rightarrow> (string list \<times> nat list) list" where
  "walk_files (FFile b) = [([], b)]"
| "walk_files (FDir es) = walk_entries es"
| "walk_entries [] = []"
| "walk_entries ((name, x) # es) = map (\<lambda>(parts, b). (name # parts, b)) (walk_files x) @ walk_entries es"

text \<open>Reading in chunks; \<open>digest.update\<close> appends to what is hashed.\<close>

definition CHUNK_SIZE :: nat where
  "CHUNK_SIZE = 1024 * 1024"

function read_chunks :: "nat list \<Rightarrow> nat list \<Rightarrow> nat list" where
  "read_chunks stream hashed =
     (let chunk = take CHUNK_SIZE stream
      in if chunk = [] then hashed else read_chunks (drop CHUNK_SIZE stream) (hashed @ chunk))"
  by auto
termination by (relation "measure (\<lambda>(s, h). length s)") (auto simp: CHUNK_SIZE_def)

declare read_chunks.simps [simp del]

definition sha256_file :: "sha \<Rightarrow> nat list \<Rightarrow> string" where
  "sha256_file sha b = sha (read_chunks b [])"

fun posix_path :: "string list \<Rightarrow> string" where
  "posix_path [] = ''.''"
| "posix_path [p] = p"
| "posix_path (p # ps) = p @ CHR ''/'' # posix_path ps"

type_synonym file_row = "string \<times> int \<times> string"

text \<open>A dataset root: its name and what is there. Paths are ordered by their parts.\<close>

definition file_manifest_rows :: "sha \<Rightarrow> string \<Rightarrow> fs_node option \<Rightarrow> file_row list" where
  "file_manifest_rows sha name droot =
     (case droot of
        None \<Rightarrow> []
      | Some (FFile b) \<Rightarrow> [(name, int (length b), sha256_file sha b)]
      | Some (FDir es) \<Rightarrow>
          map (\<lambda>(parts, b). (posix_path parts, int (length b), sha256_file sha b))
            (sort_key fst (walk_files (FDir es))))"

definition row_json :: "file_row \<Rightarrow> pyval" where
  "row_json r = (case r of (p, n, h) \<Rightarrow> VList [VStr p, VInt n, VStr h])"

definition compute_dataset_sha256 ::
  "(pyfloat \<Rightarrow> string) \<Rightarrow> sha \<Rightarrow> string \<Rightarrow> fs_node option \<Rightarrow> string res" where
  "compute_dataset_sha256 ff sha name droot =
     bindE (json_dumps ff (VList (map row_json (file_manifest_rows sha name droot)))) (\<lambda>s. Inr (sha (utf8 s)))"

fun to_utc :: "py_datetime \<Rightarrow> py_datetime" where
  "to_utc (Aware t) = Aware t"
| "to_utc (Naive t) = Aware t"

definition build_manifest ::
  "(pyfloat \<Rightarrow> string) \<Rightarrow> sha \<Rightarrow> string \<Rightarrow> fs_node option \<Rightarrow> int \<Rightarrow> py_datetime \<Rightarrow> py_datetime \<Rightarrow> string \<Rightarrow>
   string \<Rightarrow> string list \<Rightarrow> (string \<times> int) list option \<Rightarrow> manifest_exn + data_manifest" where
  "build_manifest ff sha name droot n t0 t1 lic consent geo breakdown =
     (if consent \<notin> set GDPR_LAWFUL_GROUNDS then Inl (ManifestExn ValueError)
      else case compute_dataset_sha256 ff sha name droot of
        Inl e \<Rightarrow> Inl (ManifestExn e)
      | Inr h \<Rightarrow>
          data_manifest_new
            \<lparr>dataset_sha256 = h, sample_count = n, time_range_start = to_utc t0, time_range_end = to_utc t1,
             geography_filter = geo, provider_breakdown = (case breakdown of None \<Rightarrow> [] | Some d \<Rightarrow> d),
             dm_license = lic, consent_basis = consent\<rparr>)"

section \<open>What the digest binds\<close>

lemma read_chunks_whole: "read_chunks stream hashed = hashed @ stream"
proof (induction stream hashed rule: read_chunks.induct)
  case (1 stream hashed)
  then show ?case
    by (subst read_chunks.simps) (auto simp: Let_def CHUNK_SIZE_def)
qed

lemma sha256_file_whole: "sha256_file sha b = sha b"
  by (simp add: sha256_file_def read_chunks_whole)

definition path_ok :: "string list \<Rightarrow> bool" where
  "path_ok ps \<longleftrightarrow> ps \<noteq> [] \<and> list_all (\<lambda>p. CHR ''/'' \<notin> set p) ps"

lemma split_at_sep: "x \<notin> set a \<Longrightarrow> x \<notin> set b \<Longrightarrow> a @ x # r = b @ x # q \<Longrightarrow> a = b \<and> r = q"
proof (induction a arbitrary: b)
  case Nil
  then show ?case by (cases b) auto
next
  case (Cons y a)
  then show ?case by (cases b) auto
qed

lemma posix_path_inj: "path_ok ps \<Longrightarrow> path_ok qs \<Longrightarrow> posix_path ps = posix_path qs \<Longrightarrow> ps = qs"
proof (induction ps arbitrary: qs rule: posix_path.induct)
  case (2 p)
  then show ?case by (cases qs rule: posix_path.cases) (auto simp: path_ok_def)
next
  case (3 p p' ps)
  show ?case
  proof (cases qs rule: posix_path.cases)
    case (3 q q' qs')
    have "p = q \<and> posix_path (p' # ps) = posix_path (q' # qs')"
      using "3.prems" 3 by (intro split_at_sep [of "CHR ''/''"]) (auto simp: path_ok_def)
    then show ?thesis using "3.IH" [of "q' # qs'"] "3.prems" 3 by (simp add: path_ok_def)
  qed (use "3.prems" in \<open>auto simp: path_ok_def\<close>)
qed (simp add: path_ok_def)

fun names_ok :: "fs_node \<Rightarrow> bool" and entries_ok :: "(string \<times> fs_node) list \<Rightarrow> bool" where
  "names_ok (FFile b) = True"
| "names_ok (FDir es) = entries_ok es"
| "entries_ok [] = True"
| "entries_ok ((name, x) # es) = (CHR ''/'' \<notin> set name \<and> names_ok x \<and> entries_ok es)"

lemma walk_paths:
  "names_ok x \<Longrightarrow> pb \<in> set (walk_files x) \<Longrightarrow> list_all (\<lambda>p. CHR ''/'' \<notin> set p) (fst pb)"
  "entries_ok es \<Longrightarrow> pb \<in> set (walk_entries es) \<Longrightarrow> path_ok (fst pb)"
  by (induction x and es arbitrary: pb and pb rule: walk_files_walk_entries.induct) (auto simp: path_ok_def)

lemma row_json_inj: "row_json r = row_json q \<Longrightarrow> r = q"
  by (cases r; cases q) (simp add: row_json_def)

lemma row_json_norm [simp]: "json_norm (row_json r) = row_json r" "jsonable D (row_json r)"
  by (simp_all add: row_json_def split: prod.split)

lemma dataset_text:
  "json_dumps ff (VList (map row_json rows)) = Inr (render ff (VList (map row_json rows)))"
  by (simp add: json_dumps_def jsonable_items_iff list_all_iff json_norm_items_map comp_def)

lemma compute_dataset_total:
  "compute_dataset_sha256 ff sha name droot =
     Inr (sha (utf8 (render ff (VList (map row_json (file_manifest_rows sha name droot))))))"
  by (simp add: compute_dataset_sha256_def dataset_text)

definition collision_in :: "sha \<Rightarrow> bool" where
  "collision_in sha \<longleftrightarrow> (\<exists>x y. x \<noteq> y \<and> sha x = sha y)"

lemma rows_determined:
  assumes "compute_dataset_sha256 ff sha n1 r1 = compute_dataset_sha256 ff sha n2 r2" and "\<not> collision_in sha"
  shows "file_manifest_rows sha n1 r1 = file_manifest_rows sha n2 r2"
proof -
  let ?v = "\<lambda>n r. VList (map row_json (file_manifest_rows sha n r))"
  have "render ff (?v n1 r1) = render ff (?v n2 r2)"
    using assms utf8_inj unfolding compute_dataset_total collision_in_def by (metis sum.inject(2))
  then have "json_norm (?v n1 r1) = json_norm (?v n2 r2)"
    by (intro json_dumps_inj [OF float_text_none, where ff = ff]) (simp_all add: jsonable_items_iff list_all_iff dataset_text)
  then show ?thesis
    by (simp add: json_norm_items_map comp_def inj_map_eq_map inj_def row_json_inj)
qed

text \<open>
  The digest of a dataset binds its files: two directories with one digest hold the same files,
  with the same paths and the same bytes, or SHA-256 has a collision; so an exchange of a file's
  bytes, its size kept, changes the digest.
\<close>

theorem dataset_digest_binds:
  assumes "entries_ok es" "entries_ok fs"
    and "compute_dataset_sha256 ff sha n1 (Some (FDir es)) = compute_dataset_sha256 ff sha n2 (Some (FDir fs))"
  shows "set (walk_entries es) = set (walk_entries fs) \<or> collision_in sha"
proof (cases "collision_in sha")
  case False
  let ?row = "\<lambda>(parts, b). (posix_path parts, int (length b), sha256_file sha b)"
  have rows: "map ?row (sort_key fst (walk_entries es)) = map ?row (sort_key fst (walk_entries fs))"
    using rows_determined [OF assms(3) False] by (simp add: file_manifest_rows_def)
  have inj: "x = y" if "x \<in> set (walk_entries es)" "y \<in> set (walk_entries fs)" "?row x = ?row y" for x y
  proof -
    obtain ps b qs c where xy: "x = (ps, b)" "y = (qs, c)" by fastforce
    have "ps = qs"
      using posix_path_inj [OF walk_paths(2) [OF assms(1) that(1)] walk_paths(2) [OF assms(2) that(2)]] that(3) xy by simp
    then show ?thesis using that(3) xy False by (auto simp: sha256_file_whole collision_in_def)
  qed
  have "?row ` set (walk_entries es) = ?row ` set (walk_entries fs)"
    using arg_cong [OF rows, of set] by simp
  then have "set (walk_entries es) = set (walk_entries fs)"
  proof (intro equalityI subsetI)
    fix x
    assume eq: "?row ` set (walk_entries es) = ?row ` set (walk_entries fs)"
    show "x \<in> set (walk_entries fs)" if "x \<in> set (walk_entries es)"
      using eq that inj by (metis (no_types, lifting) imageE imageI)
    show "x \<in> set (walk_entries es)" if "x \<in> set (walk_entries fs)"
      using eq that inj by (metis (no_types, lifting) imageE imageI)
  qed
  then show ?thesis ..
qed simp

text \<open>
  \<open>build_manifest\<close> gives only manifests that state a lawful basis, a digest of 64 hexadecimal digits,
  a time range that does not run backwards, well-formed country codes, a licence and a breakdown that
  adds up to the count; the only other outcomes are the \<open>ValueError\<close> for an unlawful basis and a
  validation error that names a field.
\<close>

theorem manifest_well_formed:
  assumes "sha_ok sha"
  shows "case build_manifest ff sha name droot n t0 t1 lic consent geo breakdown of
     Inr m \<Rightarrow> digest_ok (dataset_sha256 m) \<and> 0 \<le> sample_count m \<and> validate_iso3166 (geography_filter m) \<and>
       (\<exists>a b. time_range_start m = Aware a \<and> time_range_end m = Aware b \<and> a \<le> b) \<and>
       (provider_breakdown m = [] \<or> sum_list (map snd (provider_breakdown m)) = sample_count m) \<and>
       dm_license m \<noteq> [] \<and> consent_basis m \<in> set GDPR_LAWFUL_GROUNDS
   | Inl (ManifestExn e) \<Rightarrow> e = ValueError \<and> consent \<notin> set GDPR_LAWFUL_GROUNDS
   | Inl (ValidationError fs) \<Rightarrow> fs \<noteq> [] \<and> consent \<in> set GDPR_LAWFUL_GROUNDS \<and>
       set fs \<subseteq> {''sample_count'', ''time_range_end'', ''geography_filter'', ''provider_breakdown'', ''license''}"
proof (cases "consent \<in> set GDPR_LAWFUL_GROUNDS")
  case True
  obtain a b where t: "to_utc t0 = Aware a" "to_utc t1 = Aware b" by (cases t0; cases t1) auto
  have d: "digest_ok (sha x)" for x using assms by (simp add: sha_ok_def)
  show ?thesis
    using True
    by (auto simp: build_manifest_def compute_dataset_total data_manifest_new_def t d end_after_start_def bindE_def
        breakdown_sums_to_count_def Let_def not_less Suc_le_eq split: if_splits option.splits)
qed (simp add: build_manifest_def)

text \<open>The root need not exist: a missing one has the digest of an empty directory.\<close>

lemma missing_root_passes:
  "compute_dataset_sha256 ff sha n1 None = compute_dataset_sha256 ff sha n2 (Some (FDir []))"
  by (simp add: compute_dataset_sha256_def file_manifest_rows_def)

section \<open>Witnesses\<close>

definition demo_dataset :: "nat \<Rightarrow> (string \<times> fs_node) list" where
  "demo_dataset n = [(''train'', FDir [(''a.npy'', FFile [n, 1, 2])]), (''README'', FFile [])]"

theorem dataset_digest_binds_witness:
  "set (walk_entries (demo_dataset 7)) = set (walk_entries (rev (demo_dataset 7))) \<or> collision_in (\<lambda>_. [])"
proof (rule dataset_digest_binds)
  have "sort_key fst (walk_entries (demo_dataset 7)) = sort_key fst (walk_entries (rev (demo_dataset 7)))"
    by (simp add: demo_dataset_def less_char_def less_eq_char_def)
  then show "compute_dataset_sha256 (\<lambda>_. []) (\<lambda>_. []) ''d'' (Some (FDir (demo_dataset 7))) =
      compute_dataset_sha256 (\<lambda>_. []) (\<lambda>_. []) ''e'' (Some (FDir (rev (demo_dataset 7))))"
    by (simp add: compute_dataset_sha256_def file_manifest_rows_def)
qed (simp_all add: demo_dataset_def)

lemma zero_sha_ok: "sha_ok (\<lambda>_. replicate 64 (CHR ''0''))"
  by (simp add: sha_ok_def digest_ok_def list_all_iff lower_hex_def Let_def)

theorem manifest_well_formed_witness:
  "case build_manifest (\<lambda>_. []) (\<lambda>_. replicate 64 (CHR ''0'')) ''d'' (Some (FDir (demo_dataset 7))) (- 1) (Naive 5) (Aware 3)
     [] ''n/a'' [''sg''] (Some [(''x'', 2)]) of
     Inl (ValidationError fs) \<Rightarrow>
       fs = [''sample_count'', ''time_range_end'', ''geography_filter'', ''license'']
   | _ \<Rightarrow> False"
  using manifest_well_formed [OF zero_sha_ok, where ff = "\<lambda>_. []" and name = "''d''" and
      droot = "Some (FDir (demo_dataset 7))" and n = "- 1" and ?t0.0 = "Naive 5" and ?t1.0 = "Aware 3" and lic = "[]"
      and consent = "''n/a''" and geo = "[''sg'']" and breakdown = "Some [(''x'', 2)]"]
  by (simp add: build_manifest_def compute_dataset_total data_manifest_new_def end_after_start_def bindE_def
      breakdown_sums_to_count_def GDPR_LAWFUL_GROUNDS_def validate_iso3166_def digest_ok_def list_all_iff
      lower_hex_def Let_def)

end
