(* ===== verification/ShieldServices.thy ===== *)
theory ShieldServices
  imports ShieldPhysics
begin

text \<open>
  The satellite and the slicing invariants: what an emitted NTN action radiates, what the PFD
  projection does, and the slice-floor projection, which restores the floor while keeping the
  allocation's total, and which raises an exception the Shield does not catch when the payload is
  not a mapping.
\<close>

section \<open>Power flux density\<close>

text \<open>The PFD formula of \<open>compute_pfd\<close> over the reals.\<close>

definition real_pfd :: "real \<Rightarrow> real \<Rightarrow> real \<Rightarrow> real \<Rightarrow> real" where
  "real_pfd p gain d bw =
     p + gain - 30 - 10 * log 10 (4 * pi * max d 1 * max d 1)
     - 10 * log 10 (max (bw / 1000000) (1 / 1000000))"

lemma compute_pfd_exact:
  assumes "exact pl"
    and "fget pl a ''tx_power_dBm'' (Fin 0) = Inr (Fin p)"
    and "fget pl a ''sat_antenna_gain_dBi'' (Fin 0) = Inr (Fin gain)"
    and "fget pl a ''slant_range_m'' (Fin 550000) = Inr (Fin d)"
    and "fget pl a ''bandwidth_hz'' (Fin 1000000) = Inr (Fin bw)"
  shows "compute_pfd pl a = Inr (Fin (real_pfd p gain d bw))"
proof -
  have "0 < 4 * pi * max d 1 * max d 1" and "0 < max (bw / 1000000) (1 / 1000000)"
    by (auto simp: zero_less_mult_iff)
  then show ?thesis using assms by (simp add: compute_pfd_def real_pfd_def Let_def)
qed

lemma sane_slant:
  "sane pl a \<Longrightarrow> truthy (dget a ''ntn'' (VBool False)) \<Longrightarrow>
   \<exists>r>0. fget pl a ''slant_range_m'' d = Inr (Fin r)"
  using req_fget [of pl a "''slant_range_m''" "\<lambda>r. r > 0" d] by (auto simp: sane_iff)

lemma holds_pfd:
  assumes "exact pl" "pfd_applies a" "compute_pfd pl a = Inr (Fin v)"
  shows "holds (pfd_ceiling_invariant pl (Fin mx)) ctx a \<longleftrightarrow> v \<le> mx"
  using assms by (auto simp: holds_def pfd_ceiling_invariant_def pfd_evaluate_def Let_def)

text \<open>
  What an emitted NTN action radiates, in exact arithmetic: a positive carrier whose band lies
  inside the licensed one, an EIRP under its ceiling and, when the action is flagged NTN, a power
  flux density at the ground (EIRP less spreading loss over the slant range, per MHz) at or below
  the PFD ceiling.
\<close>

theorem ntn_emission_legal:
  assumes ex: "exact pl"
    and disp: "dispose pl (default_ntn_shield pl (Fin lo) (Fin hi) (Fin mx) (Fin pfd) li tol)
           did now tier seed prov a ctx = Inr d"
    and open_emit: "\<not> cert_emit_blocked (disp_certificate d)"
  shows "\<exists>f bw p ag.
           fget pl (safe_action d) ''frequency_hz'' (Fin 0) = Inr (Fin f) \<and> 0 < f \<and>
           fget pl (safe_action d) ''bandwidth_hz'' (Fin 0) = Inr (Fin bw) \<and>
           lo \<le> f - bw / 2 \<and> f + bw / 2 \<le> hi \<and>
           fget pl (safe_action d) ''tx_power_dBm'' (Fin 0) = Inr (Fin p) \<and>
           fget pl (safe_action d) ''antenna_gain_dBi'' (Fin 0) = Inr (Fin ag) \<and> p + ag \<le> mx \<and>
           (truthy (dget (safe_action d) ''ntn'' (VBool False)) \<longrightarrow>
              (\<exists>sg s. fget pl (safe_action d) ''sat_antenna_gain_dBi'' (Fin 0) = Inr (Fin sg) \<and>
                 fget pl (safe_action d) ''slant_range_m'' (Fin 550000) = Inr (Fin s) \<and> 0 < s \<and>
                 real_pfd p sg s bw \<le> pfd))"
proof -
  let ?s = "safe_action d"
  have all: "\<forall>i \<in> set (ntn_chain pl
      \<lparr>band_lo_hz = Fin lo, band_hi_hz = Fin hi, guard_band_hz = Fin 0\<rparr> (Fin mx) (Fin pfd) li tol).
      holds i ctx ?s"
    using dispose_unblocked(1) [OF disp open_emit]
    by (simp add: holds_def default_ntn_shield_def)
  then have sane: "sane pl ?s" by (simp add: ntn_chain_def holds_sanity)
  from sane_freq [OF sane] obtain f where f: "0 < f" "fget pl ?s ''frequency_hz'' (Fin 0) = Inr (Fin f)"
    by blast
  from sane_bw [OF sane] obtain bw where bw: "fget pl ?s ''bandwidth_hz'' (Fin 0) = Inr (Fin bw)"
    by blast
  from sane_bw [OF sane] obtain bw' where bw': "fget pl ?s ''bandwidth_hz'' (Fin 1000000) = Inr (Fin bw')"
    by blast
  have bw_eq: "bw' = bw"
    using bw bw' sane by (cases "?s ''bandwidth_hz''") (auto simp: fget_def sane_iff req_field_bad_def)
  from sane_tx [OF sane] obtain p where p: "fget pl ?s ''tx_power_dBm'' (Fin 0) = Inr (Fin p)" by blast
  from sane_gain [OF sane] obtain ag where ag: "fget pl ?s ''antenna_gain_dBi'' (Fin 0) = Inr (Fin ag)"
    by blast
  from sane_satgain [OF sane] obtain sg where sg: "fget pl ?s ''sat_antenna_gain_dBi'' (Fin 0) = Inr (Fin sg)"
    by blast
  have mask: "lo \<le> f - bw / 2 \<and> f + bw / 2 \<le> hi"
    using all holds_mask [OF ex f(2) bw, of lo hi 0 ctx] by (simp add: ntn_chain_def)
  have eirp: "p + ag \<le> mx"
    using all holds_eirp [OF ex p ag] by (simp add: ntn_chain_def)
  have "\<exists>s. fget pl ?s ''slant_range_m'' (Fin 550000) = Inr (Fin s) \<and> 0 < s \<and> real_pfd p sg s bw \<le> pfd"
    if ntn: "truthy (dget ?s ''ntn'' (VBool False))"
  proof -
    from sane_slant [OF sane ntn] obtain s
      where s: "0 < s" "fget pl ?s ''slant_range_m'' (Fin 550000) = Inr (Fin s)" by blast
    have "real_pfd p sg s bw \<le> pfd"
      using all holds_pfd [OF ex _ compute_pfd_exact [OF ex p sg s(2) bw'], of pfd ctx] ntn
      by (simp add: ntn_chain_def pfd_applies_def bw_eq)
    with s show ?thesis by blast
  qed
  with mask eirp f bw p ag sg show ?thesis by blast
qed

section \<open>The slice floor\<close>

lemma alloc_floats_float_dict [simp]: "alloc_floats pl (float_dict ws) = Inr ws"
  by (induction ws) (auto simp: alloc_floats_def float_dict_def)

text \<open>The shares of an allocation, as reals, in the order of the mapping.\<close>

definition shares :: "(string \<times> real) list \<Rightarrow> (string \<times> pyfloat) list" where
  "shares ws = map (\<lambda>(k, x). (k, Fin x)) ws"

definition share_of :: "string \<Rightarrow> (string \<times> real) list \<Rightarrow> real" where
  "share_of k ws = (case map_of ws k of None \<Rightarrow> 0 | Some x \<Rightarrow> x)"

lemma shares_simps [simp]:
  "filter (\<lambda>(k, x). k \<noteq> j) (shares ws) = shares (filter (\<lambda>(k, x). k \<noteq> j) ws)"
  "map snd (shares ws) = map Fin (map snd ws)"
  "shares (xs @ ys) = shares xs @ shares ys"
  by (induction ws) (auto simp: shares_def)

lemma map_of_shares: "map_of (shares ws) k = map_option Fin (map_of ws k)"
  by (induction ws) (auto simp: shares_def)

lemma share_of_Nil [simp]: "share_of k [] = 0"
  by (simp add: share_of_def)

lemma share_of_last [simp]:
  "k \<notin> fst ` set ws \<Longrightarrow> share_of k (ws @ [(k, x)]) = x"
  by (induction ws) (auto simp: share_of_def)

lemma total_split:
  "distinct (map fst ws) \<Longrightarrow>
   sum_list (map snd ws) = share_of j ws + sum_list (map snd (filter (\<lambda>(k, x). k \<noteq> j) ws))"
proof (induction ws)
  case Nil
  then show ?case by simp
next
  case (Cons w ws)
  obtain k x where w: "w = (k, x)" by force
  show ?case
  proof (cases "k = j")
    case True
    with Cons.prems w have "filter (\<lambda>(k, x). k \<noteq> j) ws = ws" by (force simp: filter_id_conv)
    with True w show ?thesis by (simp add: share_of_def)
  next
    case False
    with Cons w show ?thesis by (simp add: share_of_def)
  qed
qed

lemma sum_scaled: "sum_list (map snd (map (\<lambda>(k, x). (k, x * c)) ws)) = sum_list (map snd ws) * c"
  for c :: real
  by (induction ws) (auto simp: distrib_right)

lemma sum_list_map_nonneg: "\<forall>(k, x) \<in> set ws. 0 \<le> x \<Longrightarrow> 0 \<le> sum_list (map snd ws)"
  for ws :: "(string \<times> real) list"
  by (rule sum_list_nonneg) auto

lemma shares_zero: "map (\<lambda>(k, x). (k, Fin 0)) (shares ws) = shares (map (\<lambda>(k, x). (k, 0)) ws)"
  by (induction ws) (auto simp: shares_def)

lemma shares_scaled:
  "exact pl \<Longrightarrow> map (\<lambda>(k, x). (k, fmul pl x (Fin c))) (shares ws) =
                  shares (map (\<lambda>(k, x). (k, x * c)) ws)"
  by (induction ws) (auto simp: shares_def)

lemma shares_one: "[(k, Fin x)] = shares [(k, x)]"
  by (simp add: shares_def)

lemma sum_zeros: "sum_list (map snd (map (\<lambda>(k, x). (k, 0)) ws)) = (0 :: real)"
  by (induction ws) auto

lemma untruthy_alloc: "alloc_floats pl v = Inr (shares ws) \<Longrightarrow> \<not> truthy v \<Longrightarrow> ws = []"
  by (cases v) (auto simp: alloc_floats_def shares_def)

lemma share_case:
  "(case map_of (shares ws) k of None \<Rightarrow> Fin 0 | Some x \<Rightarrow> x) = Fin (share_of k ws)"
  by (simp add: share_of_def map_of_shares split: option.splits)

lemma slice_project_cases:
  assumes ex: "exact pl" and al: "alloc_floats pl (dget a ''prb_allocation'' VNone) = Inr (shares ws)"
    and t: "truthy (dget a ''prb_allocation'' VNone)"
    and pool: "pool = sum_list (map snd (filter (\<lambda>(k, x). k \<noteq> j) ws))"
    and deficit: "deficit = f - share_of j ws" and pos: "0 < deficit"
  shows "\<exists>cs. slice_project pl \<lparr>slice_id = j, floor_frac = Fin f\<rparr> a ctx =
           Inr (a(''prb_allocation'' \<mapsto> float_dict (shares
             (if pool < deficit
              then map (\<lambda>(k, x). (k, 0)) (filter (\<lambda>(k, x). k \<noteq> j) ws) @ [(j, share_of j ws + pool)]
              else map (\<lambda>(k, x). (k, x * ((pool - deficit) / pool))) (filter (\<lambda>(k, x). k \<noteq> j) ws)
                   @ [(j, f)]))), cs)"
proof -
  have scale: "(if Fin 0 < Fin pool then fdiv pl (fsub pl (Fin pool) (Fin deficit)) (Fin pool)
      else Inr (Fin 0)) = Inr (Fin ((pool - deficit) / pool))" if "\<not> pool < deficit"
    using that pos ex by simp
  show ?thesis
    unfolding slice_project_def
    using ex t pos scale
    by (simp add: al share_case Let_def deficit [symmetric] pool [symmetric] shares_zero
        shares_scaled shares_one exactD(2) del: map_map)
qed

text \<open>
  The protected slice's floor, in exact arithmetic: whatever non-negative split the planner
  proposes, the projection returns a split with the same total and no negative share, in which the
  protected slice has its floor, or everything there is when the total is below the floor.
\<close>

theorem slice_floor_restored:
  assumes "exact pl" and "0 \<le> f" and "distinct (map fst ws)" and "\<forall>(k, x) \<in> set ws. 0 \<le> x"
    and "alloc_floats pl (dget a ''prb_allocation'' VNone) = Inr (shares ws)"
  shows "\<exists>a' cs ws'. slice_project pl \<lparr>slice_id = j, floor_frac = Fin f\<rparr> a ctx = Inr (a', cs) \<and>
           alloc_floats pl (dget a' ''prb_allocation'' VNone) = Inr (shares ws') \<and>
           sum_list (map snd ws') = sum_list (map snd ws) \<and> (\<forall>(k, x) \<in> set ws'. 0 \<le> x) \<and>
           share_of j ws' = min (sum_list (map snd ws)) (max (share_of j ws) f)"
proof (cases "truthy (dget a ''prb_allocation'' VNone) \<and> share_of j ws < f")
  case False
  define others where "others = filter (\<lambda>(k, x). k \<noteq> j) ws"
  have "0 \<le> sum_list (map snd others)"
    by (rule sum_list_map_nonneg) (use assms(4) in \<open>auto simp: others_def\<close>)
  with total_split [OF assms(3), of j] have le: "share_of j ws \<le> sum_list (map snd ws)"
    by (simp add: others_def)
  have "slice_project pl \<lparr>slice_id = j, floor_frac = Fin f\<rparr> a ctx = Inr (a, [])"
    using False assms(1,5) by (auto simp: slice_project_def share_case Let_def)
  moreover have "share_of j ws = min (sum_list (map snd ws)) (max (share_of j ws) f)"
    using False le assms(2) untruthy_alloc [OF assms(5)] by auto
  ultimately show ?thesis using assms(4,5) by auto
next
  case True
  define others where "others = filter (\<lambda>(k, x). k \<noteq> j) ws"
  define pool where "pool = sum_list (map snd others)"
  define deficit where "deficit = f - share_of j ws"
  have pool0: "0 \<le> pool"
    unfolding pool_def by (rule sum_list_map_nonneg) (use assms(4) in \<open>auto simp: others_def\<close>)
  have total: "sum_list (map snd ws) = share_of j ws + pool"
    using total_split [OF assms(3), of j] by (simp add: pool_def others_def)
  have share0: "0 \<le> share_of j ws"
    using assms(4) by (auto simp: share_of_def split: option.splits dest: map_of_SomeD)
  define ws' where "ws' = (if pool < deficit
      then map (\<lambda>(k, x). (k, 0)) others @ [(j, share_of j ws + pool)]
      else map (\<lambda>(k, x). (k, x * ((pool - deficit) / pool))) others @ [(j, f)])"
  have pos: "0 < deficit" using True by (simp add: deficit_def)
  obtain cs where "slice_project pl \<lparr>slice_id = j, floor_frac = Fin f\<rparr> a ctx =
      Inr (a(''prb_allocation'' \<mapsto> float_dict (shares ws')), cs)"
    unfolding ws'_def others_def
    using slice_project_cases [OF assms(1,5) _ pool_def [unfolded others_def] deficit_def pos,
        of ctx] True by blast
  moreover have "sum_list (map snd ws') = sum_list (map snd ws)"
  proof (cases "pool < deficit")
    case True
    then show ?thesis by (simp add: ws'_def total sum_zeros del: map_map)
  next
    case False
    have "sum_list (map snd (map (\<lambda>(k, x). (k, x * ((pool - deficit) / pool))) others)) =
        pool * ((pool - deficit) / pool)"
      by (simp only: sum_scaled pool_def)
    with False have "sum_list (map snd ws') = pool * ((pool - deficit) / pool) + f"
      by (simp add: ws'_def del: map_map times_divide_eq_right)
    with False pos show ?thesis by (simp add: total deficit_def)
  qed
  moreover have "\<forall>(k, x) \<in> set ws'. 0 \<le> x"
    using assms(2,4) pool0 share0 pos
    by (auto simp: ws'_def others_def intro!: mult_nonneg_nonneg divide_nonneg_nonneg)
  moreover have "share_of j ws' = min (sum_list (map snd ws)) (max (share_of j ws) f)"
  proof -
    have "j \<notin> fst ` set (map (\<lambda>(k, x). (k, g x)) others)" for g :: "real \<Rightarrow> real"
      by (auto simp: others_def)
    then have "share_of j ws' = (if pool < deficit then share_of j ws + pool else f)"
      using share_of_last by (simp add: ws'_def del: map_map)
    then show ?thesis using pos by (auto simp: total deficit_def)
  qed
  ultimately show ?thesis by auto
qed

text \<open>
  The payload that crashes the control loop: in a Shield that protects a slice, an action whose
  \<open>prb_allocation\<close> is non-empty but not a mapping (a list of shares, say) makes \<open>dispose\<close> raise
  \<open>AttributeError\<close> instead of refusing, whatever else the action and the context carry, although
  the evaluation of the same invariant treats the payload as a violation.
\<close>

theorem slice_floor_crashes_loop:
  assumes "exact pl" and "0 < f" and "0 < max_passes sh"
    and "invariants sh = [slice_floor_invariant pl \<lparr>slice_id = j, floor_frac = Fin f\<rparr>]"
    and "truthy (dget a ''prb_allocation'' VNone)" and "\<forall>d. dget a ''prb_allocation'' VNone \<noteq> VDict d"
  shows "dispose pl sh did now tier seed prov a ctx = Inl AttributeError \<and>
         is_feasible sh a ctx = Inr False"
proof -
  have share: "slice_share pl sf a = Inr (Fin 0)" for sf
    using assms(5,6) by (cases "dget a ''prb_allocation'' VNone") (auto simp: slice_share_def Let_def)
  have fl: "alloc_floats pl (dget a ''prb_allocation'' VNone) = Inl AttributeError"
    using assms(6) by (cases "dget a ''prb_allocation'' VNone") (auto simp: alloc_floats_def)
  obtain n where n: "nat (max_passes sh) = Suc n" using assms(3) by (cases "nat (max_passes sh)") auto
  have ev: "\<exists>c. evaluate (slice_floor_invariant pl \<lparr>slice_id = j, floor_frac = Fin f\<rparr>) a ctx = Inr c \<and>
      \<not> satisfied c"
    using assms(1,2,5) share by (simp add: slice_floor_invariant_def slice_evaluate_def Let_def)
  then obtain c where c: "evaluate (slice_floor_invariant pl \<lparr>slice_id = j, floor_frac = Fin f\<rparr>) a ctx = Inr c"
    "\<not> satisfied c" by blast
  have pr: "project (slice_floor_invariant pl \<lparr>slice_id = j, floor_frac = Fin f\<rparr>) a ctx = Inl AttributeError"
    using assms(5) fl by (simp add: slice_floor_invariant_def slice_project_def)
  show ?thesis
    by (simp add: dispose_def n assms(4) shield_check_def check_one_def c pr is_feasible_def)
qed

end
