(* ===== verification/ShieldWitness.thy ===== *)
theory ShieldWitness
  imports ShieldRepair ShieldServices
begin

text \<open>The Shield's properties at concrete actions, contexts and shields, where their hypotheses hold.\<close>

lemma clean_dispose:
  assumes "\<forall>i \<in> set (invariants sh). holds i ctx a" and "\<not> blocked a"
  shows "\<exists>d. dispose pl sh did now tier seed prov a ctx = Inr d \<and>
             \<not> cert_emit_blocked (disp_certificate d)"
proof -
  from holds_all_clean [OF assms(1)] obtain ch where
    ch: "shield_check sh a ctx = Inr ch" "list_all satisfied ch" by blast
  with loop_clean [OF ch] assms(2) show ?thesis
    by (simp add: dispose_def no_unsatisfied [symmetric])
qed

definition demo_action :: action where
  "demo_action = [''frequency_hz'' \<mapsto> VFloat (Fin 3500), ''bandwidth_hz'' \<mapsto> VFloat (Fin 20),
                  ''tx_power_dBm'' \<mapsto> VFloat (Fin 40)]"

definition demo_shield :: shield where
  "demo_shield = default_terrestrial_shield exact_platform (Fin 3400) (Fin 3600) (Fin 50) None
     (Fin 9) (Fin 1) (Fin 0)"

definition demo_ntn :: action where
  "demo_ntn = demo_action(''ntn'' \<mapsto> VBool True, ''slant_range_m'' \<mapsto> VFloat (Fin 1),
                          ''bandwidth_hz'' \<mapsto> VFloat (Fin 1000000))"

definition demo_ntn_shield :: shield where
  "demo_ntn_shield = default_ntn_shield exact_platform (Fin (- 1000000)) (Fin 2000000) (Fin 50)
     (Fin 10) None (Fin 1)"

definition demo_dispose :: "shield \<Rightarrow> action \<Rightarrow> disposition res" where
  "demo_dispose sh a = dispose exact_platform sh ''d1'' ''t0'' ''near_rt'' None None a Map.empty"

lemma demo_fields [simp]:
  "fget pl demo_action ''frequency_hz'' d = Inr (Fin 3500)"
  "fget pl demo_action ''bandwidth_hz'' d = Inr (Fin 20)"
  "fget pl demo_action ''tx_power_dBm'' d = Inr (Fin 40)"
  "fget pl demo_action ''antenna_gain_dBi'' d = Inr d"
  "fget pl demo_action ''sat_antenna_gain_dBi'' d = Inr d"
  "fget pl demo_action ''papr_dB'' d = Inr d"
  by (simp_all add: demo_action_def fget_def dget_def)

lemma demo_sane: "sane pl demo_action" "\<not> blocked demo_action" "order_numeric demo_action"
  by (simp_all add: demo_action_def sane_iff req_field_bad_def opt_field_bad_def dget_def
      blocked_def order_numeric_def)

lemma demo_ntn_sane: "sane pl demo_ntn" "\<not> blocked demo_ntn"
  using demo_sane by (simp_all add: demo_ntn_def sane_iff blocked_def)

lemma demo_clean: "\<forall>i \<in> set (invariants demo_shield). holds i ctx demo_action"
proof -
  have n: "\<not> is_neural_rx pl demo_action" and c: "\<not> con_applies pl demo_action" for pl
    by (simp_all add: is_neural_rx_def con_applies_def demo_action_def dget_def)
  have "holds (constellation_invariant exact_platform (default_constellation (Fin 9))) ctx demo_action"
    using c by (simp add: holds_def constellation_invariant_def con_evaluate_def)
  moreover have "holds (spectral_mask_invariant exact_platform
      \<lparr>band_lo_hz = Fin 3400, band_hi_hz = Fin 3600, guard_band_hz = Fin 0\<rparr>) ctx demo_action"
    by (subst holds_mask [of _ _ 3500 20]) simp_all
  moreover have "holds (max_eirp_invariant exact_platform (Fin 50)) ctx demo_action"
    by (subst holds_eirp [of _ _ 40 0]) simp_all
  ultimately show ?thesis
    by (simp add: demo_shield_def default_terrestrial_shield_def terrestrial_chain_def li_prefix_def
        holds_sanity demo_sane not_neural_holds n)
qed

lemma demo_pfd: "real_pfd 40 0 1 1000000 \<le> 10"
proof -
  have "1 \<le> 4 * pi" using pi_ge_two by linarith
  then have "0 \<le> log 10 (4 * pi)" by simp
  then show ?thesis by (simp add: real_pfd_def)
qed

lemma demo_ntn_clean: "\<forall>i \<in> set (invariants demo_ntn_shield). holds i ctx demo_ntn"
proof -
  have f [simp]: "fget pl demo_ntn ''frequency_hz'' d = Inr (Fin 3500)"
    "fget pl demo_ntn ''bandwidth_hz'' d = Inr (Fin 1000000)"
    "fget pl demo_ntn ''tx_power_dBm'' d = Inr (Fin 40)"
    "fget pl demo_ntn ''antenna_gain_dBi'' d = Inr d"
    "fget pl demo_ntn ''sat_antenna_gain_dBi'' d = Inr d"
    "fget pl demo_ntn ''slant_range_m'' d = Inr (Fin 1)" for pl d
    by (simp_all add: demo_ntn_def)
  have n: "\<not> is_neural_rx pl demo_ntn" for pl
    by (simp add: is_neural_rx_def demo_ntn_def demo_action_def dget_def)
  have "compute_pfd exact_platform demo_ntn = Inr (Fin (real_pfd 40 0 1 1000000))"
    by (rule compute_pfd_exact) simp_all
  moreover have "pfd_applies demo_ntn" by (simp add: pfd_applies_def demo_ntn_def dget_def)
  ultimately have "holds (pfd_ceiling_invariant exact_platform (Fin 10)) ctx demo_ntn"
    using holds_pfd demo_pfd by simp
  moreover have "holds (spectral_mask_invariant exact_platform
      \<lparr>band_lo_hz = Fin (- 1000000), band_hi_hz = Fin 2000000, guard_band_hz = Fin 0\<rparr>) ctx demo_ntn"
    by (subst holds_mask [of _ _ 3500 1000000]) simp_all
  moreover have "holds (max_eirp_invariant exact_platform (Fin 50)) ctx demo_ntn"
    by (subst holds_eirp [of _ _ 40 0]) simp_all
  ultimately show ?thesis
    by (simp add: demo_ntn_shield_def default_ntn_shield_def ntn_chain_def li_prefix_def
        holds_sanity demo_ntn_sane not_neural_holds n)
qed

lemma demo_open:
  "\<exists>d. demo_dispose demo_shield demo_action = Inr d \<and> \<not> cert_emit_blocked (disp_certificate d)"
  "\<exists>d. demo_dispose demo_ntn_shield demo_ntn = Inr d \<and> \<not> cert_emit_blocked (disp_certificate d)"
  using clean_dispose demo_clean demo_ntn_clean demo_sane demo_ntn_sane
  by (simp_all add: demo_dispose_def)

theorem dispose_safe_witness:
  "\<exists>d. demo_dispose demo_shield demo_action = Inr d \<and>
       (\<forall>i \<in> set (invariants demo_shield).
          \<exists>c. evaluate i (safe_action d) Map.empty = Inr c \<and> satisfied c) \<and>
       cert_safe (disp_certificate d)"
proof -
  from demo_open(1) obtain d where d: "demo_dispose demo_shield demo_action = Inr d"
    "\<not> cert_emit_blocked (disp_certificate d)" by blast
  with dispose_safe [OF d(1) [unfolded demo_dispose_def] d(2)] show ?thesis by blast
qed

lemma demo_bad:
  "\<exists>d. demo_dispose (mk_shield [numeric_sanity exact_platform]) Map.empty = Inr d \<and>
       \<not> holds (numeric_sanity exact_platform) Map.empty (safe_action d)"
  by (simp add: demo_dispose_def dispose_def holds_def shield_check_def check_one_def eval_nat_numeral
      numeric_sanity_def sanity_evaluate_def sanity_project_def sanity_problems_def problem_def
      req_field_bad_def dget_def number_def certify_safe_action)

theorem dispose_fails_closed_witness:
  "\<exists>d. demo_dispose (mk_shield [numeric_sanity exact_platform]) Map.empty = Inr d \<and>
       cert_emit_blocked (disp_certificate d) \<and> blocked (safe_action d)"
proof -
  from demo_bad obtain d where
    d: "demo_dispose (mk_shield [numeric_sanity exact_platform]) Map.empty = Inr d"
      "\<not> holds (numeric_sanity exact_platform) Map.empty (safe_action d)" by blast
  have "numeric_sanity exact_platform \<in> set (invariants (mk_shield [numeric_sanity exact_platform]))"
    by simp
  from dispose_fails_closed [OF d(1) [unfolded demo_dispose_def] this] d show ?thesis
    by (auto simp: holds_def)
qed

theorem is_feasible_iff_not_projected_witness:
  "\<exists>d. demo_dispose demo_shield demo_action = Inr d \<and>
       is_feasible demo_shield demo_action Map.empty = Inr True \<and>
       \<not> cert_projected (disp_certificate d) \<and> safe_action d = demo_action"
proof -
  from demo_open(1) obtain d where d: "demo_dispose demo_shield demo_action = Inr d" by blast
  have "is_feasible demo_shield demo_action Map.empty = Inr True"
    using demo_clean by (simp add: is_feasible_def feasible_chain_True holds_def)
  moreover have "0 < max_passes demo_shield"
    by (simp add: demo_shield_def default_terrestrial_shield_def)
  ultimately show ?thesis
    using is_feasible_iff_not_projected [OF d [unfolded demo_dispose_def]] d by blast
qed



theorem ntn_emission_legal_witness:
  "\<exists>d p bw sg s. demo_dispose demo_ntn_shield demo_ntn = Inr d \<and> real_pfd p sg s bw \<le> 10 \<and> 
       fget exact_platform (safe_action d) ''tx_power_dBm'' (Fin 0) = Inr (Fin p) \<and>
       fget exact_platform (safe_action d) ''bandwidth_hz'' (Fin 0) = Inr (Fin bw) \<and>
       fget exact_platform (safe_action d) ''slant_range_m'' (Fin 550000) = Inr (Fin s)"
proof -
  from demo_open(2) obtain d where d: "demo_dispose demo_ntn_shield demo_ntn = Inr d"
    "\<not> cert_emit_blocked (disp_certificate d)" by blast
  from is_feasible_iff_clean [of demo_ntn_shield demo_ntn Map.empty] demo_ntn_clean
  obtain ch where ch: "shield_check demo_ntn_shield demo_ntn Map.empty = Inr ch" "list_all satisfied ch"
    by (auto simp: is_feasible_def feasible_chain_True holds_def)
  have safe: "safe_action d = demo_ntn"
    using d(1) loop_clean [OF ch] ch
    by (auto simp: demo_dispose_def dispose_def certify_safe_action no_unsatisfied)
  have "truthy (dget demo_ntn ''ntn'' (VBool False))" by (simp add: demo_ntn_def dget_def)
  with ntn_emission_legal [OF exact_exact_platform
      d(1) [unfolded demo_dispose_def demo_ntn_shield_def] d(2)] d(1) safe
  show ?thesis by metis
qed

theorem slice_floor_restored_witness:
  "\<exists>a' cs ws'. slice_project exact_platform \<lparr>slice_id = ''s'', floor_frac = Fin (1 / 5)\<rparr>
       [''prb_allocation'' \<mapsto> float_dict (shares [(''embb'', 1 / 2), (''iot'', 1 / 2)])] Map.empty =
         Inr (a', cs) \<and>
       alloc_floats exact_platform (dget a' ''prb_allocation'' VNone) = Inr (shares ws') \<and>
       share_of ''s'' ws' = 1 / 5"
proof -
  have "alloc_floats exact_platform (dget [''prb_allocation'' \<mapsto>
      float_dict (shares [(''embb'', 1 / 2), (''iot'', 1 / 2)])] ''prb_allocation'' VNone) =
      Inr (shares [(''embb'', 1 / 2), (''iot'', 1 / 2)])" by (simp add: dget_def)
  from slice_floor_restored [OF exact_exact_platform _ _ _ this, of "1 / 5" "''s''" Map.empty]
  show ?thesis by (fastforce simp: share_of_def)
qed

theorem slice_floor_crashes_loop_witness:
  "dispose exact_platform
     (mk_shield [slice_floor_invariant exact_platform \<lparr>slice_id = ''s'', floor_frac = Fin (1 / 5)\<rparr>])
     ''d1'' ''t0'' ''near_rt'' None None
     [''prb_allocation'' \<mapsto> VList [VFloat (Fin 1)]] Map.empty = Inl AttributeError"
  by (rule slice_floor_crashes_loop [THEN conjunct1, OF exact_exact_platform, of "1 / 5" _ "''s''"])
    (simp_all add: dget_def)

end
