(* ===== verification/LoopState.thy ===== *)
theory LoopState
  imports Prelude
begin

text \<open>
  The TS 28.567 lifecycle machine of \<open>runtime/loop_state.py\<close>. One call of \<open>transition\<close> holds the
  machine's lock throughout, so a run of the machine is a list of calls. The sink is code of the
  caller: a function from the world it writes and the transition to a new world and possibly an
  exception. The clock is the argument \<open>now\<close>.
\<close>

datatype loop_state = Idle | Retrain | Validate | Promote | Monitor | Rollback

definition ALLOWED_EDGES :: "(loop_state \<times> loop_state) list" where
  "ALLOWED_EDGES =
     [(Idle, Retrain), (Retrain, Validate), (Validate, Promote), (Validate, Idle),
      (Promote, Monitor), (Monitor, Rollback), (Monitor, Retrain), (Rollback, Idle)]"

record state_transition =
  from_state :: loop_state
  to_state :: loop_state
  tr_timestamp :: string
  tr_reason :: string
  tr_actor :: string
  tr_model_sha :: "string option"

type_synonym 'w sink = "'w \<Rightarrow> state_transition \<Rightarrow> 'w \<times> py_exn option"

record loop_machine =
  lsm_state :: loop_state
  lsm_history :: "state_transition list"
  lsm_actor :: string

definition lsm_new :: "loop_state \<Rightarrow> string \<Rightarrow> loop_machine" where
  "lsm_new initial actor = \<lparr>lsm_state = initial, lsm_history = [], lsm_actor = actor\<rparr>"

text \<open>One call of \<open>transition\<close>: the target, \<open>None\<close> when it is not a \<open>LoopState\<close>, and the keywords.\<close>

record transition_call =
  tc_new_state :: "loop_state option"
  tc_now :: string
  tc_reason :: string
  tc_actor :: "string option"
  tc_model_sha :: "string option"

definition InvalidTransitionError :: py_exn where
  "InvalidTransitionError = OtherExn ''InvalidTransitionError''"

definition transition_of :: "loop_machine \<Rightarrow> loop_state \<Rightarrow> transition_call \<Rightarrow> state_transition" where
  "transition_of m s c =
     \<lparr>from_state = lsm_state m, to_state = s, tr_timestamp = tc_now c, tr_reason = tc_reason c,
      tr_actor = (case tc_actor c of None \<Rightarrow> lsm_actor m | Some a \<Rightarrow> if a = [] then lsm_actor m else a),
      tr_model_sha = tc_model_sha c\<rparr>"

text \<open>The machine and the sink's world after the call, and the recorded transition or the exception.\<close>

definition transition ::
  "'w sink option \<Rightarrow> loop_machine \<times> 'w \<Rightarrow> transition_call \<Rightarrow>
   (loop_machine \<times> 'w) \<times> state_transition res" where
  "transition sink mw c =
     (let (m, w) = mw in
      case tc_new_state c of
        None \<Rightarrow> ((m, w), Inl TypeError)
      | Some s \<Rightarrow>
          if (lsm_state m, s) \<notin> set ALLOWED_EDGES then ((m, w), Inl InvalidTransitionError)
          else (let t = transition_of m s c;
                    m' = m\<lparr>lsm_state := s, lsm_history := lsm_history m @ [t]\<rparr>
                in case sink of
                     None \<Rightarrow> ((m', w), Inr t)
                   | Some f \<Rightarrow>
                       (case f w t of
                          (w', Some e) \<Rightarrow> ((m, w'), Inl e)
                        | (w', None) \<Rightarrow> ((m', w'), Inr t))))"

fun replay_from :: "loop_state \<Rightarrow> state_transition list \<Rightarrow> loop_state res" where
  "replay_from s [] = Inr s"
| "replay_from s (t # ts) =
     (if (s, to_state t) \<notin> set ALLOWED_EDGES then Inl InvalidTransitionError
      else replay_from (to_state t) ts)"

definition replay :: "loop_machine \<Rightarrow> loop_state res" where
  "replay m = replay_from Idle (lsm_history m)"

section \<open>Effects of one call\<close>

lemmas transition_unfold = transition_def transition_of_def Let_def

text \<open>A call either leaves the machine as it was, or appends the transition it returns.\<close>

lemma transition_cases:
  assumes "transition sink (m, w) c = ((m', w'), r)"
  obtains (refused) e where "r = Inl e" "m' = m"
  | (applied) s t where "r = Inr t" "tc_new_state c = Some s" "(lsm_state m, s) \<in> set ALLOWED_EDGES"
      "t = transition_of m s c" "m' = m\<lparr>lsm_state := s, lsm_history := lsm_history m @ [t]\<rparr>"
proof (cases "tc_new_state c")
  case None
  with assms have "r = Inl TypeError" "m' = m" by (simp_all add: transition_def)
  then show ?thesis by (rule refused)
next
  case (Some s)
  show ?thesis
  proof (cases "(lsm_state m, s) \<in> set ALLOWED_EDGES")
    case False
    with Some assms have "r = Inl InvalidTransitionError" "m' = m" by (simp_all add: transition_def)
    then show ?thesis by (rule refused)
  next
    case True
    let ?t = "transition_of m s c"
    have "(\<exists>e. r = Inl e \<and> m' = m) \<or>
        r = Inr ?t \<and> m' = m\<lparr>lsm_state := s, lsm_history := lsm_history m @ [?t]\<rparr>"
      using assms Some True
      by (simp add: transition_def Let_def split: option.splits prod.splits) blast?
    then show ?thesis
    proof
      assume "\<exists>e. r = Inl e \<and> m' = m"
      then show ?thesis using refused by blast
    next
      assume "r = Inr ?t \<and> m' = m\<lparr>lsm_state := s, lsm_history := lsm_history m @ [?t]\<rparr>"
      then show ?thesis using applied [of ?t s] Some True by simp
    qed
  qed
qed

definition run_transitions ::
  "'w sink option \<Rightarrow> loop_machine \<times> 'w \<Rightarrow> transition_call list \<Rightarrow> loop_machine \<times> 'w" where
  "run_transitions sink mw cs = run (\<lambda>mw c. fst (transition sink mw c)) mw cs"

section \<open>The history is the machine\<close>

text \<open>A history that starts at \<open>s0\<close>, takes only allowed edges and ends at \<open>s\<close>.\<close>

fun path :: "loop_state \<Rightarrow> state_transition list \<Rightarrow> loop_state \<Rightarrow> bool" where
  "path s0 [] s = (s0 = s)"
| "path s0 (t # ts) s =
     (from_state t = s0 \<and> (s0, to_state t) \<in> set ALLOWED_EDGES \<and> path (to_state t) ts s)"

lemma path_snoc:
  "path s0 (ts @ [t]) s \<longleftrightarrow>
   path s0 ts (from_state t) \<and> (from_state t, to_state t) \<in> set ALLOWED_EDGES \<and> to_state t = s"
  by (induction ts arbitrary: s0) auto

lemma path_replay: "path s0 ts s \<Longrightarrow> replay_from s0 ts = Inr s"
  by (induction ts arbitrary: s0) auto

definition lsm_inv :: "loop_state \<Rightarrow> loop_machine \<times> 'w \<Rightarrow> bool" where
  "lsm_inv s0 mw \<longleftrightarrow> path s0 (lsm_history (fst mw)) (lsm_state (fst mw))"

interpretation lifecycle: total_machine "\<lambda>mw c. fst (transition sink mw c)" "lsm_inv s0" for sink s0
proof
  fix mw :: "loop_machine \<times> 'a" and c
  assume inv: "lsm_inv s0 mw"
  obtain m w where mw: "mw = (m, w)" by force
  obtain m' w' r where t: "transition sink (m, w) c = ((m', w'), r)" by (metis surj_pair)
  from t show "lsm_inv s0 (fst (transition sink mw c))"
    by (cases rule: transition_cases)
      (use inv t in \<open>auto simp: mw lsm_inv_def path_snoc transition_of_def\<close>)
qed

lemma lsm_new_inv: "lsm_inv s0 (lsm_new s0 actor, w)"
  by (simp add: lsm_inv_def lsm_new_def)

lemma reachable_path:
  "run_transitions sink (lsm_new s0 actor, w) cs = (m, w') \<Longrightarrow> path s0 (lsm_history m) (lsm_state m)"
  using lifecycle.run_keeps [OF lsm_new_inv [of s0 actor w], where sink = sink and xs = cs]
  by (simp add: run_transitions_def lsm_inv_def)

text \<open>
  The audit trail determines the lifecycle state: after any sequence of transition calls, legal
  or not, with any sink that may fail at any time, the history is a connected path of allowed edges
  from Idle to the current state, and \<open>replay\<close> returns exactly the current state.
\<close>

theorem replay_agrees:
  assumes "run_transitions sink (lsm_new Idle actor, w) cs = (m, w')"
  shows "path Idle (lsm_history m) (lsm_state m) \<and> replay m = Inr (lsm_state m)"
  using reachable_path [OF assms] path_replay by (simp add: replay_def)

text \<open>
  \<open>replay\<close> starts from Idle whatever state the machine was built with: on a machine whose
  initial state is another one, it disagrees with the current state already on the empty history,
  and after one legal transition it either reports a corrupt history or happens to rejoin.
\<close>

theorem replay_ignores_initial:
  assumes "initial \<noteq> Idle"
  shows "replay (lsm_new initial actor) = Inr Idle \<and> lsm_state (lsm_new initial actor) = initial \<and>
         replay (fst (fst (transition (None :: 'w sink option) (lsm_new Monitor actor, w)
           \<lparr>tc_new_state = Some Rollback, tc_now = now, tc_reason = why, tc_actor = None,
            tc_model_sha = None\<rparr>))) = Inl InvalidTransitionError"
  by (simp add: replay_def lsm_new_def transition_def transition_of_def Let_def ALLOWED_EDGES_def)

section \<open>No promotion without validation\<close>

lemma edge_into_Promote: "(s, Promote) \<in> set ALLOWED_EDGES \<longleftrightarrow> s = Validate"
  by (auto simp: ALLOWED_EDGES_def)

lemma edge_into_Validate: "(s, Validate) \<in> set ALLOWED_EDGES \<longleftrightarrow> s = Retrain"
  by (auto simp: ALLOWED_EDGES_def)

lemma path_prefix: "path s0 (xs @ ys) s \<Longrightarrow> \<exists>s1. path s0 xs s1 \<and> path s1 ys s"
  by (induction xs arbitrary: s0) auto

lemma path_last: "path s0 ts s \<Longrightarrow> s \<noteq> s0 \<Longrightarrow> \<exists>us t. ts = us @ [t] \<and> to_state t = s \<and> path s0 us (from_state t)"
  by (cases ts rule: rev_cases) (auto simp: path_snoc)

lemma path_into:
  "path s0 ts s \<Longrightarrow> s \<noteq> s0 \<Longrightarrow>
   \<exists>us t. ts = us @ [t] \<and> to_state t = s \<and> path s0 us (from_state t) \<and>
          (from_state t, s) \<in> set ALLOWED_EDGES"
  using path_last path_snoc by metis

text \<open>
  C13. No model is promoted without being retrained and validated for it: in every reachable history
  each transition into Promote comes directly after one into Validate, which comes directly after
  one into Retrain.
\<close>

theorem promotion_is_validated:
  assumes "run_transitions sink (lsm_new Idle actor, w) cs = (m, w')"
    and "lsm_history m = before @ t # after" and "to_state t = Promote"
  shows "\<exists>us r v. before = us @ [r, v] \<and> to_state v = Validate \<and> to_state r = Retrain"
proof -
  have "path Idle (before @ (t # after)) (lsm_state m)"
    using reachable_path [OF assms(1)] assms(2) by simp
  then obtain s1 where p: "path Idle before s1" "path s1 (t # after) (lsm_state m)"
    using path_prefix by blast
  with assms(3) have "(s1, Promote) \<in> set ALLOWED_EDGES" by simp
  then have s1: "s1 = Validate" by (simp add: edge_into_Promote)
  with p(1) obtain us v where v: "before = us @ [v]" "to_state v = Validate" "path Idle us (from_state v)"
    "(from_state v, Validate) \<in> set ALLOWED_EDGES" using path_into [of Idle before Validate] by auto
  then have "from_state v = Retrain" by (simp add: edge_into_Validate)
  with v(3) obtain us' r where "us = us' @ [r]" "to_state r = Retrain"
    using path_into [of Idle us Retrain] by auto
  with v show ?thesis by auto
qed

text \<open>
  A failed call changes nothing: a transition that raises (a target that is no state, an edge
  that is not allowed, or a sink that fails) leaves the state and the history as they were; one that
  returns has taken an allowed edge, and its record is the last of the history.
\<close>

theorem transition_atomic:
  "case transition sink (m, w) c of
     ((m', w'), Inl e) \<Rightarrow> m' = m
   | ((m', w'), Inr t) \<Rightarrow>
       (lsm_state m, lsm_state m') \<in> set ALLOWED_EDGES \<and> tc_new_state c = Some (lsm_state m') \<and>
       from_state t = lsm_state m \<and> to_state t = lsm_state m' \<and>
       lsm_history m' = lsm_history m @ [t] \<and> lsm_actor m' = lsm_actor m"
proof -
  obtain m' w' r where t: "transition sink (m, w) c = ((m', w'), r)" by (metis surj_pair)
  from t show ?thesis
    by (cases rule: transition_cases) (use t in \<open>auto simp: transition_of_def\<close>)
qed

section \<open>Witnesses\<close>

definition demo_call :: "loop_state \<Rightarrow> transition_call" where
  "demo_call s = \<lparr>tc_new_state = Some s, tc_now = ''t'', tc_reason = ''r'', tc_actor = None, tc_model_sha = None\<rparr>"

theorem replay_agrees_witness:
  "\<exists>m. run_transitions (None :: nat sink option) (lsm_new Idle ''ops'', 0) (map demo_call [Retrain, Promote, Validate]) = (m, 0) \<and>
       lsm_state m = Validate \<and> replay m = Inr Validate"
proof -
  obtain m where m: "run_transitions (None :: nat sink option) (lsm_new Idle ''ops'', 0)
      (map demo_call [Retrain, Promote, Validate]) = (m, 0)" "lsm_state m = Validate"
    by (simp add: run_transitions_def transition_def transition_of_def Let_def demo_call_def lsm_new_def ALLOWED_EDGES_def)
  with replay_agrees [OF m(1)] show ?thesis by simp
qed

theorem replay_ignores_initial_witness:
  "replay (lsm_new Monitor ''ops'') = Inr Idle \<and> lsm_state (lsm_new Monitor ''ops'') = Monitor"
  using replay_ignores_initial [of Monitor "''ops''" "0 :: nat" "''t''" "''r''"] by simp

theorem promotion_is_validated_witness:
  "\<exists>h us r v t. lsm_history (fst (run_transitions (None :: nat sink option) (lsm_new Idle ''ops'', 0)
       (map demo_call [Retrain, Validate, Promote]))) = h @ [t] \<and>
     h = us @ [r, v] \<and> to_state v = Validate \<and> to_state r = Retrain"
proof -
  obtain m h t where m: "run_transitions (None :: nat sink option) (lsm_new Idle ''ops'', 0)
      (map demo_call [Retrain, Validate, Promote]) = (m, 0)" "lsm_history m = h @ t # []" "to_state t = Promote"
    by (simp add: run_transitions_def transition_def transition_of_def Let_def demo_call_def lsm_new_def ALLOWED_EDGES_def)
  from promotion_is_validated [OF m] m show ?thesis by auto
qed

end
