(* ===== verification/AtomicPromotion.thy ===== *)
theory AtomicPromotion
  imports Prelude
begin

text \<open>
  The slot-boundary model swap of \<open>runtime/atomic_promotion.py\<close>. A slot is an object that the
  promoter's fields share, so slots live in a store (a list that only grows) and the fields hold
  positions. The operations below are the code's atomic sections: \<open>get\<close>, \<open>release\<close>, the swap under
  the lock, and the end of a drain (the loop has seen \<open>in_flight <= 0\<close>, or the deadline passed).
  Coroutines and threads interleave exactly at these points.
\<close>

record 'm slot =
  slot_model :: 'm
  slot_sha :: string
  in_flight :: int

record 'm promoter =
  slots :: "'m slot list"
  active :: nat
  previous :: "nat option"
  draining :: "nat list"
  slot_counter :: nat

definition promoter_new :: "'m \<Rightarrow> string \<Rightarrow> 'm promoter" where
  "promoter_new m sha =
     \<lparr>slots = [\<lparr>slot_model = m, slot_sha = sha, in_flight = 0\<rparr>], active = 0, previous = None,
      draining = [], slot_counter = 0\<rparr>"

section \<open>Readers\<close>

definition add_in_flight :: "nat \<Rightarrow> int \<Rightarrow> 'm promoter \<Rightarrow> 'm promoter" where
  "add_in_flight i d p =
     p\<lparr>slots := (slots p)[i := (slots p ! i)\<lparr>in_flight := in_flight (slots p ! i) + d\<rparr>]\<rparr>"

definition get_model :: "'m promoter \<Rightarrow> ('m \<times> string) \<times> 'm promoter" where
  "get_model p =
     (let s = slots p ! active p
      in ((slot_model s, slot_sha s), add_in_flight (active p) 1 p))"

text \<open>The first candidate with the SHA, the active slot before the draining ones.\<close>

definition candidate :: "'m promoter \<Rightarrow> string \<Rightarrow> nat option" where
  "candidate p sha = find (\<lambda>i. slot_sha (slots p ! i) = sha) (active p # draining p)"

definition release :: "string \<Rightarrow> 'm promoter \<Rightarrow> 'm promoter" where
  "release sha p =
     (case candidate p sha of None \<Rightarrow> p | Some i \<Rightarrow> add_in_flight i (- 1) p)"

section \<open>Swaps and drains\<close>

datatype swap_kind = KPromote | KRollback

text \<open>The locked section of \<open>_swap\<close>: the new promoter, the slot number and the old slot.\<close>

definition swap_begin :: "'m \<Rightarrow> string \<Rightarrow> swap_kind \<Rightarrow> 'm promoter \<Rightarrow> 'm promoter \<times> nat \<times> nat" where
  "swap_begin m sha kind p =
     (let old = active p;
          p' = p\<lparr>slots := slots p @ [\<lparr>slot_model = m, slot_sha = sha, in_flight = 0\<rparr>],
                 active := length (slots p), draining := draining p @ [old],
                 previous := Some old, slot_counter := slot_counter p + 1\<rparr>
      in (p', slot_counter p + 1, old))"

text \<open>\<open>rollback\<close> swaps to the recorded previous slot's model and SHA, in a new slot.\<close>

definition rollback_begin :: "'m promoter \<Rightarrow> ('m promoter \<times> nat \<times> nat) res" where
  "rollback_begin p =
     (case previous p of
        None \<Rightarrow> Inl RuntimeError
      | Some i \<Rightarrow> Inr (swap_begin (slot_model (slots p ! i)) (slot_sha (slots p ! i)) KRollback p))"

definition drained :: "nat \<Rightarrow> 'm promoter \<Rightarrow> bool" where
  "drained i p \<longleftrightarrow> in_flight (slots p ! i) \<le> 0"

text \<open>The loop's exit test; \<open>late\<close> says that the deadline has passed.\<close>

definition drain_done :: "nat \<Rightarrow> bool \<Rightarrow> 'm promoter \<Rightarrow> bool" where
  "drain_done i late p \<longleftrightarrow> drained i p \<or> late"

definition drain_end :: "nat \<Rightarrow> 'm promoter \<Rightarrow> 'm promoter" where
  "drain_end i p = p\<lparr>draining := remove1 i (draining p)\<rparr>"

record promotion_event =
  pe_timestamp :: string
  pe_slot_number :: nat
  pe_from_sha :: string
  pe_to_sha :: string
  pe_kind :: swap_kind
  pe_audit_chain_seq :: "int option"
  pe_drain_duration :: real
  pe_error :: "string option"

text \<open>The event of a finished swap; a sink that raises is recorded in the event, never propagated.\<close>

definition swap_event ::
  "(promotion_event \<Rightarrow> string option) option \<Rightarrow> string \<Rightarrow> nat \<Rightarrow> string \<Rightarrow> string \<Rightarrow> swap_kind \<Rightarrow> real \<Rightarrow>
   promotion_event" where
  "swap_event sink now n from_sha to_sha kind dur =
     (let ev = \<lparr>pe_timestamp = now, pe_slot_number = n, pe_from_sha = from_sha, pe_to_sha = to_sha,
                pe_kind = kind, pe_audit_chain_seq = None, pe_drain_duration = dur, pe_error = None\<rparr>
      in case sink of
           None \<Rightarrow> ev
         | Some f \<Rightarrow> (case f ev of None \<Rightarrow> ev | Some e \<Rightarrow> ev\<lparr>pe_error := Some (''sink failed: '' @ e)\<rparr>))"

definition active_sha :: "'m promoter \<Rightarrow> string" where
  "active_sha p = slot_sha (slots p ! active p)"

definition previous_sha :: "'m promoter \<Rightarrow> string option" where
  "previous_sha p = map_option (\<lambda>i. slot_sha (slots p ! i)) (previous p)"

section \<open>Interleaved runs\<close>

text \<open>
  A run is a list of events. Readers are tracked beside the promoter: \<open>held\<close> lists the slot each
  outstanding reader took; the event \<open>Done k\<close> is the release by the reader at position \<open>k\<close>, with
  the SHA that \<open>get\<close> gave it. Events that the program cannot perform in a state do nothing.
\<close>

datatype 'm event = Get | Done nat | Swap 'm string | RollBack | EndDrain nat bool

fun pstep :: "'m promoter \<times> nat list \<Rightarrow> 'm event \<Rightarrow> 'm promoter \<times> nat list" where
  "pstep (p, held) Get = (snd (get_model p), held @ [active p])"
| "pstep (p, held) (Done k) =
     (if k < length held
      then (release (slot_sha (slots p ! (held ! k))) p, take k held @ drop (Suc k) held)
      else (p, held))"
| "pstep (p, held) (Swap m sha) = (fst (swap_begin m sha KPromote p), held)"
| "pstep (p, held) RollBack =
     (case rollback_begin p of Inl e \<Rightarrow> (p, held) | Inr (p', n, old) \<Rightarrow> (p', held))"
| "pstep (p, held) (EndDrain i late) =
     (if i \<in> set (draining p) \<and> drain_done i late p then (drain_end i p, held) else (p, held))"

text \<open>
  Runs in which every promotion brings a SHA never used before and nothing is rolled back; the
  others are the subject of the last property.
\<close>

fun fresh_event :: "'m promoter \<times> nat list \<Rightarrow> 'm event \<Rightarrow> bool" where
  "fresh_event (p, held) (Swap m sha) = (sha \<notin> slot_sha ` set (slots p))"
| "fresh_event ph RollBack = False"
| "fresh_event ph e = True"

definition fresh_step :: "'m promoter \<times> nat list \<Rightarrow> 'm event \<Rightarrow> ('m promoter \<times> nat list) res" where
  "fresh_step ph e = (if fresh_event ph e then Inr (pstep ph e) else Inl RuntimeError)"

definition live :: "'m promoter \<Rightarrow> nat list" where
  "live p = active p # draining p"

text \<open>
  The bookkeeping is exact on live slots: the counter of the active slot and of every draining one
  is the number of readers that hold it.
\<close>

definition promoter_inv :: "'m promoter \<times> nat list \<Rightarrow> bool" where
  "promoter_inv ph =
     (case ph of (p, held) \<Rightarrow>
        distinct (map slot_sha (slots p)) \<and> distinct (live p) \<and>
        (\<forall>i \<in> set (live p). i < length (slots p)) \<and> (\<forall>i \<in> set held. i < length (slots p)) \<and>
        (\<forall>i \<in> set (live p). in_flight (slots p ! i) = int (count_list held i)))"

lemma add_in_flight_sel [simp]:
  "length (slots (add_in_flight i d p)) = length (slots p)"
  "active (add_in_flight i d p) = active p" "draining (add_in_flight i d p) = draining p"
  "live (add_in_flight i d p) = live p" "previous (add_in_flight i d p) = previous p"
  "map slot_sha (slots (add_in_flight i d p)) = map slot_sha (slots p)"
proof -
  show "map slot_sha (slots (add_in_flight i d p)) = map slot_sha (slots p)"
    by (cases "i < length (slots p)")
      (simp_all add: add_in_flight_def map_update list_update_same_conv list_update_beyond)
qed (simp_all add: add_in_flight_def live_def)

lemma add_in_flight_nth:
  "i < length (slots p) \<Longrightarrow> j < length (slots p) \<Longrightarrow>
   in_flight (slots (add_in_flight i d p) ! j) = in_flight (slots p ! j) + (if i = j then d else 0)"
  by (simp add: add_in_flight_def nth_list_update)

lemma sha_inj:
  "distinct (map slot_sha (slots p)) \<Longrightarrow> i < length (slots p) \<Longrightarrow> j < length (slots p) \<Longrightarrow>
   slot_sha (slots p ! i) = slot_sha (slots p ! j) \<longleftrightarrow> i = j"
  using nth_eq_iff_index_eq [of "map slot_sha (slots p)" i j] by simp

lemma candidate_held:
  assumes "promoter_inv (p, held)" and "i < length (slots p)"
  shows "candidate p (slot_sha (slots p ! i)) = (if i \<in> set (live p) then Some i else None)"
proof -
  have eq: "slot_sha (slots p ! j) = slot_sha (slots p ! i) \<longleftrightarrow> j = i" if "j \<in> set (live p)" for j
    using assms that sha_inj [of p j i] by (simp add: promoter_inv_def)
  have "find (\<lambda>j. slot_sha (slots p ! j) = slot_sha (slots p ! i)) xs =
      (if i \<in> set xs then Some i else None)" if "set xs \<subseteq> set (live p)" for xs
    using that by (induction xs) (auto simp: eq)
  from this [of "live p"] show ?thesis by (simp only: candidate_def live_def subset_refl)
qed

lemma count_list_remove_nth:
  "k < length xs \<Longrightarrow>
   count_list (take k xs @ drop (Suc k) xs) y = count_list xs y - (if xs ! k = y then 1 else 0)"
proof -
  assume k: "k < length xs"
  then have "count_list xs y = count_list (take k xs @ xs ! k # drop (Suc k) xs) y"
    by (simp add: id_take_nth_drop [symmetric])
  then show ?thesis by simp
qed

lemma count_list_nth: "k < length xs \<Longrightarrow> 0 < count_list xs (xs ! k)"
  using count_list_0_iff [of xs "xs ! k"] nth_mem [of k xs] by auto

section \<open>The bookkeeping of fresh runs\<close>

lemma add_in_flight_inv:
  assumes inv: "promoter_inv (p, held)" and i: "i < length (slots p)"
    and held: "\<forall>j \<in> set held'. j < length (slots p)"
    and cnt: "\<forall>j \<in> set (live p). int (count_list held' j) = int (count_list held j) + (if i = j then d else 0)"
  shows "promoter_inv (add_in_flight i d p, held')"
  using assms by (auto simp: promoter_inv_def add_in_flight_nth)

lemma live_active: "active p \<in> set (live p)"
  by (simp add: live_def)

lemma inv_get: "promoter_inv (p, held) \<Longrightarrow> promoter_inv (pstep (p, held) Get)"
  unfolding pstep.simps get_model_def Let_def snd_conv
  by (rule add_in_flight_inv [where held = held]) (auto simp: promoter_inv_def live_def)

lemma inv_done:
  assumes inv: "promoter_inv (p, held)"
  shows "promoter_inv (pstep (p, held) (Done k))"
proof (cases "k < length held")
  case False
  then show ?thesis using inv by simp
next
  case True
  let ?i = "held ! k"
  let ?held = "take k held @ drop (Suc k) held"
  have i: "?i < length (slots p)" using True inv by (auto simp: promoter_inv_def)
  have sub: "\<forall>j \<in> set ?held. j < length (slots p)"
    using inv set_take_subset [of k held] set_drop_subset [of "Suc k" held]
    by (auto simp: promoter_inv_def)
  show ?thesis
  proof (cases "?i \<in> set (live p)")
    case live: True
    have "promoter_inv (add_in_flight ?i (- 1) p, ?held)"
      by (rule add_in_flight_inv [OF inv i sub])
        (use count_list_nth [OF True] count_list_remove_nth [OF True] in auto)
    then show ?thesis using True live by (simp add: release_def candidate_held [OF inv i])
  next
    case False
    have "\<forall>j \<in> set (live p). count_list ?held j = count_list held j"
      using False count_list_remove_nth [OF True] by auto
    then have "promoter_inv (p, ?held)" using inv sub by (simp add: promoter_inv_def)
    then show ?thesis using True False by (simp add: release_def candidate_held [OF inv i])
  qed
qed

lemma count_list_fresh: "\<forall>j \<in> set held. j < n \<Longrightarrow> count_list held n = 0" for n :: nat
  by (metis count_list_0_iff less_irrefl)

lemma inv_swap:
  assumes inv: "promoter_inv (p, held)" and fresh: "sha \<notin> slot_sha ` set (slots p)"
  shows "promoter_inv (pstep (p, held) (Swap m sha))"
proof -
  have "count_list held (length (slots p)) = 0"
    using inv by (intro count_list_fresh) (simp add: promoter_inv_def)
  then show ?thesis using inv fresh
    by (auto simp: promoter_inv_def swap_begin_def Let_def live_def nth_append)
qed

lemma inv_end_drain:
  "promoter_inv (p, held) \<Longrightarrow> promoter_inv (pstep (p, held) (EndDrain i late))"
  by (auto simp: promoter_inv_def drain_end_def live_def set_remove1_eq)

interpretation fresh: guarded_machine fresh_step promoter_inv
proof
  fix ph ph' :: "'a promoter \<times> nat list" and e
  assume inv: "promoter_inv ph" and step: "fresh_step ph e = Inr ph'"
  obtain p held where ph: "ph = (p, held)" by force
  from step have "fresh_event (p, held) e" and "ph' = pstep (p, held) e"
    by (auto simp: fresh_step_def ph split: if_splits)
  with inv show "promoter_inv ph'"
    by (cases e) (simp_all add: ph inv_get inv_done inv_swap inv_end_drain del: pstep.simps)
qed

lemma promoter_new_inv: "promoter_inv (promoter_new m sha, [])"
  by (simp add: promoter_inv_def promoter_new_def live_def)

text \<open>
  C14. No model is released under a decision that still uses it: in every interleaving of readers,
  promotions (each with a SHA not used before) and drains, a drain that ends because its counter
  reached zero, rather than by timeout, ends when no reader holds the old slot; and no counter of a
  live slot is ever negative.
\<close>

theorem drain_waits_for_readers:
  assumes "runE fresh_step (promoter_new m sha, []) es = Inr (p, held)"
  shows "(i \<in> set (draining p) \<longrightarrow> drained i p \<longrightarrow> i \<notin> set held) \<and>
         (i \<in> set (live p) \<longrightarrow> 0 \<le> in_flight (slots p ! i) \<and>
            in_flight (slots p ! i) = int (count_list held i))"
proof -
  have "promoter_inv (p, held)" by (rule fresh.run_keeps [OF promoter_new_inv assms])
  then show ?thesis
    by (auto simp: promoter_inv_def drained_def live_def count_list_0_iff)
qed

section \<open>Rollback\<close>

text \<open>
  A rollback serves the model that was active before the last swap, and a second one undoes it:
  after a promotion, rolling back gives the old model and SHA, rolling back again the new ones, each
  with the next slot number; without a previous model it raises.
\<close>

theorem rollback_toggles:
  assumes "active p < length (slots p)"
    and "swap_begin m sha KPromote p = (p1, n1, old1)"
    and "rollback_begin p1 = Inr (p2, n2, old2)" and "rollback_begin p2 = Inr (p3, n3, old3)"
  shows "fst (get_model p2) = (slot_model (slots p ! active p), slot_sha (slots p ! active p)) \<and>
         previous_sha p2 = Some sha \<and> fst (get_model p3) = (m, sha) \<and>
         n1 = slot_counter p + 1 \<and> n2 = n1 + 1 \<and> n3 = n2 + 1 \<and>
         old1 = active p \<and> old2 = active p1 \<and> old3 = active p2 \<and>
         (previous q = None \<longrightarrow> rollback_begin q = Inl RuntimeError)"
  using assms
  by (auto simp: rollback_begin_def swap_begin_def Let_def get_model_def previous_sha_def nth_append)

text \<open>The schedule of the next property.\<close>

definition rollback_race :: "'m \<Rightarrow> string \<Rightarrow> 'm \<Rightarrow> string \<Rightarrow> 'm \<Rightarrow> string \<Rightarrow> 'm promoter \<times> nat list" where
  "rollback_race ma a mb b mc c =
     run pstep (promoter_new ma a, [])
       [Get, Swap mb b, EndDrain 0 True, RollBack, EndDrain 1 True, Get, Done 0, Swap mc c]"

text \<open>
  Releasing by SHA after a rollback hits the wrong slot: one reader takes A, A is promoted away
  to B, the drain of A times out, B is rolled back to A, and the release then lowers the counter of
  the new slot of A, which this reader never took. If a second reader holds that new slot, the next
  swap's drain ends at once although the second reader is still deciding on it.
\<close>

theorem rollback_release_wrong_slot:
  assumes "a \<noteq> b"
  shows "case rollback_race ma a mb b mc c of
           (p, held) \<Rightarrow> held = [2] \<and> 2 \<in> set (draining p) \<and> drained 2 p"
  using assms
  by (simp add: rollback_race_def promoter_new_def get_model_def add_in_flight_def swap_begin_def
      rollback_begin_def drain_done_def drain_end_def release_def candidate_def drained_def Let_def
      nth_append eval_nat_numeral)

section \<open>Witnesses\<close>

theorem drain_waits_for_readers_witness:
  "\<exists>p held. runE fresh_step (promoter_new (0 :: nat) ''a'', []) [Get, Swap 1 ''b'', Done 0] = Inr (p, held) \<and>
     0 \<in> set (draining p) \<and> drained 0 p \<and> 0 \<notin> set held"
proof -
  obtain p held where r: "runE fresh_step (promoter_new (0 :: nat) ''a'', []) [Get, Swap 1 ''b'', Done 0] =
      Inr (p, held)" "0 \<in> set (draining p)" "drained 0 p"
    by (simp add: fresh_step_def promoter_new_def get_model_def add_in_flight_def swap_begin_def
        release_def candidate_def drained_def Let_def)
  with drain_waits_for_readers [OF r(1), of 0] show ?thesis by blast
qed

theorem rollback_toggles_witness:
  "\<exists>p1 p2 p3 n1 n2 n3 o1 o2 o3.
     swap_begin (1 :: nat) ''b'' KPromote (promoter_new 0 ''a'') = (p1, n1, o1) \<and>
     rollback_begin p1 = Inr (p2, n2, o2) \<and> rollback_begin p2 = Inr (p3, n3, o3) \<and>
     fst (get_model p2) = (0, ''a'') \<and> fst (get_model p3) = (1, ''b'')"
proof -
  have a: "active (promoter_new (0 :: nat) ''a'') < length (slots (promoter_new (0 :: nat) ''a''))"
    by (simp add: promoter_new_def)
  obtain p1 n1 o1 where p1: "swap_begin (1 :: nat) ''b'' KPromote (promoter_new 0 ''a'') = (p1, n1, o1)"
    by (metis prod_cases3)
  moreover from p1 obtain p2 n2 o2 where p2: "rollback_begin p1 = Inr (p2, n2, o2)"
    by (auto simp: rollback_begin_def swap_begin_def Let_def)
  moreover from p2 obtain p3 n3 o3 where p3: "rollback_begin p2 = Inr (p3, n3, o3)"
    by (auto simp: rollback_begin_def swap_begin_def Let_def split: option.splits)
  moreover have "fst (get_model p2) = (0, ''a'')" "fst (get_model p3) = (1, ''b'')"
    using rollback_toggles [OF a p1 p2 p3, where q = p1] by (simp_all add: promoter_new_def)
  ultimately show ?thesis by blast
qed

theorem rollback_release_wrong_slot_witness:
  "fst (case rollback_race (0 :: nat) ''a'' 1 ''b'' 2 ''c'' of (p, held) \<Rightarrow> (drained 2 p, held))"
  using rollback_release_wrong_slot [of "''a''" "''b''" "0 :: nat" 1 2 "''c''"]
  by (simp split: prod.splits)

end
