(* ===== verification/EvidenceConcurrent.thy ===== *)
theory EvidenceConcurrent
  imports EvidenceProps
begin

text \<open>
  Appends by several threads (\<open>evidence/store.py\<close>). An append is not one step: it takes a lock, reads
  the hash of the tenant's last row, writes a row linked to it and gives the lock back, and other
  appends run in between. The lock of the JSONL and SQLite stores is that of the store object; that of
  PostgreSQL is an advisory lock on the tenant, held until the transaction commits, whatever the
  connection. A read of the last hash and a write are each one step.
\<close>

section \<open>The steps of an append\<close>

text \<open>
  What an append does to its store: reading the tenant's last hash, writing the row, and the lock a
  thread takes for a record.
\<close>

record ('s, 'l) store_ops =
  so_last :: "string \<Rightarrow> 's \<Rightarrow> string"
  so_put :: "decision_record \<Rightarrow> string \<Rightarrow> 's \<Rightarrow> 's res"
  so_key :: "nat \<Rightarrow> decision_record \<Rightarrow> 'l"

definition jsonl_ops :: "codec \<Rightarrow> (nat \<Rightarrow> decision_record \<Rightarrow> 'l) \<Rightarrow> (jfile, 'l) store_ops" where
  "jsonl_ops c key =
     \<lparr>so_last = jsonl_last_hash c, so_put = (\<lambda>r h f. Inr (f @ [JRow h (Some (tenant_of r)) (canonical_json c r)])), so_key = key\<rparr>"

definition sqlite_ops :: "codec \<Rightarrow> (nat \<Rightarrow> decision_record \<Rightarrow> 'l) \<Rightarrow> (sq_row list, 'l) store_ops" where
  "sqlite_ops c key =
     \<lparr>so_last = sqlite_last_hash,
      so_put = (\<lambda>r h rows. bindE (from_hex h) (\<lambda>bytes.
        if dr_decision_id r \<in> sq_decision_id ` set rows then Inl IntegrityError
        else Inr (rows @ [\<lparr>sq_decision_id = dr_decision_id r, sq_tenant = tenant_of r, sq_payload = canonical_json c r, sq_hash = bytes\<rparr>]))),
      so_key = key\<rparr>"

text \<open>\<open>hashtext\<close> is PostgreSQL's hash of a text; the key of the advisory lock is that of the tenant.\<close>

definition pg_ops :: "(string \<Rightarrow> string) \<Rightarrow> (string \<Rightarrow> int) \<Rightarrow> codec \<Rightarrow> (pg_row list, int) store_ops" where
  "pg_ops jsonb hashtext c =
     \<lparr>so_last = pg_last_hash,
      so_put = (\<lambda>r h rows. Inr (rows @ [\<lparr>pg_tenant = tenant_of r, pg_ts = dr_timestamp r, pg_decision_id = dr_decision_id r,
                                          pg_record = jsonb (canonical_json c r), pg_hash = h\<rparr>])),
      so_key = (\<lambda>t r. hashtext (tenant_of r))\<rparr>"

text \<open>An append that nothing interleaves with, and that it is the append of each store.\<close>

definition seq_append :: "sha \<Rightarrow> codec \<Rightarrow> ('s, 'l) store_ops \<Rightarrow> string option \<Rightarrow> decision_record \<Rightarrow> 's \<Rightarrow> ('s \<times> string) res" where
  "seq_append sha c so ctx r s =
     (let r1 = stamp ctx r
      in bindE (chain sha (so_last so (tenant_of r1) s) (canonical_json c r1)) (\<lambda>h.
         bindE (so_put so r1 h s) (\<lambda>s'. Inr (s', h))))"

lemma seq_append_jsonl: "seq_append sha c (jsonl_ops c key) = jsonl_append sha c"
  by (simp add: fun_eq_iff seq_append_def jsonl_ops_def jsonl_append_def Let_def)

lemma seq_append_sqlite: "seq_append sha c (sqlite_ops c key) = sqlite_append sha c"
  by (auto simp: fun_eq_iff seq_append_def sqlite_ops_def sqlite_append_def Let_def bindE_assoc intro!: arg_cong2 [of _ _ _ _ bindE])

lemma seq_append_pg: "seq_append sha c (pg_ops jsonb hashtext c) = pg_append jsonb sha c"
  by (simp add: fun_eq_iff seq_append_def pg_ops_def pg_append_def Let_def)

text \<open>
  A thread is idle, or it holds its lock: before the read, with the hash it read, or with its row
  written (or its exception raised) and the lock still to be given back.
\<close>

datatype phase = Idle | Locked decision_record | HasPrev decision_record string | Finished decision_record

record ('s, 'l) shared =
  sh_store :: 's
  sh_owner :: "'l \<Rightarrow> nat option"
  sh_phase :: "nat \<Rightarrow> phase"

definition shared_start :: "'s \<Rightarrow> ('s, 'l) shared" where
  "shared_start s = \<lparr>sh_store = s, sh_owner = Map.empty, sh_phase = (\<lambda>t. Idle)\<rparr>"

definition set_phase :: "nat \<Rightarrow> phase \<Rightarrow> ('s, 'l) shared \<Rightarrow> ('s, 'l) shared" where
  "set_phase t p s = s\<lparr>sh_phase := (sh_phase s)(t := p)\<rparr>"

text \<open>The appends are those of \<open>jobs\<close>: a tenant scope and a record.\<close>

inductive append_step ::
  "sha \<Rightarrow> codec \<Rightarrow> ('s, 'l) store_ops \<Rightarrow> append_op set \<Rightarrow> ('s, 'l) shared \<Rightarrow> ('s, 'l) shared \<Rightarrow> bool"
  for sha c so jobs where
  acquire: "sh_phase s t = Idle \<Longrightarrow> (ctx, r) \<in> jobs \<Longrightarrow> sh_owner s (so_key so t (stamp ctx r)) = None \<Longrightarrow>
    append_step sha c so jobs s
      (set_phase t (Locked (stamp ctx r)) (s\<lparr>sh_owner := (sh_owner s)(so_key so t (stamp ctx r) \<mapsto> t)\<rparr>))"
| read_last: "sh_phase s t = Locked r1 \<Longrightarrow>
    append_step sha c so jobs s (set_phase t (HasPrev r1 (so_last so (tenant_of r1) (sh_store s))) s)"
| write_row: "sh_phase s t = HasPrev r1 prev \<Longrightarrow> chain sha prev (canonical_json c r1) = Inr h \<Longrightarrow> so_put so r1 h (sh_store s) = Inr st \<Longrightarrow>
    append_step sha c so jobs s (set_phase t (Finished r1) (s\<lparr>sh_store := st\<rparr>))"
| raise: "sh_phase s t = HasPrev r1 prev \<Longrightarrow>
    bindE (chain sha prev (canonical_json c r1)) (\<lambda>h. so_put so r1 h (sh_store s)) = Inl e \<Longrightarrow>
    append_step sha c so jobs s (set_phase t (Finished r1) s)"
| release: "sh_phase s t = Finished r1 \<Longrightarrow>
    append_step sha c so jobs s (set_phase t Idle (s\<lparr>sh_owner := (sh_owner s)(so_key so t r1 := None)\<rparr>))"

inductive_cases append_stepE: "append_step sha c so jobs s s'"

section \<open>Locks that serialise the appends of a tenant\<close>

text \<open>
  The contract: a row of one tenant does not change what is read as the last hash of another, and two
  appends for one tenant take the same lock, whatever their threads.
\<close>

locale tenant_locks =
  fixes so :: "('s, 'l) store_ops"
  assumes put_other: "so_put so r h s = Inr s' \<Longrightarrow> t \<noteq> tenant_of r \<Longrightarrow> so_last so t s' = so_last so t s"
    and same_key: "tenant_of r = tenant_of r' \<Longrightarrow> so_key so a r = so_key so b r'"
begin

definition job_record :: "append_op set \<Rightarrow> decision_record \<Rightarrow> bool" where
  "job_record jobs r1 \<longleftrightarrow> (\<exists>(ctx, r) \<in> jobs. r1 = stamp ctx r)"

lemma job_recordI [intro]: "(ctx, r) \<in> jobs \<Longrightarrow> job_record jobs (stamp ctx r)"
  by (auto simp: job_record_def)

text \<open>A thread that is not idle owns its lock, and the hash it has read is still the tenant's last.\<close>

definition held :: "('s, 'l) shared \<Rightarrow> nat \<Rightarrow> decision_record \<Rightarrow> bool" where
  "held s t r1 \<longleftrightarrow> sh_owner s (so_key so t r1) = Some t"

definition thread_ok :: "append_op set \<Rightarrow> ('s, 'l) shared \<Rightarrow> nat \<Rightarrow> bool" where
  "thread_ok jobs s t \<longleftrightarrow>
     (case sh_phase s t of
        Idle \<Rightarrow> True
      | Locked r1 \<Rightarrow> held s t r1 \<and> job_record jobs r1
      | HasPrev r1 prev \<Rightarrow> held s t r1 \<and> job_record jobs r1 \<and> prev = so_last so (tenant_of r1) (sh_store s)
      | Finished r1 \<Rightarrow> held s t r1)"

definition serial :: "sha \<Rightarrow> codec \<Rightarrow> append_op set \<Rightarrow> 's \<Rightarrow> 's \<Rightarrow> bool" where
  "serial sha c jobs s0 s \<longleftrightarrow>
     (\<exists>ops. set ops \<subseteq> jobs \<and> runE (\<lambda>s (ctx, r). bindE (seq_append sha c so ctx r s) (\<lambda>(s', h). Inr s')) s0 ops = Inr s)"

lemma serial_snoc:
  assumes "serial sha c jobs s0 s" "(ctx, r) \<in> jobs" "seq_append sha c so ctx r s = Inr (s', h)"
  shows "serial sha c jobs s0 s'"
proof -
  obtain ops where "set ops \<subseteq> jobs" "runE (\<lambda>s (ctx, r). bindE (seq_append sha c so ctx r s) (\<lambda>(s', h). Inr s')) s0 ops = Inr s"
    using assms(1) by (auto simp: serial_def)
  with assms(2,3) show ?thesis unfolding serial_def
    by (intro exI [of _ "ops @ [(ctx, r)]"]) (simp add: runE_append)
qed

lemma step_keeps:
  assumes "append_step sha c so jobs s s'" "\<forall>t. thread_ok jobs s t" "serial sha c jobs s0 (sh_store s)"
  shows "(\<forall>t. thread_ok jobs s' t) \<and> serial sha c jobs s0 (sh_store s')"
  using assms
proof (cases rule: append_step.cases)
  case (acquire t ctx r)
  have "thread_ok jobs s' u" for u
    using assms(2) [rule_format, of u] acquire
    by (auto simp: thread_ok_def set_phase_def held_def split: phase.splits)
  then show ?thesis using assms(3) acquire by (simp add: set_phase_def)
next
  case (read_last t r1)
  have "thread_ok jobs s' u" for u
    using assms(2) [rule_format, of u] read_last
    by (auto simp: thread_ok_def set_phase_def held_def split: phase.splits)
  then show ?thesis using assms(3) read_last by (simp add: set_phase_def)
next
  case (write_row t r1 prev h st)
  obtain ctx r where job: "(ctx, r) \<in> jobs" "r1 = stamp ctx r" and prev: "prev = so_last so (tenant_of r1) (sh_store s)"
    and own: "held s t r1"
    using assms(2) [rule_format, of t] write_row(2) by (auto simp: thread_ok_def job_record_def)
  have "thread_ok jobs s' u" for u
  proof (cases "u = t")
    case True
    then show ?thesis using own write_row(1) by (simp add: thread_ok_def set_phase_def held_def)
  next
    case False
    have "tenant_of r' \<noteq> tenant_of r1" if "held s u r'" for r'
      using that own False same_key [of r' r1 u t] by (auto simp: held_def)
    then show ?thesis using assms(2) [rule_format, of u] False write_row(1) put_other [OF write_row(4)]
      by (auto simp: thread_ok_def set_phase_def held_def split: phase.splits)
  qed
  moreover have "seq_append sha c so ctx r (sh_store s) = Inr (st, h)"
    using write_row(3,4) prev job(2) by (simp add: seq_append_def Let_def)
  ultimately show ?thesis using serial_snoc [OF assms(3) job(1)] write_row(1) by (simp add: set_phase_def)
next
  case (raise t r1 prev e)
  have "thread_ok jobs s' u" for u
    using assms(2) [rule_format, of u] raise(1,2)
    by (auto simp: thread_ok_def set_phase_def held_def split: phase.splits)
  then show ?thesis using assms(3) raise(1) by (simp add: set_phase_def)
next
  case (release t r1)
  have own: "held s t r1" using assms(2) [rule_format, of t] release(2) by (simp add: thread_ok_def)
  have "thread_ok jobs s' u" for u
    using assms(2) [rule_format, of u] own release(1)
    by (auto simp: thread_ok_def set_phase_def held_def split: phase.splits)
  then show ?thesis using assms(3) release(1) by (simp add: set_phase_def)
qed

text \<open>Whatever the interleaving, the store is one that appends one after the other leave.\<close>

lemma interleaving_is_serial:
  assumes "(append_step sha c so jobs)\<^sup>*\<^sup>* (shared_start s0) s"
  shows "serial sha c jobs s0 (sh_store s)"
proof -
  from assms have "(\<forall>t. thread_ok jobs s t) \<and> serial sha c jobs s0 (sh_store s)"
  proof (induction rule: rtranclp_induct)
    case base
    have "serial sha c jobs s0 s0" unfolding serial_def by (intro exI [of _ "[]"]) simp
    then show ?case by (simp add: thread_ok_def shared_start_def)
  next
    case (step s s')
    then show ?case using step_keeps by blast
  qed
  then show ?thesis by blast
qed

text \<open>No thread waits for ever: one that holds its lock can always take its next step.\<close>

lemma holder_proceeds:
  "sh_phase s t \<noteq> Idle \<Longrightarrow> \<exists>s'. append_step sha c so jobs s s'"
proof (cases "sh_phase s t")
  case (HasPrev r1 prev)
  show ?thesis
  proof (cases "bindE (chain sha prev (canonical_json c r1)) (\<lambda>h. so_put so r1 h (sh_store s))")
    case (Inl e)
    then show ?thesis using HasPrev by (blast intro: append_step.raise)
  next
    case (Inr st)
    then show ?thesis using HasPrev by (auto simp: bindE_eq_Inr intro: append_step.write_row)
  qed
qed (auto intro: append_step.intros)

end

lemma jsonl_last_snoc:
  "jsonl_last_from c t acc (f @ [JRow h lbl p]) = (if jsonl_label c lbl p = t then h else jsonl_last_from c t acc f)"
  by (induction c t acc f rule: jsonl_last_from.induct) simp_all

text \<open>One store object: one lock for every append.\<close>

interpretation jsonl_threads: tenant_locks "jsonl_ops c (\<lambda>t r. ())" for c
  by unfold_locales (auto simp: jsonl_ops_def jsonl_last_hash_def jsonl_last_snoc jsonl_label_def)

interpretation sqlite_threads: tenant_locks "sqlite_ops c (\<lambda>t r. ())" for c
  by unfold_locales (auto simp: sqlite_ops_def sqlite_last_hash_def bindE_eq_Inr split: if_splits)

interpretation postgres_connections: tenant_locks "pg_ops jsonb hashtext c" for jsonb hashtext c
  by unfold_locales (auto simp: pg_ops_def pg_last_hash_def)

section \<open>What the locks give\<close>

lemma serial_appends:
  assumes "tenant_locks.serial so sha c jobs s0 s" "tenant_locks so"
  obtains ops where "set ops \<subseteq> jobs"
    "runE (\<lambda>s (ctx, r). bindE (seq_append sha c so ctx r s) (\<lambda>(s', h). Inr s')) s0 ops = Inr s"
  using assms by (auto simp: tenant_locks.serial_def)

lemma jsonl_interleavings_good:
  assumes "sha_ok sha" "\<forall>(ctx, r) \<in> jobs. storable id c (stamp ctx r)"
    and "(append_step sha c (jsonl_ops c (\<lambda>t r. ())) jobs)\<^sup>*\<^sup>* (shared_start []) s"
  shows "jsonl.good sha c (sh_store s)"
proof -
  obtain ops where ops: "set ops \<subseteq> jobs"
    "runE (\<lambda>s (ctx, r). bindE (jsonl_append sha c ctx r s) (\<lambda>(s', h). Inr s')) [] ops = Inr (sh_store s)"
    using serial_appends [OF jsonl_threads.interleaving_is_serial [OF assms(3)] jsonl_threads.tenant_locks_axioms]
    by (auto simp: seq_append_jsonl)
  have "jsonl.good sha c []" by (rule jsonl.good_empty) (simp_all add: jfile_ok_def)
  then show ?thesis using jsonl.good_appends [OF assms(1) _ _ ops(2)] assms(2) ops(1) by blast
qed

text \<open>
  C37. Threads that share a JSONL store, in whatever order their steps interleave, leave at every moment a
  chain that verifies for every auditor.
\<close>

theorem threads_keep_chain:
  assumes "sha_ok sha" "\<forall>(ctx, r) \<in> jobs. storable id c (stamp ctx r)"
    and "(append_step sha c (jsonl_ops c (\<lambda>t r. ())) jobs)\<^sup>*\<^sup>* (shared_start []) s"
  shows "store_verify sha c (jsonl_iter c active (sh_store s)) = Inr (- 1)"
  by (rule jsonl.good_verifies [OF assms(1) jsonl_interleavings_good [OF assms]])

text \<open>
  PostgreSQL's advisory lock does it for any connections and processes: the appends of one tenant are
  serialised, those of others may run in between, and the chains verify.
\<close>

theorem connections_keep_chain:
  assumes "sha_ok sha" "\<forall>(ctx, r) \<in> jobs. storable jsonb c (stamp ctx r)"
    and "(append_step sha c (pg_ops jsonb hashtext c) jobs)\<^sup>*\<^sup>* (shared_start []) s"
  shows "store_verify sha c (pg_iter c active (sh_store s)) = Inr (- 1)"
proof -
  obtain ops where ops: "set ops \<subseteq> jobs"
    "runE (\<lambda>s (ctx, r). bindE (pg_append jsonb sha c ctx r s) (\<lambda>(s', h). Inr s')) [] ops = Inr (sh_store s)"
    using serial_appends [OF postgres_connections.interleaving_is_serial [OF assms(3)] postgres_connections.tenant_locks_axioms]
    by (auto simp: seq_append_pg)
  have "postgres.good sha c []"
    by (rule postgres.good_empty) (simp_all add: table_ok_def pg_iter_def)
  then have "postgres.good sha c (sh_store s)"
    using postgres.good_appends [OF assms(1) _ _ ops(2)] assms(2) ops(1) by blast
  then show ?thesis by (rule postgres.good_verifies [OF assms(1)])
qed

text \<open>
  Two store objects on one JSONL file (two processes) have two locks. Both may read the same last hash,
  and then the second row does not continue the first: the walk reports it, unless the hash of the
  second record happens to be the same after the first as at the start of a chain.
\<close>

lemma fork_reached:
  assumes "(ctx, r) \<in> jobs" "(ctx', r') \<in> jobs"
    and "chain sha ZERO_HASH_HEX (canonical_json c (stamp ctx r)) = Inr h"
    and "chain sha ZERO_HASH_HEX (canonical_json c (stamp ctx' r')) = Inr h'"
  shows "\<exists>s. (append_step sha c (jsonl_ops c (\<lambda>t r. t)) jobs)\<^sup>*\<^sup>* (shared_start []) s \<and>
    sh_store s = [JRow h (Some (tenant_of (stamp ctx r))) (canonical_json c (stamp ctx r)),
                  JRow h' (Some (tenant_of (stamp ctx' r'))) (canonical_json c (stamp ctx' r'))]"
proof -
  let ?so = "jsonl_ops c (\<lambda>t r. t)" and ?a = "stamp ctx r" and ?b = "stamp ctx' r'"
  let ?step = "append_step sha c ?so jobs"
  let ?own0 = "Map.empty :: nat \<Rightarrow> nat option"
  define f1 where "f1 = [JRow h (Some (tenant_of ?a)) (canonical_json c ?a)]"
  define f2 where "f2 = f1 @ [JRow h' (Some (tenant_of ?b)) (canonical_json c ?b)]"
  let ?st = "\<lambda>f own ph. \<lparr>sh_store = f, sh_owner = own, sh_phase = ph\<rparr>"
  let ?i = "\<lambda>t::nat. Idle"
  have z: "jsonl_last_hash c t [] = ZERO_HASH_HEX" for t by (simp add: jsonl_last_hash_def)
  have 1: "?step (shared_start []) (?st [] (?own0(0 \<mapsto> 0)) (?i(0 := Locked ?a)))"
    using append_step.acquire [of "shared_start []" 0 ctx r jobs ?so sha c] assms(1)
    by (simp add: shared_start_def set_phase_def jsonl_ops_def)
  have 2: "?step (?st [] (?own0(0 \<mapsto> 0)) (?i(0 := Locked ?a))) (?st [] (?own0(0 \<mapsto> 0, 1 \<mapsto> 1)) (?i(0 := Locked ?a, 1 := Locked ?b)))"
    using append_step.acquire [of "?st [] (?own0(0 \<mapsto> 0)) (?i(0 := Locked ?a))" 1 ctx' r' jobs ?so sha c] assms(2)
    by (simp add: set_phase_def jsonl_ops_def)
  have 3: "?step (?st [] (?own0(0 \<mapsto> 0, 1 \<mapsto> 1)) (?i(0 := Locked ?a, 1 := Locked ?b)))
      (?st [] (?own0(0 \<mapsto> 0, 1 \<mapsto> 1)) (?i(0 := HasPrev ?a ZERO_HASH_HEX, 1 := Locked ?b)))"
    using append_step.read_last [of "?st [] (?own0(0 \<mapsto> 0, 1 \<mapsto> 1)) (?i(0 := Locked ?a, 1 := Locked ?b))" 0 ?a sha c ?so jobs]
    by (simp add: set_phase_def jsonl_ops_def z fun_upd_twist)
  have 4: "?step (?st [] (?own0(0 \<mapsto> 0, 1 \<mapsto> 1)) (?i(0 := HasPrev ?a ZERO_HASH_HEX, 1 := Locked ?b)))
      (?st [] (?own0(0 \<mapsto> 0, 1 \<mapsto> 1)) (?i(0 := HasPrev ?a ZERO_HASH_HEX, 1 := HasPrev ?b ZERO_HASH_HEX)))"
    using append_step.read_last [of "?st [] (?own0(0 \<mapsto> 0, 1 \<mapsto> 1)) (?i(0 := HasPrev ?a ZERO_HASH_HEX, 1 := Locked ?b))" 1 ?b sha c ?so jobs]
    by (simp add: set_phase_def jsonl_ops_def z)
  have 5: "?step (?st [] (?own0(0 \<mapsto> 0, 1 \<mapsto> 1)) (?i(0 := HasPrev ?a ZERO_HASH_HEX, 1 := HasPrev ?b ZERO_HASH_HEX)))
      (?st f1 (?own0(0 \<mapsto> 0, 1 \<mapsto> 1)) (?i(0 := Finished ?a, 1 := HasPrev ?b ZERO_HASH_HEX)))"
    using append_step.write_row [of "?st [] (?own0(0 \<mapsto> 0, 1 \<mapsto> 1)) (?i(0 := HasPrev ?a ZERO_HASH_HEX, 1 := HasPrev ?b ZERO_HASH_HEX))"
        0 ?a ZERO_HASH_HEX sha c h ?so f1 jobs] assms(3)
    by (simp add: set_phase_def jsonl_ops_def f1_def fun_upd_twist)
  have 6: "?step (?st f1 (?own0(0 \<mapsto> 0, 1 \<mapsto> 1)) (?i(0 := Finished ?a, 1 := HasPrev ?b ZERO_HASH_HEX)))
      (?st f2 (?own0(0 \<mapsto> 0, 1 \<mapsto> 1)) (?i(0 := Finished ?a, 1 := Finished ?b)))"
    using append_step.write_row [of "?st f1 (?own0(0 \<mapsto> 0, 1 \<mapsto> 1)) (?i(0 := Finished ?a, 1 := HasPrev ?b ZERO_HASH_HEX))"
        1 ?b ZERO_HASH_HEX sha c h' ?so f2 jobs] assms(4)
    by (simp add: set_phase_def jsonl_ops_def f2_def)
  from 1 2 3 4 5 6 have "?step\<^sup>*\<^sup>* (shared_start []) (?st f2 (?own0(0 \<mapsto> 0, 1 \<mapsto> 1)) (?i(0 := Finished ?a, 1 := Finished ?b)))"
    by (meson rtranclp.rtrancl_into_rtrancl rtranclp.rtrancl_refl)
  then show ?thesis by (intro exI [of _ "?st f2 (?own0(0 \<mapsto> 0, 1 \<mapsto> 1)) (?i(0 := Finished ?a, 1 := Finished ?b))"]) (simp add: f1_def f2_def)
qed

theorem two_stores_fork:
  assumes "sha_ok sha" "storable id c (stamp ctx r)" "storable id c (stamp ctx' r')"
    and "tenant_of (stamp ctx r) = tenant_of (stamp ctx' r')"
    and "chain sha ZERO_HASH_HEX (canonical_json c (stamp ctx r)) = Inr h"
    and "chain sha ZERO_HASH_HEX (canonical_json c (stamp ctx' r')) \<noteq> chain sha h (canonical_json c (stamp ctx' r'))"
  shows "\<exists>s. (append_step sha c (jsonl_ops c (\<lambda>t r. t)) {(ctx, r), (ctx', r')})\<^sup>*\<^sup>* (shared_start []) s \<and>
    store_verify sha c (jsonl_iter c None (sh_store s)) = Inr 1"
proof -
  obtain h' where h': "chain sha ZERO_HASH_HEX (canonical_json c (stamp ctx' r')) = Inr h'"
    using chain_total [OF ZERO_digest] by blast
  obtain e where e: "chain sha h (canonical_json c (stamp ctx' r')) = Inr e"
    using chain_total [OF chain_digest [OF assms(1,5)]] by blast
  obtain x where x: "parse_record c (canonical_json c (stamp ctx r)) = Inr x" "canonical_json c x = canonical_json c (stamp ctx r)"
    "tenant_of x = tenant_of (stamp ctx r)" using storable_id [OF assms(2)] by blast
  obtain y where y: "parse_record c (canonical_json c (stamp ctx' r')) = Inr y" "canonical_json c y = canonical_json c (stamp ctx' r')"
    "tenant_of y = tenant_of (stamp ctx' r')" using storable_id [OF assms(3)] by blast
  obtain s where s: "(append_step sha c (jsonl_ops c (\<lambda>t r. t)) {(ctx, r), (ctx', r')})\<^sup>*\<^sup>* (shared_start []) s"
    "sh_store s = [JRow h (Some (tenant_of (stamp ctx r))) (canonical_json c (stamp ctx r)),
                   JRow h' (Some (tenant_of (stamp ctx' r'))) (canonical_json c (stamp ctx' r'))]"
    using fork_reached [OF _ _ assms(5) h', of "{(ctx, r), (ctx', r')}"] by blast
  have "store_verify sha c (jsonl_iter c None (sh_store s)) = Inr 1"
    using x y assms(4-6) h' e by (auto simp: s(2) store_verify_def prev_of_def bindE_def split: sum.splits)
  with s(1) show ?thesis by blast
qed

section \<open>An instance\<close>

lemma one_append_reached:
  assumes "(ctx, r) \<in> jobs" "chain sha ZERO_HASH_HEX (canonical_json c (stamp ctx r)) = Inr h"
  shows "\<exists>s. (append_step sha c (jsonl_ops c (\<lambda>t r. ())) jobs)\<^sup>*\<^sup>* (shared_start []) s \<and>
    sh_store s = [JRow h (Some (tenant_of (stamp ctx r))) (canonical_json c (stamp ctx r))]"
proof -
  let ?so = "jsonl_ops c (\<lambda>t r. ())" and ?a = "stamp ctx r"
  define s1 :: "(jfile, unit) shared" where "s1 = set_phase 0 (Locked ?a) ((shared_start [])\<lparr>sh_owner := Map.empty(() \<mapsto> 0)\<rparr>)"
  define s2 where "s2 = set_phase 0 (HasPrev ?a ZERO_HASH_HEX) s1"
  define s3 where "s3 = set_phase 0 (Finished ?a) (s2\<lparr>sh_store := [JRow h (Some (tenant_of ?a)) (canonical_json c ?a)]\<rparr>)"
  have "append_step sha c ?so jobs (shared_start []) s1"
    using append_step.acquire [of "shared_start []" 0 ctx r jobs ?so sha c] assms(1)
    by (simp add: s1_def shared_start_def jsonl_ops_def)
  moreover have "append_step sha c ?so jobs s1 s2"
    using append_step.read_last [of s1 0 ?a sha c ?so jobs]
    by (simp add: s1_def s2_def set_phase_def shared_start_def jsonl_ops_def jsonl_last_hash_def)
  moreover have "append_step sha c ?so jobs s2 s3"
    using append_step.write_row [of s2 0 ?a ZERO_HASH_HEX sha c h ?so _ jobs] assms(2)
    by (simp add: s1_def s2_def s3_def set_phase_def shared_start_def jsonl_ops_def)
  ultimately have "(append_step sha c ?so jobs)\<^sup>*\<^sup>* (shared_start []) s3" by (meson rtranclp.rtrancl_into_rtrancl rtranclp.rtrancl_refl)
  then show ?thesis by (intro exI [of _ s3]) (simp add: s3_def set_phase_def)
qed

theorem threads_keep_chain_witness:
  "\<exists>s. (append_step EvidenceProps.demo_sha demo_codec (jsonl_ops demo_codec (\<lambda>t r. ())) (set demo_ops))\<^sup>*\<^sup>* (shared_start []) s \<and>
     sh_store s \<noteq> [] \<and> store_verify EvidenceProps.demo_sha demo_codec (jsonl_iter demo_codec None (sh_store s)) = Inr (- 1)"
proof -
  have st: "\<forall>(ctx, r) \<in> set demo_ops. storable id demo_codec (stamp ctx r)"
    using demo_storable by (simp add: storable_ops_def list_all_iff)
  obtain h where "chain EvidenceProps.demo_sha ZERO_HASH_HEX (canonical_json demo_codec (stamp (Some ''a'') (demo_record ''1'' None))) = Inr h"
    using chain_total [OF ZERO_digest] by blast
  from one_append_reached [OF _ this, of "set demo_ops"] obtain s where s:
    "(append_step EvidenceProps.demo_sha demo_codec (jsonl_ops demo_codec (\<lambda>t r. ())) (set demo_ops))\<^sup>*\<^sup>* (shared_start []) s" "sh_store s \<noteq> []"
    by (auto simp: demo_ops_def)
  from threads_keep_chain [OF demo_sha_ok st s(1), of None] s show ?thesis by blast
qed

end
