(* ===== verification/ModArith.thy ===== *)
theory ModArith
  imports Prelude
begin

text \<open>
  The arithmetic the secret-sharing code rests on: prime moduli, inverses by Fermat's little theorem
  (\<open>pow(a, p - 2, p)\<close>), and Lagrange interpolation at zero through distinct points, first over the
  reals and then modulo a prime.
\<close>

section \<open>Modular exponentiation and inverses\<close>

text \<open>Python's three-argument \<open>pow\<close>, by square and multiply.\<close>

function pow_mod :: "int \<Rightarrow> nat \<Rightarrow> int \<Rightarrow> int" where
  "pow_mod b n m =
     (if n = 0 then 1 mod m
      else if even n then pow_mod (b * b mod m) (n div 2) m
      else b * pow_mod (b * b mod m) (n div 2) m mod m)"
  by pat_completeness auto
termination by (relation "measure (\<lambda>(b, n, m). n)") auto

declare pow_mod.simps [simp del]

lemma pow_mod_eq: "pow_mod b n m = b ^ n mod m"
proof (induction b n m rule: pow_mod.induct)
  case (1 b n m)
  have half: "(b * b mod m) ^ k mod m = (b * b) ^ k mod m" for k by (simp add: power_mod)
  show ?case
  proof (cases "n = 0")
    case True
    then show ?thesis by (simp add: pow_mod.simps [of b 0 m])
  next
    case False
    show ?thesis
    proof (cases "even n")
      case True
      then have "b ^ n = (b * b) ^ (n div 2)" by (metis dvd_mult_div_cancel power2_eq_square power_mult)
      then show ?thesis using 1 False True half by (simp add: pow_mod.simps [of b n m])
    next
      case odd: False
      then have "b ^ n = b * (b * b) ^ (n div 2)"
        by (metis odd_two_times_div_two_succ power2_eq_square power_Suc2 power_mult mult.commute Suc_eq_plus1)
      then show ?thesis using 1 False odd half by (simp add: pow_mod.simps [of b n m] mod_mult_right_eq)
    qed
  qed
qed

definition is_prime :: "int \<Rightarrow> bool" where
  "is_prime p \<longleftrightarrow> 1 < p \<and> (\<forall>d. 0 < d \<and> d dvd p \<longrightarrow> d = 1 \<or> d = p)"

lemma prime_coprime: "is_prime p \<Longrightarrow> \<not> p dvd a \<Longrightarrow> coprime p a"
proof -
  assume p: "is_prime p" and a: "\<not> p dvd a"
  have "0 < gcd p a" using p by (auto simp: is_prime_def gcd_pos_int)
  moreover have "gcd p a dvd p" "gcd p a dvd a" by simp_all
  ultimately have "gcd p a = 1" using p a by (metis is_prime_def)
  then show "coprime p a" by (simp add: coprime_iff_gcd_eq_1)
qed

lemma prime_dvd_mult: "is_prime p \<Longrightarrow> p dvd a * b \<longleftrightarrow> p dvd a \<or> p dvd b"
  using prime_coprime coprime_dvd_mult_right_iff by (metis dvd_mult dvd_mult2)

lemma prime_dvd_prod:
  assumes p: "is_prime p" and A: "finite A"
  shows "p dvd (\<Prod>i\<in>A. f i) \<longleftrightarrow> (\<exists>i\<in>A. p dvd f i)"
  using A
proof (induction rule: finite_induct)
  case empty
  then show ?case using p by (auto simp: is_prime_def)
next
  case (insert x F)
  then show ?case by (simp add: prime_dvd_mult [OF p])
qed

lemma mod_cancel:
  assumes "is_prime p" "\<not> p dvd c" "c * a mod p = c * b mod p"
  shows "a mod p = b mod p"
proof -
  have "p dvd c * (a - b)" using assms(3) by (simp add: mod_eq_dvd_iff right_diff_distrib)
  then have "p dvd a - b" using assms(1,2) prime_dvd_mult by blast
  then show ?thesis by (simp add: mod_eq_dvd_iff)
qed

lemma fermat_little:
  assumes p: "is_prime p" and a: "\<not> p dvd a"
  shows "a ^ nat (p - 1) mod p = 1"
proof -
  let ?A = "{1..p - 1}"
  have p1: "1 < p" using p by (simp add: is_prime_def)
  have nd: "\<not> p dvd x" if "x \<in> ?A" for x using that p1 zdvd_not_zless by force
  have inj: "inj_on (\<lambda>x. a * x mod p) ?A"
  proof (rule inj_onI)
    fix x y assume x: "x \<in> ?A" and y: "y \<in> ?A" and eq: "a * x mod p = a * y mod p"
    have "x mod p = y mod p" by (rule mod_cancel [OF p a eq])
    with x y show "x = y" by (simp add: mod_pos_pos_trivial)
  qed
  have sub: "(\<lambda>x. a * x mod p) ` ?A \<subseteq> ?A"
  proof
    fix z assume "z \<in> (\<lambda>x. a * x mod p) ` ?A"
    then obtain x where x: "x \<in> ?A" "z = a * x mod p" by blast
    have "\<not> p dvd a * x" using prime_dvd_mult [OF p] a nd [OF x(1)] by blast
    then have "z \<noteq> 0" by (simp add: x(2) dvd_eq_mod_eq_0)
    moreover have "0 \<le> z" "z < p" using p1 by (simp_all add: x(2))
    ultimately show "z \<in> ?A" by simp
  qed
  have img: "(\<lambda>x. a * x mod p) ` ?A = ?A"
    by (rule endo_inj_surj [OF _ sub inj]) simp
  have "(\<Prod>x\<in>?A. a * x mod p) = (\<Prod>x\<in>(\<lambda>x. a * x mod p) ` ?A. x)"
    by (simp add: prod.reindex [OF inj])
  also have "\<dots> = (\<Prod>x\<in>?A. x)" by (simp only: img)
  finally have "(\<Prod>x\<in>?A. a * x mod p) mod p = (\<Prod>x\<in>?A. x) mod p" by simp
  then have "(\<Prod>x\<in>?A. a * x) mod p = (\<Prod>x\<in>?A. x) mod p" by (simp add: mod_prod_eq)
  then have "(\<Prod>x\<in>?A. x) * a ^ nat (p - 1) mod p = (\<Prod>x\<in>?A. x) * 1 mod p"
    by (simp add: prod.distrib mult.commute)
  moreover have "\<not> p dvd (\<Prod>x\<in>?A. x)"
    using prime_dvd_prod [OF p, of ?A "\<lambda>x. x"] nd by auto
  ultimately have "a ^ nat (p - 1) mod p = 1 mod p" using mod_cancel [OF p] by blast
  then show ?thesis using p1 by simp
qed

text \<open>\<open>_mod_inverse\<close>.\<close>

definition mod_inverse :: "int \<Rightarrow> int \<Rightarrow> int" where
  "mod_inverse a p = pow_mod (a mod p) (nat (p - 2)) p"

lemma mod_inverse_works:
  assumes p: "is_prime p" and a: "\<not> p dvd a"
  shows "a * mod_inverse a p mod p = 1"
proof -
  have p1: "1 < p" using p by (simp add: is_prime_def)
  have "a * mod_inverse a p mod p = a * a ^ nat (p - 2) mod p"
    by (simp add: mod_inverse_def pow_mod_eq power_mod mod_mult_right_eq)
  also have "a * a ^ nat (p - 2) = a ^ Suc (nat (p - 2))" by simp
  also have "Suc (nat (p - 2)) = nat (p - 1)" using p1 by linarith
  finally show ?thesis using fermat_little [OF p a] by simp
qed

section \<open>Interpolation at zero over the reals\<close>

definition poly_at_most :: "nat \<Rightarrow> (real \<Rightarrow> real) \<Rightarrow> bool" where
  "poly_at_most n h \<longleftrightarrow> (\<exists>c. \<forall>z. h z = (\<Sum>i\<le>n. c i * z ^ i))"

lemma poly_at_mostI: "(\<And>z. h z = (\<Sum>i\<le>n. c i * z ^ i)) \<Longrightarrow> poly_at_most n h"
  by (auto simp: poly_at_most_def)

lemma poly_add: "poly_at_most n f \<Longrightarrow> poly_at_most n g \<Longrightarrow> poly_at_most n (\<lambda>z. f z + g z)"
proof -
  assume "poly_at_most n f" "poly_at_most n g"
  then obtain c d where "\<forall>z. f z = (\<Sum>i\<le>n. c i * z ^ i)" "\<forall>z. g z = (\<Sum>i\<le>n. d i * z ^ i)"
    by (auto simp: poly_at_most_def)
  then show "poly_at_most n (\<lambda>z. f z + g z)"
    by (intro poly_at_mostI [where c = "\<lambda>i. c i + d i"]) (simp add: sum.distrib distrib_right)
qed

lemma poly_scale: "poly_at_most n f \<Longrightarrow> poly_at_most n (\<lambda>z. k * f z)"
proof -
  assume "poly_at_most n f"
  then obtain c where "\<forall>z. f z = (\<Sum>i\<le>n. c i * z ^ i)" by (auto simp: poly_at_most_def)
  then show "poly_at_most n (\<lambda>z. k * f z)"
    by (intro poly_at_mostI [where c = "\<lambda>i. k * c i"]) (simp add: sum_distrib_left mult.assoc)
qed

lemma poly_sum: "finite A \<Longrightarrow> (\<And>j. j \<in> A \<Longrightarrow> poly_at_most n (f j)) \<Longrightarrow> poly_at_most n (\<lambda>z. \<Sum>j\<in>A. f j z)"
proof (induction A rule: finite_induct)
  case empty
  show ?case by (auto simp: poly_at_most_def intro!: exI [of _ "\<lambda>i. 0"])
next
  case (insert x F)
  then show ?case using poly_add [of n "f x" "\<lambda>z. \<Sum>j\<in>F. f j z"] by simp
qed

lemma poly_shift: "poly_at_most n f \<Longrightarrow> poly_at_most (Suc n) (\<lambda>z. z * f z)"
proof -
  assume "poly_at_most n f"
  then obtain c where c: "\<forall>z. f z = (\<Sum>i\<le>n. c i * z ^ i)" by (auto simp: poly_at_most_def)
  have "z * f z = (\<Sum>i\<le>Suc n. (case i of 0 \<Rightarrow> 0 | Suc j \<Rightarrow> c j) * z ^ i)" for z
    by (simp add: c sum_distrib_left sum.atMost_Suc_shift mult.left_commute del: sum.atMost_Suc)
  then show "poly_at_most (Suc n) (\<lambda>z. z * f z)" by (rule poly_at_mostI)
qed

lemma poly_mono: "poly_at_most n f \<Longrightarrow> poly_at_most (Suc n) f"
proof -
  assume "poly_at_most n f"
  then obtain c where c: "\<forall>z. f z = (\<Sum>i\<le>n. c i * z ^ i)" by (auto simp: poly_at_most_def)
  have "f z = (\<Sum>i\<le>Suc n. (if i \<le> n then c i else 0) * z ^ i)" for z by (simp add: c)
  then show "poly_at_most (Suc n) f" by (rule poly_at_mostI)
qed

lemma poly_mono_le: "poly_at_most m f \<Longrightarrow> m \<le> n \<Longrightarrow> poly_at_most n f"
  by (induction n) (auto simp: le_Suc_eq intro: poly_mono)

lemma poly_linear_factor: "poly_at_most n f \<Longrightarrow> poly_at_most (Suc n) (\<lambda>z. (z - a) * f z)"
  using poly_add [OF poly_shift poly_mono [OF poly_scale [of n f "- a"]]]
  by (simp add: algebra_simps)

lemma poly_prod: "finite A \<Longrightarrow> poly_at_most (card A) (\<lambda>z. \<Prod>j\<in>A. z - x j)"
proof (induction A rule: finite_induct)
  case empty
  have "(1 :: real) = (\<Sum>i\<le>0. 1 * z ^ i)" for z :: real by simp
  then show ?case unfolding poly_at_most_def by auto
next
  case (insert a F)
  then show ?case using poly_linear_factor [of "card F"] by simp
qed

lemma poly_zero_everywhere:
  assumes "poly_at_most n h" "finite S" "n < card S" "\<And>s. s \<in> S \<Longrightarrow> h s = 0"
  shows "h z = 0"
proof -
  obtain c where c: "\<And>z. h z = (\<Sum>i\<le>n. c i * z ^ i)" using assms(1) by (auto simp: poly_at_most_def)
  have "\<forall>k\<le>n. c k = 0"
  proof (rule ccontr)
    assume "\<not> (\<forall>k\<le>n. c k = 0)"
    then obtain k where k: "c k \<noteq> 0" "k \<le> n" by blast
    have "S \<subseteq> {z. (\<Sum>i\<le>n. c i * z ^ i) = 0}" using assms(4) c by auto
    then have "card S \<le> n"
      using polyfun_rootbound [of c k n, OF k] card_mono le_trans by blast
    with assms(3) show False by simp
  qed
  then show ?thesis by (simp add: c)
qed

lemma lagrange_zero:
  assumes A: "finite A" "inj_on x A" and f: "poly_at_most d f" "d < card A"
  shows "f 0 = (\<Sum>j\<in>A. f (x j) * (\<Prod>m\<in>A - {j}. (0 - x m) / (x j - x m)))"
proof -
  let ?l = "\<lambda>j z. \<Prod>m\<in>A - {j}. (z - x m) / (x j - x m)"
  let ?L = "\<lambda>z. \<Sum>j\<in>A. f (x j) * ?l j z"
  obtain n where n: "card A = Suc n" using f(2) by (cases "card A") auto
  have lj: "poly_at_most n (?l j)" if "j \<in> A" for j
  proof -
    have "card (A - {j}) = n" using that n A(1) by simp
    then have "poly_at_most n (\<lambda>z. \<Prod>m\<in>A - {j}. z - x m)"
      using poly_prod [of "A - {j}" x] A(1) by simp
    moreover have "?l j = (\<lambda>z. inverse (\<Prod>m\<in>A - {j}. x j - x m) * (\<Prod>m\<in>A - {j}. z - x m))"
      by (rule ext) (subst prod_dividef, rule divide_inverse_commute)
    ultimately show ?thesis by (simp only: poly_scale)
  qed
  have "poly_at_most n ?L" by (rule poly_sum [OF A(1)]) (intro poly_scale lj)
  moreover have "poly_at_most n f" by (rule poly_mono_le [OF f(1)]) (use f(2) n in simp)
  ultimately have h: "poly_at_most n (\<lambda>z. ?L z + (- 1) * f z)" by (intro poly_add poly_scale)
  have root: "?L s + (- 1) * f s = 0" if s: "s \<in> x ` A" for s
  proof -
    from s obtain k where k: "k \<in> A" "s = x k" by blast
    have one: "?l j (x k) = (if j = k then 1 else 0)" if j: "j \<in> A" for j
    proof (cases "j = k")
      case True
      have "x k - x m \<noteq> 0" if "m \<in> A - {k}" for m
        using that k(1) A(2) by (auto dest: inj_onD)
      then have "?l k (x k) = 1" by (intro prod.neutral) simp
      with True show ?thesis by simp
    next
      case False
      then have "k \<in> A - {j}" using k(1) by simp
      then have "?l j (x k) = 0" using A(1) by (intro prod_zero) auto
      with False show ?thesis by simp
    qed
    have "?L (x k) = (\<Sum>j\<in>A. f (x j) * (if j = k then 1 else 0))"
      by (rule sum.cong) (simp_all add: one)
    also have "\<dots> = f (x k)" using k(1) A(1) by (simp add: sum.delta' if_distrib cong: if_cong)
    finally show ?thesis by (simp add: k(2))
  qed
  have "card (x ` A) = Suc n" using n card_image [OF A(2)] by simp
  then have "?L 0 + (- 1) * f 0 = 0"
    using poly_zero_everywhere [OF h, of "x ` A" 0] A(1) root by auto
  then show ?thesis by simp
qed

end
