(* ===== verification/Shamir.thy ===== *)
theory Shamir
  imports ModArith PyValue
begin

text \<open>
  The Shamir secret sharing of \<open>federated/secure.py\<close>: sharing, reconstruction and the proof that the
  one inverts the other. The random coefficients
  (\<open>secrets.randbelow\<close>) are a parameter: a function from the coefficient's index to its value.
\<close>

definition PRIME :: int where "PRIME = 2 ^ 127 - 1"
definition QUANT_SCALE :: int where "QUANT_SCALE = 1000000"

section \<open>Splitting\<close>

text \<open>The inner loop of \<open>split\<close>: \<open>y\<close> accumulates the value, \<open>xp\<close> the power.\<close>

fun share_loop :: "int \<Rightarrow> int \<Rightarrow> int \<Rightarrow> int \<Rightarrow> int list \<Rightarrow> int" where
  "share_loop p x y xp [] = y"
| "share_loop p x y xp (c # cs) = share_loop p x ((y + c * xp) mod p) (xp * x mod p) cs"

definition coefficients :: "int \<Rightarrow> int \<Rightarrow> (nat \<Rightarrow> int) \<Rightarrow> int list" where
  "coefficients secret threshold rnd_coeff = secret # map rnd_coeff [0..<nat (threshold - 1)]"

definition shamir_new :: "int \<Rightarrow> int res" where
  "shamir_new p = (if p \<le> 1 then Inl ValueError else Inr p)"

definition split :: "int \<Rightarrow> int \<Rightarrow> int \<Rightarrow> int \<Rightarrow> (nat \<Rightarrow> int) \<Rightarrow> (int \<times> int) list res" where
  "split p secret n_shares threshold rnd_coeff =
     (if \<not> (0 \<le> secret \<and> secret < p) then Inl ValueError
      else if threshold < 2 then Inl ValueError
      else if n_shares < threshold then Inl ValueError
      else Inr (map (\<lambda>x. (x, share_loop p x 0 1 (coefficients secret threshold rnd_coeff)))
                 [1..n_shares]))"

section \<open>Reconstruction\<close>

text \<open>The inner loop: numerator and denominator of the j-th Lagrange weight at zero.\<close>

fun basis_step :: "int \<Rightarrow> nat \<Rightarrow> int \<Rightarrow> int \<times> int \<Rightarrow> nat \<times> int \<times> int \<Rightarrow> int \<times> int" where
  "basis_step p j xj (num, den) (m, xm, ym) =
     (if m = j then (num, den) else (num * (- xm) mod p, den * (xj - xm) mod p))"

definition basis_loop :: "int \<Rightarrow> (int \<times> int) list \<Rightarrow> nat \<Rightarrow> int \<Rightarrow> int \<times> int" where
  "basis_loop p shares j xj = foldl (basis_step p j xj) (1, 1) (enumerate 0 shares)"

fun secret_step :: "int \<Rightarrow> (int \<times> int) list \<Rightarrow> int \<Rightarrow> nat \<times> int \<times> int \<Rightarrow> int" where
  "secret_step p shares secret (j, xj, yj) =
     (let (num, den) = basis_loop p shares j xj;
          lj = num * mod_inverse den p mod p
      in (secret + yj * lj) mod p)"

definition reconstruct :: "int \<Rightarrow> (int \<times> int) list \<Rightarrow> int res" where
  "reconstruct p shares =
     (if length shares < 2 then Inl ValueError
      else if \<not> distinct (map fst shares) then Inl ValueError
      else Inr (foldl (secret_step p shares) 0 (enumerate 0 shares)))"

section \<open>What the loops compute\<close>

definition poly :: "int list \<Rightarrow> int \<Rightarrow> int" where
  "poly cs x = (\<Sum>i<length cs. cs ! i * x ^ i)"

lemma poly_Nil [simp]: "poly [] x = 0"
  by (simp add: poly_def)

lemma poly_Cons: "poly (c # cs) x = c + x * poly cs x"
  by (simp add: poly_def sum.lessThan_Suc_shift sum_distrib_left mult.left_commute del: sum.lessThan_Suc)

lemma share_loop_mod: "share_loop p x y xp cs mod p = (y + xp * poly cs x) mod p"
proof (induction cs arbitrary: y xp)
  case Nil
  then show ?case by simp
next
  case (Cons c cs)
  have "share_loop p x y xp (c # cs) mod p = ((y + c * xp) mod p + (xp * x mod p) * poly cs x) mod p"
    by (simp add: Cons.IH)
  also have "\<dots> = (y + c * xp + xp * x * poly cs x) mod p"
    by (intro mod_add_cong) (simp_all add: mod_mult_left_eq)
  also have "y + c * xp + xp * x * poly cs x = y + xp * poly (c # cs) x"
    by (simp add: poly_Cons algebra_simps)
  finally show ?case .
qed

lemma share_loop_range: "0 < p \<Longrightarrow> 0 \<le> y \<Longrightarrow> y < p \<Longrightarrow> share_loop p x y xp cs mod p = share_loop p x y xp cs"
  by (induction cs arbitrary: y xp) simp_all

lemma share_value:
  "1 < p \<Longrightarrow> share_loop p x 0 1 cs = poly cs x mod p"
  using share_loop_range [of p 0 x 1 cs] share_loop_mod [of p x 0 1 cs] by simp

lemma enumerate_nth: "enumerate 0 xs = map (\<lambda>i. (i, xs ! i)) [0..<length xs]"
  by (rule nth_equalityI) (simp_all add: nth_enumerate_eq)

lemma basis_step_nth:
  "basis_step p j xj (a, b) (i, shares ! i) =
     (if i = j then a else a * (- fst (shares ! i)) mod p,
      if i = j then b else b * (xj - fst (shares ! i)) mod p)"
  by (cases "shares ! i") simp

lemma basis_loop_foldl:
  "foldl (basis_step p j xj) (a, b) (map (\<lambda>i. (i, shares ! i)) is) =
     (foldl (\<lambda>a m. if m = j then a else a * (- fst (shares ! m)) mod p) a is,
      foldl (\<lambda>a m. if m = j then a else a * (xj - fst (shares ! m)) mod p) b is)"
  by (induction "is" arbitrary: a b) (simp_all only: list.map foldl.simps basis_step_nth)

lemma basis_loop_mod:
  "basis_loop p shares j xj =
     (foldl (\<lambda>a m. if m = j then a else a * (- fst (shares ! m)) mod p) 1 [0..<length shares],
      foldl (\<lambda>a m. if m = j then a else a * (xj - fst (shares ! m)) mod p) 1 [0..<length shares])"
  unfolding basis_loop_def enumerate_nth by (rule basis_loop_foldl)

lemma foldl_prod_mod:
  "foldl (\<lambda>a m. if m = j then a else a * g m mod p) a is mod p =
   a * prod_list (map g (filter (\<lambda>m. m \<noteq> j) is)) mod p" for g :: "nat \<Rightarrow> int"
proof (induction "is" arbitrary: a)
  case Nil
  then show ?case by simp
next
  case (Cons i "is")
  have "a * g i mod p * prod_list (map g (filter (\<lambda>m. m \<noteq> j) is)) mod p =
      a * g i * prod_list (map g (filter (\<lambda>m. m \<noteq> j) is)) mod p" by (rule mod_mult_left_eq)
  with Cons show ?case by (simp add: mult.assoc)
qed

lemma foldl_prod_set:
  "foldl (\<lambda>a m. if m = j then a else a * g m mod p) 1 [0..<k] mod p = (\<Prod>m\<in>{..<k} - {j}. g m) mod p"
  for g :: "nat \<Rightarrow> int"
proof -
  have "prod_list (map g (filter (\<lambda>m. m \<noteq> j) [0..<k])) = prod g (set (filter (\<lambda>m. m \<noteq> j) [0..<k]))"
    by (rule prod.distinct_set_conv_list [symmetric]) simp
  also have "set (filter (\<lambda>m. m \<noteq> j) [0..<k]) = {..<k} - {j}" by auto
  finally show ?thesis by (simp add: foldl_prod_mod)
qed

lemma foldl_sum_mod:
  "foldl (\<lambda>s i. (s + h i) mod p) 0 [0..<Suc k] = (\<Sum>i<Suc k. h i) mod p" for h :: "nat \<Rightarrow> int"
proof (induction k)
  case 0
  then show ?case by simp
next
  case (Suc k)
  then show ?case by (simp add: mod_add_left_eq)
qed

text \<open>Reconstruction as one sum of weighted shares.\<close>

definition weight :: "int \<Rightarrow> int list \<Rightarrow> nat \<Rightarrow> int" where
  "weight p xs j =
     (let num = foldl (\<lambda>a m. if m = j then a else a * (- (xs ! m)) mod p) 1 [0..<length xs];
          den = foldl (\<lambda>a m. if m = j then a else a * (xs ! j - xs ! m) mod p) 1 [0..<length xs]
      in num * mod_inverse den p mod p)"

lemma foldl_cong_idx:
  "(\<And>m a. m \<in> set is \<Longrightarrow> f a m = g a m) \<Longrightarrow> foldl f a is = foldl g a is"
  by (induction "is" arbitrary: a) auto

lemma secret_step_nth:
  assumes "j < length shares"
  shows "secret_step p shares s (j, shares ! j) =
    (s + snd (shares ! j) * weight p (map fst shares) j) mod p"
proof -
  obtain xj yj where sj: "shares ! j = (xj, yj)" by force
  have "foldl (\<lambda>a m. if m = j then a else a * (- (map fst shares ! m)) mod p) 1 [0..<length shares] =
      foldl (\<lambda>a m. if m = j then a else a * (- fst (shares ! m)) mod p) 1 [0..<length shares]"
    by (rule foldl_cong_idx) simp
  moreover have "foldl (\<lambda>a m. if m = j then a else a * (map fst shares ! j - map fst shares ! m) mod p) 1
      [0..<length shares] =
      foldl (\<lambda>a m. if m = j then a else a * (xj - fst (shares ! m)) mod p) 1 [0..<length shares]"
    by (rule foldl_cong_idx) (simp add: assms sj)
  ultimately show ?thesis by (simp only: sj secret_step.simps basis_loop_mod weight_def Let_def prod.case
        length_map snd_conv)
qed

lemma reconstruct_sum:
  assumes "2 \<le> length shares" "distinct (map fst shares)"
  shows "reconstruct p shares =
     Inr ((\<Sum>j<length shares. snd (shares ! j) * weight p (map fst shares) j) mod p)"
proof -
  obtain k where k: "length shares = Suc k" using assms(1) by (cases "length shares") auto
  have "foldl (secret_step p shares) 0 (enumerate 0 shares) =
      foldl (\<lambda>s j. (s + snd (shares ! j) * weight p (map fst shares) j) mod p) 0 [0..<length shares]"
    unfolding enumerate_nth foldl_map by (rule foldl_cong_idx) (simp only: secret_step_nth set_upt
        atLeastLessThan_iff)
  also have "\<dots> = (\<Sum>j<length shares. snd (shares ! j) * weight p (map fst shares) j) mod p"
    unfolding k by (rule foldl_sum_mod)
  finally show ?thesis using assms by (simp only: reconstruct_def not_less [symmetric] if_False not_True_eq_False)
qed

section \<open>Interpolation modulo a prime\<close>

lemma poly_real: "real_of_int (poly cs x) = (\<Sum>i\<le>k. (if i < length cs then of_int (cs ! i) else 0) * of_int x ^ i)"
  if "length cs \<le> Suc k"
proof -
  have "(\<Sum>i\<le>k. (if i < length cs then real_of_int (cs ! i) else 0) * of_int x ^ i) =
      (\<Sum>i<length cs. (if i < length cs then real_of_int (cs ! i) else 0) * of_int x ^ i)"
    by (rule sum.mono_neutral_right) (use that in auto)
  then show ?thesis by (simp add: poly_def)
qed

text \<open>Lagrange's identity with the denominators cleared, over the integers.\<close>

lemma lagrange_int:
  assumes d: "distinct xs" and len: "length cs \<le> length xs" and ne: "xs \<noteq> []"
  defines "K \<equiv> {..<length xs}"
  defines "D \<equiv> \<lambda>j. \<Prod>m\<in>K - {j}. xs ! j - xs ! m"
  shows "(\<Prod>i\<in>K. D i) * poly cs 0 =
         (\<Sum>j\<in>K. poly cs (xs ! j) * ((\<Prod>m\<in>K - {j}. - (xs ! m)) * (\<Prod>i\<in>K - {j}. D i)))"
proof -
  let ?x = "\<lambda>j. real_of_int (xs ! j)"
  let ?f = "\<lambda>z. \<Sum>i\<le>length xs - 1. (if i < length cs then real_of_int (cs ! i) else 0) * z ^ i"
  let ?D = "\<lambda>j. \<Prod>m\<in>K - {j}. ?x j - ?x m"
  have k: "Suc (length xs - 1) = length xs" using ne by (cases xs) auto
  have K: "finite K" "card K = length xs" by (simp_all add: K_def)
  have inj: "inj_on ?x K" using d by (auto simp: K_def inj_on_def nth_eq_iff_index_eq)
  have deg: "length xs - 1 < card K" using k K(2) by linarith
  have fp: "poly_at_most (length xs - 1) ?f" by (rule poly_at_mostI) simp
  have D0: "?D j \<noteq> 0" if "j \<in> K" for j
  proof -
    have "?x j - ?x m \<noteq> 0" if m: "m \<in> K - {j}" for m
    proof
      assume "?x j - ?x m = 0"
      then have "?x j = ?x m" by simp
      from inj_onD [OF inj this] \<open>j \<in> K\<close> m show False by blast
    qed
    then show ?thesis using K(1) by simp
  qed
  have pr: "real_of_int (poly cs y) = ?f (of_int y)" for y
    using poly_real [of cs "length xs - 1" y] len k by simp
  have "?f 0 = (\<Sum>j\<in>K. ?f (?x j) * (\<Prod>m\<in>K - {j}. (0 - ?x m) / (?x j - ?x m)))"
    by (rule lagrange_zero [OF K(1) inj fp deg])
  then have "(\<Prod>i\<in>K. ?D i) * ?f 0 =
      (\<Sum>j\<in>K. (\<Prod>i\<in>K. ?D i) * (?f (?x j) * (\<Prod>m\<in>K - {j}. (0 - ?x m) / (?x j - ?x m))))"
    by (simp only: sum_distrib_left)
  also have "\<dots> = (\<Sum>j\<in>K. ?f (?x j) * ((\<Prod>m\<in>K - {j}. - ?x m) * (\<Prod>i\<in>K - {j}. ?D i)))"
  proof (rule sum.cong [OF refl])
    fix j assume j: "j \<in> K"
    have "(\<Prod>i\<in>K. ?D i) = ?D j * (\<Prod>i\<in>K - {j}. ?D i)" using prod.remove [OF K(1) j] by blast
    moreover have "(\<Prod>m\<in>K - {j}. (0 - ?x m) / (?x j - ?x m)) = (\<Prod>m\<in>K - {j}. - ?x m) / ?D j"
      by (simp only: prod_dividef diff_0)
    ultimately show "(\<Prod>i\<in>K. ?D i) * (?f (?x j) * (\<Prod>m\<in>K - {j}. (0 - ?x m) / (?x j - ?x m))) =
        ?f (?x j) * ((\<Prod>m\<in>K - {j}. - ?x m) * (\<Prod>i\<in>K - {j}. ?D i))"
      using D0 [OF j] by (simp only: times_divide_eq_right nonzero_mult_div_cancel_left mult_ac)
        (simp add: field_simps)
  qed
  finally have "real_of_int ((\<Prod>i\<in>K. D i) * poly cs 0) = real_of_int
      (\<Sum>j\<in>K. poly cs (xs ! j) * ((\<Prod>m\<in>K - {j}. - (xs ! m)) * (\<Prod>i\<in>K - {j}. D i)))"
    by (simp add: D_def pr)
  then show ?thesis by (simp only: of_int_eq_iff)
qed

lemma mod_inverse_mod: "mod_inverse (a mod p) p = mod_inverse a p"
  by (simp add: mod_inverse_def)

lemma weight_mod:
  assumes "j < length xs"
  shows "weight p xs j = (\<Prod>m\<in>{..<length xs} - {j}. - (xs ! m)) *
           mod_inverse (\<Prod>m\<in>{..<length xs} - {j}. xs ! j - xs ! m) p mod p"
proof -
  let ?num = "foldl (\<lambda>a m. if m = j then a else a * (- (xs ! m)) mod p) 1 [0..<length xs]"
  let ?den = "foldl (\<lambda>a m. if m = j then a else a * (xs ! j - xs ! m) mod p) 1 [0..<length xs]"
  have n: "?num mod p = (\<Prod>m\<in>{..<length xs} - {j}. - (xs ! m)) mod p" by (rule foldl_prod_set)
  have "?den mod p = (\<Prod>m\<in>{..<length xs} - {j}. xs ! j - xs ! m) mod p" by (rule foldl_prod_set)
  then have inv: "mod_inverse ?den p = mod_inverse (\<Prod>m\<in>{..<length xs} - {j}. xs ! j - xs ! m) p"
    unfolding mod_inverse_def by (simp only:)
  show ?thesis unfolding weight_def Let_def inv by (rule mod_mult_cong [OF n refl])
qed

lemma nodes_distinct_mod:
  fixes xs :: "int list"
  assumes "distinct xs" "\<And>x. x \<in> set xs \<Longrightarrow> 0 \<le> x \<and> x < p" "i < length xs" "j < length xs" "i \<noteq> j"
  shows "\<not> p dvd xs ! i - xs ! j"
proof
  assume "p dvd xs ! i - xs ! j"
  then have "xs ! i mod p = xs ! j mod p" by (simp add: mod_eq_dvd_iff)
  moreover have "0 \<le> xs ! i" "xs ! i < p" "0 \<le> xs ! j" "xs ! j < p" using assms(2-4) by simp_all
  ultimately have "xs ! i = xs ! j" by simp
  with assms(1,3,4,5) show False by (simp add: nth_eq_iff_index_eq)
qed

lemma weighted_sum:
  assumes p: "is_prime p" and d: "distinct xs" and r: "\<And>x. x \<in> set xs \<Longrightarrow> 0 \<le> x \<and> x < p"
    and len: "length cs \<le> length xs" and ne: "xs \<noteq> []"
  shows "(\<Sum>j<length xs. poly cs (xs ! j) * weight p xs j) mod p = poly cs 0 mod p"
proof -
  define K where "K = {..<length xs}"
  define D where "D = (\<lambda>j. \<Prod>m\<in>K - {j}. xs ! j - xs ! m)"
  define N where "N = (\<lambda>j. \<Prod>m\<in>K - {j}. - (xs ! m))"
  define DD where "DD = (\<Prod>i\<in>K. D i)"
  have K: "finite K" by (simp add: K_def)
  have nD: "\<not> p dvd D j" if j: "j \<in> K" for j
  proof -
    have "\<not> p dvd xs ! j - xs ! m" if "m \<in> K - {j}" for m
      using nodes_distinct_mod [OF d r] j that by (auto simp: K_def)
    then show ?thesis unfolding D_def using prime_dvd_prod [OF p, of "K - {j}"] K by auto
  qed
  then have nDD: "\<not> p dvd DD" unfolding DD_def using prime_dvd_prod [OF p K] by auto
  have trm: "DD * (f * weight p xs j) mod p = f * (N j * (\<Prod>i\<in>K - {j}. D i)) mod p"
    if j: "j \<in> K" for f j
  proof -
    have w: "weight p xs j mod p = N j * mod_inverse (D j) p mod p"
      using j weight_mod [of j xs p] by (simp add: N_def D_def K_def)
    have DDj: "DD = D j * (\<Prod>i\<in>K - {j}. D i)" unfolding DD_def using prod.remove [OF K j] by blast
    have "DD * (f * weight p xs j) mod p = DD * f * (weight p xs j mod p) mod p"
      unfolding mult.assoc [symmetric] by (rule mod_mult_right_eq [symmetric])
    also have "\<dots> = DD * f * (N j * mod_inverse (D j) p) mod p"
      unfolding w by (rule mod_mult_right_eq)
    also have "DD * f * (N j * mod_inverse (D j) p) =
        f * (N j * (\<Prod>i\<in>K - {j}. D i)) * (D j * mod_inverse (D j) p)"
      by (simp add: DDj mult_ac)
    also have "\<dots> mod p = f * (N j * (\<Prod>i\<in>K - {j}. D i)) * (D j * mod_inverse (D j) p mod p) mod p"
      by (rule mod_mult_right_eq [symmetric])
    also have "D j * mod_inverse (D j) p mod p = 1" by (rule mod_inverse_works [OF p nD [OF j]])
    finally show ?thesis by simp
  qed
  have "DD * (\<Sum>j\<in>K. poly cs (xs ! j) * weight p xs j) mod p =
      (\<Sum>j\<in>K. DD * (poly cs (xs ! j) * weight p xs j) mod p) mod p"
    by (simp only: sum_distrib_left mod_sum_eq)
  also have "\<dots> = (\<Sum>j\<in>K. poly cs (xs ! j) * (N j * (\<Prod>i\<in>K - {j}. D i)) mod p) mod p"
    by (simp add: trm)
  also have "\<dots> = DD * poly cs 0 mod p"
    using lagrange_int [OF d len ne] by (simp only: mod_sum_eq K_def D_def N_def DD_def)
  finally show ?thesis unfolding K_def by (rule mod_cancel [OF p nDD])
qed

text \<open>Any shares that lie on a polynomial of small enough degree give back its constant term.\<close>

lemma reconstruct_on_poly:
  assumes p: "is_prime p" and d: "distinct (map fst pts)" and two: "2 \<le> length pts"
    and r: "\<And>x y. (x, y) \<in> set pts \<Longrightarrow> 0 \<le> x \<and> x < p \<and> y mod p = poly cs x mod p"
    and len: "length cs \<le> length pts"
  shows "reconstruct p pts = Inr (poly cs 0 mod p)"
proof -
  let ?xs = "map fst pts"
  have pt: "0 \<le> fst (pts ! j)" "fst (pts ! j) < p" "snd (pts ! j) mod p = poly cs (fst (pts ! j)) mod p"
    if "j < length pts" for j
    using r [of "fst (pts ! j)" "snd (pts ! j)"] that by simp_all
  have "(\<Sum>j<length pts. snd (pts ! j) * weight p ?xs j) mod p =
      (\<Sum>j<length pts. snd (pts ! j) * weight p ?xs j mod p) mod p" by (rule mod_sum_eq [symmetric])
  also have "\<dots> = (\<Sum>j<length pts. poly cs (?xs ! j) * weight p ?xs j mod p) mod p"
  proof -
    have "(\<Sum>j<length pts. snd (pts ! j) * weight p ?xs j mod p) =
        (\<Sum>j<length pts. poly cs (?xs ! j) * weight p ?xs j mod p)"
    proof (rule sum.cong [OF refl])
      fix j assume "j \<in> {..<length pts}"
      then show "snd (pts ! j) * weight p ?xs j mod p = poly cs (?xs ! j) * weight p ?xs j mod p"
        using pt(3) [of j] by (intro mod_mult_cong) simp_all
    qed
    then show ?thesis by (simp only:)
  qed
  also have "\<dots> = (\<Sum>j<length ?xs. poly cs (?xs ! j) * weight p ?xs j) mod p"
    by (simp only: mod_sum_eq length_map)
  also have "\<dots> = poly cs 0 mod p"
  proof (rule weighted_sum [OF p d])
    fix x assume "x \<in> set ?xs"
    then show "0 \<le> x \<and> x < p" using r by auto
  qed (use len two in auto)
  finally show ?thesis using reconstruct_sum [OF two d] by simp
qed

section \<open>Round trip\<close>

lemma split_shares:
  assumes "split p secret n t rc = Inr shares" and p: "1 < p"
  shows "0 \<le> secret \<and> secret < p \<and> 2 \<le> t \<and> t \<le> n \<and>
         shares = map (\<lambda>x. (x, poly (coefficients secret t rc) x mod p)) [1..n]"
  using assms(1) by (auto simp: split_def share_value [OF p] split: if_splits)

lemma poly_coefficients_0: "poly (coefficients secret t rc) 0 = secret"
  by (simp add: coefficients_def poly_Cons)

lemma length_coefficients: "2 \<le> t \<Longrightarrow> length (coefficients secret t rc) = nat t"
  by (simp add: coefficients_def)

text \<open>
  C18. Secret sharing round-trips: for a prime modulus larger than the number of shares, whatever the
  random coefficients, any selection of at least \<open>threshold\<close> distinct shares, in any order,
  reconstructs exactly the secret that was split.
\<close>

theorem shamir_roundtrip:
  assumes "is_prime p" and "n < p" and "split p secret n t rc = Inr shares"
    and "distinct sel" and "set sel \<subseteq> set shares" and "t \<le> int (length sel)"
  shows "reconstruct p sel = Inr secret"
proof -
  have p1: "1 < p" using assms(1) by (simp add: is_prime_def)
  from split_shares [OF assms(3) p1] have s: "0 \<le> secret" "secret < p" "2 \<le> t"
    and sh: "shares = map (\<lambda>x. (x, poly (coefficients secret t rc) x mod p)) [1..n]" by auto
  have pts: "1 \<le> x \<and> x \<le> n \<and> y = poly (coefficients secret t rc) x mod p" if "(x, y) \<in> set sel" for x y
    using that assms(5) by (auto simp: sh)
  have "inj_on fst (set sel)" using pts by (intro inj_onI) (metis prod.collapse)
  then have d: "distinct (map fst sel)" using assms(4) by (simp add: distinct_map)
  have "reconstruct p sel = Inr (poly (coefficients secret t rc) 0 mod p)"
  proof (rule reconstruct_on_poly [OF assms(1) d])
    show "2 \<le> length sel" using s(3) assms(6) by linarith
    show "length (coefficients secret t rc) \<le> length sel" using assms(6) s(3) by (simp add: length_coefficients)
    fix x y assume "(x, y) \<in> set sel"
    with pts assms(2) show "0 \<le> x \<and> x < p \<and> y mod p = poly (coefficients secret t rc) x mod p"
      by fastforce
  qed
  then show ?thesis using s by (simp add: poly_coefficients_0)
qed

end
