(* ===== verification/SecureMean.thy ===== *)
theory SecureMean
  imports Shamir
begin

text \<open>
  What fewer than \<open>threshold\<close> shares reveal (nothing), and the secure mean of \<open>federated/secure.py\<close>:
  shares of the clients' quantised values are added holder by holder, and the reconstructed sum is
  the sum of the values.
\<close>

section \<open>Polynomials as coefficient lists\<close>

fun padd :: "int list \<Rightarrow> int list \<Rightarrow> int list" where
  "padd [] ys = ys"
| "padd xs [] = xs"
| "padd (x # xs) (y # ys) = (x + y) # padd xs ys"

lemma poly_padd [simp]: "poly (padd xs ys) z = poly xs z + poly ys z"
  by (induction xs ys rule: padd.induct) (simp_all add: poly_Cons algebra_simps)

lemma length_padd [simp]: "length (padd xs ys) = max (length xs) (length ys)"
  by (induction xs ys rule: padd.induct) simp_all

lemma poly_scale_list [simp]: "poly (map ((*) c) xs) z = c * poly xs z"
  by (induction xs) (simp_all add: poly_Cons algebra_simps)

fun vanish :: "int list \<Rightarrow> int list" where
  "vanish [] = [1]"
| "vanish (a # as) = padd (0 # vanish as) (map ((*) (- a)) (vanish as))"

lemma poly_vanish: "poly (vanish as) z = prod_list (map (\<lambda>a. z - a) as)"
  by (induction as) (simp_all add: poly_Cons algebra_simps)

lemma length_vanish: "length (vanish as) = Suc (length as)"
  by (induction as) simp_all

lemma prime_dvd_prod_list: "is_prime p \<Longrightarrow> p dvd prod_list xs \<longleftrightarrow> (\<exists>x \<in> set xs. p dvd x)"
  by (induction xs) (auto simp: prime_dvd_mult is_prime_def)

text \<open>A polynomial through given points, modulo a prime.\<close>

lemma interpolation_exists:
  assumes p: "is_prime p"
  shows "distinct (map fst pts) \<Longrightarrow> \<forall>x \<in> fst ` set pts. 0 \<le> x \<and> x < p \<Longrightarrow>
    \<exists>cs. length cs = length pts \<and> (\<forall>(x, y) \<in> set pts. poly cs x mod p = y mod p)"
proof (induction pts)
  case Nil
  then show ?case by simp
next
  case (Cons pt pts)
  obtain x y where pt: "pt = (x, y)" by force
  from Cons obtain cs where cs: "length cs = length pts" "\<forall>(x, y) \<in> set pts. poly cs x mod p = y mod p"
    by auto
  let ?v = "vanish (map fst pts)"
  have "\<not> p dvd x - a" if a: "a \<in> set (map fst pts)" for a
  proof
    assume "p dvd x - a"
    then have "x mod p = a mod p" by (simp add: mod_eq_dvd_iff)
    moreover have "0 \<le> x" "x < p" "0 \<le> a" "a < p" using Cons.prems(2) a by (auto simp: pt)
    ultimately have "x = a" by simp
    with a Cons.prems(1) show False by (simp add: pt)
  qed
  then have nv: "\<not> p dvd poly ?v x" by (auto simp: poly_vanish prime_dvd_prod_list [OF p])
  let ?c = "(y - poly cs x) * mod_inverse (poly ?v x) p"
  let ?new = "padd cs (map ((*) ?c) ?v)"
  have len: "length ?new = length (pt # pts)" by (simp add: cs(1) length_vanish)
  have old: "poly ?new a mod p = b mod p" if ab: "(a, b) \<in> set pts" for a b
  proof -
    have "(0 :: int) \<in> set (map (\<lambda>i. a - i) (map fst pts))" using ab by force
    then have "prod_list (map (\<lambda>i. a - i) (map fst pts)) = 0" by (simp add: prod_list_zero_iff)
    then have "poly ?v a = 0" by (simp only: poly_vanish)
    with cs(2) ab show ?thesis by fastforce
  qed
  have "poly ?new x = poly cs x + (y - poly cs x) * (poly ?v x * mod_inverse (poly ?v x) p)"
    by (simp add: mult_ac)
  also have "\<dots> mod p = (poly cs x + (y - poly cs x) * (poly ?v x * mod_inverse (poly ?v x) p mod p)) mod p"
    by (intro mod_add_cong) (simp_all add: mod_mult_right_eq)
  also have "\<dots> = y mod p" using mod_inverse_works [OF p nv] by simp
  finally have "poly ?new x mod p = y mod p" .
  with old len show ?case by (intro exI [of _ ?new]) (auto simp: pt)
qed

lemma poly_mod_coeffs: "poly (map (\<lambda>c. c mod p) cs) x mod p = poly cs x mod p"
proof (induction cs)
  case Nil
  then show ?case by simp
next
  case (Cons c cs)
  have "(c mod p + x * poly (map (\<lambda>c. c mod p) cs) x) mod p = (c + x * poly cs x) mod p"
    by (intro mod_add_cong mod_mult_cong) (simp_all add: Cons.IH)
  then show ?case by (simp add: poly_Cons)
qed

lemma poly_replicate_0 [simp]: "poly (cs @ replicate n 0) x = poly cs x"
proof -
  have "poly (replicate n 0) x = 0" by (induction n) (simp_all add: poly_Cons)
  then show ?thesis by (induction cs) (simp_all add: poly_Cons)
qed

text \<open>
  C19. Fewer than \<open>threshold\<close> shares reveal nothing: for any coalition of fewer holders and any other
  secret there are random coefficients with which that secret gives the coalition exactly the same
  shares.
\<close>

theorem shamir_secrecy:
  assumes p: "is_prime p" and n: "n < p" and sp: "split p secret n t rc = Inr shares"
    and d: "distinct coalition" and sub: "set coalition \<subseteq> set shares" and few: "int (length coalition) < t"
    and other: "0 \<le> secret'" "secret' < p"
  shows "\<exists>rc' shares'. split p secret' n t rc' = Inr shares' \<and> set coalition \<subseteq> set shares' \<and>
           (\<forall>i. 0 \<le> rc' i \<and> rc' i < p)"
proof -
  have p1: "1 < p" using p by (simp add: is_prime_def)
  from split_shares [OF sp p1] have s: "2 \<le> t" "t \<le> n"
    and sh: "shares = map (\<lambda>x. (x, poly (coefficients secret t rc) x mod p)) [1..n]" by auto
  have pts: "1 \<le> x \<and> x \<le> n \<and> y = poly (coefficients secret t rc) x mod p" if "(x, y) \<in> set coalition" for x y
    using that sub by (auto simp: sh)
  have "inj_on fst (set coalition)" using pts by (intro inj_onI) (metis prod.collapse)
  then have dx: "distinct (map fst coalition)" using d by (simp add: distinct_map)
  let ?pts = "(0, secret') # coalition"
  have dp: "distinct (map fst ?pts)" using dx pts by force
  have rp: "\<forall>x \<in> fst ` set ?pts. 0 \<le> x \<and> x < p" using pts n p1 by force
  from interpolation_exists [OF p dp rp] obtain cs where
    cs: "length cs = Suc (length coalition)" "\<forall>(x, y) \<in> set ?pts. poly cs x mod p = y mod p" by auto
  define ds where "ds = map (\<lambda>c. c mod p) (cs @ replicate (nat t - length cs) 0)"
  have len: "length ds = nat t" using cs(1) few s(1) by (simp add: ds_def)
  have ev: "poly ds x mod p = poly cs x mod p" for x unfolding ds_def poly_mod_coeffs by simp
  have rng: "0 \<le> c \<and> c < p" if "c \<in> set ds" for c using that p1 by (auto simp: ds_def)
  have nt: "nat t = Suc (nat (t - 1))" using s(1) by linarith
  then obtain d0 ds' where ds: "ds = d0 # ds'" "length ds' = nat (t - 1)" using len by (cases ds) auto
  have "d0 mod p = secret' mod p" using ev [of 0] cs(2) by (simp add: ds(1) poly_Cons)
  then have d0: "d0 = secret'" using rng [of d0] other by (simp add: ds(1))
  define rc' where "rc' = (\<lambda>i. if i < length ds' then ds' ! i else 0)"
  have "map rc' [0..<nat (t - 1)] = ds'" using ds(2) by (intro nth_equalityI) (simp_all add: rc'_def)
  then have co: "coefficients secret' t rc' = ds" by (simp add: coefficients_def ds(1) d0)
  let ?shares = "map (\<lambda>x. (x, poly ds x mod p)) [1..n]"
  have "split p secret' n t rc' = Inr ?shares"
    using other s by (simp add: split_def share_value [OF p1] co)
  moreover have "set coalition \<subseteq> set ?shares"
  proof
    fix pt assume pt: "pt \<in> set coalition"
    obtain x y where xy: "pt = (x, y)" by force
    have "poly ds x mod p = y mod p" using ev [of x] cs(2) pt xy by fastforce
    moreover have "y mod p = y" using pts [of x y] pt xy by simp
    ultimately show "pt \<in> set ?shares" using pts [of x y] pt xy by auto
  qed
  moreover have "\<forall>i. 0 \<le> rc' i \<and> rc' i < p" using rng p1 by (auto simp: rc'_def ds(1))
  ultimately show ?thesis by blast
qed

section \<open>Quantisation\<close>

text \<open>The functions below take the modulus as an argument; the code uses \<open>PRIME\<close>.\<close>

definition quantise :: "platform \<Rightarrow> int \<Rightarrow> pyfloat \<Rightarrow> int res" where
  "quantise pl p x = bindE (py_round (fmul pl x (Fin 1000000))) (\<lambda>n. Inr (n mod p))"

definition dequantise :: "platform \<Rightarrow> int \<Rightarrow> int \<Rightarrow> int \<Rightarrow> pyfloat res" where
  "dequantise pl p q n_clients =
     (let q' = (if q > p div 2 then q - p else q)
      in bindE (int_to_float pl q') (\<lambda>a. bindE (int_to_float pl (QUANT_SCALE * n_clients)) (\<lambda>b. fdiv pl a b)))"

section \<open>The secure mean\<close>

definition add_shares :: "int \<Rightarrow> (int \<times> int) list \<Rightarrow> (int \<times> int) list \<Rightarrow> (int \<times> int) list" where
  "add_shares p old shares = map2 (\<lambda>(sx, sy) (x, y). (sx, (sy + y) mod p)) old shares"

text \<open>One client: every element is quantised, split and added to its holders' sums.\<close>

definition client_step ::
  "platform \<Rightarrow> int \<Rightarrow> int \<Rightarrow> int \<Rightarrow> (nat \<Rightarrow> nat \<Rightarrow> int) \<Rightarrow> pyfloat list \<Rightarrow> (int \<times> int) list list \<Rightarrow>
   (int \<times> int) list list res" where
  "client_step pl p n t rc vec summed =
     mapE (\<lambda>e. bindE (quantise pl p (vec ! e)) (\<lambda>q.
               bindE (split p q n t (rc e)) (\<lambda>shares. Inr (add_shares p (summed ! e) shares))))
       [0..<length vec]"

fun clients_loop ::
  "platform \<Rightarrow> int \<Rightarrow> int \<Rightarrow> int \<Rightarrow> (nat \<Rightarrow> nat \<Rightarrow> nat \<Rightarrow> int) \<Rightarrow> nat \<Rightarrow> pyfloat list list \<Rightarrow>
   (int \<times> int) list list \<Rightarrow> (int \<times> int) list list res" where
  "clients_loop pl p n t rc i [] summed = Inr summed"
| "clients_loop pl p n t rc i (v # vs) summed =
     bindE (client_step pl p n t (rc i) v summed) (clients_loop pl p n t rc (i + 1) vs)"

definition secure_mean ::
  "platform \<Rightarrow> int \<Rightarrow> pyfloat list list \<Rightarrow> int \<Rightarrow> int \<Rightarrow> (nat \<Rightarrow> nat \<Rightarrow> nat \<Rightarrow> int) \<Rightarrow> pyfloat list res" where
  "secure_mean pl p vectors n t rc =
     (case vectors of
        [] \<Rightarrow> Inr []
      | v0 # _ \<Rightarrow>
          (if \<not> list_all (\<lambda>v. length v = length v0) vectors then Inl ValueError
           else bindE (clients_loop pl p n t rc 0 vectors
                         (replicate (length v0) (map (\<lambda>x. (x, 0)) [1..n]))) (\<lambda>summed.
                mapE (\<lambda>e. bindE (reconstruct p (take (nat t) (summed ! e)))
                             (\<lambda>secret. dequantise pl p secret (int (length vectors))))
                  [0..<length v0])))"

section \<open>Correctness of the secure mean\<close>

text \<open>The holders' sums for one element are shares of \<open>s\<close>.\<close>

definition sharing :: "int \<Rightarrow> int \<Rightarrow> int \<Rightarrow> int \<Rightarrow> (int \<times> int) list \<Rightarrow> bool" where
  "sharing p n t s hs \<longleftrightarrow>
     (\<exists>cs. length cs \<le> nat t \<and> poly cs 0 = s \<and> hs = map (\<lambda>x. (x, poly cs x mod p)) [1..n])"

lemma sharing_zero: "sharing p n t 0 (map (\<lambda>x. (x, 0)) [1..n])"
  unfolding sharing_def by (rule exI [of _ "[]"]) simp

lemma sharing_add:
  assumes "1 < p" "2 \<le> t" "sharing p n t s hs"
  shows "sharing p n t (s + q)
           (add_shares p hs (map (\<lambda>x. (x, share_loop p x 0 1 (coefficients q t rc))) [1..n]))"
proof -
  obtain cs where cs: "length cs \<le> nat t" "poly cs 0 = s" "hs = map (\<lambda>x. (x, poly cs x mod p)) [1..n]"
    using assms(3) by (auto simp: sharing_def)
  let ?cs = "padd cs (coefficients q t rc)"
  have "map2 (\<lambda>(sx, sy) (x, y). (sx, (sy + y) mod p)) (map f xs) (map g xs) =
      map (\<lambda>x. (fst (f x), (snd (f x) + snd (g x)) mod p)) xs" for f g :: "int \<Rightarrow> int \<times> int" and xs
    by (induction xs) (simp_all add: case_prod_beta)
  then have "add_shares p hs (map (\<lambda>x. (x, share_loop p x 0 1 (coefficients q t rc))) [1..n]) =
      map (\<lambda>x. (x, poly ?cs x mod p)) [1..n]"
    by (simp add: add_shares_def cs(3) share_value [OF assms(1)] mod_add_eq)
  then show ?thesis
    unfolding sharing_def using cs(1,2) assms(2)
    by (intro exI [of _ ?cs]) (simp add: length_coefficients poly_coefficients_0)
qed

definition sums_ok :: "int \<Rightarrow> int \<Rightarrow> int \<Rightarrow> nat \<Rightarrow> (nat \<Rightarrow> int) \<Rightarrow> (int \<times> int) list list \<Rightarrow> bool" where
  "sums_ok p n t len ss summed \<longleftrightarrow> length summed = len \<and> (\<forall>e < len. sharing p n t (ss e) (summed ! e))"

definition quant :: "real \<Rightarrow> int" where
  "quant r = round_half_even (r * 1000000)"

lemma client_step_ok:
  assumes "exact pl" "1 < p" "2 \<le> t" "t \<le> n" "sums_ok p n t len ss summed" "length v = len"
  shows "\<exists>summed'. client_step pl p n t rc (map Fin v) summed = Inr summed' \<and>
           sums_ok p n t len (\<lambda>e. ss e + quant (v ! e) mod p) summed'"
proof -
  let ?g = "\<lambda>e. add_shares p (summed ! e)
      (map (\<lambda>x. (x, share_loop p x 0 1 (coefficients (quant (v ! e) mod p) t (rc e)))) [1..n])"
  have "client_step pl p n t rc (map Fin v) summed = Inr (map ?g [0..<length (map Fin v)])"
    unfolding client_step_def
    by (rule mapE_pure) (use assms(1-4) in \<open>simp add: quantise_def quant_def split_def\<close>)
  moreover have "sums_ok p n t len (\<lambda>e. ss e + quant (v ! e) mod p) (map ?g [0..<length (map Fin v)])"
    using assms sharing_add [OF assms(2,3)] by (simp add: sums_ok_def)
  ultimately show ?thesis by blast
qed

lemma clients_loop_ok:
  assumes "exact pl" "1 < p" "2 \<le> t" "t \<le> n"
  shows "sums_ok p n t len ss summed \<Longrightarrow> \<forall>v \<in> set vs. length v = len \<Longrightarrow>
    \<exists>summed'. clients_loop pl p n t rc i (map (map Fin) vs) summed = Inr summed' \<and>
      sums_ok p n t len (\<lambda>e. ss e + (\<Sum>v\<leftarrow>vs. quant (v ! e) mod p)) summed'"
proof (induction vs arbitrary: ss summed i)
  case Nil
  then show ?case by simp
next
  case (Cons v vs)
  then obtain s1 where s1: "client_step pl p n t (rc i) (map Fin v) summed = Inr s1"
    "sums_ok p n t len (\<lambda>e. ss e + quant (v ! e) mod p) s1"
    using client_step_ok [OF assms Cons.prems(1), of v "rc i"] by auto
  from Cons.IH [OF s1(2), of "i + 1"] Cons.prems(2) obtain s2 where
    "clients_loop pl p n t rc (i + 1) (map (map Fin) vs) s1 = Inr s2"
    "sums_ok p n t len (\<lambda>e. ss e + quant (v ! e) mod p + (\<Sum>v\<leftarrow>vs. quant (v ! e) mod p)) s2" by auto
  with s1(1) show ?case by (simp add: add.assoc)
qed

lemma sum_list_mod: "(\<Sum>v\<leftarrow>vs. f v mod p) mod p = (\<Sum>v\<leftarrow>vs. f v) mod p" for p :: int
proof (induction vs)
  case (Cons v vs)
  have "(f v mod p + (\<Sum>v\<leftarrow>vs. f v mod p)) mod p = (f v + (\<Sum>v\<leftarrow>vs. f v)) mod p"
    by (intro mod_add_cong) (simp_all add: Cons.IH)
  then show ?case by simp
qed simp

lemma dequantise_sum:
  assumes "exact pl" "1 < p" "\<bar>s\<bar> \<le> (p - 1) div 2" "0 < n"
  shows "dequantise pl p (s mod p) n = Inr (Fin (of_int s / (1000000 * of_int n)))"
proof -
  have "(if s mod p > p div 2 then s mod p - p else s mod p) = s"
  proof (cases "0 \<le> s")
    case True
    with assms(2,3) have "s < p" "s \<le> p div 2" by linarith+
    with True show ?thesis by simp
  next
    case False
    with assms(2,3) have "0 \<le> s + p" "s + p < p" "p div 2 < s + p" by linarith+
    moreover from this have "s mod p = s + p" by (metis mod_add_self2 mod_pos_pos_trivial)
    ultimately show ?thesis by simp
  qed
  then show ?thesis using assms(1,4) by (simp add: dequantise_def int_to_float_def QUANT_SCALE_def)
qed

lemma sum_close:
  "\<bar>of_int (\<Sum>v\<leftarrow>vs. quant (v ! e)) - (\<Sum>v\<leftarrow>vs. v ! e) * 1000000\<bar> \<le> real (length vs) / 2"
proof (induction vs)
  case (Cons v vs)
  let ?a = "of_int (quant (v ! e)) - v ! e * 1000000"
  let ?b = "of_int (\<Sum>v\<leftarrow>vs. quant (v ! e)) - (\<Sum>v\<leftarrow>vs. v ! e) * 1000000"
  have "\<bar>?a\<bar> \<le> 1 / 2" unfolding quant_def by (rule round_half_even_close)
  then have "\<bar>?a + ?b\<bar> \<le> 1 / 2 + real (length vs) / 2"
    using abs_triangle_ineq [of ?a ?b] Cons.IH by linarith
  moreover have "of_int (\<Sum>v\<leftarrow>v # vs. quant (v ! e)) - (\<Sum>v\<leftarrow>v # vs. v ! e) * 1000000 = ?a + ?b"
    by (simp add: algebra_simps)
  ultimately show ?case by (simp only: list.size) (simp add: add_divide_distrib)
qed simp


section \<open>Witnesses\<close>

lemma prime_7: "is_prime 7"
proof -
  have "d = 1 \<or> d = 7" if "0 < d" "d dvd 7" for d :: int
  proof -
    have "d \<le> 7" using that zdvd_imp_le [of d 7] by simp
    then have "d \<in> {1, 2, 3, 4, 5, 6, 7}" using that(1) by auto
    with that(2) show ?thesis by auto
  qed
  then show ?thesis by (simp add: is_prime_def)
qed

lemma demo_split: "split 7 5 3 2 (\<lambda>i. 4) = Inr [(1, 2), (2, 6), (3, 3)]"
  by (simp add: split_def coefficients_def upto.simps)

theorem shamir_roundtrip_witness: "reconstruct 7 [(3, 3), (1, 2)] = Inr 5"
  by (rule shamir_roundtrip [OF prime_7 _ demo_split]) simp_all

theorem shamir_secrecy_witness:
  "\<exists>rc' shares'. split 7 0 3 2 rc' = Inr shares' \<and> (2, 6) \<in> set shares'"
  using shamir_secrecy [OF prime_7 _ demo_split, of "[(2, 6)]" 0] by auto


end
