(* ===== verification/VerifiableSecAgg.thy ===== *)
theory VerifiableSecAgg
  imports SecureMean
begin

text \<open>
  The two-server verifiable aggregation of \<open>federated/verifiable_secagg.py\<close>: additive shares modulo
  the subgroup order, commitments \<open>g ^ x mod p\<close>, aggregation and the check of the published sum
  against the product of the commitments. The group is a record; the code's is \<open>rfc_group\<close>. The
  random masks are a parameter. NumPy object arrays are lists; \<open>zip\<close> stops at the shorter one.
\<close>

record group =
  gp :: int
  gq :: int
  gg :: int

definition RFC_P :: int where
  "RFC_P = 0xFFFFFFFFFFFFFFFFC90FDAA22168C234C4C6628B80DC1CD129024E088A67CC74020BBEA63B139B22514A08798E3404DDEF9519B3CD3A431B302B0A6DF25F14374FE1356D6D51C245E485B576625E7EC6F44C42E9A637ED6B0BFF5CB6F406B7EDEE386BFB5A899FA5AE9F24117C4B1FE649286651ECE45B3DC2007CB8A163BF0598DA48361C55D39A69163FA8FD24CF5F83655D23DCA3AD961C62F356208552BB9ED529077096966D670C354E4ABC9804F1746C08CA18217C32905E462E36CE3BE39E772C180E86039B2783A2EC07A28FB5C55DF06F4C52C9DE2BCBF6955817183995497CEA956AE515D2261898FA051015728E5A8AACAA68FFFFFFFFFFFFFFFF"

definition rfc_group :: group where
  "rfc_group = \<lparr>gp = RFC_P, gq = (RFC_P - 1) div 2, gg = 2\<rparr>"

section \<open>Encoding\<close>

definition encode :: "platform \<Rightarrow> int \<Rightarrow> pyfloat \<Rightarrow> int res" where
  "encode pl q x = bindE (py_round (fmul pl x (Fin 65536))) (\<lambda>n. Inr (n mod q))"

text \<open>Python's \<open>a / b\<close> on ints rounds the exact quotient once.\<close>

definition int_truediv :: "platform \<Rightarrow> int \<Rightarrow> int \<Rightarrow> pyfloat res" where
  "int_truediv pl a b =
     (if b = 0 then Inl ZeroDivisionError
      else if isfinite (rnd pl (of_int a / of_int b)) then Inr (rnd pl (of_int a / of_int b))
      else Inl OverflowError)"

definition decode :: "platform \<Rightarrow> int \<Rightarrow> int \<Rightarrow> pyfloat res" where
  "decode pl q e =
     (let e1 = e mod q; e2 = (if e1 > q div 2 then e1 - q else e1)
      in int_truediv pl e2 65536)"

definition commit :: "group \<Rightarrow> int \<Rightarrow> int" where
  "commit G e = pow_mod (gg G) (nat e) (gp G)"

definition commit_vector :: "platform \<Rightarrow> group \<Rightarrow> pyfloat list \<Rightarrow> int list res" where
  "commit_vector pl G values = mapE (\<lambda>v. bindE (encode pl (gq G) v) (\<lambda>e. Inr (commit G e))) values"

record local_dp =
  ldp_epsilon :: pyfloat
  ldp_delta :: pyfloat
  ldp_noise_multiplier :: pyfloat
  ldp_clip_norm :: pyfloat

record contribution =
  share_a :: "int list"
  share_b :: "int list"
  commitments :: "int list"
  contrib_local_dp :: "local_dp option"

definition split_contribution ::
  "platform \<Rightarrow> group \<Rightarrow> pyfloat list \<Rightarrow> (nat \<Rightarrow> int) \<Rightarrow> contribution res" where
  "split_contribution pl G values masks =
     bindE (mapE (encode pl (gq G)) values) (\<lambda>enc.
       let a = map masks [0..<length values];
           b = map2 (\<lambda>e ai. (e - ai) mod gq G) enc a
       in Inr \<lparr>share_a = a, share_b = b, commitments = map (commit G) enc, contrib_local_dp = None\<rparr>)"

definition reconstruct_contribution :: "platform \<Rightarrow> group \<Rightarrow> contribution \<Rightarrow> pyfloat list res" where
  "reconstruct_contribution pl G c =
     (if length (share_a c) \<noteq> length (share_b c) then Inl ValueError
      else mapE (decode pl (gq G)) (map2 (\<lambda>a b. (a + b) mod gq G) (share_a c) (share_b c)))"

section \<open>Aggregation\<close>

definition add_mod :: "int \<Rightarrow> int list \<Rightarrow> int list \<Rightarrow> int list" where
  "add_mod q xs ys = map2 (\<lambda>x y. (x + y) mod q) xs ys"

fun server_sum :: "int \<Rightarrow> int list list \<Rightarrow> int list res" where
  "server_sum q [] = Inl ValueError"
| "server_sum q (s # ss) = Inr (foldl (add_mod q) s ss)"

definition nth_res :: "'a list \<Rightarrow> nat \<Rightarrow> 'a res" where
  "nth_res xs j = (if j < length xs then Inr (xs ! j) else Inl IndexError)"

fun commit_product :: "int \<Rightarrow> nat \<Rightarrow> int \<Rightarrow> int list list \<Rightarrow> int res" where
  "commit_product p j acc [] = Inr acc"
| "commit_product p j acc (c # cs) =
     bindE (nth_res c j) (\<lambda>x. commit_product p j (acc * x mod p) cs)"

fun verify_loop :: "group \<Rightarrow> int list list \<Rightarrow> nat \<Rightarrow> int list \<Rightarrow> bool res" where
  "verify_loop G comms j [] = Inr True"
| "verify_loop G comms j (s # ss) =
     bindE (commit_product (gp G) j 1 comms) (\<lambda>prod.
       if pow_mod (gg G) (nat s) (gp G) \<noteq> prod then Inr False
       else verify_loop G comms (j + 1) ss)"

record aggregation_result =
  sum_vector :: "pyfloat list"
  mean_vector :: "pyfloat list"
  verified :: bool
  n_clients :: int

definition aggregate :: "platform \<Rightarrow> group \<Rightarrow> contribution list \<Rightarrow> aggregation_result res" where
  "aggregate pl G contributions =
     (if contributions = [] then Inl ValueError
      else bindE (server_sum (gq G) (map share_a contributions)) (\<lambda>sum_a.
           bindE (server_sum (gq G) (map share_b contributions)) (\<lambda>sum_b.
           let field_sum = add_mod (gq G) sum_a sum_b in
           bindE (verify_loop G (map commitments contributions) 0 field_sum) (\<lambda>ok.
           bindE (mapE (decode pl (gq G)) field_sum) (\<lambda>decoded.
           bindE (int_to_float pl (int (length contributions))) (\<lambda>n.
           bindE (mapE (\<lambda>x. fdiv pl x n) decoded) (\<lambda>mean.
           Inr \<lparr>sum_vector = decoded, mean_vector = mean, verified = ok,
                n_clients = int (length contributions)\<rparr>)))))))"

text \<open>The standalone check reduces the published sum first.\<close>

definition verify_against_commitments :: "group \<Rightarrow> int list \<Rightarrow> int list list \<Rightarrow> bool res" where
  "verify_against_commitments G field_sum comms = verify_loop G comms 0 (map (\<lambda>s. s mod gq G) field_sum)"

section \<open>The group\<close>

text \<open>\<open>g\<close> generates a subgroup of order exactly \<open>q\<close> modulo \<open>p\<close> (RFC 3526, group 14).\<close>

definition order_group :: "group \<Rightarrow> bool" where
  "order_group G \<longleftrightarrow> 1 < gp G \<and> 1 < gq G \<and>
     (\<forall>n. gg G ^ n mod gp G = 1 \<longleftrightarrow> gq G dvd int n)"

lemma commit_eq: "commit G e = gg G ^ nat e mod gp G"
  by (simp add: commit_def pow_mod_eq)

lemma order_one: "order_group G \<Longrightarrow> gg G ^ (nat (gq G) * k) mod gp G = 1"
  by (auto simp: order_group_def)

lemma pow_eq_aux:
  assumes G: "order_group G" and le: "a \<le> b"
  shows "gg G ^ a mod gp G = gg G ^ b mod gp G \<longleftrightarrow> int a mod gq G = int b mod gq G"
proof -
  let ?g = "gg G" and ?p = "gp G" and ?q = "nat (gq G)"
  have q: "1 < ?q" and p: "1 < ?p" using G by (auto simp: order_group_def)
  have inv: "?g ^ a * ?g ^ (a * (?q - 1)) mod ?p = 1"
  proof -
    have "a + a * (?q - 1) = ?q * a" using q by (cases "?q") simp_all
    then show ?thesis using order_one [OF G, of a] by (simp add: power_add [symmetric])
  qed
  have "?g ^ a mod ?p = ?g ^ b mod ?p \<longleftrightarrow> ?g ^ (b - a) mod ?p = 1"
  proof
    assume e: "?g ^ a mod ?p = ?g ^ b mod ?p"
    have "?g ^ b = ?g ^ a * ?g ^ (b - a)" using le by (simp add: power_add [symmetric])
    then have ac: "?g ^ a * ?g ^ (b - a) mod ?p = ?g ^ a mod ?p" using e by simp
    have "?g ^ (b - a) mod ?p = (?g ^ a * ?g ^ (a * (?q - 1)) mod ?p) * ?g ^ (b - a) mod ?p"
      using inv by simp
    also have "\<dots> = ?g ^ a * ?g ^ (a * (?q - 1)) * ?g ^ (b - a) mod ?p" by (rule mod_mult_left_eq)
    also have "?g ^ a * ?g ^ (a * (?q - 1)) * ?g ^ (b - a) = ?g ^ (a * (?q - 1)) * (?g ^ a * ?g ^ (b - a))"
      by (simp only: mult_ac)
    also have "\<dots> mod ?p = ?g ^ (a * (?q - 1)) * ?g ^ a mod ?p"
      by (rule mod_mult_cong [OF refl ac])
    finally show "?g ^ (b - a) mod ?p = 1" using inv by (simp add: mult.commute)
  next
    assume e: "?g ^ (b - a) mod ?p = 1"
    have "?g ^ b mod ?p = ?g ^ a * (?g ^ (b - a) mod ?p) mod ?p"
      using le by (simp add: power_add [symmetric] mod_mult_right_eq)
    with e show "?g ^ a mod ?p = ?g ^ b mod ?p" by simp
  qed
  also have "\<dots> \<longleftrightarrow> gq G dvd int (b - a)" using G by (simp add: order_group_def)
  also have "\<dots> \<longleftrightarrow> int b mod gq G = int a mod gq G" using le by (simp add: mod_eq_dvd_iff of_nat_diff)
  finally show ?thesis by auto
qed

lemma pow_eq_iff:
  "order_group G \<Longrightarrow> gg G ^ a mod gp G = gg G ^ b mod gp G \<longleftrightarrow> int a mod gq G = int b mod gq G"
  using pow_eq_aux [of G a b] pow_eq_aux [of G b a] by (cases "a \<le> b") auto

section \<open>What the check establishes\<close>

text \<open>Honest commitments: client \<open>i\<close> has published \<open>commit\<close> of its encoded vector \<open>E ! i\<close>.\<close>

definition committed :: "group \<Rightarrow> int list list \<Rightarrow> int list list \<Rightarrow> bool" where
  "committed G E comms \<longleftrightarrow> comms = map (map (commit G)) E \<and> (\<forall>e \<in> set E. \<forall>x \<in> set e. 0 \<le> x)"

lemma commit_product_ok:
  assumes "\<forall>e \<in> set E. j < length e \<and> (\<forall>x \<in> set e. 0 \<le> x)"
  shows "commit_product (gp G) j (gg G ^ n mod gp G) (map (map (commit G)) E) =
         Inr (gg G ^ (n + (\<Sum>e\<leftarrow>E. nat (e ! j))) mod gp G)"
  using assms
proof (induction E arbitrary: n)
  case Nil
  then show ?case by simp
next
  case (Cons e E)
  have "gg G ^ n mod gp G * commit G (e ! j) mod gp G = gg G ^ (n + nat (e ! j)) mod gp G"
    by (simp add: commit_eq power_add mod_mult_eq)
  then show ?case using Cons by (simp add: nth_res_def add.assoc)
qed

lemma commit_product_1:
  assumes "order_group G" "\<forall>e \<in> set E. j < length e \<and> (\<forall>x \<in> set e. 0 \<le> x)"
  shows "commit_product (gp G) j 1 (map (map (commit G)) E) =
         Inr (gg G ^ (\<Sum>e\<leftarrow>E. nat (e ! j)) mod gp G)"
  using commit_product_ok [OF assms(2), of G 0] assms(1) by (simp add: order_group_def)

lemma sum_nat_nth:
  "\<forall>e \<in> set E. j < length e \<and> (\<forall>x \<in> set e. 0 \<le> x) \<Longrightarrow>
   int (\<Sum>e\<leftarrow>E. nat (e ! j)) = (\<Sum>e\<leftarrow>E. e ! j)"
  by (induction E) (auto simp: nth_mem)

lemma verify_loop_iff:
  assumes G: "order_group G" and s: "\<forall>x \<in> set ss. 0 \<le> x"
    and E: "\<forall>e \<in> set E. j + length ss \<le> length e \<and> (\<forall>x \<in> set e. 0 \<le> x)"
  shows "verify_loop G (map (map (commit G)) E) j ss =
    Inr (\<forall>k < length ss. ss ! k mod gq G = (\<Sum>e\<leftarrow>E. e ! (j + k)) mod gq G)"
  using s E
proof (induction ss arbitrary: j)
  case Nil
  then show ?case by simp
next
  case (Cons s ss)
  have Ej: "\<forall>e \<in> set E. j < length e \<and> (\<forall>x \<in> set e. 0 \<le> x)" using Cons.prems(2) by force
  have "pow_mod (gg G) (nat s) (gp G) = gg G ^ (\<Sum>e\<leftarrow>E. nat (e ! j)) mod gp G \<longleftrightarrow>
      s mod gq G = (\<Sum>e\<leftarrow>E. e ! j) mod gq G"
    using pow_eq_iff [OF G] Cons.prems(1) sum_nat_nth [OF Ej] by (simp add: pow_mod_eq)
  moreover have "verify_loop G (map (map (commit G)) E) (j + 1) ss =
      Inr (\<forall>k < length ss. ss ! k mod gq G = (\<Sum>e\<leftarrow>E. e ! (j + 1 + k)) mod gq G)"
    using Cons by (intro Cons.IH) auto
  moreover have "(\<forall>k < length (s # ss). (s # ss) ! k mod gq G = (\<Sum>e\<leftarrow>E. e ! (j + k)) mod gq G) \<longleftrightarrow>
      s mod gq G = (\<Sum>e\<leftarrow>E. e ! j) mod gq G \<and>
      (\<forall>k < length ss. ss ! k mod gq G = (\<Sum>e\<leftarrow>E. e ! (j + 1 + k)) mod gq G)"
    by (auto simp: less_Suc_eq_0_disj nth_Cons')
  ultimately show ?case by (simp add: commit_product_1 [OF G Ej])
qed

section \<open>Properties\<close>

text \<open>The encodings of a client, and a contribution whose shares add up to them.\<close>

definition honest :: "group \<Rightarrow> int list \<Rightarrow> contribution \<Rightarrow> bool" where
  "honest G enc c \<longleftrightarrow>
     length (share_a c) = length enc \<and> length (share_b c) = length enc \<and>
     (\<forall>j < length enc. (share_a c ! j + share_b c ! j) mod gq G = enc ! j) \<and>
     commitments c = map (commit G) enc \<and> (\<forall>x \<in> set enc. 0 \<le> x \<and> x < gq G)"

lemma encode_range: "1 < q \<Longrightarrow> encode pl q v = Inr e \<Longrightarrow> 0 \<le> e \<and> e < q"
  by (auto simp: encode_def bindE_eq_Inr)

lemma split_honest:
  assumes "1 < gq G" "split_contribution pl G values masks = Inr c"
  shows "\<exists>enc. mapE (encode pl (gq G)) values = Inr enc \<and> length enc = length values \<and> honest G enc c"
proof -
  from assms(2) obtain enc where enc: "mapE (encode pl (gq G)) values = Inr enc"
    and c: "c = \<lparr>share_a = map masks [0..<length values],
      share_b = map2 (\<lambda>e ai. (e - ai) mod gq G) enc (map masks [0..<length values]),
      commitments = map (commit G) enc, contrib_local_dp = None\<rparr>"
    by (auto simp: split_contribution_def bindE_eq_Inr Let_def)
  have la: "list_all2 (\<lambda>v e. encode pl (gq G) v = Inr e) values enc"
    using enc by (simp add: mapE_Inr_iff)
  then have len: "length enc = length values" by (simp add: list_all2_lengthD)
  have rng: "\<forall>x \<in> set enc. 0 \<le> x \<and> x < gq G"
    using la encode_range [OF assms(1)] by (fastforce simp: list_all2_conv_all_nth in_set_conv_nth)
  have "(masks j + (enc ! j - masks j) mod gq G) mod gq G = enc ! j" if "j < length enc" for j
  proof -
    have "(masks j + (enc ! j - masks j) mod gq G) mod gq G = (masks j + (enc ! j - masks j)) mod gq G"
      by (rule mod_add_right_eq)
    with rng that show ?thesis by simp
  qed
  then have "honest G enc c" using len rng by (simp add: honest_def c)
  with enc len show ?thesis by blast
qed

lemma foldl_add_mod:
  assumes "\<forall>s \<in> set ss. length s = length acc"
  shows "length (foldl (add_mod q) acc ss) = length acc \<and>
         (\<forall>j < length acc. foldl (add_mod q) acc ss ! j mod q = (acc ! j + (\<Sum>s\<leftarrow>ss. s ! j)) mod q)"
  using assms
proof (induction ss arbitrary: acc)
  case Nil
  then show ?case by simp
next
  case (Cons s ss)
  let ?acc = "add_mod q acc s"
  have len: "length ?acc = length acc" using Cons.prems by (simp add: add_mod_def)
  then have IH: "length (foldl (add_mod q) ?acc ss) = length acc"
    "\<forall>j < length acc. foldl (add_mod q) ?acc ss ! j mod q = (?acc ! j + (\<Sum>s\<leftarrow>ss. s ! j)) mod q"
    using Cons.IH [of ?acc] Cons.prems by simp_all
  have "(?acc ! j + (\<Sum>s\<leftarrow>ss. s ! j)) mod q = (acc ! j + (\<Sum>s\<leftarrow>s # ss. s ! j)) mod q" if "j < length acc" for j
    using that Cons.prems by (simp add: add_mod_def mod_add_left_eq add.assoc)
  with IH show ?case by simp
qed

lemma server_sum_ok:
  assumes "ss \<noteq> []" "\<forall>s \<in> set ss. length s = d"
  shows "\<exists>t. server_sum q ss = Inr t \<and> length t = d \<and>
           (\<forall>j < d. t ! j mod q = (\<Sum>s\<leftarrow>ss. s ! j) mod q)"
proof -
  obtain s0 sr where ss: "ss = s0 # sr" using assms(1) by (cases ss) auto
  show ?thesis using foldl_add_mod [of sr s0 q] assms(2) by (simp add: ss)
qed

lemma field_sum_range: "1 < q \<Longrightarrow> x \<in> set (add_mod q xs ys) \<Longrightarrow> 0 \<le> x \<and> x < q"
  by (auto simp: add_mod_def set_zip)

definition enc_sum :: "int list list \<Rightarrow> nat \<Rightarrow> int" where
  "enc_sum E j = (\<Sum>e\<leftarrow>E. e ! j)"

lemma sum_list_add_mod:
  "list_all2 (\<lambda>e c. (f c + g c) mod q = h e mod q) E C \<Longrightarrow>
   ((\<Sum>c\<leftarrow>C. f c) + (\<Sum>c\<leftarrow>C. g c)) mod q = (\<Sum>e\<leftarrow>E. h e) mod q" for q :: int
proof (induction E C rule: list_all2_induct)
  case Nil
  then show ?case by simp
next
  case (Cons e E c C)
  have "((f c + g c) + ((\<Sum>c\<leftarrow>C. f c) + (\<Sum>c\<leftarrow>C. g c))) mod q = (h e + (\<Sum>e\<leftarrow>E. h e)) mod q"
    using Cons by (intro mod_add_cong) simp_all
  then show ?case by (simp add: algebra_simps)
qed

text \<open>The reconstructed field sum of honest contributions is the sum of the encodings.\<close>

lemma honest_field_sum:
  assumes q: "1 < gq G" and h: "list_all2 (honest G) E C" and ne: "C \<noteq> []"
    and d: "\<forall>e \<in> set E. length e = d"
  shows "\<exists>sa sb. server_sum (gq G) (map share_a C) = Inr sa \<and> server_sum (gq G) (map share_b C) = Inr sb \<and>
           length (add_mod (gq G) sa sb) = d \<and>
           (\<forall>j < d. add_mod (gq G) sa sb ! j = enc_sum E j mod gq G)"
proof -
  have lens: "length (share_a c) = d \<and> length (share_b c) = d" if "c \<in> set C" for c
    using h d that by (force simp: list_all2_conv_all_nth in_set_conv_nth honest_def)
  from server_sum_ok [of "map share_a C" d "gq G"] ne lens obtain sa where
    sa: "server_sum (gq G) (map share_a C) = Inr sa" "length sa = d"
      "\<forall>j < d. sa ! j mod gq G = (\<Sum>c\<leftarrow>C. share_a c ! j) mod gq G" by (auto simp: comp_def)
  from server_sum_ok [of "map share_b C" d "gq G"] ne lens obtain sb where
    sb: "server_sum (gq G) (map share_b C) = Inr sb" "length sb = d"
      "\<forall>j < d. sb ! j mod gq G = (\<Sum>c\<leftarrow>C. share_b c ! j) mod gq G" by (auto simp: comp_def)
  have "add_mod (gq G) sa sb ! j = enc_sum E j mod gq G" if j: "j < d" for j
  proof -
    have "list_all2 (\<lambda>e c. (share_a c ! j + share_b c ! j) mod gq G = e ! j mod gq G) E C"
      using h d j by (auto simp: list_all2_conv_all_nth honest_def)
    from sum_list_add_mod [OF this] have "((\<Sum>c\<leftarrow>C. share_a c ! j) + (\<Sum>c\<leftarrow>C. share_b c ! j)) mod gq G =
        enc_sum E j mod gq G" by (simp add: enc_sum_def)
    moreover have "(sa ! j + sb ! j) mod gq G = ((\<Sum>c\<leftarrow>C. share_a c ! j) + (\<Sum>c\<leftarrow>C. share_b c ! j)) mod gq G"
      using sa(3) sb(3) j by (intro mod_add_cong) simp_all
    ultimately show ?thesis using j sa(2) sb(2) by (simp add: add_mod_def)
  qed
  with sa sb show ?thesis by (simp add: add_mod_def)
qed

definition enc_real :: "real \<Rightarrow> int" where
  "enc_real r = round_half_even (r * 65536)"

lemma decode_sum:
  assumes "exact pl" "1 < q" "\<bar>s\<bar> \<le> (q - 1) div 2"
  shows "decode pl q (s mod q) = Inr (Fin (of_int s / 65536))"
proof -
  have "(if s mod q > q div 2 then s mod q - q else s mod q) = s"
  proof (cases "0 \<le> s")
    case True
    with assms(2,3) have "s < q" "s \<le> q div 2" by linarith+
    with True show ?thesis by simp
  next
    case False
    with assms(2,3) have "0 \<le> s + q" "s + q < q" "q div 2 < s + q" by linarith+
    moreover from this have "s mod q = s + q" by (metis mod_add_self2 mod_pos_pos_trivial)
    ultimately show ?thesis by simp
  qed
  then show ?thesis using assms(1) by (simp add: decode_def int_truediv_def Let_def)
qed

text \<open>The rest of \<open>aggregate\<close> once the field sum is known.\<close>

lemma aggregate_result:
  assumes ex: "exact pl" and ne: "C \<noteq> []"
    and sa: "server_sum (gq G) (map share_a C) = Inr sa" and sb: "server_sum (gq G) (map share_b C) = Inr sb"
    and v: "verify_loop G (map commitments C) 0 (add_mod (gq G) sa sb) = Inr ok"
    and dec: "\<And>x. x \<in> set (add_mod (gq G) sa sb) \<Longrightarrow> decode pl (gq G) x = Inr (Fin (val x))"
  shows "\<exists>r. aggregate pl G C = Inr r \<and> verified r = ok \<and> n_clients r = int (length C) \<and>
           sum_vector r = map (\<lambda>x. Fin (val x)) (add_mod (gq G) sa sb)"
proof -
  let ?f = "add_mod (gq G) sa sb"
  let ?n = "real (length C)"
  have "mapE (decode pl (gq G)) ?f = Inr (map (\<lambda>x. Fin (val x)) ?f)" by (rule mapE_pure) (rule dec)
  moreover have "int_to_float pl (int (length C)) = Inr (Fin ?n)" using ex by (simp add: int_to_float_def)
  moreover have "mapE (\<lambda>x. fdiv pl x (Fin ?n)) (map (\<lambda>x. Fin (val x)) ?f) =
      Inr (map (\<lambda>x. Fin (fin_val x / ?n)) (map (\<lambda>x. Fin (val x)) ?f))"
    by (rule mapE_pure) (use ex ne in auto)
  ultimately show ?thesis using ne sa sb v by (simp add: aggregate_def Let_def)
qed

definition total_enc :: "real list list \<Rightarrow> nat \<Rightarrow> int" where
  "total_enc vs j = (\<Sum>v\<leftarrow>vs. enc_real (v ! j))"

lemma mapE_encode:
  "exact pl \<Longrightarrow> mapE (encode pl q) (map Fin v) = Inr (map (\<lambda>r. enc_real r mod q) v)"
  by (induction v) (simp_all add: encode_def enc_real_def)

lemma splits_honest:
  assumes "exact pl" "1 < gq G"
    and "list_all2 (\<lambda>v c. \<exists>masks. split_contribution pl G (map Fin v) masks = Inr c) vs C"
  shows "list_all2 (honest G) (map (map (\<lambda>r. enc_real r mod gq G)) vs) C"
  using assms(3)
proof (induction rule: list_all2_induct)
  case Nil
  then show ?case by simp
next
  case (Cons v vs c C)
  then show ?case using split_honest [OF assms(2), of pl "map Fin v"] mapE_encode [OF assms(1)] by fastforce
qed

lemma enc_sum_total:
  "\<forall>v \<in> set vs. j < length v \<Longrightarrow>
   enc_sum (map (map (\<lambda>r. enc_real r mod q)) vs) j mod q = total_enc vs j mod q"
proof (induction vs)
  case Nil
  then show ?case by (simp add: enc_sum_def total_enc_def)
next
  case (Cons v vs)
  have "(enc_real (v ! j) mod q + enc_sum (map (map (\<lambda>r. enc_real r mod q)) vs) j) mod q =
      (enc_real (v ! j) + total_enc vs j) mod q"
    using Cons by (intro mod_add_cong) simp_all
  then show ?case using Cons.prems by (simp add: enc_sum_def total_enc_def)
qed

text \<open>The decoded value a field element stands for.\<close>

definition field_val :: "int \<Rightarrow> int \<Rightarrow> real" where
  "field_val q e = of_int (if e mod q > q div 2 then e mod q - q else e mod q) / 65536"

lemma decode_exact: "exact pl \<Longrightarrow> decode pl q e = Inr (Fin (field_val q e))"
  by (simp add: decode_def field_val_def int_truediv_def Let_def)

lemma field_val_sum:
  assumes "1 < q" "\<bar>s\<bar> \<le> (q - 1) div 2"
  shows "field_val q (s mod q) = of_int s / 65536"
  using decode_sum [OF exact_exact_platform assms] decode_exact [OF exact_exact_platform, of q "s mod q"]
  by simp

lemma take_add_mod: "add_mod q (take k xs) ys = take k (add_mod q xs ys)"
proof (induction xs arbitrary: k ys)
  case Nil
  then show ?case by (simp add: add_mod_def)
next
  case (Cons x xs)
  then show ?case by (cases k; cases ys) (simp_all add: add_mod_def)
qed

lemma take_foldl_add_mod: "foldl (add_mod q) (take k acc) ss = take k (foldl (add_mod q) acc ss)"
  by (induction ss arbitrary: acc) (simp_all add: take_add_mod)

text \<open>The contributions with the first one's share to server A cut to its first \<open>k\<close> elements.\<close>

fun truncate_first :: "nat \<Rightarrow> contribution list \<Rightarrow> contribution list" where
  "truncate_first k [] = []"
| "truncate_first k (c # cs) = c\<lparr>share_a := take k (share_a c)\<rparr> # cs"

lemma truncate_first_same [simp]:
  "map share_b (truncate_first k C) = map share_b C"
  "map commitments (truncate_first k C) = map commitments C"
  "length (truncate_first k C) = length C" "truncate_first k C = [] \<longleftrightarrow> C = []"
  by (cases C; simp)+

lemma server_sum_truncate:
  "server_sum q (map share_a C) = Inr sa \<Longrightarrow>
   server_sum q (map share_a (truncate_first k C)) = Inr (take k sa)"
  by (cases C) (auto simp: take_foldl_add_mod)

lemma honest_aggregate_truncated:
  assumes ex: "exact pl" and G: "order_group G" and ne: "vs \<noteq> []" and d: "\<forall>v \<in> set vs. length v = d"
    and split: "list_all2 (\<lambda>v c. \<exists>masks. split_contribution pl G (map Fin v) masks = Inr c) vs C"
    and small: "\<forall>j < d. \<bar>total_enc vs j\<bar> \<le> (gq G - 1) div 2" and k: "k \<le> d"
  shows "\<exists>r. aggregate pl G (truncate_first k C) = Inr r \<and> verified r \<and> n_clients r = int (length vs) \<and>
           sum_vector r = map (\<lambda>j. Fin (of_int (total_enc vs j) / 65536)) [0..<k]"
proof -
  have q: "1 < gq G" using G by (simp add: order_group_def)
  define E where "E = map (map (\<lambda>r. enc_real r mod gq G)) vs"
  have h: "list_all2 (honest G) E C" unfolding E_def by (rule splits_honest [OF ex q split])
  have len: "length C = length vs" using split by (simp add: list_all2_lengthD)
  have neC: "C \<noteq> []" using ne len by auto
  have dE: "\<forall>e \<in> set E. length e = d" using d by (auto simp: E_def)
  from honest_field_sum [OF q h neC dE] obtain sa sb where
    s: "server_sum (gq G) (map share_a C) = Inr sa" "server_sum (gq G) (map share_b C) = Inr sb"
    "length (add_mod (gq G) sa sb) = d"
    "\<forall>j < d. add_mod (gq G) sa sb ! j = enc_sum E j mod gq G" by blast
  let ?f = "add_mod (gq G) sa sb"
  have tot: "?f ! j = total_enc vs j mod gq G" if "j < d" for j
    using s(4) that enc_sum_total [of vs j "gq G"] d by (simp add: E_def)
  have comms: "map commitments C = map (map (commit G)) E"
    using h by (induction rule: list_all2_induct) (simp_all add: honest_def)
  have E0: "\<forall>e \<in> set E. 0 + length (take k ?f) \<le> length e \<and> (\<forall>x \<in> set e. 0 \<le> x)"
    using dE k q by (auto simp: E_def s(3))
  have f0: "\<forall>x \<in> set (take k ?f). 0 \<le> x"
    using field_sum_range [OF q] by (meson in_set_takeD)
  have "verify_loop G (map commitments C) 0 (take k ?f) = Inr True"
    unfolding comms verify_loop_iff [OF G f0 E0] using s(3,4) k by (simp add: enc_sum_def)
  then have v: "verify_loop G (map commitments (truncate_first k C)) 0 (add_mod (gq G) (take k sa) sb) = Inr True"
    by (simp add: take_add_mod)
  have sa': "server_sum (gq G) (map share_a (truncate_first k C)) = Inr (take k sa)"
    by (rule server_sum_truncate [OF s(1)])
  have sb': "server_sum (gq G) (map share_b (truncate_first k C)) = Inr sb" using s(2) by simp
  from aggregate_result [OF ex _ sa' sb' v decode_exact [OF ex]] neC obtain r where
    r: "aggregate pl G (truncate_first k C) = Inr r" "verified r" "n_clients r = int (length C)"
      "sum_vector r = map (\<lambda>x. Fin (field_val (gq G) x)) (take k ?f)" by (auto simp: take_add_mod)
  have "sum_vector r = map (\<lambda>j. Fin (of_int (total_enc vs j) / 65536)) [0..<k]"
    unfolding r(4)
  proof (rule nth_equalityI)
    fix i assume "i < length (map (\<lambda>x. Fin (field_val (gq G) x)) (take k ?f))"
    then have "i < k" "i < d" using k s(3) by simp_all
    then show "map (\<lambda>x. Fin (field_val (gq G) x)) (take k ?f) ! i =
        map (\<lambda>j. Fin (of_int (total_enc vs j) / 65536)) [0..<k] ! i"
      using s(3) small by (simp add: tot field_val_sum [OF q])
  qed (use k s(3) in simp)
  with r len show ?thesis by auto
qed

text \<open>
  Honest aggregation verifies and is right: for clients that split finite vectors of one length
  with any masks, the published sum verifies against the commitments and every coordinate is the sum
  of the clients' fixed-point encodings, as long as these sums stay below half the group order.
\<close>

theorem honest_aggregation:
  assumes "exact pl" and "order_group G" and "vs \<noteq> []" and "\<forall>v \<in> set vs. length v = d"
    and "list_all2 (\<lambda>v c. \<exists>masks. split_contribution pl G (map Fin v) masks = Inr c) vs C"
    and "\<forall>j < d. \<bar>total_enc vs j\<bar> \<le> (gq G - 1) div 2"
  shows "\<exists>r. aggregate pl G C = Inr r \<and> verified r \<and> n_clients r = int (length vs) \<and>
           sum_vector r = map (\<lambda>j. Fin (of_int (total_enc vs j) / 65536)) [0..<d]"
proof -
  obtain v0 vr c Cr where vs: "vs = v0 # vr" "C = c # Cr"
    using assms(3,5) by (cases vs; cases C) auto
  have "share_a c = take d (share_a c)"
    using assms(4,5) vs by (auto simp: split_contribution_def bindE_eq_Inr Let_def)
  then have "truncate_first d C = C" by (simp add: vs(2))
  then show ?thesis using honest_aggregate_truncated [OF assms order_refl] by simp
qed

lemma commit_product_length:
  "commit_product p j acc comms = Inr x \<Longrightarrow> \<forall>c \<in> set comms. j < length c"
  by (induction comms arbitrary: acc) (auto simp: bindE_eq_Inr nth_res_def split: if_splits)

lemma verify_loop_sound:
  assumes G: "order_group G" and E: "\<forall>e \<in> set E. \<forall>x \<in> set e. 0 \<le> x"
  shows "\<forall>x \<in> set ss. 0 \<le> x \<Longrightarrow> verify_loop G (map (map (commit G)) E) j ss = Inr True \<Longrightarrow>
    \<forall>k < length ss. ss ! k mod gq G = enc_sum E (j + k) mod gq G"
proof (induction ss arbitrary: j)
  case Nil
  then show ?case by simp
next
  case (Cons s ss)
  from Cons.prems(2) obtain prod where
    prod: "commit_product (gp G) j 1 (map (map (commit G)) E) = Inr prod"
    and eq: "pow_mod (gg G) (nat s) (gp G) = prod"
    and rest: "verify_loop G (map (map (commit G)) E) (j + 1) ss = Inr True"
    by (auto simp: bindE_eq_Inr split: if_splits)
  have Ej: "\<forall>e \<in> set E. j < length e \<and> (\<forall>x \<in> set e. 0 \<le> x)"
    using commit_product_length [OF prod] E by auto
  have "gg G ^ nat s mod gp G = gg G ^ (\<Sum>e\<leftarrow>E. nat (e ! j)) mod gp G"
    using prod eq commit_product_1 [OF G Ej] by (simp add: pow_mod_eq)
  then have "s mod gq G = enc_sum E j mod gq G"
    using pow_eq_iff [OF G] sum_nat_nth [OF Ej] Cons.prems(1) by (simp add: enc_sum_def)
  moreover have "\<forall>k < length ss. ss ! k mod gq G = enc_sum E (j + 1 + k) mod gq G"
    using Cons.IH [OF _ rest] Cons.prems(1) by simp
  ultimately show ?case by (auto simp: less_Suc_eq_0_disj nth_Cons')
qed

lemma aggregate_steps:
  assumes "aggregate pl G C = Inr r"
  shows "\<exists>sa sb dec ok. verify_loop G (map commitments C) 0 (add_mod (gq G) sa sb) = Inr ok \<and>
           mapE (decode pl (gq G)) (add_mod (gq G) sa sb) = Inr dec \<and>
           sum_vector r = dec \<and> verified r = ok"
proof -
  have "C \<noteq> []" using assms by (auto simp: aggregate_def)
  note run = assms [unfolded aggregate_def if_not_P [OF this] Let_def bindE_eq_Inr]
  show ?thesis
    by (insert run, elim exE conjE, intro exI conjI, assumption, assumption) (simp_all only: sum.inject aggregation_result.select_convs, auto)
qed

text \<open>
  C21. A verified sum cannot be wrong: if the clients' commitments are honest, then whatever shares the
  two servers use (altered, dropped, replaced), a result that verifies has in every coordinate it
  returns the value of the sum of the committed encodings.
\<close>

theorem verified_sum_sound:
  assumes "exact pl" and "order_group G" and "\<forall>e \<in> set E. \<forall>x \<in> set e. 0 \<le> x"
    and "map commitments C = map (map (commit G)) E"
    and "aggregate pl G C = Inr r" and "verified r"
  shows "\<forall>k < length (sum_vector r). sum_vector r ! k = Fin (field_val (gq G) (enc_sum E k))"
proof -
  have q: "1 < gq G" using assms(2) by (simp add: order_group_def)
  from aggregate_steps [OF assms(5)] obtain sa sb ok dec where
    v: "verify_loop G (map commitments C) 0 (add_mod (gq G) sa sb) = Inr ok"
    and dec: "mapE (decode pl (gq G)) (add_mod (gq G) sa sb) = Inr dec"
    and r: "sum_vector r = dec" "verified r = ok" by blast
  have ok: "ok" using assms(6) r by simp
  have "\<forall>x \<in> set (add_mod (gq G) sa sb). 0 \<le> x" using field_sum_range [OF q] by blast
  from verify_loop_sound [OF assms(2,3) this, of 0] v ok assms(4)
  have eq: "\<forall>k < length (add_mod (gq G) sa sb). add_mod (gq G) sa sb ! k mod gq G = enc_sum E k mod gq G"
    by simp
  have dec': "dec = map (\<lambda>x. Fin (field_val (gq G) x)) (add_mod (gq G) sa sb)"
    using dec mapE_pure [of "add_mod (gq G) sa sb" "decode pl (gq G)"] decode_exact [OF assms(1)] by simp
  have fv: "field_val (gq G) x = field_val (gq G) y" if "x mod gq G = y mod gq G" for x y
    using that by (simp add: field_val_def)
  show ?thesis
  proof (intro allI impI)
    fix k assume "k < length (sum_vector r)"
    then have k: "k < length (add_mod (gq G) sa sb)" by (simp only: r dec' length_map)
    then have "sum_vector r ! k = Fin (field_val (gq G) (add_mod (gq G) sa sb ! k))"
      by (simp only: r dec' nth_map)
    also have "\<dots> = Fin (field_val (gq G) (enc_sum E k))" using fv eq k by blast
    finally show "sum_vector r ! k = Fin (field_val (gq G) (enc_sum E k))" .
  qed
qed

text \<open>
  What verification misses: cutting one share short silently drops the tail of the aggregate.
  With the first client's share to server A cut to its first \<open>k\<close> elements (by that client, or by
  the server), the aggregation still verifies and returns only the first \<open>k\<close> coordinates, none at
  all for \<open>k = 0\<close>.
\<close>

theorem truncated_share_verifies:
  assumes "exact pl" and "order_group G" and "vs \<noteq> []" and "\<forall>v \<in> set vs. length v = d"
    and "list_all2 (\<lambda>v c. \<exists>masks. split_contribution pl G (map Fin v) masks = Inr c) vs C"
    and "\<forall>j < d. \<bar>total_enc vs j\<bar> \<le> (gq G - 1) div 2" and "k \<le> d"
  shows "\<exists>r. aggregate pl G (truncate_first k C) = Inr r \<and> verified r \<and> length (sum_vector r) = k"
  using honest_aggregate_truncated [OF assms] by force

section \<open>Witnesses\<close>

definition demo_group :: group where
  "demo_group = \<lparr>gp = 23, gq = 11, gg = 2\<rparr>"

lemma demo_powers: "i < 11 \<Longrightarrow> (2 :: int) ^ i mod 23 = 1 \<longleftrightarrow> i = 0"
proof -
  have all: "\<forall>i \<in> set [0..<11]. (2 :: int) ^ i mod 23 = 1 \<longleftrightarrow> i = 0" by code_simp
  assume "i < 11"
  then show ?thesis using all by simp
qed

lemma demo_order: "order_group demo_group"
proof -
  have "(2 :: int) ^ n mod 23 = 1 \<longleftrightarrow> 11 dvd int n" for n
  proof -
    have n: "n = 11 * (n div 11) + n mod 11" by simp
    have "((2 :: int) ^ 11) ^ k mod 23 = 1" for k by (simp add: power_mod [of "2048 :: int", symmetric])
    then have "(2 :: int) ^ n mod 23 = 2 ^ (n mod 11) mod 23"
      by (subst n, simp only: power_add power_mult) (metis mod_mult_left_eq mult_1)
    moreover have "(2 :: int) ^ (n mod 11) mod 23 = 1 \<longleftrightarrow> n mod 11 = 0"
      using demo_powers [of "n mod 11"] by simp
    moreover have "11 dvd int n \<longleftrightarrow> n mod 11 = 0"
      by (metis dvd_eq_mod_eq_0 int_dvd_int_iff of_nat_numeral)
    ultimately show ?thesis by simp
  qed
  then show ?thesis by (simp add: order_group_def demo_group_def)
qed

definition demo_values :: "real list list" where
  "demo_values = [[1 / 65536, 2 / 65536], [3 / 65536, 2 / 65536]]"

definition demo_contributions :: "contribution list" where
  "demo_contributions =
     [\<lparr>share_a = [7, 7], share_b = [5, 6], commitments = [2, 4], contrib_local_dp = None\<rparr>,
      \<lparr>share_a = [7, 7], share_b = [7, 6], commitments = [8, 4], contrib_local_dp = None\<rparr>]"

lemma demo_split_contribution:
  "list_all2 (\<lambda>v c. \<exists>masks. split_contribution exact_platform demo_group (map Fin v) masks = Inr c)
     demo_values demo_contributions"
proof -
  have "split_contribution exact_platform demo_group (map Fin [1 / 65536, 2 / 65536]) (\<lambda>j. 7) =
      Inr (demo_contributions ! 0)"
    by (simp add: split_contribution_def encode_def demo_group_def demo_contributions_def Let_def
        round_half_even_def commit_eq)
  moreover have "split_contribution exact_platform demo_group (map Fin [3 / 65536, 2 / 65536]) (\<lambda>j. 7) =
      Inr (demo_contributions ! 1)"
    by (simp add: split_contribution_def encode_def demo_group_def demo_contributions_def Let_def
        round_half_even_def commit_eq)
  ultimately show ?thesis by (auto simp: demo_values_def demo_contributions_def)
qed

lemma demo_small: "\<forall>j < 2. \<bar>total_enc demo_values j\<bar> \<le> (gq demo_group - 1) div 2"
  by (auto simp: less_2_cases_iff total_enc_def demo_values_def demo_group_def enc_real_def
      round_half_even_def Let_def)

lemma demo_shape: "demo_values \<noteq> []" "\<forall>v \<in> set demo_values. length v = 2"
  by (simp_all add: demo_values_def)

theorem honest_aggregation_witness:
  "\<exists>r. aggregate exact_platform demo_group demo_contributions = Inr r \<and> verified r"
  using honest_aggregation [OF exact_exact_platform demo_order demo_shape demo_split_contribution demo_small]
  by blast

theorem verified_sum_sound_witness:
  "\<exists>r. aggregate exact_platform demo_group demo_contributions = Inr r \<and>
       sum_vector r ! 0 = Fin (field_val 11 4)"
proof -
  obtain r where r: "aggregate exact_platform demo_group demo_contributions = Inr r" "verified r"
    "length (sum_vector r) = 2"
    using honest_aggregate_truncated [OF exact_exact_platform demo_order demo_shape demo_split_contribution
        demo_small order_refl] by (auto simp: demo_contributions_def)
  have c: "map commitments demo_contributions = map (map (commit demo_group)) [[1, 2], [3, 2]]"
    by (simp add: demo_contributions_def commit_eq demo_group_def)
  have p: "\<forall>e \<in> set [[1, 2], [3, 2]]. \<forall>x \<in> set e. 0 \<le> (x :: int)" by simp
  from verified_sum_sound [OF exact_exact_platform demo_order p c r(1,2)] r
  show ?thesis by (auto simp: enc_sum_def demo_group_def)
qed

theorem truncated_share_verifies_witness:
  "\<exists>r. aggregate exact_platform demo_group (truncate_first 0 demo_contributions) = Inr r \<and>
       verified r \<and> sum_vector r = []"
  using truncated_share_verifies [OF exact_exact_platform demo_order demo_shape demo_split_contribution
      demo_small, of 0] by auto

end
