(* ===== verification/Robust.thy ===== *)
theory Robust
  imports Prelude "HOL-Library.Multiset"
begin

text \<open>
  Robust aggregation of client updates (\<open>federated/robust.py\<close>): the plain mean, the coordinate-wise
  median and trimmed mean, Krum, FLTrust, the dispatch by name, and the flattening of a parameter
  dictionary. A client update is a flat list of finite reals; NumPy's rounding and its propagation of
  NaN are left out, so the functions are the exact ones.
\<close>

section \<open>Flattening a state\<close>

record ndarray =
  shape :: "nat list"
  data :: "real list"

definition array_ok :: "ndarray \<Rightarrow> bool" where
  "array_ok a \<longleftrightarrow> length (data a) = prod_list (shape a)"

definition flatten_state :: "(string \<times> ndarray) list \<Rightarrow> real list \<times> (string \<times> nat list) list" where
  "flatten_state state =
     (let items = sort_key fst state
      in (concat (map (\<lambda>(k, a). data a) items), map (\<lambda>(k, a). (k, shape a)) items))"

text \<open>\<open>reshape\<close> raises \<open>ValueError\<close> when the slice has not as many elements as the shape asks for.\<close>

fun unflatten_from ::
  "nat \<Rightarrow> real list \<Rightarrow> (string \<times> nat list) list \<Rightarrow> (string \<times> ndarray) list \<Rightarrow> (string \<times> ndarray) list res" where
  "unflatten_from i flat [] out = Inr out"
| "unflatten_from i flat ((k, sh) # manifest) out =
     (let n = (if sh = [] then 1 else prod_list sh); piece = take n (drop i flat)
      in if length piece \<noteq> n then Inl ValueError
         else unflatten_from (i + n) flat manifest (dict_set k \<lparr>shape = sh, data = piece\<rparr> out))"

definition unflatten_state :: "real list \<Rightarrow> (string \<times> nat list) list \<Rightarrow> (string \<times> ndarray) list res" where
  "unflatten_state flat manifest = unflatten_from 0 flat manifest []"

section \<open>Aggregators\<close>

text \<open>An empty or a ragged list of updates is not a matrix.\<close>

definition stack :: "real list list \<Rightarrow> real list list res" where
  "stack us =
     (case us of [] \<Rightarrow> Inl ValueError
      | u # _ \<Rightarrow> if list_all (\<lambda>v. length v = length u) us then Inr us else Inl ValueError)"

definition dim :: "real list list \<Rightarrow> nat" where
  "dim mat = length (hd mat)"

definition column :: "real list list \<Rightarrow> nat \<Rightarrow> real list" where
  "column mat j = map (\<lambda>u. u ! j) mat"

definition mean :: "real list \<Rightarrow> real" where
  "mean xs = sum_list xs / real (length xs)"

definition per_column :: "(real list \<Rightarrow> real) \<Rightarrow> real list list \<Rightarrow> real list" where
  "per_column f mat = map (\<lambda>j. f (column mat j)) [0..<dim mat]"

definition fedavg :: "real list list \<Rightarrow> real list res" where
  "fedavg us = bindE (stack us) (\<lambda>mat. Inr (per_column mean mat))"

definition median :: "real list \<Rightarrow> real" where
  "median xs =
     (let s = sort xs; n = length xs
      in if odd n then s ! (n div 2) else (s ! (n div 2 - 1) + s ! (n div 2)) / 2)"

definition coordinate_median :: "real list list \<Rightarrow> real list res" where
  "coordinate_median us = bindE (stack us) (\<lambda>mat. Inr (per_column median mat))"

definition trimmed_mean :: "real list list \<Rightarrow> int \<Rightarrow> real list res" where
  "trimmed_mean us beta =
     bindE (stack us) (\<lambda>mat.
       let n = int (length mat)
       in if n \<le> 2 * beta then Inl ValueError
          else Inr (per_column (\<lambda>c. mean (py_slice beta (n - beta) (sort c))) mat))"

record krum_result =
  krum_aggregate :: "real list"
  selected_index :: nat
  krum_scores :: "real list"

definition sqdist :: "real list \<Rightarrow> real list \<Rightarrow> real" where
  "sqdist u v = sum_list (map2 (\<lambda>x y. (x - y)\<^sup>2) u v)"

text \<open>\<open>np.argmin\<close> is the first index of the least element.\<close>

fun argmin :: "real list \<Rightarrow> nat" where
  "argmin [] = 0"
| "argmin [x] = 0"
| "argmin (x # xs) = (let i = argmin xs in if x \<le> xs ! i then 0 else Suc i)"

definition krum_score :: "real list list \<Rightarrow> int \<Rightarrow> nat \<Rightarrow> real" where
  "krum_score mat m i = sum_list (py_slice 1 (m + 1) (sort (map (sqdist (mat ! i)) mat)))"

definition krum :: "real list list \<Rightarrow> int \<Rightarrow> krum_result res" where
  "krum us f =
     bindE (stack us) (\<lambda>mat.
       let n = int (length mat)
       in if n \<le> 2 * f + 2 then Inl ValueError
          else let m = n - f - 2;
                   scores = map (krum_score mat m) [0..<length mat];
                   selected = argmin scores
               in Inr \<lparr>krum_aggregate = mat ! selected, selected_index = selected, krum_scores = scores\<rparr>)"

record fltrust_result =
  flt_aggregate :: "real list"
  trust_scores :: "real list"
  root_norm :: real

definition dot :: "real list \<Rightarrow> real list \<Rightarrow> real" where
  "dot u v = sum_list (map2 (*) u v)"

definition norm2 :: "real list \<Rightarrow> real" where
  "norm2 v = sqrt (dot v v)"

definition trust :: "real list \<Rightarrow> real list \<Rightarrow> real" where
  "trust g0 u =
     (let safe = (if norm2 u > 0 then norm2 u else 1); cos = dot u g0 / (safe * norm2 g0)
      in if norm2 u > 0 then max cos 0 else 0)"

definition rescaled :: "real list \<Rightarrow> real list \<Rightarrow> real list" where
  "rescaled g0 u = map (\<lambda>x. x * (norm2 g0 / (if norm2 u > 0 then norm2 u else 1))) u"

definition fltrust :: "real list list \<Rightarrow> real list \<Rightarrow> fltrust_result res" where
  "fltrust us g0 =
     bindE (stack us) (\<lambda>mat.
       if dim mat \<noteq> length g0 then Inl ValueError
       else if norm2 g0 = 0 then
         Inr \<lparr>flt_aggregate = replicate (length g0) 0, trust_scores = replicate (length mat) 0, root_norm = 0\<rparr>
       else
         let ts = map (trust g0) mat; total = sum_list ts
         in if total \<le> 0 then Inr \<lparr>flt_aggregate = g0, trust_scores = ts, root_norm = norm2 g0\<rparr>
            else Inr \<lparr>flt_aggregate =
                        map (\<lambda>j. sum_list (map (\<lambda>u. trust g0 u * rescaled g0 u ! j) mat) / total)
                          [0..<length g0],
                      trust_scores = ts, root_norm = norm2 g0\<rparr>)"

definition robust_aggregate ::
  "real list list \<Rightarrow> string \<Rightarrow> int \<Rightarrow> int \<Rightarrow> real list option \<Rightarrow> real list res" where
  "robust_aggregate us meth f beta root_update =
     (if meth = ''fedavg'' then fedavg us
      else if meth = ''median'' then coordinate_median us
      else if meth = ''trimmed_mean'' then trimmed_mean us beta
      else if meth = ''krum'' then bindE (krum us f) (\<lambda>r. Inr (krum_aggregate r))
      else if meth = ''fltrust'' then
        (case root_update of None \<Rightarrow> Inl ValueError
         | Some g0 \<Rightarrow> bindE (fltrust us g0) (\<lambda>r. Inr (flt_aggregate r)))
      else Inl ValueError)"

section \<open>Order statistics\<close>

lemma filter_length_mset: "mset xs = mset ys \<Longrightarrow> length (filter P xs) = length (filter P ys)"
proof -
  assume "mset xs = mset ys"
  then have "mset (filter P xs) = mset (filter P ys)" by simp
  then show ?thesis by (metis size_mset)
qed

text \<open>If at most \<open>b\<close> elements are below \<open>lo\<close>, the sorted list is at least \<open>lo\<close> from index \<open>b\<close> on.\<close>

lemma sorted_lower:
  fixes lo :: real
  assumes "length (filter (\<lambda>x. x < lo) xs) \<le> b" "b \<le> k" "k < length xs"
  shows "lo \<le> sort xs ! k"
proof (rule ccontr)
  assume "\<not> lo \<le> sort xs ! k"
  then have "\<forall>x \<in> set (take (Suc k) (sort xs)). x < lo"
  proof -
    have "sort xs ! i \<le> sort xs ! k" if "i < Suc k" for i
      using that assms(3) by (intro sorted_nth_mono) auto
    with \<open>\<not> lo \<le> sort xs ! k\<close> show ?thesis using assms(3) by (fastforce simp: in_set_conv_nth)
  qed
  then have "length (filter (\<lambda>x. x < lo) (take (Suc k) (sort xs))) = Suc k"
    using assms(3) by (simp add: filter_True)
  moreover have "length (filter (\<lambda>x. x < lo) (take (Suc k) (sort xs))) \<le> length (filter (\<lambda>x. x < lo) (sort xs))"
    by (metis append_take_drop_id filter_append le_add1 length_append)
  moreover have "length (filter (\<lambda>x. x < lo) (sort xs)) = length (filter (\<lambda>x. x < lo) xs)"
    by (rule filter_length_mset) simp
  ultimately show False using assms by simp
qed

lemma sorted_upper:
  fixes hi :: real
  assumes "length (filter (\<lambda>x. hi < x) xs) \<le> b" "k + b < length xs"
  shows "sort xs ! k \<le> hi"
proof (rule ccontr)
  assume "\<not> sort xs ! k \<le> hi"
  then have "\<forall>x \<in> set (drop k (sort xs)). hi < x"
  proof -
    have "sort xs ! k \<le> sort xs ! (k + i)" if "i < length xs - k" for i
      using that by (intro sorted_nth_mono) auto
    with \<open>\<not> sort xs ! k \<le> hi\<close> show ?thesis by (fastforce simp: in_set_conv_nth)
  qed
  then have "length (filter (\<lambda>x. hi < x) (drop k (sort xs))) = length xs - k"
    by (simp add: filter_True)
  moreover have "length (filter (\<lambda>x. hi < x) (drop k (sort xs))) \<le> length (filter (\<lambda>x. hi < x) (sort xs))"
    by (metis append_take_drop_id filter_append le_add2 length_append)
  moreover have "length (filter (\<lambda>x. hi < x) (sort xs)) = length (filter (\<lambda>x. hi < x) xs)"
    by (rule filter_length_mset) simp
  ultimately show False using assms by simp
qed

lemma mean_bounds:
  assumes "xs \<noteq> []" "\<forall>x \<in> set xs. lo \<le> x \<and> x \<le> hi"
  shows "lo \<le> mean xs \<and> mean xs \<le> hi"
proof -
  have "real (length xs) * lo \<le> sum_list xs \<and> sum_list xs \<le> real (length xs) * hi"
    using assms(2) by (induction xs) (auto simp: algebra_simps)
  then show ?thesis using assms(1) by (simp add: mean_def field_simps)
qed

text \<open>
  The clients outside \<open>H\<close> are Byzantine. If the honest ones agree on a coordinate up to \<open>[lo, hi]\<close>,
  at most as many entries leave the interval as there are Byzantine clients.
\<close>

definition honest_within :: "nat set \<Rightarrow> real list list \<Rightarrow> nat \<Rightarrow> real \<Rightarrow> real \<Rightarrow> bool" where
  "honest_within H us j lo hi \<longleftrightarrow> (\<forall>i \<in> H. i < length us \<longrightarrow> lo \<le> us ! i ! j \<and> us ! i ! j \<le> hi)"

definition byzantine :: "nat set \<Rightarrow> real list list \<Rightarrow> nat" where
  "byzantine H us = card ({..<length us} - H)"

lemma outliers:
  assumes "honest_within H us j lo hi"
  shows "length (filter (\<lambda>x. x < lo) (column us j)) \<le> byzantine H us"
    and "length (filter (\<lambda>x. hi < x) (column us j)) \<le> byzantine H us"
proof -
  have "{i. i < length us \<and> P (us ! i ! j)} \<subseteq> {..<length us} - H"
    if "\<And>x. lo \<le> x \<Longrightarrow> x \<le> hi \<Longrightarrow> \<not> P x" for P :: "real \<Rightarrow> bool"
    using assms that by (auto simp: honest_within_def)
  then have "length (filter P (column us j)) \<le> byzantine H us"
    if "\<And>x. lo \<le> x \<Longrightarrow> x \<le> hi \<Longrightarrow> \<not> P x" for P :: "real \<Rightarrow> bool"
    using that card_mono [of "{..<length us} - H" "{i. i < length us \<and> P (us ! i ! j)}"]
    by (simp add: byzantine_def length_filter_conv_card column_def cong: conj_cong)
  then show "length (filter (\<lambda>x. x < lo) (column us j)) \<le> byzantine H us"
    "length (filter (\<lambda>x. hi < x) (column us j)) \<le> byzantine H us" by force+
qed

lemma stack_shape:
  "stack us = Inr mat \<longleftrightarrow> mat = us \<and> us \<noteq> [] \<and> (\<forall>u \<in> set us. length u = dim us)"
  by (cases us) (auto simp: stack_def dim_def list_all_iff)

lemma column_length [simp]: "length (column us j) = length us"
  by (simp add: column_def)

section \<open>Bounds on the influence of Byzantine clients\<close>

lemma trimmed_mean_range:
  assumes "trimmed_mean us beta = Inr r" and "0 \<le> beta" and "int (byzantine H us) \<le> beta"
    and "j < length r" and "honest_within H us j lo hi"
  shows "lo \<le> r ! j \<and> r ! j \<le> hi"
proof -
  define c where "c = sort (column us j)"
  define b where "b = nat beta"
  have n: "2 * b < length us" and r: "r = per_column (\<lambda>c. mean (py_slice beta (int (length us) - beta) (sort c))) us"
    using assms(1,2) by (auto simp: trimmed_mean_def bindE_eq_Inr stack_shape Let_def b_def split: if_splits)
  have slice: "py_slice beta (int (length us) - beta) c = take (length us - 2 * b) (drop b c)"
    using assms(2) n by (subst py_slice_nonneg) (auto simp: b_def nat_diff_distrib mult_2)
  have byz: "byzantine H us \<le> b" using assms(2,3) by (simp add: b_def)
  have "lo \<le> x \<and> x \<le> hi" if x: "x \<in> set (take (length us - 2 * b) (drop b c))" for x
  proof -
    from x obtain i where i: "i < length us - 2 * b" "x = c ! (b + i)"
      using n by (auto simp: in_set_conv_nth c_def)
    show ?thesis unfolding i(2) c_def
      using sorted_lower [OF order_trans [OF outliers(1) [OF assms(5)] byz], of "b + i"]
        sorted_upper [OF order_trans [OF outliers(2) [OF assms(5)] byz], of "b + i"] i(1) n by simp
  qed
  moreover have "take (length us - 2 * b) (drop b c) \<noteq> []" using n by (simp add: c_def)
  ultimately show ?thesis
    using mean_bounds [of "take (length us - 2 * b) (drop b c)" lo hi] assms(4) slice
    by (simp add: r per_column_def c_def)
qed

text \<open>
  The trimmed mean is robust: with at most \<open>beta\<close> Byzantine clients, whatever they send, every
  coordinate of the result stays between the bounds the honest clients' values stay between.
\<close>

theorem trimmed_mean_bounded:
  assumes "trimmed_mean us beta = Inr r" and "0 \<le> beta" and "int (byzantine H us) \<le> beta"
    and "j < length r" and "honest_within H us j lo hi"
  shows "lo \<le> r ! j \<and> r ! j \<le> hi"
  by (rule trimmed_mean_range [OF assms])

text \<open>
  The coordinate-wise median is robust: while the Byzantine clients are a minority, every
  coordinate of the result stays between the bounds of the honest clients' values.
\<close>

theorem median_bounded:
  assumes "coordinate_median us = Inr r" and "2 * byzantine H us < length us"
    and "j < length r" and "honest_within H us j lo hi"
  shows "lo \<le> r ! j \<and> r ! j \<le> hi"
proof -
  let ?c = "column us j"
  have r: "r ! j = median ?c"
    using assms(1,3) by (auto simp: coordinate_median_def bindE_eq_Inr stack_shape per_column_def)
  have in_range: "lo \<le> sort ?c ! k \<and> sort ?c ! k \<le> hi"
    if "byzantine H us \<le> k" "k + byzantine H us < length us" for k
    using sorted_lower [OF outliers(1) [OF assms(4)] that(1)] sorted_upper [OF outliers(2) [OF assms(4)]]
      that by simp
  show ?thesis
  proof (cases "odd (length us)")
    case True
    then show ?thesis
      using in_range [of "length us div 2"] assms(2) by (simp add: r median_def Let_def)
  next
    case False
    then have "byzantine H us < length us div 2" using assms(2) by (elim evenE [OF notnotD]) simp
    then have "lo \<le> sort ?c ! (length us div 2) \<and> sort ?c ! (length us div 2) \<le> hi"
      "lo \<le> sort ?c ! (length us div 2 - 1) \<and> sort ?c ! (length us div 2 - 1) \<le> hi"
      by (intro in_range; simp)+
    then show ?thesis using False by (simp add: r median_def Let_def)
  qed
qed

section \<open>Krum\<close>

lemma argmin_least: "xs \<noteq> [] \<Longrightarrow> argmin xs < length xs \<and> (\<forall>i < length xs. xs ! argmin xs \<le> xs ! i)"
proof (induction xs rule: argmin.induct)
  case (3 x y ys)
  then have IH: "argmin (y # ys) < length (y # ys)" "\<forall>i < length (y # ys). (y # ys) ! argmin (y # ys) \<le> (y # ys) ! i"
    by simp_all
  have all: "(\<forall>i < length (x # y # ys). Q i) \<longleftrightarrow> Q 0 \<and> (\<forall>i < length (y # ys). Q (Suc i))" for Q
    by (auto simp: less_Suc_eq_0_disj)
  show ?case
  proof (cases "x \<le> (y # ys) ! argmin (y # ys)")
    case True
    then show ?thesis using IH unfolding all by (auto intro: order_trans)
  next
    case False
    then show ?thesis using IH unfolding all by auto
  qed
qed simp_all

lemma sqdist_nonneg: "0 \<le> sqdist u v"
  unfolding sqdist_def by (rule sum_list_nonneg) auto

lemma member_le_sum_list: "\<forall>y \<in> set ys. 0 \<le> y \<Longrightarrow> x \<in> set ys \<Longrightarrow> x \<le> sum_list ys" for x :: real
proof (induction ys)
  case (Cons y ys)
  then have "0 \<le> sum_list ys" by (intro sum_list_nonneg) simp
  with Cons show ?case by auto
qed simp

lemma sum_list_le: "\<forall>y \<in> set ys. y \<le> d \<Longrightarrow> sum_list ys \<le> real (length ys) * d"
  by (induction ys) (auto simp: algebra_simps)

lemma krum_neighbours:
  "0 \<le> m \<Longrightarrow> krum_score us m i = sum_list (take (nat m) (drop 1 (sort (map (sqdist (us ! i)) us))))"
  by (simp add: krum_score_def py_slice_nonneg nat_add_distrib)

lemma honest_exists: "byzantine H us < length us \<Longrightarrow> \<exists>h \<in> H. h < length us"
proof (rule ccontr)
  assume "byzantine H us < length us" "\<not> (\<exists>h \<in> H. h < length us)"
  then have "{..<length us} - H = {..<length us}" by auto
  with \<open>byzantine H us < length us\<close> show False by (simp add: byzantine_def)
qed

text \<open>An honest client's score, when honest clients are within \<open>D\<close> of each other.\<close>

lemma honest_score:
  assumes D: "\<forall>i \<in> H. \<forall>k \<in> H. i < length us \<longrightarrow> k < length us \<longrightarrow> sqdist (us ! i) (us ! k) \<le> D"
    and h: "h \<in> H" "h < length us" and byz: "byzantine H us \<le> f" and m: "m + f + 1 < length us"
  shows "krum_score us (int m) h \<le> real m * D"
proof -
  let ?ds = "map (sqdist (us ! h)) us"
  have col: "?ds = column (map (\<lambda>v. [sqdist (us ! h) v]) us) 0" by (simp add: column_def)
  have "honest_within H (map (\<lambda>v. [sqdist (us ! h) v]) us) 0 0 D"
    using D h by (auto simp: honest_within_def sqdist_nonneg)
  from outliers(2) [OF this] have out: "length (filter (\<lambda>x. D < x) ?ds) \<le> f"
    using byz unfolding col by (simp add: byzantine_def)
  have "\<forall>y \<in> set (take m (drop 1 (sort ?ds))). y \<le> D"
  proof
    fix y assume "y \<in> set (take m (drop 1 (sort ?ds)))"
    then obtain i where "i < m" "y = sort ?ds ! (1 + i)" using m by (auto simp: in_set_conv_nth)
    then show "y \<le> D" using sorted_upper [OF out, of "1 + i"] m by simp
  qed
  moreover have "length (take m (drop 1 (sort ?ds))) = m" using m by simp
  ultimately show ?thesis
    using sum_list_le [of "take m (drop 1 (sort ?ds))" D] by (simp add: krum_neighbours)
qed

text \<open>Whoever has a score of at most \<open>B\<close> is within \<open>B\<close> of an honest client.\<close>

lemma low_score_near_honest:
  assumes score: "krum_score us (int m) i \<le> B" and byz: "byzantine H us \<le> f"
    and m: "f < m" "m < length us"
  shows "\<exists>k \<in> H. k < length us \<and> sqdist (us ! i) (us ! k) \<le> B"
proof (rule ccontr)
  assume far: "\<not> ?thesis"
  let ?ds = "map (sqdist (us ! i)) us"
  let ?near = "take m (drop 1 (sort ?ds))"
  have "\<forall>y \<in> set ?near. 0 \<le> y" by (auto dest!: in_set_takeD in_set_dropD simp: sqdist_nonneg)
  moreover have "sum_list ?near \<le> B" using score by (simp add: krum_neighbours)
  ultimately have le: "\<forall>y \<in> set ?near. y \<le> B" using member_le_sum_list order_trans by blast
  have "length (filter (\<lambda>x. x \<le> B) ?near) = m"
    using le m by (simp add: filter_True)
  moreover have "length (filter (\<lambda>x. x \<le> B) ?near) \<le> length (filter (\<lambda>x. x \<le> B) (sort ?ds))"
    by (metis append_take_drop_id drop_drop filter_append le_add1 le_add2 length_append order_trans)
  moreover have "length (filter (\<lambda>x. x \<le> B) (sort ?ds)) = length (filter (\<lambda>x. x \<le> B) ?ds)"
    by (rule filter_length_mset) simp
  moreover have "length (filter (\<lambda>x. x \<le> B) ?ds) \<le> byzantine H us"
    unfolding byzantine_def length_filter_conv_card
    using far by (intro card_mono) auto
  ultimately show False using byz m(1) by simp
qed


section \<open>FLTrust\<close>

lemma dot_self_nonneg: "0 \<le> dot v v"
  unfolding dot_def by (rule sum_list_nonneg) (auto simp: set_zip)

lemma norm2_nonneg [simp]: "0 \<le> norm2 v"
  by (simp add: norm2_def dot_self_nonneg)

lemma norm2_sq: "(norm2 v)\<^sup>2 = (\<Sum>j < length v. (v ! j)\<^sup>2)"
proof -
  have "dot v v = (\<Sum>j < length v. (v ! j)\<^sup>2)"
    by (simp add: dot_def sum_list_sum_nth power2_eq_square atLeast0LessThan)
  then show ?thesis using dot_self_nonneg [of v] by (simp add: norm2_def)
qed

lemma dot_scale: "dot (map ((*) c) u) v = c * dot u v"
proof (induction u arbitrary: v)
  case (Cons x u)
  show ?case by (cases v) (use Cons in \<open>simp_all add: dot_def algebra_simps\<close>)
qed (simp add: dot_def)

lemma dot_commute: "dot u v = dot v u"
  unfolding dot_def
proof (induction u arbitrary: v)
  case (Cons x u)
  then show ?case by (cases v) (simp_all add: mult.commute)
qed simp

lemma norm2_scale: "0 \<le> c \<Longrightarrow> norm2 (map ((*) c) u) = c * norm2 u"
  by (simp add: norm2_def dot_scale dot_commute [of u "map ((*) c) u"] real_sqrt_mult flip: mult.assoc)

lemma trust_scale: "0 < c \<Longrightarrow> trust g0 (map ((*) c) u) = trust g0 u"
  by (simp add: trust_def norm2_scale dot_scale zero_less_mult_iff Let_def)

lemma rescaled_scale: "0 < c \<Longrightarrow> rescaled g0 (map ((*) c) u) = rescaled g0 u"
proof -
  assume "0 < c"
  have "norm2 u = 0 \<Longrightarrow> \<forall>x \<in> set u. x = 0"
    using norm2_sq [of u] by (auto simp: sum_nonneg_eq_0_iff in_set_conv_nth)
  then show ?thesis using \<open>0 < c\<close>
    by (cases "norm2 u = 0") (auto simp: rescaled_def norm2_scale zero_less_mult_iff less_le)
qed

lemma stack_lengths:
  "stack us = (if us \<noteq> [] \<and> (\<forall>n \<in> set (map length us). n = hd (map length us)) then Inr us else Inl ValueError)"
  by (cases us) (auto simp: stack_def list_all_iff)

lemma map_update_same: "F (f (us ! i)) = F (us ! i) \<Longrightarrow> map F (us[i := f (us ! i)]) = map F us"
  by (metis list_update_id map_update)

text \<open>
  Boosting buys nothing: multiplying one client's update by any positive factor changes neither
  the aggregate nor any trust score.
\<close>

theorem fltrust_boost:
  assumes "0 < c"
  shows "fltrust (us[i := map ((*) c) (us ! i)]) g0 = fltrust us g0"
proof (cases "us = []")
  case False
  let ?us = "us[i := map ((*) c) (us ! i)]"
  have len: "map length ?us = map length us" by (rule map_update_same) simp
  have ne: "?us \<noteq> []" using False by simp
  have dim: "dim ?us = dim us"
    using len hd_map [OF ne, of length] hd_map [OF False, of length] by (simp add: dim_def)
  have trust: "map (trust g0) ?us = map (trust g0) us"
    by (rule map_update_same) (rule trust_scale [OF assms])
  have agg: "map (\<lambda>u. trust g0 u * rescaled g0 u ! j) ?us = map (\<lambda>u. trust g0 u * rescaled g0 u ! j) us" for j
    by (rule map_update_same) (simp add: trust_scale [OF assms] rescaled_scale [OF assms])
  show ?thesis
    unfolding fltrust_def stack_lengths len
    using False ne by (simp add: dim trust agg Let_def del: map_update)
qed (simp add: fltrust_def)

text \<open>A weighted mean of vectors is no longer than the longest: convexity of the square.\<close>

lemma weighted_square:
  fixes w x :: "'a \<Rightarrow> real"
  assumes "\<forall>u \<in> set us. 0 \<le> w u" "0 < (\<Sum>u\<leftarrow>us. w u)"
  shows "((\<Sum>u\<leftarrow>us. w u * x u) / (\<Sum>u\<leftarrow>us. w u))\<^sup>2 \<le> (\<Sum>u\<leftarrow>us. w u * (x u)\<^sup>2) / (\<Sum>u\<leftarrow>us. w u)"
proof -
  let ?W = "\<Sum>u\<leftarrow>us. w u"
  define \<mu> where "\<mu> = (\<Sum>u\<leftarrow>us. w u * x u) / ?W"
  have "0 \<le> (\<Sum>u\<leftarrow>us. w u * (x u - \<mu>)\<^sup>2)"
    using assms(1) by (intro sum_list_nonneg) auto
  also have "\<dots> = (\<Sum>u\<leftarrow>us. w u * (x u)\<^sup>2) - 2 * \<mu> * (\<Sum>u\<leftarrow>us. w u * x u) + \<mu>\<^sup>2 * ?W"
    by (induction us) (simp_all add: algebra_simps power2_eq_square)
  also have "(\<Sum>u\<leftarrow>us. w u * x u) = \<mu> * ?W" using assms(2) by (simp add: \<mu>_def)
  finally have "\<mu>\<^sup>2 * ?W \<le> (\<Sum>u\<leftarrow>us. w u * (x u)\<^sup>2)" by (simp add: power2_eq_square algebra_simps)
  then show ?thesis using assms(2) by (simp add: \<mu>_def pos_le_divide_eq)
qed

lemma rescaled_norm: "norm2 u > 0 \<Longrightarrow> (\<Sum>j < length u. (rescaled g0 u ! j)\<^sup>2) = (norm2 g0)\<^sup>2"
proof -
  assume u: "norm2 u > 0"
  have "(\<Sum>j < length u. (rescaled g0 u ! j)\<^sup>2) = (norm2 g0 / norm2 u)\<^sup>2 * (norm2 u)\<^sup>2"
    unfolding norm2_sq [of u] sum_distrib_left
    using u by (intro sum.cong) (simp_all add: rescaled_def power_mult_distrib power_divide)
  then show ?thesis using u by (simp add: power_divide)
qed

lemma trust_nonneg: "0 \<le> trust g0 u"
  by (simp add: trust_def Let_def)

lemma trust_mass: "length u = length g0 \<Longrightarrow> trust g0 u * (\<Sum>j < length g0. (rescaled g0 u ! j)\<^sup>2) = trust g0 u * (norm2 g0)\<^sup>2"
  using rescaled_norm [of u g0] by (cases "norm2 u > 0") (simp_all add: trust_def)

lemma sum_sum_list: "(\<Sum>j \<in> A. \<Sum>u\<leftarrow>us. f u j) = (\<Sum>u\<leftarrow>us. \<Sum>j \<in> A. f u j)"
  by (induction us) (simp_all add: sum.distrib)

text \<open>
  FLTrust bounds every client's influence: whatever the clients send, the aggregate is at most as
  long as the server's own update.
\<close>

theorem fltrust_bounded:
  assumes "fltrust us g0 = Inr r"
  shows "norm2 (flt_aggregate r) \<le> norm2 g0"
proof -
  let ?ts = "\<Sum>u\<leftarrow>us. trust g0 u"
  let ?agg = "map (\<lambda>j. sum_list (map (\<lambda>u. trust g0 u * rescaled g0 u ! j) us) / ?ts) [0..<length g0]"
  from assms have len: "\<forall>u \<in> set us. length u = length g0" and
    r: "flt_aggregate r \<in> {replicate (length g0) 0, g0} \<or> 0 < ?ts \<and> flt_aggregate r = ?agg"
    by (auto simp: fltrust_def bindE_eq_Inr stack_shape Let_def split: if_splits)
  have zero: "norm2 (replicate n 0) = 0" for n
    by (simp add: norm2_def dot_def, induction n) simp_all
  have "norm2 ?agg \<le> norm2 g0" if W: "0 < ?ts"
  proof -
    have "(norm2 ?agg)\<^sup>2 = (\<Sum>j < length g0. ((\<Sum>u\<leftarrow>us. trust g0 u * rescaled g0 u ! j) / ?ts)\<^sup>2)"
      by (simp add: norm2_sq)
    also have "\<dots> \<le> (\<Sum>j < length g0. (\<Sum>u\<leftarrow>us. trust g0 u * (rescaled g0 u ! j)\<^sup>2) / ?ts)"
      by (intro sum_mono weighted_square W) (simp add: trust_nonneg)
    also have "\<dots> = (\<Sum>u\<leftarrow>us. trust g0 u * (\<Sum>j < length g0. (rescaled g0 u ! j)\<^sup>2)) / ?ts"
      by (simp only: sum_divide_distrib [symmetric] sum_sum_list sum_distrib_left)
    also have "(\<Sum>u\<leftarrow>us. trust g0 u * (\<Sum>j < length g0. (rescaled g0 u ! j)\<^sup>2)) = (\<Sum>u\<leftarrow>us. trust g0 u * (norm2 g0)\<^sup>2)"
      using len by (intro arg_cong [of _ _ sum_list] map_cong) (simp_all add: trust_mass)
    also have "\<dots> / ?ts = (norm2 g0)\<^sup>2" using W by (simp add: sum_list_mult_const)
    finally show ?thesis by (rule power2_le_imp_le) simp
  qed
  with r zero show ?thesis by auto
qed

section \<open>Flattening\<close>

lemma unflatten_concat:
  "\<forall>(k, a) \<in> set items. array_ok a \<Longrightarrow> distinct (map fst items) \<Longrightarrow> fst ` set out \<inter> fst ` set items = {} \<Longrightarrow>
   unflatten_from (length pre) (pre @ concat (map (\<lambda>(k, a). data a) items))
     (map (\<lambda>(k, a). (k, shape a)) items) out = Inr (out @ items)"
proof (induction items arbitrary: pre out)
  case (Cons ka items)
  obtain k a where ka: "ka = (k, a)" by (cases ka)
  have n: "(if shape a = [] then 1 else prod_list (shape a)) = length (data a)"
    using Cons.prems(1) by (simp add: ka array_ok_def)
  have "dict_set k a out = out @ [(k, a)]" using Cons.prems(3) by (intro dict_set_fresh) (auto simp: ka)
  then have "dict_set k \<lparr>shape = shape a, data = data a\<rparr> out = out @ [(k, a)]"
    by (cases a) simp
  moreover have "unflatten_from (length (pre @ data a)) ((pre @ data a) @ concat (map (\<lambda>(k, a). data a) items))
      (map (\<lambda>(k, a). (k, shape a)) items) (out @ [(k, a)]) = Inr ((out @ [(k, a)]) @ items)"
    using Cons.prems by (intro Cons.IH) (auto simp: ka)
  ultimately show ?case by (simp add: ka n Let_def)
qed simp

text \<open>
  Unflattening a flattened parameter dictionary gives back every array under its key.
\<close>

theorem flatten_roundtrip:
  assumes "distinct (map fst state)" and "\<forall>(k, a) \<in> set state. array_ok a"
    and "flatten_state state = (flat, manifest)"
  shows "\<exists>state'. unflatten_state flat manifest = Inr state' \<and> map_of state' = map_of state \<and>
           mset state' = mset state"
proof -
  let ?items = "sort_key fst state"
  have ok: "\<forall>(k, a) \<in> set ?items. array_ok a" "distinct (map fst ?items)"
    using assms(1,2) by (auto simp: distinct_map)
  have "unflatten_state flat manifest = Inr ?items"
    using unflatten_concat [OF ok, of "[]" "[]"] assms(3)
    by (auto simp: flatten_state_def unflatten_state_def Let_def)
  moreover have "map_of ?items = map_of state"
  proof
    fix k
    have "map_of ?items k = Some v \<longleftrightarrow> map_of state k = Some v" for v
      using map_of_eq_Some_iff [OF assms(1)] map_of_eq_Some_iff [OF ok(2)] by simp
    then show "map_of ?items k = map_of state k" by (metis not_None_eq)
  qed
  ultimately show ?thesis by simp
qed

section \<open>Witnesses\<close>

text \<open>Four clients in one dimension, the last one Byzantine.\<close>

definition demo_updates :: "real list list" where
  "demo_updates = [[1], [2], [3], [100]]"

lemma demo_honest: "honest_within {0, 1, 2} demo_updates 0 1 3" "byzantine {0, 1, 2} demo_updates = 1"
proof -
  show "honest_within {0, 1, 2} demo_updates 0 1 3" by (simp add: honest_within_def demo_updates_def)
  have "{..<4} - {0, 1, 2} = {3 :: nat}" by auto
  then show "byzantine {0, 1, 2} demo_updates = 1" by (simp add: byzantine_def demo_updates_def)
qed

theorem trimmed_mean_bounded_witness:
  "trimmed_mean demo_updates 1 = Inr [5 / 2] \<and> (1 :: real) \<le> [5 / 2] ! 0"
proof -
  have run: "trimmed_mean demo_updates 1 = Inr [5 / 2]"
    by (simp add: demo_updates_def trimmed_mean_def stack_def per_column_def dim_def column_def mean_def
        py_slice_nonneg Let_def sort_key_def)
  show ?thesis using trimmed_mean_bounded [OF run, of "{0, 1, 2}" 0 1 3] demo_honest run by simp
qed

theorem median_bounded_witness:
  "coordinate_median demo_updates = Inr [5 / 2] \<and> (5 / 2 :: real) \<le> 3"
proof -
  have run: "coordinate_median demo_updates = Inr [5 / 2]"
    by (simp add: demo_updates_def coordinate_median_def stack_def per_column_def dim_def column_def median_def
        Let_def sort_key_def)
  have "2 * byzantine {0, 1, 2} demo_updates < length demo_updates"
    using demo_honest(2) by (simp only:) (simp add: demo_updates_def)
  from median_bounded [OF run this, of 0 1 3] demo_honest run show ?thesis by simp
qed

definition demo_krum :: "real list list" where
  "demo_krum = [[1], [2], [2], [3], [100]]"


theorem fltrust_boost_witness:
  "fltrust [[1, 0], [100 * 0, 100 * 1]] [1, 1] = fltrust [[1, 0], [0, 1]] [1, 1]"
  using fltrust_boost [of 100 "[[1, 0], [0, 1]]" 1 "[1, 1]"] by simp

theorem fltrust_bounded_witness:
  "\<exists>r. fltrust [[3], [-5]] [2] = Inr r \<and> norm2 (flt_aggregate r) \<le> 2"
proof -
  have "\<exists>r. fltrust [[3], [-5]] [2] = Inr r"
    by (simp add: fltrust_def stack_def dim_def Let_def)
  then obtain r where run: "fltrust [[3], [-5]] [2] = Inr r" by blast
  have "norm2 [2] = 2" by (simp add: norm2_def dot_def)
  then show ?thesis using fltrust_bounded [OF run] run by auto
qed

theorem flatten_roundtrip_witness:
  "\<exists>state'. unflatten_state [4, 1, 2] [(''b'', []), (''w'', [2])] = Inr state' \<and>
     map_of state' ''w'' = Some \<lparr>shape = [2], data = [1, 2]\<rparr>"
proof -
  let ?s = "[(''w'', \<lparr>shape = [2], data = [1, 2]\<rparr>), (''b'', \<lparr>shape = [], data = [4]\<rparr>)]"
  have "flatten_state ?s = ([4, 1, 2], [(''b'', []), (''w'', [2])])" by code_simp
  from flatten_roundtrip [OF _ _ this] show ?thesis by (fastforce simp: array_ok_def)
qed

end
