(* ===== verification/Dsa.thy ===== *)
theory Dsa
  imports Prelude
begin

text \<open>
  The dynamic spectrum access environment (\<open>spectrum/dsa_env.py\<close>): primary users as Gilbert-Elliott
  chains, noisy sensing, the environment of one learner and the world in which every user acts. The
  random generator is NumPy's: its draws are arguments, as are the seeds that only select them. Rewards
  and probabilities are exact reals.
\<close>

section \<open>Configuration and states\<close>

record dsa_config =
  n_channels :: nat
  n_users :: nat
  p_idle_to_busy :: real
  p_busy_to_idle :: real
  sense_error :: real
  max_steps :: int
  reward_success :: real
  reward_collision :: real
  reward_idle :: real
  reward_pu_clash :: real

definition dsa_config_default :: dsa_config where
  "dsa_config_default =
     \<lparr>n_channels = 6, n_users = 3, p_idle_to_busy = 1 / 5, p_busy_to_idle = 2 / 5, sense_error = 1 / 20,
      max_steps = 200, reward_success = 1, reward_collision = - 1 / 2, reward_idle = 0, reward_pu_clash = - 1 / 2\<rparr>"

definition n_states :: "nat \<Rightarrow> nat" where
  "n_states n = push_bit n 1"

definition n_actions :: "nat \<Rightarrow> nat" where
  "n_actions n = n + 1"

fun encode_from :: "nat \<Rightarrow> bool list \<Rightarrow> nat \<Rightarrow> nat" where
  "encode_from i [] state = state"
| "encode_from i (b # bs) state = encode_from (i + 1) bs (if b then or state (push_bit i 1) else state)"

definition encode_sensing :: "bool list \<Rightarrow> nat" where
  "encode_sensing sense_bits = encode_from 0 sense_bits 0"

section \<open>Primary users and sensing\<close>

text \<open>A chain holds for every channel whether its licensee is busy.\<close>

definition chain_initial :: "dsa_config \<Rightarrow> real list \<Rightarrow> bool list res" where
  "chain_initial cfg roll =
     (if p_idle_to_busy cfg + p_busy_to_idle cfg = 0 then Inl ZeroDivisionError
      else Inr (map (\<lambda>r. r < p_idle_to_busy cfg / (p_idle_to_busy cfg + p_busy_to_idle cfg)) roll))"

definition chain_step :: "dsa_config \<Rightarrow> real list \<Rightarrow> bool list \<Rightarrow> bool list" where
  "chain_step cfg roll busy =
     map2 (\<lambda>b r. if b then \<not> r < p_busy_to_idle cfg else r < p_idle_to_busy cfg) busy roll"

definition sense_channels :: "dsa_config \<Rightarrow> real list \<Rightarrow> bool list \<Rightarrow> bool list" where
  "sense_channels cfg flip pu_busy = map2 (\<lambda>b r. if r < sense_error cfg then b else \<not> b) pu_busy flip"

text \<open>The draws of one slot and of a reset: what \<open>rng.random\<close> and \<open>rng.integers\<close> return.\<close>

record slot_draw =
  sd_others :: "nat list"
  sd_roll :: "real list"
  sd_flip :: "real list"

definition draw_ok :: "dsa_config \<Rightarrow> slot_draw \<Rightarrow> bool" where
  "draw_ok cfg d \<longleftrightarrow>
     length (sd_others d) = n_users cfg - 1 \<and> list_all (\<lambda>c. c < n_channels cfg) (sd_others d) \<and>
     length (sd_roll d) = n_channels cfg \<and> length (sd_flip d) = n_channels cfg"

section \<open>The learner's environment\<close>

record dsa_env =
  env_cfg :: dsa_config
  env_busy :: "bool list"
  env_sense :: "bool list"
  env_t :: int

definition env_reset :: "dsa_config \<Rightarrow> slot_draw \<Rightarrow> (nat \<times> dsa_env) res" where
  "env_reset cfg d =
     bindE (chain_initial cfg (sd_roll d)) (\<lambda>busy.
       let sense = sense_channels cfg (sd_flip d) busy
       in Inr (encode_sensing sense, \<lparr>env_cfg = cfg, env_busy = busy, env_sense = sense, env_t = 0\<rparr>))"

datatype slot_result = Idle | PuClash | Collision | Success

fun reward_of :: "dsa_config \<Rightarrow> slot_result \<Rightarrow> real" where
  "reward_of cfg Idle = reward_idle cfg"
| "reward_of cfg PuClash = reward_pu_clash cfg"
| "reward_of cfg Collision = reward_collision cfg"
| "reward_of cfg Success = reward_success cfg"

definition slot_result :: "dsa_config \<Rightarrow> bool list \<Rightarrow> nat list \<Rightarrow> nat \<Rightarrow> slot_result" where
  "slot_result cfg pu_busy others action =
     (if action < n_channels cfg then
        (if pu_busy ! action then PuClash
         else if count_list others action + 1 > 1 then Collision
         else Success)
      else Idle)"

record step_result =
  sr_obs :: nat
  sr_reward :: real
  sr_done :: bool
  sr_result :: slot_result

definition env_step :: "slot_draw \<Rightarrow> int \<Rightarrow> dsa_env \<Rightarrow> (step_result \<times> dsa_env) res" where
  "env_step d action e =
     (let cfg = env_cfg e
      in if \<not> (0 \<le> action \<and> action \<le> int (n_channels cfg)) then Inl ValueError
         else
           let out = slot_result cfg (env_busy e) (sd_others d) (nat action);
               busy = chain_step cfg (sd_roll d) (env_busy e);
               sense = sense_channels cfg (sd_flip d) busy;
               t = env_t e + 1
           in Inr (\<lparr>sr_obs = encode_sensing sense, sr_reward = reward_of cfg out, sr_done = t \<ge> max_steps cfg,
                    sr_result = out\<rparr>,
                   e\<lparr>env_busy := busy, env_sense := sense, env_t := t\<rparr>))"

section \<open>The world\<close>

text \<open>
  NumPy's indexing: a negative index counts from the end, and one outside raises \<open>IndexError\<close>. Channels
  of the world are indexed so, and an action of at least \<open>n_channels\<close> is idle.
\<close>

definition np_index :: "nat \<Rightarrow> int \<Rightarrow> nat res" where
  "np_index n i =
     (if 0 \<le> i \<and> i < int n then Inr (nat i) else if - int n \<le> i \<and> i < 0 then Inr (nat (i + int n)) else Inl IndexError)"

fun tx_channels :: "nat \<Rightarrow> int list \<Rightarrow> nat option list res" where
  "tx_channels n [] = Inr []"
| "tx_channels n (a # as) =
     (if a \<ge> int n then bindE (tx_channels n as) (\<lambda>cs. Inr (None # cs))
      else bindE (np_index n a) (\<lambda>c. bindE (tx_channels n as) (\<lambda>cs. Inr (Some c # cs))))"

definition user_result :: "bool list \<Rightarrow> nat option list \<Rightarrow> nat option \<Rightarrow> slot_result" where
  "user_result pu_busy chans c =
     (case c of
        None \<Rightarrow> Idle
      | Some a \<Rightarrow> if pu_busy ! a then PuClash else if count_list chans (Some a) > 1 then Collision else Success)"

record world_result =
  wr_obs :: "nat list"
  wr_rewards :: "real list"
  wr_done :: bool
  wr_successes :: nat
  wr_collisions :: nat
  wr_clashes :: nat

definition world_step :: "slot_draw \<Rightarrow> int list \<Rightarrow> dsa_env \<Rightarrow> (world_result \<times> dsa_env) res" where
  "world_step d actions e =
     (let cfg = env_cfg e
      in if length actions \<noteq> n_users cfg then Inl ValueError
         else bindE (tx_channels (n_channels cfg) actions) (\<lambda>chans.
           let outs = map (user_result (env_busy e) chans) chans;
               busy = chain_step cfg (sd_roll d) (env_busy e);
               sense = sense_channels cfg (sd_flip d) busy;
               t = env_t e + 1
           in Inr (\<lparr>wr_obs = replicate (n_users cfg) (encode_sensing sense), wr_rewards = map (reward_of cfg) outs,
                    wr_done = t \<ge> max_steps cfg, wr_successes = count_list outs Success,
                    wr_collisions = count_list outs Collision, wr_clashes = count_list outs PuClash\<rparr>,
                   e\<lparr>env_busy := busy, env_sense := sense, env_t := t\<rparr>)))"

definition world_reset :: "dsa_config \<Rightarrow> slot_draw \<Rightarrow> (nat list \<times> dsa_env) res" where
  "world_reset cfg d = bindE (env_reset cfg d) (\<lambda>(obs, e). Inr (replicate (n_users cfg) obs, e))"

section \<open>The state space\<close>

lemma bit_encode_from:
  "bit (encode_from i bs s) k \<longleftrightarrow> bit s k \<or> (i \<le> k \<and> k < i + length bs \<and> bs ! (k - i))"
proof (induction bs arbitrary: i s)
  case (Cons b bs)
  have "bit (if b then or s (push_bit i 1) else s) k \<longleftrightarrow> bit s k \<or> (b \<and> k = i)"
    by (auto simp: bit_or_iff bit_exp_iff)
  then show ?case by (auto simp: Cons nth_Cons' Suc_diff_le less_Suc_eq_le)
qed auto

lemma encode_sensing_less: "encode_sensing bs < n_states (length bs)"
proof -
  have "encode_sensing bs = take_bit (length bs) (encode_sensing bs)"
    by (rule bit_eqI) (auto simp: encode_sensing_def bit_encode_from bit_take_bit_iff)
  moreover have "take_bit (length bs) (encode_sensing bs) < 2 ^ length bs" by (rule take_bit_nat_less_exp)
  ultimately show ?thesis by (simp add: n_states_def push_bit_eq_mult)
qed

lemma encode_sensing_bits: "map (\<lambda>i. bit (encode_sensing bs) i) [0..<length bs] = bs"
  by (intro nth_equalityI) (simp_all add: encode_sensing_def bit_encode_from)

lemma encode_sensing_inj: "length xs = length ys \<Longrightarrow> encode_sensing xs = encode_sensing ys \<longleftrightarrow> xs = ys"
  by (metis encode_sensing_bits)

text \<open>
  The states are numbered one to one: a sensing vector of \<open>n\<close> channels has a state below \<open>2 ^ n\<close>, whose
  bits are the vector.
\<close>

theorem encode_sensing_correct:
  "encode_sensing bs < n_states (length bs) \<and>
   map (\<lambda>i. bit (encode_sensing bs) i) [0..<length bs] = bs"
  by (simp add: encode_sensing_less encode_sensing_bits)

section \<open>Collisions\<close>

lemma tx_channels_range: "tx_channels n as = Inr cs \<Longrightarrow> length cs = length as \<and> (\<forall>c. Some c \<in> set cs \<longrightarrow> c < n)"
proof (induction as arbitrary: cs)
  case (Cons a as)
  then show ?case
    by (auto simp: bindE_eq_Inr np_index_def nat_less_iff split: if_splits)
qed simp

lemma tx_channels_length: "tx_channels n as = Inr cs \<Longrightarrow> length cs = length as"
  using tx_channels_range by blast

lemma count_results:
  "count_list outs Success + count_list outs Collision + count_list outs PuClash + count_list outs Idle = length outs"
proof (induction outs)
  case (Cons x xs)
  then show ?case by (cases x) auto
qed simp

lemma count_list_two:
  assumes "i < length xs" "j < length xs" "i \<noteq> j" "xs ! i = x" "xs ! j = x"
  shows "count_list xs x > 1"
proof -
  have "{i, j} \<subseteq> {k. k < length xs \<and> xs ! k = x}" using assms by auto
  then have "card {i, j} \<le> card {k. k < length xs \<and> xs ! k = x}" by (intro card_mono) auto
  then show ?thesis using assms(3) by (simp add: count_list_eq_length_filter length_filter_conv_card eq_commute)
qed

lemma count_list_card: "count_list xs x = card {i. i < length xs \<and> xs ! i = x}"
  by (simp add: count_list_eq_length_filter length_filter_conv_card eq_commute)

lemma count_list_other:
  assumes "count_list xs x > 1" and "i < length xs"
  shows "\<exists>j < length xs. j \<noteq> i \<and> xs ! j = x"
proof (rule ccontr)
  assume "\<not> ?thesis"
  then have "{j. j < length xs \<and> xs ! j = x} \<subseteq> {i}" by auto
  then have "card {j. j < length xs \<and> xs ! j = x} \<le> card {i}" by (intro card_mono) auto
  then show False using assms(1) by (simp add: count_list_card)
qed

definition slot_chans :: "dsa_env \<Rightarrow> int list \<Rightarrow> nat option list" where
  "slot_chans e actions = (case tx_channels (n_channels (env_cfg e)) actions of Inl _ \<Rightarrow> [] | Inr cs \<Rightarrow> cs)"

lemma world_step_outs:
  assumes "world_step d actions e = Inr (w, e')"
  defines "outs \<equiv> map (user_result (env_busy e) (slot_chans e actions)) (slot_chans e actions)"
  shows "length outs = n_users (env_cfg e)" "wr_successes w = count_list outs Success"
    "wr_collisions w = count_list outs Collision" "wr_clashes w = count_list outs PuClash"
    "wr_rewards w = map (reward_of (env_cfg e)) outs"
  using assms(1) by (auto simp: world_step_def outs_def slot_chans_def bindE_eq_Inr Let_def tx_channels_length split: if_splits)

lemma user_result_Success:
  "user_result busy cs (cs ! i) = Success \<longleftrightarrow>
     (\<exists>c. cs ! i = Some c \<and> \<not> busy ! c \<and> \<not> count_list cs (Some c) > 1)"
  by (auto simp: user_result_def split: option.split if_splits)

lemma user_result_Collision:
  "user_result busy cs (cs ! i) = Collision \<longleftrightarrow>
     (\<exists>c. cs ! i = Some c \<and> \<not> busy ! c \<and> count_list cs (Some c) > 1)"
  by (auto simp: user_result_def split: option.split if_splits)

lemma world_slot:
  assumes "world_step d actions e = Inr (w, e')"
  shows "wr_successes w + wr_collisions w + wr_clashes w + count_list (slot_chans e actions) None = n_users (env_cfg e) \<and>
    wr_collisions w \<noteq> 1 \<and>
    wr_successes w \<le> card {c. c < n_channels (env_cfg e) \<and> \<not> env_busy e ! c}"
proof (intro conjI)
  let ?cs = "slot_chans e actions" and ?busy = "env_busy e"
  let ?outs = "map (user_result ?busy ?cs) ?cs"
  note outs = world_step_outs [OF assms]
  have idle: "count_list (map (user_result ?busy xs) cs) Idle = count_list cs None" for cs xs
    by (induction cs) (auto simp: user_result_def split: option.splits)
  show "wr_successes w + wr_collisions w + wr_clashes w + count_list ?cs None = n_users (env_cfg e)"
    using outs count_results [of ?outs] idle by simp
  show "wr_collisions w \<noteq> 1"
  proof
    assume "wr_collisions w = 1"
    then have one: "count_list ?outs Collision = 1" using outs by simp
    then have "Collision \<in> set ?outs" by (metis count_notin zero_neq_one)
    then obtain i where i: "i < length ?cs" "user_result ?busy ?cs (?cs ! i) = Collision"
      by (auto simp: in_set_conv_nth)
    then obtain c where c: "?cs ! i = Some c" "\<not> ?busy ! c" "count_list ?cs (Some c) > 1"
      by (auto simp: user_result_Collision)
    obtain j where "j < length ?cs" "j \<noteq> i" "?cs ! j = Some c" using count_list_other [OF c(3) i(1)] by blast
    then have "count_list ?outs Collision > 1"
      using i c by (intro count_list_two [of i _ j]) (auto simp: user_result_Collision)
    with one show False by simp
  qed
  let ?S = "{i. i < length ?cs \<and> user_result ?busy ?cs (?cs ! i) = Success}"
  have "wr_successes w = card ?S" using outs by (auto simp: count_list_card intro!: arg_cong [where f = card])
  also have "\<dots> = card ((\<lambda>i. the (?cs ! i)) ` ?S)"
  proof (intro card_image [symmetric] inj_onI)
    fix i j assume ij: "i \<in> ?S" "j \<in> ?S" "the (?cs ! i) = the (?cs ! j)"
    show "i = j"
    proof (rule ccontr)
      assume "i \<noteq> j"
      then have "count_list ?cs (?cs ! i) > 1"
        using ij by (intro count_list_two [of i _ j]) (auto simp: user_result_Success)
      then show False using ij(1) by (auto simp: user_result_Success)
    qed
  qed
  also have "\<dots> \<le> card {c. c < n_channels (env_cfg e) \<and> \<not> ?busy ! c}"
  proof (intro card_mono)
    have "c < n_channels (env_cfg e)" if "Some c \<in> set ?cs" for c
      using that by (cases "tx_channels (n_channels (env_cfg e)) actions") (auto simp: slot_chans_def dest: tx_channels_range)
    then show "(\<lambda>i. the (?cs ! i)) ` ?S \<subseteq> {c. c < n_channels (env_cfg e) \<and> \<not> ?busy ! c}"
      by (auto simp: user_result_Success) (metis nth_mem)
  qed simp
  finally show "wr_successes w \<le> card {c. c < n_channels (env_cfg e) \<and> \<not> ?busy ! c}" .
qed

text \<open>
  A slot of the world accounts for every user: each one succeeds, collides, clashes with a licensee or
  is idle; collisions come at least in pairs; and at most one user succeeds on each channel that its
  licensee leaves idle.
\<close>

theorem world_accounts:
  assumes "world_step d actions e = Inr (w, e')"
  shows "wr_successes w + wr_collisions w + wr_clashes w + count_list (slot_chans e actions) None = n_users (env_cfg e) \<and>
    wr_collisions w \<noteq> 1 \<and>
    wr_successes w \<le> card {c. c < n_channels (env_cfg e) \<and> \<not> env_busy e ! c}"
  by (rule world_slot [OF assms])

text \<open>One deterministic policy for all users jams itself: with two users or more nobody succeeds.\<close>

theorem shared_action_jams:
  assumes "world_step d (replicate (n_users (env_cfg e)) a) e = Inr (w, e')" and "2 \<le> n_users (env_cfg e)"
  shows "wr_successes w = 0"
proof -
  let ?cs = "slot_chans e (replicate (n_users (env_cfg e)) a)"
  define c where "c = (if int (n_channels (env_cfg e)) \<le> a then None
    else case np_index (n_channels (env_cfg e)) a of Inr c \<Rightarrow> Some c | Inl _ \<Rightarrow> None)"
  have "tx_channels (n_channels (env_cfg e)) (replicate k a) = Inr cs \<Longrightarrow> set cs \<subseteq> {c}" for k cs
    by (induction k arbitrary: cs) (auto simp: bindE_eq_Inr c_def split: if_splits)
  then have "set ?cs \<subseteq> {c}"
    by (cases "tx_channels (n_channels (env_cfg e)) (replicate (n_users (env_cfg e)) a)") (auto simp: slot_chans_def)
  moreover have "length ?cs = n_users (env_cfg e)" using world_step_outs(1) [OF assms(1)] by simp
  ultimately have c: "?cs = replicate (n_users (env_cfg e)) c" by (intro replicate_eqI) auto
  have "user_result (env_busy e) ?cs x \<noteq> Success" if "x \<in> set ?cs" for x
  proof -
    have "x = c" using that c by simp
    moreover have "count_list ?cs c > 1"
      using c assms(2) by (intro count_list_two [of 0 _ 1]) auto
    ultimately show ?thesis by (auto simp: user_result_def split: option.split)
  qed
  then have "Success \<notin> set (map (user_result (env_busy e) ?cs) ?cs)" by force
  then show ?thesis using world_step_outs(2) [OF assms(1)] by (simp add: count_list_0_iff)
qed

text \<open>
  The learner's environment is the world as user 0 sees it: a step gives the reward, the observation,
  the end of the episode and the next state of the world in which the background users act as drawn.
\<close>

theorem env_is_world_of_user_0:
  assumes "draw_ok (env_cfg e) d" and "1 \<le> n_users (env_cfg e)" and "env_step d a e = Inr (r, e')"
  shows "\<exists>w. world_step d (a # map int (sd_others d)) e = Inr (w, e') \<and>
           wr_rewards w ! 0 = sr_reward r \<and> wr_obs w ! 0 = sr_obs r \<and> wr_done w = sr_done r"
proof -
  let ?n = "n_channels (env_cfg e)"
  have a: "0 \<le> a" "a \<le> int ?n" using assms(3) by (auto simp: env_step_def Let_def split: if_splits)
  have others: "list_all (\<lambda>c. c < ?n) (sd_others d)" "length (sd_others d) = n_users (env_cfg e) - 1"
    using assms(1) by (auto simp: draw_ok_def)
  have tx: "list_all (\<lambda>c. c < n) xs \<Longrightarrow> tx_channels n (map int xs) = Inr (map Some xs)" for n xs
    by (induction xs) (auto simp: np_index_def)
  have cnt: "count_list (map Some xs) (Some x) = count_list xs x" for xs :: "nat list" and x
    by (induction xs) auto
  have "tx_channels ?n (a # map int (sd_others d)) =
      Inr ((if a < int ?n then Some (nat a) else None) # map Some (sd_others d))"
    using a by (auto simp: tx [OF others(1)] np_index_def)
  moreover have "user_result (env_busy e) ((if a < int ?n then Some (nat a) else None) # map Some (sd_others d))
      (if a < int ?n then Some (nat a) else None) = slot_result (env_cfg e) (env_busy e) (sd_others d) (nat a)"
    using a by (auto simp: user_result_def slot_result_def cnt)
  ultimately show ?thesis
    using assms(2,3) others(2) a by (auto simp: world_step_def env_step_def Let_def)
qed

section \<open>Witnesses\<close>

definition small_world :: dsa_env where
  "small_world = \<lparr>env_cfg = dsa_config_default\<lparr>n_channels := 2\<rparr>, env_busy = [False, True],
     env_sense = [True, False], env_t = 199\<rparr>"

definition small_draw :: slot_draw where
  "small_draw = \<lparr>sd_others = [0, 1], sd_roll = [1 / 10, 1 / 2], sd_flip = [1 / 2, 1 / 100]\<rparr>"

lemmas small_eval = small_world_def small_draw_def dsa_config_default_def world_step_def env_step_def Let_def
  np_index_def user_result_def slot_result_def chain_step_def sense_channels_def encode_sensing_def draw_ok_def
  slot_chans_def

lemma small_world_step:
  "world_step small_draw [0, 0, 1] small_world =
     Inr (\<lparr>wr_obs = replicate 3 2, wr_rewards = [- 1 / 2, - 1 / 2, - 1 / 2], wr_done = True, wr_successes = 0,
            wr_collisions = 2, wr_clashes = 1\<rparr>,
          small_world\<lparr>env_busy := [True, True], env_sense := [False, True], env_t := 200\<rparr>)"
  by (simp add: small_eval eval_nat_numeral)

theorem world_accounts_witness:
  "\<exists>w e'. world_step small_draw [0, 0, 1] small_world = Inr (w, e') \<and> wr_collisions w \<noteq> 1"
  using world_accounts [OF small_world_step] small_world_step by blast

theorem shared_action_jams_witness:
  "\<exists>w e'. world_step small_draw (replicate 3 0) small_world = Inr (w, e') \<and> wr_successes w = 0"
proof -
  obtain w e' where w: "world_step small_draw (replicate 3 0) small_world = Inr (w, e')"
    by (simp add: small_eval eval_nat_numeral)
  then have "wr_successes w = 0"
    by (intro shared_action_jams [of small_draw small_world 0 w e']) (simp_all add: small_world_def dsa_config_default_def)
  with w show ?thesis by blast
qed

theorem env_is_world_of_user_0_witness:
  "\<exists>r e' w. env_step small_draw 0 small_world = Inr (r, e') \<and>
     world_step small_draw [0, 0, 1] small_world = Inr (w, e') \<and> wr_rewards w ! 0 = sr_reward r"
proof -
  obtain r e' where r: "env_step small_draw 0 small_world = Inr (r, e')"
    by (simp add: small_eval eval_nat_numeral)
  then have "\<exists>w. world_step small_draw (0 # map int (sd_others small_draw)) small_world = Inr (w, e') \<and>
      wr_rewards w ! 0 = sr_reward r \<and> wr_obs w ! 0 = sr_obs r \<and> wr_done w = sr_done r"
    by (intro env_is_world_of_user_0) (simp_all add: small_eval)
  with r show ?thesis by (auto simp: small_draw_def)
qed

end
