(* ===== verification/Attacks.thy ===== *)
theory Attacks
  imports Robust
begin

text \<open>
  Poisoning attacks that craft client updates (\<open>spectrum/attacks.py\<close>): A Little Is Enough, with its
  deviation factor from the inverse normal distribution, and the two attacks of Fang and others. Updates
  are flat lists of exact reals.
\<close>

section \<open>The deviation factor\<close>

definition horner :: "real list \<Rightarrow> real \<Rightarrow> real" where
  "horner cs x = foldl (\<lambda>v c. v * x + c) 0 cs"

text \<open>Acklam's rational approximation of the inverse of the normal distribution.\<close>

definition phi_a :: "real list" where
  "phi_a = [- 39.69683028665376, 220.9460984245205, - 275.9285104469687, 138.3577518672690, - 30.66479806614716,
            2.506628277459239]"

definition phi_b :: "real list" where
  "phi_b = [- 54.47609879822406, 161.5858368580409, - 155.6989798598866, 66.80131188771972, - 13.28068155288572, 1]"

definition phi_c :: "real list" where
  "phi_c = [- 0.007784894002430293, - 0.3223964580411365, - 2.400758277161838, - 2.549732539343734,
            4.374664141464968, 2.938163982698783]"

definition phi_d :: "real list" where
  "phi_d = [0.007784695709041462, 0.3224671290700398, 2.445134137142996, 3.754408661907416, 1]"

definition phi_approx :: "real \<Rightarrow> real" where
  "phi_approx p =
     (if p < 0.02425 then let q = sqrt (- 2 * ln p) in horner phi_c q / horner phi_d q
      else if p > 1 - 0.02425 then let q = sqrt (- 2 * ln (1 - p)) in - horner phi_c q / horner phi_d q
      else let q = p - 0.5; r = q * q in horner phi_a r * q / horner phi_b r)"

definition phi_inv :: "real \<Rightarrow> real" where
  "phi_inv p = phi_approx (min (max p (1 / 10 ^ 12)) (1 - 1 / 10 ^ 12))"

definition alie_z :: "int \<Rightarrow> int \<Rightarrow> real" where
  "alie_z n m =
     (let s = \<lfloor>real_of_int n / 2 + 1\<rfloor> - m; z = real_of_int (n - m - s) / real_of_int (max (n - m) 1)
      in phi_inv (min (max z (1 / 10 ^ 6)) (1 - 1 / 10 ^ 6)))"

section \<open>The attacks\<close>

text \<open>
  The benign updates as a matrix. Ragged updates raise \<open>ValueError\<close>. Without benign updates NumPy's mean
  is a NaN scalar, which the code cannot use as a vector: \<open>ex\<close> is the exception that follows.
\<close>

definition benign_matrix :: "py_exn \<Rightarrow> real list list \<Rightarrow> real list list res" where
  "benign_matrix ex us = (if us = [] then Inl ex else stack us)"

definition std :: "real list \<Rightarrow> real" where
  "std xs = sqrt (mean (map (\<lambda>x. (x - mean xs)\<^sup>2) xs))"

definition alie_attack :: "real list list \<Rightarrow> int \<Rightarrow> real option \<Rightarrow> real list list res" where
  "alie_attack benign_updates n_malicious z =
     bindE (benign_matrix ValueError benign_updates) (\<lambda>mat.
       let mu = per_column mean mat; sigma = per_column std mat;
           z' = (case z of None \<Rightarrow> alie_z (int (length mat) + n_malicious) n_malicious | Some v \<Rightarrow> v)
       in Inr (replicate (nat n_malicious) (map2 (\<lambda>m s. m - z' * s) mu sigma)))"

text \<open>The direction of the Fang attacks: against the sign of the mean, and down where the mean is zero.\<close>

definition fang_direction :: "real list \<Rightarrow> real list" where
  "fang_direction mu = map (\<lambda>m. if m < 0 then 1 else - 1) mu"

definition fang_point :: "real list \<Rightarrow> real \<Rightarrow> real list" where
  "fang_point mu lam = map2 (\<lambda>m d. m + lam * d) mu (fang_direction mu)"

fun fang_search :: "real list list \<Rightarrow> real list \<Rightarrow> nat \<Rightarrow> nat \<Rightarrow> real \<Rightarrow> real list list res" where
  "fang_search mat mu n_malicious 0 lam = Inr (replicate n_malicious (fang_point mu lam))"
| "fang_search mat mu n_malicious (Suc k) lam =
     (let mal = replicate n_malicious (fang_point mu lam)
      in if length mat + n_malicious > 2 * n_malicious + 2 then
           bindE (krum (mat @ mal) (int n_malicious)) (\<lambda>res.
             if selected_index res \<ge> length mat then Inr mal else fang_search mat mu n_malicious k (lam / 2))
         else fang_search mat mu n_malicious k (lam / 2))"

definition fang_attack_krum :: "real list list \<Rightarrow> nat \<Rightarrow> real \<Rightarrow> nat \<Rightarrow> real list list res" where
  "fang_attack_krum benign_updates n_malicious lambda_init n_steps =
     bindE (benign_matrix TypeError benign_updates) (\<lambda>mat.
       fang_search mat (per_column mean mat) n_malicious n_steps lambda_init)"

definition fang_attack_median :: "real list list \<Rightarrow> nat \<Rightarrow> real \<Rightarrow> real list list res" where
  "fang_attack_median benign_updates n_malicious lam =
     bindE (benign_matrix TypeError benign_updates) (\<lambda>mat.
       let mu = per_column mean mat; sigma = map (\<lambda>s. s + 1 / 10 ^ 9) (per_column std mat)
       in Inr (replicate n_malicious (map2 (\<lambda>m (s, d). m + lam * s * d) mu (zip sigma (fang_direction mu)))))"

section \<open>What the attacks send\<close>

lemma phi_approx_antisymmetric: "phi_approx (1 - c) = - phi_approx c"
proof -
  have sq: "(1 - c - 0.5) * (1 - c - 0.5) = (c - 0.5) * (c - 0.5)" by (simp add: algebra_simps)
  consider "c < 0.02425" | "c > 1 - 0.02425" | "0.02425 \<le> c" "c \<le> 1 - 0.02425" by linarith
  then show ?thesis
  proof cases
    case 3
    let ?r = "(c - 0.5) * (c - 0.5)"
    have "phi_approx (1 - c) = horner phi_a ?r * (1 - c - 0.5) / horner phi_b ?r"
      using 3 unfolding phi_approx_def Let_def sq by simp
    also have "1 - c - 0.5 = - (c - 0.5)" by simp
    finally have "phi_approx (1 - c) = - (horner phi_a ?r * (c - 0.5) / horner phi_b ?r)"
      by (simp only: mult_minus_right minus_divide_left)
    moreover have "phi_approx c = horner phi_a ?r * (c - 0.5) / horner phi_b ?r"
      using 3 unfolding phi_approx_def Let_def by simp
    ultimately show ?thesis by simp
  qed (simp_all add: phi_approx_def Let_def)
qed

text \<open>
  The approximation is odd about one half, as the inverse normal distribution is: the two tails and the
  centre agree, also at the clamps.
\<close>

theorem phi_inv_antisymmetric: "phi_inv (1 - p) = - phi_inv p"
proof -
  have "min (max (1 - p) (1 / 10 ^ 12)) (1 - 1 / 10 ^ 12) = 1 - min (max p (1 / 10 ^ 12)) (1 - 1 / 10 ^ 12)"
    by (auto simp: min_def max_def)
  then show ?thesis by (simp add: phi_inv_def phi_approx_antisymmetric)
qed

lemma krum_Inr:
  assumes "krum us f = Inr r"
  shows "us \<noteq> [] \<and> selected_index r < length us \<and> krum_aggregate r = us ! selected_index r"
proof -
  have us: "us \<noteq> []" "selected_index r = argmin (map (krum_score us (int (length us) - f - 2)) [0..<length us])"
    "krum_aggregate r = us ! selected_index r"
    using assms by (auto simp: krum_def bindE_eq_Inr stack_shape Let_def split: if_splits)
  then show ?thesis using argmin_least [of "map (krum_score us (int (length us) - f - 2)) [0..<length us]"] by simp
qed

text \<open>
  The line search ends after at most \<open>n_steps\<close> halvings, and when it ends early it has found what it
  looks for: over the benign updates and the cluster it returns, Krum selects a member of the cluster.
\<close>

lemma fang_search_sound:
  assumes "fang_search mat mu m k lam = Inr mal"
  shows "\<exists>i \<le> k. mal = replicate m (fang_point mu (lam / 2 ^ i)) \<and>
    (i < k \<longrightarrow> (\<exists>r. krum (mat @ mal) (int m) = Inr r \<and> length mat \<le> selected_index r \<and>
                    krum_aggregate r = fang_point mu (lam / 2 ^ i)))"
  using assms
proof (induction k arbitrary: lam)
  case (Suc k)
  let ?mal = "replicate m (fang_point mu lam)"
  let ?rest = "fang_search mat mu m k (lam / 2)"
  have rest: ?case if "?rest = Inr mal"
  proof -
    from Suc.IH [OF that] obtain i where i: "i \<le> k" "mal = replicate m (fang_point mu (lam / 2 / 2 ^ i))"
      "i < k \<longrightarrow> (\<exists>r. krum (mat @ mal) (int m) = Inr r \<and> length mat \<le> selected_index r \<and>
                    krum_aggregate r = fang_point mu (lam / 2 / 2 ^ i))" by blast
    have "lam / 2 / 2 ^ i = lam / 2 ^ Suc i" by simp
    with i show ?thesis by (intro exI [of _ "Suc i"]) (simp only: Suc_le_mono Suc_less_eq simp_thms)
  qed
  show ?case
  proof (cases "length mat + m > 2 * m + 2")
    case True
    with Suc.prems obtain r where r: "krum (mat @ ?mal) (int m) = Inr r"
      "(if selected_index r \<ge> length mat then Inr ?mal else ?rest) = Inr mal"
      by (auto simp: Let_def bindE_eq_Inr)
    show ?thesis
    proof (cases "selected_index r \<ge> length mat")
      case early: True
      with r(2) have mal: "mal = ?mal" by simp
      have "selected_index r - length mat < m" using krum_Inr [OF r(1)] early by auto
      then have "krum_aggregate r = fang_point mu lam" using krum_Inr [OF r(1)] early by (simp add: nth_append)
      then show ?thesis using r(1) early unfolding mal by (intro exI [of _ 0]) auto
    next
      case False
      then show ?thesis using r(2) rest by simp
    qed
  next
    case False
    then have "?rest = Inr mal" using Suc.prems unfolding fang_search.simps Let_def by simp
    then show ?thesis by (rule rest)
  qed
qed simp

lemma fang_krum_search:
  "fang_attack_krum us m lam0 steps = Inr mal \<Longrightarrow> fang_search us (per_column mean us) m steps lam0 = Inr mal"
  by (auto simp: fang_attack_krum_def benign_matrix_def bindE_eq_Inr stack_shape split: if_splits)

theorem fang_krum_sound:
  assumes "fang_attack_krum us m lam0 steps = Inr mal"
  shows "\<exists>i \<le> steps. mal = replicate m (fang_point (per_column mean us) (lam0 / 2 ^ i)) \<and>
    (i < steps \<longrightarrow> (\<exists>r. krum (us @ mal) (int m) = Inr r \<and> length us \<le> selected_index r \<and>
                    krum_aggregate r = fang_point (per_column mean us) (lam0 / 2 ^ i)))"
  by (rule fang_search_sound [OF fang_krum_search [OF assms]])

text \<open>Every attack returns the asked number of equal updates, as long as the benign ones.\<close>

lemma per_column_length [simp]: "length (per_column f mat) = dim mat"
  by (simp add: per_column_def)

lemma attack_shapes:
  "alie_attack us (int m) z = Inr mal \<Longrightarrow> length mal = m \<and> (\<forall>v \<in> set mal. length v = dim us)"
  "fang_attack_krum us m lam steps = Inr mal \<Longrightarrow> length mal = m \<and> (\<forall>v \<in> set mal. length v = dim us)"
  "fang_attack_median us m lam = Inr mal \<Longrightarrow> length mal = m \<and> (\<forall>v \<in> set mal. length v = dim us)"
proof -
  show "alie_attack us (int m) z = Inr mal \<Longrightarrow> length mal = m \<and> (\<forall>v \<in> set mal. length v = dim us)"
    by (auto simp: alie_attack_def benign_matrix_def bindE_eq_Inr stack_shape Let_def split: if_splits)
  show "length mal = m \<and> (\<forall>v \<in> set mal. length v = dim us)" if k: "fang_attack_krum us m lam steps = Inr mal"
  proof -
    obtain i where "mal = replicate m (fang_point (per_column mean us) (lam / 2 ^ i))"
      using fang_search_sound [OF fang_krum_search [OF k]] by blast
    then show ?thesis by (simp add: fang_point_def fang_direction_def)
  qed
  show "fang_attack_median us m lam = Inr mal \<Longrightarrow> length mal = m \<and> (\<forall>v \<in> set mal. length v = dim us)"
    by (auto simp: fang_attack_median_def benign_matrix_def bindE_eq_Inr stack_shape Let_def fang_direction_def
        split: if_splits)
qed

section \<open>Witnesses\<close>

theorem fang_krum_sound_witness:
  "fang_attack_krum [[1], [3]] 1 8 2 = Inr [[0]] \<and>
   (\<exists>i \<le> 2. [[0 :: real]] = replicate 1 (fang_point (per_column mean [[1], [3]]) (8 / 2 ^ i)))"
proof
  show k: "fang_attack_krum [[1], [3]] 1 8 2 = Inr [[0]]"
    by (simp add: fang_attack_krum_def benign_matrix_def stack_def per_column_def column_def mean_def dim_def
        fang_point_def fang_direction_def eval_nat_numeral)
  show "\<exists>i \<le> 2. [[0 :: real]] = replicate 1 (fang_point (per_column mean [[1], [3]]) (8 / 2 ^ i))"
    using fang_krum_sound [OF k] by blast
qed

end
