(* ===== verification/FedQ.thy ===== *)
theory FedQ
  imports Dsa Attacks SecureMean
begin

text \<open>
  Federated tabular Q-learning over the spectrum environment (\<open>spectrum/federated_q.py\<close>): the local
  epsilon-greedy learner, the poisoned table, the robust aggregation of one round and the evaluation of a
  policy under Boltzmann deployment. A Q-table is the list of its rows; its entries are exact reals, and
  the draws of the random generators are arguments.
\<close>

section \<open>Tables\<close>

type_synonym qtable = "real list list"

record q_config =
  q_alpha :: real
  q_gamma :: real
  q_epsilon :: real
  q_episodes :: nat

definition q_config_default :: q_config where
  "q_config_default = \<lparr>q_alpha = 3 / 20, q_gamma = 9 / 10, q_epsilon = 3 / 20, q_episodes = 8\<rparr>"

definition zeros :: "nat \<Rightarrow> nat \<Rightarrow> qtable" where
  "zeros ns na = replicate ns (replicate na 0)"

definition qtable_ok :: "nat \<Rightarrow> nat \<Rightarrow> qtable \<Rightarrow> bool" where
  "qtable_ok ns na q \<longleftrightarrow> length q = ns \<and> list_all (\<lambda>row. length row = na) q"

definition table_bounded :: "real \<Rightarrow> qtable \<Rightarrow> bool" where
  "table_bounded B q \<longleftrightarrow> (\<forall>row \<in> set q. \<forall>x \<in> set row. \<bar>x\<bar> \<le> B)"

definition at_index :: "'a list \<Rightarrow> nat \<Rightarrow> 'a res" where
  "at_index xs i = (if i < length xs then Inr (xs ! i) else Inl IndexError)"

text \<open>\<open>np.argmax\<close> is the first index of the greatest element; \<open>np.argmax\<close> and \<open>np.max\<close> reject an empty row.\<close>

definition argmax :: "real list \<Rightarrow> nat" where
  "argmax xs = argmin (map uminus xs)"

definition greedy_action :: "qtable \<Rightarrow> nat \<Rightarrow> nat res" where
  "greedy_action q state = bindE (at_index q state) (\<lambda>row. if row = [] then Inl ValueError else Inr (argmax row))"

definition row_max :: "real list \<Rightarrow> real res" where
  "row_max row = (if row = [] then Inl ValueError else Inr (Max (set row)))"

section \<open>The local learner\<close>

text \<open>
  One step's draws: the exploration draw, the random action it may pick, the draw that decides whether a
  poisoned learner corrupts the reward, and the environment's own draws.
\<close>

record learner_draw =
  ld_explore :: real
  ld_action :: nat
  ld_flip :: real
  ld_slot :: slot_draw

definition choose_action :: "q_config \<Rightarrow> learner_draw \<Rightarrow> qtable \<Rightarrow> nat \<Rightarrow> nat res" where
  "choose_action cfg d q state = (if ld_explore d < q_epsilon cfg then Inr (ld_action d) else greedy_action q state)"

definition q_update :: "q_config \<Rightarrow> qtable \<Rightarrow> nat \<Rightarrow> nat \<Rightarrow> real \<Rightarrow> nat \<Rightarrow> qtable res" where
  "q_update cfg q state action reward nxt =
     bindE (at_index q nxt) (\<lambda>row'.
     bindE (row_max row') (\<lambda>best_next.
     bindE (at_index q state) (\<lambda>row.
     bindE (at_index row action) (\<lambda>old.
       Inr (q[state := row[action := old + q_alpha cfg * (reward + q_gamma cfg * best_next - old)]])))))"

text \<open>
  The loop of an episode runs until the environment reports the end of the episode. \<open>signal\<close> is the reward
  the learner learns from: the environment's own, or what a poisoned client makes of it.
\<close>

type_synonym signal = "dsa_config \<Rightarrow> learner_draw \<Rightarrow> step_result \<Rightarrow> real"

lemma env_step_time:
  "env_step d a e = Inr (r, e') \<Longrightarrow>
     env_cfg e' = env_cfg e \<and> env_t e' = env_t e + 1 \<and> sr_done r = (env_t e' \<ge> max_steps (env_cfg e))"
  by (auto simp: env_step_def Let_def split: if_splits)

function learn_episode ::
  "signal \<Rightarrow> q_config \<Rightarrow> (nat \<Rightarrow> learner_draw) \<Rightarrow> nat \<Rightarrow> qtable \<Rightarrow> nat \<Rightarrow> dsa_env \<Rightarrow> (qtable \<times> dsa_env) res" where
  "learn_episode sig cfg draws k q state e =
     (case choose_action cfg (draws k) q state of
        Inl ex \<Rightarrow> Inl ex
      | Inr action \<Rightarrow>
          (case env_step (ld_slot (draws k)) (int action) e of
             Inl ex \<Rightarrow> Inl ex
           | Inr (r, e') \<Rightarrow>
               (case q_update cfg q state action (sig (env_cfg e) (draws k) r) (sr_obs r) of
                  Inl ex \<Rightarrow> Inl ex
                | Inr q' \<Rightarrow>
                    if sr_done r then Inr (q', e')
                    else learn_episode sig cfg draws (k + 1) q' (sr_obs r) e')))"
  by pat_completeness auto
termination
  by (relation "measure (\<lambda>(sig, cfg, draws, k, q, state, e). nat (max_steps (env_cfg e) - env_t e))")
    (auto dest!: env_step_time)

declare learn_episode.simps [simp del]

text \<open>The draws of a whole training run: what the resets draw and what the steps draw, by episode.\<close>

record train_draws =
  td_reset :: "nat \<Rightarrow> slot_draw"
  td_step :: "nat \<Rightarrow> nat \<Rightarrow> learner_draw"

fun learn_episodes :: "signal \<Rightarrow> dsa_config \<Rightarrow> q_config \<Rightarrow> train_draws \<Rightarrow> nat list \<Rightarrow> qtable \<Rightarrow> qtable res" where
  "learn_episodes sig dsa cfg td [] q = Inr q"
| "learn_episodes sig dsa cfg td (ep # eps) q =
     bindE (env_reset dsa (td_reset td ep)) (\<lambda>(state, e).
     bindE (learn_episode sig cfg (td_step td ep) 0 q state e) (\<lambda>(q', e').
       learn_episodes sig dsa cfg td eps q'))"

definition initial_table :: "dsa_config \<Rightarrow> qtable option \<Rightarrow> qtable" where
  "initial_table dsa q_init =
     (case q_init of None \<Rightarrow> zeros (n_states (n_channels dsa)) (n_actions (n_channels dsa)) | Some q \<Rightarrow> q)"

definition honest_signal :: signal where
  "honest_signal dsa d r = sr_reward r"

definition train_local_q :: "dsa_config \<Rightarrow> q_config \<Rightarrow> qtable option \<Rightarrow> train_draws \<Rightarrow> qtable res" where
  "train_local_q dsa cfg q_init td =
     learn_episodes honest_signal dsa cfg td [0..<q_episodes cfg] (initial_table dsa q_init)"

section \<open>Aggregation\<close>

definition craft_poison_q :: "nat \<times> nat \<Rightarrow> nat \<Rightarrow> real \<Rightarrow> qtable res" where
  "craft_poison_q sh target_channel magnitude =
     (if target_channel < snd sh then Inr (replicate (fst sh) ((replicate (snd sh) 0)[target_channel := magnitude]))
      else Inl IndexError)"

text \<open>\<open>ravel\<close> and \<open>reshape\<close>: a flat vector of another length cannot be reshaped.\<close>

definition ravel :: "qtable \<Rightarrow> real list" where
  "ravel q = concat q"

fun rows_of :: "nat \<Rightarrow> nat \<Rightarrow> real list \<Rightarrow> qtable" where
  "rows_of 0 na xs = []"
| "rows_of (Suc ns) na xs = take na xs # rows_of ns na (drop na xs)"

definition reshape :: "nat \<times> nat \<Rightarrow> real list \<Rightarrow> qtable res" where
  "reshape sh xs = (if length xs = fst sh * snd sh then Inr (rows_of (fst sh) (snd sh) xs) else Inl ValueError)"

text \<open>In exact arithmetic the secure mean of finite values is finite.\<close>

definition finite_value :: "pyfloat \<Rightarrow> real res" where
  "finite_value v = (case v of Fin r \<Rightarrow> Inr r | _ \<Rightarrow> Inl OverflowError)"

definition secure_flat :: "real list list \<Rightarrow> (nat \<Rightarrow> nat \<Rightarrow> nat \<Rightarrow> int) \<Rightarrow> real list res" where
  "secure_flat flats rc =
     bindE (secure_mean exact_platform PRIME (map (map Fin) flats) 5 3 rc) (mapE finite_value)"

definition aggregate_q ::
  "qtable list \<Rightarrow> string \<Rightarrow> int \<Rightarrow> bool \<Rightarrow> (nat \<Rightarrow> nat \<Rightarrow> nat \<Rightarrow> int) \<Rightarrow> (real list \<times> nat option) res" where
  "aggregate_q client_qs meth f secure_agg rc =
     (let flats = map ravel client_qs
      in if secure_agg \<and> meth = ''fedavg'' then bindE (secure_flat flats rc) (\<lambda>v. Inr (v, None))
         else if meth = ''krum'' then bindE (krum flats f) (\<lambda>r. Inr (krum_aggregate r, Some (selected_index r)))
         else if meth = ''median'' then bindE (coordinate_median flats) (\<lambda>v. Inr (v, None))
         else if meth = ''trimmed_mean'' then bindE (trimmed_mean flats (max 1 f)) (\<lambda>v. Inr (v, None))
         else if meth = ''fedavg'' then bindE (fedavg flats) (\<lambda>v. Inr (v, None))
         else Inl ValueError)"

record round_result =
  global_q :: qtable
  rr_method :: string
  rr_clients :: int
  rr_malicious :: int
  rr_secure :: bool
  rr_shapes :: "nat \<times> nat"
  rr_selected :: "nat option"

definition finish_round ::
  "nat \<times> nat \<Rightarrow> int \<Rightarrow> int \<Rightarrow> string \<Rightarrow> bool \<Rightarrow> (nat \<Rightarrow> nat \<Rightarrow> nat \<Rightarrow> int) \<Rightarrow> qtable list \<Rightarrow> round_result res" where
  "finish_round sh n_clients n_malicious meth secure_agg rc client_qs =
     (let f = (if meth = ''krum'' \<or> meth = ''trimmed_mean'' then max 1 n_malicious else n_malicious)
      in bindE (aggregate_q client_qs meth f secure_agg rc) (\<lambda>(agg_flat, selected).
         bindE (reshape sh agg_flat) (\<lambda>q.
           Inr \<lparr>global_q = q, rr_method = meth, rr_clients = n_clients, rr_malicious = n_malicious,
                rr_secure = secure_agg, rr_shapes = sh, rr_selected = selected\<rparr>)))"

definition honest_tables ::
  "dsa_config \<Rightarrow> q_config \<Rightarrow> qtable option \<Rightarrow> (nat \<Rightarrow> train_draws) \<Rightarrow> int \<Rightarrow> qtable list res" where
  "honest_tables dsa cfg glob tds n_honest = mapE (\<lambda>c. train_local_q dsa cfg glob (tds c)) [0..<nat n_honest]"

text \<open>The attacks a round can simulate; the crafted tables are reshaped back.\<close>

definition build_malicious_qs :: "qtable list \<Rightarrow> int \<Rightarrow> string \<Rightarrow> nat \<times> nat \<Rightarrow> qtable list res" where
  "build_malicious_qs honest_qs n_malicious attack sh =
     (if n_malicious \<le> 0 \<or> attack = ''none'' then Inr []
      else if attack = ''qtable_target'' then
        bindE (craft_poison_q sh 0 50) (\<lambda>q. Inr (replicate (nat n_malicious) q))
      else
        let flats = map ravel honest_qs
        in bindE (if attack = ''alie'' then alie_attack flats n_malicious None
                  else if attack = ''fang_krum'' then fang_attack_krum flats (nat n_malicious) 10 25
                  else if attack = ''fang_median'' then fang_attack_median flats (nat n_malicious) 3
                  else Inl ValueError) (mapE (reshape sh)))"

definition federated_dsa_round ::
  "int \<Rightarrow> int \<Rightarrow> dsa_config \<Rightarrow> q_config \<Rightarrow> string \<Rightarrow> bool \<Rightarrow> qtable option \<Rightarrow> string \<Rightarrow> (nat \<Rightarrow> train_draws) \<Rightarrow>
   (nat \<Rightarrow> nat \<Rightarrow> nat \<Rightarrow> int) \<Rightarrow> round_result res" where
  "federated_dsa_round n_clients n_malicious dsa cfg meth secure_agg glob attack tds rc =
     (let sh = (n_states (n_channels dsa), n_actions (n_channels dsa))
      in bindE (honest_tables dsa cfg glob tds (n_clients - n_malicious)) (\<lambda>honest_qs.
         bindE (build_malicious_qs honest_qs n_malicious attack sh) (\<lambda>malicious_qs.
           finish_round sh n_clients n_malicious meth secure_agg rc (honest_qs @ malicious_qs))))"

section \<open>Local training stays bounded and always ends\<close>

text \<open>
  The laws of a learner: probabilities of a chain that has a stationary distribution, a discount below
  one, a learning rate of a convex combination; and draws in the ranges NumPy documents.
\<close>

definition dsa_ok :: "dsa_config \<Rightarrow> bool" where
  "dsa_ok dsa \<longleftrightarrow> p_idle_to_busy dsa + p_busy_to_idle dsa \<noteq> 0"

definition rewards_within :: "real \<Rightarrow> dsa_config \<Rightarrow> bool" where
  "rewards_within R dsa \<longleftrightarrow> \<bar>reward_success dsa\<bar> \<le> R \<and> \<bar>reward_collision dsa\<bar> \<le> R \<and>
     \<bar>reward_idle dsa\<bar> \<le> R \<and> \<bar>reward_pu_clash dsa\<bar> \<le> R"

definition learner_ok :: "q_config \<Rightarrow> bool" where
  "learner_ok cfg \<longleftrightarrow> 0 \<le> q_alpha cfg \<and> q_alpha cfg \<le> 1 \<and> 0 \<le> q_gamma cfg \<and> q_gamma cfg < 1"

definition train_draws_ok :: "dsa_config \<Rightarrow> train_draws \<Rightarrow> bool" where
  "train_draws_ok dsa td \<longleftrightarrow>
     (\<forall>ep. draw_ok dsa (td_reset td ep)) \<and>
     (\<forall>ep k. draw_ok dsa (ld_slot (td_step td ep k)) \<and> ld_action (td_step td ep k) < n_actions (n_channels dsa))"

definition env_ok :: "dsa_config \<Rightarrow> dsa_env \<Rightarrow> bool" where
  "env_ok dsa e \<longleftrightarrow> env_cfg e = dsa \<and> length (env_busy e) = n_channels dsa"

lemma reward_within: "rewards_within R dsa \<Longrightarrow> \<bar>reward_of dsa o'\<bar> \<le> R"
  by (cases o') (auto simp: rewards_within_def)

lemma table_rowD: "qtable_ok ns na q \<Longrightarrow> s < ns \<Longrightarrow> s < length q \<and> length (q ! s) = na"
  by (auto simp: qtable_ok_def list_all_iff)

lemma argmax_less: "xs \<noteq> [] \<Longrightarrow> argmax xs < length xs"
  using argmin_least [of "map uminus xs"] by (simp add: argmax_def)

lemma argmax_greatest: "xs \<noteq> [] \<Longrightarrow> i < length xs \<Longrightarrow> xs ! i \<le> xs ! argmax xs"
proof -
  assume a: "xs \<noteq> []" "i < length xs"
  then have "map uminus xs ! argmax xs \<le> map uminus xs ! i"
    unfolding argmax_def using argmin_least [of "map uminus xs"] by (metis length_map map_is_Nil_conv)
  then show ?thesis using a argmax_less [of xs] by simp
qed

text \<open>One update is a convex combination of the old value and a target within the bound.\<close>

lemma update_bound:
  fixes a g r b v B :: real
  assumes "0 \<le> a" "a \<le> 1" "0 \<le> g" "\<bar>r\<bar> \<le> (1 - g) * B" "\<bar>b\<bar> \<le> B" "\<bar>v\<bar> \<le> B"
  shows "\<bar>v + a * (r + g * b - v)\<bar> \<le> B"
proof -
  have "\<bar>g * b\<bar> \<le> g * B" using assms(3,5) by (simp add: abs_mult mult_left_mono)
  then have "\<bar>r + g * b\<bar> \<le> (1 - g) * B + g * B" using assms(4) abs_triangle_ineq [of r "g * b"] by linarith
  then have t: "\<bar>r + g * b\<bar> \<le> B" by (simp add: algebra_simps)
  have "v + a * (r + g * b - v) = (1 - a) * v + a * (r + g * b)" by (simp add: algebra_simps)
  moreover have "\<bar>(1 - a) * v\<bar> \<le> (1 - a) * B" using assms(2,6) by (simp add: abs_mult mult_left_mono)
  moreover have "\<bar>a * (r + g * b)\<bar> \<le> a * B" using assms(1) t by (simp only: abs_mult abs_of_nonneg mult_left_mono)
  ultimately have "\<bar>v + a * (r + g * b - v)\<bar> \<le> (1 - a) * B + a * B"
    using abs_triangle_ineq [of "(1 - a) * v" "a * (r + g * b)"] by linarith
  then show ?thesis by (simp add: algebra_simps)
qed

lemma q_update_ok:
  assumes t: "qtable_ok ns na q" "table_bounded B q" and ix: "s < ns" "s' < ns" "a < na"
    and l: "learner_ok cfg" "\<bar>r\<bar> \<le> (1 - q_gamma cfg) * B"
  shows "\<exists>q'. q_update cfg q s a r s' = Inr q' \<and> qtable_ok ns na q' \<and> table_bounded B q'"
proof -
  have rows: "s < length q" "length (q ! s) = na" "s' < length q" "length (q ! s') = na"
    using table_rowD [OF t(1)] ix by auto
  then have ne: "q ! s' \<noteq> []" using ix(3) by auto
  have bd: "\<bar>x\<bar> \<le> B" if "row \<in> set q" "x \<in> set row" for row x
    using t(2) that by (simp add: table_bounded_def)
  let ?v = "q ! s ! a" and ?m = "Max (set (q ! s'))"
  let ?new = "?v + q_alpha cfg * (r + q_gamma cfg * ?m - ?v)"
  have "?m \<in> set (q ! s')" using ne by (intro Max_in) auto
  then have "\<bar>?m\<bar> \<le> B" using bd rows by (meson nth_mem)
  moreover have "\<bar>?v\<bar> \<le> B" using bd rows ix(3) by (meson nth_mem)
  ultimately have new: "\<bar>?new\<bar> \<le> B" using l by (intro update_bound) (auto simp: learner_ok_def)
  have eq: "q_update cfg q s a r s' = Inr (q[s := (q ! s)[a := ?new]])"
    using rows ix ne by (simp add: q_update_def at_index_def row_max_def)
  have "qtable_ok ns na (q[s := (q ! s)[a := ?new]])"
    using t(1) rows by (auto simp: qtable_ok_def list_all_iff dest: set_update_subset_insert [THEN subsetD])
  moreover have "table_bounded B (q[s := (q ! s)[a := ?new]])"
    unfolding table_bounded_def
  proof (intro ballI)
    fix row x assume "row \<in> set (q[s := (q ! s)[a := ?new]])" "x \<in> set row"
    then consider "row = (q ! s)[a := ?new]" | "row \<in> set q" by (meson insertE set_update_subset_insert subsetD)
    then show "\<bar>x\<bar> \<le> B"
    proof cases
      case 1
      then have "x = ?new \<or> x \<in> set (q ! s)" using \<open>x \<in> set row\<close> by (meson insertE set_update_subset_insert subsetD)
      then show ?thesis using new bd rows(1) by (meson nth_mem)
    qed (use bd \<open>x \<in> set row\<close> in blast)
  qed
  ultimately show ?thesis using eq by blast
qed

lemma env_step_ok:
  assumes e: "env_ok dsa e" and d: "draw_ok dsa d" and a: "a < n_actions (n_channels dsa)"
  shows "\<exists>r e'. env_step d (int a) e = Inr (r, e') \<and> env_ok dsa e' \<and> sr_obs r < n_states (n_channels dsa) \<and>
           (\<exists>o'. sr_reward r = reward_of dsa o' \<and> sr_result r = o')"
proof -
  have len: "length (sense_channels dsa (sd_flip d) (chain_step dsa (sd_roll d) (env_busy e))) = n_channels dsa"
    using e d by (simp add: sense_channels_def chain_step_def env_ok_def draw_ok_def)
  have "encode_sensing (sense_channels dsa (sd_flip d) (chain_step dsa (sd_roll d) (env_busy e))) < n_states (n_channels dsa)"
    using encode_sensing_less len by metis
  then show ?thesis
    using e d a by (auto simp: env_step_def Let_def env_ok_def n_actions_def draw_ok_def chain_step_def)
qed

lemma env_reset_ok:
  assumes "dsa_ok dsa" and "draw_ok dsa d"
  shows "\<exists>s e. env_reset dsa d = Inr (s, e) \<and> env_ok dsa e \<and> s < n_states (n_channels dsa)"
proof -
  obtain busy where b: "chain_initial dsa (sd_roll d) = Inr busy" "length busy = n_channels dsa"
    using assms by (auto simp: chain_initial_def dsa_ok_def draw_ok_def)
  then have "length (sense_channels dsa (sd_flip d) busy) = n_channels dsa"
    using assms(2) by (simp add: sense_channels_def draw_ok_def)
  then have "encode_sensing (sense_channels dsa (sd_flip d) busy) < n_states (n_channels dsa)"
    using encode_sensing_less by metis
  then show ?thesis using b by (simp add: env_reset_def env_ok_def Let_def)
qed

text \<open>A learner's signal is bounded when it is the environment's reward or what corrupts it.\<close>

definition signal_within :: "real \<Rightarrow> dsa_config \<Rightarrow> signal \<Rightarrow> bool" where
  "signal_within R dsa sig \<longleftrightarrow>
     (\<forall>d r. sr_reward r = reward_of dsa (sr_result r) \<longrightarrow> \<bar>sig dsa d r\<bar> \<le> R)"

lemma episode_ok:
  assumes l: "learner_ok cfg" and sg: "signal_within ((1 - q_gamma cfg) * B) dsa sig"
    and dr: "\<And>k. draw_ok dsa (ld_slot (draws k)) \<and> ld_action (draws k) < n_actions (n_channels dsa)"
  shows "qtable_ok (n_states (n_channels dsa)) (n_actions (n_channels dsa)) q \<Longrightarrow> table_bounded B q \<Longrightarrow>
    env_ok dsa e \<Longrightarrow> state < n_states (n_channels dsa) \<Longrightarrow>
    \<exists>q' e'. learn_episode sig cfg draws k q state e = Inr (q', e') \<and>
      qtable_ok (n_states (n_channels dsa)) (n_actions (n_channels dsa)) q' \<and> table_bounded B q'"
proof (induction "nat (max_steps dsa - env_t e)" arbitrary: k q state e rule: less_induct)
  case less
  let ?ns = "n_states (n_channels dsa)" and ?na = "n_actions (n_channels dsa)"
  have row: "state < length q" "length (q ! state) = ?na" using table_rowD [OF less.prems(1,4)] by auto
  have "\<exists>a < ?na. choose_action cfg (draws k) q state = Inr a"
  proof (cases "ld_explore (draws k) < q_epsilon cfg")
    case True
    then show ?thesis using dr by (simp add: choose_action_def)
  next
    case False
    have "q ! state \<noteq> []" using row(2) by (auto simp: n_actions_def)
    then show ?thesis
      using False row argmax_less [of "q ! state"] by (simp add: choose_action_def greedy_action_def at_index_def)
  qed
  then obtain a where a: "a < ?na" "choose_action cfg (draws k) q state = Inr a" by blast
  obtain r e' where st: "env_step (ld_slot (draws k)) (int a) e = Inr (r, e')" "env_ok dsa e'" "sr_obs r < ?ns"
    "sr_reward r = reward_of dsa (sr_result r)"
    using env_step_ok [OF less.prems(3) _ a(1)] dr by blast
  have cfg: "env_cfg e = dsa" using less.prems(3) by (simp add: env_ok_def)
  have "\<bar>sig (env_cfg e) (draws k) r\<bar> \<le> (1 - q_gamma cfg) * B" using sg st(4) cfg by (simp add: signal_within_def)
  from q_update_ok [OF less.prems(1,2,4) st(3) a(1) l this] obtain q' where
    q': "q_update cfg q state a (sig (env_cfg e) (draws k) r) (sr_obs r) = Inr q'" "qtable_ok ?ns ?na q'" "table_bounded B q'"
    by blast
  note unf = learn_episode.simps [of sig cfg draws k q state e]
  show ?case
  proof (cases "sr_done r")
    case True
    then show ?thesis using q' by (simp add: unf a(2) st(1))
  next
    case False
    then have "nat (max_steps dsa - env_t e') < nat (max_steps dsa - env_t e)"
      using env_step_time [OF st(1)] cfg by auto
    from less.hyps [OF this q'(2,3) st(2,3), of "k + 1"] show ?thesis
      using False q'(1) by (simp add: unf a(2) st(1))
  qed
qed

lemma episodes_ok:
  assumes "dsa_ok dsa" "learner_ok cfg" "signal_within ((1 - q_gamma cfg) * B) dsa sig" "train_draws_ok dsa td"
  shows "qtable_ok (n_states (n_channels dsa)) (n_actions (n_channels dsa)) q \<Longrightarrow> table_bounded B q \<Longrightarrow>
    \<exists>q'. learn_episodes sig dsa cfg td eps q = Inr q' \<and>
      qtable_ok (n_states (n_channels dsa)) (n_actions (n_channels dsa)) q' \<and> table_bounded B q'"
proof (induction eps arbitrary: q)
  case (Cons ep eps)
  obtain s e where s: "env_reset dsa (td_reset td ep) = Inr (s, e)" "env_ok dsa e" "s < n_states (n_channels dsa)"
    using env_reset_ok [OF assms(1), of "td_reset td ep"] assms(4) unfolding train_draws_ok_def by blast
  obtain q' e' where q': "learn_episode sig cfg (td_step td ep) 0 q s e = Inr (q', e')"
    "qtable_ok (n_states (n_channels dsa)) (n_actions (n_channels dsa)) q'" "table_bounded B q'"
    using episode_ok [OF assms(2,3) _ Cons.prems s(2,3), of "td_step td ep" 0] assms(4)
    by (auto simp: train_draws_ok_def)
  from Cons.IH [OF q'(2,3)] show ?case by (simp add: s(1) q'(1))
qed auto

lemma honest_signal_within: "rewards_within R dsa \<Longrightarrow> signal_within R dsa honest_signal"
  using reward_within by (auto simp: signal_within_def honest_signal_def)

definition glob_ok :: "real \<Rightarrow> dsa_config \<Rightarrow> qtable option \<Rightarrow> bool" where
  "glob_ok B dsa glob \<longleftrightarrow>
     (case glob of None \<Rightarrow> 0 \<le> B
      | Some q \<Rightarrow> qtable_ok (n_states (n_channels dsa)) (n_actions (n_channels dsa)) q \<and> table_bounded B q)"

lemma initial_ok:
  "glob_ok B dsa glob \<Longrightarrow> qtable_ok (n_states (n_channels dsa)) (n_actions (n_channels dsa)) (initial_table dsa glob) \<and>
     table_bounded B (initial_table dsa glob)"
  by (auto simp: glob_ok_def initial_table_def zeros_def qtable_ok_def table_bounded_def list_all_iff split: option.splits)

lemma train_ok:
  assumes "dsa_ok dsa" "learner_ok cfg" "rewards_within ((1 - q_gamma cfg) * B) dsa" "train_draws_ok dsa td"
    and "glob_ok B dsa q_init"
  shows "\<exists>q. train_local_q dsa cfg q_init td = Inr q \<and>
           qtable_ok (n_states (n_channels dsa)) (n_actions (n_channels dsa)) q \<and> table_bounded B q"
  unfolding train_local_q_def
  using episodes_ok [OF assms(1,2) honest_signal_within [OF assms(3)] assms(4)] initial_ok [OF assms(5)] by blast

text \<open>
  Local training always ends, without an exception, and never leaves the range of discounted returns:
  when the rewards are at most \<open>(1 - gamma) * B\<close> and the table it starts from is within \<open>B\<close>, so is the
  table it returns, after any number of episodes and whatever is drawn.
\<close>

theorem training_bounded:
  assumes "dsa_ok dsa" "learner_ok cfg" "rewards_within ((1 - q_gamma cfg) * B) dsa" "train_draws_ok dsa td"
    and "glob_ok B dsa q_init"
  shows "\<exists>q. train_local_q dsa cfg q_init td = Inr q \<and>
           qtable_ok (n_states (n_channels dsa)) (n_actions (n_channels dsa)) q \<and> table_bounded B q"
  by (rule train_ok [OF assms])

section \<open>Rounds under attack\<close>

lemma ravel_length: "qtable_ok ns na q \<Longrightarrow> length (ravel q) = ns * na"
proof -
  have "list_all (\<lambda>row. length row = na) q \<Longrightarrow> length (concat q) = length q * na"
    by (induction q) auto
  then show "qtable_ok ns na q \<Longrightarrow> length (ravel q) = ns * na" by (simp add: qtable_ok_def ravel_def)
qed

lemma ravel_bounded: "table_bounded B q \<Longrightarrow> j < length (ravel q) \<Longrightarrow> - B \<le> ravel q ! j \<and> ravel q ! j \<le> B"
proof -
  assume q: "table_bounded B q" and j: "j < length (ravel q)"
  then have "ravel q ! j \<in> set (concat q)" by (simp only: ravel_def nth_mem)
  then obtain row where "row \<in> set q" "ravel q ! j \<in> set row" by auto
  then have "\<bar>ravel q ! j\<bar> \<le> B" using q by (simp add: table_bounded_def)
  then show ?thesis by linarith
qed

lemma rows_of_ok:
  "length xs = ns * na \<Longrightarrow> qtable_ok ns na (rows_of ns na xs) \<and> concat (rows_of ns na xs) = xs"
  by (induction ns arbitrary: xs) (auto simp: qtable_ok_def)

lemma reshape_ok:
  "length xs = ns * na \<Longrightarrow> reshape (ns, na) xs = Inr (rows_of ns na xs) \<and> qtable_ok ns na (rows_of ns na xs)"
  by (simp add: reshape_def rows_of_ok)

lemma reshape_bounded:
  "length xs = ns * na \<Longrightarrow> (\<forall>x \<in> set xs. \<bar>x\<bar> \<le> B) \<Longrightarrow> table_bounded B (rows_of ns na xs)"
proof -
  assume a: "length xs = ns * na" "\<forall>x \<in> set xs. \<bar>x\<bar> \<le> B"
  have "x \<in> set xs" if "row \<in> set (rows_of ns na xs)" "x \<in> set row" for row x
    using rows_of_ok [OF a(1)] that by (metis UN_I set_concat)
  then show ?thesis using a(2) by (auto simp: table_bounded_def)
qed

text \<open>Ravelling and reshaping are inverse to each other on tables of the shape.\<close>

lemma reshape_ravel: "qtable_ok ns na q \<Longrightarrow> reshape (ns, na) (ravel q) = Inr q"
proof -
  have "list_all (\<lambda>row. length row = na) q \<Longrightarrow> rows_of (length q) na (concat q) = q" by (induction q) auto
  then show "qtable_ok ns na q \<Longrightarrow> reshape (ns, na) (ravel q) = Inr q"
    using ravel_length [of ns na q] by (auto simp: reshape_def ravel_def qtable_ok_def)
qed

lemma stack_tables:
  assumes "list_all (qtable_ok ns na) qs" "qs \<noteq> []"
  shows "stack (map ravel qs) = Inr (map ravel qs)" "dim (map ravel qs) = ns * na"
proof -
  have len: "length (ravel q) = ns * na" if "q \<in> set qs" for q
    using assms(1) that ravel_length by (auto simp: list_all_iff)
  then show "dim (map ravel qs) = ns * na" using assms(2) by (cases qs) (auto simp: dim_def)
  then show "stack (map ravel qs) = Inr (map ravel qs)" using assms(2) len by (auto simp: stack_shape)
qed

lemma attack_tables:
  assumes "list_all (qtable_ok ns na) qs" "qs \<noteq> []"
  shows "\<exists>mal. alie_attack (map ravel qs) (int m) None = Inr mal"
    and "\<exists>mal. fang_attack_krum (map ravel qs) m lam steps = Inr mal"
    and "\<exists>mal. fang_attack_median (map ravel qs) m lam = Inr mal"
proof -
  note st = stack_tables [OF assms]
  show "\<exists>mal. alie_attack (map ravel qs) (int m) None = Inr mal" "\<exists>mal. fang_attack_median (map ravel qs) m lam = Inr mal"
    using st assms(2) by (simp_all add: alie_attack_def fang_attack_median_def benign_matrix_def Let_def)
  have krum: "\<exists>r. krum (map ravel qs @ replicate m v) (int m) = Inr r"
    if "length (map ravel qs) + m > 2 * m + 2" "length v = ns * na" for v
  proof -
    have "stack (map ravel qs @ replicate m v) = Inr (map ravel qs @ replicate m v)"
      using st that(2) assms(2) by (auto simp: stack_shape dim_def hd_append)
    then show ?thesis using that(1) by (simp add: krum_def Let_def)
  qed
  have "\<exists>mal. fang_search (map ravel qs) mu m k lam = Inr mal" if mu: "length mu = ns * na" for mu k lam
  proof (induction k arbitrary: lam)
    case (Suc k)
    have "length (fang_point mu lam) = ns * na" using mu by (simp add: fang_point_def fang_direction_def)
    from krum [OF _ this] Suc.IH [of "lam / 2"] show ?case
      by (cases "length (map ravel qs) + m > 2 * m + 2") (fastforce simp: Let_def bindE_def)+
  qed simp
  then show "\<exists>mal. fang_attack_krum (map ravel qs) m lam steps = Inr mal"
    using st assms(2) by (simp add: fang_attack_krum_def benign_matrix_def)
qed

definition known_attacks :: "string list" where
  "known_attacks = [''qtable_target'', ''alie'', ''fang_krum'', ''fang_median'']"

lemma reshape_all:
  assumes "\<forall>v \<in> set mal. length v = ns * na"
  shows "\<exists>qs. mapE (reshape (ns, na)) mal = Inr qs \<and> length qs = length mal \<and> list_all (qtable_ok ns na) qs"
proof -
  have "mapE (reshape (ns, na)) mal = Inr (map (rows_of ns na) mal)"
    by (rule mapE_pure) (use assms reshape_ok in blast)
  then show ?thesis using assms reshape_ok by (auto simp: list_all_iff)
qed

lemma craft_poison_ok: "0 < na \<Longrightarrow> \<exists>q. craft_poison_q (ns, na) 0 mag = Inr q \<and> qtable_ok ns na q"
  by (auto simp: craft_poison_q_def qtable_ok_def list_all_iff)

lemma malicious_ok:
  assumes "list_all (qtable_ok ns na) qs" "qs \<noteq> []" "attack \<in> set known_attacks" "0 < na"
  shows "\<exists>mal. build_malicious_qs qs (int m) attack (ns, na) = Inr mal \<and> length mal = m \<and>
           list_all (qtable_ok ns na) mal"
proof -
  note st = stack_tables [OF assms(1,2)]
  have crafted: ?thesis
    if "build_malicious_qs qs (int m) attack (ns, na) = bindE c (mapE (reshape (ns, na)))" "c = Inr mal"
      "length mal = m \<and> (\<forall>v \<in> set mal. length v = dim (map ravel qs))" for c mal
    using that reshape_all [of mal ns na] st(2) by auto
  have build: "0 < m \<Longrightarrow> build_malicious_qs qs (int m) ''alie'' (ns, na) =
        bindE (alie_attack (map ravel qs) (int m) None) (mapE (reshape (ns, na)))"
    "0 < m \<Longrightarrow> build_malicious_qs qs (int m) ''fang_krum'' (ns, na) =
        bindE (fang_attack_krum (map ravel qs) m 10 25) (mapE (reshape (ns, na)))"
    "0 < m \<Longrightarrow> build_malicious_qs qs (int m) ''fang_median'' (ns, na) =
        bindE (fang_attack_median (map ravel qs) m 3) (mapE (reshape (ns, na)))"
    by (simp_all add: build_malicious_qs_def Let_def)
  consider "m = 0" | "m > 0" "attack = ''qtable_target''" | "m > 0" "attack = ''alie''"
    | "m > 0" "attack = ''fang_krum''" | "m > 0" "attack = ''fang_median''"
    using assms(3) unfolding known_attacks_def by (cases "m = 0") (simp_all, blast)
  then show ?thesis
  proof cases
    case 1
    then show ?thesis by (auto simp: build_malicious_qs_def)
  next
    case 2
    then show ?thesis using craft_poison_ok [OF assms(4), of ns 50] by (auto simp: build_malicious_qs_def list_all_iff)
  next
    case 3
    obtain mal where mal: "alie_attack (map ravel qs) (int m) None = Inr mal"
      using attack_tables(1) [OF assms(1,2)] by blast
    show ?thesis using build(1) [OF 3(1)] mal attack_shapes(1) [OF mal] unfolding 3(2) [symmetric] by (rule crafted)
  next
    case 4
    obtain mal where mal: "fang_attack_krum (map ravel qs) m 10 25 = Inr mal"
      using attack_tables(2) [OF assms(1,2)] by blast
    show ?thesis using build(2) [OF 4(1)] mal attack_shapes(2) [OF mal] unfolding 4(2) [symmetric] by (rule crafted)
  next
    case 5
    obtain mal where mal: "fang_attack_median (map ravel qs) m 3 = Inr mal"
      using attack_tables(3) [OF assms(1,2)] by blast
    show ?thesis using build(3) [OF 5(1)] mal attack_shapes(3) [OF mal] unfolding 5(2) [symmetric] by (rule crafted)
  qed
qed

text \<open>
  The server's part of a round: with the median or the trimmed mean, a minority of clients cannot move
  any entry of the shared table out of the bound the honest tables keep, whatever tables they upload.
\<close>

definition robust_for :: "string \<Rightarrow> nat \<Rightarrow> int \<Rightarrow> bool" where
  "robust_for meth n m \<longleftrightarrow> 0 \<le> m \<and> 2 * m < int n \<and>
     (meth = ''median'' \<or> meth = ''trimmed_mean'' \<and> 2 * max 1 m < int n)"

lemma few_byzantine:
  assumes "length mal \<le> nat m"
  shows "byzantine {..<length hon} (map ravel (hon @ mal)) \<le> nat m"
proof -
  have "{..<length (hon @ mal)} - {..<length hon} = {length hon..<length hon + length mal}" by auto
  then show ?thesis using assms by (simp add: byzantine_def)
qed

lemma robust_aggregate_ok:
  assumes hon: "list_all (qtable_ok ns na) hon" "\<forall>q \<in> set hon. table_bounded B q"
    and mal: "list_all (qtable_ok ns na) mal" "length mal \<le> nat m"
    and rob: "robust_for meth (length hon + length mal) m"
    and f: "f = (if meth = ''krum'' \<or> meth = ''trimmed_mean'' then max 1 m else m)"
  shows "\<exists>v. aggregate_q (hon @ mal) meth f secure_agg rc = Inr (v, None) \<and> length v = ns * na \<and>
           (\<forall>x \<in> set v. \<bar>x\<bar> \<le> B)"
proof -
  let ?us = "map ravel (hon @ mal)"
  have ne: "hon @ mal \<noteq> []" using rob by (auto simp: robust_for_def)
  have tabs: "list_all (qtable_ok ns na) (hon @ mal)" using hon(1) mal(1) by simp
  note st = stack_tables [OF tabs ne]
  have honest: "honest_within {..<length hon} ?us j (- B) B" if "j < ns * na" for j
    unfolding honest_within_def
  proof (intro allI impI ballI)
    fix i assume "i \<in> {..<length hon}"
    then have "?us ! i = ravel (hon ! i)" "hon ! i \<in> set hon" by (simp_all add: nth_append)
    moreover have "length (ravel (hon ! i)) = ns * na"
      using hon(1) calculation(2) ravel_length by (auto simp: list_all_iff)
    ultimately show "- B \<le> ?us ! i ! j \<and> ?us ! i ! j \<le> B" using ravel_bounded hon(2) that by simp
  qed
  note byz = few_byzantine [OF mal(2), of hon]
  have inb: ?thesis if v: "aggregate_q (hon @ mal) meth f secure_agg rc = Inr (v, None)" "length v = ns * na"
      and b: "\<And>j. j < length v \<Longrightarrow> - B \<le> v ! j \<and> v ! j \<le> B" for v
  proof -
    have "\<bar>x\<bar> \<le> B" if "x \<in> set v" for x
    proof -
      obtain j where "j < length v" "x = v ! j" using \<open>x \<in> set v\<close> by (metis in_set_conv_nth)
      then show ?thesis using b [of j] by linarith
    qed
    with v show ?thesis by blast
  qed
  have "meth = ''median'' \<or> meth = ''trimmed_mean''" using rob by (auto simp: robust_for_def)
  then show ?thesis
  proof
    assume meth: "meth = ''median''"
    define v where "v = per_column median ?us"
    have v: "coordinate_median ?us = Inr v" "length v = ns * na" using st by (simp_all add: coordinate_median_def v_def)
    moreover have "2 * byzantine {..<length hon} ?us < length ?us" using byz rob by (auto simp: robust_for_def)
    ultimately show ?thesis using median_bounded [OF v(1) _ _ honest]
      by (intro inb [of v]) (simp_all add: aggregate_q_def meth Let_def)
  next
    assume meth: "meth = ''trimmed_mean''"
    define v where "v = per_column (\<lambda>c. mean (py_slice (max 1 m) (int (length ?us) - max 1 m) (sort c))) ?us"
    have v: "trimmed_mean ?us (max 1 m) = Inr v" "length v = ns * na"
      using st rob by (simp_all add: trimmed_mean_def Let_def v_def robust_for_def meth)
    moreover have "int (byzantine {..<length hon} ?us) \<le> max 1 m" using byz rob by (auto simp: robust_for_def)
    ultimately show ?thesis using trimmed_mean_range [OF v(1) _ _ _ honest]
      by (intro inb [of v]) (simp_all add: aggregate_q_def meth Let_def f)
  qed
qed

lemma finish_ok:
  assumes hon: "list_all (qtable_ok ns na) hon" "\<forall>q \<in> set hon. table_bounded B q"
    and mal: "list_all (qtable_ok ns na) mal" "length mal \<le> nat m"
    and rob: "robust_for meth (length hon + length mal) m"
  shows "\<exists>r. finish_round (ns, na) n m meth secure_agg rc (hon @ mal) = Inr r \<and>
           qtable_ok ns na (global_q r) \<and> table_bounded B (global_q r)"
proof -
  obtain v where v: "aggregate_q (hon @ mal) meth (if meth = ''krum'' \<or> meth = ''trimmed_mean'' then max 1 m else m)
      secure_agg rc = Inr (v, None)" "length v = ns * na" "\<forall>x \<in> set v. \<bar>x\<bar> \<le> B"
    using robust_aggregate_ok [OF assms refl] by blast
  have "reshape (ns, na) v = Inr (rows_of ns na v)" "qtable_ok ns na (rows_of ns na v)"
    using reshape_ok [OF v(2)] by simp_all
  moreover have "table_bounded B (rows_of ns na v)" by (rule reshape_bounded [OF v(2,3)])
  ultimately show ?thesis unfolding finish_round_def Let_def v(1) by simp
qed

theorem upload_influence_bounded:
  assumes "list_all (qtable_ok ns na) hon" and "\<forall>q \<in> set hon. table_bounded B q"
    and "list_all (qtable_ok ns na) mal" and "length mal \<le> nat m"
    and "robust_for meth (length hon + length mal) m"
  shows "\<exists>r. finish_round (ns, na) n m meth secure_agg rc (hon @ mal) = Inr r \<and>
           qtable_ok ns na (global_q r) \<and> table_bounded B (global_q r)"
  by (rule finish_ok [OF assms])

lemma honest_tables_ok:
  assumes "dsa_ok dsa" "learner_ok cfg" "rewards_within ((1 - q_gamma cfg) * B) dsa" "\<forall>c. train_draws_ok dsa (tds c)"
    and "glob_ok B dsa glob"
  shows "\<exists>qs. honest_tables dsa cfg glob tds n = Inr qs \<and> length qs = nat n \<and>
           list_all (qtable_ok (n_states (n_channels dsa)) (n_actions (n_channels dsa))) qs \<and>
           (\<forall>q \<in> set qs. table_bounded B q)"
proof -
  have "\<forall>c. \<exists>q. train_local_q dsa cfg glob (tds c) = Inr q \<and>
      qtable_ok (n_states (n_channels dsa)) (n_actions (n_channels dsa)) q \<and> table_bounded B q"
    using train_ok [OF assms(1-3) _ assms(5)] assms(4) by blast
  then obtain f where f: "\<And>c. train_local_q dsa cfg glob (tds c) = Inr (f c) \<and>
      qtable_ok (n_states (n_channels dsa)) (n_actions (n_channels dsa)) (f c) \<and> table_bounded B (f c)"
    by (metis (no_types))
  have "honest_tables dsa cfg glob tds n = Inr (map f [0..<nat n])"
    unfolding honest_tables_def by (rule mapE_pure) (simp add: f)
  then show ?thesis using f by (auto simp: list_all_iff)
qed

text \<open>A round, and a campaign of rounds that warm-start from one another.\<close>

record round_input =
  ri_attack :: string
  ri_tds :: "nat \<Rightarrow> train_draws"
  ri_rc :: "nat \<Rightarrow> nat \<Rightarrow> nat \<Rightarrow> int"

definition next_global ::
  "int \<Rightarrow> int \<Rightarrow> dsa_config \<Rightarrow> q_config \<Rightarrow> string \<Rightarrow> qtable option \<Rightarrow> round_input \<Rightarrow> qtable option res" where
  "next_global n m dsa cfg meth glob ri =
     bindE (federated_dsa_round n m dsa cfg meth False glob (ri_attack ri) (ri_tds ri) (ri_rc ri))
       (\<lambda>r. Inr (Some (global_q r)))"

definition campaign_ok :: "int \<Rightarrow> int \<Rightarrow> dsa_config \<Rightarrow> q_config \<Rightarrow> string \<Rightarrow> real \<Rightarrow> bool" where
  "campaign_ok n m dsa cfg meth B \<longleftrightarrow>
     dsa_ok dsa \<and> learner_ok cfg \<and> rewards_within ((1 - q_gamma cfg) * B) dsa \<and>
     robust_for meth (nat n) m"

definition input_ok :: "dsa_config \<Rightarrow> round_input \<Rightarrow> bool" where
  "input_ok dsa ri \<longleftrightarrow> ri_attack ri \<in> set known_attacks \<and> (\<forall>c. train_draws_ok dsa (ri_tds ri c))"

lemma round_ok:
  assumes c: "campaign_ok n m dsa cfg meth B" and i: "input_ok dsa ri" and g: "glob_ok B dsa glob"
  shows "\<exists>glob'. next_global n m dsa cfg meth glob ri = Inr glob' \<and> glob_ok B dsa glob'"
proof -
  let ?ns = "n_states (n_channels dsa)" and ?na = "n_actions (n_channels dsa)"
  obtain hon where hon: "honest_tables dsa cfg glob (ri_tds ri) (n - m) = Inr hon" "length hon = nat (n - m)"
    "list_all (qtable_ok ?ns ?na) hon" "\<forall>q \<in> set hon. table_bounded B q"
    using honest_tables_ok [of dsa cfg B "ri_tds ri" glob "n - m"] c i g by (auto simp: campaign_ok_def input_ok_def)
  have m: "0 \<le> m" "2 * m < int (nat n)" using c by (auto simp: campaign_ok_def robust_for_def)
  then have ne: "hon \<noteq> []" using hon(2) by (auto split: if_splits)
  obtain mal where mal: "build_malicious_qs hon m (ri_attack ri) (?ns, ?na) = Inr mal" "length mal = nat m"
    "list_all (qtable_ok ?ns ?na) mal"
    using malicious_ok [OF hon(3) ne, of "ri_attack ri" "nat m"] i m(1) by (auto simp: input_ok_def n_actions_def)
  have "robust_for meth (length hon + length mal) m"
  proof -
    have "length hon + length mal = nat n" using hon(2) mal(2) m by (auto split: if_splits)
    then show ?thesis using c by (simp add: campaign_ok_def)
  qed
  from finish_ok [OF hon(3,4) mal(3) eq_imp_le [OF mal(2)] this, of n False "ri_rc ri"] obtain r where
    "finish_round (?ns, ?na) n m meth False (ri_rc ri) (hon @ mal) = Inr r" "qtable_ok ?ns ?na (global_q r)"
    "table_bounded B (global_q r)" by blast
  then show ?thesis
    by (simp add: next_global_def federated_dsa_round_def Let_def hon(1) mal(1) glob_ok_def)
qed


section \<open>Plain averaging is hijacked\<close>

lemma rows_of_nth:
  "length xs = ns * na \<Longrightarrow> st < ns \<Longrightarrow> a < na \<Longrightarrow> rows_of ns na xs ! st ! a = xs ! (st * na + a)"
proof (induction ns arbitrary: xs st)
  case (Suc ns)
  then show ?case by (cases st) (auto simp: add.assoc)
qed simp

lemma ravel_nth: "qtable_ok ns na q \<Longrightarrow> st < ns \<Longrightarrow> a < na \<Longrightarrow> ravel q ! (st * na + a) = q ! st ! a"
  using reshape_ravel [of ns na q] rows_of_nth [of "ravel q" ns na st a] ravel_length [of ns na q]
  by (simp add: reshape_def)

lemma index_less: "st < ns \<Longrightarrow> a < na \<Longrightarrow> st * na + a < ns * (na :: nat)"
proof -
  assume a: "st < ns" "a < na"
  then have "st * na + a < Suc st * na" by simp
  also have "\<dots> \<le> ns * na" using a by (intro mult_le_mono1) simp
  finally show ?thesis .
qed

lemma argmax_zero:
  assumes "xs \<noteq> []" "\<And>i. 0 < i \<Longrightarrow> i < length xs \<Longrightarrow> xs ! i < xs ! 0"
  shows "argmax xs = 0"
proof (rule ccontr)
  assume "argmax xs \<noteq> 0"
  then have "xs ! argmax xs < xs ! 0" using assms argmax_less by auto
  then show False using argmax_greatest [OF assms(1), of 0] assms(1) by simp
qed

text \<open>
  With \<open>fedavg\<close> the crafted table wins: once its weight outgrows twice the honest bound, every state's
  greedy action is the attacker's channel.
\<close>

theorem fedavg_hijacked:
  assumes hon: "list_all (qtable_ok ns na) hon" "\<forall>q \<in> set hon. table_bounded B q"
    and mal: "craft_poison_q (ns, na) 0 mag = Inr bad"
    and heavy: "2 * B * real (length hon) < mag * real m"
    and r: "finish_round (ns, na) n k ''fedavg'' False rc (hon @ replicate m bad) = Inr r" and st: "st < ns"
  shows "greedy_action (global_q r) st = Inr 0"
proof -
  have na: "0 < na" and bad: "bad = replicate ns ((replicate na 0)[0 := mag])"
    using mal by (auto simp: craft_poison_q_def split: if_splits)
  have badok: "qtable_ok ns na bad" by (simp add: bad qtable_ok_def list_all_iff)
  let ?qs = "hon @ replicate m bad"
  have ne: "?qs \<noteq> []"
  proof
    assume "?qs = []"
    with heavy show False by simp
  qed
  have tabs: "list_all (qtable_ok ns na) ?qs" using hon(1) badok by (auto simp: list_all_iff)
  note stk = stack_tables [OF tabs ne]
  define v where "v = per_column mean (map ravel ?qs)"
  have v: "fedavg (map ravel ?qs) = Inr v" "length v = ns * na" using stk by (simp_all add: fedavg_def v_def)
  have g: "global_q r = rows_of ns na v"
    using r v(1) reshape_ok [OF v(2)]
    by (auto simp: finish_round_def aggregate_q_def Let_def)
  have entry: "global_q r ! st ! a = (\<Sum>q\<leftarrow>?qs. q ! st ! a) / real (length ?qs)" if "a < na" for a
  proof -
    have "column (map ravel ?qs) (st * na + a) = map (\<lambda>q. q ! st ! a) ?qs"
      unfolding column_def map_map comp_def
      by (rule map_cong [OF refl]) (metis ravel_nth tabs st that list_all_iff)
    moreover have "v ! (st * na + a) = mean (column (map ravel ?qs) (st * na + a))"
      using index_less [OF st that] unfolding v_def per_column_def stk(2) by simp
    ultimately show ?thesis by (simp add: g rows_of_nth [OF v(2) st that] mean_def)
  qed
  have each: "\<bar>q ! st ! a\<bar> \<le> B" if "q \<in> set hon" "a < na" for q a
  proof -
    have "st < length q" "length (q ! st) = na" using hon(1) that(1) st table_rowD by (auto simp: list_all_iff)
    then show ?thesis using hon(2) that unfolding table_bounded_def by (metis nth_mem)
  qed
  have sums: "\<bar>\<Sum>q\<leftarrow>hon. q ! st ! a\<bar> \<le> B * real (length hon)" if a: "a < na" for a
  proof -
    have "\<forall>q \<in> set qs. \<bar>q ! st ! a\<bar> \<le> B \<Longrightarrow> \<bar>\<Sum>q\<leftarrow>qs. q ! st ! a\<bar> \<le> B * real (length qs)" for qs :: "qtable list"
      by (induction qs) (auto simp: algebra_simps)
    then show ?thesis using each a by blast
  qed
  have badsum: "(\<Sum>q\<leftarrow>replicate m bad. q ! st ! a) = (if a = 0 then mag * real m else 0)" if "a < na" for a
    using that st na by (simp add: bad sum_list_replicate nth_list_update)
  have "global_q r ! st ! i < global_q r ! st ! 0" if i: "0 < i" "i < na" for i
  proof -
    have "(\<Sum>q\<leftarrow>?qs. q ! st ! i) < (\<Sum>q\<leftarrow>?qs. q ! st ! 0)"
      using sums [OF i(2)] sums [OF na] badsum [OF i(2)] badsum [OF na] i(1) heavy
      unfolding map_append sum_list_append by simp
    moreover have "0 < real (length ?qs)" using ne by (simp only: of_nat_0_less_iff length_greater_0_conv not_False_eq_True)
    ultimately show ?thesis
      unfolding entry [OF i(2)] entry [OF na] by (rule divide_strict_right_mono)
  qed
  moreover have row: "st < length (global_q r)" "length (global_q r ! st) = na"
    using table_rowD [of ns na "global_q r" st] reshape_ok [OF v(2)] st g by auto
  ultimately have "argmax (global_q r ! st) = 0" using na by (intro argmax_zero) auto
  then show ?thesis using row na by (auto simp: greedy_action_def at_index_def)
qed

section \<open>Evaluation\<close>

text \<open>
  The Boltzmann policy over a row. \<open>rng.choice\<close> is a parameter: from the probabilities it returns the
  index it draws.
\<close>

definition softmax_row :: "real \<Rightarrow> real list \<Rightarrow> real list" where
  "softmax_row tau row =
     (let z = map (\<lambda>x. x / max tau (1 / 10 ^ 6)) row; top = Max (set z); p = map (\<lambda>x. exp (x - top)) z
      in map (\<lambda>x. x / sum_list p) p)"

definition softmax_action :: "qtable \<Rightarrow> nat \<Rightarrow> real \<Rightarrow> (real list \<Rightarrow> nat) \<Rightarrow> nat res" where
  "softmax_action q state tau rng_choice =
     bindE (at_index q state) (\<lambda>row. if row = [] then Inl ValueError else Inr (rng_choice (softmax_row tau row)))"

record eval_totals =
  et_success :: nat
  et_collision :: nat
  et_clash :: nat
  et_slots :: nat

record eval_draws =
  ed_reset :: "nat \<Rightarrow> slot_draw"
  ed_slot :: "nat \<Rightarrow> nat \<Rightarrow> slot_draw"
  ed_choice :: "nat \<Rightarrow> nat \<Rightarrow> nat \<Rightarrow> real list \<Rightarrow> nat"

definition slot_actions :: "qtable \<Rightarrow> real \<Rightarrow> (nat \<Rightarrow> real list \<Rightarrow> nat) \<Rightarrow> nat list \<Rightarrow> int list res" where
  "slot_actions q tau rng_choice obs =
     bindE (mapE (\<lambda>(u, s). softmax_action q s tau (rng_choice u)) (enumerate 0 obs)) (\<lambda>acts. Inr (map int acts))"

lemma world_step_time:
  "world_step d acts e = Inr (w, e') \<Longrightarrow>
     env_cfg e' = env_cfg e \<and> env_t e' = env_t e + 1 \<and> wr_done w = (env_t e' \<ge> max_steps (env_cfg e)) \<and>
     (\<exists>sense. env_busy e' = chain_step (env_cfg e) (sd_roll d) (env_busy e) \<and>
        sense = sense_channels (env_cfg e) (sd_flip d) (env_busy e') \<and>
        wr_obs w = replicate (n_users (env_cfg e)) (encode_sensing sense))"
  by (auto simp: world_step_def Let_def bindE_eq_Inr split: if_splits)

function eval_episode ::
  "qtable \<Rightarrow> real \<Rightarrow> (nat \<Rightarrow> slot_draw) \<Rightarrow> (nat \<Rightarrow> nat \<Rightarrow> real list \<Rightarrow> nat) \<Rightarrow> nat \<Rightarrow> nat list \<Rightarrow> dsa_env \<Rightarrow>
   eval_totals \<Rightarrow> eval_totals res" where
  "eval_episode q tau slots choices k obs e tot =
     (case slot_actions q tau (choices k) obs of
        Inl ex \<Rightarrow> Inl ex
      | Inr acts \<Rightarrow>
          (case world_step (slots k) acts e of
             Inl ex \<Rightarrow> Inl ex
           | Inr (w, e') \<Rightarrow>
               let tot' = \<lparr>et_success = et_success tot + wr_successes w, et_collision = et_collision tot + wr_collisions w,
                           et_clash = et_clash tot + wr_clashes w, et_slots = et_slots tot + 1\<rparr>
               in if wr_done w then Inr tot' else eval_episode q tau slots choices (k + 1) (wr_obs w) e' tot'))"
  by pat_completeness auto
termination
  by (relation "measure (\<lambda>(q, tau, slots, choices, k, obs, e, tot). nat (max_steps (env_cfg e) - env_t e))")
    (auto dest!: world_step_time)

declare eval_episode.simps [simp del]

fun eval_episodes :: "qtable \<Rightarrow> dsa_config \<Rightarrow> real \<Rightarrow> eval_draws \<Rightarrow> nat list \<Rightarrow> eval_totals \<Rightarrow> eval_totals res" where
  "eval_episodes q dsa tau ed [] tot = Inr tot"
| "eval_episodes q dsa tau ed (ep # eps) tot =
     bindE (world_reset dsa (ed_reset ed ep)) (\<lambda>(obs, e).
     bindE (eval_episode q tau (ed_slot ed ep) (ed_choice ed ep) 0 obs e tot) (eval_episodes q dsa tau ed eps))"

record eval_metrics =
  throughput_per_slot :: real
  collision_per_slot :: real
  pu_clash_per_slot :: real
  em_episodes :: real
  em_slots :: real

definition evaluate_policy :: "qtable \<Rightarrow> dsa_config \<Rightarrow> nat \<Rightarrow> real \<Rightarrow> eval_draws \<Rightarrow> eval_metrics res" where
  "evaluate_policy q dsa n_episodes tau ed =
     bindE (eval_episodes q dsa tau ed [0..<n_episodes] \<lparr>et_success = 0, et_collision = 0, et_clash = 0, et_slots = 0\<rparr>)
       (\<lambda>tot. let denom = real (max 1 (et_slots tot))
              in Inr \<lparr>throughput_per_slot = real (et_success tot) / denom, collision_per_slot = real (et_collision tot) / denom,
                      pu_clash_per_slot = real (et_clash tot) / denom, em_episodes = real n_episodes,
                      em_slots = real (et_slots tot)\<rparr>)"

text \<open>The deployed policy is a distribution, and it keeps the order of the values.\<close>

theorem softmax_distribution:
  assumes "row \<noteq> []"
  shows "sum_list (softmax_row tau row) = 1 \<and> (\<forall>p \<in> set (softmax_row tau row). 0 < p) \<and>
    (\<forall>i < length row. \<forall>j < length row. row ! i \<le> row ! j \<longrightarrow> softmax_row tau row ! i \<le> softmax_row tau row ! j)"
proof -
  let ?t = "max tau (1 / 10 ^ 6)"
  define top where "top = Max (set (map (\<lambda>x. x / ?t) row))"
  define p where "p = map (\<lambda>x. exp (x / ?t - top)) row"
  have t: "0 < ?t" by simp
  have sr: "softmax_row tau row = map (\<lambda>x. x / sum_list p) p"
    by (simp add: softmax_row_def Let_def p_def top_def comp_def)
  have "\<forall>x \<in> set xs. 0 < x \<Longrightarrow> xs \<noteq> [] \<Longrightarrow> 0 < sum_list xs" for xs :: "real list"
    by (induction xs) (auto, metis add_pos_pos sum_list.Nil add_0_right)
  then have pos: "0 < sum_list p" using assms by (auto simp: p_def)
  have "sum_list (map (\<lambda>x. x / c) xs) = sum_list xs / c" for c :: real and xs
    by (induction xs) (auto simp: add_divide_distrib)
  then have "sum_list (softmax_row tau row) = 1" using pos by (simp add: sr)
  moreover have "\<forall>x \<in> set (softmax_row tau row). 0 < x" using pos by (auto simp: sr p_def)
  moreover have "softmax_row tau row ! i \<le> softmax_row tau row ! j"
    if "i < length row" "j < length row" "row ! i \<le> row ! j" for i j
  proof -
    have "row ! i / ?t \<le> row ! j / ?t" using that(3) t by (intro divide_right_mono) auto
    then have "p ! i \<le> p ! j" using that by (simp add: p_def)
    then show ?thesis using pos that by (simp add: sr p_def divide_right_mono)
  qed
  ultimately show ?thesis by blast
qed

definition eval_draws_ok :: "dsa_config \<Rightarrow> eval_draws \<Rightarrow> bool" where
  "eval_draws_ok dsa ed \<longleftrightarrow>
     (\<forall>ep. draw_ok dsa (ed_reset ed ep)) \<and> (\<forall>ep k. draw_ok dsa (ed_slot ed ep k)) \<and>
     (\<forall>ep k u p. p \<noteq> [] \<longrightarrow> ed_choice ed ep k u p < length p)"

definition accounted :: "dsa_config \<Rightarrow> eval_totals \<Rightarrow> bool" where
  "accounted dsa tot \<longleftrightarrow>
     et_success tot \<le> n_channels dsa * et_slots tot \<and>
     et_success tot + et_collision tot + et_clash tot \<le> n_users dsa * et_slots tot"

lemma slot_actions_ok:
  assumes q: "qtable_ok (n_states (n_channels dsa)) (n_actions (n_channels dsa)) q"
    and obs: "\<forall>s \<in> set obs. s < n_states (n_channels dsa)" and ch: "\<And>u p. p \<noteq> [] \<Longrightarrow> choice u p < length p"
  shows "\<exists>acts. slot_actions q tau choice obs = Inr (map int acts) \<and> length acts = length obs \<and>
           (\<forall>a \<in> set acts. a \<le> n_channels dsa)"
proof -
  let ?f = "\<lambda>(u, s). choice u (softmax_row tau (q ! s))"
  have one: "softmax_action q s tau (choice u) = Inr (choice u (softmax_row tau (q ! s))) \<and>
      choice u (softmax_row tau (q ! s)) \<le> n_channels dsa" if "s < n_states (n_channels dsa)" for u s
  proof -
    have row: "s < length q" "length (q ! s) = n_channels dsa + 1"
      using table_rowD [OF q that] by (simp_all add: n_actions_def)
    then have "length (softmax_row tau (q ! s)) = n_channels dsa + 1" by (simp add: softmax_row_def Let_def)
    then have "choice u (softmax_row tau (q ! s)) < n_channels dsa + 1" using ch [of "softmax_row tau (q ! s)" u] by fastforce
    then show ?thesis using row by (auto simp: softmax_action_def at_index_def)
  qed
  have mem: "s \<in> set obs" if "(u, s) \<in> set (enumerate 0 obs)" for u s
    using that by (metis map_snd_enumerate image_eqI set_map snd_conv)
  have "mapE (\<lambda>(u, s). softmax_action q s tau (choice u)) (enumerate 0 obs) = Inr (map ?f (enumerate 0 obs))"
    by (rule mapE_pure) (use one mem obs in auto)
  moreover have "\<forall>a \<in> set (map ?f (enumerate 0 obs)). a \<le> n_channels dsa" using one mem obs by fastforce
  ultimately show ?thesis
    by (intro exI [of _ "map ?f (enumerate 0 obs)"]) (simp add: slot_actions_def)
qed

lemma tx_channels_total: "\<forall>a \<in> set acts. a \<le> n \<Longrightarrow> \<exists>cs. tx_channels n (map int acts) = Inr cs"
  by (induction acts) (auto simp: np_index_def)

lemma world_step_ok:
  assumes e: "env_ok dsa e" and d: "draw_ok dsa d" and a: "length acts = n_users dsa" "\<forall>a \<in> set acts. a \<le> n_channels dsa"
  shows "\<exists>w e'. world_step d (map int acts) e = Inr (w, e') \<and> env_ok dsa e' \<and> length (wr_obs w) = n_users dsa \<and>
           (\<forall>s \<in> set (wr_obs w). s < n_states (n_channels dsa)) \<and>
           wr_successes w \<le> n_channels dsa \<and> wr_successes w + wr_collisions w + wr_clashes w \<le> n_users dsa"
proof -
  have cfg: "env_cfg e = dsa" using e by (simp add: env_ok_def)
  obtain cs where "tx_channels (n_channels dsa) (map int acts) = Inr cs" using tx_channels_total [OF a(2)] by blast
  then obtain w e' where w: "world_step d (map int acts) e = Inr (w, e')"
    using a(1) cfg by (simp add: world_step_def Let_def)
  note t = world_step_time [OF w] and acc = world_slot [OF w]
  have busy: "length (env_busy e') = n_channels dsa"
    using t e d cfg by (simp add: chain_step_def env_ok_def draw_ok_def)
  then have "length (sense_channels dsa (sd_flip d) (env_busy e')) = n_channels dsa"
    using d by (simp add: sense_channels_def draw_ok_def)
  then have "encode_sensing (sense_channels dsa (sd_flip d) (env_busy e')) < n_states (n_channels dsa)"
    using encode_sensing_less by metis
  moreover have "card {c. c < n_channels dsa \<and> \<not> env_busy e ! c} \<le> card {..<n_channels dsa}"
    by (rule card_mono) auto
  ultimately show ?thesis using w t acc cfg busy by (auto simp: env_ok_def)
qed

lemma eval_episode_ok:
  assumes q: "qtable_ok (n_states (n_channels dsa)) (n_actions (n_channels dsa)) q"
    and dr: "\<And>k. draw_ok dsa (slots k)" and ch: "\<And>k u p. p \<noteq> [] \<Longrightarrow> choices k u p < length p"
  shows "env_ok dsa e \<Longrightarrow> length obs = n_users dsa \<Longrightarrow> \<forall>s \<in> set obs. s < n_states (n_channels dsa) \<Longrightarrow>
    accounted dsa tot \<Longrightarrow> \<exists>tot'. eval_episode q tau slots choices k obs e tot = Inr tot' \<and> accounted dsa tot'"
proof (induction "nat (max_steps dsa - env_t e)" arbitrary: k obs e tot rule: less_induct)
  case less
  obtain acts where acts: "slot_actions q tau (choices k) obs = Inr (map int acts)" "length acts = n_users dsa"
    "\<forall>a \<in> set acts. a \<le> n_channels dsa"
    using slot_actions_ok [where choice = "choices k" and tau = tau, OF q less.prems(3) ch] less.prems(2) by auto
  obtain w e' where w: "world_step (slots k) (map int acts) e = Inr (w, e')" "env_ok dsa e'"
    "length (wr_obs w) = n_users dsa" "\<forall>s \<in> set (wr_obs w). s < n_states (n_channels dsa)"
    "wr_successes w \<le> n_channels dsa" "wr_successes w + wr_collisions w + wr_clashes w \<le> n_users dsa"
    using world_step_ok [OF less.prems(1) dr acts(2,3)] by blast
  let ?tot = "\<lparr>et_success = et_success tot + wr_successes w, et_collision = et_collision tot + wr_collisions w,
               et_clash = et_clash tot + wr_clashes w, et_slots = et_slots tot + 1\<rparr>"
  have acc: "accounted dsa ?tot" using less.prems(4) w(5,6) by (simp add: accounted_def)
  note unf = eval_episode.simps [of q tau slots choices k obs e tot]
  show ?case
  proof (cases "wr_done w")
    case True
    then show ?thesis using acc by (simp add: unf acts(1) w(1))
  next
    case False
    then have "nat (max_steps dsa - env_t e') < nat (max_steps dsa - env_t e)"
      using world_step_time [OF w(1)] less.prems(1) by (auto simp: env_ok_def)
    from less.hyps [OF this w(2,3,4) acc, of "k + 1"] show ?thesis using False by (simp add: unf acts(1) w(1))
  qed
qed

lemma eval_episodes_ok:
  assumes q: "qtable_ok (n_states (n_channels dsa)) (n_actions (n_channels dsa)) q"
    and ok: "dsa_ok dsa" "eval_draws_ok dsa ed"
  shows "accounted dsa tot \<Longrightarrow> \<exists>tot'. eval_episodes q dsa tau ed eps tot = Inr tot' \<and> accounted dsa tot'"
proof (induction eps arbitrary: tot)
  case (Cons ep eps)
  obtain s e where s: "env_reset dsa (ed_reset ed ep) = Inr (s, e)" "env_ok dsa e" "s < n_states (n_channels dsa)"
    using env_reset_ok [OF ok(1), of "ed_reset ed ep"] ok(2) unfolding eval_draws_ok_def by blast
  obtain tot' where "eval_episode q tau (ed_slot ed ep) (ed_choice ed ep) 0 (replicate (n_users dsa) s) e tot = Inr tot'"
    "accounted dsa tot'"
    using eval_episode_ok [OF q _ _ s(2) _ _ Cons.prems, of "ed_slot ed ep" "ed_choice ed ep" "replicate (n_users dsa) s" tau 0]
      ok(2) s(3) by (auto simp: eval_draws_ok_def)
  then show ?case using Cons.IH by (simp add: world_reset_def s(1))
qed auto

text \<open>
  An evaluation always returns, and its metrics account for the slots: no more successes in a slot than
  channels, and no more successes, collisions and clashes together than users.
\<close>

theorem evaluation_accounts:
  assumes "qtable_ok (n_states (n_channels dsa)) (n_actions (n_channels dsa)) q"
    and "dsa_ok dsa" and "eval_draws_ok dsa ed"
  shows "\<exists>em. evaluate_policy q dsa n_episodes tau ed = Inr em \<and>
    0 \<le> throughput_per_slot em \<and> throughput_per_slot em \<le> real (n_channels dsa) \<and>
    throughput_per_slot em + collision_per_slot em + pu_clash_per_slot em \<le> real (n_users dsa)"
proof -
  obtain tot where tot: "eval_episodes q dsa tau ed [0..<n_episodes]
      \<lparr>et_success = 0, et_collision = 0, et_clash = 0, et_slots = 0\<rparr> = Inr tot" "accounted dsa tot"
    using eval_episodes_ok [OF assms, of "\<lparr>et_success = 0, et_collision = 0, et_clash = 0, et_slots = 0\<rparr>"]
    by (auto simp: accounted_def)
  define D where "D = max 1 (et_slots tot)"
  have "et_slots tot \<le> D" "0 < D" by (simp_all add: D_def)
  then have "et_success tot \<le> n_channels dsa * D" "et_success tot + et_collision tot + et_clash tot \<le> n_users dsa * D"
    using tot(2) unfolding accounted_def by (meson le_trans mult_le_mono2)+
  then have b: "real (et_success tot) \<le> real (n_channels dsa) * real D"
    "real (et_success tot + et_collision tot + et_clash tot) \<le> real (n_users dsa) * real D"
    by (metis of_nat_le_iff of_nat_mult)+
  then have "real (et_success tot) / real D \<le> real (n_channels dsa)"
    "real (et_success tot + et_collision tot + et_clash tot) / real D \<le> real (n_users dsa)"
    using \<open>0 < D\<close> by (simp_all only: pos_divide_le_eq of_nat_0_less_iff)
  then show ?thesis
    unfolding evaluate_policy_def tot(1) bindE_Inr Let_def D_def [symmetric]
    by (simp add: add_divide_distrib)
qed

section \<open>Witnesses\<close>

definition tiny_dsa :: dsa_config where
  "tiny_dsa = dsa_config_default\<lparr>n_channels := 1, n_users := 2, max_steps := 2\<rparr>"

definition tiny_slot :: slot_draw where
  "tiny_slot = \<lparr>sd_others = [0], sd_roll = [1 / 2], sd_flip = [1 / 2]\<rparr>"

definition tiny_td :: train_draws where
  "tiny_td = \<lparr>td_reset = (\<lambda>ep. tiny_slot),
     td_step = (\<lambda>ep k. \<lparr>ld_explore = 0, ld_action = 0, ld_flip = 0, ld_slot = tiny_slot\<rparr>)\<rparr>"

lemma tiny_ok:
  "dsa_ok tiny_dsa" "learner_ok q_config_default" "rewards_within ((1 - q_gamma q_config_default) * 10) tiny_dsa"
  "train_draws_ok tiny_dsa tiny_td" "glob_ok 10 tiny_dsa None"
  by (simp_all add: dsa_ok_def learner_ok_def rewards_within_def train_draws_ok_def glob_ok_def tiny_dsa_def tiny_td_def
      tiny_slot_def draw_ok_def n_actions_def dsa_config_default_def q_config_default_def)

theorem training_bounded_witness:
  "\<exists>q. train_local_q tiny_dsa q_config_default None tiny_td = Inr q \<and> table_bounded 10 q"
  using training_bounded [OF tiny_ok] by blast

lemma tiny_tables:
  "list_all (qtable_ok 1 2) [[[1, 2]], [[0, 1]]]" "\<forall>q \<in> set [[[1, 2]], [[0, 1]]]. table_bounded 2 q"
  "list_all (qtable_ok 1 2) [[[900, -900]]]" "robust_for ''median'' 3 1"
  by (simp_all add: qtable_ok_def table_bounded_def robust_for_def)

theorem upload_influence_bounded_witness:
  "\<exists>r. finish_round (1, 2) 3 1 ''median'' False (\<lambda>_ _ _. 0) [[[1, 2]], [[0, 1]], [[900, -900]]] = Inr r \<and>
     table_bounded 2 (global_q r)"
  using upload_influence_bounded [OF tiny_tables(1-3), of 1 "''median''" 3 False "\<lambda>_ _ _. 0"] tiny_tables(4)
  by (auto simp: numeral_3_eq_3)


theorem fedavg_hijacked_witness:
  "\<exists>r. finish_round (1, 2) 2 1 ''fedavg'' False (\<lambda>_ _ _. 0) [[[0, 10]], [[50, 0]]] = Inr r \<and>
     greedy_action (global_q r) 0 = Inr 0"
proof -
  have f: "finish_round (1, 2) 2 1 ''fedavg'' False (\<lambda>_ _ _. 0) ([[[0, 10]]] @ replicate 1 [[50, 0]]) =
      Inr \<lparr>global_q = [[25, 5]], rr_method = ''fedavg'', rr_clients = 2, rr_malicious = 1, rr_secure = False,
           rr_shapes = (1, 2), rr_selected = None\<rparr>"
    by (simp add: finish_round_def aggregate_q_def fedavg_def stack_def ravel_def per_column_def column_def mean_def dim_def
        reshape_def eval_nat_numeral)
  have "craft_poison_q (1, 2) 0 50 = Inr [[50, 0]]" by (simp add: craft_poison_q_def eval_nat_numeral)
  from fedavg_hijacked [OF _ _ this _ f, of 10 0] f show ?thesis by (simp add: qtable_ok_def table_bounded_def)
qed

theorem softmax_distribution_witness: "sum_list (softmax_row (1 / 2) [1, 2, 3]) = 1"
  using softmax_distribution [of "[1, 2, 3]" "1 / 2"] by simp

theorem evaluation_accounts_witness:
  "\<exists>em. evaluate_policy [[1, 0], [0, 1]] tiny_dsa 1 (1 / 2)
       \<lparr>ed_reset = \<lambda>ep. tiny_slot, ed_slot = \<lambda>ep k. tiny_slot, ed_choice = \<lambda>ep k u p. 0\<rparr> = Inr em \<and>
     throughput_per_slot em \<le> 1"
proof -
  have "qtable_ok (n_states (n_channels tiny_dsa)) (n_actions (n_channels tiny_dsa)) [[1, 0], [0, 1]]"
    by (simp add: qtable_ok_def n_states_def n_actions_def tiny_dsa_def)
  from evaluation_accounts [OF this tiny_ok(1), of "\<lparr>ed_reset = \<lambda>ep. tiny_slot, ed_slot = \<lambda>ep k. tiny_slot, ed_choice = \<lambda>ep k u p. 0\<rparr>" 1 "1 / 2"]
  show ?thesis
    by (auto simp: eval_draws_ok_def tiny_dsa_def tiny_slot_def draw_ok_def dsa_config_default_def)
qed

end
