(* ===== verification/Erasure.thy ===== *)
theory Erasure
  imports FedQ Signing
begin

text \<open>
  Subject-level erasure (\<open>federated/erasure.py\<close>): a client's training recorded as transitions tagged
  with the subject they come from, replayed without a subject's transitions, aggregated again, and
  certified. The byte image of a table (\<open>tobytes\<close>), SHA-256, JSON and RSA are parameters; arithmetic is
  exact.
\<close>

section \<open>Transitions and their replay\<close>

record tagged_transition =
  tt_state :: int
  tt_action :: int
  tt_reward :: real
  tt_next :: int
  tt_subject :: string

definition log_entry :: "nat \<Rightarrow> nat \<Rightarrow> step_result \<Rightarrow> string \<Rightarrow> tagged_transition" where
  "log_entry state action r subject =
     \<lparr>tt_state = int state, tt_action = int action, tt_reward = sr_reward r, tt_next = int (sr_obs r), tt_subject = subject\<rparr>"

function collect_episode ::
  "q_config \<Rightarrow> (nat \<Rightarrow> learner_draw) \<Rightarrow> string \<Rightarrow> nat \<Rightarrow> qtable \<Rightarrow> nat \<Rightarrow> dsa_env \<Rightarrow> tagged_transition list \<Rightarrow>
   (tagged_transition list \<times> qtable) res" where
  "collect_episode cfg draws subject k q state e lg =
     (case choose_action cfg (draws k) q state of
        Inl ex \<Rightarrow> Inl ex
      | Inr action \<Rightarrow>
          (case env_step (ld_slot (draws k)) (int action) e of
             Inl ex \<Rightarrow> Inl ex
           | Inr (r, e') \<Rightarrow>
               (case q_update cfg q state action (sr_reward r) (sr_obs r) of
                  Inl ex \<Rightarrow> Inl ex
                | Inr q' \<Rightarrow>
                    let lg' = lg @ [log_entry state action r subject]
                    in if sr_done r then Inr (lg', q')
                       else collect_episode cfg draws subject (k + 1) q' (sr_obs r) e' lg')))"
  by pat_completeness auto
termination
  by (relation "measure (\<lambda>(cfg, draws, subject, k, q, state, e, lg). nat (max_steps (env_cfg e) - env_t e))")
    (auto dest!: env_step_time)

declare collect_episode.simps [simp del]

fun collect_episodes ::
  "dsa_config \<Rightarrow> q_config \<Rightarrow> train_draws \<Rightarrow> string list \<Rightarrow> nat list \<Rightarrow> qtable \<Rightarrow> tagged_transition list \<Rightarrow>
   (tagged_transition list \<times> qtable) res" where
  "collect_episodes dsa cfg td subjects [] q lg = Inr (lg, q)"
| "collect_episodes dsa cfg td subjects (ep # eps) q lg =
     (if subjects = [] then Inl ZeroDivisionError
      else
        let subject = subjects ! (ep mod length subjects)
        in bindE (env_reset dsa (td_reset td ep)) (\<lambda>(state, e).
           bindE (collect_episode cfg (td_step td ep) subject 0 q state e lg) (\<lambda>(lg', q').
             collect_episodes dsa cfg td subjects eps q' lg')))"

definition collect_subject_transitions ::
  "dsa_config \<Rightarrow> q_config \<Rightarrow> train_draws \<Rightarrow> string list \<Rightarrow> tagged_transition list res" where
  "collect_subject_transitions dsa cfg td subjects =
     bindE (collect_episodes dsa cfg td subjects [0..<q_episodes cfg]
              (zeros (n_states (n_channels dsa)) (n_actions (n_channels dsa))) []) (\<lambda>(lg, q). Inr lg)"

text \<open>NumPy indices count from the end when they are negative.\<close>

fun replay_log :: "q_config \<Rightarrow> tagged_transition list \<Rightarrow> qtable \<Rightarrow> qtable res" where
  "replay_log cfg [] q = Inr q"
| "replay_log cfg (t # ts) q =
     bindE (np_index (length q) (tt_next t)) (\<lambda>n.
     bindE (row_max (q ! n)) (\<lambda>best_next.
     bindE (np_index (length q) (tt_state t)) (\<lambda>s.
     bindE (np_index (length (q ! s)) (tt_action t)) (\<lambda>a.
     bindE (q_update cfg q s a (tt_reward t) n) (replay_log cfg ts)))))"

definition train_q_from_transitions :: "tagged_transition list \<Rightarrow> nat \<times> nat \<Rightarrow> q_config \<Rightarrow> qtable res" where
  "train_q_from_transitions ts sh cfg = replay_log cfg ts (zeros (fst sh) (snd sh))"

definition erase_subject :: "tagged_transition list \<Rightarrow> string \<Rightarrow> nat \<times> nat \<Rightarrow> q_config \<Rightarrow> qtable res" where
  "erase_subject ts subject sh cfg =
     (let kept = filter (\<lambda>t. tt_subject t \<noteq> subject) ts in train_q_from_transitions kept sh cfg)"

section \<open>The federation\<close>

definition plain_aggregate :: "qtable list \<Rightarrow> string \<Rightarrow> int \<Rightarrow> real list res" where
  "plain_aggregate uploads meth f =
     (let flats = map ravel uploads
      in if meth = ''fedavg'' then fedavg flats
         else if meth = ''median'' then coordinate_median flats
         else if meth = ''trimmed_mean'' then trimmed_mean flats (max 1 f)
         else if meth = ''krum'' then bindE (krum flats (max 0 f)) (\<lambda>r. Inr (krum_aggregate r))
         else Inl ValueError)"

definition erase_agg :: "nat \<times> nat \<Rightarrow> string \<Rightarrow> int \<Rightarrow> qtable list \<Rightarrow> qtable res" where
  "erase_agg sh meth f qs = bindE (plain_aggregate qs meth f) (reshape sh)"

type_synonym client_logs = "(string \<times> tagged_transition list) list"

definition log_of :: "client_logs \<Rightarrow> string \<Rightarrow> tagged_transition list res" where
  "log_of logs cid = (case map_of logs cid of None \<Rightarrow> Inl KeyError | Some l \<Rightarrow> Inr l)"

record erasure_certificate =
  ec_subject :: string
  ec_client :: string
  ec_method :: string
  ec_before :: string
  ec_after :: string
  ec_distance :: real
  ec_created_at :: string
  ec_manifest :: pyval
  ec_provenance :: "model_provenance option"

definition erasure_verify ::
  "sha \<Rightarrow> (pyval \<Rightarrow> string res) \<Rightarrow> ('k, 'p) rsa \<Rightarrow> (qtable \<Rightarrow> nat list) \<Rightarrow> erasure_certificate \<Rightarrow> qtable \<Rightarrow>
   nat list option \<Rightarrow> bool res" where
  "erasure_verify sha dumps rsa tob cert q trusted =
     (if sha (tob q) \<noteq> ec_after cert then Inr False
      else case ec_provenance cert of
             None \<Rightarrow> Inr False
           | Some p \<Rightarrow> bindE (manifest_digest sha dumps (ec_manifest cert)) (\<lambda>d.
               if d \<noteq> manifest_sha256 p then Inr False else verify_model sha rsa (tob q) p trusted))"

definition erasure_manifest :: "string \<Rightarrow> string \<Rightarrow> string \<Rightarrow> nat \<Rightarrow> string \<Rightarrow> string \<Rightarrow> real \<Rightarrow> string \<Rightarrow> pyval" where
  "erasure_manifest subject client meth n_erased before after distance now = VDict
     [(''event'', VStr ''subject_erasure_art17''), (''subject_id'', VStr subject), (''client_id'', VStr client),
      (''aggregation_method'', VStr meth), (''n_transitions_erased'', VInt (int n_erased)),
      (''model_sha256_before'', VStr before), (''model_sha256_after'', VStr after),
      (''certified_l2_distance_to_retrain'', VFloat (Fin distance)), (''created_at'', VStr now)]"

text \<open>The distance of two tables, \<open>np.linalg.norm\<close> of the difference of their flat vectors.\<close>

definition table_distance :: "qtable \<Rightarrow> qtable \<Rightarrow> real" where
  "table_distance q q' = norm2 (map2 (-) (ravel q) (ravel q'))"

definition federated_erase_subject ::
  "sha \<Rightarrow> (pyval \<Rightarrow> string res) \<Rightarrow> ('k, 'p) rsa \<Rightarrow> (qtable \<Rightarrow> nat list) \<Rightarrow> nat \<Rightarrow> 'k \<Rightarrow> string \<Rightarrow> client_logs \<Rightarrow> string \<Rightarrow>
   string \<Rightarrow> dsa_config \<Rightarrow> q_config \<Rightarrow> string \<Rightarrow> int \<Rightarrow> string \<Rightarrow> string \<Rightarrow> 'k hsm \<Rightarrow>
   (qtable \<times> qtable \<times> erasure_certificate \<times> 'k hsm) res" where
  "federated_erase_subject sha dumps rsa tob nonce fresh now logs target subject dsa cfg meth f trainer label keys =
     (let sh = (n_states (n_channels dsa), n_actions (n_channels dsa));
          ids = sort (map fst logs)
      in bindE (mapE (\<lambda>cid. bindE (log_of logs cid) (\<lambda>l. train_q_from_transitions l sh cfg)) ids) (\<lambda>local_before.
         bindE (erase_agg sh meth f local_before) (\<lambda>global_before.
         bindE (log_of logs target) (\<lambda>tlog.
         bindE (erase_subject tlog subject sh cfg) (\<lambda>erased.
         bindE (erase_agg sh meth f (map (\<lambda>(cid, q). if cid = target then erased else q) (zip ids local_before)))
           (\<lambda>global_after.
         bindE (mapE (\<lambda>cid. bindE (log_of logs cid) (\<lambda>l. train_q_from_transitions
                  (filter (\<lambda>t. \<not> (cid = target \<and> tt_subject t = subject)) l) sh cfg)) ids) (\<lambda>gold_locals.
         bindE (erase_agg sh meth f gold_locals) (\<lambda>gold.
           let distance = table_distance global_after gold;
               before = sha (tob global_before);
               after = sha (tob global_after);
               n_erased = length (filter (\<lambda>t. tt_subject t = subject) tlog);
               manifest = erasure_manifest subject target meth n_erased before after distance now
           in bindE (sign_model sha dumps rsa nonce fresh now (tob global_after) trainer manifest label keys)
                (\<lambda>(keys', prov).
                Inr (global_before, global_after,
                     \<lparr>ec_subject = subject, ec_client = target, ec_method = meth, ec_before = before,
                      ec_after = after, ec_distance = distance, ec_created_at = now, ec_manifest = manifest,
                      ec_provenance = Some prov\<rparr>, keys'))))))))))"

section \<open>Replaying a collected log is training\<close>

lemma np_index_nat: "np_index n (int k) = (if k < n then Inr k else Inl IndexError)"
  by (simp add: np_index_def)

lemma q_update_Inr:
  "q_update cfg q s a r n = Inr q' \<Longrightarrow> s < length q \<and> a < length (q ! s) \<and> n < length q \<and> (\<exists>m. row_max (q ! n) = Inr m)"
  by (auto simp: q_update_def bindE_eq_Inr at_index_def split: if_splits)

lemma replay_append: "replay_log cfg (ts @ us) q = bindE (replay_log cfg ts q) (replay_log cfg us)"
proof (induction ts arbitrary: q)
  case (Cons t ts)
  then have "replay_log cfg (ts @ us) = (\<lambda>q. bindE (replay_log cfg ts q) (replay_log cfg us))" by (rule ext)
  then show ?case by (simp add: bindE_assoc)
qed simp

lemma replay_entry:
  "q_update cfg q s a (sr_reward r) (sr_obs r) = Inr q' \<Longrightarrow> replay_log cfg [log_entry s a r subject] q = Inr q'"
  by (frule q_update_Inr) (auto simp: log_entry_def np_index_nat)

lemma collect_episode_learns:
  "(case learn_episode honest_signal cfg draws k q state e of
      Inl ex \<Rightarrow> collect_episode cfg draws subject k q state e lg = Inl ex
    | Inr (q', e') \<Rightarrow> \<exists>rows. collect_episode cfg draws subject k q state e lg = Inr (lg @ rows, q') \<and>
         replay_log cfg rows q = Inr q' \<and> (\<forall>t \<in> set rows. tt_subject t = subject))"
proof (induction cfg draws subject k q state e lg rule: collect_episode.induct)
  case (1 cfg draws subject k q state e lg)
  note unf = learn_episode.simps [of honest_signal cfg draws k q state e]
    collect_episode.simps [of cfg draws subject k q state e lg]
  show ?case
  proof (cases "choose_action cfg (draws k) q state")
    case (Inr action)
    note act = Inr
    show ?thesis
    proof (cases "env_step (ld_slot (draws k)) (int action) e")
      case (Inr re)
      obtain r e' where re: "env_step (ld_slot (draws k)) (int action) e = Inr (r, e')" using Inr by (cases re) auto
      have hs: "honest_signal (env_cfg e) (draws k) r = sr_reward r" by (simp add: honest_signal_def)
      show ?thesis
      proof (cases "q_update cfg q state action (sr_reward r) (sr_obs r)")
        case (Inr q')
        note entry = replay_entry [OF Inr, of subject]
        show ?thesis
        proof (cases "sr_done r")
          case True
          then show ?thesis using entry [unfolded log_entry_def]
            by (auto simp: unf act re Inr hs Let_def log_entry_def simp del: replay_log.simps intro!: exI [of _ "[log_entry state action r subject]"])
        next
          case False
          let ?lg = "lg @ [log_entry state action r subject]"
          note ih = "1.IH" [OF act re refl Inr refl False]
          show ?thesis
          proof (cases "learn_episode honest_signal cfg draws (k + 1) q' (sr_obs r) e'")
            case (Inl ex)
            then show ?thesis using ih False by (simp add: unf act re Inr hs Let_def)
          next
            case (Inr qe)
            obtain q2 e2 where qe: "learn_episode honest_signal cfg draws (k + 1) q' (sr_obs r) e' = Inr (q2, e2)"
              using Inr by (cases qe) auto
            with ih obtain rows where rows:
              "collect_episode cfg draws subject (k + 1) q' (sr_obs r) e' ?lg = Inr (?lg @ rows, q2)"
              "replay_log cfg rows q' = Inr q2" "\<forall>t \<in> set rows. tt_subject t = subject" by auto
            have "replay_log cfg (log_entry state action r subject # rows) q = Inr q2"
              using replay_append [of cfg "[log_entry state action r subject]" rows q] entry rows(2)
              by (simp del: replay_log.simps)
            moreover have "tt_subject (log_entry state action r subject) = subject" by (simp add: log_entry_def)
            ultimately show ?thesis
              using rows(1,3) False \<open>q_update cfg q state action (sr_reward r) (sr_obs r) = Inr q'\<close> qe
              by (auto simp: unf act re hs Let_def simp del: replay_log.simps
                  intro!: exI [of _ "log_entry state action r subject # rows"])
          qed
        qed
      qed (simp add: unf act re hs)
    qed (simp add: unf act)
  qed (simp add: unf)
qed

lemma collect_episodes_learn:
  assumes "subjects \<noteq> []"
  shows "(case learn_episodes honest_signal dsa cfg td eps q of
      Inl ex \<Rightarrow> collect_episodes dsa cfg td subjects eps q lg = Inl ex
    | Inr q' \<Rightarrow> \<exists>rows. collect_episodes dsa cfg td subjects eps q lg = Inr (lg @ rows, q') \<and>
         replay_log cfg rows q = Inr q' \<and> tt_subject ` set rows \<subseteq> set subjects)"
proof (induction eps arbitrary: q lg)
  case (Cons ep eps)
  let ?sub = "subjects ! (ep mod length subjects)"
  have sub: "?sub \<in> set subjects" using assms by simp
  show ?case
  proof (cases "env_reset dsa (td_reset td ep)")
    case (Inr se)
    obtain s e where se: "se = (s, e)" by force
    note ep = collect_episode_learns [of cfg "td_step td ep" ?sub 0 q s e lg]
    show ?thesis
    proof (cases "learn_episode honest_signal cfg (td_step td ep) 0 q s e")
      case (Inr qe)
      obtain q1 e1 where qe: "qe = (q1, e1)" by force
      with ep Inr obtain r1 where r1: "collect_episode cfg (td_step td ep) ?sub 0 q s e lg = Inr (lg @ r1, q1)"
        "replay_log cfg r1 q = Inr q1" "\<forall>t \<in> set r1. tt_subject t = ?sub" by auto
      show ?thesis
      proof (cases "learn_episodes honest_signal dsa cfg td eps q1")
        case (Inl ex)
        then show ?thesis using Cons.IH [of q1 "lg @ r1"] \<open>env_reset dsa (td_reset td ep) = Inr se\<close> Inr r1(1) assms
          by (simp add: se qe Let_def)
      next
        case (Inr q2)
        with Cons.IH [of q1 "lg @ r1"] obtain r2 where r2:
          "collect_episodes dsa cfg td subjects eps q1 (lg @ r1) = Inr ((lg @ r1) @ r2, q2)"
          "replay_log cfg r2 q1 = Inr q2" "tt_subject ` set r2 \<subseteq> set subjects" by auto
        have "replay_log cfg (r1 @ r2) q = Inr q2" by (simp add: replay_append r1(2) r2(2))
        moreover have "tt_subject ` set (r1 @ r2) \<subseteq> set subjects" using r1(3) r2(3) sub by auto
        ultimately show ?thesis
          using \<open>env_reset dsa (td_reset td ep) = Inr se\<close> \<open>learn_episode honest_signal cfg (td_step td ep) 0 q s e = Inr qe\<close>
            Inr r1(1) r2(1) assms by (auto simp: se qe Let_def intro!: exI [of _ "r1 @ r2"])
      qed
    qed (use ep \<open>env_reset dsa (td_reset td ep) = Inr se\<close> assms in \<open>simp add: se Let_def\<close>)
  qed (use assms in \<open>simp add: Let_def\<close>)
qed auto

text \<open>
  Recording loses nothing: replaying the transitions a client recorded gives the very table its local
  training gives with the same draws, exceptions included, and every transition is tagged with one of
  the client's subjects.
\<close>

theorem collected_log_replays:
  assumes "subjects \<noteq> []"
  shows "bindE (collect_subject_transitions dsa cfg td subjects)
             (\<lambda>lg. train_q_from_transitions lg (n_states (n_channels dsa), n_actions (n_channels dsa)) cfg) =
           train_local_q dsa cfg None td \<and>
         (\<forall>lg. collect_subject_transitions dsa cfg td subjects = Inr lg \<longrightarrow> tt_subject ` set lg \<subseteq> set subjects)"
  using collect_episodes_learn [OF assms, of dsa cfg td "[0..<q_episodes cfg]"
      "zeros (n_states (n_channels dsa)) (n_actions (n_channels dsa))" "[]"]
  by (auto simp: collect_subject_transitions_def train_q_from_transitions_def train_local_q_def initial_table_def
      split: sum.splits)

section \<open>Erasure is exact\<close>

text \<open>The contract: the federation trained on logs that never held the subject's transitions.\<close>

definition federation_of :: "dsa_config \<Rightarrow> q_config \<Rightarrow> string \<Rightarrow> int \<Rightarrow> client_logs \<Rightarrow> qtable res" where
  "federation_of dsa cfg meth f logs =
     (let sh = (n_states (n_channels dsa), n_actions (n_channels dsa))
      in bindE (mapE (\<lambda>cid. bindE (log_of logs cid) (\<lambda>l. train_q_from_transitions l sh cfg)) (sort (map fst logs)))
           (erase_agg sh meth f))"

definition without_subject :: "string \<Rightarrow> string \<Rightarrow> client_logs \<Rightarrow> client_logs" where
  "without_subject target subject logs =
     map (\<lambda>(cid, l). (cid, if cid = target then filter (\<lambda>t. tt_subject t \<noteq> subject) l else l)) logs"

lemma without_keys [simp]: "map fst (without_subject target subject logs) = map fst logs"
  by (induction logs) (auto simp: without_subject_def)

lemma log_of_without:
  "log_of (without_subject target subject logs) cid =
     bindE (log_of logs cid) (\<lambda>l. Inr (if cid = target then filter (\<lambda>t. tt_subject t \<noteq> subject) l else l))"
  by (induction logs) (auto simp: without_subject_def log_of_def split: option.splits)

lemma log_of_key: "cid \<in> set (map fst logs) \<Longrightarrow> \<exists>l. log_of logs cid = Inr l"
  by (cases "map_of logs cid") (auto simp: log_of_def map_of_eq_None_iff)

lemma gold_locals:
  "bindE (log_of logs cid) (\<lambda>l. train_q_from_transitions
      (filter (\<lambda>t. \<not> (cid = target \<and> tt_subject t = subject)) l) sh cfg) =
   bindE (log_of (without_subject target subject logs) cid) (\<lambda>l. train_q_from_transitions l sh cfg)"
  by (cases "log_of logs cid") (auto simp: log_of_without)

text \<open>Replacing the target's table in the list of local tables is training on the reduced logs.\<close>

lemma patched_locals:
  assumes "mapE (\<lambda>cid. bindE (log_of logs cid) (\<lambda>l. train_q_from_transitions l sh cfg)) ids = Inr qs"
    and "log_of logs target = Inr tlog" "erase_subject tlog subject sh cfg = Inr erased"
  shows "mapE (\<lambda>cid. bindE (log_of (without_subject target subject logs) cid) (\<lambda>l. train_q_from_transitions l sh cfg)) ids =
         Inr (map (\<lambda>(cid, q). if cid = target then erased else q) (zip ids qs))"
proof -
  have "bindE (log_of (without_subject target subject logs) cid) (\<lambda>l. train_q_from_transitions l sh cfg) =
      Inr (if cid = target then erased else q)"
    if "bindE (log_of logs cid) (\<lambda>l. train_q_from_transitions l sh cfg) = Inr q" for cid q
    using that assms(2,3) by (auto simp: log_of_without erase_subject_def bindE_eq_Inr)
  then show ?thesis using assms(1)
    by (auto simp: mapE_Inr_iff list_all2_conv_all_nth split_beta)
qed

lemma distance_self: "table_distance q q = 0"
proof -
  have "dot v v = 0" if "set v \<subseteq> {0}" for v :: "real list"
    using that by (induction v) (auto simp: dot_def)
  moreover have "set (map2 (-) xs xs) \<subseteq> {0}" for xs :: "real list" by (induction xs) auto
  ultimately show ?thesis by (simp add: table_distance_def norm2_def)
qed

text \<open>A provenance record verifies right after it is signed, under the key it names.\<close>

lemma signed_verifies:
  assumes "rsa_ok rsa"
    and "sign_model sha dumps rsa nonce fresh now weights trainer manifest label keys = Inr (keys', p)"
  shows "manifest_digest sha dumps manifest = Inr (manifest_sha256 p) \<and> verify_model sha rsa weights p None = Inr True \<and>
    (\<forall>der. export_public rsa (pub_handle label) keys' = Inr der \<longrightarrow> verify_model sha rsa weights p (Some der) = Inr True)"
proof -
  from sign_model_result [OF assms(2)] obtain k msha where k: "map_of keys' label = Some k"
    "manifest_digest sha dumps manifest = Inr msha" "weights_sha256 p = sha weights" "manifest_sha256 p = msha"
    "trainer_id p = trainer"
    "signature_hex p = to_hex (rsa_sign rsa nonce k (signing_payload (sha weights) msha trainer))"
    "public_key_der_hex p = to_hex (rsa_der rsa (rsa_public rsa k))" by blast
  then show ?thesis using assms(1)
    by (simp add: verify_model_def rsa_ok_def fromhex_to_hex export_public_def resolve_handles)
qed

lemma erase_parts:
  assumes "federated_erase_subject sha dumps rsa tob nonce fresh now logs target subject dsa cfg meth f trainer label keys =
      Inr (before, after, cert, keys')"
  shows "federation_of dsa cfg meth f logs = Inr before"
    and "federation_of dsa cfg meth f (without_subject target subject logs) = Inr after"
    and "ec_distance cert = 0 \<and> ec_after cert = sha (tob after) \<and> ec_before cert = sha (tob before)"
    and "\<exists>prov. ec_provenance cert = Some prov \<and> sign_model sha dumps rsa nonce fresh now (tob after) trainer
           (ec_manifest cert) label keys = Inr (keys', prov)"
proof -
  let ?sh = "(n_states (n_channels dsa), n_actions (n_channels dsa))" and ?ids = "sort (map fst logs)"
  obtain qs tlog erased golds gold where p:
    "mapE (\<lambda>cid. bindE (log_of logs cid) (\<lambda>l. train_q_from_transitions l ?sh cfg)) ?ids = Inr qs"
    "erase_agg ?sh meth f qs = Inr before" "log_of logs target = Inr tlog"
    "erase_subject tlog subject ?sh cfg = Inr erased"
    "erase_agg ?sh meth f (map (\<lambda>(cid, q). if cid = target then erased else q) (zip ?ids qs)) = Inr after"
    "mapE (\<lambda>cid. bindE (log_of (without_subject target subject logs) cid)
       (\<lambda>l. train_q_from_transitions l ?sh cfg)) ?ids = Inr golds"
    "erase_agg ?sh meth f golds = Inr gold"
    and c: "ec_distance cert = table_distance after gold" "ec_after cert = sha (tob after)"
      "ec_before cert = sha (tob before)"
      "\<exists>prov. ec_provenance cert = Some prov \<and> sign_model sha dumps rsa nonce fresh now (tob after) trainer
           (ec_manifest cert) label keys = Inr (keys', prov)"
    using assms unfolding federated_erase_subject_def gold_locals Let_def
    by (auto simp: bindE_eq_Inr split_beta)
  from patched_locals [OF p(1,3,4)] p(5,6,7) have "gold = after" by simp
  with p c show "federation_of dsa cfg meth f logs = Inr before"
    "federation_of dsa cfg meth f (without_subject target subject logs) = Inr after"
    "ec_distance cert = 0 \<and> ec_after cert = sha (tob after) \<and> ec_before cert = sha (tob before)"
    "\<exists>prov. ec_provenance cert = Some prov \<and> sign_model sha dumps rsa nonce fresh now (tob after) trainer
           (ec_manifest cert) label keys = Inr (keys', prov)"
    by (simp_all add: federation_of_def Let_def distance_self)
qed

text \<open>Logs whose rows point into the table, as the recorded ones do.\<close>

definition log_ok :: "dsa_config \<Rightarrow> tagged_transition list \<Rightarrow> bool" where
  "log_ok dsa ts \<longleftrightarrow>
     (\<forall>t \<in> set ts. 0 \<le> tt_state t \<and> tt_state t < int (n_states (n_channels dsa)) \<and>
        0 \<le> tt_action t \<and> tt_action t < int (n_actions (n_channels dsa)) \<and>
        0 \<le> tt_next t \<and> tt_next t < int (n_states (n_channels dsa)))"

lemma q_update_total:
  assumes "qtable_ok ns na q" "s < ns" "n < ns" "a < na"
  shows "\<exists>q'. q_update cfg q s a r n = Inr q' \<and> qtable_ok ns na q'"
proof -
  have rows: "s < length q" "length (q ! s) = na" "n < length q" "length (q ! n) = na"
    using table_rowD [OF assms(1)] assms(2,3) by auto
  then have "q ! n \<noteq> []" using assms(4) by auto
  then show ?thesis using rows assms(1,4)
    by (auto simp: q_update_def at_index_def row_max_def qtable_ok_def list_all_iff
        dest: set_update_subset_insert [THEN subsetD])
qed

lemma replay_total:
  "log_ok dsa ts \<Longrightarrow> qtable_ok (n_states (n_channels dsa)) (n_actions (n_channels dsa)) q \<Longrightarrow>
   \<exists>q'. replay_log cfg ts q = Inr q' \<and> qtable_ok (n_states (n_channels dsa)) (n_actions (n_channels dsa)) q'"
proof (induction ts arbitrary: q)
  case (Cons t ts)
  let ?ns = "n_states (n_channels dsa)" and ?na = "n_actions (n_channels dsa)"
  define s a n where "s = nat (tt_state t)" and "a = nat (tt_action t)" and "n = nat (tt_next t)"
  have ix: "tt_state t = int s" "tt_action t = int a" "tt_next t = int n" "s < ?ns" "a < ?na" "n < ?ns"
    using Cons.prems(1) by (auto simp: log_ok_def s_def a_def n_def nat_less_iff)
  obtain q' where q': "q_update cfg q s a (tt_reward t) n = Inr q'" "qtable_ok ?ns ?na q'"
    using q_update_total [OF Cons.prems(2) ix(4,6,5)] by blast
  have "log_ok dsa ts" using Cons.prems(1) by (simp add: log_ok_def)
  from Cons.IH [OF this q'(2)] show ?case
    using q_update_Inr [OF q'(1)] q'(1) by (auto simp: ix(1-3) np_index_nat)
qed simp

lemma log_ok_filter: "log_ok dsa ts \<Longrightarrow> log_ok dsa (filter P ts)"
  by (auto simp: log_ok_def)

lemma zeros_ok: "qtable_ok ns na (zeros ns na)"
  by (simp add: zeros_def qtable_ok_def list_all_iff)

lemma federation_total:
  assumes logs: "\<forall>(cid, l) \<in> set logs. log_ok dsa l" "logs \<noteq> []"
    and meth: "meth = ''fedavg'' \<or> meth = ''median''"
  shows "\<exists>q. federation_of dsa cfg meth f logs = Inr q"
proof -
  let ?ns = "n_states (n_channels dsa)" and ?na = "n_actions (n_channels dsa)"
  let ?train = "\<lambda>cid. bindE (log_of logs cid) (\<lambda>l. train_q_from_transitions l (?ns, ?na) cfg)"
  have one: "\<exists>q. ?train cid = Inr q \<and> qtable_ok ?ns ?na q" if key: "cid \<in> set (map fst logs)" for cid
  proof -
    obtain l where l: "log_of logs cid = Inr l" "map_of logs cid = Some l"
      using log_of_key [OF key] by (auto simp: log_of_def split: option.splits)
    then have "log_ok dsa l" using logs(1) by (auto dest: map_of_SomeD)
    from replay_total [OF this zeros_ok] show ?thesis by (simp add: l(1) train_q_from_transitions_def)
  qed
  define g where "g cid = (SOME q. ?train cid = Inr q \<and> qtable_ok ?ns ?na q)" for cid
  have g: "?train cid = Inr (g cid) \<and> qtable_ok ?ns ?na (g cid)" if "cid \<in> set (map fst logs)" for cid
    unfolding g_def by (rule someI_ex [OF one [OF that]])
  have tabs: "list_all (qtable_ok ?ns ?na) (map g (sort (map fst logs)))" "map g (sort (map fst logs)) \<noteq> []"
    using g logs(2) by (auto simp: list_all_iff dest: arg_cong [where f = set])
  have "mapE ?train (sort (map fst logs)) = Inr (map g (sort (map fst logs)))" using g by (intro mapE_pure) auto
  moreover note stack_tables [OF tabs]
  then have "\<exists>v. plain_aggregate (map g (sort (map fst logs))) meth f = Inr v \<and> length v = ?ns * ?na"
    using meth by (auto simp: plain_aggregate_def fedavg_def coordinate_median_def per_column_def)
  then have "\<exists>q. erase_agg (?ns, ?na) meth f (map g (sort (map fst logs))) = Inr q"
    using reshape_ok by (fastforce simp: erase_agg_def)
  ultimately show ?thesis by (simp add: federation_of_def Let_def)
qed

lemma sign_total:
  assumes "\<forall>v. \<exists>s. dumps v = Inr s"
  shows "\<exists>keys' p. sign_model sha dumps rsa nonce fresh now weights trainer manifest label keys = Inr (keys', p)"
proof -
  obtain s where "dumps manifest = Inr s" using assms by blast
  then show ?thesis
    by (cases "label \<in> set (list_keys keys)")
      (auto simp: sign_model_def manifest_digest_def hsm_sign_def export_public_def resolve_handles list_keys_iff
        generate_keypair_def map_of_dict_set)
qed

lemma erasure_certified:
  assumes "rsa_ok rsa" and "\<forall>v. \<exists>s. dumps v = Inr s"
    and "\<forall>(cid, l) \<in> set logs. log_ok dsa l" and "target \<in> set (map fst logs)"
    and "meth = ''fedavg'' \<or> meth = ''median''"
  shows "\<exists>before after cert keys'.
    federated_erase_subject sha dumps rsa tob nonce fresh now logs target subject dsa cfg meth f trainer label keys =
      Inr (before, after, cert, keys') \<and>
    federation_of dsa cfg meth f logs = Inr before \<and>
    federation_of dsa cfg meth f (without_subject target subject logs) = Inr after \<and>
    ec_distance cert = 0 \<and>
    erasure_verify sha dumps rsa tob cert after None = Inr True \<and>
    (\<forall>der. export_public rsa (pub_handle label) keys' = Inr der \<longrightarrow>
       erasure_verify sha dumps rsa tob cert after (Some der) = Inr True)"
proof -
  let ?sh = "(n_states (n_channels dsa), n_actions (n_channels dsa))" and ?ids = "sort (map fst logs)"
  let ?logs = "without_subject target subject logs"
  have ne: "logs \<noteq> []" "?logs \<noteq> []" using assms(4) by (auto simp: without_subject_def)
  have ok: "\<forall>(cid, l) \<in> set ?logs. log_ok dsa l" using assms(3) log_ok_filter by (fastforce simp: without_subject_def)
  obtain b a where ba: "federation_of dsa cfg meth f logs = Inr b" "federation_of dsa cfg meth f ?logs = Inr a"
    using federation_total [OF assms(3) ne(1) assms(5)] federation_total [OF ok ne(2) assms(5)] by blast
  obtain qs where qs: "mapE (\<lambda>cid. bindE (log_of logs cid) (\<lambda>l. train_q_from_transitions l ?sh cfg)) ?ids = Inr qs"
    "erase_agg ?sh meth f qs = Inr b" using ba(1) by (auto simp: federation_of_def Let_def bindE_eq_Inr)
  obtain tlog where tlog: "log_of logs target = Inr tlog" using log_of_key [OF assms(4)] by blast
  then have "(target, tlog) \<in> set logs" by (auto simp: log_of_def dest: map_of_SomeD split: option.splits)
  then have "log_ok dsa (filter (\<lambda>t. tt_subject t \<noteq> subject) tlog)" using assms(3) log_ok_filter by fastforce
  then obtain er where er: "erase_subject tlog subject ?sh cfg = Inr er"
    using replay_total [OF _ zeros_ok, of dsa "filter (\<lambda>t. tt_subject t \<noteq> subject) tlog" cfg]
    by (auto simp: erase_subject_def train_q_from_transitions_def)
  note patched = patched_locals [OF qs(1) tlog er]
  have after: "erase_agg ?sh meth f (map (\<lambda>(cid, q). if cid = target then er else q) (zip ?ids qs)) = Inr a"
    using ba(2) by (simp add: federation_of_def Let_def patched)
  have "\<exists>cert keys'. federated_erase_subject sha dumps rsa tob nonce fresh now logs target subject dsa cfg meth f
      trainer label keys = Inr (b, a, cert, keys')"
    unfolding federated_erase_subject_def gold_locals Let_def
    by (simp add: qs tlog er after patched)
      (metis (no_types, lifting) bindE_Inr case_prod_conv sign_total [OF assms(2)])
  then obtain cert keys' where run: "federated_erase_subject sha dumps rsa tob nonce fresh now logs target subject dsa cfg
      meth f trainer label keys = Inr (b, a, cert, keys')" by blast
  from erase_parts(3,4) [OF run] obtain prov where c: "ec_distance cert = 0" "ec_after cert = sha (tob a)"
    "ec_provenance cert = Some prov"
    "sign_model sha dumps rsa nonce fresh now (tob a) trainer (ec_manifest cert) label keys = Inr (keys', prov)" by blast
  note v = signed_verifies [OF assms(1) c(4)]
  have "erasure_verify sha dumps rsa tob cert a tr = verify_model sha rsa (tob a) prov tr" for tr
    using v by (simp add: erasure_verify_def c(2,3))
  with run ba c(1) v show ?thesis by auto
qed


text \<open>
  What is erased leaves no trace: when two federations differ only in the transitions of the subject at
  the target client, erasing that subject gives the same table in both, for every aggregator.
\<close>

theorem erased_leaves_no_trace:
  assumes "without_subject target subject logs = without_subject target subject logs'"
    and "federated_erase_subject sha dumps rsa tob nonce fresh now logs target subject dsa cfg meth f trainer label keys =
           Inr (before, after, cert, keys')"
    and "federated_erase_subject sha dumps rsa tob nonce fresh now logs' target subject dsa cfg meth f trainer label keys =
           Inr (before', after', cert', keys'')"
  shows "after' = after \<and> ec_after cert' = ec_after cert \<and> ec_distance cert' = ec_distance cert"
  using erase_parts(2,3) [OF assms(2)] erase_parts(2,3) [OF assms(3)] assms(1) by simp

text \<open>A certificate that verifies for a table verifies only for its bytes, or SHA-256 has a collision.\<close>

theorem erasure_certificate_binds:
  assumes "federated_erase_subject sha dumps rsa tob nonce fresh now logs target subject dsa cfg meth f trainer label keys =
             Inr (before, after, cert, keys')"
    and "erasure_verify sha dumps rsa tob cert q trusted = Inr True"
  shows "tob q = tob after \<or> (tob q \<noteq> tob after \<and> sha (tob q) = sha (tob after))"
  using assms(2) erase_parts(3) [OF assms(1)] by (auto simp: erasure_verify_def split: if_splits)

section \<open>What the recorded transitions still carry\<close>

text \<open>
  The transitions that stay were chosen by a policy the erased ones had shaped: a learner who saw a
  collision with the first subject idles in the second subject's episode, and without the first episode
  it would have transmitted. Replaying the filtered log is then not the training that never met the
  subject.
\<close>

definition two_episodes :: q_config where
  "two_episodes = q_config_default\<lparr>q_episodes := 2\<rparr>"

definition greedy_td :: train_draws where
  "greedy_td = \<lparr>td_reset = (\<lambda>ep. tiny_slot),
     td_step = (\<lambda>ep k. \<lparr>ld_explore = 1, ld_action = 0, ld_flip = 0, ld_slot = tiny_slot\<rparr>)\<rparr>"

definition one_slot :: dsa_config where
  "one_slot = tiny_dsa\<lparr>max_steps := 1\<rparr>"

lemmas one_slot_defs = one_slot_def two_episodes_def greedy_td_def tiny_dsa_def tiny_slot_def dsa_config_default_def
  q_config_default_def env_reset_def env_step_def chain_initial_def chain_step_def sense_channels_def
  encode_sensing_def slot_result_def choose_action_def greedy_action_def at_index_def argmax_def q_update_def row_max_def
  zeros_def n_states_def n_actions_def log_entry_def honest_signal_def

theorem kept_transitions_are_shaped:
  "\<exists>lg. collect_subject_transitions one_slot two_episodes greedy_td [''a'', ''b''] = Inr lg \<and>
     erase_subject lg ''a'' (2, 2) two_episodes = Inr [[0, 0], [0, 0]] \<and>
     learn_episodes honest_signal one_slot two_episodes greedy_td [1] (zeros 2 2) = Inr [[0, 0], [- (3 / 40), 0]]"
  by (simp add: collect_subject_transitions_def one_slot_defs collect_episode.simps learn_episode.simps numeral_2_eq_2 upt_rec
      erase_subject_def train_q_from_transitions_def np_index_def)

section \<open>Witnesses\<close>

definition concat_bytes :: "qtable \<Rightarrow> nat list" where
  "concat_bytes q = map (\<lambda>x. if x = 0 then 0 else 1) (concat q)"

definition demo_log :: "tagged_transition list" where
  "demo_log = [\<lparr>tt_state = 1, tt_action = 0, tt_reward = 1, tt_next = 0, tt_subject = ''a''\<rparr>,
     \<lparr>tt_state = 0, tt_action = 1, tt_reward = - 1, tt_next = 1, tt_subject = ''b''\<rparr>]"

lemma demo_log_ok: "\<forall>(cid, l) \<in> set [(''c'', demo_log)]. log_ok tiny_dsa l" "''c'' \<in> set (map fst [(''c'', demo_log)])"
  by (simp_all add: log_ok_def demo_log_def tiny_dsa_def n_states_def n_actions_def)

abbreviation demo_run :: "client_logs \<Rightarrow> string \<Rightarrow> (qtable \<times> qtable \<times> erasure_certificate \<times> nat hsm) res" where
  "demo_run logs meth \<equiv> federated_erase_subject toy_sha (\<lambda>_. Inr []) (toy_rsa []) concat_bytes 0 1 [] logs ''c'' ''a''
     tiny_dsa q_config_default meth 0 ''t'' ''k'' []"

lemma blank_dumps: "\<forall>v :: pyval. \<exists>s. (\<lambda>_. Inr [] :: string res) v = Inr s"
  by simp

lemmas demo_certified = erasure_certified [OF toy_rsa_ok [of "[]"] blank_dumps,
    where sha = toy_sha and tob = concat_bytes and nonce = 0 and fresh = 1 and now = "[]" and subject = "''a''"
      and cfg = q_config_default and f = 0 and trainer = "''t''" and label = "''k''" and keys = "[]"]

theorem collected_log_replays_witness:
  "bindE (collect_subject_transitions tiny_dsa q_config_default tiny_td [''a'', ''b''])
       (\<lambda>lg. train_q_from_transitions lg (n_states (n_channels tiny_dsa), n_actions (n_channels tiny_dsa)) q_config_default) =
     train_local_q tiny_dsa q_config_default None tiny_td"
  using collected_log_replays [of "[''a'', ''b'']" tiny_dsa q_config_default tiny_td] by blast


theorem erased_leaves_no_trace_witness:
  "\<exists>a c a' c'.
     (\<exists>b k. demo_run [(''c'', demo_log)] ''median'' = Inr (b, a, c, k)) \<and>
     (\<exists>b k. demo_run [(''c'', tl demo_log)] ''median'' = Inr (b, a', c', k)) \<and> a' = a \<and> ec_after c' = ec_after c"
proof -
  have ok: "\<forall>(cid, l) \<in> set [(''c'', tl demo_log)]. log_ok tiny_dsa l" "''c'' \<in> set (map fst [(''c'', tl demo_log)])"
    using demo_log_ok by (simp_all add: log_ok_def demo_log_def)
  have same: "without_subject ''c'' ''a'' [(''c'', demo_log)] = without_subject ''c'' ''a'' [(''c'', tl demo_log)]"
    by (simp add: without_subject_def demo_log_def)
  obtain b a c k where r: "demo_run [(''c'', demo_log)] ''median'' = Inr (b, a, c, k)"
    using demo_certified [OF demo_log_ok disjI2 [OF refl]] by blast
  obtain b' a' c' k' where r': "demo_run [(''c'', tl demo_log)] ''median'' = Inr (b', a', c', k')"
    using demo_certified [OF ok disjI2 [OF refl]] by blast
  from erased_leaves_no_trace [OF same r r'] r r' show ?thesis by blast
qed

theorem erasure_certificate_binds_witness:
  "\<exists>b a c k. demo_run [(''c'', demo_log)] ''median'' = Inr (b, a, c, k) \<and>
     erasure_verify toy_sha (\<lambda>_. Inr []) (toy_rsa []) concat_bytes c a None = Inr True \<and>
     (concat_bytes a = concat_bytes a \<or> toy_sha (concat_bytes a) = toy_sha (concat_bytes a))"
proof -
  obtain b a c k where r: "demo_run [(''c'', demo_log)] ''median'' = Inr (b, a, c, k)"
    "erasure_verify toy_sha (\<lambda>_. Inr []) (toy_rsa []) concat_bytes c a None = Inr True"
    using demo_certified [OF demo_log_ok disjI2 [OF refl]] by blast
  from erasure_certificate_binds [OF r] r show ?thesis by blast
qed

end
