(* ===== verification/DataPoison.thy ===== *)
theory DataPoison
  imports FedQ
begin

text \<open>
  Data-side poisoning of federated learners (\<open>spectrum/data_poison.py\<close>): learning from a corrupted
  reward, stamping a backdoor on one state, free riding, and the round in which such clients take part.
\<close>

section \<open>Reward poisoning\<close>

fun poison_reward :: "dsa_config \<Rightarrow> slot_result \<Rightarrow> real" where
  "poison_reward cfg Success = - reward_success cfg"
| "poison_reward cfg Collision = - reward_collision cfg"
| "poison_reward cfg PuClash = - reward_pu_clash cfg"
| "poison_reward cfg Idle = reward_idle cfg"

definition poisoned_signal :: "real \<Rightarrow> signal" where
  "poisoned_signal flip_prob dsa d r =
     (if ld_flip d < flip_prob then poison_reward dsa (sr_result r) else sr_reward r)"

definition train_reward_poisoned_q ::
  "dsa_config \<Rightarrow> q_config \<Rightarrow> qtable option \<Rightarrow> real \<Rightarrow> train_draws \<Rightarrow> qtable res" where
  "train_reward_poisoned_q dsa cfg q_init flip_prob td =
     learn_episodes (poisoned_signal flip_prob) dsa cfg td [0..<q_episodes cfg] (initial_table dsa q_init)"

section \<open>Backdoors\<close>

record backdoor_spec =
  trigger_state :: int
  target_channel :: int
  boost :: real

definition default_backdoor :: "nat \<Rightarrow> int \<Rightarrow> backdoor_spec" where
  "default_backdoor n trigger = \<lparr>trigger_state = trigger, target_channel = 0, boost = 50\<rparr>"

definition stamp_backdoor :: "qtable \<Rightarrow> backdoor_spec \<Rightarrow> qtable res" where
  "stamp_backdoor q spec =
     bindE (np_index (length q) (trigger_state spec)) (\<lambda>s.
     bindE (np_index (length (q ! s)) (target_channel spec)) (\<lambda>c.
       Inr (q[s := (replicate (length (q ! s)) 0)[c := boost spec]])))"

definition train_backdoor_q ::
  "dsa_config \<Rightarrow> q_config \<Rightarrow> backdoor_spec \<Rightarrow> qtable option \<Rightarrow> train_draws \<Rightarrow> qtable res" where
  "train_backdoor_q dsa cfg spec q_init td =
     bindE (train_local_q dsa cfg q_init td) (\<lambda>benign. stamp_backdoor benign spec)"

text \<open>The draws of one trial and one user; a negative trigger state counts from the end.\<close>

definition backdoor_success_rate ::
  "qtable \<Rightarrow> backdoor_spec \<Rightarrow> nat \<Rightarrow> real \<Rightarrow> nat \<Rightarrow> (nat \<Rightarrow> nat \<Rightarrow> real list \<Rightarrow> nat) \<Rightarrow> real res" where
  "backdoor_success_rate q spec users tau trials choice =
     bindE (mapE (\<lambda>(t, u). bindE (np_index (length q) (trigger_state spec)) (\<lambda>s. softmax_action q s tau (choice t u)))
             (List.product [0..<trials] [0..<users])) (\<lambda>acts.
       let hits = length (filter (\<lambda>a. int a = target_channel spec) acts)
       in Inr (real hits / real (max 1 (trials * users))))"

section \<open>Free riders\<close>

definition table_shape :: "qtable \<Rightarrow> nat \<times> nat" where
  "table_shape q = (length q, length (hd q))"

text \<open>The draws of the normal distribution are a table of the shape.\<close>

definition free_rider_update :: "qtable option \<Rightarrow> nat \<times> nat \<Rightarrow> qtable \<Rightarrow> qtable res" where
  "free_rider_update glob sh noise =
     (let base = (case glob of None \<Rightarrow> zeros (fst sh) (snd sh) | Some q \<Rightarrow> q)
      in if glob \<noteq> None \<and> table_shape base \<noteq> sh then Inl ValueError
         else Inr (map2 (map2 (+)) base noise))"

section \<open>The round\<close>

definition build_data_poison_qs ::
  "string \<Rightarrow> int \<Rightarrow> dsa_config \<Rightarrow> q_config \<Rightarrow> qtable option \<Rightarrow> backdoor_spec option \<Rightarrow> (nat \<Rightarrow> train_draws) \<Rightarrow>
   (nat \<Rightarrow> qtable) \<Rightarrow> qtable list res" where
  "build_data_poison_qs attack n_malicious dsa cfg glob backdoor tds noise =
     (if n_malicious \<le> 0 \<or> attack = ''none'' then Inr []
      else
        let sh = (n_states (n_channels dsa), n_actions (n_channels dsa))
        in mapE (\<lambda>m.
             if attack = ''reward_poison'' then train_reward_poisoned_q dsa cfg glob 1 (tds m)
             else if attack = ''backdoor'' then
               train_backdoor_q dsa cfg (case backdoor of None \<Rightarrow> default_backdoor (n_channels dsa) 0 | Some b \<Rightarrow> b)
                 glob (tds m)
             else if attack = ''free_rider'' then free_rider_update glob sh (noise m)
             else Inl ValueError) [0..<nat n_malicious])"

definition federated_dsa_round_data_poison ::
  "string \<Rightarrow> int \<Rightarrow> int \<Rightarrow> dsa_config \<Rightarrow> q_config \<Rightarrow> string \<Rightarrow> qtable option \<Rightarrow> backdoor_spec option \<Rightarrow>
   (nat \<Rightarrow> train_draws) \<Rightarrow> (nat \<Rightarrow> train_draws) \<Rightarrow> (nat \<Rightarrow> qtable) \<Rightarrow> round_result res" where
  "federated_dsa_round_data_poison attack n_clients n_malicious dsa cfg meth glob backdoor tds tds_mal noise =
     (let sh = (n_states (n_channels dsa), n_actions (n_channels dsa))
      in bindE (honest_tables dsa cfg glob tds (n_clients - n_malicious)) (\<lambda>honest_qs.
         bindE (build_data_poison_qs attack n_malicious dsa cfg glob backdoor tds_mal noise) (\<lambda>malicious_qs.
           finish_round sh n_clients n_malicious meth False (\<lambda>_ _ _. 0) (honest_qs @ malicious_qs))))"

section \<open>What the attacks achieve\<close>

lemma poisoned_signal_within: "rewards_within R dsa \<Longrightarrow> signal_within R dsa (poisoned_signal fp)"
proof -
  assume R: "rewards_within R dsa"
  have "\<bar>poison_reward dsa o'\<bar> \<le> R" for o' using R by (cases o') (auto simp: rewards_within_def)
  then show ?thesis using reward_within [OF R] by (auto simp: signal_within_def poisoned_signal_def)
qed

text \<open>
  A reward-poisoned learner cannot be told by the size of its table: whatever share of its rewards is
  inverted, it ends, and its table keeps the bound of the honest ones.
\<close>

lemma poisoned_training_ok:
  assumes "dsa_ok dsa" "learner_ok cfg" "rewards_within ((1 - q_gamma cfg) * B) dsa" "train_draws_ok dsa td"
    and "glob_ok B dsa q_init"
  shows "\<exists>q. train_reward_poisoned_q dsa cfg q_init fp td = Inr q \<and>
           qtable_ok (n_states (n_channels dsa)) (n_actions (n_channels dsa)) q \<and> table_bounded B q"
  unfolding train_reward_poisoned_q_def
  using episodes_ok [OF assms(1,2) poisoned_signal_within [OF assms(3)] assms(4)] initial_ok [OF assms(5)] by blast

theorem poisoned_training_bounded:
  assumes "dsa_ok dsa" "learner_ok cfg" "rewards_within ((1 - q_gamma cfg) * B) dsa" "train_draws_ok dsa td"
    and "glob_ok B dsa q_init"
  shows "\<exists>q. train_reward_poisoned_q dsa cfg q_init fp td = Inr q \<and>
           qtable_ok (n_states (n_channels dsa)) (n_actions (n_channels dsa)) q \<and> table_bounded B q"
  by (rule poisoned_training_ok [OF assms])

lemma np_index_less: "np_index n i = Inr k \<Longrightarrow> k < n"
  by (auto simp: np_index_def nat_less_iff split: if_splits)

lemma argmax_spike:
  assumes "c < n" "0 < (b :: real)"
  shows "argmax ((replicate n 0)[c := b]) = c"
proof (rule ccontr)
  let ?row = "(replicate n 0)[c := b]"
  assume ne: "argmax ?row \<noteq> c"
  have "?row \<noteq> []" "c < length ?row" using assms by auto
  from argmax_greatest [OF this] argmax_less [OF this(1)] ne assms show False by simp
qed

text \<open>
  A backdoored upload differs from the honest one in the trigger row only, and there the greedy action is
  the attacker's channel.
\<close>

theorem backdoor_is_sparse:
  assumes "train_backdoor_q dsa cfg spec q_init td = Inr bad" and "0 < boost spec"
    and "0 \<le> target_channel spec"
  shows "\<exists>q s. train_local_q dsa cfg q_init td = Inr q \<and> np_index (length q) (trigger_state spec) = Inr s \<and>
    length bad = length q \<and> (\<forall>i < length q. i \<noteq> s \<longrightarrow> bad ! i = q ! i) \<and>
    greedy_action bad s = Inr (nat (target_channel spec))"
proof -
  obtain q s c where q: "train_local_q dsa cfg q_init td = Inr q" "np_index (length q) (trigger_state spec) = Inr s"
    "np_index (length (q ! s)) (target_channel spec) = Inr c"
    "bad = q[s := (replicate (length (q ! s)) 0)[c := boost spec]]"
    using assms(1) by (auto simp: train_backdoor_q_def stamp_backdoor_def bindE_eq_Inr)
  have s: "s < length q" and c: "c < length (q ! s)" using q(2,3) np_index_less by blast+
  have "c = nat (target_channel spec)" using q(3) assms(3) by (auto simp: np_index_def split: if_splits)
  moreover have "greedy_action bad s = Inr c"
    using s c argmax_spike [OF c assms(2)] by (auto simp: greedy_action_def at_index_def q(4))
  ultimately show ?thesis using q s by auto
qed

text \<open>
  On the trigger state the deployed policy picks the attacker's channel with a probability that only the
  boost, the temperature and the number of actions decide.
\<close>

theorem backdoor_probability:
  assumes "c < n" and "0 \<le> b"
  shows "softmax_row tau ((replicate n 0)[c := b]) ! c = 1 / (1 + real (n - 1) * exp (- b / max tau (1 / 10 ^ 6)))"
proof -
  let ?t = "max tau (1 / 10 ^ 6)"
  let ?row = "(replicate n 0)[c := b]"
  let ?z = "map (\<lambda>x. x / ?t) ?row"
  have t: "0 < ?t" by simp
  have z: "?z = (replicate n 0)[c := b / ?t]" by (simp add: map_update)
  have "Max (set ?z) = b / ?t"
  proof (rule Max_eqI)
    show "b / ?t \<in> set ?z" unfolding z using assms(1) by (simp add: set_update_memI)
    fix y assume "y \<in> set ?z"
    then have "y = b / ?t \<or> y = 0" unfolding z using assms(1) by (metis in_set_replicate insertE set_update_subset_insert subsetD)
    then show "y \<le> b / ?t" using assms(2) t by auto
  qed simp
  then have "softmax_row tau ?row =
      (let p = map (\<lambda>x. exp (x - b / ?t)) ?z in map (\<lambda>x. x / sum_list p) p)" by (simp add: softmax_row_def Let_def)
  moreover have p: "map (\<lambda>x. exp (x - b / ?t)) ?z = (replicate n (exp (- (b / ?t))))[c := 1]"
    unfolding z by (simp add: map_update)
  moreover have "sum_list ((replicate n e)[c := 1]) = 1 + real (n - 1) * e" for e :: real
  proof -
    have "(replicate n e)[c := 1] = replicate c e @ 1 # replicate (n - Suc c) e"
      using assms(1) by (simp add: upd_conv_take_nth_drop)
    then have "sum_list ((replicate n e)[c := 1]) = real c * e + (1 + real (n - Suc c) * e)"
      by (simp add: sum_list_replicate)
    then show ?thesis using assms(1) by (simp add: of_nat_diff algebra_simps)
  qed
  ultimately show ?thesis using assms(1) by (simp add: Let_def)
qed

text \<open>
  A round with data-poisoning clients keeps the bound under the median and the trimmed mean, whatever the
  boost of the backdoor or the noise of the free riders.
\<close>

definition noise_ok :: "dsa_config \<Rightarrow> (nat \<Rightarrow> qtable) \<Rightarrow> bool" where
  "noise_ok dsa noise \<longleftrightarrow> (\<forall>m. qtable_ok (n_states (n_channels dsa)) (n_actions (n_channels dsa)) (noise m))"

lemma np_index_Inr: "0 \<le> i \<Longrightarrow> i < int n \<Longrightarrow> np_index n i = Inr (nat i)"
  by (simp add: np_index_def)

lemma stamp_ok:
  assumes "qtable_ok ns na q" "0 \<le> trigger_state spec" "trigger_state spec < int ns"
    "0 \<le> target_channel spec" "target_channel spec < int na"
  shows "\<exists>bad. stamp_backdoor q spec = Inr bad \<and> qtable_ok ns na bad"
proof -
  let ?s = "nat (trigger_state spec)"
  have row: "?s < length q" "length (q ! ?s) = na" using table_rowD [OF assms(1), of ?s] assms(2,3) by auto
  have len: "length q = ns" using assms(1) by (simp add: qtable_ok_def)
  have "qtable_ok ns na (q[?s := (replicate na 0)[nat (target_channel spec) := boost spec]])"
    using assms(1) by (auto simp: qtable_ok_def list_all_iff dest: set_update_subset_insert [THEN subsetD])
  then show ?thesis using assms row len by (simp add: stamp_backdoor_def np_index_Inr)
qed

lemma table_shape_ok: "qtable_ok ns na q \<Longrightarrow> 0 < ns \<Longrightarrow> table_shape q = (ns, na)"
  by (cases q) (auto simp: table_shape_def qtable_ok_def)

lemma free_rider_ok:
  assumes "\<forall>q. glob = Some q \<longrightarrow> qtable_ok ns na q" "qtable_ok ns na noise" "0 < ns"
  shows "\<exists>u. free_rider_update glob (ns, na) noise = Inr u \<and> qtable_ok ns na u"
proof -
  have add: "qtable_ok ns na (map2 (map2 (+)) base noise)" if "qtable_ok ns na base" for base
    using that assms(2) by (auto simp: qtable_ok_def list_all_iff elim!: in_set_zipE)
  have "qtable_ok ns na (zeros ns na)" by (simp add: zeros_def qtable_ok_def list_all_iff)
  then show ?thesis
    using add assms table_shape_ok by (cases glob) (auto simp: free_rider_update_def Let_def)
qed

definition data_attack_ok :: "dsa_config \<Rightarrow> string \<Rightarrow> backdoor_spec option \<Rightarrow> bool" where
  "data_attack_ok dsa attack backdoor \<longleftrightarrow>
     attack = ''reward_poison'' \<or> attack = ''free_rider'' \<or>
     attack = ''backdoor'' \<and>
       (case backdoor of None \<Rightarrow> True
        | Some b \<Rightarrow> 0 \<le> trigger_state b \<and> trigger_state b < int (n_states (n_channels dsa)) \<and>
            0 \<le> target_channel b \<and> target_channel b < int (n_actions (n_channels dsa)))"

lemma n_states_pos [simp]: "0 < n_states n" and n_actions_pos [simp]: "0 < n_actions n"
  by (simp_all add: n_states_def n_actions_def push_bit_eq_mult)

lemma mapE_total:
  assumes "\<And>x. x \<in> set xs \<Longrightarrow> \<exists>y. f x = Inr y \<and> P y"
  shows "\<exists>ys. mapE f xs = Inr ys \<and> length ys = length xs \<and> list_all P ys"
  using assms
proof (induction xs)
  case (Cons x xs)
  obtain y where "f x = Inr y" "P y" using Cons.prems [of x] by auto
  moreover obtain ys where "mapE f xs = Inr ys" "length ys = length xs" "list_all P ys" using Cons by auto
  ultimately show ?case by auto
qed simp

lemma data_poison_ok:
  assumes base: "dsa_ok dsa" "learner_ok cfg" "rewards_within ((1 - q_gamma cfg) * B) dsa" "glob_ok B dsa glob"
    and dr: "\<forall>m. train_draws_ok dsa (tds m)" "noise_ok dsa noise"
    and at: "data_attack_ok dsa attack backdoor" and m: "0 < m"
  shows "\<exists>mal. build_data_poison_qs attack m dsa cfg glob backdoor tds noise = Inr mal \<and> length mal = nat m \<and>
           list_all (qtable_ok (n_states (n_channels dsa)) (n_actions (n_channels dsa))) mal"
proof -
  let ?ns = "n_states (n_channels dsa)" and ?na = "n_actions (n_channels dsa)"
  let ?spec = "case backdoor of None \<Rightarrow> default_backdoor (n_channels dsa) 0 | Some b \<Rightarrow> b"
  let ?f = "\<lambda>m. if attack = ''reward_poison'' then train_reward_poisoned_q dsa cfg glob 1 (tds m)
             else if attack = ''backdoor'' then train_backdoor_q dsa cfg ?spec glob (tds m)
             else if attack = ''free_rider'' then free_rider_update glob (?ns, ?na) (noise m)
             else Inl ValueError"
  have one: "\<exists>q. ?f k = Inr q \<and> qtable_ok ?ns ?na q" for k
  proof -
    consider (r) "attack = ''reward_poison''" | (f) "attack = ''free_rider''"
      | (b) "attack = ''backdoor''" "0 \<le> trigger_state ?spec" "trigger_state ?spec < int ?ns"
          "0 \<le> target_channel ?spec" "target_channel ?spec < int ?na"
      using at by (cases backdoor) (auto simp: data_attack_ok_def default_backdoor_def)
    then show ?thesis
    proof cases
      case r
      obtain q where "train_reward_poisoned_q dsa cfg glob 1 (tds k) = Inr q" "qtable_ok ?ns ?na q"
        using poisoned_training_ok [OF base(1-3) _ base(4)] dr(1) by blast
      then show ?thesis using r by simp
    next
      case f
      have "\<exists>u. free_rider_update glob (?ns, ?na) (noise k) = Inr u \<and> qtable_ok ?ns ?na u"
        using base(4) dr(2) by (intro free_rider_ok) (auto simp: glob_ok_def noise_ok_def)
      then show ?thesis using f by simp
    next
      case b
      obtain q where q: "train_local_q dsa cfg glob (tds k) = Inr q" "qtable_ok ?ns ?na q"
        using train_ok [OF base(1-3) _ base(4)] dr(1) by blast
      from stamp_ok [OF q(2) b(2-5)] show ?thesis using b(1) q(1) by (auto simp: train_backdoor_q_def)
    qed
  qed
  have "attack \<noteq> ''none''" using at by (auto simp: data_attack_ok_def)
  then have "build_data_poison_qs attack m dsa cfg glob backdoor tds noise = mapE ?f [0..<nat m]"
    using m by (simp only: build_data_poison_qs_def Let_def) simp
  then show ?thesis using mapE_total [of "[0..<nat m]" ?f "qtable_ok ?ns ?na"] one by auto
qed

theorem data_poison_round_bounded:
  assumes "campaign_ok n m dsa cfg meth B" and "0 < m" and "glob_ok B dsa glob"
    and "\<forall>c. train_draws_ok dsa (tds c) \<and> train_draws_ok dsa (tds' c)" and "noise_ok dsa noise"
    and "data_attack_ok dsa attack backdoor"
  shows "\<exists>r. federated_dsa_round_data_poison attack n m dsa cfg meth glob backdoor tds tds' noise = Inr r \<and>
           glob_ok B dsa (Some (global_q r))"
proof -
  let ?ns = "n_states (n_channels dsa)" and ?na = "n_actions (n_channels dsa)"
  have c: "dsa_ok dsa" "learner_ok cfg" "rewards_within ((1 - q_gamma cfg) * B) dsa" "robust_for meth (nat n) m"
    using assms(1) by (auto simp: campaign_ok_def)
  have dr: "\<forall>c. train_draws_ok dsa (tds c)" "\<forall>c. train_draws_ok dsa (tds' c)" using assms(4) by auto
  obtain hon where hon: "honest_tables dsa cfg glob tds (n - m) = Inr hon" "length hon = nat (n - m)"
    "list_all (qtable_ok ?ns ?na) hon" "\<forall>q \<in> set hon. table_bounded B q"
    using honest_tables_ok [OF c(1-3) dr(1) assms(3)] by blast
  obtain mal where mal: "build_data_poison_qs attack m dsa cfg glob backdoor tds' noise = Inr mal" "length mal = nat m"
    "list_all (qtable_ok ?ns ?na) mal"
    using data_poison_ok [OF c(1-3) assms(3) dr(2) assms(5,6,2)] by blast
  have "length hon + length mal = nat n" using c(4) hon(2) mal(2) assms(2) by (auto simp: robust_for_def split: if_splits)
  then have "robust_for meth (length hon + length mal) m" using c(4) by simp
  from finish_ok [OF hon(3,4) mal(3) eq_imp_le [OF mal(2)] this] obtain r where
    "finish_round (?ns, ?na) n m meth False (\<lambda>_ _ _. 0) (hon @ mal) = Inr r" "qtable_ok ?ns ?na (global_q r)"
    "table_bounded B (global_q r)" by blast
  then show ?thesis
    by (simp add: federated_dsa_round_data_poison_def Let_def hon(1) mal(1) glob_ok_def)
qed

section \<open>Witnesses\<close>

theorem poisoned_training_bounded_witness:
  "\<exists>q. train_reward_poisoned_q tiny_dsa q_config_default None 1 tiny_td = Inr q \<and> table_bounded 10 q"
  using poisoned_training_bounded [OF tiny_ok] by blast

lemma tiny_backdoor:
  "\<exists>bad. train_backdoor_q tiny_dsa q_config_default (default_backdoor 1 0) None tiny_td = Inr bad"
proof -
  obtain q where "train_local_q tiny_dsa q_config_default None tiny_td = Inr q"
    "qtable_ok (n_states (n_channels tiny_dsa)) (n_actions (n_channels tiny_dsa)) q"
    using train_ok [OF tiny_ok] by blast
  then show ?thesis
    using stamp_ok [of "n_states (n_channels tiny_dsa)" "n_actions (n_channels tiny_dsa)" q "default_backdoor 1 0"]
    by (auto simp: train_backdoor_q_def default_backdoor_def)
qed

theorem backdoor_is_sparse_witness:
  "\<exists>bad s. train_backdoor_q tiny_dsa q_config_default (default_backdoor 1 0) None tiny_td = Inr bad \<and>
     greedy_action bad s = Inr 0"
proof -
  obtain bad where "train_backdoor_q tiny_dsa q_config_default (default_backdoor 1 0) None tiny_td = Inr bad"
    using tiny_backdoor by blast
  with backdoor_is_sparse [OF this] show ?thesis by (auto simp: default_backdoor_def)
qed

theorem backdoor_probability_witness:
  "softmax_row (1 / 2) ((replicate 7 0)[0 := 50]) ! 0 = 1 / (1 + 6 * exp (- 100))"
  using backdoor_probability [of 0 7 50 "1 / 2"] by simp

theorem data_poison_round_bounded_witness:
  "\<exists>r. federated_dsa_round_data_poison ''backdoor'' 5 2 tiny_dsa q_config_default ''median'' None None
       (\<lambda>c. tiny_td) (\<lambda>c. tiny_td) (\<lambda>m. zeros 2 2) = Inr r \<and> glob_ok 10 tiny_dsa (Some (global_q r))"
proof (rule data_poison_round_bounded)
  show "campaign_ok 5 2 tiny_dsa q_config_default ''median'' 10"
    using tiny_ok by (simp add: campaign_ok_def robust_for_def)
  show "\<forall>c. train_draws_ok tiny_dsa tiny_td \<and> train_draws_ok tiny_dsa tiny_td" using tiny_ok by simp
  show "noise_ok tiny_dsa (\<lambda>m. zeros 2 2)"
    by (simp add: noise_ok_def zeros_def qtable_ok_def n_states_def n_actions_def tiny_dsa_def eval_nat_numeral)
qed (simp_all add: tiny_ok data_attack_ok_def)

end
