(* ===== verification/PoisonAttacks.thy ===== *)
theory PoisonAttacks
  imports Attacks
begin

text \<open>
  Model-poisoning attacks on a federation (\<open>federated/poison_attacks.py\<close>): sign flip, model replacement,
  Gaussian noise, and the optimised Min-Max and Min-Sum attacks with their search for the largest
  perturbation that stays hidden. The expansion of the search has no bound the code checks for a zero
  or negative start, so it is a function that may not return.
\<close>

section \<open>Direct attacks\<close>

text \<open>Element-wise arithmetic of NumPy: lengths must agree, or one operand holds a single value.\<close>

definition np_map2 :: "(real \<Rightarrow> real \<Rightarrow> real) \<Rightarrow> real list \<Rightarrow> real list \<Rightarrow> real list res" where
  "np_map2 g u v =
     (if length u = length v then Inr (map2 g u v)
      else if length v = 1 then Inr (map (\<lambda>x. g x (hd v)) u)
      else if length u = 1 then Inr (map (g (hd u)) v)
      else Inl ValueError)"

definition sign_flip_attack :: "real list list \<Rightarrow> int \<Rightarrow> real \<Rightarrow> real list list res" where
  "sign_flip_attack benign_updates n_malicious sc =
     bindE (stack benign_updates) (\<lambda>mat.
       let mu = per_column mean mat in Inr (replicate (nat n_malicious) (map (\<lambda>m. - sc * m) mu)))"

definition scaling_attack :: "real list list \<Rightarrow> int \<Rightarrow> real list option \<Rightarrow> real option \<Rightarrow> real list list res" where
  "scaling_attack benign_updates n_malicious target boost =
     bindE (stack benign_updates) (\<lambda>mat.
       let mu = per_column mean mat;
           n_total = int (length mat) + n_malicious;
           goal = (case target of None \<Rightarrow> map uminus mu | Some t \<Rightarrow> t);
           gamma = (case boost of Some b \<Rightarrow> b | None \<Rightarrow> real_of_int n_total / real_of_int (max n_malicious 1))
       in bindE (np_map2 (-) goal mu) (\<lambda>diff.
          bindE (np_map2 (+) (map ((*) gamma) diff) mu) (\<lambda>mal.
            Inr (replicate (nat n_malicious) mal))))"

text \<open>The normal draws are a parameter: the draw of client \<open>i\<close> at a mean and a standard deviation, per coordinate.\<close>

definition gaussian_attack :: "(nat \<Rightarrow> real list \<Rightarrow> real list \<Rightarrow> real list) \<Rightarrow> real list list \<Rightarrow> int \<Rightarrow> real \<Rightarrow> real list list res" where
  "gaussian_attack normal benign_updates n_malicious sigma_mult =
     bindE (stack benign_updates) (\<lambda>mat.
       let mu = per_column mean mat; sg = map (\<lambda>s. s + 1 / 10 ^ 12) (per_column std mat)
       in Inr (map (\<lambda>i. normal i mu (map ((*) sigma_mult) sg)) [0..<nat n_malicious]))"

section \<open>Optimised attacks\<close>

definition perturbation_direction :: "real list list \<Rightarrow> string \<Rightarrow> real list res" where
  "perturbation_direction mat kind =
     (let mu = per_column mean mat
      in if kind = ''unit'' then
           (let norm = norm2 mu in Inr (if norm > 0 then map (\<lambda>m. - m / norm) mu else map (\<lambda>_. - 1) mu))
         else if kind = ''std'' then Inr (map uminus (per_column std mat))
         else Inl ValueError)"

definition crafted :: "real list \<Rightarrow> real list \<Rightarrow> real \<Rightarrow> real list" where
  "crafted mu d gamma = map2 (\<lambda>m x. m + gamma * x) mu d"

partial_function (option) expand :: "(real \<Rightarrow> bool) \<Rightarrow> real \<Rightarrow> real option" where
  "expand feasible hi = (if feasible hi \<and> hi < 10 ^ 9 then expand feasible (hi * 2) else Some hi)"

fun gamma_search :: "(real \<Rightarrow> bool) \<Rightarrow> real \<Rightarrow> nat \<Rightarrow> real \<Rightarrow> real \<Rightarrow> real" where
  "gamma_search feasible tol 0 lo hi = lo"
| "gamma_search feasible tol (Suc k) lo hi =
     (if hi - lo < tol then lo
      else let mid = 1 / 2 * (lo + hi)
           in if feasible mid then gamma_search feasible tol k mid hi else gamma_search feasible tol k lo mid)"

definition max_benign_dist :: "real list list \<Rightarrow> real" where
  "max_benign_dist mat = Max (set (concat (map (\<lambda>b. map (\<lambda>c. sqrt (sqdist b c)) mat) mat)))"

definition max_dist_to_benign :: "real list list \<Rightarrow> real list \<Rightarrow> real" where
  "max_dist_to_benign mat m = Max (set (map (\<lambda>b. sqrt (sqdist b m)) mat))"

definition max_benign_sumsq :: "real list list \<Rightarrow> real" where
  "max_benign_sumsq mat = Max (set (map (\<lambda>b. sum_list (map (sqdist b) mat)) mat))"

definition sumsq_to_benign :: "real list list \<Rightarrow> real list \<Rightarrow> real" where
  "sumsq_to_benign mat m = sum_list (map (\<lambda>b. sqdist b m) mat)"

definition optimised ::
  "(real list list \<Rightarrow> real list \<Rightarrow> bool) \<Rightarrow> real list list \<Rightarrow> int \<Rightarrow> string \<Rightarrow> real \<Rightarrow> real \<Rightarrow> int \<Rightarrow> real list list res option" where
  "optimised hidden benign_updates n_malicious direction gamma_init tol max_iter =
     (case bindE (stack benign_updates) (\<lambda>mat. bindE (perturbation_direction mat direction) (\<lambda>d. Inr (mat, d))) of
        Inl e \<Rightarrow> Some (Inl e)
      | Inr (mat, d) \<Rightarrow>
          let mu = per_column mean mat; feasible = (\<lambda>g. hidden mat (crafted mu d g))
          in case expand feasible gamma_init of
               None \<Rightarrow> None
             | Some hi \<Rightarrow> Some (Inr (replicate (nat n_malicious)
                 (crafted mu d (gamma_search feasible tol (nat max_iter) 0 hi)))))"

definition min_max_attack :: "real list list \<Rightarrow> int \<Rightarrow> string \<Rightarrow> real \<Rightarrow> real \<Rightarrow> int \<Rightarrow> real list list res option" where
  "min_max_attack = optimised (\<lambda>mat m. max_dist_to_benign mat m \<le> max_benign_dist mat)"

definition min_sum_attack :: "real list list \<Rightarrow> int \<Rightarrow> string \<Rightarrow> real \<Rightarrow> real \<Rightarrow> int \<Rightarrow> real list list res option" where
  "min_sum_attack = optimised (\<lambda>mat m. sumsq_to_benign mat m \<le> max_benign_sumsq mat)"

section \<open>Model replacement\<close>

lemma column_append_replicate:
  "column (us @ replicate k v) j = column us j @ replicate k (v ! j)"
  by (simp add: column_def)

lemma mean_shifted: "xs \<noteq> [] \<Longrightarrow> sum_list xs = real (length xs) * mean xs"
  by (simp add: mean_def)

lemma stack_append_replicate:
  "stack us = Inr us \<Longrightarrow> length v = dim us \<Longrightarrow> stack (us @ replicate k v) = Inr (us @ replicate k v) \<and>
   dim (us @ replicate k v) = dim us"
proof -
  assume a: "stack us = Inr us" "length v = dim us"
  then have "us \<noteq> []" "\<forall>u \<in> set us. length u = dim us" by (simp_all add: stack_shape)
  moreover have d: "dim (us @ replicate k v) = dim us" using calculation(1) by (simp add: dim_def)
  ultimately show ?thesis unfolding stack_shape d using a(2) by (auto simp del: set_replicate)
qed

text \<open>
  Model replacement: with the boost the attack computes, the plain mean of the honest updates and the
  malicious ones is exactly the vector the attacker asked for, whatever the honest clients sent and
  however few malicious clients there are. A sign flip scales the honest mean by a factor that is
  negative as soon as the scale outweighs the honest clients.
\<close>

theorem model_replacement:
  assumes "stack us = Inr us" and "0 < n"
  shows "length target = dim us \<Longrightarrow>
      \<exists>mal. scaling_attack us n (Some target) None = Inr mal \<and> fedavg (us @ mal) = Inr target"
    and "\<exists>mal. sign_flip_attack us n sc = Inr mal \<and>
      fedavg (us @ mal) = Inr (map (\<lambda>m. (real (length us) - sc * of_int n) / (real (length us) + of_int n) * m) (per_column mean us))"
proof -
  define k where "k = nat n"
  let ?mu = "per_column mean us" and ?N = "real (length us)"
  have k: "0 < k" "n = int k" using assms(2) by (simp_all add: k_def)
  have ne: "us \<noteq> []" using assms(1) by (auto simp: stack_shape)
  then have N: "0 < ?N" by simp
  have mu: "length ?mu = dim us" "\<And>j. j < dim us \<Longrightarrow> ?mu ! j = mean (column us j)"
    by (simp_all add: per_column_def)
  have avg: "fedavg (us @ replicate k v) = Inr (map (\<lambda>j. (?N * ?mu ! j + real k * v ! j) / (?N + real k)) [0..<dim us])"
    if v: "length v = dim us" for v
  proof -
    note st = stack_append_replicate [OF assms(1) v, of k]
    have "mean (column (us @ replicate k v) j) = (?N * ?mu ! j + real k * v ! j) / (?N + real k)" if j: "j < dim us" for j
    proof -
      have c: "column us j \<noteq> []" using ne by (simp add: column_def)
      have "mean (column (us @ replicate k v) j) = (sum_list (column us j) + real k * v ! j) / (?N + real k)"
        unfolding mean_def column_append_replicate by (simp add: sum_list_replicate)
      also have "sum_list (column us j) = ?N * ?mu ! j" using mean_shifted [OF c] mu(2) [OF j] by simp
      finally show ?thesis .
    qed
    then show ?thesis using st by (simp add: fedavg_def per_column_def)
  qed
  show "\<exists>mal. scaling_attack us n (Some target) None = Inr mal \<and> fedavg (us @ mal) = Inr target"
    if t: "length target = dim us"
  proof -
    define g where "g = real_of_int (int (length us) + n) / real_of_int (max n 1)"
    have gk: "g = (?N + real k) / real k" using k by (simp add: g_def)
    let ?m = "map2 (+) (map ((*) g) (map2 (-) target ?mu)) ?mu"
    have "scaling_attack us n (Some target) None = Inr (replicate k ?m)"
      unfolding scaling_attack_def assms(1) bindE_Inr Let_def option.case g_def [symmetric]
      by (simp add: np_map2_def t mu(1) k_def)
    moreover have "(?N * ?mu ! j + real k * ?m ! j) / (?N + real k) = target ! j" if j: "j < dim us" for j
    proof -
      have "?m ! j = g * (target ! j - ?mu ! j) + ?mu ! j" using j t mu(1) by simp
      then have "real k * ?m ! j = (?N + real k) * (target ! j - ?mu ! j) + real k * ?mu ! j"
        using k(1) by (simp add: gk field_simps)
      then have "?N * ?mu ! j + real k * ?m ! j = (?N + real k) * target ! j" by (simp add: algebra_simps)
      then show ?thesis using N by (simp add: nonzero_divide_eq_eq add_pos_nonneg less_imp_neq [THEN not_sym] mult.commute)
    qed
    then have "map (\<lambda>j. (?N * ?mu ! j + real k * ?m ! j) / (?N + real k)) [0..<dim us] = target"
      using t by (intro nth_equalityI) simp_all
    ultimately show ?thesis using avg [of ?m] t mu(1) by auto
  qed
  let ?s = "map (\<lambda>m. - sc * m) ?mu"
  have "sign_flip_attack us n sc = Inr (replicate k ?s)"
    by (simp add: sign_flip_attack_def assms(1) k_def)
  moreover have "map (\<lambda>j. (?N * ?mu ! j + real k * ?s ! j) / (?N + real k)) [0..<dim us] =
      map (\<lambda>m. (?N - sc * of_int n) / (?N + of_int n) * m) ?mu"
    using mu(1) k(2) by (intro nth_equalityI) (simp_all add: algebra_simps)
  ultimately show "\<exists>mal. sign_flip_attack us n sc = Inr mal \<and>
      fedavg (us @ mal) = Inr (map (\<lambda>m. (?N - sc * of_int n) / (?N + of_int n) * m) ?mu)"
    using avg [of ?s] mu(1) by auto
qed

section \<open>The optimised attacks stay hidden\<close>

lemma square_split:
  "(\<Sum>x\<leftarrow>xs. (x - b)\<^sup>2) = (\<Sum>x\<leftarrow>xs. (x - c)\<^sup>2) + 2 * (c - b) * (sum_list xs - real (length xs) * c) + real (length xs) * (c - b)\<^sup>2"
  for b c :: real
  by (induction xs) (simp_all add: algebra_simps power2_eq_square)

lemma mean_least_squares:
  assumes "xs \<noteq> []"
  shows "(\<Sum>x\<leftarrow>xs. (x - mean xs)\<^sup>2) + real (length xs) * (mean xs - b)\<^sup>2 = (\<Sum>x\<leftarrow>xs. (x - b)\<^sup>2)"
  using square_split [where xs = xs and b = b and c = "mean xs"] mean_shifted [OF assms] by simp

lemma sqdist_nth: "length u = n \<Longrightarrow> length v = n \<Longrightarrow> sqdist u v = (\<Sum>j < n. (u ! j - v ! j)\<^sup>2)"
  by (simp add: sqdist_def sum_list_sum_nth atLeast0LessThan)

lemma sqdist_sums:
  assumes "\<forall>u \<in> set us. length u = n" "length v = n"
  shows "(\<Sum>u\<leftarrow>us. sqdist u v) = (\<Sum>j < n. \<Sum>x\<leftarrow>column us j. (x - v ! j)\<^sup>2)"
proof -
  have "(\<Sum>u\<leftarrow>us. sqdist u v) = (\<Sum>u\<leftarrow>us. \<Sum>j < n. (u ! j - v ! j)\<^sup>2)"
    using assms by (intro arg_cong [where f = sum_list] map_cong refl) (simp add: sqdist_nth)
  also have "\<dots> = (\<Sum>j < n. \<Sum>u\<leftarrow>us. (u ! j - v ! j)\<^sup>2)" by (rule sum_sum_list [symmetric])
  finally show ?thesis by (simp add: column_def o_def)
qed

lemma sqdist_commute: "sqdist u v = sqdist v u"
  unfolding sqdist_def by (induction u arbitrary: v) (auto simp: power2_commute zip_Cons1 split: list.splits)

text \<open>The mean of the benign updates is within both budgets, so the search starts from a hidden point.\<close>

lemma mean_hidden:
  assumes "stack us = Inr us"
  shows "b \<in> set us \<Longrightarrow> (\<Sum>u\<leftarrow>us. sqdist u (per_column mean us)) \<le> (\<Sum>u\<leftarrow>us. sqdist u b)"
    and "b \<in> set us \<Longrightarrow> \<exists>c \<in> set us. sqdist b (per_column mean us) \<le> sqdist b c"
proof -
  let ?mu = "per_column mean us" and ?d = "dim us"
  have ne: "us \<noteq> []" and len: "\<forall>u \<in> set us. length u = ?d" using assms by (auto simp: stack_shape)
  have mu: "length ?mu = ?d" "\<And>j. j < ?d \<Longrightarrow> ?mu ! j = mean (column us j)" by (simp_all add: per_column_def)
  have cne: "column us j \<noteq> []" for j using ne by (simp add: column_def)
  note ls = mean_least_squares [OF cne]
  have total: "(\<Sum>u\<leftarrow>us. sqdist u v) = (\<Sum>u\<leftarrow>us. sqdist u ?mu) + real (length us) * sqdist ?mu v"
    if v: "length v = ?d" for v
  proof -
    have "(\<Sum>u\<leftarrow>us. sqdist u v) =
        (\<Sum>j < ?d. (\<Sum>x\<leftarrow>column us j. (x - ?mu ! j)\<^sup>2) + real (length us) * (?mu ! j - v ! j)\<^sup>2)"
      unfolding sqdist_sums [OF len v] using ls mu(2) by (intro sum.cong refl) simp
    then show ?thesis
      by (simp add: sum.distrib sqdist_sums [OF len mu(1)] sqdist_nth [OF mu(1) v] sum_distrib_left)
  qed
  have nn: "0 \<le> (\<Sum>u\<leftarrow>us. sqdist u ?mu)" by (intro sum_list_nonneg) (auto simp: sqdist_nonneg)
  show "(\<Sum>u\<leftarrow>us. sqdist u ?mu) \<le> (\<Sum>u\<leftarrow>us. sqdist u b)" if "b \<in> set us"
    using total [of b] len that sqdist_nonneg [of ?mu b] by auto
  show "\<exists>c \<in> set us. sqdist b ?mu \<le> sqdist b c" if b: "b \<in> set us"
  proof (rule ccontr)
    assume "\<not> (\<exists>c \<in> set us. sqdist b ?mu \<le> sqdist b c)"
    then have lt: "\<forall>c \<in> set us. sqdist c b < sqdist b ?mu" by (auto simp: sqdist_commute [of b] not_le)
    have "(\<Sum>u\<leftarrow>us. sqdist u b) < (\<Sum>u\<leftarrow>us. sqdist b ?mu)" using ne lt by (intro sum_list_strict_mono) auto
    also have "\<dots> = real (length us) * sqdist ?mu b" by (simp add: sum_list_triv sqdist_commute)
    also have "\<dots> \<le> (\<Sum>u\<leftarrow>us. sqdist u b)" using total [of b] len b nn by auto
    finally show False by simp
  qed
qed

text \<open>The expansion ends for a positive start, and the bisection only ever moves to hidden points.\<close>

lemma expand_ends: "0 < hi \<Longrightarrow> \<exists>h. expand feasible hi = Some h"
proof (induction "nat \<lceil>log 2 (10 ^ 9 / hi)\<rceil>" arbitrary: hi rule: less_induct)
  case less
  note unf = expand.simps [of feasible hi]
  show ?case
  proof (cases "feasible hi \<and> hi < 10 ^ 9")
    case True
    have half: "log 2 (x / 2) = log 2 x - 1" if "0 < x" for x :: real using that by (simp add: log_divide)
    have "log 2 (10 ^ 9 / (hi * 2)) = log 2 (10 ^ 9 / hi) - 1"
      using half [of "10 ^ 9 / hi"] less.prems by simp
    moreover have "0 < log 2 (10 ^ 9 / hi)" using True less.prems by simp
    ultimately have "nat \<lceil>log 2 (10 ^ 9 / (hi * 2))\<rceil> < nat \<lceil>log 2 (10 ^ 9 / hi)\<rceil>" by linarith
    from less.hyps [OF this] less.prems True show ?thesis by (simp add: unf)
  next
    case False
    then show ?thesis by (auto simp: unf)
  qed
qed

lemma expand_stuck: "feasible 0 \<Longrightarrow> expand feasible 0 = None"
proof -
  have "feasible 0 \<longrightarrow> hi = 0 \<longrightarrow> False" if "expand feasible hi = Some h" for hi h
  proof (rule expand.raw_induct [where P = "\<lambda>p x y. p 0 \<longrightarrow> x = 0 \<longrightarrow> False", OF _ that])
    fix ex :: "(real \<Rightarrow> bool) \<Rightarrow> real \<Rightarrow> real option" and p x y
    assume ih: "\<And>p x y. ex p x = Some y \<Longrightarrow> p 0 \<longrightarrow> x = 0 \<longrightarrow> False"
      and eq: "(if p x \<and> x < 10 ^ 9 then ex p (x * 2) else Some x) = Some y"
    show "p 0 \<longrightarrow> x = 0 \<longrightarrow> False"
    proof (intro impI)
      assume "p 0" "x = 0"
      with eq have "ex p 0 = Some y" by simp
      with ih [of p 0 y] \<open>p 0\<close> show False by simp
    qed
  qed
  then show "feasible 0 \<Longrightarrow> expand feasible 0 = None" by (cases "expand feasible 0") auto
qed

lemma gamma_search_feasible: "feasible lo \<Longrightarrow> feasible (gamma_search feasible tol k lo hi)"
  by (induction k arbitrary: lo hi) (simp_all add: Let_def)

lemma crafted_zero: "length d = length mu \<Longrightarrow> crafted mu d 0 = mu"
  by (auto simp: crafted_def intro: nth_equalityI)

lemma direction_length:
  "perturbation_direction mat kind = Inr d \<Longrightarrow> length d = length (per_column mean mat)"
  by (auto simp: perturbation_direction_def Let_def per_column_def split: if_splits)

lemma direction_known: "kind = ''std'' \<or> kind = ''unit'' \<Longrightarrow> \<exists>d. perturbation_direction mat kind = Inr d"
  by (auto simp: perturbation_direction_def Let_def)

lemma optimised_hidden:
  assumes "stack us = Inr us" "kind = ''std'' \<or> kind = ''unit''" "0 < gamma_init" "hidden us (per_column mean us)"
  shows "\<exists>m. optimised hidden us n kind gamma_init tol max_iter = Some (Inr (replicate (nat n) m)) \<and> hidden us m"
proof -
  obtain d where d: "perturbation_direction us kind = Inr d" using direction_known [OF assms(2)] by blast
  let ?mu = "per_column mean us" and ?f = "\<lambda>g. hidden us (crafted (per_column mean us) d g)"
  obtain hi where hi: "expand ?f gamma_init = Some hi" using expand_ends [OF assms(3)] by blast
  have "?f 0" using assms(4) crafted_zero [OF direction_length [OF d]] by simp
  from gamma_search_feasible [of ?f, OF this] show ?thesis
    by (auto simp: optimised_def assms(1) d hi Let_def)
qed

lemma mean_in_budgets:
  assumes "stack us = Inr us"
  shows "max_dist_to_benign us (per_column mean us) \<le> max_benign_dist us"
    and "sumsq_to_benign us (per_column mean us) \<le> max_benign_sumsq us"
proof -
  have ne: "us \<noteq> []" using assms by (auto simp: stack_shape)
  have "sqrt (sqdist b (per_column mean us)) \<le> max_benign_dist us" if b: "b \<in> set us" for b
  proof -
    obtain c where "c \<in> set us" "sqdist b (per_column mean us) \<le> sqdist b c"
      using mean_hidden(2) [OF assms b] by blast
    moreover have "sqrt (sqdist b c) \<le> max_benign_dist us" using b calculation(1)
      unfolding max_benign_dist_def by (intro Max_ge) auto
    ultimately show ?thesis by (meson order_trans real_sqrt_le_mono)
  qed
  then show "max_dist_to_benign us (per_column mean us) \<le> max_benign_dist us"
    using ne by (simp add: max_dist_to_benign_def)
  have "(\<Sum>u\<leftarrow>us. sqdist (hd us) u) \<le> max_benign_sumsq us"
    unfolding max_benign_sumsq_def using ne by (intro Max_ge) auto
  moreover have "(\<Sum>u\<leftarrow>us. sqdist u (hd us)) = (\<Sum>u\<leftarrow>us. sqdist (hd us) u)" by (simp add: sqdist_commute [of "hd us"])
  ultimately show "sumsq_to_benign us (per_column mean us) \<le> max_benign_sumsq us"
    using mean_hidden(1) [OF assms hd_in_set [OF ne]] by (simp add: sumsq_to_benign_def)
qed

text \<open>
  The optimised attacks always return, for a positive start, and stay hidden: every Min-Max update is as
  close to each benign one as the farthest two benign ones are to each other, and a Min-Sum update has
  no larger sum of squared distances than some benign one. With a start of zero the expansion loops
  for ever.
\<close>

theorem optimised_attacks_hidden:
  assumes "stack us = Inr us" and "kind = ''std'' \<or> kind = ''unit''"
  shows "0 < gamma_init \<Longrightarrow>
      \<exists>m. min_max_attack us n kind gamma_init tol max_iter = Some (Inr (replicate (nat n) m)) \<and>
        (\<forall>u \<in> set us. \<exists>b \<in> set us. \<exists>c \<in> set us. sqdist u m \<le> sqdist b c)"
    and "0 < gamma_init \<Longrightarrow>
      \<exists>m. min_sum_attack us n kind gamma_init tol max_iter = Some (Inr (replicate (nat n) m)) \<and>
        (\<exists>b \<in> set us. (\<Sum>u\<leftarrow>us. sqdist u m) \<le> (\<Sum>u\<leftarrow>us. sqdist b u))"
    and "min_max_attack us n kind 0 tol max_iter = None"
proof -
  have ne: "us \<noteq> []" using assms(1) by (auto simp: stack_shape)
  note budgets = mean_in_budgets [OF assms(1)]
  show "\<exists>m. min_max_attack us n kind gamma_init tol max_iter = Some (Inr (replicate (nat n) m)) \<and>
      (\<forall>u \<in> set us. \<exists>b \<in> set us. \<exists>c \<in> set us. sqdist u m \<le> sqdist b c)" if g: "0 < gamma_init"
  proof -
    obtain m where m: "min_max_attack us n kind gamma_init tol max_iter = Some (Inr (replicate (nat n) m))"
      "max_dist_to_benign us m \<le> max_benign_dist us"
      using optimised_hidden [where hidden = "\<lambda>mat m. max_dist_to_benign mat m \<le> max_benign_dist mat", OF assms g budgets(1)]
      unfolding min_max_attack_def by blast
    have "max_benign_dist us \<in> set (concat (map (\<lambda>b. map (\<lambda>c. sqrt (sqdist b c)) us) us))"
      unfolding max_benign_dist_def using ne by (intro Max_in) (auto simp: neq_Nil_conv)
    then obtain b c where bc: "b \<in> set us" "c \<in> set us" "max_benign_dist us = sqrt (sqdist b c)" by auto
    have "sqdist u m \<le> sqdist b c" if u: "u \<in> set us" for u
    proof -
      have "sqrt (sqdist u m) \<le> max_dist_to_benign us m"
        using u unfolding max_dist_to_benign_def by (intro Max_ge) auto
      then show ?thesis using m(2) bc(3) real_sqrt_le_iff order_trans by metis
    qed
    with m(1) bc(1,2) show ?thesis by blast
  qed
  show "\<exists>m. min_sum_attack us n kind gamma_init tol max_iter = Some (Inr (replicate (nat n) m)) \<and>
      (\<exists>b \<in> set us. (\<Sum>u\<leftarrow>us. sqdist u m) \<le> (\<Sum>u\<leftarrow>us. sqdist b u))" if g: "0 < gamma_init"
  proof -
    obtain m where m: "min_sum_attack us n kind gamma_init tol max_iter = Some (Inr (replicate (nat n) m))"
      "sumsq_to_benign us m \<le> max_benign_sumsq us"
      using optimised_hidden [where hidden = "\<lambda>mat m. sumsq_to_benign mat m \<le> max_benign_sumsq mat", OF assms g budgets(2)]
      unfolding min_sum_attack_def by blast
    have "max_benign_sumsq us \<in> set (map (\<lambda>b. sum_list (map (sqdist b) us)) us)"
      unfolding max_benign_sumsq_def using ne by (intro Max_in) auto
    with m show ?thesis unfolding sumsq_to_benign_def by (intro exI [of _ m]) auto
  qed
  obtain d where d: "perturbation_direction us kind = Inr d" using direction_known [OF assms(2)] by blast
  let ?f = "\<lambda>g. max_dist_to_benign us (crafted (per_column mean us) d g) \<le> max_benign_dist us"
  have "expand ?f 0 = None"
    by (rule expand_stuck) (use budgets(1) crafted_zero [OF direction_length [OF d]] in simp)
  then show "min_max_attack us n kind 0 tol max_iter = None"
    by (simp add: min_max_attack_def optimised_def assms(1) d Let_def)
qed

section \<open>Witnesses\<close>

lemma two_updates: "stack [[1, 2], [3, 4]] = Inr [[1, 2], [3, 4 :: real]]" "dim [[1, 2], [3, 4 :: real]] = 2"
  by (simp_all add: stack_def dim_def)

theorem model_replacement_witness:
  "\<exists>mal. scaling_attack [[1, 2], [3, 4]] 1 (Some [100, - 100]) None = Inr mal \<and>
     fedavg ([[1, 2], [3, 4]] @ mal) = Inr [100, - 100]"
  using model_replacement(1) [OF two_updates(1), of 1 "[100, - 100]"] two_updates(2) by simp

theorem optimised_attacks_hidden_witness:
  "\<exists>m. min_max_attack [[1, 2], [3, 4]] 1 ''std'' 10 (1 / 10 ^ 5) 50 = Some (Inr [m]) \<and>
     (\<exists>b \<in> set [[1, 2], [3, 4]]. \<exists>c \<in> set [[1, 2], [3, 4]]. sqdist [1, 2] m \<le> sqdist b c)"
  using optimised_attacks_hidden(1) [OF two_updates(1), of "''std''" 10 1 "1 / 10 ^ 5" 50] by auto

end
