(* ===== verification/Unlearning.thy ===== *)
theory Unlearning
  imports Erasure DataPoison PoisonAttacks
begin

text \<open>
  Client-level unlearning (\<open>federated/unlearning.py\<close>): recorded federated training whose clients are
  honest or poison their uploads, retraining without the flagged clients, the cheap replay of cached
  uploads, the outlier screen, and the signed certificate. The draws of a client are a function of its
  seed; every round seeds the same generators again.
\<close>

section \<open>A recorded training run\<close>

record client_spec =
  cs_id :: string
  cs_seed :: int
  cs_role :: string
  cs_backdoor :: "backdoor_spec option"

record round_uploads =
  ru_ids :: "string list"
  ru_uploads :: "qtable list"

record fed_trace =
  ft_clients :: "client_spec list"
  ft_rounds :: "round_uploads list"
  ft_shape :: "nat \<times> nat"
  ft_method :: string
  ft_dsa :: dsa_config
  ft_q :: q_config
  ft_base_seed :: int

type_synonym seeded = "int \<Rightarrow> train_draws"

definition local_update ::
  "seeded \<Rightarrow> client_spec \<Rightarrow> qtable option \<Rightarrow> dsa_config \<Rightarrow> q_config \<Rightarrow> nat \<times> nat \<Rightarrow> qtable res" where
  "local_update draws spec glob dsa cfg sh =
     (let td = draws (cs_seed spec)
      in if cs_role spec = ''qtable_target'' then craft_poison_q sh 0 50
         else if cs_role spec = ''honest'' then train_local_q dsa cfg glob td
         else if cs_role spec = ''reward_poison'' then train_reward_poisoned_q dsa cfg glob 1 td
         else if cs_role spec = ''backdoor'' then
           (case cs_backdoor spec of None \<Rightarrow> Inl ValueError | Some b \<Rightarrow> train_backdoor_q dsa cfg b glob td)
         else Inl ValueError)"

text \<open>One round from the rounds recorded so far and the shared table.\<close>

definition training_round ::
  "seeded \<Rightarrow> client_spec list \<Rightarrow> string \<Rightarrow> dsa_config \<Rightarrow> q_config \<Rightarrow> nat \<times> nat \<Rightarrow> int \<Rightarrow>
   round_uploads list \<times> qtable option \<Rightarrow> (round_uploads list \<times> qtable option) res" where
  "training_round draws clients meth dsa cfg sh f s =
     (case s of (recorded, glob) \<Rightarrow>
        bindE (mapE (\<lambda>c. local_update draws c glob dsa cfg sh) clients) (\<lambda>uploads.
        bindE (plain_aggregate uploads meth f) (\<lambda>flat.
        bindE (reshape sh flat) (\<lambda>q.
          Inr (recorded @ [\<lparr>ru_ids = map cs_id clients, ru_uploads = uploads\<rparr>], Some q)))))"

fun training_rounds ::
  "nat \<Rightarrow> (round_uploads list \<times> qtable option \<Rightarrow> (round_uploads list \<times> qtable option) res) \<Rightarrow>
   round_uploads list \<times> qtable option \<Rightarrow> (round_uploads list \<times> qtable option) res" where
  "training_rounds 0 step s = Inr s"
| "training_rounds (Suc n) step s = bindE (step s) (training_rounds n step)"

definition run_federated_training ::
  "seeded \<Rightarrow> client_spec list \<Rightarrow> int \<Rightarrow> string \<Rightarrow> dsa_config \<Rightarrow> q_config \<Rightarrow> int option \<Rightarrow> int \<Rightarrow> (qtable \<times> fed_trace) res" where
  "run_federated_training draws clients rounds meth dsa cfg n_malicious base_seed =
     (let sh = (n_states (n_channels dsa), n_actions (n_channels dsa));
          f = (case n_malicious of Some m \<Rightarrow> m
               | None \<Rightarrow> int (length (filter (\<lambda>c. cs_role c \<noteq> ''honest'') clients)))
      in bindE (training_rounds (nat rounds) (training_round draws clients meth dsa cfg sh f) ([], None))
           (\<lambda>(recorded, glob).
           case glob of
             None \<Rightarrow> Inl (OtherExn ''AssertionError'')
           | Some q \<Rightarrow> Inr (q, \<lparr>ft_clients = clients, ft_rounds = recorded, ft_shape = sh, ft_method = meth,
                               ft_dsa = dsa, ft_q = cfg, ft_base_seed = base_seed\<rparr>)))"

section \<open>The outlier screen\<close>

text \<open>\<open>np.argsort\<close> with its default algorithm leaves the order of ties open: it is a parameter.\<close>

definition detect_outliers :: "(real list \<Rightarrow> nat list) \<Rightarrow> qtable list \<Rightarrow> int \<Rightarrow> nat list res" where
  "detect_outliers argsort uploads n_flagged =
     bindE (stack (map ravel uploads)) (\<lambda>mat.
       let med = per_column median mat;
           dists = map (\<lambda>u. norm2 (map2 (-) u med)) mat;
           order = rev (argsort dists)
       in Inr (take (nat (max 0 n_flagged)) order))"

section \<open>The two mechanisms\<close>

definition kept :: "string list \<Rightarrow> 'a list \<Rightarrow> string list \<Rightarrow> 'a list" where
  "kept ids items removed = map snd (filter (\<lambda>(cid, u). cid \<notin> set removed) (zip ids items))"

text \<open>\<open>method or trace.method\<close>: the empty string counts as absent.\<close>

definition method_or :: "string option \<Rightarrow> string \<Rightarrow> string" where
  "method_or m own = (case m of None \<Rightarrow> own | Some s \<Rightarrow> if s = [] then own else s)"

definition retrain_from_scratch :: "seeded \<Rightarrow> fed_trace \<Rightarrow> string list \<Rightarrow> string option \<Rightarrow> qtable res" where
  "retrain_from_scratch draws trace removed meth =
     (let left = filter (\<lambda>c. cs_id c \<notin> set removed) (ft_clients trace)
      in if left = [] then Inl ValueError
         else bindE (run_federated_training draws left (int (length (ft_rounds trace))) (method_or meth (ft_method trace))
                       (ft_dsa trace) (ft_q trace) (Some 0) (ft_base_seed trace)) (\<lambda>(q, t). Inr q))"

definition efficient_unlearn :: "fed_trace \<Rightarrow> string list \<Rightarrow> string option \<Rightarrow> qtable res" where
  "efficient_unlearn trace removed meth =
     (if ft_rounds trace = [] then Inl IndexError
      else
        let lst = last (ft_rounds trace);
            kept_uploads = kept (ru_ids lst) (ru_uploads lst) removed
        in if kept_uploads = [] then Inl ValueError
           else bindE (plain_aggregate kept_uploads (method_or meth (ft_method trace)) 0) (reshape (ft_shape trace)))"

section \<open>The certificate\<close>

record unlearning_certificate =
  uc_removed :: "string list"
  uc_method :: string
  uc_mechanism :: string
  uc_before :: string
  uc_after :: string
  uc_distance :: real
  uc_bd_before :: "real option"
  uc_bd_after :: "real option"
  uc_bd_retrain :: "real option"
  uc_created_at :: string
  uc_manifest :: pyval
  uc_provenance :: "model_provenance option"

definition unlearning_verify ::
  "sha \<Rightarrow> (pyval \<Rightarrow> string res) \<Rightarrow> ('k, 'p) rsa \<Rightarrow> (qtable \<Rightarrow> nat list) \<Rightarrow> unlearning_certificate \<Rightarrow> qtable \<Rightarrow>
   nat list option \<Rightarrow> bool res" where
  "unlearning_verify sha dumps rsa tob cert q trusted =
     (if sha (tob q) \<noteq> uc_after cert then Inr False
      else case uc_provenance cert of
             None \<Rightarrow> Inr False
           | Some p \<Rightarrow> bindE (manifest_digest sha dumps (uc_manifest cert)) (\<lambda>d.
               if d \<noteq> manifest_sha256 p then Inr False else verify_model sha rsa (tob q) p trusted))"

text \<open>The probe deploys the table with the defaults of \<open>backdoor_success_rate\<close>; the same seed serves all three.\<close>

type_synonym probe_draws = "nat \<Rightarrow> nat \<Rightarrow> real list \<Rightarrow> nat"

definition probe :: "backdoor_spec option \<Rightarrow> dsa_config \<Rightarrow> probe_draws \<Rightarrow> qtable \<Rightarrow> real option res" where
  "probe backdoor dsa choice q =
     (case backdoor of None \<Rightarrow> Inr None
      | Some b \<Rightarrow> bindE (backdoor_success_rate q b (n_users dsa) (1 / 2) 64 choice) (\<lambda>r. Inr (Some r)))"

definition opt_real :: "real option \<Rightarrow> pyval" where
  "opt_real r = (case r of None \<Rightarrow> VNone | Some x \<Rightarrow> VFloat (Fin x))"

definition certify_unlearning ::
  "sha \<Rightarrow> (pyval \<Rightarrow> string res) \<Rightarrow> ('k, 'p) rsa \<Rightarrow> (qtable \<Rightarrow> nat list) \<Rightarrow> nat \<Rightarrow> 'k \<Rightarrow> string \<Rightarrow> qtable \<Rightarrow> qtable \<Rightarrow> qtable \<Rightarrow>
   string list \<Rightarrow> string \<Rightarrow> string \<Rightarrow> backdoor_spec option \<Rightarrow> dsa_config \<Rightarrow> probe_draws \<Rightarrow> string \<Rightarrow> string \<Rightarrow> 'k hsm \<Rightarrow>
   (unlearning_certificate \<times> 'k hsm) res" where
  "certify_unlearning sha dumps rsa tob nonce fresh now poisoned unlearned retrained removed meth mechanism backdoor dsa
       choice trainer label keys =
     (let before = sha (tob poisoned); after = sha (tob unlearned)
      in bindE (np_map2 (-) (ravel unlearned) (ravel retrained)) (\<lambda>diff.
         bindE (probe backdoor dsa choice poisoned) (\<lambda>bd_before.
         bindE (probe backdoor dsa choice unlearned) (\<lambda>bd_after.
         bindE (probe backdoor dsa choice retrained) (\<lambda>bd_retrain.
           let distance = norm2 diff;
               manifest = VDict
                 [(''event'', VStr ''federated_unlearning''), (''removed_client_ids'', VList (map VStr (sort removed))),
                  (''aggregation_method'', VStr meth), (''unlearn_mechanism'', VStr mechanism),
                  (''model_sha256_before'', VStr before), (''model_sha256_after'', VStr after),
                  (''certified_l2_distance_to_retrain'', VFloat (Fin distance)),
                  (''backdoor_success_before'', opt_real bd_before), (''backdoor_success_after'', opt_real bd_after),
                  (''backdoor_success_retrain'', opt_real bd_retrain), (''created_at'', VStr now)]
           in bindE (sign_model sha dumps rsa nonce fresh now (tob unlearned) trainer manifest label keys) (\<lambda>(keys', prov).
                Inr (\<lparr>uc_removed = sort removed, uc_method = meth, uc_mechanism = mechanism, uc_before = before,
                      uc_after = after, uc_distance = distance, uc_bd_before = bd_before, uc_bd_after = bd_after,
                      uc_bd_retrain = bd_retrain, uc_created_at = now, uc_manifest = manifest,
                      uc_provenance = Some prov\<rparr>, keys')))))))"

section \<open>Exactness\<close>

lemma bindE_Inr_right: "bindE x Inr = x"
  by (cases x) auto

lemma mapE_filter: "mapE f xs = Inr ys \<Longrightarrow> mapE f (filter P xs) = Inr (map snd (filter (\<lambda>(x, y). P x) (zip xs ys)))"
  by (induction xs arbitrary: ys) (auto simp: bindE_eq_Inr)

lemma kept_uploads:
  assumes "mapE upd clients = Inr ys"
  shows "mapE upd (filter (\<lambda>c. cs_id c \<notin> set removed) clients) = Inr (kept (map cs_id clients) ys removed)"
proof -
  have "kept (map cs_id clients) ys removed = map snd (filter (\<lambda>(c, y). cs_id c \<notin> set removed) (zip clients ys))"
    by (simp add: kept_def zip_map1 filter_map o_def case_prod_unfold)
  then show ?thesis using mapE_filter [OF assms, of "\<lambda>c. cs_id c \<notin> set removed"] by simp
qed

text \<open>
  After a single round the cheap mechanism is the gold standard, whatever the roles, the aggregators
  of the training and of the unlearning, and the removed clients, exceptions included.
\<close>

lemma single_round_exact:
  assumes "run_federated_training draws clients 1 meth dsa cfg nm seed = Inr (q, trace)"
  shows "efficient_unlearn trace removed m = retrain_from_scratch draws trace removed m"
proof -
  let ?sh = "(n_states (n_channels dsa), n_actions (n_channels dsa))"
  let ?upd = "\<lambda>c. local_update draws c None dsa cfg ?sh"
  obtain ups where ups: "mapE ?upd clients = Inr ups"
    and tr: "ft_clients trace = clients" "ft_rounds trace = [\<lparr>ru_ids = map cs_id clients, ru_uploads = ups\<rparr>]"
      "ft_shape trace = ?sh" "ft_method trace = meth" "ft_dsa trace = dsa" "ft_q trace = cfg"
    using assms
    by (auto simp: run_federated_training_def training_round_def Let_def bindE_eq_Inr split: option.splits)
  let ?left = "filter (\<lambda>c. cs_id c \<notin> set removed) clients"
  note k = kept_uploads [OF ups, of removed]
  then have len: "length (kept (map cs_id clients) ups removed) = length ?left"
    by (auto simp: mapE_Inr_iff dest: list_all2_lengthD)
  then have "kept (map cs_id clients) ups removed = [] \<longleftrightarrow> ?left = []" by (metis length_0_conv)
  then show ?thesis
    by (simp add: efficient_unlearn_def retrain_from_scratch_def tr Let_def run_federated_training_def
        training_round_def k bindE_assoc bindE_Inr_right)
qed

lemma plain_aggregate_stack:
  assumes "plain_aggregate ups meth f = Inr flat"
  shows "map ravel ups \<noteq> [] \<and> (\<forall>u \<in> set ups. length (ravel u) = length flat)"
proof -
  have st: "stack (map ravel ups) = Inr (map ravel ups)"
    using assms by (auto simp: plain_aggregate_def Let_def fedavg_def coordinate_median_def trimmed_mean_def krum_def
        bindE_eq_Inr stack_shape split: if_splits)
  then have dims: "\<forall>u \<in> set ups. length (ravel u) = dim (map ravel ups)" "map ravel ups \<noteq> []"
    by (auto simp: stack_shape)
  have "length flat = dim (map ravel ups)"
  proof (cases "meth = ''krum''")
    case True
    then obtain r where r: "krum (map ravel ups) (max 0 f) = Inr r" "flat = krum_aggregate r"
      using assms by (auto simp: plain_aggregate_def Let_def bindE_eq_Inr)
    have ne: "map (krum_score us c) [0..<length us] \<noteq> []" if "us \<noteq> []" for us c using that by simp
    from r(1) have "selected_index r < length ups \<and> krum_aggregate r = ravel (ups ! selected_index r)"
      using argmin_least [OF ne [OF dims(2)]]
      by (auto simp: krum_def bindE_eq_Inr stack_shape Let_def split: if_splits)
    then show ?thesis using dims(1) r(2) by auto
  next
    case False
    then show ?thesis using assms st
      by (auto simp: plain_aggregate_def Let_def fedavg_def coordinate_median_def trimmed_mean_def per_column_def
          bindE_eq_Inr split: if_splits)
  qed
  with dims show ?thesis by simp
qed

lemma simple_aggregate_total:
  assumes "ups \<noteq> []" "\<forall>u \<in> set ups. length (ravel u) = n" "meth = ''fedavg'' \<or> meth = ''median''"
  shows "\<exists>v. plain_aggregate ups meth f = Inr v \<and> length v = n"
proof -
  have "dim (map ravel ups) = n" using assms(1,2) by (cases ups) (auto simp: dim_def)
  moreover have "stack (map ravel ups) = Inr (map ravel ups)" using assms(1,2) calculation by (auto simp: stack_shape)
  ultimately show ?thesis using assms(3)
    by (auto simp: plain_aggregate_def fedavg_def coordinate_median_def per_column_def)
qed

lemma single_round_total:
  assumes run: "run_federated_training draws clients 1 meth dsa cfg nm seed = Inr (q, trace)"
    and left: "\<exists>c \<in> set clients. cs_id c \<notin> set removed"
    and meth: "method_or m meth = ''fedavg'' \<or> method_or m meth = ''median''"
  shows "\<exists>u. efficient_unlearn trace removed m = Inr u"
proof -
  let ?sh = "(n_states (n_channels dsa), n_actions (n_channels dsa))"
  obtain ups flat f where ups: "mapE (\<lambda>c. local_update draws c None dsa cfg ?sh) clients = Inr ups"
    and agg: "plain_aggregate ups meth f = Inr flat" "reshape ?sh flat = Inr q"
    and tr: "ft_rounds trace = [\<lparr>ru_ids = map cs_id clients, ru_uploads = ups\<rparr>]" "ft_shape trace = ?sh"
      "ft_method trace = meth"
    using run by (auto simp: run_federated_training_def training_round_def Let_def bindE_eq_Inr split: option.splits)
  let ?k = "kept (map cs_id clients) ups removed"
  have "length ?k = length (filter (\<lambda>c. cs_id c \<notin> set removed) clients)"
    using kept_uploads [OF ups, of removed] by (auto simp: mapE_Inr_iff dest: list_all2_lengthD)
  then have ne: "?k \<noteq> []" using left by (metis filter_empty_conv length_0_conv)
  have "set ?k \<subseteq> set ups" by (auto simp: kept_def dest: set_zip_rightD)
  then have "\<forall>u \<in> set ?k. length (ravel u) = length flat" using plain_aggregate_stack [OF agg(1)] by blast
  from simple_aggregate_total [OF ne this meth] obtain v where
    v: "plain_aggregate ?k (method_or m meth) 0 = Inr v" "length v = length flat" by blast
  then have "\<exists>u. reshape ?sh v = Inr u" using agg(2) by (auto simp: reshape_def split: if_splits)
  then show ?thesis using ne v(1) by (simp add: efficient_unlearn_def tr Let_def)
qed

lemma certify_same:
  assumes "rsa_ok rsa" and "\<forall>v. \<exists>s. dumps v = Inr s"
  shows "\<exists>cert keys'. certify_unlearning sha dumps rsa tob nonce fresh now p u u removed meth mech None dsa choice trainer
             label keys = Inr (cert, keys') \<and> uc_distance cert = 0 \<and> uc_after cert = sha (tob u) \<and>
           unlearning_verify sha dumps rsa tob cert u None = Inr True"
proof -
  have vm: "np_map2 (-) (ravel u) (ravel u) = Inr (map2 (-) (ravel u) (ravel u))" by (simp add: np_map2_def)
  have d: "norm2 (map2 (-) (ravel u) (ravel u)) = 0" using distance_self [of u] by (simp add: table_distance_def)
  let ?man = "VDict
    [(''event'', VStr ''federated_unlearning''), (''removed_client_ids'', VList (map VStr (sort removed))),
     (''aggregation_method'', VStr meth), (''unlearn_mechanism'', VStr mech),
     (''model_sha256_before'', VStr (sha (tob p))), (''model_sha256_after'', VStr (sha (tob u))),
     (''certified_l2_distance_to_retrain'', VFloat (Fin 0)), (''backdoor_success_before'', VNone),
     (''backdoor_success_after'', VNone), (''backdoor_success_retrain'', VNone), (''created_at'', VStr now)]"
  obtain k r where r: "sign_model sha dumps rsa nonce fresh now (tob u) trainer ?man label keys = Inr (k, r)"
    using sign_total [OF assms(2), of sha rsa nonce fresh now "tob u" trainer ?man label keys] by blast
  note v = signed_verifies [OF assms(1) r]
  show ?thesis
    by (simp add: certify_unlearning_def Let_def probe_def vm d opt_real_def r unlearning_verify_def v)
qed

text \<open>
  Certified unlearning after one round: whatever the clients' roles, removing any of them by the cheap
  mechanism gives the very table a federation without them would have trained, and nothing else the
  mechanism could do (an exception, another aggregator) differs either; the certificate states the
  distance zero, and verifies for the table.
\<close>

theorem one_round_unlearning_exact:
  assumes "rsa_ok rsa" and "\<forall>v. \<exists>s. dumps v = Inr s"
    and "run_federated_training draws clients 1 meth dsa cfg nm seed = Inr (q, trace)"
    and "\<exists>c \<in> set clients. cs_id c \<notin> set removed" and "meth = ''fedavg'' \<or> meth = ''median''"
  shows "(\<forall>removed' m. efficient_unlearn trace removed' m = retrain_from_scratch draws trace removed' m) \<and>
    (\<exists>u cert keys'. efficient_unlearn trace removed None = Inr u \<and> retrain_from_scratch draws trace removed None = Inr u \<and>
       certify_unlearning sha dumps rsa tob nonce fresh now q u u removed meth ''efficient_unlearn'' None dsa choice trainer
         label keys = Inr (cert, keys') \<and> uc_distance cert = 0 \<and>
       unlearning_verify sha dumps rsa tob cert u None = Inr True)"
proof -
  note eq = single_round_exact [OF assms(3)]
  obtain u where u: "efficient_unlearn trace removed None = Inr u"
    using single_round_total [OF assms(3,4), of None] assms(5) by (auto simp: method_or_def)
  moreover have "retrain_from_scratch draws trace removed None = Inr u" using eq [of removed None] u by simp
  moreover note certify_same [OF assms(1,2), of sha tob nonce fresh now q u removed meth "''efficient_unlearn''" dsa choice
      trainer label keys]
  ultimately show ?thesis using eq by blast
qed

section \<open>What the screen can see\<close>

definition argsort_ok :: "(real list \<Rightarrow> nat list) \<Rightarrow> bool" where
  "argsort_ok argsort \<longleftrightarrow>
     (\<forall>xs. mset (argsort xs) = mset [0..<length xs] \<and> sorted (map (\<lambda>i. xs ! i) (argsort xs)))"

lemma argsort_top:
  assumes "argsort_ok argsort" and M: "M \<subseteq> {..<length xs}" "card M = m"
    and far: "\<And>i k. i \<in> M \<Longrightarrow> k < length xs \<Longrightarrow> k \<notin> M \<Longrightarrow> xs ! k < (xs ! i :: real)"
  shows "set (take m (rev (argsort xs))) = M"
proof -
  let ?o = "argsort xs"
  have ms: "mset ?o = mset [0..<length xs]" using assms(1) by (simp add: argsort_ok_def)
  have "set ?o = set [0..<length xs]" by (rule mset_eq_setD [OF ms])
  moreover have "distinct ?o" using mset_eq_imp_distinct_iff [OF ms] distinct_upt by blast
  moreover have "length ?o = length [0..<length xs]" by (rule mset_eq_length [OF ms])
  ultimately have perm: "set ?o = {..<length xs}" "distinct ?o" "length ?o = length xs"
    by (simp_all only: set_upt length_upt atLeast0LessThan diff_zero)
  have srt: "sorted (map (\<lambda>i. xs ! i) ?o)" using assms(1) by (simp add: argsort_ok_def)
  let ?n = "length xs"
  have mn: "m \<le> ?n" using M card_mono [of "{..<length xs}" M] by simp
  have top: "set (take m (rev ?o)) = set (drop (?n - m) ?o)"
    by (simp add: take_rev perm(3))
  have cardtop: "card (set (drop (?n - m) ?o)) = m"
    using perm mn by (simp add: distinct_card)
  have "M \<subseteq> set (drop (?n - m) ?o)"
  proof
    fix i assume i: "i \<in> M"
    then obtain p where p: "p < ?n" "?o ! p = i" proof -
      have "i \<in> set ?o" using perm(1) M(1) i by blast
      then show ?thesis using that perm(3) by (auto simp only: in_set_conv_nth)
    qed
    show "i \<in> set (drop (?n - m) ?o)"
    proof (rule ccontr)
      assume out: "i \<notin> set (drop (?n - m) ?o)"
      have lt: "p < ?n - m"
      proof (rule ccontr)
        assume "\<not> p < ?n - m"
        then have "drop (?n - m) ?o ! (p - (?n - m)) = i" "p - (?n - m) < length (drop (?n - m) ?o)"
          using p perm(3) by auto
        then show False using out nth_mem by metis
      qed
      have "set (drop (?n - m) ?o) \<subseteq> M"
      proof
        fix k assume k: "k \<in> set (drop (?n - m) ?o)"
        then obtain r where r: "r < m" "?o ! (?n - m + r) = k" proof -
          from k obtain r where "r < length (drop (?n - m) ?o)" "drop (?n - m) ?o ! r = k" unfolding in_set_conv_nth by blast
          then show ?thesis using that [of r] perm(3) mn by simp
        qed
        have "xs ! i \<le> xs ! k"
          using sorted_nth_mono [OF srt, of p "?n - m + r"] p r lt perm(3) mn by simp
        moreover have "k < ?n" using k perm(1) by (auto dest: in_set_dropD)
        ultimately show "k \<in> M" using far [OF i, of k] by (cases "k \<in> M") auto
      qed
      then have "set (drop (?n - m) ?o) = M"
        using cardtop M by (metis card_subset_eq finite_subset finite_lessThan)
      with i out show False by simp
    qed
  qed
  then have "M = set (drop (?n - m) ?o)" using cardtop M(2) by (intro card_subset_eq) simp_all
  with top show ?thesis by simp
qed

lemma norm_small:
  assumes "\<forall>j < length v. \<bar>v ! j\<bar> \<le> w" "0 \<le> w"
  shows "norm2 v \<le> w * sqrt (real (length v))"
proof (rule power2_le_imp_le)
  have "(\<Sum>j < length v. (v ! j)\<^sup>2) \<le> (\<Sum>j < length v. w\<^sup>2)"
    using assms by (intro sum_mono) (metis abs_le_square_iff abs_of_nonneg lessThan_iff)
  then show "(norm2 v)\<^sup>2 \<le> (w * sqrt (real (length v)))\<^sup>2" by (simp add: norm2_sq power_mult_distrib mult.commute)
qed (use assms(2) in simp)

lemma norm_large:
  assumes "j < length v"
  shows "\<bar>v ! j\<bar> \<le> norm2 v"
proof (rule abs_le_square_iff [THEN iffD2, THEN order_trans])
  have "(v ! j)\<^sup>2 \<le> (\<Sum>j < length v. (v ! j)\<^sup>2)" using assms by (intro member_le_sum) auto
  then show "(v ! j)\<^sup>2 \<le> (norm2 v)\<^sup>2" by (simp add: norm2_sq)
qed simp

text \<open>
  The screen sees large norms: when the honest uploads are a majority and lie in a box of width \<open>w\<close>, and
  every poisoned one leaves the box in some coordinate by more than the box's diagonal, flagging as many
  uploads as are poisoned flags exactly those, whatever the order \<open>argsort\<close> gives to ties.
\<close>

theorem screen_flags_far_uploads:
  assumes "argsort_ok argsort" and "list_all (qtable_ok ns na) uploads" and "0 \<le> w"
    and maj: "2 * byzantine H (map ravel uploads) < length uploads"
    and box: "\<And>j. j < ns * na \<Longrightarrow> honest_within H (map ravel uploads) j (lo j) (lo j + w)"
    and far: "\<And>i. i < length uploads \<Longrightarrow> i \<notin> H \<Longrightarrow> \<exists>j < ns * na.
           ravel (uploads ! i) ! j < lo j - w * sqrt (real (ns * na)) \<or>
           lo j + w + w * sqrt (real (ns * na)) < ravel (uploads ! i) ! j"
  shows "\<exists>flags. detect_outliers argsort uploads (int (byzantine H (map ravel uploads))) = Inr flags \<and>
           set flags = {i. i < length uploads \<and> i \<notin> H}"
proof -
  let ?us = "map ravel uploads" and ?d = "ns * na"
  define med where "med = per_column median ?us"
  define dists where "dists = map (\<lambda>u. norm2 (map2 (-) u med)) ?us"
  have ne: "uploads \<noteq> []" using maj by auto
  note st = stack_tables [OF assms(2) ne]
  have len: "length med = ?d" by (simp add: med_def per_column_def st(2))
  have ulen: "length (ravel (uploads ! i)) = ?d" if "i < length uploads" for i
    using assms(2) that ravel_length by (auto simp: list_all_iff)
  have "coordinate_median ?us = Inr med" by (simp add: coordinate_median_def st(1) med_def)
  from median_bounded [OF this _ _ box] maj len
  have mb: "lo j \<le> med ! j \<and> med ! j \<le> lo j + w" if "j < ?d" for j using that by simp
  have dist: "dists ! i = norm2 (map2 (-) (ravel (uploads ! i)) med)" if "i < length uploads" for i
    using that by (simp add: dists_def)
  have near: "dists ! k \<le> w * sqrt (real ?d)" if k: "k < length uploads" "k \<in> H" for k
  proof -
    have "\<bar>map2 (-) (ravel (uploads ! k)) med ! j\<bar> \<le> w" if j: "j < ?d" for j
    proof -
      have "lo j \<le> ravel (uploads ! k) ! j \<and> ravel (uploads ! k) ! j \<le> lo j + w"
        using box [OF j] k by (auto simp: honest_within_def)
      then show ?thesis using mb [OF j] j ulen [OF k(1)] len by (auto simp: abs_le_iff)
    qed
    then show ?thesis
      using norm_small [of "map2 (-) (ravel (uploads ! k)) med" w] ulen [OF k(1)] len assms(3) dist [OF k(1)] by simp
  qed
  have away: "w * sqrt (real ?d) < dists ! i" if i: "i < length uploads" "i \<notin> H" for i
  proof -
    obtain j where j: "j < ?d" "ravel (uploads ! i) ! j < lo j - w * sqrt (real ?d) \<or>
        lo j + w + w * sqrt (real ?d) < ravel (uploads ! i) ! j" using far [OF i] by blast
    then have "w * sqrt (real ?d) < \<bar>map2 (-) (ravel (uploads ! i)) med ! j\<bar>"
      using mb [OF j(1)] ulen [OF i(1)] len by auto
    also have "\<dots> \<le> dists ! i"
      using norm_large [of j "map2 (-) (ravel (uploads ! i)) med"] ulen [OF i(1)] len j(1) dist [OF i(1)] by simp
    finally show ?thesis .
  qed
  let ?M = "{..<length uploads} - H"
  have "set (take (card ?M) (rev (argsort dists))) = ?M"
  proof (rule argsort_top [OF assms(1)])
    show "dists ! k < dists ! i" if "i \<in> ?M" "k < length dists" "k \<notin> ?M" for i k
      using near [of k] away [of i] that by (auto simp: dists_def)
  qed (auto simp: dists_def)
  moreover have "detect_outliers argsort uploads (int (byzantine H ?us)) = Inr (take (card ?M) (rev (argsort dists)))"
    by (simp add: detect_outliers_def st(1) Let_def byzantine_def dists_def med_def)
  ultimately show ?thesis by (auto simp: lessThan_def)
qed

section \<open>Witnesses\<close>

definition demo_clients :: "client_spec list" where
  "demo_clients = [\<lparr>cs_id = ''a'', cs_seed = 1, cs_role = ''honest'', cs_backdoor = None\<rparr>,
     \<lparr>cs_id = ''m'', cs_seed = 2, cs_role = ''qtable_target'', cs_backdoor = None\<rparr>]"

lemma demo_training: "\<exists>q trace. run_federated_training (\<lambda>_. tiny_td) demo_clients 1 ''fedavg'' tiny_dsa q_config_default
    None 0 = Inr (q, trace)"
proof -
  let ?ns = "n_states (n_channels tiny_dsa)" and ?na = "n_actions (n_channels tiny_dsa)"
  obtain q where q: "train_local_q tiny_dsa q_config_default None tiny_td = Inr q" "qtable_ok ?ns ?na q"
    using train_ok [OF tiny_ok] by blast
  obtain p where p: "craft_poison_q (?ns, ?na) 0 50 = Inr p" "qtable_ok ?ns ?na p"
    using craft_poison_ok [of ?na ?ns 50] by (auto simp: n_actions_def)
  have "\<forall>u \<in> set [q, p]. length (ravel u) = ?ns * ?na" using q(2) p(2) ravel_length by auto
  then obtain v where v: "plain_aggregate [q, p] ''fedavg'' 1 = Inr v" "length v = ?ns * ?na"
    using simple_aggregate_total [of "[q, p]"] by blast
  then show ?thesis using reshape_ok [OF v(2)]
    by (simp add: run_federated_training_def Let_def training_round_def demo_clients_def local_update_def q p)
qed

theorem one_round_unlearning_exact_witness:
  "\<exists>q trace u. run_federated_training (\<lambda>_. tiny_td) demo_clients 1 ''fedavg'' tiny_dsa q_config_default None 0 = Inr (q, trace) \<and>
     efficient_unlearn trace [''m''] None = Inr u \<and> retrain_from_scratch (\<lambda>_. tiny_td) trace [''m''] None = Inr u"
proof -
  obtain q trace where run: "run_federated_training (\<lambda>_. tiny_td) demo_clients 1 ''fedavg'' tiny_dsa q_config_default None 0 =
    Inr (q, trace)" using demo_training by blast
  have left: "\<exists>c \<in> set demo_clients. cs_id c \<notin> set [''m'']" by (simp add: demo_clients_def)
  show ?thesis
    using one_round_unlearning_exact [OF toy_rsa_ok [of "[]"] blank_dumps run left disjI1 [OF refl], of toy_sha concat_bytes 0 1
        "[]" "\<lambda>_ _ _. 0" "''t''" "''k''" "[]"] run by blast
qed

definition insertion_argsort :: "real list \<Rightarrow> nat list" where
  "insertion_argsort xs = sort_key (\<lambda>i. xs ! i) [0..<length xs]"

lemma insertion_argsort_ok: "argsort_ok insertion_argsort"
  by (simp add: argsort_ok_def insertion_argsort_def)

theorem screen_flags_far_uploads_witness:
  "\<exists>flags. detect_outliers insertion_argsort [[[1]], [[1]], [[9]]] 1 = Inr flags \<and> set flags = {2}"
proof -
  have b: "byzantine {0, 1} (map ravel [[[1]], [[1]], [[9]]]) = 1"
    by (simp add: byzantine_def card_Diff_subset)
  have t: "list_all (qtable_ok 1 1) [[[1]], [[1]], [[9 :: real]]]" by (simp add: qtable_ok_def)
  have i: "{i. i < length [[[1]], [[1]], [[9 :: real]]] \<and> i \<notin> {0, 1 :: nat}} = {2}" by auto
  have "\<exists>flags. detect_outliers insertion_argsort [[[1]], [[1]], [[9]]]
      (int (byzantine {0, 1} (map ravel [[[1]], [[1]], [[9]]]))) = Inr flags \<and>
      set flags = {i. i < length [[[1]], [[1]], [[9 :: real]]] \<and> i \<notin> {0, 1 :: nat}}"
  proof (rule screen_flags_far_uploads [OF insertion_argsort_ok t, of 0 _ "\<lambda>_. 1"])
    fix i :: nat assume "i < length [[[1]], [[1]], [[9 :: real]]]" "i \<notin> {0, 1}"
    then have "i = 2" by auto
    then show "\<exists>j < 1 * 1. ravel ([[[1]], [[1]], [[9]]] ! i) ! j < 1 - 0 * sqrt (real (1 * 1)) \<or>
        1 + 0 + 0 * sqrt (real (1 * 1)) < ravel ([[[1]], [[1]], [[9]]] ! i) ! j" by (simp add: ravel_def)
  next
    show "honest_within {0, 1} (map ravel [[[1]], [[1]], [[9]]]) j 1 (1 + 0)" if "j < 1 * 1" for j
      using that by (auto simp: honest_within_def ravel_def)
  qed (use b in auto)
  then show ?thesis unfolding b i by simp
qed

end
