(* ===== verification/KpmBridge.thy ===== *)
theory KpmBridge
  imports PipelineProps
begin

text \<open>
  The bridge from E2SM-KPM measurement reports to telemetry events (\<open>e2/kpm_bridge.py\<close>): the risk
  mapping, JSON records of the FlexRIC monitor, decoded RIC indications, and the run of the bridged
  events through the decision pipeline. The ASN.1 decoder, the calendar and \<open>uuid4\<close> are parameters.
\<close>

section \<open>The risk mapping\<close>

definition KpmBridgeError :: py_exn where "KpmBridgeError = OtherExn ''KpmBridgeError''"

type_synonym measurements = "(string \<times> pyfloat) list"

definition clamp01 :: "pyfloat \<Rightarrow> pyfloat" where
  "clamp01 v = fmin (fmax v (Fin 0)) (Fin 1)"

text \<open>Division by one of the module's constants, none of them zero.\<close>

definition per :: "platform \<Rightarrow> pyfloat \<Rightarrow> real \<Rightarrow> pyfloat" where
  "per pl v c = (case fdiv pl v (Fin c) of Inl _ \<Rightarrow> NaN | Inr x \<Rightarrow> x)"

definition contribution :: "string \<Rightarrow> (pyfloat \<Rightarrow> pyfloat) \<Rightarrow> measurements \<Rightarrow> measurements" where
  "contribution name f ms = (case map_of ms name of None \<Rightarrow> [] | Some v \<Rightarrow> [(name, clamp01 (f v))])"

definition risk_contributions :: "platform \<Rightarrow> measurements \<Rightarrow> measurements" where
  "risk_contributions pl ms =
     contribution ''RRU.PrbTotDl'' (\<lambda>v. per pl v 100) ms @
     contribution ''DRB.RlcSduDelayDl'' (\<lambda>v. per pl v 50) ms @
     contribution ''DRB.UEThpDl'' (\<lambda>v. fsub pl (Fin 1) (per pl v 10000)) ms @
     contribution ''DRB.PdcpSduVolumeDL'' (\<lambda>v. per pl v 100000) ms @
     contribution ''DRB.RlcSduTransmittedVolumeDL'' (\<lambda>v. per pl v 100000) ms"

text \<open>\<open>max\<close> with a key keeps the first entry unless a later one is greater.\<close>

fun max_by_value :: "string \<times> pyfloat \<Rightarrow> measurements \<Rightarrow> string \<times> pyfloat" where
  "max_by_value best [] = best"
| "max_by_value best (kv # kvs) = max_by_value (if snd best < snd kv then kv else best) kvs"

definition derive_sla_risk :: "platform \<Rightarrow> measurements \<Rightarrow> pyfloat \<times> string option \<times> measurements" where
  "derive_sla_risk pl ms =
     (case risk_contributions pl ms of
        [] \<Rightarrow> (rnd pl (5 / 100), None, [])
      | c # cs \<Rightarrow> let best = max_by_value c cs in (snd best, Some (fst best), c # cs))"

section \<open>Decoded indications\<close>

text \<open>What the calendar offers: \<open>now\<close>, \<open>fromtimestamp\<close>, \<open>fromisoformat\<close> with whether the result is aware, UTC.\<close>

record 't calendar =
  cal_now :: 't
  cal_from_timestamp :: "pyfloat \<Rightarrow> 't res"
  cal_parse :: "string \<Rightarrow> ('t \<times> bool) option"
  cal_set_utc :: "'t \<Rightarrow> 't"
  cal_iso :: "'t \<Rightarrow> string"

definition from_be :: "nat list \<Rightarrow> nat" where
  "from_be bs = foldl (\<lambda>n b. 256 * n + b) 0 bs"

fun first_plausible :: "platform \<Rightarrow> 't calendar \<Rightarrow> nat list \<Rightarrow> 't option" where
  "first_plausible pl cal [] = None"
| "first_plausible pl cal (us # cands) =
     (if 1000000000000000 \<le> us \<and> us < 10000000000000000000 then
        (case bindE (int_to_float pl (int us)) (\<lambda>x. bindE (fdiv pl x (Fin 1000000)) (cal_from_timestamp cal)) of
           Inr t \<Rightarrow> Some t
         | Inl e \<Rightarrow> None)
      else first_plausible pl cal cands)"

definition decode_timestamp :: "platform \<Rightarrow> 't calendar \<Rightarrow> nat list \<Rightarrow> 't option" where
  "decode_timestamp pl cal stamp_bytes =
     (if length stamp_bytes \<noteq> 8 then None
      else first_plausible pl cal
             [from_be stamp_bytes, or (push_bit 32 (from_be (drop 4 stamp_bytes))) (from_be (take 4 stamp_bytes))])"

datatype record_item = MInteger int | MReal pyfloat | NoValue

datatype meas_type = MeasName string | MeasID int

record format_body =
  meas_info :: "meas_type list option"
  meas_data :: "record_item list option list option"
  granul_period :: "int option"

fun meas_value :: "platform \<Rightarrow> record_item \<Rightarrow> pyfloat option res" where
  "meas_value pl (MInteger n) = bindE (int_to_float pl n) (\<lambda>x. Inr (Some x))"
| "meas_value pl (MReal x) = Inr (Some x)"
| "meas_value pl NoValue = Inr None"

fun meas_name :: "meas_type \<Rightarrow> string" where
  "meas_name (MeasName s) = s"
| "meas_name (MeasID n) = ''measID.'' @ int_str n"

fun record_row :: "platform \<Rightarrow> string list \<Rightarrow> nat \<Rightarrow> record_item list \<Rightarrow> measurements \<Rightarrow> measurements res" where
  "record_row pl names idx [] ms = Inr ms"
| "record_row pl names idx (item # rest) ms =
     bindE (meas_value pl item) (\<lambda>v.
       case v of
         None \<Rightarrow> record_row pl names (idx + 1) rest ms
       | Some x \<Rightarrow>
           let name = (if idx < length names then names ! idx else ''column.'' @ nat_str idx)
           in record_row pl names (idx + 1) rest (dict_set name x ms))"

definition or_empty :: "'a list option \<Rightarrow> 'a list" where
  "or_empty x = (case x of None \<Rightarrow> [] | Some xs \<Rightarrow> xs)"

definition format1_measurements :: "platform \<Rightarrow> format_body \<Rightarrow> (measurements \<times> int option) res" where
  "format1_measurements pl fmt1 =
     (let names = map meas_name (or_empty (meas_info fmt1)); rows = or_empty (meas_data fmt1)
      in bindE (if rows = [] then Inr [] else record_row pl names 0 (or_empty (last rows)) []) (\<lambda>ms.
           Inr (ms, granul_period fmt1)))"

text \<open>Values of asn1tools in a UE id, and their JSON form.\<close>

datatype asn_value =
    ABytes "nat list"
  | AChoice string asn_value
  | ABits "nat list" int
  | ADict "(string \<times> asn_value) list"
  | AList "asn_value list"
  | APlain pyval

fun jsonable_asn :: "asn_value \<Rightarrow> pyval" where
  "jsonable_asn (ABytes bs) = VStr (to_hex bs)"
| "jsonable_asn (AChoice k v) = VDict [(k, jsonable_asn v)]"
| "jsonable_asn (ABits bs n) = VDict [(''bits'', VStr (to_hex bs)), (''n_bits'', VInt n)]"
| "jsonable_asn (ADict kvs) = VDict (map (\<lambda>(k, v). (k, jsonable_asn v)) kvs)"
| "jsonable_asn (AList vs) = VList (map jsonable_asn vs)"
| "jsonable_asn (APlain v) = v"

definition ue_id_summary :: "string \<Rightarrow> (string \<times> asn_value) list \<Rightarrow> (string \<times> pyval) list" where
  "ue_id_summary kind body = foldl (\<lambda>d (k, v). dict_set k (jsonable_asn v) d) [(''type'', VStr kind)] body"

datatype indication =
    Format1 format_body
  | Format2 format_body
  | Format3 "(string \<times> (string \<times> asn_value) list \<times> format_body) list option"
  | OtherFormat

record ind_header =
  hdr_format1 :: bool
  hdr_start_time :: "nat list"
  hdr_sender :: "string option"

record decoder =
  dec_message :: "nat list \<Rightarrow> indication res"
  dec_header :: "nat list \<Rightarrow> ind_header res"

section \<open>Events\<close>

record bridge =
  br_source_id :: string
  br_e2sm_version :: string
  br_sequence :: int

record 't kpm_event =
  ke_event_id :: string
  ke_source_id :: string
  ke_ts_utc :: 't
  ke_sequence :: int
  ke_payload :: "(string \<times> pyval) list"
  ke_tags :: "(string \<times> string) list"

text \<open>What the pipeline reads of an event.\<close>

definition telemetry :: "'t kpm_event \<Rightarrow> telemetry_event" where
  "telemetry e = \<lparr>te_event_id = ke_event_id e, te_source_id = ke_source_id e, te_payload = map_of (ke_payload e)\<rparr>"

definition float_items :: "measurements \<Rightarrow> pyval" where
  "float_items ms = VDict (map (\<lambda>(k, v). (k, VFloat v)) ms)"

definition opt_field :: "string \<Rightarrow> ('a \<Rightarrow> pyval) \<Rightarrow> 'a option \<Rightarrow> (string \<times> pyval) list" where
  "opt_field k f v = (case v of None \<Rightarrow> [] | Some x \<Rightarrow> [(k, f x)])"

definition build_event ::
  "platform \<Rightarrow> 't calendar \<Rightarrow> string \<Rightarrow> measurements \<Rightarrow> 't option \<Rightarrow> string \<Rightarrow> int option \<Rightarrow> (string \<times> pyval) list option \<Rightarrow>
   string option \<Rightarrow> pyval option \<Rightarrow> bridge \<Rightarrow> bridge \<times> 't kpm_event" where
  "build_event pl cal eid ms ts ingest gran ue collect sender b =
     (let (risk, metric, cs) = derive_sla_risk pl ms;
          payload =
            [(''measurements'', float_items ms), (''sla_risk_30s'', VFloat risk),
             (''risk'', VDict [(''mapping'', VStr ''kpm_risk_v1''),
                (''metric'', case metric of None \<Rightarrow> VNone | Some m \<Rightarrow> VStr m), (''contributions'', float_items cs)])] @
            opt_field ''granularity_period_ms'' VInt gran @ opt_field ''ue_id'' VDict ue @
            opt_field ''collect_start_time_utc'' VStr collect @ opt_field ''sender_name'' id sender;
          seq = br_sequence b + 1
      in (b\<lparr>br_sequence := seq\<rparr>,
          \<lparr>ke_event_id = eid, ke_source_id = br_source_id b,
           ke_ts_utc = (case ts of None \<Rightarrow> cal_now cal | Some t \<Rightarrow> t), ke_sequence = seq, ke_payload = payload,
           ke_tags = [(''e2sm'', ''kpm-'' @ br_e2sm_version b), (''ingest'', ingest)]\<rparr>))"

section \<open>Records of the FlexRIC monitor\<close>

text \<open>\<open>record.get(k)\<close> and the key's presence.\<close>

definition rget :: "(string \<times> pyval) list \<Rightarrow> string \<Rightarrow> pyval" where
  "rget r k = (case map_of r k of None \<Rightarrow> VNone | Some v \<Rightarrow> v)"

definition to_measurement :: "platform \<Rightarrow> string \<times> pyval \<Rightarrow> (string \<times> pyfloat) res" where
  "to_measurement pl kv =
     (case py_float pl (snd kv) of
        Inr x \<Rightarrow> Inr (fst kv, x)
      | Inl e \<Rightarrow> Inl (if e = TypeError \<or> e = ValueError then KpmBridgeError else e))"

definition record_timestamp :: "platform \<Rightarrow> 't calendar \<Rightarrow> pyval \<Rightarrow> 't option res" where
  "record_timestamp pl cal raw =
     (case raw of
        VStr s \<Rightarrow> (case cal_parse cal s of
                      None \<Rightarrow> Inl KpmBridgeError
                    | Some (t, aware) \<Rightarrow> Inr (Some (if aware then t else cal_set_utc cal t)))
      | VInt n \<Rightarrow> bindE (py_float pl raw) (\<lambda>x. bindE (cal_from_timestamp cal x) (\<lambda>t. Inr (Some t)))
      | VBool p \<Rightarrow> bindE (py_float pl raw) (\<lambda>x. bindE (cal_from_timestamp cal x) (\<lambda>t. Inr (Some t)))
      | VFloat x \<Rightarrow> bindE (cal_from_timestamp cal x) (\<lambda>t. Inr (Some t))
      | _ \<Rightarrow> Inr None)"

definition from_flexric_kpm_json ::
  "platform \<Rightarrow> 't calendar \<Rightarrow> string \<Rightarrow> pyval \<Rightarrow> bridge \<Rightarrow> bridge \<times> ('t kpm_event) res" where
  "from_flexric_kpm_json pl cal eid rec b =
     (case rec of
        VDict r \<Rightarrow>
          (let raw = (case rget r ''measurements'' of VNone \<Rightarrow> VDict (filter (\<lambda>(k, v). CHR ''.'' \<in> set k) r) | v \<Rightarrow> v)
           in case raw of
                VDict kvs \<Rightarrow>
                  if kvs = [] then (b, Inl KpmBridgeError)
                  else
                    (case bindE (mapE (to_measurement pl) kvs) (\<lambda>ms.
                            let raw_ts = (if truthy (rget r ''ts_utc'') then rget r ''ts_utc'' else rget r ''timestamp'')
                            in bindE (record_timestamp pl cal raw_ts) (\<lambda>ts.
                               let gran = (if map_of r ''granularity_period_ms'' \<noteq> None then rget r ''granularity_period_ms''
                                           else rget r ''granulPeriod'')
                               in bindE (if gran = VNone then Inr None else bindE (py_int pl gran) (\<lambda>n. Inr (Some n)))
                                    (\<lambda>g. Inr (ms, ts, g)))) of
                       Inl e \<Rightarrow> (b, Inl e)
                     | Inr (ms, ts, g) \<Rightarrow>
                         (let (b', ev) = build_event pl cal eid ms ts ''flexric_json'' g
                                (case rget r ''ue_id'' of VDict d \<Rightarrow> Some d | _ \<Rightarrow> None) None
                                (if rget r ''sender_name'' = VNone then None else Some (rget r ''sender_name'')) b
                          in (b', Inr ev)))
              | _ \<Rightarrow> (b, Inl KpmBridgeError))
      | _ \<Rightarrow> (b, Inl KpmBridgeError))"

section \<open>RIC indications\<close>

definition header_of :: "platform \<Rightarrow> 't calendar \<Rightarrow> decoder \<Rightarrow> nat list option \<Rightarrow> ('t option \<times> string option) res" where
  "header_of pl cal dec header_bytes =
     (case header_bytes of
        None \<Rightarrow> Inr (None, None)
      | Some bs \<Rightarrow>
          (case dec_header dec bs of
             Inl e \<Rightarrow> Inl KpmBridgeError
           | Inr h \<Rightarrow> Inr (if hdr_format1 h then (decode_timestamp pl cal (hdr_start_time h), hdr_sender h) else (None, None))))"

fun ue_reports ::
  "platform \<Rightarrow> 't calendar \<Rightarrow> (nat \<Rightarrow> string) \<Rightarrow> 't option \<Rightarrow> string option \<Rightarrow>
   (string \<times> (string \<times> asn_value) list \<times> format_body) list \<Rightarrow> 't kpm_event list \<Rightarrow> bridge \<Rightarrow> bridge \<times> ('t kpm_event list) res" where
  "ue_reports pl cal ids ts sender [] acc b = (b, Inr acc)"
| "ue_reports pl cal ids ts sender ((kind, body, fmt) # reports) acc b =
     (case format1_measurements pl fmt of
        Inl e \<Rightarrow> (b, Inl e)
      | Inr (ms, gran) \<Rightarrow>
          (let (b', ev) = build_event pl cal (ids (length acc)) ms ts ''asn1_aper'' gran (Some (ue_id_summary kind body))
                            (map_option (cal_iso cal) ts) (map_option VStr sender) b
           in ue_reports pl cal ids ts sender reports (acc @ [ev]) b'))"

definition from_e2sm_kpm_indication ::
  "platform \<Rightarrow> 't calendar \<Rightarrow> decoder \<Rightarrow> (nat \<Rightarrow> string) \<Rightarrow> nat list \<Rightarrow> nat list option \<Rightarrow> bridge \<Rightarrow>
   bridge \<times> ('t kpm_event list) res" where
  "from_e2sm_kpm_indication pl cal dec ids bytes header_bytes b =
     (case dec_message dec bytes of
        Inl e \<Rightarrow> (b, Inl KpmBridgeError)
      | Inr message \<Rightarrow>
          (case header_of pl cal dec header_bytes of
             Inl e \<Rightarrow> (b, Inl e)
           | Inr (ts, sender) \<Rightarrow>
               let one = (\<lambda>fmt. case format1_measurements pl fmt of
                            Inl e \<Rightarrow> (b, Inl e)
                          | Inr (ms, gran) \<Rightarrow>
                              let (b', ev) = build_event pl cal (ids 0) ms ts ''asn1_aper'' gran None
                                               (map_option (cal_iso cal) ts) (map_option VStr sender) b
                              in (b', Inr [ev]))
               in case message of
                    Format1 fmt \<Rightarrow> one fmt
                  | Format2 fmt \<Rightarrow> one fmt
                  | Format3 reports \<Rightarrow> ue_reports pl cal ids ts sender (or_empty reports) [] b
                  | OtherFormat \<Rightarrow> (b, Inl KpmBridgeError)))"

text \<open>The runner: an exception of the pipeline leaves, and with it the results so far.\<close>

fun e2_to_pipeline :: "('w \<Rightarrow> telemetry_event \<Rightarrow> 'w \<times> ('e + 'r)) \<Rightarrow> telemetry_event list \<Rightarrow> 'r list \<Rightarrow> 'w \<Rightarrow> 'w \<times> ('e + 'r list)" where
  "e2_to_pipeline process [] results w = (w, Inr results)"
| "e2_to_pipeline process (ev # evs) results w =
     (case process w ev of
        (w', Inl e) \<Rightarrow> (w', Inl e)
      | (w', Inr r) \<Rightarrow> e2_to_pipeline process evs (results @ [r]) w')"

section \<open>The risk that reaches the planner\<close>

lemma clamp01_NaN [simp]: "clamp01 NaN = NaN"
  by (simp add: clamp01_def fmax_def fmin_def)

lemma clamp01_unit: "v \<noteq> NaN \<Longrightarrow> \<exists>r. clamp01 v = Fin r \<and> 0 \<le> r \<and> r \<le> 1"
  by (cases v) (auto simp: clamp01_def fmax_def fmin_def)

lemma clamp01_mono: "v \<le> w \<Longrightarrow> clamp01 v \<le> clamp01 w"
  by (cases v; cases w) (auto simp: clamp01_def fmax_def fmin_def)

lemma per_NaN [simp]: "0 < c \<Longrightarrow> per pl NaN c = NaN"
  by (simp add: per_def inf_of_sign_def)

lemma per_ok:
  assumes "exact pl" "0 < c"
  shows "v \<noteq> NaN \<Longrightarrow> per pl v c \<noteq> NaN" and "v \<le> w \<Longrightarrow> per pl v c \<le> per pl w c"
  using assms by (cases v; cases w; auto simp: per_def inf_of_sign_def divide_right_mono)+

lemma fsub_one_ok:
  assumes "exact pl"
  shows "v \<noteq> NaN \<Longrightarrow> fsub pl (Fin 1) v \<noteq> NaN" and "v \<le> w \<Longrightarrow> fsub pl (Fin 1) w \<le> fsub pl (Fin 1) v"
  using assms by (cases v; cases w; auto simp: fsub_def)+

lemma contribution_iff:
  "(k, x) \<in> set (contribution name f ms) \<longleftrightarrow> k = name \<and> (\<exists>v. map_of ms name = Some v \<and> x = clamp01 (f v))"
  by (cases "map_of ms name") (auto simp: contribution_def)

definition no_nan :: "measurements \<Rightarrow> bool" where
  "no_nan ms \<longleftrightarrow> (\<forall>(k, v) \<in> set ms. v \<noteq> NaN)"

lemma contributions_unit:
  assumes "exact pl" "no_nan ms" "(k, x) \<in> set (risk_contributions pl ms)"
  shows "\<exists>r. x = Fin r \<and> 0 \<le> r \<and> r \<le> 1"
proof -
  have nn: "v \<noteq> NaN" if "map_of ms n = Some v" for n v
    using assms(2) map_of_SomeD [OF that] by (auto simp: no_nan_def)
  have loads: "\<exists>r. clamp01 (per pl v c) = Fin r \<and> 0 \<le> r \<and> r \<le> 1" if "map_of ms n = Some v" "0 < c" for n v c
    by (rule clamp01_unit [OF per_ok(1) [OF assms(1) that(2) nn [OF that(1)]]])
  have rate: "\<exists>r. clamp01 (fsub pl (Fin 1) (per pl v c)) = Fin r \<and> 0 \<le> r \<and> r \<le> 1" if "map_of ms n = Some v" "0 < c" for n v c
    by (rule clamp01_unit [OF fsub_one_ok(1) [OF assms(1) per_ok(1) [OF assms(1) that(2) nn [OF that(1)]]]])
  show ?thesis
    using assms(3) loads rate unfolding risk_contributions_def set_append Un_iff contribution_iff by (elim disjE) auto
qed

lemma max_by_value_in: "max_by_value best kvs \<in> set (best # kvs)"
  by (induction kvs arbitrary: best) (auto split: if_splits; metis)+

lemma max_by_value_greatest:
  "\<forall>kv \<in> set (best # kvs). \<exists>r. snd kv = Fin r \<Longrightarrow> kv \<in> set (best # kvs) \<Longrightarrow> snd kv \<le> snd (max_by_value best kvs)"
proof (induction kvs arbitrary: best kv)
  case (Cons c cs)
  let ?b = "if snd best < snd c then c else best"
  have fin: "\<forall>kv \<in> set (?b # cs). \<exists>r. snd kv = Fin r" using Cons.prems(1) by auto
  have top: "snd ?b \<le> snd (max_by_value ?b cs)" using Cons.IH [OF fin, of ?b] by simp
  obtain p q where pq: "snd best = Fin p" "snd c = Fin q" using Cons.prems(1) by force
  then have "snd best \<le> snd ?b" "snd c \<le> snd ?b" by auto
  then have "snd kv \<le> snd (max_by_value ?b cs)" if "kv = best \<or> kv = c"
    using that top pq by (cases "snd (max_by_value ?b cs)") (auto split: if_splits)
  moreover have "snd kv \<le> snd (max_by_value ?b cs)" if "kv \<in> set cs" using Cons.IH [OF fin, of kv] that by simp
  ultimately show ?case using Cons.prems(2) by auto
qed auto

lemma event_risk:
  "derive_sla_risk pl ms = (risk, metric, cs) \<Longrightarrow>
   dget (te_payload (telemetry (snd (build_event pl cal eid ms ts ingest gran ue collect sender b)))) ''sla_risk_30s'' d =
     VFloat risk"
  by (simp add: build_event_def telemetry_def dget_def Let_def)

lemma risk_shape:
  assumes "exact pl" "no_nan ms" "derive_sla_risk pl ms = (risk, metric, cs)"
  shows "\<exists>r. risk = Fin r \<and> 0 \<le> r \<and> r \<le> 1 \<and>
    (if cs = [] then r = 5 / 100 \<and> metric = None
     else (\<exists>m. metric = Some m \<and> (m, risk) \<in> set cs) \<and> (\<forall>(k, x) \<in> set cs. x \<le> risk))"
    and "cs = risk_contributions pl ms"
proof -
  show cs: "cs = risk_contributions pl ms"
    using assms(3) by (auto simp: derive_sla_risk_def Let_def split: list.splits)
  show "\<exists>r. risk = Fin r \<and> 0 \<le> r \<and> r \<le> 1 \<and>
    (if cs = [] then r = 5 / 100 \<and> metric = None
     else (\<exists>m. metric = Some m \<and> (m, risk) \<in> set cs) \<and> (\<forall>(k, x) \<in> set cs. x \<le> risk))"
  proof (cases "risk_contributions pl ms")
    case Nil
    then show ?thesis using assms(1,3) cs by (auto simp: derive_sla_risk_def)
  next
    case (Cons c rest)
    let ?best = "max_by_value c rest"
    have d: "risk = snd ?best" "metric = Some (fst ?best)"
      using assms(3) Cons by (simp_all add: derive_sla_risk_def Let_def)
    have fin: "\<forall>kv \<in> set (c # rest). \<exists>r. snd kv = Fin r \<and> 0 \<le> r \<and> r \<le> 1"
      using contributions_unit [OF assms(1,2)] Cons by (metis prod.collapse)
    have "snd kv \<le> risk" if "kv \<in> set (c # rest)" for kv
      unfolding d(1) by (rule max_by_value_greatest [OF _ that]) (use fin in blast)
    moreover have "?best \<in> set (c # rest)" by (rule max_by_value_in)
    moreover obtain r where "risk = Fin r" "0 \<le> r" "r \<le> 1" using fin calculation(2) d(1) by metis
    ultimately show ?thesis using Cons cs d by (auto simp del: set_simps) (metis prod.collapse)+
  qed
qed

text \<open>
  The risk the planner acts on is the worst of the measured signals: for measurements without NaN it lies
  in the unit interval, it is one of the contributions and no contribution exceeds it, the floor stands
  when no mapped metric was measured, and the pipeline reads exactly this number from the event.
\<close>

theorem planner_sees_worst_signal:
  assumes "exact pl" "no_nan ms" "derive_sla_risk pl ms = (risk, metric, cs)"
  shows "\<exists>r. risk = Fin r \<and> 0 \<le> r \<and> r \<le> 1 \<and>
    (if cs = [] then r = 5 / 100 \<and> metric = None
     else (\<exists>m. metric = Some m \<and> (m, risk) \<in> set cs) \<and> (\<forall>(k, x) \<in> set cs. x \<le> risk)) \<and>
    risk_of pl (telemetry (snd (build_event pl cal eid ms ts ingest gran ue collect sender b))) = Inr (Fin r)"
proof -
  obtain r where r: "risk = Fin r" "0 \<le> r" "r \<le> 1" "if cs = [] then r = 5 / 100 \<and> metric = None
     else (\<exists>m. metric = Some m \<and> (m, risk) \<in> set cs) \<and> (\<forall>(k, x) \<in> set cs. x \<le> risk)"
    using risk_shape(1) [OF assms] by blast
  have "risk_of pl (telemetry (snd (build_event pl cal eid ms ts ingest gran ue collect sender b))) = Inr (Fin r)"
    unfolding risk_of_def Let_def event_risk [OF assms(3)] using r(1-3) by simp
  with r show ?thesis by blast
qed

text \<open>
  Worse signals never look better: when every mapped load, delay and volume is at least as high and every
  throughput at most as high, and something mapped was measured before, the risk does not fall.
\<close>

definition load_metrics :: "string list" where
  "load_metrics = [''RRU.PrbTotDl'', ''DRB.RlcSduDelayDl'', ''DRB.PdcpSduVolumeDL'', ''DRB.RlcSduTransmittedVolumeDL'']"

definition worse :: "measurements \<Rightarrow> measurements \<Rightarrow> bool" where
  "worse ms ms' \<longleftrightarrow>
     (\<forall>k \<in> set load_metrics. \<forall>v. map_of ms k = Some v \<longrightarrow> (\<exists>v'. map_of ms' k = Some v' \<and> v \<le> v')) \<and>
     (\<forall>v. map_of ms ''DRB.UEThpDl'' = Some v \<longrightarrow> (\<exists>v'. map_of ms' ''DRB.UEThpDl'' = Some v' \<and> v' \<le> v))"

lemma load_metric_in:
  "''RRU.PrbTotDl'' \<in> set load_metrics" "''DRB.RlcSduDelayDl'' \<in> set load_metrics"
  "''DRB.PdcpSduVolumeDL'' \<in> set load_metrics" "''DRB.RlcSduTransmittedVolumeDL'' \<in> set load_metrics"
  by (simp_all add: load_metrics_def)

lemma contribution_mono:
  assumes "(k, x) \<in> set (contribution n f ms)"
    and "\<And>v. map_of ms n = Some v \<Longrightarrow> \<exists>v'. map_of ms' n = Some v' \<and> f v \<le> f v'"
  shows "\<exists>x'. (k, x') \<in> set (contribution n f ms') \<and> x \<le> x'"
  using assms clamp01_mono unfolding contribution_iff by blast

lemma worse_contributions:
  assumes "exact pl" "worse ms ms'" "(k, x) \<in> set (risk_contributions pl ms)"
  shows "\<exists>x'. (k, x') \<in> set (risk_contributions pl ms') \<and> x \<le> x'"
proof -
  have load: "\<exists>v'. map_of ms' n = Some v' \<and> per pl v c \<le> per pl v' c"
    if "n \<in> set load_metrics" "0 < c" "map_of ms n = Some v" for n c v
    using that assms(2) per_ok(2) [OF assms(1) that(2)] unfolding worse_def by blast
  have rate: "\<exists>v'. map_of ms' ''DRB.UEThpDl'' = Some v' \<and>
      fsub pl (Fin 1) (per pl v 10000) \<le> fsub pl (Fin 1) (per pl v' 10000)"
    if "map_of ms ''DRB.UEThpDl'' = Some v" for v
    using that assms(2) fsub_one_ok(2) [OF assms(1)] per_ok(2) [OF assms(1), of 10000]
    unfolding worse_def by (meson zero_less_numeral)
  from assms(3) show ?thesis
    unfolding risk_contributions_def set_append
  proof (elim UnE, goal_cases)
    case 1
    from contribution_mono [OF 1 load [OF load_metric_in(1)]] show ?case by (auto simp only: Un_iff zero_less_numeral)
  next
    case 2
    from contribution_mono [OF 2 load [OF load_metric_in(2)]] show ?case by (auto simp only: Un_iff zero_less_numeral)
  next
    case 3
    from contribution_mono [OF 3 rate] show ?case by (auto simp only: Un_iff)
  next
    case 4
    from contribution_mono [OF 4 load [OF load_metric_in(3)]] show ?case by (auto simp only: Un_iff zero_less_numeral)
  next
    case 5
    from contribution_mono [OF 5 load [OF load_metric_in(4)]] show ?case by (auto simp only: Un_iff zero_less_numeral)
  qed
qed

theorem worse_signals_raise_risk:
  assumes "exact pl" "no_nan ms" "no_nan ms'" "worse ms ms'" "risk_contributions pl ms \<noteq> []"
  shows "fst (derive_sla_risk pl ms) \<le> fst (derive_sla_risk pl ms')"
proof -
  obtain risk m cs where d: "derive_sla_risk pl ms = (risk, m, cs)" by (cases "derive_sla_risk pl ms") auto
  obtain risk' m' cs' where d': "derive_sla_risk pl ms' = (risk', m', cs')" by (cases "derive_sla_risk pl ms'") auto
  note s = risk_shape [OF assms(1,2) d] and s' = risk_shape [OF assms(1,3) d']
  obtain k where k: "(k, risk) \<in> set (risk_contributions pl ms)" using s assms(5) by auto
  obtain x' where x': "(k, x') \<in> set cs'" "risk \<le> x'"
    using worse_contributions [OF assms(1,4) k] s'(2) by blast
  then have "x' \<le> risk'" using s'(1) by (auto split: if_splits)
  moreover obtain r r' where "risk = Fin r" "risk' = Fin r'" using s(1) s'(1) by blast
  ultimately show ?thesis using x'(2) d d' by (cases x') auto
qed

text \<open>
  A NaN hides everything: with a NaN load the risk is NaN whatever else was measured, a saturated delay
  included, and the planner falls back to the floor.
\<close>

theorem nan_hides_saturation:
  assumes "map_of ms ''RRU.PrbTotDl'' = Some NaN"
  shows "fst (derive_sla_risk pl ms) = NaN \<and>
    risk_of pl (telemetry (snd (build_event pl cal eid ms ts ingest gran ue collect sender b))) = Inr (rnd pl (5 / 100))"
proof -
  have stuck: "max_by_value (k, NaN) kvs = (k, NaN)" for k kvs
    by (induction kvs) simp_all
  obtain cs where "risk_contributions pl ms = (''RRU.PrbTotDl'', NaN) # cs"
    using assms by (simp add: risk_contributions_def contribution_def)
  then have d: "derive_sla_risk pl ms = (NaN, Some ''RRU.PrbTotDl'', (''RRU.PrbTotDl'', NaN) # cs)"
    by (simp add: derive_sla_risk_def Let_def stuck)
  then show ?thesis unfolding risk_of_def Let_def event_risk [OF d] by simp
qed

section \<open>Indications\<close>

lemma column_names:
  assumes "record_row pl [] idx items ms = Inr ms'" "\<forall>k \<in> dom (map_of ms). starts_with ''column.'' k"
  shows "\<forall>k \<in> dom (map_of ms'). starts_with ''column.'' k"
  using assms
proof (induction items arbitrary: idx ms)
  case (Cons item items)
  have dom: "\<forall>k \<in> dom (map_of (dict_set (''column.'' @ nat_str idx) x ms)). starts_with ''column.'' k" for x
    using Cons.prems(2) by (auto simp: map_of_dict_set starts_with_iff split: if_splits)
  from Cons.prems(1) obtain v where v: "meas_value pl item = Inr v" by (auto simp: bindE_eq_Inr)
  show ?case
  proof (cases v)
    case None
    then show ?thesis using Cons.IH [of "idx + 1" ms] Cons.prems v by simp
  next
    case (Some x)
    then have "record_row pl [] (idx + 1) items (dict_set (''column.'' @ nat_str idx) x ms) = Inr ms'"
      using Cons.prems(1) v by (simp add: Let_def)
    from Cons.IH [OF this dom] show ?thesis .
  qed
qed simp

lemma unnamed_unmapped:
  assumes "\<forall>k \<in> dom (map_of ms). starts_with ''column.'' k"
  shows "derive_sla_risk pl ms = (rnd pl (5 / 100), None, [])"
proof -
  have "map_of ms n = None" if "\<not> starts_with ''column.'' n" for n using assms that by auto
  then show ?thesis by (simp add: derive_sla_risk_def risk_contributions_def contribution_def)
qed

text \<open>
  A Format 2 report has no list of measurement names (the standard gives it a list of conditions), so the
  bridge names its columns by number, none of them is mapped, and the planner sees the floor whatever
  was measured.
\<close>

theorem format2_reports_are_not_mapped:
  assumes "dec_message dec bytes = Inr (Format2 fmt)" and "meas_info fmt = None"
    and "from_e2sm_kpm_indication pl cal dec ids bytes hdr b = (b', Inr evs)"
    and "rnd pl (5 / 100) = Fin (5 / 100)"
  shows "\<exists>ev. evs = [ev] \<and> risk_of pl (telemetry ev) = Inr (Fin (5 / 100))"
proof -
  obtain ts sender where h: "header_of pl cal dec hdr = Inr (ts, sender)"
    using assms(1,3) by (auto simp: from_e2sm_kpm_indication_def split: sum.splits)
  obtain ms gran where m: "format1_measurements pl fmt = Inr (ms, gran)"
    using assms(1,3) h by (auto simp: from_e2sm_kpm_indication_def Let_def split: sum.splits)
  have "\<forall>k \<in> dom (map_of ms). starts_with ''column.'' k"
    using m assms(2) column_names [of pl 0 _ "[]"]
    by (auto simp: format1_measurements_def Let_def or_empty_def bindE_eq_Inr split: if_splits)
  note d = unnamed_unmapped [OF this, of pl]
  have "evs = [snd (build_event pl cal (ids 0) ms ts ''asn1_aper'' gran None (map_option (cal_iso cal) ts)
      (map_option VStr sender) b)]"
    using assms(1,3) h m by (auto simp: from_e2sm_kpm_indication_def Let_def split: prod.splits)
  then show ?thesis by (simp add: risk_of_def Let_def event_risk [OF d] assms(4) [simplified])
qed

lemma build_event_sequence:
  "ke_sequence (snd (build_event pl cal eid ms ts ingest gran ue collect sender b)) = br_sequence b + 1"
  "br_sequence (fst (build_event pl cal eid ms ts ingest gran ue collect sender b)) = br_sequence b + 1"
  by (simp_all add: build_event_def Let_def split_beta)

lemma ue_reports_numbered:
  "ue_reports pl cal ids ts sender reports acc b = (b', Inr evs) \<Longrightarrow>
   length evs = length acc + length reports \<and> br_sequence b' = br_sequence b + int (length reports) \<and>
   map ke_sequence evs = map ke_sequence acc @ map (\<lambda>i. br_sequence b + 1 + int i) [0..<length reports]"
proof (induction reports arbitrary: acc b)
  case (Cons rep reports)
  obtain kind body fmt where rep: "rep = (kind, body, fmt)" by (cases rep)
  obtain ms gran where m: "format1_measurements pl fmt = Inr (ms, gran)"
    using Cons.prems by (auto simp: rep split: sum.splits)
  let ?be = "build_event pl cal (ids (length acc)) ms ts ''asn1_aper'' gran (Some (ue_id_summary kind body))
    (map_option (cal_iso cal) ts) (map_option VStr sender) b"
  have "ue_reports pl cal ids ts sender reports (acc @ [snd ?be]) (fst ?be) = (b', Inr evs)"
    using Cons.prems by (simp add: rep m split_beta)
  from Cons.IH [OF this] show ?case
    by (simp add: build_event_sequence upt_conv_Cons map_Suc_upt [symmetric] o_def del: upt_Suc)
qed simp

text \<open>
  Events are numbered without gaps: an indication that is converted yields its events with consecutive
  sequence numbers, starting after the last one the bridge gave, and leaves the bridge at the last.
\<close>

theorem events_numbered:
  assumes "from_e2sm_kpm_indication pl cal dec ids bytes hdr b = (b', Inr evs)"
  shows "map ke_sequence evs = map (\<lambda>i. br_sequence b + 1 + int i) [0..<length evs] \<and>
    br_sequence b' = br_sequence b + int (length evs)"
proof -
  obtain message ts sender where h: "dec_message dec bytes = Inr message" "header_of pl cal dec hdr = Inr (ts, sender)"
    using assms by (auto simp: from_e2sm_kpm_indication_def split: sum.splits)
  show ?thesis
  proof (cases message)
    case (Format3 reports)
    then show ?thesis using assms h ue_reports_numbered [of pl cal ids ts sender "or_empty reports" "[]" b b' evs]
      by (simp add: from_e2sm_kpm_indication_def Let_def)
  qed (use assms h build_event_sequence in
      \<open>auto simp: from_e2sm_kpm_indication_def Let_def split_beta split: sum.splits\<close>)
qed

text \<open>
  FlexRIC sends the low word of a time stamp first. When the words, read straight, fall into the bridge's
  window but lie beyond the year 9999, the calendar refuses them and the bridge gives up: it never
  tries the second layout, although that one is the time of the report.
\<close>

theorem flexric_stamp_lost:
  assumes "exact pl" and "\<And>x. Fin 253402300800 \<le> x \<Longrightarrow> \<exists>e. cal_from_timestamp cal x = Inl e"
    and "length bs = 8" and "253402300800000000 \<le> from_be bs" and "from_be bs < 10000000000000000000"
  shows "decode_timestamp pl cal bs = None"
proof -
  have "Fin 253402300800 \<le> Fin (real (from_be bs) / 1000000)" using assms(4) by simp
  then obtain e where "cal_from_timestamp cal (Fin (real (from_be bs) / 1000000)) = Inl e" using assms(2) by blast
  then show ?thesis using assms(1,3,4,5)
    by (simp add: decode_timestamp_def int_to_float_def)
qed

section \<open>Records and the runner\<close>

text \<open>
  A measurement too large for a float leaves the bridge as \<open>OverflowError\<close>, not as the bridge's own error,
  and is not counted.
\<close>

theorem huge_measurement_escapes:
  assumes "\<not> isfinite (rnd pl (of_int n))"
  shows "from_flexric_kpm_json pl cal eid (VDict [(''measurements'', VDict [(k, VInt n)])]) b = (b, Inl OverflowError)"
  using assms by (simp add: from_flexric_kpm_json_def rget_def to_measurement_def int_to_float_def)

text \<open>
  The runner processes the events in order and stops at the first exception: the results it had are
  lost to the caller, although their effects on the world stand.
\<close>

lemma runner_appends:
  "e2_to_pipeline process evs results w =
     (case e2_to_pipeline process evs [] w of (w', Inl e) \<Rightarrow> (w', Inl e) | (w', Inr rs) \<Rightarrow> (w', Inr (results @ rs)))"
proof (induction evs arbitrary: results w)
  case (Cons ev evs)
  show ?case
  proof (cases "process w ev")
    case (Pair w1 x)
    show ?thesis
    proof (cases x)
      case (Inr r)
      show ?thesis using Cons.IH [of "results @ [r]" w1] Cons.IH [of "[r]" w1]
        by (simp add: Pair Inr split: prod.splits sum.splits)
    qed (simp add: Pair)
  qed
qed simp

theorem runner_stops_at_first_failure:
  "(case e2_to_pipeline process evs [] w of
      (w', Inr rs) \<Rightarrow> length rs = length evs
    | (w', Inl e) \<Rightarrow> \<exists>before ev after w1 rs. evs = before @ ev # after \<and>
        e2_to_pipeline process before [] w = (w1, Inr rs) \<and> process w1 ev = (w', Inl e))"
proof (induction evs arbitrary: w)
  case (Cons ev evs)
  obtain w1 x where px: "process w ev = (w1, x)" by (cases "process w ev")
  show ?case
  proof (cases x)
    case (Inl e)
    then show ?thesis using px by (auto intro!: exI [of _ "[]"])
  next
    case (Inr r)
    show ?thesis
    proof (cases "e2_to_pipeline process evs [] w1")
      case (Pair w2 y)
      show ?thesis
      proof (cases y)
        case (Inl e)
        with Cons.IH [of w1] Pair obtain before ev' after w3 rs where "evs = before @ ev' # after"
          "e2_to_pipeline process before [] w1 = (w3, Inr rs)" "process w3 ev' = (w2, Inl e)" by auto
        then show ?thesis using px Inr Pair Inl runner_appends [of process evs "[r]" w1] runner_appends [of process before "[r]" w1]
          by (auto intro!: exI [of _ "ev # before"])
      next
        case (Inr rs)
        then show ?thesis using Cons.IH [of w1] px \<open>x = Inr r\<close> Pair runner_appends [of process evs "[r]" w1] by simp
      qed
    qed
  qed
qed simp

section \<open>Witnesses\<close>

definition saturated :: measurements where
  "saturated = [(''RRU.PrbTotDl'', NaN), (''DRB.RlcSduDelayDl'', Fin 900)]"

definition loaded_cell :: measurements where
  "loaded_cell = [(''RRU.PrbTotDl'', Fin 80), (''DRB.UEThpDl'', Fin 9000)]"

definition epoch_calendar :: "pyfloat calendar" where
  "epoch_calendar = \<lparr>cal_now = Fin 0, cal_from_timestamp = (\<lambda>x. if x < Fin 253402300800 then Inr x else Inl ValueError),
     cal_parse = (\<lambda>_. None), cal_set_utc = id, cal_iso = (\<lambda>_. [])\<rparr>"

definition demo_bridge :: bridge where
  "demo_bridge = \<lparr>br_source_id = ''flexric-kpm'', br_e2sm_version = ''v3.00'', br_sequence = 0\<rparr>"

definition format2_body :: format_body where
  "format2_body = \<lparr>meas_info = None, meas_data = Some [Some [MInteger 95]], granul_period = None\<rparr>"

definition demo_decoder :: "indication \<Rightarrow> decoder" where
  "demo_decoder m = \<lparr>dec_message = (\<lambda>_. Inr m), dec_header = (\<lambda>_. Inl ValueError)\<rparr>"

lemma loaded_ok: "no_nan loaded_cell" "no_nan [(''RRU.PrbTotDl'', Fin 90), (''DRB.UEThpDl'', Fin 8000)]"
  by (simp_all add: no_nan_def loaded_cell_def)

lemma loaded_contributions:
  "risk_contributions exact_platform loaded_cell = [(''RRU.PrbTotDl'', Fin (4 / 5)), (''DRB.UEThpDl'', Fin (1 / 10))]"
  by (simp add: risk_contributions_def contribution_def loaded_cell_def per_def clamp01_def fsub_def)

lemma loaded_risk: "derive_sla_risk exact_platform loaded_cell =
    (Fin (4 / 5), Some ''RRU.PrbTotDl'', [(''RRU.PrbTotDl'', Fin (4 / 5)), (''DRB.UEThpDl'', Fin (1 / 10))])"
  by (simp add: derive_sla_risk_def loaded_contributions)

theorem planner_sees_worst_signal_witness:
  "risk_of exact_platform (telemetry (snd (build_event exact_platform epoch_calendar ''e'' loaded_cell None ''flexric_json'' None
     None None None demo_bridge))) = Inr (Fin (4 / 5))"
proof -
  obtain r where "Fin (4 / 5) = Fin r" "risk_of exact_platform (telemetry (snd (build_event exact_platform epoch_calendar ''e''
      loaded_cell None ''flexric_json'' None None None None demo_bridge))) = Inr (Fin r)"
    using planner_sees_worst_signal [OF exact_exact_platform loaded_ok(1) loaded_risk] by blast
  then show ?thesis by (simp only: pyfloat.inject)
qed

theorem worse_signals_raise_risk_witness:
  "fst (derive_sla_risk exact_platform loaded_cell) \<le>
     fst (derive_sla_risk exact_platform [(''RRU.PrbTotDl'', Fin 90), (''DRB.UEThpDl'', Fin 8000)])"
proof (rule worse_signals_raise_risk [OF exact_exact_platform loaded_ok])
  show "worse loaded_cell [(''RRU.PrbTotDl'', Fin 90), (''DRB.UEThpDl'', Fin 8000)]"
    by (simp add: worse_def load_metrics_def loaded_cell_def)
qed (simp add: loaded_contributions)

theorem nan_hides_saturation_witness:
  "fst (derive_sla_risk exact_platform saturated) = NaN"
  by (rule conjunct1 [OF nan_hides_saturation]) (simp add: saturated_def)

theorem format2_reports_are_not_mapped_witness:
  "\<exists>b' ev. from_e2sm_kpm_indication exact_platform epoch_calendar (demo_decoder (Format2 format2_body)) (\<lambda>_. ''e'') [] None
       demo_bridge = (b', Inr [ev]) \<and> risk_of exact_platform (telemetry ev) = Inr (Fin (5 / 100))"
proof -
  obtain b' evs where run: "from_e2sm_kpm_indication exact_platform epoch_calendar (demo_decoder (Format2 format2_body))
      (\<lambda>_. ''e'') [] None demo_bridge = (b', Inr evs)"
    by (simp add: from_e2sm_kpm_indication_def demo_decoder_def header_of_def format1_measurements_def format2_body_def
        or_empty_def int_to_float_def split_beta)
  have dec: "dec_message (demo_decoder (Format2 format2_body)) [] = Inr (Format2 format2_body)" "meas_info format2_body = None"
    by (simp_all add: demo_decoder_def format2_body_def)
  from format2_reports_are_not_mapped [OF dec run] run show ?thesis by auto
qed

theorem events_numbered_witness:
  "\<exists>b' evs. from_e2sm_kpm_indication exact_platform epoch_calendar (demo_decoder (Format1 format2_body)) (\<lambda>_. ''e'') [] None
       demo_bridge = (b', Inr evs) \<and> br_sequence b' = br_sequence demo_bridge + int (length evs)"
proof -
  obtain b' evs where run: "from_e2sm_kpm_indication exact_platform epoch_calendar (demo_decoder (Format1 format2_body))
      (\<lambda>_. ''e'') [] None demo_bridge = (b', Inr evs)"
    by (simp add: from_e2sm_kpm_indication_def demo_decoder_def header_of_def format1_measurements_def format2_body_def
        or_empty_def int_to_float_def split_beta)
  from events_numbered [OF run] run show ?thesis by blast
qed

theorem flexric_stamp_lost_witness:
  "decode_timestamp exact_platform epoch_calendar [16, 0, 0, 0, 0, 6, 0, 0] = None"
proof (rule flexric_stamp_lost [OF exact_exact_platform])
  fix x :: pyfloat assume "Fin 253402300800 \<le> x"
  then have "\<not> x < Fin 253402300800" by (cases x) auto
  then show "\<exists>e. cal_from_timestamp epoch_calendar x = Inl e" by (simp add: epoch_calendar_def)
qed (simp_all add: from_be_def)

theorem huge_measurement_escapes_witness:
  "from_flexric_kpm_json bounded_platform epoch_calendar ''e'' (VDict [(''measurements'', VDict [(''x'', VInt (10 ^ 400))])])
     demo_bridge = (demo_bridge, Inl OverflowError)"
  by (rule huge_measurement_escapes) (simp add: bounded_platform_def)

end
