(* ===== verification/Storage.thy ===== *)
theory Storage
  imports PyValue
begin

text \<open>
  What the rApp keeps on disk beside its evidence: the crash-safe checkpoint of
  \<open>runtime/state_recovery.py\<close> and the content-addressed vault of \<open>runtime/artefact_vault.py\<close>.

  The checkpoint's file system has what a crash can tell apart: the directory entries in memory and on
  disk, and for every file its content in memory and what is certainly on disk. After a crash the
  directory is the durable one or any later one, and a file whose content was not synced may hold
  anything. Serialisation is a parameter.
\<close>

section \<open>Files and crashes\<close>

record dfile =
  content :: string
  synced :: bool

record disk =
  inodes :: "nat \<Rightarrow> dfile"
  entries :: "string \<rightharpoonup> nat"
  unsynced_entries :: "(string \<rightharpoonup> nat) list"

text \<open>
  \<open>unsynced_entries\<close> holds the directories a crash may bring back beside the current one, oldest first.
\<close>

datatype effect =
    Create string nat
  | Write nat string
  | Fsync nat
  | Replace string string
  | FsyncDir
  | Unlink string

fun apply_effect :: "disk \<Rightarrow> effect \<Rightarrow> disk" where
  "apply_effect d (Create p n) =
     d\<lparr>inodes := (inodes d)(n := \<lparr>content = [], synced = False\<rparr>), entries := (entries d)(p \<mapsto> n),
       unsynced_entries := unsynced_entries d @ [entries d]\<rparr>"
| "apply_effect d (Write n t) =
     d\<lparr>inodes := (inodes d)(n := \<lparr>content = content (inodes d n) @ t, synced = False\<rparr>)\<rparr>"
| "apply_effect d (Fsync n) = d\<lparr>inodes := (inodes d)(n := (inodes d n)\<lparr>synced := True\<rparr>)\<rparr>"
| "apply_effect d (Replace p q) =
     d\<lparr>entries := (entries d)(q := entries d p, p := None), unsynced_entries := unsynced_entries d @ [entries d]\<rparr>"
| "apply_effect d FsyncDir = d\<lparr>unsynced_entries := []\<rparr>"
| "apply_effect d (Unlink p) =
     d\<lparr>entries := (entries d)(p := None), unsynced_entries := unsynced_entries d @ [entries d]\<rparr>"

definition after_crash :: "disk \<Rightarrow> disk \<Rightarrow> bool" where
  "after_crash d d' \<longleftrightarrow>
     entries d' \<in> insert (entries d) (set (unsynced_entries d)) \<and> unsynced_entries d' = [] \<and>
     (\<forall>n. synced (inodes d n) \<longrightarrow> inodes d' n = inodes d n)"

definition read_file :: "disk \<Rightarrow> string \<Rightarrow> string option" where
  "read_file d p = map_option (\<lambda>n. content (inodes d n)) (entries d p)"

section \<open>Checkpoints\<close>

text \<open>
  \<open>save_state\<close> as the list of its effects: a fresh temporary file \<open>tmp\<close> with inode \<open>n\<close> in the same
  directory, the JSON text in the chunks the writer flushes, \<open>fsync\<close>, the rename and the \<open>fsync\<close> of the
  directory. An exception leaves a prefix of them behind and then unlinks the temporary file.
\<close>

definition save_effects :: "string \<Rightarrow> string \<Rightarrow> nat \<Rightarrow> string list \<Rightarrow> effect list" where
  "save_effects path tmp n chunks =
     Create tmp n # map (Write n) chunks @ [Fsync n, Replace tmp path, FsyncDir]"

definition save_fails_after :: "nat \<Rightarrow> string \<Rightarrow> string \<Rightarrow> nat \<Rightarrow> string list \<Rightarrow> effect list" where
  "save_fails_after k path tmp n chunks = take k (save_effects path tmp n chunks) @ [Unlink tmp]"

text \<open>\<open>parse\<close> is \<open>json.loads\<close>; only a dictionary is a state. Blank files and parse errors are no state.\<close>

definition py_blank :: "string \<Rightarrow> bool" where
  "py_blank s \<longleftrightarrow> list_all (\<lambda>c. c \<in> {CHR '' '', CHR 0x09, CHR 0x0A, CHR 0x0B, CHR 0x0C, CHR 0x0D, CHR 0x1C, CHR 0x1D, CHR 0x1E, CHR 0x1F, CHR 0x85, CHR 0xA0}) s"

definition load_state :: "(string \<Rightarrow> pyval option) \<Rightarrow> disk \<Rightarrow> string \<Rightarrow> (string \<times> pyval) list option" where
  "load_state parse d path =
     (case read_file d path of
        None \<Rightarrow> None
      | Some raw \<Rightarrow>
          if py_blank raw then None
          else (case parse raw of Some (VDict kvs) \<Rightarrow> Some kvs | _ \<Rightarrow> None))"

lemma run_writes:
  "run apply_effect d (map (Write n) chunks) =
     (if chunks = [] then d
      else d\<lparr>inodes := (inodes d)(n := \<lparr>content = content (inodes d n) @ concat chunks, synced = False\<rparr>)\<rparr>)"
  by (induction chunks arbitrary: d) simp_all

text \<open>
  The file under \<open>path\<close>, if any, is the old inode in every directory a crash may leave, its content
  is on disk, and \<open>n\<close> is not it.
\<close>

definition settled :: "disk \<Rightarrow> string \<Rightarrow> nat option \<Rightarrow> nat \<Rightarrow> bool" where
  "settled d path old n \<longleftrightarrow>
     (\<forall>e \<in> insert (entries d) (set (unsynced_entries d)). e path = old) \<and>
     (\<forall>m. old = Some m \<longrightarrow> synced (inodes d m) \<and> m \<noteq> n)"

text \<open>At every point of a save the path is the old file, or the new one, complete and synced.\<close>

definition save_point :: "disk \<Rightarrow> string \<Rightarrow> nat option \<Rightarrow> nat \<Rightarrow> string \<Rightarrow> disk \<Rightarrow> bool" where
  "save_point d0 path old n text d \<longleftrightarrow>
     (\<forall>m. old = Some m \<longrightarrow> inodes d m = inodes d0 m) \<and>
     (\<forall>e \<in> insert (entries d) (set (unsynced_entries d)).
        e path = old \<or> e path = Some n \<and> inodes d n = \<lparr>content = text, synced = True\<rparr>)"

definition before_rename :: "disk \<Rightarrow> string \<Rightarrow> nat option \<Rightarrow> disk \<Rightarrow> bool" where
  "before_rename d0 path old d \<longleftrightarrow>
     (\<forall>m. old = Some m \<longrightarrow> inodes d m = inodes d0 m) \<and>
     (\<forall>e \<in> insert (entries d) (set (unsynced_entries d)). e path = old)"

lemma before_rename_point: "before_rename d0 path old d \<Longrightarrow> save_point d0 path old n text d"
  by (simp add: before_rename_def save_point_def)

lemma create_before:
  "settled d0 path old n \<Longrightarrow> tmp \<noteq> path \<Longrightarrow> before_rename d0 path old (apply_effect d0 (Create tmp n))"
  by (auto simp: settled_def before_rename_def)

lemma writes_before:
  "before_rename d0 path old d \<Longrightarrow> settled d0 path old n \<Longrightarrow>
   before_rename d0 path old (run apply_effect d (map (Write n) chunks))"
  by (auto simp: run_writes before_rename_def settled_def)

lemma rename_point:
  assumes "before_rename d0 path old d" "settled d0 path old n" "entries d tmp = Some n" "content (inodes d n) = text"
    "tmp \<noteq> path"
  shows "save_point d0 path old n text (run apply_effect d (take j [Fsync n, Replace tmp path, FsyncDir]))"
proof -
  consider "j = 0" | "j = 1" | "j = 2" | "j \<ge> 3" by linarith
  then show ?thesis
  proof cases
    case 4
    then have "take j [Fsync n, Replace tmp path, FsyncDir] = [Fsync n, Replace tmp path, FsyncDir]" by simp
    then show ?thesis using assms by (auto simp: before_rename_def settled_def save_point_def)
  qed (use assms in \<open>auto simp: before_rename_def settled_def save_point_def numeral_2_eq_2\<close>)
qed

lemma save_prefix:
  assumes "settled d0 path old n" "tmp \<noteq> path"
  shows "save_point d0 path old n (concat chunks) (run apply_effect d0 (take k (save_effects path tmp n chunks)))"
proof (cases k)
  case 0
  then show ?thesis using assms(1) by (intro before_rename_point) (simp add: before_rename_def settled_def)
next
  case (Suc j)
  let ?d1 = "apply_effect d0 (Create tmp n)"
  let ?d2 = "run apply_effect ?d1 (map (Write n) (take j chunks))"
  have run: "run apply_effect d0 (take k (save_effects path tmp n chunks)) =
      run apply_effect ?d2 (take (j - length chunks) [Fsync n, Replace tmp path, FsyncDir])"
    by (simp add: Suc save_effects_def run_append take_map)
  have before: "before_rename d0 path old ?d2"
    using writes_before [OF create_before [OF assms] assms(1)] .
  show ?thesis
  proof (cases "j \<le> length chunks")
    case True
    then show ?thesis unfolding run using before by (simp add: before_rename_point)
  next
    case False
    then have "content (inodes ?d2 n) = concat chunks" "entries ?d2 tmp = Some n" by (simp_all add: run_writes)
    then show ?thesis unfolding run using rename_point [OF before assms(1)] assms(2) by blast
  qed
qed

lemma read_after_crash:
  assumes point: "save_point d0 path old n text d" and crash: "after_crash d d'" and settled: "settled d0 path old n"
  shows "read_file d' path = map_option (\<lambda>m. content (inodes d0 m)) old \<or> read_file d' path = Some text"
proof -
  have "entries d' path = old \<or> entries d' path = Some n \<and> inodes d n = \<lparr>content = text, synced = True\<rparr>"
    using point crash by (auto simp: save_point_def after_crash_def)
  then show ?thesis
  proof
    assume "entries d' path = old"
    moreover have "inodes d' m = inodes d0 m" if "old = Some m" for m
    proof -
      have "inodes d m = inodes d0 m" "synced (inodes d0 m)" using that point settled
        by (simp_all add: save_point_def settled_def)
      then show ?thesis using crash by (simp add: after_crash_def)
    qed
    ultimately show ?thesis by (cases old) (simp_all add: read_file_def)
  next
    assume "entries d' path = Some n \<and> inodes d n = \<lparr>content = text, synced = True\<rparr>"
    then show ?thesis using crash by (auto simp: read_file_def after_crash_def)
  qed
qed

text \<open>
  C28. A checkpoint is atomic: wherever a crash interrupts a save, the file read after it holds either
  exactly what it held before (or is absent, as before), or exactly the new text, never a mixture.
\<close>

theorem checkpoint_atomic:
  assumes "settled d path old n" and "tmp \<noteq> path"
    and "after_crash (run apply_effect d (take k (save_effects path tmp n chunks))) d'"
  shows "read_file d' path \<in> {read_file d path, Some (concat chunks)}"
proof -
  have "read_file d path = map_option (\<lambda>m. content (inodes d m)) old"
    using assms(1) by (simp add: settled_def read_file_def)
  then show ?thesis
    using read_after_crash [OF save_prefix [OF assms(1,2)] assms(3,1)] by auto
qed

text \<open>
  A save that returns is durable: after it, and after any later crash, loading gives the saved
  state, for any serialisation that parses back to it and is not blank.
\<close>

theorem checkpoint_durable:
  assumes "settled d path old n" and "tmp \<noteq> path"
    and "after_crash (run apply_effect d (save_effects path tmp n chunks)) d'"
    and "parse (concat chunks) = Some (VDict state)" and "\<not> py_blank (concat chunks)"
  shows "load_state parse d' path = Some state"
proof -
  let ?d1 = "run apply_effect (apply_effect d (Create tmp n)) (map (Write n) chunks)"
  have run: "run apply_effect d (save_effects path tmp n chunks) =
      run apply_effect ?d1 [Fsync n, Replace tmp path, FsyncDir]"
    by (simp add: save_effects_def run_append)
  have "entries ?d1 tmp = Some n" "content (inodes ?d1 n) = concat chunks" by (simp_all add: run_writes)
  then have "read_file d' path = Some (concat chunks)"
    using assms(2,3) unfolding run by (auto simp: after_crash_def read_file_def)
  then show ?thesis using assms(4,5) by (simp add: load_state_def)
qed

text \<open>
  A save that raises at any point, and cleans up its temporary file, leaves the old checkpoint or
  the complete new one in place.
\<close>

theorem failed_save_keeps:
  assumes "settled d path old n" and "tmp \<noteq> path"
  shows "read_file (run apply_effect d (save_fails_after k path tmp n chunks)) path
           \<in> {read_file d path, Some (concat chunks)}"
proof -
  have "read_file d path = map_option (\<lambda>m. content (inodes d m)) old"
    using assms(1) by (simp add: settled_def read_file_def)
  then show ?thesis
    using save_prefix [OF assms, of chunks k] assms(2)
    by (cases old) (auto simp: save_point_def save_fails_after_def run_append read_file_def)
qed

section \<open>The artefact vault\<close>

text \<open>
  The vault keeps the artefact bytes and a metadata file under each hash; a metadata file that does not
  parse is \<open>None\<close>. \<open>sha\<close> is SHA-256 in hexadecimal, a parameter.
\<close>

record art_meta =
  meta_sha :: string
  size_bytes :: nat
  stored_at :: string
  label :: "string option"
  extra :: "(string \<times> pyval) list"

record vault =
  bins :: "string \<rightharpoonup> string"
  metas :: "(string \<times> art_meta option) list"

definition vault_new :: vault where
  "vault_new = \<lparr>bins = Map.empty, metas = []\<rparr>"

definition FileNotFoundError :: py_exn where
  "FileNotFoundError = OtherExn ''FileNotFoundError''"

definition VaultIntegrityError :: py_exn where
  "VaultIntegrityError = OtherExn ''IntegrityError''"

definition paths_for :: "string \<Rightarrow> string res" where
  "paths_for s =
     (if length s = 64 \<and> list_all (\<lambda>c. c \<in> set ''0123456789abcdef'') s then Inr s else Inl ValueError)"

definition store ::
  "(string \<Rightarrow> string) \<Rightarrow> string \<Rightarrow> string option \<Rightarrow> (string \<times> pyval) list option \<Rightarrow> string \<Rightarrow> vault \<Rightarrow> (string \<times> vault) res" where
  "store sha model_bytes lbl ext now v =
     bindE (paths_for (sha model_bytes)) (\<lambda>s.
       let v1 = (if bins v s = None then v\<lparr>bins := (bins v)(s \<mapsto> model_bytes)\<rparr> else v);
           meta = \<lparr>meta_sha = s, size_bytes = length model_bytes, stored_at = now, label = lbl,
                   extra = (case ext of Some e \<Rightarrow> e | None \<Rightarrow> [])\<rparr>
       in Inr (s, v1\<lparr>metas := dict_set s (Some meta) (metas v1)\<rparr>))"

definition vault_exists :: "string \<Rightarrow> vault \<Rightarrow> bool res" where
  "vault_exists s v = bindE (paths_for s) (\<lambda>s. Inr (bins v s \<noteq> None))"

definition retrieve :: "(string \<Rightarrow> string) \<Rightarrow> string \<Rightarrow> vault \<Rightarrow> string res" where
  "retrieve sha s v =
     bindE (paths_for s) (\<lambda>s.
       case bins v s of
         None \<Rightarrow> Inl FileNotFoundError
       | Some d \<Rightarrow> if sha d \<noteq> s then Inl VaultIntegrityError else Inr d)"

definition metadata :: "string \<Rightarrow> vault \<Rightarrow> art_meta res" where
  "metadata s v =
     bindE (paths_for s) (\<lambda>s.
       case map_of (metas v) s of
         None \<Rightarrow> Inl FileNotFoundError
       | Some None \<Rightarrow> Inl ValueError
       | Some (Some m) \<Rightarrow> Inr m)"

text \<open>Files in the order of their paths, which is the order of their hashes; unreadable ones are skipped.\<close>

definition list_artefacts :: "vault \<Rightarrow> art_meta list" where
  "list_artefacts v = List.map_filter snd (sort_key fst (metas v))"

text \<open>A vault that only \<open>store\<close> has written to.\<close>

definition vault_ok :: "(string \<Rightarrow> string) \<Rightarrow> vault \<Rightarrow> bool" where
  "vault_ok sha v \<longleftrightarrow> (\<forall>s d. bins v s = Some d \<longrightarrow> sha d = s)"

record store_args =
  arg_bytes :: string
  arg_label :: "string option"
  arg_extra :: "(string \<times> pyval) list option"
  arg_now :: string

definition vault_step :: "(string \<Rightarrow> string) \<Rightarrow> vault \<Rightarrow> store_args \<Rightarrow> vault" where
  "vault_step sha v a =
     (case store sha (arg_bytes a) (arg_label a) (arg_extra a) (arg_now a) v of
        Inl _ \<Rightarrow> v | Inr (_, v') \<Rightarrow> v')"

lemma store_bins:
  "store sha b l e now v = Inr (s, v') \<Longrightarrow>
   s = sha b \<and> paths_for s = Inr s \<and> bins v' = (if bins v s = None then (bins v)(s \<mapsto> b) else bins v)"
  by (auto simp: store_def bindE_eq_Inr paths_for_def Let_def split: if_splits)

interpretation vault: total_machine "vault_step sha" "\<lambda>v. vault_ok sha v \<and> (\<forall>s d. b0 s = Some d \<longrightarrow> bins v s = Some d)"
  for sha b0
proof
  fix v a assume inv: "vault_ok sha v \<and> (\<forall>s d. b0 s = Some d \<longrightarrow> bins v s = Some d)"
  show "vault_ok sha (vault_step sha v a) \<and> (\<forall>s d. b0 s = Some d \<longrightarrow> bins (vault_step sha v a) s = Some d)"
  proof (cases "store sha (arg_bytes a) (arg_label a) (arg_extra a) (arg_now a) v")
    case (Inr sv)
    obtain s v' where sv: "sv = (s, v')" by (cases sv)
    then show ?thesis using inv store_bins [OF Inr [unfolded sv]] Inr
      by (auto simp: vault_step_def vault_ok_def)
  qed (use inv in \<open>simp add: vault_step_def\<close>)
qed

text \<open>
  Retrieval is verified: whatever has happened to the files, bytes that \<open>retrieve\<close> returns have the
  hash asked for.
\<close>

theorem retrieve_verified:
  assumes "retrieve sha s v = Inr d"
  shows "sha d = s \<and> bins v s = Some d"
  using assms by (auto simp: retrieve_def bindE_eq_Inr paths_for_def split: if_splits option.splits)

text \<open>
  Rollback is byte-identical: in a vault that only the program writes to, bytes once stored come
  back unchanged under the hash \<open>store\<close> returned, after any further stores, as long as no other stored
  bytes have the same hash.
\<close>

theorem store_retrieve:
  assumes "vault_ok sha v" and "store sha b l e now v = Inr (s, v')"
    and "\<And>d. sha d = sha b \<Longrightarrow> d = b"
  shows "retrieve sha s (run (vault_step sha) v' later) = Inr b"
proof -
  have st: "s = sha b" "paths_for s = Inr s" "bins v' = (if bins v s = None then (bins v)(s \<mapsto> b) else bins v)"
    using store_bins [OF assms(2)] by metis+
  then have "bins v' s = Some b" using assms(1,3) by (auto simp: vault_ok_def)
  moreover have "vault_ok sha v'" using assms(1) st by (auto simp: vault_ok_def)
  ultimately have "bins (run (vault_step sha) v' later) s = Some b"
    using vault.run_keeps [of sha v' "bins v'" later] by simp
  then show ?thesis using st by (simp add: retrieve_def)
qed

text \<open>
  Storing does not repair: when the file under a hash has been damaged, storing the right bytes
  again succeeds, refreshes the metadata and leaves the damaged file, so retrieval still fails.
\<close>

theorem store_keeps_damage:
  assumes "bins v (sha b) = Some d" and "sha d \<noteq> sha b" and "paths_for (sha b) = Inr (sha b)"
  shows "\<exists>v'. store sha b l e now v = Inr (sha b, v') \<and> retrieve sha (sha b) v' = Inl VaultIntegrityError"
  using assms by (simp add: store_def retrieve_def Let_def)

section \<open>Witnesses\<close>

definition demo_disk :: disk where
  "demo_disk = \<lparr>inodes = (\<lambda>_. \<lparr>content = ''old'', synced = True\<rparr>), entries = [''state'' \<mapsto> 0], unsynced_entries = []\<rparr>"

lemma demo_settled: "settled demo_disk ''state'' (Some 0) 1"
  by (simp add: settled_def demo_disk_def)

lemma crash_now: "unsynced_entries d = [] \<Longrightarrow> after_crash d d"
  by (simp add: after_crash_def)

theorem checkpoint_atomic_witness:
  "read_file (run apply_effect demo_disk (take 6 (save_effects ''state'' ''tmp'' 1 [''ne'', ''w'']))) ''state''
     \<in> {Some ''old'', Some ''new''}"
proof -
  have c: "after_crash (run apply_effect demo_disk (take 6 (save_effects ''state'' ''tmp'' 1 [''ne'', ''w''])))
      (run apply_effect demo_disk (take 6 (save_effects ''state'' ''tmp'' 1 [''ne'', ''w''])))"
    by (rule crash_now) (simp add: save_effects_def)
  have "''tmp'' \<noteq> (''state'' :: string)" by simp
  from checkpoint_atomic [OF demo_settled this c] show ?thesis by (simp add: read_file_def demo_disk_def)
qed

theorem failed_save_keeps_witness:
  "read_file (run apply_effect demo_disk (save_fails_after 2 ''state'' ''tmp'' 1 [''new''])) ''state'' \<in> {Some ''old'', Some ''new''}"
  using failed_save_keeps [OF demo_settled, of "''tmp''" 2 "[''new'']"] by (simp add: read_file_def demo_disk_def)

theorem checkpoint_durable_witness:
  "load_state (\<lambda>_. Some (VDict [])) (run apply_effect demo_disk (save_effects ''state'' ''tmp'' 1 [''new''])) ''state'' = Some []"
  by (rule checkpoint_durable [OF demo_settled, of "''tmp''" "[''new'']"])
    (simp_all add: py_blank_def crash_now save_effects_def)

text \<open>A hash for evaluation: 64 characters, the first of which tells the empty string apart.\<close>

definition demo_sha :: "string \<Rightarrow> string" where
  "demo_sha b = (if b = ''m1'' then CHR ''1'' else CHR ''0'') # replicate 63 (CHR ''a'')"

lemma demo_paths: "paths_for (demo_sha b) = Inr (demo_sha b)"
  by (simp add: paths_for_def demo_sha_def list_all_iff)

theorem store_retrieve_witness:
  "\<exists>v'. store demo_sha ''m1'' None None ''t'' vault_new = Inr (demo_sha ''m1'', v') \<and>
        retrieve demo_sha (demo_sha ''m1'') v' = Inr ''m1''"
proof -
  obtain v' where st: "store demo_sha ''m1'' None None ''t'' vault_new = Inr (demo_sha ''m1'', v')"
    by (simp add: store_def demo_paths Let_def)
  have "vault_ok demo_sha vault_new" by (simp add: vault_ok_def vault_new_def)
  moreover have "d = ''m1''" if "demo_sha d = demo_sha ''m1''" for d
    using that by (simp add: demo_sha_def split: if_splits)
  ultimately show ?thesis using store_retrieve [OF _ st, of "[]"] st by simp
qed

theorem retrieve_verified_witness:
  "retrieve demo_sha (demo_sha ''x'') (vault_new\<lparr>bins := [demo_sha ''x'' \<mapsto> ''y'']\<rparr>) = Inr ''y'' \<and>
   demo_sha ''y'' = demo_sha ''x''"
proof -
  have "retrieve demo_sha (demo_sha ''x'') (vault_new\<lparr>bins := [demo_sha ''x'' \<mapsto> ''y'']\<rparr>) = Inr ''y''"
    by (simp add: retrieve_def demo_paths, simp add: demo_sha_def)
  from retrieve_verified [OF this] this show ?thesis by simp
qed

theorem store_keeps_damage_witness:
  "\<exists>v'. store demo_sha ''m1'' None None ''t'' (vault_new\<lparr>bins := [demo_sha ''m1'' \<mapsto> ''bad'']\<rparr>) = Inr (demo_sha ''m1'', v') \<and>
        retrieve demo_sha (demo_sha ''m1'') v' = Inl VaultIntegrityError"
  by (rule store_keeps_damage [where d = "''bad''"]) (simp_all add: demo_paths, simp add: demo_sha_def)

end
