(* ===== verification/Degradation.thy ===== *)
theory Degradation
  imports Alarms
begin

text \<open>
  The degraded-mode controller (\<open>runtime/graceful_degradation.py\<close>) and the alarms it raises. Every
  method runs its state change under the controller's lock and emits its alarm after releasing it, so
  \<open>enter\<close> and \<open>recover\<close> are each a locked section, which says which event is still to be emitted,
  followed by the emission. The clock, alarm ids and the outcome of writing a line to the buffer file
  are arguments.
\<close>

datatype degraded_state = NORMAL | KEEP_LAST_GOOD | BUFFER_TO_TMP | HOLD_OUTPUT

datatype failure_mode = SMO_UNREACHABLE | EVIDENCE_STORE_DOWN | TELEMETRY_DROPPED

fun FAILURE_TO_STATE :: "failure_mode \<Rightarrow> degraded_state" where
  "FAILURE_TO_STATE SMO_UNREACHABLE = KEEP_LAST_GOOD"
| "FAILURE_TO_STATE EVIDENCE_STORE_DOWN = BUFFER_TO_TMP"
| "FAILURE_TO_STATE TELEMETRY_DROPPED = HOLD_OUTPUT"

fun state_value :: "degraded_state \<Rightarrow> string" where
  "state_value NORMAL = ''normal''"
| "state_value KEEP_LAST_GOOD = ''keep_last_good''"
| "state_value BUFFER_TO_TMP = ''buffer_to_tmp''"
| "state_value HOLD_OUTPUT = ''hold_output''"

fun mode_value :: "failure_mode \<Rightarrow> string" where
  "mode_value SMO_UNREACHABLE = ''smo_unreachable''"
| "mode_value EVIDENCE_STORE_DOWN = ''evidence_store_down''"
| "mode_value TELEMETRY_DROPPED = ''telemetry_dropped''"

record good_policy =
  good_policy_id :: string
  good_payload :: pyval
  good_ts :: real

record controller =
  dstate :: degraded_state
  fmode :: "failure_mode option"
  entered_at :: "real option"
  last_good :: "(string \<times> good_policy) list"
  held :: "pyval list"
  buffered :: "pyval list"
  buffer_file :: "string list"

definition controller_new :: controller where
  "controller_new =
     \<lparr>dstate = NORMAL, fmode = None, entered_at = None, last_good = [], held = [], buffered = [], buffer_file = []\<rparr>"

definition is_serving :: "controller \<Rightarrow> bool" where
  "is_serving c \<longleftrightarrow> dstate c = NORMAL"

record snapshot =
  snap_state :: string
  snap_mode :: "string option"
  snap_entered_at :: "real option"
  snap_policies :: nat
  snap_buffered :: nat
  snap_held :: nat

definition take_snapshot :: "controller \<Rightarrow> snapshot" where
  "take_snapshot c =
     \<lparr>snap_state = state_value (dstate c), snap_mode = map_option mode_value (fmode c),
      snap_entered_at = entered_at c, snap_policies = length (last_good c),
      snap_buffered = length (buffered c), snap_held = length (held c)\<rparr>"

section \<open>Transitions\<close>

text \<open>The event a locked section leaves to be emitted: its name and its payload.\<close>

type_synonym pending = "(string \<times> info) option"

definition enter_locked :: "failure_mode \<Rightarrow> string \<Rightarrow> real \<Rightarrow> controller \<Rightarrow> controller \<times> pending" where
  "enter_locked mode reason now c =
     (let new = FAILURE_TO_STATE mode
      in if dstate c = new \<and> fmode c = Some mode then (c, None)
         else (c\<lparr>dstate := new, fmode := Some mode, entered_at := Some now\<rparr>,
               Some (''horizon.degraded.entered'',
                 [(''from_state'', VStr (state_value (dstate c))), (''to_state'', VStr (state_value new)),
                  (''failure_mode'', VStr (mode_value mode)), (''reason'', VStr reason)])))"

definition recover_locked :: "string \<Rightarrow> controller \<Rightarrow> controller \<times> pending" where
  "recover_locked reason c =
     (if dstate c = NORMAL then (c, None)
      else (c\<lparr>dstate := NORMAL, fmode := None, entered_at := None\<rparr>,
            Some (''horizon.degraded.recovered'',
              [(''from_state'', VStr (state_value (dstate c))),
               (''failure_mode'', (case fmode c of Some m \<Rightarrow> VStr (mode_value m) | None \<Rightarrow> VNone)),
               (''reason'', VStr reason)])))"

definition send :: "pending \<Rightarrow> string \<Rightarrow> real \<Rightarrow> alarm_bus \<Rightarrow> alarm_bus" where
  "send p ident now b =
     (case p of None \<Rightarrow> b | Some (e, i) \<Rightarrow> fst (emit_event e (Some i) None ident now b))"

text \<open>The methods, when no other thread comes between the section and the emission.\<close>

definition enter :: "failure_mode \<Rightarrow> string \<Rightarrow> string \<Rightarrow> real \<Rightarrow> controller \<times> alarm_bus \<Rightarrow> controller \<times> alarm_bus" where
  "enter mode reason ident now s =
     (case s of (c, b) \<Rightarrow> let (c', p) = enter_locked mode reason now c in (c', send p ident now b))"

definition recover :: "string \<Rightarrow> string \<Rightarrow> real \<Rightarrow> controller \<times> alarm_bus \<Rightarrow> controller \<times> alarm_bus" where
  "recover reason ident now s =
     (case s of (c, b) \<Rightarrow> let (c', p) = recover_locked reason c in (c', send p ident now b))"

section \<open>Behaviour in a degraded mode\<close>

definition record_last_good_policy :: "string \<Rightarrow> string \<Rightarrow> pyval \<Rightarrow> real \<Rightarrow> controller \<Rightarrow> controller" where
  "record_last_good_policy ptype pid payload now c =
     c\<lparr>last_good := dict_set ptype \<lparr>good_policy_id = pid, good_payload = payload, good_ts = now\<rparr> (last_good c)\<rparr>"

definition get_last_good_policy :: "string \<Rightarrow> controller \<Rightarrow> good_policy option" where
  "get_last_good_policy ptype c = map_of (last_good c) ptype"

text \<open>\<open>line\<close> is the JSON text, or the exception that serialising or writing it raises; the record is in the list by then.\<close>

definition buffer_evidence :: "pyval \<Rightarrow> string res \<Rightarrow> controller \<Rightarrow> controller \<times> bool res" where
  "buffer_evidence r line c =
     (let c1 = c\<lparr>buffered := buffered c @ [r]\<rparr>
      in case line of Inl e \<Rightarrow> (c1, Inl e)
         | Inr t \<Rightarrow> (c1\<lparr>buffer_file := buffer_file c1 @ [t]\<rparr>, Inr True))"

definition hold_decision :: "pyval \<Rightarrow> controller \<Rightarrow> controller" where
  "hold_decision d c = c\<lparr>held := held c @ [d]\<rparr>"

definition drain_buffered_evidence :: "controller \<Rightarrow> controller \<times> pyval list" where
  "drain_buffered_evidence c = (c\<lparr>buffered := []\<rparr>, buffered c)"

definition drain_held_decisions :: "controller \<Rightarrow> controller \<times> pyval list" where
  "drain_held_decisions c = (c\<lparr>held := []\<rparr>, held c)"

section \<open>Runs\<close>

datatype deg_op =
    Enter failure_mode string string real
  | Recover string string real
  | RecordGood string string pyval real
  | Buffer pyval "string res"
  | Hold pyval
  | DrainBuffered
  | DrainHeld
  | OtherAlarm alarm

text \<open>A step of the controller beside its bus; the outputs are the drained evidence and decisions.\<close>

fun deg_step :: "controller \<times> alarm_bus \<Rightarrow> deg_op \<Rightarrow> (controller \<times> alarm_bus) \<times> pyval list \<times> pyval list" where
  "deg_step s (Enter m reason ident now) = (enter m reason ident now s, [], [])"
| "deg_step s (Recover reason ident now) = (recover reason ident now s, [], [])"
| "deg_step (c, b) (RecordGood t i p now) = ((record_last_good_policy t i p now c, b), [], [])"
| "deg_step (c, b) (Buffer r line) = ((fst (buffer_evidence r line c), b), [], [])"
| "deg_step (c, b) (Hold d) = ((hold_decision d c, b), [], [])"
| "deg_step (c, b) DrainBuffered = (let (c', out) = drain_buffered_evidence c in ((c', b), out, []))"
| "deg_step (c, b) DrainHeld = (let (c', out) = drain_held_decisions c in ((c', b), [], out))"
| "deg_step (c, b) (OtherAlarm a) = ((c, fst (emit a b)), [], [])"

definition degraded_key :: active_key where
  "degraded_key = (''rApp/horizon_ric'', ''qualityOfServiceAlarm'', ''qosAlarm'')"

text \<open>
  The alarm agrees with the state: the degraded alarm is active exactly in a degraded mode, the mode
  fits the failure and the entry time is known exactly then.
\<close>

definition deg_inv :: "controller \<times> alarm_bus \<Rightarrow> bool" where
  "deg_inv s \<longleftrightarrow>
     (case fmode (fst s) of None \<Rightarrow> dstate (fst s) = NORMAL | Some m \<Rightarrow> dstate (fst s) = FAILURE_TO_STATE m) \<and>
     (entered_at (fst s) = None \<longleftrightarrow> fmode (fst s) = None) \<and>
     (map_of (active (snd s)) degraded_key \<noteq> None \<longleftrightarrow> \<not> is_serving (fst s))"

lemma degraded_events:
  "event_key ''horizon.degraded.entered'' = Some degraded_key" "\<not> clears ''horizon.degraded.entered''"
  "event_key ''horizon.degraded.recovered'' = Some degraded_key" "clears ''horizon.degraded.recovered''"
  by (simp_all add: event_key_def clears_def degraded_key_def FAILURE_MAP_def spec_of_def)

lemma send_entered:
  "map_of (active (send (Some (''horizon.degraded.entered'', i)) ident now b)) degraded_key \<noteq> None"
  using emit_event_active [OF degraded_events(1), of "Some i" ident now b degraded_key]
    emit_event_known [OF degraded_events(1), of "Some i" None ident now] degraded_events(2)
  by (auto simp: send_def)

lemma send_recovered:
  "map_of (active (send (Some (''horizon.degraded.recovered'', i)) ident now b)) degraded_key = None"
  using emit_event_active [OF degraded_events(3), of "Some i" ident now b degraded_key] degraded_events(4)
  by (simp add: send_def)

lemma enter_inv: "deg_inv s \<Longrightarrow> deg_inv (enter m reason ident now s)"
proof (cases "dstate (fst s) = FAILURE_TO_STATE m \<and> fmode (fst s) = Some m")
  case True
  then show "deg_inv s \<Longrightarrow> ?thesis"
    by (cases s) (simp add: enter_def enter_locked_def Let_def send_def)
next
  case False
  then show ?thesis
    using send_entered by (cases s; cases m) (auto simp: enter_def enter_locked_def Let_def deg_inv_def is_serving_def)
qed

lemma recover_inv: "deg_inv s \<Longrightarrow> deg_inv (recover reason ident now s)"
  using send_recovered
  by (cases s) (auto simp: recover_def recover_locked_def deg_inv_def is_serving_def send_def [of None])

definition foreign :: "deg_op \<Rightarrow> bool" where
  "foreign op \<longleftrightarrow> (case op of OtherAlarm a \<Rightarrow> alarm_key a = degraded_key | _ \<Rightarrow> False)"

lemma deg_inv_same:
  "deg_inv (c, b) \<Longrightarrow> dstate c' = dstate c \<Longrightarrow> fmode c' = fmode c \<Longrightarrow> entered_at c' = entered_at c \<Longrightarrow>
   map_of (active b') degraded_key = map_of (active b) degraded_key \<Longrightarrow> deg_inv (c', b')"
  by (cases "fmode c") (simp_all add: deg_inv_def is_serving_def)

lemma deg_step_inv:
  assumes "deg_inv (c, b)" "\<not> foreign op"
  shows "deg_inv (fst (deg_step (c, b) op))"
proof (cases op)
  case (Enter m r i t)
  then show ?thesis using assms by (simp add: enter_inv)
next
  case (Recover r i t)
  then show ?thesis using assms by (simp add: recover_inv)
next
  case (RecordGood t i p now)
  then show ?thesis by (simp, intro deg_inv_same [OF assms(1)]) (simp_all add: record_last_good_policy_def)
next
  case (Buffer r line)
  then show ?thesis
    by (simp, intro deg_inv_same [OF assms(1)]) (simp_all add: buffer_evidence_def Let_def split: sum.split)
next
  case (Hold d)
  then show ?thesis by (simp, intro deg_inv_same [OF assms(1)]) (simp_all add: hold_decision_def)
next
  case DrainBuffered
  then show ?thesis
    by (simp add: drain_buffered_evidence_def, intro deg_inv_same [OF assms(1)]) simp_all
next
  case DrainHeld
  then show ?thesis
    by (simp add: drain_held_decisions_def, intro deg_inv_same [OF assms(1)]) simp_all
next
  case (OtherAlarm a)
  then show ?thesis using assms(2)
    by (simp, intro deg_inv_same [OF assms(1)]) (auto simp: foreign_def emit_def)
qed

primrec deg_run :: "controller \<times> alarm_bus \<Rightarrow> deg_op list \<Rightarrow> (controller \<times> alarm_bus) \<times> pyval list \<times> pyval list" where
  "deg_run s [] = (s, [], [])"
| "deg_run s (op # ops) =
     (let (s1, e1, h1) = deg_step s op; (s2, e2, h2) = deg_run s1 ops in (s2, e1 @ e2, h1 @ h2))"

lemma deg_run_inv: "deg_inv s \<Longrightarrow> \<forall>op \<in> set ops. \<not> foreign op \<Longrightarrow> deg_inv (fst (deg_run s ops))"
proof (induction ops arbitrary: s)
  case (Cons op ops)
  have "deg_inv (fst (deg_step s op))"
    using deg_step_inv [of "fst s" "snd s" op] Cons.prems by simp
  with Cons.IH [of "fst (deg_step s op)"] Cons.prems(2)
  have "deg_inv (fst (deg_run (fst (deg_step s op)) ops))" by simp
  then show ?case by (simp add: Let_def case_prod_beta)
qed simp

lemma fresh_deg_inv: "deg_inv (controller_new, bus_new)"
  by (simp add: deg_inv_def controller_new_def bus_new_def is_serving_def)

text \<open>
  C26. Readiness, mode and alarm agree: after any sequence of controller operations from boot (and of
  alarms of other kinds on the same bus), the rApp reports ready exactly when no failure mode is
  recorded, exactly when no degradation alarm is active, and the state is the one of the mode.
\<close>

theorem degraded_iff_alarm:
  assumes "\<forall>op \<in> set ops. \<not> foreign op" and "fst (deg_run (controller_new, bus_new) ops) = (c, b)"
  shows "(is_serving c \<longleftrightarrow> fmode c = None) \<and>
         (is_serving c \<longleftrightarrow> map_of (active b) degraded_key = None) \<and>
         (entered_at c = None \<longleftrightarrow> is_serving c) \<and>
         dstate c = (case fmode c of None \<Rightarrow> NORMAL | Some m \<Rightarrow> FAILURE_TO_STATE m)"
proof -
  have "deg_inv (c, b)" using deg_run_inv [OF fresh_deg_inv assms(1)] assms(2) by simp
  moreover have "FAILURE_TO_STATE m \<noteq> NORMAL" for m by (cases m) simp_all
  ultimately show ?thesis by (auto simp: deg_inv_def is_serving_def split: option.splits)
qed

definition buffered_records :: "deg_op list \<Rightarrow> pyval list" where
  "buffered_records ops = concat (map (\<lambda>op. case op of Buffer r _ \<Rightarrow> [r] | _ \<Rightarrow> []) ops)"

definition held_records :: "deg_op list \<Rightarrow> pyval list" where
  "held_records ops = concat (map (\<lambda>op. case op of Hold d \<Rightarrow> [d] | _ \<Rightarrow> []) ops)"

lemma deg_step_fifo:
  assumes "deg_step s op = (s', ev, dec)"
  shows "ev @ buffered (fst s') = buffered (fst s) @ buffered_records [op] \<and>
         dec @ held (fst s') = held (fst s) @ held_records [op]"
proof -
  obtain c b where s: "s = (c, b)" by (cases s)
  show ?thesis
    using assms unfolding s
    by (cases op) (auto simp: buffered_records_def held_records_def enter_def enter_locked_def recover_def
        recover_locked_def record_last_good_policy_def buffer_evidence_def hold_decision_def
        drain_buffered_evidence_def drain_held_decisions_def Let_def split: if_splits sum.splits)
qed

text \<open>
  Nothing is lost and nothing is delivered twice: over any sequence of operations the evidence
  records handed out by the drains, followed by those still buffered, are exactly the records buffered,
  in order; the same holds for held decisions, also across recoveries and failed buffer writes.
\<close>

theorem buffers_are_fifo:
  assumes "deg_run s ops = (s', ev, dec)"
  shows "ev @ buffered (fst s') = buffered (fst s) @ buffered_records ops \<and>
         dec @ held (fst s') = held (fst s) @ held_records ops"
  using assms
proof (induction ops arbitrary: s ev dec)
  case Nil
  then show ?case by (auto simp: buffered_records_def held_records_def)
next
  case (Cons op ops)
  obtain s1 e1 h1 where step: "deg_step s op = (s1, e1, h1)" by (cases "deg_step s op") auto
  obtain e2 h2 where rest: "deg_run s1 ops = (s', e2, h2)" "ev = e1 @ e2" "dec = h1 @ h2"
    using Cons.prems step by (auto simp: Let_def split: prod.splits)
  have "buffered_records (op # ops) = buffered_records [op] @ buffered_records ops"
    "held_records (op # ops) = held_records [op] @ held_records ops"
    by (simp_all add: buffered_records_def held_records_def)
  then show ?case using deg_step_fifo [OF step] Cons.IH [OF rest(1)] rest(2,3)
    by (metis append.assoc)
qed

text \<open>
  One recovery hides another failure: the controller keeps one failure mode only, so after the SMO
  and then the evidence store fail, the recovery of either makes the rApp report ready and clears the
  alarm while the other failure persists.
\<close>

theorem recovery_hides_failure:
  "is_serving (fst (recover reason i3 t3 (enter m2 r2 i2 t2 (enter m1 r1 i1 t1 s)))) \<and>
   map_of (active (snd (recover reason i3 t3 (enter m2 r2 i2 t2 (enter m1 r1 i1 t1 s))))) degraded_key = None"
proof -
  have state: "dstate (fst (enter m2 r2 i2 t2 s')) = FAILURE_TO_STATE m2" for s'
    by (cases s') (auto simp: enter_def enter_locked_def Let_def)
  have ne: "FAILURE_TO_STATE m2 \<noteq> NORMAL" by (cases m2) simp_all
  obtain c b where s: "enter m2 r2 i2 t2 (enter m1 r1 i1 t1 s) = (c, b)" by fastforce
  have "dstate c \<noteq> NORMAL" using state [of "enter m1 r1 i1 t1 s"] ne s by simp
  then show ?thesis using send_recovered unfolding s
    by (simp add: recover_def recover_locked_def is_serving_def)
qed

text \<open>
  Alarms can be emitted in the wrong order: they are sent after the lock is released, so when a
  recovery of another thread comes between the locked section of \<open>enter\<close> and its emission, the
  controller ends up serving with the degradation alarm active, and nothing clears it.
\<close>

theorem alarm_race:
  assumes "dstate c = NORMAL"
  shows "is_serving (fst (recover_locked r2 (fst (enter_locked m r1 t1 c)))) \<and>
         map_of (active (send (snd (enter_locked m r1 t1 c)) i1 t1
           (send (snd (recover_locked r2 (fst (enter_locked m r1 t1 c)))) i2 t2 b))) degraded_key \<noteq> None"
proof -
  have ne: "FAILURE_TO_STATE m \<noteq> NORMAL" by (cases m) simp_all
  then show ?thesis
    using assms ne [symmetric] send_entered
    by (simp add: enter_locked_def recover_locked_def Let_def is_serving_def)
qed

section \<open>Witnesses\<close>

theorem degraded_iff_alarm_witness:
  "\<exists>b. fst (deg_run (controller_new, bus_new)
      [Enter SMO_UNREACHABLE [] [] 1, Hold VNone, Recover [] [] 2]) = (controller_new\<lparr>held := [VNone]\<rparr>, b) \<and>
    map_of (active b) degraded_key = None"
proof -
  let ?ops = "[Enter SMO_UNREACHABLE [] [] 1, Hold VNone, Recover [] [] 2]"
  obtain c b where run: "fst (deg_run (controller_new, bus_new) ?ops) = (c, b)" by fastforce
  then have c: "c = controller_new\<lparr>held := [VNone]\<rparr>"
    by (simp add: enter_def enter_locked_def recover_def recover_locked_def hold_decision_def controller_new_def)
  have "\<forall>op \<in> set ?ops. \<not> foreign op" by (simp add: foreign_def)
  from degraded_iff_alarm [OF this run] show ?thesis
    using run c by (simp add: is_serving_def controller_new_def)
qed

theorem buffers_are_fifo_witness:
  "fst (snd (deg_run (controller_new, bus_new)
      [Buffer (VInt 1) (Inr []), Buffer (VInt 2) (Inl TypeError), DrainBuffered])) = [VInt 1, VInt 2]"
proof -
  let ?ops = "[Buffer (VInt 1) (Inr []), Buffer (VInt 2) (Inl TypeError), DrainBuffered]"
  obtain s' ev dec where run: "deg_run (controller_new, bus_new) ?ops = (s', ev, dec)"
    by (metis prod.exhaust)
  then have "buffered (fst s') = []"
    by (auto simp: buffer_evidence_def drain_buffered_evidence_def controller_new_def)
  then show ?thesis using buffers_are_fifo [OF run] run
    by (simp add: buffered_records_def controller_new_def)
qed

theorem alarm_race_witness:
  "is_serving (fst (recover_locked [] (fst (enter_locked SMO_UNREACHABLE [] 0 controller_new))))"
  using alarm_race [of controller_new] by (simp add: controller_new_def)

end
