(* ===== verification/Monitor.thy ===== *)
theory Monitor
  imports PyValue
begin

text \<open>
  Runtime monitoring: the liveness and readiness verdicts of \<open>runtime/liveness.py\<close> and the shadow
  executor that validates a candidate model (\<open>runtime/shadow_executor.py\<close>). Clock readings are real
  seconds; the verdicts' \<open>details\<close>, which only go into the response body, are left out. Providers and
  predictors are functions that may raise.
\<close>

section \<open>Liveness\<close>

text \<open>The type \<open>'w\<close> is the world the readiness providers look at.\<close>

record 'w liveness =
  watchdog_max_age :: real
  loop_lag_max :: real
  loop_probe_period :: real
  planner_max_silence :: real
  last_watchdog_tick :: real
  last_planner_heartbeat :: real
  loop_lag :: real
  planner_seen :: bool
  connector_state_provider :: "('w \<Rightarrow> string res) option"
  evidence_writable_probe :: "('w \<Rightarrow> bool res) option"
  r1_registered_provider :: "('w \<Rightarrow> bool res) option"

definition liveness_new :: "real \<Rightarrow> real \<Rightarrow> real \<Rightarrow> real \<Rightarrow> int \<Rightarrow> real \<Rightarrow> 'w liveness" where
  "liveness_new max_age lag_max period sla max_missed now =
     \<lparr>watchdog_max_age = max_age, loop_lag_max = lag_max, loop_probe_period = period,
      planner_max_silence = sla * of_int max_missed, last_watchdog_tick = now, last_planner_heartbeat = now,
      loop_lag = 0, planner_seen = False, connector_state_provider = None, evidence_writable_probe = None,
      r1_registered_provider = None\<rparr>"

definition liveness_default :: "real \<Rightarrow> 'w liveness" where
  "liveness_default now = liveness_new 30 (1 / 10) 1 5 3 now"

definition mark_watchdog_tick :: "real \<Rightarrow> 'w liveness \<Rightarrow> 'w liveness" where
  "mark_watchdog_tick now l = l\<lparr>last_watchdog_tick := now\<rparr>"

definition mark_planner_heartbeat :: "real \<Rightarrow> 'w liveness \<Rightarrow> 'w liveness" where
  "mark_planner_heartbeat now l = l\<lparr>last_planner_heartbeat := now, planner_seen := True\<rparr>"

definition record_loop_lag :: "real \<Rightarrow> 'w liveness \<Rightarrow> 'w liveness" where
  "record_loop_lag lag l = l\<lparr>loop_lag := max 0 lag\<rparr>"

text \<open>One round of the background probe, between its two clock readings.\<close>

definition loop_lag_probe :: "real \<Rightarrow> real \<Rightarrow> 'w liveness \<Rightarrow> 'w liveness" where
  "loop_lag_probe t0 t1 l = record_loop_lag (max 0 (t1 - t0 - loop_probe_period l)) l"

definition evaluate :: "real \<Rightarrow> 'w liveness \<Rightarrow> string list" where
  "evaluate now l =
     (if now - last_watchdog_tick l > watchdog_max_age l then [''watchdog_stale''] else []) @
     (if loop_lag l > loop_lag_max l then [''loop_lag_high''] else []) @
     (if planner_seen l \<and> now - last_planner_heartbeat l > planner_max_silence l then [''planner_stalled''] else [])"

text \<open>A provider that raises an exception counts as failed; one that is not set is not asked.\<close>

definition evaluate_readiness :: "real \<Rightarrow> 'w \<Rightarrow> 'w liveness \<Rightarrow> string list" where
  "evaluate_readiness now w l =
     evaluate now l @
     (case connector_state_provider l of None \<Rightarrow> []
      | Some f \<Rightarrow> (case f w of Inl _ \<Rightarrow> [''connector_not_running'']
                 | Inr s \<Rightarrow> if s \<noteq> ''RUNNING'' then [''connector_not_running''] else [])) @
     (case evidence_writable_probe l of None \<Rightarrow> []
      | Some f \<Rightarrow> (case f w of Inl _ \<Rightarrow> [''evidence_not_writable'']
                 | Inr b \<Rightarrow> if \<not> b then [''evidence_not_writable''] else [])) @
     (case r1_registered_provider l of None \<Rightarrow> []
      | Some f \<Rightarrow> (case f w of Inl _ \<Rightarrow> [''r1_not_registered'']
                 | Inr b \<Rightarrow> if \<not> b then [''r1_not_registered''] else []))"

datatype liveness_op = Tick real | Heartbeat real | Lag real | Probe real real

fun liveness_step :: "'w liveness \<Rightarrow> liveness_op \<Rightarrow> 'w liveness" where
  "liveness_step l (Tick t) = mark_watchdog_tick t l"
| "liveness_step l (Heartbeat t) = mark_planner_heartbeat t l"
| "liveness_step l (Lag d) = record_loop_lag d l"
| "liveness_step l (Probe t0 t1) = loop_lag_probe t0 t1 l"

definition last_of :: "(liveness_op \<Rightarrow> real option) \<Rightarrow> liveness_op list \<Rightarrow> real option" where
  "last_of f ops = (let ts = List.map_filter f ops in if ts = [] then None else Some (last ts))"

definition tick_time :: "liveness_op \<Rightarrow> real option" where
  "tick_time op = (case op of Tick t \<Rightarrow> Some t | _ \<Rightarrow> None)"

definition heartbeat_time :: "liveness_op \<Rightarrow> real option" where
  "heartbeat_time op = (case op of Heartbeat t \<Rightarrow> Some t | _ \<Rightarrow> None)"

lemma last_of_snoc: "last_of f (ops @ [op]) = (case f op of None \<Rightarrow> last_of f ops | Some t \<Rightarrow> Some t)"
  by (simp add: last_of_def map_filter_def Let_def split: option.split)

lemmas liveness_defs = mark_watchdog_tick_def mark_planner_heartbeat_def record_loop_lag_def loop_lag_probe_def

text \<open>The fields the verdict reads, after any operations, are functions of the operations.\<close>

lemma liveness_fields:
  "last_watchdog_tick (run liveness_step l ops) =
     (case last_of tick_time ops of None \<Rightarrow> last_watchdog_tick l | Some t \<Rightarrow> t) \<and>
   last_planner_heartbeat (run liveness_step l ops) =
     (case last_of heartbeat_time ops of None \<Rightarrow> last_planner_heartbeat l | Some t \<Rightarrow> t) \<and>
   planner_seen (run liveness_step l ops) = (planner_seen l \<or> last_of heartbeat_time ops \<noteq> None) \<and>
   watchdog_max_age (run liveness_step l ops) = watchdog_max_age l \<and>
   planner_max_silence (run liveness_step l ops) = planner_max_silence l"
proof (induction ops rule: rev_induct)
  case Nil
  show ?case by (simp add: last_of_def map_filter_def)
next
  case (snoc op ops)
  then show ?case
    by (cases op) (auto simp: run_append last_of_snoc tick_time_def heartbeat_time_def liveness_defs)
qed

definition live_after :: "real \<Rightarrow> real \<Rightarrow> int \<Rightarrow> real \<Rightarrow> liveness_op list \<Rightarrow> unit liveness" where
  "live_after max_age sla missed boot ops = run liveness_step (liveness_new max_age (1 / 10) 1 sla missed boot) ops"

text \<open>
  The health verdict is right: after any producer activity since boot, the watchdog is reported
  stale exactly when its latest tick (or the boot) is too old, and the planner is reported stalled
  exactly when it has given a heartbeat and the latest is too old.
\<close>

theorem liveness_verdict:
  "(''watchdog_stale'' \<in> set (evaluate now (live_after max_age sla missed boot ops)) \<longleftrightarrow>
      now - (case last_of tick_time ops of None \<Rightarrow> boot | Some t \<Rightarrow> t) > max_age) \<and>
   (''planner_stalled'' \<in> set (evaluate now (live_after max_age sla missed boot ops)) \<longleftrightarrow>
      (case last_of heartbeat_time ops of None \<Rightarrow> False | Some t \<Rightarrow> now - t > sla * of_int missed))"
  using liveness_fields [of "liveness_new max_age (1 / 10) 1 sla missed boot" ops]
  by (auto simp: live_after_def evaluate_def liveness_new_def split: option.splits)

text \<open>
  Readiness fails closed: the rApp is ready exactly when it is healthy and every provider that is
  set answers positively; a provider that raises makes it not ready.
\<close>

theorem readiness_verdict:
  "evaluate_readiness now w l = [] \<longleftrightarrow>
     evaluate now l = [] \<and>
     pred_option (\<lambda>f. f w = Inr ''RUNNING'') (connector_state_provider l) \<and>
     pred_option (\<lambda>f. f w = Inr True) (evidence_writable_probe l) \<and>
     pred_option (\<lambda>f. f w = Inr True) (r1_registered_provider l)"
  by (auto simp: evaluate_readiness_def split: option.splits sum.splits)

section \<open>The shadow executor\<close>

record shadow_decision =
  sh_time :: real
  active_pred :: pyfloat
  candidate_pred :: pyfloat
  divergence_score :: pyfloat
  actual_outcome :: "pyfloat option"

record shadow =
  min_samples :: int
  divergence_warn :: pyfloat
  divergence_reject :: pyfloat
  shadow_log :: "shadow_decision list"

text \<open>\<open>statistics.mean\<close> rounds the exact mean once; a non-finite datum makes the mean non-finite.\<close>

fun nonfinite_sum :: "pyfloat list \<Rightarrow> pyfloat option" where
  "nonfinite_sum [] = None"
| "nonfinite_sum (Fin _ # xs) = nonfinite_sum xs"
| "nonfinite_sum (x # xs) =
     (case nonfinite_sum xs of None \<Rightarrow> Some x | Some y \<Rightarrow> Some (if x = y then x else NaN))"

definition stat_mean :: "platform \<Rightarrow> pyfloat list \<Rightarrow> pyfloat res" where
  "stat_mean pl xs =
     (if xs = [] then Inl (OtherExn ''StatisticsError'')
      else case nonfinite_sum xs of
        Some y \<Rightarrow> Inr y
      | None \<Rightarrow> let m = rnd pl (sum_list (map fin_val xs) / real (length xs))
                in if isfinite m then Inr m else Inl OverflowError)"

text \<open>A list item by a Python index: negative ones count from the end.\<close>

definition py_index :: "int \<Rightarrow> int \<Rightarrow> nat res" where
  "py_index n i =
     (if 0 \<le> i \<and> i < n then Inr (nat i) else if - n \<le> i \<and> i < 0 then Inr (nat (i + n)) else Inl IndexError)"

definition bin_of :: "platform \<Rightarrow> int \<Rightarrow> pyfloat \<Rightarrow> nat res" where
  "bin_of pl n p =
     bindE (py_int pl (VFloat (fmul pl p (Fin (of_int n))))) (\<lambda>i. py_index n (min i (n - 1)))"

fun fill_bins :: "platform \<Rightarrow> int \<Rightarrow> (pyfloat \<times> pyfloat) list \<Rightarrow> (pyfloat \<times> pyfloat) list list \<Rightarrow>
    (pyfloat \<times> pyfloat) list list res" where
  "fill_bins pl n [] bins = Inr bins"
| "fill_bins pl n ((p, o') # ps) bins =
     bindE (bin_of pl n p) (\<lambda>i. fill_bins pl n ps (bins[i := bins ! i @ [(p, o')]]))"

fun ece_sum :: "platform \<Rightarrow> nat \<Rightarrow> pyfloat \<Rightarrow> (pyfloat \<times> pyfloat) list list \<Rightarrow> pyfloat res" where
  "ece_sum pl tot acc [] = Inr acc"
| "ece_sum pl tot acc (b # bs) =
     (if b = [] then ece_sum pl tot acc bs
      else bindE (stat_mean pl (map fst b)) (\<lambda>mp.
           bindE (stat_mean pl (map snd b)) (\<lambda>mo.
           ece_sum pl tot
             (fadd pl acc (fmul pl (rnd pl (real (length b) / real tot)) (fabs (fsub pl mp mo)))) bs)))"

definition ece :: "platform \<Rightarrow> int \<Rightarrow> pyfloat list \<Rightarrow> pyfloat list \<Rightarrow> pyfloat res" where
  "ece pl n preds outcomes =
     (if preds = [] then Inr (Fin 0)
      else bindE (fill_bins pl n (zip preds outcomes) (replicate (nat n) [])) (\<lambda>bins.
           ece_sum pl (length preds) (Fin 0) bins))"

text \<open>\<open>step\<close>: the models may raise, and then nothing is logged; a failing sink does not matter.\<close>

definition shadow_step ::
  "platform \<Rightarrow> ('x \<Rightarrow> pyval res) \<Rightarrow> ('x \<Rightarrow> pyval res) \<Rightarrow> 'x \<Rightarrow> real \<Rightarrow> shadow \<Rightarrow> (shadow \<times> shadow_decision) res" where
  "shadow_step pl act cand x now sh =
     bindE (bindE (act x) (py_float pl)) (\<lambda>a.
     bindE (bindE (cand x) (py_float pl)) (\<lambda>c.
       let d = \<lparr>sh_time = now, active_pred = a, candidate_pred = c, divergence_score = fabs (fsub pl a c),
                actual_outcome = None\<rparr>
       in Inr (sh\<lparr>shadow_log := shadow_log sh @ [d]\<rparr>, d)))"

fun histogram_loop :: "platform \<Rightarrow> int \<Rightarrow> shadow_decision list \<Rightarrow> nat list \<Rightarrow> nat list res" where
  "histogram_loop pl n [] h = Inr h"
| "histogram_loop pl n (e # es) h =
     bindE (bin_of pl n (divergence_score e)) (\<lambda>i. histogram_loop pl n es (h[i := h ! i + 1]))"

definition divergence_histogram :: "platform \<Rightarrow> int \<Rightarrow> shadow \<Rightarrow> nat list res" where
  "divergence_histogram pl n sh = histogram_loop pl n (shadow_log sh) (replicate (nat n) 0)"

text \<open>The outcomes are converted one by one; an exception keeps the annotations made so far.\<close>

fun annotate_loop :: "platform \<Rightarrow> pyval list \<Rightarrow> shadow_decision list \<Rightarrow> shadow_decision list \<times> bool res" where
  "annotate_loop pl (v # vs) (e # es) =
     (case py_float pl v of
        Inl x \<Rightarrow> (e # es, Inl x)
      | Inr f \<Rightarrow> (case annotate_loop pl vs es of (es', r) \<Rightarrow> (e\<lparr>actual_outcome := Some f\<rparr> # es', r)))"
| "annotate_loop pl _ es = (es, Inr True)"

definition annotate_outcomes :: "platform \<Rightarrow> pyval list \<Rightarrow> shadow \<Rightarrow> shadow \<times> bool res" where
  "annotate_outcomes pl vs sh =
     (case annotate_loop pl vs (shadow_log sh) of (l, r) \<Rightarrow> (sh\<lparr>shadow_log := l\<rparr>, r))"

definition ece_delta :: "platform \<Rightarrow> shadow \<Rightarrow> pyfloat option res" where
  "ece_delta pl sh =
     (let es = filter (\<lambda>e. actual_outcome e \<noteq> None) (shadow_log sh);
          outs = map (\<lambda>e. the (actual_outcome e)) es
      in if es = [] then Inr None
         else bindE (ece pl 10 (map candidate_pred es) outs) (\<lambda>c.
              bindE (ece pl 10 (map active_pred es) outs) (\<lambda>a. Inr (Some (fsub pl c a)))))"

datatype verdict = PROMOTE | REJECT | INSUFFICIENT_DATA

definition recommendation :: "platform \<Rightarrow> shadow \<Rightarrow> verdict res" where
  "recommendation pl sh =
     (if int (length (shadow_log sh)) < min_samples sh then Inr INSUFFICIENT_DATA
      else bindE (stat_mean pl (map divergence_score (shadow_log sh))) (\<lambda>mean_div.
        if divergence_reject sh \<le> mean_div then Inr REJECT
        else bindE (ece_delta pl sh) (\<lambda>ed.
          if (case ed of None \<Rightarrow> False | Some d \<Rightarrow> rnd pl (5 / 100) < d) then Inr REJECT
          else if mean_div < divergence_warn sh then Inr PROMOTE
          else Inr REJECT)))"

lemma nonfinite_NaN: "NaN \<in> set xs \<Longrightarrow> nonfinite_sum xs = Some NaN"
proof (induction xs)
  case (Cons x xs)
  then show ?case by (cases x) (auto split: option.split)
qed simp

lemma nonfinite_finite: "nonfinite_sum (map Fin rs) = None"
  by (induction rs) simp_all

lemma stat_mean_exact:
  "exact pl \<Longrightarrow> rs \<noteq> [] \<Longrightarrow> stat_mean pl (map Fin rs) = Inr (Fin (sum_list rs / real (length rs)))"
  by (simp add: stat_mean_def nonfinite_finite Let_def comp_def)

text \<open>What a promotion needs, unfolded once.\<close>

lemma promote_steps:
  assumes "recommendation pl sh = Inr PROMOTE"
  shows "min_samples sh \<le> int (length (shadow_log sh)) \<and>
         (\<exists>m. stat_mean pl (map divergence_score (shadow_log sh)) = Inr m \<and>
              m < divergence_warn sh \<and> \<not> divergence_reject sh \<le> m)"
  using assms by (auto simp: recommendation_def bindE_eq_Inr split: if_splits)

text \<open>
  A candidate that once gave a NaN divergence is never promoted.
\<close>

theorem nan_never_promotes:
  assumes "e \<in> set (shadow_log sh)" and "divergence_score e = NaN"
  shows "recommendation pl sh \<noteq> Inr PROMOTE"
proof
  assume "recommendation pl sh = Inr PROMOTE"
  then obtain m where m: "stat_mean pl (map divergence_score (shadow_log sh)) = Inr m" "m < divergence_warn sh"
    using promote_steps by blast
  have "NaN \<in> set (map divergence_score (shadow_log sh))" using assms by force
  from nonfinite_NaN [OF this] m(1) have "m = NaN" by (simp add: stat_mean_def split: if_splits)
  with m(2) show False by simp
qed

text \<open>Shadow steps on a list of states with their times.\<close>

fun shadow_run :: "platform \<Rightarrow> ('x \<Rightarrow> pyval res) \<Rightarrow> ('x \<Rightarrow> pyval res) \<Rightarrow> ('x \<times> real) list \<Rightarrow> shadow \<Rightarrow> shadow res" where
  "shadow_run pl act cand [] sh = Inr sh"
| "shadow_run pl act cand ((x, now) # xs) sh =
     bindE (shadow_step pl act cand x now sh) (\<lambda>(sh', _). shadow_run pl act cand xs sh')"

lemma shadow_run_log:
  assumes ex: "exact pl"
  shows "\<forall>(x, _) \<in> set xs. act x = Inr (VFloat (Fin (a x))) \<and> cand x = Inr (VFloat (Fin (c x))) \<Longrightarrow>
    \<exists>sh'. shadow_run pl act cand xs sh = Inr sh' \<and> min_samples sh' = min_samples sh \<and>
      divergence_warn sh' = divergence_warn sh \<and> divergence_reject sh' = divergence_reject sh \<and>
      map divergence_score (shadow_log sh') =
        map divergence_score (shadow_log sh) @ map (\<lambda>(x, _). Fin \<bar>a x - c x\<bar>) xs"
proof (induction xs arbitrary: sh)
  case (Cons xt xs)
  obtain x t where xt: "xt = (x, t)" by (cases xt)
  let ?d = "\<lparr>sh_time = t, active_pred = Fin (a x), candidate_pred = Fin (c x),
             divergence_score = Fin \<bar>a x - c x\<bar>, actual_outcome = None\<rparr>"
  have step: "shadow_step pl act cand x t sh = Inr (sh\<lparr>shadow_log := shadow_log sh @ [?d]\<rparr>, ?d)"
    using Cons.prems ex by (simp add: xt shadow_step_def fsub_def Let_def)
  from Cons.IH [of "sh\<lparr>shadow_log := shadow_log sh @ [?d]\<rparr>"] Cons.prems show ?case
    by (simp add: xt step)
qed simp

text \<open>
  Promotion needs evidence: a fresh executor recommends the candidate only after at least
  \<open>min_samples\<close> states, and only when the candidate differs from the active model by less than the
  warning threshold on average over exactly the states seen.
\<close>

theorem promotion_needs_evidence:
  assumes "exact pl" and "xs \<noteq> []"
    and "\<forall>(x, _) \<in> set xs. act x = Inr (VFloat (Fin (a x))) \<and> cand x = Inr (VFloat (Fin (c x)))"
    and "shadow_run pl act cand xs \<lparr>min_samples = k, divergence_warn = Fin w, divergence_reject = rej, shadow_log = []\<rparr>
           = Inr sh"
    and "recommendation pl sh = Inr PROMOTE"
  shows "k \<le> int (length xs) \<and> (\<Sum>(x, _)\<leftarrow>xs. \<bar>a x - c x\<bar>) / real (length xs) < w"
proof -
  let ?ds = "map (\<lambda>(x, _). \<bar>a x - c x\<bar>) xs"
  from shadow_run_log [OF assms(1,3), where sh = "\<lparr>min_samples = k, divergence_warn = Fin w, divergence_reject = rej, shadow_log = []\<rparr>"]
    assms(4) have sh: "min_samples sh = k" "divergence_warn sh = Fin w"
    "map divergence_score (shadow_log sh) = map Fin ?ds" by (auto simp: case_prod_beta comp_def)
  have len: "length (shadow_log sh) = length xs" using arg_cong [OF sh(3), of length] by simp
  from promote_steps [OF assms(5)] obtain m where
    m: "stat_mean pl (map Fin ?ds) = Inr m" "m < Fin w" "k \<le> int (length xs)"
    unfolding sh len by blast
  have "m = Fin (sum_list ?ds / real (length xs))"
    using stat_mean_exact [OF assms(1), of ?ds] assms(2) m(1) by simp
  then show ?thesis using m(2,3) by simp
qed

lemma bin_of_unit:
  assumes "exact pl" "0 < n" "0 \<le> r"
  shows "\<exists>i. bin_of pl n (Fin r) = Inr i \<and> i < nat n"
proof -
  have "0 \<le> trunc (r * of_int n)" using assms by (simp add: trunc_def)
  then show ?thesis using assms by (simp add: bin_of_def py_index_def)
qed

lemma sum_list_incr: "i < length h \<Longrightarrow> sum_list (h[i := h ! i + 1]) = sum_list h + (1 :: nat)"
  by (simp add: sum_list_update)

text \<open>
  The divergence histogram counts every logged step exactly once.
\<close>

theorem histogram_counts:
  assumes "exact pl" and "0 < n" and "\<forall>e \<in> set (shadow_log sh). \<exists>r \<ge> 0. divergence_score e = Fin r"
  shows "\<exists>h. divergence_histogram pl n sh = Inr h \<and> length h = nat n \<and> sum_list h = length (shadow_log sh)"
proof -
  have "\<forall>e \<in> set es. \<exists>r \<ge> 0. divergence_score e = Fin r \<Longrightarrow> length h = nat n \<Longrightarrow>
    \<exists>h'. histogram_loop pl n es h = Inr h' \<and> length h' = nat n \<and> sum_list h' = sum_list h + length es" for es h
  proof (induction es arbitrary: h)
    case (Cons e es)
    then obtain r where r: "0 \<le> r" "divergence_score e = Fin r" by auto
    obtain i where i: "bin_of pl n (Fin r) = Inr i" "i < nat n" using bin_of_unit [OF assms(1,2) r(1)] by blast
    from Cons.IH [of "h[i := h ! i + 1]"] Cons.prems show ?case
      by (simp add: r i sum_list_incr [simplified])
  qed simp
  from this [OF assms(3), of "replicate (nat n) 0"] show ?thesis
    by (simp add: divergence_histogram_def sum_list_replicate)
qed

text \<open>
  A NaN outcome switches the calibration gate off: the comparison of a NaN calibration delta with
  the limit is false, so the candidate is promoted on the divergence alone.
\<close>

theorem nan_outcome_promotes:
  assumes "0 \<le> c" and "c < 1 / 10"
  shows "recommendation exact_platform
     \<lparr>min_samples = 1, divergence_warn = Fin (1 / 10), divergence_reject = Fin (3 / 10),
      shadow_log = [\<lparr>sh_time = t, active_pred = Fin 0, candidate_pred = Fin c, divergence_score = Fin c,
                     actual_outcome = Some NaN\<rparr>]\<rparr> = Inr PROMOTE"
proof -
  have "ece exact_platform 10 [Fin x] [NaN] = Inr NaN" if "0 \<le> x" "x < 1 / 10" for x
  proof -
    have "trunc (x * 10) = 0" using that by (simp add: trunc_def floor_eq_iff)
    then show ?thesis
      by (simp add: ece_def bin_of_def py_index_def stat_mean_def fsub_def numeral_eq_Suc)
  qed
  from this [of 0] this [of c] assms show ?thesis
    by (simp add: recommendation_def ece_delta_def stat_mean_def fsub_def Let_def)
qed

section \<open>Witnesses\<close>

definition demo_decision :: "pyfloat \<Rightarrow> shadow_decision" where
  "demo_decision d =
     \<lparr>sh_time = 0, active_pred = Fin 0, candidate_pred = d, divergence_score = d, actual_outcome = None\<rparr>"

definition demo_shadow :: "shadow_decision list \<Rightarrow> shadow" where
  "demo_shadow l =
     \<lparr>min_samples = 2, divergence_warn = Fin (1 / 10), divergence_reject = Fin (3 / 10), shadow_log = l\<rparr>"

theorem nan_never_promotes_witness:
  "recommendation exact_platform (demo_shadow [demo_decision (Fin 0), demo_decision NaN]) \<noteq> Inr PROMOTE"
  by (rule nan_never_promotes [of "demo_decision NaN"]) (simp_all add: demo_shadow_def demo_decision_def)

theorem histogram_counts_witness:
  "\<exists>h. divergence_histogram exact_platform 10 (demo_shadow [demo_decision (Fin 0), demo_decision (Fin 1)]) = Inr h \<and>
       sum_list h = 2"
  using histogram_counts [OF exact_exact_platform, of 10 "demo_shadow [demo_decision (Fin 0), demo_decision (Fin 1)]"]
  by (auto simp: demo_shadow_def demo_decision_def)

theorem nan_outcome_promotes_witness:
  "recommendation exact_platform
     \<lparr>min_samples = 1, divergence_warn = Fin (1 / 10), divergence_reject = Fin (3 / 10),
      shadow_log = [\<lparr>sh_time = 0, active_pred = Fin 0, candidate_pred = Fin (1 / 20),
                     divergence_score = Fin (1 / 20), actual_outcome = Some NaN\<rparr>]\<rparr> = Inr PROMOTE"
  by (rule nan_outcome_promotes) simp_all

theorem promotion_needs_evidence_witness:
  "\<exists>sh. shadow_run exact_platform (\<lambda>x. Inr (VFloat (Fin x))) (\<lambda>x. Inr (VFloat (Fin (x + 1 / 20)))) [(0, 1), (1 / 2, 2)]
          (demo_shadow []) = Inr sh \<and> recommendation exact_platform sh = Inr PROMOTE \<and>
        (1 / 20 + 1 / 20) / real (length [0, 1 / 2 :: real]) < 1 / 10"
proof -
  let ?act = "\<lambda>x. Inr (VFloat (Fin x))"
  let ?cand = "\<lambda>x :: real. Inr (VFloat (Fin (x + 1 / 20)))"
  let ?xs = "[(0, 1), (1 / 2, 2)] :: (real \<times> real) list"
  have ok: "\<forall>(x, _) \<in> set ?xs. ?act x = Inr (VFloat (Fin x)) \<and> ?cand x = Inr (VFloat (Fin (x + 1 / 20)))" by simp
  from shadow_run_log [OF exact_exact_platform, of ?xs ?act "\<lambda>x. x" ?cand "\<lambda>x. x + 1 / 20" "demo_shadow []"] ok
  obtain sh where run: "shadow_run exact_platform ?act ?cand ?xs (demo_shadow []) = Inr sh" by auto
  then have sh: "sh = demo_shadow
      [\<lparr>sh_time = 1, active_pred = Fin 0, candidate_pred = Fin (1 / 20), divergence_score = Fin (1 / 20), actual_outcome = None\<rparr>,
       \<lparr>sh_time = 2, active_pred = Fin (1 / 2), candidate_pred = Fin (1 / 2 + 1 / 20), divergence_score = Fin (1 / 20), actual_outcome = None\<rparr>]"
    by (simp add: demo_shadow_def shadow_step_def fsub_def Let_def)
  have rec: "recommendation exact_platform sh = Inr PROMOTE"
    by (simp add: sh demo_shadow_def recommendation_def stat_mean_def ece_delta_def Let_def)
  from promotion_needs_evidence [OF exact_exact_platform _ ok run [unfolded demo_shadow_def] rec]
  show ?thesis using run rec by simp
qed

end
