(* ===== verification/Lifecycle.thy ===== *)
theory Lifecycle
  imports PipelineProps Access Storage Degradation Monitor
begin

text \<open>
  The life of the rApp (\<open>rapp/lifecycle.py\<close>): configuration from the environment, the R1 adapter
  (\<open>rapp/r1_adapter.py\<close>), boot, the main run with its checkpoints and watchdog pings
  (\<open>runtime/watchdog.py\<close>, \<open>rapp/sd_notify.py\<close>, the checkpointer of \<open>runtime/state_recovery.py\<close>), the
  drain at shutdown, and the verdicts of the probes (\<open>rapp/health.py\<close>). The HTTP clients, the notify
  socket and the clock are parameters; the servers, logs and gauges are left out.
\<close>

section \<open>Notifying the service manager\<close>

definition OSError :: py_exn where "OSError = OtherExn ''OSError''"

text \<open>The address in \<open>NOTIFY_SOCKET\<close>; a leading @ stands for the NUL of an abstract socket.\<close>

definition notify_address :: "string option \<Rightarrow> string option" where
  "notify_address sock_path =
     (case sock_path of
        None \<Rightarrow> None
      | Some [] \<Rightarrow> None
      | Some (c # cs) \<Rightarrow> Some (if c = CHR ''@'' then CHR 0x00 # cs else c # cs))"

text \<open>\<open>deliver\<close> tells whether creating the socket and sending the datagram succeed; otherwise they raise \<open>OSError\<close>.\<close>

definition send_notify :: "(string \<Rightarrow> string \<Rightarrow> bool) \<Rightarrow> string option \<Rightarrow> string \<Rightarrow> bool res" where
  "send_notify deliver sock_path message =
     (case notify_address sock_path of
        None \<Rightarrow> Inr False
      | Some a \<Rightarrow> if deliver a message then Inr True else Inl OSError)"

definition notify_with :: "string \<Rightarrow> (string \<Rightarrow> string \<Rightarrow> bool) \<Rightarrow> string option \<Rightarrow> bool" where
  "notify_with message deliver sock_path = (case send_notify deliver sock_path message of Inl e \<Rightarrow> False | Inr b \<Rightarrow> b)"

definition notify_watchdog :: "(string \<Rightarrow> string \<Rightarrow> bool) \<Rightarrow> string option \<Rightarrow> bool" where
  "notify_watchdog = notify_with ''WATCHDOG=1''"

definition notify_ready :: "(string \<Rightarrow> string \<Rightarrow> bool) \<Rightarrow> string option \<Rightarrow> bool" where
  "notify_ready = notify_with ''READY=1''"

definition notify_stopping :: "(string \<Rightarrow> string \<Rightarrow> bool) \<Rightarrow> string option \<Rightarrow> bool" where
  "notify_stopping = notify_with ''STOPPING=1''"

text \<open>The second implementation of the protocol, \<open>rapp/sd_notify.py\<close>.\<close>

definition sd_notify :: "(string \<Rightarrow> string \<Rightarrow> bool) \<Rightarrow> string option \<Rightarrow> string \<Rightarrow> bool" where
  "sd_notify deliver addr st =
     (if addr = None \<or> addr = Some [] then False
      else deliver (if starts_with ''@'' (the addr) then CHR 0x00 # tl (the addr) else the addr) st)"

definition watchdog_enabled :: "platform \<Rightarrow> string option \<Rightarrow> int" where
  "watchdog_enabled pl raw =
     (case py_int pl (VStr (case raw of None \<Rightarrow> [] | Some s \<Rightarrow> s)) of Inl e \<Rightarrow> 0 | Inr n \<Rightarrow> n)"

section \<open>The R1 adapter\<close>

record r1_config =
  r1_smo_base_url :: string
  r1_rapp_id :: string
  r1_rapp_version :: string
  r1_rapp_name :: string
  r1_rapp_description :: string
  r1_auth :: "auth_config option"
  r1_services_produced :: "string list"
  r1_services_consumed :: "string list"

definition r1_config_default :: r1_config where
  "r1_config_default =
     \<lparr>r1_smo_base_url = ''http://nonrtric:8080'', r1_rapp_id = ''horizon-ric-rapp'', r1_rapp_version = ''0.2.0'',
      r1_rapp_name = ''Horizon-RIC Security & Trust rApp'',
      r1_rapp_description = ''Decision Safety Shield + evidence/provenance trust layer for AI-RAN'', r1_auth = None,
      r1_services_produced = [''horizon.shield.dispose'', ''horizon.evidence.query'', ''horizon.provenance.verify'',
        ''horizon.policy.recommend'', ''horizon.policy.rollback''],
      r1_services_consumed = [''smo.dme.subscribe'', ''smo.aiml.model.pull'', ''smo.aiml.model.push'',
        ''smo.r1.service.discovery'']\<rparr>"

definition registration_payload :: "r1_config \<Rightarrow> pyval" where
  "registration_payload cfg =
     VDict [(''rapp_id'', VStr (r1_rapp_id cfg)), (''rapp_version'', VStr (r1_rapp_version cfg)),
       (''rapp_name'', VStr (r1_rapp_name cfg)), (''rapp_description'', VStr (r1_rapp_description cfg)),
       (''services_produced'', VList (map (\<lambda>svc. VDict [(''service_id'', VStr svc), (''version'', VStr (r1_rapp_version cfg))])
          (r1_services_produced cfg))),
       (''services_consumed'', VList (map (\<lambda>svc. VDict [(''service_id'', VStr svc)]) (r1_services_consumed cfg))),
       (''rapp_metadata'', VDict [(''vendor'', VStr ''Preceptual AI''), (''license'', VStr ''Apache-2.0''),
          (''spec_compliance'', VList [VStr ''O-RAN.WG2.R1AP-v06.00'', VStr ''O-RAN.WG2.R1GAP-v06.00'',
             VStr ''O-RAN.WG2.AIML-v04.00'', VStr ''3GPP TS 28.105''])])]"

definition r1_breaker_config :: breaker_config where
  "r1_breaker_config = \<lparr>cb_name = ''horizon.r1'', cb_fail_max = 5, cb_reset_timeout = 30\<rparr>"

text \<open>The client's two requests. A response has any status; the exceptions are those of the transport.\<close>

datatype r1_request = PostRegistration pyval | DeleteRegistration string

type_synonym 'w r1_http = "r1_request \<Rightarrow> 'w \<Rightarrow> 'w \<times> http_response outcome"

definition raise_for_status :: "http_response outcome \<Rightarrow> http_response outcome" where
  "raise_for_status out =
     (case out of
        Returned resp \<Rightarrow> if 200 \<le> resp_status resp \<and> resp_status resp < 300 then Returned resp
                         else Raised (HTTPStatusError (resp_status resp))
      | Raised e \<Rightarrow> Raised e)"

record ('b, 'w) r1 =
  r1_breaker :: 'b
  r1_world :: 'w
  r1_registered :: bool
  r1_events :: "(string \<times> info) list"

definition r1_new :: "r1_config \<Rightarrow> 'b \<Rightarrow> 'w \<Rightarrow> ('b, 'w) r1 res" where
  "r1_new cfg b0 w =
     bindE (case r1_auth cfg of None \<Rightarrow> Inr None | Some au \<Rightarrow> bindE (build_secure_async_client au) (\<lambda>c. Inr (Some c)))
       (\<lambda>client. Inr \<lparr>r1_breaker = b0, r1_world = w, r1_registered = False, r1_events = []\<rparr>)"

definition register_r1 ::
  "'b pybreaker \<Rightarrow> 'w r1_http \<Rightarrow> r1_config \<Rightarrow> real \<Rightarrow> real \<Rightarrow> ('b, 'w) r1 \<Rightarrow> ('b, 'w) r1 \<times> (a1_exn + pyval)" where
  "register_r1 pb http cfg t_begin t_end r =
     (case call_begin pb r1_breaker_config t_begin (r1_breaker r) of
        ((b1, ev1), Inl _) \<Rightarrow> (r\<lparr>r1_breaker := b1, r1_events := r1_events r @ ev1\<rparr>, Inl CircuitOpen)
      | ((b1, ev1), Inr _) \<Rightarrow>
          (case http (PostRegistration (registration_payload cfg)) (r1_world r) of
             (w, answer) \<Rightarrow>
               (let out = raise_for_status answer
                in case call_end pb r1_breaker_config t_end out b1 of
                     (b2, ev2) \<Rightarrow>
                       (let r' = r\<lparr>r1_breaker := b2, r1_world := w, r1_events := r1_events r @ ev1 @ ev2\<rparr>
                        in case out of
                             Raised e \<Rightarrow> (r', Inl (CallExn e))
                           | Returned resp \<Rightarrow>
                               (r'\<lparr>r1_registered := True\<rparr>,
                                case resp_json resp of Inl e \<Rightarrow> Inl (PyExn e) | Inr body \<Rightarrow> Inr body)))))"

definition deregister :: "'w r1_http \<Rightarrow> r1_config \<Rightarrow> ('b, 'w) r1 \<Rightarrow> ('b, 'w) r1 \<times> call_exn option" where
  "deregister http cfg r =
     (if \<not> r1_registered r then (r, None)
      else case http (DeleteRegistration (''/r1/registration/v1/registration/'' @ r1_rapp_id cfg)) (r1_world r) of
             (w, Returned resp) \<Rightarrow> (r\<lparr>r1_world := w, r1_registered := False\<rparr>, None)
           | (w, Raised e) \<Rightarrow> (r\<lparr>r1_world := w\<rparr>, if http_error e then None else Some e))"

section \<open>Configuration from the environment\<close>

type_synonym environ = "string \<rightharpoonup> string"

definition env_set :: "environ \<Rightarrow> string \<Rightarrow> string option" where
  "env_set environ name = (case environ name of None \<Rightarrow> None | Some v \<Rightarrow> if v = [] then None else Some v)"

definition env_get :: "environ \<Rightarrow> string \<Rightarrow> string \<Rightarrow> string" where
  "env_get environ name dflt = (case environ name of None \<Rightarrow> dflt | Some v \<Rightarrow> v)"

definition env_flag :: "environ \<Rightarrow> string \<Rightarrow> bool \<Rightarrow> bool" where
  "env_flag environ name dflt =
     (case env_set environ name of None \<Rightarrow> dflt | Some raw \<Rightarrow> py_lower (py_strip raw) \<notin> {''0'', ''false'', ''no''})"

definition first_set :: "string option list \<Rightarrow> string \<Rightarrow> string" where
  "first_set xs dflt = (case List.map_filter id xs of [] \<Rightarrow> dflt | x # _ \<Rightarrow> x)"

definition DEFAULT_WG11_CIPHERS :: "string list" where
  "DEFAULT_WG11_CIPHERS = [''TLS_AES_256_GCM_SHA384'', ''TLS_CHACHA20_POLY1305_SHA256'', ''TLS_AES_128_GCM_SHA256'']"

record rapp_config =
  rc_r1 :: r1_config
  rc_a1 :: a1_config
  rc_a1_base_url :: string
  rc_a1_timeout :: pyfloat
  rc_a1_auth :: "auth_config option"
  rc_health_host :: string
  rc_health_port :: int

text \<open>The OAuth2 triple and the mTLS pair, complete or not.\<close>

definition oauth_complete :: "environ \<Rightarrow> bool" where
  "oauth_complete environ \<longleftrightarrow>
     env_set environ ''HORIZON_A1_OAUTH_TOKEN_URL'' \<noteq> None \<and> env_set environ ''HORIZON_A1_OAUTH_CLIENT_ID'' \<noteq> None \<and>
     env_set environ ''HORIZON_A1_OAUTH_CLIENT_SECRET'' \<noteq> None"

definition mtls_complete :: "environ \<Rightarrow> bool" where
  "mtls_complete environ \<longleftrightarrow>
     env_set environ ''HORIZON_A1_CLIENT_CERT_PATH'' \<noteq> None \<and> env_set environ ''HORIZON_A1_CLIENT_KEY_PATH'' \<noteq> None"

definition a1_auth_from_env :: "environ \<Rightarrow> bool \<Rightarrow> bool \<Rightarrow> auth_config option" where
  "a1_auth_from_env environ vfy production =
     (let token = env_set environ ''A1_CLIENT_TOKEN''; oauth = oauth_complete environ; mtls = mtls_complete environ
      in if token \<noteq> None \<or> oauth \<or> mtls then
           Some \<lparr>client_cert_path = (if mtls then env_set environ ''HORIZON_A1_CLIENT_CERT_PATH'' else None),
                 client_key_path = (if mtls then env_set environ ''HORIZON_A1_CLIENT_KEY_PATH'' else None),
                 ca_bundle_path = env_set environ ''HORIZON_A1_CA_BUNDLE_PATH'', verify_tls = vfy,
                 token_url = (if oauth then env_set environ ''HORIZON_A1_OAUTH_TOKEN_URL'' else None),
                 client_id = (if oauth then env_set environ ''HORIZON_A1_OAUTH_CLIENT_ID'' else None),
                 client_secret = (if oauth then env_set environ ''HORIZON_A1_OAUTH_CLIENT_SECRET'' else None),
                 static_bearer_token = token, cipher_allowlist = DEFAULT_WG11_CIPHERS, production_mode = production\<rparr>
         else None)"

definition rapp_config_from_env :: "platform \<Rightarrow> environ \<Rightarrow> rapp_config res" where
  "rapp_config_from_env pl environ =
     (let r1 = r1_config_default\<lparr>r1_smo_base_url := env_get environ ''HORIZON_SMO_URL'' (r1_smo_base_url r1_config_default),
                                 r1_rapp_id := env_get environ ''HORIZON_RAPP_ID'' (r1_rapp_id r1_config_default)\<rparr>;
          vfy = env_flag environ ''HORIZON_A1_VERIFY_TLS'' True;
          production = env_flag environ ''HORIZON_PRODUCTION_MODE'' True;
          ric = env_set environ ''HORIZON_A1_RIC_ID'';
          d = a1_config_default
      in if production \<and> \<not> vfy then Inl ValueError
         else bindE (case env_set environ ''HORIZON_A1_TIMEOUT_S'' of
                       None \<Rightarrow> Inr (Fin 10) | Some s \<Rightarrow> py_float pl (VStr s)) (\<lambda>timeout.
           let a1 = \<lparr>a1_dialect = env_get environ ''HORIZON_A1_DIALECT'' (a1_dialect d), a1_rapp_id = r1_rapp_id r1,
                     policy_types = DEFAULT_POLICY_TYPES,
                     osc_ric_id = first_set [env_set environ ''HORIZON_A1_OSC_RIC_ID'', ric] (osc_ric_id d),
                     osc_service_id = first_set [env_set environ ''HORIZON_A1_SERVICE_ID''] (r1_rapp_id r1),
                     eiap_ric_id = first_set [env_set environ ''HORIZON_A1_EIAP_RIC_ID'', ric] (eiap_ric_id d),
                     mantaray_ric_id = first_set [env_set environ ''HORIZON_A1_MANTARAY_RIC_ID'', ric] (mantaray_ric_id d)\<rparr>
           in bindE (py_int pl (VStr (env_get environ ''HORIZON_HEALTH_PORT'' ''8081''))) (\<lambda>port.
                Inr \<lparr>rc_r1 = r1, rc_a1 = a1,
                     rc_a1_base_url = env_get environ ''HORIZON_NEAR_RT_RIC_URL'' ''http://nearrtric:10000'',
                     rc_a1_timeout = timeout, rc_a1_auth = a1_auth_from_env environ vfy production,
                     rc_health_host = env_get environ ''HORIZON_HEALTH_HOST'' ''0.0.0.0'', rc_health_port = port\<rparr>)))"

section \<open>The lifecycle\<close>

datatype rapp_state = INIT | REGISTERING | RUNNING | DEGRADED | DEREGISTERING | STOPPED

fun rapp_state_value :: "rapp_state \<Rightarrow> string" where
  "rapp_state_value INIT = ''init''"
| "rapp_state_value REGISTERING = ''registering''"
| "rapp_state_value RUNNING = ''running''"
| "rapp_state_value DEGRADED = ''degraded''"
| "rapp_state_value DEREGISTERING = ''deregistering''"
| "rapp_state_value STOPPED = ''stopped''"

text \<open>\<open>lc_tasks\<close> are the tracked planner tasks that have not ended.\<close>

record ('b, 'w, 'v, 's) lifecycle =
  lc_state :: rapp_state
  lc_r1 :: "('b, 'w) r1"
  lc_a1 :: "('b, 'v, 's) a1"
  lc_degradation :: controller
  lc_emitted :: int
  lc_last_decision :: pyval
  lc_chain_head :: pyval
  lc_liveness :: "('b, 'w) r1 liveness"
  lc_tasks :: "nat list"
  lc_drain :: bool
  lc_r1_closed :: bool
  lc_a1_closed :: bool

definition restore_from_disk ::
  "platform \<Rightarrow> (string \<times> pyval) list option \<Rightarrow> ('b, 'w, 'v, 's) lifecycle \<Rightarrow> ('b, 'w, 'v, 's) lifecycle res" where
  "restore_from_disk pl prior lc =
     (case prior of
        None \<Rightarrow> Inr lc
      | Some d \<Rightarrow>
          bindE (py_int pl (case map_of d ''a1_emitted_count'' of None \<Rightarrow> VInt 0 | Some v \<Rightarrow> v)) (\<lambda>n.
            Inr (lc\<lparr>lc_emitted := n,
                    lc_last_decision := (case map_of d ''last_decision_id'' of None \<Rightarrow> VNone | Some v \<Rightarrow> v),
                    lc_chain_head := (case map_of d ''evidence_chain_head'' of None \<Rightarrow> VNone | Some v \<Rightarrow> v)\<rparr>)))"

text \<open>The constructor: both adapters, fresh services, and what the checkpoint on disk holds.\<close>

definition lifecycle_new ::
  "platform \<Rightarrow> r1_config \<Rightarrow> a1_config \<Rightarrow> auth_config option \<Rightarrow> 'b \<Rightarrow> 'b \<Rightarrow> 'w \<Rightarrow> 'v \<Rightarrow> 's \<Rightarrow> real \<Rightarrow>
   (string \<times> pyval) list option \<Rightarrow> ('b, 'w, 'v, 's) lifecycle res" where
  "lifecycle_new pl r1_cfg a1_cfg a1_auth b1 b2 w v st now prior =
     bindE (r1_new r1_cfg b1 w) (\<lambda>r.
     bindE (case a1_auth of None \<Rightarrow> Inr None | Some au \<Rightarrow> bindE (build_secure_async_client au) (\<lambda>c. Inr (Some c))) (\<lambda>client.
     bindE (a1_new a1_cfg b2 v st) (\<lambda>a.
       restore_from_disk pl prior
         \<lparr>lc_state = INIT, lc_r1 = r, lc_a1 = a, lc_degradation = controller_new, lc_emitted = 0, lc_last_decision = VNone,
          lc_chain_head = VNone, lc_liveness = liveness_default now, lc_tasks = [], lc_drain = False,
          lc_r1_closed = False, lc_a1_closed = False\<rparr>)))"

definition snapshot_value :: "snapshot \<Rightarrow> pyval" where
  "snapshot_value s =
     VDict [(''state'', VStr (snap_state s)), (''failure_mode'', case snap_mode s of None \<Rightarrow> VNone | Some m \<Rightarrow> VStr m),
       (''entered_at'', case snap_entered_at s of None \<Rightarrow> VNone | Some t \<Rightarrow> VFloat (Fin t)),
       (''last_good_policies'', VInt (int (snap_policies s))), (''buffered_evidence_count'', VInt (int (snap_buffered s))),
       (''held_decisions'', VInt (int (snap_held s)))]"

definition state_snapshot :: "('b, 'w, 'v, 's) lifecycle \<Rightarrow> (string \<times> pyval) list" where
  "state_snapshot lc =
     [(''rapp_state'', VStr (rapp_state_value (lc_state lc))),
      (''a1_emitted_count'', VInt (if lc_emitted lc \<noteq> 0 then lc_emitted lc else int (a1_emitted (lc_a1 lc)))),
      (''last_decision_id'', lc_last_decision lc), (''evidence_chain_head'', lc_chain_head lc),
      (''degradation'', snapshot_value (take_snapshot (lc_degradation lc)))]"

definition mark_degraded :: "('b, 'w, 'v, 's) lifecycle \<Rightarrow> ('b, 'w, 'v, 's) lifecycle" where
  "mark_degraded lc = lc\<lparr>lc_state := DEGRADED\<rparr>"

definition track_planner_task :: "nat \<Rightarrow> ('b, 'w, 'v, 's) lifecycle \<Rightarrow> ('b, 'w, 'v, 's) lifecycle" where
  "track_planner_task t lc = lc\<lparr>lc_tasks := List.insert t (lc_tasks lc)\<rparr>"

definition task_done :: "nat \<Rightarrow> ('b, 'w, 'v, 's) lifecycle \<Rightarrow> ('b, 'w, 'v, 's) lifecycle" where
  "task_done t lc = lc\<lparr>lc_tasks := removeAll t (lc_tasks lc)\<rparr>"

text \<open>What the two adapters are connected to, and the clock around the registration.\<close>

record ('b, 'w, 'v) network =
  nw_pb :: "'b pybreaker"
  nw_smo :: "'w r1_http"
  nw_ric :: "'v http"
  nw_r1_cfg :: r1_config
  nw_a1_cfg :: a1_config
  nw_t_begin :: real
  nw_t_end :: real

text \<open>Boot: every exception leaves the state \<open>DEGRADED\<close> and is raised again.\<close>

definition boot ::
  "('b, 'w, 'v) network \<Rightarrow> ('b, 'w, 'v, 's) lifecycle \<Rightarrow> ('b, 'w, 'v, 's) lifecycle \<times> (a1_exn + pyval \<times> int list)" where
  "boot nw lc =
     (let lc0 = lc\<lparr>lc_state := REGISTERING\<rparr>
      in case register_r1 (nw_pb nw) (nw_smo nw) (nw_r1_cfg nw) (nw_t_begin nw) (nw_t_end nw) (lc_r1 lc0) of
           (r, Inl e) \<Rightarrow> (lc0\<lparr>lc_state := DEGRADED, lc_r1 := r\<rparr>, Inl e)
         | (r, Inr registration) \<Rightarrow>
             (case register_policy_types (nw_ric nw) (nw_a1_cfg nw) (lc_a1 lc0) of
                (a, Inl e) \<Rightarrow> (lc0\<lparr>lc_state := DEGRADED, lc_r1 := r, lc_a1 := a\<rparr>, Inl e)
              | (a, Inr types) \<Rightarrow> (lc0\<lparr>lc_state := RUNNING, lc_r1 := r, lc_a1 := a\<rparr>, Inr (registration, types))))"

section \<open>Shutdown\<close>

text \<open>
  Shutdown awaits twice, so it is three atomic sections: the signal with the tasks in flight at that
  moment, the end of the drain (the tasks that did not finish in time are cancelled and awaited), and
  the closing of the adapters. Other tasks run between the first two.
\<close>

definition shutdown_begin :: "('b, 'w, 'v, 's) lifecycle \<Rightarrow> ('b, 'w, 'v, 's) lifecycle \<times> nat list" where
  "shutdown_begin lc = (lc\<lparr>lc_state := DEREGISTERING, lc_drain := True\<rparr>, lc_tasks lc)"

definition end_drain :: "nat list \<Rightarrow> ('b, 'w, 'v, 's) lifecycle \<Rightarrow> ('b, 'w, 'v, 's) lifecycle \<times> nat list" where
  "end_drain in_flight lc =
     (lc\<lparr>lc_tasks := filter (\<lambda>t. t \<notin> set in_flight) (lc_tasks lc)\<rparr>, filter (\<lambda>t. t \<in> set in_flight) (lc_tasks lc))"

record closing =
  cl_r1 :: "call_exn option"
  cl_a1 :: "call_exn option"

definition close_adapters ::
  "('b, 'w, 'v) network \<Rightarrow> closing \<Rightarrow> ('b, 'w, 'v, 's) lifecycle \<Rightarrow> ('b, 'w, 'v, 's) lifecycle \<times> call_exn option" where
  "close_adapters nw cl lc =
     (case deregister (nw_smo nw) (nw_r1_cfg nw) (lc_r1 lc) of
        (r, Some e) \<Rightarrow> (lc\<lparr>lc_r1 := r\<rparr>, Some e)
      | (r, None) \<Rightarrow>
          (case cl_r1 cl of
             Some e \<Rightarrow> (lc\<lparr>lc_r1 := r\<rparr>, Some e)
           | None \<Rightarrow>
               (case cl_a1 cl of
                  Some e \<Rightarrow> (lc\<lparr>lc_r1 := r, lc_r1_closed := True\<rparr>, Some e)
                | None \<Rightarrow> (lc\<lparr>lc_r1 := r, lc_r1_closed := True, lc_a1_closed := True, lc_state := STOPPED\<rparr>, None))))"

text \<open>What happens while the drain waits.\<close>

datatype drain_event = Finished nat | Submitted nat

fun drain_step :: "('b, 'w, 'v, 's) lifecycle \<Rightarrow> drain_event \<Rightarrow> ('b, 'w, 'v, 's) lifecycle" where
  "drain_step lc (Finished t) = task_done t lc"
| "drain_step lc (Submitted t) = track_planner_task t lc"

text \<open>A whole shutdown; the second component is the list of cancelled tasks.\<close>

definition shutdown ::
  "('b, 'w, 'v) network \<Rightarrow> drain_event list \<Rightarrow> closing \<Rightarrow> ('b, 'w, 'v, 's) lifecycle \<Rightarrow>
   ('b, 'w, 'v, 's) lifecycle \<times> nat list \<times> call_exn option" where
  "shutdown nw evs cl lc =
     (let (lc1, in_flight) = shutdown_begin lc;
          lc2 = (if in_flight = [] then lc1 else run drain_step lc1 evs);
          (lc3, cancelled) = end_drain in_flight lc2;
          (lc4, e) = close_adapters nw cl lc3
      in (lc4, cancelled, e))"

section \<open>Running\<close>

text \<open>\<open>--once\<close>: boot, tolerate a failure, shut down. The result is the exit code.\<close>

definition run_once ::
  "('b, 'w, 'v) network \<Rightarrow> drain_event list \<Rightarrow> closing \<Rightarrow> ('b, 'w, 'v, 's) lifecycle \<Rightarrow>
   ('b, 'w, 'v, 's) lifecycle \<times> (call_exn + int)" where
  "run_once nw evs cl lc =
     (let (lc1, out) = boot nw lc;
          lc2 = (case out of Inl e \<Rightarrow> mark_degraded lc1 | Inr x \<Rightarrow> lc1);
          ok = (lc_state lc2 \<in> {RUNNING, DEGRADED});
          (lc3, cancelled, e) = shutdown nw evs cl lc2
      in (lc3, case e of Some x \<Rightarrow> Inl x | None \<Rightarrow> Inr (if ok then 0 else 1)))"

text \<open>
  The main run. While it waits for the stop signal the watchdog pings and marks the liveness registry,
  the lag probe measures, the checkpointer saves, and the rest of the program works on the adapters,
  the controller and the planner tasks. A save that fails leaves the file as it was
  (theorem \<open>failed_save_keeps\<close> of \<open>Storage\<close>). Datagrams are recorded when they are handed to the socket.
\<close>

datatype 'a happening =
    Ping real
  | LagProbe real real
  | Save bool
  | A1Works 'a
  | DegradationIs controller
  | Tracked nat
  | TaskEnds nat

record ('b, 'w, 'v, 's) session =
  ss_lc :: "('b, 'w, 'v, 's) lifecycle"
  ss_file :: "(string \<times> pyval) list option"
  ss_sent :: "(string \<times> string) list"

definition datagram :: "string option \<Rightarrow> string \<Rightarrow> (string \<times> string) list" where
  "datagram sock message = (case notify_address sock of None \<Rightarrow> [] | Some a \<Rightarrow> [(a, message)])"

text \<open>One save of the checkpointer; its failures are swallowed.\<close>

definition checkpoint_now :: "bool \<Rightarrow> ('b, 'w, 'v, 's) session \<Rightarrow> ('b, 'w, 'v, 's) session" where
  "checkpoint_now saved ss = (if saved then ss\<lparr>ss_file := Some (state_snapshot (ss_lc ss))\<rparr> else ss)"

declare checkpoint_now_def [simp]

fun session_step ::
  "string option \<Rightarrow> ('b, 'w, 'v, 's) session \<Rightarrow> ('b, 'v, 's) a1 happening \<Rightarrow> ('b, 'w, 'v, 's) session" where
  "session_step sock ss (Ping now) =
     ss\<lparr>ss_sent := ss_sent ss @ datagram sock ''WATCHDOG=1'',
        ss_lc := (ss_lc ss)\<lparr>lc_liveness := mark_watchdog_tick now (lc_liveness (ss_lc ss))\<rparr>\<rparr>"
| "session_step sock ss (LagProbe t0 t1) =
     ss\<lparr>ss_lc := (ss_lc ss)\<lparr>lc_liveness := loop_lag_probe t0 t1 (lc_liveness (ss_lc ss))\<rparr>\<rparr>"
| "session_step sock ss (Save saved) = checkpoint_now saved ss"
| "session_step sock ss (A1Works a) = ss\<lparr>ss_lc := (ss_lc ss)\<lparr>lc_a1 := a\<rparr>\<rparr>"
| "session_step sock ss (DegradationIs c) = ss\<lparr>ss_lc := (ss_lc ss)\<lparr>lc_degradation := c\<rparr>\<rparr>"
| "session_step sock ss (Tracked t) = ss\<lparr>ss_lc := track_planner_task t (ss_lc ss)\<rparr>"
| "session_step sock ss (TaskEnds t) = ss\<lparr>ss_lc := task_done t (ss_lc ss)\<rparr>"

text \<open>
  The watchdog task pings as soon as the main task first waits; after the stop signal come the final
  snapshot, the end of the watchdog task and the shutdown. A failed boot leaves at once.
\<close>

definition run_forever ::
  "('b, 'w, 'v) network \<Rightarrow> string option \<Rightarrow> real \<Rightarrow> ('b, 'v, 's) a1 happening list \<Rightarrow> bool \<Rightarrow> drain_event list \<Rightarrow> closing \<Rightarrow>
   (string \<times> pyval) list option \<Rightarrow> ('b, 'w, 'v, 's) lifecycle \<Rightarrow> ('b, 'w, 'v, 's) session \<times> (a1_exn + nat list)" where
  "run_forever nw sock first_ping hs final_ok evs cl file lc =
     (case boot nw lc of
        (lc1, Inl e) \<Rightarrow> (\<lparr>ss_lc = lc1, ss_file = file, ss_sent = []\<rparr>, Inl e)
      | (lc1, Inr x) \<Rightarrow>
          (let ss0 = \<lparr>ss_lc = lc1, ss_file = file, ss_sent = datagram sock ''READY=1''\<rparr>;
               ss1 = run (session_step sock) ss0 (Ping first_ping # hs @ [Save final_ok]);
               ss2 = ss1\<lparr>ss_sent := ss_sent ss1 @ datagram sock ''STOPPING=1''\<rparr>;
               (lc2, cancelled, e) = shutdown nw evs cl (ss_lc ss2)
           in (ss2\<lparr>ss_lc := lc2\<rparr>, case e of Some x \<Rightarrow> Inl (CallExn x) | None \<Rightarrow> Inr cancelled)))"

text \<open>Whether the dashboard API starts, and on which port.\<close>

definition api_port_from_env :: "platform \<Rightarrow> environ \<Rightarrow> int option res" where
  "api_port_from_env pl environ =
     (if env_set environ ''HORIZON_API_DISABLE'' \<noteq> None \<or> env_set environ ''HORIZON_API_JWT_SECRET'' = None then Inr None
      else bindE (py_int pl (VStr (env_get environ ''HORIZON_API_PORT'' ''8083''))) (\<lambda>n. Inr (Some n)))"

section \<open>Probes\<close>

definition healthz_status :: "real \<Rightarrow> ('b, 'w, 'v, 's) lifecycle \<Rightarrow> int" where
  "healthz_status now lc = (if evaluate now (lc_liveness lc) = [] then 200 else 503)"

definition readyz_status :: "real \<Rightarrow> ('b, 'w, 'v, 's) lifecycle \<Rightarrow> int" where
  "readyz_status now lc =
     (let failed = evaluate_readiness now (lc_r1 lc) (lc_liveness lc)
      in if \<not> (lc_state lc = RUNNING \<and> is_serving (lc_degradation lc)) then 503
         else if failed \<noteq> [] then 503 else 200)"

section \<open>Properties of the parts\<close>

text \<open>The two implementations of the notification protocol agree.\<close>

lemma starts_with_Cons: "starts_with [c] (d # ds) = (c = d)"
  by simp

theorem notify_implementations_agree:
  "notify_with msg deliver sock = sd_notify deliver sock msg"
  by (cases sock; cases "the sock") (auto simp: notify_with_def send_notify_def notify_address_def sd_notify_def)

lemma env_set_nonempty [simp]: "nonempty (env_set environ k) \<longleftrightarrow> env_set environ k \<noteq> None"
  by (simp add: nonempty_def env_set_def split: option.splits)

lemma auth_from_env_none:
  "a1_auth_from_env environ v p = None \<longleftrightarrow>
     env_set environ ''A1_CLIENT_TOKEN'' = None \<and> \<not> oauth_complete environ \<and> \<not> mtls_complete environ"
  by (simp add: a1_auth_from_env_def Let_def)

lemma auth_from_env_fields:
  assumes "a1_auth_from_env environ v p = Some au"
  shows "verify_tls au = v \<and> production_mode au = p \<and> static_bearer_token au = env_set environ ''A1_CLIENT_TOKEN'' \<and>
    has_oauth au = oauth_complete environ \<and> has_mtls au = mtls_complete environ \<and>
    cipher_allowlist au = DEFAULT_WG11_CIPHERS \<and> (mtls_complete environ \<longrightarrow>
      client_cert_path au = env_set environ ''HORIZON_A1_CLIENT_CERT_PATH'' \<and>
      client_key_path au = env_set environ ''HORIZON_A1_CLIENT_KEY_PATH'')"
proof -
  have oauth: "\<not> nonempty None" by (simp add: nonempty_def)
  have au: "au = the (a1_auth_from_env environ v p)" and some: "a1_auth_from_env environ v p \<noteq> None" using assms by simp_all
  note this [unfolded a1_auth_from_env_def Let_def]
  with oauth show ?thesis
    by (cases "oauth_complete environ"; cases "mtls_complete environ")
       (simp_all add: has_oauth_def has_mtls_def oauth_complete_def mtls_complete_def split: if_splits)
qed

lemma config_auth:
  assumes "rapp_config_from_env pl environ = Inr c"
  shows "rc_a1_auth c = a1_auth_from_env environ (env_flag environ ''HORIZON_A1_VERIFY_TLS'' True)
           (env_flag environ ''HORIZON_PRODUCTION_MODE'' True)"
    and "env_flag environ ''HORIZON_PRODUCTION_MODE'' True \<Longrightarrow> env_flag environ ''HORIZON_A1_VERIFY_TLS'' True"
    and "r1_auth (rc_r1 c) = None"
  using assms
  by (auto simp: rapp_config_from_env_def Let_def bindE_eq_Inr r1_config_default_def split: if_splits)

lemma ciphers_listed [simp]: "DEFAULT_WG11_CIPHERS \<noteq> []"
  by (simp add: DEFAULT_WG11_CIPHERS_def)

lemma ssl_context_total:
  "(production_mode au \<Longrightarrow> verify_tls au) \<Longrightarrow> cipher_allowlist au \<noteq> [] \<Longrightarrow>
   \<exists>tls. build_ssl_context au = Inr tls \<and> verifies_peer tls = verify_tls au \<and>
     (has_mtls au \<longrightarrow> tls = Context (verify_tls au) (Some (the (client_cert_path au), the (client_key_path au))) (cipher_allowlist au))"
  by (cases "verify_tls au"; cases "has_mtls au"; cases "ca_bundle_path au") (auto simp: build_ssl_context_def)

text \<open>
  C33. Credentials and TLS posture of the outgoing A1 client, for every environment from which a
  configuration is built: a credential group counts only when it is complete, a static token comes
  before OAuth2, a partial group authenticates nothing, the client certificate is the configured pair,
  and no configuration skips certificate verification while production mode is on.
\<close>

theorem posture_from_env:
  assumes "rapp_config_from_env pl environ = Inr c"
  shows "if env_set environ ''A1_CLIENT_TOKEN'' = None \<and> \<not> oauth_complete environ \<and> \<not> mtls_complete environ
         then rc_a1_auth c = None
         else \<exists>au tls. rc_a1_auth c = Some au \<and>
                build_secure_async_client au =
                  Inr (tls, case env_set environ ''A1_CLIENT_TOKEN'' of
                              Some t \<Rightarrow> StaticBearer t
                            | None \<Rightarrow> if oauth_complete environ then OAuth2Bearer else NoAuth) \<and>
                verifies_peer tls = env_flag environ ''HORIZON_A1_VERIFY_TLS'' True \<and>
                (verifies_peer tls \<or> \<not> env_flag environ ''HORIZON_PRODUCTION_MODE'' True) \<and>
                (mtls_complete environ \<longrightarrow>
                   (\<exists>v cs. tls = Context v (Some (the (environ ''HORIZON_A1_CLIENT_CERT_PATH''),
                                                the (environ ''HORIZON_A1_CLIENT_KEY_PATH''))) cs))"
proof (cases "a1_auth_from_env environ (env_flag environ ''HORIZON_A1_VERIFY_TLS'' True)
                (env_flag environ ''HORIZON_PRODUCTION_MODE'' True)")
  case None
  then show ?thesis using config_auth(1) [OF assms] by (simp add: auth_from_env_none)
next
  case (Some au)
  note f = auth_from_env_fields [OF Some]
  have some: "\<not> (env_set environ ''A1_CLIENT_TOKEN'' = None \<and> \<not> oauth_complete environ \<and> \<not> mtls_complete environ)"
    using Some auth_from_env_none [of environ] by fastforce
  have posture: "production_mode au \<Longrightarrow> verify_tls au" using f config_auth(2) [OF assms] by simp
  have paths: "mtls_complete environ \<Longrightarrow> the (client_cert_path au) = the (environ ''HORIZON_A1_CLIENT_CERT_PATH'') \<and>
      the (client_key_path au) = the (environ ''HORIZON_A1_CLIENT_KEY_PATH'')"
    using f by (auto simp: mtls_complete_def env_set_def split: option.splits if_splits)
  obtain tls where tls: "build_ssl_context au = Inr tls" "verifies_peer tls = verify_tls au"
    "has_mtls au \<longrightarrow> tls = Context (verify_tls au) (Some (the (client_cert_path au), the (client_key_path au)))
       (cipher_allowlist au)"
    using ssl_context_total [of au] posture f by auto
  have cred: "build_secure_async_client au =
      Inr (tls, case env_set environ ''A1_CLIENT_TOKEN'' of
                  Some t \<Rightarrow> StaticBearer t | None \<Rightarrow> if oauth_complete environ then OAuth2Bearer else NoAuth)"
    using f tls(1) by (auto simp: build_secure_async_client_def has_static_token_def split: option.splits)
  show ?thesis
    using some f tls cred paths config_auth [OF assms] Some by auto
qed

section \<open>Registration\<close>

lemma deregister_flag:
  "deregister http cfg r = (r', e) \<Longrightarrow> e = None \<Longrightarrow>
     \<not> r1_registered r' \<or> (\<exists>x. snd (http (DeleteRegistration (''/r1/registration/v1/registration/'' @ r1_rapp_id cfg)) (r1_world r)) = Raised x \<and> http_error x)"
  by (auto simp: deregister_def split: if_splits prod.splits outcome.splits)

theorem refused_deregistration_forgotten:
  assumes "r1_registered r"
    and "snd (http (DeleteRegistration (''/r1/registration/v1/registration/'' @ r1_rapp_id cfg)) (r1_world r)) = Returned resp"
  shows "\<not> r1_registered (fst (deregister http cfg r)) \<and> snd (deregister http cfg r) = None"
  using assms by (auto simp: deregister_def split: prod.splits)

lemma register_r1_flag:
  "register_r1 pb http cfg t0 t1 r = (r', Inr body) \<Longrightarrow> r1_registered r'"
  by (auto simp: register_r1_def Let_def split: prod.splits sum.splits outcome.splits)

text \<open>An answer that is not JSON: the SMO holds the registration, the rApp boots into \<open>DEGRADED\<close> without policy types.\<close>

theorem unreadable_answer_half_registers:
  assumes "register_r1 (nw_pb nw) (nw_smo nw) (nw_r1_cfg nw) (nw_t_begin nw) (nw_t_end nw) (lc_r1 lc) = (r, Inl (PyExn e))"
  shows "boot nw lc = (lc\<lparr>lc_state := DEGRADED, lc_r1 := r\<rparr>, Inl (PyExn e)) \<and> r1_registered r"
  using assms by (auto simp: boot_def register_r1_def Let_def split: prod.splits sum.splits outcome.splits)

section \<open>Reachable states\<close>

datatype ('b, 'w, 'v, 's) lifecycle_op =
    Boot "('b, 'w, 'v) network"
  | MarkDegraded
  | Shutdown "('b, 'w, 'v) network" "drain_event list" closing
  | Happens "('b, 'v, 's) a1 happening"

fun lifecycle_step :: "('b, 'w, 'v, 's) lifecycle \<Rightarrow> ('b, 'w, 'v, 's) lifecycle_op \<Rightarrow> ('b, 'w, 'v, 's) lifecycle" where
  "lifecycle_step lc (Boot nw) = fst (boot nw lc)"
| "lifecycle_step lc MarkDegraded = mark_degraded lc"
| "lifecycle_step lc (Shutdown nw evs cl) = fst (shutdown nw evs cl lc)"
| "lifecycle_step lc (Happens h) = ss_lc (session_step None \<lparr>ss_lc = lc, ss_file = None, ss_sent = []\<rparr> h)"

text \<open>
  Running means registered, stopped means both clients are closed, and nobody sets the providers that
  readiness would ask.
\<close>

definition lifecycle_inv :: "('b, 'w, 'v, 's) lifecycle \<Rightarrow> bool" where
  "lifecycle_inv lc \<longleftrightarrow>
     (lc_state lc = RUNNING \<longrightarrow> r1_registered (lc_r1 lc)) \<and>
     (lc_state lc = STOPPED \<longrightarrow> lc_r1_closed lc \<and> lc_a1_closed lc \<and> lc_drain lc) \<and>
     (lc_state lc = DEREGISTERING \<longrightarrow> lc_drain lc) \<and>
     connector_state_provider (lc_liveness lc) = None \<and> evidence_writable_probe (lc_liveness lc) = None \<and>
     r1_registered_provider (lc_liveness lc) = None"

lemma boot_sel:
  assumes "boot nw lc = (lc', out)"
  shows "(case out of Inl e \<Rightarrow> lc_state lc' = DEGRADED | Inr x \<Rightarrow> lc_state lc' = RUNNING \<and> r1_registered (lc_r1 lc')) \<and>
    lc_tasks lc' = lc_tasks lc \<and> lc_drain lc' = lc_drain lc \<and> lc_liveness lc' = lc_liveness lc \<and>
    lc_emitted lc' = lc_emitted lc \<and> lc_degradation lc' = lc_degradation lc"
  using assms by (auto simp: boot_def Let_def dest: register_r1_flag split: prod.splits sum.splits)

lemma close_sel:
  assumes "close_adapters nw cl lc = (lc', e)"
  shows "lc_tasks lc' = lc_tasks lc \<and> lc_drain lc' = lc_drain lc \<and> lc_liveness lc' = lc_liveness lc \<and>
    lc_emitted lc' = lc_emitted lc \<and>
    (if e = None then lc_state lc' = STOPPED \<and> lc_r1_closed lc' \<and> lc_a1_closed lc' else lc_state lc' = lc_state lc) \<and>
    (r1_registered (lc_r1 lc') \<longrightarrow> r1_registered (lc_r1 lc))"
  using assms
  by (auto simp: close_adapters_def deregister_def split: prod.splits option.splits outcome.splits if_splits)

lemma session_sel [simp]:
  "lc_state (ss_lc (session_step sock ss h)) = lc_state (ss_lc ss)"
  "lc_r1 (ss_lc (session_step sock ss h)) = lc_r1 (ss_lc ss)"
  "lc_drain (ss_lc (session_step sock ss h)) = lc_drain (ss_lc ss)"
  "lc_emitted (ss_lc (session_step sock ss h)) = lc_emitted (ss_lc ss)"
  "lc_r1_closed (ss_lc (session_step sock ss h)) = lc_r1_closed (ss_lc ss)"
  "lc_a1_closed (ss_lc (session_step sock ss h)) = lc_a1_closed (ss_lc ss)"
  "connector_state_provider (lc_liveness (ss_lc (session_step sock ss h))) = connector_state_provider (lc_liveness (ss_lc ss))"
  "evidence_writable_probe (lc_liveness (ss_lc (session_step sock ss h))) = evidence_writable_probe (lc_liveness (ss_lc ss))"
  "r1_registered_provider (lc_liveness (ss_lc (session_step sock ss h))) = r1_registered_provider (lc_liveness (ss_lc ss))"
  by (cases h; simp add: mark_watchdog_tick_def loop_lag_probe_def record_loop_lag_def track_planner_task_def task_done_def)+

lemma drain_step_sel [simp]:
  "lc_state (drain_step lc e) = lc_state lc"
  "lc_drain (drain_step lc e) = lc_drain lc"
  "lc_liveness (drain_step lc e) = lc_liveness lc"
  "lc_emitted (drain_step lc e) = lc_emitted lc"
  "lc_r1 (drain_step lc e) = lc_r1 lc"
  by (cases e; simp add: task_done_def track_planner_task_def)+

lemma drain_sel [simp]:
  "lc_state (run drain_step lc evs) = lc_state lc"
  "lc_drain (run drain_step lc evs) = lc_drain lc"
  "lc_liveness (run drain_step lc evs) = lc_liveness lc"
  "lc_emitted (run drain_step lc evs) = lc_emitted lc"
  "lc_r1 (run drain_step lc evs) = lc_r1 lc"
  by (induction evs arbitrary: lc) simp_all

lemma shutdown_sel:
  assumes "shutdown nw evs cl lc = (lc', cancelled, e)"
  shows "lc_drain lc' \<and> lc_liveness lc' = lc_liveness lc \<and> lc_emitted lc' = lc_emitted lc \<and>
    (if e = None then lc_state lc' = STOPPED \<and> lc_r1_closed lc' \<and> lc_a1_closed lc' else lc_state lc' = DEREGISTERING)"
  using assms
  by (auto simp: shutdown_def shutdown_begin_def end_drain_def Let_def dest!: close_sel split: prod.splits if_splits)

lemma lifecycle_step_inv: "lifecycle_inv lc \<Longrightarrow> lifecycle_inv (lifecycle_step lc x)"
proof (cases x)
  case (Boot nw)
  then show "lifecycle_inv lc \<Longrightarrow> ?thesis"
    using boot_sel [of nw lc "fst (boot nw lc)" "snd (boot nw lc)"]
    by (auto simp: lifecycle_inv_def split: sum.splits)
next
  case (Shutdown nw evs cl)
  obtain lc' cancelled e where "shutdown nw evs cl lc = (lc', cancelled, e)" by (cases "shutdown nw evs cl lc")
  then show "lifecycle_inv lc \<Longrightarrow> ?thesis"
    using shutdown_sel [of nw evs cl lc lc' cancelled e] Shutdown by (auto simp: lifecycle_inv_def split: if_splits)
qed (auto simp: lifecycle_inv_def mark_degraded_def)

interpretation lifecycle_run: total_machine lifecycle_step lifecycle_inv
  by unfold_locales (rule lifecycle_step_inv)

definition restored :: "platform \<Rightarrow> (string \<times> pyval) list option \<Rightarrow> int res \<times> pyval \<times> pyval" where
  "restored pl prior =
     (case prior of
        None \<Rightarrow> (Inr 0, VNone, VNone)
      | Some d \<Rightarrow> (py_int pl (case map_of d ''a1_emitted_count'' of None \<Rightarrow> VInt 0 | Some v \<Rightarrow> v),
                    case map_of d ''last_decision_id'' of None \<Rightarrow> VNone | Some v \<Rightarrow> v,
                    case map_of d ''evidence_chain_head'' of None \<Rightarrow> VNone | Some v \<Rightarrow> v))"

lemma restore_cases:
  "restore_from_disk pl prior lc =
     (if prior = None then Inr lc
      else case restored pl prior of
             (Inl e, l, h) \<Rightarrow> Inl e
           | (Inr n, l, h) \<Rightarrow> Inr (lc\<lparr>lc_emitted := n, lc_last_decision := l, lc_chain_head := h\<rparr>))"
  by (auto simp: restore_from_disk_def restored_def bindE_def split: option.splits sum.splits)

lemma new_sel:
  assumes "lifecycle_new pl r1c a1c au b1 b2 w v st now prior = Inr lc"
  shows "lifecycle_inv lc \<and> lc_state lc = INIT \<and>
    restored pl prior = (Inr (lc_emitted lc), lc_last_decision lc, lc_chain_head lc)"
proof -
  obtain lc0 where lc0: "restore_from_disk pl prior lc0 = Inr lc" "lc_state lc0 = INIT" "lc_emitted lc0 = 0"
      "lc_last_decision lc0 = VNone" "lc_chain_head lc0 = VNone" "lc_liveness lc0 = liveness_default now"
    using assms unfolding lifecycle_new_def bindE_eq_Inr by fastforce
  then have live: "lifecycle_inv lc0" by (simp add: lifecycle_inv_def liveness_default_def liveness_new_def)
  obtain r l h where r: "restored pl prior = (r, l, h)" by (cases "restored pl prior")
  show ?thesis
  proof (cases "prior = None")
    case True
    then show ?thesis using lc0 live by (simp add: restore_cases restored_def)
  next
    case False
    then show ?thesis using lc0 live r by (cases r) (auto simp: restore_cases lifecycle_inv_def)
  qed
qed

theorem readyz_verdict:
  assumes "lifecycle_new pl r1c a1c au b1 b2 w v st now0 prior = Inr lc0" and "lc = run lifecycle_step lc0 ops"
  shows "(readyz_status now lc = 200 \<longleftrightarrow>
            lc_state lc = RUNNING \<and> is_serving (lc_degradation lc) \<and> healthz_status now lc = 200) \<and>
         (readyz_status now lc = 200 \<longrightarrow> r1_registered (lc_r1 lc)) \<and> (lc_state lc = STOPPED \<longrightarrow> lc_r1_closed lc \<and> lc_a1_closed lc)"
proof -
  have "lifecycle_inv lc" unfolding assms(2) using new_sel [OF assms(1)] by (intro lifecycle_run.run_keeps) simp
  then show ?thesis by (auto simp: lifecycle_inv_def readyz_status_def healthz_status_def evaluate_readiness_def)
qed

section \<open>Shutdown and the runs\<close>

lemma drain_tasks:
  assumes "\<And>t. Submitted t \<in> set evs \<Longrightarrow> t \<notin> F"
  shows "set (lc_tasks (run drain_step lc evs)) \<inter> F = {t \<in> set (lc_tasks lc) \<inter> F. Finished t \<notin> set evs}"
  using assms
proof (induction evs arbitrary: lc)
  case (Cons e evs)
  have "set (lc_tasks (drain_step lc e)) \<inter> F = {t \<in> set (lc_tasks lc) \<inter> F. e \<noteq> Finished t}"
    using Cons.prems by (cases e) (auto simp: task_done_def track_planner_task_def)
  then show ?case using Cons.IH [of "drain_step lc e"] Cons.prems by auto
qed auto


text \<open>A task submitted while the drain waits is neither awaited nor cancelled: it outlives the clients.\<close>

theorem late_task_outlives_clients:
  assumes "shutdown nw (evs @ [Submitted t]) cl lc = (lc', cancelled, None)"
    and "lc_tasks lc \<noteq> []" and "t \<notin> set (lc_tasks lc)"
  shows "t \<in> set (lc_tasks lc') \<and> t \<notin> set cancelled \<and> lc_a1_closed lc'"
  using assms shutdown_sel [OF assms(1)]
  by (auto simp: shutdown_def shutdown_begin_def end_drain_def Let_def run_append track_planner_task_def
      dest!: close_sel split: prod.splits)

theorem run_once_exit_code:
  "case run_once nw evs cl lc of
     (lc', out) \<Rightarrow> (out = Inr 0 \<and> lc_state lc' = STOPPED \<and> lc_r1_closed lc' \<and> lc_a1_closed lc') \<or>
                 (\<exists>e. out = Inl e \<and> lc_state lc' = DEREGISTERING)"
proof -
  obtain lc1 out1 where b: "boot nw lc = (lc1, out1)" by (cases "boot nw lc")
  define lc2 where "lc2 = (case out1 of Inl e \<Rightarrow> mark_degraded lc1 | Inr x \<Rightarrow> lc1)"
  have ok: "lc_state lc2 \<in> {RUNNING, DEGRADED}"
    using boot_sel [OF b] by (auto simp: lc2_def mark_degraded_def split: sum.splits)
  obtain lc3 cancelled e where s: "shutdown nw evs cl lc2 = (lc3, cancelled, e)" by (cases "shutdown nw evs cl lc2")
  have "run_once nw evs cl lc = (lc3, case e of Some x \<Rightarrow> Inl x | None \<Rightarrow> Inr 0)"
    using ok by (simp add: run_once_def b s flip: lc2_def)
  then show ?thesis using shutdown_sel [OF s] by (cases e) auto
qed

text \<open>The datagrams of the main run, in order.\<close>

lemma session_sent:
  "notify_address sock = Some a \<Longrightarrow>
   \<exists>n. ss_sent (run (session_step sock) ss hs) = ss_sent ss @ replicate n (a, ''WATCHDOG=1'')"
proof (induction hs arbitrary: ss)
  case Nil
  then show ?case by (metis append_Nil2 replicate_0 run.simps(1))
next
  case (Cons h hs)
  have "\<exists>k. ss_sent (session_step sock ss h) = ss_sent ss @ replicate k (a, ''WATCHDOG=1'')"
  proof (cases h)
    case (Ping t)
    then have "ss_sent (session_step sock ss h) = ss_sent ss @ replicate 1 (a, ''WATCHDOG=1'')"
      using Cons.prems by (simp add: datagram_def)
    then show ?thesis by blast
  qed (auto intro: exI [of _ 0])
  then obtain k where k: "ss_sent (session_step sock ss h) = ss_sent ss @ replicate k (a, ''WATCHDOG=1'')" by blast
  obtain n where n: "ss_sent (run (session_step sock) (session_step sock ss h) hs) =
      ss_sent (session_step sock ss h) @ replicate n (a, ''WATCHDOG=1'')"
    using Cons.IH [OF Cons.prems, of "session_step sock ss h"] by blast
  show ?case by (rule exI [of _ "k + n"]) (simp add: k n replicate_add)
qed

lemma session_run_sel [simp]:
  "lc_state (ss_lc (run (session_step sock) ss hs)) = lc_state (ss_lc ss)"
  "lc_emitted (ss_lc (run (session_step sock) ss hs)) = lc_emitted (ss_lc ss)"
  by (induction hs arbitrary: ss) simp_all

theorem service_protocol:
  assumes "run_forever nw sock t0 hs True evs cl saved lc = (ss, out)" and "notify_address sock = Some a"
  shows "case snd (boot nw lc) of
           Inl e \<Rightarrow> out = Inl e \<and> ss_sent ss = [] \<and> ss_file ss = saved \<and> lc_state (ss_lc ss) = DEGRADED
         | Inr x \<Rightarrow>
             (\<exists>n. ss_sent ss = (a, ''READY=1'') # replicate (Suc n) (a, ''WATCHDOG=1'') @ [(a, ''STOPPING=1'')]) \<and>
             (\<exists>kvs. ss_file ss = Some kvs \<and> map_of kvs ''rapp_state'' = Some (VStr ''running'')) \<and>
             lc_drain (ss_lc ss) \<and> ((\<exists>ts. out = Inr ts) \<longrightarrow> lc_state (ss_lc ss) = STOPPED)"
proof (cases "boot nw lc")
  case (Pair lc1 out1)
  show ?thesis
  proof (cases out1)
    case (Inl e)
    then show ?thesis using assms(1) Pair boot_sel [OF Pair] by (auto simp: run_forever_def)
  next
    case (Inr x)
    define ss0 where "ss0 = session_step sock \<lparr>ss_lc = lc1, ss_file = saved, ss_sent = datagram sock ''READY=1''\<rparr> (Ping t0)"
    define ss1 where "ss1 = run (session_step sock) ss0 hs"
    obtain n where n: "ss_sent ss1 = (a, ''READY=1'') # (a, ''WATCHDOG=1'') # replicate n (a, ''WATCHDOG=1'')"
      using session_sent [OF assms(2), of ss0 hs] assms(2) by (auto simp: ss1_def ss0_def datagram_def)
    have st: "lc_state (ss_lc ss1) = RUNNING" using boot_sel [OF Pair] Inr by (simp add: ss1_def ss0_def)
    obtain lc2 cancelled e where sd: "shutdown nw evs cl (ss_lc ss1) = (lc2, cancelled, e)"
      by (cases "shutdown nw evs cl (ss_lc ss1)")
    have "ss = ss1\<lparr>ss_file := Some (state_snapshot (ss_lc ss1)), ss_sent := ss_sent ss1 @ [(a, ''STOPPING=1'')], ss_lc := lc2\<rparr> \<and>
        out = (case e of Some x \<Rightarrow> Inl (CallExn x) | None \<Rightarrow> Inr cancelled)"
      using assms Pair Inr sd unfolding ss1_def ss0_def by (simp add: run_forever_def run_append datagram_def Let_def)
    moreover have "map_of (state_snapshot (ss_lc ss1)) ''rapp_state'' = Some (VStr ''running'')"
      by (simp add: state_snapshot_def st)
    ultimately show ?thesis
      using n shutdown_sel [OF sd] Pair Inr by (cases e) auto
  qed
qed

section \<open>Restarting\<close>

lemma snapshot_restored:
  "restored pl (Some (state_snapshot lc)) =
     (Inr (if lc_emitted lc \<noteq> 0 then lc_emitted lc else int (a1_emitted (lc_a1 lc))), lc_last_decision lc, lc_chain_head lc)"
  by (simp add: restored_def state_snapshot_def)

theorem checkpoint_restores:
  assumes "lifecycle_new pl r1c a1c au b1 b2 w v st now None = Inr fresh"
  shows "\<exists>lc'. lifecycle_new pl r1c a1c au b1 b2 w v st now (Some (state_snapshot lc)) = Inr lc' \<and>
    lc' = fresh\<lparr>lc_emitted := (if lc_emitted lc \<noteq> 0 then lc_emitted lc else int (a1_emitted (lc_a1 lc))),
                lc_last_decision := lc_last_decision lc, lc_chain_head := lc_chain_head lc\<rparr>"
  using assms snapshot_restored [of pl lc]
  by (auto simp: lifecycle_new_def bindE_eq_Inr restore_cases split: sum.splits)

text \<open>Once a checkpoint with a positive count was restored, every later checkpoint holds the same count.\<close>

lemma step_emitted: "lc_emitted (lifecycle_step lc x) = lc_emitted lc"
proof (cases x)
  case (Boot nw)
  then show ?thesis using boot_sel [of nw lc] by (cases "boot nw lc") auto
next
  case (Shutdown nw evs cl)
  then show ?thesis using shutdown_sel [of nw evs cl lc] by (cases "shutdown nw evs cl lc") auto
qed (simp_all add: mark_degraded_def)

lemma run_emitted: "lc_emitted (run lifecycle_step lc ops) = lc_emitted lc"
  by (induction ops arbitrary: lc) (simp_all add: step_emitted)

theorem restored_count_frozen:
  assumes "lifecycle_new pl r1c a1c au b1 b2 w v st now (Some d) = Inr lc0" and "lc_emitted lc0 \<noteq> 0"
  shows "map_of (state_snapshot (run lifecycle_step lc0 ops)) ''a1_emitted_count'' = Some (VInt (lc_emitted lc0))"
  using assms(2) by (simp add: state_snapshot_def run_emitted)

text \<open>A checkpoint whose count is null is not tolerated.\<close>

theorem null_count_stops_start:
  assumes "map_of d ''a1_emitted_count'' = Some VNone"
    and "lifecycle_new pl r1c a1c au b1 b2 w v st now None = Inr fresh"
  shows "lifecycle_new pl r1c a1c au b1 b2 w v st now (Some d) = Inl TypeError"
  using assms by (auto simp: lifecycle_new_def bindE_eq_Inr restore_from_disk_def)

section \<open>Instances\<close>

definition demo_smo :: "nat r1_http" where
  "demo_smo q w = (Suc w, Returned \<lparr>resp_status = 200, resp_json = Inr (VDict [])\<rparr>)"

definition broken_smo :: "nat r1_http" where
  "broken_smo q w = (Suc w, Returned \<lparr>resp_status = 201, resp_json = Inl ValueError\<rparr>)"

definition demo_network :: "nat r1_http \<Rightarrow> (bool, nat, nat) network" where
  "demo_network smo =
     \<lparr>nw_pb = demo_breaker, nw_smo = smo, nw_ric = demo_http, nw_r1_cfg = r1_config_default,
      nw_a1_cfg = a1_config_default, nw_t_begin = 0, nw_t_end = 1\<rparr>"

definition demo_start :: "(string \<times> pyval) list option \<Rightarrow> (bool, nat, nat, unit) lifecycle res" where
  "demo_start prior = lifecycle_new exact_platform r1_config_default a1_config_default None True True 0 0 () 0 prior"

definition demo_lc :: "(bool, nat, nat, unit) lifecycle" where
  "demo_lc =
     \<lparr>lc_state = INIT, lc_r1 = \<lparr>r1_breaker = True, r1_world = 0, r1_registered = False, r1_events = []\<rparr>,
      lc_a1 = \<lparr>a1_breaker = True, a1_world = 0, a1_emitted = 0, a1_attached = False, a1_store = (), a1_events = []\<rparr>,
      lc_degradation = controller_new, lc_emitted = 0, lc_last_decision = VNone, lc_chain_head = VNone,
      lc_liveness = liveness_default 0, lc_tasks = [], lc_drain = False, lc_r1_closed = False, lc_a1_closed = False\<rparr>"

lemma demo_start_none: "demo_start None = Inr demo_lc"
  by (simp add: demo_start_def lifecycle_new_def r1_new_def r1_config_default_def a1_new_def a1_config_default_def
      a1_supported_def restore_from_disk_def demo_lc_def)

definition quiet :: closing where "quiet = \<lparr>cl_r1 = None, cl_a1 = None\<rparr>"

definition demo_environ :: environ where
  "demo_environ = [''A1_CLIENT_TOKEN'' \<mapsto> ''t'', ''HORIZON_A1_CLIENT_CERT_PATH'' \<mapsto> ''c'']"

definition port_platform :: platform where
  "port_platform = exact_platform\<lparr>str_int := (\<lambda>s. Some 8081)\<rparr>"

theorem posture_from_env_witness:
  "\<exists>c au tls. rapp_config_from_env port_platform demo_environ = Inr c \<and> rc_a1_auth c = Some au \<and>
     build_secure_async_client au = Inr (tls, StaticBearer ''t'') \<and> verifies_peer tls"
proof -
  have "\<exists>c. rapp_config_from_env port_platform demo_environ = Inr c"
    by (simp add: rapp_config_from_env_def env_flag_def env_set_def env_get_def demo_environ_def port_platform_def Let_def)
  then obtain c where c: "rapp_config_from_env port_platform demo_environ = Inr c" by blast
  have "env_set demo_environ ''A1_CLIENT_TOKEN'' = Some ''t''"
    "env_flag demo_environ ''HORIZON_A1_VERIFY_TLS'' True"
    by (simp_all add: env_flag_def env_set_def demo_environ_def)
  then show ?thesis using posture_from_env [OF c] c by auto
qed

theorem refused_deregistration_forgotten_witness:
  "\<not> r1_registered (fst (deregister (\<lambda>q w. ((w :: nat), Returned \<lparr>resp_status = 500, resp_json = Inl ValueError\<rparr>)) r1_config_default
       \<lparr>r1_breaker = True, r1_world = 0, r1_registered = True, r1_events = []\<rparr>))"
  using refused_deregistration_forgotten
    [of "\<lparr>r1_breaker = True, r1_world = 0, r1_registered = True, r1_events = []\<rparr>"
        "\<lambda>q w. ((w :: nat), Returned \<lparr>resp_status = 500, resp_json = Inl ValueError\<rparr>)" r1_config_default
        "\<lparr>resp_status = 500, resp_json = Inl ValueError\<rparr>"]
  by simp

lemma demo_register:
  "register_r1 demo_breaker demo_smo cfg t0 t1 r =
     (r\<lparr>r1_world := Suc (r1_world r), r1_registered := True\<rparr>, Inr (VDict []))"
  "register_r1 demo_breaker broken_smo cfg t0 t1 r =
     (r\<lparr>r1_world := Suc (r1_world r), r1_registered := True\<rparr>, Inl (PyExn ValueError))"
  by (simp_all add: register_r1_def demo_breaker_def demo_smo_def broken_smo_def call_begin_def call_end_def notify_def
      raise_for_status_def Let_def)

theorem unreadable_answer_half_registers_witness:
  "lc_state (fst (boot (demo_network broken_smo) demo_lc)) = DEGRADED \<and>
   r1_registered (lc_r1 (fst (boot (demo_network broken_smo) demo_lc)))"
  using unreadable_answer_half_registers [of "demo_network broken_smo" demo_lc]
  by (simp add: demo_network_def demo_register)

lemma registers_all:
  "(\<And>p. p \<in> set ts \<Longrightarrow> \<exists>v. policy_create_schema (fst p) = Inr v) \<Longrightarrow>
   \<exists>a' x. register_loop demo_http cfg ts acc a = (a', Inr x)"
proof (induction ts arbitrary: acc a)
  case (Cons p ts)
  obtain name spec where p: "p = (name, spec)" by (cases p)
  from Cons.prems [of p] p obtain v where "policy_create_schema name = Inr v" by auto
  then show ?case using Cons.IH Cons.prems by (simp add: p request_def demo_http_def)
qed simp

lemma demo_boots: "\<exists>lc x. boot (demo_network demo_smo) demo_lc = (lc, Inr x)"
proof -
  have "\<exists>v. policy_create_schema (fst p) = Inr v" if "p \<in> set DEFAULT_POLICY_TYPES" for p
    using that by (auto simp: DEFAULT_POLICY_TYPES_def policy_create_schema_def policy_schema_def)
  then have "\<exists>a x. register_policy_types demo_http a1_config_default (lc_a1 demo_lc) = (a, Inr x)"
    unfolding register_policy_types_def by (intro registers_all) (simp add: a1_config_default_def)
  then show ?thesis by (auto simp: boot_def demo_network_def demo_register Let_def)
qed

theorem readyz_verdict_witness:
  "readyz_status 0 (run lifecycle_step demo_lc [Boot (demo_network demo_smo)]) = 200"
proof -
  obtain lc x where b: "boot (demo_network demo_smo) demo_lc = (lc, Inr x)" using demo_boots by blast
  have "lc_state lc = RUNNING" "is_serving (lc_degradation lc)" "healthz_status 0 lc = 200"
    using boot_sel [OF b] by (simp_all add: demo_lc_def controller_new_def is_serving_def healthz_status_def evaluate_def
        liveness_default_def liveness_new_def)
  then show ?thesis
    using readyz_verdict [OF demo_start_none [unfolded demo_start_def] refl, of 0 "[Boot (demo_network demo_smo)]"] b by simp
qed

definition busy_lc :: "(bool, nat, nat, unit) lifecycle" where
  "busy_lc = demo_lc\<lparr>lc_state := RUNNING, lc_tasks := [1, 2]\<rparr>"

lemma quiet_shutdown:
  "\<not> r1_registered (lc_r1 lc) \<Longrightarrow> snd (snd (shutdown (demo_network demo_smo) evs quiet lc)) = None"
  by (simp add: shutdown_def shutdown_begin_def end_drain_def close_adapters_def deregister_def quiet_def Let_def split: prod.splits)


theorem late_task_outlives_clients_witness:
  "3 \<in> set (lc_tasks (fst (shutdown (demo_network demo_smo) [Submitted 3] quiet busy_lc)))"
proof -
  obtain lc' c e where s: "shutdown (demo_network demo_smo) ([] @ [Submitted 3]) quiet busy_lc = (lc', c, e)"
    by (cases "shutdown (demo_network demo_smo) ([] @ [Submitted 3]) quiet busy_lc")
  have e: "e = None" using quiet_shutdown [of busy_lc "[Submitted 3]"] s by (simp add: busy_lc_def demo_lc_def)
  have tasks: "lc_tasks busy_lc = [1, 2]" by (simp add: busy_lc_def)
  have "3 \<in> set (lc_tasks lc')"
    using late_task_outlives_clients [OF s [unfolded e]] tasks by simp
  then show ?thesis using s by simp
qed

theorem service_protocol_witness:
  "\<exists>n ss out. run_forever (demo_network demo_smo) (Some ''@n'') 0 [Ping 15] True [] quiet None demo_lc = (ss, out) \<and>
     ss_sent ss = ([CHR 0x00, CHR ''n''], ''READY=1'') # replicate (Suc n) ([CHR 0x00, CHR ''n''], ''WATCHDOG=1'') @
       [([CHR 0x00, CHR ''n''], ''STOPPING=1'')]"
proof -
  obtain ss out where r: "run_forever (demo_network demo_smo) (Some ''@n'') 0 [Ping 15] True [] quiet None demo_lc = (ss, out)"
    by (cases "run_forever (demo_network demo_smo) (Some ''@n'') 0 [Ping 15] True [] quiet None demo_lc")
  obtain lc x where b: "boot (demo_network demo_smo) demo_lc = (lc, Inr x)" using demo_boots by blast
  show ?thesis using service_protocol [OF r, of "[CHR 0x00, CHR ''n'']"] b r by (auto simp: notify_address_def)
qed

definition counted_lc :: "(bool, nat, nat, unit) lifecycle" where
  "counted_lc = demo_lc\<lparr>lc_a1 := (lc_a1 demo_lc)\<lparr>a1_emitted := 7\<rparr>, lc_last_decision := VStr ''d''\<rparr>"

theorem checkpoint_restores_witness:
  "\<exists>lc'. demo_start (Some (state_snapshot counted_lc)) = Inr lc' \<and> lc_emitted lc' = 7 \<and> lc_last_decision lc' = VStr ''d''"
  using checkpoint_restores [OF demo_start_none [unfolded demo_start_def], of counted_lc]
  by (auto simp: demo_start_def counted_lc_def demo_lc_def)

theorem restored_count_frozen_witness:
  "\<exists>lc0. demo_start (Some (state_snapshot counted_lc)) = Inr lc0 \<and>
     map_of (state_snapshot (run lifecycle_step lc0 [Happens (A1Works ((lc_a1 demo_lc)\<lparr>a1_emitted := 5\<rparr>))])) ''a1_emitted_count'' =
       Some (VInt 7)"
proof -
  obtain lc0 where l: "demo_start (Some (state_snapshot counted_lc)) = Inr lc0"
    by (auto simp: demo_start_def lifecycle_new_def r1_new_def r1_config_default_def a1_new_def a1_config_default_def
      a1_supported_def restore_from_disk_def state_snapshot_def)
  then have seven: "lc_emitted lc0 = 7"
    using new_sel [OF l [unfolded demo_start_def]] by (simp add: restored_def state_snapshot_def counted_lc_def demo_lc_def)
  show ?thesis
    using restored_count_frozen [OF l [unfolded demo_start_def], of "[Happens (A1Works ((lc_a1 demo_lc)\<lparr>a1_emitted := 5\<rparr>))]"]
      l seven by (intro exI [of _ lc0]) simp
qed

theorem null_count_stops_start_witness:
  "demo_start (Some [(''a1_emitted_count'', VNone)]) = Inl TypeError"
  unfolding demo_start_def
  by (rule null_count_stops_start [OF _ demo_start_none [unfolded demo_start_def]]) simp

end
