(* ===== verification/O1Adapter.thy ===== *)
theory O1Adapter
  imports Lifecycle
begin

text \<open>
  The NETCONF adapter of the O1 interface (\<open>rapp/o1_adapter.py\<close>): its connection, its remote calls, the
  notification loop and the session block. The ncclient session is a parameter: what connecting,
  closing, each request and each poll give. Its exceptions are not those of the HTTP client.
\<close>

section \<open>The connection\<close>

datatype nc_exn = TransportError | OtherNc string

fun nc_call_exn :: "nc_exn \<Rightarrow> call_exn" where
  "nc_call_exn TransportError = NonHTTP ''TransportError''"
| "nc_call_exn (OtherNc s) = NonHTTP s"

text \<open>\<open>o1_mgr\<close> is the manager object, by its \<open>connected\<close> attribute; \<open>o1_world\<close> is the device behind it.\<close>

record ('b, 'w) o1 =
  o1_mgr :: "bool option"
  o1_breaker :: 'b
  o1_world :: 'w

definition o1_new :: "'b \<Rightarrow> 'w \<Rightarrow> ('b, 'w) o1" where
  "o1_new b w = \<lparr>o1_mgr = None, o1_breaker = b, o1_world = w\<rparr>"

definition o1_breaker_config :: breaker_config where
  "o1_breaker_config = \<lparr>cb_name = ''horizon.o1'', cb_fail_max = 5, cb_reset_timeout = 30\<rparr>"

definition is_connected :: "('b, 'w) o1 \<Rightarrow> bool" where
  "is_connected o1 \<longleftrightarrow> o1_mgr o1 = Some True"

definition o1_connect :: "(nc_exn + unit) \<Rightarrow> ('b, 'w) o1 \<Rightarrow> ('b, 'w) o1 \<times> a1_exn option" where
  "o1_connect answer o1 =
     (if is_connected o1 then (o1, None)
      else case answer of
             Inr u \<Rightarrow> (o1\<lparr>o1_mgr := Some True\<rparr>, None)
           | Inl TransportError \<Rightarrow> (o1, Some (PyExn RuntimeError))
           | Inl e \<Rightarrow> (o1, Some (CallExn (nc_call_exn e))))"

definition o1_close :: "nc_exn option \<Rightarrow> ('b, 'w) o1 \<Rightarrow> ('b, 'w) o1 \<times> a1_exn option" where
  "o1_close failure o1 =
     (if o1_mgr o1 = None then (o1, None)
      else (o1\<lparr>o1_mgr := None\<rparr>, map_option (CallExn \<circ> nc_call_exn) failure))"

text \<open>The session block: the connection is closed whatever the body does; an exception of the close replaces the body's.\<close>

definition o1_session ::
  "(nc_exn + unit) \<Rightarrow> (('b, 'w) o1 \<Rightarrow> ('b, 'w) o1 \<times> (a1_exn + 'a)) \<Rightarrow> nc_exn option \<Rightarrow> ('b, 'w) o1 \<Rightarrow> ('b, 'w) o1 \<times> (a1_exn + 'a)" where
  "o1_session answer body failure o1 =
     (case o1_connect answer o1 of
        (o1', Some e) \<Rightarrow> (o1', Inl e)
      | (o1', None) \<Rightarrow>
          (case body o1' of
             (o2, r) \<Rightarrow> (case o1_close failure o2 of (o3, Some e) \<Rightarrow> (o3, Inl e) | (o3, None) \<Rightarrow> (o3, r))))"

section \<open>Remote calls\<close>

datatype nc_request =
    GetConfig string "(string \<times> string) option"
  | EditConfig string string string
  | LockTarget string
  | UnlockTarget string
  | DiscardChanges
  | Commit
  | Dispatch string

type_synonym 'w netconf = "nc_request \<Rightarrow> 'w \<Rightarrow> 'w \<times> (nc_exn + string)"

definition o1_rpc :: "'w netconf \<Rightarrow> nc_request \<Rightarrow> ('b, 'w) o1 \<Rightarrow> ('b, 'w) o1 \<times> (a1_exn + string)" where
  "o1_rpc nc req o1 =
     (if \<not> is_connected o1 then (o1, Inl (PyExn RuntimeError))
      else case nc req (o1_world o1) of
             (w, Inl e) \<Rightarrow> (o1\<lparr>o1_world := w\<rparr>, Inl (CallExn (nc_call_exn e)))
           | (w, Inr xml) \<Rightarrow> (o1\<lparr>o1_world := w\<rparr>, Inr xml))"

definition edit_config :: "'w netconf \<Rightarrow> string \<Rightarrow> string \<Rightarrow> string \<Rightarrow> ('b, 'w) o1 \<Rightarrow> ('b, 'w) o1 \<times> (a1_exn + string)" where
  "edit_config nc config_xml target default_operation = o1_rpc nc (EditConfig target config_xml default_operation)"

definition lock_target :: "'w netconf \<Rightarrow> string \<Rightarrow> ('b, 'w) o1 \<Rightarrow> ('b, 'w) o1 \<times> (a1_exn + string)" where
  "lock_target nc target = o1_rpc nc (LockTarget target)"

definition unlock_target :: "'w netconf \<Rightarrow> string \<Rightarrow> ('b, 'w) o1 \<Rightarrow> ('b, 'w) o1 \<times> (a1_exn + string)" where
  "unlock_target nc target = o1_rpc nc (UnlockTarget target)"

definition discard_changes :: "'w netconf \<Rightarrow> ('b, 'w) o1 \<Rightarrow> ('b, 'w) o1 \<times> (a1_exn + string)" where
  "discard_changes nc = o1_rpc nc DiscardChanges"

definition commit :: "'w netconf \<Rightarrow> ('b, 'w) o1 \<Rightarrow> ('b, 'w) o1 \<times> (a1_exn + string)" where
  "commit nc = o1_rpc nc Commit"

definition NETCONF_NOTIF_NS :: string where
  "NETCONF_NOTIF_NS = ''urn:ietf:params:xml:ns:netconf:notification:1.0''"

definition element :: "string \<Rightarrow> string option \<Rightarrow> string" where
  "element tag v = (case v of None \<Rightarrow> [] | Some [] \<Rightarrow> [] | Some s \<Rightarrow> ''<'' @ tag @ ''>'' @ s @ ''</'' @ tag @ ''>'')"

definition subscription_xml :: "string option \<Rightarrow> string option \<Rightarrow> string option \<Rightarrow> string" where
  "subscription_xml stream start_time stop_time =
     ''<create-subscription xmlns='' @ [CHR 0x22] @ NETCONF_NOTIF_NS @ [CHR 0x22] @ ''>'' @
     element ''stream'' stream @ element ''startTime'' start_time @ element ''stopTime'' stop_time @ ''</create-subscription>''"

definition create_subscription ::
  "'w netconf \<Rightarrow> string option \<Rightarrow> string option \<Rightarrow> string option \<Rightarrow> ('b, 'w) o1 \<Rightarrow> ('b, 'w) o1 \<times> (a1_exn + string)" where
  "create_subscription nc stream start_time stop_time = o1_rpc nc (Dispatch (subscription_xml stream start_time stop_time))"

text \<open>\<open>get_config\<close> alone goes through the circuit breaker.\<close>

definition get_config ::
  "'b pybreaker \<Rightarrow> 'w netconf \<Rightarrow> real \<Rightarrow> real \<Rightarrow> string \<Rightarrow> string option \<Rightarrow> ('b, 'w) o1 \<Rightarrow> ('b, 'w) o1 \<times> (a1_exn + string)" where
  "get_config pb nc t_begin t_end source filter_subtree o1 =
     (let subtree = (case filter_subtree of None \<Rightarrow> None | Some [] \<Rightarrow> None | Some s \<Rightarrow> Some (''subtree'', s))
      in if \<not> is_connected o1 then (o1, Inl (PyExn RuntimeError))
         else case call_begin pb o1_breaker_config t_begin (o1_breaker o1) of
                ((b1, ev), Inl _) \<Rightarrow> (o1\<lparr>o1_breaker := b1\<rparr>, Inl CircuitOpen)
              | ((b1, ev), Inr _) \<Rightarrow>
                  (case nc (GetConfig source subtree) (o1_world o1) of
                     (w, answer) \<Rightarrow>
                       (let out = (case answer of Inl e \<Rightarrow> Raised (nc_call_exn e) | Inr xml \<Rightarrow> Returned xml)
                        in (o1\<lparr>o1_breaker := fst (call_end pb o1_breaker_config t_end out b1), o1_world := w\<rparr>,
                            case out of Raised e \<Rightarrow> Inl (CallExn e) | Returned xml \<Rightarrow> Inr xml))))"

section \<open>Notifications\<close>

text \<open>A notification: its \<open>notification_xml\<close>, its text, its stream.\<close>

record notification =
  nf_xml :: "string option"
  nf_str :: string
  nf_stream :: "string option"

definition raw_xml :: "notification \<Rightarrow> string" where
  "raw_xml n = (case nf_xml n of None \<Rightarrow> nf_str n | Some [] \<Rightarrow> nf_str n | Some x \<Rightarrow> x)"

definition notification_event :: "notification \<Rightarrow> real \<Rightarrow> (string \<times> pyval) list" where
  "notification_event n ts =
     [(''modality'', VStr ''o1_netconf''), (''stream'', case nf_stream n of None \<Rightarrow> VNone | Some s \<Rightarrow> VStr s),
      (''raw_xml'', VStr (raw_xml n)), (''received_ts'', VFloat (Fin ts))]"

text \<open>A round: the clock at its start, what polling gives, and the clock when an event is yielded.\<close>

datatype iter_end = Polling | DeadlinePassed | PollRaised nc_exn

type_synonym iter_round = "real \<times> (nc_exn + notification option) \<times> real"

fun notif_loop :: "real option \<Rightarrow> iter_round list \<Rightarrow> (string \<times> pyval) list list \<times> iter_end" where
  "notif_loop deadline [] = ([], Polling)"
| "notif_loop deadline ((now, polled, ts) # rounds) =
     (if (case deadline of None \<Rightarrow> False | Some d \<Rightarrow> d < now) then ([], DeadlinePassed)
      else case polled of
             Inl e \<Rightarrow> ([], PollRaised e)
           | Inr None \<Rightarrow> notif_loop deadline rounds
           | Inr (Some n) \<Rightarrow> (case notif_loop deadline rounds of (evs, e) \<Rightarrow> (notification_event n ts # evs, e)))"

definition iter_notifications ::
  "real \<Rightarrow> real option \<Rightarrow> iter_round list \<Rightarrow> ('b, 'w) o1 \<Rightarrow> a1_exn + (string \<times> pyval) list list \<times> iter_end" where
  "iter_notifications start timeout rounds o1 =
     (if \<not> is_connected o1 then Inl (PyExn RuntimeError)
      else Inr (notif_loop (map_option (\<lambda>t. start + t) timeout) rounds))"

section \<open>Properties\<close>

text \<open>
  A session block whose connection comes up leaves no session behind, whatever the body and the close
  do; one whose connection fails never runs its body.
\<close>

theorem session_closes:
  "o1_mgr (fst (o1_session answer body failure o1)) = None \<or>
   (\<exists>e. o1_connect answer o1 = (o1, Some e) \<and> o1_session answer body failure o1 = (o1, Inl e))"
  by (auto simp: o1_session_def o1_connect_def o1_close_def split: prod.splits sum.splits nc_exn.splits option.splits if_splits)

text \<open>Nothing is sent while the session is down.\<close>

theorem no_call_unconnected:
  assumes "\<not> is_connected o1"
  shows "o1_rpc nc req o1 = (o1, Inl (PyExn RuntimeError))"
    and "get_config pb nc t t' source subtree o1 = (o1, Inl (PyExn RuntimeError))"
    and "iter_notifications start timeout rounds o1 = Inl (PyExn RuntimeError)"
  using assms by (simp_all add: o1_rpc_def get_config_def iter_notifications_def)

text \<open>A sequence of reads: each with its times and arguments.\<close>

primrec get_configs ::
  "'b pybreaker \<Rightarrow> 'w netconf \<Rightarrow> (real \<times> real \<times> string \<times> string option) list \<Rightarrow> ('b, 'w) o1 \<Rightarrow> ('b, 'w) o1" where
  "get_configs pb nc [] o1 = o1"
| "get_configs pb nc (c # cs) o1 =
     get_configs pb nc cs (fst (get_config pb nc (fst c) (fst (snd c)) (fst (snd (snd c))) (snd (snd (snd c))) o1))"

lemma nc_not_failure [simp]: "\<not> is_failure (nc_call_exn e)"
  by (cases e) simp_all

lemma get_config_stays_closed:
  assumes "pybreaker_ok pb (cb_fail_max o1_breaker_config)" "pb_state pb (o1_breaker o1) = ''closed''" "is_connected o1"
  shows "pb_state pb (o1_breaker (fst (get_config pb nc t t' source subtree o1))) = ''closed'' \<and>
    is_connected (fst (get_config pb nc t t' source subtree o1)) \<and> snd (get_config pb nc t t' source subtree o1) \<noteq> Inl CircuitOpen"
  using assms
  by (auto simp: get_config_def call_begin_def call_end_def pybreaker_ok_def closed_ok_def is_connected_def Let_def
      split: prod.splits sum.splits outcome.splits)

text \<open>
  The breaker of the adapter never opens: however many reads of the device fail in a row, the failures
  of ncclient count as successes, and the next read is sent.
\<close>

theorem o1_breaker_never_opens:
  assumes "pybreaker_ok pb (cb_fail_max o1_breaker_config)" "pb_state pb (o1_breaker o1) = ''closed''" "is_connected o1"
  shows "pb_state pb (o1_breaker (get_configs pb nc cs o1)) = ''closed'' \<and>
    snd (get_config pb nc t t' source subtree (get_configs pb nc cs o1)) \<noteq> Inl CircuitOpen"
  using assms
proof (induction cs arbitrary: o1)
  case Nil
  then show ?case using get_config_stays_closed [OF Nil] by simp
next
  case (Cons c cs)
  then show ?case using get_config_stays_closed [OF Cons.prems] by simp
qed

text \<open>
  The notification loop stops at \<open>start + timeout\<close>, although notifications may have arrived up to that
  moment: the rounds after it do not matter, and everything yielded was polled before it.
\<close>

lemma notif_loop_deadline:
  "d < now \<Longrightarrow> \<exists>e evs. notif_loop (Some d) (rs @ (now, polled, ts) # rest) = (evs, e) \<and> e \<noteq> Polling \<and>
     notif_loop (Some d) (rs @ (now, polled', ts') # rest') = (evs, e)"
  by (induction "Some d" rs rule: notif_loop.induct) (auto split: sum.splits option.splits prod.splits)

theorem notifications_stop_at_deadline:
  assumes "start + timeout < now" "is_connected o1"
  shows "\<exists>evs e. e \<noteq> Polling \<and>
    (\<forall>polled ts rest. iter_notifications start (Some timeout) (rs @ (now, polled, ts) # rest) o1 = Inr (evs, e))"
proof -
  obtain evs e where e: "notif_loop (Some (start + timeout)) (rs @ [(now, Inr None, 0)]) = (evs, e)" "e \<noteq> Polling"
    using notif_loop_deadline [OF assms(1), of rs "Inr None" 0 "[]"] by blast
  have "notif_loop (Some (start + timeout)) (rs @ (now, polled, ts) # rest) = (evs, e)" for polled ts rest
    using notif_loop_deadline [OF assms(1), of rs polled ts rest "Inr None" 0 "[]"] e(1) by auto
  with e(2) assms(2) show ?thesis by (auto simp: iter_notifications_def)
qed

text \<open>Without a timeout a session that was closed is polled for ever: no number of empty polls ends the loop.\<close>

theorem closed_session_polled_forever:
  "is_connected o1 \<Longrightarrow> \<forall>r \<in> set rounds. fst (snd r) = Inr None \<Longrightarrow>
   iter_notifications start None rounds o1 = Inr ([], Polling)"
proof -
  have "\<forall>r \<in> set rounds. fst (snd r) = Inr None \<Longrightarrow> notif_loop None rounds = ([], Polling)"
    by (induction rounds) auto
  then show "is_connected o1 \<Longrightarrow> \<forall>r \<in> set rounds. fst (snd r) = Inr None \<Longrightarrow>
   iter_notifications start None rounds o1 = Inr ([], Polling)" by (simp add: iter_notifications_def)
qed

end
