(* ===== verification/Daemon.thy ===== *)
theory Daemon
  imports Lifecycle
begin

text \<open>
  The production daemon (\<open>rapp/daemon.py\<close>): its configuration, the checkpoint it resumes from, the
  telemetry sources, the loop that hands events to the decision pipeline, and its end with the final
  checkpoint, the report and the exit code. The YAML and JSON parsers, the validation of time stamps,
  the Kafka client and the clock are parameters; metrics, logs and the admin server are left out.
\<close>

section \<open>Configuration\<close>

definition DaemonStartupError :: py_exn where "DaemonStartupError = OtherExn ''DaemonStartupError''"

record daemon_config =
  dc_source_type :: pyval
  dc_source_path :: pyval
  dc_synthetic_count :: int
  dc_synthetic_interval :: pyfloat
  dc_risk_profile :: pyval
  dc_audit_path :: pyval
  dc_health_port :: int
  dc_metrics_port :: int
  dc_state_path :: pyval
  dc_state_interval :: pyfloat
  dc_once :: bool
  dc_once_max_events :: int
  dc_report_json :: "string option"
  dc_extra :: "(string \<times> pyval) list"

definition daemon_config_default :: daemon_config where
  "daemon_config_default =
     \<lparr>dc_source_type = VStr ''file'', dc_source_path = VStr ''data/replay.jsonl'', dc_synthetic_count = 0,
      dc_synthetic_interval = Fin 10, dc_risk_profile = VNone, dc_audit_path = VStr ''/var/lib/horizon/audit.jsonl'',
      dc_health_port = 8081, dc_metrics_port = 8082, dc_state_path = VStr ''/var/lib/horizon/state.json'',
      dc_state_interval = Fin 30, dc_once = False, dc_once_max_events = 10, dc_report_json = None, dc_extra = []\<rparr>"

text \<open>\<open>v.get(k, dflt)\<close> on a value that may not be a dictionary.\<close>

definition vget :: "pyval \<Rightarrow> string \<Rightarrow> pyval \<Rightarrow> pyval res" where
  "vget v k dflt = (case v of VDict d \<Rightarrow> Inr (case map_of d k of None \<Rightarrow> dflt | Some x \<Rightarrow> x) | _ \<Rightarrow> Inl AttributeError)"

definition or_dict :: "pyval \<Rightarrow> pyval" where "or_dict v = (if truthy v then v else VDict [])"

text \<open>\<open>doc\<close> is what \<open>yaml.safe_load\<close> gives for the file, if there is one.\<close>

definition daemon_config_from_yaml :: "platform \<Rightarrow> pyval res option \<Rightarrow> daemon_config res" where
  "daemon_config_from_yaml pl doc =
     (case doc of
        None \<Rightarrow> Inl FileNotFoundError
      | Some loaded \<Rightarrow>
          let d = daemon_config_default
          in bindE loaded (\<lambda>v. let raw = or_dict v in
             bindE (vget raw ''source'' (VDict [])) (\<lambda>src0. let src = or_dict src0 in
             bindE (vget src ''type'' (dc_source_type d)) (\<lambda>ty.
             bindE (vget src ''path'' (dc_source_path d)) (\<lambda>path.
             bindE (bindE (vget src ''count'' (VInt (dc_synthetic_count d))) (py_int pl)) (\<lambda>cnt.
             bindE (bindE (vget src ''interval_seconds'' (VFloat (dc_synthetic_interval d))) (py_float pl)) (\<lambda>interval.
             bindE (vget src ''risk_profile'' (dc_risk_profile d)) (\<lambda>profile.
             bindE (vget raw ''sink'' (VDict [])) (\<lambda>sink.
             bindE (vget sink ''audit_path'' (dc_audit_path d)) (\<lambda>audit.
             bindE (bindE (bindE (vget raw ''health'' (VDict [])) (\<lambda>h. vget h ''port'' (VInt (dc_health_port d)))) (py_int pl)) (\<lambda>hport.
             bindE (bindE (bindE (vget raw ''metrics'' (VDict [])) (\<lambda>h. vget h ''port'' (VInt (dc_metrics_port d)))) (py_int pl)) (\<lambda>mport.
             bindE (vget raw ''state'' (VDict [])) (\<lambda>st.
             bindE (vget st ''checkpoint_path'' (dc_state_path d)) (\<lambda>spath.
             bindE (bindE (vget st ''interval_seconds'' (VFloat (dc_state_interval d))) (py_float pl)) (\<lambda>sint.
               Inr (d\<lparr>dc_source_type := ty, dc_source_path := path, dc_synthetic_count := cnt, dc_synthetic_interval := interval,
                      dc_risk_profile := profile, dc_audit_path := audit, dc_health_port := hport, dc_metrics_port := mport,
                      dc_state_path := spath, dc_state_interval := sint,
                      dc_extra := (case raw of VDict kvs \<Rightarrow> kvs | _ \<Rightarrow> [])\<rparr>))))))))))))))))"

section \<open>The checkpoint\<close>

record checkpoint =
  ck_last_event :: pyval
  ck_events :: int
  ck_decisions :: int
  ck_utc :: pyval

definition checkpoint_new :: checkpoint where
  "checkpoint_new = \<lparr>ck_last_event = VNone, ck_events = 0, ck_decisions = 0, ck_utc = VStr []\<rparr>"

text \<open>
  \<open>file\<close>: no file, or what opening and reading it gives; \<open>parse\<close> is \<open>json.load\<close>. \<open>OSError\<close>,
  \<open>ValueError\<close> and \<open>KeyError\<close> mean a fresh checkpoint; other exceptions leave.
\<close>

definition checkpoint_of :: "platform \<Rightarrow> pyval \<Rightarrow> checkpoint res" where
  "checkpoint_of pl obj =
     bindE (vget obj ''last_event_id'' VNone) (\<lambda>last.
     bindE (bindE (vget obj ''events_processed'' (VInt 0)) (py_int pl)) (\<lambda>events.
     bindE (bindE (vget obj ''decisions_emitted'' (VInt 0)) (py_int pl)) (\<lambda>decisions.
     bindE (vget obj ''last_checkpoint_utc'' (VStr [])) (\<lambda>utc.
       Inr \<lparr>ck_last_event = last, ck_events = events, ck_decisions = decisions, ck_utc = utc\<rparr>))))"

definition checkpoint_load :: "platform \<Rightarrow> (string \<Rightarrow> pyval option) \<Rightarrow> string res option \<Rightarrow> checkpoint res" where
  "checkpoint_load pl parse file_text =
     (case file_text of
        None \<Rightarrow> Inr checkpoint_new
      | Some text_or_exn \<Rightarrow>
          (case bindE text_or_exn (\<lambda>txt. bindE (case parse txt of None \<Rightarrow> Inl ValueError | Some v \<Rightarrow> Inr v) (checkpoint_of pl)) of
             Inr ck \<Rightarrow> Inr ck
           | Inl e \<Rightarrow> if e \<in> {OSError, ValueError, KeyError} then Inr checkpoint_new else Inl e))"

definition checkpoint_dump :: "checkpoint \<Rightarrow> (string \<times> pyval) list" where
  "checkpoint_dump ck =
     [(''decisions_emitted'', VInt (ck_decisions ck)), (''events_processed'', VInt (ck_events ck)),
      (''last_checkpoint_utc'', ck_utc ck), (''last_event_id'', ck_last_event ck)]"

text \<open>The effects of a save on the disk: unlike \<open>save_state\<close> of \<open>Storage\<close> nothing is synced, and the temporary name is fixed.\<close>

definition checkpoint_effects :: "string \<Rightarrow> nat \<Rightarrow> string list \<Rightarrow> effect list" where
  "checkpoint_effects path n chunks =
     Create (path @ ''.tmp'') n # map (Write n) chunks @ [Replace (path @ ''.tmp'') path]"

section \<open>Sources\<close>

definition RISK_CYCLE :: "platform \<Rightarrow> pyfloat list" where
  "RISK_CYCLE pl = map (rnd pl) [5 / 100, 2 / 10, 35 / 100, 5 / 10, 65 / 100, 8 / 10, 9 / 10]"

definition synthetic_risk :: "platform \<Rightarrow> pyval \<Rightarrow> nat \<Rightarrow> pyfloat" where
  "synthetic_risk pl profile i =
     (if profile = VStr ''cycle'' then RISK_CYCLE pl ! (i mod 7)
      else fadd pl (rnd pl (5 / 100)) (fmul pl (rnd pl (1 / 100)) (Fin (of_nat (i mod 25)))))"

definition zero_padded :: "nat \<Rightarrow> string" where
  "zero_padded i = (let s = nat_str i in replicate (6 - length s) (CHR ''0'') @ s)"

definition synthetic_event :: "platform \<Rightarrow> pyval \<Rightarrow> nat \<Rightarrow> telemetry_event" where
  "synthetic_event pl profile i =
     \<lparr>te_event_id = ''synthetic-'' @ zero_padded i, te_source_id = ''synthetic'',
      te_payload = [''sla_risk_30s'' \<mapsto> VFloat (synthetic_risk pl profile i)]\<rparr>"

text \<open>The first \<open>k\<close> events the generator yields; a count of zero is unbounded.\<close>

definition synthetic_events :: "platform \<Rightarrow> int \<Rightarrow> pyval \<Rightarrow> nat \<Rightarrow> telemetry_event list" where
  "synthetic_events pl cnt profile k =
     map (synthetic_event pl profile) [0..<(if cnt = 0 then k else min k (nat cnt))]"

definition MODALITIES :: "string list" where
  "MODALITIES = [''kpm_5g'', ''kpm_ntn'', ''spectrum_iq'', ''spectrum_psd'', ''tle'', ''ephemeris_oem'', ''weather_grib'',
     ''thermal'', ''spectrum_lbt'', ''ue_qos'', ''isac_radar'', ''user_event'', ''synthetic'']"

text \<open>
  \<open>TelemetryEvent.model_validate\<close>: \<open>aware\<close> tells whether a value is an aware time stamp, \<open>int_ok\<close>
  whether pydantic takes it as an integer.
\<close>

definition str_field :: "pyval option \<Rightarrow> bool" where
  "str_field v = (case v of Some (VStr s) \<Rightarrow> True | _ \<Rightarrow> False)"

definition telemetry_ok :: "(pyval \<Rightarrow> bool) \<Rightarrow> (pyval \<Rightarrow> bool) \<Rightarrow> (string \<times> pyval) list \<Rightarrow> bool" where
  "telemetry_ok aware int_ok d \<longleftrightarrow>
     (map_of d ''schema_version'' = None \<or> str_field (map_of d ''schema_version'')) \<and>
     str_field (map_of d ''event_id'') \<and> str_field (map_of d ''source_id'') \<and>
     (\<exists>m \<in> set MODALITIES. map_of d ''modality'' = Some (VStr m)) \<and>
     (case map_of d ''ts_utc'' of None \<Rightarrow> False | Some v \<Rightarrow> aware v) \<and>
     (case map_of d ''monotonic_ns'' of None \<Rightarrow> True | Some v \<Rightarrow> v = VNone \<or> int_ok v) \<and>
     (case map_of d ''sequence'' of None \<Rightarrow> True | Some v \<Rightarrow> v = VNone \<or> int_ok v) \<and>
     (case map_of d ''payload'' of None \<Rightarrow> True | Some (VDict p) \<Rightarrow> True | Some _ \<Rightarrow> False) \<and>
     (case map_of d ''tags'' of None \<Rightarrow> True | Some (VDict p) \<Rightarrow> list_all (\<lambda>kv. str_field (Some (snd kv))) p | Some _ \<Rightarrow> False)"

definition the_str :: "pyval option \<Rightarrow> string" where
  "the_str v = (case v of Some (VStr s) \<Rightarrow> s | _ \<Rightarrow> [])"

definition telemetry_validate :: "(pyval \<Rightarrow> bool) \<Rightarrow> (pyval \<Rightarrow> bool) \<Rightarrow> pyval \<Rightarrow> telemetry_event option" where
  "telemetry_validate aware int_ok v =
     (case v of
        VDict d \<Rightarrow>
          if telemetry_ok aware int_ok d then
            Some \<lparr>te_event_id = the_str (map_of d ''event_id''), te_source_id = the_str (map_of d ''source_id''),
                  te_payload = (case map_of d ''payload'' of Some (VDict p) \<Rightarrow> map_of p | _ \<Rightarrow> Map.empty)\<rparr>
          else None
      | _ \<Rightarrow> None)"

text \<open>One line of the telemetry file: a row of another kind is skipped, a line that does not parse or validate is malformed.\<close>

datatype line_kind = Telemetry telemetry_event | OtherRow | Malformed

definition read_line :: "(string \<Rightarrow> pyval option) \<Rightarrow> (pyval \<Rightarrow> telemetry_event option) \<Rightarrow> string \<Rightarrow> line_kind" where
  "read_line parse validate line =
     (case parse line of
        None \<Rightarrow> Malformed
      | Some obj \<Rightarrow>
          let wrapped = (case obj of VDict d \<Rightarrow> map_of d ''schema'' \<noteq> None \<and> map_of d ''data'' \<noteq> None | _ \<Rightarrow> False);
              field = (\<lambda>k. case obj of VDict d \<Rightarrow> the (map_of d k) | _ \<Rightarrow> VNone)
          in if wrapped \<and> field ''schema'' \<noteq> VStr ''telemetry'' then OtherRow
             else (case validate (if wrapped then field ''data'' else obj) of None \<Rightarrow> Malformed | Some ev \<Rightarrow> Telemetry ev))"

definition file_events :: "(string \<Rightarrow> pyval option) \<Rightarrow> (pyval \<Rightarrow> telemetry_event option) \<Rightarrow> string list \<Rightarrow> telemetry_event list" where
  "file_events parse validate ls =
     List.map_filter (\<lambda>l. case read_line parse validate l of Telemetry ev \<Rightarrow> Some ev | _ \<Rightarrow> None) (filter (\<lambda>l. \<not> py_blank l) ls)"

definition malformed_lines :: "(string \<Rightarrow> pyval option) \<Rightarrow> (pyval \<Rightarrow> telemetry_event option) \<Rightarrow> string list \<Rightarrow> nat" where
  "malformed_lines parse validate ls = length (filter (\<lambda>l. \<not> py_blank l \<and> read_line parse validate l = Malformed) ls)"

text \<open>Resume after the first event with the id of the checkpoint; all events when there is none.\<close>

fun find_event :: "pyval \<Rightarrow> nat \<Rightarrow> telemetry_event list \<Rightarrow> nat" where
  "find_event resume i [] = 0"
| "find_event resume i (ev # evs) = (if VStr (te_event_id ev) = resume then i + 1 else find_event resume (i + 1) evs)"

definition resumed_events :: "pyval \<Rightarrow> telemetry_event list \<Rightarrow> telemetry_event list" where
  "resumed_events resume evs = (if truthy resume then drop (find_event resume 0 evs) evs else evs)"

text \<open>
  The source: the items it yields within \<open>k\<close> reads, and the malformed lines met while opening it.
  \<open>lines\<close> is the telemetry file, if it exists; \<open>kafka\<close> what configuring, connecting and streaming give.
\<close>

definition open_source ::
  "platform \<Rightarrow> (string \<Rightarrow> pyval option) \<Rightarrow> (pyval \<Rightarrow> telemetry_event option) \<Rightarrow> daemon_config \<Rightarrow> checkpoint \<Rightarrow>
   string list option \<Rightarrow> (telemetry_event res list) res \<Rightarrow> nat \<Rightarrow> (telemetry_event res list \<times> nat) res" where
  "open_source pl parse validate cfg ck file_lines kafka k =
     (if dc_source_type cfg = VStr ''file'' then
        (case file_lines of
           None \<Rightarrow> if dc_once cfg then Inr (map Inr (synthetic_events pl (dc_once_max_events cfg) VNone k), 0)
                   else Inl DaemonStartupError
         | Some ls \<Rightarrow> Inr (map Inr (resumed_events (ck_last_event ck) (file_events parse validate ls)),
                           malformed_lines parse validate ls))
      else if dc_source_type cfg = VStr ''synthetic'' then
        Inr (map Inr (synthetic_events pl (dc_synthetic_count cfg) (dc_risk_profile cfg) k), 0)
      else if dc_source_type cfg = VStr ''kafka'' then
        (case kafka of Inl e \<Rightarrow> Inl (if e = OtherExn ''ConnectorError'' then DaemonStartupError else e) | Inr items \<Rightarrow> Inr (items, 0))
      else Inl DaemonStartupError)"

section \<open>The loop\<close>

text \<open>
  One round of the loop: whether the stop signal is there (or wins the race against the next event),
  what the pipeline takes from its environment, the clock, and what saving the checkpoint raises.
\<close>

record tick =
  tk_stop :: bool
  tk_env :: pipe_env
  tk_now :: real
  tk_utc :: string
  tk_save :: "py_exn option"

record 'a daemon =
  dm_a1 :: 'a
  dm_ck :: checkpoint
  dm_file :: "(string \<times> pyval) list option"
  dm_last_save :: real
  dm_ingested :: nat
  dm_accepted :: nat
  dm_blocked :: nat
  dm_failed :: nat
  dm_errors :: nat
  dm_dry_run :: nat
  dm_enforced :: nat
  dm_malformed :: nat
  dm_policy_ids :: "string list"
  dm_audit_len :: nat

datatype loop_end = Waiting | Stopped | Exhausted | BatchDone | SaveRaised py_exn

definition save_checkpoint :: "string \<Rightarrow> py_exn option \<Rightarrow> 'a daemon \<Rightarrow> 'a daemon" where
  "save_checkpoint utc failure d =
     (let ck = (dm_ck d)\<lparr>ck_utc := VStr utc\<rparr>
      in d\<lparr>dm_ck := ck, dm_file := (case failure of None \<Rightarrow> Some (checkpoint_dump ck) | Some e \<Rightarrow> dm_file d)\<rparr>)"

definition account :: "pipeline_result \<Rightarrow> 'a daemon \<Rightarrow> 'a daemon" where
  "account r d =
     (if pr_blocked r then d\<lparr>dm_blocked := dm_blocked d + 1\<rparr>
      else if pr_dry_run r then d\<lparr>dm_dry_run := dm_dry_run d + 1\<rparr>
      else if pr_emit_failed r then d\<lparr>dm_failed := dm_failed d + 1\<rparr>
      else d\<lparr>dm_accepted := dm_accepted d + 1, dm_ck := (dm_ck d)\<lparr>ck_decisions := ck_decisions (dm_ck d) + 1\<rparr>,
             dm_policy_ids := dm_policy_ids d @ (case pr_policy_id r of Some p \<Rightarrow> if p = [] then [] else [p] | None \<Rightarrow> []),
             dm_enforced := dm_enforced d + (if pr_enforced r = Some True then 1 else 0)\<rparr>)"

text \<open>A processed event: the counts, and the checkpoint moves to it.\<close>

definition event_done :: "telemetry_event \<Rightarrow> pipeline_result \<Rightarrow> 'a daemon \<Rightarrow> 'a daemon" where
  "event_done ev r d =
     (let d1 = account r (d\<lparr>dm_audit_len := dm_audit_len d + 1\<rparr>)
      in d1\<lparr>dm_ck := (dm_ck d1)\<lparr>ck_last_event := VStr (te_event_id ev), ck_events := ck_events (dm_ck d1) + 1\<rparr>\<rparr>)"

definition save_due :: "pyfloat \<Rightarrow> tick \<Rightarrow> 'a daemon \<Rightarrow> bool" where
  "save_due interval t d \<longleftrightarrow> flt interval (Fin (tk_now t - dm_last_save d))"

text \<open>The rest of a round whose event was processed: the counts, a save when one is due, the check of \<open>--once\<close>.\<close>

definition end_round :: "daemon_config \<Rightarrow> tick \<Rightarrow> telemetry_event \<Rightarrow> pipeline_result \<Rightarrow> 'a daemon \<Rightarrow> 'a daemon \<times> loop_end option" where
  "end_round cfg t ev r d =
     (let d1 = event_done ev r d; due = save_due (dc_state_interval cfg) t d1;
          d2 = (if due then save_checkpoint (tk_utc t) (tk_save t) d1 else d1)
      in case (if due then tk_save t else None) of
           Some e \<Rightarrow> (d2, Some (SaveRaised e))
         | None \<Rightarrow>
             (let d3 = (if due then d2\<lparr>dm_last_save := tk_now t\<rparr> else d2)
              in (d3, if dc_once cfg \<and> dc_once_max_events cfg \<le> int (dm_ingested d3) then Some BatchDone else None)))"

type_synonym 'a process = "pipe_env \<Rightarrow> telemetry_event \<Rightarrow> 'a \<Rightarrow> 'a \<times> (a1_exn + pipeline_result)"

text \<open>
  The sources are asynchronous generators: one that raised has ended. A pipeline that raises skips the
  rest of the round, the check of \<open>--once\<close> included; a periodic save that raises leaves the loop.
\<close>

fun daemon_loop ::
  "'a process \<Rightarrow> daemon_config \<Rightarrow> tick list \<Rightarrow> telemetry_event res list \<Rightarrow> 'a daemon \<Rightarrow> 'a daemon \<times> loop_end" where
  "daemon_loop process cfg [] items d = (d, Waiting)"
| "daemon_loop process cfg (t # ts) items d =
     (if tk_stop t then (d, Stopped)
      else case items of
        [] \<Rightarrow> (d, Exhausted)
      | Inl e # rest \<Rightarrow> daemon_loop process cfg ts [] (d\<lparr>dm_malformed := dm_malformed d + 1\<rparr>)
      | Inr ev # rest \<Rightarrow>
          (let d1 = d\<lparr>dm_ingested := dm_ingested d + 1\<rparr>
           in case process (tk_env t) ev (dm_a1 d1) of
                (a, Inl e) \<Rightarrow> daemon_loop process cfg ts rest (d1\<lparr>dm_a1 := a, dm_errors := dm_errors d1 + 1\<rparr>)
              | (a, Inr r) \<Rightarrow>
                  (case end_round cfg t ev r (d1\<lparr>dm_a1 := a\<rparr>) of
                     (d2, Some e) \<Rightarrow> (d2, e)
                   | (d2, None) \<Rightarrow> daemon_loop process cfg ts rest d2)))"

definition daemon_start :: "'a \<Rightarrow> checkpoint \<Rightarrow> (string \<times> pyval) list option \<Rightarrow> real \<Rightarrow> nat \<Rightarrow> nat \<Rightarrow> 'a daemon" where
  "daemon_start a ck saved now malformed audit_len =
     \<lparr>dm_a1 = a, dm_ck = ck, dm_file = saved, dm_last_save = now, dm_ingested = 0, dm_accepted = 0, dm_blocked = 0,
      dm_failed = 0, dm_errors = 0, dm_dry_run = 0, dm_enforced = 0, dm_malformed = malformed, dm_policy_ids = [],
      dm_audit_len = audit_len\<rparr>"

section \<open>The end\<close>

record report =
  rp_events :: nat
  rp_accepted :: nat
  rp_blocked :: nat
  rp_emit_failed :: nat
  rp_errors :: nat
  rp_dry_run :: nat
  rp_malformed :: nat
  rp_enforced :: nat
  rp_policy_ids :: "string list"
  rp_audit_chain_length :: nat
  rp_first_broken :: int

text \<open>\<open>verify\<close> and \<open>len\<close> of the store; both are guarded.\<close>

definition report_of :: "('a \<Rightarrow> int res) \<Rightarrow> ('a \<Rightarrow> nat res) \<Rightarrow> 'a daemon \<Rightarrow> report" where
  "report_of verify_chain chain_len d =
     \<lparr>rp_events = dm_ingested d, rp_accepted = dm_accepted d, rp_blocked = dm_blocked d, rp_emit_failed = dm_failed d,
      rp_errors = dm_errors d, rp_dry_run = dm_dry_run d, rp_malformed = dm_malformed d, rp_enforced = dm_enforced d,
      rp_policy_ids = dm_policy_ids d,
      rp_audit_chain_length = (case chain_len (dm_a1 d) of Inr n \<Rightarrow> n | Inl e \<Rightarrow> dm_audit_len d),
      rp_first_broken = (case verify_chain (dm_a1 d) of Inr i \<Rightarrow> i | Inl e \<Rightarrow> - 1)\<rparr>"

definition exit_code :: "daemon_config \<Rightarrow> environ \<Rightarrow> 'a daemon \<Rightarrow> int" where
  "exit_code cfg environ d =
     (if dc_once cfg \<and> environ ''HORIZON_ONCE_REQUIRE_ACCEPTED'' = Some ''1'' \<and> dm_accepted d < 1 then 1 else 0)"

text \<open>The final block: a guarded save, the report, the shutdown that is never skipped, and then the result.\<close>

record closing_env =
  ce_utc :: string
  ce_save :: "py_exn option"
  ce_drain :: "drain_event list"
  ce_closing :: closing

datatype run_exn = LoopExn py_exn | CloseExn call_exn

definition daemon_finish ::
  "('b, 'w, 'v) network \<Rightarrow> (('b, 'v, 's) a1 \<Rightarrow> int res) \<Rightarrow> (('b, 'v, 's) a1 \<Rightarrow> nat res) \<Rightarrow> daemon_config \<Rightarrow> environ \<Rightarrow> closing_env \<Rightarrow>
   ('b, 'w, 'v, 's) lifecycle \<Rightarrow> ('b, 'v, 's) a1 daemon \<times> loop_end \<Rightarrow>
   ('b, 'w, 'v, 's) lifecycle \<times> ('b, 'v, 's) a1 daemon \<times> report \<times> (run_exn + int)" where
  "daemon_finish nw verify_chain chain_len cfg environ ce lc de =
     (case de of (d0, le) \<Rightarrow>
        let d = save_checkpoint (ce_utc ce) (ce_save ce) d0;
            (lc', cancelled, e) = shutdown nw (ce_drain ce) (ce_closing ce) (lc\<lparr>lc_a1 := dm_a1 d\<rparr>)
        in (lc', d, report_of verify_chain chain_len d,
            case e of Some x \<Rightarrow> Inl (CloseExn x)
            | None \<Rightarrow> (case le of SaveRaised x \<Rightarrow> Inl (LoopExn x) | _ \<Rightarrow> Inr (exit_code cfg environ d))))"

section \<open>The whole daemon\<close>

text \<open>What the daemon finds when it starts: third-party code, the environment, files and the network.\<close>

record ('b, 'w, 'v, 's) host =
  ho_pb :: "'b pybreaker"
  ho_smo :: "'w r1_http"
  ho_ric :: "'v http"
  ho_environ :: environ
  ho_parse :: "string \<Rightarrow> pyval option"
  ho_validate :: "pyval \<Rightarrow> telemetry_event option"
  ho_checkpoint :: "string res option"
  ho_saved :: "(string \<times> pyval) list option"
  ho_lines :: "string list option"
  ho_kafka :: "(telemetry_event res list) res"
  ho_prior :: "(string \<times> pyval) list option"
  ho_breaker :: 'b
  ho_smo_world :: 'w
  ho_ric_world :: 'v
  ho_no_store :: 's
  ho_store :: 's
  ho_verify :: "'s \<Rightarrow> int res"
  ho_len :: "'s \<Rightarrow> nat res"
  ho_t0 :: real
  ho_t1 :: real

definition host_network :: "('b, 'w, 'v, 's) host \<Rightarrow> rapp_config \<Rightarrow> ('b, 'w, 'v) network" where
  "host_network h rc =
     \<lparr>nw_pb = ho_pb h, nw_smo = ho_smo h, nw_ric = ho_ric h, nw_r1_cfg = rc_r1 rc, nw_a1_cfg = rc_a1 rc,
      nw_t_begin = ho_t0 h, nw_t_end = ho_t1 h\<rparr>"

text \<open>
  Boot, tolerating every failure; the store is attached, and after a failed boot the A1 policy types
  are registered once more, whatever that gives.
\<close>

definition boot_tolerant :: "('b, 'w, 'v) network \<Rightarrow> 's \<Rightarrow> ('b, 'w, 'v, 's) lifecycle \<Rightarrow> ('b, 'w, 'v, 's) lifecycle" where
  "boot_tolerant nw st lc =
     (case boot nw lc of
        (lc1, Inr x) \<Rightarrow> lc1\<lparr>lc_a1 := attach_evidence_store st (lc_a1 lc1)\<rparr>
      | (lc1, Inl e) \<Rightarrow>
          (let lc2 = (mark_degraded lc1)\<lparr>lc_a1 := attach_evidence_store st (lc_a1 lc1)\<rparr>
           in lc2\<lparr>lc_a1 := fst (register_policy_types (nw_ric nw) (nw_a1_cfg nw) (lc_a1 lc2))\<rparr>))"

definition daemon_ready :: "('b, 'w, 'v, 's) lifecycle \<Rightarrow> bool" where
  "daemon_ready lc \<longleftrightarrow> lc_state lc \<in> {RUNNING, DEGRADED}"

text \<open>
  \<open>_daemon_main\<close>. The pipeline and the source are opened under a guard that shuts the lifecycle down
  and raises again; \<open>len(store)\<close> is read outside every guard. \<open>mk\<close> builds the pipeline from the
  environment and gives its \<open>process_event\<close>.
\<close>

record ('b, 'w, 'v, 's) ended =
  en_lc :: "('b, 'w, 'v, 's) lifecycle option"
  en_daemon :: "('b, 'v, 's) a1 daemon option"
  en_report :: "report option"
  en_result :: "run_exn + int"

definition ended_early :: "('b, 'w, 'v, 's) lifecycle option \<Rightarrow> py_exn \<Rightarrow> ('b, 'w, 'v, 's) ended" where
  "ended_early lc e = \<lparr>en_lc = lc, en_daemon = None, en_report = None, en_result = Inl (LoopExn e)\<rparr>"

definition daemon_serve ::
  "platform \<Rightarrow> (a1_config \<Rightarrow> ('b, 'v, 's) a1 process res) \<Rightarrow> ('b, 'w, 'v, 's) host \<Rightarrow> daemon_config \<Rightarrow> tick list \<Rightarrow>
   closing_env \<Rightarrow> checkpoint \<Rightarrow> rapp_config \<Rightarrow> ('b, 'w, 'v, 's) lifecycle \<Rightarrow> ('b, 'w, 'v, 's) ended" where
  "daemon_serve pl mk h cfg ts ce ck rc lc =
     (case bindE (mk (rc_a1 rc)) (\<lambda>process.
             bindE (open_source pl (ho_parse h) (ho_validate h) cfg ck (ho_lines h) (ho_kafka h) (length ts))
               (\<lambda>(items, malformed). Inr (process, items, malformed))) of
        Inl e \<Rightarrow> ended_early (Some (fst (shutdown (host_network h rc) (ce_drain ce) (ce_closing ce) lc))) e
      | Inr (process, items, malformed) \<Rightarrow>
          (case ho_len h (a1_store (lc_a1 lc)) of
             Inl e \<Rightarrow> ended_early (Some lc) e
           | Inr n \<Rightarrow>
               (let de = daemon_loop process cfg ts items (daemon_start (lc_a1 lc) ck (ho_saved h) (ho_t1 h) malformed n);
                    (lc', d, rep, res) =
                      daemon_finish (host_network h rc) (\<lambda>a. ho_verify h (a1_store a)) (\<lambda>a. ho_len h (a1_store a)) cfg
                        (ho_environ h) ce lc de
                in \<lparr>en_lc = Some lc', en_daemon = Some d, en_report = Some rep, en_result = res\<rparr>)))"

definition daemon_main ::
  "platform \<Rightarrow> (a1_config \<Rightarrow> ('b, 'v, 's) a1 process res) \<Rightarrow> ('b, 'w, 'v, 's) host \<Rightarrow> daemon_config \<Rightarrow> tick list \<Rightarrow>
   closing_env \<Rightarrow> ('b, 'w, 'v, 's) ended" where
  "daemon_main pl mk h cfg ts ce =
     (case checkpoint_load pl (ho_parse h) (ho_checkpoint h) of
        Inl e \<Rightarrow> ended_early None e
      | Inr ck \<Rightarrow>
          (case rapp_config_from_env pl (ho_environ h) of
             Inl e \<Rightarrow> ended_early None e
           | Inr rc \<Rightarrow>
               (case lifecycle_new pl (rc_r1 rc) (rc_a1 rc) (rc_a1_auth rc) (ho_breaker h) (ho_breaker h) (ho_smo_world h)
                       (ho_ric_world h) (ho_no_store h) (ho_t0 h) (ho_prior h) of
                  Inl e \<Rightarrow> ended_early None e
                | Inr lc0 \<Rightarrow> daemon_serve pl mk h cfg ts ce ck rc (boot_tolerant (host_network h rc) (ho_store h) lc0))))"

text \<open>\<open>run_daemon\<close>: a startup error is exit code 2, every other exception leaves the process.\<close>

definition run_daemon ::
  "platform \<Rightarrow> (a1_config \<Rightarrow> ('b, 'v, 's) a1 process res) \<Rightarrow> ('b, 'w, 'v, 's) host \<Rightarrow> daemon_config \<Rightarrow> tick list \<Rightarrow>
   closing_env \<Rightarrow> ('b, 'w, 'v, 's) ended" where
  "run_daemon pl mk h cfg ts ce =
     (let en = daemon_main pl mk h cfg ts ce
      in if en_result en = Inl (LoopExn DaemonStartupError) then en\<lparr>en_result := Inr 2\<rparr> else en)"

text \<open>The pipeline the daemon builds.\<close>

definition daemon_process ::
  "platform \<Rightarrow> (float_format \<Rightarrow> pyfloat \<Rightarrow> string) \<Rightarrow> (violation \<Rightarrow> string) \<Rightarrow> sha \<Rightarrow> ('k, 'p) ed25519 \<Rightarrow> cert_serialiser \<Rightarrow>
   (nat list \<Rightarrow> 'k pem_key res) \<Rightarrow> key_files \<Rightarrow> 's persist \<Rightarrow> ('b, 'w, 'v, 's) host \<Rightarrow> a1_config \<Rightarrow>
   ('b, 'v, 's) a1 process res" where
  "daemon_process pl fmt msg sha ed ser parse fs persist h acfg =
     bindE (config_from_env pl (ho_environ h)) (\<lambda>cfg.
     bindE (pipeline_new pl sha ed ser parse fs (ho_environ h ''HORIZON_CERT_SIGNING_KEY_PATH'') cfg) (\<lambda>p.
       Inr (process_event pl fmt msg (ho_pb h) (ho_ric h) persist acfg p)))"

section \<open>Resuming\<close>

text \<open>The event id a checkpoint file names.\<close>

definition resume_id :: "(string \<times> pyval) list option \<Rightarrow> pyval" where
  "resume_id saved =
     (case saved of None \<Rightarrow> VNone | Some kvs \<Rightarrow> (case map_of kvs ''last_event_id'' of None \<Rightarrow> VNone | Some v \<Rightarrow> v))"

lemma resume_dump [simp]: "resume_id (Some (checkpoint_dump ck)) = ck_last_event ck"
  by (simp add: resume_id_def checkpoint_dump_def)

theorem checkpoint_roundtrip:
  assumes "parse text = Some (VDict (checkpoint_dump ck))"
  shows "checkpoint_load pl parse (Some (Inr text)) = Inr ck"
  using assms by (simp add: checkpoint_load_def checkpoint_of_def checkpoint_dump_def vget_def)

lemma event_done_sel [simp]:
  "dm_ingested (event_done ev r d) = dm_ingested d"
  "dm_errors (event_done ev r d) = dm_errors d"
  "dm_file (event_done ev r d) = dm_file d"
  "dm_a1 (event_done ev r d) = dm_a1 d"
  "ck_last_event (dm_ck (event_done ev r d)) = VStr (te_event_id ev)"
  "dm_malformed (event_done ev r d) = dm_malformed d"
  by (simp_all add: event_done_def account_def Let_def)

lemma save_sel [simp]:
  "dm_ingested (save_checkpoint utc x d) = dm_ingested d"
  "dm_errors (save_checkpoint utc x d) = dm_errors d"
  "dm_a1 (save_checkpoint utc x d) = dm_a1 d"
  "ck_last_event (dm_ck (save_checkpoint utc x d)) = ck_last_event (dm_ck d)"
  "resume_id (dm_file (save_checkpoint utc x d)) = (if x = None then ck_last_event (dm_ck d) else resume_id (dm_file d))"
  by (auto simp: save_checkpoint_def Let_def split: option.splits)

text \<open>
  After a loop over \<open>evs\<close> the checkpoint in memory and the one on disk name an event that was handed
  to the pipeline, or the one they named before; without errors the one in memory names the last.
\<close>

definition names_seen :: "telemetry_event list \<Rightarrow> nat \<Rightarrow> pyval \<Rightarrow> pyval \<Rightarrow> bool" where
  "names_seen evs n old v \<longleftrightarrow> v = old \<or> (\<exists>i < n. v = VStr (te_event_id (evs ! i)))"

lemma names_seen_Cons:
  "names_seen evs n (VStr (te_event_id ev)) v \<Longrightarrow> names_seen (ev # evs) (Suc n) old v"
  "names_seen evs n old v \<Longrightarrow> names_seen (ev # evs) (Suc n) old v"
  unfolding names_seen_def by fastforce+

definition loop_seen :: "telemetry_event list \<Rightarrow> 'a daemon \<Rightarrow> 'a daemon \<Rightarrow> bool" where
  "loop_seen evs d d' \<longleftrightarrow>
     (\<exists>n \<le> length evs. dm_ingested d' = dm_ingested d + n \<and> dm_errors d \<le> dm_errors d' \<and>
        names_seen evs n (ck_last_event (dm_ck d)) (ck_last_event (dm_ck d')) \<and>
        (names_seen evs n (resume_id (dm_file d)) (resume_id (dm_file d')) \<or>
         names_seen evs n (ck_last_event (dm_ck d)) (resume_id (dm_file d'))) \<and>
        (dm_errors d' = dm_errors d \<longrightarrow> 0 < n \<longrightarrow> ck_last_event (dm_ck d') = VStr (te_event_id (evs ! (n - 1)))))"

lemma loop_seen_refl: "loop_seen evs d d"
  by (auto simp: loop_seen_def names_seen_def)

lemma loop_seen_error:
  assumes "loop_seen evs d1 d'" and "dm_ingested d1 = Suc (dm_ingested d)" "dm_errors d1 = Suc (dm_errors d)"
    "dm_ck d1 = dm_ck d" "dm_file d1 = dm_file d"
  shows "loop_seen (ev # evs) d d'"
proof -
  obtain n where n: "n \<le> length evs" "dm_ingested d' = dm_ingested d1 + n" "dm_errors d1 \<le> dm_errors d'"
    "names_seen evs n (ck_last_event (dm_ck d1)) (ck_last_event (dm_ck d'))"
    "names_seen evs n (resume_id (dm_file d1)) (resume_id (dm_file d')) \<or>
     names_seen evs n (ck_last_event (dm_ck d1)) (resume_id (dm_file d'))"
    using assms(1) unfolding loop_seen_def by blast
  show ?thesis
    unfolding loop_seen_def
    by (rule exI [of _ "Suc n"]) (use n assms in \<open>auto dest: names_seen_Cons(2)\<close>)
qed

lemma loop_seen_done:
  assumes "loop_seen evs d1 d'" and "dm_ingested d1 = Suc (dm_ingested d)" "dm_errors d1 = dm_errors d"
    "ck_last_event (dm_ck d1) = VStr (te_event_id ev)"
    "resume_id (dm_file d1) = resume_id (dm_file d) \<or> resume_id (dm_file d1) = VStr (te_event_id ev)"
  shows "loop_seen (ev # evs) d d'"
proof -
  obtain n where n: "n \<le> length evs" "dm_ingested d' = dm_ingested d1 + n" "dm_errors d1 \<le> dm_errors d'"
    "names_seen evs n (VStr (te_event_id ev)) (ck_last_event (dm_ck d'))"
    "names_seen evs n (resume_id (dm_file d1)) (resume_id (dm_file d')) \<or>
     names_seen evs n (VStr (te_event_id ev)) (resume_id (dm_file d'))"
    "dm_errors d' = dm_errors d1 \<longrightarrow> 0 < n \<longrightarrow> ck_last_event (dm_ck d') = VStr (te_event_id (evs ! (n - 1)))"
    using assms(1,4) unfolding loop_seen_def by auto
  have saved: "names_seen (ev # evs) (Suc n) (resume_id (dm_file d)) (resume_id (dm_file d'))"
    using n(5) assms(5) names_seen_Cons by metis
  have mem: "names_seen (ev # evs) (Suc n) (ck_last_event (dm_ck d)) (ck_last_event (dm_ck d'))"
    using n(4) by (rule names_seen_Cons(1))
  have last: "dm_errors d' = dm_errors d \<longrightarrow> ck_last_event (dm_ck d') = VStr (te_event_id ((ev # evs) ! n))"
    using n(4,6) assms(3) by (cases n) (auto simp: names_seen_def)
  show ?thesis
    unfolding loop_seen_def
    by (rule exI [of _ "Suc n"]) (use n(1,2,3) saved mem last assms(2,3) in simp)
qed

lemma end_round_sel:
  assumes "end_round cfg t ev r d = (d', out)"
  shows "dm_ingested d' = dm_ingested d \<and> dm_errors d' = dm_errors d \<and> dm_a1 d' = dm_a1 d \<and> dm_malformed d' = dm_malformed d \<and>
    ck_last_event (dm_ck d') = VStr (te_event_id ev) \<and>
    (resume_id (dm_file d') = resume_id (dm_file d) \<or> resume_id (dm_file d') = VStr (te_event_id ev)) \<and>
    (out \<noteq> Some BatchDone \<longleftrightarrow> (\<exists>e. out = Some (SaveRaised e)) \<or> (out = None \<and> (dc_once cfg \<longrightarrow> int (dm_ingested d) < dc_once_max_events cfg)))"
  using assms by (auto simp: end_round_def Let_def save_checkpoint_def split: option.splits if_splits)

text \<open>A run of the loop, round by round.\<close>

lemma loop_cases:
  assumes "daemon_loop process cfg (t # ts) items d = (d', e)"
  obtains "d' = d" "e = Stopped \<or> e = Exhausted \<and> items = []"
  | x rest where "items = Inl x # rest" "daemon_loop process cfg ts [] (d\<lparr>dm_malformed := dm_malformed d + 1\<rparr>) = (d', e)"
  | ev rest a x where "items = Inr ev # rest" "process (tk_env t) ev (dm_a1 d) = (a, Inl x)"
      "daemon_loop process cfg ts rest
         (d\<lparr>dm_ingested := dm_ingested d + 1, dm_a1 := a, dm_errors := dm_errors d + 1\<rparr>) = (d', e)"
  | ev rest a r where "items = Inr ev # rest" "process (tk_env t) ev (dm_a1 d) = (a, Inr r)"
      "end_round cfg t ev r (d\<lparr>dm_ingested := dm_ingested d + 1, dm_a1 := a\<rparr>) = (d', Some e)"
  | ev rest a r d2 where "items = Inr ev # rest" "process (tk_env t) ev (dm_a1 d) = (a, Inr r)"
      "end_round cfg t ev r (d\<lparr>dm_ingested := dm_ingested d + 1, dm_a1 := a\<rparr>) = (d2, None)"
      "daemon_loop process cfg ts rest d2 = (d', e)"
proof (cases "tk_stop t")
  case True
  show ?thesis by (rule that(1)) (use assms True in simp_all)
next
  case going: False
  show ?thesis
  proof (cases items)
    case Nil
    show ?thesis by (rule that(1)) (use assms going Nil in simp_all)
  next
    case (Cons item rest)
    show ?thesis
    proof (cases item)
      case (Inl x)
      show ?thesis by (rule that(2) [of x rest]) (use assms going Cons Inl in simp_all)
    next
      case (Inr ev)
      note items = Cons [unfolded Inr]
      obtain a out where p: "process (tk_env t) ev (dm_a1 d) = (a, out)" by (cases "process (tk_env t) ev (dm_a1 d)")
      show ?thesis
      proof (cases out)
        case (Inl x)
        show ?thesis by (rule that(3) [of ev rest a x]) (use assms going items p Inl in simp_all)
      next
        case (Inr r)
        obtain d2 o2 where er: "end_round cfg t ev r (d\<lparr>dm_ingested := dm_ingested d + 1, dm_a1 := a\<rparr>) = (d2, o2)"
          by (cases "end_round cfg t ev r (d\<lparr>dm_ingested := dm_ingested d + 1, dm_a1 := a\<rparr>)")
        show ?thesis
        proof (cases o2)
          case None
          show ?thesis by (rule that(5) [of ev rest a r d2]) (use assms going items p Inr er None in simp_all)
        next
          case (Some x)
          show ?thesis by (rule that(4) [of ev rest a r]) (use assms going items p Inr er Some in simp_all)
        qed
      qed
    qed
  qed
qed

lemma loop_sees:
  "daemon_loop process cfg ts (map Inr evs) d = (d', e) \<Longrightarrow> loop_seen evs d d'"
proof (induction ts arbitrary: evs d)
  case Nil
  then show ?case by (simp add: loop_seen_refl)
next
  case (Cons t ts)
  from Cons.prems show ?case
  proof (cases rule: loop_cases)
    case 1
    then show ?thesis by (simp add: loop_seen_refl)
  next
    case (2 x rest)
    then show ?thesis by (cases evs) simp_all
  next
    case (3 ev rest a x)
    then obtain evs' where "evs = ev # evs'" "rest = map Inr evs'" by (cases evs) auto
    then show ?thesis using loop_seen_error [OF Cons.IH] 3(3) by simp
  next
    case (4 ev rest a r)
    then obtain evs' where evs: "evs = ev # evs'" by (cases evs) auto
    show ?thesis unfolding evs by (rule loop_seen_done [OF loop_seen_refl]) (use end_round_sel [OF 4(3)] in auto)
  next
    case (5 ev rest a r d2)
    then obtain evs' where "evs = ev # evs'" "rest = map Inr evs'" by (cases evs) auto
    then show ?thesis using loop_seen_done [OF Cons.IH] 5(4) end_round_sel [OF 5(3)] by simp
  qed
qed

lemma find_event_at:
  "distinct (map te_event_id evs) \<Longrightarrow> j < length evs \<Longrightarrow> find_event (VStr (te_event_id (evs ! j))) i evs = i + j + 1"
proof (induction evs arbitrary: i j)
  case (Cons ev evs)
  show ?case
  proof (cases j)
    case (Suc k)
    then have "te_event_id ev \<noteq> te_event_id (evs ! k)" using Cons.prems by auto
    then show ?thesis using Cons.IH [of k "i + 1"] Cons.prems Suc by simp
  qed simp
qed simp

lemma resumed_at:
  "distinct (map te_event_id evs) \<Longrightarrow> j < length evs \<Longrightarrow> te_event_id (evs ! j) \<noteq> [] \<Longrightarrow>
   resumed_events (VStr (te_event_id (evs ! j))) evs = drop (Suc j) evs"
  by (simp add: resumed_events_def find_event_at)

lemma resumed_drop: "\<exists>k. resumed_events v evs = drop k evs"
proof (cases "truthy v")
  case False
  then show ?thesis by (intro exI [of _ 0]) (simp add: resumed_events_def)
qed (auto simp: resumed_events_def)

lemma resumed_named:
  assumes "distinct (map te_event_id evs)" "[] \<notin> set (map te_event_id evs)" "xs = resumed_events old evs"
    and "names_seen xs n old v" "n \<le> length xs"
  shows "\<exists>j \<le> n. resumed_events v evs = drop j xs \<and> (\<forall>i < n. v = VStr (te_event_id (xs ! i)) \<longrightarrow> resumed_events v evs = drop (Suc i) xs)"
proof -
  obtain k where k: "xs = drop k evs" using resumed_drop assms(3) by blast
  have at: "resumed_events (VStr (te_event_id (xs ! i))) evs = drop (Suc i) xs" if "i < n" for i
  proof -
    have "k + i < length evs" using that assms(5) k by simp
    then have "resumed_events (VStr (te_event_id (evs ! (k + i)))) evs = drop (Suc (k + i)) evs"
      using assms(1,2) by (intro resumed_at) (simp_all, metis image_eqI nth_mem)
    then show ?thesis using k \<open>k + i < length evs\<close> by (simp add: add.commute)
  qed
  have each: "\<forall>i < n. v = VStr (te_event_id (xs ! i)) \<longrightarrow> resumed_events v evs = drop (Suc i) xs" using at by simp
  show ?thesis
  proof (cases "v = old")
    case True
    then have "resumed_events v evs = drop 0 xs" using assms(3) by simp
    then show ?thesis using each by blast
  next
    case False
    then obtain i where "i < n" "v = VStr (te_event_id (xs ! i))" using assms(4) by (auto simp: names_seen_def)
    then show ?thesis using each by (intro exI [of _ "Suc i"]) simp
  qed
qed


text \<open>A pipeline run that raises leaves its event behind: when a later one succeeds, a restart goes on after that one.\<close>

theorem failed_event_left_behind:
  assumes "te_event_id ev2 \<noteq> []" and "te_event_id ev1 \<noteq> te_event_id ev2"
    and "process (tk_env t1) ev1 a = (a1, Inl x)" and "process (tk_env t2) ev2 a1 = (a2, Inr r)"
    and "\<not> tk_stop t1" "\<not> tk_stop t2" "tk_stop t3" "\<not> dc_once cfg" "tk_save t2 = None"
    and "daemon_loop process cfg [t1, t2, t3] (map Inr (ev1 # ev2 # rest)) (daemon_start a ck0 saved now m len) = (d, e)"
  shows "e = Stopped \<and> resumed_events (resume_id (dm_file (save_checkpoint utc None d))) (ev1 # ev2 # rest) = rest"
proof -
  let ?d = "(daemon_start a ck0 saved now m len)\<lparr>dm_ingested := 1, dm_a1 := a1, dm_errors := 1\<rparr>"
  obtain d2 o2 where er: "end_round cfg t2 ev2 r (?d\<lparr>dm_ingested := 2, dm_a1 := a2\<rparr>) = (d2, o2)"
    by (cases "end_round cfg t2 ev2 r (?d\<lparr>dm_ingested := 2, dm_a1 := a2\<rparr>)")
  have "o2 = None" using er assms(8,9) by (auto simp: end_round_def Let_def split: if_splits)
  then have "d = d2 \<and> e = Stopped" using assms(3-10) er by (auto simp: daemon_start_def numeral_2_eq_2)
  then show ?thesis using end_round_sel [OF er] assms(1,2) by (simp add: resumed_events_def)
qed

section \<open>Counting\<close>

definition balanced :: "'a daemon \<Rightarrow> bool" where
  "balanced d \<longleftrightarrow>
     dm_ingested d = dm_accepted d + dm_blocked d + dm_failed d + dm_dry_run d + dm_errors d \<and>
     length (dm_policy_ids d) \<le> dm_accepted d \<and> dm_enforced d \<le> dm_accepted d"

lemma end_round_balanced:
  "balanced d \<Longrightarrow> end_round cfg t ev r (d\<lparr>dm_ingested := dm_ingested d + 1, dm_a1 := a\<rparr>) = (d', out) \<Longrightarrow> balanced d'"
  by (auto simp: end_round_def event_done_def account_def save_checkpoint_def balanced_def Let_def
      split: if_splits option.splits)

lemma loop_balanced:
  "balanced d \<Longrightarrow> daemon_loop process cfg ts items d = (d', e) \<Longrightarrow> balanced d'"
proof (induction ts arbitrary: items d)
  case (Cons t ts)
  from Cons.prems(2) show ?case
  proof (cases rule: loop_cases)
    case (2 x rest)
    show ?thesis by (rule Cons.IH [OF _ 2(2)]) (use Cons.prems(1) in \<open>simp add: balanced_def\<close>)
  next
    case (3 ev rest a x)
    show ?thesis by (rule Cons.IH [OF _ 3(3)]) (use Cons.prems(1) in \<open>simp add: balanced_def\<close>)
  next
    case (4 ev rest a r)
    show ?thesis by (rule end_round_balanced [OF Cons.prems(1) 4(3)])
  next
    case (5 ev rest a r d2)
    show ?thesis by (rule Cons.IH [OF end_round_balanced [OF Cons.prems(1) 5(3)] 5(4)])
  qed (use Cons.prems(1) in simp)
qed simp

lemma finish_cases:
  assumes "daemon_finish nw verify_chain chain_len cfg environ ce lc (d, e) = (lc', d', rep, res)"
  obtains cancelled x where "shutdown nw (ce_drain ce) (ce_closing ce) (lc\<lparr>lc_a1 := dm_a1 d\<rparr>) = (lc', cancelled, x)"
    "d' = save_checkpoint (ce_utc ce) (ce_save ce) d" "rep = report_of verify_chain chain_len d'"
    "res = (case x of Some y \<Rightarrow> Inl (CloseExn y)
            | None \<Rightarrow> (case e of SaveRaised y \<Rightarrow> Inl (LoopExn y) | _ \<Rightarrow> Inr (exit_code cfg environ d')))"
  using assms by (auto simp: daemon_finish_def Let_def split: prod.splits)

lemma save_balanced [simp]:
  "balanced (save_checkpoint utc x d) = balanced d" "dm_accepted (save_checkpoint utc x d) = dm_accepted d"
  by (simp_all add: save_checkpoint_def balanced_def Let_def)

theorem report_accounts:
  assumes "daemon_loop process cfg ts items (daemon_start a ck saved now m len) = (d, e)"
    and "daemon_finish nw verify_chain chain_len cfg environ ce lc (d, e) = (lc', d', rep, res)"
  shows "rp_events rep = rp_accepted rep + rp_blocked rep + rp_emit_failed rep + rp_dry_run rep + rp_errors rep \<and>
    length (rp_policy_ids rep) \<le> rp_accepted rep \<and> rp_enforced rep \<le> rp_accepted rep \<and>
    (res = Inr 0 \<longrightarrow> dc_once cfg \<longrightarrow> environ ''HORIZON_ONCE_REQUIRE_ACCEPTED'' = Some ''1'' \<longrightarrow> 0 < rp_accepted rep) \<and>
    (res = Inr 1 \<longrightarrow> rp_accepted rep = 0) \<and>
    ((\<exists>n. res = Inr n) \<longrightarrow> lc_state lc' = STOPPED \<and> \<not> (\<exists>x. e = SaveRaised x))"
proof -
  have "balanced (daemon_start a ck saved now m len)" by (simp add: balanced_def daemon_start_def)
  then have bal: "balanced d" using loop_balanced assms(1) by blast
  from assms(2) show ?thesis
  proof (cases rule: finish_cases)
    case (1 cancelled x)
    have rep: "rp_events rep = dm_ingested d'" "rp_accepted rep = dm_accepted d'" "rp_blocked rep = dm_blocked d'"
      "rp_emit_failed rep = dm_failed d'" "rp_errors rep = dm_errors d'" "rp_dry_run rep = dm_dry_run d'"
      "rp_enforced rep = dm_enforced d'" "rp_policy_ids rep = dm_policy_ids d'"
      by (simp_all add: 1(3) report_of_def)
    have "balanced d'" using bal by (simp add: 1(2))
    moreover have "res = Inr n \<Longrightarrow> x = None \<and> \<not> (\<exists>y. e = SaveRaised y) \<and> n = exit_code cfg environ d'" for n
      using 1(4) by (cases x; cases e) auto
    moreover have "x = None \<Longrightarrow> lc_state lc' = STOPPED" using shutdown_sel [OF 1(1)] by simp
    ultimately show ?thesis unfolding rep by (auto simp: balanced_def exit_code_def split: if_splits)
  qed
qed

text \<open>\<open>--once\<close> stops after its number of events, but only rounds without an error look at it.\<close>

lemma loop_bound:
  "daemon_loop process cfg ts items d = (d', e) \<Longrightarrow> dc_once cfg \<Longrightarrow>
   int (dm_ingested d) < max 1 (dc_once_max_events cfg) + int (dm_errors d) \<Longrightarrow>
   int (dm_ingested d') \<le> max 1 (dc_once_max_events cfg) + int (dm_errors d') \<and> dm_errors d \<le> dm_errors d'"
proof (induction ts arbitrary: items d)
  case (Cons t ts)
  from Cons.prems(1) show ?case
  proof (cases rule: loop_cases)
    case (2 x rest)
    then show ?thesis using Cons.IH [OF 2(2)] Cons.prems(2,3) by simp
  next
    case (3 ev rest a x)
    then show ?thesis using Cons.IH [OF 3(3)] Cons.prems(2,3) by simp
  next
    case (4 ev rest a r)
    then show ?thesis using end_round_sel [OF 4(3)] Cons.prems(3) by simp
  next
    case (5 ev rest a r d2)
    then show ?thesis using Cons.IH [OF 5(4)] end_round_sel [OF 5(3)] Cons.prems(2) by simp
  qed (use Cons.prems in simp)
qed simp

theorem once_bound:
  assumes "daemon_loop process cfg ts items (daemon_start a ck saved now m len) = (d, e)" and "dc_once cfg"
  shows "int (dm_ingested d) \<le> max 1 (dc_once_max_events cfg) + int (dm_errors d)"
  using loop_bound [OF assms] by (simp add: daemon_start_def)

theorem once_ignores_failures:
  assumes "\<And>env ev a. \<exists>a' x. process env ev a = (a', Inl x)" and "\<And>t. t \<in> set ts \<Longrightarrow> \<not> tk_stop t"
    and "daemon_loop process cfg ts (map Inr evs) d = (d', e)"
  shows "dm_ingested d' = dm_ingested d + min (length ts) (length evs) \<and> e \<noteq> BatchDone"
  using assms(2,3)
proof (induction ts arbitrary: evs d)
  case (Cons t ts)
  show ?case
  proof (cases evs)
    case (Cons ev rest)
    obtain a x where "process (tk_env t) ev (dm_a1 d) = (a, Inl x)" using assms(1) by blast
    then show ?thesis using Cons.IH Cons.prems Cons by fastforce
  qed (use Cons.prems in auto)
qed auto

section \<open>What the events do\<close>

text \<open>
  The contract of an event processor: on the events that \<open>ok\<close> describes it keeps an invariant of the
  adapter. A loop over such events then keeps it.
\<close>

locale processor =
  fixes process :: "'a process"
    and ok :: "pipe_env \<Rightarrow> telemetry_event \<Rightarrow> bool"
    and inv :: "'a \<Rightarrow> bool"
  assumes process_keeps: "ok env ev \<Longrightarrow> inv a \<Longrightarrow> inv (fst (process env ev a))"
begin

definition all_ok :: "tick list \<Rightarrow> telemetry_event res list \<Rightarrow> bool" where
  "all_ok ts items \<longleftrightarrow> (\<forall>t \<in> set ts. \<forall>ev. Inr ev \<in> set items \<longrightarrow> ok (tk_env t) ev)"

lemma loop_keeps:
  "inv (dm_a1 d) \<Longrightarrow> all_ok ts items \<Longrightarrow> daemon_loop process cfg ts items d = (d', e) \<Longrightarrow> inv (dm_a1 d')"
proof (induction ts arbitrary: items d)
  case (Cons t ts)
  have kept: "inv (fst (process (tk_env t) ev (dm_a1 d)))" if "items = Inr ev # rest" for ev rest
    by (rule process_keeps) (use Cons.prems(1,2) that in \<open>auto simp: all_ok_def\<close>)
  have rest: "all_ok ts []" "items = i # rest \<Longrightarrow> all_ok ts rest" for i rest
    using Cons.prems(2) by (auto simp: all_ok_def)
  from Cons.prems(3) show ?case
  proof (cases rule: loop_cases)
    case (2 x rst)
    show ?thesis by (rule Cons.IH [OF _ rest(1) 2(2)]) (use Cons.prems(1) in simp)
  next
    case (3 ev rst a x)
    show ?thesis by (rule Cons.IH [OF _ rest(2) [OF 3(1)] 3(3)]) (use kept [OF 3(1)] 3(2) in simp)
  next
    case (4 ev rst a r)
    then show ?thesis using end_round_sel [OF 4(3)] kept [OF 4(1)] by simp
  next
    case (5 ev rst a r d2)
    show ?thesis by (rule Cons.IH [OF _ rest(2) [OF 5(1)] 5(4)]) (use end_round_sel [OF 5(3)] kept [OF 5(1)] 5(2) in simp)
  qed (use Cons.prems(1) in simp)
qed simp

end

interpretation chain_processor: processor
  "process_event pl fmt msg pb http (jsonl_persist sha c ctx) acfg p" "\<lambda>env ev. True" "chained sha c ctx"
  for pl fmt msg pb http sha c ctx acfg p
  by unfold_locales
    (use process_chained [unfolded pipeline_step_def, where x = "(env, ev)" for env ev] in simp)

text \<open>What an event needs before anything leaves the daemon.\<close>

definition event_authorised ::
  "platform \<Rightarrow> (float_format \<Rightarrow> pyfloat \<Rightarrow> string) \<Rightarrow> (violation \<Rightarrow> string) \<Rightarrow> a1_config \<Rightarrow> pipeline \<Rightarrow> pipe_env \<Rightarrow> telemetry_event \<Rightarrow> bool" where
  "event_authorised pl fmt msg acfg p env ev \<longleftrightarrow>
     (\<exists>dc. decide pl fmt msg p env ev = Inr dc \<and> sound_decision pl p env dc \<and> dc_failures dc = [] \<and>
        \<not> env_truthy (pe_dry_run env) \<and> map_of (policy_types acfg) (dc_policy_type dc) \<noteq> None)"

lemma unauthorised_silent:
  assumes "pipeline_new pl sha ed ser parse fs path pcfg = Inr p" "\<not> event_authorised pl fmt msg acfg p env ev"
  shows "a1_world (fst (process_event pl fmt msg pb http persist acfg p env ev a)) = a1_world a \<and>
    a1_emitted (fst (process_event pl fmt msg pb http persist acfg p env ev a)) = a1_emitted a"
proof (cases "process_event pl fmt msg pb http persist acfg p env ev a")
  case (Pair a' out)
  have "event_authorised pl fmt msg acfg p env ev" if "a1_world a' \<noteq> a1_world a \<or> a1_emitted a' \<noteq> a1_emitted a"
    unfolding event_authorised_def by (rule run_authorised [OF assms(1) Pair that])
  then show ?thesis using assms(2) Pair by auto
qed

theorem daemon_emits_authorised:
  assumes "pipeline_new pl sha ed ser parse fs path pcfg = Inr p"
    and "daemon_loop (process_event pl fmt msg pb http persist acfg p) cfg ts items d = (d', e)"
    and "a1_world (dm_a1 d') \<noteq> a1_world (dm_a1 d) \<or> a1_emitted (dm_a1 d') \<noteq> a1_emitted (dm_a1 d)"
  shows "\<exists>t \<in> set ts. \<exists>ev. Inr ev \<in> set items \<and> event_authorised pl fmt msg acfg p (tk_env t) ev"
proof (rule ccontr)
  assume none: "\<not> ?thesis"
  let ?process = "process_event pl fmt msg pb http persist acfg p"
  let ?ok = "\<lambda>env ev. \<not> event_authorised pl fmt msg acfg p env ev"
  let ?inv = "\<lambda>a. a1_world a = a1_world (dm_a1 d) \<and> a1_emitted a = a1_emitted (dm_a1 d)"
  have "processor ?process ?ok ?inv"
    by standard (simp add: unauthorised_silent [OF assms(1)])
  from processor.loop_keeps [OF this _ _ assms(2)] none assms(3) show False
    by (auto simp: processor.all_ok_def [OF \<open>processor ?process ?ok ?inv\<close>])
qed


section \<open>Starting and ending\<close>

lemma register_store [simp]: "a1_store (fst (register_policy_types http cfg a)) = a1_store a"
proof -
  have "a1_store (fst (register_loop http cfg ts acc a)) = a1_store a" for ts acc
  proof (induction ts arbitrary: acc a)
    case (Cons p ts)
    obtain name spec where p: "p = (name, spec)" by (cases p)
    show ?case
      by (cases "policy_create_schema name")
        (auto simp: p Cons.IH request_def split: prod.splits outcome.splits)
  qed simp
  then show ?thesis by (simp add: register_policy_types_def)
qed

lemma boot_tolerant_store: "a1_store (lc_a1 (boot_tolerant nw st lc)) = st"
  by (auto simp: boot_tolerant_def attach_evidence_store_def mark_degraded_def Let_def split: prod.splits sum.splits)

lemma boot_tolerant_state: "lc_state (boot_tolerant nw st lc) \<in> {RUNNING, DEGRADED} \<and> lc_drain (boot_tolerant nw st lc) = lc_drain lc"
proof (cases "boot nw lc")
  case (Pair lc1 out)
  then show ?thesis using boot_sel [OF Pair] by (cases out) (auto simp: boot_tolerant_def mark_degraded_def Let_def)
qed

lemma finish_drains:
  assumes "daemon_finish nw verify_chain chain_len cfg environ ce lc de = (lc', d, rep, res)"
  shows "lc_drain lc' \<and> lc_state lc' \<in> {STOPPED, DEREGISTERING}"
proof -
  obtain d0 e0 where de: "de = (d0, e0)" by (cases de)
  from assms [unfolded de] show ?thesis
    by (cases rule: finish_cases) (use shutdown_sel in \<open>fastforce split: if_splits\<close>)
qed

lemma serve_drains:
  assumes "ho_len h (a1_store (lc_a1 lc)) = Inr n" "en_lc (daemon_serve pl mk h cfg ts ce ck rc lc) = Some lc'"
  shows "lc_drain lc' \<and> lc_state lc' \<in> {STOPPED, DEREGISTERING}"
proof -
  let ?nw = "host_network h rc"
  obtain lc1 c x where sd: "shutdown ?nw (ce_drain ce) (ce_closing ce) lc = (lc1, c, x)"
    by (cases "shutdown ?nw (ce_drain ce) (ce_closing ce) lc")
  have early: "lc_drain lc1 \<and> lc_state lc1 \<in> {STOPPED, DEREGISTERING}" using shutdown_sel [OF sd] by (auto split: if_splits)
  show ?thesis
    using assms early
    by (auto simp: daemon_serve_def ended_early_def sd Let_def dest: finish_drains split: sum.splits prod.splits)
qed

lemma main_serves:
  assumes "en_lc (daemon_main pl mk h cfg ts ce) = Some lc"
  obtains ck rc lc0 where "daemon_main pl mk h cfg ts ce =
    daemon_serve pl mk h cfg ts ce ck rc (boot_tolerant (host_network h rc) (ho_store h) lc0)"
proof -
  have "\<exists>ck rc lc0. daemon_main pl mk h cfg ts ce =
      daemon_serve pl mk h cfg ts ce ck rc (boot_tolerant (host_network h rc) (ho_store h) lc0)"
    using assms by (auto simp: daemon_main_def ended_early_def split: sum.splits)
  then show ?thesis using that by blast
qed

text \<open>Every way out of the daemon shuts the lifecycle down, except a store whose length cannot be read.\<close>

theorem daemon_shuts_down:
  assumes "ho_len h (ho_store h) = Inr n" and "en_lc (daemon_main pl mk h cfg ts ce) = Some lc"
  shows "lc_drain lc \<and> lc_state lc \<in> {STOPPED, DEREGISTERING}"
proof (rule main_serves [OF assms(2)])
  fix ck rc lc0
  let ?lc = "boot_tolerant (host_network h rc) (ho_store h) lc0"
  assume eq: "daemon_main pl mk h cfg ts ce = daemon_serve pl mk h cfg ts ce ck rc ?lc"
  have "ho_len h (a1_store (lc_a1 ?lc)) = Inr n" using assms(1) by (simp add: boot_tolerant_store)
  then show ?thesis by (rule serve_drains) (use assms(2) eq in simp)
qed

theorem unreadable_store_skips_shutdown:
  assumes "mk (rc_a1 rc) = Inr process" and "open_source pl (ho_parse h) (ho_validate h) cfg ck (ho_lines h) (ho_kafka h) (length ts) = Inr im"
    and "ho_len h (ho_store h) = Inl x" and "\<not> lc_drain lc0"
    and "lc = boot_tolerant (host_network h rc) (ho_store h) lc0"
  shows "daemon_serve pl mk h cfg ts ce ck rc lc = ended_early (Some lc) x \<and> lc_state lc \<in> {RUNNING, DEGRADED} \<and> \<not> lc_drain lc"
  using assms boot_tolerant_state [of "host_network h rc" "ho_store h" lc0]
  by (cases im) (simp add: daemon_serve_def boot_tolerant_store)

text \<open>No telemetry is made up: without its file the daemon ends, with exit code 2 when nothing else failed before.\<close>

theorem missing_source_ends:
  assumes "dc_source_type cfg = VStr ''file''" and "\<not> dc_once cfg" and "ho_lines h = None"
  shows "en_daemon (run_daemon pl mk h cfg ts ce) = None \<and>
    (\<forall>ck rc lc process. mk (rc_a1 rc) = Inr process \<longrightarrow>
       en_result (daemon_serve pl mk h cfg ts ce ck rc lc) = Inl (LoopExn DaemonStartupError)) \<and>
    (en_result (daemon_main pl mk h cfg ts ce) = Inl (LoopExn DaemonStartupError) \<longrightarrow> en_result (run_daemon pl mk h cfg ts ce) = Inr 2)"
proof -
  have src: "open_source pl (ho_parse h) (ho_validate h) cfg ck (ho_lines h) (ho_kafka h) k = Inl DaemonStartupError" for ck k
    using assms by (simp add: open_source_def)
  have serve: "en_daemon (daemon_serve pl mk h cfg ts ce ck rc lc) = None \<and>
      (\<forall>process. mk (rc_a1 rc) = Inr process \<longrightarrow> en_result (daemon_serve pl mk h cfg ts ce ck rc lc) = Inl (LoopExn DaemonStartupError))" for ck rc lc
    by (cases "mk (rc_a1 rc)") (simp_all add: daemon_serve_def src ended_early_def)
  have "en_daemon (daemon_main pl mk h cfg ts ce) = None"
    using serve by (simp add: daemon_main_def ended_early_def split: sum.splits)
  then show ?thesis using serve by (simp add: run_daemon_def Let_def)
qed

text \<open>A source that raised has ended, so one bad message ends the daemon; so does a periodic save that fails.\<close>

theorem bad_message_ends_stream:
  assumes "\<not> tk_stop t1" and "\<not> tk_stop t2"
  shows "daemon_loop process cfg (t1 # t2 # ts) (Inl x # rest) d = (d\<lparr>dm_malformed := dm_malformed d + 1\<rparr>, Exhausted)"
  using assms by simp

theorem failed_save_ends_daemon:
  assumes "\<not> tk_stop t" and "process (tk_env t) ev (dm_a1 d) = (a, Inr r)" and "tk_save t = Some x"
    and "flt (dc_state_interval cfg) (Fin (tk_now t - dm_last_save d))"
  shows "snd (daemon_loop process cfg (t # ts) (Inr ev # rest) d) = SaveRaised x"
  using assms
  by (simp add: end_round_def event_done_def account_def save_due_def Let_def split: prod.splits)

text \<open>What a checkpoint file that is not the expected object does, and a section of the configuration that is empty.\<close>

theorem odd_checkpoint_stops_start:
  assumes "parse text = Some v" and "(\<forall>kvs. v \<noteq> VDict kvs) \<or> (\<exists>kvs. v = VDict kvs \<and> map_of kvs ''events_processed'' = Some VNone)"
  shows "\<exists>x. checkpoint_load pl parse (Some (Inr text)) = Inl x \<and> x \<in> {AttributeError, TypeError}"
  using assms by (cases v) (auto simp: checkpoint_load_def checkpoint_of_def vget_def OSError_def)

theorem empty_section_stops_start:
  "daemon_config_from_yaml pl (Some (Inr (VDict [(''sink'', VNone)]))) = Inl AttributeError \<and>
   (\<exists>cfg. daemon_config_from_yaml pl (Some (Inr (VDict [(''source'', VNone)]))) = Inr cfg)"
  by (simp add: daemon_config_from_yaml_def Let_def or_dict_def vget_def daemon_config_default_def)

text \<open>The rename is not preceded by a sync: after a crash the file may hold anything, nothing included.\<close>

lemma unsynced_writes:
  "\<not> synced (inodes d n) \<Longrightarrow> \<not> synced (inodes (run apply_effect d (map (Write n) chunks)) n)"
  by (simp add: run_writes)

theorem checkpoint_can_tear:
  assumes "dsk = run apply_effect d (checkpoint_effects path n chunks)"
  shows "\<exists>dsk'. after_crash dsk dsk' \<and> read_file dsk' path = Some text"
proof -
  define d1 where "d1 = run apply_effect (apply_effect d (Create (path @ ''.tmp'') n)) (map (Write n) chunks)"
  have dsk: "dsk = apply_effect d1 (Replace (path @ ''.tmp'') path)"
    by (simp add: assms checkpoint_effects_def run_append d1_def)
  have "\<not> synced (inodes d1 n)" unfolding d1_def by (rule unsynced_writes) simp
  moreover have "entries d1 (path @ ''.tmp'') = Some n" by (simp add: d1_def run_writes)
  ultimately have "after_crash dsk \<lparr>inodes = (inodes dsk)(n := \<lparr>content = text, synced = False\<rparr>), entries = entries dsk, unsynced_entries = []\<rparr> \<and>
      entries dsk path = Some n"
    by (simp add: dsk after_crash_def)
  then show ?thesis by (auto simp: read_file_def)
qed

section \<open>Instances\<close>

definition demo_tick :: "bool \<Rightarrow> tick" where
  "demo_tick s = \<lparr>tk_stop = s, tk_env = demo_env, tk_now = 0, tk_utc = ''u'', tk_save = None\<rparr>"

definition named :: "string \<Rightarrow> telemetry_event" where
  "named s = \<lparr>te_event_id = s, te_source_id = ''s'', te_payload = Map.empty\<rparr>"

definition accepted_result :: pipeline_result where
  "accepted_result = (no_policy demo_env plain_event ''q'')\<lparr>pr_accepted := True, pr_policy_id := Some ''p''\<rparr>"

text \<open>A pipeline on a counter whose first \<open>k\<close> runs raise.\<close>

definition failing :: "nat \<Rightarrow> nat process" where
  "failing k env ev a = (Suc a, if a < k then Inl CircuitOpen else Inr accepted_result)"

definition ticks :: "tick list" where "ticks = [demo_tick False, demo_tick False, demo_tick True]"

definition demo_events :: "telemetry_event list" where "demo_events = [named ''a'', named ''b'', named ''c'']"

abbreviation demo_daemon :: "nat daemon" where "demo_daemon \<equiv> daemon_start 0 checkpoint_new None 0 0 0"

lemmas daemon_eval = failing_def ticks_def demo_tick_def end_round_def event_done_def account_def save_due_def
  daemon_start_def daemon_config_default_def accepted_result_def no_policy_def Let_def

lemma demo_loop:
  "\<exists>d. daemon_loop (failing 0) daemon_config_default ticks (map Inr demo_events) demo_daemon = (d, Stopped) \<and>
     dm_errors d = 0 \<and> dm_ingested d = 2 \<and> dm_accepted d = 2"
  by (simp add: daemon_eval demo_events_def)


theorem failed_event_left_behind_witness:
  "resumed_events (resume_id (dm_file (save_checkpoint ''u'' None
     (fst (daemon_loop (failing 1) daemon_config_default ticks (map Inr demo_events) demo_daemon))))) demo_events = [named ''c'']"
proof -
  obtain d e where d: "daemon_loop (failing 1) daemon_config_default [demo_tick False, demo_tick False, demo_tick True]
      (map Inr (named ''a'' # named ''b'' # [named ''c''])) demo_daemon = (d, e)"
    by (cases "daemon_loop (failing 1) daemon_config_default [demo_tick False, demo_tick False, demo_tick True]
      (map Inr (named ''a'' # named ''b'' # [named ''c''])) demo_daemon")
  have "resumed_events (resume_id (dm_file (save_checkpoint ''u'' None d))) (named ''a'' # named ''b'' # [named ''c'']) = [named ''c'']"
    using failed_event_left_behind [OF _ _ _ _ _ _ _ _ _ d, where ?a1.0 = 1 and ?a2.0 = 2 and x = CircuitOpen and r = accepted_result]
    by (simp add: named_def failing_def demo_tick_def daemon_config_default_def)
  then show ?thesis using d by (simp add: demo_events_def ticks_def)
qed

theorem checkpoint_roundtrip_witness:
  "checkpoint_load exact_platform (\<lambda>_. Some (VDict (checkpoint_dump (checkpoint_new\<lparr>ck_events := 3\<rparr>)))) (Some (Inr ''t'')) =
     Inr (checkpoint_new\<lparr>ck_events := 3\<rparr>)"
  by (rule checkpoint_roundtrip) simp

theorem once_bound_witness:
  "int (dm_ingested (fst (daemon_loop (failing 1) (daemon_config_default\<lparr>dc_once := True, dc_once_max_events := 1\<rparr>) ticks
     (map Inr demo_events) demo_daemon))) \<le> 1 + int (dm_errors (fst (daemon_loop (failing 1)
       (daemon_config_default\<lparr>dc_once := True, dc_once_max_events := 1\<rparr>) ticks (map Inr demo_events) demo_daemon)))"
  using once_bound [OF prod.collapse [symmetric], of "daemon_config_default\<lparr>dc_once := True, dc_once_max_events := 1\<rparr>"
      "failing 1" ticks "map Inr demo_events" 0 checkpoint_new None 0 0 0]
  by simp

definition hopeless :: "nat process" where "hopeless env ev a = (a, Inl CircuitOpen)"

theorem once_ignores_failures_witness:
  "dm_ingested (fst (daemon_loop hopeless (daemon_config_default\<lparr>dc_once := True, dc_once_max_events := 1\<rparr>)
     (replicate 3 (demo_tick False)) (map Inr demo_events) demo_daemon)) = 3"
  using once_ignores_failures [OF _ _ prod.collapse [symmetric], of hopeless "replicate 3 (demo_tick False)"
      "daemon_config_default\<lparr>dc_once := True, dc_once_max_events := 1\<rparr>" demo_events demo_daemon]
  by (simp add: hopeless_def demo_tick_def daemon_start_def demo_events_def)

theorem bad_message_ends_stream_witness:
  "snd (daemon_loop (failing 0) daemon_config_default [demo_tick False, demo_tick False] [Inl ValueError, Inr (named ''a'')] demo_daemon) = Exhausted"
  using bad_message_ends_stream [of "demo_tick False" "demo_tick False" "failing 0" daemon_config_default "[]" ValueError
      "[Inr (named ''a'')]" demo_daemon]
  by (simp add: demo_tick_def)

theorem failed_save_ends_daemon_witness:
  "snd (daemon_loop (failing 0) daemon_config_default [(demo_tick False)\<lparr>tk_now := 31, tk_save := Some OSError\<rparr>]
     [Inr (named ''a'')] demo_daemon) = SaveRaised OSError"
  by (rule failed_save_ends_daemon [where a = 1 and r = accepted_result])
    (simp_all add: demo_tick_def failing_def daemon_start_def daemon_config_default_def)

theorem odd_checkpoint_stops_start_witness:
  "checkpoint_load exact_platform (\<lambda>_. Some (VList [])) (Some (Inr ''[]'')) \<noteq> Inr checkpoint_new"
  using odd_checkpoint_stops_start [of "\<lambda>_. Some (VList [])" "''[]''" "VList []" exact_platform] by auto

definition lc_around :: "(bool, nat, 's) a1 \<Rightarrow> (bool, nat, nat, 's) lifecycle" where
  "lc_around a =
     \<lparr>lc_state = RUNNING, lc_r1 = \<lparr>r1_breaker = True, r1_world = 0, r1_registered = True, r1_events = []\<rparr>, lc_a1 = a,
      lc_degradation = controller_new, lc_emitted = 0, lc_last_decision = VNone, lc_chain_head = VNone,
      lc_liveness = liveness_default 0, lc_tasks = [], lc_drain = False, lc_r1_closed = False, lc_a1_closed = False\<rparr>"

definition calm :: closing_env where
  "calm = \<lparr>ce_utc = ''u'', ce_save = None, ce_drain = [], ce_closing = quiet\<rparr>"

definition accepting :: "'a process" where "accepting env ev a = (a, Inr accepted_result)"

theorem report_accounts_witness:
  "\<exists>d lc' d' rep res.
     daemon_loop accepting daemon_config_default ticks (map Inr demo_events) (daemon_start (start_a1 (0 :: nat) ()) checkpoint_new None 0 0 0) = (d, Stopped) \<and>
     daemon_finish (demo_network demo_smo) (\<lambda>_. Inr (- 1)) (\<lambda>_. Inr 2) daemon_config_default Map.empty calm
       (lc_around (start_a1 (0 :: nat) ())) (d, Stopped) = (lc', d', rep, res) \<and>
     rp_events rep = rp_accepted rep + rp_blocked rep + rp_emit_failed rep + rp_dry_run rep + rp_errors rep"
proof -
  obtain d where d: "daemon_loop accepting daemon_config_default ticks (map Inr demo_events)
      (daemon_start (start_a1 (0 :: nat) ()) checkpoint_new None 0 0 0) = (d, Stopped)"
    by (simp add: daemon_eval accepting_def demo_events_def)
  obtain lc' d' rep res where f: "daemon_finish (demo_network demo_smo) (\<lambda>_. Inr (- 1)) (\<lambda>_. Inr 2) daemon_config_default Map.empty calm
      (lc_around (start_a1 (0 :: nat) ())) (d, Stopped) = (lc', d', rep, res)"
    by (metis prod_cases4)
  show ?thesis using report_accounts [OF d f] d f by blast
qed


theorem daemon_emits_authorised_witness:
  "event_authorised exact_platform no_fmt no_msg a1_config_default demo_pipeline demo_env plain_event"
proof -
  let ?process = "process_event exact_platform no_fmt no_msg demo_breaker demo_http list_persist a1_config_default demo_pipeline"
  let ?d = "daemon_start (start_a1 0 []) checkpoint_new None 0 0 0"
  obtain a' out where run: "?process demo_env plain_event (start_a1 0 []) = (a', out)" "a1_emitted a' = 1"
    using demo_run by blast
  obtain d' e where d: "daemon_loop ?process daemon_config_default [demo_tick False] [Inr plain_event] ?d = (d', e)"
    by (metis prod.exhaust)
  have "dm_a1 d' = a'"
    using d run(1) end_round_sel [of daemon_config_default "demo_tick False" plain_event _ "?d\<lparr>dm_ingested := 1, dm_a1 := a'\<rparr>" d']
    by (cases out) (auto simp: demo_tick_def daemon_start_def split: prod.splits option.splits dest: end_round_sel)
  then have "a1_world (dm_a1 d') \<noteq> a1_world (dm_a1 ?d) \<or> a1_emitted (dm_a1 d') \<noteq> a1_emitted (dm_a1 ?d)"
    using run(2) by (simp add: daemon_start_def start_a1_def)
  from daemon_emits_authorised [OF demo_pipeline_new d this] show ?thesis by (simp add: demo_tick_def)
qed

definition demo_host :: "string list option \<Rightarrow> nat res \<Rightarrow> (bool, nat, nat, unit) host" where
  "demo_host file_lines stored =
     \<lparr>ho_pb = demo_breaker, ho_smo = demo_smo, ho_ric = demo_http, ho_environ = Map.empty, ho_parse = (\<lambda>_. None),
      ho_validate = (\<lambda>_. None), ho_checkpoint = None, ho_saved = None, ho_lines = file_lines, ho_kafka = Inr [], ho_prior = None,
      ho_breaker = True, ho_smo_world = 0, ho_ric_world = 0, ho_no_store = (), ho_store = (), ho_verify = (\<lambda>_. Inr (- 1)),
      ho_len = (\<lambda>_. stored), ho_t0 = 0, ho_t1 = 1\<rparr>"

lemma demo_main:
  "\<exists>ck rc lc. daemon_main port_platform mk (demo_host ls st) cfg ts ce = daemon_serve port_platform mk (demo_host ls st) cfg ts ce ck rc lc"
proof -
  have "\<exists>rc. rapp_config_from_env port_platform Map.empty = Inr rc \<and> rc_a1_auth rc = None \<and> a1_dialect (rc_a1 rc) = ''legacy''"
    by (simp add: rapp_config_from_env_def env_flag_def env_set_def env_get_def port_platform_def Let_def
        a1_auth_from_env_def oauth_complete_def mtls_complete_def a1_config_default_def)
  then obtain rc where rc: "rapp_config_from_env port_platform Map.empty = Inr rc" "rc_a1_auth rc = None"
    "a1_dialect (rc_a1 rc) = ''legacy''" by blast
  have "r1_auth (rc_r1 rc) = None" using config_auth(3) [OF rc(1)] .
  then have "\<exists>lc. lifecycle_new port_platform (rc_r1 rc) (rc_a1 rc) None True True 0 0 () 0 None = Inr lc"
    using rc by (simp add: lifecycle_new_def r1_new_def a1_new_def a1_supported_def restore_from_disk_def)
  then obtain lc0 :: "(bool, nat, nat, unit) lifecycle"
    where lc0: "lifecycle_new port_platform (rc_r1 rc) (rc_a1 rc) None True True 0 0 () 0 None = Inr lc0" by blast
  have host: "ho_checkpoint (demo_host ls st) = None" "ho_environ (demo_host ls st) = Map.empty" "ho_breaker (demo_host ls st) = True"
    "ho_smo_world (demo_host ls st) = 0" "ho_ric_world (demo_host ls st) = 0" "ho_no_store (demo_host ls st) = ()"
    "ho_t0 (demo_host ls st) = 0" "ho_prior (demo_host ls st) = None"
    by (simp_all add: demo_host_def)
  have "daemon_main port_platform mk (demo_host ls st) cfg ts ce = daemon_serve port_platform mk (demo_host ls st) cfg ts ce
      checkpoint_new rc (boot_tolerant (host_network (demo_host ls st) rc) (ho_store (demo_host ls st)) lc0)"
    using rc lc0 by (simp add: daemon_main_def host checkpoint_load_def)
  then show ?thesis by blast
qed

lemma serve_lc: "\<exists>lc'. en_lc (daemon_serve pl mk h cfg ts ce ck rc lc) = Some lc'"
  by (auto simp: daemon_serve_def ended_early_def Let_def split: sum.splits prod.splits)

theorem daemon_shuts_down_witness:
  "\<exists>lc. en_lc (daemon_main port_platform (\<lambda>_. Inr accepting) (demo_host (Some []) (Inr 0)) daemon_config_default ticks calm) = Some lc \<and>
     lc_drain lc"
proof -
  obtain lc where lc: "en_lc (daemon_main port_platform (\<lambda>_. Inr accepting) (demo_host (Some []) (Inr 0)) daemon_config_default ticks calm) = Some lc"
    using demo_main serve_lc by metis
  then show ?thesis using daemon_shuts_down [OF _ lc, of 0] by (simp add: demo_host_def)
qed

theorem unreadable_store_skips_shutdown_witness:
  "\<exists>rc lc. en_lc (daemon_serve exact_platform (\<lambda>_. Inr accepting) (demo_host (Some []) (Inl ValueError)) daemon_config_default ticks calm
      checkpoint_new rc (boot_tolerant (host_network (demo_host (Some []) (Inl ValueError)) rc) () demo_lc)) = Some lc \<and> \<not> lc_drain lc"
proof -
  fix rc
  let ?h = "demo_host (Some []) (Inl ValueError)"
  let ?lc = "boot_tolerant (host_network ?h rc) (ho_store ?h) demo_lc"
  have "open_source exact_platform (ho_parse ?h) (ho_validate ?h) daemon_config_default checkpoint_new (ho_lines ?h) (ho_kafka ?h)
      (length ticks) = Inr ([], 0)"
    by (simp add: demo_host_def open_source_def daemon_config_default_def resumed_events_def file_events_def malformed_lines_def
      checkpoint_new_def List.map_filter_simps)
  from unreadable_store_skips_shutdown [where mk = "\<lambda>_. Inr accepting" and rc = rc and ce = calm and x = ValueError and ?lc0.0 = demo_lc, OF refl this _ _ refl]
  have "en_lc (daemon_serve exact_platform (\<lambda>_. Inr accepting) ?h daemon_config_default ticks calm checkpoint_new rc ?lc) = Some ?lc \<and>
      \<not> lc_drain ?lc"
    by (simp add: demo_host_def demo_lc_def ended_early_def)
  then show ?thesis by (auto simp: demo_host_def)
qed

theorem missing_source_ends_witness:
  "en_result (run_daemon port_platform (\<lambda>_. Inr accepting) (demo_host None (Inr 0)) daemon_config_default ticks calm) = Inr 2"
proof -
  obtain ck rc lc where eq: "daemon_main port_platform (\<lambda>_. Inr accepting) (demo_host None (Inr 0)) daemon_config_default ticks calm =
      daemon_serve port_platform (\<lambda>_. Inr accepting) (demo_host None (Inr 0)) daemon_config_default ticks calm ck rc lc"
    using demo_main by blast
  have "dc_source_type daemon_config_default = VStr ''file''" "\<not> dc_once daemon_config_default"
    "ho_lines (demo_host None (Inr 0)) = None" by (simp_all add: daemon_config_default_def demo_host_def)
  from missing_source_ends [OF this, of port_platform "\<lambda>_. Inr accepting" ticks calm] eq show ?thesis by simp
qed

theorem checkpoint_can_tear_witness:
  "\<exists>dsk'. after_crash (run apply_effect \<lparr>inodes = (\<lambda>_. \<lparr>content = [], synced = True\<rparr>), entries = Map.empty, unsynced_entries = []\<rparr>
       (checkpoint_effects ''s'' 1 [''new''])) dsk' \<and> read_file dsk' ''s'' = Some []"
  by (rule checkpoint_can_tear [OF refl])

end
