(* ===== verification/Connectors.thy ===== *)
theory Connectors
  imports Daemon "HOL-Library.List_Lexorder" "HOL-Library.Char_ord"
begin

text \<open>
  The extension surface for data flow: the retry helper and the batch read of \<open>io/connector.py\<close>, the
  registry of connector classes (\<open>io/registry.py\<close>), and the file and HTTP connectors
  (\<open>io/connectors/file_connector.py\<close>, \<open>http_connector.py\<close>). Installed plug-ins, connector classes,
  pydantic's validation, JSON and the HTTP client are parameters.
\<close>

section \<open>Retries\<close>

abbreviation ConnectorConfigError :: py_exn where "ConnectorConfigError \<equiv> OtherExn ''ConnectorConfigError''"
abbreviation ConnectorIOError :: py_exn where "ConnectorIOError \<equiv> OtherExn ''ConnectorIOError''"

definition connector_error :: "py_exn \<Rightarrow> bool" where
  "connector_error e \<longleftrightarrow> e \<in> {OtherExn ''ConnectorError'', ConnectorConfigError, ConnectorIOError, OtherExn ''KafkaDependencyError''}"

text \<open>
  \<open>fn i\<close> is what the attempt number \<open>i\<close> gives. A retry is the call of \<open>on_retry\<close> and the sleep after it.
  The last equation is the end of the \<open>for\<close> loop, which the code marks unreachable.
\<close>

fun retry_from ::
  "(nat \<Rightarrow> 'a res) \<Rightarrow> int \<Rightarrow> real \<Rightarrow> nat \<Rightarrow> py_exn option \<Rightarrow> nat \<Rightarrow> (nat \<times> py_exn \<times> real) list \<times> 'a res" where
  "retry_from fn attempts backoff i last_exc (Suc k) =
     (case fn i of
        Inr x \<Rightarrow> ([], Inr x)
      | Inl e \<Rightarrow>
          if \<not> connector_error e then ([], Inl e)
          else if attempts \<le> int i + 1 then ([], Inl e)
          else (let (rs, r) = retry_from fn attempts backoff (i + 1) (Some e) k
                in ((i, e, backoff * 2 ^ i) # rs, r)))"
| "retry_from fn attempts backoff i last_exc 0 = ([], Inl (case last_exc of None \<Rightarrow> TypeError | Some e \<Rightarrow> e))"

definition with_retry :: "(nat \<Rightarrow> 'a res) \<Rightarrow> int \<Rightarrow> real \<Rightarrow> (nat \<times> py_exn \<times> real) list \<times> 'a res" where
  "with_retry fn attempts backoff = retry_from fn attempts backoff 0 None (nat (max attempts 1))"

text \<open>\<open>Source.read\<close>, on what the stream yields.\<close>

fun read_loop :: "int \<Rightarrow> 'e list \<Rightarrow> ('x + 'e) list \<Rightarrow> 'x + 'e list" where
  "read_loop n out [] = Inr out"
| "read_loop n out (Inl e # items) = Inl e"
| "read_loop n out (Inr ev # items) = (let out' = out @ [ev] in if n \<le> int (length out') then Inr out' else read_loop n out' items)"

definition source_read :: "int \<Rightarrow> ('x + 'e) list \<Rightarrow> 'x + 'e list" where
  "source_read n items = read_loop n [] items"

section \<open>The registry\<close>

text \<open>
  What the code asks of a class: whether it is a \<open>Source\<close> or a \<open>Sink\<close>, whether a configuration object
  is an instance of its \<open>Config\<close>, pydantic's validation of a dictionary, and its constructor.
\<close>

record ('c, 'k, 'i) classes =
  source_class :: "'c \<Rightarrow> bool"
  sink_class :: "'c \<Rightarrow> bool"
  config_instance :: "'c \<Rightarrow> 'k \<Rightarrow> bool"
  model_validate :: "'c \<Rightarrow> pyval \<Rightarrow> 'k res"
  construct :: "'c \<Rightarrow> 'k \<Rightarrow> 'i res"

record 'c registry =
  rg_sources :: "(string \<times> 'c) list"
  rg_sinks :: "(string \<times> 'c) list"
  rg_loaded :: bool

definition registry_new :: "'c registry" where
  "registry_new = \<lparr>rg_sources = [], rg_sinks = [], rg_loaded = False\<rparr>"

definition register_source :: "('c, 'k, 'i) classes \<Rightarrow> string \<Rightarrow> 'c \<Rightarrow> 'c registry \<Rightarrow> 'c registry res" where
  "register_source cl name c rg =
     (if \<not> source_class cl c then Inl TypeError
      else if map_of (rg_sources rg) name \<notin> {None, Some c} then Inl ValueError
      else Inr (rg\<lparr>rg_sources := dict_set name c (rg_sources rg)\<rparr>))"

definition register_sink :: "('c, 'k, 'i) classes \<Rightarrow> string \<Rightarrow> 'c \<Rightarrow> 'c registry \<Rightarrow> 'c registry res" where
  "register_sink cl name c rg =
     (if \<not> sink_class cl c then Inl TypeError
      else if map_of (rg_sinks rg) name \<notin> {None, Some c} then Inl ValueError
      else Inr (rg\<lparr>rg_sinks := dict_set name c (rg_sinks rg)\<rparr>))"

text \<open>An entry point: its name and what loading it gives, a class, something else or an exception.\<close>

datatype 'c loaded = LoadedClass 'c | LoadedOther

fun load_each :: "('c, 'k, 'i) classes \<Rightarrow> (string \<times> 'c loaded res) list \<Rightarrow> 'c registry \<Rightarrow> 'c registry \<times> py_exn option" where
  "load_each cl [] rg = (rg, None)"
| "load_each cl ((name, Inl e) # eps) rg = load_each cl eps rg"
| "load_each cl ((name, Inr LoadedOther) # eps) rg = load_each cl eps rg"
| "load_each cl ((name, Inr (LoadedClass c)) # eps) rg =
     (if source_class cl c then
        (case register_source cl name c rg of Inl e \<Rightarrow> (rg, Some e) | Inr rg' \<Rightarrow> load_each cl eps rg')
      else if sink_class cl c then
        (case register_sink cl name c rg of Inl e \<Rightarrow> (rg, Some e) | Inr rg' \<Rightarrow> load_each cl eps rg')
      else load_each cl eps rg)"

definition maybe_load_entry_points ::
  "('c, 'k, 'i) classes \<Rightarrow> (string \<times> 'c loaded res) list res \<Rightarrow> 'c registry \<Rightarrow> 'c registry \<times> py_exn option" where
  "maybe_load_entry_points cl eps rg =
     (if rg_loaded rg then (rg, None)
      else let rg1 = rg\<lparr>rg_loaded := True\<rparr>
           in case eps of Inl e \<Rightarrow> (rg1, None) | Inr es \<Rightarrow> load_each cl es rg1)"

datatype 'k config = ConfigObject 'k | ConfigDict pyval

definition coerce_config :: "('c, 'k, 'i) classes \<Rightarrow> 'c \<Rightarrow> 'k config \<Rightarrow> 'k res" where
  "coerce_config cl c config =
     (case config of
        ConfigObject k \<Rightarrow> if config_instance cl c k then Inr k else Inl ConnectorConfigError
      | ConfigDict v \<Rightarrow> (case model_validate cl c v of Inl e \<Rightarrow> Inl ConnectorConfigError | Inr k \<Rightarrow> Inr k))"

definition make_connector :: "('c, 'k, 'i) classes \<Rightarrow> 'c option \<Rightarrow> 'k config \<Rightarrow> 'i res" where
  "make_connector cl found config =
     (case found of
        None \<Rightarrow> Inl ConnectorConfigError
      | Some c \<Rightarrow> bindE (coerce_config cl c config) (construct cl c))"

definition get_source ::
  "('c, 'k, 'i) classes \<Rightarrow> (string \<times> 'c loaded res) list res \<Rightarrow> string \<Rightarrow> 'k config \<Rightarrow> 'c registry \<Rightarrow> 'c registry \<times> 'i res" where
  "get_source cl eps name config rg =
     (case maybe_load_entry_points cl eps rg of
        (rg', Some e) \<Rightarrow> (rg', Inl e)
      | (rg', None) \<Rightarrow> (rg', make_connector cl (map_of (rg_sources rg') name) config))"

definition get_sink ::
  "('c, 'k, 'i) classes \<Rightarrow> (string \<times> 'c loaded res) list res \<Rightarrow> string \<Rightarrow> 'k config \<Rightarrow> 'c registry \<Rightarrow> 'c registry \<times> 'i res" where
  "get_sink cl eps name config rg =
     (case maybe_load_entry_points cl eps rg of
        (rg', Some e) \<Rightarrow> (rg', Inl e)
      | (rg', None) \<Rightarrow> (rg', make_connector cl (map_of (rg_sinks rg') name) config))"

definition list_connectors ::
  "('c, 'k, 'i) classes \<Rightarrow> (string \<times> 'c loaded res) list res \<Rightarrow> 'c registry \<Rightarrow> 'c registry \<times> (string list \<times> string list) res" where
  "list_connectors cl eps rg =
     (case maybe_load_entry_points cl eps rg of
        (rg', Some e) \<Rightarrow> (rg', Inl e)
      | (rg', None) \<Rightarrow> (rg', Inr (sort (map fst (rg_sources rg')), sort (map fst (rg_sinks rg')))))"

section \<open>The file connectors\<close>

datatype connector_state = C_INIT | C_STARTED | C_STOPPED

text \<open>A message: its class and its JSON dump. The classes are unrelated, so the first match is its own tag.\<close>

datatype message_class = TelemetryMsg | FeatureFrameMsg | PolicyActionMsg | AuditMsg | UnknownMsg

definition SCHEMA_FOR :: "(string \<times> message_class) list" where
  "SCHEMA_FOR = [(''telemetry'', TelemetryMsg), (''feature_frame'', FeatureFrameMsg), (''policy_action'', PolicyActionMsg),
     (''audit'', AuditMsg)]"

fun tag_of :: "(string \<times> message_class) list \<Rightarrow> message_class \<Rightarrow> string option" where
  "tag_of [] c = None"
| "tag_of ((tag, c') # rest) c = (if c = c' then Some tag else tag_of rest c)"

text \<open>The file is the list of its lines; a sink's lock makes the append one step.\<close>

definition file_write ::
  "(pyval \<Rightarrow> string) \<Rightarrow> connector_state \<Rightarrow> message_class \<times> pyval \<Rightarrow> string list \<Rightarrow> string list res" where
  "file_write dumps st m file_lines =
     (if st \<noteq> C_STARTED then Inl ConnectorIOError
      else case tag_of SCHEMA_FOR (fst m) of
             None \<Rightarrow> Inl ConnectorIOError
           | Some tag \<Rightarrow> Inr (file_lines @ [dumps (VDict [(''schema'', VStr tag), (''data'', snd m)])]))"

text \<open>\<open>Sink.write_many\<close>: serial writes; what was written before a failure stays.\<close>

fun write_many :: "('m \<Rightarrow> 'f \<Rightarrow> 'f res) \<Rightarrow> 'm list \<Rightarrow> 'f \<Rightarrow> 'f \<times> py_exn option" where
  "write_many write [] f = (f, None)"
| "write_many write (m # ms) f = (case write m f of Inl e \<Rightarrow> (f, Some e) | Inr f' \<Rightarrow> write_many write ms f')"

definition checked :: "(pyval \<Rightarrow> telemetry_event option) \<Rightarrow> pyval \<Rightarrow> telemetry_event option res" where
  "checked validate payload = (case validate payload of None \<Rightarrow> Inl ValueError | Some ev \<Rightarrow> Inr (Some ev))"

text \<open>One line: skipped, an event, or an exception that ends the stream.\<close>

definition unhashable :: "pyval \<Rightarrow> bool" where
  "unhashable v = (case v of VList _ \<Rightarrow> True | VSet _ \<Rightarrow> True | VDict _ \<Rightarrow> True | _ \<Rightarrow> False)"

definition stream_line ::
  "(string \<Rightarrow> pyval option) \<Rightarrow> (pyval \<Rightarrow> telemetry_event option) \<Rightarrow> string \<Rightarrow> telemetry_event option res" where
  "stream_line parse validate line =
     (case parse line of
        None \<Rightarrow> Inl ValueError
      | Some (VDict d) \<Rightarrow>
          (case (map_of d ''schema'', map_of d ''data'') of
             (Some tag, Some payload) \<Rightarrow>
               if unhashable tag then Inl TypeError
               else (case (case tag of VStr s \<Rightarrow> map_of SCHEMA_FOR s | _ \<Rightarrow> None) of
                       None \<Rightarrow> Inl ConnectorIOError
                     | Some c \<Rightarrow> if c \<noteq> TelemetryMsg then Inr None else checked validate payload)
           | _ \<Rightarrow> checked validate (VDict d))
      | Some v \<Rightarrow> checked validate v)"

fun stream_lines ::
  "(string \<Rightarrow> pyval option) \<Rightarrow> (pyval \<Rightarrow> telemetry_event option) \<Rightarrow> string list \<Rightarrow> telemetry_event res list" where
  "stream_lines parse validate [] = []"
| "stream_lines parse validate (l # ls) =
     (if py_blank l then stream_lines parse validate ls
      else case stream_line parse validate l of
             Inl e \<Rightarrow> [Inl e]
           | Inr None \<Rightarrow> stream_lines parse validate ls
           | Inr (Some ev) \<Rightarrow> Inr ev # stream_lines parse validate ls)"

definition file_connect :: "string list option \<Rightarrow> connector_state \<Rightarrow> connector_state res" where
  "file_connect contents st = (case contents of None \<Rightarrow> Inl ConnectorIOError | Some ls \<Rightarrow> Inr C_STARTED)"

definition file_stream ::
  "(string \<Rightarrow> pyval option) \<Rightarrow> (pyval \<Rightarrow> telemetry_event option) \<Rightarrow> connector_state \<Rightarrow> string list \<Rightarrow> telemetry_event res list" where
  "file_stream parse validate st ls = (if st \<noteq> C_STARTED then [Inl ConnectorIOError] else stream_lines parse validate ls)"

section \<open>The HTTP source\<close>

text \<open>\<open>str.split\<close> with a separator of one character.\<close>

fun py_split :: "char \<Rightarrow> string \<Rightarrow> string list" where
  "py_split sep [] = [[]]"
| "py_split sep (c # cs) = (if c = sep then [] # py_split sep cs else case py_split sep cs of p # ps \<Rightarrow> (c # p) # ps | [] \<Rightarrow> [[c]])"

text \<open>\<open>items[key]\<close> with a string key.\<close>

definition index_str :: "pyval \<Rightarrow> string \<Rightarrow> pyval res" where
  "index_str v k = (case v of VDict d \<Rightarrow> (case map_of d k of None \<Rightarrow> Inl KeyError | Some x \<Rightarrow> Inr x) | _ \<Rightarrow> Inl TypeError)"

fun walk_path :: "string list \<Rightarrow> pyval \<Rightarrow> pyval res" where
  "walk_path [] v = Inr v"
| "walk_path (k # ks) v = bindE (index_str v k) (walk_path ks)"

fun validate_items :: "(pyval \<Rightarrow> telemetry_event option) \<Rightarrow> pyval list \<Rightarrow> telemetry_event res list" where
  "validate_items validate [] = []"
| "validate_items validate (v # vs) = (case validate v of None \<Rightarrow> [Inl ValueError] | Some ev \<Rightarrow> Inr ev # validate_items validate vs)"

text \<open>One poll. A transport error is the connector's; another exception of the client is passed on.\<close>

definition http_poll ::
  "(pyval \<Rightarrow> telemetry_event option) \<Rightarrow> string option \<Rightarrow> http_response outcome \<Rightarrow> telemetry_event res list" where
  "http_poll validate array_path answer =
     (case raise_for_status answer of
        Raised e \<Rightarrow> [Inl (if http_error e then ConnectorIOError else OtherExn ''NonHTTP'')]
      | Returned resp \<Rightarrow>
          (case bindE (resp_json resp) (walk_path (case array_path of None \<Rightarrow> [] | Some [] \<Rightarrow> [] | Some p \<Rightarrow> py_split (CHR ''.'') p)) of
             Inl e \<Rightarrow> [Inl e]
           | Inr (VList vs) \<Rightarrow> validate_items validate vs
           | Inr v \<Rightarrow> [Inl ConnectorConfigError]))"

text \<open>The stream over a list of polls; the flag says whether the source was closed before that poll.\<close>

fun http_stream ::
  "(pyval \<Rightarrow> telemetry_event option) \<Rightarrow> string option \<Rightarrow> (bool \<times> http_response outcome) list \<Rightarrow> telemetry_event res list" where
  "http_stream validate array_path [] = []"
| "http_stream validate array_path ((halted, answer) # polls) =
     (if halted then []
      else let items = http_poll validate array_path answer
           in if \<exists>x \<in> set items. isl x then items else items @ http_stream validate array_path polls)"

section \<open>Properties\<close>

definition retryable :: "'a res \<Rightarrow> bool" where
  "retryable r \<longleftrightarrow> (case r of Inl e \<Rightarrow> connector_error e | Inr x \<Rightarrow> False)"

lemma retry_from_spec:
  assumes "retry_from fn attempts b i l k = (rs, r)" "i + k = nat (max attempts 1)" "0 < k"
  shows "length rs < k \<and> r = fn (i + length rs) \<and> (\<forall>j < length rs. retryable (fn (i + j))) \<and>
    (i + length rs + 1 < nat (max attempts 1) \<longrightarrow> \<not> retryable r) \<and>
    (\<Sum>x \<leftarrow> rs. snd (snd x)) = b * (2 ^ (i + length rs) - 2 ^ i)"
  using assms
proof (induction k arbitrary: i l rs)
  case (Suc k)
  show ?case
  proof (cases "\<exists>e. fn i = Inl e \<and> connector_error e \<and> \<not> attempts \<le> int i + 1")
    case False
    then have "rs = []" "r = fn i" "i + 1 < nat (max attempts 1) \<Longrightarrow> \<not> retryable r"
      using Suc.prems(1) by (auto simp: retryable_def split: sum.splits if_splits)
    then show ?thesis by auto
  next
    case True
    then obtain e where e: "fn i = Inl e" "connector_error e" "\<not> attempts \<le> int i + 1" by blast
    obtain rs' where rs': "retry_from fn attempts b (i + 1) (Some e) k = (rs', r)" "rs = (i, e, b * 2 ^ i) # rs'"
      using Suc.prems(1) e by (auto simp: Let_def split: prod.splits)
    have "0 < k" using Suc.prems(2) e(3) by (cases k) auto
    from Suc.IH [OF rs'(1) _ this] Suc.prems(2)
    have ih: "length rs' < k" "r = fn (i + 1 + length rs')" "\<forall>j < length rs'. retryable (fn (i + 1 + j))"
      "i + 1 + length rs' + 1 < nat (max attempts 1) \<longrightarrow> \<not> retryable r"
      "(\<Sum>x \<leftarrow> rs'. snd (snd x)) = b * (2 ^ (i + 1 + length rs') - 2 ^ (i + 1))" by auto
    have "retryable (fn (i + j))" if "j < length rs" for j
      using that ih(3) e(1,2) rs'(2) by (cases j) (auto simp: retryable_def)
    with ih rs'(2) show ?thesis by (auto simp: algebra_simps)
  qed
qed simp

text \<open>
  A retried call is made at least once and at most \<open>attempts\<close> times; it answers as the last call did; only
  the connectors' own errors are retried, and the sleeps add up to \<open>backoff * (2 ^ m - 1)\<close> after \<open>m\<close> retries.
\<close>

theorem with_retry_spec:
  assumes "with_retry fn attempts b = (rs, r)"
  shows "length rs < nat (max attempts 1) \<and> r = fn (length rs) \<and> (\<forall>j < length rs. retryable (fn j)) \<and>
    (length rs + 1 < nat (max attempts 1) \<longrightarrow> \<not> retryable r) \<and>
    (\<Sum>x \<leftarrow> rs. snd (snd x)) = b * (2 ^ length rs - 1)"
proof -
  have "0 < nat (max attempts 1)" by simp
  from retry_from_spec [OF assms [unfolded with_retry_def] _ this] show ?thesis by auto
qed

theorem with_retry_witness:
  "\<exists>rs. with_retry (\<lambda>i. if i < 2 then Inl ConnectorIOError else Inr i) 5 1 = (rs, Inr (2::nat)) \<and>
     (\<Sum>x \<leftarrow> rs. snd (snd x)) = 3"
proof -
  have run: "with_retry (\<lambda>i. if i < 2 then Inl ConnectorIOError else Inr i) 5 1 =
      ([(0, ConnectorIOError, 1), (1, ConnectorIOError, 2)], Inr (2::nat))"
    by (simp add: with_retry_def eval_nat_numeral connector_error_def)
  from with_retry_spec [OF this] run show ?thesis by simp
qed

lemma read_loop_take:
  "int (length out) < max n 1 \<Longrightarrow>
   read_loop n out (map Inr evs) = Inr (out @ take (nat (max n 1) - length out) evs)"
proof (induction evs arbitrary: out)
  case (Cons ev evs)
  show ?case
  proof (cases "n \<le> int (length out + 1)")
    case True
    with Cons.prems have "nat (max n 1) - length out = 1" by linarith
    with True show ?thesis by simp
  next
    case False
    then have "nat (max n 1) - length out = Suc (nat (max n 1) - length (out @ [ev]))" by simp
    with False Cons.IH [of "out @ [ev]"] show ?thesis by simp
  qed
qed simp

text \<open>A batch read takes the first \<open>n\<close> events, and one event when \<open>n\<close> is zero or negative.\<close>

theorem source_read_takes: "source_read n (map Inr evs) = Inr (take (nat (max n 1)) evs)"
  by (simp add: source_read_def read_loop_take)

section \<open>The registry keeps its bindings\<close>

datatype 'c registry_op = RegisterSource string 'c | RegisterSink string 'c | LookUp

fun registry_step ::
  "('c, 'k, 'i) classes \<Rightarrow> (string \<times> 'c loaded res) list res \<Rightarrow> 'c registry \<Rightarrow> 'c registry_op \<Rightarrow> 'c registry" where
  "registry_step cl eps rg (RegisterSource name c) = (case register_source cl name c rg of Inl e \<Rightarrow> rg | Inr rg' \<Rightarrow> rg')"
| "registry_step cl eps rg (RegisterSink name c) = (case register_sink cl name c rg of Inl e \<Rightarrow> rg | Inr rg' \<Rightarrow> rg')"
| "registry_step cl eps rg LookUp = fst (maybe_load_entry_points cl eps rg)"

text \<open>Everything bound is of its kind, names are bound once, and the bindings of \<open>base\<close> are still there.\<close>

definition registry_ok :: "('c, 'k, 'i) classes \<Rightarrow> 'c registry \<Rightarrow> bool" where
  "registry_ok cl rg \<longleftrightarrow> distinct (map fst (rg_sources rg)) \<and> distinct (map fst (rg_sinks rg)) \<and>
     (\<forall>b \<in> set (rg_sources rg). source_class cl (snd b)) \<and> (\<forall>b \<in> set (rg_sinks rg). sink_class cl (snd b))"

definition extends :: "'c registry \<Rightarrow> 'c registry \<Rightarrow> bool" where
  "extends base rg \<longleftrightarrow> map_of (rg_sources base) \<subseteq>\<^sub>m map_of (rg_sources rg) \<and> map_of (rg_sinks base) \<subseteq>\<^sub>m map_of (rg_sinks rg)"

lemma extends_refl [simp]: "extends rg rg"
  by (simp add: extends_def)

lemma extends_trans: "extends a b \<Longrightarrow> extends b c \<Longrightarrow> extends a c"
  by (auto simp: extends_def intro: map_le_trans)

lemma set_dict_set: "set (dict_set k v d) \<subseteq> insert (k, v) (set d)"
  by (induction k v d rule: dict_set.induct) auto

lemma register_source_keeps:
  "register_source cl name c rg = Inr rg' \<Longrightarrow> registry_ok cl rg \<Longrightarrow> registry_ok cl rg' \<and> extends rg rg'"
  using set_dict_set [of name c "rg_sources rg"]
  by (auto simp: register_source_def registry_ok_def extends_def map_le_def distinct_dict_set split: if_splits dest: eq_key_imp_eq_value)

lemma register_sink_keeps:
  "register_sink cl name c rg = Inr rg' \<Longrightarrow> registry_ok cl rg \<Longrightarrow> registry_ok cl rg' \<and> extends rg rg'"
  using set_dict_set [of name c "rg_sinks rg"]
  by (auto simp: register_sink_def registry_ok_def extends_def map_le_def distinct_dict_set split: if_splits dest: eq_key_imp_eq_value)

lemma load_each_keeps: "registry_ok cl rg \<Longrightarrow> registry_ok cl (fst (load_each cl eps rg)) \<and> extends rg (fst (load_each cl eps rg))"
proof (induction cl eps rg rule: load_each.induct)
  case (4 cl name c eps rg)
  show ?case
  proof (cases "source_class cl c")
    case True
    then show ?thesis using 4 register_source_keeps [of cl name c rg]
      by (cases "register_source cl name c rg") (auto intro: extends_trans)
  next
    case False
    then show ?thesis using 4 register_sink_keeps [of cl name c rg]
      by (cases "register_sink cl name c rg") (auto intro: extends_trans)
  qed
qed simp_all

lemma registry_load_keeps:
  assumes "registry_ok cl rg"
  shows "registry_ok cl (fst (maybe_load_entry_points cl eps rg)) \<and> extends rg (fst (maybe_load_entry_points cl eps rg))"
proof -
  have loaded: "registry_ok cl (rg\<lparr>rg_loaded := True\<rparr>)" "extends rg (rg\<lparr>rg_loaded := True\<rparr>)"
    using assms by (simp_all add: registry_ok_def extends_def)
  show ?thesis
    using load_each_keeps [OF loaded(1)] loaded assms
    by (auto simp: maybe_load_entry_points_def Let_def split: sum.splits intro: extends_trans)
qed

lemma registry_step_keeps: "registry_ok cl rg \<Longrightarrow> registry_ok cl (registry_step cl eps rg op) \<and> extends rg (registry_step cl eps rg op)"
  by (cases op) (auto split: sum.splits dest: register_source_keeps register_sink_keeps simp: registry_load_keeps)

interpretation registry_run: total_machine "registry_step cl eps" "\<lambda>rg. registry_ok cl rg \<and> extends base rg" for cl :: "('c, 'k, 'i) classes" and eps base
  by unfold_locales (auto dest: registry_step_keeps intro: extends_trans)

text \<open>
  Whatever is registered and looked up, by the program or by installed plug-ins, a name once bound keeps
  its class, and every class bound is of the kind it is handed out as.
\<close>

theorem bindings_permanent:
  assumes "registry_ok cl rg" "map_of (rg_sources rg) name = Some c"
  shows "registry_ok cl (run (registry_step cl eps) rg ops) \<and>
         map_of (rg_sources (run (registry_step cl eps) rg ops)) name = Some c"
  using registry_run.run_keeps [of cl rg rg eps ops] assms by (force simp: extends_def map_le_def)

text \<open>
  An entry point whose name another class has makes the first look-up raise, and the entry points after
  it are never loaded: the next look-up answers as if they were not installed.
\<close>

theorem clash_ends_loading:
  assumes "\<not> rg_loaded rg" "source_class cl c" "map_of (rg_sources rg) name = Some c'" "c \<noteq> c'"
    and "list_connectors cl (Inr ((name, Inr (LoadedClass c)) # eps)) rg = (rg', answer)"
  shows "answer = Inl ValueError \<and>
    list_connectors cl eps' rg' = (rg', Inr (sort (map fst (rg_sources rg)), sort (map fst (rg_sinks rg))))"
  using assms by (auto simp: list_connectors_def maybe_load_entry_points_def register_source_def Let_def split: if_splits)

definition demo_classes :: "(nat, unit, unit) classes" where
  "demo_classes = \<lparr>source_class = (\<lambda>c. True), sink_class = (\<lambda>c. False), config_instance = (\<lambda>c k. True),
     model_validate = (\<lambda>c v. Inr ()), construct = (\<lambda>c k. Inr ())\<rparr>"

definition demo_registry :: "nat registry" where
  "demo_registry = \<lparr>rg_sources = [(''file'', 0)], rg_sinks = [], rg_loaded = False\<rparr>"

theorem bindings_permanent_witness:
  "map_of (rg_sources (run (registry_step demo_classes (Inr [(''file'', Inr (LoadedClass 1))])) demo_registry
     [RegisterSource ''file'' 2, LookUp])) ''file'' = Some 0"
proof -
  have "registry_ok demo_classes demo_registry" "map_of (rg_sources demo_registry) ''file'' = Some 0"
    by (simp_all add: registry_ok_def demo_classes_def demo_registry_def)
  from bindings_permanent [OF this] show ?thesis by blast
qed

theorem clash_ends_loading_witness:
  "snd (list_connectors demo_classes (Inr [(''file'', Inr (LoadedClass 1)), (''new'', Inr (LoadedClass 2))]) demo_registry) = Inl ValueError"
proof -
  obtain rg' answer where lc: "list_connectors demo_classes
      (Inr [(''file'', Inr (LoadedClass 1)), (''new'', Inr (LoadedClass 2))]) demo_registry = (rg', answer)" by force
  from clash_ends_loading [OF _ _ _ _ lc, where c' = 0 and eps' = "Inr []"]
  have "answer = Inl ValueError" by (simp add: demo_registry_def demo_classes_def)
  then show ?thesis by (simp only: lc snd_conv)
qed

section \<open>Files\<close>

text \<open>The events of the telemetry messages of a list, in order.\<close>

definition telemetry_messages :: "(pyval \<Rightarrow> telemetry_event option) \<Rightarrow> (message_class \<times> pyval) list \<Rightarrow> telemetry_event list" where
  "telemetry_messages validate ms = List.map_filter (\<lambda>m. if fst m = TelemetryMsg then validate (snd m) else None) ms"

definition envelope :: "string \<Rightarrow> pyval \<Rightarrow> pyval" where
  "envelope tag data = VDict [(''schema'', VStr tag), (''data'', data)]"

text \<open>
  What the round trip needs of the JSON library and of pydantic for these messages: the dump of an
  envelope is not blank and parses back, the classes are known, and a dumped event validates again.
\<close>

definition writable ::
  "(pyval \<Rightarrow> string) \<Rightarrow> (string \<Rightarrow> pyval option) \<Rightarrow> (pyval \<Rightarrow> telemetry_event option) \<Rightarrow> message_class \<times> pyval \<Rightarrow> bool" where
  "writable dumps parse validate m \<longleftrightarrow>
     fst m \<noteq> UnknownMsg \<and> (fst m = TelemetryMsg \<longrightarrow> validate (snd m) \<noteq> None) \<and>
     list_all (\<lambda>b. \<not> py_blank (dumps (envelope (fst b) (snd m))) \<and>
        parse (dumps (envelope (fst b) (snd m))) = Some (envelope (fst b) (snd m))) SCHEMA_FOR"

lemma checked_Inr [simp]: "checked validate v = Inr r \<longleftrightarrow> (\<exists>ev. validate v = Some ev \<and> r = Some ev)"
  by (auto simp: checked_def split: option.splits)

lemma known_tag:
  "c \<noteq> UnknownMsg \<Longrightarrow> \<exists>tag. tag_of SCHEMA_FOR c = Some tag \<and> map_of SCHEMA_FOR tag = Some c \<and>
     (tag, c) \<in> set SCHEMA_FOR \<and> (tag = ''telemetry'' \<longleftrightarrow> c = TelemetryMsg)"
  by (cases c) (simp_all add: SCHEMA_FOR_def)

lemma written_line:
  assumes "writable dumps parse validate m"
  obtains l where "file_write dumps C_STARTED m ls = Inr (ls @ [l])" "\<not> py_blank l"
    "stream_line parse validate l = Inr (if fst m = TelemetryMsg then validate (snd m) else None)"
    "read_line parse validate l = (if fst m = TelemetryMsg then Telemetry (the (validate (snd m))) else OtherRow)"
proof -
  have "fst m \<noteq> UnknownMsg" using assms by (simp add: writable_def)
  from known_tag [OF this] obtain tag where tag: "tag_of SCHEMA_FOR (fst m) = Some tag" "map_of SCHEMA_FOR tag = Some (fst m)"
    "(tag, fst m) \<in> set SCHEMA_FOR" "tag = ''telemetry'' \<longleftrightarrow> fst m = TelemetryMsg"
    by blast
  have l: "\<not> py_blank (dumps (envelope tag (snd m)))" "parse (dumps (envelope tag (snd m))) = Some (envelope tag (snd m))"
    "fst m = TelemetryMsg \<Longrightarrow> validate (snd m) \<noteq> None"
    using assms tag(3) by (force simp: writable_def list_all_iff)+
  show ?thesis
  proof (rule that)
    show "file_write dumps C_STARTED m ls = Inr (ls @ [dumps (envelope tag (snd m))])"
      by (simp add: file_write_def tag(1) envelope_def)
    show "stream_line parse validate (dumps (envelope tag (snd m))) = Inr (if fst m = TelemetryMsg then validate (snd m) else None)"
      using l(2,3) tag(2) by (auto simp: stream_line_def envelope_def unhashable_def Let_def split: option.splits)
    show "read_line parse validate (dumps (envelope tag (snd m))) =
        (if fst m = TelemetryMsg then Telemetry (the (validate (snd m))) else OtherRow)"
      using l(2,3) tag(4) by (auto simp: read_line_def envelope_def Let_def split: option.splits)
  qed (rule l(1))
qed

lemma stream_lines_append:
  "\<forall>x \<in> set (stream_lines parse validate ls). \<not> isl x \<Longrightarrow>
   stream_lines parse validate (ls @ ms) = stream_lines parse validate ls @ stream_lines parse validate ms"
  by (induction parse validate ls rule: stream_lines.induct) (auto split: sum.splits option.splits)

text \<open>
  What a \<open>FileSink\<close> wrote a \<open>FileSource\<close> reads: after the events that were in the file come exactly the
  telemetry messages, in order, and messages of the other schemas are skipped.
\<close>

theorem file_roundtrip:
  assumes "\<forall>m \<in> set ms. writable dumps parse validate m" "\<forall>x \<in> set (stream_lines parse validate ls). \<not> isl x"
  shows "\<exists>ls'. write_many (file_write dumps C_STARTED) ms ls = (ls', None) \<and>
    file_stream parse validate C_STARTED ls' =
      stream_lines parse validate ls @ map Inr (telemetry_messages validate ms)"
  using assms
proof (induction ms arbitrary: ls)
  case Nil
  then show ?case by (simp add: file_stream_def telemetry_messages_def List.map_filter_simps)
next
  case (Cons m ms)
  from Cons.prems(1) have m: "writable dumps parse validate m" by simp
  obtain l where l: "file_write dumps C_STARTED m ls = Inr (ls @ [l])" "\<not> py_blank l"
    "stream_line parse validate l = Inr (if fst m = TelemetryMsg then validate (snd m) else None)"
    by (rule written_line [OF m, of ls])
  have one: "stream_lines parse validate [l] = map Inr (telemetry_messages validate [m])"
    using l(2,3) m by (auto simp: telemetry_messages_def List.map_filter_simps writable_def split: option.splits)
  have app: "stream_lines parse validate (ls @ [l]) = stream_lines parse validate ls @ map Inr (telemetry_messages validate [m])"
    using stream_lines_append [OF Cons.prems(2)] one by simp
  then have "\<forall>x \<in> set (stream_lines parse validate (ls @ [l])). \<not> isl x" using Cons.prems(2) by auto
  from Cons.IH [OF _ this] Cons.prems(1) app l(1) show ?case
    by (auto simp: telemetry_messages_def List.map_filter_simps split: option.splits if_splits)
qed

lemma schema_telemetry: "map_of SCHEMA_FOR s = Some TelemetryMsg \<longleftrightarrow> s = ''telemetry''"
  by (auto simp: SCHEMA_FOR_def split: if_splits)

lemma stream_line_read:
  assumes "stream_line parse validate l = Inr r"
  shows "read_line parse validate l = (case r of None \<Rightarrow> OtherRow | Some ev \<Rightarrow> Telemetry ev)"
proof -
  obtain v where v: "parse l = Some v" using assms by (auto simp: stream_line_def split: option.splits)
  show ?thesis
  proof (cases "\<exists>d t p. v = VDict d \<and> map_of d ''schema'' = Some t \<and> map_of d ''data'' = Some p")
    case True
    then obtain d t p where d: "v = VDict d" "map_of d ''schema'' = Some t" "map_of d ''data'' = Some p" by blast
    obtain s c where t: "t = VStr s" "map_of SCHEMA_FOR s = Some c"
      using assms by (cases t) (auto simp: stream_line_def v d split: if_splits option.splits)
    show ?thesis using assms schema_telemetry [of s]
      by (cases "c = TelemetryMsg") (auto simp: stream_line_def read_line_def v d t unhashable_def Let_def)
  next
    case False
    then have "stream_line parse validate l = checked validate v"
      by (cases v) (auto simp: stream_line_def v split: option.splits)
    with assms obtain ev where ev: "validate v = Some ev" "r = Some ev" by auto
    show ?thesis using False ev by (cases v) (auto simp: read_line_def v)
  qed
qed

definition demo_validate :: "pyval \<Rightarrow> telemetry_event option" where
  "demo_validate v = Some \<lparr>te_event_id = ''e1'', te_source_id = ''s'', te_payload = Map.empty\<rparr>"

definition demo_dumps :: "pyval \<Rightarrow> string" where
  "demo_dumps v = (case v of VDict [(_, VStr t), _] \<Rightarrow> t | _ \<Rightarrow> [])"

theorem file_roundtrip_witness:
  "\<exists>ls'. write_many (file_write demo_dumps C_STARTED) [(AuditMsg, VNone), (TelemetryMsg, VNone)] [] = (ls', None) \<and>
     file_stream (\<lambda>s. Some (envelope s VNone)) demo_validate C_STARTED ls' = [Inr (the (demo_validate VNone))]"
proof -
  have "\<forall>m \<in> set [(AuditMsg, VNone), (TelemetryMsg, VNone)]. writable demo_dumps (\<lambda>s. Some (envelope s VNone)) demo_validate m"
    by (simp add: writable_def SCHEMA_FOR_def envelope_def demo_dumps_def demo_validate_def py_blank_def)
  from file_roundtrip [OF this, of "[]"] show ?thesis
    by (simp add: telemetry_messages_def List.map_filter_simps demo_validate_def)
qed

text \<open>
  The daemon, which reads the same files with its own loop, sees the same events wherever the
  \<open>FileSource\<close> raises nothing.
\<close>

theorem daemon_reads_like_source:
  assumes "stream_lines parse validate ls = map Inr evs"
  shows "file_events parse validate ls = evs \<and> malformed_lines parse validate ls = 0"
  using assms
proof (induction ls arbitrary: evs)
  case Nil
  then show ?case by (simp add: file_events_def malformed_lines_def List.map_filter_simps)
next
  case (Cons l ls)
  show ?case
  proof (cases "py_blank l")
    case True
    with Cons show ?thesis by (simp add: file_events_def malformed_lines_def)
  next
    case False
    then obtain r where r: "stream_line parse validate l = Inr r"
      using Cons.prems by (cases "stream_line parse validate l") auto
    have read: "read_line parse validate l = (case r of None \<Rightarrow> OtherRow | Some ev \<Rightarrow> Telemetry ev)"
      by (rule stream_line_read [OF r])
    show ?thesis
    proof (cases r)
      case None
      with Cons.IH [of evs] Cons.prems False r read show ?thesis by (simp add: file_events_def malformed_lines_def List.map_filter_simps)
    next
      case (Some ev)
      with Cons.prems False r obtain evs' where "stream_lines parse validate ls = map Inr evs'" "evs = ev # evs'"
        by (cases evs) auto
      with Cons.IH [of evs'] Some False read show ?thesis by (simp add: file_events_def malformed_lines_def List.map_filter_simps)
    qed
  qed
qed

section \<open>Polling\<close>

text \<open>A stream, of a file or of polls, ends with the first exception it raises.\<close>

definition ends_at_failure :: "('x + 'e) list \<Rightarrow> bool" where
  "ends_at_failure items \<longleftrightarrow> (\<forall>x \<in> set (butlast items). \<not> isl x)"

lemma ends_append: "\<forall>x \<in> set xs. \<not> isl x \<Longrightarrow> ends_at_failure ys \<Longrightarrow> ends_at_failure (xs @ ys)"
  by (cases "ys = []") (auto simp: ends_at_failure_def butlast_append dest: in_set_butlastD)

lemma ends_Cons: "\<not> isl x \<Longrightarrow> ends_at_failure ys \<Longrightarrow> ends_at_failure (x # ys)"
  using ends_append [of "[x]" ys] by simp

lemma validate_items_ends: "ends_at_failure (validate_items validate vs)"
  by (induction validate vs rule: validate_items.induct)
     (auto split: option.splits intro: ends_Cons simp: ends_at_failure_def [of "[]"] ends_at_failure_def [of "[_]"])

lemma http_poll_ends: "ends_at_failure (http_poll validate path answer)"
  by (auto simp: http_poll_def validate_items_ends ends_at_failure_def [of "[_]"]
      split: outcome.splits sum.splits pyval.splits)

theorem streams_end_at_failure:
  "ends_at_failure (file_stream parse validate st ls)" "ends_at_failure (http_stream validate path polls)"
proof -
  have "ends_at_failure (stream_lines parse validate ls)"
    by (induction parse validate ls rule: stream_lines.induct)
       (auto split: sum.splits option.splits intro: ends_Cons simp: ends_at_failure_def [of "[]"] ends_at_failure_def [of "[_]"])
  then show "ends_at_failure (file_stream parse validate st ls)"
    by (simp add: file_stream_def ends_at_failure_def [of "[_]"])
  show "ends_at_failure (http_stream validate path polls)"
    by (induction validate path polls rule: http_stream.induct)
       (auto simp: Let_def http_poll_ends ends_at_failure_def [of "[]"] intro: ends_append)
qed

end
