(* ===== verification/Dashboard.thy ===== *)
theory Dashboard
  imports EvidenceProps Connectors
begin

text \<open>
  The operator API the rApp serves (\<open>rapp/dashboard_api.py\<close>): its users and passwords, its tokens, and
  its endpoints over the evidence store, the lifecycle and the connector registry. python-jose
  (\<open>ae_encode\<close>, \<open>ae_decode\<close>), the derivation inside PBKDF2 (\<open>ae_kdf\<close>), dates and the clock are
  parameters; FastAPI's routing and rendering and the CORS headers are left out.
\<close>

section \<open>Settings\<close>

text \<open>An HTTP error of the handler, or an exception that leaves it (the server answers 500).\<close>

datatype api_exn = HttpExn int string | Crash py_exn

definition crash :: "'a res \<Rightarrow> api_exn + 'a" where
  "crash r = (case r of Inl e \<Rightarrow> Inl (Crash e) | Inr x \<Rightarrow> Inr x)"

record 't api_env =
  ae_environ :: environ
  ae_platform :: platform
  ae_encode :: "claims \<Rightarrow> string \<Rightarrow> 't"
  ae_decode :: "'t \<Rightarrow> string \<Rightarrow> string \<Rightarrow> string \<Rightarrow> real \<Rightarrow> claims res"
  ae_kdf :: "nat list \<Rightarrow> nat list \<Rightarrow> int \<Rightarrow> nat list"

definition DEFAULT_JWT_ISSUER :: string where "DEFAULT_JWT_ISSUER = ''horizon-ric''"
definition DEFAULT_JWT_AUDIENCE :: string where "DEFAULT_JWT_AUDIENCE = ''horizon-dashboard''"
definition DEFAULT_TOKEN_TTL_S :: int where "DEFAULT_TOKEN_TTL_S = 3600"
definition DEFAULT_EVIDENCE_PATH :: string where "DEFAULT_EVIDENCE_PATH = ''/var/lib/horizon/audit.jsonl''"
definition PBKDF2_SCHEME :: string where "PBKDF2_SCHEME = ''pbkdf2_sha256''"
definition PRIVILEGED_ROLES :: "string list" where "PRIVILEGED_ROLES = [''admin'', ''operator'']"

definition production_flag :: "environ \<Rightarrow> bool" where
  "production_flag environ =
     (case environ ''HORIZON_PRODUCTION_MODE'' of
        None \<Rightarrow> True
      | Some raw \<Rightarrow> if py_strip raw = [] then True else py_lower (py_strip raw) \<notin> {''0'', ''false'', ''no''})"

definition jwt_secret :: "environ \<Rightarrow> string res" where
  "jwt_secret environ =
     (case environ ''HORIZON_API_JWT_SECRET'' of None \<Rightarrow> Inl RuntimeError | Some [] \<Rightarrow> Inl RuntimeError | Some s \<Rightarrow> Inr s)"

definition evidence_path :: "environ \<Rightarrow> string" where
  "evidence_path environ = env_get environ ''HORIZON_EVIDENCE_PATH'' DEFAULT_EVIDENCE_PATH"

definition cors_origins :: "environ \<Rightarrow> string list" where
  "cors_origins environ =
     map py_strip (filter (\<lambda>o1. py_strip o1 \<noteq> []) (py_split (CHR '','') (env_get environ ''HORIZON_API_CORS_ORIGINS'' ''http://localhost:3000'')))"

section \<open>Tokens\<close>

definition token_claims :: "real \<Rightarrow> string \<Rightarrow> string \<Rightarrow> int \<Rightarrow> claims" where
  "token_claims now sub role ttl =
     [(''iss'', VStr DEFAULT_JWT_ISSUER), (''aud'', VStr DEFAULT_JWT_AUDIENCE), (''sub'', VStr sub), (''role'', VStr role),
      (''iat'', VInt (trunc now)), (''exp'', VInt (trunc now + ttl))]"

definition issue_token :: "'t api_env \<Rightarrow> real \<Rightarrow> string \<Rightarrow> string \<Rightarrow> int \<Rightarrow> string option \<Rightarrow> 't res" where
  "issue_token env now sub role ttl secret =
     bindE (case secret of None \<Rightarrow> jwt_secret (ae_environ env) | Some [] \<Rightarrow> jwt_secret (ae_environ env) | Some s \<Rightarrow> Inr s)
       (\<lambda>key. Inr (ae_encode env (token_claims now sub role ttl) key))"

definition decode_token :: "'t api_env \<Rightarrow> real \<Rightarrow> 't \<Rightarrow> api_exn + claims" where
  "decode_token env now token =
     (case jwt_secret (ae_environ env) of
        Inl e \<Rightarrow> Inl (Crash e)
      | Inr key \<Rightarrow>
          (case ae_decode env token key DEFAULT_JWT_AUDIENCE DEFAULT_JWT_ISSUER now of
             Inr claims \<Rightarrow> Inr claims
           | Inl e \<Rightarrow> if e = JWTError then Inl (HttpExn 401 ''invalid token'') else Inl (Crash e)))"

text \<open>The parsed \<open>Authorization\<close> header: its scheme and its credentials.\<close>

definition require_auth :: "'t api_env \<Rightarrow> real \<Rightarrow> (string \<times> 't) option \<Rightarrow> api_exn + claims" where
  "require_auth env now creds =
     (case creds of
        None \<Rightarrow> Inl (HttpExn 401 ''missing bearer token'')
      | Some (scheme, token) \<Rightarrow>
          if py_lower scheme \<noteq> ''bearer'' then Inl (HttpExn 401 ''missing bearer token'') else decode_token env now token)"

definition role_claim :: "platform \<Rightarrow> claims \<Rightarrow> string" where
  "role_claim pl claims = py_str pl (case map_of claims ''role'' of None \<Rightarrow> VStr [] | Some v \<Rightarrow> if truthy v then v else VStr [])"

definition require_role_claim :: "'t api_env \<Rightarrow> string list \<Rightarrow> real \<Rightarrow> (string \<times> 't) option \<Rightarrow> api_exn + claims" where
  "require_role_claim env allowed now creds =
     bindE (require_auth env now creds) (\<lambda>claims.
       if role_claim (ae_platform env) claims \<notin> set allowed then Inl (HttpExn 403 ''role not permitted'') else Inr claims)"

section \<open>Passwords\<close>

text \<open>\<open>hashlib.pbkdf2_hmac("sha256", ...)\<close>: the range of its iteration count around the derivation.\<close>

definition pbkdf2_hmac :: "(nat list \<Rightarrow> nat list \<Rightarrow> int \<Rightarrow> nat list) \<Rightarrow> nat list \<Rightarrow> nat list \<Rightarrow> int \<Rightarrow> nat list res" where
  "pbkdf2_hmac kdf password salt iterations =
     (if iterations < - (2 ^ 63) \<or> 2 ^ 31 \<le> iterations then Inl OverflowError
      else if iterations < 1 then Inl ValueError
      else Inr (kdf password salt iterations))"

definition hash_password :: "(nat list \<Rightarrow> nat list \<Rightarrow> int \<Rightarrow> nat list) \<Rightarrow> string \<Rightarrow> int \<Rightarrow> nat list \<Rightarrow> string res" where
  "hash_password kdf password iterations salt =
     (if iterations < 1 then Inl ValueError
      else bindE (pbkdf2_hmac kdf (utf8 password) salt iterations) (\<lambda>digest.
        Inr (PBKDF2_SCHEME @ ''$'' @ int_str iterations @ ''$'' @ to_hex salt @ ''$'' @ to_hex digest)))"

definition verify_hashed :: "'t api_env \<Rightarrow> string \<Rightarrow> string \<Rightarrow> bool res" where
  "verify_hashed env stored password =
     (case py_split (CHR ''$'') stored of
        [scheme, iter_s, salt_hex, hash_hex] \<Rightarrow>
          if scheme \<noteq> PBKDF2_SCHEME then Inr False
          else (case bindE (py_int (ae_platform env) (VStr iter_s)) (\<lambda>iterations. bindE (bytes_fromhex salt_hex) (\<lambda>salt.
                       bindE (bytes_fromhex hash_hex) (\<lambda>expected. Inr (iterations, salt, expected)))) of
                  Inl e \<Rightarrow> if e \<in> {ValueError, TypeError} then Inr False else Inl e
                | Inr (iterations, salt, expected) \<Rightarrow>
                    bindE (pbkdf2_hmac (ae_kdf env) (utf8 password) salt iterations) (\<lambda>candidate. Inr (candidate = expected)))
      | _ \<Rightarrow> Inr False)"

definition verify_secret :: "'t api_env \<Rightarrow> string \<Rightarrow> string \<Rightarrow> bool res" where
  "verify_secret env stored password =
     (if starts_with (PBKDF2_SCHEME @ ''$'') stored then verify_hashed env stored password
      else if production_flag (ae_environ env) then Inr False
      else Inr (utf8 stored = utf8 password))"

text \<open>One entry of \<open>HORIZON_API_USERS\<close>, and the dictionary; a later entry of the same user wins.\<close>

definition user_entry :: "string \<Rightarrow> (string \<times> string \<times> string) option" where
  "user_entry entry =
     (let parts = py_split (CHR '':'') (py_strip entry);
          parts' = (if length parts = 2 then parts @ [''viewer''] else parts)
      in case parts' of
           [user, pw, role] \<Rightarrow> if user \<noteq> [] \<and> pw \<noteq> [] \<and> role \<noteq> [] then Some (user, pw, role) else None
         | _ \<Rightarrow> None)"

definition users_from_env :: "environ \<Rightarrow> string \<rightharpoonup> string \<times> string" where
  "users_from_env environ =
     foldl (\<lambda>out entry. case user_entry entry of None \<Rightarrow> out | Some (user, pw, role) \<Rightarrow> out(user \<mapsto> (pw, role)))
       Map.empty (py_split (CHR '','') (env_get environ ''HORIZON_API_USERS'' []))"

text \<open>\<open>POST /auth/token\<close>, with the length limits of \<open>TokenRequest\<close>.\<close>

definition auth_token :: "'t api_env \<Rightarrow> real \<Rightarrow> string \<Rightarrow> string \<Rightarrow> api_exn + 't \<times> string" where
  "auth_token env now username password =
     (if \<not> (1 \<le> length username \<and> length username \<le> 64 \<and> 1 \<le> length password \<and> length password \<le> 256)
      then Inl (HttpExn 422 ''validation error'')
      else case users_from_env (ae_environ env) username of
             None \<Rightarrow> Inl (HttpExn 401 ''unknown user'')
           | Some (stored, role) \<Rightarrow>
               bindE (crash (verify_secret env stored password)) (\<lambda>ok.
                 if \<not> ok then Inl (HttpExn 401 ''bad credentials'')
                 else bindE (crash (issue_token env now username role DEFAULT_TOKEN_TTL_S None)) (\<lambda>token. Inr (token, role))))"

section \<open>Reading the evidence\<close>

text \<open>The handlers iterate the store; the items are what the iteration yields.\<close>

definition read_chain :: "row res list \<Rightarrow> row list res" where
  "read_chain items = mapE id items"

record policy_summary =
  ps_decision_id :: string
  ps_timestamp :: string
  ps_chosen_action :: pyval
  ps_risk_30s :: pyfloat
  ps_risk_1min :: pyfloat
  ps_risk_5min :: pyfloat
  ps_rejected_count :: nat
  ps_chain_hash :: string

definition summarise :: "row \<Rightarrow> policy_summary" where
  "summarise x =
     (case x of (r, h) \<Rightarrow>
        \<lparr>ps_decision_id = dr_decision_id r, ps_timestamp = dr_timestamp r, ps_chosen_action = dr_chosen_action r,
         ps_risk_30s = sla_risk_30s (dr_predicted r), ps_risk_1min = sla_risk_1min (dr_predicted r),
         ps_risk_5min = sla_risk_5min (dr_predicted r), ps_rejected_count = length (dr_rejected r), ps_chain_hash = h\<rparr>)"

definition policies :: "int \<Rightarrow> row res list \<Rightarrow> api_exn + policy_summary list \<times> nat" where
  "policies limit items =
     (if \<not> (1 \<le> limit \<and> limit \<le> 500) then Inl (HttpExn 422 ''validation error'')
      else bindE (crash (read_chain items)) (\<lambda>chain.
        Inr (map summarise (rev (drop (length chain - nat limit) chain)), length chain)))"

fun policy_detail :: "string \<Rightarrow> row res list \<Rightarrow> api_exn + row" where
  "policy_detail decision_id [] = Inl (HttpExn 404 ''decision not found'')"
| "policy_detail decision_id (Inl e # items) = Inl (Crash e)"
| "policy_detail decision_id (Inr (r, h) # items) =
     (if dr_decision_id r = decision_id then Inr (r, h) else policy_detail decision_id items)"

record audit_answer =
  aa_intact :: bool
  aa_broken_at :: int
  aa_length :: nat
  aa_head :: "string option"

definition head_hash :: "row list \<Rightarrow> string option" where
  "head_hash rows = (if rows = [] then None else Some (snd (last rows)))"

definition audit_verify :: "sha \<Rightarrow> codec \<Rightarrow> row res list \<Rightarrow> api_exn + audit_answer" where
  "audit_verify sha c items =
     bindE (crash (store_verify sha c items)) (\<lambda>broken.
     bindE (crash (read_chain items)) (\<lambda>chain.
       Inr \<lparr>aa_intact = (broken = - 1), aa_broken_at = broken, aa_length = length chain, aa_head = head_hash chain\<rparr>))"

text \<open>A date: its wall clock in seconds since the year 1, and its offset from UTC if it is aware.\<close>

record date =
  wall :: real
  offset :: "real option"

definition as_utc :: "date \<Rightarrow> date" where
  "as_utc d = (if offset d = None then d\<lparr>offset := Some 0\<rparr> else d)"

definition instant :: "date \<Rightarrow> real" where
  "instant d = wall d - (case offset d of None \<Rightarrow> 0 | Some o1 \<Rightarrow> o1)"

record sla_sample =
  sa_timestamp :: date
  sa_horizon :: string
  sa_risk :: pyfloat
  sa_decision_id :: string

definition sla_sample_new :: "date \<Rightarrow> string \<Rightarrow> string \<times> pyfloat \<Rightarrow> sla_sample res" where
  "sla_sample_new ts did hv =
     (if fraction (snd hv) then Inr \<lparr>sa_timestamp = ts, sa_horizon = fst hv, sa_risk = snd hv, sa_decision_id = did\<rparr>
      else Inl ValueError)"

definition samples_of :: "(string \<Rightarrow> date) \<Rightarrow> date \<Rightarrow> date \<Rightarrow> row \<Rightarrow> sla_sample list res" where
  "samples_of date_of from_ts to_ts x =
     (let r = fst x; ts = as_utc (date_of (dr_timestamp r)); po = dr_predicted r
      in if instant ts < instant from_ts \<or> instant to_ts < instant ts then Inr []
         else mapE (sla_sample_new ts (dr_decision_id r))
                [(''30s'', sla_risk_30s po), (''60s'', sla_risk_1min po), (''300s'', sla_risk_5min po)])"

definition sla_timeline ::
  "(string \<Rightarrow> date) \<Rightarrow> date \<Rightarrow> date option \<Rightarrow> date option \<Rightarrow> row res list \<Rightarrow> api_exn + sla_sample list \<times> date \<times> date" where
  "sla_timeline date_of utcnow from_q to_q items =
     (let to0 = (case to_q of None \<Rightarrow> utcnow | Some d \<Rightarrow> d)
      in bindE (case from_q of Some d \<Rightarrow> Inr d
                | None \<Rightarrow> if wall to0 < 3600 then Inl (Crash OverflowError) else Inr (to0\<lparr>wall := wall to0 - 3600\<rparr>)) (\<lambda>from0.
         let from_ts = as_utc from0; to_ts = as_utc to0
         in bindE (crash (read_chain items)) (\<lambda>chain.
            bindE (crash (mapE (samples_of date_of from_ts to_ts) chain)) (\<lambda>xs. Inr (concat xs, from_ts, to_ts)))))"

section \<open>State and breakers\<close>

record state_response =
  sr_rapp_state :: string
  sr_degraded_state :: string
  sr_watchdog_last_tick :: real
  sr_watchdog_interval :: real
  sr_a1_emitted :: int
  sr_last_decision :: "string option"
  sr_chain_head :: "string option"
  sr_rapp_id :: string
  sr_rapp_version :: string
  sr_timestamp :: real
  sr_uptime :: real

text \<open>
  What the application sees when it answers: the lifecycle (if it is attached) with its adapter
  configuration and watchdog interval, what iterating the store yields, and the breakers it was given.
\<close>

record ('b, 'w, 'v, 's) api_view =
  vw_lifecycle :: "('b, 'w, 'v, 's) lifecycle option"
  vw_r1_config :: r1_config
  vw_interval :: real
  vw_items :: "row res list"
  vw_breakers :: "(string \<times> (string \<times> int) res) list"

text \<open>The application's own state: when it started, its last request, and the registry of the process.\<close>

record 'c api_app =
  ap_boot :: real
  ap_tick :: real
  ap_registry :: "'c registry"

text \<open>\<open>last_decision_id\<close> as the response model takes it: a string or nothing.\<close>

definition optional_str :: "pyval \<Rightarrow> string option res" where
  "optional_str v = (case v of VNone \<Rightarrow> Inr None | VStr s \<Rightarrow> Inr (Some s) | _ \<Rightarrow> Inl ValueError)"

definition state_endpoint ::
  "environ \<Rightarrow> real \<Rightarrow> 'c api_app \<Rightarrow> ('b, 'w, 'v, 's) api_view \<Rightarrow> api_exn + state_response" where
  "state_endpoint environ now app vw =
     (let chain = (case read_chain (vw_items vw) of Inl e \<Rightarrow> [] | Inr rows \<Rightarrow> rows);
          lc_last = (case vw_lifecycle vw of None \<Rightarrow> VNone | Some lc \<Rightarrow> lc_last_decision lc);
          last_decision = (if lc_last = VNone \<and> chain \<noteq> [] then VStr (dr_decision_id (fst (last chain))) else lc_last)
      in bindE (crash (optional_str last_decision)) (\<lambda>did.
           Inr \<lparr>sr_rapp_state = (case vw_lifecycle vw of None \<Rightarrow> ''stopped'' | Some lc \<Rightarrow> rapp_state_value (lc_state lc)),
                sr_degraded_state = (case vw_lifecycle vw of None \<Rightarrow> ''normal'' | Some lc \<Rightarrow> state_value (dstate (lc_degradation lc))),
                sr_watchdog_last_tick = ap_tick app,
                sr_watchdog_interval = (case vw_lifecycle vw of None \<Rightarrow> 15 | Some lc \<Rightarrow> vw_interval vw),
                sr_a1_emitted = (case vw_lifecycle vw of None \<Rightarrow> 0 | Some lc \<Rightarrow> int (a1_emitted (lc_a1 lc))),
                sr_last_decision = did, sr_chain_head = head_hash chain,
                sr_rapp_id = (case vw_lifecycle vw of None \<Rightarrow> ''horizon-ric'' | Some lc \<Rightarrow> r1_rapp_id (vw_r1_config vw)),
                sr_rapp_version = (case vw_lifecycle vw of None \<Rightarrow> env_get environ ''HORIZON_VERSION'' ''0.2.0''
                                   | Some lc \<Rightarrow> r1_rapp_version (vw_r1_config vw)),
                sr_timestamp = now, sr_uptime = now - ap_boot app\<rparr>))"

text \<open>
  The breakers: those the application was given, or those of the lifecycle's adapters; the lifecycle
  has no \<open>o1\<close>. A breaker whose attributes raise is reported as unknown.
\<close>

definition circuit_breakers :: "'b pybreaker \<Rightarrow> ('b, 'w, 'v, 's) api_view \<Rightarrow> (string \<times> string \<times> int) list" where
  "circuit_breakers pb vw =
     (let found = (if vw_breakers vw \<noteq> [] then vw_breakers vw
                   else case vw_lifecycle vw of
                          None \<Rightarrow> []
                        | Some lc \<Rightarrow>
                            map (\<lambda>(name, b). (name, Inr (pb_state pb b, pb_fail_counter pb b)))
                              [(''horizon.r1'', r1_breaker (lc_r1 lc)), (''horizon.a1'', a1_breaker (lc_a1 lc))])
      in map (\<lambda>(name, r). (name, case r of Inl e \<Rightarrow> (''unknown'', 0) | Inr x \<Rightarrow> x)) found)"

section \<open>Serving\<close>

datatype api_request =
    AuthToken string string
  | GetState
  | GetPolicies int
  | GetPolicy string
  | AuditVerify
  | SlaTimeline "date option" "date option"
  | CircuitBreakers
  | ListConnectors

datatype 't api_response =
    TokenResponse 't int string
  | StateResponse state_response
  | PolicyListResponse "policy_summary list" nat
  | PolicyDetailResponse row
  | AuditVerifyResponse audit_answer
  | SlaTimelineResponse "sla_sample list" "string list" date date
  | CircuitBreakerListResponse "(string \<times> string \<times> int) list"
  | ConnectorListResponse "string list" "string list"

text \<open>What the handlers are built over: the hash and codec of the store, dates, pybreaker, the plug-ins.\<close>

record ('b, 'c, 'k, 'i) api_deps =
  ad_sha :: sha
  ad_codec :: codec
  ad_date_of :: "string \<Rightarrow> date"
  ad_breaker :: "'b pybreaker"
  ad_classes :: "('c, 'k, 'i) classes"
  ad_plugins :: "(string \<times> 'c loaded res) list res"

definition connectors_endpoint ::
  "('b, 'c, 'k, 'i) api_deps \<Rightarrow> 'c api_app \<Rightarrow> 'c api_app \<times> (api_exn + 't api_response)" where
  "connectors_endpoint deps app =
     (case list_connectors (ad_classes deps) (ad_plugins deps) (ap_registry app) of
        (rg, Inl e) \<Rightarrow> (app\<lparr>ap_registry := rg\<rparr>, Inl (Crash e))
      | (rg, Inr (srcs, snks)) \<Rightarrow> (app\<lparr>ap_registry := rg\<rparr>, Inr (ConnectorListResponse srcs snks)))"

text \<open>The handler of a request; the token comes first, then the parameters are validated.\<close>

fun handle ::
  "'t api_env \<Rightarrow> ('b, 'c, 'k, 'i) api_deps \<Rightarrow> real \<Rightarrow> date \<Rightarrow> ('b, 'w, 'v, 's) api_view \<Rightarrow> (string \<times> 't) option \<Rightarrow>
   api_request \<Rightarrow> 'c api_app \<Rightarrow> 'c api_app \<times> (api_exn + 't api_response)" where
  "handle env deps now utcnow vw creds (AuthToken u p) app =
     (app, bindE (auth_token env now u p) (\<lambda>(token, role). Inr (TokenResponse token DEFAULT_TOKEN_TTL_S role)))"
| "handle env deps now utcnow vw creds GetState app =
     (app, bindE (require_auth env now creds) (\<lambda>_.
             bindE (state_endpoint (ae_environ env) now app vw) (\<lambda>st. Inr (StateResponse st))))"
| "handle env deps now utcnow vw creds (GetPolicies limit) app =
     (app, bindE (require_auth env now creds) (\<lambda>_.
             bindE (policies limit (vw_items vw)) (\<lambda>(xs, n). Inr (PolicyListResponse xs n))))"
| "handle env deps now utcnow vw creds (GetPolicy did) app =
     (app, bindE (require_auth env now creds) (\<lambda>_.
             bindE (policy_detail did (vw_items vw)) (\<lambda>x. Inr (PolicyDetailResponse x))))"
| "handle env deps now utcnow vw creds AuditVerify app =
     (app, bindE (require_role_claim env PRIVILEGED_ROLES now creds) (\<lambda>_.
             bindE (audit_verify (ad_sha deps) (ad_codec deps) (vw_items vw)) (\<lambda>a. Inr (AuditVerifyResponse a))))"
| "handle env deps now utcnow vw creds (SlaTimeline f t) app =
     (app, bindE (require_auth env now creds) (\<lambda>_.
             bindE (sla_timeline (ad_date_of deps) utcnow f t (vw_items vw)) (\<lambda>(xs, lo, hi).
               Inr (SlaTimelineResponse xs [''30s'', ''60s'', ''300s''] lo hi))))"
| "handle env deps now utcnow vw creds CircuitBreakers app =
     (app, bindE (require_auth env now creds) (\<lambda>_. Inr (CircuitBreakerListResponse (circuit_breakers (ad_breaker deps) vw))))"
| "handle env deps now utcnow vw creds ListConnectors app =
     (case require_auth env now creds of
        Inl e \<Rightarrow> (app, Inl e)
      | Inr claims \<Rightarrow> connectors_endpoint deps app)"

text \<open>The middleware stamps every request before it is handled.\<close>

definition serve ::
  "'t api_env \<Rightarrow> ('b, 'c, 'k, 'i) api_deps \<Rightarrow> real \<Rightarrow> real \<Rightarrow> date \<Rightarrow> ('b, 'w, 'v, 's) api_view \<Rightarrow> (string \<times> 't) option \<Rightarrow>
   api_request \<Rightarrow> 'c api_app \<Rightarrow> 'c api_app \<times> (api_exn + 't api_response)" where
  "serve env deps t0 now utcnow vw creds req app =
     handle env deps now utcnow vw creds req (app\<lparr>ap_tick := t0\<rparr>)"

end
