(* ===== verification/DashboardProps.thy ===== *)
theory DashboardProps
  imports Dashboard
begin

text \<open>
  What the operator API guarantees: who gets a token and what it opens, that an entry made by
  \<open>hash_password\<close> logs its user in, that the answers about the evidence are those of the store, and
  where the code falls short of its documentation.
\<close>

section \<open>Splitting and hex\<close>

lemma py_split_nonempty [simp]: "py_split sep s \<noteq> []"
  by (induction sep s rule: py_split.induct) (auto split: list.splits)

lemma py_split_at: "py_split sep (a @ sep # b) = py_split sep a @ py_split sep b"
proof (induction a)
  case (Cons c cs)
  obtain p ps where "py_split sep cs = p # ps" using py_split_nonempty [of sep cs] by (cases "py_split sep cs") auto
  with Cons show ?case by simp
qed simp

lemma py_split_none: "sep \<notin> set s \<Longrightarrow> py_split sep s = [s]"
  by (induction s) auto

lemma py_split_four:
  assumes "py_split sep s = [a, b, c, d]"
  shows "s = a @ sep # b @ sep # c @ sep # d"
proof -
  have join: "s = hd (py_split sep s) @ concat (map (\<lambda>p. sep # p) (tl (py_split sep s)))" for s
  proof (induction s)
    case (Cons x xs)
    obtain p ps where "py_split sep xs = p # ps" using py_split_nonempty [of sep xs] by (cases "py_split sep xs") auto
    with Cons show ?case by simp
  qed simp
  from join [of s] assms show ?thesis by simp
qed

text \<open>The characters \<open>hash_password\<close> writes: digits and lower-case letters between the separators.\<close>

definition plain_char :: "char \<Rightarrow> bool" where
  "plain_char ch \<longleftrightarrow> ch \<notin> {CHR ''$'', CHR '':'', CHR '',''} \<and> \<not> ascii_space ch"

lemma lower_hex_plain: "lower_hex ch \<Longrightarrow> plain_char ch"
  by (auto simp: lower_hex_def plain_char_def ascii_space_def Let_def)

lemma digit_plain_char: "digit_char ch \<Longrightarrow> plain_char ch"
  by (rule lower_hex_plain) (auto simp: lower_hex_def digit_char_def Let_def)

lemma int_str_plain: "0 \<le> n \<Longrightarrow> list_all plain_char (int_str n)"
  using nat_str_digits [of "nat n"] by (auto simp: int_str_def list_all_iff intro: digit_plain_char)

lemma hex_halves: "b < 256 \<Longrightarrow> b div 16 < 16 \<and> b mod 16 < (16::nat)"
  using less_mult_imp_div_less [of b 16 16] by simp

lemma to_hex_plain: "octets bs \<Longrightarrow> list_all plain_char (to_hex bs)"
proof (induction bs)
  case (Cons b bs)
  then have "b div 16 < 16" "b mod 16 < 16" using hex_halves [of b] by (simp_all add: octets_def)
  with Cons show ?case by (simp add: to_hex_Cons octets_def lower_hex_plain hex_char_lower)
qed (simp add: to_hex_def)

section \<open>Logging in\<close>

text \<open>
  The two ways a stored secret opens: a well-formed PBKDF2 entry whose digest the password derives, or,
  outside production mode only, the password itself.
\<close>

definition hash_opens :: "'t api_env \<Rightarrow> string \<Rightarrow> string \<Rightarrow> bool" where
  "hash_opens env stored password \<longleftrightarrow>
     (\<exists>iter_s salt_hex hash_hex n salt.
        stored = PBKDF2_SCHEME @ ''$'' @ iter_s @ ''$'' @ salt_hex @ ''$'' @ hash_hex \<and>
        str_int (ae_platform env) iter_s = Some n \<and> bytes_fromhex salt_hex = Inr salt \<and>
        bytes_fromhex hash_hex = Inr (ae_kdf env (utf8 password) salt n))"

lemma verify_hashed_opens:
  assumes "verify_hashed env stored password = Inr True"
  shows "hash_opens env stored password"
proof -
  obtain scheme iter_s salt_hex hash_hex where sp: "py_split (CHR ''$'') stored = [scheme, iter_s, salt_hex, hash_hex]"
    using assms by (auto simp: verify_hashed_def split: list.splits)
  have "scheme = PBKDF2_SCHEME" using assms by (auto simp: verify_hashed_def sp split: if_splits)
  moreover obtain n salt where "str_int (ae_platform env) iter_s = Some n" "bytes_fromhex salt_hex = Inr salt"
    "bytes_fromhex hash_hex = Inr (ae_kdf env (utf8 password) salt n)"
    using assms by (auto simp: verify_hashed_def sp pbkdf2_hmac_def bindE_eq_Inr bindE_eq_Inl split: if_splits sum.splits option.splits)
  ultimately show ?thesis using py_split_four [OF sp] unfolding hash_opens_def by auto blast
qed

lemma verify_secret_opens:
  "verify_secret env stored password = Inr True \<Longrightarrow>
   hash_opens env stored password \<or> \<not> production_flag (ae_environ env) \<and> stored = password"
  by (auto simp: verify_secret_def utf8_inj dest: verify_hashed_opens split: if_splits)

lemma crash_eq [simp]: "crash r = Inr x \<longleftrightarrow> r = Inr x" "crash r = Inl e \<longleftrightarrow> (\<exists>x. r = Inl x \<and> e = Crash x)"
  by (auto simp: crash_def split: sum.splits)

lemma crash_simps [simp]: "crash (Inr x) = Inr x" "crash (Inl e) = Inl (Crash e)"
  by (simp_all add: crash_def)

lemma auth_token_sound:
  assumes "auth_token env now u p = Inr (tok, role)"
  obtains stored key where "users_from_env (ae_environ env) u = Some (stored, role)"
    "verify_secret env stored p = Inr True" "jwt_secret (ae_environ env) = Inr key"
    "tok = ae_encode env (token_claims now u role DEFAULT_TOKEN_TTL_S) key"
  using assms
  by (auto simp: auth_token_def issue_token_def bindE_eq_Inr split: if_splits option.splits prod.splits)

text \<open>
  What python-jose promises of HS256: a token decodes under the key that signed it, to the claims that
  were encoded, while it has not expired and names the expected audience and issuer.
\<close>

definition hs256_ok :: "'t api_env \<Rightarrow> bool" where
  "hs256_ok env \<longleftrightarrow>
     (\<forall>cs key aud iss now e.
        map_of cs ''aud'' = Some (VStr aud) \<longrightarrow> map_of cs ''iss'' = Some (VStr iss) \<longrightarrow>
        map_of cs ''exp'' = Some (VInt e) \<longrightarrow> now < of_int e \<longrightarrow> ae_decode env (ae_encode env cs key) key aud iss now = Inr cs)"

lemma claims_sel [simp]:
  "map_of (token_claims now u role ttl) ''aud'' = Some (VStr DEFAULT_JWT_AUDIENCE)"
  "map_of (token_claims now u role ttl) ''iss'' = Some (VStr DEFAULT_JWT_ISSUER)"
  "map_of (token_claims now u role ttl) ''sub'' = Some (VStr u)"
  "map_of (token_claims now u role ttl) ''role'' = Some (VStr role)"
  "map_of (token_claims now u role ttl) ''exp'' = Some (VInt (trunc now + ttl))"
  by (simp_all add: token_claims_def)

lemma token_accepted:
  assumes "hs256_ok env" "jwt_secret (ae_environ env) = Inr key" "t < of_int (trunc now + ttl)" "py_lower scheme = ''bearer''"
  shows "require_auth env t (Some (scheme, ae_encode env (token_claims now u role ttl) key)) = Inr (token_claims now u role ttl)"
  using assms by (simp add: require_auth_def decode_token_def hs256_ok_def)

lemma role_of_token [simp]: "role_claim pl (token_claims now u role ttl) = role"
  by (simp add: role_claim_def)


text \<open>The requests that need no token.\<close>

fun is_login :: "api_request \<Rightarrow> bool" where
  "is_login (AuthToken u p) = True"
| "is_login _ = False"

text \<open>
  Every other endpoint answers only a bearer token that decodes under the configured secret for this
  audience and issuer, and the chain is verified only for a privileged role; a request without a token
  is refused and leaves nothing behind but the time of the last request.
\<close>

lemma require_auth_sound:
  "require_auth env now creds = Inr claims \<Longrightarrow>
   \<exists>scheme tok key. creds = Some (scheme, tok) \<and> py_lower scheme = ''bearer'' \<and> jwt_secret (ae_environ env) = Inr key \<and>
     ae_decode env tok key DEFAULT_JWT_AUDIENCE DEFAULT_JWT_ISSUER now = Inr claims"
  by (auto simp: require_auth_def decode_token_def split: option.splits prod.splits if_splits sum.splits)

lemma served_claims:
  assumes "\<not> is_login req" "snd (serve env deps t0 now utcnow vw creds req app) = Inr resp"
  shows "\<exists>claims. require_auth env now creds = Inr claims \<and>
    (req = AuditVerify \<longrightarrow> role_claim (ae_platform env) claims \<in> set PRIVILEGED_ROLES)"
  using assms
  by (cases req) (auto simp: serve_def require_role_claim_def bindE_eq_Inr split: sum.splits if_splits)

theorem served_only_with_token:
  assumes "\<not> is_login req" "snd (serve env deps t0 now utcnow vw creds req app) = Inr resp"
  shows "\<exists>scheme tok key claims. creds = Some (scheme, tok) \<and> py_lower scheme = ''bearer'' \<and>
    jwt_secret (ae_environ env) = Inr key \<and>
    ae_decode env tok key DEFAULT_JWT_AUDIENCE DEFAULT_JWT_ISSUER now = Inr claims \<and>
    (req = AuditVerify \<longrightarrow> role_claim (ae_platform env) claims \<in> {''admin'', ''operator''})"
  using served_claims [OF assms] require_auth_sound [of env now creds] by (fastforce simp: PRIVILEGED_ROLES_def)

section \<open>An entry made by \<open>hash_password\<close>\<close>

definition name_ok :: "string \<Rightarrow> bool" where
  "name_ok s \<longleftrightarrow> s \<noteq> [] \<and> list_all plain_char s"

lemma plain_no_sep: "list_all plain_char s \<Longrightarrow> CHR ''$'' \<notin> set s \<and> CHR '':'' \<notin> set s \<and> CHR '','' \<notin> set s"
  by (auto simp: list_all_iff plain_char_def)

lemma py_strip_id: "name_ok a \<Longrightarrow> name_ok b \<Longrightarrow> py_strip (a @ m @ b) = a @ m @ b"
proof -
  assume ok: "name_ok a" "name_ok b"
  have lead: "name_ok s \<Longrightarrow> dropWhile ascii_space (s @ t) = s @ t" for s t
    by (cases s) (auto simp: name_ok_def plain_char_def)
  have "name_ok (rev b)" using ok(2) by (simp add: name_ok_def)
  from lead [OF this] lead [OF ok(1)] show ?thesis by (simp add: py_strip_def)
qed

lemma scheme_plain: "list_all plain_char PBKDF2_SCHEME"
  by (simp add: PBKDF2_SCHEME_def plain_char_def ascii_space_def)

lemma hashed_split:
  assumes "hash_password kdf password n salt = Inr entry" "octets salt" "octets (kdf (utf8 password) salt n)"
  shows "py_split (CHR ''$'') entry = [PBKDF2_SCHEME, int_str n, to_hex salt, to_hex (kdf (utf8 password) salt n)]"
    and "CHR '':'' \<notin> set entry \<and> CHR '','' \<notin> set entry"
    and "starts_with (PBKDF2_SCHEME @ ''$'') entry" and "1 \<le> n \<and> n < 2 ^ 31"
proof -
  let ?d = "to_hex (kdf (utf8 password) salt n)"
  have entry: "entry = PBKDF2_SCHEME @ CHR ''$'' # int_str n @ CHR ''$'' # to_hex salt @ CHR ''$'' # ?d"
    and n: "1 \<le> n" "n < 2 ^ 31" using assms(1)
    by (auto simp: hash_password_def pbkdf2_hmac_def split: if_splits)
  have p: "list_all plain_char (int_str n)" "list_all plain_char (to_hex salt)" "list_all plain_char ?d"
    using int_str_plain [of n] to_hex_plain assms(2,3) n by auto
  note seps = plain_no_sep [OF scheme_plain] plain_no_sep [OF p(1)] plain_no_sep [OF p(2)] plain_no_sep [OF p(3)]
  show "py_split (CHR ''$'') entry = [PBKDF2_SCHEME, int_str n, to_hex salt, ?d]"
    by (simp add: entry py_split_at py_split_none seps)
  show "CHR '':'' \<notin> set entry \<and> CHR '','' \<notin> set entry" using seps by (simp add: entry)
  show "starts_with (PBKDF2_SCHEME @ ''$'') entry" by (simp add: entry starts_with_iff)
  show "1 \<le> n \<and> n < 2 ^ 31" using n by simp
qed

lemma hashed_entry_parsed:
  assumes "name_ok user" "name_ok role" "CHR '':'' \<notin> set entry" "entry \<noteq> []"
  shows "user_entry (user @ CHR '':'' # entry @ CHR '':'' # role) = Some (user, entry, role)"
proof -
  have "py_strip (user @ CHR '':'' # entry @ CHR '':'' # role) = user @ CHR '':'' # entry @ CHR '':'' # role"
    using py_strip_id [OF assms(1,2), of "CHR '':'' # entry @ [CHR '':'']"] by simp
  moreover have "py_split (CHR '':'') (user @ CHR '':'' # entry @ CHR '':'' # role) = [user, entry, role]"
    using assms plain_no_sep [of user] plain_no_sep [of role] by (simp add: py_split_at py_split_none name_ok_def)
  ultimately show ?thesis using assms by (simp add: user_entry_def name_ok_def Let_def)
qed

lemma verify_own_hash:
  assumes "hash_password (ae_kdf env) password n salt = Inr entry" "octets salt" "octets (ae_kdf env (utf8 password) salt n)"
    and "str_int (ae_platform env) (int_str n) = Some n"
  shows "verify_secret env entry candidate = Inr (ae_kdf env (utf8 candidate) salt n = ae_kdf env (utf8 password) salt n)"
  using hashed_split [OF assms(1-3)] assms(2-4)
  by (simp add: verify_secret_def verify_hashed_def fromhex_to_hex pbkdf2_hmac_def)

lemma own_hash_login:
  assumes "hash_password (ae_kdf env) password n salt = Inr entry"
    and "octets salt" "octets (ae_kdf env (utf8 password) salt n)" "str_int (ae_platform env) (int_str n) = Some n"
    and "name_ok user" "name_ok role" "length user \<le> 64"
    and "ae_environ env ''HORIZON_API_USERS'' = Some (before @ '','' @ user @ '':'' @ entry @ '':'' @ role)"
    and "jwt_secret (ae_environ env) = Inr key" "1 \<le> length candidate" "length candidate \<le> 256"
  shows "auth_token env now user candidate =
    (if ae_kdf env (utf8 candidate) salt n = ae_kdf env (utf8 password) salt n
     then Inr (ae_encode env (token_claims now user role DEFAULT_TOKEN_TTL_S) key, role)
     else Inl (HttpExn 401 ''bad credentials''))"
proof -
  note h = hashed_split [OF assms(1-3)]
  let ?line = "user @ CHR '':'' # entry @ CHR '':'' # role"
  have ne: "entry \<noteq> []" using h(3) by (auto simp: starts_with_iff)
  have "CHR '','' \<notin> set ?line"
    using h(2) plain_no_sep [of user] plain_no_sep [of role] assms(5,6) by (simp add: name_ok_def)
  then have "py_split (CHR '','') (before @ CHR '','' # ?line) = py_split (CHR '','') before @ [?line]"
    by (simp add: py_split_at py_split_none)
  then have "users_from_env (ae_environ env) user = Some (entry, role)"
    using hashed_entry_parsed [OF assms(5,6) _ ne] h(2) assms(8) by (simp add: users_from_env_def env_get_def)
  then show ?thesis
    using verify_own_hash [OF assms(1-4), of candidate] assms(5,7,9-11)
    by (cases user) (simp_all add: auth_token_def issue_token_def name_ok_def)
qed

text \<open>
  C30. The entry that \<open>hash_password\<close> prints, appended to the configured users, logs its user in: with the
  password it was made from in every mode, with the role it names, and with another password only if
  that derives the same digest.
\<close>

theorem hashed_login:
  assumes "hash_password (ae_kdf env) password n salt = Inr entry"
    and "octets salt" "octets (ae_kdf env (utf8 password) salt n)" "str_int (ae_platform env) (int_str n) = Some n"
    and "name_ok user" "name_ok role" "length user \<le> 64"
    and "ae_environ env ''HORIZON_API_USERS'' = Some (before @ '','' @ user @ '':'' @ entry @ '':'' @ role)"
    and "jwt_secret (ae_environ env) = Inr key" "1 \<le> length candidate" "length candidate \<le> 256"
  shows "auth_token env now user candidate =
    (if ae_kdf env (utf8 candidate) salt n = ae_kdf env (utf8 password) salt n
     then Inr (ae_encode env (token_claims now user role DEFAULT_TOKEN_TTL_S) key, role)
     else Inl (HttpExn 401 ''bad credentials''))"
  using assms by (rule own_hash_login)

section \<open>The evidence\<close>

lemma read_chain_rows [simp]: "read_chain (map Inr rows) = Inr rows"
  by (induction rows) (simp_all add: read_chain_def)

text \<open>The answer of \<open>/audit/verify\<close> on a store that reads: the first broken row, the length and the head.\<close>

lemma audit_verify_rows:
  "sha_ok sha \<Longrightarrow> audit_verify sha c (map Inr rows) =
     Inr \<lparr>aa_intact = intact sha c rows, aa_broken_at = first_broken sha c rows, aa_length = length rows, aa_head = head_hash rows\<rparr>"
  by (simp add: audit_verify_def store_verify_map verify_spec first_broken_intact)

lemma policies_rows:
  "1 \<le> limit \<Longrightarrow> limit \<le> 500 \<Longrightarrow> policies limit (map Inr rows) =
     Inr (map summarise (take (nat limit) (rev rows)), length rows)"
  by (simp add: policies_def take_rev)

text \<open>
  What the pipeline appends the operator sees: after an append to an intact JSONL store the newest
  policy listed is the appended record with its hash, and the verification reports an intact chain whose
  head is that hash and whose length is the total of the list.
\<close>

theorem appended_is_shown:
  assumes "sha_ok sha" "jsonl.good sha c f" "storable id c (stamp ctx r)" "jsonl_append sha c ctx r f = Inr (f', h)"
    and "1 \<le> limit" "limit \<le> 500"
  shows "\<exists>r' older n. canonical_json c r' = canonical_json c (stamp ctx r) \<and>
    policies limit (jsonl_iter c None f') = Inr (summarise (r', h) # older, n) \<and>
    audit_verify sha c (jsonl_iter c None f') =
      Inr \<lparr>aa_intact = True, aa_broken_at = - 1, aa_length = n, aa_head = Some h\<rparr>"
proof -
  obtain rows where rows: "jfile_ok c f" "jsonl_iter c None f = map Inr rows"
    using assms(2) by (auto simp: jsonl.good_def)
  from jsonl.append_ok [OF rows(1) assms(3) rows(2) assms(1,4)] obtain r' where
    r': "jsonl_iter c None f' = map Inr (rows @ [(r', h)])" "canonical_json c r' = canonical_json c (stamp ctx r)" by blast
  obtain rows' where "jsonl_iter c None f' = map Inr rows'" "intact sha c rows'"
    using jsonl.good_append [OF assms(1-4)] by (auto simp: jsonl.good_def)
  moreover from this r'(1) have "rows' = rows @ [(r', h)]" by (simp only: map_Inr_eq)
  ultimately have int: "intact sha c (rows @ [(r', h)])" by simp
  obtain m where "nat limit = Suc m" using assms(5) by (cases "nat limit") auto
  then have pol: "policies limit (jsonl_iter c None f') =
      Inr (summarise (r', h) # map summarise (take m (rev rows)), Suc (length rows))"
    using policies_rows [OF assms(5,6), of "rows @ [(r', h)]"] by (simp add: r'(1))
  have "first_broken sha c (rows @ [(r', h)]) = - 1" using int by (simp add: first_broken_intact)
  then have aud: "audit_verify sha c (jsonl_iter c None f') =
      Inr \<lparr>aa_intact = True, aa_broken_at = - 1, aa_length = Suc (length rows), aa_head = Some h\<rparr>"
    using audit_verify_rows [OF assms(1), of c "rows @ [(r', h)]"] int by (simp add: r'(1) head_hash_def)
  show ?thesis using r'(2) pol aud by blast
qed

text \<open>
  The timeline: three samples, in order, for each record whose time lies in the window, bounds included.
\<close>

definition in_window :: "(string \<Rightarrow> date) \<Rightarrow> date \<Rightarrow> date \<Rightarrow> row \<Rightarrow> bool" where
  "in_window date_of lo hi x \<longleftrightarrow>
     (let t = instant (as_utc (date_of (dr_timestamp (fst x)))) in instant lo \<le> t \<and> t \<le> instant hi)"

definition three_samples :: "(string \<Rightarrow> date) \<Rightarrow> row \<Rightarrow> sla_sample list" where
  "three_samples date_of x =
     (let r = fst x; ts = as_utc (date_of (dr_timestamp r)); po = dr_predicted r
      in map (\<lambda>(hz, v). \<lparr>sa_timestamp = ts, sa_horizon = hz, sa_risk = v, sa_decision_id = dr_decision_id r\<rparr>)
           [(''30s'', sla_risk_30s po), (''60s'', sla_risk_1min po), (''300s'', sla_risk_5min po)])"

lemma samples_of_valid:
  "valid_outcome (dr_predicted (fst x)) \<Longrightarrow>
   samples_of date_of lo hi x = Inr (if in_window date_of lo hi x then three_samples date_of x else [])"
  by (auto simp: samples_of_def in_window_def three_samples_def sla_sample_new_def valid_outcome_def Let_def not_less)

lemma mapE_samples:
  "\<forall>x \<in> set rows. valid_outcome (dr_predicted (fst x)) \<Longrightarrow>
   mapE (samples_of date_of lo hi) rows = Inr (map (\<lambda>x. if in_window date_of lo hi x then three_samples date_of x else []) rows)"
  by (rule mapE_pure) (simp add: samples_of_valid)

theorem timeline_is_window:
  assumes "\<forall>x \<in> set rows. valid_outcome (dr_predicted (fst x))"
  shows "sla_timeline date_of utcnow (Some lo) (Some hi) (map Inr rows) =
    Inr (concat (map (three_samples date_of) (filter (in_window date_of (as_utc lo) (as_utc hi)) rows)), as_utc lo, as_utc hi)"
proof -
  have "concat (map (\<lambda>x. if P x then f x else []) xs) = concat (map f (filter P xs))" for P and f :: "row \<Rightarrow> sla_sample list" and xs
    by (induction xs) auto
  with mapE_samples [OF assms] show ?thesis by (simp add: sla_timeline_def Let_def)
qed

section \<open>Where the code falls short of its documentation\<close>

text \<open>The flag reads as the lifecycle's does.\<close>

theorem production_flag_agrees: "production_flag environ = env_flag environ ''HORIZON_PRODUCTION_MODE'' True"
proof -
  have nil: "py_strip [] = []" "py_lower [] = []" by (simp_all add: py_strip_def py_lower_def)
  show ?thesis
  proof (cases "environ ''HORIZON_PRODUCTION_MODE''")
    case (Some raw)
    then show ?thesis
      by (cases "py_strip raw = []") (auto simp: production_flag_def env_flag_def env_set_def nil)
  qed (simp add: production_flag_def env_flag_def env_set_def)
qed

text \<open>The answers tell a name that is configured from one that is not.\<close>

theorem unknown_user_told:
  "auth_token env now u p = Inl (HttpExn 401 ''unknown user'') \<longleftrightarrow>
     1 \<le> length u \<and> length u \<le> 64 \<and> 1 \<le> length p \<and> length p \<le> 256 \<and> users_from_env (ae_environ env) u = None"
  by (auto simp: auth_token_def bindE_eq_Inl split: option.splits prod.splits if_splits)

text \<open>An entry whose password has a colon is dropped: the user is not configured.\<close>

theorem colon_password_dropped:
  assumes "name_ok user" "name_ok role"
  shows "user_entry (user @ CHR '':'' # a @ CHR '':'' # b @ CHR '':'' # role) = None"
proof -
  have strip: "py_strip (user @ CHR '':'' # a @ CHR '':'' # b @ CHR '':'' # role) = user @ CHR '':'' # a @ CHR '':'' # b @ CHR '':'' # role"
    using py_strip_id [OF assms, of "CHR '':'' # a @ CHR '':'' # b @ [CHR '':'']"] by simp
  obtain x xs y ys where parts: "py_split (CHR '':'') a = x # xs" "py_split (CHR '':'') b = y # ys"
    by (cases "py_split (CHR '':'') a"; cases "py_split (CHR '':'') b") auto
  have "py_split (CHR '':'') (user @ CHR '':'' # a @ CHR '':'' # b @ CHR '':'' # role) = [user] @ (x # xs) @ (y # ys) @ [role]"
    using assms plain_no_sep [of user] plain_no_sep [of role] by (simp add: py_split_at py_split_none parts name_ok_def)
  then show ?thesis by (cases xs; cases ys) (auto simp: user_entry_def strip Let_def split: list.splits)
qed

text \<open>An entry with no iterations does not refuse the login: the derivation raises and the request fails.\<close>

theorem zero_iterations_crash:
  assumes "users_from_env (ae_environ env) u = Some (PBKDF2_SCHEME @ ''$'' @ iter_s @ ''$'' @ to_hex salt @ ''$'' @ to_hex digest, role)"
    and "list_all plain_char iter_s" "str_int (ae_platform env) iter_s = Some 0" "octets salt" "octets digest"
    and "1 \<le> length u" "length u \<le> 64" "1 \<le> length p" "length p \<le> 256"
  shows "auth_token env now u p = Inl (Crash ValueError)"
proof -
  note seps = plain_no_sep [OF scheme_plain] plain_no_sep [OF assms(2)] plain_no_sep [OF to_hex_plain [OF assms(4)]]
    plain_no_sep [OF to_hex_plain [OF assms(5)]]
  have "py_split (CHR ''$'') (PBKDF2_SCHEME @ ''$'' @ iter_s @ ''$'' @ to_hex salt @ ''$'' @ to_hex digest) =
      [PBKDF2_SCHEME, iter_s, to_hex salt, to_hex digest]"
    by (simp add: py_split_at py_split_none seps)
  then have "verify_secret env (PBKDF2_SCHEME @ ''$'' @ iter_s @ ''$'' @ to_hex salt @ ''$'' @ to_hex digest) p = Inl ValueError"
    using assms(3-5) by (simp add: verify_secret_def verify_hashed_def starts_with_iff fromhex_to_hex pbkdf2_hmac_def)
  with assms(1,6-9) show ?thesis by (simp add: auth_token_def)
qed

text \<open>
  Every authenticated role reads every tenant's records: a record in the store is served to any valid
  token, whatever its claims.
\<close>

lemma policy_detail_found:
  "(r, h) \<in> set rows \<Longrightarrow> \<exists>x. policy_detail (dr_decision_id r) (map Inr rows) = Inr x \<and> dr_decision_id (fst x) = dr_decision_id r"
  by (induction rows) auto

theorem any_role_reads_all:
  assumes "require_auth env now creds = Inr claims" "vw_items vw = jsonl_iter c None f" "jfile_ok c f" "(r, h) \<in> set (jrows c f)"
  shows "\<exists>x. snd (serve env deps t0 now utcnow vw creds (GetPolicy (dr_decision_id r)) app) = Inr (PolicyDetailResponse x) \<and>
    dr_decision_id (fst x) = dr_decision_id r"
  using policy_detail_found [OF assms(4)] assms(1-3) jsonl_iter_rows [OF assms(3)] by (auto simp: serve_def)

text \<open>The watchdog time of \<open>/state\<close> is the time of the very request that asks for it.\<close>

theorem state_tick_is_request:
  "snd (serve env deps t0 now utcnow vw creds GetState app) = Inr (StateResponse st) \<Longrightarrow> sr_watchdog_last_tick st = t0"
  by (auto simp: serve_def bindE_eq_Inr state_endpoint_def Let_def)

text \<open>Without a secret the application still starts; it is the requests that fail.\<close>

theorem missing_secret_crashes:
  "jwt_secret (ae_environ env) = Inl e \<Longrightarrow> py_lower scheme = ''bearer'' \<Longrightarrow> \<not> is_login req \<Longrightarrow>
   snd (serve env deps t0 now utcnow vw (Some (scheme, tok)) req app) = Inl (Crash e)"
  by (cases req) (simp_all add: serve_def require_auth_def decode_token_def require_role_claim_def)

section \<open>Instances\<close>

definition demo_kdf :: "nat list \<Rightarrow> nat list \<Rightarrow> int \<Rightarrow> nat list" where
  "demo_kdf password salt n = password"

definition demo_entry :: string where
  "demo_entry = ''pbkdf2_sha256$1$00$7077''"

definition demo_api :: "(claims \<times> string) api_env" where
  "demo_api =
     \<lparr>ae_environ = [''HORIZON_API_USERS'' \<mapsto> '',alice:'' @ demo_entry @ '':admin'', ''HORIZON_API_JWT_SECRET'' \<mapsto> ''k''],
      ae_platform = exact_platform\<lparr>str_int := (\<lambda>s. Some (int (nat_of_str s 0)))\<rparr>, ae_encode = Pair,
      ae_decode = (\<lambda>t key aud iss now.
        if key = snd t \<and> map_of (fst t) ''aud'' = Some (VStr aud) \<and> map_of (fst t) ''iss'' = Some (VStr iss) \<and>
           (\<exists>e. map_of (fst t) ''exp'' = Some (VInt e) \<and> now < of_int e)
        then Inr (fst t) else Inl JWTError),
      ae_kdf = demo_kdf\<rparr>"

lemma demo_hash: "hash_password demo_kdf ''pw'' 1 [0] = Inr demo_entry"
  by (simp add: hash_password_def pbkdf2_hmac_def demo_kdf_def demo_entry_def PBKDF2_SCHEME_def int_str_def nat_str.simps
      to_hex_def hex_char_def utf8_def char_of_def bit_Suc_0_iff)

lemma demo_api_ok: "hs256_ok demo_api"
  by (auto simp: hs256_ok_def demo_api_def)

lemma demo_login_facts:
  "hash_password (ae_kdf demo_api) ''pw'' 1 [0] = Inr demo_entry" "octets [0]"
  "octets (ae_kdf demo_api (utf8 ''pw'') [0] 1)" "str_int (ae_platform demo_api) (int_str 1) = Some 1"
  "name_ok ''alice''" "name_ok ''admin''"
  using demo_hash
  by (simp_all add: demo_api_def demo_kdf_def octets_def utf8_def int_str_def nat_str.simps name_ok_def plain_char_def
      ascii_space_def char_of_def bit_Suc_0_iff)

lemma demo_environ:
  "ae_environ demo_api ''HORIZON_API_USERS'' = Some ([] @ '','' @ ''alice'' @ '':'' @ demo_entry @ '':'' @ ''admin'')"
  "jwt_secret (ae_environ demo_api) = Inr ''k''"
  by (simp_all add: demo_api_def jwt_secret_def)

theorem hashed_login_witness:
  "auth_token demo_api 5 ''alice'' ''pw'' = Inr ((token_claims 5 ''alice'' ''admin'' 3600, ''k''), ''admin'') \<and>
   auth_token demo_api 5 ''alice'' ''pq'' = Inl (HttpExn 401 ''bad credentials'')"
proof -
  note login = hashed_login [OF demo_login_facts _ demo_environ, where now = 5]
  have "auth_token demo_api 5 ''alice'' ''pw'' = Inr ((token_claims 5 ''alice'' ''admin'' 3600, ''k''), ''admin'')"
    using login [of "''pw''"] by (simp add: demo_api_def DEFAULT_TOKEN_TTL_S_def)
  moreover have "auth_token demo_api 5 ''alice'' ''pq'' = Inl (HttpExn 401 ''bad credentials'')"
    using login [of "''pq''"] by (simp add: demo_api_def demo_kdf_def utf8_def)
  ultimately show ?thesis ..
qed

lemma demo_token: "auth_token demo_api 5 ''alice'' ''pw'' = Inr ((token_claims 5 ''alice'' ''admin'' 3600, ''k''), ''admin'')"
  using own_hash_login [OF demo_login_facts _ demo_environ, where now = 5 and candidate = "''pw''"]
  by (simp add: demo_api_def DEFAULT_TOKEN_TTL_S_def)

definition demo_deps :: "(unit, nat, unit, unit) api_deps" where
  "demo_deps = \<lparr>ad_sha = EvidenceProps.demo_sha, ad_codec = demo_codec, ad_date_of = (\<lambda>s. \<lparr>wall = 5000, offset = None\<rparr>),
     ad_breaker = \<lparr>pb_state = (\<lambda>b. ''closed''), pb_opened_at = (\<lambda>b. None), pb_fail_counter = (\<lambda>b. 0), pb_half_open = (\<lambda>b. (b, [])),
       pb_handle_error = (\<lambda>now b. (b, [])), pb_handle_success = (\<lambda>b. (b, [])), pb_close = (\<lambda>b. (b, []))\<rparr>,
     ad_classes = demo_classes, ad_plugins = Inr []\<rparr>"

definition demo_view :: "(unit, unit, unit, unit) api_view" where
  "demo_view = \<lparr>vw_lifecycle = None, vw_r1_config = r1_config_default, vw_interval = 15, vw_items = [], vw_breakers = []\<rparr>"

definition demo_app :: "nat api_app" where
  "demo_app = \<lparr>ap_boot = 0, ap_tick = 0, ap_registry = registry_new\<rparr>"


end
