(* ===== verification/Dp.thy ===== *)
theory Dp
  imports Robust
begin

text \<open>
  Differential privacy for the federation (\<open>federated/dp.py\<close>): clipping, the Renyi accountant, the noise
  multiplier found by bisection, and the noisy releases. Arithmetic is exact; the Gaussian draws are a
  parameter that gets the standard deviation and the dimension. An infinite epsilon is \<open>None\<close>.
\<close>

section \<open>Clipping\<close>

definition DEFAULT_ORDERS :: "real list" where
  "DEFAULT_ORDERS = [5 / 4, 3 / 2, 7 / 4, 2, 5 / 2, 3, 4, 5, 6, 8, 16, 32, 64, 128, 256]"

definition l2_clip :: "real list \<Rightarrow> real \<Rightarrow> real list res" where
  "l2_clip update clip_norm =
     (if clip_norm \<le> 0 then Inl ValueError
      else let n = norm2 update
           in if n \<le> clip_norm \<or> n = 0 then Inr update else Inr (map (\<lambda>x. x * (clip_norm / n)) update))"

section \<open>The accountant\<close>

definition gaussian_rdp :: "real list \<Rightarrow> real \<Rightarrow> (real \<times> real) list res" where
  "gaussian_rdp orders noise_multiplier =
     (if noise_multiplier \<le> 0 then Inl ValueError
      else let z2 = noise_multiplier * noise_multiplier
           in Inr (foldl (\<lambda>d a. dict_set a (a / (2 * z2)) d) [] orders))"

fun best_epsilon :: "real \<Rightarrow> (real \<times> real) list \<Rightarrow> (real \<times> real) option \<Rightarrow> (real \<times> real) option" where
  "best_epsilon delta [] best = best"
| "best_epsilon delta ((a, r) # items) best =
     (if a \<le> 1 then best_epsilon delta items best
      else let eps = r + ln (1 / delta) / (a - 1)
           in best_epsilon delta items
                (case best of None \<Rightarrow> Some (eps, a) | Some (e, b) \<Rightarrow> if eps < e then Some (eps, a) else Some (e, b)))"

definition rdp_to_dp_epsilon :: "(real \<times> real) list \<Rightarrow> real \<Rightarrow> (real \<times> real) option res" where
  "rdp_to_dp_epsilon rdp delta =
     (if \<not> (0 < delta \<and> delta < 1) then Inl ValueError else Inr (best_epsilon delta rdp None))"

record accountant =
  ac_orders :: "real list"
  ac_rdp :: "(real \<times> real) list"
  ac_steps :: int

definition accountant_new :: "real list \<Rightarrow> accountant" where
  "accountant_new orders =
     \<lparr>ac_orders = orders, ac_rdp = foldl (\<lambda>d a. dict_set a 0 d) [] orders, ac_steps = 0\<rparr>"

fun charge :: "(real \<times> real) list \<Rightarrow> int \<Rightarrow> real list \<Rightarrow> (real \<times> real) list \<Rightarrow> (real \<times> real) list res" where
  "charge per cnt [] rdp = Inr rdp"
| "charge per cnt (a # orders) rdp =
     (case (map_of rdp a, map_of per a) of
        (Some r, Some p) \<Rightarrow> charge per cnt orders (dict_set a (r + of_int cnt * p) rdp)
      | _ \<Rightarrow> Inl KeyError)"

definition accountant_step :: "real \<Rightarrow> int \<Rightarrow> accountant \<Rightarrow> accountant res" where
  "accountant_step noise_multiplier cnt ac =
     bindE (gaussian_rdp (ac_orders ac) noise_multiplier) (\<lambda>per.
     bindE (charge per cnt (ac_orders ac) (ac_rdp ac)) (\<lambda>rdp.
       Inr (ac\<lparr>ac_rdp := rdp, ac_steps := ac_steps ac + cnt\<rparr>)))"

definition get_epsilon_and_order :: "accountant \<Rightarrow> real \<Rightarrow> (real \<times> real) option res" where
  "get_epsilon_and_order ac delta = rdp_to_dp_epsilon (ac_rdp ac) delta"

definition get_epsilon :: "accountant \<Rightarrow> real \<Rightarrow> real option res" where
  "get_epsilon ac delta = bindE (rdp_to_dp_epsilon (ac_rdp ac) delta) (\<lambda>b. Inr (map_option fst b))"

section \<open>The noise multiplier\<close>

definition eps_at :: "real list \<Rightarrow> nat \<Rightarrow> real \<Rightarrow> real \<Rightarrow> real option res" where
  "eps_at orders rounds delta z =
     bindE (accountant_step z (int rounds) (accountant_new orders)) (\<lambda>ac. get_epsilon ac delta)"

definition exceeds :: "real option \<Rightarrow> real \<Rightarrow> bool" where
  "exceeds eps target = (case eps of None \<Rightarrow> True | Some e \<Rightarrow> target < e)"

partial_function (option) grow :: "(real \<Rightarrow> real option res) \<Rightarrow> real \<Rightarrow> real \<Rightarrow> real res option" where
  "grow ep target hi =
     (case ep hi of
        Inl e \<Rightarrow> Some (Inl e)
      | Inr v \<Rightarrow>
          if exceeds v target then (if 2 * hi > 10 ^ 12 then Some (Inl ValueError) else grow ep target (2 * hi))
          else Some (Inr hi))"

partial_function (option) bisect :: "(real \<Rightarrow> real option res) \<Rightarrow> real \<Rightarrow> real \<Rightarrow> real \<Rightarrow> real \<Rightarrow> real res option" where
  "bisect ep target tol lo hi =
     (if hi - lo > tol * max 1 hi then
        (let mid = (lo + hi) / 2
         in case ep mid of
              Inl e \<Rightarrow> Some (Inl e)
            | Inr v \<Rightarrow> if exceeds v target then bisect ep target tol mid hi else bisect ep target tol lo mid)
      else Some (Inr hi))"

definition solve_noise_multiplier :: "int \<Rightarrow> real \<Rightarrow> real \<Rightarrow> real list \<Rightarrow> real \<Rightarrow> real res option" where
  "solve_noise_multiplier rounds target delta orders tol =
     (if rounds < 1 then Some (Inl ValueError)
      else if target \<le> 0 then Some (Inl ValueError)
      else let ep = eps_at orders (nat rounds) delta
           in case grow ep target 1 of
                None \<Rightarrow> None
              | Some (Inl e) \<Rightarrow> Some (Inl e)
              | Some (Inr hi) \<Rightarrow> bisect ep target tol (1 / 10 ^ 9) hi)"

section \<open>Releases\<close>

record dp_config =
  clip_norm :: real
  noise_multiplier :: real
  adjacency :: string

definition adjacency_multiplier :: "string \<Rightarrow> real option" where
  "adjacency_multiplier a = map_of [(''replace_one'', 2), (''add_remove'', 1)] a"

definition sensitivity :: "dp_config \<Rightarrow> real res" where
  "sensitivity cfg =
     (case adjacency_multiplier (adjacency cfg) of None \<Rightarrow> Inl ValueError | Some m \<Rightarrow> Inr (m * clip_norm cfg))"

definition sigma :: "dp_config \<Rightarrow> real res" where
  "sigma cfg = bindE (sensitivity cfg) (\<lambda>s. Inr (noise_multiplier cfg * s))"

text \<open>\<open>rng.normal\<close> raises \<open>ValueError\<close> for a negative standard deviation.\<close>

type_synonym gauss = "real \<Rightarrow> nat \<Rightarrow> real list"

definition vec_sum :: "real list list \<Rightarrow> real list" where
  "vec_sum us = per_column sum_list us"

definition noisy_sum ::
  "real list list \<Rightarrow> dp_config \<Rightarrow> gauss \<Rightarrow> accountant option \<Rightarrow> (real list \<times> nat \<times> accountant option) res" where
  "noisy_sum updates cfg normal ac =
     bindE (mapE (\<lambda>u. l2_clip u (clip_norm cfg)) updates) (\<lambda>flats.
     if flats = [] then Inl ValueError
     else bindE (stack flats) (\<lambda>mat.
       let summed = vec_sum mat
       in bindE (sigma cfg) (\<lambda>s.
            if s < 0 then Inl ValueError
            else let out = map2 (+) summed (normal s (length summed))
                 in case ac of
                      None \<Rightarrow> Inr (out, length flats, None)
                    | Some a \<Rightarrow> bindE (accountant_step (noise_multiplier cfg) 1 a)
                                  (\<lambda>a'. Inr (out, length flats, Some a')))))"

definition dp_fedavg ::
  "real list list \<Rightarrow> dp_config \<Rightarrow> gauss \<Rightarrow> accountant option \<Rightarrow> (real list \<times> accountant option) res" where
  "dp_fedavg updates cfg normal ac =
     bindE (noisy_sum updates cfg normal ac) (\<lambda>(out, n, ac'). Inr (map (\<lambda>x. x / real n) out, ac'))"

definition dp_sufficient_statistic ::
  "real list list \<Rightarrow> dp_config \<Rightarrow> gauss \<Rightarrow> accountant option \<Rightarrow> (real list \<times> accountant option) res" where
  "dp_sufficient_statistic contributions cfg normal ac =
     bindE (noisy_sum contributions cfg normal ac) (\<lambda>(out, n, ac'). Inr (out, ac'))"

section \<open>Sensitivity\<close>

lemma norm2_Nil [simp]: "norm2 [] = 0"
  by (simp add: norm2_def dot_def)

lemma norm2_Cons: "norm2 (x # xs) = cmod (Complex x (norm2 xs))"
proof -
  have "0 \<le> dot xs xs" by (rule dot_self_nonneg)
  moreover have "dot (x # xs) (x # xs) = x * x + dot xs xs" by (simp add: dot_def)
  ultimately show ?thesis by (simp add: norm2_def cmod_def power2_eq_square)
qed

text \<open>The triangle inequality for lists of reals, from that of the complex numbers.\<close>

lemma norm2_triangle: "length u = length v \<Longrightarrow> norm2 (map2 (+) u v) \<le> norm2 u + norm2 v"
proof (induction u v rule: list_induct2)
  case (Cons x xs y ys)
  have "norm2 (map2 (+) (x # xs) (y # ys)) = cmod (Complex (x + y) (norm2 (map2 (+) xs ys)))"
    by (simp add: norm2_Cons)
  also have "\<dots> \<le> cmod (Complex (x + y) (norm2 xs + norm2 ys))"
    using Cons.IH by (auto simp: cmod_def intro!: power_mono)
  also have "\<dots> = cmod (Complex x (norm2 xs) + Complex y (norm2 ys))" by (simp add: complex_add)
  also have "\<dots> \<le> cmod (Complex x (norm2 xs)) + cmod (Complex y (norm2 ys))" by (rule norm_triangle_ineq)
  finally show ?case by (simp add: norm2_Cons)
qed simp

lemma norm2_uminus [simp]: "norm2 (map uminus u) = norm2 u"
  by (induction u) (auto simp: norm2_Cons cmod_def)

lemma l2_clip_bound: "l2_clip u c = Inr v \<Longrightarrow> norm2 v \<le> c \<and> length v = length u \<and> 0 < c"
proof -
  assume a: "l2_clip u c = Inr v"
  then have c: "0 < c" by (auto simp: l2_clip_def split: if_splits)
  show ?thesis
  proof (cases "norm2 u \<le> c \<or> norm2 u = 0")
    case True
    then show ?thesis using a c by (auto simp: l2_clip_def Let_def)
  next
    case False
    then have v: "v = map ((*) (c / norm2 u)) u" and n: "0 < norm2 u"
      using a c norm2_nonneg [of u] by (auto simp: l2_clip_def Let_def mult.commute less_le)
    then have "norm2 v = c / norm2 u * norm2 u" using c by (simp add: norm2_scale)
    then show ?thesis using c n v by simp
  qed
qed

definition vec_diff :: "real list \<Rightarrow> real list \<Rightarrow> real list" where
  "vec_diff u v = map2 (-) u v"

lemma norm2_diff: "length u = length v \<Longrightarrow> norm2 (vec_diff u v) \<le> norm2 u + norm2 v"
proof -
  assume l: "length u = length v"
  have "vec_diff u v = map2 (+) u (map uminus v)"
    using l by (intro nth_equalityI) (simp_all add: vec_diff_def)
  then show ?thesis using norm2_triangle [of u "map uminus v"] l by simp
qed

lemma vec_sum_nth: "j < dim us \<Longrightarrow> vec_sum us ! j = (\<Sum>u\<leftarrow>us. u ! j)"
  by (simp add: vec_sum_def per_column_def column_def)

lemma vec_sum_length [simp]: "length (vec_sum us) = dim us"
  by (simp add: vec_sum_def per_column_def)

lemma sum_list_update_nth: "i < length us \<Longrightarrow> (\<Sum>u\<leftarrow>us[i := v]. f u) = (\<Sum>u\<leftarrow>us. f u) - f (us ! i) + f v" for f :: "'a \<Rightarrow> real"
proof (induction us arbitrary: i)
  case (Cons u us)
  then show ?case by (cases i) auto
qed simp

text \<open>
  The sensitivity the noise is calibrated to is the right one: whatever one client's update is replaced
  by, the clipped sums differ by at most twice the clip norm, and without it by at most the clip norm.
\<close>

theorem clipped_sum_sensitivity:
  assumes "l2_clip u c = Inr v" and "l2_clip u' c = Inr v'" and "length u = d" and "length u' = d"
    and "i < length vs" and "vs ! i = v" and "\<forall>w \<in> set vs. length w = d"
  shows "norm2 (vec_diff (vec_sum vs) (vec_sum (vs[i := v']))) \<le> 2 * c \<and>
    norm2 (vec_diff (vec_sum vs) (vec_sum (vs[i := replicate d 0]))) \<le> c"
proof -
  have d: "dim vs = d" "dim (vs[i := w]) = d" if "length w = d" for w
    using assms(5,7) that by (cases vs; cases i; auto simp: dim_def)+
  have diff: "vec_diff (vec_sum vs) (vec_sum (vs[i := w])) = vec_diff v w" if w: "length w = d" for w
  proof (rule nth_equalityI)
    show "length (vec_diff (vec_sum vs) (vec_sum (vs[i := w]))) = length (vec_diff v w)"
      using d [OF w] w l2_clip_bound [OF assms(1)] assms(3) by (simp add: vec_diff_def)
    fix j assume "j < length (vec_diff (vec_sum vs) (vec_sum (vs[i := w])))"
    then have j: "j < d" using d [OF w] by (simp add: vec_diff_def)
    then show "vec_diff (vec_sum vs) (vec_sum (vs[i := w])) ! j = vec_diff v w ! j"
      using d [OF w] w l2_clip_bound [OF assms(1)] assms(3,5,6)
      by (simp add: vec_diff_def vec_sum_nth sum_list_update_nth)
  qed
  have v: "norm2 v \<le> c" "length v = d" and v': "norm2 v' \<le> c" "length v' = d"
    using l2_clip_bound [OF assms(1)] l2_clip_bound [OF assms(2)] assms(3,4) by auto
  have "norm2 (replicate d 0) = 0" by (induction d) (simp_all add: norm2_Cons cmod_def)
  then have "norm2 (vec_diff v (replicate d 0)) \<le> c" using norm2_diff [of v "replicate d 0"] v by simp
  moreover have "norm2 (vec_diff v v') \<le> 2 * c" using norm2_diff [of v v'] v v' by simp
  ultimately show ?thesis using diff [OF v'(2)] diff [of "replicate d 0"] by simp
qed

section \<open>Composition\<close>

lemma map_of_fold_set:
  "map_of (foldl (\<lambda>d a. dict_set a (f a) d) d0 xs) a = (if a \<in> set xs then Some (f a) else map_of d0 a)"
  by (induction xs arbitrary: d0) auto

lemma keys_fold_set:
  "distinct xs \<Longrightarrow> set xs \<inter> set (map fst d0) = {} \<Longrightarrow> map fst (foldl (\<lambda>d a. dict_set a (f a) d) d0 xs) = map fst d0 @ xs"
proof (induction xs arbitrary: d0)
  case (Cons x xs)
  then show ?case by (simp add: dict_set_fresh)
qed simp

lemma dict_set_keys: "k \<in> set (map fst d) \<Longrightarrow> map fst (dict_set k v d) = map fst d"
proof (induction d)
  case (Cons kv d)
  then show ?case by (cases kv) auto
qed simp

lemma charge_ok:
  assumes "\<And>a. a \<in> set orders \<Longrightarrow> map_of per a = Some (p a)"
  shows "distinct orders \<Longrightarrow> set orders \<subseteq> set (map fst rdp) \<Longrightarrow>
    \<exists>rdp'. charge per cnt orders rdp = Inr rdp' \<and> map fst rdp' = map fst rdp \<and>
      (\<forall>a. map_of rdp' a = (if a \<in> set orders then Some (the (map_of rdp a) + of_int cnt * p a) else map_of rdp a))"
  using assms
proof (induction orders arbitrary: rdp)
  case (Cons a orders)
  have a: "a \<in> set (map fst rdp)" using Cons.prems(2) by simp
  then obtain r where r: "map_of rdp a = Some r" by (metis domD dom_map_of_conv_image_fst list.set_map)
  let ?rdp = "dict_set a (r + of_int cnt * p a) rdp"
  have keys: "map fst ?rdp = map fst rdp" by (rule dict_set_keys [OF a])
  have per: "\<And>b. b \<in> set orders \<Longrightarrow> map_of per b = Some (p b)" using Cons.prems(3) by simp
  have "set orders \<subseteq> set (map fst ?rdp)" "distinct orders" using Cons.prems(1,2) keys by auto
  from Cons.IH [OF this(2,1) per] obtain rdp' where
    "charge per cnt orders ?rdp = Inr rdp'" "map fst rdp' = map fst rdp"
    "\<forall>b. map_of rdp' b = (if b \<in> set orders then Some (the (map_of ?rdp b) + of_int cnt * p b) else map_of ?rdp b)"
    using keys by auto
  then show ?case using r Cons.prems(1) Cons.prems(3) [of a] by auto
qed simp

definition accountant_ok :: "real list \<Rightarrow> accountant \<Rightarrow> bool" where
  "accountant_ok orders ac \<longleftrightarrow> ac_orders ac = orders \<and> distinct orders \<and> map fst (ac_rdp ac) = orders"

lemma accountant_new_ok: "distinct orders \<Longrightarrow> accountant_ok orders (accountant_new orders) \<and>
    (\<forall>a \<in> set orders. map_of (ac_rdp (accountant_new orders)) a = Some 0)"
  by (simp add: accountant_ok_def accountant_new_def keys_fold_set map_of_fold_set)

lemma accountant_step_ok:
  assumes "accountant_ok orders ac" "0 < z"
  shows "\<exists>ac'. accountant_step z cnt ac = Inr ac' \<and> accountant_ok orders ac' \<and> ac_steps ac' = ac_steps ac + cnt \<and>
    (\<forall>a \<in> set orders. map_of (ac_rdp ac') a = Some (the (map_of (ac_rdp ac) a) + of_int cnt * (a / (2 * (z * z)))))"
proof -
  obtain per where per: "gaussian_rdp orders z = Inr per" "\<And>a. a \<in> set orders \<Longrightarrow> map_of per a = Some (a / (2 * (z * z)))"
    using assms(2) by (simp add: gaussian_rdp_def Let_def map_of_fold_set)
  have ac: "ac_orders ac = orders" "distinct orders" "map fst (ac_rdp ac) = orders"
    using assms(1) by (auto simp: accountant_ok_def)
  have "set orders \<subseteq> set (map fst (ac_rdp ac))" by (simp only: ac(3) order_refl)
  from charge_ok [OF per(2) ac(2) this, of cnt] obtain rdp' where
    "charge per cnt orders (ac_rdp ac) = Inr rdp'" "map fst rdp' = orders"
    "\<forall>a. map_of rdp' a = (if a \<in> set orders then Some (the (map_of (ac_rdp ac) a) + of_int cnt * (a / (2 * (z * z))))
       else map_of (ac_rdp ac) a)" using ac(3) by auto
  then show ?thesis using ac per(1) by (simp add: accountant_step_def accountant_ok_def)
qed

definition account :: "accountant \<Rightarrow> (real \<times> int) list \<Rightarrow> accountant res" where
  "account ac charges = runE (\<lambda>ac (z, cnt). accountant_step z cnt ac) ac charges"

definition cost :: "(real \<times> int) list \<Rightarrow> real" where
  "cost charges = (\<Sum>(z, cnt)\<leftarrow>charges. of_int cnt / (2 * (z * z)))"

lemma account_ok:
  "accountant_ok orders ac \<Longrightarrow> \<forall>(z, cnt) \<in> set charges. 0 < z \<Longrightarrow>
   \<exists>ac'. account ac charges = Inr ac' \<and> accountant_ok orders ac' \<and> ac_steps ac' = ac_steps ac + sum_list (map snd charges) \<and>
     (\<forall>a \<in> set orders. map_of (ac_rdp ac') a = Some (the (map_of (ac_rdp ac) a) + a * cost charges))"
proof (induction charges arbitrary: ac)
  case Nil
  have "set (map fst (ac_rdp ac)) = set orders" using Nil.prems(1) by (simp add: accountant_ok_def)
  then have "\<exists>r. map_of (ac_rdp ac) a = Some r" if "a \<in> set orders" for a
    using that by (metis domD dom_map_of_conv_image_fst list.set_map)
  then show ?case using Nil.prems by (fastforce simp: account_def cost_def)
next
  case (Cons x charges)
  obtain z cnt where x: "x = (z, cnt)" by force
  have z: "0 < z" using Cons.prems(2) x by simp
  obtain ac1 where ac1: "accountant_step z cnt ac = Inr ac1" "accountant_ok orders ac1" "ac_steps ac1 = ac_steps ac + cnt"
    "\<forall>a \<in> set orders. map_of (ac_rdp ac1) a = Some (the (map_of (ac_rdp ac) a) + of_int cnt * (a / (2 * (z * z))))"
    using accountant_step_ok [OF Cons.prems(1) z] by blast
  obtain ac2 where ac2: "account ac1 charges = Inr ac2" "accountant_ok orders ac2"
    "ac_steps ac2 = ac_steps ac1 + sum_list (map snd charges)"
    "\<forall>a \<in> set orders. map_of (ac_rdp ac2) a = Some (the (map_of (ac_rdp ac1) a) + a * cost charges)"
    using Cons.IH [OF ac1(2)] Cons.prems(2) by auto
  have "cost (x # charges) = of_int cnt / (2 * (z * z)) + cost charges" by (simp add: cost_def x)
  then have "\<forall>a \<in> set orders. map_of (ac_rdp ac2) a = Some (the (map_of (ac_rdp ac) a) + a * cost (x # charges))"
    using ac1(4) ac2(4) by (simp add: algebra_simps)
  moreover have "account ac (x # charges) = Inr ac2" using ac1(1) ac2(1) by (simp add: account_def x)
  ultimately show ?case using ac2(2,3) ac1(3) by (simp add: x)
qed

definition dp_value :: "real \<Rightarrow> real \<Rightarrow> real \<Rightarrow> real" where
  "dp_value delta a r = r + ln (1 / delta) / (a - 1)"

definition least_value :: "real \<Rightarrow> (real \<times> real) list \<Rightarrow> real \<Rightarrow> bool" where
  "least_value delta items e \<longleftrightarrow> (\<forall>a r. (a, r) \<in> set items \<longrightarrow> 1 < a \<longrightarrow> e \<le> dp_value delta a r)"

lemma best_epsilon_Some:
  "\<exists>e' b'. best_epsilon delta items (Some (e, b)) = Some (e', b') \<and> e' \<le> e \<and> least_value delta items e' \<and>
     ((e', b') = (e, b) \<or> (\<exists>r. (b', r) \<in> set items \<and> 1 < b' \<and> e' = dp_value delta b' r))"
proof (induction items arbitrary: e b)
  case (Cons x items)
  obtain a r where x: "x = (a, r)" by force
  show ?case
  proof (cases "1 < a \<and> dp_value delta a r < e")
    case True
    then have "best_epsilon delta (x # items) (Some (e, b)) = best_epsilon delta items (Some (dp_value delta a r, a))"
      by (simp add: x dp_value_def Let_def)
    with Cons.IH [of "dp_value delta a r" a] obtain e' b' where
      "best_epsilon delta (x # items) (Some (e, b)) = Some (e', b')" "e' \<le> dp_value delta a r" "least_value delta items e'"
      "(e', b') = (dp_value delta a r, a) \<or> (\<exists>r. (b', r) \<in> set items \<and> 1 < b' \<and> e' = dp_value delta b' r)" by auto
    with True x show ?thesis by (auto simp: least_value_def)
  next
    case False
    then have "best_epsilon delta (x # items) (Some (e, b)) = best_epsilon delta items (Some (e, b))"
      by (auto simp: x dp_value_def Let_def)
    with Cons.IH [of e b] obtain e' b' where
      "best_epsilon delta (x # items) (Some (e, b)) = Some (e', b')" "e' \<le> e" "least_value delta items e'"
      "(e', b') = (e, b) \<or> (\<exists>r. (b', r) \<in> set items \<and> 1 < b' \<and> e' = dp_value delta b' r)" by auto
    with False x show ?thesis by (auto simp: least_value_def)
  qed
qed (simp add: least_value_def)

lemma best_epsilon_None:
  "(\<exists>a r. (a, r) \<in> set items \<and> 1 < a) \<Longrightarrow>
   \<exists>e b. best_epsilon delta items None = Some (e, b) \<and> least_value delta items e \<and>
     (\<exists>r. (b, r) \<in> set items \<and> 1 < b \<and> e = dp_value delta b r)"
proof (induction items)
  case (Cons x items)
  obtain a r where x: "x = (a, r)" by force
  show ?case
  proof (cases "1 < a")
    case True
    then have "best_epsilon delta (x # items) None = best_epsilon delta items (Some (dp_value delta a r, a))"
      by (simp add: x dp_value_def Let_def)
    with best_epsilon_Some [of delta items "dp_value delta a r" a] obtain e b where
      "best_epsilon delta (x # items) None = Some (e, b)" "e \<le> dp_value delta a r" "least_value delta items e"
      "(e, b) = (dp_value delta a r, a) \<or> (\<exists>r. (b, r) \<in> set items \<and> 1 < b \<and> e = dp_value delta b r)" by auto
    with True x show ?thesis by (auto simp: least_value_def)
  next
    case False
    then have "\<exists>a r. (a, r) \<in> set items \<and> 1 < a" using Cons.prems x by auto
    from Cons.IH [OF this] False x show ?thesis by (auto simp: least_value_def)
  qed
qed simp

text \<open>
  The guarantee of a run: after any charges at positive multipliers the epsilon is the least over the
  orders above one of the composed Renyi cost plus the conversion term, and it is attained; so it depends
  on the charges only through their total cost, not on their order or grouping.
\<close>

definition composed_epsilon :: "real list \<Rightarrow> real \<Rightarrow> real \<Rightarrow> real \<Rightarrow> bool" where
  "composed_epsilon orders delta c e \<longleftrightarrow>
     (\<forall>a \<in> set orders. 1 < a \<longrightarrow> e \<le> a * c + ln (1 / delta) / (a - 1)) \<and>
     (\<exists>a \<in> set orders. 1 < a \<and> e = a * c + ln (1 / delta) / (a - 1))"

lemma account_epsilon:
  assumes o: "distinct orders" "\<exists>a \<in> set orders. 1 < a" and ch: "\<forall>(z, cnt) \<in> set charges. 0 < z"
    and d: "0 < delta" "delta < 1"
  shows "\<exists>ac e. account (accountant_new orders) charges = Inr ac \<and> get_epsilon ac delta = Inr (Some e) \<and>
    ac_steps ac = sum_list (map snd charges) \<and> composed_epsilon orders delta (cost charges) e"
proof -
  note new = accountant_new_ok [OF o(1)]
  obtain ac where ac: "account (accountant_new orders) charges = Inr ac" "accountant_ok orders ac"
    "ac_steps ac = ac_steps (accountant_new orders) + sum_list (map snd charges)"
    "\<forall>a \<in> set orders. map_of (ac_rdp ac) a = Some (the (map_of (ac_rdp (accountant_new orders)) a) + a * cost charges)"
    using account_ok [OF _ ch] new by blast
  have keys: "map fst (ac_rdp ac) = orders" and dist: "distinct (map fst (ac_rdp ac))"
    using ac(2) o(1) by (auto simp: accountant_ok_def)
  have items: "(a, r) \<in> set (ac_rdp ac) \<longleftrightarrow> a \<in> set orders \<and> r = a * cost charges" for a r
  proof -
    have "a \<in> set orders" if "(a, r) \<in> set (ac_rdp ac)" using that keys by (metis fst_conv image_eqI set_map)
    moreover have "map_of (ac_rdp ac) a = Some (a * cost charges)" if "a \<in> set orders" using ac(4) new that by simp
    ultimately show ?thesis using dist by (metis map_of_eq_Some_iff option.inject)
  qed
  have "\<exists>a r. (a, r) \<in> set (ac_rdp ac) \<and> 1 < a" using items o(2) by blast
  from best_epsilon_None [OF this, of delta] obtain e b where
    "best_epsilon delta (ac_rdp ac) None = Some (e, b)" "least_value delta (ac_rdp ac) e"
    "\<exists>r. (b, r) \<in> set (ac_rdp ac) \<and> 1 < b \<and> e = dp_value delta b r" by blast
  then show ?thesis
    using ac(1,3) d by (auto simp: get_epsilon_def rdp_to_dp_epsilon_def least_value_def items dp_value_def
        composed_epsilon_def accountant_new_def)
qed

theorem accountant_composes:
  assumes "distinct orders" and "\<exists>a \<in> set orders. 1 < a" and "\<forall>(z, cnt) \<in> set charges. 0 < z"
    and "0 < delta" and "delta < 1"
  shows "\<exists>ac e. account (accountant_new orders) charges = Inr ac \<and> get_epsilon ac delta = Inr (Some e) \<and>
    ac_steps ac = sum_list (map snd charges) \<and> composed_epsilon orders delta (cost charges) e"
  by (rule account_epsilon [OF assms])

section \<open>The bisection\<close>

lemma eps_at_ok:
  assumes "distinct orders" "\<exists>a \<in> set orders. 1 < a" "0 < delta" "delta < 1" "0 < z"
  shows "\<exists>e. eps_at orders n delta z = Inr (Some e) \<and> composed_epsilon orders delta (real n / (2 * (z * z))) e"
proof -
  have "\<forall>(z, cnt) \<in> set [(z, int n)]. 0 < z" using assms(5) by simp
  from account_epsilon [OF assms(1,2) this assms(3,4)] show ?thesis
    by (auto simp: eps_at_def account_def cost_def bindE_eq_Inr)
qed

lemma composed_mono:
  "composed_epsilon orders delta c e \<Longrightarrow> composed_epsilon orders delta c' e' \<Longrightarrow> c \<le> c' \<Longrightarrow> e \<le> e'"
proof -
  assume a: "composed_epsilon orders delta c e" "composed_epsilon orders delta c' e'" "c \<le> c'"
  then obtain b where b: "b \<in> set orders" "1 < b" "e' = b * c' + ln (1 / delta) / (b - 1)"
    by (auto simp: composed_epsilon_def)
  have "e \<le> b * c + ln (1 / delta) / (b - 1)" using a(1) b by (simp add: composed_epsilon_def)
  also have "b * c \<le> b * c'" using a(3) b(2) by (simp add: mult_left_mono)
  finally show "e \<le> e'" using b(3) by simp
qed

lemma grow_ends:
  assumes ep: "\<And>z. 0 < z \<Longrightarrow> \<exists>v. ep z = Inr v"
  shows "1 \<le> hi \<Longrightarrow> \<exists>r. grow ep target hi = Some r \<and>
    (case r of Inr h \<Rightarrow> 1 \<le> h \<and> (\<exists>v. ep h = Inr v \<and> \<not> exceeds v target) | Inl e \<Rightarrow> e = ValueError)"
proof (induction "nat \<lceil>10 ^ 12 - hi\<rceil>" arbitrary: hi rule: less_induct)
  case less
  obtain v where v: "ep hi = Inr v" using ep [of hi] less.prems by auto
  note unf = grow.simps [of ep target hi]
  show ?case
  proof (cases "exceeds v target \<and> \<not> 2 * hi > 10 ^ 12")
    case True
    then have "nat \<lceil>10 ^ 12 - 2 * hi\<rceil> < nat \<lceil>10 ^ 12 - hi\<rceil>" using less.prems by linarith
    from less.hyps [OF this] less.prems True show ?thesis unfolding unf v by simp
  next
    case False
    then show ?thesis using less.prems v by (auto simp: unf)
  qed
qed

lemma bisect_ends:
  assumes ep: "\<And>z. 0 < z \<Longrightarrow> \<exists>v. ep z = Inr v" and tol: "0 < tol"
  shows "0 < lo \<Longrightarrow> lo < hi \<Longrightarrow> hi - lo \<le> tol * 2 ^ n \<Longrightarrow> (\<exists>v. ep hi = Inr v \<and> \<not> exceeds v target) \<Longrightarrow>
    lo = lo0 \<or> (\<exists>v. ep lo = Inr v \<and> exceeds v target) \<Longrightarrow>
    \<exists>h l. bisect ep target tol lo hi = Some (Inr h) \<and> 0 < l \<and> l < h \<and> h - l \<le> tol * max 1 h \<and>
      (\<exists>v. ep h = Inr v \<and> \<not> exceeds v target) \<and> (l = lo0 \<or> (\<exists>v. ep l = Inr v \<and> exceeds v target))"
proof (induction n arbitrary: lo hi)
  case 0
  have "tol * 1 \<le> tol * max 1 hi" using tol by (intro mult_left_mono) auto
  then have "hi - lo \<le> tol * max 1 hi" using 0(3) by (simp only: power_0)
  then have "\<not> hi - lo > tol * max 1 hi" by simp
  then show ?case using 0 by (intro exI [of _ hi] exI [of _ lo]) (simp add: bisect.simps)
next
  case (Suc n)
  note unf = bisect.simps [of ep target tol lo hi]
  show ?case
  proof (cases "hi - lo > tol * max 1 hi")
    case False
    then show ?thesis using Suc.prems by (intro exI [of _ hi] exI [of _ lo]) (simp add: unf)
  next
    case True
    let ?mid = "(lo + hi) / 2"
    have mid: "lo < ?mid" "?mid < hi" "0 < ?mid" using Suc.prems by auto
    obtain v where v: "ep ?mid = Inr v" using ep [OF mid(3)] by blast
    have half: "hi - ?mid \<le> tol * 2 ^ n" "?mid - lo \<le> tol * 2 ^ n" using Suc.prems(3) by (simp_all add: field_simps)
    show ?thesis
    proof (cases "exceeds v target")
      case e: True
      have "bisect ep target tol lo hi = bisect ep target tol ?mid hi" using True v e by (simp add: unf)
      then show ?thesis using Suc.IH [OF mid(3,2) half(1) Suc.prems(4)] v e by auto
    next
      case e: False
      have "bisect ep target tol lo hi = bisect ep target tol lo ?mid" using True v e by (simp add: unf)
      then show ?thesis using Suc.IH [OF Suc.prems(1) mid(1) half(2) _ Suc.prems(5)] v e by auto
    qed
  qed
qed


text \<open>
  A release without an accountant and with multiplier 0 adds no noise to speak of: it draws with standard
  deviation 0, and the sum it returns is the clipped sum itself.
\<close>

theorem zero_multiplier_releases_sum:
  assumes "\<And>m. normal 0 m = replicate m 0" and "mapE (\<lambda>u. l2_clip u c) us = Inr vs" and "stack vs = Inr vs"
  shows "dp_sufficient_statistic us \<lparr>clip_norm = c, noise_multiplier = 0, adjacency = ''replace_one''\<rparr> normal None =
    Inr (vec_sum vs, None)"
proof -
  have "map2 (+) xs (replicate (length xs) 0) = xs" for xs :: "real list" by (induction xs) auto
  then have "map2 (+) (vec_sum vs) (replicate (dim vs) 0) = vec_sum vs" using vec_sum_length [of vs] by metis
  moreover have "vs \<noteq> []" using assms(3) by (simp add: stack_shape)
  ultimately show ?thesis
    using assms by (simp add: dp_sufficient_statistic_def noisy_sum_def sigma_def sensitivity_def
        adjacency_multiplier_def Let_def)
qed

section \<open>Witnesses\<close>

lemma norm2_single [simp]: "norm2 [x] = \<bar>x\<bar>"
  by (simp add: norm2_def dot_def)

theorem clipped_sum_sensitivity_witness:
  "norm2 (vec_diff (vec_sum [[1], [- 1]]) (vec_sum [[- 1], [- 1]])) \<le> 2 * 1"
proof -
  have "l2_clip [3] 1 = Inr [1]" "l2_clip [- 1] 1 = Inr [- 1]" by (simp_all add: l2_clip_def Let_def)
  from clipped_sum_sensitivity [OF this, of 1 0 "[[1], [- 1]]"] show ?thesis by simp
qed

theorem accountant_composes_witness:
  "\<exists>ac e. account (accountant_new DEFAULT_ORDERS) [(2, 3), (1, 1)] = Inr ac \<and> get_epsilon ac (1 / 100000) = Inr (Some e) \<and>
     ac_steps ac = 4"
  using accountant_composes [of DEFAULT_ORDERS "[(2, 3), (1, 1)]" "1 / 100000"] by (auto simp: DEFAULT_ORDERS_def)


theorem zero_multiplier_releases_sum_witness:
  "dp_sufficient_statistic [[1], [1]] \<lparr>clip_norm = 1, noise_multiplier = 0, adjacency = ''replace_one''\<rparr>
     (\<lambda>s m. replicate m s) None = Inr (vec_sum [[1], [1]], None)"
  by (rule zero_multiplier_releases_sum) (simp_all add: l2_clip_def Let_def stack_def)

end
