(* ===== verification/ShieldEnv.thy ===== *)
theory ShieldEnv
  imports ShieldRepair EmitGuards EvidenceProps
begin

text \<open>
  The spectrum environment behind the Shield (\<open>learning/shield_env.py\<close>): the measured reward, the
  feasibility mask taken from the Shield's own predicate, the closed-loop step that executes what the
  Shield disposed and records both actions, and the replay buffer that reads only a log that verifies.
  The gains are what the feature rows decode to.
\<close>

section \<open>Actions and the environment\<close>

definition BAND_LO_HZ :: pyfloat where "BAND_LO_HZ = Fin 3450000000"
definition BAND_HI_HZ :: pyfloat where "BAND_HI_HZ = Fin 3550000000"
definition N_SUBBANDS :: nat where "N_SUBBANDS = 6"
definition MAX_EIRP_DBM :: pyfloat where "MAX_EIRP_DBM = Fin 33"
definition ANTENNA_GAIN_DBI :: pyfloat where "ANTENNA_GAIN_DBI = Fin 6"
definition BANDWIDTH_HZ :: pyfloat where "BANDWIDTH_HZ = Fin 20000000"
definition NOISE_FIGURE_DB :: pyfloat where "NOISE_FIGURE_DB = Fin 7"

definition EvidenceIntegrityError :: py_exn where
  "EvidenceIntegrityError = OtherExn ''EvidenceIntegrityError''"

record spectrum_action =
  sa_frequency :: pyfloat
  sa_tx_power :: pyfloat

definition eirp_dbm :: "platform \<Rightarrow> spectrum_action \<Rightarrow> pyfloat" where
  "eirp_dbm pl a = fadd pl (sa_tx_power a) ANTENNA_GAIN_DBI"

text \<open>NumPy's \<open>log10\<close> raises nothing, and its division by a non-zero constant neither.\<close>

fun np_log10 :: "platform \<Rightarrow> pyfloat \<Rightarrow> pyfloat" where
  "np_log10 pl (Fin a) = (if a > 0 then rnd pl (log 10 a) else if a = 0 then NInf else NaN)"
| "np_log10 pl PInf = PInf"
| "np_log10 pl x = NaN"

record shielded_env =
  se_gains :: "pyfloat list list"
  se_lo :: pyfloat
  se_hi :: pyfloat
  se_max_eirp :: pyfloat
  se_bandwidth :: pyfloat
  se_threshold :: pyfloat
  se_noise :: pyfloat
  se_shield :: shield

definition env_shield :: "platform \<Rightarrow> pyfloat \<Rightarrow> pyfloat \<Rightarrow> pyfloat \<Rightarrow> shield" where
  "env_shield pl lo hi mx = default_terrestrial_shield pl lo hi mx None (Fin (17 / 2)) (Fin 1) (Fin 0)"

definition shielded_env_init ::
  "platform \<Rightarrow> pyfloat list list \<Rightarrow> pyfloat \<Rightarrow> pyfloat \<Rightarrow> pyfloat \<Rightarrow> pyfloat \<Rightarrow> pyfloat \<Rightarrow> shielded_env" where
  "shielded_env_init pl gains lo hi mx bw thr =
     \<lparr>se_gains = gains, se_lo = lo, se_hi = hi, se_max_eirp = mx, se_bandwidth = bw, se_threshold = thr,
      se_noise = fadd pl (fadd pl (Fin (- 174)) (fmul pl (Fin 10) (np_log10 pl bw))) NOISE_FIGURE_DB,
      se_shield = env_shield pl lo hi mx\<rparr>"

definition load_gain_matrix :: "pyfloat list list \<Rightarrow> pyfloat list list res" where
  "load_gain_matrix rows =
     (if rows = [] \<or> \<not> list_all (\<lambda>r. length r = N_SUBBANDS) rows then Inl ValueError
      else if \<not> list_all (list_all isfinite) rows then Inl ValueError
      else Inr rows)"

section \<open>The reward\<close>

definition float_of_nat :: "platform \<Rightarrow> nat \<Rightarrow> pyfloat" where
  "float_of_nat pl n = rnd pl (real n)"

definition subband_center_hz :: "platform \<Rightarrow> nat \<Rightarrow> pyfloat" where
  "subband_center_hz pl b =
     (let width = (case fdiv pl (fsub pl BAND_HI_HZ BAND_LO_HZ) (Fin (real N_SUBBANDS)) of Inr w \<Rightarrow> w | Inl _ \<Rightarrow> NaN)
      in fadd pl BAND_LO_HZ (fmul pl (fadd pl (float_of_nat pl b) (Fin (1 / 2))) width))"

text \<open>\<open>np.argmin\<close> is the first index of a NaN, and without one the first index of the least element.\<close>

fun np_argmin_from :: "nat \<Rightarrow> nat \<Rightarrow> pyfloat \<Rightarrow> pyfloat list \<Rightarrow> nat" where
  "np_argmin_from k best x [] = best"
| "np_argmin_from k best x (y # ys) =
     (if x \<noteq> NaN \<and> (y = NaN \<or> y < x) then np_argmin_from (k + 1) k y ys else np_argmin_from (k + 1) best x ys)"

definition np_argmin :: "pyfloat list \<Rightarrow> nat" where
  "np_argmin xs = (case xs of [] \<Rightarrow> 0 | x # ys \<Rightarrow> np_argmin_from 1 0 x ys)"

definition subband_for :: "platform \<Rightarrow> shielded_env \<Rightarrow> pyfloat \<Rightarrow> nat option" where
  "subband_for pl e f =
     (if f < se_lo e \<or> se_hi e < f then None
      else Some (np_argmin (map (\<lambda>b. fabs (fsub pl (subband_center_hz pl b) f)) [0..<N_SUBBANDS])))"

text \<open>The mean of no receivers is NaN.\<close>

definition bool_mean :: "platform \<Rightarrow> bool list \<Rightarrow> pyfloat" where
  "bool_mean pl bs = (if bs = [] then NaN else rnd pl (real (length (filter (\<lambda>b. b) bs)) / real (length bs)))"

definition reward :: "platform \<Rightarrow> shielded_env \<Rightarrow> spectrum_action \<Rightarrow> pyfloat option" where
  "reward pl e a =
     (case subband_for pl e (sa_frequency a) of
        None \<Rightarrow> None
      | Some b \<Rightarrow> Some (bool_mean pl
          (map (\<lambda>row. se_threshold e \<le> fsub pl (fadd pl (eirp_dbm pl a) (row ! b)) (se_noise e)) (se_gains e))))"

definition optimal_feasible_reward :: "platform \<Rightarrow> shielded_env \<Rightarrow> pyfloat" where
  "optimal_feasible_reward pl e =
     foldl (\<lambda>best b. case reward pl e \<lparr>sa_frequency = subband_center_hz pl b,
                                      sa_tx_power = fsub pl (se_max_eirp e) ANTENNA_GAIN_DBI\<rparr> of
                       None \<Rightarrow> best | Some v \<Rightarrow> fmax best v) (Fin 0) [0..<N_SUBBANDS]"

section \<open>Feasibility\<close>

definition action_payload :: "shielded_env \<Rightarrow> spectrum_action \<Rightarrow> action" where
  "action_payload e a =
     [''block'' \<mapsto> VStr ''policy_emit'', ''policy_type'' \<mapsto> VStr ''horizon.spectrum.reservation'',
      ''frequency_hz'' \<mapsto> VFloat (sa_frequency a), ''bandwidth_hz'' \<mapsto> VFloat (se_bandwidth e),
      ''tx_power_dBm'' \<mapsto> VFloat (sa_tx_power a), ''antenna_gain_dBi'' \<mapsto> VFloat ANTENNA_GAIN_DBI]"

definition env_feasible :: "shielded_env \<Rightarrow> spectrum_action \<Rightarrow> bool res" where
  "env_feasible e a = is_feasible (se_shield e) (action_payload e a) Map.empty"

definition infeasibility_reasons :: "shielded_env \<Rightarrow> spectrum_action \<Rightarrow> string list res" where
  "infeasibility_reasons e a =
     bindE (shield_violations (se_shield e) (action_payload e a) Map.empty) (\<lambda>cs. Inr (map invariant_id cs))"

definition feasible_mask :: "shielded_env \<Rightarrow> spectrum_action list \<Rightarrow> bool list res" where
  "feasible_mask e as = mapE (env_feasible e) as"

definition mask_grid_slow :: "platform \<Rightarrow> shielded_env \<Rightarrow> pyfloat list \<Rightarrow> pyfloat list \<Rightarrow> bool list list res" where
  "mask_grid_slow pl e freqs eirps =
     mapE (\<lambda>f. mapE (\<lambda>x. env_feasible e \<lparr>sa_frequency = f, sa_tx_power = fsub pl x ANTENNA_GAIN_DBI\<rparr>) eirps) freqs"

definition row_ok :: "platform \<Rightarrow> shielded_env \<Rightarrow> pyfloat \<Rightarrow> bool" where
  "row_ok pl e f \<longleftrightarrow>
     (let bw = se_bandwidth e
      in (isfinite f \<and> Fin 0 < f \<and> se_lo e \<le> fsub pl f (fhalf pl bw) \<and> fadd pl f (fhalf pl bw) \<le> se_hi e) \<and>
         isfinite bw \<and> Fin 0 < bw)"

definition col_ok :: "platform \<Rightarrow> shielded_env \<Rightarrow> pyfloat \<Rightarrow> bool" where
  "col_ok pl e x \<longleftrightarrow>
     (let eff = fadd pl (fsub pl x ANTENNA_GAIN_DBI) ANTENNA_GAIN_DBI in isfinite eff \<and> eff \<le> se_max_eirp e)"

definition feasible_mask_grid ::
  "platform \<Rightarrow> shielded_env \<Rightarrow> pyfloat list \<Rightarrow> pyfloat list \<Rightarrow> bool \<Rightarrow> bool list list res" where
  "feasible_mask_grid pl e freqs eirps fast =
     (if \<not> fast then mask_grid_slow pl e freqs eirps
      else Inr (map (\<lambda>f. map (\<lambda>x. row_ok pl e f \<and> col_ok pl e x) eirps) freqs))"

section \<open>The closed loop\<close>

record step_outcome =
  so_proposed :: spectrum_action
  so_executed :: spectrum_action
  so_reward :: pyfloat
  so_counterfactual :: "pyfloat option"
  so_projected :: bool
  so_guard_refused :: bool
  so_illegal :: bool

definition getitem_float :: "platform \<Rightarrow> action \<Rightarrow> string \<Rightarrow> pyfloat res" where
  "getitem_float pl d k = (case d k of None \<Rightarrow> Inl KeyError | Some v \<Rightarrow> py_float pl v)"

text \<open>What the step appends: the clock's timestamp and the label of the frequency are arguments.\<close>

record step_args =
  st_decision_id :: string
  st_timestamp :: string
  st_rapp :: string
  st_label :: string
  st_state_hash :: string

definition outcome_record :: "step_args \<Rightarrow> step_outcome \<Rightarrow> decision_record" where
  "outcome_record sa so =
     \<lparr>dr_decision_id = st_decision_id sa, dr_timestamp = st_timestamp sa, dr_rapp_instance_id = st_rapp sa,
      dr_tenant_id = None, dr_state_hash = st_state_hash sa, dr_state_blob_uri = None,
      dr_chosen_action = VDict
        [(''label'', VStr (st_label sa)), (''policy_type'', VStr ''horizon.spectrum.reservation''),
         (''requested_frequency_hz'', VFloat (sa_frequency (so_proposed so))),
         (''requested_tx_power_dBm'', VFloat (sa_tx_power (so_proposed so))),
         (''safe_frequency_hz'', VFloat (sa_frequency (so_executed so))),
         (''safe_tx_power_dBm'', VFloat (sa_tx_power (so_executed so))),
         (''reward'', VFloat (so_reward so)), (''projected'', VBool (so_projected so)),
         (''guard_refused'', VBool (so_guard_refused so))],
      dr_predicted = \<lparr>sla_risk_30s = Fin (1 / 10), sla_risk_1min = Fin (1 / 10), sla_risk_5min = Fin (1 / 10),
        gateway_loads = [], ntn_capacity_used = Fin 0, energy_kwh = Fin 0, po_constraint_violations = []\<rparr>,
      dr_rejected = [], dr_corrections = [],
      dr_model_versions = \<lparr>mv_encoder = ''none'', mv_risk_heads = ''shield-feedback'', mv_dyna = ''none'',
        mv_policy = st_label sa, mv_constraint_layer = ''terrestrial-shield'', mv_rapp = ''0.2.0''\<rparr>,
      dr_random_seed = None, dr_actual_30s = None, dr_actual_1min = None, dr_actual_5min = None,
      dr_operator_override = False, dr_override_reason = None, dr_sla_breach_context = None\<rparr>"

definition outcome_of ::
  "platform \<Rightarrow> shielded_env \<Rightarrow> spectrum_action \<Rightarrow> spectrum_action \<Rightarrow> certificate \<Rightarrow> step_outcome res" where
  "outcome_of pl e proposed executed cert =
     (case reward pl e executed of
        None \<Rightarrow> Inl RuntimeError
      | Some realised \<Rightarrow> Inr
          \<lparr>so_proposed = proposed, so_executed = executed, so_reward = realised,
           so_counterfactual = reward pl e proposed,
           so_projected =
             (Fin 1 < fabs (fsub pl (sa_frequency executed) (sa_frequency proposed)) \<or>
              eirp_dbm pl executed < fsub pl (eirp_dbm pl proposed) (rnd pl (1 / 10 ^ 9))),
           so_guard_refused = (run_guard_chain (Some cert) True (Fin 1) None (Fin 100) \<noteq> []),
           so_illegal =
             (fadd pl (se_max_eirp e) (rnd pl (1 / 10 ^ 9)) < eirp_dbm pl proposed \<or>
              sa_frequency proposed < se_lo e \<or> se_hi e < sa_frequency proposed)\<rparr>)"

definition env_act :: "platform \<Rightarrow> shielded_env \<Rightarrow> string \<Rightarrow> string \<Rightarrow> spectrum_action \<Rightarrow> step_outcome res" where
  "env_act pl e did now proposed =
     bindE (dispose pl (se_shield e) did now ''non_rt'' None None (action_payload e proposed) Map.empty) (\<lambda>d.
     bindE (getitem_float pl (safe_action d) ''frequency_hz'') (\<lambda>f.
     bindE (getitem_float pl (safe_action d) ''tx_power_dBm'') (\<lambda>p.
       outcome_of pl e proposed \<lparr>sa_frequency = f, sa_tx_power = p\<rparr> (disp_certificate d))))"

definition shield_env_step ::
  "platform \<Rightarrow> sha \<Rightarrow> codec \<Rightarrow> string option \<Rightarrow> shielded_env \<Rightarrow> spectrum_action \<Rightarrow> string \<Rightarrow> step_args \<Rightarrow>
   jfile option \<Rightarrow> (step_outcome \<times> jfile option) res" where
  "shield_env_step pl sha c tenant e proposed now sa store =
     bindE (env_act pl e (st_decision_id sa) now proposed) (\<lambda>so.
       case store of
         None \<Rightarrow> Inr (so, None)
       | Some f \<Rightarrow> bindE (jsonl_append sha c tenant (outcome_record sa so) f) (\<lambda>(f', h). Inr (so, Some f')))"

section \<open>Replay\<close>

record transition =
  tr_decision_id :: string
  tr_proposed_frequency :: pyfloat
  tr_proposed_power :: pyfloat
  tr_executed_frequency :: pyfloat
  tr_executed_power :: pyfloat
  tr_reward :: pyfloat
  tr_projected :: bool
  tr_guard_refused :: bool

text \<open>A field of the recorded action; the schema makes \<open>chosen_action\<close> a dictionary.\<close>

definition item :: "pyval \<Rightarrow> string \<Rightarrow> pyval res" where
  "item v k =
     (case v of VDict d \<Rightarrow> (case map_of d k of None \<Rightarrow> Inl KeyError | Some x \<Rightarrow> Inr x) | _ \<Rightarrow> Inl TypeError)"

definition has_item :: "pyval \<Rightarrow> string \<Rightarrow> bool" where
  "has_item v k = (case v of VDict d \<Rightarrow> map_of d k \<noteq> None | _ \<Rightarrow> False)"

definition transition_of :: "platform \<Rightarrow> decision_record \<Rightarrow> transition res" where
  "transition_of pl r =
     (let a = dr_chosen_action r; num = (\<lambda>k. bindE (item a k) (py_float pl)) in
      bindE (num ''requested_frequency_hz'') (\<lambda>pf.
      bindE (num ''requested_tx_power_dBm'') (\<lambda>pp.
      bindE (num ''safe_frequency_hz'') (\<lambda>ef.
      bindE (num ''safe_tx_power_dBm'') (\<lambda>ep.
      bindE (num ''reward'') (\<lambda>rw.
      bindE (item a ''projected'') (\<lambda>pj.
      bindE (item a ''guard_refused'') (\<lambda>gr.
        Inr \<lparr>tr_decision_id = dr_decision_id r, tr_proposed_frequency = pf, tr_proposed_power = pp,
             tr_executed_frequency = ef, tr_executed_power = ep, tr_reward = rw, tr_projected = truthy pj,
             tr_guard_refused = truthy gr\<rparr>))))))))"

fun replay :: "platform \<Rightarrow> row res list \<Rightarrow> transition list res" where
  "replay pl [] = Inr []"
| "replay pl (Inl ex # items) = Inl ex"
| "replay pl (Inr (r, h) # items) =
     (if \<not> has_item (dr_chosen_action r) ''requested_frequency_hz'' \<or> \<not> has_item (dr_chosen_action r) ''reward''
      then replay pl items
      else bindE (transition_of pl r) (\<lambda>t. bindE (replay pl items) (\<lambda>ts. Inr (t # ts))))"

definition load_transitions :: "platform \<Rightarrow> sha \<Rightarrow> codec \<Rightarrow> string option \<Rightarrow> jfile \<Rightarrow> transition list res" where
  "load_transitions pl sha c tenant f =
     bindE (store_verify sha c (jsonl_iter c tenant f)) (\<lambda>broken.
       if broken \<noteq> - 1 then Inl EvidenceIntegrityError else replay pl (jsonl_iter c tenant f))"

section \<open>The Shield on a spectrum action\<close>

definition exact_env :: "platform \<Rightarrow> pyfloat list list \<Rightarrow> real \<Rightarrow> real \<Rightarrow> real \<Rightarrow> pyfloat \<Rightarrow> pyfloat \<Rightarrow> shielded_env" where
  "exact_env pl gains lo hi mx bw thr = shielded_env_init pl gains (Fin lo) (Fin hi) (Fin mx) bw thr"

lemma exact_env_sel [simp]:
  "se_bandwidth (exact_env pl gains lo hi mx bw thr) = bw"
  "se_lo (exact_env pl gains lo hi mx bw thr) = Fin lo" "se_hi (exact_env pl gains lo hi mx bw thr) = Fin hi"
  "se_max_eirp (exact_env pl gains lo hi mx bw thr) = Fin mx" "se_gains (exact_env pl gains lo hi mx bw thr) = gains"
  "se_threshold (exact_env pl gains lo hi mx bw thr) = thr"
  "se_shield (exact_env pl gains lo hi mx bw thr) = mk_shield (exact_chain pl lo hi 0 mx (17 / 2) 1)"
  by (simp_all add: exact_env_def shielded_env_init_def env_shield_def exact_chain_shield)

lemma payload_fields [simp]:
  "action_payload e a ''frequency_hz'' = Some (VFloat (sa_frequency a))"
  "action_payload e a ''bandwidth_hz'' = Some (VFloat (se_bandwidth e))"
  "action_payload e a ''tx_power_dBm'' = Some (VFloat (sa_tx_power a))"
  "action_payload e a ''antenna_gain_dBi'' = Some (VFloat (Fin 6))"
  "action_payload e a ''block'' = Some (VStr ''policy_emit'')"
  "action_payload e a ''constellation_order'' = None" "action_payload e a ''emit_blocked'' = None"
  "action_payload e a ''sat_antenna_gain_dBi'' = None" "action_payload e a ''predicted_tbler'' = None"
  "action_payload e a ''baseline_tbler'' = None" "action_payload e a ''demap_confidence'' = None"
  "action_payload e a ''papr_dB'' = None" "action_payload e a ''ntn'' = None"
  by (simp_all add: action_payload_def ANTENNA_GAIN_DBI_def)

lemma payload_update:
  "(action_payload e a)(''frequency_hz'' \<mapsto> VFloat x) = action_payload e (a\<lparr>sa_frequency := x\<rparr>)"
  "(action_payload e a)(''tx_power_dBm'' \<mapsto> VFloat y) = action_payload e (a\<lparr>sa_tx_power := y\<rparr>)"
  by (auto simp: action_payload_def fun_eq_iff)

lemma payload_not_blocked [simp]: "\<not> blocked (action_payload e a)"
  by (simp add: blocked_def)

lemma payload_not_neural [simp]: "\<not> is_neural_rx pl (action_payload e a)"
  by (simp add: is_neural_rx_def)

lemma payload_no_constellation [simp]: "\<not> con_applies pl (action_payload e a)"
  by (simp add: con_applies_def)

lemma payload_sane:
  "sane pl (action_payload e a) \<longleftrightarrow>
     (\<exists>f > 0. sa_frequency a = Fin f) \<and> (\<exists>b > 0. se_bandwidth e = Fin b) \<and> (\<exists>p. sa_tx_power a = Fin p)"
proof -
  have num: "number pl (VFloat x) = (case x of Fin r \<Rightarrow> Some r | _ \<Rightarrow> None)" for x by (simp add: number_def)
  show ?thesis
    by (cases "sa_frequency a"; cases "se_bandwidth e"; cases "sa_tx_power a")
      (simp_all add: sane_iff req_field_bad_def opt_field_bad_def num)
qed

lemma fget_payload [simp]:
  "fget pl (action_payload e a) ''frequency_hz'' d = Inr (sa_frequency a)"
  "fget pl (action_payload e a) ''bandwidth_hz'' d = Inr (se_bandwidth e)"
  "fget pl (action_payload e a) ''tx_power_dBm'' d = Inr (sa_tx_power a)"
  "fget pl (action_payload e a) ''antenna_gain_dBi'' d = Inr (Fin 6)"
  by (simp_all add: fget_def)

lemma payload_con_holds: "holds (constellation_invariant pl c) ctx (action_payload e a)"
  by (simp add: holds_def constellation_invariant_def con_evaluate_def)

text \<open>The predicate, in exact arithmetic.\<close>

definition legal_action :: "real \<Rightarrow> real \<Rightarrow> real \<Rightarrow> pyfloat \<Rightarrow> spectrum_action \<Rightarrow> bool" where
  "legal_action lo hi mx bw a \<longleftrightarrow>
     (\<exists>f b p. sa_frequency a = Fin f \<and> 0 < f \<and> bw = Fin b \<and> 0 < b \<and> sa_tx_power a = Fin p \<and>
        lo \<le> f - b / 2 \<and> f + b / 2 \<le> hi \<and> p + 6 \<le> mx)"

lemma chain_holds:
  assumes "exact pl"
  shows "(\<forall>i \<in> set (exact_chain pl lo hi 0 mx papr tol). holds i ctx (action_payload e a)) \<longleftrightarrow>
         legal_action lo hi mx (se_bandwidth e) a"
proof (cases "sane pl (action_payload e a)")
  case True
  then obtain f b p where v: "sa_frequency a = Fin f" "0 < f" "se_bandwidth e = Fin b" "0 < b" "sa_tx_power a = Fin p"
    by (auto simp: payload_sane)
  have "holds (spectral_mask_invariant pl \<lparr>band_lo_hz = Fin lo, band_hi_hz = Fin hi, guard_band_hz = Fin 0\<rparr>) ctx
      (action_payload e a) \<longleftrightarrow> lo + 0 \<le> f - b / 2 \<and> f + b / 2 \<le> hi - 0"
    by (rule holds_mask [OF assms]) (simp_all add: v)
  moreover have "holds (max_eirp_invariant pl (Fin mx)) ctx (action_payload e a) \<longleftrightarrow> p + 6 \<le> mx"
    by (rule holds_eirp [OF assms]) (simp_all add: v)
  ultimately show ?thesis
    using True v by (auto simp: exact_chain_def terrestrial_chain_def li_prefix_def holds_sanity not_neural_holds
        payload_con_holds legal_action_def)
next
  case False
  then have "\<not> legal_action lo hi mx (se_bandwidth e) a" by (auto simp: payload_sane legal_action_def)
  then show ?thesis using False
    by (simp add: exact_chain_def terrestrial_chain_def holds_sanity)
qed

lemma env_feasible_eq:
  assumes "exact pl"
  shows "env_feasible (exact_env pl gains lo hi mx bw thr) a = Inr (legal_action lo hi mx bw a)"
proof -
  let ?e = "exact_env pl gains lo hi mx bw thr"
  have "\<exists>r. feasible_chain (action_payload ?e a) Map.empty (exact_chain pl lo hi 0 mx (17 / 2) 1) = Inr r"
    by (simp add: exact_chain_def terrestrial.feasible_total)
  then obtain r where r: "env_feasible ?e a = Inr r" by (auto simp: env_feasible_def is_feasible_def)
  have "r \<longleftrightarrow> legal_action lo hi mx bw a"
    using chain_holds [OF assms, of lo hi mx "17 / 2" 1 Map.empty ?e a] r
      feasible_chain_True [of "action_payload ?e a" Map.empty "exact_chain pl lo hi 0 mx (17 / 2) 1"]
    by (cases r) (auto simp: env_feasible_def is_feasible_def holds_def)
  with r show ?thesis by simp
qed

lemma row_col_legal:
  assumes "exact pl"
  shows "row_ok pl (exact_env pl gains lo hi mx bw thr) f \<and> col_ok pl (exact_env pl gains lo hi mx bw thr) x \<longleftrightarrow>
         legal_action lo hi mx bw \<lparr>sa_frequency = f, sa_tx_power = fsub pl x ANTENNA_GAIN_DBI\<rparr>"
  using assms
  by (cases f; cases bw; cases x) (auto simp: row_ok_def col_ok_def legal_action_def ANTENNA_GAIN_DBI_def Let_def fsub_def)


section \<open>The closed loop in exact arithmetic\<close>

definition clip_frequency :: "real \<Rightarrow> real \<Rightarrow> real \<Rightarrow> real \<Rightarrow> real" where
  "clip_frequency lo hi b f = min (max f (lo + b / 2)) (hi - b / 2)"

text \<open>One pass moves the carrier to the nearest legal one and cuts the power to the ceiling.\<close>

lemma mask_project_payload:
  assumes "exact pl" "b \<le> hi - lo" "se_bandwidth e = Fin b"
  shows "project (spectral_mask_invariant pl \<lparr>band_lo_hz = Fin lo, band_hi_hz = Fin hi, guard_band_hz = Fin 0\<rparr>)
      (action_payload e \<lparr>sa_frequency = Fin f, sa_tx_power = p\<rparr>) ctx =
    Inr (action_payload e \<lparr>sa_frequency = Fin (clip_frequency lo hi b f), sa_tx_power = p\<rparr>,
         if clip_frequency lo hi b f = f then [] else [hard_violation MASK_ID None])"
  using assms
  by (auto simp: spectral_mask_invariant_def mask_project_def usable_lo_def usable_hi_def Let_def clip_frequency_def
      payload_update)

lemma eirp_project_payload:
  assumes "exact pl"
  shows "project (max_eirp_invariant pl (Fin mx)) (action_payload e \<lparr>sa_frequency = f, sa_tx_power = Fin p\<rparr>) ctx =
    Inr (action_payload e \<lparr>sa_frequency = f, sa_tx_power = Fin (min p (mx - 6))\<rparr>,
         if p + 6 \<le> mx then [] else [hard_violation EIRP_ID (Some (Fin (- (p + 6 - mx))))])"
  using assms
  by (auto simp: max_eirp_invariant_def eirp_project_def eirp_def cut_power_def payload_update min_def)

lemma nrx_project_payload: "project (neural_rx_invariant pl nr) (action_payload e a) ctx = Inr (action_payload e a, [])"
  by (simp add: neural_rx_invariant_def nrx_project_def nrx_evaluate_def)

lemma con_project_payload: "project (constellation_invariant pl c) (action_payload e a) ctx = Inr (action_payload e a, [])"
  by (simp add: constellation_invariant_def con_project_def)

definition corrections_of :: "real \<Rightarrow> real \<Rightarrow> real \<Rightarrow> real \<Rightarrow> real \<Rightarrow> real \<Rightarrow> violation list" where
  "corrections_of lo hi mx b f p =
     (if clip_frequency lo hi b f = f then [] else [hard_violation MASK_ID None]) @
     (if p + 6 \<le> mx then [] else [hard_violation EIRP_ID (Some (Fin (- (p + 6 - mx))))])"

lemma pass_payload:
  assumes ex: "exact pl" and bw: "se_bandwidth e = Fin b" "0 < b" "b \<le> hi - lo" and f: "0 < f"
  shows "project_pass (exact_chain pl lo hi 0 mx papr tol) ctx
      (action_payload e \<lparr>sa_frequency = Fin f, sa_tx_power = Fin p\<rparr>) [] =
    Inr (action_payload e \<lparr>sa_frequency = Fin (clip_frequency lo hi b f), sa_tx_power = Fin (min p (mx - 6))\<rparr>,
         corrections_of lo hi mx b f p)"
proof -
  have "sane pl (action_payload e \<lparr>sa_frequency = Fin f, sa_tx_power = Fin p\<rparr>)" using bw f by (simp add: payload_sane)
  then show ?thesis
    by (simp add: exact_chain_def terrestrial_chain_def li_prefix_def sanity_project_id
        mask_project_payload [OF ex bw(3,1)] eirp_project_payload [OF ex] nrx_project_payload con_project_payload
        corrections_of_def)
qed

lemma clip_legal:
  assumes "0 \<le> lo" "0 < b" "b \<le> hi - lo"
  shows "legal_action lo hi mx (Fin b) \<lparr>sa_frequency = Fin (clip_frequency lo hi b f), sa_tx_power = Fin (min p (mx - 6))\<rparr>"
  using assms by (auto simp: legal_action_def clip_frequency_def min_def max_def)

lemma legal_fixed:
  "0 < f \<Longrightarrow> 0 < b \<Longrightarrow> legal_action lo hi mx (Fin b) \<lparr>sa_frequency = Fin f, sa_tx_power = Fin p\<rparr> \<longleftrightarrow>
     lo \<le> f - b / 2 \<and> f + b / 2 \<le> hi \<and> p + 6 \<le> mx"
  by (simp add: legal_action_def)

lemma corrections_empty:
  "b \<le> hi - lo \<Longrightarrow> corrections_of lo hi mx b f p = [] \<longleftrightarrow> lo \<le> f - b / 2 \<and> f + b / 2 \<le> hi \<and> p + 6 \<le> mx"
  by (auto simp: corrections_of_def clip_frequency_def min_def max_def split: if_splits)

lemma fixed_when_legal:
  "lo \<le> f - b / 2 \<and> f + b / 2 \<le> hi \<and> p + 6 \<le> mx \<Longrightarrow> clip_frequency lo hi b f = f \<and> min p (mx - 6) = p" for p :: real
  by (auto simp: clip_frequency_def)

lemma dispose_payload:
  fixes gains
  defines "e \<equiv> \<lambda>pl lo hi mx b thr. exact_env pl gains lo hi mx (Fin b) thr"
  assumes ex: "exact pl" and lo: "0 \<le> lo" and b: "0 < b" "b \<le> hi - lo" and f: "0 < f"
  shows "\<exists>d. dispose pl (se_shield (e pl lo hi mx b thr)) did now tier seed prov
      (action_payload (e pl lo hi mx b thr) \<lparr>sa_frequency = Fin f, sa_tx_power = Fin p\<rparr>) Map.empty = Inr d \<and>
    safe_action d = action_payload (e pl lo hi mx b thr)
      \<lparr>sa_frequency = Fin (clip_frequency lo hi b f), sa_tx_power = Fin (min p (mx - 6))\<rparr> \<and>
    cert_corrections (disp_certificate d) = corrections_of lo hi mx b f p \<and>
    \<not> cert_emit_blocked (disp_certificate d) \<and> cert_safe (disp_certificate d)"
proof -
  let ?e = "e pl lo hi mx b thr"
  let ?a = "action_payload ?e \<lparr>sa_frequency = Fin f, sa_tx_power = Fin p\<rparr>"
  let ?a' = "action_payload ?e \<lparr>sa_frequency = Fin (clip_frequency lo hi b f), sa_tx_power = Fin (min p (mx - 6))\<rparr>"
  let ?sh = "mk_shield (exact_chain pl lo hi 0 mx (17 / 2) 1)"
  have sh: "se_shield ?e = ?sh" by (simp add: e_def)
  have bw: "se_bandwidth ?e = Fin b" by (simp add: e_def)
  have "\<forall>i \<in> set (invariants ?sh). holds i Map.empty ?a'"
    using chain_holds [OF ex, of lo hi mx "17 / 2" 1 Map.empty ?e] clip_legal [OF lo b, of mx f p] bw by simp
  from holds_all_clean [OF this] obtain ch where ch: "shield_check ?sh ?a' Map.empty = Inr ch" "list_all satisfied ch"
    by blast
  have legal: "(\<exists>ch. shield_check ?sh ?a Map.empty = Inr ch \<and> list_all satisfied ch) \<longleftrightarrow>
      lo \<le> f - b / 2 \<and> f + b / 2 \<le> hi \<and> p + 6 \<le> mx"
    using chain_holds [OF ex, of lo hi mx "17 / 2" 1 Map.empty ?e "\<lparr>sa_frequency = Fin f, sa_tx_power = Fin p\<rparr>"]
      clean_check_iff [of ?a Map.empty "invariants ?sh"] legal_fixed [OF f b(1)] bw
    by (simp add: shield_check_def holds_def)
  have "\<exists>ch0. shield_check ?sh ?a Map.empty = Inr ch0"
    by (simp add: shield_check_def exact_chain_def terrestrial.check_total)
  then obtain ch0 where ch0: "shield_check ?sh ?a Map.empty = Inr ch0" by blast
  have "\<exists>pr. dispose_loop ?sh Map.empty 8 ?a [] False = Inr (?a', corrections_of lo hi mx b f p, pr)"
  proof (cases "list_all satisfied ch0")
    case True
    then have l: "lo \<le> f - b / 2 \<and> f + b / 2 \<le> hi \<and> p + 6 \<le> mx" using legal ch0 by blast
    have "?a' = ?a" using fixed_when_legal [OF l] by (simp only:)
    moreover have "corrections_of lo hi mx b f p = []" using corrections_empty [OF b(2)] l by simp
    ultimately show ?thesis using loop_clean [OF ch0 True] by (intro exI [of _ False]) simp
  next
    case False
    have "dispose_loop ?sh Map.empty (Suc 7) ?a [] False =
        dispose_loop ?sh Map.empty 7 ?a' (corrections_of lo hi mx b f p) True"
      using False pass_payload [OF ex bw b f, of mx "17 / 2" 1 Map.empty p]
      unfolding dispose_loop.simps(2) ch0 bindE_Inr by simp
    moreover have "(8 :: nat) = Suc 7" by simp
    ultimately show ?thesis using loop_clean [OF ch] by (intro exI [of _ True]) (simp only:)
  qed
  then obtain pr where "dispose_loop ?sh Map.empty 8 ?a [] False = Inr (?a', corrections_of lo hi mx b f p, pr)" by blast
  then show ?thesis
    unfolding sh using ch by (simp add: dispose_def certify_safe_action no_unsatisfied)
qed

lemma guards_of_cert:
  assumes "\<not> cert_emit_blocked c" "cert_safe c"
  shows "run_guard_chain (Some c) True (Fin 1) None (Fin 100) \<noteq> [] \<longleftrightarrow> cert_corrections c \<noteq> []"
  using assms by (simp add: chain_empty_iff emit_conditions_def)

lemma env_act_closed:
  assumes ex: "exact pl" and lo: "0 \<le> lo" and b: "0 < b" "b \<le> hi - lo" and f: "0 < f"
  shows "\<exists>so. env_act pl (exact_env pl gains lo hi mx (Fin b) thr) did now
        \<lparr>sa_frequency = Fin f, sa_tx_power = Fin p\<rparr> = Inr so \<and>
      so_proposed so = \<lparr>sa_frequency = Fin f, sa_tx_power = Fin p\<rparr> \<and>
      so_executed so = \<lparr>sa_frequency = Fin (clip_frequency lo hi b f), sa_tx_power = Fin (min p (mx - 6))\<rparr> \<and>
      so_guard_refused so = (\<not> legal_action lo hi mx (Fin b) (so_proposed so)) \<and>
      legal_action lo hi mx (Fin b) (so_executed so)"
proof -
  let ?e = "exact_env pl gains lo hi mx (Fin b) thr"
  let ?x = "\<lparr>sa_frequency = Fin (clip_frequency lo hi b f), sa_tx_power = Fin (min p (mx - 6))\<rparr>"
  from dispose_payload [OF ex lo b f, where gains = gains and mx = mx and thr = thr and p = p and did = did and now = now
      and tier = "''non_rt''" and seed = None and prov = None] obtain d where
    d: "dispose pl (se_shield ?e) did now ''non_rt'' None None
        (action_payload ?e \<lparr>sa_frequency = Fin f, sa_tx_power = Fin p\<rparr>) Map.empty = Inr d"
    "safe_action d = action_payload ?e ?x" "cert_corrections (disp_certificate d) = corrections_of lo hi mx b f p"
    "\<not> cert_emit_blocked (disp_certificate d)" "cert_safe (disp_certificate d)" by blast
  have legal: "legal_action lo hi mx (Fin b) ?x" by (rule clip_legal [OF lo b])
  then have "\<not> Fin (clip_frequency lo hi b f) < se_lo ?e" "\<not> se_hi ?e < Fin (clip_frequency lo hi b f)"
    using b(1) by (auto simp: legal_action_def)
  then obtain r where r: "reward pl ?e ?x = Some r" by (simp add: reward_def subband_for_def)
  have "corrections_of lo hi mx b f p = [] \<longleftrightarrow>
      legal_action lo hi mx (Fin b) \<lparr>sa_frequency = Fin f, sa_tx_power = Fin p\<rparr>"
    using corrections_empty [OF b(2)] legal_fixed [OF f b(1)] by simp
  then show ?thesis
    using guards_of_cert [OF d(4,5)] d(3) legal
    unfolding env_act_def d(1) bindE_Inr d(2) by (simp add: getitem_float_def outcome_of_def r)
qed

text \<open>
  The closed loop in closed form: in exact arithmetic a finite proposal with a positive carrier is always
  executed at the nearest carrier whose occupied band is licensed and at the power the ceiling allows; what
  is executed is feasible, is the proposal itself exactly when that was feasible, and the step is marked
  \<open>guard_refused\<close> in every other case although the Shield authorised it.
\<close>

theorem step_executes_projection:
  assumes "exact pl" and "0 \<le> lo" and "0 < b" and "b \<le> hi - lo" and "0 < f"
  shows "\<exists>so. env_act pl (exact_env pl gains lo hi mx (Fin b) thr) did now
        \<lparr>sa_frequency = Fin f, sa_tx_power = Fin p\<rparr> = Inr so \<and>
      so_executed so = \<lparr>sa_frequency = Fin (clip_frequency lo hi b f), sa_tx_power = Fin (min p (mx - 6))\<rparr> \<and>
      env_feasible (exact_env pl gains lo hi mx (Fin b) thr) (so_executed so) = Inr True \<and>
      env_feasible (exact_env pl gains lo hi mx (Fin b) thr) (so_proposed so) = Inr (\<not> so_guard_refused so) \<and>
      (so_executed so = so_proposed so) = (\<not> so_guard_refused so)"
proof -
  from env_act_closed [OF assms, where gains = gains and mx = mx and thr = thr and p = p and did = did and now = now]
  obtain so where so: "env_act pl (exact_env pl gains lo hi mx (Fin b) thr) did now
        \<lparr>sa_frequency = Fin f, sa_tx_power = Fin p\<rparr> = Inr so"
      "so_proposed so = \<lparr>sa_frequency = Fin f, sa_tx_power = Fin p\<rparr>"
      "so_executed so = \<lparr>sa_frequency = Fin (clip_frequency lo hi b f), sa_tx_power = Fin (min p (mx - 6))\<rparr>"
      "so_guard_refused so = (\<not> legal_action lo hi mx (Fin b) (so_proposed so))"
      "legal_action lo hi mx (Fin b) (so_executed so)" by blast
  have "so_executed so = so_proposed so \<longleftrightarrow> legal_action lo hi mx (Fin b) (so_proposed so)"
    using fixed_when_legal [of lo f b hi p mx] legal_fixed [OF assms(5,3), of lo hi mx p] so(2,3,5) by auto
  then show ?thesis using so env_feasible_eq [OF assms(1)] by (intro exI [of _ so]) simp
qed

section \<open>The replay buffer\<close>

text \<open>
  The gate: transitions come only from a log whose rows are linked. A broken row, at whatever index, makes
  the whole load fail.
\<close>

lemma store_verify_cases: "store_verify sha c items = Inr k \<Longrightarrow> k = - 1 \<or> 0 \<le> k"
proof -
  have "verify_stream sha c i prevs items = Inr k \<Longrightarrow> 0 \<le> i \<Longrightarrow> k = - 1 \<or> 0 \<le> k" for i prevs
    by (induction sha c i prevs items rule: verify_stream.induct) (auto simp: bindE_eq_Inr split: if_splits)
  then show "store_verify sha c items = Inr k \<Longrightarrow> k = - 1 \<or> 0 \<le> k" by (simp add: store_verify_def)
qed

theorem replay_is_verified:
  assumes "load_transitions pl sha c tenant f = Inr ts" and "sha_ok sha" and "jsonl_iter c tenant f = map Inr rows"
  shows "intact sha c rows \<and> length ts \<le> length rows"
proof -
  have v: "store_verify sha c (map Inr rows) = Inr (- 1)" and r: "replay pl (map Inr rows) = Inr ts"
    using assms(1,3) by (auto simp: load_transitions_def bindE_eq_Inr split: if_splits)
  have "length ts \<le> length rows" using r
  proof (induction rows arbitrary: ts)
    case (Cons x rows)
    obtain q h where x: "x = (q, h)" by force
    show ?case
    proof (cases "\<not> has_item (dr_chosen_action q) ''requested_frequency_hz'' \<or> \<not> has_item (dr_chosen_action q) ''reward''")
      case True
      then show ?thesis using Cons.prems Cons.IH [of ts] x by auto
    next
      case False
      then show ?thesis using Cons.prems Cons.IH x by (auto simp: bindE_eq_Inr)
    qed
  qed simp
  moreover have "intact sha c rows" using v verify_intact [OF assms(2)] by (simp add: store_verify_map)
  ultimately show ?thesis by blast
qed

text \<open>A session of steps, all recorded in one file.\<close>

type_synonym step_input = "spectrum_action \<times> string \<times> step_args"

fun env_session ::
  "platform \<Rightarrow> sha \<Rightarrow> codec \<Rightarrow> string option \<Rightarrow> shielded_env \<Rightarrow> step_input list \<Rightarrow> jfile \<Rightarrow> (step_outcome list \<times> jfile) res" where
  "env_session pl sha c tenant e [] f = Inr ([], f)"
| "env_session pl sha c tenant e ((a, now, sa) # ins) f =
     bindE (shield_env_step pl sha c tenant e a now sa (Some f)) (\<lambda>(so, f').
     bindE (env_session pl sha c tenant e ins (the f')) (\<lambda>(sos, f''). Inr (so # sos, f'')))"

definition transition_from :: "step_args \<Rightarrow> step_outcome \<Rightarrow> transition" where
  "transition_from sa so =
     \<lparr>tr_decision_id = st_decision_id sa, tr_proposed_frequency = sa_frequency (so_proposed so),
      tr_proposed_power = sa_tx_power (so_proposed so), tr_executed_frequency = sa_frequency (so_executed so),
      tr_executed_power = sa_tx_power (so_executed so), tr_reward = so_reward so, tr_projected = so_projected so,
      tr_guard_refused = so_guard_refused so\<rparr>"

definition session_ops :: "string option \<Rightarrow> step_input list \<Rightarrow> step_outcome list \<Rightarrow> append_op list" where
  "session_ops tenant ins sos = map2 (\<lambda>(a, now, sa) so. (tenant, outcome_record sa so)) ins sos"

lemma session_appends:
  "env_session pl sha c tenant e ins f = Inr (sos, f') \<Longrightarrow>
     length sos = length ins \<and>
     runE (\<lambda>s (ctx, r). bindE (jsonl_append sha c ctx r s) (\<lambda>(s', h). Inr s')) f (session_ops tenant ins sos) = Inr f'"
proof (induction ins arbitrary: f sos)
  case (Cons x ins)
  obtain a now sa where x: "x = (a, now, sa)" by (cases x) auto
  from Cons.prems obtain so f1 h sos' where
    s: "env_act pl e (st_decision_id sa) now a = Inr so" "jsonl_append sha c tenant (outcome_record sa so) f = Inr (f1, h)"
    "env_session pl sha c tenant e ins f1 = Inr (sos', f')" "sos = so # sos'"
    by (auto simp: x shield_env_step_def bindE_eq_Inr)
  from Cons.IH [OF s(3)] s(2,4) show ?case by (simp add: session_ops_def x)
qed (simp add: session_ops_def)

lemma replay_record:
  assumes "dr_chosen_action r = dr_chosen_action (outcome_record sa so)" "dr_decision_id r = st_decision_id sa"
  shows "has_item (dr_chosen_action r) ''requested_frequency_hz''" "has_item (dr_chosen_action r) ''reward''"
    "transition_of pl r = Inr (transition_from sa so)"
  by (simp_all add: assms transition_of_def outcome_record_def has_item_def item_def transition_from_def)

text \<open>
  What the codec must do for a log to be replayable: read back what it wrote. Pydantic's JSON does for
  the records of a step, whose action holds strings, floats and booleans.
\<close>

definition reads_records :: "codec \<Rightarrow> append_op list \<Rightarrow> bool" where
  "reads_records c ops \<longleftrightarrow> list_all (\<lambda>(ctx, r). parse_record c (canonical_json c (stamp ctx r)) = Inr (stamp ctx r)) ops"

lemma reads_storable: "reads_records c ops \<Longrightarrow> storable_ops c ops"
  by (auto simp: reads_records_def storable_ops_def storable_def list_all_iff)

lemma spec_rows_stamped:
  "reads_records c ops \<Longrightarrow> map fst (spec_rows sha c ops) = map (\<lambda>(ctx, r). stamp ctx r) ops"
proof (induction ops rule: rev_induct)
  case (snoc op ops)
  then show ?case by (cases op) (simp add: reads_records_def spec_rows_snoc spec_append_def Let_def read_back_def)
qed simp

lemma replay_rows:
  "list_all2 (\<lambda>(r, h) (sa, so). dr_chosen_action r = dr_chosen_action (outcome_record sa so) \<and>
       dr_decision_id r = st_decision_id sa) rows outs \<Longrightarrow>
   replay pl (map Inr rows) = Inr (map (\<lambda>(sa, so). transition_from sa so) outs)"
proof (induction rows outs rule: list_all2_induct)
  case (Cons x xs y ys)
  obtain r h sa so where xy: "x = (r, h)" "y = (sa, so)" by (metis surj_pair)
  have "dr_chosen_action r = dr_chosen_action (outcome_record sa so)" "dr_decision_id r = st_decision_id sa"
    using Cons.hyps(1) by (simp_all add: xy)
  from replay_record [OF this] show ?case using Cons.IH by (simp add: xy)
qed simp

text \<open>
  C35. What was learned from is what happened: after any session of steps recorded in a new file, replaying
  the file in the same scope yields the proposed and the executed action, the reward and the flags of
  every step, in order.
\<close>

theorem replay_roundtrip:
  assumes "sha_ok sha" and "env_session pl sha c tenant e ins [] = Inr (sos, f)"
    and "reads_records c (session_ops tenant ins sos)" and "tenant \<noteq> Some []"
  shows "load_transitions pl sha c tenant f =
           Inr (map2 (\<lambda>(a, now, sa) so. transition_from sa so) ins sos)"
proof -
  let ?ops = "session_ops tenant ins sos"
  let ?rows = "spec_rows sha c ?ops"
  have len: "length sos = length ins" and app: "jsonl_appends sha c ?ops = Inr f"
    using session_appends [OF assms(2)] by (simp_all add: jsonl_appends_def)
  note st = reads_storable [OF assms(3)]
  from jsonl_refines [OF assms(1) st] app have f: "jfile_ok c f" "jrows c f = ?rows" by auto
  have int: "intact sha c ?rows" by (rule spec_intact [OF assms(1) st])
  have stamped: "map fst ?rows = map (\<lambda>(ctx, r). stamp ctx r) ?ops" by (rule spec_rows_stamped [OF assms(3)])
  have tenants: "tenant_of r = resolve_tenant tenant" if "(r, h) \<in> set ?rows" for r h
  proof -
    have "r \<in> set (map fst ?rows)" using that by force
    then have "r \<in> set (map (\<lambda>(ctx, r). stamp ctx r) ?ops)" by (simp only: stamped)
    then obtain sa so where "r = stamp tenant (outcome_record sa so)" by (auto simp: session_ops_def)
    then show ?thesis by (simp add: stamp_def outcome_record_def tenant_of_def resolve_tenant_def UNSCOPED_TENANT_def)
  qed
  have it: "jsonl_iter c tenant f = map Inr ?rows"
  proof (cases tenant)
    case (Some t)
    then have "of_tenant t ?rows = ?rows"
      using tenants assms(4) by (auto simp: of_tenant_def resolve_tenant_def or_tenant_def intro!: filter_True)
    then show ?thesis using jsonl_iter_rows [OF f(1), of tenant] f(2) Some by simp
  qed (use jsonl_iter_rows [OF f(1), of tenant] f(2) in simp)
  have "jsonl.good sha c f" using f int jsonl_iter_rows [OF f(1), of None] by (auto simp: jsonl.good_def)
  then have ver: "store_verify sha c (map Inr ?rows) = Inr (- 1)"
    using jsonl.good_verifies [OF assms(1), of c f tenant] it by simp
  have "list_all2 (\<lambda>(r, h) (sa, so). dr_chosen_action r = dr_chosen_action (outcome_record sa so) \<and>
       dr_decision_id r = st_decision_id sa) ?rows (map2 (\<lambda>(a, now, sa) so. (sa, so)) ins sos)"
  proof (rule list_all2_all_nthI)
    have "length ?rows = length ?ops" using stamped by (metis length_map)
    then show lr: "length ?rows = length (map2 (\<lambda>(a, now, sa) so. (sa, so)) ins sos)"
      by (simp add: session_ops_def)
    fix i assume i: "i < length ?rows"
    then have i': "i < length ins" "i < length sos" "i < length ?ops" using lr len by (simp_all add: session_ops_def)
    have "fst (?rows ! i) = map fst ?rows ! i" using i by simp
    also have "\<dots> = (\<lambda>(ctx, r). stamp ctx r) (?ops ! i)" using i'(3) by (simp add: stamped)
    finally have "fst (?rows ! i) = (\<lambda>(a, now, sa). stamp tenant (outcome_record sa (sos ! i))) (ins ! i)"
      using i' by (simp add: session_ops_def case_prod_beta)
    then show "(\<lambda>(r, h) (sa, so). dr_chosen_action r = dr_chosen_action (outcome_record sa so) \<and>
       dr_decision_id r = st_decision_id sa) (?rows ! i) (map2 (\<lambda>(a, now, sa) so. (sa, so)) ins sos ! i)"
      using i' by (simp add: case_prod_beta stamp_def outcome_record_def)
  qed
  from replay_rows [OF this, of pl] show ?thesis
    unfolding load_transitions_def it ver by (simp add: case_prod_beta comp_def)
qed

section \<open>The optimum is a bound\<close>

lemma np_argmin_from_less: "best < k \<Longrightarrow> np_argmin_from k best x ys < k + length ys"
proof (induction ys arbitrary: k best x)
  case (Cons y ys)
  then show ?case using Cons.IH [of k "k + 1" y] Cons.IH [of best "k + 1" x] by simp
qed simp

lemma np_argmin_less: "xs \<noteq> [] \<Longrightarrow> np_argmin xs < length xs"
  using np_argmin_from_less [of 0 1] by (cases xs) (auto simp: np_argmin_def)

lemma subband_less: "subband_for pl e f = Some b \<Longrightarrow> b < N_SUBBANDS"
  using np_argmin_less [of "map (\<lambda>b. fabs (fsub pl (subband_center_hz pl b) f)) [0..<N_SUBBANDS]"]
  by (auto simp: subband_for_def N_SUBBANDS_def split: if_splits)

lemma center_exact: "exact pl \<Longrightarrow> subband_center_hz pl b = Fin (3450000000 + (real b + 1 / 2) * (50000000 / 3))"
  by (simp add: subband_center_hz_def BAND_LO_HZ_def BAND_HI_HZ_def N_SUBBANDS_def float_of_nat_def)

abbreviation default_env :: "platform \<Rightarrow> pyfloat list list \<Rightarrow> pyfloat \<Rightarrow> shielded_env" where
  "default_env pl gains thr \<equiv> exact_env pl gains 3450000000 3550000000 33 (Fin 20000000) thr"

text \<open>The frequency of a subband's centre is nearest to that centre.\<close>

lemma center_subband:
  assumes "exact pl" "b < N_SUBBANDS"
  shows "subband_for pl (default_env pl gains thr) (subband_center_hz pl b) = Some b"
proof -
  have "b = 0 \<or> b = 1 \<or> b = 2 \<or> b = 3 \<or> b = 4 \<or> b = 5" using assms(2) by (auto simp: N_SUBBANDS_def)
  moreover have six: "[0..<N_SUBBANDS] = [0, 1, 2, 3, 4, 5]" by (simp add: N_SUBBANDS_def upt_rec)
  ultimately show ?thesis
    using assms(1)
    by (elim disjE) (simp_all add: subband_for_def center_exact six np_argmin_def)
qed

lemma served_mono:
  assumes "p \<le> (q :: real)" "\<forall>row \<in> set gains. isfinite (row ! b)" "exact pl"
  shows "length (filter (\<lambda>x. x) (map (\<lambda>row. thr \<le> fsub pl (fadd pl (Fin p) (row ! b)) (Fin n)) gains)) \<le>
         length (filter (\<lambda>x. x) (map (\<lambda>row. thr \<le> fsub pl (fadd pl (Fin q) (row ! b)) (Fin n)) gains))"
  using assms(2)
proof (induction gains)
  case (Cons row gains)
  then obtain g where g: "row ! b = Fin g" by (cases "row ! b") auto
  have "thr \<le> Fin (p + g - n) \<Longrightarrow> thr \<le> Fin (q + g - n)" using assms(1) by (cases thr) auto
  then show ?case using Cons g assms(3) by auto
qed simp

lemma foldl_fmax_bound:
  assumes "\<And>b. b \<in> set bs \<Longrightarrow> \<exists>r. g b = Some (Fin r)"
  shows "\<exists>m. foldl (\<lambda>best b. case g b of None \<Rightarrow> best | Some v \<Rightarrow> fmax best v) (Fin x) bs = Fin m \<and> x \<le> m \<and>
           (\<forall>b \<in> set bs. \<forall>r. g b = Some (Fin r) \<longrightarrow> r \<le> m)"
  using assms
proof (induction bs arbitrary: x)
  case (Cons b bs)
  obtain r where r: "g b = Some (Fin r)" using Cons.prems [of b] by auto
  have pr: "\<And>c. c \<in> set bs \<Longrightarrow> \<exists>r. g c = Some (Fin r)" using Cons.prems by simp
  from Cons.IH [OF pr, of "max x r"] r show ?case by auto
qed simp

theorem feasible_reward_bounded:
  assumes ex: "exact pl" and gains: "load_gain_matrix rows = Inr gains"
    and ok: "env_feasible (default_env pl gains thr) a = Inr True"
  shows "\<exists>r m. reward pl (default_env pl gains thr) a = Some (Fin r) \<and>
    optimal_feasible_reward pl (default_env pl gains thr) = Fin m \<and> r \<le> m"
proof -
  let ?e = "default_env pl gains thr"
  from gains have gne: "gains \<noteq> []" and fin: "\<forall>row \<in> set gains. length row = N_SUBBANDS \<and> list_all isfinite row"
    by (auto simp: load_gain_matrix_def list_all_iff split: if_splits)
  obtain n where n: "se_noise ?e = Fin n"
    using ex by (simp add: exact_env_def shielded_env_init_def NOISE_FIGURE_DB_def)
  define count where "count p b = length (filter (\<lambda>x. x)
      (map (\<lambda>row. thr \<le> fsub pl (fadd pl (Fin p) (row ! b)) (Fin n)) gains))" for p b
  have finb: "\<forall>row \<in> set gains. isfinite (row ! b)" if "b < N_SUBBANDS" for b
    using fin that by (auto simp: list_all_length)
  have rw: "reward pl ?e \<lparr>sa_frequency = f, sa_tx_power = Fin p\<rparr> = Some (Fin (real (count (p + 6) b) / real (length gains)))"
    if "subband_for pl ?e f = Some b" for f p b
    using that ex gne n by (simp add: reward_def bool_mean_def eirp_dbm_def ANTENNA_GAIN_DBI_def count_def)
  from ok have "legal_action 3450000000 3550000000 33 (Fin 20000000) a" by (simp add: env_feasible_eq [OF ex])
  then obtain f p where fp: "sa_frequency a = Fin f" "sa_tx_power a = Fin p" "3450000000 \<le> f - 10000000"
    "f + 10000000 \<le> 3550000000" "p + 6 \<le> 33" by (auto simp: legal_action_def)
  obtain b where b: "subband_for pl ?e (Fin f) = Some b" using fp by (simp add: subband_for_def)
  have b6: "b < N_SUBBANDS" by (rule subband_less [OF b])
  have a: "a = \<lparr>sa_frequency = Fin f, sa_tx_power = Fin p\<rparr>" using fp(1,2) by simp
  let ?g = "\<lambda>b. reward pl ?e \<lparr>sa_frequency = subband_center_hz pl b, sa_tx_power = fsub pl (se_max_eirp ?e) ANTENNA_GAIN_DBI\<rparr>"
  have g: "?g c = Some (Fin (real (count 33 c) / real (length gains)))" if "c < N_SUBBANDS" for c
    using rw [OF center_subband [OF ex that], of 27] ex by (simp add: ANTENNA_GAIN_DBI_def)
  obtain m where m: "optimal_feasible_reward pl ?e = Fin m"
    "\<forall>c \<in> set [0..<N_SUBBANDS]. \<forall>r. ?g c = Some (Fin r) \<longrightarrow> r \<le> m"
    using foldl_fmax_bound [of "[0..<N_SUBBANDS]" ?g 0] g unfolding optimal_feasible_reward_def by auto
  have "count (p + 6) b \<le> count 33 b" unfolding count_def by (rule served_mono [OF fp(5) finb [OF b6] ex])
  then have "real (count (p + 6) b) / real (length gains) \<le> real (count 33 b) / real (length gains)"
    by (intro divide_right_mono) auto
  also have "\<dots> \<le> m" using m(2) g [OF b6] b6 by auto
  finally show ?thesis using rw [OF b, of p] a m(1) by auto
qed

section \<open>Witnesses\<close>


theorem step_executes_projection_witness:
  "\<exists>so. env_act exact_platform (default_env exact_platform [[Fin 0, Fin 0, Fin 0, Fin 0, Fin 0, Fin 0]] (Fin 0)) ''d'' ''now''
        \<lparr>sa_frequency = Fin 3400000000, sa_tx_power = Fin 40\<rparr> = Inr so \<and>
      so_executed so = \<lparr>sa_frequency = Fin 3460000000, sa_tx_power = Fin 27\<rparr>"
  using step_executes_projection [OF exact_exact_platform, of 3450000000 20000000 3550000000 3400000000
      "[[Fin 0, Fin 0, Fin 0, Fin 0, Fin 0, Fin 0]]" 33 "Fin 0" "''d''" "''now''" 40]
  by (auto simp: clip_frequency_def)

theorem feasible_reward_bounded_witness:
  "\<exists>r m. reward exact_platform (default_env exact_platform [[Fin (- 100), Fin 0, Fin 0, Fin 0, Fin 0, Fin 0]] (Fin 0))
       \<lparr>sa_frequency = Fin 3460000000, sa_tx_power = Fin 20\<rparr> = Some (Fin r) \<and>
     optimal_feasible_reward exact_platform (default_env exact_platform [[Fin (- 100), Fin 0, Fin 0, Fin 0, Fin 0, Fin 0]] (Fin 0)) =
       Fin m \<and> r \<le> m"
  by (rule feasible_reward_bounded [where rows = "[[Fin (- 100), Fin 0, Fin 0, Fin 0, Fin 0, Fin 0]]"])
    (simp_all add: load_gain_matrix_def N_SUBBANDS_def env_feasible_eq legal_action_def)

definition demo_args :: step_args where
  "demo_args = \<lparr>st_decision_id = ''d1'', st_timestamp = ''t'', st_rapp = ''r'', st_label = ''learner'', st_state_hash = ''h''\<rparr>"

definition one_record_codec :: "decision_record \<Rightarrow> codec" where
  "one_record_codec r = \<lparr>canonical_json = (\<lambda>_. ''x''), parse_record = (\<lambda>_. Inr r), json_tenant = (\<lambda>_. None)\<rparr>"

lemma demo_session:
  "\<exists>so f. let c = one_record_codec (stamp None (outcome_record demo_args so)) in
     env_session exact_platform demo_sha c None (default_env exact_platform [[Fin 0, Fin 0, Fin 0, Fin 0, Fin 0, Fin 0]] (Fin 0))
       [(\<lparr>sa_frequency = Fin 3400000000, sa_tx_power = Fin 40\<rparr>, ''now'', demo_args)] [] = Inr ([so], f) \<and>
     reads_records c (session_ops None [(\<lparr>sa_frequency = Fin 3400000000, sa_tx_power = Fin 40\<rparr>, ''now'', demo_args)] [so])"
proof -
  obtain so where so: "env_act exact_platform (default_env exact_platform [[Fin 0, Fin 0, Fin 0, Fin 0, Fin 0, Fin 0]] (Fin 0))
      ''d1'' ''now'' \<lparr>sa_frequency = Fin 3400000000, sa_tx_power = Fin 40\<rparr> = Inr so"
    using env_act_closed [OF exact_exact_platform, of 3450000000 20000000 3550000000 3400000000] by fastforce
  let ?c = "one_record_codec (stamp None (outcome_record demo_args so))"
  have "\<exists>f h. jsonl_append demo_sha ?c None (outcome_record demo_args so) [] = Inr (f, h)"
    using chain_total [OF ZERO_digest, where x = "''x''" and sha = demo_sha]
    by (auto simp: jsonl_append_def Let_def jsonl_last_hash_def one_record_codec_def)
  then obtain f h where f: "jsonl_append demo_sha ?c None (outcome_record demo_args so) [] = Inr (f, h)" by blast
  have "st_decision_id demo_args = ''d1''" by (simp add: demo_args_def)
  then show ?thesis
    using so f
    by (intro exI [of _ so] exI [of _ f])
      (simp add: shield_env_step_def Let_def reads_records_def session_ops_def, simp add: one_record_codec_def)
qed

theorem replay_roundtrip_witness:
  "\<exists>so c f. load_transitions exact_platform demo_sha c None f = Inr [transition_from demo_args so]"
proof -
  obtain so f where s: "env_session exact_platform demo_sha (one_record_codec (stamp None (outcome_record demo_args so))) None
      (default_env exact_platform [[Fin 0, Fin 0, Fin 0, Fin 0, Fin 0, Fin 0]] (Fin 0))
      [(\<lparr>sa_frequency = Fin 3400000000, sa_tx_power = Fin 40\<rparr>, ''now'', demo_args)] [] = Inr ([so], f)"
    "reads_records (one_record_codec (stamp None (outcome_record demo_args so)))
      (session_ops None [(\<lparr>sa_frequency = Fin 3400000000, sa_tx_power = Fin 40\<rparr>, ''now'', demo_args)] [so])"
    using demo_session by (auto simp: Let_def)
  from replay_roundtrip [OF demo_sha_ok s] show ?thesis by auto
qed

theorem replay_is_verified_witness: "load_transitions exact_platform demo_sha demo_codec None [] = Inr [] \<and> intact demo_sha demo_codec []"
proof -
  have l: "load_transitions exact_platform demo_sha demo_codec None [] = Inr []"
    by (simp add: load_transitions_def store_verify_def)
  with replay_is_verified [OF l demo_sha_ok, of "[]"] show ?thesis by simp
qed

end
