(* ===== verification/DsaDecision.thy ===== *)
theory DsaDecision
  imports FedQ ShieldRepair EvidenceProps Json
begin

text \<open>
  One decision of the federated spectrum policy (\<open>spectrum/pipeline.py\<close>): the greedy channel becomes a
  carrier, the Shield disposes it, and the record with the certificate is appended to an evidence store.
  The store's append is an argument, SHA-256 and the clock are parameters; a dictionary's order and the
  certificate's human-readable texts are left out.
\<close>

section \<open>The action\<close>

record channel_plan =
  plan_lo :: pyfloat
  plan_hi :: pyfloat
  plan_channels :: int
  plan_bw :: pyfloat

definition channel_center_hz :: "platform \<Rightarrow> channel_plan \<Rightarrow> nat \<Rightarrow> pyfloat res" where
  "channel_center_hz pl plan channel =
     bindE (int_to_float pl (plan_channels plan)) (\<lambda>k.
     bindE (fdiv pl (fsub pl (plan_hi plan) (plan_lo plan)) k) (\<lambda>sub_w.
       Inr (fadd pl (plan_lo plan) (fmul pl sub_w (fadd pl (rnd pl (real channel)) (Fin (1 / 2)))))))"

record dsa_decision_config =
  dd_band_lo :: pyfloat
  dd_band_hi :: pyfloat
  dd_carrier_bw :: pyfloat
  dd_max_eirp :: pyfloat
  dd_antenna_gain :: pyfloat
  dd_rapp :: string

definition dsa_decision_default :: dsa_decision_config where
  "dsa_decision_default = \<lparr>dd_band_lo = Fin 3400000000, dd_band_hi = Fin 3500000000, dd_carrier_bw = Fin 20000000,
     dd_max_eirp = Fin 33, dd_antenna_gain = Fin 6, dd_rapp = ''dsa-fed-rapp-1''\<rparr>"

definition policy_action :: "nat \<Rightarrow> bool \<Rightarrow> pyfloat \<Rightarrow> channel_plan \<Rightarrow> pyfloat \<Rightarrow> dsa_decision_config \<Rightarrow> action" where
  "policy_action channel emit freq plan pwr cfg =
     [''block'' \<mapsto> VStr ''fed_dsa_policy'', ''dsa_channel'' \<mapsto> VInt (int channel), ''emit'' \<mapsto> VBool emit,
      ''frequency_hz'' \<mapsto> VFloat freq, ''bandwidth_hz'' \<mapsto> VFloat (plan_bw plan), ''tx_power_dBm'' \<mapsto> VFloat pwr,
      ''antenna_gain_dBi'' \<mapsto> VFloat (dd_antenna_gain cfg)]"

definition action_from_policy ::
  "platform \<Rightarrow> qtable \<Rightarrow> nat \<Rightarrow> channel_plan \<Rightarrow> dsa_decision_config \<Rightarrow> pyfloat \<Rightarrow> (nat \<times> action) res" where
  "action_from_policy pl q obs plan cfg pwr =
     bindE (greedy_action q obs) (\<lambda>a.
       if plan_channels plan \<le> int a then
         Inr (a, policy_action a False (fadd pl (plan_lo plan) (fhalf pl (fsub pl (plan_hi plan) (plan_lo plan)))) plan pwr cfg)
       else bindE (channel_center_hz pl plan a) (\<lambda>f. Inr (a, policy_action a True f plan pwr cfg)))"

section \<open>The decision\<close>

definition dsa_model_versions :: "string \<Rightarrow> model_versions" where
  "dsa_model_versions meth =
     \<lparr>mv_encoder = ''dsa-tabular-q-1'', mv_risk_heads = ''n/a'', mv_dyna = ''dsa-gilbert-elliott-1'',
      mv_policy = ''fed-dsa-'' @ meth, mv_constraint_layer = ''shield-terrestrial-1'', mv_rapp = ''horizon-dsa-1''\<rparr>"

text \<open>\<open>json.dumps\<close> with sorted keys and compact separators.\<close>

definition state_payload :: "nat \<Rightarrow> nat \<Rightarrow> string" where
  "state_payload obs channel =
     ''{'' @ [CHR 0x22] @ ''channel'' @ [CHR 0x22] @ '':'' @ int_str (int channel) @
     '','' @ [CHR 0x22] @ ''obs'' @ [CHR 0x22] @ '':'' @ int_str (int obs) @ ''}''"

definition dsa_state_hash :: "sha \<Rightarrow> nat \<Rightarrow> nat \<Rightarrow> string" where
  "dsa_state_hash sha obs channel = sha (utf8 (state_payload obs channel))"

definition action_keys :: "string list" where
  "action_keys = [''block'', ''dsa_channel'', ''emit'', ''frequency_hz'', ''bandwidth_hz'', ''tx_power_dBm'',
     ''antenna_gain_dBi'', ''emit_blocked'', ''shield_fallback_to'', ''predicted_tbler'']"

definition action_items :: "action \<Rightarrow> (string \<times> pyval) list" where
  "action_items a = List.map_filter (\<lambda>k. map_option (Pair k) (a k)) action_keys"

definition opt_float :: "pyfloat option \<Rightarrow> pyval" where
  "opt_float m = (case m of None \<Rightarrow> VNone | Some x \<Rightarrow> VFloat x)"

definition opt_str :: "string option \<Rightarrow> pyval" where
  "opt_str m = (case m of None \<Rightarrow> VNone | Some x \<Rightarrow> VStr x)"

definition certificate_dict :: "certificate \<Rightarrow> (string \<times> pyval) list option \<Rightarrow> pyval" where
  "certificate_dict c prov = VDict
     [(''decision_id'', VStr (cert_decision_id c)), (''issued_at'', VStr (cert_issued_at c)),
      (''loop_tier'', VStr (cert_loop_tier c)), (''block'', VStr (cert_block c)),
      (''action_proposed'', VDict (action_items (cert_action_proposed c))),
      (''action_safe'', VDict (action_items (cert_action_safe c))),
      (''invariants'', VList (map (\<lambda>k. VDict [(''invariant_id'', VStr (invariant_id k)), (''satisfied'', VBool (satisfied k)),
         (''margin'', opt_float (margin k)), (''unit'', VStr (margin_unit k))]) (cert_invariants c))),
      (''corrections'', VList (map (\<lambda>v. VDict [(''constraint_id'', VStr (constraint_id v)), (''severity'', VStr (severity v)),
         (''margin_dB'', opt_float (margin_dB v))]) (cert_corrections c))),
      (''violated_ids'', VList (map VStr (cert_violated_ids c))), (''projected'', VBool (cert_projected c)),
      (''fallback_used'', VBool (cert_fallback_used c)), (''fallback_to'', cert_fallback_to c),
      (''safe'', VBool (cert_safe c)), (''emit_blocked'', VBool (cert_emit_blocked c)),
      (''min_margin_dB'', opt_float (min_margin_dB c)),
      (''rng_seed'', case cert_rng_seed c of None \<Rightarrow> VNone | Some n \<Rightarrow> VInt n),
      (''model_provenance'', case prov of None \<Rightarrow> VNone | Some d \<Rightarrow> VDict d),
      (''signature'', opt_str (cert_signature c)), (''signing_key_fingerprint'', opt_str (cert_signing_key_fingerprint c))]"

definition correction_of :: "violation \<Rightarrow> constraint_correction" where
  "correction_of v =
     \<lparr>cc_constraint_id = constraint_id v, cc_severity = (if severity v = ''soft'' then Soft else Hard),
      cc_margin_dB = margin_dB v, cc_message = []\<rparr>"

definition dsa_record ::
  "sha \<Rightarrow> dsa_decision_config \<Rightarrow> string \<Rightarrow> string \<Rightarrow> int \<Rightarrow> string \<Rightarrow> nat \<Rightarrow> nat \<Rightarrow> disposition \<Rightarrow>
   (string \<times> pyval) list option \<Rightarrow> decision_record" where
  "dsa_record sha cfg did now seed meth obs channel disp prov =
     (let cert = disp_certificate disp in
      \<lparr>dr_decision_id = did, dr_timestamp = now, dr_rapp_instance_id = dd_rapp cfg, dr_tenant_id = None,
       dr_state_hash = dsa_state_hash sha obs channel, dr_state_blob_uri = None,
       dr_chosen_action = VDict (action_items (safe_action disp) @ [(''safety_certificate'', certificate_dict cert prov)]),
       dr_predicted = \<lparr>sla_risk_30s = Fin 0, sla_risk_1min = Fin 0, sla_risk_5min = Fin 0, gateway_loads = [],
         ntn_capacity_used = Fin 0, energy_kwh = Fin 0, po_constraint_violations = cert_violated_ids cert\<rparr>,
       dr_rejected = [], dr_corrections = map correction_of (cert_corrections cert),
       dr_model_versions = dsa_model_versions meth, dr_random_seed = Some seed, dr_actual_30s = None,
       dr_actual_1min = None, dr_actual_5min = None, dr_operator_override = False, dr_override_reason = None,
       dr_sla_breach_context = None\<rparr>)"

record dsa_result =
  dsa_safe_action :: action
  dsa_certificate :: certificate
  dsa_decision_record :: decision_record
  dsa_chain_hash :: "string option"

definition decide_and_record ::
  "platform \<Rightarrow> sha \<Rightarrow> (decision_record \<Rightarrow> 's \<Rightarrow> ('s \<times> string) res) \<Rightarrow> qtable \<Rightarrow> nat \<Rightarrow> dsa_decision_config \<Rightarrow> shield option \<Rightarrow>
   's option \<Rightarrow> string \<Rightarrow> pyfloat \<Rightarrow> string \<Rightarrow> string \<Rightarrow> int \<Rightarrow> (string \<times> pyval) list option \<Rightarrow> (dsa_result \<times> 's option) res" where
  "decide_and_record pl sha put q obs cfg shield evidence meth pwr did now seed prov =
     (if q = [] then Inl IndexError
      else
        let plan = \<lparr>plan_lo = dd_band_lo cfg, plan_hi = dd_band_hi cfg, plan_channels = int (length (hd q)) - 1,
                    plan_bw = dd_carrier_bw cfg\<rparr>;
            sh = (case shield of Some s \<Rightarrow> s
                  | None \<Rightarrow> default_terrestrial_shield pl (dd_band_lo cfg) (dd_band_hi cfg) (dd_max_eirp cfg) None
                              (Fin (17 / 2)) (Fin 1) (Fin 0))
        in bindE (action_from_policy pl q obs plan cfg pwr) (\<lambda>(channel, proposed).
           bindE (dispose pl sh did now ''near_rt'' (Some seed) (map_option map_of prov) proposed Map.empty) (\<lambda>disp.
             let record = dsa_record sha cfg did now seed meth obs channel disp prov;
                 result = (\<lambda>h. \<lparr>dsa_safe_action = safe_action disp, dsa_certificate = disp_certificate disp,
                               dsa_decision_record = record, dsa_chain_hash = h\<rparr>)
             in case evidence of
                  None \<Rightarrow> Inr (result None, None)
                | Some s \<Rightarrow> bindE (put record s) (\<lambda>(s', h). Inr (result (Some h), Some s')))))"

section \<open>A poisoned policy cannot emit illegally\<close>

lemma decide_parts:
  assumes "decide_and_record pl sha put q obs cfg None evidence meth pwr did now seed prov = Inr (r, s')"
  obtains channel proposed disp where
    "action_from_policy pl q obs \<lparr>plan_lo = dd_band_lo cfg, plan_hi = dd_band_hi cfg,
        plan_channels = int (length (hd q)) - 1, plan_bw = dd_carrier_bw cfg\<rparr> cfg pwr = Inr (channel, proposed)"
    "dispose pl (default_terrestrial_shield pl (dd_band_lo cfg) (dd_band_hi cfg) (dd_max_eirp cfg) None
        (Fin (17 / 2)) (Fin 1) (Fin 0)) did now ''near_rt'' (Some seed) (map_option map_of prov) proposed Map.empty = Inr disp"
    "dsa_safe_action r = safe_action disp" "dsa_certificate r = disp_certificate disp"
    "dsa_decision_record r = dsa_record sha cfg did now seed meth obs channel disp prov"
  using assms by (auto simp: decide_and_record_def Let_def bindE_eq_Inr split: if_splits option.splits)


lemma greedy_ok: "qtable_ok ns na q \<Longrightarrow> 0 < na \<Longrightarrow> obs < ns \<Longrightarrow> \<exists>a < na. greedy_action q obs = Inr a"
  using table_rowD [of ns na q obs] argmax_less [of "q ! obs"] by (auto simp: greedy_action_def at_index_def)

lemma policy_action_ok:
  assumes ex: "exact pl" and v: "0 < f" "0 < b" "plan_bw plan = Fin b" "dd_antenna_gain cfg = Fin g"
  shows "sanity_problems pl (policy_action ch em (Fin f) plan (Fin p) cfg) = []"
    "\<not> blocked (policy_action ch em (Fin f) plan (Fin p) cfg)"
    "order_numeric (policy_action ch em (Fin f) plan (Fin p) cfg)"
    "fget pl (policy_action ch em (Fin f) plan (Fin p) cfg) ''bandwidth_hz'' (Fin 0) = Inr (Fin b)"
proof -
  have num: "number pl (VFloat (Fin x)) = Some x" for x by (simp add: number_def)
  show "sanity_problems pl (policy_action ch em (Fin f) plan (Fin p) cfg) = []"
    using v by (simp add: sane_iff req_field_bad_def opt_field_bad_def num policy_action_def)
qed (use v in \<open>simp_all add: policy_action_def blocked_def order_numeric_def fget_def\<close>)

lemma action_from_policy_ok:
  assumes ex: "exact pl" and q: "qtable_ok ns na q" "0 < na" "obs < ns"
    and plan: "plan = \<lparr>plan_lo = Fin lo, plan_hi = Fin hi, plan_channels = int na - 1, plan_bw = Fin b\<rparr>"
    and band: "0 \<le> lo" "lo < hi"
  shows "\<exists>ch em f. action_from_policy pl q obs plan cfg (Fin p) = Inr (ch, policy_action ch em (Fin f) plan (Fin p) cfg) \<and>
           0 < f \<and> em = (ch < na - 1) \<and> greedy_action q obs = Inr ch \<and>
           (em \<longrightarrow> f = lo + (hi - lo) / real (na - 1) * (real ch + 1 / 2))"
proof -
  obtain a where a: "a < na" "greedy_action q obs = Inr a" using greedy_ok [OF q] by blast
  show ?thesis
  proof (cases "int na - 1 \<le> int a")
    case True
    have "0 < (hi - lo) / 2" using band(2) by simp
    then have "0 < lo + (hi - lo) / 2" using band(1) by (rule add_nonneg_pos [rotated])
    then show ?thesis using True a ex
      by (intro exI [of _ a] exI [of _ False] exI [of _ "lo + (hi - lo) / 2"]) (auto simp: action_from_policy_def plan)
  next
    case False
    then have na: "0 < na - 1" "a < na - 1" by linarith+
    let ?f = "lo + (hi - lo) / real (na - 1) * (real a + 1 / 2)"
    have "0 < (hi - lo) / real (na - 1) * (real a + 1 / 2)"
      using band na by (intro mult_pos_pos divide_pos_pos) auto
    then have "0 < ?f" using band(1) by (rule add_nonneg_pos [rotated])
    moreover have "real_of_int (int na - 1) = real (na - 1)" using na by (simp add: of_nat_diff)
    then have "channel_center_hz pl plan a = Inr (Fin ?f)"
      using ex na by (simp add: channel_center_hz_def plan int_to_float_def)
    ultimately show ?thesis using False a na
      by (intro exI [of _ a] exI [of _ True] exI [of _ ?f]) (simp add: action_from_policy_def plan)
  qed
qed

text \<open>
  Nor can a poisoned policy silence the rApp: in exact arithmetic every decision over a table of the right
  shape is disposed without a block, however the table was poisoned and whatever finite power is asked for.
\<close>

theorem poisoned_policy_never_blocks:
  assumes "exact pl" and "qtable_ok ns na q" and "0 < na" and "obs < ns"
    and "0 \<le> lo" and "0 < b" and "b \<le> hi - lo"
  shows "\<exists>r. decide_and_record pl sha put q obs
           \<lparr>dd_band_lo = Fin lo, dd_band_hi = Fin hi, dd_carrier_bw = Fin b, dd_max_eirp = Fin mx, dd_antenna_gain = Fin g, dd_rapp = rapp\<rparr>
           None None meth (Fin p) did now seed prov = Inr (r, None) \<and>
         \<not> cert_emit_blocked (dsa_certificate r)"
proof -
  let ?cfg = "\<lparr>dd_band_lo = Fin lo, dd_band_hi = Fin hi, dd_carrier_bw = Fin b, dd_max_eirp = Fin mx,
      dd_antenna_gain = Fin g, dd_rapp = rapp\<rparr>"
  let ?plan = "\<lparr>plan_lo = Fin lo, plan_hi = Fin hi, plan_channels = int na - 1, plan_bw = Fin b\<rparr>"
  have "q \<noteq> []" using assms(2,4) by (auto simp: qtable_ok_def)
  then have hd: "length (hd q) = na" using assms(2) by (cases q) (auto simp: qtable_ok_def)
  have "lo < hi" using assms(6,7) by linarith
  from action_from_policy_ok [OF assms(1-4) refl assms(5) this, where cfg = ?cfg and p = p and b = b] obtain ch em f where
    act: "action_from_policy pl q obs ?plan ?cfg (Fin p) = Inr (ch, policy_action ch em (Fin f) ?plan (Fin p) ?cfg)"
      "0 < f" by blast
  have ok: "sanity_problems pl (policy_action ch em (Fin f) ?plan (Fin p) ?cfg) = []"
    "\<not> blocked (policy_action ch em (Fin f) ?plan (Fin p) ?cfg)"
    "order_numeric (policy_action ch em (Fin f) ?plan (Fin p) ?cfg)"
    "fget pl (policy_action ch em (Fin f) ?plan (Fin p) ?cfg) ''bandwidth_hz'' (Fin 0) = Inr (Fin b)"
    using policy_action_ok [OF assms(1) act(2) assms(6), of ?plan ?cfg g ch em p] by simp_all
  have "measurement_ok pl Map.empty" by (simp add: measurement_ok_def)
  from terrestrial_repaired [OF assms(1) ok(1-3) this, of lo 0 "17 / 2" b hi mx 1 did now "''near_rt''" "Some seed"
      "map_option map_of prov"] ok(4) assms(5,7)
  obtain d where "dispose pl (default_terrestrial_shield pl (Fin lo) (Fin hi) (Fin mx) None (Fin (17 / 2)) (Fin 1) (Fin 0))
      did now ''near_rt'' (Some seed) (map_option map_of prov) (policy_action ch em (Fin f) ?plan (Fin p) ?cfg) Map.empty = Inr d"
    "\<not> cert_emit_blocked (disp_certificate d)" by auto
  then show ?thesis using \<open>q \<noteq> []\<close> act(1) by (simp add: decide_and_record_def Let_def hd)
qed

text \<open>
  Every decision is on the record: appended to an intact JSONL log whose codec can store it, the log still
  verifies, the record carries the corrections of the certificate, and the result its chain hash.
\<close>

theorem decision_is_recorded:
  assumes "sha_ok sha" and "jsonl.good sha c f"
    and "decide_and_record pl sha (\<lambda>r s. jsonl_append sha c ctx r s) q obs cfg None (Some f) meth pwr did now seed prov =
           Inr (r, Some f')"
    and "storable id c (stamp ctx (dsa_decision_record r))"
  shows "store_verify sha c (jsonl_iter c active f') = Inr (- 1) \<and>
    map cc_constraint_id (dr_corrections (dsa_decision_record r)) = map constraint_id (cert_corrections (dsa_certificate r)) \<and>
    (\<exists>h. dsa_chain_hash r = Some h \<and> jsonl_append sha c ctx (dsa_decision_record r) f = Inr (f', h))"
proof -
  obtain h where h: "dsa_chain_hash r = Some h" "jsonl_append sha c ctx (dsa_decision_record r) f = Inr (f', h)"
    using assms(3) by (auto simp: decide_and_record_def Let_def bindE_eq_Inr split: if_splits)
  have "jsonl.good sha c f'" by (rule jsonl.good_append [OF assms(1,2,4) h(2)])
  moreover obtain channel disp where "dsa_decision_record r = dsa_record sha cfg did now seed meth obs channel disp prov"
    "dsa_certificate r = disp_certificate disp" using decide_parts [OF assms(3)] by metis
  ultimately show ?thesis
    using h jsonl.good_verifies [OF assms(1)] by (auto simp: dsa_record_def Let_def correction_of_def)
qed

lemma state_payload_inj: "state_payload obs ch = state_payload obs' ch' \<Longrightarrow> ch = ch' \<and> obs = obs'"
proof -
  have comma: "CHR '','' \<notin> set (int_str (int n))" for n
    using int_str_token(1) [of "int n"] by (auto simp: list_all_iff delim_def)
  have split: "xs @ CHR '','' # zs = ys @ CHR '','' # ws \<Longrightarrow> CHR '','' \<notin> set xs \<Longrightarrow> CHR '','' \<notin> set ys \<Longrightarrow>
      xs = ys \<and> zs = ws" for xs ys zs ws :: string
    by (auto simp: append_eq_append_conv2 append_eq_Cons_conv Cons_eq_append_conv)
  assume "state_payload obs ch = state_payload obs' ch'"
  then have "int_str (int ch) @ CHR '','' # ([CHR 0x22] @ ''obs'' @ [CHR 0x22] @ '':'' @ int_str (int obs) @ ''}'') =
      int_str (int ch') @ CHR '','' # ([CHR 0x22] @ ''obs'' @ [CHR 0x22] @ '':'' @ int_str (int obs') @ ''}'')"
    by (simp add: state_payload_def)
  from split [OF this comma comma] show ?thesis by (simp add: int_str_inj)
qed

text \<open>
  The default plan does not tile: with six channels the 20 MHz carriers of neighbouring channels overlap,
  and the first one's reaches below the band.
\<close>

theorem default_carriers_overlap:
  assumes "exact pl" and "k < 5"
  shows "\<exists>f f'. channel_center_hz pl \<lparr>plan_lo = Fin 3400000000, plan_hi = Fin 3500000000, plan_channels = 6, plan_bw = Fin 20000000\<rparr> k = Inr (Fin f) \<and>
    channel_center_hz pl \<lparr>plan_lo = Fin 3400000000, plan_hi = Fin 3500000000, plan_channels = 6, plan_bw = Fin 20000000\<rparr> (k + 1) = Inr (Fin f') \<and>
    f' - 20000000 / 2 < f + 20000000 / 2 \<and> (k = 0 \<longrightarrow> f - 20000000 / 2 < 3400000000)"
  using assms
  by (intro exI [of _ "3400000000 + 50000000 / 3 * (real k + 1 / 2)"] exI [of _ "3400000000 + 50000000 / 3 * (real k + 3 / 2)"])
    (simp add: channel_center_hz_def int_to_float_def field_simps)

section \<open>Witnesses\<close>

lemma demo_plan:
  "action_from_policy exact_platform [[900, 0, 0]] 0 \<lparr>plan_lo = Fin 3400000000, plan_hi = Fin 3500000000, plan_channels = 2,
     plan_bw = Fin 20000000\<rparr> dsa_decision_default (Fin 20) =
   Inr (0, policy_action 0 True (Fin 3425000000) \<lparr>plan_lo = Fin 3400000000, plan_hi = Fin 3500000000, plan_channels = 2,
     plan_bw = Fin 20000000\<rparr> (Fin 20) dsa_decision_default)"
  by (simp add: action_from_policy_def greedy_action_def at_index_def argmax_def channel_center_hz_def int_to_float_def)

theorem poisoned_policy_never_blocks_witness:
  "\<exists>r. decide_and_record exact_platform demo_sha (\<lambda>r (s :: jfile). Inr (s, [])) [[900, 0, 0]] 0 dsa_decision_default
     None None ''krum'' (Fin 60) ''d'' ''now'' 0 None = Inr (r, None) \<and> \<not> cert_emit_blocked (dsa_certificate r)"
  unfolding dsa_decision_default_def
  by (rule poisoned_policy_never_blocks [of _ 1 3]) (simp_all add: qtable_ok_def)

lemma demo_clean_action:
  "\<exists>d. dispose exact_platform (default_terrestrial_shield exact_platform (Fin 3400000000) (Fin 3500000000) (Fin 33) None
      (Fin (17 / 2)) (Fin 1) (Fin 0)) did now ''near_rt'' (Some 0) None
      (policy_action 0 True (Fin 3425000000) \<lparr>plan_lo = Fin 3400000000, plan_hi = Fin 3500000000, plan_channels = 2,
         plan_bw = Fin 20000000\<rparr> (Fin 20) dsa_decision_default) Map.empty = Inr d \<and> \<not> cert_emit_blocked (disp_certificate d)"
proof -
  let ?plan = "\<lparr>plan_lo = Fin 3400000000, plan_hi = Fin 3500000000, plan_channels = 2, plan_bw = Fin 20000000\<rparr>"
  have ok: "sanity_problems exact_platform (policy_action 0 True (Fin 3425000000) ?plan (Fin 20) dsa_decision_default) = []"
    "\<not> blocked (policy_action 0 True (Fin 3425000000) ?plan (Fin 20) dsa_decision_default)"
    "order_numeric (policy_action 0 True (Fin 3425000000) ?plan (Fin 20) dsa_decision_default)"
    "fget exact_platform (policy_action 0 True (Fin 3425000000) ?plan (Fin 20) dsa_decision_default) ''bandwidth_hz'' (Fin 0) =
      Inr (Fin 20000000)"
    using policy_action_ok [OF exact_exact_platform, of 3425000000 20000000 ?plan dsa_decision_default 6 0 True 20]
    by (simp_all add: dsa_decision_default_def)
  have "measurement_ok exact_platform Map.empty" by (simp add: measurement_ok_def)
  from terrestrial_repaired [OF exact_exact_platform ok(1-3) this, of 3400000000 0 "17 / 2" 20000000 3500000000 33 1 did now
      "''near_rt''" "Some 0" None] ok(4) show ?thesis by auto
qed


definition echo_codec :: "decision_record \<Rightarrow> codec" where
  "echo_codec r = \<lparr>canonical_json = (\<lambda>_. ''x''), parse_record = (\<lambda>_. Inr r), json_tenant = (\<lambda>_. None)\<rparr>"

theorem decision_is_recorded_witness:
  "\<exists>r f c. decide_and_record exact_platform demo_sha (\<lambda>r s. jsonl_append demo_sha c None r s) [[900, 0, 0]] 0 dsa_decision_default
     None (Some []) ''krum'' (Fin 20) ''d'' ''now'' 0 None = Inr (r, Some f) \<and>
     store_verify demo_sha c (jsonl_iter c None f) = Inr (- 1)"
proof -
  obtain d where d: "dispose exact_platform (default_terrestrial_shield exact_platform (Fin 3400000000) (Fin 3500000000) (Fin 33) None
      (Fin (17 / 2)) (Fin 1) (Fin 0)) ''d'' ''now'' ''near_rt'' (Some 0) None
      (policy_action 0 True (Fin 3425000000) \<lparr>plan_lo = Fin 3400000000, plan_hi = Fin 3500000000, plan_channels = 2,
         plan_bw = Fin 20000000\<rparr> (Fin 20) dsa_decision_default) Map.empty = Inr d"
    using demo_clean_action by blast
  let ?r = "dsa_record demo_sha dsa_decision_default ''d'' ''now'' 0 ''krum'' 0 0 d None"
  let ?c = "echo_codec (stamp None ?r)"
  have "\<exists>f h. jsonl_append demo_sha ?c None ?r [] = Inr (f, h)"
    using chain_total [OF ZERO_digest, where x = "''x''" and sha = demo_sha]
    by (auto simp: jsonl_append_def Let_def jsonl_last_hash_def echo_codec_def)
  then obtain f h where f: "jsonl_append demo_sha ?c None ?r [] = Inr (f, h)" by blast
  have "\<exists>r. decide_and_record exact_platform demo_sha (\<lambda>r s. jsonl_append demo_sha ?c None r s) [[900, 0, 0]] 0 dsa_decision_default
     None (Some []) ''krum'' (Fin 20) ''d'' ''now'' 0 None = Inr (r, Some f) \<and> dsa_decision_record r = ?r"
    using demo_plan d f by (simp add: decide_and_record_def Let_def) (simp add: dsa_decision_default_def)
  then obtain r where r: "decide_and_record exact_platform demo_sha (\<lambda>r s. jsonl_append demo_sha ?c None r s) [[900, 0, 0]] 0
     dsa_decision_default None (Some []) ''krum'' (Fin 20) ''d'' ''now'' 0 None = Inr (r, Some f)" "dsa_decision_record r = ?r" by blast
  have "jsonl.good demo_sha ?c []" by (rule jsonl.good_empty) (simp_all add: jfile_ok_def)
  moreover have "storable id ?c (stamp None (dsa_decision_record r))" by (simp add: r(2) storable_def echo_codec_def)
  ultimately show ?thesis
    using decision_is_recorded [OF demo_sha_ok _ r(1)] r(1) by blast
qed

theorem default_carriers_overlap_witness:
  "\<exists>f f'. channel_center_hz exact_platform \<lparr>plan_lo = Fin 3400000000, plan_hi = Fin 3500000000, plan_channels = 6, plan_bw = Fin 20000000\<rparr> 0 = Inr (Fin f) \<and>
     f' - 20000000 / 2 < f + 20000000 / 2 \<and> f - 20000000 / 2 < 3400000000"
  using default_carriers_overlap [OF exact_exact_platform, of 0] by auto

end
