(* ===== verification/Spec2Isabelle.thy ===== *)
theory Spec2Isabelle
  imports PipelineProps Access Nis2 Lineage DataManifest ShieldWitness EmitGuards LoopState AtomicPromotion EvidenceConcurrent SecureMean VerifiableSecAgg
    Robust Unlearning KpmBridge O1Adapter DashboardProps Dp ShieldEnv DsaDecision Alarms Degradation Breaker Storage Monitor
begin

text \<open>
  A verification library for the rApp \<open>horizon_ric\<close> (\<open>src/src/horizon_ric\<close>): a controller for dynamic
  spectrum access in an O-RAN network whose learned policies only act through a safety shield, and
  whose decisions leave tamper-evident records.

  The program. An event of the network enters the decision pipeline: a planner derives candidate
  policies and picks one, the Decision Safety Shield checks the radio action against a chain of
  invariants, projects it back into the feasible region when it can, and issues a certificate. Guards
  then decide whether the policy may be emitted; if so, the A1 adapter sends it through a circuit
  breaker, and the pipeline polls its enforcement. Every decision, with its certificate and its
  rejected alternatives, is appended to a hash-chained evidence store under the tenant in scope;
  certificates and model releases are signed. The daemon feeds the pipeline from a telemetry source,
  event by event, with a checkpoint it resumes from; the lifecycle boots the rApp over the R1 and A1
  interfaces, keeps its watchdog and checkpoints going, and drains it at the end; operators read the
  evidence and the state through a dashboard API. A loop machine, a shadow executor, an artefact
  vault and an atomic promoter govern how a newly trained model replaces the active one; model cards
  and data manifests record where it came from; the models may be trained across clients with secure
  and robust aggregation, and a client's data can be erased from them or its influence unlearned. Around
  these run the degraded-mode controller, the liveness registry, the alarm bus, the state checkpoints,
  the connector registry, the measurement bridge of the E2 interface, the token issuer and the request
  middleware, and the NIS2 incident clock.

  Theories, with the files they model (paths below \<open>src/src/horizon_ric\<close>):

    \<^item> \<open>Prelude\<close>, \<open>PyValue\<close>, \<open>Json\<close>: exceptions as values, runs of state machines (the locales
      \<open>guarded_machine\<close> and \<open>total_machine\<close>), dictionaries, slices; Python's dynamic values, its floats
      with NaN and infinities, the coercions \<open>float\<close>, \<open>int\<close>, \<open>bool\<close>, \<open>str\<close>; the canonical \<open>json.dumps\<close>
      and that its text determines the value.
    \<^item> \<open>Certificate\<close>, \<open>LIConstraint\<close>, \<open>Invariants\<close>, \<open>Shield\<close>: \<open>shield/certificate.py\<close>,
      \<open>policy/li_constraint.py\<close>, \<open>shield/invariants.py\<close>, \<open>shield/shield.py\<close>. A Python invariant object
      is a record of its \<open>evaluate\<close> and \<open>project\<close>; the action and context dictionaries are maps from
      strings to values. \<open>contained_chain\<close> is the contract of a chain whose invariants raise only what
      the Shield catches; it is interpreted on both standard chains.
    \<^item> \<open>ShieldProps\<close>, \<open>ShieldPhysics\<close>, \<open>ShieldRepair\<close>, \<open>ShieldServices\<close>, \<open>ShieldWitness\<close>: what the
      Shield guarantees for any chain, what an emitted terrestrial or satellite action radiates, which
      actions are repaired, and the instances.
    \<^item> \<open>EmitGuards\<close>: \<open>policy/emit_guards.py\<close> and \<open>policy/guard_registry.py\<close>.
    \<^item> \<open>Counterfactual\<close>: \<open>policy/counterfactual.py\<close> and \<open>evidence/explanation.py\<close>.
    \<^item> \<open>A1Schema\<close>, \<open>A1Adapter\<close>: the JSON Schemas of the policy types with a validator, and the adapter,
      \<open>rapp/a1_adapter.py\<close>.
    \<^item> \<open>Pipeline\<close>, \<open>PlannerProps\<close>, \<open>PipelineProps\<close>: \<open>rapp/pipeline.py\<close>, composed from the Shield, the
      guards, the counterfactual builder, the breaker, the adapter and the store as \<open>process_event\<close>
      composes them; what the planner proposes and decides, and what a run does.
    \<^item> \<open>Signing\<close>: \<open>shield/signing.py\<close>, \<open>provenance/signing.py\<close> and the in-memory key store of
      \<open>security/hsm.py\<close>.
    \<^item> \<open>Jwt\<close>, \<open>Access\<close>: \<open>security/jwt.py\<close>, \<open>security/middleware.py\<close> and \<open>rapp/auth.py\<close>.
    \<^item> \<open>Nis2\<close>: \<open>security/nis2_reporter.py\<close>.
    \<^item> \<open>LoopState\<close>, \<open>AtomicPromotion\<close>: \<open>runtime/loop_state.py\<close> and \<open>runtime/atomic_promotion.py\<close>, the
      latter as atomic sections that interleave (begin and end of a drain, taking and releasing a slot).
    \<^item> \<open>EvidenceSchema\<close>, \<open>EvidenceChain\<close>, \<open>EvidenceBackends\<close>, \<open>EvidenceProps\<close>: \<open>evidence/schema.py\<close>,
      \<open>security/tenant.py\<close> and \<open>evidence/store.py\<close>. \<open>evidence_backend\<close> is the interface of a store,
      refined by the JSONL, SQLite and PostgreSQL models.
    \<^item> \<open>EvidenceConcurrent\<close>: the appends of \<open>evidence/store.py\<close> as a step relation of threads that take a
      lock, read, write and release; \<open>tenant_locks\<close> is the contract of a lock that serialises a tenant.
    \<^item> \<open>Lineage\<close>, \<open>DataManifest\<close>: \<open>evidence/ai_phy_lineage.py\<close> and \<open>data/lineage.py\<close>.
    \<^item> \<open>ModArith\<close>, \<open>Shamir\<close>, \<open>SecureMean\<close>, \<open>VerifiableSecAgg\<close>, \<open>Robust\<close>: \<open>federated/secure.py\<close>,
      \<open>federated/verifiable_secagg.py\<close> and \<open>federated/robust.py\<close>.
    \<^item> \<open>Alarms\<close>, \<open>Degradation\<close>, \<open>Breaker\<close>: \<open>observability/x733_alarms.py\<close>,
      \<open>runtime/graceful_degradation.py\<close> and \<open>runtime/circuit_breaker.py\<close>, which meet at the alarm bus.
    \<^item> \<open>Storage\<close>: \<open>runtime/state_recovery.py\<close> and \<open>runtime/artefact_vault.py\<close>.
    \<^item> \<open>Monitor\<close>: \<open>runtime/liveness.py\<close> and \<open>runtime/shadow_executor.py\<close>.
    \<^item> \<open>Dsa\<close>, \<open>FedQ\<close>, \<open>Attacks\<close>, \<open>DataPoison\<close>, \<open>DsaDecision\<close>: \<open>spectrum/dsa_env.py\<close>,
      \<open>spectrum/federated_q.py\<close>, \<open>spectrum/attacks.py\<close>, \<open>spectrum/data_poison.py\<close> and \<open>spectrum/pipeline.py\<close>:
      the spectrum environment, federated Q-learning over it and the attacks on it, and the decision
      that passes the learned carrier through the Shield into the evidence store.
    \<^item> \<open>Erasure\<close>, \<open>Unlearning\<close>, \<open>PoisonAttacks\<close>: \<open>federated/erasure.py\<close>, \<open>federated/unlearning.py\<close> and
      \<open>federated/poison_attacks.py\<close>: exact erasure of a subject with its certificate, the two mechanisms
      of unlearning a client, and the attacks on model updates.
    \<^item> \<open>KpmBridge\<close>: \<open>e2/kpm_bridge.py\<close>, from E2 indications to pipeline events.
    \<^item> \<open>Lifecycle\<close>: \<open>rapp/lifecycle.py\<close> with \<open>rapp/r1_adapter.py\<close>, \<open>runtime/watchdog.py\<close>,
      \<open>rapp/sd_notify.py\<close> and \<open>rapp/health.py\<close>: configuration, boot, the main run, the drain, the probes.
    \<^item> \<open>Daemon\<close>: \<open>rapp/daemon.py\<close>: configuration, checkpoint, sources, the event loop, report and exit
      code. \<open>processor\<close> is what the loop relies on of the pipeline; it is interpreted on \<open>process_event\<close>.
    \<^item> \<open>O1Adapter\<close>: \<open>rapp/o1_adapter.py\<close>.
    \<^item> \<open>Connectors\<close>: \<open>io/connector.py\<close>, \<open>io/registry.py\<close> and the file and HTTP connectors.
    \<^item> \<open>Dashboard\<close>, \<open>DashboardProps\<close>: \<open>rapp/dashboard_api.py\<close>: passwords, tokens, roles and every
      endpoint, as one function \<open>serve\<close> of the request, over the store, lifecycle and registry above.
    \<^item> \<open>ShieldEnv\<close>: \<open>learning/shield_env.py\<close>, the environment whose steps execute Shield projections.
    \<^item> \<open>Dp\<close>: \<open>federated/dp.py\<close>, clipping, the Renyi accountant, the noise solver and the releases.

  Conventions. A function that may raise returns \<open>py_exn + 'a\<close>; a method is a function from the
  object's record to its new record. Definitions keep the code's names, with a suffix where HOL has the
  name. Times, random draws, ids and the outcomes of I/O are arguments.

  Floats. The Shield, the guards, the pipeline, the shadow executor and the incident clock compute with
  \<open>pyfloat\<close> through a \<open>platform\<close>, whose \<open>rnd\<close> rounds every finite result; safety theorems hold for every
  rounding, and theorems on values assume \<open>exact\<close> arithmetic and say so. \<open>Robust\<close>, the
  learning theories, \<open>Dp\<close>, clocks and ages use exact reals.

  What is shown. Safety: an action that is not blocked satisfies all invariants on what is returned,
  malformed payloads never pass, plug-in guards cannot weaken the built-in ones; whatever reaches
  the network was certified, audited and of a registered type, and every decision leaves exactly one
  audit record; a promotion follows a validation, a drain waits for its readers, a truncated or
  altered chain, certificate or dataset is found; a token is accepted only under a live key, and a
  protected path is served only to an entitled caller; the dashboard issues a token only for the
  right password and the token opens what its role may open; credentials of the network clients are
  complete or unused. Resumption: no event of a telemetry file is skipped over a restart, a shutdown
  leaves no task of the drain behind, and the chain verifies after any run and under any
  interleaving of appends. Types: every payload the planner proposes conforms to the schema of its
  type. Function: the guards, the planner, the registry of active alarms, the incident trigger,
  repairs, secret sharing and aggregation are what their contracts say. Refinement: the stores
  implement one abstract chain, and erasing a subject equals training without it. Termination:
  replaying a lineage ends unless digests form a cycle. Robustness: the influence of Byzantine
  clients is bounded for each robust aggregator and through whole campaigns of federated learning;
  whatever table they leave behind, the carrier that is emitted is legal; the noise solver ends and
  meets its privacy target; a checkpoint survives a crash at any point. Several lemmas state where
  the code falls short of its documentation: a slot released to the wrong counter after a rollback,
  shares cut short that still verify, an alarm shared between breakers, a recovery that hides a
  second failure, a half-open breaker that admits every call, NaN outcomes that bypass the
  calibration gate, a damaged artefact that storing does not repair, an integer risk that aborts the
  pipeline, a vendor's policy type that stops registration, a release record that verifies for
  another trainer, a missing dataset that has a digest, two processes that fork an evidence file, a
  breaker that never opens, a plug-in whose name clash hides the others, a hash entry that makes
  every login of its user fail with an internal error, and any role reading the records of all
  tenants.

  Bounds. The Shield makes at most \<open>max_passes\<close> (8 by default) projection passes, as in the code; \<open>dispose\<close>
  is total for every bound, and one pass suffices for the terrestrial repair theorem. The status poll of
  the pipeline takes its number of attempts (at least one) from the configuration and recurses on it.
  The replay of a lineage, the loops of the noise solver and the doubling search of the Min-Max attack
  have no bound in the code and are \<open>partial_function\<close>s with their termination theorems. The loops that
  run as long as the process (the daemon's, the main run's, polling) take the list of what happens to
  them; their theorems hold for every such list. All other recursion is structural or has a proved measure.

  Parameters. SHA-256, the derivation inside PBKDF2, the JSON and YAML codecs, the texts of floats and
  dates, the calendar, the ASN.1 decoder, Postgres' JSONB normalisation, installed plug-ins, the sinks,
  the clock, random draws, coefficients and masks, the prime-order group, the HTTP client, the NETCONF
  session, what a Kafka source yields, the notify socket, Ed25519 and RSA, python-jose (\<open>jose_ok\<close>,
  \<open>hs256_ok\<close>), Casbin, OpenSSL, and pybreaker (\<open>pybreaker_ok\<close>). Hypotheses on them state documented
  behaviour, stand in the theorems and have instances.

  Not modelled. \<open>phy\<close> is numerical simulation and neural receivers on arrays, whose content is floating
  point; \<open>evidence/rfc3161.py\<close>, \<open>security/hsm.py\<close> beyond its in-memory store, \<open>security/rbac.py\<close>, the Kafka
  connector and the tracing set-up only drive third-party clients; \<open>rapp/api_v1.py\<close> serves seeded
  demonstration data and \<open>rapp/api.py\<close> is a scaffold around the modelled middleware; \<open>cli.py\<close> and the
  scripts parse arguments; model cards are rendering. Logging, metrics, the web servers and signal
  handlers are left out everywhere, and so are the experiments under \<open>benchmarks\<close>, which run the modelled
  components on data sets.
\<close>

end
